(* ===== verification/Prelude.thy ===== *)
theory Prelude
  imports Main "HOL-Library.Sublist"
begin

text \<open>
  Shared vocabulary of the development.

  Errors are values: an operation of the source that can throw returns
  \<open>'e + 'a\<close>, \<open>Inl\<close> for the thrown error.  The theory holds the fact collections
  the component proofs use (\<open>dev_defs\<close> for definitions a proof unfolds,
  \<open>inv_intros\<close> for preservation of invariants), the list of
  order-preserving de-duplication functions the TypeScript code writes again and
  again, and generic lemmas on lists, options and sums.
\<close>

named_theorems dev_defs "definitions unfolded by component proofs"
named_theorems inv_intros "preservation lemmas of the component invariants"

section \<open>Results\<close>

abbreviation ok :: "'a \<Rightarrow> 'e + 'a" where
  "ok \<equiv> Inr"

abbreviation throw :: "'e \<Rightarrow> 'e + 'a" where
  "throw \<equiv> Inl"

definition and_then :: "'e + 'a \<Rightarrow> ('a \<Rightarrow> 'e + 'b) \<Rightarrow> 'e + 'b" where
  "and_then r f = (case r of Inl e \<Rightarrow> Inl e | Inr x \<Rightarrow> f x)"

lemma and_then_simps [simp]:
  "and_then (Inl e) f = Inl e"
  "and_then (Inr x) f = f x"
  by (simp_all add: and_then_def)

lemma and_then_eq_Inr [simp]:
  "and_then r f = Inr y \<longleftrightarrow> (\<exists>x. r = Inr x \<and> f x = Inr y)"
  by (cases r) simp_all

text \<open>A traversal that stops at the first error, as a \<open>for\<close> loop that throws does.\<close>

fun traverse :: "('a \<Rightarrow> 'e + 'b) \<Rightarrow> 'a list \<Rightarrow> 'e + 'b list" where
  "traverse f [] = Inr []"
| "traverse f (x # xs) =
     and_then (f x) (\<lambda>y. and_then (traverse f xs) (\<lambda>ys. Inr (y # ys)))"

lemma traverse_Inr_length: "traverse f xs = Inr ys \<Longrightarrow> length ys = length xs"
  by (induction xs arbitrary: ys) auto

lemma traverse_Inr_nth:
  "traverse f xs = Inr ys \<Longrightarrow> i < length xs \<Longrightarrow> f (xs ! i) = Inr (ys ! i)"
proof (induction xs arbitrary: ys i)
  case Nil
  then show ?case by simp
next
  case (Cons x xs)
  then show ?case by (cases i) auto
qed

lemma traverse_all_Inr:
  "(\<And>x. x \<in> set xs \<Longrightarrow> f x = Inr (g x)) \<Longrightarrow> traverse f xs = Inr (map g xs)"
  by (induction xs) auto

text \<open>A stateful loop that stops at the first error.\<close>

fun fold_result :: "('s \<Rightarrow> 'a \<Rightarrow> 'e + 's) \<Rightarrow> 's \<Rightarrow> 'a list \<Rightarrow> 'e + 's" where
  "fold_result f s [] = Inr s"
| "fold_result f s (x # xs) = and_then (f s x) (\<lambda>s'. fold_result f s' xs)"

lemma fold_result_append:
  "fold_result f s (xs @ ys) = and_then (fold_result f s xs) (\<lambda>s'. fold_result f s' ys)"
proof (induction xs arbitrary: s)
  case (Cons x xs)
  then show ?case by (cases "f s x") auto
qed simp

text \<open>An invariant that may speak of the elements already processed.\<close>

lemma fold_result_invariant:
  assumes "fold_result f s xs = Inr t" "P [] s"
    and "\<And>ys y zs u v. xs = ys @ y # zs \<Longrightarrow> P ys u \<Longrightarrow> f u y = Inr v \<Longrightarrow> P (ys @ [y]) v"
  shows "P xs t"
proof -
  have "P ys u" if "xs = ys @ zs" "fold_result f s ys = Inr u" for ys zs u
    using that
  proof (induction ys arbitrary: zs u rule: rev_induct)
    case Nil
    with assms(2) show ?case by simp
  next
    case (snoc y ys)
    from snoc.prems(2) obtain w where w: "fold_result f s ys = Inr w" "f w y = Inr u"
      by (auto simp: fold_result_append)
    with snoc show ?case by (intro assms(3) [of ys y zs w]) auto
  qed
  from this [of xs "[]"] assms(1) show ?thesis by simp
qed

section \<open>First-occurrence de-duplication\<close>

text \<open>
  \<open>dedupe_from seen xs\<close> is the loop
  \<^verbatim>\<open>for (x of xs) { if (seen.has(x)) continue; seen.add(x); out.push(x); }\<close>;
  it is also what \<^verbatim>\<open>Array.from(new Set(xs))\<close> returns, as a JavaScript \<open>Set\<close>
  iterates in insertion order.
\<close>

fun dedupe_from :: "'a list \<Rightarrow> 'a list \<Rightarrow> 'a list" where
  "dedupe_from seen [] = []"
| "dedupe_from seen (x # xs) =
     (if x \<in> set seen then dedupe_from seen xs
      else x # dedupe_from (x # seen) xs)"

definition dedupe :: "'a list \<Rightarrow> 'a list" where
  "dedupe xs = dedupe_from [] xs"

lemma set_dedupe_from: "set (dedupe_from seen xs) = set xs - set seen"
  by (induction seen xs rule: dedupe_from.induct) auto

lemma distinct_dedupe_from: "distinct (dedupe_from seen xs)"
  by (induction seen xs rule: dedupe_from.induct) (auto simp: set_dedupe_from)

lemma set_dedupe [simp]: "set (dedupe xs) = set xs"
  by (simp add: dedupe_def set_dedupe_from)

lemma distinct_dedupe [simp]: "distinct (dedupe xs)"
  by (simp add: dedupe_def distinct_dedupe_from)

lemma dedupe_from_cong: "set s = set t \<Longrightarrow> dedupe_from s xs = dedupe_from t xs"
  by (induction s xs arbitrary: t rule: dedupe_from.induct) auto

lemma dedupe_from_distinct:
  "distinct xs \<Longrightarrow> set xs \<inter> set seen = {} \<Longrightarrow> dedupe_from seen xs = xs"
  by (induction seen xs rule: dedupe_from.induct) auto

lemma dedupe_id: "distinct xs \<Longrightarrow> dedupe xs = xs"
  by (simp add: dedupe_def dedupe_from_distinct)

lemma dedupe_Nil [simp]: "dedupe [] = []"
  by (simp add: dedupe_def)

lemma dedupe_eq_Nil [simp]: "dedupe xs = [] \<longleftrightarrow> xs = []"
  by (metis empty_set set_dedupe set_empty)

lemma dedupe_from_append:
  "dedupe_from seen (xs @ ys) = dedupe_from seen xs @ dedupe_from (rev xs @ seen) ys"
proof (induction seen xs rule: dedupe_from.induct)
  case (1 seen)
  then show ?case by simp
next
  case (2 seen x xs)
  have "dedupe_from (rev xs @ seen) ys = dedupe_from (rev (x # xs) @ seen) ys" if "x \<in> set seen"
    by (rule dedupe_from_cong) (use that in auto)
  with 2 show ?case by auto
qed

lemma dedupe_append:
  "dedupe (xs @ ys) = dedupe xs @ filter (\<lambda>y. y \<notin> set xs) (dedupe ys)"
proof -
  have "dedupe_from s ys = filter (\<lambda>y. y \<notin> set s) (dedupe_from t ys)"
    if "set t \<subseteq> set s" for s t
    using that
  proof (induction t ys arbitrary: s rule: dedupe_from.induct)
    case (1 t)
    then show ?case by simp
  next
    case (2 t y ys)
    show ?case
    proof (cases "y \<in> set s")
      case True
      have "dedupe_from s ys = dedupe_from (y # s) ys"
        by (rule dedupe_from_cong) (use True in auto)
      moreover have "filter (\<lambda>z. z \<notin> set s) = filter (\<lambda>z. z \<notin> set (y # s))"
        using True by (auto intro!: ext filter_cong)
      ultimately show ?thesis
        using True "2.IH"(1) [of s] "2.IH"(2) [of "y # s"] "2.prems" by auto
    next
      case False
      then have "y \<notin> set t" using "2.prems" by auto
      moreover have "filter (\<lambda>z. z \<notin> set (y # s)) (dedupe_from (y # t) ys)
          = filter (\<lambda>z. z \<notin> set s) (dedupe_from (y # t) ys)"
        by (rule filter_cong) (auto simp: set_dedupe_from)
      ultimately show ?thesis
        using False "2.IH"(2) [of "y # s"] "2.prems" by auto
    qed
  qed
  from this [of "[]" "rev xs @ []"] show ?thesis
    by (simp add: dedupe_def dedupe_from_append)
qed

section \<open>Generic lemmas\<close>

lemma dropWhile_append_all:
  "(\<forall>x \<in> set xs. P x) \<Longrightarrow> dropWhile P (xs @ ys) = dropWhile P ys"
  by (induction xs) auto

lemma takeWhile_all: "(\<forall>x \<in> set xs. P x) \<Longrightarrow> takeWhile P xs = xs"
  by (simp add: takeWhile_eq_all_conv)

lemma dropWhile_hd: "xs \<noteq> [] \<Longrightarrow> \<not> P (hd xs) \<Longrightarrow> dropWhile P xs = xs"
  by (cases xs) auto

lemma dropWhile_idem: "dropWhile P (dropWhile P xs) = dropWhile P xs"
  by (induction xs) auto

lemma case_sum_eq_Inr:
  "(case r of Inl e \<Rightarrow> Inl e | Inr x \<Rightarrow> f x) = Inr y \<longleftrightarrow> (\<exists>x. r = Inr x \<and> f x = Inr y)"
  by (cases r) auto

lemma option_bind_Some:
  "(case m of None \<Rightarrow> None | Some x \<Rightarrow> f x) = Some y \<longleftrightarrow> (\<exists>x. m = Some x \<and> f x = Some y)"
  by (cases m) auto

end
