(* ===== verification/JsString.thy ===== *)
theory JsString
  imports Prelude
begin

text \<open>
  The string operations of the JavaScript standard library that the modelled code uses.

  A JavaScript string is a sequence of 16-bit code units.  The model's \<open>string\<close> is a list
  of \<open>char\<close>, which are the code units below 256 (Latin-1); \<open>length\<close>, indexing and slicing
  then agree with JavaScript's.  \<open>is_ws\<close> is the class \<^verbatim>\<open>\s\<close> restricted to those
  units, which is also the set \<^verbatim>\<open>trim\<close> strips.
\<close>

section \<open>Character classes\<close>

abbreviation code :: "char \<Rightarrow> nat" where
  "code \<equiv> of_char"

definition is_ws :: "char \<Rightarrow> bool" where
  "is_ws c \<longleftrightarrow> (9 \<le> code c \<and> code c \<le> 13) \<or> code c = 32 \<or> code c = 160"

definition is_digit :: "char \<Rightarrow> bool" where
  "is_digit c \<longleftrightarrow> 48 \<le> code c \<and> code c \<le> 57"

definition is_alpha :: "char \<Rightarrow> bool" where
  "is_alpha c \<longleftrightarrow> (65 \<le> code c \<and> code c \<le> 90) \<or> (97 \<le> code c \<and> code c \<le> 122)"

definition is_alnum :: "char \<Rightarrow> bool" where
  "is_alnum c \<longleftrightarrow> is_alpha c \<or> is_digit c"

text \<open>The class \<^verbatim>\<open>[A-Za-z0-9_.-]\<close>, which several grammars of the source share.\<close>

definition is_name_part :: "char \<Rightarrow> bool" where
  "is_name_part c \<longleftrightarrow> is_alnum c \<or> c = CHR ''_'' \<or> c = CHR ''.'' \<or> c = CHR ''-''"

abbreviation newline :: char where
  "newline \<equiv> CHR 0x0A"

abbreviation carriage_return :: char where
  "carriage_return \<equiv> CHR 0x0D"

lemmas char_class_defs =
  is_ws_def is_digit_def is_alpha_def is_alnum_def is_name_part_def

section \<open>Trimming\<close>

definition js_trim :: "string \<Rightarrow> string" where
  "js_trim s = rev (dropWhile is_ws (rev (dropWhile is_ws s)))"

definition trimmed :: "string \<Rightarrow> bool" where
  "trimmed s \<longleftrightarrow> s = [] \<or> (\<not> is_ws (hd s) \<and> \<not> is_ws (last s))"

lemma js_trim_Nil [simp]: "js_trim [] = []"
  by (simp add: js_trim_def)

lemma js_trim_id: "trimmed s \<Longrightarrow> js_trim s = s"
  by (cases "s = []") (auto simp: js_trim_def trimmed_def dropWhile_hd hd_rev)

lemma js_trim_split: "\<exists>a b. s = a @ js_trim s @ b \<and> (\<forall>x \<in> set a. is_ws x) \<and> (\<forall>x \<in> set b. is_ws x)"
proof -
  let ?d = "dropWhile is_ws s"
  have s: "s = takeWhile is_ws s @ ?d" by simp
  have "rev ?d = takeWhile is_ws (rev ?d) @ dropWhile is_ws (rev ?d)" by simp
  then have "?d = js_trim s @ rev (takeWhile is_ws (rev ?d))"
    unfolding js_trim_def by (metis rev_append rev_rev_ident)
  with s have "s = takeWhile is_ws s @ js_trim s @ rev (takeWhile is_ws (rev ?d))"
    by metis
  moreover have "\<forall>x \<in> set (takeWhile is_ws s). is_ws x"
    by (meson set_takeWhileD)
  moreover have "\<forall>x \<in> set (rev (takeWhile is_ws (rev ?d))). is_ws x"
    by (metis set_rev set_takeWhileD)
  ultimately show ?thesis by blast
qed

lemma dropWhile_hd_not: "dropWhile P xs \<noteq> [] \<Longrightarrow> \<not> P (hd (dropWhile P xs))"
  by (rule hd_dropWhile)

lemma trimmed_js_trim [simp]: "trimmed (js_trim s)"
proof (cases "js_trim s = []")
  case True
  then show ?thesis by (simp add: trimmed_def)
next
  case False
  let ?d = "dropWhile is_ws s"
  let ?e = "dropWhile is_ws (rev ?d)"
  have e: "?e \<noteq> []" using False by (simp add: js_trim_def)
  have "\<not> is_ws (last (js_trim s))"
    using hd_dropWhile [OF e] e by (simp add: js_trim_def last_rev)
  moreover have "\<not> is_ws (hd (js_trim s))"
  proof -
    have d: "?d \<noteq> []" using e by (metis dropWhile.simps(1) rev.simps(1))
    obtain p where "rev ?d = p @ ?e" by (metis takeWhile_dropWhile_id)
    then have "?d = rev ?e @ rev p" by (metis rev_append rev_rev_ident)
    then have "hd ?d = hd (rev ?e)" using e by (metis hd_append2 rev_is_Nil_conv)
    then show ?thesis using hd_dropWhile [OF d] by (simp add: js_trim_def)
  qed
  ultimately show ?thesis by (simp add: trimmed_def)
qed

lemma js_trim_idem [simp]: "js_trim (js_trim s) = js_trim s"
  by (simp add: js_trim_id)

lemma js_trim_eq_Nil: "js_trim s = [] \<longleftrightarrow> (\<forall>c \<in> set s. is_ws c)"
proof
  assume "js_trim s = []"
  with js_trim_split [of s] show "\<forall>c \<in> set s. is_ws c" by auto
next
  assume "\<forall>c \<in> set s. is_ws c"
  then have "dropWhile is_ws s = []" by (simp only: dropWhile_eq_Nil_conv)
  then show "js_trim s = []" by (simp only: js_trim_def rev.simps dropWhile.simps)
qed

lemma length_js_trim: "length (js_trim s) \<le> length s"
  unfolding js_trim_def by (metis length_dropWhile_le length_rev order_trans)

section \<open>Splitting and joining\<close>

text \<open>\<open>js_split c s\<close> is \<^verbatim>\<open>s.split(c)\<close> for a separator of one character.\<close>

fun js_split :: "char \<Rightarrow> string \<Rightarrow> string list" where
  "js_split c [] = [[]]"
| "js_split c (x # xs) =
     (if x = c then [] # js_split c xs
      else (case js_split c xs of [] \<Rightarrow> [[x]] | p # ps \<Rightarrow> (x # p) # ps))"

fun js_join :: "string \<Rightarrow> string list \<Rightarrow> string" where
  "js_join sep [] = []"
| "js_join sep [x] = x"
| "js_join sep (x # y # ys) = x @ sep @ js_join sep (y # ys)"

lemma js_split_not_Nil [simp]: "js_split c s \<noteq> []"
  by (induction s) (auto split: list.splits)

lemma js_split_no_sep: "p \<in> set (js_split c s) \<Longrightarrow> c \<notin> set p"
proof (induction s arbitrary: p)
  case Nil
  then show ?case by simp
next
  case (Cons x s)
  show ?case
  proof (cases "x = c")
    case True
    with Cons show ?thesis by auto
  next
    case False
    obtain q qs where q: "js_split c s = q # qs" by (cases "js_split c s") auto
    have "c \<notin> set q" by (rule Cons.IH) (simp add: q)
    moreover have "c \<notin> set r" if "r \<in> set qs" for r
      by (rule Cons.IH) (use that in \<open>simp add: q\<close>)
    ultimately show ?thesis using Cons.prems False q by auto
  qed
qed

lemma js_split_single: "c \<notin> set s \<Longrightarrow> js_split c s = [s]"
  by (induction s) auto

lemma js_split_append: "c \<notin> set p \<Longrightarrow> js_split c (p @ c # s) = p # js_split c s"
  by (induction p) auto

lemma js_join_split: "js_join [c] (js_split c s) = s"
proof (induction s)
  case Nil
  then show ?case by simp
next
  case (Cons x s)
  obtain q qs where q: "js_split c s = q # qs" by (cases "js_split c s") auto
  with Cons show ?case by (cases qs) auto
qed

lemma js_split_join:
  "xs \<noteq> [] \<Longrightarrow> \<forall>x \<in> set xs. c \<notin> set x \<Longrightarrow> js_split c (js_join [c] xs) = xs"
  by (induction "[c]" xs rule: js_join.induct) (auto simp: js_split_single js_split_append)

lemma length_js_split: "length (js_split c s) = Suc (count_list s c)"
proof (induction s)
  case Nil
  then show ?case by simp
next
  case (Cons x s)
  then show ?case by (cases "js_split c s") auto
qed

section \<open>Prefixes, slices, case and decimal rendering\<close>

definition js_starts_with :: "string \<Rightarrow> string \<Rightarrow> bool" where
  "js_starts_with s p \<longleftrightarrow> take (length p) s = p"

lemma js_starts_with_prefix: "js_starts_with s p \<longleftrightarrow> prefix p s"
  by (metis js_starts_with_def append_eq_conv_conj prefix_def)

lemma js_starts_with_append [simp]: "js_starts_with (p @ s) p"
  by (simp add: js_starts_with_def)

text \<open>\<^verbatim>\<open>s.slice(a, b)\<close> for indices that are not negative.\<close>

definition js_slice :: "string \<Rightarrow> nat \<Rightarrow> nat \<Rightarrow> string" where
  "js_slice s a b = take (b - a) (drop a s)"

definition lower_char :: "char \<Rightarrow> char" where
  "lower_char c =
     (if (65 \<le> code c \<and> code c \<le> 90) \<or> (192 \<le> code c \<and> code c \<le> 222 \<and> code c \<noteq> 215)
      then char_of (code c + 32) else c)"

definition js_lower :: "string \<Rightarrow> string" where
  "js_lower s = map lower_char s"

definition digit_char :: "nat \<Rightarrow> char" where
  "digit_char d = char_of (48 + d)"

definition digit_val :: "char \<Rightarrow> nat" where
  "digit_val c = code c - 48"

fun dec_nat :: "nat \<Rightarrow> string" where
  "dec_nat n = (if n < 10 then [digit_char n] else dec_nat (n div 10) @ [digit_char (n mod 10)])"

declare dec_nat.simps [simp del]

fun nat_of_digits :: "nat \<Rightarrow> string \<Rightarrow> nat" where
  "nat_of_digits acc [] = acc"
| "nat_of_digits acc (c # cs) = nat_of_digits (10 * acc + digit_val c) cs"

lemma digit_char_props:
  assumes "d < 10"
  shows "is_digit (digit_char d)" "digit_val (digit_char d) = d"
  using assms by (auto simp: digit_char_def digit_val_def is_digit_def)

lemma nat_of_digits_append:
  "nat_of_digits acc (xs @ ys) = nat_of_digits (nat_of_digits acc xs) ys"
  by (induction xs arbitrary: acc) auto

lemma nat_of_digits_dec_nat: "nat_of_digits 0 (dec_nat n) = n"
proof (induction n rule: dec_nat.induct)
  case (1 n)
  show ?case
    by (subst dec_nat.simps) (use 1 in \<open>auto simp: nat_of_digits_append digit_char_props\<close>)
qed

lemma dec_nat_digits: "c \<in> set (dec_nat n) \<Longrightarrow> is_digit c"
proof (induction n rule: dec_nat.induct)
  case (1 n)
  from "1.prems" show ?case
    by (subst (asm) dec_nat.simps) (use 1 in \<open>auto simp: digit_char_props split: if_splits\<close>)
qed

lemma dec_nat_not_Nil [simp]: "dec_nat n \<noteq> []"
  by (subst dec_nat.simps) simp

lemma dec_nat_inject: "dec_nat m = dec_nat n \<longleftrightarrow> m = n"
  by (metis nat_of_digits_dec_nat)

end
