(* ===== verification/DocScanner.thy ===== *)
theory DocScanner
  imports JsString
begin

text \<open>
  Source positions: packages/aionis-doc/src/diagnostics/types.ts and scanner/scanSource.ts.
  \<open>scanSource\<close> records where each line starts; \<open>findLineIndexAtOffset\<close> finds the line of an
  offset by binary search (its indices are integers, as \<open>high\<close> may become -1).  The lemmas
  show that the search returns the number of newlines before the offset, so that
  \<open>offsetToSourcePos\<close> reports the line and column an editor shows.
\<close>

record source_pos =
  line :: nat
  column :: nat
  offset :: nat

record source_range =
  range_start :: source_pos
  range_end :: source_pos

datatype severity = SevError | SevWarning | SevInfo

record diagnostic =
  severity :: severity
  diag_code :: string
  message :: string
  diag_loc :: source_range
  hint :: "string option"

record scan_result =
  source :: string
  lineStarts :: "nat list"

fun line_starts_from :: "nat \<Rightarrow> string \<Rightarrow> nat list" where
  "line_starts_from i [] = []"
| "line_starts_from i (c # cs) =
     (if c = newline then (i + 1) # line_starts_from (i + 1) cs
      else line_starts_from (i + 1) cs)"

definition scanSource :: "string \<Rightarrow> scan_result" where
  "scanSource s = \<lparr>source = s, lineStarts = 0 # line_starts_from 0 s\<rparr>"

function find_line :: "scan_result \<Rightarrow> int \<Rightarrow> int \<Rightarrow> int \<Rightarrow> int" where
  "find_line sc off low high =
     (if low \<le> high then
        (let mid = (low + high) div 2;
             start = int (lineStarts sc ! nat mid);
             next = (if mid + 1 < int (length (lineStarts sc))
                     then int (lineStarts sc ! nat (mid + 1))
                     else int (length (source sc)) + 1)
         in if off < start then find_line sc off low (mid - 1)
            else if next \<le> off then find_line sc off (mid + 1) high
            else mid)
      else max 0 (int (length (lineStarts sc)) - 1))"
  by pat_completeness auto
termination
  by (relation "measure (\<lambda>(sc, off, low, high). nat (high - low + 1))") auto

declare find_line.simps [simp del]

definition findLineIndexAtOffset :: "scan_result \<Rightarrow> int \<Rightarrow> int" where
  "findLineIndexAtOffset sc off = find_line sc off 0 (int (length (lineStarts sc)) - 1)"

definition offsetToSourcePos :: "scan_result \<Rightarrow> int \<Rightarrow> source_pos" where
  "offsetToSourcePos sc off =
     (let safe = max 0 (min off (int (length (source sc))));
          i = findLineIndexAtOffset sc safe
      in \<lparr>line = nat i + 1,
          column = nat (safe - int (lineStarts sc ! nat i) + 1),
          offset = nat safe\<rparr>)"

definition rangeFromOffsets :: "scan_result \<Rightarrow> int \<Rightarrow> int \<Rightarrow> source_range" where
  "rangeFromOffsets sc a b =
     \<lparr>range_start = offsetToSourcePos sc a, range_end = offsetToSourcePos sc b\<rparr>"

section \<open>Line starts\<close>

definition newlines :: "string \<Rightarrow> nat" where
  "newlines s = count_list s newline"

text \<open>What an editor shows: the line and column of an offset, both from 1.\<close>

definition line_spec :: "string \<Rightarrow> nat \<Rightarrow> nat" where
  "line_spec s off = newlines (take off s) + 1"

definition column_spec :: "string \<Rightarrow> nat \<Rightarrow> nat" where
  "column_spec s off = length (takeWhile (\<lambda>c. c \<noteq> newline) (rev (take off s))) + 1"

lemma line_starts_append:
  "line_starts_from i (a @ b) = line_starts_from i a @ line_starts_from (i + length a) b"
  by (induction i a rule: line_starts_from.induct) auto

lemma length_line_starts: "length (line_starts_from i s) = newlines s"
  by (induction i s rule: line_starts_from.induct) (auto simp: newlines_def)

lemma line_starts_none: "newline \<notin> set s \<Longrightarrow> line_starts_from i s = []"
  by (induction i s rule: line_starts_from.induct) auto

lemma line_starts_bounds: "x \<in> set (line_starts_from i s) \<Longrightarrow> i < x \<and> x \<le> i + length s"
  by (induction i s rule: line_starts_from.induct) (force split: if_splits)+

lemma newlines_append [simp]: "newlines (a @ b) = newlines a + newlines b"
  by (simp add: newlines_def)

lemma length_lineStarts: "length (lineStarts (scanSource s)) = Suc (newlines s)"
  by (simp add: scanSource_def length_line_starts)

lemma source_scanSource [simp]: "source (scanSource s) = s"
  by (simp add: scanSource_def)

lemma newlines_take_le: "newlines (take n s) \<le> newlines s"
proof -
  have "newlines s = newlines (take n s @ drop n s)" by simp
  then show ?thesis by (simp only: newlines_append)
qed

text \<open>Line \<open>i\<close> starts at or before an offset iff \<open>i\<close> newlines come before the offset.\<close>

lemma line_start_le_iff:
  assumes "i < length (lineStarts (scanSource s))" "off \<le> length s"
  shows "lineStarts (scanSource s) ! i \<le> off \<longleftrightarrow> i \<le> newlines (take off s)"
proof (cases i)
  case 0
  then show ?thesis by (simp add: scanSource_def)
next
  case (Suc j)
  let ?a = "take off s" and ?b = "drop off s"
  let ?L = "line_starts_from 0 ?a" and ?R = "line_starts_from off ?b"
  have "line_starts_from 0 s = ?L @ ?R"
    using line_starts_append [of 0 ?a ?b] assms(2) by simp
  then have nth: "lineStarts (scanSource s) ! i = (?L @ ?R) ! j"
    by (simp add: scanSource_def Suc)
  have len: "length ?L = newlines ?a" by (rule length_line_starts)
  have j: "j < length (?L @ ?R)"
    using assms(1) Suc \<open>line_starts_from 0 s = ?L @ ?R\<close> by (simp add: scanSource_def)
  show ?thesis
  proof (cases "j < newlines ?a")
    case True
    then have "?L ! j \<in> set ?L" using len by auto
    then have "?L ! j \<le> off" using line_starts_bounds [of "?L ! j" 0 ?a] assms(2) by simp
    then show ?thesis using True nth len Suc by (simp add: nth_append)
  next
    case False
    then have "?R ! (j - newlines ?a) \<in> set ?R" using j len by auto
    then have "off < ?R ! (j - newlines ?a)" using line_starts_bounds by blast
    then show ?thesis using False nth len Suc by (simp add: nth_append)
  qed
qed

lemma line_start_of_offset:
  assumes "off \<le> length s"
  shows "lineStarts (scanSource s) ! newlines (take off s)
    = off - length (takeWhile (\<lambda>c. c \<noteq> newline) (rev (take off s)))"
proof (cases "newline \<in> set (take off s)")
  case False
  then have "newlines (take off s) = 0" by (simp add: newlines_def)
  moreover have tw: "takeWhile (\<lambda>c. c \<noteq> newline) (rev (take off s)) = rev (take off s)"
    using False by (auto simp: takeWhile_eq_all_conv)
  have "length (takeWhile (\<lambda>c. c \<noteq> newline) (rev (take off s))) = off"
    unfolding tw using assms by simp
  ultimately show ?thesis using assms by (simp add: scanSource_def)
next
  case True
  then obtain a b where t: "take off s = a @ newline # b" and b: "newline \<notin> set b"
    by (metis split_list_last)
  have "line_starts_from 0 s = line_starts_from 0 (take off s) @ line_starts_from off (drop off s)"
    using line_starts_append [of 0 "take off s" "drop off s"] assms by simp
  also have "line_starts_from 0 (take off s) = line_starts_from 0 a @ [length a + 1]"
    using b by (simp add: t line_starts_append line_starts_none)
  finally have "lineStarts (scanSource s)
      = 0 # line_starts_from 0 a @ (length a + 1) # line_starts_from off (drop off s)"
    by (simp add: scanSource_def)
  moreover have "newlines (take off s) = Suc (length (line_starts_from 0 a))"
    using b by (simp add: t length_line_starts) (simp add: newlines_def)
  ultimately have "lineStarts (scanSource s) ! newlines (take off s) = length a + 1"
    by (simp add: nth_append)
  moreover have "takeWhile (\<lambda>c. c \<noteq> newline) (rev (take off s)) = rev b"
    using b by (force simp: t takeWhile_tail takeWhile_eq_all_conv)
  moreover have "off = length a + 1 + length b"
    using t assms by (metis One_nat_def add.commute add_Suc_right length_Cons length_append length_take min.absorb2 plus_1_eq_Suc add.assoc)
  ultimately show ?thesis by simp
qed

section \<open>The binary search\<close>

text \<open>One probe of the search compares the probed line with the offset's line.\<close>

lemma probe_start:
  assumes "0 \<le> off" "off \<le> int (length s)" "0 \<le> mid" "mid \<le> int (newlines s)"
  shows "off < int (lineStarts (scanSource s) ! nat mid)
    \<longleftrightarrow> int (newlines (take (nat off) s)) < mid"
proof -
  have "nat mid < length (lineStarts (scanSource s))" "nat off \<le> length s"
    using assms by (auto simp: length_lineStarts)
  from line_start_le_iff [OF this] show ?thesis using assms(1,3) by linarith
qed

definition next_line_start :: "scan_result \<Rightarrow> int \<Rightarrow> int" where
  "next_line_start sc mid =
     (if mid + 1 < int (length (lineStarts sc)) then int (lineStarts sc ! nat (mid + 1))
      else int (length (source sc)) + 1)"

lemma probe_next:
  assumes "0 \<le> off" "off \<le> int (length s)" "0 \<le> mid" "mid \<le> int (newlines s)"
  shows "next_line_start (scanSource s) mid \<le> off
    \<longleftrightarrow> mid < int (newlines (take (nat off) s))"
proof (cases "mid + 1 < int (length (lineStarts (scanSource s)))")
  case True
  with probe_start [of off s "mid + 1"] assms show ?thesis
    by (simp add: next_line_start_def length_lineStarts) linarith
next
  case False
  with newlines_take_le [of "nat off" s] assms show ?thesis
    by (simp add: next_line_start_def length_lineStarts)
qed

lemma find_line_step:
  assumes "low \<le> high"
  shows "find_line sc off low high =
    (let mid = (low + high) div 2
     in if off < int (lineStarts sc ! nat mid) then find_line sc off low (mid - 1)
        else if next_line_start sc mid \<le> off then find_line sc off (mid + 1) high else mid)"
  by (subst find_line.simps) (simp add: assms Let_def next_line_start_def)

lemma find_line_correct:
  assumes "0 \<le> off" "off \<le> int (length s)"
    and "0 \<le> low" "low \<le> int (newlines (take (nat off) s))"
    and "int (newlines (take (nat off) s)) \<le> high" "high \<le> int (newlines s)"
  shows "find_line (scanSource s) off low high = int (newlines (take (nat off) s))"
  using assms
proof (induction "nat (high - low)" arbitrary: low high rule: less_induct)
  case less
  let ?n = "int (newlines (take (nat off) s))"
  define mid where "mid = (low + high) div 2"
  have lh: "low \<le> high" using less.prems by linarith
  then have mid: "low \<le> mid" "mid \<le> high" by (auto simp: mid_def)
  then have m: "0 \<le> mid" "mid \<le> int (newlines s)" using less.prems by linarith+
  note step = find_line_step [OF lh, of "scanSource s" off, folded mid_def, unfolded Let_def,
      folded mid_def, unfolded probe_start [OF less.prems(1,2) m] probe_next [OF less.prems(1,2) m]]
  consider "?n < mid" | "mid < ?n" | "mid = ?n" by linarith
  then show ?case
  proof cases
    case 1
    then have "find_line (scanSource s) off low (mid - 1) = ?n"
      using less.prems mid by (intro less.hyps) linarith+
    with 1 step show ?thesis by simp
  next
    case 2
    then have "find_line (scanSource s) off (mid + 1) high = ?n"
      using less.prems mid by (intro less.hyps) linarith+
    with 2 step show ?thesis by simp
  next
    case 3
    with step show ?thesis by simp
  qed
qed

lemma findLineIndexAtOffset_correct:
  assumes "0 \<le> off" "off \<le> int (length s)"
  shows "findLineIndexAtOffset (scanSource s) off = int (newlines (take (nat off) s))"
  unfolding findLineIndexAtOffset_def
  by (rule find_line_correct) (use assms newlines_take_le in \<open>auto simp: length_lineStarts\<close>)

lemma offsetToSourcePos_in_range:
  assumes "off \<le> length s"
  shows "offsetToSourcePos (scanSource s) (int off)
    = \<lparr>line = line_spec s off, column = column_spec s off, offset = off\<rparr>"
proof -
  have i: "findLineIndexAtOffset (scanSource s) (int off) = int (newlines (take off s))"
    using findLineIndexAtOffset_correct [of "int off" s] assms by simp
  have "length (takeWhile (\<lambda>c. c \<noteq> newline) (rev (take off s))) \<le> off"
    using length_takeWhile_le [of _ "rev (take off s)"] assms by (metis length_rev length_take min.absorb2)
  then show ?thesis
    using assms
    by (simp add: offsetToSourcePos_def Let_def i line_start_of_offset line_spec_def column_spec_def)
qed

end
