(* ===== verification/JsNumber.thy ===== *)
theory JsNumber
  imports JsString Complex_Main
begin

text \<open>
  JavaScript numbers.  A number is a finite IEEE double (represented by the rational it
  denotes; the two zeros are identified), an infinity or \<open>NaN\<close>.  \<open>to_num\<close> rounds an exact
  value to the nearest double, ties to even, with gradual underflow and overflow to an
  infinity; \<open>js_number\<close> is \<^verbatim>\<open>Number(s)\<close> on a string.
\<close>

datatype jsnum = Fin rat | PosInf | NegInf | NaN

section \<open>Rounding to a double\<close>

definition pow2 :: "int \<Rightarrow> rat" where
  "pow2 e = (if 0 \<le> e then 2 ^ nat e else 1 / 2 ^ nat (- e))"

fun bit_count :: "nat \<Rightarrow> nat" where
  "bit_count n = (if n = 0 then 0 else Suc (bit_count (n div 2)))"

declare bit_count.simps [simp del]

definition floor_log2 :: "rat \<Rightarrow> int" where
  "floor_log2 q =
     (let (n, d) = quotient_of q;
          e = int (bit_count (nat n)) - int (bit_count (nat d))
      in if pow2 e \<le> q then e else e - 1)"

definition round_even :: "rat \<Rightarrow> int" where
  "round_even x =
     (let f = \<lfloor>x\<rfloor>; r = x - of_int f
      in if r < 1 / 2 then f else if 1 / 2 < r then f + 1
         else if even f then f else f + 1)"

definition ulp_exp :: "rat \<Rightarrow> int" where
  "ulp_exp q = max (floor_log2 q - 52) (- 1074)"

definition round_double :: "rat \<Rightarrow> rat" where
  "round_double q =
     (if q = 0 then 0
      else sgn q * (of_int (round_even (\<bar>q\<bar> / pow2 (ulp_exp \<bar>q\<bar>))) * pow2 (ulp_exp \<bar>q\<bar>)))"

definition to_num :: "rat \<Rightarrow> jsnum" where
  "to_num q =
     (let r = round_double q
      in if 2 ^ 1024 \<le> r then PosInf else if r \<le> - (2 ^ 1024) then NegInf else Fin r)"

lemma pow2_pos [simp]: "0 < pow2 e"
  by (simp add: pow2_def)

lemma pow2_not_0 [simp]: "pow2 e \<noteq> 0"
  using pow2_pos [of e] by linarith

lemma round_even_of_int [simp]: "round_even (of_int k) = k"
  by (simp add: round_even_def)

lemma bit_count_0 [simp]: "bit_count 0 = 0"
  by (simp add: bit_count.simps)

lemma bit_count_1 [simp]: "bit_count (Suc 0) = Suc 0"
  by (simp add: bit_count.simps)

lemma bit_count_bounds:
  "0 < n \<Longrightarrow> 2 ^ (bit_count n - 1) \<le> n \<and> n < 2 ^ bit_count n \<and> 0 < bit_count n"
proof (induction n rule: bit_count.induct)
  case (1 n)
  show ?case
  proof (cases "n div 2 = 0")
    case True
    with 1 have "n = 1" by auto
    then show ?thesis by simp
  next
    case False
    let ?b = "bit_count (n div 2)"
    from False 1 have b: "2 ^ (?b - 1) \<le> n div 2" "n div 2 < 2 ^ ?b" "0 < ?b" by auto
    have n: "bit_count n = Suc ?b"
      using "1.prems" by (subst bit_count.simps) simp
    obtain c where c: "?b = Suc c" using b(3) by (cases ?b) auto
    from b(1) have "2 ^ c \<le> n div 2" by (simp add: c)
    then have "2 ^ Suc c \<le> n" by simp
    moreover from b(2) have "n < 2 ^ Suc (Suc c)" by (simp add: c)
    ultimately show ?thesis by (simp add: n c)
  qed
qed

lemma floor_log2_nat:
  assumes "0 < n"
  shows "floor_log2 (of_nat n) = int (bit_count n) - 1"
proof -
  have "(2::nat) ^ (bit_count n - 1) \<le> n" and c: "0 < bit_count n"
    using bit_count_bounds [OF assms] by auto
  then have le: "(2::rat) ^ (bit_count n - 1) \<le> of_nat n"
    by (metis of_nat_le_iff of_nat_numeral of_nat_power)
  have q: "quotient_of (of_nat n) = (int n, 1)"
    using quotient_of_int [of "int n"] by simp
  have "pow2 (int (bit_count n) - 1) = 2 ^ (bit_count n - 1)"
    using c by (simp add: pow2_def nat_diff_distrib)
  with le show ?thesis by (simp add: floor_log2_def q)
qed

lemma round_double_exact:
  assumes "\<bar>q\<bar> = of_int k * pow2 (ulp_exp \<bar>q\<bar>)"
  shows "round_double q = q"
proof -
  have "\<bar>q\<bar> / pow2 (ulp_exp \<bar>q\<bar>) = of_int k" using assms by (simp add: field_simps)
  then have "round_double q = (if q = 0 then 0 else sgn q * \<bar>q\<bar>)"
    using assms by (simp add: round_double_def)
  then show ?thesis by (simp add: sgn_mult_abs)
qed

text \<open>Integers up to \<open>2 ^ 53\<close> in absolute value are doubles: \<^verbatim>\<open>Number.isSafeInteger\<close>.\<close>

lemma round_double_int:
  assumes "\<bar>n\<bar> \<le> 2 ^ 53"
  shows "round_double (of_int n) = of_int n"
proof (cases "n = 0")
  case True
  then show ?thesis by (simp add: round_double_def)
next
  case False
  define m where "m = nat \<bar>n\<bar>"
  have m: "0 < m" "m \<le> 2 ^ 53" and abs: "\<bar>of_int n :: rat\<bar> = of_nat m"
    using False assms by (auto simp: m_def of_nat_nat nat_le_iff)
  have ue: "ulp_exp (of_nat m) = max (int (bit_count m) - 53) (- 1074)"
    using m(1) by (simp add: ulp_exp_def floor_log2_nat)
  have "\<exists>k. \<bar>of_int n :: rat\<bar> = of_int k * pow2 (ulp_exp \<bar>of_int n\<bar>)"
  proof (cases "bit_count m \<le> 53")
    case True
    then have neg: "ulp_exp (of_nat m) \<le> 0" using ue by simp
    have "of_nat m = of_int (int m * 2 ^ nat (- ulp_exp (of_nat m))) * pow2 (ulp_exp (of_nat m))"
      using neg by (cases "ulp_exp (of_nat m) = 0") (auto simp: pow2_def)
    then show ?thesis unfolding abs by blast
  next
    case False
    have lo: "2 ^ (bit_count m - 1) \<le> m" using bit_count_bounds [OF m(1)] by blast
    have "(2::nat) ^ 53 \<le> 2 ^ (bit_count m - 1)"
      using False by (intro power_increasing) auto
    with lo m(2) have m53: "m = 2 ^ 53" by linarith
    have "bit_count m - 1 \<le> 53"
    proof (rule ccontr)
      assume "\<not> bit_count m - 1 \<le> 53"
      then have "(2::nat) ^ 54 \<le> 2 ^ (bit_count m - 1)" by (intro power_increasing) auto
      with lo m53 show False by simp
    qed
    with False have b: "bit_count m = 54" by simp
    have "ulp_exp (of_nat m) = 1" using ue b by simp
    then have "of_nat m = of_int (2 ^ 52) * pow2 (ulp_exp (of_nat m))"
      by (simp add: pow2_def m53)
    then show ?thesis unfolding abs by blast
  qed
  then show ?thesis using round_double_exact by blast
qed

lemma to_num_int: "\<bar>n\<bar> \<le> 2 ^ 53 \<Longrightarrow> to_num (of_int n) = Fin (of_int n)"
proof -
  assume n: "\<bar>n\<bar> \<le> 2 ^ 53"
  have lt: "(2::int) ^ 53 < 2 ^ 1024" by (rule power_strict_increasing) simp_all
  with n have "n < 2 ^ 1024" "- (2 ^ 1024) < n" by linarith+
  then have "(of_int n :: rat) < of_int (2 ^ 1024)" "of_int (- (2 ^ 1024)) < (of_int n :: rat)"
    by (simp_all only: of_int_less_iff)
  then have "(of_int n :: rat) < 2 ^ 1024" "- (2 ^ 1024) < (of_int n :: rat)"
    by (simp_all only: of_int_minus of_int_power of_int_numeral)
  then show ?thesis by (simp add: to_num_def round_double_int [OF n])
qed

section \<open>Reading a number from a string\<close>

fun js_exponent :: "string \<Rightarrow> int option" where
  "js_exponent [] = Some 0"
| "js_exponent (c # s) =
     (if c = CHR ''e'' \<or> c = CHR ''E'' then
        (let neg = (s \<noteq> [] \<and> hd s = CHR ''-'');
             ds = (if s \<noteq> [] \<and> (hd s = CHR ''-'' \<or> hd s = CHR ''+'') then tl s else s)
         in if ds \<noteq> [] \<and> list_all is_digit ds
            then Some ((if neg then -1 else 1) * int (nat_of_digits 0 ds)) else None)
      else None)"

definition pow10 :: "int \<Rightarrow> rat" where
  "pow10 e = (if 0 \<le> e then 10 ^ nat e else 1 / 10 ^ nat (- e))"

text \<open>An unsigned decimal literal: digits, an optional fraction, an optional exponent.\<close>

definition js_decimal :: "string \<Rightarrow> rat option" where
  "js_decimal s =
     (let ip = takeWhile is_digit s; r1 = dropWhile is_digit s;
          dot = (r1 \<noteq> [] \<and> hd r1 = CHR ''.'');
          fp = (if dot then takeWhile is_digit (tl r1) else []);
          r2 = (if dot then dropWhile is_digit (tl r1) else r1)
      in if ip = [] \<and> fp = [] then None
         else map_option
           (\<lambda>e. of_nat (nat_of_digits 0 (ip @ fp)) * pow10 (e - int (length fp)))
           (js_exponent r2))"

definition radix_digit :: "char \<Rightarrow> nat" where
  "radix_digit c =
     (if is_digit c then code c - 48
      else if 97 \<le> code c \<and> code c \<le> 122 then code c - 87
      else if 65 \<le> code c \<and> code c \<le> 90 then code c - 55 else 36)"

definition js_radix :: "nat \<Rightarrow> string \<Rightarrow> nat option" where
  "js_radix b ds =
     (if ds \<noteq> [] \<and> list_all (\<lambda>c. radix_digit c < b) ds
      then Some (foldl (\<lambda>acc c. b * acc + radix_digit c) 0 ds) else None)"

definition js_signed :: "string \<Rightarrow> jsnum" where
  "js_signed t =
     (let neg = (t \<noteq> [] \<and> hd t = CHR ''-'');
          u = (if t \<noteq> [] \<and> (hd t = CHR ''-'' \<or> hd t = CHR ''+'') then tl t else t)
      in if u = ''Infinity'' then (if neg then NegInf else PosInf)
         else (case js_decimal u of
             None \<Rightarrow> NaN
           | Some q \<Rightarrow> to_num (if neg then - q else q)))"

definition js_number :: "string \<Rightarrow> jsnum" where
  "js_number s =
     (let t = js_trim s; p = take 2 t; ds = drop 2 t
      in if t = [] then Fin 0
         else if p = ''0x'' \<or> p = ''0X'' then
           (case js_radix 16 ds of None \<Rightarrow> NaN | Some n \<Rightarrow> to_num (of_nat n))
         else if p = ''0o'' \<or> p = ''0O'' then
           (case js_radix 8 ds of None \<Rightarrow> NaN | Some n \<Rightarrow> to_num (of_nat n))
         else if p = ''0b'' \<or> p = ''0B'' then
           (case js_radix 2 ds of None \<Rightarrow> NaN | Some n \<Rightarrow> to_num (of_nat n))
         else js_signed t)"

text \<open>\<^verbatim>\<open>Number("")\<close> is 0, not \<^verbatim>\<open>NaN\<close>.\<close>

lemma js_number_blank: "js_trim s = [] \<Longrightarrow> js_number s = Fin 0"
  by (simp add: js_number_def)

lemma digits_no_ws: "is_digit c \<Longrightarrow> \<not> is_ws c"
  by (auto simp: is_digit_def is_ws_def)

lemma js_trim_digits: "list_all is_digit s \<Longrightarrow> js_trim s = s"
  by (cases "s = []") (auto simp: trimmed_def list_all_iff digits_no_ws intro!: js_trim_id)

lemma js_decimal_digits:
  assumes "s \<noteq> []" "list_all is_digit s"
  shows "js_decimal s = Some (of_nat (nat_of_digits 0 s))"
proof -
  have tw: "takeWhile is_digit s = s" and dw: "dropWhile is_digit s = []"
    using assms(2) by (auto simp: list_all_iff takeWhile_all)
  show ?thesis unfolding js_decimal_def Let_def tw dw using assms(1) by (simp add: pow10_def)
qed

lemma digit_not_special:
  assumes "is_digit c"
  shows "c \<noteq> CHR ''-''" "c \<noteq> CHR ''+''" "c \<noteq> CHR ''x''" "c \<noteq> CHR ''X''" "c \<noteq> CHR ''o''"
    "c \<noteq> CHR ''O''" "c \<noteq> CHR ''b''" "c \<noteq> CHR ''B''" "c \<noteq> CHR ''I''"
  using assms by (auto simp: is_digit_def)

lemma js_signed_digits:
  assumes "s \<noteq> []" "list_all is_digit s"
  shows "js_signed s = to_num (of_nat (nat_of_digits 0 s))"
proof -
  have h: "is_digit (hd s)" using assms by (cases s) auto
  then have "s \<noteq> ''Infinity''" by (auto simp: is_digit_def)
  with h show ?thesis
    by (simp add: js_signed_def digit_not_special js_decimal_digits assms)
qed

lemma js_number_digits:
  assumes "s \<noteq> []" "list_all is_digit s"
  shows "js_number s = to_num (of_nat (nat_of_digits 0 s))"
proof -
  have t: "js_trim s = s" by (rule js_trim_digits) (rule assms(2))
  have "take 2 s \<noteq> [a, b]" if "\<not> is_digit b" for a b
  proof
    assume "take 2 s = [a, b]"
    then have "b \<in> set s" by (metis in_set_takeD list.set_intros(1) list.set_intros(2))
    with assms(2) that show False by (auto simp: list_all_iff)
  qed
  then have "take 2 s \<noteq> ''0x''" "take 2 s \<noteq> ''0X''" "take 2 s \<noteq> ''0o''" "take 2 s \<noteq> ''0O''"
    "take 2 s \<noteq> ''0b''" "take 2 s \<noteq> ''0B''"
    by (auto simp: is_digit_def)
  with t assms show ?thesis by (simp add: js_number_def js_signed_digits)
qed

end
