(* ===== verification/JsMap.thy ===== *)
theory JsMap
  imports Prelude
begin

text \<open>
  JavaScript's \<open>Map\<close>: an association list in insertion order.  Setting a key that is
  present keeps its place, setting a new key appends it.  The interface \<open>keyed_store\<close> states
  what clients rely on, for any container with a lookup and an insertion; its client lemmas
  describe a whole sequence of insertions (the last one wins).  \<open>ordered_store\<close> adds
  deletion and the insertion order.
\<close>

type_synonym ('k, 'v) js_map = "('k \<times> 'v) list"

definition map_get :: "('k, 'v) js_map \<Rightarrow> 'k \<Rightarrow> 'v option" where
  "map_get m k = map_of m k"

definition map_has :: "('k, 'v) js_map \<Rightarrow> 'k \<Rightarrow> bool" where
  "map_has m k \<longleftrightarrow> map_of m k \<noteq> None"

fun map_set :: "'k \<Rightarrow> 'v \<Rightarrow> ('k, 'v) js_map \<Rightarrow> ('k, 'v) js_map" where
  "map_set k v [] = [(k, v)]"
| "map_set k v ((k', v') # m) = (if k' = k then (k, v) # m else (k', v') # map_set k v m)"

definition map_delete :: "'k \<Rightarrow> ('k, 'v) js_map \<Rightarrow> ('k, 'v) js_map" where
  "map_delete k m = filter (\<lambda>e. fst e \<noteq> k) m"

abbreviation keys :: "('k, 'v) js_map \<Rightarrow> 'k list" where
  "keys m \<equiv> List.map fst m"

lemma map_of_map_set: "map_of (map_set k v m) = (map_of m)(k \<mapsto> v)"
  by (induction k v m rule: map_set.induct) auto

lemma keys_map_set:
  "keys (map_set k v m) = (if k \<in> set (keys m) then keys m else keys m @ [k])"
  by (induction k v m rule: map_set.induct) auto

lemma distinct_map_set: "distinct (keys m) \<Longrightarrow> distinct (keys (map_set k v m))"
  by (simp add: keys_map_set)

lemma map_of_map_delete: "map_of (map_delete k m) k' = (if k' = k then None else map_of m k')"
  unfolding map_delete_def by (induction m) auto

lemma keys_map_delete: "keys (map_delete k m) = filter (\<lambda>x. x \<noteq> k) (keys m)"
  unfolding map_delete_def by (induction m) auto

lemma distinct_map_delete: "distinct (keys m) \<Longrightarrow> distinct (keys (map_delete k m))"
  by (simp add: keys_map_delete)

lemma map_has_keys: "map_has m k \<longleftrightarrow> k \<in> set (keys m)"
  by (simp add: map_has_def map_of_eq_None_iff)

lemma map_set_fresh: "k \<notin> set (keys m) \<Longrightarrow> map_set k v m = m @ [(k, v)]"
  by (induction m) auto

lemma fst_map_set [simp]: "fst ` set (map_set k v m) = insert k (fst ` set m)"
  by (induction k v m rule: map_set.induct) auto

lemma fst_map_delete [simp]: "fst ` set (map_delete k m) = fst ` set m - {k}"
  by (auto simp: map_delete_def)

lemma length_map_set: "length (map_set k v m) = (if map_has m k then length m else Suc (length m))"
  by (induction k v m rule: map_set.induct) (auto simp: map_has_def)

lemma length_map_delete:
  "distinct (keys m) \<Longrightarrow> map_has m k \<Longrightarrow> length m = Suc (length (map_delete k m))"
proof (induction m)
  case Nil
  then show ?case by (simp add: map_has_def)
next
  case (Cons e m)
  show ?case
  proof (cases "fst e = k")
    case True
    with Cons.prems(1) have "k \<notin> set (keys m)" by auto
    then have "map_delete k m = m" by (auto simp: map_delete_def filter_id_conv)
    then show ?thesis using True by (simp add: map_delete_def)
  next
    case False
    then show ?thesis using Cons by (simp add: map_delete_def map_has_def)
  qed
qed

section \<open>The store interface\<close>

locale keyed_store =
  fixes get :: "'s \<Rightarrow> 'k \<Rightarrow> 'v option"
    and put :: "'k \<Rightarrow> 'v \<Rightarrow> 's \<Rightarrow> 's"
  assumes get_put: "get (put k v s) k' = (if k' = k then Some v else get s k')"
begin

definition put_all :: "('k \<times> 'v) list \<Rightarrow> 's \<Rightarrow> 's" where
  "put_all kvs s = foldl (\<lambda>acc kv. put (fst kv) (snd kv) acc) s kvs"

lemma put_all_Nil [simp]: "put_all [] s = s"
  by (simp add: put_all_def)

lemma put_all_Cons [simp]: "put_all (kv # kvs) s = put_all kvs (put (fst kv) (snd kv) s)"
  by (simp add: put_all_def)

lemma put_all_snoc: "put_all (kvs @ [kv]) s = put (fst kv) (snd kv) (put_all kvs s)"
  by (simp add: put_all_def)

lemma put_all_append: "put_all (xs @ ys) s = put_all ys (put_all xs s)"
  by (simp add: put_all_def)

text \<open>After a run of insertions a key holds the last value put for it, or its old value.\<close>

lemma get_put_all:
  "get (put_all kvs s) k = (case map_of (rev kvs) k of Some v \<Rightarrow> Some v | None \<Rightarrow> get s k)"
proof (induction kvs rule: rev_induct)
  case Nil
  then show ?case by simp
next
  case (snoc kv kvs)
  then show ?case by (cases kv) (auto simp: put_all_snoc get_put)
qed

lemma get_put_all_fresh: "k \<notin> fst ` set kvs \<Longrightarrow> get (put_all kvs s) k = get s k"
proof -
  assume "k \<notin> fst ` set kvs"
  then have "map_of (rev kvs) k = None" by (simp add: map_of_eq_None_iff)
  then show ?thesis by (simp add: get_put_all)
qed

end

locale ordered_store = keyed_store get put
  for get :: "'s \<Rightarrow> 'k \<Rightarrow> 'v option" and put :: "'k \<Rightarrow> 'v \<Rightarrow> 's \<Rightarrow> 's" +
  fixes del :: "'k \<Rightarrow> 's \<Rightarrow> 's"
    and order :: "'s \<Rightarrow> 'k list"
  assumes get_del: "get (del k s) k' = (if k' = k then None else get s k')"
    and order_get: "k \<in> set (order s) \<longleftrightarrow> get s k \<noteq> None"
    and order_put: "order (put k v s) = (if k \<in> set (order s) then order s else order s @ [k])"
    and order_del: "order (del k s) = filter (\<lambda>x. x \<noteq> k) (order s)"
begin

text \<open>Deleting and re-inserting moves a key to the end: the idiom behind an LRU bump.\<close>

lemma order_bump: "order (put k v (del k s)) = filter (\<lambda>x. x \<noteq> k) (order s) @ [k]"
  by (simp add: order_put order_del)

lemma get_bump: "get (put k v (del k s)) k' = (if k' = k then Some v else get s k')"
  by (simp add: get_put get_del)

lemma distinct_order_put: "distinct (order s) \<Longrightarrow> distinct (order (put k v s))"
  by (simp add: order_put)

lemma distinct_order_del: "distinct (order s) \<Longrightarrow> distinct (order (del k s))"
  by (simp add: order_del)

end

interpretation js_map: ordered_store map_get map_set map_delete keys
proof unfold_locales
  fix m :: "('k, 'v) js_map" and k k' v
  show "map_get (map_set k v m) k' = (if k' = k then Some v else map_get m k')"
    by (simp add: map_get_def map_of_map_set)
  show "map_get (map_delete k m) k' = (if k' = k then None else map_get m k')"
    by (simp add: map_get_def map_of_map_delete)
  show "k \<in> set (keys m) \<longleftrightarrow> map_get m k \<noteq> None"
    using map_has_keys [of m k] by (simp add: map_get_def map_has_def)
  show "keys (map_set k v m) = (if k \<in> set (keys m) then keys m else keys m @ [k])"
    by (rule keys_map_set)
  show "keys (map_delete k m) = filter (\<lambda>x. x \<noteq> k) (keys m)"
    by (rule keys_map_delete)
qed

end
