(* ===== verification/JsValue.thy ===== *)
theory JsValue
  imports JsNumber JsMap
begin

text \<open>
  JSON values (\<open>AionisValue\<close> in packages/aionis-doc/src/ir/types.ts) and the object
  operations of the language the code applies to them.

  An object is the list of its own properties in the language's enumeration order:
  array-index keys in ascending order, then the other keys in insertion order.
  A property read and the \<^verbatim>\<open>in\<close> operator also see what every ordinary object inherits
  from \<^verbatim>\<open>Object.prototype\<close>; the inherited members are \<open>JHost\<close> values (the accessor
  \<^verbatim>\<open>__proto__\<close> yields the prototype object itself, the other names are functions).
  An assignment \<^verbatim>\<open>o["__proto__"] = v\<close> runs the inherited setter and creates no own
  property; the model drops it and does not follow a prototype replaced that way.
\<close>

datatype jv =
    JNull
  | JBool bool
  | JNum jsnum
  | JStr string
  | JArr "jv list"
  | JObj "(string \<times> jv) list"
  | JHost string

type_synonym jobj = "(string \<times> jv) list"

definition proto_keys :: "string list" where
  "proto_keys =
     [''constructor'', ''__defineGetter__'', ''__defineSetter__'', ''hasOwnProperty'',
      ''__lookupGetter__'', ''__lookupSetter__'', ''isPrototypeOf'', ''propertyIsEnumerable'',
      ''toString'', ''valueOf'', ''__proto__'', ''toLocaleString'']"

section \<open>Own properties\<close>

text \<open>Array-index keys: canonical decimal numerals below \<open>2 ^ 32 - 1\<close>.\<close>

definition is_index_key :: "string \<Rightarrow> bool" where
  "is_index_key k \<longleftrightarrow>
     k \<noteq> [] \<and> list_all is_digit k \<and> dec_nat (nat_of_digits 0 k) = k
     \<and> nat_of_digits 0 k < 2 ^ 32 - 1"

text \<open>Where a new property goes: an index key before the first greater index or name.\<close>

fun insert_index :: "string \<Rightarrow> jv \<Rightarrow> jobj \<Rightarrow> jobj" where
  "insert_index k v [] = [(k, v)]"
| "insert_index k v ((k', v') # o') =
     (if is_index_key k' \<and> nat_of_digits 0 k' < nat_of_digits 0 k
      then (k', v') # insert_index k v o' else (k, v) # (k', v') # o')"

definition obj_set :: "string \<Rightarrow> jv \<Rightarrow> jobj \<Rightarrow> jobj" where
  "obj_set k v ob =
     (if map_has ob k then map_set k v ob
      else if is_index_key k then insert_index k v ob
      else ob @ [(k, v)])"

definition obj_assign :: "string \<Rightarrow> jv \<Rightarrow> jobj \<Rightarrow> jobj" where
  "obj_assign k v ob = (if k = ''__proto__'' then ob else obj_set k v ob)"

lemma map_of_insert_index:
  "k \<notin> set (keys ob) \<Longrightarrow> map_of (insert_index k v ob) = (map_of ob)(k \<mapsto> v)"
  by (induction k v ob rule: insert_index.induct) (auto simp: fun_eq_iff)

lemma set_keys_insert_index [simp]:
  "fst ` set (insert_index k v ob) = insert k (fst ` set ob)"
  by (induction k v ob rule: insert_index.induct) auto

lemma map_of_obj_set: "map_of (obj_set k v ob) = (map_of ob)(k \<mapsto> v)"
  using map_has_keys [of ob k]
  by (auto simp: obj_set_def map_of_map_set map_of_insert_index fun_eq_iff map_of_append
      map_add_def map_has_def split: option.splits)

lemma set_keys_obj_set [simp]: "fst ` set (obj_set k v ob) = insert k (fst ` set ob)"
  by (simp add: obj_set_def)

lemma distinct_insert_index:
  "distinct (keys ob) \<Longrightarrow> k \<notin> set (keys ob) \<Longrightarrow> distinct (keys (insert_index k v ob))"
  by (induction k v ob rule: insert_index.induct) (simp_all, metis)

lemma distinct_obj_set: "distinct (keys ob) \<Longrightarrow> distinct (keys (obj_set k v ob))"
  using map_has_keys [of ob k]
  by (auto simp: obj_set_def distinct_map_set distinct_insert_index)

interpretation own_props: keyed_store "map_of :: jobj \<Rightarrow> string \<Rightarrow> jv option" obj_set
  by unfold_locales (simp add: map_of_obj_set)

text \<open>A fresh name that is no index key is appended: objects keep insertion order.\<close>

lemma obj_set_fresh:
  "\<not> is_index_key k \<Longrightarrow> k \<notin> set (keys ob) \<Longrightarrow> obj_set k v ob = ob @ [(k, v)]"
  by (auto simp: obj_set_def map_has_keys)

section \<open>Property reads\<close>

definition obj_get :: "jobj \<Rightarrow> string \<Rightarrow> jv option" where
  "obj_get ob k =
     (case map_of ob k of
        Some v \<Rightarrow> Some v
      | None \<Rightarrow> if k \<in> set proto_keys then Some (JHost k) else None)"

definition proto_get :: "string \<Rightarrow> jv option" where
  "proto_get k =
     (if k = ''__proto__'' then Some JNull
      else if k \<in> set proto_keys then Some (JHost k) else None)"

text \<open>\<^verbatim>\<open>k in o\<close>, true of inherited names too.\<close>

definition obj_in :: "string \<Rightarrow> jobj \<Rightarrow> bool" where
  "obj_in k ob \<longleftrightarrow> obj_get ob k \<noteq> None"

definition is_plain_object :: "jv \<Rightarrow> bool" where
  "is_plain_object v =
     (case v of JObj _ \<Rightarrow> True | JHost k \<Rightarrow> k = ''__proto__'' | _ \<Rightarrow> False)"

text \<open>\<open>js_prop v k\<close> is \<^verbatim>\<open>v[k]\<close> on a value for which \<open>is_plain_object\<close> holds.\<close>

definition js_prop :: "jv \<Rightarrow> string \<Rightarrow> jv option" where
  "js_prop v k =
     (case v of
        JObj ob \<Rightarrow> obj_get ob k
      | JHost h \<Rightarrow> if h = ''__proto__'' then proto_get k else None
      | _ \<Rightarrow> None)"

lemma obj_in_iff: "obj_in k ob \<longleftrightarrow> k \<in> set (keys ob) \<or> k \<in> set proto_keys"
  using map_has_keys [of ob k]
  by (auto simp: obj_in_def obj_get_def map_has_def split: option.splits)

lemma obj_get_own: "k \<in> set (keys ob) \<Longrightarrow> obj_get ob k = map_of ob k"
  using map_has_keys [of ob k] by (auto simp: obj_get_def map_has_def)

lemma obj_get_no_proto: "k \<notin> set proto_keys \<Longrightarrow> obj_get ob k = map_of ob k"
  by (auto simp: obj_get_def split: option.splits)

lemma obj_get_set: "obj_get (obj_set k v ob) k' = (if k' = k then Some v else obj_get ob k')"
  by (auto simp: obj_get_def map_of_obj_set)

interpretation props: keyed_store obj_get obj_set
  by unfold_locales (simp add: obj_get_set)

section \<open>Values free of host members\<close>

text \<open>What a JSON document denotes: no inherited member, keys distinct and not \<^verbatim>\<open>__proto__\<close>.\<close>

fun json :: "jv \<Rightarrow> bool" where
  "json JNull = True"
| "json (JBool _) = True"
| "json (JNum _) = True"
| "json (JStr _) = True"
| "json (JArr vs) = list_all json vs"
| "json (JObj ob) = (distinct (keys ob) \<and> ''__proto__'' \<notin> set (keys ob) \<and> list_all (\<lambda>e. json (snd e)) ob)"
| "json (JHost _) = False"

lemma json_obj_set:
  assumes "json (JObj ob)" "json v" "k \<noteq> ''__proto__''"
  shows "json (JObj (obj_set k v ob))"
proof -
  have d: "distinct (keys (obj_set k v ob))" using assms(1) by (simp add: distinct_obj_set)
  have "json w" if "(k', w) \<in> set (obj_set k v ob)" for k' w
  proof -
    from that d have "map_of (obj_set k v ob) k' = Some w" by simp
    then have "w = v \<or> map_of ob k' = Some w"
      by (auto simp: map_of_obj_set split: if_splits)
    with assms show ?thesis by (auto simp: list_all_iff dest: map_of_SomeD)
  qed
  then have "list_all (\<lambda>e. json (snd e)) (obj_set k v ob)" by (auto simp: list_all_iff)
  with d assms show ?thesis by simp
qed

lemma json_obj_assign:
  "json (JObj ob) \<Longrightarrow> json v \<Longrightarrow> json (JObj (obj_assign k v ob))"
  by (cases "k = ''__proto__''") (auto simp: obj_assign_def simp del: json.simps intro: json_obj_set)

end
