(* ===== verification/DocPayload.thy ===== *)
theory DocPayload
  imports DocScanner JsValue
begin

text \<open>
  The payload language of directives: packages/aionis-doc/src/parser/payload.ts.

  The parser object holds the text and an index into it; the model passes the text from the
  index on, so \<^verbatim>\<open>this.index\<close> is the length of the whole text minus the length of what
  is left.  A \<open>PayloadSyntaxError\<close> is \<open>PFail msg n\<close> with \<open>n\<close> characters left.  The three
  mutually recursive methods take fuel; \<open>parse_value_fuel\<close> shows that \<open>2 * length s + 1\<close> is
  enough, so \<open>PFuel\<close> never comes out of \<open>payload_parse\<close>.
\<close>

datatype 'a pres = PDone 'a string | PFail string nat | PFuel

abbreviation dquote :: char where "dquote \<equiv> CHR 0x22"
abbreviation squote :: char where "squote \<equiv> CHR 0x27"
abbreviation backslash :: char where "backslash \<equiv> CHR 0x5C"
abbreviation tab :: char where "tab \<equiv> CHR 0x09"

definition skipWhitespace :: "string \<Rightarrow> string" where
  "skipWhitespace s = dropWhile is_ws s"

definition isIdentifierStart :: "char \<Rightarrow> bool" where
  "isIdentifierStart c \<longleftrightarrow> is_alpha c \<or> c = CHR ''_''"

definition peek_name :: "string \<Rightarrow> string" where
  "peek_name s = (case s of [] \<Rightarrow> ''EOF'' | c # _ \<Rightarrow> [c])"

definition expect :: "char \<Rightarrow> string \<Rightarrow> unit pres" where
  "expect c s =
     (if s \<noteq> [] \<and> hd s = c then PDone () (tl s)
      else PFail (''Expected '' @ [squote, c, squote] @ '' but found '' @ [squote]
                  @ peek_name s @ [squote] @ ''.'') (length s))"

definition unescape :: "char \<Rightarrow> char" where
  "unescape c =
     (if c = CHR ''n'' then newline else if c = CHR ''r'' then carriage_return
      else if c = CHR ''t'' then tab else c)"

text \<open>The body of a quoted string, after its opening quote.\<close>

fun string_body :: "char \<Rightarrow> string \<Rightarrow> string pres" where
  "string_body q [] = PFail ''Expected closing quote for string.'' 0"
| "string_body q (c # s) =
     (if c = backslash then
        (case s of
           [] \<Rightarrow> PFail ''String ends with a dangling escape.'' 1
         | d # s' \<Rightarrow>
             (case string_body q s' of
                PDone out r \<Rightarrow> PDone (unescape d # out) r
              | PFail m n \<Rightarrow> PFail m n | PFuel \<Rightarrow> PFuel))
      else if c = q then PDone [] s
      else (case string_body q s of
              PDone out r \<Rightarrow> PDone (c # out) r
            | PFail m n \<Rightarrow> PFail m n | PFuel \<Rightarrow> PFuel))"

definition parseString :: "string \<Rightarrow> string pres" where
  "parseString s =
     (case s of
        c # s' \<Rightarrow> if c = dquote \<or> c = squote then string_body c s'
                   else PFail ''Expected a quoted string.'' (length s)
      | [] \<Rightarrow> PFail ''Expected a quoted string.'' (length s))"

definition parseKey :: "string \<Rightarrow> string pres" where
  "parseKey s =
     (case s of
        [] \<Rightarrow> PFail ''Expected an object key.'' (length s)
      | c # s' \<Rightarrow>
          if c = dquote \<or> c = squote then parseString s
          else if \<not> isIdentifierStart c then PFail ''Expected an object key.'' (length s)
          else PDone (c # takeWhile is_name_part s') (dropWhile is_name_part s'))"

text \<open>The match of the numeric regular expression at the head of the text, if any.\<close>

definition match_int :: "string \<Rightarrow> (string \<times> string) option" where
  "match_int s =
     (case s of
        [] \<Rightarrow> None
      | c # s' \<Rightarrow>
          if c = CHR ''0'' then Some ([c], s')
          else if is_digit c then Some (takeWhile is_digit s, dropWhile is_digit s)
          else None)"

definition match_frac :: "string \<Rightarrow> string \<times> string" where
  "match_frac s =
     (if s \<noteq> [] \<and> hd s = CHR ''.'' \<and> takeWhile is_digit (tl s) \<noteq> []
      then (CHR ''.'' # takeWhile is_digit (tl s), dropWhile is_digit (tl s)) else ([], s))"

definition match_exp :: "string \<Rightarrow> string \<times> string" where
  "match_exp s =
     (if s \<noteq> [] \<and> (hd s = CHR ''e'' \<or> hd s = CHR ''E'') then
        (let r = tl s;
             sg = (if r \<noteq> [] \<and> (hd r = CHR ''+'' \<or> hd r = CHR ''-'') then [hd r] else []);
             r' = drop (length sg) r
         in if takeWhile is_digit r' \<noteq> []
            then (hd s # sg @ takeWhile is_digit r', dropWhile is_digit r') else ([], s))
      else ([], s))"

definition match_number :: "string \<Rightarrow> (string \<times> string) option" where
  "match_number s =
     (let sg = (if s \<noteq> [] \<and> hd s = CHR ''-'' then [CHR ''-''] else [])
      in case match_int (drop (length sg) s) of
           None \<Rightarrow> None
         | Some (ip, r1) \<Rightarrow>
             (let (fp, r2) = match_frac r1; (ep, r3) = match_exp r2
              in Some (sg @ ip @ fp @ ep, r3)))"

definition parseNumber :: "string \<Rightarrow> jv pres" where
  "parseNumber s =
     (case match_number s of
        None \<Rightarrow> PFail ''Invalid numeric literal.'' (length s)
      | Some (m, r) \<Rightarrow> PDone (JNum (js_number m)) r)"

definition parseLiteral :: "string \<Rightarrow> jv pres" where
  "parseLiteral s =
     (let lit = hd s # takeWhile is_name_part (tl s); r = dropWhile is_name_part (tl s)
      in if lit = ''true'' then PDone (JBool True) r
         else if lit = ''false'' then PDone (JBool False) r
         else if lit = ''null'' then PDone JNull r
         else PFail (''Unsupported bare literal '' @ [squote] @ lit @ [squote]
                     @ ''. Use quoted strings for stability.'') (length s))"

text \<open>After a value in an object: an optional comma and the whitespace around it.\<close>

definition after_value :: "string \<Rightarrow> string" where
  "after_value r3 =
     (let r4 = skipWhitespace r3
      in if r4 \<noteq> [] \<and> hd r4 = CHR '','' then skipWhitespace (tl r4) else r4)"

fun parse_value :: "nat \<Rightarrow> string \<Rightarrow> jv pres"
  and object_loop :: "nat \<Rightarrow> jobj \<Rightarrow> string \<Rightarrow> jv pres"
  and array_loop :: "nat \<Rightarrow> jv list \<Rightarrow> string \<Rightarrow> jv pres" where
  "parse_value 0 s = PFuel"
| "parse_value (Suc f) s =
     (case s of
        [] \<Rightarrow> PFail (''Unexpected token '' @ [squote] @ ''EOF'' @ [squote] @ '' in payload.'') 0
      | c # s' \<Rightarrow>
          if c = CHR ''{'' then
            (let r = skipWhitespace s'
             in if r \<noteq> [] \<and> hd r = CHR ''}'' then PDone (JObj []) (tl r) else object_loop f [] r)
          else if c = CHR ''['' then
            (let r = skipWhitespace s'
             in if r \<noteq> [] \<and> hd r = CHR '']'' then PDone (JArr []) (tl r) else array_loop f [] r)
          else if c = dquote \<or> c = squote then
            (case parseString s of
               PDone t r \<Rightarrow> PDone (JStr t) r | PFail m n \<Rightarrow> PFail m n | PFuel \<Rightarrow> PFuel)
          else if c = CHR ''-'' \<or> is_digit c then parseNumber s
          else if isIdentifierStart c then parseLiteral s
          else PFail (''Unexpected token '' @ [squote, c, squote] @ '' in payload.'') (length s))"
| "object_loop 0 out s = PFuel"
| "object_loop (Suc f) out s =
     (if s = [] then PFail ''Expected closing brace for object payload.'' 0
      else case parseKey s of
        PFail m n \<Rightarrow> PFail m n
      | PFuel \<Rightarrow> PFuel
      | PDone k r1 \<Rightarrow>
          (case expect (CHR '':'') (skipWhitespace r1) of
             PFail m n \<Rightarrow> PFail m n
           | PFuel \<Rightarrow> PFuel
           | PDone _ r2 \<Rightarrow>
               (case parse_value f (skipWhitespace r2) of
                  PFail m n \<Rightarrow> PFail m n
                | PFuel \<Rightarrow> PFuel
                | PDone v r3 \<Rightarrow>
                    (let out' = obj_assign k v out; r5 = after_value r3
                     in if r5 \<noteq> [] \<and> hd r5 = CHR ''}'' then PDone (JObj out') (tl r5)
                        else object_loop f out' r5))))"
| "array_loop 0 out s = PFuel"
| "array_loop (Suc f) out s =
     (if s = [] then PFail ''Expected closing bracket for array payload.'' 0
      else case parse_value f s of
        PFail m n \<Rightarrow> PFail m n
      | PFuel \<Rightarrow> PFuel
      | PDone v r1 \<Rightarrow>
          (let out' = out @ [v]; r2 = skipWhitespace r1
           in if r2 \<noteq> [] \<and> hd r2 = CHR '','' then array_loop f out' (skipWhitespace (tl r2))
              else if r2 \<noteq> [] \<and> hd r2 = CHR '']'' then PDone (JArr out') (tl r2)
              else PFail (''Expected '' @ [squote] @ '','' @ [squote] @ '' or '' @ [squote] @ '']''
                          @ [squote] @ '' inside array payload.'') (length r2)))"

definition payload_parse :: "string \<Rightarrow> jv pres" where
  "payload_parse text =
     (case parse_value (2 * length text + 1) (skipWhitespace text) of
        PFail m n \<Rightarrow> PFail m n
      | PFuel \<Rightarrow> PFuel
      | PDone v r \<Rightarrow>
          (let r' = skipWhitespace r
           in if r' = [] then PDone v []
              else PFail ''Unexpected trailing content in directive payload.'' (length r')))"

text \<open>A failed parse and the payload \<^verbatim>\<open>null\<close> both give the value \<^verbatim>\<open>null\<close>.\<close>

definition parseAionisPayload :: "string \<Rightarrow> source_range \<Rightarrow> jv \<times> diagnostic list" where
  "parseAionisPayload raw loc =
     (case payload_parse raw of
        PDone v _ \<Rightarrow> (v, [])
      | PFail m _ \<Rightarrow>
          (JNull, [\<lparr>severity = SevError, diag_code = ''INVALID_PAYLOAD'', message = m, diag_loc = loc,
             hint = Some ''Check directive braces, quoted strings, and array separators.''\<rparr>])
      | PFuel \<Rightarrow> (JNull, []))"

section \<open>Progress and termination\<close>

lemma length_skip [simp]: "length (skipWhitespace s) \<le> length s"
  by (simp add: skipWhitespace_def length_dropWhile_le)

lemma skip_lt: "length s < n \<Longrightarrow> length (skipWhitespace s) < n"
  using length_skip order_le_less_trans by blast

lemma string_body_progress: "string_body q s = PDone t r \<Longrightarrow> length r < length s"
proof (induction q s arbitrary: t rule: string_body.induct)
  case (1 q)
  then show ?case by simp
next
  case (2 q c s)
  show ?case
  proof (cases "c = backslash")
    case True
    with "2.prems" obtain d s' t' where "s = d # s'" "string_body q s' = PDone t' r"
      by (auto split: list.splits pres.splits)
    with "2.IH"(1) [OF True] show ?thesis by fastforce
  next
    case False
    show ?thesis
    proof (cases "c = q")
      case True
      with False "2.prems" show ?thesis by simp
    next
      case neq: False
      with False "2.prems" obtain t' where "string_body q s = PDone t' r"
        by (auto split: pres.splits)
      with "2.IH"(2) [OF False neq] show ?thesis by fastforce
    qed
  qed
qed

lemma string_body_no_fuel: "string_body q s \<noteq> PFuel"
proof (induction q s rule: string_body.induct)
  case (1 q)
  then show ?case by simp
next
  case (2 q c s)
  show ?case
  proof (cases "c = backslash")
    case True
    with "2.IH"(1) show ?thesis by (cases s) (auto split: pres.splits)
  next
    case False
    with "2.IH"(2) show ?thesis by (auto split: pres.splits)
  qed
qed

lemma parseString_progress: "parseString s = PDone t r \<Longrightarrow> length r < length s"
  by (auto simp: parseString_def split: list.splits if_splits dest: string_body_progress)

lemma parseString_no_fuel: "parseString s \<noteq> PFuel"
  by (auto simp: parseString_def string_body_no_fuel split: list.splits)

lemma length_dropWhile_less: "length (dropWhile P xs) < Suc (length xs)"
  by (simp add: length_dropWhile_le le_imp_less_Suc)

lemma parseKey_progress: "parseKey s = PDone k r \<Longrightarrow> length r < length s"
  by (auto simp: parseKey_def length_dropWhile_less
      split: list.splits if_splits dest: parseString_progress)

lemma parseKey_no_fuel: "parseKey s \<noteq> PFuel"
  by (auto simp: parseKey_def parseString_no_fuel split: list.splits)

lemma expect_progress: "expect c s = PDone u r \<Longrightarrow> length r < length s"
  by (cases s) (auto simp: expect_def split: if_splits)

lemma expect_no_fuel: "expect c s \<noteq> PFuel"
  by (simp add: expect_def)

lemma match_int_progress: "match_int s = Some (m, r) \<Longrightarrow> length r < length s"
  by (auto simp: match_int_def length_dropWhile_less split: list.splits if_splits)

lemma match_frac_le: "match_frac s = (m, r) \<Longrightarrow> length r \<le> length s"
  by (cases s) (auto simp: match_frac_def length_dropWhile_le le_SucI split: if_splits)

lemma match_exp_le: "match_exp s = (m, r) \<Longrightarrow> length r \<le> length s"
proof (cases s)
  case Nil
  then show "match_exp s = (m, r) \<Longrightarrow> length r \<le> length s" by (simp add: match_exp_def)
next
  case (Cons c s')
  have "length (dropWhile is_digit (drop n s')) \<le> Suc (length s')" for n
    using length_dropWhile_le [of is_digit "drop n s'"] by simp
  then show "match_exp s = (m, r) \<Longrightarrow> length r \<le> length s"
    using length_dropWhile_le [of is_digit s']
    by (auto simp: match_exp_def Let_def Cons split: if_splits)
qed

lemma parseNumber_progress:
  assumes "parseNumber s = PDone v r"
  shows "length r < length s"
proof -
  define sg where "sg = (if s \<noteq> [] \<and> hd s = CHR ''-'' then [CHR ''-''] else [])"
  from assms obtain ip r1 where 1: "match_int (drop (length sg) s) = Some (ip, r1)"
    by (auto simp: parseNumber_def match_number_def sg_def Let_def split: option.splits prod.splits)
  obtain fp r2 where 2: "match_frac r1 = (fp, r2)" by fastforce
  obtain ep r3 where 3: "match_exp r2 = (ep, r3)" by fastforce
  from assms 1 2 3 have "r = r3"
    by (auto simp: parseNumber_def match_number_def sg_def [symmetric] Let_def)
  with match_int_progress [OF 1] match_frac_le [OF 2] match_exp_le [OF 3] show ?thesis by simp
qed

lemma parseNumber_no_fuel: "parseNumber s \<noteq> PFuel"
  by (auto simp: parseNumber_def split: option.splits)

lemma parseLiteral_progress: "s \<noteq> [] \<Longrightarrow> parseLiteral s = PDone v r \<Longrightarrow> length r < length s"
  by (cases s) (auto simp: parseLiteral_def Let_def length_dropWhile_less split: if_splits)

lemma parseLiteral_no_fuel: "parseLiteral s \<noteq> PFuel"
  by (simp add: parseLiteral_def Let_def)

lemmas progress_facts =
  parseString_progress parseKey_progress expect_progress parseNumber_progress parseLiteral_progress

lemmas no_fuel_facts =
  parseString_no_fuel parseKey_no_fuel expect_no_fuel parseNumber_no_fuel parseLiteral_no_fuel


lemma length_after_value: "length (after_value r) \<le> length r"
proof -
  have "length (skipWhitespace (tl (skipWhitespace r))) \<le> length r"
    using length_skip [of "tl (skipWhitespace r)"] length_skip [of r]
    by (metis diff_le_self le_trans length_tl)
  then show ?thesis by (simp add: after_value_def Let_def)
qed

text \<open>One round of the object loop, as a chain of steps.\<close>

lemma object_loop_done:
  assumes "object_loop (Suc f) out s = PDone v r"
  obtains k r1 r2 v' r3 where "parseKey s = PDone k r1"
    "expect (CHR '':'') (skipWhitespace r1) = PDone () r2"
    "parse_value f (skipWhitespace r2) = PDone v' r3"
    "(after_value r3 \<noteq> [] \<and> hd (after_value r3) = CHR ''}''
        \<and> v = JObj (obj_assign k v' out) \<and> r = tl (after_value r3))
     \<or> object_loop f (obj_assign k v' out) (after_value r3) = PDone v r"
proof -
  from assms obtain k r1 where 1: "parseKey s = PDone k r1" by (auto split: if_splits pres.splits)
  from assms 1 obtain r2 where 2: "expect (CHR '':'') (skipWhitespace r1) = PDone () r2"
    by (auto split: if_splits pres.splits)
  from assms 1 2 obtain v' r3 where 3: "parse_value f (skipWhitespace r2) = PDone v' r3"
    by (auto split: if_splits pres.splits)
  from assms 1 2 3 show thesis
    by (intro that [OF 1 2 3]) (simp add: Let_def split: if_splits)
qed

lemma payload_progress_aux:
  "(\<forall>s v r. parse_value f s = PDone v r \<longrightarrow> length r < length s)
   \<and> (\<forall>out s v r. object_loop f out s = PDone v r \<longrightarrow> length r < length s)
   \<and> (\<forall>out s v r. array_loop f out s = PDone v r \<longrightarrow> length r < length s)"
proof (induction f)
  case 0
  then show ?case by simp
next
  case (Suc f)
  then have V: "\<And>s v r. parse_value f s = PDone v r \<Longrightarrow> length r < length s"
    and Ob: "\<And>out s v r. object_loop f out s = PDone v r \<Longrightarrow> length r < length s"
    and A: "\<And>out s v r. array_loop f out s = PDone v r \<Longrightarrow> length r < length s" by blast+
  have tl: "length (tl r) < length s" if "length r < length s" for r s :: string using that by simp
  have "length r < length s" if v: "parse_value (Suc f) s = PDone v r" for s v r
  proof (cases s)
    case Nil
    with v show ?thesis by simp
  next
    case (Cons c s')
    let ?w = "skipWhitespace s'"
    have w: "length ?w < length s" by (simp add: Cons skip_lt)
    consider "c = CHR ''{''" | "c = CHR ''[''" | "c = dquote \<or> c = squote"
      | "c \<noteq> CHR ''{''" "c \<noteq> CHR ''[''" "c \<noteq> dquote" "c \<noteq> squote" by blast
    then show ?thesis
    proof cases
      case 1
      with v Cons have "r = tl ?w \<or> object_loop f [] ?w = PDone v r"
        by (auto simp: Let_def split: if_splits)
      with w Ob [of "[]" ?w v r] show ?thesis by auto
    next
      case 2
      with v Cons have "r = tl ?w \<or> array_loop f [] ?w = PDone v r"
        by (auto simp: Let_def split: if_splits)
      with w A [of "[]" ?w v r] show ?thesis by auto
    next
      case 3
      with v Cons obtain t where "parseString s = PDone t r"
        by (auto split: pres.splits)
      then show ?thesis by (rule parseString_progress)
    next
      case 4
      with v Cons have "parseNumber s = PDone v r \<or> parseLiteral s = PDone v r"
        by (auto split: if_splits)
      then show ?thesis using Cons parseNumber_progress parseLiteral_progress by blast
    qed
  qed
  moreover have "length r < length s" if "object_loop (Suc f) out s = PDone v r" for out s v r
  proof -
    from that obtain k r1 r2 v' r3 where st: "parseKey s = PDone k r1"
      "expect (CHR '':'') (skipWhitespace r1) = PDone () r2"
      "parse_value f (skipWhitespace r2) = PDone v' r3"
      and e: "r = tl (after_value r3) \<or> object_loop f (obj_assign k v' out) (after_value r3) = PDone v r"
      by (elim object_loop_done) blast
    have "length r3 < length s"
      using parseKey_progress [OF st(1)] expect_progress [OF st(2)] V [OF st(3)]
        length_skip [of r1] length_skip [of r2] by linarith
    moreover have "length r \<le> length (after_value r3)" using e Ob by (auto intro: less_imp_le)
    ultimately show ?thesis using length_after_value [of r3] by linarith
  qed
  moreover have "length r < length s" if "array_loop (Suc f) out s = PDone v r" for out s v r
  proof -
    from that obtain v' r1 where 1: "parse_value f s = PDone v' r1"
      and e: "r = tl (skipWhitespace r1)
        \<or> array_loop f (out @ [v']) (skipWhitespace (tl (skipWhitespace r1))) = PDone v r"
      by (auto simp: Let_def split: if_splits pres.splits)
    from e have "length r \<le> length r1"
    proof
      assume "r = tl (skipWhitespace r1)"
      then show ?thesis using length_skip [of r1] by (metis diff_le_self le_trans length_tl)
    next
      assume "array_loop f (out @ [v']) (skipWhitespace (tl (skipWhitespace r1))) = PDone v r"
      from A [OF this] have "length r \<le> length (skipWhitespace (tl (skipWhitespace r1)))" by simp
      also have "\<dots> \<le> length (skipWhitespace r1)" by (metis diff_le_self le_trans length_tl length_skip)
      also have "\<dots> \<le> length r1" by simp
      finally show ?thesis .
    qed
    with V [OF 1] show ?thesis by linarith
  qed
  ultimately show ?case by blast
qed

lemmas parse_value_progress = payload_progress_aux [THEN conjunct1, rule_format]

lemma payload_fuel_aux:
  "(\<forall>s. 2 * length s + 1 \<le> f \<longrightarrow> parse_value f s \<noteq> PFuel)
   \<and> (\<forall>out s. 2 * length s + 1 \<le> f \<longrightarrow> object_loop f out s \<noteq> PFuel)
   \<and> (\<forall>out s. 2 * length s + 2 \<le> f \<longrightarrow> array_loop f out s \<noteq> PFuel)"
proof (induction f)
  case 0
  then show ?case by simp
next
  case (Suc f)
  then have V: "\<And>s. 2 * length s + 1 \<le> f \<Longrightarrow> parse_value f s \<noteq> PFuel"
    and Ob: "\<And>out s. 2 * length s + 1 \<le> f \<Longrightarrow> object_loop f out s \<noteq> PFuel"
    and A: "\<And>out s. 2 * length s + 2 \<le> f \<Longrightarrow> array_loop f out s \<noteq> PFuel" by blast+
  have "parse_value (Suc f) s \<noteq> PFuel" if "2 * length s + 1 \<le> Suc f" for s
  proof (cases s)
    case Nil
    then show ?thesis by simp
  next
    case (Cons c s')
    have w: "2 * length (skipWhitespace s') + 2 \<le> f"
      using that length_skip [of s'] Cons by (auto simp del: length_skip)
    then have "object_loop f [] (skipWhitespace s') \<noteq> PFuel" "array_loop f [] (skipWhitespace s') \<noteq> PFuel"
      using Ob A by simp_all
    moreover have "(case parseString s of PDone t r \<Rightarrow> PDone (JStr t) r
        | PFail m n \<Rightarrow> PFail m n | PFuel \<Rightarrow> PFuel) \<noteq> PFuel"
      using parseString_no_fuel [of s] by (auto split: pres.splits)
    ultimately show ?thesis
      using parseNumber_no_fuel [of s] parseLiteral_no_fuel [of s]
      by (auto simp: Cons Let_def)
  qed
  moreover have "object_loop (Suc f) out s \<noteq> PFuel" if l: "2 * length s + 1 \<le> Suc f" for out s
  proof
    assume fu: "object_loop (Suc f) out s = PFuel"
    then obtain k r1 where 1: "parseKey s = PDone k r1"
      by (auto simp: parseKey_no_fuel split: if_splits pres.splits)
    with fu obtain r2 where 2: "expect (CHR '':'') (skipWhitespace r1) = PDone () r2"
      by (auto simp: expect_no_fuel split: if_splits pres.splits)
    note st = 1 2
    have lr: "length (skipWhitespace r2) + 2 \<le> length s"
      using parseKey_progress [OF st(1)] expect_progress [OF st(2)]
        length_skip [of r1] length_skip [of r2] by linarith
    then have "parse_value f (skipWhitespace r2) \<noteq> PFuel" using V l by simp
    with fu 1 2 obtain v' r3 where 3: "parse_value f (skipWhitespace r2) = PDone v' r3"
      by (auto simp: Let_def split: if_splits pres.splits)
    with fu 1 2 have ob: "object_loop f (obj_assign k v' out) (after_value r3) = PFuel"
      by (auto simp: Let_def split: if_splits)
    have "2 * length (after_value r3) + 1 \<le> f"
      using parse_value_progress [OF 3] length_after_value [of r3] lr l by linarith
    with Ob ob show False by blast
  qed
  moreover have "array_loop (Suc f) out s \<noteq> PFuel" if l: "2 * length s + 2 \<le> Suc f" for out s
  proof
    assume a: "array_loop (Suc f) out s = PFuel"
    have "parse_value f s \<noteq> PFuel" using V l by simp
    with a obtain v r1 where 1: "parse_value f s = PDone v r1"
      and 2: "array_loop f (out @ [v]) (skipWhitespace (tl (skipWhitespace r1))) = PFuel"
      by (auto simp: Let_def split: if_splits pres.splits)
    have "length (skipWhitespace (tl (skipWhitespace r1))) \<le> length r1"
      using length_skip [of "tl (skipWhitespace r1)"] length_skip [of r1]
      by (metis diff_le_self le_trans length_tl)
    with parse_value_progress [OF 1] l have
      "2 * length (skipWhitespace (tl (skipWhitespace r1))) + 2 \<le> f" by linarith
    with A 2 show False by blast
  qed
  ultimately show ?case by blast
qed

lemmas parse_value_fuel = payload_fuel_aux [THEN conjunct1, rule_format]

lemma payload_parse_no_fuel: "payload_parse text \<noteq> PFuel"
proof -
  have "2 * length (skipWhitespace text) + 1 \<le> 2 * length text + 1"
    using length_skip [of "text"] by simp
  then have "parse_value (2 * length text + 1) (skipWhitespace text) \<noteq> PFuel"
    by (rule parse_value_fuel)
  then show ?thesis by (auto simp: payload_parse_def Let_def split: pres.splits)
qed

end
