(* ===== verification/DocParser.thy ===== *)
theory DocParser
  imports DocPayload
begin

text \<open>
  The document parser: packages/aionis-doc/src/ast/types.ts and parser/parseAst.ts.

  The \<open>for\<close> loop over the lines becomes \<open>parse_lines\<close>; its body is \<open>parse_line\<close>, which
  returns the nodes and diagnostics the round appends and the line the next round starts at
  (\<open>None\<close> for \<^verbatim>\<open>break\<close>).  The four kinds of round (fence, heading, directive,
  paragraph) are definitions of their own.
\<close>

datatype ast_node =
    HeadingNode (depth: nat) (node_text: string) (raw: string) (loc: source_range)
  | ParagraphNode (node_text: string) (raw: string) (loc: source_range)
  | CodeFenceNode (info: "string option") (content: string) (raw: string) (loc: source_range)
  | DirectiveNode (name: string) (payload: jv) (raw: string) (loc: source_range)
      (node_diagnostics: "diagnostic list")

record document_node =
  children :: "ast_node list"
  doc_diagnostics :: "diagnostic list"
  doc_loc :: source_range

section \<open>Line classes\<close>

definition isFenceLine :: "string \<Rightarrow> bool" where
  "isFenceLine l \<longleftrightarrow> js_starts_with (dropWhile is_ws l) ''```''"

abbreviation hashes :: "string \<Rightarrow> string" where
  "hashes l \<equiv> takeWhile (\<lambda>c. c = CHR ''#'') l"

abbreviation after_hashes :: "string \<Rightarrow> string" where
  "after_hashes l \<equiv> dropWhile (\<lambda>c. c = CHR ''#'') l"

definition isHeadingLine :: "string \<Rightarrow> bool" where
  "isHeadingLine l \<longleftrightarrow>
     1 \<le> length (hashes l) \<and> length (hashes l) \<le> 6
     \<and> after_hashes l \<noteq> [] \<and> is_ws (hd (after_hashes l))"

text \<open>
  The full heading expression \<^verbatim>\<open>/^(#{1,6})\s+(.*)$/\<close>.  Its dot excludes line
  terminators, so a carriage return left in the text makes it fail; the whitespace before
  the text is matched greedily.
\<close>

definition heading_match :: "string \<Rightarrow> (nat \<times> string) option" where
  "heading_match l =
     (let t = dropWhile is_ws (after_hashes l)
      in if isHeadingLine l \<and> carriage_return \<notin> set t \<and> newline \<notin> set t
         then Some (length (hashes l), t) else None)"

definition isDirectiveLine :: "string \<Rightarrow> bool" where
  "isDirectiveLine l =
     (case dropWhile is_ws l of
        a # c # _ \<Rightarrow> a = CHR ''@'' \<and> is_alpha c | _ \<Rightarrow> False)"

text \<open>The leading whitespace and the name of a directive line.\<close>

definition directive_match :: "string \<Rightarrow> (string \<times> string) option" where
  "directive_match l =
     (if isDirectiveLine l
      then Some (takeWhile is_ws l, takeWhile is_name_part (tl (dropWhile is_ws l)))
      else None)"

definition countNewlines :: "string \<Rightarrow> nat \<Rightarrow> nat \<Rightarrow> nat" where
  "countNewlines src a b = newlines (js_slice src a b)"

fun block_end :: "int \<Rightarrow> char option \<Rightarrow> bool \<Rightarrow> nat \<Rightarrow> string \<Rightarrow> nat option" where
  "block_end d q esc i [] = None"
| "block_end d (Some q) esc i (c # s) =
     (if esc then block_end d (Some q) False (i + 1) s
      else if c = backslash then block_end d (Some q) True (i + 1) s
      else if c = q then block_end d None esc (i + 1) s
      else block_end d (Some q) esc (i + 1) s)"
| "block_end d None esc i (c # s) =
     (if c = dquote \<or> c = squote then block_end d (Some c) esc (i + 1) s
      else if c = CHR ''{'' then block_end (d + 1) None esc (i + 1) s
      else if c = CHR ''}'' then
        (if d - 1 = 0 then Some (i + 1) else block_end (d - 1) None esc (i + 1) s)
      else block_end d None esc (i + 1) s)"

text \<open>\<open>None\<close> is the source's -1.\<close>

definition findDirectiveBlockEnd :: "string \<Rightarrow> nat \<Rightarrow> nat option" where
  "findDirectiveBlockEnd src b = block_end 0 None False b (drop b src)"

definition makeInvalidDirectiveDiagnostic ::
  "scan_result \<Rightarrow> nat \<Rightarrow> nat \<Rightarrow> string \<Rightarrow> diagnostic" where
  "makeInvalidDirectiveDiagnostic sc a b msg =
     \<lparr>severity = SevError, diag_code = ''INVALID_PAYLOAD'', message = msg,
      diag_loc = rangeFromOffsets sc (int a) (int b),
      hint = Some ''Directives must be followed by a balanced { ... } payload.''\<rparr>"

section \<open>One round of the line loop\<close>

type_synonym round = "ast_node list \<times> diagnostic list \<times> nat option"

definition line_start :: "scan_result \<Rightarrow> nat \<Rightarrow> nat" where
  "line_start sc i = (if i < length (lineStarts sc) then lineStarts sc ! i else length (source sc))"

function fence_end :: "string list \<Rightarrow> nat \<Rightarrow> nat" where
  "fence_end ls e =
     (if e + 1 < length ls
      then (if isFenceLine (ls ! (e + 1)) then e + 1 else fence_end ls (e + 1)) else e)"
  by pat_completeness auto
termination by (relation "measure (\<lambda>(ls, e). length ls - e)") auto

declare fence_end.simps [simp del]

definition parse_fence :: "scan_result \<Rightarrow> string list \<Rightarrow> nat \<Rightarrow> round" where
  "parse_fence sc ls i =
     (let a = line_start sc i;
          inf = js_trim (drop 3 (js_trim (ls ! i)));
          e = fence_end ls i;
          closed = (e \<noteq> i \<and> isFenceLine (ls ! e));
          b = line_start sc (e + 1);
          body = take ((if closed then e else e + 1) - (i + 1)) (drop (i + 1) ls);
          lc = rangeFromOffsets sc (int a) (int b)
      in ([CodeFenceNode (if inf = [] then None else Some inf) (js_join [newline] body)
             (js_slice (source sc) a b) lc],
          (if closed then []
           else [\<lparr>severity = SevWarning, diag_code = ''UNCLOSED_FENCE'',
                  message = ''Code fence reaches end of file without a closing delimiter.'',
                  diag_loc = lc, hint = None\<rparr>]),
          Some (e + 1)))"


definition parse_heading :: "scan_result \<Rightarrow> string \<Rightarrow> nat \<Rightarrow> nat \<Rightarrow> string \<Rightarrow> round" where
  "parse_heading sc l i d t =
     (let a = line_start sc i
      in ([HeadingNode d t l (rangeFromOffsets sc (int a) (int (a + length l)))], [], Some (i + 1)))"

definition invalid_directive ::
  "scan_result \<Rightarrow> string \<Rightarrow> nat \<Rightarrow> nat \<Rightarrow> string \<Rightarrow> nat option \<Rightarrow> round" where
  "invalid_directive sc nm a b msg nxt =
     (let d = makeInvalidDirectiveDiagnostic sc a b msg
      in ([DirectiveNode nm JNull (js_slice (source sc) a b) (rangeFromOffsets sc (int a) (int b)) [d]],
          [d], nxt))"

definition parse_directive :: "scan_result \<Rightarrow> string \<Rightarrow> nat \<Rightarrow> string \<Rightarrow> string \<Rightarrow> round" where
  "parse_directive sc l i ws nm =
     (let src = source sc;
          a = line_start sc i + length ws;
          h = a + 1 + length nm;
          p = h + length (takeWhile is_ws (drop h src))
      in if \<not> (p < length src \<and> src ! p = CHR ''{'') then
           invalid_directive sc nm a (line_start sc i + length l)
             ''Directive is missing an object payload.'' (Some (i + 1))
         else case findDirectiveBlockEnd src p of
           None \<Rightarrow>
             invalid_directive sc nm a (length src)
               ''Directive payload ends before its closing brace.'' None
         | Some e \<Rightarrow>
             (let lc = rangeFromOffsets sc (int a) (int e);
                  (v, ds) = parseAionisPayload (js_slice src p e) lc
              in ([DirectiveNode nm v (js_slice src a e) lc ds], ds,
                  Some (i + countNewlines src a e + 1))))"

function para_end :: "string list \<Rightarrow> nat \<Rightarrow> nat" where
  "para_end ls e =
     (if e + 1 < length ls then
        (let nx = ls ! (e + 1)
         in if js_trim nx = [] \<or> isFenceLine nx \<or> isHeadingLine nx \<or> isDirectiveLine nx
            then e else para_end ls (e + 1))
      else e)"
  by pat_completeness auto
termination by (relation "measure (\<lambda>(ls, e). length ls - e)") auto

declare para_end.simps [simp del]

definition parse_paragraph :: "scan_result \<Rightarrow> string list \<Rightarrow> nat \<Rightarrow> round" where
  "parse_paragraph sc ls i =
     (let a = line_start sc i; e = para_end ls i; b = line_start sc (e + 1)
      in ([ParagraphNode (js_trim (js_join [newline] (take (e + 1 - i) (drop i ls))))
             (js_slice (source sc) a b) (rangeFromOffsets sc (int a) (int b))],
          [], Some (e + 1)))"

definition parse_line :: "scan_result \<Rightarrow> string list \<Rightarrow> nat \<Rightarrow> round" where
  "parse_line sc ls i =
     (let l = ls ! i
      in if js_trim l = [] then ([], [], Some (i + 1))
         else if isFenceLine l then parse_fence sc ls i
         else case heading_match l of
           Some (d, t) \<Rightarrow> parse_heading sc l i d t
         | None \<Rightarrow>
             (case directive_match l of
                Some (ws, nm) \<Rightarrow> parse_directive sc l i ws nm
              | None \<Rightarrow> parse_paragraph sc ls i))"

lemma fence_end_ge: "i \<le> fence_end ls i"
proof (induction ls i rule: fence_end.induct)
  case (1 ls e)
  then show ?case by (subst fence_end.simps) (auto simp: Suc_le_eq intro: less_imp_le)
qed

lemma para_end_ge: "i \<le> para_end ls i"
proof (induction ls i rule: para_end.induct)
  case (1 ls e)
  then show ?case by (subst para_end.simps) (auto simp: Let_def Suc_le_eq intro: less_imp_le)
qed

lemma parse_line_next:
  assumes "parse_line sc ls i = (ns, ds, Some j)"
  shows "i < j"
proof -
  note defs = parse_fence_def parse_heading_def parse_paragraph_def parse_directive_def
    invalid_directive_def
  from assms show ?thesis
    using fence_end_ge [of i ls] para_end_ge [of i ls]
    by (auto simp: parse_line_def defs Let_def split: if_splits option.splits prod.splits)
qed

function parse_lines :: "scan_result \<Rightarrow> string list \<Rightarrow> nat \<Rightarrow> ast_node list \<times> diagnostic list" where
  "parse_lines sc ls i =
     (if i < length ls then
        (case parse_line sc ls i of
           (ns, ds, None) \<Rightarrow> (ns, ds)
         | (ns, ds, Some j) \<Rightarrow>
             (let (ns', ds') = parse_lines sc ls j in (ns @ ns', ds @ ds')))
      else ([], []))"
  by pat_completeness auto
termination
  by (relation "measure (\<lambda>(sc, ls, i). length ls - i)") (auto dest: parse_line_next [OF sym])

declare parse_lines.simps [simp del]

definition parseAst :: "scan_result \<Rightarrow> document_node" where
  "parseAst sc =
     (let (ns, ds) = parse_lines sc (js_split newline (source sc)) 0
      in \<lparr>children = ns, doc_diagnostics = ds,
          doc_loc = rangeFromOffsets sc 0 (int (length (source sc)))\<rparr>)"

end
