(* ===== verification/DocParserSpans.thy ===== *)
theory DocParserSpans
  imports DocParser
begin

text \<open>
  The geometry of the parsed document: every node carries the exact text of its range, and
  the ranges of the nodes follow each other through the source without overlap.
\<close>

section \<open>Lines and line starts\<close>

lemma split_line_at:
  assumes "i < length (js_split newline s)"
  defines "st \<equiv> \<lambda>j. (0 # line_starts_from 0 s) ! j"
  shows "\<exists>r. drop (st i) s = js_split newline s ! i @ r
    \<and> (if i + 1 < length (js_split newline s)
       then (\<exists>r'. r = newline # r') \<and> st (i + 1) = st i + length (js_split newline s ! i) + 1
       else r = [])"
proof -
  have "\<exists>r. drop ((k # line_starts_from k s) ! i - k) s = js_split newline s ! i @ r
      \<and> (if i + 1 < length (js_split newline s)
         then (\<exists>r'. r = newline # r') \<and> (k # line_starts_from k s) ! (i + 1)
               = (k # line_starts_from k s) ! i + length (js_split newline s ! i) + 1
         else r = [])" if "i < length (js_split newline s)" for k i
    using that
  proof (induction s arbitrary: k i)
    case Nil
    then show ?case by simp
  next
    case (Cons c s)
    obtain p ps where p: "js_split newline s = p # ps" by (cases "js_split newline s") auto
    show ?case
    proof (cases "c = newline")
      case True
      show ?thesis
      proof (cases i)
        case 0
        then show ?thesis using True by simp
      next
        case (Suc j)
        let ?L = "Suc k # line_starts_from (Suc k) s"
        have j: "j < length (js_split newline s)" using Cons.prems Suc True by simp
        then have "?L ! j \<in> set ?L"
          using length_line_starts [of "Suc k" s] length_js_split [of newline s]
          by (intro nth_mem) (simp add: newlines_def)
        then have "Suc k \<le> ?L ! j" using line_starts_bounds [of _ "Suc k" s] by (auto intro: less_imp_le)
        then have "?L ! j - k = Suc (?L ! j - Suc k)" by simp
        with Cons.IH [OF j, of "Suc k"] Suc True show ?thesis by (auto split: if_splits)
      qed
    next
      case False
      have j: "i < length (js_split newline s)" using Cons.prems False p by simp
      show ?thesis
      proof (cases i)
        case 0
        with Cons.IH [OF j, of "Suc k"] False p show ?thesis by auto
      next
        case (Suc m)
        have m: "m < length (line_starts_from (Suc k) s)"
          using j Suc length_line_starts [of "Suc k" s] length_js_split [of newline s]
          by (simp add: newlines_def)
        then have "Suc k < line_starts_from (Suc k) s ! m"
          using line_starts_bounds [OF nth_mem [OF m]] by simp
        then have "line_starts_from (Suc k) s ! m - k = Suc (line_starts_from (Suc k) s ! m - Suc k)"
          by simp
        with Cons.IH [OF j, of "Suc k"] False p Suc show ?thesis by (auto split: if_splits)
      qed
    qed
  qed
  from this [OF assms(1), of 0] show ?thesis unfolding st_def by simp
qed

text \<open>The lines of a scanned source, as the parser reads them.\<close>

abbreviation lines_of :: "string \<Rightarrow> string list" where
  "lines_of s \<equiv> js_split newline s"

abbreviation start_of :: "string \<Rightarrow> nat \<Rightarrow> nat" where
  "start_of s i \<equiv> line_start (scanSource s) i"

lemma length_lines: "length (lines_of s) = length (lineStarts (scanSource s))"
  by (simp add: length_js_split length_lineStarts newlines_def)

lemma line_at:
  assumes "i < length (lines_of s)"
  obtains r where "drop (start_of s i) s = lines_of s ! i @ r"
    "i + 1 < length (lines_of s) \<Longrightarrow> (\<exists>r'. r = newline # r')
       \<and> start_of s (i + 1) = start_of s i + length (lines_of s ! i) + 1"
    "\<not> i + 1 < length (lines_of s) \<Longrightarrow> r = []"
proof -
  have "start_of s j = (0 # line_starts_from 0 s) ! j" if "j < length (lines_of s)" for j
    using that by (simp add: line_start_def length_lines scanSource_def)
  with split_line_at [OF assms] assms that show thesis by (auto split: if_splits)
qed

lemma start_of_last: "length (lines_of s) \<le> i \<Longrightarrow> start_of s i = length s"
  by (simp add: line_start_def length_lines [symmetric])

lemma start_plus_line:
  assumes "i < length (lines_of s)"
  shows "start_of s i + length (lines_of s ! i) \<le> length s"
proof -
  from assms obtain r where r: "drop (start_of s i) s = lines_of s ! i @ r" by (rule line_at)
  have "start_of s i \<le> length s"
    using assms line_starts_bounds [of _ 0 s]
    by (cases i) (auto simp: line_start_def length_lines scanSource_def)
  moreover have "length s - start_of s i = length (lines_of s ! i @ r)"
    using r by (metis length_drop)
  ultimately show ?thesis by simp
qed

lemma line_slice:
  assumes "i < length (lines_of s)"
  shows "js_slice s (start_of s i) (start_of s i + length (lines_of s ! i)) = lines_of s ! i"
proof -
  from assms obtain r where "drop (start_of s i) s = lines_of s ! i @ r" by (rule line_at)
  then show ?thesis by (simp add: js_slice_def)
qed

lemma start_of_Suc:
  assumes "i < length (lines_of s)"
  shows "start_of s i + length (lines_of s ! i) \<le> start_of s (i + 1)"
proof (cases "i + 1 < length (lines_of s)")
  case True
  with line_at [OF assms] show ?thesis by (metis le_add1)
next
  case False
  with start_plus_line [OF assms] show ?thesis by (simp add: start_of_last)
qed

lemma start_of_le: "start_of s i \<le> length s"
proof (cases "i < length (lines_of s)")
  case True
  with start_plus_line show ?thesis by (meson add_leD1)
qed (simp add: start_of_last)

lemma start_of_mono: "i \<le> j \<Longrightarrow> start_of s i \<le> start_of s j"
proof (induction j)
  case 0
  then show ?case by simp
next
  case (Suc j)
  show ?case
  proof (cases "i = Suc j")
    case False
    with Suc have "start_of s i \<le> start_of s j" by simp
    also have "\<dots> \<le> start_of s (Suc j)"
    proof (cases "j < length (lines_of s)")
      case True
      with start_of_Suc [OF this] show ?thesis by simp
    next
      case False
      then show ?thesis by (simp add: start_of_last)
    qed
    finally show ?thesis .
  qed simp
qed

lemma newlines_before_line:
  assumes "i < length (lines_of s)" "start_of s i \<le> a" "a \<le> start_of s i + length (lines_of s ! i)"
  shows "newlines (take a s) = i"
proof -
  have al: "a \<le> length s" using assms start_plus_line [OF assms(1)] by linarith
  have "i \<le> newlines (take a s)"
    using line_start_le_iff [of i s a] assms al by (simp add: length_lines line_start_def)
  moreover have "\<not> Suc i \<le> newlines (take a s)"
  proof
    assume le: "Suc i \<le> newlines (take a s)"
    then have "Suc i < length (lines_of s)"
      using newlines_take_le [of a s] by (simp add: length_lines length_lineStarts)
    with line_at [OF assms(1)] have "start_of s (Suc i) = start_of s i + length (lines_of s ! i) + 1"
      by (metis Suc_eq_plus1)
    moreover have "start_of s (Suc i) \<le> a"
      using line_start_le_iff [of "Suc i" s a] le al \<open>Suc i < length (lines_of s)\<close>
      by (simp add: length_lines line_start_def)
    ultimately show False using assms(3) by simp
  qed
  ultimately show ?thesis by simp
qed

lemma offset_before_next_line:
  assumes "e \<le> length s"
  shows "e \<le> start_of s (newlines (take e s) + 1)"
proof (cases "newlines (take e s) + 1 < length (lines_of s)")
  case True
  then show ?thesis
    using line_start_le_iff [of "newlines (take e s) + 1" s e] assms
    by (simp add: length_lines line_start_def)
next
  case False
  with assms show ?thesis by (simp add: start_of_last)
qed

section \<open>Spans\<close>

definition span_start :: "ast_node \<Rightarrow> nat" where
  "span_start n = offset (range_start (loc n))"

definition span_end :: "ast_node \<Rightarrow> nat" where
  "span_end n = offset (range_end (loc n))"

text \<open>A node between two offsets that carries the source text of its range.\<close>

definition node_within :: "string \<Rightarrow> nat \<Rightarrow> nat \<Rightarrow> ast_node \<Rightarrow> bool" where
  "node_within s lo hi n \<longleftrightarrow>
     lo \<le> span_start n \<and> span_start n \<le> span_end n \<and> span_end n \<le> hi
     \<and> raw n = js_slice s (span_start n) (span_end n)"

lemma offset_range:
  assumes "a \<le> length s" "b \<le> length s"
  shows "offset (range_start (rangeFromOffsets (scanSource s) (int a) (int b))) = a"
    "offset (range_end (rangeFromOffsets (scanSource s) (int a) (int b))) = b"
  using assms by (simp_all add: rangeFromOffsets_def offsetToSourcePos_in_range)

lemma block_end_bounds:
  "block_end d q esc i s = Some e \<Longrightarrow> i < e \<and> e \<le> i + length s"
  by (induction d q esc i s rule: block_end.induct) (auto split: if_splits)

lemma findDirectiveBlockEnd_bounds:
  assumes "findDirectiveBlockEnd s p = Some e"
  shows "p < e" "e \<le> length s"
proof -
  have b: "p < e \<and> e \<le> p + length (drop p s)"
    using assms unfolding findDirectiveBlockEnd_def by (rule block_end_bounds)
  then have "drop p s \<noteq> []" by (metis add.right_neutral leD length_0_conv)
  with b show "p < e" "e \<le> length s" by simp_all
qed

lemma round_within_trans:
  "node_within s lo hi n \<Longrightarrow> lo' \<le> lo \<Longrightarrow> hi \<le> hi' \<Longrightarrow> node_within s lo' hi' n"
  by (auto simp: node_within_def)

text \<open>Each kind of round keeps its node between the current line and the next round's line.\<close>

abbreviation round_hi :: "string \<Rightarrow> nat option \<Rightarrow> nat" where
  "round_hi s nxt \<equiv> (case nxt of Some j \<Rightarrow> start_of s j | None \<Rightarrow> length s)"

lemma fence_within:
  assumes "parse_fence (scanSource s) (lines_of s) i = (ns, ds, nxt)" "n \<in> set ns"
  shows "node_within s (start_of s i) (round_hi s nxt) n"
proof -
  have "start_of s i \<le> start_of s (fence_end (lines_of s) i + 1)"
    using fence_end_ge [of i "lines_of s"] by (intro start_of_mono) simp
  with assms start_of_le show ?thesis
    by (auto simp: parse_fence_def Let_def node_within_def span_start_def span_end_def offset_range)
qed

lemma paragraph_within:
  assumes "parse_paragraph (scanSource s) (lines_of s) i = (ns, ds, nxt)" "n \<in> set ns"
  shows "node_within s (start_of s i) (round_hi s nxt) n"
proof -
  have "start_of s i \<le> start_of s (para_end (lines_of s) i + 1)"
    using para_end_ge [of i "lines_of s"] by (intro start_of_mono) simp
  with assms start_of_le show ?thesis
    by (auto simp: parse_paragraph_def Let_def node_within_def span_start_def span_end_def offset_range)
qed

lemma heading_within:
  assumes "parse_heading (scanSource s) (lines_of s ! i) i d t = (ns, ds, nxt)" "n \<in> set ns"
    and "i < length (lines_of s)"
  shows "node_within s (start_of s i) (round_hi s nxt) n"
  using assms start_plus_line [OF assms(3)] start_of_le [of s i] start_of_Suc [OF assms(3)]
  by (auto simp: parse_heading_def Let_def node_within_def span_start_def span_end_def offset_range
      line_slice simp del: of_nat_add)

lemma directive_within:
  assumes "parse_directive (scanSource s) (lines_of s ! i) i ws nm = (ns, ds, nxt)" "n \<in> set ns"
    and i: "i < length (lines_of s)"
    and m: "directive_match (lines_of s ! i) = Some (ws, nm)"
  shows "node_within s (start_of s i) (round_hi s nxt) n"
proof -
  let ?l = "lines_of s ! i" and ?a = "start_of s i + length ws"
  have wl: "length ws \<le> length ?l"
    using m length_takeWhile_le [of is_ws ?l] by (auto simp: directive_match_def split: if_splits)
  have al: "?a \<le> length s" and ll: "start_of s i + length ?l \<le> length s"
    using wl start_plus_line [OF i] by linarith+
  have nx: "start_of s i + length ?l \<le> start_of s (Suc i)" using start_of_Suc [OF i] by simp
  define p where "p = ?a + 1 + length nm + length (takeWhile is_ws (drop (?a + 1 + length nm) s))"
  have nla: "newlines (take ?a s) = i"
    using wl by (intro newlines_before_line [OF i]) auto
  show ?thesis
  proof (cases "p < length s \<and> s ! p = CHR ''{''")
    case False
    with assms(1,2) al ll wl nx show ?thesis
      by (auto simp: parse_directive_def invalid_directive_def Let_def p_def node_within_def
          span_start_def span_end_def offset_range simp del: of_nat_add)
  next
    case p: True
    show ?thesis
    proof (cases "findDirectiveBlockEnd s p")
      case None
      with assms(1,2) p al show ?thesis
        by (auto simp: parse_directive_def invalid_directive_def Let_def p_def node_within_def
            span_start_def span_end_def offset_range simp del: of_nat_add)
    next
      case (Some e)
      note eb = findDirectiveBlockEnd_bounds [OF Some]
      have ae: "?a \<le> e" using eb(1) by (simp add: p_def)
      have "take e s = take ?a s @ js_slice s ?a e"
        using ae by (simp add: js_slice_def take_add [symmetric])
      then have "newlines (take e s) = i + countNewlines s ?a e"
        by (simp add: nla countNewlines_def)
      with offset_before_next_line [OF eb(2)] have "e \<le> start_of s (i + countNewlines s ?a e + 1)"
        by simp
      with assms(1,2) p Some ae al eb(2) show ?thesis
        by (auto simp: parse_directive_def Let_def p_def node_within_def span_start_def
            span_end_def offset_range simp del: of_nat_add split: prod.splits)
    qed
  qed
qed

lemma parse_line_within:
  assumes "parse_line (scanSource s) (lines_of s) i = (ns, ds, nxt)" "n \<in> set ns"
    and i: "i < length (lines_of s)"
  shows "node_within s (start_of s i) (round_hi s nxt) n"
proof -
  let ?l = "lines_of s ! i"
  from assms(1,2) have ne: "js_trim ?l \<noteq> []" by (auto simp: parse_line_def Let_def split: if_splits)
  show ?thesis
  proof (cases "isFenceLine ?l")
    case True
    with assms ne show ?thesis by (intro fence_within) (auto simp: parse_line_def Let_def)
  next
    case nf: False
    show ?thesis
    proof (cases "heading_match ?l")
      case (Some dt)
      with assms ne nf show ?thesis
        by (cases dt) (auto simp: parse_line_def Let_def intro: heading_within)
    next
      case nh: None
      show ?thesis
      proof (cases "directive_match ?l")
        case (Some wn)
        with assms ne nf nh show ?thesis
          by (cases wn) (auto simp: parse_line_def Let_def intro: directive_within)
      next
        case None
        with assms ne nf nh show ?thesis
          by (intro paragraph_within) (auto simp: parse_line_def Let_def)
      qed
    qed
  qed
qed

lemma parse_line_single: "parse_line sc ls i = (ns, ds, nxt) \<Longrightarrow> length ns \<le> 1"
  by (auto simp: parse_line_def parse_fence_def parse_heading_def parse_directive_def
      invalid_directive_def parse_paragraph_def Let_def
      split: if_splits option.splits prod.splits)

text \<open>The nodes of the loop from a line on: within the rest of the source, in order.\<close>

definition ordered_nodes :: "ast_node list \<Rightarrow> bool" where
  "ordered_nodes ns \<longleftrightarrow> sorted_wrt (\<lambda>m n. span_end m \<le> span_start n) ns"

lemma parse_lines_within:
  "\<forall>n \<in> set (fst (parse_lines (scanSource s) (lines_of s) i)).
     node_within s (start_of s i) (length s) n"
  "ordered_nodes (fst (parse_lines (scanSource s) (lines_of s) i))"
proof (induction "length (lines_of s) - i" arbitrary: i rule: less_induct)
  case less
  let ?sc = "scanSource s" and ?ls = "lines_of s"
  note unfold_loop = parse_lines.simps [of ?sc ?ls i]
  {
    case 1
    show ?case
    proof (cases "i < length ?ls")
      case False
      then show ?thesis by (simp add: unfold_loop)
    next
      case True
      obtain ns ds nxt where pl: "parse_line ?sc ?ls i = (ns, ds, nxt)" by (cases "parse_line ?sc ?ls i") auto
      note w = parse_line_within [OF pl _ True]
      show ?thesis
      proof (cases nxt)
        case None
        with w True pl show ?thesis by (simp add: unfold_loop)
      next
        case (Some j)
        then have "i < j" using parse_line_next pl by blast
        then have "length ?ls - j < length ?ls - i" using True by simp
        note IH = less(1) [OF this]
        have "node_within s (start_of s i) (length s) n" if "n \<in> set ns" for n
          using w [OF that] Some start_of_le by (auto intro: round_within_trans)
        moreover have "node_within s (start_of s i) (length s) n"
          if "n \<in> set (fst (parse_lines ?sc ?ls j))" for n
          using IH that start_of_mono [of i j s] \<open>i < j\<close>
          by (auto intro: round_within_trans)
        ultimately show ?thesis using True pl Some
          by (auto simp: unfold_loop Let_def split: prod.splits)
      qed
    qed
  next
    case 2
    show ?case
    proof (cases "i < length ?ls")
      case False
      then show ?thesis by (simp add: unfold_loop ordered_nodes_def)
    next
      case True
      obtain ns ds nxt where pl: "parse_line ?sc ?ls i = (ns, ds, nxt)" by (cases "parse_line ?sc ?ls i") auto
      have one: "sorted_wrt P ns" for P
        using parse_line_single [OF pl] by (cases ns rule: list.exhaust; cases "tl ns") auto
      show ?thesis
      proof (cases nxt)
        case None
        with one True pl show ?thesis by (simp add: unfold_loop ordered_nodes_def)
      next
        case (Some j)
        then have "i < j" using parse_line_next pl by blast
        then have "length ?ls - j < length ?ls - i" using True by simp
        note IH = less(1,2) [OF this]
        have "span_end m \<le> span_start n"
          if "m \<in> set ns" "n \<in> set (fst (parse_lines ?sc ?ls j))" for m n
        proof -
          have "span_end m \<le> start_of s j"
            using parse_line_within [OF pl that(1) True] Some by (simp add: node_within_def)
          moreover have "start_of s j \<le> span_start n" using IH(1) that(2) by (auto simp: node_within_def)
          ultimately show ?thesis by simp
        qed
        then show ?thesis using True pl Some one IH(2)
          by (auto simp: unfold_loop Let_def ordered_nodes_def sorted_wrt_append split: prod.splits)
      qed
    qed
  }
qed

end
