(* ===== verification/DocPayloadRoundtrip.thy ===== *)
theory DocPayloadRoundtrip
  imports DocPayloadPrint
begin

text \<open>
  The round trip of the payload parser: what the printer of \<open>DocPayloadPrint\<close> writes for a
  value of the fragment is parsed back to that value, whatever follows it.  The loops for
  arrays and objects get a lemma each, with the accumulator generalised.
\<close>

abbreviation print_entry :: "string \<times> jv \<Rightarrow> string" where
  "print_entry e \<equiv> print_string (fst e) @ '':'' @ print_value (snd e)"

abbreviation print_items :: "jv list \<Rightarrow> string" where
  "print_items vs \<equiv> js_join '','' (map print_value vs)"

abbreviation print_entries :: "jobj \<Rightarrow> string" where
  "print_entries ob \<equiv> js_join '','' (map print_entry ob)"

text \<open>A printed value starts with a character that is no whitespace and closes no bracket.\<close>

definition starts_value :: "string \<Rightarrow> bool" where
  "starts_value s \<longleftrightarrow> s \<noteq> [] \<and> \<not> is_ws (hd s) \<and> hd s \<noteq> CHR '']'' \<and> hd s \<noteq> CHR ''}''"

lemma starts_print_int: "starts_value (print_int n)"
proof (cases "n < 0")
  case True
  then show ?thesis by (simp add: starts_value_def print_int_def is_ws_def)
next
  case False
  have "is_digit (hd (dec_nat (nat n)))"
    using dec_nat_digits [of "hd (dec_nat (nat n))" "nat n"] by simp
  with False show ?thesis
    by (auto simp: starts_value_def print_int_def digits_no_ws is_digit_def)
qed

lemma starts_print_value: "printable v \<Longrightarrow> starts_value (print_value v)"
proof (cases v)
  case (JNum x)
  then show "printable v \<Longrightarrow> starts_value (print_value v)"
    by (cases x) (auto simp: print_num_def starts_print_int)
qed (auto simp: starts_value_def print_string_def is_ws_def)

lemma skip_starts: "starts_value s \<Longrightarrow> skipWhitespace (s @ r) = s @ r"
  by (cases s) (auto simp: starts_value_def skipWhitespace_def)

lemma starts_join:
  "xs \<noteq> [] \<Longrightarrow> starts_value (hd xs) \<Longrightarrow> starts_value (js_join sep xs)"
  by (cases xs; cases "tl xs") (auto simp: starts_value_def)

lemma join_Cons: "xs \<noteq> [] \<Longrightarrow> js_join sep (x # xs) = x @ sep @ js_join sep xs"
  by (cases xs) auto

lemma skip_punct [simp]:
  "skipWhitespace (CHR '','' # r) = CHR '','' # r" "skipWhitespace (CHR '']'' # r) = CHR '']'' # r"
  "skipWhitespace (CHR ''}'' # r) = CHR ''}'' # r" "skipWhitespace (CHR '':'' # r) = CHR '':'' # r"
  by (simp_all add: skipWhitespace_def is_ws_def)

lemma stops_punct [simp]:
  "stops (CHR '','' # r)" "stops (CHR '']'' # r)" "stops (CHR ''}'' # r)" "stops []"
  by (simp_all add: stops_def)

text \<open>The statement of the induction: enough fuel for the text, any text after it.\<close>

definition reads_back :: "jv \<Rightarrow> bool" where
  "reads_back v \<longleftrightarrow>
     (\<forall>f r. 2 * length (print_value v) + 1 \<le> f \<longrightarrow> stops r \<longrightarrow> parse_value f (print_value v @ r) = PDone v r)"

lemma reads_backD:
  "reads_back v \<Longrightarrow> 2 * length (print_value v) + 1 \<le> f \<Longrightarrow> stops r
   \<Longrightarrow> parse_value f (print_value v @ r) = PDone v r"
  by (simp add: reads_back_def)

lemma array_loop_print:
  assumes "vs \<noteq> []" "\<And>v. v \<in> set vs \<Longrightarrow> reads_back v \<and> starts_value (print_value v)"
    and "2 * length (print_items vs) + 2 \<le> f"
  shows "array_loop f out (print_items vs @ '']'' @ r) = PDone (JArr (out @ vs)) r"
  using assms
proof (induction vs arbitrary: f out)
  case Nil
  then show ?case by simp
next
  case (Cons v vs)
  obtain f' where f: "f = Suc f'" using Cons.prems(3) by (cases f) auto
  have v: "reads_back v" "print_value v \<noteq> []"
    using Cons.prems(2) by (auto simp: starts_value_def)
  show ?case
  proof (cases "vs = []")
    case True
    then have "parse_value f' (print_value v @ '']'' @ r) = PDone v ('']'' @ r)"
      using v(1) Cons.prems(3) f by (intro reads_backD) auto
    with True v(2) f show ?thesis by (simp add: Let_def)
  next
    case False
    let ?t = "'','' @ print_items vs @ '']'' @ r"
    have j: "print_items (v # vs) = print_value v @ '','' @ print_items vs"
      using False by (simp add: join_Cons)
    have pv: "parse_value f' (print_value v @ ?t) = PDone v ?t"
      using v(1) Cons.prems(3) f unfolding j by (intro reads_backD) auto
    have "starts_value (print_items vs)"
      using False Cons.prems(2) by (intro starts_join) (auto simp: hd_map)
    then have sk: "skipWhitespace (print_items vs @ '']'' @ r) = print_items vs @ '']'' @ r"
      by (rule skip_starts)
    have "array_loop f' (out @ [v]) (print_items vs @ '']'' @ r) = PDone (JArr ((out @ [v]) @ vs)) r"
      using Cons.prems(3) f unfolding j
      by (intro Cons.IH) (auto simp: False Cons.prems(2))
    with pv sk v(2) show ?thesis unfolding j f by (simp add: Let_def)
  qed
qed

lemma object_loop_print:
  assumes "ob \<noteq> []" "\<And>e. e \<in> set ob \<Longrightarrow> reads_back (snd e) \<and> starts_value (print_value (snd e))"
    and "distinct (keys (out @ ob))"
    and "\<And>e. e \<in> set ob \<Longrightarrow> \<not> is_index_key (fst e) \<and> fst e \<noteq> ''__proto__''"
    and "2 * length (print_entries ob) + 1 \<le> f"
  shows "object_loop f out (print_entries ob @ ''}'' @ r) = PDone (JObj (out @ ob)) r"
  using assms
proof (induction ob arbitrary: f out)
  case Nil
  then show ?case by simp
next
  case (Cons e ob)
  obtain k v where e: "e = (k, v)" by (cases e)
  obtain f' where f: "f = Suc f'" using Cons.prems(5) by (cases f) auto
  have v: "reads_back v" "starts_value (print_value v)" using Cons.prems(2) [of e] by (auto simp: e)
  have asg: "obj_assign k v out = out @ [(k, v)]"
    using Cons.prems(3) Cons.prems(4) [of e] by (auto simp: obj_assign_def obj_set_fresh e)
  have ne: "print_string k \<noteq> []" by (simp add: print_string_def)
  have round: "object_loop f out (print_string k @ '':'' @ print_value v @ t) =
      (if after_value t \<noteq> [] \<and> hd (after_value t) = CHR ''}''
       then PDone (JObj (out @ [(k, v)])) (tl (after_value t))
       else object_loop f' (out @ [(k, v)]) (after_value t))"
    if "stops t" "2 * length (print_value v) + 1 \<le> f'" for t
  proof -
    have "parse_value f' (print_value v @ t) = PDone v t"
      using v(1) that by (intro reads_backD) auto
    moreover have "skipWhitespace (print_value v @ t) = print_value v @ t"
      by (rule skip_starts) (rule v(2))
    ultimately show ?thesis
      using ne parseKey_print [of k "'':'' @ print_value v @ t"]
      by (simp add: f expect_def Let_def asg)
  qed
  show ?case
  proof (cases "ob = []")
    case True
    have "after_value (''}'' @ r) = ''}'' @ r" by (simp add: after_value_def Let_def)
    with round [of "''}'' @ r"] True Cons.prems(5) show ?thesis by (simp add: e f)
  next
    case False
    have j: "print_entries (e # ob) = print_string k @ '':'' @ print_value v @ '','' @ print_entries ob"
      using False by (simp add: join_Cons e)
    have "starts_value (print_entries ob)"
      using False by (intro starts_join) (auto simp: hd_map starts_value_def print_string_def is_ws_def)
    then have sk: "skipWhitespace (print_entries ob @ ''}'' @ r) = print_entries ob @ ''}'' @ r"
      and hd: "hd (print_entries ob @ ''}'' @ r) \<noteq> CHR ''}''"
      by (auto simp: skip_starts starts_value_def)
    have av: "after_value ('','' @ print_entries ob @ ''}'' @ r) = print_entries ob @ ''}'' @ r"
      using sk by (simp add: after_value_def Let_def)
    have "object_loop f' (out @ [(k, v)]) (print_entries ob @ ''}'' @ r)
        = PDone (JObj ((out @ [(k, v)]) @ ob)) r"
      using Cons.prems(3,5) f unfolding j
      by (intro Cons.IH) (auto simp: False Cons.prems(2,4) e)
    with round [of "'','' @ print_entries ob @ ''}'' @ r"] av hd Cons.prems(5) show ?thesis
      unfolding j by (simp add: e f)
  qed
qed

lemma printable_reads_back: "printable v \<Longrightarrow> reads_back v"
proof (induction v)
  case (JNum x)
  then obtain q where "x = Fin q" "q = of_int \<lfloor>q\<rfloor>" "\<bar>\<lfloor>q\<rfloor>\<bar> \<le> 2 ^ 53" by (cases x) auto
  then obtain n where x: "x = Fin (of_int n)" "\<bar>n\<bar> \<le> 2 ^ 53" by metis
  have "parse_value f (print_int n @ r) = PDone (JNum (Fin (of_int n))) r" if "1 \<le> f" "stops r" for f r
    using that parse_value_print_int [OF that(2) x(2), of "f - 1"] by simp
  then show ?case by (auto simp: reads_back_def x print_num_def)
next
  case (JArr vs)
  show ?case unfolding reads_back_def
  proof (intro allI impI)
    fix f r assume f: "2 * length (print_value (JArr vs)) + 1 \<le> f" and "stops r"
    obtain f' where f': "f = Suc f'" using f by (cases f) auto
    show "parse_value f (print_value (JArr vs) @ r) = PDone (JArr vs) r"
    proof (cases "vs = []")
      case True
      then show ?thesis by (simp add: f' Let_def)
    next
      case False
      have items: "\<And>v. v \<in> set vs \<Longrightarrow> reads_back v \<and> starts_value (print_value v)"
        using JArr by (auto simp: list_all_iff starts_print_value)
      then have st: "starts_value (print_items vs)"
        using False by (intro starts_join) (auto simp: hd_map)
      have "array_loop f' [] (print_items vs @ '']'' @ r) = PDone (JArr ([] @ vs)) r"
        using False items f f' by (intro array_loop_print) auto
      with skip_starts [OF st, of "'']'' @ r"] st show ?thesis
        by (auto simp: f' Let_def starts_value_def)
    qed
  qed
next
  case (JObj ob)
  show ?case unfolding reads_back_def
  proof (intro allI impI)
    fix f r assume f: "2 * length (print_value (JObj ob)) + 1 \<le> f" and "stops r"
    obtain f' where f': "f = Suc f'" using f by (cases f) auto
    show "parse_value f (print_value (JObj ob) @ r) = PDone (JObj ob) r"
    proof (cases "ob = []")
      case True
      then show ?thesis by (simp add: f' Let_def)
    next
      case False
      have entries: "\<And>e. e \<in> set ob \<Longrightarrow> reads_back (snd e) \<and> starts_value (print_value (snd e))"
        using JObj by (fastforce simp: list_all_iff starts_print_value)
      have st: "starts_value (print_entries ob)"
        using False by (intro starts_join) (auto simp: hd_map starts_value_def print_string_def is_ws_def)
      have "object_loop f' [] (print_entries ob @ ''}'' @ r) = PDone (JObj ([] @ ob)) r"
        using False entries JObj.prems f f' by (intro object_loop_print) (auto simp: list_all_iff)
      with skip_starts [OF st, of "''}'' @ r"] st show ?thesis
        by (auto simp: f' Let_def starts_value_def)
    qed
  qed
next
  case (JStr s)
  have "parse_value f (print_string s @ r) = PDone (JStr s) r" if "1 \<le> f" for f r
    using that parseString_print [of s r]
    by (cases f) (auto simp: print_string_def)
  then show ?case by (auto simp: reads_back_def)
next
  case JNull
  have "parse_value f (''null'' @ r) = PDone JNull r" if "1 \<le> f" "stops r" for f r
    using parse_value_literal [OF that(2), of "''null''" "f - 1"] that(1) by simp
  then show ?case by (simp add: reads_back_def)
next
  case (JBool b)
  have "parse_value f ((if b then ''true'' else ''false'') @ r) = PDone (JBool b) r"
    if "1 \<le> f" "stops r" for f r
    using parse_value_literal [OF that(2), of "if b then ''true'' else ''false''" "f - 1"] that(1)
    by (cases b) simp_all
  then show ?case by (simp add: reads_back_def)
qed simp

end
