(* ===== verification/DocDirectives.thy ===== *)
theory DocDirectives
  imports DocParserSpans DocPayloadRoundtrip
begin

text \<open>
  The document round trip: a document printed as one directive per line, each with a printed
  object payload, parses back to exactly those directives, with no diagnostic.  It joins the
  brace matcher of the document parser, the line loop and the payload parser.
\<close>

section \<open>The brace matcher over printed values\<close>

lemma block_end_string:
  "block_end d (Some dquote) False i (concat (map escape_char s) @ dquote # r)
   = block_end d None False (i + length (concat (map escape_char s)) + 1) r"
  by (induction s arbitrary: i) (auto simp: escape_char_def)

lemma block_end_print_string:
  "block_end d None False i (print_string s @ r) = block_end d None False (i + length (print_string s)) r"
  using block_end_string [of d "i + 1" s r] by (simp add: print_string_def)

definition plain_char :: "char \<Rightarrow> bool" where
  "plain_char c \<longleftrightarrow> c \<noteq> dquote \<and> c \<noteq> squote \<and> c \<noteq> CHR ''{'' \<and> c \<noteq> CHR ''}''"

lemma block_end_plain:
  "list_all plain_char s \<Longrightarrow> block_end d None False i (s @ r) = block_end d None False (i + length s) r"
  by (induction s arbitrary: i) (auto simp: plain_char_def)

lemma plain_print_int: "list_all plain_char (print_int n)"
proof -
  have "list_all plain_char (dec_nat m)" for m
    using dec_nat_digits [of _ m] by (fastforce simp: list_all_iff plain_char_def is_digit_def)
  then show ?thesis by (simp add: print_int_def plain_char_def [of "CHR ''-''"])
qed

text \<open>A text the matcher passes over inside a block, at any depth.\<close>

definition passes :: "string \<Rightarrow> bool" where
  "passes s \<longleftrightarrow>
     (\<forall>d i r. 0 < d \<longrightarrow> block_end d None False i (s @ r) = block_end d None False (i + length s) r)"

lemma passesI:
  "(\<And>d i r. 0 < d \<Longrightarrow> block_end d None False i (s @ r) = block_end d None False (i + length s) r)
   \<Longrightarrow> passes s"
  by (simp add: passes_def)

lemma passes_append: "passes a \<Longrightarrow> passes b \<Longrightarrow> passes (a @ b)"
  by (simp add: passes_def add.assoc)

lemma passes_Nil: "passes []"
  by (simp add: passes_def)

lemma passes_Cons: "plain_char c \<Longrightarrow> passes s \<Longrightarrow> passes (c # s)"
  by (auto simp: passes_def plain_char_def)

lemma plain_punctuation:
  "plain_char (CHR '','')" "plain_char (CHR '':'')" "plain_char (CHR ''['')" "plain_char (CHR '']'')"
  by (simp_all add: plain_char_def)

lemmas passes_intros = passes_Cons passes_append passes_Nil plain_punctuation

lemma passes_plain: "list_all plain_char s \<Longrightarrow> passes s"
  by (simp add: passes_def block_end_plain)

lemma passes_print_string: "passes (print_string s)"
  by (simp add: passes_def block_end_print_string)

lemma passes_join: "(\<And>x. x \<in> set xs \<Longrightarrow> passes x) \<Longrightarrow> passes (js_join '','' xs)"
  by (induction "'',''" xs rule: js_join.induct) (auto intro!: passes_intros)

lemma passes_entry: "passes (print_value (snd e)) \<Longrightarrow> passes (print_entry e)"
  by (auto intro!: passes_intros passes_print_string)

lemma passes_print_value: "printable v \<Longrightarrow> passes (print_value v)"
proof (induction v)
  case (JNum x)
  then show ?case by (cases x) (auto simp: print_num_def intro: passes_plain plain_print_int)
next
  case (JStr s)
  then show ?case by (simp add: passes_print_string)
next
  case (JArr vs)
  then have "passes (js_join '','' (map print_value vs))"
    by (intro passes_join) (auto simp: list_all_iff)
  then show ?case by (auto intro!: passes_intros)
next
  case (JObj ob)
  have "passes (js_join '','' (map print_entry ob))"
  proof (rule passes_join)
    fix x assume "x \<in> set (map print_entry ob)"
    then obtain e k w where e: "e \<in> set ob" "x = print_entry e" "e = (k, w)" by auto
    have "printable (snd e)" using JObj.prems e(1) by (auto simp: list_all_iff)
    then have "passes (print_value (snd e))" by (intro JObj.IH [of e "snd e"]) (use e in auto)
    then show "passes x" unfolding e(2) by (rule passes_entry)
  qed
  then show ?case by (auto simp: passes_def add.assoc)
qed (auto intro!: passes_plain simp: plain_char_def)

lemma findDirectiveBlockEnd_print:
  assumes "printable (JObj ob)" "drop p src = print_value (JObj ob) @ r"
  shows "findDirectiveBlockEnd src p = Some (p + length (print_value (JObj ob)))"
proof -
  have "passes (js_join '','' (map print_entry ob))"
  proof (rule passes_join)
    fix x assume "x \<in> set (map print_entry ob)"
    then obtain e where e: "e \<in> set ob" "x = print_entry e" by auto
    then have "passes (print_value (snd e))"
      using assms(1) by (auto simp: list_all_iff intro: passes_print_value)
    then show "passes x" unfolding e(2) by (rule passes_entry)
  qed
  then show ?thesis using assms(2) by (simp add: findDirectiveBlockEnd_def passes_def)
qed

section \<open>Printed documents\<close>

type_synonym directive = "string \<times> jobj"

definition directive_ok :: "directive \<Rightarrow> bool" where
  "directive_ok d \<longleftrightarrow>
     fst d \<noteq> [] \<and> is_alpha (hd (fst d)) \<and> list_all is_name_part (fst d) \<and> printable (JObj (snd d))"

definition print_directive :: "directive \<Rightarrow> string" where
  "print_directive d = CHR ''@'' # fst d @ '' '' @ print_value (JObj (snd d))"

definition print_document :: "directive list \<Rightarrow> string" where
  "print_document ds = js_join [newline] (map print_directive ds)"

lemma no_newline_string: "newline \<notin> set (print_string s)"
  by (auto simp: print_string_def escape_char_def)

lemma no_newline_join:
  "\<forall>x \<in> set xs. newline \<notin> set x \<Longrightarrow> newline \<notin> set (js_join '','' xs)"
  by (induction "'',''" xs rule: js_join.induct) auto

lemma no_newline_dec: "newline \<notin> set (dec_nat n)"
  using dec_nat_digits [of newline n] by (auto simp: is_digit_def)

lemma no_newline_value: "newline \<notin> set (print_value v)"
proof (induction v)
  case (JNum x)
  then show ?case by (cases x) (auto simp: print_num_def print_int_def no_newline_dec)
next
  case (JArr vs)
  then have "newline \<notin> set (js_join '','' (map print_value vs))"
    by (intro no_newline_join) auto
  then show ?case by simp
next
  case (JObj ob)
  have "newline \<notin> set (js_join '','' (map print_entry ob))"
    using JObj by (intro no_newline_join) (auto simp: no_newline_string)
  then show ?case by simp
qed (auto simp: no_newline_string)

lemma no_newline_directive: "directive_ok d \<Longrightarrow> newline \<notin> set (print_directive d)"
  using no_newline_value [of "JObj (snd d)"]
  by (auto simp: directive_ok_def print_directive_def list_all_iff char_class_defs)

lemma lines_of_document:
  assumes "ds \<noteq> []" "\<forall>d \<in> set ds. directive_ok d"
  shows "lines_of (print_document ds) = map print_directive ds"
  unfolding print_document_def using assms
  by (intro js_split_join) (auto simp: no_newline_directive)

lemma payload_parse_print:
  assumes "printable v"
  shows "payload_parse (print_value v) = PDone v []"
proof -
  have "skipWhitespace (print_value v) = print_value v"
    using skip_starts [OF starts_print_value [OF assms], of "[]"] by simp
  moreover have "parse_value (2 * length (print_value v) + 1) (print_value v @ []) = PDone v []"
    using printable_reads_back [OF assms] by (intro reads_backD) auto
  ultimately show ?thesis by (simp add: payload_parse_def skipWhitespace_def del: parse_value.simps)
qed

text \<open>What a node says, with the positions left out.\<close>

definition directive_view :: "ast_node \<Rightarrow> directive option" where
  "directive_view n =
     (case n of DirectiveNode nm (JObj ob) _ _ [] \<Rightarrow> Some (nm, ob) | _ \<Rightarrow> None)"

lemma drop_Cons_nth: "drop n xs = x # ys \<Longrightarrow> n < length xs \<and> xs ! n = x"
  by (metis drop_eq_Nil hd_drop_conv_nth list.distinct(1) list.sel(1) not_le)

lemma parse_line_print:
  assumes ds: "ds \<noteq> []" "\<forall>d \<in> set ds. directive_ok d" and i: "i < length ds"
  defines "s \<equiv> print_document ds"
  shows "\<exists>n. parse_line (scanSource s) (lines_of s) i = ([n], [], Some (i + 1))
     \<and> directive_view n = Some (ds ! i)"
proof -
  obtain nm ob where d: "ds ! i = (nm, ob)" by (cases "ds ! i")
  have ok: "directive_ok (nm, ob)" using ds i d by (metis nth_mem)
  have ls: "lines_of s = map print_directive ds" unfolding s_def by (rule lines_of_document) (use ds in auto)
  let ?l = "print_directive (nm, ob)" and ?v = "print_value (JObj ob)"
  have li: "lines_of s ! i = ?l" using i d by (simp add: ls)
  have i': "i < length (lines_of s)" using i by (simp add: ls)
  then obtain r where r: "drop (start_of s i) s = ?l @ r" using li by (metis line_at)
  define a where "a = start_of s i"
  have al: "a + length ?l \<le> length s" using start_plus_line [OF i'] by (simp add: a_def li)
  obtain c nm' where nm: "nm = c # nm'" "is_alpha c" using ok by (cases nm) (auto simp: directive_ok_def)
  have at: "\<not> is_ws (CHR ''@'')" by (simp add: is_ws_def)
  have tw: "takeWhile is_name_part (nm @ '' '' @ ?v) = nm"
    using ok by (intro takeWhile_stop) (auto simp: directive_ok_def char_class_defs)
  have dm: "directive_match ?l = Some ([], nm)"
    using tw nm at by (simp add: directive_match_def isDirectiveLine_def print_directive_def)
  have p: "drop (a + 1 + length nm) s = '' '' @ ?v @ r"
  proof -
    have "drop (a + 1 + length nm) s = drop (1 + length nm) (?l @ r)"
      by (simp add: r [symmetric] a_def add.commute)
    then show ?thesis by (simp add: print_directive_def)
  qed
  have ws: "takeWhile is_ws ('' '' @ ?v @ r) = '' ''" by (simp add: is_ws_def)
  define q where "q = a + 1 + length nm + 1"
  have dq: "drop q s = ?v @ r"
  proof -
    have "drop q s = drop 1 (drop (a + 1 + length nm) s)" unfolding q_def drop_drop by simp
    then show ?thesis unfolding p by simp
  qed
  moreover obtain t where "?v = CHR ''{'' # t" by simp
  ultimately have q: "q < length s" "s ! q = CHR ''{''"
    using drop_Cons_nth [of q s "CHR ''{''"] by (metis append_Cons)+
  have pr: "printable (JObj ob)" using ok by (simp add: directive_ok_def)
  have e: "findDirectiveBlockEnd s q = Some (q + length ?v)"
    using pr dq by (rule findDirectiveBlockEnd_print)
  have sl: "js_slice s q (q + length ?v) = ?v" using dq by (simp add: js_slice_def)
  have qe: "q + length ?v = a + length ?l" by (simp add: q_def print_directive_def)
  have "js_slice s a (a + length ?l) = ?l" using line_slice [OF i'] by (simp add: a_def li)
  then have cn: "countNewlines s a (q + length ?v) = 0"
    using no_newline_directive [OF ok] unfolding countNewlines_def newlines_def qe
    by (simp only: count_list_0_iff not_False_eq_True)
  have "parse_line (scanSource s) (lines_of s) i = parse_directive (scanSource s) ?l i [] nm"
  proof -
    have "js_trim ?l \<noteq> []" by (auto simp: js_trim_eq_Nil print_directive_def at)
    moreover have "\<not> isFenceLine ?l"
      by (simp add: isFenceLine_def print_directive_def at js_starts_with_def)
    moreover have "heading_match ?l = None"
      by (simp add: heading_match_def isHeadingLine_def print_directive_def Let_def)
    ultimately show ?thesis using dm by (simp add: parse_line_def li)
  qed
  also have "\<dots> = ([DirectiveNode nm (JObj ob) (js_slice s a (q + length ?v))
      (rangeFromOffsets (scanSource s) (int a) (int (q + length ?v))) []], [], Some (i + 1))"
  proof -
    have src: "source (scanSource s) = s" by (simp add: scanSource_def)
    have st: "line_start (scanSource s) i + length ([] :: string) = a"
      by (simp add: a_def line_start_def scanSource_def)
    have hq: "a + 1 + length nm + length (takeWhile is_ws (drop (a + 1 + length nm) s)) = q"
      unfolding p ws q_def by simp
    have pa: "parseAionisPayload ?v lc = (JObj ob, [])" for lc
      unfolding parseAionisPayload_def payload_parse_print [OF pr] by simp
    show ?thesis
      unfolding parse_directive_def Let_def src st hq
      using q e cn sl pa by simp
  qed
  finally show ?thesis by (simp add: directive_view_def d)
qed

lemma parse_lines_print:
  assumes ds: "ds \<noteq> []" "\<forall>d \<in> set ds. directive_ok d" and "i \<le> length ds"
  defines "s \<equiv> print_document ds"
  shows "\<exists>ns. parse_lines (scanSource s) (lines_of s) i = (ns, [])
     \<and> map directive_view ns = map Some (drop i ds)"
  using \<open>i \<le> length ds\<close>
proof (induction "length ds - i" arbitrary: i)
  case 0
  have "length (lines_of s) = length ds" unfolding s_def using lines_of_document [OF ds] by simp
  with 0 show ?case by (subst parse_lines.simps) simp
next
  case (Suc k)
  then have i: "i < length ds" by simp
  have len: "length (lines_of s) = length ds" unfolding s_def using lines_of_document [OF ds] by simp
  obtain n where n: "parse_line (scanSource s) (lines_of s) i = ([n], [], Some (i + 1))"
      "directive_view n = Some (ds ! i)"
    using parse_line_print [OF ds i] unfolding s_def by blast
  from Suc i have "k = length ds - (i + 1)" "i + 1 \<le> length ds" by simp_all
  from Suc.hyps(1) [OF this] obtain ns where ns:
      "parse_lines (scanSource s) (lines_of s) (i + 1) = (ns, [])"
      "map directive_view ns = map Some (drop (i + 1) ds)"
    by blast
  have "parse_lines (scanSource s) (lines_of s) i = (n # ns, [])"
    using i n ns by (subst parse_lines.simps) (simp add: len)
  moreover have "map directive_view (n # ns) = map Some (drop i ds)"
    using n ns i by (simp add: Cons_nth_drop_Suc [symmetric])
  ultimately show ?case by blast
qed

lemma parseAst_print:
  assumes "ds \<noteq> []" "\<forall>d \<in> set ds. directive_ok d"
  shows "doc_diagnostics (parseAst (scanSource (print_document ds))) = []"
    "map directive_view (children (parseAst (scanSource (print_document ds)))) = map Some ds"
  using parse_lines_print [OF assms, of 0] by (auto simp: parseAst_def scanSource_def)

end
