(* ===== verification/DocIr.thy ===== *)
theory DocIr
  imports DocParser
begin

text \<open>
  The intermediate representation: packages/aionis-doc/src/ir/types.ts and the normalisers of
  compile.ts.  \<open>normalizeAstToIr\<close> folds the directives of a document into one record.  The
  lemmas describe its result field by field: every list of the IR is the list of the
  directives of its name, in document order, and the document metadata is the first
  \<^verbatim>\<open>@doc\<close>.
\<close>

section \<open>Types\<close>

record doc_meta_ir =
  dm_id :: string
  dm_version :: string
  dm_kind :: "string option"
  dm_title :: "string option"
  dm_status :: "string option"
  dm_tags :: "string list option"
  dm_data :: jobj
  dm_loc :: "source_range option"

record context_ir =
  cx_objective :: "string option"
  cx_audience :: "string list option"
  cx_constraints :: "string list option"
  cx_data :: jobj
  cx_loc :: "source_range option"

record plan_ir =
  pl_steps :: "string list option"
  pl_success_criteria :: "string list option"
  pl_checkpoints :: "string list option"
  pl_fallbacks :: "string list option"
  pl_data :: jobj
  pl_loc :: "source_range option"

record execute_ir =
  ex_module :: "string option"
  ex_tool :: "string option"
  ex_agent :: "string option"
  ex_input :: "jobj option"
  ex_input_ref :: "string option"
  ex_output_ref :: "string option"
  ex_deterministic :: "bool option"
  ex_depends_on :: "string list option"
  ex_data :: jobj
  ex_loc :: "source_range option"

record decision_ir =
  de_decision :: "string option"
  de_rationale :: "string option"
  de_confidence :: "jsnum option"
  de_data :: jobj
  de_loc :: "source_range option"

record evidence_ir =
  ev_sources :: "jv list option"
  ev_confidence :: "jsnum option"
  ev_claims_supported :: "string list option"
  ev_data :: jobj
  ev_loc :: "source_range option"

record replay_ir =
  re_executable :: "bool option"
  re_mode :: "string option"
  re_workflow_id :: "string option"
  re_expected_outputs :: "string list option"
  re_data :: jobj
  re_loc :: "source_range option"

record memory_ir =
  me_topics :: "string list option"
  me_entities :: "string list option"
  me_writeback :: "bool option"
  me_summary_layer :: "string option"
  me_data :: jobj
  me_loc :: "source_range option"

record state_ir =
  st_phase :: "string option"
  st_run_id :: "string option"
  st_owner :: "string option"
  st_data :: jobj
  st_loc :: "source_range option"

record aionis_doc_ir =
  ir_doc :: "doc_meta_ir option"
  ir_context :: "context_ir list"
  ir_plans :: "plan_ir list"
  ir_executions :: "execute_ir list"
  ir_decisions :: "decision_ir list"
  ir_evidence :: "evidence_ir list"
  ir_replay :: "replay_ir list"
  ir_memory :: "memory_ir list"
  ir_state :: "state_ir list"
  ir_diagnostics :: "diagnostic list"

section \<open>Reading a payload\<close>

text \<open>A payload holds JSON values only; an inherited member is none of these.\<close>

definition as_object :: "jv option \<Rightarrow> jobj option" where
  "as_object v = (case v of Some (JObj ob) \<Rightarrow> Some ob | _ \<Rightarrow> None)"

definition asString :: "jv option \<Rightarrow> string option" where
  "asString v = (case v of Some (JStr s) \<Rightarrow> Some s | _ \<Rightarrow> None)"

definition asBoolean :: "jv option \<Rightarrow> bool option" where
  "asBoolean v = (case v of Some (JBool b) \<Rightarrow> Some b | _ \<Rightarrow> None)"

definition asNumber :: "jv option \<Rightarrow> jsnum option" where
  "asNumber v = (case v of Some (JNum x) \<Rightarrow> Some x | _ \<Rightarrow> None)"

definition asArray :: "jv option \<Rightarrow> jv list option" where
  "asArray v = (case v of Some (JArr xs) \<Rightarrow> Some xs | _ \<Rightarrow> None)"

fun strings_of :: "jv list \<Rightarrow> string list" where
  "strings_of [] = []"
| "strings_of (JStr s # vs) = s # strings_of vs"
| "strings_of (_ # vs) = strings_of vs"

definition asStringArray :: "jv option \<Rightarrow> string list option" where
  "asStringArray v =
     (case v of
        Some (JArr vs) \<Rightarrow>
          (let ss = strings_of vs in if length ss = length vs then Some ss else None)
      | _ \<Rightarrow> None)"

lemma length_strings_of: "length (strings_of vs) \<le> length vs"
  by (induction vs rule: strings_of.induct) auto

lemma strings_of_map [simp]: "strings_of (map JStr ss) = ss"
  by (induction ss) auto

lemma strings_of_full: "length (strings_of vs) = length vs \<Longrightarrow> vs = map JStr (strings_of vs)"
proof (induction vs)
  case (Cons v vs)
  then show ?case using length_strings_of [of vs] by (cases v) auto
qed simp

lemma asStringArray_Some: "asStringArray v = Some ss \<longleftrightarrow> v = Some (JArr (map JStr ss))"
proof
  assume a: "asStringArray v = Some ss"
  then obtain vs where vs: "v = Some (JArr vs)" by (auto simp: asStringArray_def split: option.splits jv.splits)
  with a have "length (strings_of vs) = length vs" "ss = strings_of vs"
    by (auto simp: asStringArray_def Let_def split: if_splits)
  with vs strings_of_full show "v = Some (JArr (map JStr ss))" by blast
qed (simp add: asStringArray_def)

definition zero_loc :: source_range where
  "zero_loc =
     \<lparr>range_start = \<lparr>line = 1, column = 1, offset = 0\<rparr>,
      range_end = \<lparr>line = 1, column = 1, offset = 0\<rparr>\<rparr>"

text \<open>\<open>or_else a b\<close> is \<^verbatim>\<open>a ?? b\<close>.\<close>

definition or_else :: "'a option \<Rightarrow> 'a \<Rightarrow> 'a" where
  "or_else m d = (case m of Some x \<Rightarrow> x | None \<Rightarrow> d)"

definition makeDiagnostic :: "source_range option \<Rightarrow> string \<Rightarrow> string \<Rightarrow> diagnostic" where
  "makeDiagnostic lc c msg =
     \<lparr>severity = SevError, diag_code = c, message = msg, diag_loc = or_else lc zero_loc, hint = None\<rparr>"

section \<open>The normalisers\<close>

definition normalizeDoc :: "jobj \<Rightarrow> source_range option \<Rightarrow> doc_meta_ir" where
  "normalizeDoc p lc =
     \<lparr>dm_id = or_else (asString (obj_get p ''id'')) [],
      dm_version = or_else (asString (obj_get p ''version'')) [],
      dm_kind = asString (obj_get p ''kind''),
      dm_title = asString (obj_get p ''title''),
      dm_status = asString (obj_get p ''status''),
      dm_tags = asStringArray (obj_get p ''tags''),
      dm_data = p, dm_loc = lc\<rparr>"

definition normalizeContext :: "jobj \<Rightarrow> source_range option \<Rightarrow> context_ir" where
  "normalizeContext p lc =
     \<lparr>cx_objective = asString (obj_get p ''objective''),
      cx_audience = asStringArray (obj_get p ''audience''),
      cx_constraints = asStringArray (obj_get p ''constraints''),
      cx_data = p, cx_loc = lc\<rparr>"

definition normalizePlan :: "jobj \<Rightarrow> source_range option \<Rightarrow> plan_ir" where
  "normalizePlan p lc =
     \<lparr>pl_steps = asStringArray (obj_get p ''steps''),
      pl_success_criteria = asStringArray (obj_get p ''success_criteria''),
      pl_checkpoints = asStringArray (obj_get p ''checkpoints''),
      pl_fallbacks = asStringArray (obj_get p ''fallbacks''),
      pl_data = p, pl_loc = lc\<rparr>"

definition normalizeExecute :: "jobj \<Rightarrow> source_range option \<Rightarrow> execute_ir" where
  "normalizeExecute p lc =
     \<lparr>ex_module = asString (obj_get p ''module''),
      ex_tool = asString (obj_get p ''tool''),
      ex_agent = asString (obj_get p ''agent''),
      ex_input = as_object (obj_get p ''input''),
      ex_input_ref = asString (obj_get p ''input_ref''),
      ex_output_ref = asString (obj_get p ''output_ref''),
      ex_deterministic = asBoolean (obj_get p ''deterministic''),
      ex_depends_on = asStringArray (obj_get p ''depends_on''),
      ex_data = p, ex_loc = lc\<rparr>"

definition normalizeDecision :: "jobj \<Rightarrow> source_range option \<Rightarrow> decision_ir" where
  "normalizeDecision p lc =
     \<lparr>de_decision = asString (obj_get p ''decision''),
      de_rationale = asString (obj_get p ''rationale''),
      de_confidence = asNumber (obj_get p ''confidence''),
      de_data = p, de_loc = lc\<rparr>"

definition normalizeEvidence :: "jobj \<Rightarrow> source_range option \<Rightarrow> evidence_ir" where
  "normalizeEvidence p lc =
     \<lparr>ev_sources = asArray (obj_get p ''sources''),
      ev_confidence = asNumber (obj_get p ''confidence''),
      ev_claims_supported = asStringArray (obj_get p ''claims_supported''),
      ev_data = p, ev_loc = lc\<rparr>"

definition replay_modes :: "string list" where
  "replay_modes = [''deterministic'', ''assisted'', ''advisory'']"

definition normalizeReplay :: "jobj \<Rightarrow> source_range option \<Rightarrow> replay_ir" where
  "normalizeReplay p lc =
     (let rawMode = asString (obj_get p ''mode'')
      in \<lparr>re_executable = asBoolean (obj_get p ''executable''),
          re_mode =
            (case rawMode of
               Some m \<Rightarrow> if m \<in> set replay_modes then Some m else None | None \<Rightarrow> None),
          re_workflow_id = asString (obj_get p ''workflow_id''),
          re_expected_outputs = asStringArray (obj_get p ''expected_outputs''),
          re_data = p, re_loc = lc\<rparr>)"

definition normalizeMemory :: "jobj \<Rightarrow> source_range option \<Rightarrow> memory_ir" where
  "normalizeMemory p lc =
     \<lparr>me_topics = asStringArray (obj_get p ''topics''),
      me_entities = asStringArray (obj_get p ''entities''),
      me_writeback = asBoolean (obj_get p ''writeback''),
      me_summary_layer = asString (obj_get p ''summary_layer''),
      me_data = p, me_loc = lc\<rparr>"

definition normalizeState :: "jobj \<Rightarrow> source_range option \<Rightarrow> state_ir" where
  "normalizeState p lc =
     \<lparr>st_phase = asString (obj_get p ''phase''),
      st_run_id = asString (obj_get p ''run_id''),
      st_owner = asString (obj_get p ''owner''),
      st_data = p, st_loc = lc\<rparr>"

section \<open>The fold over the document\<close>

definition empty_ir :: aionis_doc_ir where
  "empty_ir =
     \<lparr>ir_doc = None, ir_context = [], ir_plans = [], ir_executions = [], ir_decisions = [],
      ir_evidence = [], ir_replay = [], ir_memory = [], ir_state = [], ir_diagnostics = []\<rparr>"

text \<open>The \<open>switch\<close> on the directive's name, for an object payload.\<close>

definition add_directive ::
  "string \<Rightarrow> jobj \<Rightarrow> source_range option \<Rightarrow> aionis_doc_ir \<Rightarrow> aionis_doc_ir" where
  "add_directive nm p lc ir =
     (if nm = ''doc'' then
        (case ir_doc ir of
           Some _ \<Rightarrow> ir\<lparr>ir_diagnostics := ir_diagnostics ir @
             [makeDiagnostic lc ''DUPLICATE_DOC'' ''Only one @doc directive is allowed.'']\<rparr>
         | None \<Rightarrow> ir\<lparr>ir_doc := Some (normalizeDoc p lc)\<rparr>)
      else if nm = ''context'' then ir\<lparr>ir_context := ir_context ir @ [normalizeContext p lc]\<rparr>
      else if nm = ''plan'' then ir\<lparr>ir_plans := ir_plans ir @ [normalizePlan p lc]\<rparr>
      else if nm = ''execute'' then ir\<lparr>ir_executions := ir_executions ir @ [normalizeExecute p lc]\<rparr>
      else if nm = ''decision'' then ir\<lparr>ir_decisions := ir_decisions ir @ [normalizeDecision p lc]\<rparr>
      else if nm = ''evidence'' then ir\<lparr>ir_evidence := ir_evidence ir @ [normalizeEvidence p lc]\<rparr>
      else if nm = ''replay'' then ir\<lparr>ir_replay := ir_replay ir @ [normalizeReplay p lc]\<rparr>
      else if nm = ''memory'' then ir\<lparr>ir_memory := ir_memory ir @ [normalizeMemory p lc]\<rparr>
      else if nm = ''state'' then ir\<lparr>ir_state := ir_state ir @ [normalizeState p lc]\<rparr>
      else ir)"

definition add_child :: "aionis_doc_ir \<Rightarrow> ast_node \<Rightarrow> aionis_doc_ir" where
  "add_child ir child =
     (case child of
        DirectiveNode nm (JObj p) _ lc _ \<Rightarrow> add_directive nm p (Some lc) ir
      | DirectiveNode nm JNull _ lc _ \<Rightarrow> ir
      | DirectiveNode nm _ _ lc _ \<Rightarrow>
          ir\<lparr>ir_diagnostics := ir_diagnostics ir @
            [makeDiagnostic (Some lc) ''INVALID_SCHEMA'' (''@'' @ nm @ '' expects an object payload.'')]\<rparr>
      | _ \<Rightarrow> ir)"

definition normalizeAstToIr :: "document_node \<Rightarrow> aionis_doc_ir" where
  "normalizeAstToIr ast = foldl add_child empty_ir (children ast)"

section \<open>What the fold collects\<close>

text \<open>The payloads and places of the directives of one name.\<close>

fun directives :: "string \<Rightarrow> ast_node list \<Rightarrow> (jobj \<times> source_range option) list" where
  "directives nm [] = []"
| "directives nm (DirectiveNode nm' (JObj p) rw lc ds # ns) =
     (if nm' = nm then (p, Some lc) # directives nm ns else directives nm ns)"
| "directives nm (_ # ns) = directives nm ns"

lemma directives_append: "directives nm (xs @ ys) = directives nm xs @ directives nm ys"
  by (induction nm xs rule: directives.induct) auto

definition ir_spec :: "ast_node list \<Rightarrow> aionis_doc_ir \<Rightarrow> bool" where
  "ir_spec ns ir \<longleftrightarrow>
     ir_doc ir = (case directives ''doc'' ns of [] \<Rightarrow> None | d # _ \<Rightarrow> Some (case_prod normalizeDoc d))
     \<and> ir_context ir = map (case_prod normalizeContext) (directives ''context'' ns)
     \<and> ir_plans ir = map (case_prod normalizePlan) (directives ''plan'' ns)
     \<and> ir_executions ir = map (case_prod normalizeExecute) (directives ''execute'' ns)
     \<and> ir_decisions ir = map (case_prod normalizeDecision) (directives ''decision'' ns)
     \<and> ir_evidence ir = map (case_prod normalizeEvidence) (directives ''evidence'' ns)
     \<and> ir_replay ir = map (case_prod normalizeReplay) (directives ''replay'' ns)
     \<and> ir_memory ir = map (case_prod normalizeMemory) (directives ''memory'' ns)
     \<and> ir_state ir = map (case_prod normalizeState) (directives ''state'' ns)
     \<and> length (filter (\<lambda>d. diag_code d = ''DUPLICATE_DOC'') (ir_diagnostics ir))
         = length (directives ''doc'' ns) - 1"

lemma add_directive_spec:
  "ir_spec ns ir \<Longrightarrow> ir_spec (ns @ [DirectiveNode nm (JObj p) rw lc ds]) (add_directive nm p (Some lc) ir)"
  by (auto simp: ir_spec_def add_directive_def directives_append makeDiagnostic_def split: list.splits)

lemma directives_other: "\<forall>p. v \<noteq> JObj p \<Longrightarrow> directives nm [DirectiveNode nm' v rw lc ds] = []"
  by (cases v) auto

lemma add_child_spec: "ir_spec ns ir \<Longrightarrow> ir_spec (ns @ [n]) (add_child ir n)"
proof (cases n)
  case (DirectiveNode nm v rw lc ds)
  assume s: "ir_spec ns ir"
  have other: "ir_spec (ns @ [n]) (add_child ir n)" if "\<forall>p. v \<noteq> JObj p"
  proof -
    have "directives nm' (ns @ [n]) = directives nm' ns" for nm'
      using that by (simp add: directives_append DirectiveNode directives_other)
    then show ?thesis
      using s that by (cases v) (simp_all add: DirectiveNode ir_spec_def add_child_def makeDiagnostic_def)
  qed
  show ?thesis
  proof (cases v)
    case (JObj p)
    then show ?thesis using add_directive_spec [OF s] by (simp add: DirectiveNode add_child_def)
  qed (use other in auto)
qed (simp_all add: ir_spec_def add_child_def directives_append)

lemma normalizeAstToIr_spec: "ir_spec (children ast) (normalizeAstToIr ast)"
proof -
  have "ir_spec ns (foldl add_child empty_ir ns)" for ns
  proof (induction ns rule: rev_induct)
    case Nil
    then show ?case by (simp add: ir_spec_def empty_ir_def)
  next
    case (snoc n ns)
    then show ?case by (simp add: add_child_spec)
  qed
  then show ?thesis by (simp add: normalizeAstToIr_def)
qed

lemma normalizeReplay_mode: "re_mode (normalizeReplay p lc) = Some m \<Longrightarrow> m \<in> set replay_modes"
  by (auto simp: normalizeReplay_def Let_def split: option.splits if_splits)

end
