(* ===== verification/DocAnalysis.thy ===== *)
theory DocAnalysis
  imports DocIr
begin

text \<open>
  Static checks of the IR: schema/validateIrSchemas.ts and refs/resolveRefs.ts under
  packages/aionis-doc/src.  The lemmas say when each check is silent: the schema check
  exactly on documents with the required fields, the reference check exactly when every
  \<^verbatim>\<open>input_ref\<close> parses, names a known scope and leads somewhere.
\<close>

section \<open>The schema check\<close>

definition truthy :: "string option \<Rightarrow> bool" where
  "truthy s \<longleftrightarrow> (case s of Some (_ # _) \<Rightarrow> True | _ \<Rightarrow> False)"

lemma truthy_simps [simp]: "\<not> truthy None" "truthy (Some s) \<longleftrightarrow> s \<noteq> []"
  by (auto simp: truthy_def split: list.splits)

lemma truthy_iff: "truthy v \<longleftrightarrow> (\<exists>s. v = Some s \<and> s \<noteq> [])"
  by (cases v) auto

definition first_loc :: "('a \<Rightarrow> source_range option) \<Rightarrow> 'a list \<Rightarrow> source_range option" where
  "first_loc f xs = (case xs of [] \<Rightarrow> None | x # _ \<Rightarrow> f x)"

definition coalesce :: "'a option \<Rightarrow> 'a option \<Rightarrow> 'a option" where
  "coalesce a b = (case a of Some x \<Rightarrow> Some x | None \<Rightarrow> b)"

definition quoted :: "string \<Rightarrow> string" where
  "quoted s = squote # s @ [squote]"

definition missing_doc :: "aionis_doc_ir \<Rightarrow> diagnostic" where
  "missing_doc ir =
     makeDiagnostic
       (coalesce (first_loc ex_loc (ir_executions ir))
         (coalesce (first_loc cx_loc (ir_context ir))
           (coalesce (first_loc re_loc (ir_replay ir))
             (first_loc (\<lambda>d. Some (diag_loc d)) (ir_diagnostics ir)))))
       ''MISSING_DOC'' ''Document is missing a @doc directive.''"

definition check_execution :: "doc_meta_ir \<Rightarrow> execute_ir \<Rightarrow> diagnostic list" where
  "check_execution d e =
     (if \<not> truthy (ex_module e) \<and> \<not> truthy (ex_tool e) \<and> \<not> truthy (ex_agent e)
      then [makeDiagnostic (coalesce (ex_loc e) (dm_loc d)) ''INVALID_SCHEMA''
              ''@execute requires at least one of module, tool, or agent.'']
      else [])"

definition check_replay :: "doc_meta_ir \<Rightarrow> replay_ir \<Rightarrow> diagnostic list" where
  "check_replay d r =
     (case re_mode r of
        Some m \<Rightarrow>
          if m \<noteq> [] \<and> m \<notin> set replay_modes
          then [makeDiagnostic (coalesce (re_loc r) (dm_loc d)) ''INVALID_SCHEMA''
                  (''Unsupported replay mode '' @ quoted m @ ''.'')]
          else []
      | None \<Rightarrow> [])"

definition validateIrSchemas :: "aionis_doc_ir \<Rightarrow> diagnostic list" where
  "validateIrSchemas ir =
     (case ir_doc ir of
        None \<Rightarrow> [missing_doc ir]
      | Some d \<Rightarrow>
          (if js_trim (dm_id d) = []
           then [makeDiagnostic (dm_loc d) ''INVALID_SCHEMA'' ''@doc.id must be a non-empty string.'']
           else [])
          @ (if js_trim (dm_version d) = []
             then [makeDiagnostic (dm_loc d) ''INVALID_SCHEMA''
                     ''@doc.version must be a non-empty string.'']
             else [])
          @ concat (map (check_execution d) (ir_executions ir))
          @ concat (map (check_replay d) (ir_replay ir)))"

definition runnable :: "execute_ir \<Rightarrow> bool" where
  "runnable e \<longleftrightarrow> truthy (ex_module e) \<or> truthy (ex_tool e) \<or> truthy (ex_agent e)"

lemma check_execution_Nil: "check_execution d e = [] \<longleftrightarrow> runnable e"
  by (simp add: check_execution_def runnable_def)

lemma check_replay_normal: "r \<in> set (ir_replay (normalizeAstToIr ast)) \<Longrightarrow> check_replay d r = []"
  using normalizeAstToIr_spec [of ast] normalizeReplay_mode
  by (fastforce simp: ir_spec_def check_replay_def split: option.splits)

lemma validateIrSchemas_Nil:
  "validateIrSchemas (normalizeAstToIr ast) = [] \<longleftrightarrow>
     (\<exists>d. ir_doc (normalizeAstToIr ast) = Some d \<and> js_trim (dm_id d) \<noteq> [] \<and> js_trim (dm_version d) \<noteq> []
       \<and> list_all runnable (ir_executions (normalizeAstToIr ast)))"
  by (auto simp: validateIrSchemas_def check_execution_Nil check_replay_normal list_all_iff
      split: option.splits)

lemma validateIrSchemas_errors: "d \<in> set (validateIrSchemas ir) \<Longrightarrow> severity d = SevError"
  by (auto simp: validateIrSchemas_def missing_doc_def makeDiagnostic_def check_execution_def
      check_replay_def split: option.splits if_splits)

section \<open>References\<close>

record ref_binding =
  rb_raw :: string
  rb_scope :: string
  rb_path :: "string list"

definition VALID_SCOPES :: "string list" where
  "VALID_SCOPES = [''doc'', ''ctx'', ''run'', ''out'', ''mem'']"

definition is_scope_part :: "char \<Rightarrow> bool" where
  "is_scope_part c \<longleftrightarrow> is_alnum c \<or> c = CHR ''_'' \<or> c = CHR ''-''"

definition parseRef :: "string \<Rightarrow> ref_binding option" where
  "parseRef ref =
     (let t = js_trim ref;
          sc = takeWhile is_scope_part t;
          r = dropWhile is_scope_part t
      in if t \<noteq> [] \<and> is_alpha (hd t) then
           (case r of
              [] \<Rightarrow> Some \<lparr>rb_raw = ref, rb_scope = sc, rb_path = []\<rparr>
            | c # p \<Rightarrow>
                if c = CHR ''.'' \<and> p \<noteq> [] \<and> list_all is_name_part p
                then Some \<lparr>rb_raw = ref, rb_scope = sc, rb_path = js_split (CHR ''.'') p\<rparr>
                else None)
         else None)"

text \<open>One step is \<^verbatim>\<open>current[segment]\<close>, \<open>None\<close> unless the current value is an object with that name.\<close>

fun getPathValue :: "jv option \<Rightarrow> string list \<Rightarrow> jv option" where
  "getPathValue v [] = v"
| "getPathValue v (seg # path) =
     (case v of
        Some w \<Rightarrow>
          if is_plain_object w then
            (case js_prop w seg of Some u \<Rightarrow> getPathValue (Some u) path | None \<Rightarrow> None)
          else None
      | None \<Rightarrow> None)"

definition object_assign :: "jobj \<Rightarrow> jobj \<Rightarrow> jobj" where
  "object_assign target src = foldl (\<lambda>acc e. obj_assign (fst e) (snd e) acc) target src"

definition buildMergedContext :: "context_ir list \<Rightarrow> jobj" where
  "buildMergedContext cs = foldl (\<lambda>merged e. object_assign merged (cx_data e)) [] cs"

definition unresolved :: "aionis_doc_ir \<Rightarrow> execute_ir \<Rightarrow> string \<Rightarrow> diagnostic" where
  "unresolved ir e msg =
     makeDiagnostic (coalesce (ex_loc e) (case ir_doc ir of Some d \<Rightarrow> dm_loc d | None \<Rightarrow> None))
       ''UNRESOLVED_REF'' msg"

definition validateBinding :: "aionis_doc_ir \<Rightarrow> ref_binding \<Rightarrow> execute_ir \<Rightarrow> diagnostic option" where
  "validateBinding ir b e =
     (if rb_scope b \<notin> set VALID_SCOPES then
        Some (unresolved ir e (''Unknown ref scope '' @ quoted (rb_scope b) @ '' in '' @ quoted (rb_raw b) @ ''.''))
      else if rb_scope b = ''ctx''
              \<and> getPathValue (Some (JObj (buildMergedContext (ir_context ir)))) (rb_path b) = None then
        Some (unresolved ir e (''Context ref '' @ quoted (rb_raw b) @ '' could not be resolved.''))
      else if rb_scope b = ''doc''
              \<and> getPathValue (map_option (\<lambda>d. JObj (dm_data d)) (ir_doc ir)) (rb_path b) = None then
        Some (unresolved ir e (''Document ref '' @ quoted (rb_raw b) @ '' could not be resolved.''))
      else None)"

record ref_resolution =
  rr_ir :: aionis_doc_ir
  rr_bindings :: "ref_binding list"
  rr_diagnostics :: "diagnostic list"

definition resolve_execution ::
  "aionis_doc_ir \<Rightarrow> execute_ir \<Rightarrow> ref_binding list \<times> diagnostic list" where
  "resolve_execution ir e =
     (case ex_input_ref e of
        None \<Rightarrow> ([], [])
      | Some ref \<Rightarrow>
          if ref = [] then ([], [])
          else (case parseRef ref of
                  None \<Rightarrow> ([], [unresolved ir e (''Invalid ref syntax '' @ quoted ref @ ''.'')])
                | Some b \<Rightarrow>
                    ([b], (case validateBinding ir b e of Some d \<Rightarrow> [d] | None \<Rightarrow> []))))"

definition resolveRefs :: "aionis_doc_ir \<Rightarrow> ref_resolution" where
  "resolveRefs ir =
     \<lparr>rr_ir = ir,
      rr_bindings = concat (map (fst \<circ> resolve_execution ir) (ir_executions ir)),
      rr_diagnostics = concat (map (snd \<circ> resolve_execution ir) (ir_executions ir))\<rparr>"

section \<open>When references resolve\<close>

definition ref_ok :: "aionis_doc_ir \<Rightarrow> string \<Rightarrow> bool" where
  "ref_ok ir ref \<longleftrightarrow>
     (case parseRef ref of
        None \<Rightarrow> False
      | Some b \<Rightarrow>
          rb_scope b \<in> set VALID_SCOPES
          \<and> (rb_scope b = ''ctx'' \<longrightarrow>
               getPathValue (Some (JObj (buildMergedContext (ir_context ir)))) (rb_path b) \<noteq> None)
          \<and> (rb_scope b = ''doc'' \<longrightarrow>
               getPathValue (map_option (\<lambda>d. JObj (dm_data d)) (ir_doc ir)) (rb_path b) \<noteq> None))"

lemma resolve_execution_Nil:
  "snd (resolve_execution ir e) = [] \<longleftrightarrow>
     (\<forall>ref. ex_input_ref e = Some ref \<longrightarrow> ref \<noteq> [] \<longrightarrow> ref_ok ir ref)"
  by (auto simp: resolve_execution_def validateBinding_def ref_ok_def split: option.splits if_splits)

lemma resolveRefs_Nil:
  "rr_diagnostics (resolveRefs ir) = [] \<longleftrightarrow>
     (\<forall>e \<in> set (ir_executions ir). \<forall>ref. ex_input_ref e = Some ref \<longrightarrow> ref \<noteq> [] \<longrightarrow> ref_ok ir ref)"
  by (auto simp: resolveRefs_def resolve_execution_Nil)

lemma parseRef_print:
  assumes "sc \<noteq> []" "is_alpha (hd sc)" "list_all is_scope_part sc"
    and "path \<noteq> []" "\<forall>p \<in> set path. list_all is_scope_part p" "js_join ''.'' path \<noteq> []"
  shows "parseRef (sc @ ''.'' @ js_join ''.'' path)
    = Some \<lparr>rb_raw = sc @ ''.'' @ js_join ''.'' path, rb_scope = sc, rb_path = path\<rparr>"
proof -
  let ?p = "js_join ''.'' path"
  have all: "list_all is_name_part ?p"
    using assms(5) by (induction "''.''" path rule: js_join.induct) (auto simp: list_all_iff is_scope_part_def char_class_defs)
  have ws: "\<not> is_ws c" if "is_name_part c" for c
    using that by (auto simp: char_class_defs)
  have "list_all is_name_part (sc @ ''.'' @ ?p)"
    using all assms(3) by (auto simp: list_all_iff is_scope_part_def char_class_defs)
  then have tr: "js_trim (sc @ ''.'' @ ?p) = sc @ ''.'' @ ?p"
    using assms(1) ws by (intro js_trim_id) (auto simp: trimmed_def list_all_iff)
  have dot: "\<not> is_scope_part (CHR ''.'')" by (simp add: is_scope_part_def char_class_defs)
  have tw: "takeWhile is_scope_part (sc @ ''.'' @ ?p) = sc" "dropWhile is_scope_part (sc @ ''.'' @ ?p) = ''.'' @ ?p"
    using dot assms(3) by (auto simp: list_all_iff takeWhile_append2 dropWhile_append2 takeWhile_tail)
  have "\<forall>p \<in> set path. CHR ''.'' \<notin> set p"
    using assms(5) dot by (auto simp: list_all_iff)
  then have "js_split (CHR ''.'') ?p = path" using assms(4) by (intro js_split_join) auto
  then show ?thesis
    unfolding parseRef_def tr Let_def tw using assms all by simp
qed

section \<open>Merged context\<close>

text \<open>A name of the merged context comes from the last frame that defines it.\<close>

definition frame_get :: "jobj list \<Rightarrow> string \<Rightarrow> jv option" where
  "frame_get fs k = map_of (rev (concat fs)) k"

lemma object_assign_put_all:
  assumes "''__proto__'' \<notin> set (keys src)"
  shows "object_assign target src = own_props.put_all src target"
  using assms
  by (induction src arbitrary: target) (auto simp: object_assign_def obj_assign_def)

lemma merged_put_all:
  assumes "\<forall>f \<in> set fs. ''__proto__'' \<notin> set (keys f)"
  shows "foldl object_assign target fs = own_props.put_all (concat fs) target"
  using assms
  by (induction fs arbitrary: target) (auto simp: object_assign_put_all own_props.put_all_append)

lemma foldl_frames: "buildMergedContext cs = foldl object_assign [] (map cx_data cs)"
  by (simp add: buildMergedContext_def foldl_map)

lemma buildMergedContext_get:
  assumes "\<forall>c \<in> set cs. ''__proto__'' \<notin> set (keys (cx_data c))"
  shows "map_of (buildMergedContext cs) k = frame_get (map cx_data cs) k"
  using assms
  by (simp add: foldl_frames merged_put_all own_props.get_put_all frame_get_def split: option.splits)

end
