(* ===== verification/DocGraph.thy ===== *)
theory DocGraph
  imports DocAnalysis
begin

text \<open>
  The execution graph: packages/aionis-doc/src/graph/types.ts and buildExecutionGraph.ts.
  The builder keeps two maps while it walks the executions, from output references to node
  ids and from node ids to themselves.  \<open>graph_edges\<close> is what its edges mean, without any
  map: an edge comes from the last producer of the name, counting the node itself.
\<close>

datatype node_type =
    ContextNode | ExecuteNode | DecisionNode | EvidenceNode | OutputNode | MemoryWriteNode | ReplayNode

datatype edge_type =
    DataDependency | SequenceDependency | EvidenceAttachment | MemoryWriteback | ReplayAnchor

record execution_node =
  en_id :: string
  en_type :: node_type
  en_label :: "string option"
  en_module :: "string option"
  en_input_ref :: "string option"
  en_output_ref :: "string option"
  en_payload :: "jobj option"
  en_loc :: "source_range option"

record execution_edge =
  ee_from :: string
  ee_to :: string
  ee_type :: edge_type

record execution_graph =
  eg_graph_id :: string
  eg_doc_id :: string
  eg_nodes :: "execution_node list"
  eg_edges :: "execution_edge list"
  eg_diagnostics :: "diagnostic list"

section \<open>The builder\<close>

definition node_id :: "nat \<Rightarrow> string" where
  "node_id i = ''exec_'' @ dec_nat (i + 1)"

definition make_node :: "nat \<Rightarrow> execute_ir \<Rightarrow> execution_node" where
  "make_node i e =
     \<lparr>en_id = node_id i, en_type = ExecuteNode,
      en_label = Some (or_else (coalesce (ex_module e) (coalesce (ex_tool e) (ex_agent e)))
                        (''execute_'' @ dec_nat (i + 1))),
      en_module = ex_module e, en_input_ref = ex_input_ref e, en_output_ref = ex_output_ref e,
      en_payload = Some (ex_data e), en_loc = ex_loc e\<rparr>"

record graph_state =
  gs_nodes :: "execution_node list"
  gs_edges :: "execution_edge list"
  gs_nodeByOutputRef :: "(string, string) js_map"
  gs_nodeById :: "(string, string) js_map"
  gs_diagnostics :: "diagnostic list"

definition unknown_dependency :: "aionis_doc_ir \<Rightarrow> execute_ir \<Rightarrow> string \<Rightarrow> diagnostic" where
  "unknown_dependency ir e dep =
     \<lparr>severity = SevWarning, diag_code = ''UNKNOWN_DEPENDENCY'',
      message = ''Dependency '' @ quoted dep @ '' does not match a previous node or output ref.'',
      diag_loc = or_else (coalesce (ex_loc e) (case ir_doc ir of Some d \<Rightarrow> dm_loc d | None \<Rightarrow> None)) zero_loc,
      hint = None\<rparr>"

definition add_dependency ::
  "aionis_doc_ir \<Rightarrow> nat \<Rightarrow> execute_ir \<Rightarrow> graph_state \<Rightarrow> string \<Rightarrow> graph_state" where
  "add_dependency ir i e gs dep =
     (case coalesce (map_get (gs_nodeByOutputRef gs) dep) (map_get (gs_nodeById gs) dep) of
        Some up \<Rightarrow> gs\<lparr>gs_edges := gs_edges gs @
          [\<lparr>ee_from = up, ee_to = node_id i, ee_type = SequenceDependency\<rparr>]\<rparr>
      | None \<Rightarrow> gs\<lparr>gs_diagnostics := gs_diagnostics gs @ [unknown_dependency ir e dep]\<rparr>)"

definition add_execution :: "aionis_doc_ir \<Rightarrow> graph_state \<Rightarrow> nat \<times> execute_ir \<Rightarrow> graph_state" where
  "add_execution ir gs ie =
     (let (i, e) = ie;
          gs1 = gs\<lparr>gs_nodes := gs_nodes gs @ [make_node i e],
                   gs_nodeById := map_set (node_id i) (node_id i) (gs_nodeById gs)\<rparr>;
          gs2 = (case ex_output_ref e of
                   Some out \<Rightarrow>
                     if out = [] then gs1
                     else gs1\<lparr>gs_nodeByOutputRef := map_set out (node_id i) (gs_nodeByOutputRef gs1)\<rparr>
                 | None \<Rightarrow> gs1);
          gs3 = (case ex_input_ref e of
                   Some inp \<Rightarrow>
                     if inp = [] then gs2
                     else (case map_get (gs_nodeByOutputRef gs2) inp of
                             Some up \<Rightarrow> gs2\<lparr>gs_edges := gs_edges gs2 @
                               [\<lparr>ee_from = up, ee_to = node_id i, ee_type = DataDependency\<rparr>]\<rparr>
                           | None \<Rightarrow> gs2)
                 | None \<Rightarrow> gs2)
      in foldl (add_dependency ir i e) gs3 (or_else (ex_depends_on e) []))"

definition empty_graph_state :: graph_state where
  "empty_graph_state =
     \<lparr>gs_nodes = [], gs_edges = [], gs_nodeByOutputRef = [], gs_nodeById = [], gs_diagnostics = []\<rparr>"

definition buildExecutionGraph ::
  "aionis_doc_ir \<Rightarrow> execution_graph option \<times> diagnostic list" where
  "buildExecutionGraph ir =
     (case ir_doc ir of
        None \<Rightarrow> (None, [])
      | Some d \<Rightarrow>
          (let gs = foldl (add_execution ir) empty_graph_state (List.enumerate 0 (ir_executions ir))
           in (Some \<lparr>eg_graph_id = ''graph:'' @ dm_id d, eg_doc_id = dm_id d,
                     eg_nodes = gs_nodes gs, eg_edges = gs_edges gs,
                     eg_diagnostics = gs_diagnostics gs\<rparr>,
               gs_diagnostics gs)))"

section \<open>What the edges mean\<close>

text \<open>The last execution up to \<open>j\<close> whose output reference is \<open>r\<close>.\<close>

definition producer :: "execute_ir list \<Rightarrow> nat \<Rightarrow> string \<Rightarrow> nat option" where
  "producer es j r =
     (if r = [] then None
      else find (\<lambda>i. ex_output_ref (es ! i) = Some r) (rev [0..<Suc j]))"

definition dependency :: "execute_ir list \<Rightarrow> nat \<Rightarrow> string \<Rightarrow> nat option" where
  "dependency es j r =
     coalesce (producer es j r) (find (\<lambda>i. node_id i = r) (rev [0..<Suc j]))"

definition edge :: "nat \<Rightarrow> nat \<Rightarrow> edge_type \<Rightarrow> execution_edge" where
  "edge i j t = \<lparr>ee_from = node_id i, ee_to = node_id j, ee_type = t\<rparr>"

definition opt_list :: "'a option \<Rightarrow> 'a list" where
  "opt_list m = (case m of Some x \<Rightarrow> [x] | None \<Rightarrow> [])"

lemma opt_list_simps [simp]: "opt_list None = []" "opt_list (Some x) = [x]"
  by (simp_all add: opt_list_def)

lemma set_opt_list [simp]: "x \<in> set (opt_list m) \<longleftrightarrow> m = Some x"
  by (cases m) auto

definition deps_of :: "execute_ir \<Rightarrow> string list" where
  "deps_of e = or_else (ex_depends_on e) []"

definition edges_at :: "execute_ir list \<Rightarrow> nat \<Rightarrow> execution_edge list" where
  "edges_at es j =
     map (\<lambda>i. edge i j DataDependency)
       (concat (map (\<lambda>r. opt_list (producer es j r)) (opt_list (ex_input_ref (es ! j)))))
     @ map (\<lambda>i. edge i j SequenceDependency)
       (concat (map (\<lambda>r. opt_list (dependency es j r)) (deps_of (es ! j))))"

definition graph_edges :: "execute_ir list \<Rightarrow> execution_edge list" where
  "graph_edges es = concat (map (edges_at es) [0..<length es])"

definition unknown_at :: "aionis_doc_ir \<Rightarrow> execute_ir list \<Rightarrow> nat \<Rightarrow> diagnostic list" where
  "unknown_at ir es j =
     map (unknown_dependency ir (es ! j)) (filter (\<lambda>r. dependency es j r = None) (deps_of (es ! j)))"

lemma dec_nat_inj: "dec_nat m = dec_nat n \<longleftrightarrow> m = n"
  by (metis nat_of_digits_dec_nat)

lemma node_id_inj [simp]: "node_id i = node_id j \<longleftrightarrow> i = j"
  by (simp add: node_id_def dec_nat_inj)

lemma find_rev_snoc:
  "find P (rev [0..<Suc j]) = (if P j then Some j else find P (rev [0..<j]))"
  by simp

lemma find_upto_le: "find P (rev [0..<n]) = Some i \<Longrightarrow> i < n \<and> P i"
  by (induction n) (auto split: if_splits)

lemma producer_le: "producer es j r = Some i \<Longrightarrow> i \<le> j \<and> ex_output_ref (es ! i) = Some r"
  by (auto simp: producer_def simp del: upt_Suc split: if_splits dest: find_upto_le)

lemma dependency_le: "dependency es j r = Some i \<Longrightarrow> i \<le> j"
  by (auto simp: dependency_def coalesce_def simp del: upt_Suc split: option.splits
      dest: producer_le find_upto_le)

lemma dependency_source:
  "dependency es j r = Some i \<Longrightarrow> ex_output_ref (es ! i) = Some r \<or> node_id i = r"
  by (auto simp: dependency_def coalesce_def simp del: upt_Suc split: option.splits
      dest: producer_le find_upto_le)

section \<open>The builder computes these edges\<close>

text \<open>What the two maps hold once execution \<open>j\<close> is registered.\<close>

definition maps_ok :: "execute_ir list \<Rightarrow> nat \<Rightarrow> graph_state \<Rightarrow> bool" where
  "maps_ok es n gs \<longleftrightarrow>
     (\<forall>r. map_get (gs_nodeByOutputRef gs) r =
        (if r = [] \<or> n = 0 then None else map_option node_id (producer es (n - 1) r)))
     \<and> (\<forall>r. map_get (gs_nodeById gs) r =
        map_option node_id (find (\<lambda>i. node_id i = r) (rev [0..<n])))"

lemma add_dependencies:
  assumes "maps_ok es (Suc j) gs"
  shows "foldl (add_dependency ir j e) gs ds
    = gs\<lparr>gs_edges := gs_edges gs @ map (\<lambda>i. edge i j SequenceDependency)
             (concat (map (\<lambda>r. opt_list (dependency es j r)) ds)),
         gs_diagnostics := gs_diagnostics gs @
             map (unknown_dependency ir e) (filter (\<lambda>r. dependency es j r = None) ds)\<rparr>"
  using assms
proof (induction ds arbitrary: gs)
  case Nil
  then show ?case by simp
next
  case (Cons d ds)
  have look: "coalesce (map_get (gs_nodeByOutputRef gs) d) (map_get (gs_nodeById gs) d)
      = map_option node_id (dependency es j d)"
    using Cons.prems
    by (auto simp: maps_ok_def dependency_def coalesce_def producer_def split: option.splits)
  have step: "add_dependency ir j e gs d =
      gs\<lparr>gs_edges := gs_edges gs @ map (\<lambda>i. edge i j SequenceDependency) (opt_list (dependency es j d)),
         gs_diagnostics := gs_diagnostics gs @
           (if dependency es j d = None then [unknown_dependency ir e d] else [])\<rparr>"
    unfolding add_dependency_def look by (cases "dependency es j d") (auto simp: edge_def)
  have "maps_ok es (Suc j) (add_dependency ir j e gs d)"
    using Cons.prems by (simp add: step maps_ok_def)
  from Cons.IH [OF this] show ?case by (simp add: step)
qed

lemma producer_step:
  "producer es j r =
     (if r \<noteq> [] \<and> ex_output_ref (es ! j) = Some r then Some j
      else if j = 0 then None else producer es (j - 1) r)"
  by (cases j) (auto simp: producer_def)

lemma add_execution_eq:
  assumes "maps_ok es j gs" "e = es ! j"
  shows "\<exists>m1 m2. add_execution ir gs (j, e) =
    \<lparr>gs_nodes = gs_nodes gs @ [make_node j e], gs_edges = gs_edges gs @ edges_at es j,
     gs_nodeByOutputRef = m1, gs_nodeById = m2,
     gs_diagnostics = gs_diagnostics gs @ unknown_at ir es j\<rparr>
    \<and> maps_ok es (Suc j) (add_execution ir gs (j, e))"
proof -
  define gs1 where "gs1 = gs\<lparr>gs_nodes := gs_nodes gs @ [make_node j e],
    gs_nodeById := map_set (node_id j) (node_id j) (gs_nodeById gs)\<rparr>"
  define gs2 where "gs2 = (case ex_output_ref e of
      Some out \<Rightarrow> if out = [] then gs1
        else gs1\<lparr>gs_nodeByOutputRef := map_set out (node_id j) (gs_nodeByOutputRef gs1)\<rparr>
    | None \<Rightarrow> gs1)"
  define data where "data = map (\<lambda>i. edge i j DataDependency)
    (concat (map (\<lambda>r. opt_list (producer es j r)) (opt_list (ex_input_ref e))))"
  define gs3 where "gs3 = gs2\<lparr>gs_edges := gs_edges gs @ data\<rparr>"
  have m2: "maps_ok es (Suc j) gs2"
    using assms producer_step [of es j]
    by (auto simp: maps_ok_def gs2_def gs1_def js_map.get_put split: option.splits)
  have e2: "gs_edges gs2 = gs_edges gs" "gs_diagnostics gs2 = gs_diagnostics gs"
    "gs_nodes gs2 = gs_nodes gs @ [make_node j e]"
    by (auto simp: gs2_def gs1_def split: option.splits)
  have "(case ex_input_ref e of
      Some inp \<Rightarrow> if inp = [] then gs2 else (case map_get (gs_nodeByOutputRef gs2) inp of
          Some up \<Rightarrow> gs2\<lparr>gs_edges := gs_edges gs2 @ [\<lparr>ee_from = up, ee_to = node_id j, ee_type = DataDependency\<rparr>]\<rparr>
        | None \<Rightarrow> gs2)
    | None \<Rightarrow> gs2) = gs3"
    using m2 by (auto simp: maps_ok_def gs3_def data_def e2 [symmetric] edge_def producer_def
        split: option.splits)
  then have eq: "add_execution ir gs (j, e) = foldl (add_dependency ir j e) gs3 (or_else (ex_depends_on e) [])"
    unfolding add_execution_def Let_def prod.case gs1_def [symmetric] gs2_def [symmetric] by simp
  have m3: "maps_ok es (Suc j) gs3" using m2 by (simp add: gs3_def maps_ok_def)
  have e3: "gs_nodes gs3 = gs_nodes gs @ [make_node j e]" "gs_edges gs3 = gs_edges gs @ data"
    "gs_diagnostics gs3 = gs_diagnostics gs"
    by (simp_all add: gs3_def e2)
  show ?thesis
    unfolding eq add_dependencies [OF m3]
    by (intro exI [of _ "gs_nodeByOutputRef gs3"] exI [of _ "gs_nodeById gs3"] conjI graph_state.equality)
      (use m3 in \<open>simp_all add: e3 assms(2) edges_at_def unknown_at_def deps_of_def data_def maps_ok_def\<close>)
qed

lemma build_prefix:
  assumes "n \<le> length es"
  shows "\<exists>m1 m2. foldl (add_execution ir) empty_graph_state (List.enumerate 0 (take n es)) =
      \<lparr>gs_nodes = map (\<lambda>i. make_node i (es ! i)) [0..<n],
       gs_edges = concat (map (edges_at es) [0..<n]),
       gs_nodeByOutputRef = m1, gs_nodeById = m2,
       gs_diagnostics = concat (map (unknown_at ir es) [0..<n])\<rparr>
    \<and> maps_ok es n (foldl (add_execution ir) empty_graph_state (List.enumerate 0 (take n es)))"
  using assms
proof (induction n)
  case 0
  then show ?case by (simp add: empty_graph_state_def maps_ok_def map_get_def)
next
  case (Suc n)
  let ?f = "foldl (add_execution ir) empty_graph_state"
  from Suc have n: "n < length es" by simp
  have "List.enumerate 0 (take (Suc n) es) = List.enumerate 0 (take n es) @ [(n, es ! n)]"
    using n by (simp add: take_Suc_conv_app_nth enumerate_append_eq)
  then have st: "?f (List.enumerate 0 (take (Suc n) es))
      = add_execution ir (?f (List.enumerate 0 (take n es))) (n, es ! n)"
    by simp
  from Suc n obtain m1 m2 where f: "?f (List.enumerate 0 (take n es)) =
      \<lparr>gs_nodes = map (\<lambda>i. make_node i (es ! i)) [0..<n], gs_edges = concat (map (edges_at es) [0..<n]),
       gs_nodeByOutputRef = m1, gs_nodeById = m2, gs_diagnostics = concat (map (unknown_at ir es) [0..<n])\<rparr>"
    and m: "maps_ok es n (?f (List.enumerate 0 (take n es)))"
    by auto
  from add_execution_eq [OF m refl, of ir] show ?case
    unfolding st f by auto
qed

lemma buildExecutionGraph_spec:
  assumes "ir_doc ir = Some d"
  defines "es \<equiv> ir_executions ir"
  shows "buildExecutionGraph ir =
    (Some \<lparr>eg_graph_id = ''graph:'' @ dm_id d, eg_doc_id = dm_id d,
           eg_nodes = map (\<lambda>i. make_node i (es ! i)) [0..<length es],
           eg_edges = graph_edges es,
           eg_diagnostics = concat (map (unknown_at ir es) [0..<length es])\<rparr>,
     concat (map (unknown_at ir es) [0..<length es]))"
  using build_prefix [of "length es" es ir] assms
  by (auto simp: buildExecutionGraph_def graph_edges_def Let_def)

lemma graph_edges_forward:
  assumes "ed \<in> set (graph_edges es)"
  shows "\<exists>i j. i \<le> j \<and> j < length es \<and> ed = edge i j (ee_type ed)"
  using assms producer_le dependency_le
  by (fastforce simp: graph_edges_def edges_at_def edge_def)

end
