(* ===== verification/DocPlan.thy ===== *)
theory DocPlan
  imports DocGraph
begin

text \<open>
  The execution plan and the compiler that ends in it: plan/types.ts,
  plan/buildExecutionPlan.ts, the last function of compile.ts, and the two projections of a
  compile result in contracts.ts (packages/aionis-doc/src).
\<close>

section \<open>Types\<close>

record plan_doc_meta =
  pd_id :: string
  pd_version :: string
  pd_kind :: "string option"
  pd_title :: "string option"
  pd_status :: "string option"
  pd_tags :: "string list option"

record plan_context =
  pc_merged :: jobj
  pc_frames :: "jobj list"

record plan_step =
  ps_execution_id :: string
  ps_module :: "string option"
  ps_tool :: "string option"
  ps_agent :: "string option"
  ps_input :: "jobj option"
  ps_input_ref :: "string option"
  ps_output_ref :: "string option"
  ps_depends_on :: "string list"
  ps_deterministic :: "bool option"
  ps_loc :: "source_range option"

record plan_determinism =
  det_executable :: bool
  det_replay_mode :: "string option"
  det_requires_resume_support :: bool

record execution_plan =
  xp_plan_version :: string
  xp_doc :: "plan_doc_meta option"
  xp_context :: plan_context
  xp_executions :: "plan_step list"
  xp_graph :: "execution_graph option"
  xp_expected_outputs :: "string list"
  xp_required_capabilities :: "string list"
  xp_determinism :: plan_determinism
  xp_diagnostics :: "diagnostic list"

definition EXECUTION_PLAN_V1 :: string where
  "EXECUTION_PLAN_V1 = ''execution_plan_v1''"

section \<open>Building the plan\<close>

definition mergeContextFrames :: "jobj list \<Rightarrow> jobj" where
  "mergeContextFrames frames =
     foldl (\<lambda>merged frame. foldl (\<lambda>m e. obj_assign (fst e) (snd e) m) merged frame) [] frames"

definition buildExecutionId :: "execute_ir \<Rightarrow> nat \<Rightarrow> string" where
  "buildExecutionId e i =
     (if truthy (ex_output_ref e) then the (ex_output_ref e)
      else if truthy (ex_module e) then ''run.'' @ the (ex_module e) @ ''.'' @ dec_nat (i + 1)
      else if truthy (ex_tool e) then ''run.'' @ the (ex_tool e) @ ''.'' @ dec_nat (i + 1)
      else if truthy (ex_agent e) then ''run.'' @ the (ex_agent e) @ ''.'' @ dec_nat (i + 1)
      else ''run.execution_'' @ dec_nat (i + 1))"

definition buildExecutionStep :: "execute_ir \<Rightarrow> nat \<Rightarrow> plan_step" where
  "buildExecutionStep e i =
     \<lparr>ps_execution_id = buildExecutionId e i,
      ps_module = ex_module e, ps_tool = ex_tool e, ps_agent = ex_agent e,
      ps_input = ex_input e, ps_input_ref = ex_input_ref e, ps_output_ref = ex_output_ref e,
      ps_depends_on = or_else (ex_depends_on e) [],
      ps_deterministic = ex_deterministic e, ps_loc = ex_loc e\<rparr>"

definition collectExpectedOutputs :: "aionis_doc_ir \<Rightarrow> string list" where
  "collectExpectedOutputs ir =
     (let replayOutputs = concat (map (\<lambda>r. or_else (re_expected_outputs r) []) (ir_replay ir))
      in if replayOutputs \<noteq> [] then replayOutputs
         else map the (filter truthy (map ex_output_ref (ir_executions ir))))"

text \<open>The names added to the \<^verbatim>\<open>Set\<close>, in order; a set keeps the first of equal names.\<close>

definition replay_capabilities :: "replay_ir \<Rightarrow> string list" where
  "replay_capabilities r =
     (if re_mode r = Some ''deterministic'' then [''deterministic_replay''] else [])
     @ (if re_mode r = Some ''assisted'' then [''assisted_replay''] else [])
     @ (if re_executable r = Some True then [''state_persistence''] else [])"

definition collectRequiredCapabilities :: "aionis_doc_ir \<Rightarrow> string list" where
  "collectRequiredCapabilities ir =
     dedupe
       ((if ir_executions ir \<noteq> [] then [''direct_execution'', ''module_registry''] else [])
        @ concat (map replay_capabilities (ir_replay ir))
        @ (if list_ex (\<lambda>m. me_writeback m = Some True) (ir_memory ir)
           then [''memory_writeback''] else []))"

definition buildDeterminism :: "aionis_doc_ir \<Rightarrow> plan_determinism" where
  "buildDeterminism ir =
     \<lparr>det_executable =
        (list_ex (\<lambda>r. re_executable r = Some True) (ir_replay ir) \<or> ir_executions ir \<noteq> []),
      det_replay_mode = (case ir_replay ir of [] \<Rightarrow> None | r # _ \<Rightarrow> re_mode r),
      det_requires_resume_support = list_ex (\<lambda>r. re_executable r = Some True) (ir_replay ir)\<rparr>"

definition plan_doc :: "doc_meta_ir \<Rightarrow> plan_doc_meta" where
  "plan_doc d =
     \<lparr>pd_id = dm_id d, pd_version = dm_version d, pd_kind = dm_kind d, pd_title = dm_title d,
      pd_status = dm_status d, pd_tags = dm_tags d\<rparr>"

definition buildExecutionPlanV1 ::
  "aionis_doc_ir \<Rightarrow> execution_graph option \<Rightarrow> diagnostic list option \<Rightarrow> execution_plan" where
  "buildExecutionPlanV1 ir graph diags =
     (let contextFrames = map cx_data (ir_context ir)
      in \<lparr>xp_plan_version = EXECUTION_PLAN_V1,
          xp_doc = map_option plan_doc (ir_doc ir),
          xp_context = \<lparr>pc_merged = mergeContextFrames contextFrames, pc_frames = contextFrames\<rparr>,
          xp_executions = map (\<lambda>(i, e). buildExecutionStep e i) (List.enumerate 0 (ir_executions ir)),
          xp_graph = graph,
          xp_expected_outputs = collectExpectedOutputs ir,
          xp_required_capabilities = collectRequiredCapabilities ir,
          xp_determinism = buildDeterminism ir,
          xp_diagnostics = or_else diags (ir_diagnostics ir)\<rparr>)"

section \<open>The compiler\<close>

record compile_result =
  cr_ast :: document_node
  cr_ir :: aionis_doc_ir
  cr_graph :: "execution_graph option"
  cr_plan :: execution_plan
  cr_diagnostics :: "diagnostic list"

definition compileAionisDoc :: "string \<Rightarrow> compile_result" where
  "compileAionisDoc src =
     (let scan = scanSource src;
          ast = parseAst scan;
          ir = normalizeAstToIr ast;
          schemaDiagnostics = validateIrSchemas ir;
          refResult = resolveRefs ir;
          graphResult = buildExecutionGraph (rr_ir refResult);
          diagnostics = doc_diagnostics ast @ ir_diagnostics ir @ schemaDiagnostics
            @ rr_diagnostics refResult @ snd graphResult
      in \<lparr>cr_ast = ast, cr_ir = rr_ir refResult, cr_graph = fst graphResult,
          cr_plan = buildExecutionPlanV1 (rr_ir refResult) (fst graphResult) (Some diagnostics),
          cr_diagnostics = diagnostics\<rparr>)"

datatype emit_mode = EmitAll | EmitAst | EmitIr | EmitGraph | EmitPlan | EmitDiagnostics

record compile_artifacts =
  ca_ast :: "document_node option"
  ca_ir :: "aionis_doc_ir option"
  ca_graph :: "execution_graph option"
  ca_plan :: "execution_plan option"

definition selectArtifacts :: "compile_result \<Rightarrow> emit_mode \<Rightarrow> compile_artifacts" where
  "selectArtifacts r emit =
     (if emit = EmitAll then
        \<lparr>ca_ast = Some (cr_ast r), ca_ir = Some (cr_ir r), ca_graph = cr_graph r,
         ca_plan = Some (cr_plan r)\<rparr>
      else
        \<lparr>ca_ast = (if emit = EmitAst then Some (cr_ast r) else None),
         ca_ir = (if emit = EmitIr then Some (cr_ir r) else None),
         ca_graph = (if emit = EmitGraph then cr_graph r else None),
         ca_plan = (if emit = EmitPlan then Some (cr_plan r) else None)\<rparr>)"

record compile_summary =
  cs_has_errors :: bool
  cs_error_count :: nat
  cs_warning_count :: nat
  cs_info_count :: nat
  cs_ast_node_count :: nat
  cs_execution_count :: nat
  cs_graph_node_count :: nat
  cs_graph_edge_count :: nat

definition summarizeCompileResult :: "compile_result \<Rightarrow> compile_summary" where
  "summarizeCompileResult r =
     (let count = \<lambda>s. length (filter (\<lambda>d. severity d = s) (cr_diagnostics r))
      in \<lparr>cs_has_errors = (0 < count SevError), cs_error_count = count SevError,
          cs_warning_count = count SevWarning, cs_info_count = count SevInfo,
          cs_ast_node_count = length (children (cr_ast r)),
          cs_execution_count = length (ir_executions (cr_ir r)),
          cs_graph_node_count = (case cr_graph r of Some g \<Rightarrow> length (eg_nodes g) | None \<Rightarrow> 0),
          cs_graph_edge_count = (case cr_graph r of Some g \<Rightarrow> length (eg_edges g) | None \<Rightarrow> 0)\<rparr>)"

section \<open>Lemmas\<close>

lemma mergeContextFrames_eq: "mergeContextFrames (map cx_data cs) = buildMergedContext cs"
  by (simp add: mergeContextFrames_def foldl_frames object_assign_def [abs_def])

lemma resolveRefs_ir [simp]: "rr_ir (resolveRefs ir) = ir"
  by (simp add: resolveRefs_def)

text \<open>Generated ids end in a dot and the step number, so two steps never share one.\<close>

lemma dec_nat_no_dot: "CHR ''.'' \<notin> set (dec_nat n)" "CHR ''_'' \<notin> set (dec_nat n)"
  using dec_nat_digits [of "CHR ''.''" n] dec_nat_digits [of "CHR ''_''" n]
  by (auto simp: is_digit_def)

lemma takeWhile_neq: "c \<notin> set s \<Longrightarrow> takeWhile (\<lambda>x. x \<noteq> c) (s @ c # r) = s"
  by (induction s) auto

lemma split_at_last:
  assumes "a @ c # s = b @ c # t" "c \<notin> set s" "c \<notin> set t"
  shows "a = b \<and> s = t"
proof -
  have "rev s @ c # rev a = rev t @ c # rev b"
    using arg_cong [OF assms(1), of rev] by simp
  then have "takeWhile (\<lambda>x. x \<noteq> c) (rev s @ c # rev a) = takeWhile (\<lambda>x. x \<noteq> c) (rev t @ c # rev b)"
    by simp
  moreover have "takeWhile (\<lambda>x. x \<noteq> c) (rev s @ c # rev a) = rev s"
    "takeWhile (\<lambda>x. x \<noteq> c) (rev t @ c # rev b) = rev t"
    using assms(2,3) by (auto intro: takeWhile_neq)
  ultimately show ?thesis using assms(1) by auto
qed

lemma generated_id:
  assumes "\<not> truthy (ex_output_ref e)"
  shows "\<exists>p. buildExecutionId e i = p @ CHR ''.'' # dec_nat (i + 1)
    \<or> buildExecutionId e i = ''run.execution_'' @ dec_nat (i + 1)"
  using assms by (auto simp: buildExecutionId_def intro: exI [of _ "''run'' @ CHR ''.'' # _"])

lemma execution_ids_distinct:
  assumes "\<not> truthy (ex_output_ref e1)" "\<not> truthy (ex_output_ref e2)"
    and eq: "buildExecutionId e1 i = buildExecutionId e2 j"
  shows "i = j"
proof -
  define d where "d = CHR ''.''"
  have run: "''run.execution_'' @ s = ''run'' @ d # (''execution_'' @ s)" for s by (simp add: d_def)
  have nd: "d \<notin> set (dec_nat n)" "d \<notin> set (''execution_'' @ dec_nat n)" for n
    using dec_nat_no_dot by (auto simp: d_def)
  have ne: "dec_nat m \<noteq> ''execution_'' @ dec_nat n" for m n
    using dec_nat_no_dot(2) [of m] by auto
  from generated_id [OF assms(1), of i] generated_id [OF assms(2), of j]
  obtain p s q t where
    1: "buildExecutionId e1 i = p @ d # s" "s = dec_nat (i + 1) \<or> s = ''execution_'' @ dec_nat (i + 1)"
    and 2: "buildExecutionId e2 j = q @ d # t" "t = dec_nat (j + 1) \<or> t = ''execution_'' @ dec_nat (j + 1)"
    unfolding run unfolding d_def [symmetric] by metis
  from eq 1 2 nd have "s = t" by (metis split_at_last)
  then show ?thesis using 1(2) 2(2) ne dec_nat_inj [of "i + 1" "j + 1"] by (metis add_right_cancel same_append_eq)
qed

lemma buildExecutionId_not_Nil: "buildExecutionId e i \<noteq> []"
  by (auto simp: buildExecutionId_def truthy_iff)

lemma compile_fields:
  fixes src :: string
  defines "r \<equiv> compileAionisDoc src"
  defines "ir \<equiv> normalizeAstToIr (parseAst (scanSource src))"
  shows "cr_ir r = ir" "cr_ast r = parseAst (scanSource src)" "xp_diagnostics (cr_plan r) = cr_diagnostics r"
    "cr_graph r = fst (buildExecutionGraph ir)" "cr_plan r = buildExecutionPlanV1 ir (cr_graph r) (Some (cr_diagnostics r))"
    "cr_diagnostics r = doc_diagnostics (parseAst (scanSource src)) @ ir_diagnostics ir
       @ validateIrSchemas ir @ rr_diagnostics (resolveRefs ir) @ snd (buildExecutionGraph ir)"
  by (simp_all add: r_def ir_def compileAionisDoc_def Let_def buildExecutionPlanV1_def or_else_def)

lemma ir_diagnostics_errors:
  "d \<in> set (ir_diagnostics (normalizeAstToIr ast)) \<Longrightarrow> severity d = SevError"
proof -
  have "\<forall>d \<in> set (ir_diagnostics (foldl add_child ir ns)). severity d = SevError"
    if "\<forall>d \<in> set (ir_diagnostics ir). severity d = SevError" for ir ns
    using that
  proof (induction ns arbitrary: ir)
    case (Cons n ns)
    have "\<forall>d \<in> set (ir_diagnostics (add_child ir n)). severity d = SevError"
      using Cons.prems
      by (auto simp: add_child_def add_directive_def makeDiagnostic_def
          split: ast_node.splits jv.splits option.splits if_splits)
    with Cons.IH show ?case by simp
  qed simp
  from this [of empty_ir "children ast"] show "d \<in> set (ir_diagnostics (normalizeAstToIr ast)) \<Longrightarrow> severity d = SevError"
    by (simp add: normalizeAstToIr_def empty_ir_def)
qed

text \<open>The number of graph nodes equals the number of executions, or there is no graph.\<close>

lemma summary_counts:
  "cs_graph_node_count (summarizeCompileResult (compileAionisDoc src))
     = (if ir_doc (cr_ir (compileAionisDoc src)) = None then 0
        else cs_execution_count (summarizeCompileResult (compileAionisDoc src)))"
proof (cases "ir_doc (normalizeAstToIr (parseAst (scanSource src)))")
  case None
  then show ?thesis
    by (simp add: summarizeCompileResult_def compile_fields buildExecutionGraph_def)
next
  case (Some d)
  then show ?thesis
    by (simp add: summarizeCompileResult_def compile_fields buildExecutionGraph_spec)
qed

end
