(* ===== verification/DocContracts.thy ===== *)
theory DocContracts
  imports DocPlan
begin

text \<open>
  Value contracts of execution modules: the contract types of execute/types.ts and the
  checker of execute/moduleRuntime.ts (packages/aionis-doc/src).  \<open>conforms\<close> is the meaning
  of a contract on JSON values, with no paths, no messages and no inherited properties; the
  checker agrees with it as long as no name of the contract or the value is an inherited
  member.
\<close>

datatype contract_kind = KAny | KString | KNumber | KBoolean | KNull | KArray | KObject

datatype contract =
  Contract (kind: contract_kind) (description: "string option")
    (properties: "(string \<times> contract) list option") (required: "string list option")
    (items: "contract option") (additional_properties: "bool option")

definition contractPath :: "string \<Rightarrow> string \<Rightarrow> string" where
  "contractPath path seg = (if path = ''$'' then ''$.'' @ seg else path @ ''.'' @ seg)"

definition expected :: "string \<Rightarrow> string \<Rightarrow> string list" where
  "expected what path = [''Expected '' @ what @ '' at '' @ quoted path @ ''.'']"

text \<open>\<^verbatim>\<open>Object.keys\<close>: own names only; the prototype object has none that enumerate.\<close>

definition own_keys :: "jv \<Rightarrow> string list" where
  "own_keys v = (case v of JObj ob \<Rightarrow> keys ob | _ \<Rightarrow> [])"

lemma size_property:
  assumes "e \<in> set (or_else props [])"
  shows "size (snd e) < size (Contract k dsc props req its ap)"
proof -
  obtain ps where ps: "props = Some ps" "e \<in> set ps"
    using assms by (cases props) (auto simp: or_else_def)
  then have "size_prod (\<lambda>_. 0) size e \<le> size_list (size_prod (\<lambda>_. 0) size) ps"
    by (intro size_list_estimation') auto
  then show ?thesis using ps by (cases e) auto
qed

lemmas size_entry = size_property [of "(a, b)" for a b, simplified]

function validateValueAgainstContract :: "jv \<Rightarrow> contract \<Rightarrow> string \<Rightarrow> string list" where
  "validateValueAgainstContract v (Contract k dsc props req its ap) path =
     (case k of
        KAny \<Rightarrow> []
      | KString \<Rightarrow> (case v of JStr _ \<Rightarrow> [] | _ \<Rightarrow> expected ''string'' path)
      | KNumber \<Rightarrow> (case v of JNum _ \<Rightarrow> [] | _ \<Rightarrow> expected ''number'' path)
      | KBoolean \<Rightarrow> (case v of JBool _ \<Rightarrow> [] | _ \<Rightarrow> expected ''boolean'' path)
      | KNull \<Rightarrow> (case v of JNull \<Rightarrow> [] | _ \<Rightarrow> expected ''null'' path)
      | KArray \<Rightarrow>
          (case v of
             JArr vs \<Rightarrow>
               (case its of
                  None \<Rightarrow> []
                | Some c \<Rightarrow>
                    concat (map (\<lambda>(i, item). validateValueAgainstContract item c
                                   (path @ ''['' @ dec_nat i @ '']''))
                             (List.enumerate 0 vs)))
           | _ \<Rightarrow> expected ''array'' path)
      | KObject \<Rightarrow>
          if \<not> is_plain_object v then expected ''object'' path
          else
            map (\<lambda>key. ''Missing required property '' @ quoted key @ '' at '' @ quoted path @ ''.'')
              (filter (\<lambda>key. js_prop v key = None) (dedupe (or_else req [])))
            @ concat (map (\<lambda>e.
                (case js_prop v (fst e) of
                   None \<Rightarrow> []
                 | Some u \<Rightarrow> validateValueAgainstContract u (snd e) (contractPath path (fst e))))
                (or_else props []))
            @ (if ap = Some False then
                 map (\<lambda>key. ''Unexpected property '' @ quoted key @ '' at '' @ quoted path @ ''.'')
                   (filter (\<lambda>key. key \<notin> set (keys (or_else props [])) \<and> key \<notin> set proto_keys)
                     (own_keys v))
               else []))"
  by pat_completeness auto
termination
  by (relation "measure (\<lambda>(v, c, path). size c)") (auto dest: size_entry)

declare validateValueAgainstContract.simps [simp del]

section \<open>The meaning of a contract\<close>

function conforms :: "contract \<Rightarrow> jv \<Rightarrow> bool" where
  "conforms (Contract k dsc props req its ap) v =
     (case k of
        KAny \<Rightarrow> True
      | KString \<Rightarrow> (\<exists>s. v = JStr s)
      | KNumber \<Rightarrow> (\<exists>x. v = JNum x)
      | KBoolean \<Rightarrow> (\<exists>b. v = JBool b)
      | KNull \<Rightarrow> v = JNull
      | KArray \<Rightarrow> (\<exists>vs. v = JArr vs \<and> (\<forall>c. its = Some c \<longrightarrow> (\<forall>item \<in> set vs. conforms c item)))
      | KObject \<Rightarrow>
          (\<exists>ob. v = JObj ob
             \<and> (\<forall>key \<in> set (or_else req []). key \<in> set (keys ob))
             \<and> (\<forall>e \<in> set (or_else props []). \<forall>u. map_of ob (fst e) = Some u \<longrightarrow> conforms (snd e) u)
             \<and> (ap = Some False \<longrightarrow> set (keys ob) \<subseteq> set (keys (or_else props [])))))"
  by pat_completeness auto
termination
  by (relation "measure (\<lambda>(c, v). size c)") (auto dest: size_entry)

declare conforms.simps [simp del]

text \<open>Values and contracts whose names are all own names.\<close>

fun no_inherited :: "jv \<Rightarrow> bool" where
  "no_inherited (JArr vs) = list_all no_inherited vs"
| "no_inherited (JObj ob) =
     (set (keys ob) \<inter> set proto_keys = {} \<and> list_all (\<lambda>e. no_inherited (snd e)) ob)"
| "no_inherited (JHost _) = False"
| "no_inherited _ = True"

fun contract_names_ok :: "contract \<Rightarrow> bool" where
  "contract_names_ok (Contract k dsc props req its ap) =
     (set (or_else req []) \<inter> set proto_keys = {}
      \<and> (case props of None \<Rightarrow> True
         | Some ps \<Rightarrow> list_all (\<lambda>e. fst e \<notin> set proto_keys \<and> contract_names_ok (snd e)) ps)
      \<and> (case its of None \<Rightarrow> True | Some c \<Rightarrow> contract_names_ok c))"

lemma enumerate_all: "(\<forall>x \<in> set (List.enumerate n xs). P (snd x)) \<longleftrightarrow> (\<forall>x \<in> set xs. P x)"
  by (induction xs arbitrary: n) auto

lemma snd_enumerate: "x \<in> set (List.enumerate n xs) \<Longrightarrow> snd x \<in> set xs"
  by (induction xs arbitrary: n) auto

lemma expected_not_Nil [simp]: "expected w p \<noteq> []"
  by (simp add: expected_def)

lemma names_ok_property:
  "contract_names_ok (Contract k dsc props req its ap) \<Longrightarrow> e \<in> set (or_else props []) \<Longrightarrow>
     fst e \<notin> set proto_keys \<and> contract_names_ok (snd e)"
  by (cases props) (auto simp: or_else_def list_all_iff)

lemma no_inherited_prop:
  assumes "no_inherited (JObj ob)" "k \<notin> set proto_keys"
  shows "js_prop (JObj ob) k = map_of ob k"
    and "map_of ob k = Some u \<Longrightarrow> no_inherited u"
  using assms by (auto simp: js_prop_def obj_get_no_proto list_all_iff dest!: map_of_SomeD)

lemma validate_object_Nil:
  assumes v: "v = JObj ob" and nv: "no_inherited v"
    and nc: "contract_names_ok (Contract KObject dsc props req its ap)"
    and IH: "\<And>e u. e \<in> set (or_else props []) \<Longrightarrow> map_of ob (fst e) = Some u \<Longrightarrow>
      validateValueAgainstContract u (snd e) (contractPath path (fst e)) = [] \<longleftrightarrow> conforms (snd e) u"
  shows "validateValueAgainstContract v (Contract KObject dsc props req its ap) path = []
    \<longleftrightarrow> conforms (Contract KObject dsc props req its ap) v"
proof -
  have pr: "js_prop v k = map_of ob k" if "k \<notin> set proto_keys" for k
    using that nv v no_inherited_prop(1) by simp
  have req: "(\<forall>key \<in> set (or_else req []). js_prop v key \<noteq> None)
      \<longleftrightarrow> (\<forall>key \<in> set (or_else req []). key \<in> set (keys ob))"
    using nc pr by (auto simp: map_of_eq_None_iff disjoint_iff)
  have ps: "(\<forall>e \<in> set (or_else props []). (case js_prop v (fst e) of None \<Rightarrow> []
        | Some u \<Rightarrow> validateValueAgainstContract u (snd e) (contractPath path (fst e))) = [])
      \<longleftrightarrow> (\<forall>e \<in> set (or_else props []). \<forall>u. map_of ob (fst e) = Some u \<longrightarrow> conforms (snd e) u)"
    using IH names_ok_property [OF nc] pr by (auto split: option.splits)
  have extra: "(\<forall>key \<in> set (own_keys v). key \<in> set (keys (or_else props [])) \<or> key \<in> set proto_keys)
      \<longleftrightarrow> set (keys ob) \<subseteq> set (keys (or_else props []))"
    using nv v by (auto simp: own_keys_def disjoint_iff)
  have plain: "is_plain_object v" by (simp add: v is_plain_object_def)
  have lhs: "validateValueAgainstContract v (Contract KObject dsc props req its ap) path = [] \<longleftrightarrow>
      (\<forall>key \<in> set (or_else req []). js_prop v key \<noteq> None)
      \<and> (\<forall>e \<in> set (or_else props []). (case js_prop v (fst e) of None \<Rightarrow> []
          | Some u \<Rightarrow> validateValueAgainstContract u (snd e) (contractPath path (fst e))) = [])
      \<and> (ap = Some False \<longrightarrow>
          (\<forall>key \<in> set (own_keys v). key \<in> set (keys (or_else props [])) \<or> key \<in> set proto_keys))"
    unfolding validateValueAgainstContract.simps
    by (simp add: plain filter_empty_conv)
  have rhs: "conforms (Contract KObject dsc props req its ap) v \<longleftrightarrow>
      (\<forall>key \<in> set (or_else req []). key \<in> set (keys ob))
      \<and> (\<forall>e \<in> set (or_else props []). \<forall>u. map_of ob (fst e) = Some u \<longrightarrow> conforms (snd e) u)
      \<and> (ap = Some False \<longrightarrow> set (keys ob) \<subseteq> set (keys (or_else props [])))"
    unfolding conforms.simps by (simp add: v)
  show ?thesis unfolding lhs rhs req ps extra by (rule refl)
qed

lemma validate_iff_conforms:
  "no_inherited v \<Longrightarrow> contract_names_ok c \<Longrightarrow>
     validateValueAgainstContract v c path = [] \<longleftrightarrow> conforms c v"
proof (induction v c path rule: validateValueAgainstContract.induct)
  case (1 v k dsc props req its ap path)
  show ?case
  proof (cases k)
    case KArray
    show ?thesis
    proof (cases v)
      case (JArr vs)
      show ?thesis
      proof (cases its)
        case None
        then show ?thesis
          by (simp add: validateValueAgainstContract.simps conforms.simps KArray JArr)
      next
        case (Some c)
        have IH: "validateValueAgainstContract (snd x) c (path @ ''['' @ dec_nat (fst x) @ '']'') = []
            \<longleftrightarrow> conforms c (snd x)" if "x \<in> set (List.enumerate 0 vs)" for x
        proof -
          have x: "snd x \<in> set vs" using that by (rule snd_enumerate)
          obtain i item where ii: "x = (i, item)" by (cases x)
          have "no_inherited (snd x)" "contract_names_ok c"
            using "1.prems" x JArr Some by (auto simp: list_all_iff)
          then show ?thesis
            using "1.IH"(1) [OF KArray JArr Some that ii [symmetric]] ii by simp
        qed
        then show ?thesis
          using enumerate_all [of 0 vs "conforms c"]
          by (simp add: validateValueAgainstContract.simps conforms.simps KArray JArr Some split_beta)
      qed
    qed (simp_all add: validateValueAgainstContract.simps conforms.simps KArray)
  next
    case KObject
    show ?thesis
    proof (cases v)
      case (JObj ob)
      show ?thesis unfolding KObject
      proof (rule validate_object_Nil [OF JObj "1.prems"(1)])
        show "contract_names_ok (Contract KObject dsc props req its ap)"
          using "1.prems"(2) by (simp add: KObject)
        fix e u assume e: "e \<in> set (or_else props [])" "map_of ob (fst e) = Some u"
        then have n: "fst e \<notin> set proto_keys" "contract_names_ok (snd e)"
          using names_ok_property [OF "1.prems"(2)] by auto
        moreover have "no_inherited u" "js_prop v (fst e) = Some u"
          using no_inherited_prop [of ob "fst e"] "1.prems"(1) n(1) e(2) JObj by auto
        ultimately show "validateValueAgainstContract u (snd e) (contractPath path (fst e)) = [] \<longleftrightarrow> conforms (snd e) u"
          using e(1) by (intro "1.IH"(2) [OF KObject]) (auto simp: JObj is_plain_object_def)
      qed
    qed (use "1.prems" in \<open>simp_all add: validateValueAgainstContract.simps conforms.simps KObject is_plain_object_def\<close>)
  qed (simp_all add: validateValueAgainstContract.simps conforms.simps split: jv.splits)
qed

end
