(* ===== verification/DocRuntime.thy ===== *)
theory DocRuntime
  imports DocContracts
begin

text \<open>
  The module runtime: execute/types.ts and execute/moduleRuntime.ts under
  packages/aionis-doc/src.  The body of the \<open>for\<close> loop is \<open>execute_step\<close>; a handler is a
  function of its input and context that may throw, and so may the loop (\<open>Inl\<close> is the
  rejected promise).  Handlers are not under src/ in general, so the registry that holds them
  is an argument; a handler does not change the maps it is passed.  The clock is an argument.
\<close>

section \<open>Types\<close>

datatype node_status = NodeSuccess | NodeFailed | NodeSkipped

record node_result =
  nr_execution_id :: string
  nr_module :: "string option"
  nr_tool :: "string option"
  nr_agent :: "string option"
  nr_status :: node_status
  nr_input_ref :: "string option"
  nr_output_ref :: "string option"
  nr_output :: "jv option"
  nr_artifacts :: "jv list option"
  nr_evidence :: "jv list option"
  nr_error :: "string option"

record produced_record =
  pr_execution_id :: string
  pr_module :: "string option"
  pr_value :: jv

datatype capability =
    DirectExecution | DeterministicReplay | StatePersistence | MemoryPublish
  | HandoffRecover | ModuleRegistry | EvidenceCapture

type_synonym capabilities = "capability \<Rightarrow> bool"

record module_context =
  mc_plan :: execution_plan
  mc_step :: plan_step
  mc_outputs :: jobj
  mc_runtime_id :: string

record module_manifest =
  mm_module :: string
  mm_version :: string
  mm_title :: "string option"
  mm_description :: "string option"
  mm_deterministic :: "bool option"
  mm_required_capabilities :: "capability list option"
  mm_input_contract :: "contract option"
  mm_output_contract :: "contract option"
  mm_artifact_contract :: "contract option"
  mm_evidence_contract :: "contract option"

type_synonym handler = "jv \<Rightarrow> module_context \<Rightarrow> string + jv"

record module_definition =
  md_manifest :: module_manifest
  md_handler :: handler

record execution_result =
  xr_version :: string
  xr_runtime_id :: string
  xr_executed_at :: string
  xr_plan_version :: string
  xr_doc_id :: "string option"
  xr_success :: bool
  xr_outputs :: jobj
  xr_artifacts :: "produced_record list"
  xr_evidence :: "produced_record list"
  xr_node_results :: "node_result list"
  xr_expected_outputs :: "string list"
  xr_warnings :: "string list"
  xr_errors :: "string list"
  xr_diagnostics :: "diagnostic list"

section \<open>Inputs and dependencies\<close>

fun runtimePathValue :: "jv option \<Rightarrow> string list \<Rightarrow> jv option" where
  "runtimePathValue v [] = v"
| "runtimePathValue v (seg # path) =
     (case v of
        Some w \<Rightarrow> if is_plain_object w then runtimePathValue (js_prop w seg) path else None
      | None \<Rightarrow> None)"

definition resolveExecutionInput :: "execution_plan \<Rightarrow> jobj \<Rightarrow> plan_step \<Rightarrow> jv" where
  "resolveExecutionInput plan outputs step =
     (case ps_input step of
        Some i \<Rightarrow> JObj i
      | None \<Rightarrow>
         if \<not> truthy (ps_input_ref step) then JObj []
         else
           (let ref = the (ps_input_ref step); merged = JObj (pc_merged (xp_context plan))
            in if ref = ''ctx'' then merged
               else if js_starts_with ref ''ctx.'' then
                 or_else (runtimePathValue (Some merged) (js_split (CHR ''.'') (drop 4 ref))) JNull
               else if obj_in ref outputs then or_else (obj_get outputs ref) JNull
               else
                 (case js_split (CHR ''.'') ref of
                    rootRef # r0 # r1 # rest \<Rightarrow>
                      if (rootRef = ''run'' \<or> rootRef = ''out'') \<and> obj_in (rootRef @ ''.'' @ r0) outputs
                      then or_else (runtimePathValue (obj_get outputs (rootRef @ ''.'' @ r0)) (r1 # rest)) JNull
                      else JNull
                  | _ \<Rightarrow> JNull)))"

text \<open>The first dependency without an output; the caller tests it for truth, so an empty
  name does not block.\<close>

definition missingDependency :: "plan_step \<Rightarrow> jobj \<Rightarrow> string option" where
  "missingDependency step outputs = find (\<lambda>d. \<not> obj_in d outputs) (ps_depends_on step)"

definition missingModuleCapabilities :: "module_manifest \<Rightarrow> capabilities \<Rightarrow> capability list" where
  "missingModuleCapabilities m caps =
     filter (\<lambda>c. \<not> caps c) (or_else (mm_required_capabilities m) [])"

definition isModuleOutcome :: "jv \<Rightarrow> bool" where
  "isModuleOutcome v \<longleftrightarrow>
     is_plain_object v \<and> js_prop v ''kind'' = Some (JStr ''module_result'') \<and> js_prop v ''output'' \<noteq> None"

definition createExecutionRuntimeCapabilities :: "(capability \<Rightarrow> bool option) \<Rightarrow> capabilities" where
  "createExecutionRuntimeCapabilities overrides c =
     or_else (overrides c) (c = DirectExecution \<or> c = ModuleRegistry)"

fun capability_name :: "capability \<Rightarrow> string" where
  "capability_name DirectExecution = ''direct_execution''"
| "capability_name DeterministicReplay = ''deterministic_replay''"
| "capability_name StatePersistence = ''state_persistence''"
| "capability_name MemoryPublish = ''memory_publish''"
| "capability_name HandoffRecover = ''handoff_recover''"
| "capability_name ModuleRegistry = ''module_registry''"
| "capability_name EvidenceCapture = ''evidence_capture''"

section \<open>The registry\<close>

text \<open>The map is built from the list of pairs; \<open>manifest_ok\<close> is the schema of contracts.ts.\<close>

type_synonym registry = "(string, module_definition) js_map"

definition StaticModuleRegistry ::
  "(module_manifest \<Rightarrow> bool) \<Rightarrow> module_definition list \<Rightarrow> string + registry" where
  "StaticModuleRegistry manifest_ok modules =
     and_then
       (traverse (\<lambda>d. if manifest_ok (md_manifest d) then Inr (mm_module (md_manifest d), d)
                      else Inl ''ZodError'') modules)
       (\<lambda>pairs. Inr (foldl (\<lambda>m e. map_set (fst e) (snd e) m) [] pairs))"

definition registry_listManifests :: "registry \<Rightarrow> module_manifest list" where
  "registry_listManifests r = map (\<lambda>e. md_manifest (snd e)) r"

section \<open>One step\<close>

record runtime_state =
  rs_outputs :: jobj
  rs_artifacts :: "produced_record list"
  rs_evidence :: "produced_record list"
  rs_nodeResults :: "node_result list"
  rs_errors :: "string list"

definition failed_node :: "plan_step \<Rightarrow> string \<Rightarrow> node_result" where
  "failed_node step msg =
     \<lparr>nr_execution_id = ps_execution_id step, nr_module = ps_module step, nr_tool = ps_tool step,
      nr_agent = ps_agent step, nr_status = NodeFailed, nr_input_ref = ps_input_ref step,
      nr_output_ref = ps_output_ref step, nr_output = None, nr_artifacts = None,
      nr_evidence = None, nr_error = Some msg\<rparr>"

definition fail_step :: "runtime_state \<Rightarrow> plan_step \<Rightarrow> string \<Rightarrow> string + runtime_state" where
  "fail_step st step msg =
     Inr (st\<lparr>rs_nodeResults := rs_nodeResults st @ [failed_node step msg],
             rs_errors := rs_errors st @ [msg]\<rparr>)"

definition contract_failed :: "string \<Rightarrow> string \<Rightarrow> string list \<Rightarrow> string" where
  "contract_failed what m errs =
     what @ '' contract validation failed for module '' @ quoted m @ '': '' @ js_join '' '' errs"

text \<open>\<open>None\<close>: there is no contract to check.\<close>

definition check_contract :: "contract option \<Rightarrow> jv \<Rightarrow> string list" where
  "check_contract c v =
     (case c of Some c \<Rightarrow> validateValueAgainstContract v c ''$'' | None \<Rightarrow> [])"

text \<open>\<^verbatim>\<open>field ?? []\<close>, which the code then maps over; mapping over anything but an array throws.\<close>

definition produced_list :: "jv option \<Rightarrow> string + jv list" where
  "produced_list v =
     (case v of
        None \<Rightarrow> Inr [] | Some JNull \<Rightarrow> Inr [] | Some (JArr vs) \<Rightarrow> Inr vs | _ \<Rightarrow> Inl ''TypeError'')"

definition check_produced :: "contract option \<Rightarrow> string \<Rightarrow> jv option \<Rightarrow> string + string list" where
  "check_produced c what v =
     (case c of
        Some c \<Rightarrow>
          and_then (produced_list v) (\<lambda>vs.
            Inr (concat (map (\<lambda>(i, v). validateValueAgainstContract v c (what @ ''['' @ dec_nat i @ '']''))
                   (List.enumerate 0 vs))))
      | None \<Rightarrow> Inr [])"

record module_outcome =
  mo_output :: jv
  mo_artifacts :: "jv option"
  mo_evidence :: "jv option"

definition normalize_outcome :: "jv \<Rightarrow> module_outcome" where
  "normalize_outcome rawResult =
     (if isModuleOutcome rawResult then
        \<lparr>mo_output = the (js_prop rawResult ''output''), mo_artifacts = js_prop rawResult ''artifacts'',
         mo_evidence = js_prop rawResult ''evidence''\<rparr>
      else \<lparr>mo_output = rawResult, mo_artifacts = Some (JArr []), mo_evidence = Some (JArr [])\<rparr>)"

definition produced_by :: "plan_step \<Rightarrow> jv list \<Rightarrow> produced_record list" where
  "produced_by step vs =
     map (\<lambda>v. \<lparr>pr_execution_id = ps_execution_id step, pr_module = ps_module step, pr_value = v\<rparr>) vs"

definition succeed_step ::
  "runtime_state \<Rightarrow> plan_step \<Rightarrow> jv \<Rightarrow> jv list \<Rightarrow> jv list \<Rightarrow> runtime_state" where
  "succeed_step st step out arts evs =
     \<lparr>rs_outputs =
        (if truthy (ps_output_ref step)
         then obj_assign (the (ps_output_ref step)) out (rs_outputs st) else rs_outputs st),
      rs_artifacts = rs_artifacts st @ produced_by step arts,
      rs_evidence = rs_evidence st @ produced_by step evs,
      rs_nodeResults = rs_nodeResults st @
        [\<lparr>nr_execution_id = ps_execution_id step, nr_module = ps_module step, nr_tool = ps_tool step,
          nr_agent = ps_agent step, nr_status = NodeSuccess, nr_input_ref = ps_input_ref step,
          nr_output_ref = ps_output_ref step, nr_output = Some out, nr_artifacts = Some arts,
          nr_evidence = Some evs, nr_error = None\<rparr>],
      rs_errors = rs_errors st\<rparr>"

text \<open>From the handler result on.\<close>

definition finish_step ::
  "module_manifest \<Rightarrow> string \<Rightarrow> runtime_state \<Rightarrow> plan_step \<Rightarrow> jv \<Rightarrow> string + runtime_state" where
  "finish_step mf m st step rawResult =
     (let o1 = normalize_outcome rawResult; out = mo_output o1
      in if check_contract (mm_output_contract mf) out \<noteq> [] then
           fail_step st step
             (contract_failed ''Output'' m (check_contract (mm_output_contract mf) out))
         else
           and_then (check_produced (mm_artifact_contract mf) ''artifacts'' (mo_artifacts o1)) (\<lambda>aerrs.
             if aerrs \<noteq> [] then fail_step st step (contract_failed ''Artifact'' m aerrs)
             else
               and_then (check_produced (mm_evidence_contract mf) ''evidence'' (mo_evidence o1)) (\<lambda>eerrs.
                 if eerrs \<noteq> [] then fail_step st step (contract_failed ''Evidence'' m eerrs)
                 else
                   and_then (produced_list (mo_artifacts o1)) (\<lambda>arts.
                     and_then (produced_list (mo_evidence o1)) (\<lambda>evs.
                       Inr (succeed_step st step out arts evs))))))"

record runtime =
  rt_id :: string
  rt_registry :: registry
  rt_capabilities :: capabilities

definition execute_step ::
  "runtime \<Rightarrow> execution_plan \<Rightarrow> runtime_state \<Rightarrow> plan_step \<Rightarrow> string + runtime_state" where
  "execute_step rt plan st step =
     (let unmet = missingDependency step (rs_outputs st)
      in if truthy unmet then
           fail_step st step
             (''Execution '' @ quoted (ps_execution_id step) @ '' is blocked on missing dependency ''
               @ quoted (the unmet) @ ''.'')
         else if \<not> truthy (ps_module step) then
           fail_step st step
             (''Execution '' @ quoted (ps_execution_id step) @ '' has no module and cannot run on runtime ''
               @ quoted (rt_id rt) @ ''.'')
         else
           (let m = the (ps_module step)
            in case map_get (rt_registry rt) m of
                 None \<Rightarrow>
                   fail_step st step
                     (''Module '' @ quoted m @ '' is not supported by runtime '' @ quoted (rt_id rt) @ ''.'')
               | Some def \<Rightarrow>
                   (let mf = md_manifest def;
                        missing = missingModuleCapabilities mf (rt_capabilities rt);
                        input = resolveExecutionInput plan (rs_outputs st) step
                    in if missing \<noteq> [] then
                         fail_step st step
                           (''Module '' @ quoted m @ '' requires unsupported runtime capabilities: ''
                             @ js_join '', '' (map capability_name missing) @ ''.'')
                       else if check_contract (mm_input_contract mf) input \<noteq> [] then
                         fail_step st step
                           (contract_failed ''Input'' m (check_contract (mm_input_contract mf) input))
                       else
                         and_then
                           (md_handler def input
                             \<lparr>mc_plan = plan, mc_step = step, mc_outputs = rs_outputs st,
                              mc_runtime_id = rt_id rt\<rparr>)
                           (finish_step mf m st step))))"

definition empty_runtime_state :: runtime_state where
  "empty_runtime_state =
     \<lparr>rs_outputs = [], rs_artifacts = [], rs_evidence = [], rs_nodeResults = [], rs_errors = []\<rparr>"

definition AIONIS_DOC_EXECUTION_RESULT_VERSION :: string where
  "AIONIS_DOC_EXECUTION_RESULT_VERSION = ''aionis_doc_execution_result_v1''"

definition execute :: "runtime \<Rightarrow> string \<Rightarrow> execution_plan \<Rightarrow> string + execution_result" where
  "execute rt now plan =
     and_then (fold_result (execute_step rt plan) empty_runtime_state (xp_executions plan)) (\<lambda>st.
       Inr \<lparr>xr_version = AIONIS_DOC_EXECUTION_RESULT_VERSION, xr_runtime_id = rt_id rt,
            xr_executed_at = now, xr_plan_version = xp_plan_version plan,
            xr_doc_id = map_option pd_id (xp_doc plan),
            xr_success = (rs_errors st = []), xr_outputs = rs_outputs st,
            xr_artifacts = rs_artifacts st, xr_evidence = rs_evidence st,
            xr_node_results = rs_nodeResults st,
            xr_expected_outputs = xp_expected_outputs plan, xr_warnings = [],
            xr_errors = rs_errors st, xr_diagnostics = xp_diagnostics plan\<rparr>)"

end
