(* ===== verification/DocRuntimeSafety.thy ===== *)
theory DocRuntimeSafety
  imports DocRuntime
begin

text \<open>
  What a run of the module runtime guarantees.  \<open>runtime_inv\<close> holds after every step: there is
  one node result per step, in order; the outputs, artifacts, evidence and errors are those of
  the node results; and a successful node had its dependencies produced by earlier successful
  nodes, its module registered with the capabilities it needs, and input and output
  conforming to the module's contracts.
\<close>

section \<open>The state a list of node results stands for\<close>

definition add_output :: "jobj \<Rightarrow> node_result \<Rightarrow> jobj" where
  "add_output ob n =
     (if nr_status n = NodeSuccess \<and> truthy (nr_output_ref n)
      then obj_assign (the (nr_output_ref n)) (the (nr_output n)) ob else ob)"

definition outputs_of :: "node_result list \<Rightarrow> jobj" where
  "outputs_of ns = foldl add_output [] ns"

definition records_of :: "(node_result \<Rightarrow> jv list option) \<Rightarrow> node_result list \<Rightarrow> produced_record list" where
  "records_of f ns =
     concat (map (\<lambda>n. map (\<lambda>v. \<lparr>pr_execution_id = nr_execution_id n, pr_module = nr_module n, pr_value = v\<rparr>)
                        (or_else (f n) [])) ns)"

definition errors_of :: "node_result list \<Rightarrow> string list" where
  "errors_of ns = map (\<lambda>n. the (nr_error n)) (filter (\<lambda>n. nr_status n = NodeFailed) ns)"

definition node_for :: "plan_step \<Rightarrow> node_result \<Rightarrow> bool" where
  "node_for step n \<longleftrightarrow>
     nr_execution_id n = ps_execution_id step \<and> nr_module n = ps_module step
     \<and> nr_output_ref n = ps_output_ref step \<and> nr_status n \<noteq> NodeSkipped"

text \<open>
  The handler of the module, called with the input and the state of the run, returned
  \<open>ret\<close>; what the node reports of it has passed the contracts of the module.
\<close>

definition handled ::
  "runtime \<Rightarrow> execution_plan \<Rightarrow> jobj \<Rightarrow> plan_step \<Rightarrow> module_definition \<Rightarrow> jv \<Rightarrow> node_result \<Rightarrow> bool" where
  "handled rt plan outs step def ret n \<longleftrightarrow>
     md_handler def (resolveExecutionInput plan outs step)
       \<lparr>mc_plan = plan, mc_step = step, mc_outputs = outs, mc_runtime_id = rt_id rt\<rparr> = Inr ret
     \<and> nr_output n = Some (mo_output (normalize_outcome ret))
     \<and> check_contract (mm_output_contract (md_manifest def)) (mo_output (normalize_outcome ret)) = []
     \<and> check_produced (mm_artifact_contract (md_manifest def)) ''artifacts'' (mo_artifacts (normalize_outcome ret)) = Inr []
     \<and> check_produced (mm_evidence_contract (md_manifest def)) ''evidence'' (mo_evidence (normalize_outcome ret)) = Inr []
     \<and> (\<exists>arts evs. produced_list (mo_artifacts (normalize_outcome ret)) = Inr arts \<and> nr_artifacts n = Some arts
          \<and> produced_list (mo_evidence (normalize_outcome ret)) = Inr evs \<and> nr_evidence n = Some evs)"

definition justified ::
  "runtime \<Rightarrow> execution_plan \<Rightarrow> node_result list \<Rightarrow> plan_step \<Rightarrow> node_result \<Rightarrow> bool" where
  "justified rt plan prev step n \<longleftrightarrow>
     (nr_status n = NodeSuccess \<longrightarrow>
        \<not> truthy (missingDependency step (outputs_of prev))
        \<and> (\<exists>m def ret. ps_module step = Some m \<and> map_get (rt_registry rt) m = Some def
             \<and> missingModuleCapabilities (md_manifest def) (rt_capabilities rt) = []
             \<and> check_contract (mm_input_contract (md_manifest def))
                 (resolveExecutionInput plan (outputs_of prev) step) = []
             \<and> handled rt plan (outputs_of prev) step def ret n))"

definition runtime_inv :: "runtime \<Rightarrow> execution_plan \<Rightarrow> plan_step list \<Rightarrow> runtime_state \<Rightarrow> bool" where
  "runtime_inv rt plan steps st \<longleftrightarrow>
     (let ns = rs_nodeResults st
      in list_all2 node_for steps ns
         \<and> rs_outputs st = outputs_of ns
         \<and> rs_artifacts st = records_of nr_artifacts ns
         \<and> rs_evidence st = records_of nr_evidence ns
         \<and> rs_errors st = errors_of ns
         \<and> (\<forall>j < length ns. justified rt plan (take j ns) (steps ! j) (ns ! j)))"

lemma outputs_of_snoc: "outputs_of (ns @ [n]) = add_output (outputs_of ns) n"
  by (simp add: outputs_of_def)

lemma outputs_of_keys:
  "k \<in> set (keys (outputs_of ns)) \<Longrightarrow> \<exists>n \<in> set ns. nr_status n = NodeSuccess \<and> nr_output_ref n = Some k"
proof (induction ns rule: rev_induct)
  case Nil
  then show ?case by (simp add: outputs_of_def)
next
  case (snoc n ns)
  then show ?case
    by (auto simp: outputs_of_snoc add_output_def obj_assign_def truthy_iff split: if_splits)
qed

section \<open>Preservation\<close>

lemma execute_step_cases:
  assumes "execute_step rt plan st step = Inr st'"
  obtains (failed) msg where "fail_step st step msg = Inr st'"
  | (succeeded) m def ret out arts evs where
      "st' = succeed_step st step out arts evs"
      "\<not> truthy (missingDependency step (rs_outputs st))"
      "ps_module step = Some m" "map_get (rt_registry rt) m = Some def"
      "missingModuleCapabilities (md_manifest def) (rt_capabilities rt) = []"
      "check_contract (mm_input_contract (md_manifest def)) (resolveExecutionInput plan (rs_outputs st) step) = []"
      "\<And>n. nr_output n = Some out \<Longrightarrow> nr_artifacts n = Some arts \<Longrightarrow> nr_evidence n = Some evs
         \<Longrightarrow> handled rt plan (rs_outputs st) step def ret n"
proof -
  note fd = assms [unfolded execute_step_def Let_def]
  consider "\<exists>msg. fail_step st step msg = Inr st'"
    | def r where "\<not> truthy (missingDependency step (rs_outputs st))" "truthy (ps_module step)"
      "map_get (rt_registry rt) (the (ps_module step)) = Some def"
      "missingModuleCapabilities (md_manifest def) (rt_capabilities rt) = []"
      "check_contract (mm_input_contract (md_manifest def)) (resolveExecutionInput plan (rs_outputs st) step) = []"
      "md_handler def (resolveExecutionInput plan (rs_outputs st) step)
         \<lparr>mc_plan = plan, mc_step = step, mc_outputs = rs_outputs st, mc_runtime_id = rt_id rt\<rparr> = Inr r"
      "finish_step (md_manifest def) (the (ps_module step)) st step r = Inr st'"
    using fd by (auto split: if_splits option.splits)
  then show thesis
  proof cases
    case 1
    then show thesis using failed by blast
  next
    case 2
    then consider "\<exists>msg. fail_step st step msg = Inr st'"
      | arts evs where "st' = succeed_step st step (mo_output (normalize_outcome r)) arts evs"
        "check_contract (mm_output_contract (md_manifest def)) (mo_output (normalize_outcome r)) = []"
        "check_produced (mm_artifact_contract (md_manifest def)) ''artifacts'' (mo_artifacts (normalize_outcome r)) = Inr []"
        "check_produced (mm_evidence_contract (md_manifest def)) ''evidence'' (mo_evidence (normalize_outcome r)) = Inr []"
        "produced_list (mo_artifacts (normalize_outcome r)) = Inr arts"
        "produced_list (mo_evidence (normalize_outcome r)) = Inr evs"
      by (auto simp: finish_step_def Let_def split: if_splits)
    then show thesis
    proof cases
      case 1
      then show thesis using failed by blast
    next
      case fin: 2
      have "handled rt plan (rs_outputs st) step def r n"
        if "nr_output n = Some (mo_output (normalize_outcome r))" "nr_artifacts n = Some arts" "nr_evidence n = Some evs" for n
        using that fin 2(6) by (simp add: handled_def)
      note h = this
      obtain m where m: "ps_module step = Some m" using 2(2) by (auto simp: truthy_iff)
      have reg: "map_get (rt_registry rt) m = Some def" using 2(3) by (simp add: m)
      show thesis by (rule succeeded [OF fin(1) 2(1) m reg 2(4,5)]) (rule h)
    qed
  qed
qed

lemma snoc_inv:
  assumes inv: "runtime_inv rt plan steps st"
    and n: "node_for step n" "justified rt plan (rs_nodeResults st) step n"
    and st': "rs_nodeResults st' = rs_nodeResults st @ [n]"
      "rs_outputs st' = add_output (rs_outputs st) n"
      "rs_artifacts st' = rs_artifacts st @ records_of nr_artifacts [n]"
      "rs_evidence st' = rs_evidence st @ records_of nr_evidence [n]"
      "rs_errors st' = rs_errors st @ errors_of [n]"
  shows "runtime_inv rt plan (steps @ [step]) st'"
proof -
  let ?ns = "rs_nodeResults st"
  have l: "list_all2 node_for steps ?ns" using inv by (simp add: runtime_inv_def Let_def)
  then have len: "length steps = length ?ns" by (rule list_all2_lengthD)
  have "justified rt plan (take j (?ns @ [n])) ((steps @ [step]) ! j) ((?ns @ [n]) ! j)"
    if "j < length (?ns @ [n])" for j
  proof (cases "j < length ?ns")
    case True
    then show ?thesis using inv len by (simp add: runtime_inv_def Let_def nth_append)
  next
    case False
    then have "j = length ?ns" using that by simp
    then show ?thesis using n len by (simp add: nth_append)
  qed
  then show ?thesis
    using inv l n st' len
    by (simp add: runtime_inv_def Let_def outputs_of_snoc records_of_def errors_of_def list_all2_appendI)
qed

lemma execute_step_inv:
  assumes "runtime_inv rt plan steps st" "execute_step rt plan st step = Inr st'"
  shows "runtime_inv rt plan (steps @ [step]) st'"
  using assms(2)
proof (cases rule: execute_step_cases)
  case (failed msg)
  then show ?thesis
    by (intro snoc_inv [OF assms(1), of _ "failed_node step msg"])
      (auto simp: fail_step_def failed_node_def node_for_def justified_def add_output_def records_of_def
        errors_of_def or_else_def)
next
  case (succeeded m def ret out arts evs)
  let ?n = "last (rs_nodeResults st')"
  have n: "nr_output ?n = Some out" "nr_artifacts ?n = Some arts" "nr_evidence ?n = Some evs"
    by (simp_all add: succeeded(1) succeed_step_def)
  have "rs_outputs st = outputs_of (rs_nodeResults st)"
    using assms(1) by (simp add: runtime_inv_def Let_def)
  then have "justified rt plan (rs_nodeResults st) step ?n"
    using succeeded(2-6) succeeded(7) [OF n] unfolding justified_def by (intro impI conjI exI) simp_all
  then show ?thesis
    using succeeded(1)
    by (intro snoc_inv [OF assms(1), of _ "last (rs_nodeResults st')"])
      (auto simp: succeed_step_def node_for_def add_output_def records_of_def
        errors_of_def or_else_def produced_by_def)
qed

lemma execute_inv:
  assumes "execute rt now plan = Inr res"
  shows "runtime_inv rt plan (xp_executions plan)
    \<lparr>rs_outputs = xr_outputs res, rs_artifacts = xr_artifacts res, rs_evidence = xr_evidence res,
     rs_nodeResults = xr_node_results res, rs_errors = xr_errors res\<rparr>"
    and "xr_success res \<longleftrightarrow> xr_errors res = []"
proof -
  from assms obtain st where st: "fold_result (execute_step rt plan) empty_runtime_state (xp_executions plan) = Inr st"
    and res: "xr_outputs res = rs_outputs st" "xr_artifacts res = rs_artifacts st"
      "xr_evidence res = rs_evidence st" "xr_node_results res = rs_nodeResults st"
      "xr_errors res = rs_errors st" "xr_success res \<longleftrightarrow> rs_errors st = []"
    by (auto simp: execute_def)
  from st have "runtime_inv rt plan (xp_executions plan) st"
  proof (rule fold_result_invariant)
    show "runtime_inv rt plan [] empty_runtime_state"
      by (simp add: runtime_inv_def empty_runtime_state_def outputs_of_def records_of_def errors_of_def)
  next
    fix ys y zs u v
    assume "runtime_inv rt plan ys u" "execute_step rt plan u y = Inr v"
    then show "runtime_inv rt plan (ys @ [y]) v" by (rule execute_step_inv)
  qed
  then show "runtime_inv rt plan (xp_executions plan)
    \<lparr>rs_outputs = xr_outputs res, rs_artifacts = xr_artifacts res, rs_evidence = xr_evidence res,
     rs_nodeResults = xr_node_results res, rs_errors = xr_errors res\<rparr>"
    by (simp add: res runtime_inv_def)
  show "xr_success res \<longleftrightarrow> xr_errors res = []" by (simp add: res)
qed

section \<open>Consequences\<close>

lemma execute_nodes:
  assumes "execute rt now plan = Inr res"
  shows "list_all2 node_for (xp_executions plan) (xr_node_results res)"
    and "xr_outputs res = outputs_of (xr_node_results res)"
    and "xr_errors res = errors_of (xr_node_results res)"
    and "xr_artifacts res = records_of nr_artifacts (xr_node_results res)"
    and "xr_evidence res = records_of nr_evidence (xr_node_results res)"
    and "j < length (xr_node_results res) \<Longrightarrow>
      justified rt plan (take j (xr_node_results res)) (xp_executions plan ! j) (xr_node_results res ! j)"
  using execute_inv(1) [OF assms] by (simp_all add: runtime_inv_def Let_def)

lemma success_iff_nodes:
  assumes "execute rt now plan = Inr res"
  shows "xr_success res \<longleftrightarrow> (\<forall>n \<in> set (xr_node_results res). nr_status n = NodeSuccess)"
proof -
  have "nr_status n = NodeSuccess \<or> nr_status n = NodeFailed" if "n \<in> set (xr_node_results res)" for n
    using execute_nodes(1) [OF assms] that
    by (auto simp: list_all2_conv_all_nth in_set_conv_nth node_for_def) (metis node_status.exhaust)
  then show ?thesis
    using execute_inv(2) [OF assms] execute_nodes(3) [OF assms]
    by (fastforce simp: errors_of_def filter_empty_conv)
qed

text \<open>A dependency that did not block is an inherited name or an earlier output.\<close>

lemma missingDependency_None:
  assumes "\<not> truthy (missingDependency step outs)" "[] \<notin> set (ps_depends_on step)"
    and "d \<in> set (ps_depends_on step)"
  shows "obj_in d outs"
proof (rule ccontr)
  assume "\<not> obj_in d outs"
  with assms(3) obtain d' where f: "missingDependency step outs = Some d'"
    unfolding missingDependency_def by (metis find_None_iff2 not_Some_eq)
  then have "d' \<in> set (ps_depends_on step)"
    unfolding missingDependency_def by (auto simp: find_Some_iff)
  with f assms(1,2) show False by auto
qed

lemma success_dependencies:
  assumes ex: "execute rt now plan = Inr res" and j: "j < length (xr_node_results res)"
    and s: "nr_status (xr_node_results res ! j) = NodeSuccess"
    and d: "d \<in> set (ps_depends_on (xp_executions plan ! j))"
      "[] \<notin> set (ps_depends_on (xp_executions plan ! j))" "d \<notin> set proto_keys"
  shows "\<exists>i < j. nr_status (xr_node_results res ! i) = NodeSuccess
    \<and> ps_output_ref (xp_executions plan ! i) = Some d"
proof -
  let ?ns = "xr_node_results res"
  have "\<not> truthy (missingDependency (xp_executions plan ! j) (outputs_of (take j ?ns)))"
    using execute_nodes(6) [OF ex j] s by (simp add: justified_def)
  from missingDependency_None [OF this d(2,1)] d(3)
  have "d \<in> set (keys (outputs_of (take j ?ns)))" by (simp add: obj_in_iff)
  from outputs_of_keys [OF this] obtain n where
    n: "n \<in> set (take j ?ns)" "nr_status n = NodeSuccess" "nr_output_ref n = Some d" by blast
  then obtain i where i: "i < j" "n = ?ns ! i"
    using j by (auto simp: in_set_conv_nth)
  moreover have "node_for (xp_executions plan ! i) (?ns ! i)"
    using execute_nodes(1) [OF ex] i j by (simp add: list_all2_conv_all_nth)
  ultimately show ?thesis using n by (auto simp: node_for_def)
qed

end
