(* ===== verification/DocExecute.thy ===== *)
theory DocExecute
  imports DocRuntimeSafety
begin

text \<open>
  The local runtime and the entry points: execute/localRuntime.ts, execute.ts and the compile
  envelope of contracts.ts under packages/aionis-doc/src.  The schema validators are zod
  objects; the functions that call them take the validator as an argument, which returns the
  value it accepts or throws.
\<close>

section \<open>The demo modules\<close>

definition plain_contract :: "contract_kind \<Rightarrow> contract" where
  "plain_contract k = Contract k None None None None None"

definition object_contract ::
  "(string \<times> contract) list \<Rightarrow> string list option \<Rightarrow> bool \<Rightarrow> contract" where
  "object_contract props req extra = Contract KObject None (Some props) req None (Some extra)"

definition strings_contract :: contract where
  "strings_contract = Contract KArray None None None (Some (plain_contract KString)) None"

definition demo_manifest :: "string \<Rightarrow> string \<Rightarrow> contract \<Rightarrow> contract \<Rightarrow> module_manifest" where
  "demo_manifest nm dsc inp out =
     \<lparr>mm_module = nm, mm_version = ''1.0.0'', mm_title = None, mm_description = Some dsc,
      mm_deterministic = Some True, mm_required_capabilities = Some [DirectExecution],
      mm_input_contract = Some inp, mm_output_contract = Some out,
      mm_artifact_contract = None, mm_evidence_contract = None\<rparr>"

definition input_field :: "jv \<Rightarrow> string \<Rightarrow> jv option" where
  "input_field v k = (if is_plain_object v then js_prop v k else None)"

definition input_strings :: "jv \<Rightarrow> string \<Rightarrow> string list" where
  "input_strings v k = (case input_field v k of Some (JArr vs) \<Rightarrow> strings_of vs | _ \<Rightarrow> [])"

definition demo_hello :: module_definition where
  "demo_hello =
     \<lparr>md_manifest = demo_manifest ''demo.hello.v1'' ''Return a greeting payload from document context.''
        (object_contract [(''objective'', plain_contract KString)] None True)
        (object_contract [(''message'', plain_contract KString)] (Some [''message'']) False),
      md_handler = (\<lambda>inp ctx. Inr (JObj [(''message'',
        (let objective = asString (input_field inp ''objective'')
         in JStr (if truthy objective then ''Hello from Aionis Doc: '' @ the objective
                  else ''Hello from Aionis Doc.'')))]))\<rparr>"

definition research_claims :: module_definition where
  "research_claims =
     \<lparr>md_manifest = demo_manifest ''research.claims.v1'' ''Generate short product claims from context fields.''
        (object_contract [(''product'', plain_contract KString), (''audience'', strings_contract)] None True)
        (object_contract [(''claims'', strings_contract)] (Some [''claims'']) False),
      md_handler = (\<lambda>inp ctx. Inr (
        (let product = or_else (asString (input_field inp ''product'')) ''Aionis'';
             audience = input_strings inp ''audience'';
             audienceText = (if audience \<noteq> [] then js_join '' and '' audience else ''teams'')
         in JObj [(''claims'', JArr
              [JStr (product @ '' helps '' @ audienceText @ '' continue work without rediscovery.''),
               JStr (product @ '' turns executable documents into continuity-aware workflows.'')])])))\<rparr>"

definition copy_hero :: module_definition where
  "copy_hero =
     \<lparr>md_manifest = demo_manifest ''copy.hero.v1'' ''Map a claims array into a single hero line.''
        (object_contract [(''claims'', strings_contract)] None True)
        (object_contract [(''hero'', plain_contract KString)] (Some [''hero'']) False),
      md_handler = (\<lambda>inp ctx. Inr (JObj [(''hero'',
        (case input_strings inp ''claims'' of
           [] \<Rightarrow> JStr ''Portable execution starts with one document.'' | c # _ \<Rightarrow> JStr c))]))\<rparr>"

definition copy_summary :: module_definition where
  "copy_summary =
     \<lparr>md_manifest = demo_manifest ''copy.summary.v1'' ''Map a claims array into a summary paragraph.''
        (object_contract [(''claims'', strings_contract)] None True)
        (object_contract [(''summary'', plain_contract KString)] (Some [''summary'']) False),
      md_handler = (\<lambda>inp ctx. Inr (JObj [(''summary'',
        (let s = js_join '' '' (input_strings inp ''claims'')
         in JStr (if s \<noteq> [] then s else ''Aionis Doc produced an execution summary.'')))]))\<rparr>"

definition LOCAL_DEMO_MODULES :: "module_definition list" where
  "LOCAL_DEMO_MODULES = [demo_hello, research_claims, copy_hero, copy_summary]"

definition createLocalDemoModuleRegistry :: "(module_manifest \<Rightarrow> bool) \<Rightarrow> string + registry" where
  "createLocalDemoModuleRegistry manifest_ok = StaticModuleRegistry manifest_ok LOCAL_DEMO_MODULES"

definition LocalExecutionRuntime :: "(module_manifest \<Rightarrow> bool) \<Rightarrow> string + runtime" where
  "LocalExecutionRuntime manifest_ok =
     and_then (createLocalDemoModuleRegistry manifest_ok) (\<lambda>reg.
       Inr \<lparr>rt_id = ''local_demo_runtime_v1'', rt_registry = reg,
            rt_capabilities = createExecutionRuntimeCapabilities
              (\<lambda>c. Some (createExecutionRuntimeCapabilities
                           (\<lambda>c. if c = DirectExecution \<or> c = ModuleRegistry then Some True else None) c))\<rparr>)"

section \<open>Envelopes and entry points\<close>

record compile_envelope =
  ce_generated_at :: string
  ce_input_path :: string
  ce_selected_artifact :: emit_mode
  ce_diagnostics :: "diagnostic list"
  ce_summary :: compile_summary
  ce_artifacts :: compile_artifacts

definition buildCompileEnvelope ::
  "(compile_envelope \<Rightarrow> string + compile_envelope) \<Rightarrow> string \<Rightarrow> emit_mode \<Rightarrow> compile_result \<Rightarrow>
     string option \<Rightarrow> string \<Rightarrow> string + compile_envelope" where
  "buildCompileEnvelope schema inputPath emit r generatedAt now =
     schema \<lparr>ce_generated_at = or_else generatedAt now, ce_input_path = inputPath,
             ce_selected_artifact = emit, ce_diagnostics = cr_diagnostics r,
             ce_summary = summarizeCompileResult r, ce_artifacts = selectArtifacts r emit\<rparr>"

fun emit_name :: "emit_mode \<Rightarrow> string" where
  "emit_name EmitAll = ''all''"
| "emit_name EmitAst = ''ast''"
| "emit_name EmitIr = ''ir''"
| "emit_name EmitGraph = ''graph''"
| "emit_name EmitPlan = ''plan''"
| "emit_name EmitDiagnostics = ''diagnostics''"

definition planFromEnvelope ::
  "(compile_envelope \<Rightarrow> string + compile_envelope) \<Rightarrow> compile_envelope \<Rightarrow> string + execution_plan" where
  "planFromEnvelope schema v =
     and_then (schema v) (\<lambda>envelope.
       case ca_plan (ce_artifacts envelope) of
         Some p \<Rightarrow> Inr p
       | None \<Rightarrow>
           (case ca_ir (ce_artifacts envelope) of
              None \<Rightarrow> Inl (''Execution requires a plan or IR artifact. Re-run compile-aionis-doc with --emit all, --emit ir, or --emit plan; current selected_artifact is ''
                @ quoted (emit_name (ce_selected_artifact envelope)) @ ''.'')
            | Some ir \<Rightarrow>
                Inr (buildExecutionPlanV1 ir (ca_graph (ce_artifacts envelope))
                       (Some (ce_diagnostics envelope)))))"

definition executeExecutionPlan ::
  "(execution_plan \<Rightarrow> string + execution_plan) \<Rightarrow> runtime \<Rightarrow> string \<Rightarrow> execution_plan \<Rightarrow>
     string + execution_result" where
  "executeExecutionPlan plan_schema rt now v = and_then (plan_schema v) (execute rt now)"

definition compileAndExecuteAionisDoc ::
  "(execution_plan \<Rightarrow> string + execution_plan) \<Rightarrow> runtime \<Rightarrow> string \<Rightarrow> string \<Rightarrow>
     string + execution_result" where
  "compileAndExecuteAionisDoc plan_schema rt now src =
     executeExecutionPlan plan_schema rt now (cr_plan (compileAionisDoc src))"

definition executeCompileEnvelope ::
  "(compile_envelope \<Rightarrow> string + compile_envelope) \<Rightarrow> (execution_plan \<Rightarrow> string + execution_plan) \<Rightarrow>
     runtime \<Rightarrow> string \<Rightarrow> compile_envelope \<Rightarrow> string + execution_result" where
  "executeCompileEnvelope schema plan_schema rt now v =
     and_then (planFromEnvelope schema v) (executeExecutionPlan plan_schema rt now)"

section \<open>Lemmas\<close>

lemmas demo_modules = demo_hello_def research_claims_def copy_hero_def copy_summary_def

lemma validate_strings:
  "validateValueAgainstContract (JArr vs) strings_contract path = [] \<longleftrightarrow> (\<forall>v \<in> set vs. \<exists>s. v = JStr s)"
  using enumerate_all [of 0 vs "\<lambda>v. \<exists>s. v = JStr s"]
  by (auto simp: strings_contract_def plain_contract_def validateValueAgainstContract.simps
      split_beta split: jv.splits) (metis jv.exhaust snd_conv)+

lemma demo_lookup:
  "createLocalDemoModuleRegistry (\<lambda>_. True) = Inr (map (\<lambda>d. (mm_module (md_manifest d), d)) LOCAL_DEMO_MODULES)"
  by (simp add: createLocalDemoModuleRegistry_def StaticModuleRegistry_def LOCAL_DEMO_MODULES_def
      demo_modules demo_manifest_def)

text \<open>What a one-field object needs to satisfy a closed one-field contract.\<close>

lemma validate_single:
  assumes "k \<notin> set proto_keys" "validateValueAgainstContract v c (contractPath path k) = []"
  shows "validateValueAgainstContract (JObj [(k, v)]) (object_contract [(k, c)] (Some [k]) False) path = []"
  using assms
  by (simp add: object_contract_def validateValueAgainstContract.simps is_plain_object_def js_prop_def
      obj_get_def or_else_def own_keys_def dedupe_def)

lemma validate_string: "validateValueAgainstContract (JStr s) (plain_contract KString) path = []"
  by (simp add: plain_contract_def validateValueAgainstContract.simps)

lemma demo_output_ok:
  assumes "def \<in> set LOCAL_DEMO_MODULES"
  shows "\<exists>out. md_handler def inp ctx = Inr out
    \<and> check_contract (mm_output_contract (md_manifest def)) out = [] \<and> \<not> isModuleOutcome out"
proof -
  have k: "''message'' \<notin> set proto_keys" "''claims'' \<notin> set proto_keys" "''hero'' \<notin> set proto_keys"
    "''summary'' \<notin> set proto_keys" "''kind'' \<notin> set proto_keys"
    by (simp_all add: proto_keys_def)
  show ?thesis
    using assms k
    by (auto simp: LOCAL_DEMO_MODULES_def demo_modules demo_manifest_def check_contract_def Let_def
        isModuleOutcome_def js_prop_def obj_get_def
        intro!: validate_single validate_string validate_strings [THEN iffD2] split: list.splits)
qed

lemma plan_of_ir_envelope:
  assumes "\<And>e. schema e = Inr e"
    and "buildCompileEnvelope schema path emit r gat now = Inr env"
    and "r = compileAionisDoc src"
  shows "planFromEnvelope schema env =
    (case emit of
       EmitAll \<Rightarrow> Inr (cr_plan r)
     | EmitPlan \<Rightarrow> Inr (cr_plan r)
     | EmitIr \<Rightarrow> Inr (cr_plan r\<lparr>xp_graph := None\<rparr>)
     | _ \<Rightarrow> Inl (''Execution requires a plan or IR artifact. Re-run compile-aionis-doc with --emit all, --emit ir, or --emit plan; current selected_artifact is ''
                @ quoted (emit_name emit) @ ''.''))"
proof -
  have env: "env = \<lparr>ce_generated_at = or_else gat now, ce_input_path = path,
      ce_selected_artifact = emit, ce_diagnostics = cr_diagnostics r,
      ce_summary = summarizeCompileResult r, ce_artifacts = selectArtifacts r emit\<rparr>"
    using assms(1,2) by (simp add: buildCompileEnvelope_def)
  have plan: "cr_plan r = buildExecutionPlanV1 (cr_ir r) (cr_graph r) (Some (cr_diagnostics r))"
    using assms(3) by (simp add: compile_fields)
  show ?thesis
    by (cases emit) (simp_all add: env planFromEnvelope_def assms(1) selectArtifacts_def plan
        buildExecutionPlanV1_def Let_def)
qed

end
