(* ===== verification/DocCompileRoundtrip.thy ===== *)
theory DocCompileRoundtrip
  imports DocDirectives DocExecute
begin

text \<open>
  The document round trip carried through the compiler: the IR of a printed document holds
  exactly the payloads that were printed, in order.
\<close>

lemma directives_of_view:
  assumes "map directive_view ns = map Some ds"
  shows "map fst (directives nm ns) = map snd (filter (\<lambda>d. fst d = nm) ds)"
  using assms
proof (induction ns arbitrary: ds)
  case Nil
  then show ?case by simp
next
  case (Cons n ns)
  then obtain d ds' where ds: "ds = d # ds'" "directive_view n = Some d" "map directive_view ns = map Some ds'"
    by (cases ds) auto
  obtain k ob where d: "d = (k, ob)" by (cases d)
  from ds(2) d obtain rw lc where n: "n = DirectiveNode k (JObj ob) rw lc []"
    by (auto simp: directive_view_def split: ast_node.splits jv.splits list.splits)
  show ?case using Cons.IH [OF ds(3)] by (simp add: n ds(1) d)
qed

lemma map_fst_case_prod:
  assumes "\<And>p l. f (g p l) = p"
  shows "map f (map (case_prod g) ds) = map fst ds"
  using assms by (induction ds) auto

lemma compile_print:
  assumes "ds \<noteq> []" "\<forall>d \<in> set ds. directive_ok d"
  defines "ir \<equiv> cr_ir (compileAionisDoc (print_document ds))"
  defines "payloads \<equiv> \<lambda>nm. map snd (filter (\<lambda>d. fst d = nm) ds)"
  shows "map ex_data (ir_executions ir) = payloads ''execute''"
    "map cx_data (ir_context ir) = payloads ''context''"
    "map re_data (ir_replay ir) = payloads ''replay''"
    "map me_data (ir_memory ir) = payloads ''memory''"
    "map_option dm_data (ir_doc ir) = (case payloads ''doc'' of [] \<Rightarrow> None | p # _ \<Rightarrow> Some p)"
    "map pl_data (ir_plans ir) = payloads ''plan''"
    "map de_data (ir_decisions ir) = payloads ''decision''"
    "map ev_data (ir_evidence ir) = payloads ''evidence''"
    "map st_data (ir_state ir) = payloads ''state''"
proof -
  let ?ast = "parseAst (scanSource (print_document ds))"
  have view: "map directive_view (children ?ast) = map Some ds"
    by (rule parseAst_print(2) [OF assms(1,2)])
  have dv: "map fst (directives nm (children ?ast)) = payloads nm" for nm
    unfolding payloads_def by (rule directives_of_view [OF view])
  have ir: "ir = normalizeAstToIr ?ast" by (simp add: ir_def compile_fields)
  have spec: "ir_spec (children ?ast) ir" unfolding ir by (rule normalizeAstToIr_spec)
  have fe: "ir_executions ir = map (case_prod normalizeExecute) (directives ''execute'' (children ?ast))"
    and fc: "ir_context ir = map (case_prod normalizeContext) (directives ''context'' (children ?ast))"
    and fr: "ir_replay ir = map (case_prod normalizeReplay) (directives ''replay'' (children ?ast))"
    and fm: "ir_memory ir = map (case_prod normalizeMemory) (directives ''memory'' (children ?ast))"
    and fp: "ir_plans ir = map (case_prod normalizePlan) (directives ''plan'' (children ?ast))"
    and fdc: "ir_decisions ir = map (case_prod normalizeDecision) (directives ''decision'' (children ?ast))"
    and fe': "ir_evidence ir = map (case_prod normalizeEvidence) (directives ''evidence'' (children ?ast))"
    and fs: "ir_state ir = map (case_prod normalizeState) (directives ''state'' (children ?ast))"
    and fd: "ir_doc ir = (case directives ''doc'' (children ?ast) of
        [] \<Rightarrow> None | d # _ \<Rightarrow> Some (case_prod normalizeDoc d))"
    using spec unfolding ir_spec_def by blast+
  have data: "ex_data (normalizeExecute p l) = p" "cx_data (normalizeContext p l) = p"
    "re_data (normalizeReplay p l) = p" "me_data (normalizeMemory p l) = p"
    "dm_data (normalizeDoc p l) = p" "pl_data (normalizePlan p l) = p" "de_data (normalizeDecision p l) = p"
    "ev_data (normalizeEvidence p l) = p" "st_data (normalizeState p l) = p" for p l
    by (simp_all add: normalizeExecute_def normalizeContext_def normalizeReplay_def
        normalizeMemory_def normalizeDoc_def normalizePlan_def normalizeDecision_def
        normalizeEvidence_def normalizeState_def Let_def)
  show "map ex_data (ir_executions ir) = payloads ''execute''"
    unfolding fe map_fst_case_prod [of ex_data normalizeExecute, OF data(1)] by (rule dv)
  show "map cx_data (ir_context ir) = payloads ''context''"
    unfolding fc map_fst_case_prod [of cx_data normalizeContext, OF data(2)] by (rule dv)
  show "map re_data (ir_replay ir) = payloads ''replay''"
    unfolding fr map_fst_case_prod [of re_data normalizeReplay, OF data(3)] by (rule dv)
  show "map me_data (ir_memory ir) = payloads ''memory''"
    unfolding fm map_fst_case_prod [of me_data normalizeMemory, OF data(4)] by (rule dv)
  show "map_option dm_data (ir_doc ir) = (case payloads ''doc'' of [] \<Rightarrow> None | p # _ \<Rightarrow> Some p)"
    unfolding fd dv [of "''doc''", symmetric]
    by (cases "directives ''doc'' (children ?ast)") (auto simp: data(5))
  show "map pl_data (ir_plans ir) = payloads ''plan''"
    unfolding fp map_fst_case_prod [of pl_data normalizePlan, OF data(6)] by (rule dv)
  show "map de_data (ir_decisions ir) = payloads ''decision''"
    unfolding fdc map_fst_case_prod [of de_data normalizeDecision, OF data(7)] by (rule dv)
  show "map ev_data (ir_evidence ir) = payloads ''evidence''"
    unfolding fe' map_fst_case_prod [of ev_data normalizeEvidence, OF data(8)] by (rule dv)
  show "map st_data (ir_state ir) = payloads ''state''"
    unfolding fs map_fst_case_prod [of st_data normalizeState, OF data(9)] by (rule dv)
qed

end
