(* ===== verification/PropsDoc.thy ===== *)
theory PropsDoc
  imports DocCompileRoundtrip
begin

text \<open>
  The properties of the document compiler and runtime (packages/aionis-doc), each with a
  witness where it has hypotheses.
\<close>

section \<open>Values for the witnesses\<close>

definition sample_document :: "directive list" where
  "sample_document =
     [(''doc'', [(''id'', JStr ''d''), (''version'', JStr ''1'')]),
      (''execute'', [(''module'', JStr ''m''), (''output_ref'', JStr ''out.a'')]),
      (''execute'', [(''module'', JStr ''m''), (''depends_on'', JArr [JStr ''out.a''])])]"

definition sample_ir :: aionis_doc_ir where
  "sample_ir =
     empty_ir\<lparr>ir_doc := Some (normalizeDoc [(''id'', JStr ''d''), (''version'', JStr ''1'')] None),
       ir_executions :=
         [normalizeExecute [(''module'', JStr ''m''), (''output_ref'', JStr ''out.a'')] None,
          normalizeExecute [(''module'', JStr ''m''), (''depends_on'', JArr [JStr ''out.a''])] None]\<rparr>"

definition sample_plan :: execution_plan where
  "sample_plan = buildExecutionPlanV1 sample_ir None (Some [])"

definition sample_module :: module_definition where
  "sample_module =
     \<lparr>md_manifest = demo_manifest ''m'' ''sample'' (plain_contract KAny) (plain_contract KString),
      md_handler = (\<lambda>inp ctx. Inr (JStr ''done''))\<rparr>"

definition sample_runtime :: runtime where
  "sample_runtime =
     \<lparr>rt_id = ''r'', rt_registry = [(''m'', sample_module)],
      rt_capabilities = createExecutionRuntimeCapabilities (\<lambda>_. None)\<rparr>"

lemma sample_document_ok: "sample_document \<noteq> [] \<and> (\<forall>d \<in> set sample_document. directive_ok d)"
  unfolding sample_document_def by code_simp

lemma sample_execute:
  obtains res where "execute sample_runtime ''t'' sample_plan = Inr res"
    "map nr_status (xr_node_results res) = [NodeSuccess, NodeSuccess]"
    "map ps_depends_on (xp_executions sample_plan) = [[], [''out.a'']]"
proof -
  have "case execute sample_runtime ''t'' sample_plan of
      Inr res \<Rightarrow> map nr_status (xr_node_results res) = [NodeSuccess, NodeSuccess] | Inl e \<Rightarrow> False"
    by code_simp
  moreover have "map ps_depends_on (xp_executions sample_plan) = [[], [''out.a'']]" by code_simp
  ultimately show thesis using that by (auto split: sum.splits)
qed

section \<open>The language\<close>

text \<open>C1: A document printed one directive per line (names, and payloads of the fragment
  \<open>printable\<close>) compiles without a parse diagnostic, and the IR holds exactly the printed payloads:
  each of its lists (context, plans, executions, decisions, evidence, replay, memory, state) has
  those of the directives with its name, in document order, and the document's is the first
  \<^verbatim>\<open>@doc\<close>.  The payloads of directives with other names are left out.\<close>

theorem compile_document_roundtrip:
  assumes "ds \<noteq> []" "\<forall>d \<in> set ds. directive_ok d"
  shows "doc_diagnostics (cr_ast (compileAionisDoc (print_document ds))) = []
    \<and> map ex_data (ir_executions (cr_ir (compileAionisDoc (print_document ds))))
        = map snd (filter (\<lambda>d. fst d = ''execute'') ds)
    \<and> map cx_data (ir_context (cr_ir (compileAionisDoc (print_document ds))))
        = map snd (filter (\<lambda>d. fst d = ''context'') ds)
    \<and> map_option dm_data (ir_doc (cr_ir (compileAionisDoc (print_document ds))))
        = map_option snd (find (\<lambda>d. fst d = ''doc'') ds)
    \<and> map pl_data (ir_plans (cr_ir (compileAionisDoc (print_document ds))))
        = map snd (filter (\<lambda>d. fst d = ''plan'') ds)
    \<and> map de_data (ir_decisions (cr_ir (compileAionisDoc (print_document ds))))
        = map snd (filter (\<lambda>d. fst d = ''decision'') ds)
    \<and> map ev_data (ir_evidence (cr_ir (compileAionisDoc (print_document ds))))
        = map snd (filter (\<lambda>d. fst d = ''evidence'') ds)
    \<and> map re_data (ir_replay (cr_ir (compileAionisDoc (print_document ds))))
        = map snd (filter (\<lambda>d. fst d = ''replay'') ds)
    \<and> map me_data (ir_memory (cr_ir (compileAionisDoc (print_document ds))))
        = map snd (filter (\<lambda>d. fst d = ''memory'') ds)
    \<and> map st_data (ir_state (cr_ir (compileAionisDoc (print_document ds))))
        = map snd (filter (\<lambda>d. fst d = ''state'') ds)"
proof -
  have "(case map snd (filter P ds) of [] \<Rightarrow> None | p # _ \<Rightarrow> Some p) = map_option snd (find P ds)" for P
    by (induction ds) auto
  then show ?thesis
    using compile_print [OF assms] parseAst_print(1) [OF assms] by (simp add: compile_fields)
qed

theorem compile_document_roundtrip_witness:
  "map ex_data (ir_executions (cr_ir (compileAionisDoc (print_document sample_document))))
     = [[(''module'', JStr ''m''), (''output_ref'', JStr ''out.a'')],
        [(''module'', JStr ''m''), (''depends_on'', JArr [JStr ''out.a''])]]"
  using compile_document_roundtrip [of sample_document] sample_document_ok
  by (simp add: sample_document_def)

text \<open>C2: the payload parser reads every printed value of the fragment back, with nothing left
  over and no diagnostic: escapes, numbers, arrays and objects lose nothing.\<close>

theorem payload_roundtrip:
  assumes "printable v"
  shows "parseAionisPayload (print_value v) lc = (v, [])"
  unfolding parseAionisPayload_def payload_parse_print [OF assms] by simp

theorem payload_roundtrip_witness:
  "parseAionisPayload ''{\"a\":[1,-20,true]}'' zero_loc
     = (JObj [(''a'', JArr [JNum (Fin 1), JNum (Fin (-20)), JBool True])], [])"
proof -
  let ?v = "JObj [(''a'', JArr [JNum (Fin 1), JNum (Fin (-20)), JBool True])]"
  have "printable ?v" by (simp add: is_index_key_def is_digit_def)
  note rt = payload_roundtrip [OF this, of zero_loc]
  have pv: "print_value ?v = ''{\"a\":[1,-20,true]}''" by code_simp
  show ?thesis using rt unfolding pv .
qed

text \<open>C31: the payload parser is total: on any text it ends with a value or a message, never by
  running out of the fuel the model gives it (twice the length of the text and one).\<close>

theorem payload_parse_total:
  "(\<exists>v rest. payload_parse s = PDone v rest) \<or> (\<exists>msg rest. payload_parse s = PFail msg rest)"
  using payload_parse_no_fuel [of s] by (cases "payload_parse s") auto

text \<open>Every node of a parsed document carries exactly the source text of its range, lies
  inside the source, and the nodes follow each other without overlap.\<close>

theorem ast_nodes_cover_source:
  "(\<forall>n \<in> set (children (parseAst (scanSource s))). node_within s 0 (length s) n)
   \<and> ordered_nodes (children (parseAst (scanSource s)))"
proof -
  have "start_of s 0 = 0" by (simp add: line_start_def scanSource_def)
  then show ?thesis
    using parse_lines_within [of s 0] by (auto simp: parseAst_def scanSource_def split: prod.splits)
qed

theorem ast_nodes_cover_source_witness:
  "map node_text (children (parseAst (scanSource ''# A''))) = [''A'']
   \<and> node_within ''# A'' 0 3 (hd (children (parseAst (scanSource ''# A''))))"
proof
  show t: "map node_text (children (parseAst (scanSource ''# A''))) = [''A'']" by code_simp
  then have "hd (children (parseAst (scanSource ''# A''))) \<in> set (children (parseAst (scanSource ''# A'')))"
    by (metis list.map_disc_iff hd_in_set list.distinct(1))
  with ast_nodes_cover_source [of "''# A''"]
  show "node_within ''# A'' 0 3 (hd (children (parseAst (scanSource ''# A''))))"
    by (simp add: numeral_3_eq_3)
qed

text \<open>For any offset of the source, the binary search over the line starts reports the line
  after as many newlines as precede the offset, and the column counted from the last newline.\<close>

theorem source_position_correct:
  assumes "off \<le> length s"
  shows "offsetToSourcePos (scanSource s) (int off)
    = \<lparr>line = line_spec s off, column = column_spec s off, offset = off\<rparr>"
  using assms by (rule offsetToSourcePos_in_range)

theorem source_position_correct_witness:
  "offsetToSourcePos (scanSource [CHR ''a'', newline, CHR ''b'', CHR ''c'']) 3
     = \<lparr>line = 2, column = 2, offset = 3\<rparr>"
  using source_position_correct [of 3 "[CHR ''a'', newline, CHR ''b'', CHR ''c'']"]
  by (simp add: line_spec_def column_spec_def newlines_def)

section \<open>IR, references, graph and plan\<close>

text \<open>Normalisation keeps the directives of each name, in document order and nothing else;
  the document metadata is the first \<^verbatim>\<open>@doc\<close> with an object payload, and each further
  one is reported exactly once.\<close>

theorem ir_collects_directives:
  "ir_executions (normalizeAstToIr ast) = map (case_prod normalizeExecute) (directives ''execute'' (children ast))
   \<and> ir_context (normalizeAstToIr ast) = map (case_prod normalizeContext) (directives ''context'' (children ast))
   \<and> ir_replay (normalizeAstToIr ast) = map (case_prod normalizeReplay) (directives ''replay'' (children ast))
   \<and> ir_evidence (normalizeAstToIr ast) = map (case_prod normalizeEvidence) (directives ''evidence'' (children ast))
   \<and> ir_doc (normalizeAstToIr ast) = map_option (case_prod normalizeDoc) (find (\<lambda>_. True) (directives ''doc'' (children ast)))
   \<and> length (filter (\<lambda>d. diag_code d = ''DUPLICATE_DOC'') (ir_diagnostics (normalizeAstToIr ast)))
       = length (directives ''doc'' (children ast)) - 1"
proof -
  have "(case ds of [] \<Rightarrow> None | d # _ \<Rightarrow> Some (f d)) = map_option f (find (\<lambda>_. True) ds)" for ds :: "'a list" and f :: "'a \<Rightarrow> 'b"
    by (cases ds) auto
  then show ?thesis
    using normalizeAstToIr_spec [of ast] unfolding ir_spec_def by simp
qed

text \<open>The schema check is silent exactly on documents that have a \<^verbatim>\<open>@doc\<close> whose id and
  version are not blank and whose every execution names a module, a tool or an agent.\<close>

theorem schema_check_complete:
  "validateIrSchemas (normalizeAstToIr ast) = [] \<longleftrightarrow>
     (\<exists>d. ir_doc (normalizeAstToIr ast) = Some d \<and> js_trim (dm_id d) \<noteq> [] \<and> js_trim (dm_version d) \<noteq> []
       \<and> list_all runnable (ir_executions (normalizeAstToIr ast)))"
  by (rule validateIrSchemas_Nil)

text \<open>A reference \<^verbatim>\<open>ctx.a.b\<close> written from a list of names parses back to those names, and
  the check accepts it exactly when the path leads to a value of the merged context.\<close>

theorem context_ref_check:
  assumes "path \<noteq> []" "\<forall>p \<in> set path. p \<noteq> [] \<and> list_all is_scope_part p"
  shows "\<exists>b. parseRef (''ctx'' @ ''.'' @ js_join ''.'' path) = Some b \<and> rb_path b = path
    \<and> (validateBinding ir b e = None \<longleftrightarrow>
         getPathValue (Some (JObj (buildMergedContext (ir_context ir)))) path \<noteq> None)"
proof -
  have "js_join ''.'' path \<noteq> []"
    using assms by (cases path rule: list.exhaust; cases "tl path") auto
  moreover have "list_all is_scope_part ''ctx''" "is_alpha (hd ''ctx'')"
    by (simp_all add: is_scope_part_def char_class_defs)
  ultimately have "parseRef (''ctx'' @ ''.'' @ js_join ''.'' path)
      = Some \<lparr>rb_raw = ''ctx'' @ ''.'' @ js_join ''.'' path, rb_scope = ''ctx'', rb_path = path\<rparr>"
    using assms by (intro parseRef_print) auto
  then show ?thesis by (auto simp: validateBinding_def VALID_SCOPES_def)
qed

theorem context_ref_check_witness:
  "\<exists>b. parseRef ''ctx.a.b'' = Some b \<and> rb_path b = [''a'', ''b''] \<and> validateBinding sample_ir b (ir_executions sample_ir ! 0) \<noteq> None"
proof -
  have "getPathValue (Some (JObj (buildMergedContext (ir_context sample_ir)))) [''a'', ''b''] = None"
    by code_simp
  then show ?thesis
    using context_ref_check [of "[''a'', ''b'']" sample_ir "ir_executions sample_ir ! 0"]
    by (auto simp: is_scope_part_def char_class_defs)
qed

text \<open>A name of the merged context has the value of the last context frame that defines it,
  and the plan carries the same merged context the reference check used.\<close>

theorem merged_context_last_wins:
  assumes "\<forall>c \<in> set (ir_context ir). ''__proto__'' \<notin> set (keys (cx_data c))" "k \<notin> set proto_keys"
  shows "getPathValue (Some (JObj (pc_merged (xp_context (buildExecutionPlanV1 ir g ds))))) [k]
    = frame_get (map cx_data (ir_context ir)) k"
  using buildMergedContext_get [OF assms(1), of k] assms(2)
  by (simp add: buildExecutionPlanV1_def Let_def mergeContextFrames_eq is_plain_object_def js_prop_def
      obj_get_no_proto split: option.splits)

theorem merged_context_last_wins_witness:
  "getPathValue (Some (JObj (pc_merged (xp_context (buildExecutionPlanV1
      (sample_ir\<lparr>ir_context := [normalizeContext [(''a'', JBool False)] None,
                               normalizeContext [(''a'', JBool True)] None]\<rparr>) None None))))) [''a'']
     = Some (JBool True)"
  using merged_context_last_wins [of "sample_ir\<lparr>ir_context := [normalizeContext [(''a'', JBool False)] None,
      normalizeContext [(''a'', JBool True)] None]\<rparr>" "''a''" None None]
  by (simp add: normalizeContext_def frame_get_def proto_keys_def)

text \<open>C32: the edges the builder computes with its two maps are the ones of the map-free reading:
  for each execution in order, an edge from the last execution up to it that produces its input
  reference, and one from the last producer (or else the node) each dependency names; a
  dependency that names neither is reported, and nothing else is.\<close>

theorem graph_is_reference_graph:
  assumes "ir_doc ir = Some d"
  shows "\<exists>g. buildExecutionGraph ir
      = (Some g, concat (map (unknown_at ir (ir_executions ir)) [0..<length (ir_executions ir)]))
    \<and> eg_edges g = graph_edges (ir_executions ir)
    \<and> map en_id (eg_nodes g) = map node_id [0..<length (ir_executions ir)]"
  by (simp add: buildExecutionGraph_spec [OF assms] make_node_def)

theorem graph_is_reference_graph_witness:
  "\<exists>g. fst (buildExecutionGraph sample_ir) = Some g \<and> eg_edges g = [edge 0 1 SequenceDependency]"
proof -
  have d: "ir_doc sample_ir = Some (normalizeDoc [(''id'', JStr ''d''), (''version'', JStr ''1'')] None)"
    by (simp add: sample_ir_def)
  have "graph_edges (ir_executions sample_ir) = [edge 0 1 SequenceDependency]" by code_simp
  then show ?thesis using graph_is_reference_graph [OF d] by auto
qed

text \<open>Every edge of the graph goes from an execution to itself or to a later one, and to
  itself only when the execution names its own output or its own node as what it waits for.\<close>

theorem graph_edges_point_forward:
  assumes "ir_doc ir = Some d" "buildExecutionGraph ir = (Some g, ds)" "ed \<in> set (eg_edges g)"
  shows "\<exists>i j. ee_from ed = node_id i \<and> ee_to ed = node_id j \<and> i \<le> j \<and> j < length (ir_executions ir)
    \<and> (i = j \<longrightarrow> (let e = ir_executions ir ! j in
         ex_output_ref e \<in> insert (ex_input_ref e) (Some ` set (deps_of e)) \<or> node_id j \<in> set (deps_of e)))"
proof -
  have "ed \<in> set (graph_edges (ir_executions ir))"
    using assms(2,3) buildExecutionGraph_spec [OF assms(1)] by auto
  then obtain j where j: "j < length (ir_executions ir)" "ed \<in> set (edges_at (ir_executions ir) j)"
    by (auto simp: graph_edges_def)
  then consider i r where "ed = edge i j DataDependency" "ex_input_ref (ir_executions ir ! j) = Some r"
      "producer (ir_executions ir) j r = Some i"
    | i r where "ed = edge i j SequenceDependency" "r \<in> set (deps_of (ir_executions ir ! j))"
      "dependency (ir_executions ir) j r = Some i"
    by (auto simp: edges_at_def)
  then show ?thesis
  proof cases
    case 1
    then show ?thesis using producer_le [OF 1(3)] j(1)
      by (intro exI [of _ i] exI [of _ j]) (auto simp: edge_def Let_def)
  next
    case 2
    then show ?thesis using dependency_le [OF 2(3)] dependency_source [OF 2(3)] j(1)
      by (intro exI [of _ i] exI [of _ j]) (auto simp: edge_def Let_def)
  qed
qed

theorem graph_edges_point_forward_witness:
  "\<exists>i j. ee_from (edge 0 1 SequenceDependency) = node_id i \<and> ee_to (edge 0 1 SequenceDependency) = node_id j
     \<and> i \<le> j \<and> j < 2"
proof -
  have d: "ir_doc sample_ir = Some (normalizeDoc [(''id'', JStr ''d''), (''version'', JStr ''1'')] None)"
    by (simp add: sample_ir_def)
  have e: "graph_edges (ir_executions sample_ir) = [edge 0 1 SequenceDependency]" by code_simp
  have "length (ir_executions sample_ir) = 2" by code_simp
  then show ?thesis
    using graph_edges_point_forward [OF d buildExecutionGraph_spec [OF d], of "edge 0 1 SequenceDependency"] e
    by auto
qed

text \<open>The ids the plan makes up for steps without an output reference are pairwise
  different, whatever the names of their modules, tools and agents, and no id is empty.\<close>

theorem generated_ids_unique:
  assumes "\<not> truthy (ex_output_ref (ir_executions ir ! i))" "\<not> truthy (ex_output_ref (ir_executions ir ! j))"
    and "i < length (ir_executions ir)" "j < length (ir_executions ir)"
    and "ps_execution_id (xp_executions (buildExecutionPlanV1 ir g ds) ! i)
      = ps_execution_id (xp_executions (buildExecutionPlanV1 ir g ds) ! j)"
  shows "i = j \<and> ps_execution_id (xp_executions (buildExecutionPlanV1 ir g ds) ! i) \<noteq> []"
proof -
  have step: "ps_execution_id (xp_executions (buildExecutionPlanV1 ir g ds) ! k)
      = buildExecutionId (ir_executions ir ! k) k" if "k < length (ir_executions ir)" for k
    using that by (simp add: buildExecutionPlanV1_def Let_def buildExecutionStep_def nth_enumerate_eq)
  have "i = j" using assms step by (intro execution_ids_distinct [OF assms(1,2)]) simp
  then show ?thesis using step [OF assms(3)] buildExecutionId_not_Nil by simp
qed

theorem generated_ids_unique_witness:
  "ps_execution_id (xp_executions sample_plan ! 1) = ''run.m.2''
   \<and> ps_execution_id (xp_executions sample_plan ! 1) \<noteq> []"
proof
  show "ps_execution_id (xp_executions sample_plan ! 1) = ''run.m.2''" by code_simp
  show "ps_execution_id (xp_executions sample_plan ! 1) \<noteq> []"
    using generated_ids_unique [of sample_ir 1 1 None "Some []"] unfolding sample_plan_def [symmetric]
    by (simp add: sample_ir_def normalizeExecute_def obj_get_def proto_keys_def asString_def)
qed

end
