(* ===== verification/PropsRuntime.thy ===== *)
theory PropsRuntime
  imports PropsDoc
begin

text \<open>
  The properties of the module contracts, the module runtime and the local runtime
  (packages/aionis-doc/src/execute), each with a witness where it has hypotheses.
\<close>

text \<open>C14: the contract checker reports nothing exactly when the value conforms to the contract,
  for values and contracts that do not use the name of an inherited object member.\<close>

theorem contract_check_exact:
  assumes "no_inherited v" "contract_names_ok c"
  shows "validateValueAgainstContract v c path = [] \<longleftrightarrow> conforms c v"
  using assms by (rule validate_iff_conforms)

theorem contract_check_exact_witness:
  "\<not> conforms (object_contract [(''a'', plain_contract KString)] (Some [''a'']) False) (JObj [(''a'', JNull)])"
proof -
  let ?c = "object_contract [(''a'', plain_contract KString)] (Some [''a'']) False"
  have "validateValueAgainstContract (JObj [(''a'', JNull)]) ?c ''$'' \<noteq> []" by code_simp
  moreover have "no_inherited (JObj [(''a'', JNull)])" "contract_names_ok ?c" by code_simp+
  ultimately show ?thesis using contract_check_exact [of "JObj [(''a'', JNull)]" ?c "''$''"] by blast
qed

text \<open>An inherited member satisfies a required property: the empty object passes a closed
  contract that requires \<^verbatim>\<open>toString\<close>, though it has no property at all.\<close>

theorem inherited_member_passes_contract:
  "validateValueAgainstContract (JObj []) (object_contract [] (Some [''toString'']) False) ''$'' = []
   \<and> \<not> conforms (object_contract [] (Some [''toString'']) False) (JObj [])"
proof
  show "validateValueAgainstContract (JObj []) (object_contract [] (Some [''toString'']) False) ''$'' = []"
    by code_simp
  show "\<not> conforms (object_contract [] (Some [''toString'']) False) (JObj [])"
    by (simp add: object_contract_def conforms.simps or_else_def)
qed

text \<open>C15: a run that returns has one node result per step, in order; it succeeds exactly when
  every node does; and its outputs, errors, artifacts and evidence are those of the node
  results.\<close>

theorem execution_accounts_for_steps:
  assumes "execute rt now plan = Inr res"
  shows "list_all2 node_for (xp_executions plan) (xr_node_results res)
    \<and> (xr_success res \<longleftrightarrow> (\<forall>n \<in> set (xr_node_results res). nr_status n = NodeSuccess))
    \<and> xr_outputs res = outputs_of (xr_node_results res)
    \<and> xr_errors res = errors_of (xr_node_results res)
    \<and> xr_artifacts res = records_of nr_artifacts (xr_node_results res)
    \<and> xr_evidence res = records_of nr_evidence (xr_node_results res)"
  using execute_nodes(1-5) [OF assms] success_iff_nodes [OF assms] by blast

theorem execution_accounts_for_steps_witness:
  "\<exists>res. execute sample_runtime ''t'' sample_plan = Inr res \<and> xr_success res
     \<and> xr_outputs res = outputs_of (xr_node_results res)"
proof -
  obtain res where res: "execute sample_runtime ''t'' sample_plan = Inr res"
    "map nr_status (xr_node_results res) = [NodeSuccess, NodeSuccess]"
    "map ps_depends_on (xp_executions sample_plan) = [[], [''out.a'']]" by (rule sample_execute)
  from res(2) have all: "\<forall>n \<in> set (xr_node_results res). nr_status n = NodeSuccess" by auto
  note a = execution_accounts_for_steps [OF res(1)]
  have "xr_success res \<longleftrightarrow> (\<forall>n \<in> set (xr_node_results res). nr_status n = NodeSuccess)"
    using a by (elim conjE)
  with all have "xr_success res" by simp
  moreover have "xr_outputs res = outputs_of (xr_node_results res)" using a by (elim conjE)
  ultimately show ?thesis using res(1) by (intro exI conjI)
qed

text \<open>C16: a step succeeds only after every step it depends on: each dependency that is not the
  name of an inherited member is the output reference of an earlier step that succeeded.  (A
  step with an empty dependency name is excluded: see the findings.)\<close>

theorem dependencies_run_first:
  assumes "execute rt now plan = Inr res" "j < length (xr_node_results res)"
    and "nr_status (xr_node_results res ! j) = NodeSuccess"
    and "d \<in> set (ps_depends_on (xp_executions plan ! j))"
    and "[] \<notin> set (ps_depends_on (xp_executions plan ! j))" "d \<notin> set proto_keys"
  shows "\<exists>i < j. nr_status (xr_node_results res ! i) = NodeSuccess
    \<and> ps_output_ref (xp_executions plan ! i) = Some d"
  using assms by (rule success_dependencies)

theorem dependencies_run_first_witness:
  "\<exists>i < 1. ps_output_ref (xp_executions sample_plan ! i) = Some ''out.a''"
proof -
  obtain res where res: "execute sample_runtime ''t'' sample_plan = Inr res"
    "map nr_status (xr_node_results res) = [NodeSuccess, NodeSuccess]"
    and deps: "map ps_depends_on (xp_executions sample_plan) = [[], [''out.a'']]" by (rule sample_execute)
  have len: "length (xr_node_results res) = 2" using res(2) by (metis length_map length_Cons list.size(3) numeral_2_eq_2)
  have s: "nr_status (xr_node_results res ! 1) = NodeSuccess"
    using res(2) len nth_map [of 1 "xr_node_results res" nr_status] by simp
  have l2: "length (xp_executions sample_plan) = 2" using deps by (metis length_map length_Cons list.size(3) numeral_2_eq_2)
  have dd: "ps_depends_on (xp_executions sample_plan ! 1) = [''out.a'']"
    using deps l2 nth_map [of 1 "xp_executions sample_plan" ps_depends_on] by simp
  have "\<exists>i < 1. nr_status (xr_node_results res ! i) = NodeSuccess
    \<and> ps_output_ref (xp_executions sample_plan ! i) = Some ''out.a''"
    by (rule dependencies_run_first [OF res(1) _ s]) (simp_all add: len dd [simplified] proto_keys_def)
  then show ?thesis by blast
qed

text \<open>C17: A successful node ran a registered module with all the capabilities it requires: the
  handler of the module was called on the input resolved from the outputs of the earlier nodes,
  which had passed the input contract, and the node reports the output, the artifacts and the
  evidence of what the handler returned, which have passed the other contracts.\<close>

theorem success_is_justified:
  assumes "execute rt now plan = Inr res" "j < length (xr_node_results res)"
    and "nr_status (xr_node_results res ! j) = NodeSuccess"
  shows "\<exists>m def ret. ps_module (xp_executions plan ! j) = Some m
    \<and> map_get (rt_registry rt) m = Some def
    \<and> (\<forall>c \<in> set (or_else (mm_required_capabilities (md_manifest def)) []). rt_capabilities rt c)
    \<and> check_contract (mm_input_contract (md_manifest def))
        (resolveExecutionInput plan (outputs_of (take j (xr_node_results res))) (xp_executions plan ! j)) = []
    \<and> md_handler def
        (resolveExecutionInput plan (outputs_of (take j (xr_node_results res))) (xp_executions plan ! j))
        \<lparr>mc_plan = plan, mc_step = xp_executions plan ! j,
         mc_outputs = outputs_of (take j (xr_node_results res)), mc_runtime_id = rt_id rt\<rparr> = Inr ret
    \<and> nr_output (xr_node_results res ! j) = Some (mo_output (normalize_outcome ret))
    \<and> check_contract (mm_output_contract (md_manifest def)) (mo_output (normalize_outcome ret)) = []
    \<and> check_produced (mm_artifact_contract (md_manifest def)) ''artifacts'' (mo_artifacts (normalize_outcome ret)) = Inr []
    \<and> check_produced (mm_evidence_contract (md_manifest def)) ''evidence'' (mo_evidence (normalize_outcome ret)) = Inr []
    \<and> (\<exists>arts evs. produced_list (mo_artifacts (normalize_outcome ret)) = Inr arts
         \<and> nr_artifacts (xr_node_results res ! j) = Some arts
         \<and> produced_list (mo_evidence (normalize_outcome ret)) = Inr evs
         \<and> nr_evidence (xr_node_results res ! j) = Some evs)"
proof -
  obtain m def ret where "ps_module (xp_executions plan ! j) = Some m" "map_get (rt_registry rt) m = Some def"
    "missingModuleCapabilities (md_manifest def) (rt_capabilities rt) = []"
    "check_contract (mm_input_contract (md_manifest def))
       (resolveExecutionInput plan (outputs_of (take j (xr_node_results res))) (xp_executions plan ! j)) = []"
    "handled rt plan (outputs_of (take j (xr_node_results res))) (xp_executions plan ! j) def ret (xr_node_results res ! j)"
    using execute_nodes(6) [OF assms(1,2)] assms(3) unfolding justified_def by blast
  then show ?thesis
    by (intro exI [of _ m] exI [of _ def] exI [of _ ret])
      (auto simp: handled_def missingModuleCapabilities_def filter_empty_conv)
qed

theorem success_is_justified_witness:
  "\<exists>res m def ret. execute sample_runtime ''t'' sample_plan = Inr res
     \<and> ps_module (xp_executions sample_plan ! 0) = Some m \<and> map_get (rt_registry sample_runtime) m = Some def
     \<and> md_handler def (resolveExecutionInput sample_plan [] (xp_executions sample_plan ! 0))
          \<lparr>mc_plan = sample_plan, mc_step = xp_executions sample_plan ! 0, mc_outputs = [],
           mc_runtime_id = rt_id sample_runtime\<rparr> = Inr ret
     \<and> nr_output (xr_node_results res ! 0) = Some (mo_output (normalize_outcome ret))"
proof -
  obtain res where res: "execute sample_runtime ''t'' sample_plan = Inr res"
    "map nr_status (xr_node_results res) = [NodeSuccess, NodeSuccess]"
    "map ps_depends_on (xp_executions sample_plan) = [[], [''out.a'']]" by (rule sample_execute)
  have len: "length (xr_node_results res) = 2" using res(2) by (metis length_map length_Cons list.size(3) numeral_2_eq_2)
  have s: "nr_status (xr_node_results res ! 0) = NodeSuccess"
    using res(2) len nth_map [of 0 "xr_node_results res" nr_status] by simp
  have l: "0 < length (xr_node_results res)" using len by simp
  have none: "outputs_of (take 0 (xr_node_results res)) = []" by (simp add: outputs_of_def)
  from success_is_justified [OF res(1) l s] obtain m def ret where
    "ps_module (xp_executions sample_plan ! 0) = Some m" "map_get (rt_registry sample_runtime) m = Some def"
    "md_handler def (resolveExecutionInput sample_plan [] (xp_executions sample_plan ! 0))
       \<lparr>mc_plan = sample_plan, mc_step = xp_executions sample_plan ! 0, mc_outputs = [],
        mc_runtime_id = rt_id sample_runtime\<rparr> = Inr ret"
    "nr_output (xr_node_results res ! 0) = Some (mo_output (normalize_outcome ret))"
    unfolding none by (elim exE conjE) (rule that; assumption)
  with res(1) show ?thesis by (intro exI conjI)
qed

text \<open>No demo module of the local runtime ever violates its own output contract: for every
  input and context each handler returns an object that passes it.\<close>

theorem demo_modules_meet_contracts:
  assumes "def \<in> set LOCAL_DEMO_MODULES"
  shows "\<exists>out. md_handler def inp ctx = Inr out
    \<and> check_contract (mm_output_contract (md_manifest def)) out = [] \<and> \<not> isModuleOutcome out"
  using assms by (rule demo_output_ok)

theorem demo_modules_meet_contracts_witness:
  "\<forall>ctx. \<exists>out. md_handler demo_hello JNull ctx = Inr out
     \<and> check_contract (mm_output_contract (md_manifest demo_hello)) out = []"
  using demo_modules_meet_contracts [of demo_hello JNull] by (auto simp: LOCAL_DEMO_MODULES_def)

text \<open>Executing a compile envelope is executing the compiled plan when the envelope emits the
  plan or everything, and executing the same plan without its graph when it emits the IR; an
  envelope that emits neither is refused.  (The schema accepts the envelope unchanged.)\<close>

theorem envelope_execution:
  assumes "\<And>e. schema e = Inr e"
    and "buildCompileEnvelope schema path emit (compileAionisDoc src) gat now = Inr env"
  shows "(emit \<in> {EmitAll, EmitPlan} \<longrightarrow>
      executeCompileEnvelope schema plan_schema rt now env = compileAndExecuteAionisDoc plan_schema rt now src)
    \<and> (emit = EmitIr \<longrightarrow>
      executeCompileEnvelope schema plan_schema rt now env
        = executeExecutionPlan plan_schema rt now (cr_plan (compileAionisDoc src)\<lparr>xp_graph := None\<rparr>))
    \<and> (emit \<in> {EmitAst, EmitGraph, EmitDiagnostics} \<longrightarrow>
      (\<exists>msg. executeCompileEnvelope schema plan_schema rt now env = Inl msg))"
  using plan_of_ir_envelope [of schema path emit "compileAionisDoc src" gat now env src, OF assms refl]
  by (cases emit) (simp_all add: executeCompileEnvelope_def compileAndExecuteAionisDoc_def)

theorem envelope_execution_witness:
  "\<exists>env msg. buildCompileEnvelope Inr ''p'' EmitAst (compileAionisDoc []) None ''t'' = Inr env
     \<and> executeCompileEnvelope Inr Inr sample_runtime ''t'' env = Inl msg"
proof -
  obtain env where env: "buildCompileEnvelope Inr ''p'' EmitAst (compileAionisDoc []) None ''t'' = Inr env"
    by (simp add: buildCompileEnvelope_def)
  then show ?thesis using envelope_execution [OF refl env, of Inr sample_runtime] by auto
qed

end
