(* ===== verification/ExecTypes.thy ===== *)
theory ExecTypes
  imports Prelude JsString
begin

text \<open>
  The execution state, its packet and its control profiles: src/src/execution/types.ts.

  The schemas of the file are zod objects.  The three string checks of zod they are built from
  are an argument of the model (\<open>zod\<close>), with \<open>zod_ok\<close> the documented behaviour the proofs
  use; the object, array, nullable and \<open>max\<close> combinators are written out on typed data, so
  that every \<open>parse\<close> of the code is a function that returns the value or throws.
\<close>

section \<open>The string checks of zod\<close>

record zod =
  zod_trimmed :: "string \<Rightarrow> string option"   \<comment> \<open>\<^verbatim>\<open>z.string().trim().min(1)\<close>\<close>
  zod_nonempty :: "string \<Rightarrow> string option"  \<comment> \<open>\<^verbatim>\<open>z.string().min(1)\<close>\<close>
  zod_datetime :: "string \<Rightarrow> string option"  \<comment> \<open>\<^verbatim>\<open>z.string().datetime()\<close>\<close>

definition zod_ok :: "zod \<Rightarrow> bool" where
  "zod_ok z \<longleftrightarrow>
     (\<forall>s. zod_trimmed z s = (if js_trim s = [] then None else Some (js_trim s)))
     \<and> (\<forall>s. zod_nonempty z s = (if s = [] then None else Some s))
     \<and> (\<forall>s t. zod_datetime z s = Some t \<longrightarrow> t = s)"

definition zod_error :: string where
  "zod_error = ''ZodError''"

definition parse_str :: "(string \<Rightarrow> string option) \<Rightarrow> string \<Rightarrow> string + string" where
  "parse_str p s = (case p s of Some t \<Rightarrow> Inr t | None \<Rightarrow> Inl zod_error)"

definition parse_nullable :: "('a \<Rightarrow> string + 'a) \<Rightarrow> 'a option \<Rightarrow> string + 'a option" where
  "parse_nullable p v =
     (case v of None \<Rightarrow> Inr None | Some x \<Rightarrow> and_then (p x) (\<lambda>y. Inr (Some y)))"

abbreviation parse_trimmed :: "zod \<Rightarrow> string \<Rightarrow> string + string" where
  "parse_trimmed z \<equiv> parse_str (zod_trimmed z)"

abbreviation StringList :: "zod \<Rightarrow> string list \<Rightarrow> string + string list" where
  "StringList z \<equiv> traverse (parse_str (zod_nonempty z))"

section \<open>Stages, roles and the records of the state\<close>

datatype exec_stage = StTriage | StPatch | StReview | StResume

datatype exec_role = RoOrchestrator | RoTriage | RoPatch | RoReview | RoResume

datatype service_kind = SvcGeneric | SvcHttp | SvcTcp | SvcProcess

record service_constraint =
  sc_version :: nat
  sc_service_kind :: service_kind
  sc_label :: string
  sc_launch_reference :: "string option"
  sc_endpoint :: "string option"
  sc_must_survive_agent_exit :: bool
  sc_revalidate_from_fresh_shell :: bool
  sc_detach_then_probe :: bool
  sc_health_checks :: "string list"
  sc_teardown_notes :: "string list"

record reviewer_contract =
  rc_standard :: string
  rc_required_outputs :: "string list"
  rc_acceptance_checks :: "string list"
  rc_rollback_required :: bool

record resume_anchor =
  ra_anchor :: string
  ra_file_path :: "string option"
  ra_symbol :: "string option"
  ra_repo_root :: "string option"

record execution_state =
  es_state_id :: string
  es_scope :: string
  es_task_brief :: string
  es_current_stage :: exec_stage
  es_active_role :: exec_role
  es_owned_files :: "string list"
  es_modified_files :: "string list"
  es_pending_validations :: "string list"
  es_completed_validations :: "string list"
  es_last_accepted_hypothesis :: "string option"
  es_rejected_paths :: "string list"
  es_unresolved_blockers :: "string list"
  es_rollback_notes :: "string list"
  es_service_lifecycle_constraints :: "service_constraint list"
  es_reviewer_contract :: "reviewer_contract option"
  es_resume_anchor :: "resume_anchor option"
  es_updated_at :: string
  es_version :: nat

record execution_packet =
  ep_version :: nat
  ep_state_id :: string
  ep_current_stage :: exec_stage
  ep_active_role :: exec_role
  ep_task_brief :: string
  ep_target_files :: "string list"
  ep_next_action :: "string option"
  ep_hard_constraints :: "string list"
  ep_accepted_facts :: "string list"
  ep_rejected_paths :: "string list"
  ep_pending_validations :: "string list"
  ep_unresolved_blockers :: "string list"
  ep_rollback_notes :: "string list"
  ep_service_lifecycle_constraints :: "service_constraint list"
  ep_review_contract :: "reviewer_contract option"
  ep_resume_anchor :: "resume_anchor option"
  ep_artifact_refs :: "string list"
  ep_evidence_refs :: "string list"

section \<open>The schemas\<close>

definition check :: "bool \<Rightarrow> string + unit" where
  "check b = (if b then Inr () else Inl zod_error)"

lemma check_Inr [simp]: "check b = Inr u \<longleftrightarrow> b"
  by (simp add: check_def)

definition parse_service_constraint :: "zod \<Rightarrow> service_constraint \<Rightarrow> string + service_constraint" where
  "parse_service_constraint z c =
     and_then (check (sc_version c = 1)) (\<lambda>_.
     and_then (parse_trimmed z (sc_label c)) (\<lambda>lab.
     and_then (parse_nullable (parse_trimmed z) (sc_launch_reference c)) (\<lambda>lr.
     and_then (parse_nullable (parse_trimmed z) (sc_endpoint c)) (\<lambda>ep.
     and_then (StringList z (sc_health_checks c)) (\<lambda>hc.
     and_then (StringList z (sc_teardown_notes c)) (\<lambda>tn.
       Inr (c\<lparr>sc_label := lab, sc_launch_reference := lr, sc_endpoint := ep,
              sc_health_checks := hc, sc_teardown_notes := tn\<rparr>)))))))"

definition parse_reviewer_contract :: "zod \<Rightarrow> reviewer_contract \<Rightarrow> string + reviewer_contract" where
  "parse_reviewer_contract z c =
     and_then (parse_trimmed z (rc_standard c)) (\<lambda>st.
     and_then (StringList z (rc_required_outputs c)) (\<lambda>ro.
     and_then (StringList z (rc_acceptance_checks c)) (\<lambda>ac.
       Inr (c\<lparr>rc_standard := st, rc_required_outputs := ro, rc_acceptance_checks := ac\<rparr>))))"

definition parse_resume_anchor :: "zod \<Rightarrow> resume_anchor \<Rightarrow> string + resume_anchor" where
  "parse_resume_anchor z a =
     and_then (parse_trimmed z (ra_anchor a)) (\<lambda>an.
     and_then (parse_nullable (parse_trimmed z) (ra_file_path a)) (\<lambda>fp.
     and_then (parse_nullable (parse_trimmed z) (ra_symbol a)) (\<lambda>sy.
     and_then (parse_nullable (parse_trimmed z) (ra_repo_root a)) (\<lambda>rr.
       Inr (a\<lparr>ra_anchor := an, ra_file_path := fp, ra_symbol := sy, ra_repo_root := rr\<rparr>)))))"

definition parse_services :: "zod \<Rightarrow> service_constraint list \<Rightarrow> string + service_constraint list" where
  "parse_services z cs =
     and_then (traverse (parse_service_constraint z) cs) (\<lambda>cs'.
       and_then (check (length cs' \<le> 16)) (\<lambda>_. Inr cs'))"

definition parse_state :: "zod \<Rightarrow> execution_state \<Rightarrow> string + execution_state" where
  "parse_state z s =
     and_then (parse_trimmed z (es_state_id s)) (\<lambda>sid.
     and_then (parse_trimmed z (es_scope s)) (\<lambda>scp.
     and_then (parse_trimmed z (es_task_brief s)) (\<lambda>tb.
     and_then (StringList z (es_owned_files s)) (\<lambda>ofs.
     and_then (StringList z (es_modified_files s)) (\<lambda>mfs.
     and_then (StringList z (es_pending_validations s)) (\<lambda>pvs.
     and_then (StringList z (es_completed_validations s)) (\<lambda>cvs.
     and_then (parse_nullable (parse_trimmed z) (es_last_accepted_hypothesis s)) (\<lambda>lah.
     and_then (StringList z (es_rejected_paths s)) (\<lambda>rps.
     and_then (StringList z (es_unresolved_blockers s)) (\<lambda>ubs.
     and_then (StringList z (es_rollback_notes s)) (\<lambda>rns.
     and_then (parse_services z (es_service_lifecycle_constraints s)) (\<lambda>slc.
     and_then (parse_nullable (parse_reviewer_contract z) (es_reviewer_contract s)) (\<lambda>rc.
     and_then (parse_nullable (parse_resume_anchor z) (es_resume_anchor s)) (\<lambda>ra.
     and_then (parse_str (zod_datetime z) (es_updated_at s)) (\<lambda>ua.
     and_then (check (es_version s = 1)) (\<lambda>_.
       Inr \<lparr>es_state_id = sid, es_scope = scp, es_task_brief = tb,
            es_current_stage = es_current_stage s, es_active_role = es_active_role s,
            es_owned_files = ofs, es_modified_files = mfs, es_pending_validations = pvs,
            es_completed_validations = cvs, es_last_accepted_hypothesis = lah,
            es_rejected_paths = rps, es_unresolved_blockers = ubs, es_rollback_notes = rns,
            es_service_lifecycle_constraints = slc, es_reviewer_contract = rc,
            es_resume_anchor = ra, es_updated_at = ua, es_version = 1\<rparr>))))))))))))))))"

definition parse_packet :: "zod \<Rightarrow> execution_packet \<Rightarrow> string + execution_packet" where
  "parse_packet z p =
     and_then (check (ep_version p = 1)) (\<lambda>_.
     and_then (parse_trimmed z (ep_state_id p)) (\<lambda>sid.
     and_then (parse_trimmed z (ep_task_brief p)) (\<lambda>tb.
     and_then (StringList z (ep_target_files p)) (\<lambda>tfs.
     and_then (parse_nullable (parse_trimmed z) (ep_next_action p)) (\<lambda>na.
     and_then (StringList z (ep_hard_constraints p)) (\<lambda>hcs.
     and_then (StringList z (ep_accepted_facts p)) (\<lambda>afs.
     and_then (StringList z (ep_rejected_paths p)) (\<lambda>rps.
     and_then (StringList z (ep_pending_validations p)) (\<lambda>pvs.
     and_then (StringList z (ep_unresolved_blockers p)) (\<lambda>ubs.
     and_then (StringList z (ep_rollback_notes p)) (\<lambda>rns.
     and_then (parse_services z (ep_service_lifecycle_constraints p)) (\<lambda>slc.
     and_then (parse_nullable (parse_reviewer_contract z) (ep_review_contract p)) (\<lambda>rc.
     and_then (parse_nullable (parse_resume_anchor z) (ep_resume_anchor p)) (\<lambda>ra.
     and_then (StringList z (ep_artifact_refs p)) (\<lambda>ars.
     and_then (StringList z (ep_evidence_refs p)) (\<lambda>ers.
       Inr \<lparr>ep_version = 1, ep_state_id = sid, ep_current_stage = ep_current_stage p,
            ep_active_role = ep_active_role p, ep_task_brief = tb, ep_target_files = tfs,
            ep_next_action = na, ep_hard_constraints = hcs, ep_accepted_facts = afs,
            ep_rejected_paths = rps, ep_pending_validations = pvs, ep_unresolved_blockers = ubs,
            ep_rollback_notes = rns, ep_service_lifecycle_constraints = slc,
            ep_review_contract = rc, ep_resume_anchor = ra, ep_artifact_refs = ars,
            ep_evidence_refs = ers\<rparr>))))))))))))))))"

section \<open>Canonical values\<close>

text \<open>A canonical value is one its schema returns unchanged.\<close>

definition canon_str :: "string \<Rightarrow> bool" where
  "canon_str s \<longleftrightarrow> s \<noteq> [] \<and> js_trim s = s"

definition canon_opt :: "('a \<Rightarrow> bool) \<Rightarrow> 'a option \<Rightarrow> bool" where
  "canon_opt P v \<longleftrightarrow> (case v of None \<Rightarrow> True | Some x \<Rightarrow> P x)"

definition canon_list :: "string list \<Rightarrow> bool" where
  "canon_list xs \<longleftrightarrow> [] \<notin> set xs"

definition canon_service :: "service_constraint \<Rightarrow> bool" where
  "canon_service c \<longleftrightarrow>
     sc_version c = 1 \<and> canon_str (sc_label c) \<and> canon_opt canon_str (sc_launch_reference c)
     \<and> canon_opt canon_str (sc_endpoint c) \<and> canon_list (sc_health_checks c)
     \<and> canon_list (sc_teardown_notes c)"

definition canon_contract :: "reviewer_contract \<Rightarrow> bool" where
  "canon_contract c \<longleftrightarrow>
     canon_str (rc_standard c) \<and> canon_list (rc_required_outputs c) \<and> canon_list (rc_acceptance_checks c)"

definition canon_anchor :: "resume_anchor \<Rightarrow> bool" where
  "canon_anchor a \<longleftrightarrow>
     canon_str (ra_anchor a) \<and> canon_opt canon_str (ra_file_path a)
     \<and> canon_opt canon_str (ra_symbol a) \<and> canon_opt canon_str (ra_repo_root a)"

definition canon_state :: "zod \<Rightarrow> execution_state \<Rightarrow> bool" where
  "canon_state z s \<longleftrightarrow>
     canon_str (es_state_id s) \<and> canon_str (es_scope s) \<and> canon_str (es_task_brief s)
     \<and> canon_list (es_owned_files s) \<and> canon_list (es_modified_files s)
     \<and> canon_list (es_pending_validations s) \<and> canon_list (es_completed_validations s)
     \<and> canon_opt canon_str (es_last_accepted_hypothesis s) \<and> canon_list (es_rejected_paths s)
     \<and> canon_list (es_unresolved_blockers s) \<and> canon_list (es_rollback_notes s)
     \<and> (\<forall>c \<in> set (es_service_lifecycle_constraints s). canon_service c)
     \<and> length (es_service_lifecycle_constraints s) \<le> 16
     \<and> canon_opt canon_contract (es_reviewer_contract s) \<and> canon_opt canon_anchor (es_resume_anchor s)
     \<and> zod_datetime z (es_updated_at s) \<noteq> None \<and> es_version s = 1"

lemma parse_trimmed_Inr:
  "zod_ok z \<Longrightarrow> parse_trimmed z s = Inr t \<longleftrightarrow> js_trim s \<noteq> [] \<and> t = js_trim s"
  by (auto simp: zod_ok_def parse_str_def)

lemma parse_trimmed_canon: "zod_ok z \<Longrightarrow> parse_trimmed z s = Inr t \<Longrightarrow> canon_str t"
  by (auto simp: parse_trimmed_Inr canon_str_def js_trim_idem)

lemma canon_parse_trimmed: "zod_ok z \<Longrightarrow> canon_str s \<Longrightarrow> parse_trimmed z s = Inr s"
  by (simp add: parse_trimmed_Inr canon_str_def)

lemma StringList_Inr: "zod_ok z \<Longrightarrow> StringList z xs = Inr ys \<longleftrightarrow> canon_list xs \<and> ys = xs"
proof (induction xs arbitrary: ys)
  case (Cons x xs)
  then show ?case by (auto simp: zod_ok_def parse_str_def canon_list_def split: option.splits if_splits)
qed (auto simp: canon_list_def)

lemma parse_datetime_Inr:
  "zod_ok z \<Longrightarrow> parse_str (zod_datetime z) s = Inr t \<longleftrightarrow> zod_datetime z s \<noteq> None \<and> t = s"
  by (auto simp: zod_ok_def parse_str_def split: option.splits)

lemma parse_nullable_Inr:
  "parse_nullable p v = Inr w \<longleftrightarrow>
     (v = None \<and> w = None) \<or> (\<exists>x y. v = Some x \<and> w = Some y \<and> p x = Inr y)"
  by (cases v) (auto simp: parse_nullable_def)

lemmas parse_Inrs = parse_trimmed_Inr StringList_Inr parse_datetime_Inr parse_nullable_Inr

lemma parse_nullable_canon:
  assumes "\<And>x y. p x = Inr y \<Longrightarrow> P y" "parse_nullable p v = Inr w"
  shows "canon_opt P w"
  using assms by (auto simp: parse_nullable_Inr canon_opt_def)

lemma canon_parse_nullable:
  "(\<And>x. P x \<Longrightarrow> p x = Inr x) \<Longrightarrow> canon_opt P v \<Longrightarrow> parse_nullable p v = Inr v"
  by (cases v) (auto simp: parse_nullable_Inr canon_opt_def)

lemma parse_service_canon:
  "zod_ok z \<Longrightarrow> parse_service_constraint z c = Inr d \<Longrightarrow> canon_service d"
  by (auto simp: parse_service_constraint_def canon_service_def StringList_Inr
      dest: parse_trimmed_canon intro: parse_nullable_canon)

lemma canon_parse_service: "zod_ok z \<Longrightarrow> canon_service c \<Longrightarrow> parse_service_constraint z c = Inr c"
  by (simp add: parse_service_constraint_def canon_service_def StringList_Inr canon_parse_trimmed
      canon_parse_nullable [of canon_str])

lemma parse_contract_canon:
  "zod_ok z \<Longrightarrow> parse_reviewer_contract z c = Inr d \<Longrightarrow> canon_contract d"
  by (auto simp: parse_reviewer_contract_def canon_contract_def StringList_Inr dest: parse_trimmed_canon)

lemma canon_parse_contract: "zod_ok z \<Longrightarrow> canon_contract c \<Longrightarrow> parse_reviewer_contract z c = Inr c"
  by (simp add: parse_reviewer_contract_def canon_contract_def StringList_Inr canon_parse_trimmed)

lemma parse_anchor_canon: "zod_ok z \<Longrightarrow> parse_resume_anchor z a = Inr b \<Longrightarrow> canon_anchor b"
  by (auto simp: parse_resume_anchor_def canon_anchor_def dest: parse_trimmed_canon
      intro: parse_nullable_canon)

lemma canon_parse_anchor: "zod_ok z \<Longrightarrow> canon_anchor a \<Longrightarrow> parse_resume_anchor z a = Inr a"
  by (simp add: parse_resume_anchor_def canon_anchor_def canon_parse_trimmed
      canon_parse_nullable [of canon_str])

lemma traverse_id: "(\<And>x. x \<in> set xs \<Longrightarrow> f x = Inr x) \<Longrightarrow> traverse f xs = Inr xs"
  using traverse_all_Inr [of xs f "\<lambda>x. x"] by simp

lemma traverse_all_set: "traverse f xs = Inr ys \<Longrightarrow> y \<in> set ys \<Longrightarrow> \<exists>x \<in> set xs. f x = Inr y"
  by (induction xs arbitrary: ys) auto

lemma parse_services_canon:
  "zod_ok z \<Longrightarrow> parse_services z cs = Inr ds \<Longrightarrow> (\<forall>d \<in> set ds. canon_service d) \<and> length ds \<le> 16"
  by (auto simp: parse_services_def dest!: traverse_all_set intro: parse_service_canon)

lemma canon_parse_services:
  "zod_ok z \<Longrightarrow> \<forall>c \<in> set cs. canon_service c \<Longrightarrow> length cs \<le> 16 \<Longrightarrow> parse_services z cs = Inr cs"
  by (simp add: parse_services_def traverse_id canon_parse_service)

text \<open>The state schema returns canonical states, and returns a canonical state unchanged.\<close>

lemma parse_state_canon:
  assumes "zod_ok z" "parse_state z s = Inr t"
  shows "canon_state z t"
  using assms
  by (auto simp: parse_state_def canon_state_def StringList_Inr parse_datetime_Inr
      dest: parse_trimmed_canon parse_services_canon
      intro: parse_nullable_canon parse_contract_canon parse_anchor_canon)

lemma canon_parse_state:
  assumes "zod_ok z" "canon_state z s"
  shows "parse_state z s = Inr s"
  using assms
  by (simp add: parse_state_def canon_state_def StringList_Inr parse_datetime_Inr canon_parse_trimmed
      canon_parse_nullable [of canon_str] canon_parse_nullable [of canon_contract]
      canon_parse_nullable [of canon_anchor] canon_parse_services canon_parse_contract canon_parse_anchor)

end
