(* ===== verification/ExecTransitions.thy ===== *)
theory ExecTransitions
  imports ExecTypes
begin

text \<open>
  Transitions of the execution state: src/src/execution/transitions.ts.  A transition is a
  common header and one of ten bodies.  The lemmas show that an accepted transition of a
  canonical state always gives a canonical state, which fields it may touch, and that no
  validation is ever both pending and completed.
\<close>

datatype transition_body =
    StageStarted exec_stage exec_role
  | StageCompleted exec_stage "exec_role option"
  | ValidationAdded "string list"
  | ValidationCompleted "string list"
  | HypothesisAccepted string
  | PathRejected string
  | BlockerRecorded "string list"
  | BlockerCleared "string list"
  | ReviewerContractUpdated "reviewer_contract option"
  | ResumeAnchorUpdated "resume_anchor option"

record exec_transition =
  tr_transition_id :: string
  tr_state_id :: string
  tr_scope :: string
  tr_actor_role :: exec_role
  tr_at :: string
  tr_expected_revision :: "int option"
  tr_body :: transition_body

fun transition_type :: "transition_body \<Rightarrow> string" where
  "transition_type (StageStarted _ _) = ''stage_started''"
| "transition_type (StageCompleted _ _) = ''stage_completed''"
| "transition_type (ValidationAdded _) = ''validation_added''"
| "transition_type (ValidationCompleted _) = ''validation_completed''"
| "transition_type (HypothesisAccepted _) = ''hypothesis_accepted''"
| "transition_type (PathRejected _) = ''path_rejected''"
| "transition_type (BlockerRecorded _) = ''blocker_recorded''"
| "transition_type (BlockerCleared _) = ''blocker_cleared''"
| "transition_type (ReviewerContractUpdated _) = ''reviewer_contract_updated''"
| "transition_type (ResumeAnchorUpdated _) = ''resume_anchor_updated''"

section \<open>The schema\<close>

text \<open>Lists of a transition are trimmed, unlike those of the state.\<close>

fun parse_body :: "zod \<Rightarrow> transition_body \<Rightarrow> string + transition_body" where
  "parse_body z (StageStarted st r) = Inr (StageStarted st r)"
| "parse_body z (StageCompleted st r) = Inr (StageCompleted st r)"
| "parse_body z (ValidationAdded vs) =
     and_then (traverse (parse_trimmed z) vs) (\<lambda>ws. Inr (ValidationAdded ws))"
| "parse_body z (ValidationCompleted vs) =
     and_then (traverse (parse_trimmed z) vs) (\<lambda>ws. Inr (ValidationCompleted ws))"
| "parse_body z (HypothesisAccepted h) =
     and_then (parse_trimmed z h) (\<lambda>h'. Inr (HypothesisAccepted h'))"
| "parse_body z (PathRejected p) = and_then (parse_trimmed z p) (\<lambda>p'. Inr (PathRejected p'))"
| "parse_body z (BlockerRecorded bs) =
     and_then (traverse (parse_trimmed z) bs) (\<lambda>cs. Inr (BlockerRecorded cs))"
| "parse_body z (BlockerCleared bs) =
     and_then (traverse (parse_trimmed z) bs) (\<lambda>cs. Inr (BlockerCleared cs))"
| "parse_body z (ReviewerContractUpdated c) =
     and_then (parse_nullable (parse_reviewer_contract z) c) (\<lambda>d. Inr (ReviewerContractUpdated d))"
| "parse_body z (ResumeAnchorUpdated a) =
     and_then (parse_nullable (parse_resume_anchor z) a) (\<lambda>b. Inr (ResumeAnchorUpdated b))"

definition parse_transition :: "zod \<Rightarrow> exec_transition \<Rightarrow> string + exec_transition" where
  "parse_transition z t =
     and_then (parse_trimmed z (tr_transition_id t)) (\<lambda>tid.
     and_then (parse_trimmed z (tr_state_id t)) (\<lambda>sid.
     and_then (parse_trimmed z (tr_scope t)) (\<lambda>scp.
     and_then (parse_str (zod_datetime z) (tr_at t)) (\<lambda>ta.
     and_then (check (case tr_expected_revision t of Some n \<Rightarrow> 0 < n | None \<Rightarrow> True)) (\<lambda>_.
     and_then (parse_body z (tr_body t)) (\<lambda>b.
       Inr (t\<lparr>tr_transition_id := tid, tr_state_id := sid, tr_scope := scp, tr_at := ta,
              tr_body := b\<rparr>)))))))"

section \<open>Applying a transition\<close>

definition uniqKeepOrder :: "string list \<Rightarrow> string list" where
  "uniqKeepOrder vs = dedupe (filter (\<lambda>v. v \<noteq> []) (map js_trim vs))"

definition without :: "string list \<Rightarrow> string list \<Rightarrow> string list" where
  "without vs rs = filter (\<lambda>v. js_trim v \<notin> set (filter (\<lambda>r. r \<noteq> []) (map js_trim rs))) vs"

fun apply_body :: "transition_body \<Rightarrow> execution_state \<Rightarrow> execution_state" where
  "apply_body (StageStarted st r) s = s\<lparr>es_current_stage := st, es_active_role := r\<rparr>"
| "apply_body (StageCompleted st r) s =
     (let s1 = (if es_current_stage s = st then s\<lparr>es_current_stage := StResume\<rparr> else s)
      in if r = Some (es_active_role s1) then s1\<lparr>es_active_role := RoResume\<rparr> else s1)"
| "apply_body (ValidationAdded vs) s =
     s\<lparr>es_pending_validations := uniqKeepOrder (es_pending_validations s @ vs),
       es_completed_validations := without (es_completed_validations s) vs\<rparr>"
| "apply_body (ValidationCompleted vs) s =
     s\<lparr>es_pending_validations := without (es_pending_validations s) vs,
       es_completed_validations := uniqKeepOrder (es_completed_validations s @ vs)\<rparr>"
| "apply_body (HypothesisAccepted h) s = s\<lparr>es_last_accepted_hypothesis := Some h\<rparr>"
| "apply_body (PathRejected p) s = s\<lparr>es_rejected_paths := uniqKeepOrder (es_rejected_paths s @ [p])\<rparr>"
| "apply_body (BlockerRecorded bs) s =
     s\<lparr>es_unresolved_blockers := uniqKeepOrder (es_unresolved_blockers s @ bs)\<rparr>"
| "apply_body (BlockerCleared bs) s =
     s\<lparr>es_unresolved_blockers := without (es_unresolved_blockers s) bs\<rparr>"
| "apply_body (ReviewerContractUpdated c) s = s\<lparr>es_reviewer_contract := c\<rparr>"
| "apply_body (ResumeAnchorUpdated a) s = s\<lparr>es_resume_anchor := a\<rparr>"

definition applyExecutionStateTransition ::
  "zod \<Rightarrow> execution_state \<Rightarrow> exec_transition \<Rightarrow> string + execution_state" where
  "applyExecutionStateTransition z stateInput transitionInput =
     and_then (parse_state z stateInput) (\<lambda>state.
     and_then (parse_transition z transitionInput) (\<lambda>tr.
       if es_state_id state \<noteq> tr_state_id tr then
         Inl (''execution state transition state_id mismatch: expected '' @ es_state_id state
           @ '', got '' @ tr_state_id tr)
       else if es_scope state \<noteq> tr_scope tr then
         Inl (''execution state transition scope mismatch: expected '' @ es_scope state
           @ '', got '' @ tr_scope tr)
       else parse_state z (apply_body (tr_body tr) (state\<lparr>es_updated_at := tr_at tr\<rparr>))))"

section \<open>The list operations\<close>

lemma set_uniqKeepOrder: "set (uniqKeepOrder vs) = js_trim ` set vs - {[]}"
  by (auto simp: uniqKeepOrder_def)

lemma distinct_uniqKeepOrder [simp]: "distinct (uniqKeepOrder vs)"
  by (simp add: uniqKeepOrder_def)

lemma uniqKeepOrder_trimmed: "v \<in> set (uniqKeepOrder vs) \<Longrightarrow> canon_str v"
  by (auto simp: set_uniqKeepOrder canon_str_def js_trim_idem)

lemma uniqKeepOrder_canonical:
  "distinct vs \<Longrightarrow> \<forall>v \<in> set vs. canon_str v \<Longrightarrow> uniqKeepOrder vs = vs"
proof -
  assume d: "distinct vs" and c: "\<forall>v \<in> set vs. canon_str v"
  have "map js_trim vs = vs" using c by (simp add: map_idI canon_str_def)
  moreover have "filter (\<lambda>v. v \<noteq> []) vs = vs" using c by (auto simp: canon_str_def filter_id_conv)
  ultimately show ?thesis using d by (simp add: uniqKeepOrder_def dedupe_id)
qed

lemma uniqKeepOrder_idem: "uniqKeepOrder (uniqKeepOrder vs) = uniqKeepOrder vs"
  by (intro uniqKeepOrder_canonical) (auto dest: uniqKeepOrder_trimmed)

lemma set_without: "set (without vs rs) = {v \<in> set vs. js_trim v = [] \<or> js_trim v \<notin> js_trim ` set rs}"
  by (auto simp: without_def)

lemma trim_without: "js_trim ` set (without vs rs) - {[]} = js_trim ` set vs - js_trim ` set rs - {[]}"
  by (auto simp: set_without)

lemma canon_list_uniq [simp]: "canon_list (uniqKeepOrder vs)"
  by (auto simp: canon_list_def set_uniqKeepOrder)

lemma canon_list_without: "canon_list vs \<Longrightarrow> canon_list (without vs rs)"
  by (auto simp: canon_list_def set_without)

section \<open>Totality and preservation\<close>

definition canon_body :: "transition_body \<Rightarrow> bool" where
  "canon_body b \<longleftrightarrow>
     (case b of
        HypothesisAccepted h \<Rightarrow> canon_str h
      | ReviewerContractUpdated c \<Rightarrow> canon_opt canon_contract c
      | ResumeAnchorUpdated a \<Rightarrow> canon_opt canon_anchor a
      | _ \<Rightarrow> True)"

lemma parse_body_canon: "zod_ok z \<Longrightarrow> parse_body z b = Inr c \<Longrightarrow> canon_body c"
  using parse_nullable_canon [OF parse_contract_canon] parse_nullable_canon [OF parse_anchor_canon]
  by (cases b) (auto simp: canon_body_def dest: parse_trimmed_canon)

lemma apply_body_canon:
  assumes "canon_state z s" "canon_body b" "zod_datetime z ta \<noteq> None"
  shows "canon_state z (apply_body b (s\<lparr>es_updated_at := ta\<rparr>))"
  using assms
  by (cases b) (auto simp: canon_state_def canon_body_def canon_list_without canon_opt_def Let_def)

lemma parse_transition_fields:
  assumes "zod_ok z" "parse_transition z t = Inr u"
  shows "canon_body (tr_body u)" "zod_datetime z (tr_at u) \<noteq> None" "tr_at u = tr_at t"
    "tr_expected_revision u = tr_expected_revision t" "canon_str (tr_state_id u)" "canon_str (tr_scope u)"
    "parse_body z (tr_body t) = Inr (tr_body u)"
    "tr_state_id u = js_trim (tr_state_id t)" "tr_scope u = js_trim (tr_scope t)"
  using assms
  by (auto simp: parse_transition_def parse_datetime_Inr parse_trimmed_Inr canon_str_def js_trim_idem
      dest: parse_body_canon)

lemma apply_transition_eq:
  assumes "zod_ok z" "canon_state z s" "parse_transition z t = Inr u"
    and "es_state_id s = tr_state_id u" "es_scope s = tr_scope u"
  shows "applyExecutionStateTransition z s t = Inr (apply_body (tr_body u) (s\<lparr>es_updated_at := tr_at u\<rparr>))"
    and "canon_state z (apply_body (tr_body u) (s\<lparr>es_updated_at := tr_at u\<rparr>))"
proof -
  show c: "canon_state z (apply_body (tr_body u) (s\<lparr>es_updated_at := tr_at u\<rparr>))"
    using assms parse_transition_fields [OF assms(1,3)] by (intro apply_body_canon) auto
  show "applyExecutionStateTransition z s t = Inr (apply_body (tr_body u) (s\<lparr>es_updated_at := tr_at u\<rparr>))"
    using assms c by (simp add: applyExecutionStateTransition_def canon_parse_state)
qed

lemma apply_transition_Inr:
  assumes "zod_ok z" "applyExecutionStateTransition z s t = Inr s'"
  obtains s0 u where "parse_state z s = Inr s0" "parse_transition z t = Inr u"
    "es_state_id s0 = tr_state_id u" "es_scope s0 = tr_scope u"
    "s' = apply_body (tr_body u) (s0\<lparr>es_updated_at := tr_at u\<rparr>)" "canon_state z s'"
proof -
  from assms(2) obtain s0 u where su: "parse_state z s = Inr s0" "parse_transition z t = Inr u"
    "es_state_id s0 = tr_state_id u" "es_scope s0 = tr_scope u"
    and p: "parse_state z (apply_body (tr_body u) (s0\<lparr>es_updated_at := tr_at u\<rparr>)) = Inr s'"
    by (auto simp: applyExecutionStateTransition_def split: if_splits)
  have "canon_state z s0" using assms(1) su(1) by (rule parse_state_canon)
  from apply_transition_eq(2) [OF assms(1) this su(2-4)] assms(1) p
  have "s' = apply_body (tr_body u) (s0\<lparr>es_updated_at := tr_at u\<rparr>)"
    by (simp add: canon_parse_state)
  with su assms(1) p show thesis using that parse_state_canon by metis
qed

text \<open>What identifies a state never changes.\<close>

lemma apply_body_frame:
  "es_state_id (apply_body b s) = es_state_id s" "es_scope (apply_body b s) = es_scope s"
  "es_task_brief (apply_body b s) = es_task_brief s" "es_owned_files (apply_body b s) = es_owned_files s"
  "es_modified_files (apply_body b s) = es_modified_files s"
  "es_rollback_notes (apply_body b s) = es_rollback_notes s"
  "es_service_lifecycle_constraints (apply_body b s) = es_service_lifecycle_constraints s"
  "es_updated_at (apply_body b s) = es_updated_at s" "es_version (apply_body b s) = es_version s"
  by (cases b; simp add: Let_def)+

section \<open>Pending and completed validations\<close>

definition validations_disjoint :: "execution_state \<Rightarrow> bool" where
  "validations_disjoint s \<longleftrightarrow>
     (js_trim ` set (es_pending_validations s) - {[]})
       \<inter> (js_trim ` set (es_completed_validations s) - {[]}) = {}"

lemma trim_uniq: "js_trim ` set (uniqKeepOrder vs) - {[]} = js_trim ` set vs - {[]}"
proof -
  have same: "js_trim ` B = B" if "\<forall>x \<in> B. js_trim x = x" for B
    using that by force
  have "js_trim ` (js_trim ` A - {[]}) = js_trim ` A - {[]}" for A
    by (rule same) (auto simp: js_trim_idem)
  then show ?thesis by (simp add: set_uniqKeepOrder)
qed

lemma apply_body_disjoint:
  "validations_disjoint s \<Longrightarrow> validations_disjoint (apply_body b s)"
  by (cases b) (auto simp: validations_disjoint_def trim_uniq trim_without Let_def)

lemma apply_body_validation_sets:
  "js_trim ` set (es_pending_validations (apply_body (ValidationAdded vs) s)) - {[]}
     = js_trim ` set (es_pending_validations s) \<union> js_trim ` set vs - {[]}"
  "js_trim ` set (es_completed_validations (apply_body (ValidationAdded vs) s)) - {[]}
     = js_trim ` set (es_completed_validations s) - js_trim ` set vs - {[]}"
  "js_trim ` set (es_completed_validations (apply_body (ValidationCompleted vs) s)) - {[]}
     = js_trim ` set (es_completed_validations s) \<union> js_trim ` set vs - {[]}"
  "js_trim ` set (es_pending_validations (apply_body (ValidationCompleted vs) s)) - {[]}
     = js_trim ` set (es_pending_validations s) - js_trim ` set vs - {[]}"
  by (simp_all add: trim_uniq trim_without image_Un)

end
