(* ===== verification/ExecStore.thy ===== *)
theory ExecStore
  imports ExecTransitions StateMachine JsMap
begin

text \<open>
  The execution state store and what is derived from a state: state-store.ts, packet.ts,
  profiles.ts and assemble.ts under src/src/execution.  The store is a JavaScript \<open>Map\<close>
  from \<^verbatim>\<open>scope::stateId\<close> to a state with a revision.  \<open>store_ok\<close> is its invariant, kept by
  every operation; a revision is an integer (exact while below \<open>2 ^ 53\<close>).
\<close>

section \<open>Stored states\<close>

record stored_state =
  ss_state :: execution_state
  ss_revision :: int
  ss_last_transition_type :: "string option"
  ss_last_transition_at :: "string option"

definition parse_stored :: "zod \<Rightarrow> stored_state \<Rightarrow> string + stored_state" where
  "parse_stored z r =
     and_then (parse_state z (ss_state r)) (\<lambda>s.
     and_then (check (0 < ss_revision r)) (\<lambda>_.
     and_then (parse_nullable (parse_trimmed z) (ss_last_transition_type r)) (\<lambda>lt.
     and_then (parse_nullable (parse_str (zod_datetime z)) (ss_last_transition_at r)) (\<lambda>la.
       Inr \<lparr>ss_state = s, ss_revision = ss_revision r, ss_last_transition_type = lt,
            ss_last_transition_at = la\<rparr>))))"

definition canon_stored :: "zod \<Rightarrow> stored_state \<Rightarrow> bool" where
  "canon_stored z r \<longleftrightarrow>
     canon_state z (ss_state r) \<and> 0 < ss_revision r
     \<and> canon_opt canon_str (ss_last_transition_type r)
     \<and> canon_opt (\<lambda>d. zod_datetime z d \<noteq> None) (ss_last_transition_at r)"

definition stateStoreKey :: "string \<Rightarrow> string \<Rightarrow> string" where
  "stateStoreKey scp sid = scp @ ''::'' @ sid"

type_synonym state_store = "(string, stored_state) js_map"

section \<open>Operations\<close>

definition int_text :: "int \<Rightarrow> string" where
  "int_text n = (if n < 0 then CHR ''-'' # dec_nat (nat (- n)) else dec_nat (nat n))"

definition store_get :: "zod \<Rightarrow> state_store \<Rightarrow> string \<Rightarrow> string \<Rightarrow> string + stored_state option" where
  "store_get z m scp sid =
     (case map_get m (stateStoreKey scp sid) of
        Some r \<Rightarrow> and_then (parse_stored z r) (\<lambda>r'. Inr (Some r'))
      | None \<Rightarrow> Inr None)"

definition store_put ::
  "zod \<Rightarrow> execution_state \<Rightarrow> state_store \<Rightarrow> string + stored_state \<times> state_store" where
  "store_put z stateInput m =
     and_then (parse_state z stateInput) (\<lambda>s.
       let key = stateStoreKey (es_scope s) (es_state_id s);
           existing = map_get m key
       in and_then
            (parse_stored z
               \<lparr>ss_state = s,
                ss_revision = (case existing of Some r \<Rightarrow> ss_revision r | None \<Rightarrow> 1),
                ss_last_transition_type =
                  (case existing of Some r \<Rightarrow> ss_last_transition_type r | None \<Rightarrow> None),
                ss_last_transition_at =
                  (case existing of Some r \<Rightarrow> ss_last_transition_at r | None \<Rightarrow> None)\<rparr>)
            (\<lambda>nxt. Inr (nxt, map_set key nxt m)))"

text \<open>\<open>localeCompare\<close> is the environment's; \<open>le\<close> is its \<open>\<le> 0\<close>.\<close>

definition store_listByScope ::
  "(string \<Rightarrow> string \<Rightarrow> bool) \<Rightarrow> zod \<Rightarrow> state_store \<Rightarrow> string \<Rightarrow> string + stored_state list" where
  "store_listByScope le z m scp =
     and_then
       (traverse (parse_stored z) (filter (\<lambda>r. es_scope (ss_state r) = scp) (map snd m)))
       (\<lambda>out. Inr (sort_by (\<lambda>a b. le (es_state_id (ss_state a)) (es_state_id (ss_state b))) out))"

definition store_applyTransition ::
  "zod \<Rightarrow> exec_transition \<Rightarrow> state_store \<Rightarrow> string + stored_state \<times> state_store" where
  "store_applyTransition z transitionInput m =
     and_then (parse_transition z transitionInput) (\<lambda>tr.
       let key = stateStoreKey (tr_scope tr) (tr_state_id tr)
       in case map_get m key of
            None \<Rightarrow> Inl (''execution state not found for transition: '' @ tr_scope tr @ ''/'' @ tr_state_id tr)
          | Some existing \<Rightarrow>
              if (case tr_expected_revision tr of Some n \<Rightarrow> n \<noteq> ss_revision existing | None \<Rightarrow> False)
              then Inl (''execution state revision mismatch: expected ''
                     @ int_text (the (tr_expected_revision tr)) @ '', got '' @ int_text (ss_revision existing))
              else
                and_then (applyExecutionStateTransition z (ss_state existing) tr) (\<lambda>nextState.
                and_then
                  (parse_stored z
                     \<lparr>ss_state = nextState, ss_revision = ss_revision existing + 1,
                      ss_last_transition_type = Some (transition_type (tr_body tr)),
                      ss_last_transition_at = Some (tr_at tr)\<rparr>)
                  (\<lambda>nxt. Inr (nxt, map_set key nxt m))))"

definition store_has :: "state_store \<Rightarrow> string \<Rightarrow> string \<Rightarrow> bool" where
  "store_has m scp sid \<longleftrightarrow> map_has m (stateStoreKey scp sid)"

definition store_clear :: "state_store \<Rightarrow> state_store" where
  "store_clear m = []"

definition buildStoredExecutionState ::
  "zod \<Rightarrow> execution_state \<Rightarrow> int option \<Rightarrow> string option \<Rightarrow> string option \<Rightarrow> string + stored_state" where
  "buildStoredExecutionState z s rv lt la =
     parse_stored z
       \<lparr>ss_state = s, ss_revision = (case rv of Some n \<Rightarrow> n | None \<Rightarrow> 1),
        ss_last_transition_type = lt, ss_last_transition_at = la\<rparr>"

section \<open>The store invariant\<close>

definition store_ok :: "zod \<Rightarrow> state_store \<Rightarrow> bool" where
  "store_ok z m \<longleftrightarrow>
     distinct (keys m)
     \<and> (\<forall>k r. map_get m k = Some r \<longrightarrow>
          canon_stored z r \<and> k = stateStoreKey (es_scope (ss_state r)) (es_state_id (ss_state r)))"

lemma parse_nullable_datetime:
  "zod_ok z \<Longrightarrow> parse_nullable (parse_str (zod_datetime z)) v = Inr w \<Longrightarrow>
     canon_opt (\<lambda>d. zod_datetime z d \<noteq> None) w"
  by (auto simp: parse_nullable_Inr parse_datetime_Inr canon_opt_def)

lemma parse_nullable_trimmed:
  "zod_ok z \<Longrightarrow> parse_nullable (parse_trimmed z) v = Inr w \<Longrightarrow> canon_opt canon_str w"
  by (rule parse_nullable_canon) (auto intro: parse_trimmed_canon)

lemma parse_stored_canon: "zod_ok z \<Longrightarrow> parse_stored z r = Inr r' \<Longrightarrow> canon_stored z r'"
  by (auto simp: parse_stored_def canon_stored_def simp del: not_None_eq
      dest: parse_state_canon parse_nullable_trimmed parse_nullable_datetime)

lemma canon_parse_stored: "zod_ok z \<Longrightarrow> canon_stored z r \<Longrightarrow> parse_stored z r = Inr r"
  by (auto simp: parse_stored_def canon_stored_def canon_parse_state parse_datetime_Inr
      canon_parse_nullable [of canon_str] canon_parse_trimmed
      canon_parse_nullable [of "\<lambda>d. zod_datetime z d \<noteq> None"])

lemma parse_stored_fields:
  assumes "zod_ok z" "parse_stored z r = Inr r'" "canon_state z (ss_state r)"
  shows "ss_state r' = ss_state r" "ss_revision r' = ss_revision r" "0 < ss_revision r"
  using assms by (auto simp: parse_stored_def canon_parse_state)

lemma store_ok_set:
  assumes "store_ok z m" "canon_stored z r" "k = stateStoreKey (es_scope (ss_state r)) (es_state_id (ss_state r))"
  shows "store_ok z (map_set k r m)"
  using assms by (auto simp: store_ok_def js_map.get_put distinct_map_set)

lemma store_put_Inr:
  assumes "zod_ok z" "store_put z s m = Inr (r, m')"
  obtains s0 where "parse_state z s = Inr s0" "ss_state r = s0" "canon_stored z r"
    "m' = map_set (stateStoreKey (es_scope s0) (es_state_id s0)) r m"
    "ss_revision r = (case map_get m (stateStoreKey (es_scope s0) (es_state_id s0)) of
        Some q \<Rightarrow> ss_revision q | None \<Rightarrow> 1)"
proof -
  from assms(2) obtain s0 where s0: "parse_state z s = Inr s0"
    and p: "parse_stored z \<lparr>ss_state = s0,
        ss_revision = (case map_get m (stateStoreKey (es_scope s0) (es_state_id s0)) of
          Some q \<Rightarrow> ss_revision q | None \<Rightarrow> 1),
        ss_last_transition_type = (case map_get m (stateStoreKey (es_scope s0) (es_state_id s0)) of
          Some q \<Rightarrow> ss_last_transition_type q | None \<Rightarrow> None),
        ss_last_transition_at = (case map_get m (stateStoreKey (es_scope s0) (es_state_id s0)) of
          Some q \<Rightarrow> ss_last_transition_at q | None \<Rightarrow> None)\<rparr> = Inr r"
    and m': "m' = map_set (stateStoreKey (es_scope s0) (es_state_id s0)) r m"
    by (auto simp: store_put_def Let_def)
  have "canon_state z s0" using assms(1) s0 by (rule parse_state_canon)
  with parse_stored_fields [OF assms(1) p] parse_stored_canon [OF assms(1) p] show thesis
    using that [OF s0 _ _ m'] by simp
qed

lemma store_put_ok: "zod_ok z \<Longrightarrow> store_ok z m \<Longrightarrow> store_put z s m = Inr (r, m') \<Longrightarrow> store_ok z m'"
  by (erule store_put_Inr) (auto intro: store_ok_set)

lemma traverse_trim_idem:
  "zod_ok z \<Longrightarrow> traverse (parse_trimmed z) xs = Inr ys \<Longrightarrow> traverse (parse_trimmed z) ys = Inr ys"
  by (rule traverse_id) (auto dest!: traverse_all_set intro: canon_parse_trimmed parse_trimmed_canon)

lemma parse_trimmed_idem: "zod_ok z \<Longrightarrow> parse_trimmed z s = Inr t \<Longrightarrow> parse_trimmed z t = Inr t"
  by (auto intro: canon_parse_trimmed parse_trimmed_canon)

lemma parse_body_idem:
  assumes z: "zod_ok z" and b: "parse_body z b = Inr c"
  shows "parse_body z c = Inr c"
proof -
  note c = canon_parse_nullable [OF canon_parse_contract [OF z]]
    canon_parse_nullable [OF canon_parse_anchor [OF z]]
  show ?thesis
    using z b parse_body_canon [OF z b]
    by (cases b) (auto simp: canon_body_def c intro: traverse_trim_idem parse_trimmed_idem)
qed

lemma parse_transition_idem:
  assumes z: "zod_ok z" and p: "parse_transition z t = Inr u"
  shows "parse_transition z u = Inr u"
proof -
  from p obtain i s c d b where i: "parse_trimmed z (tr_transition_id t) = Inr i"
    and s: "parse_trimmed z (tr_state_id t) = Inr s" and c: "parse_trimmed z (tr_scope t) = Inr c"
    and d: "parse_str (zod_datetime z) (tr_at t) = Inr d" and b: "parse_body z (tr_body t) = Inr b"
    and n: "case tr_expected_revision t of Some n \<Rightarrow> 0 < n | None \<Rightarrow> True"
    and u: "u = t\<lparr>tr_transition_id := i, tr_state_id := s, tr_scope := c, tr_at := d, tr_body := b\<rparr>"
    by (auto simp: parse_transition_def)
  have "parse_str (zod_datetime z) d = Inr d" using d z by (auto simp: parse_datetime_Inr)
  then show ?thesis
    using n parse_trimmed_idem [OF z i] parse_trimmed_idem [OF z s] parse_trimmed_idem [OF z c]
      parse_body_idem [OF z b]
    by (simp add: parse_transition_def u)
qed

text \<open>Type names contain no whitespace, so the schema of a stored state takes them as they are.\<close>

lemma canon_transition_type: "canon_str (transition_type b)"
  by (cases b; simp add: canon_str_def) (code_simp)+

text \<open>A transition of a stored state succeeds unless it is malformed, misses or is out of date.\<close>

lemma store_apply_eq:
  assumes z: "zod_ok z" and ok: "store_ok z m" and tr: "parse_transition z t = Inr u"
    and ex: "map_get m (stateStoreKey (tr_scope u) (tr_state_id u)) = Some q"
    and exp: "tr_expected_revision t = None \<or> tr_expected_revision t = Some (ss_revision q)"
    and ids: "es_scope (ss_state q) = tr_scope u" "es_state_id (ss_state q) = tr_state_id u"
  defines "r \<equiv> \<lparr>ss_state = apply_body (tr_body u) ((ss_state q)\<lparr>es_updated_at := tr_at u\<rparr>),
    ss_revision = ss_revision q + 1, ss_last_transition_type = Some (transition_type (tr_body u)),
    ss_last_transition_at = Some (tr_at u)\<rparr>"
  shows "store_applyTransition z t m
    = Inr (r, map_set (stateStoreKey (tr_scope u) (tr_state_id u)) r m)" "canon_stored z r"
proof -
  have q: "canon_stored z q" using ok ex by (simp add: store_ok_def)
  then have cs: "canon_state z (ss_state q)" "0 < ss_revision q" by (simp_all add: canon_stored_def)
  note u = parse_transition_idem [OF z tr]
  note f = parse_transition_fields [OF z tr]
  note ap = apply_transition_eq [OF z cs(1) u ids(2) ids(1)]
  show c: "canon_stored z r"
    using ap(2) cs(2) f by (simp add: r_def canon_stored_def canon_opt_def canon_transition_type)
  show "store_applyTransition z t m
    = Inr (r, map_set (stateStoreKey (tr_scope u) (tr_state_id u)) r m)"
    using exp f(4) ex ap(1) canon_parse_stored [OF z c]
    by (auto simp: store_applyTransition_def tr Let_def r_def [symmetric] simp flip: r_def)
qed

lemma store_apply_Inr:
  assumes z: "zod_ok z" and ap: "store_applyTransition z t m = Inr (r, m')"
  obtains u q where "parse_transition z t = Inr u"
    "map_get m (stateStoreKey (tr_scope u) (tr_state_id u)) = Some q"
    "tr_expected_revision t = None \<or> tr_expected_revision t = Some (ss_revision q)"
    "canon_stored z r" "ss_revision r = ss_revision q + 1"
    "applyExecutionStateTransition z (ss_state q) u = Inr (ss_state r)"
    "m' = map_set (stateStoreKey (tr_scope u) (tr_state_id u)) r m"
    "es_scope (ss_state r) = tr_scope u" "es_state_id (ss_state r) = tr_state_id u"
proof -
  from ap obtain u where u: "parse_transition z t = Inr u" by (auto simp: store_applyTransition_def)
  let ?k = "stateStoreKey (tr_scope u) (tr_state_id u)"
  obtain q where q: "map_get m ?k = Some q"
    using ap u by (cases "map_get m ?k") (auto simp: store_applyTransition_def Let_def)
  have rv: "(case tr_expected_revision u of Some n \<Rightarrow> n \<noteq> ss_revision q | None \<Rightarrow> False) = False"
    using ap u q by (auto simp: store_applyTransition_def Let_def split: if_splits)
  from ap u q rv obtain s where s: "applyExecutionStateTransition z (ss_state q) u = Inr s"
    and p: "parse_stored z \<lparr>ss_state = s, ss_revision = ss_revision q + 1,
        ss_last_transition_type = Some (transition_type (tr_body u)),
        ss_last_transition_at = Some (tr_at u)\<rparr> = Inr r"
    and m': "m' = map_set ?k r m"
    by (auto simp: store_applyTransition_def Let_def)
  from s obtain s0 v where sv: "parse_transition z u = Inr v" "es_state_id s0 = tr_state_id v"
    "es_scope s0 = tr_scope v" "s = apply_body (tr_body v) (s0\<lparr>es_updated_at := tr_at v\<rparr>)"
    "canon_state z s"
    using apply_transition_Inr [OF z s] by metis
  have uv: "u = v" using parse_transition_idem [OF z u] sv(1) by simp
  have "tr_expected_revision t = None \<or> tr_expected_revision t = Some (ss_revision q)"
    using rv parse_transition_fields(4) [OF z u] by (auto split: option.splits)
  moreover note parse_stored_fields [OF z p, simplified, OF sv(5)] parse_stored_canon [OF z p]
  ultimately show thesis using u q s m' sv uv by (intro that) (auto simp: apply_body_frame)
qed

lemma store_apply_ok:
  "zod_ok z \<Longrightarrow> store_ok z m \<Longrightarrow> store_applyTransition z t m = Inr (r, m') \<Longrightarrow> store_ok z m'"
  by (erule store_apply_Inr) (auto intro!: store_ok_set)

section \<open>The store as a state machine\<close>

inductive store_step :: "zod \<Rightarrow> state_store \<Rightarrow> state_store \<Rightarrow> bool" for z where
  step_put: "store_put z s m = Inr (r, m') \<Longrightarrow> store_step z m m'"
| step_apply: "store_applyTransition z t m = Inr (r, m') \<Longrightarrow> store_step z m m'"
| step_clear: "store_step z m (store_clear m)"

inductive_cases store_stepE: "store_step z m m'"

lemma store_ok_Nil: "store_ok z []"
  by (simp add: store_ok_def map_get_def)

lemma store_step_ok:
  assumes "store_step z m m'" "zod_ok z" "store_ok z m"
  shows "store_ok z m'"
  using assms(1)
proof (rule store_stepE)
  fix s r assume "store_put z s m = Inr (r, m')"
  with assms(2,3) show ?thesis by (rule store_put_ok)
next
  fix t r assume "store_applyTransition z t m = Inr (r, m')"
  with assms(2,3) show ?thesis by (rule store_apply_ok)
next
  assume "m' = store_clear m"
  then show ?thesis by (simp add: store_clear_def store_ok_Nil)
qed

interpretation store: invariant_system "\<lambda>m. m = []" "store_step z" "\<lambda>m. zod_ok z \<longrightarrow> store_ok z m" for z
  by unfold_locales (auto simp: store_ok_Nil intro: store_step_ok)

text \<open>Keys of scopes without a colon do not collide.\<close>

lemma stateStoreKey_inj:
  assumes "CHR '':'' \<notin> set s1" "CHR '':'' \<notin> set s2" "stateStoreKey s1 i1 = stateStoreKey s2 i2"
  shows "s1 = s2 \<and> i1 = i2"
proof -
  have tw: "takeWhile (\<lambda>c. c \<noteq> CHR '':'') (stateStoreKey s i) = s" if "CHR '':'' \<notin> set s" for s i
  proof -
    have "\<forall>c \<in> set s. c \<noteq> CHR '':''" using that by auto
    then have "takeWhile (\<lambda>c. c \<noteq> CHR '':'') (s @ ''::'' @ i) = s @ takeWhile (\<lambda>c. c \<noteq> CHR '':'') (''::'' @ i)"
      by (intro takeWhile_append2) auto
    then show ?thesis by (simp add: stateStoreKey_def)
  qed
  from tw [OF assms(1), of i1] tw [OF assms(2), of i2] assms(3) have "s1 = s2" by simp
  with assms(3) show ?thesis by (simp add: stateStoreKey_def)
qed

section \<open>Packets, profiles and assembly\<close>

definition compactAcceptedFacts :: "execution_state \<Rightarrow> string list" where
  "compactAcceptedFacts s =
     (case es_last_accepted_hypothesis s of
        Some h \<Rightarrow> if h = [] then [] else [''accepted_hypothesis:'' @ h] | None \<Rightarrow> [])
     @ map (\<lambda>f. ''modified_file:'' @ f) (es_modified_files s)
     @ map (\<lambda>c. ''completed_validation:'' @ c) (es_completed_validations s)"

definition deriveNextAction :: "execution_state \<Rightarrow> string option" where
  "deriveNextAction s =
     (if es_pending_validations s \<noteq> [] then
        Some (''Complete pending validations: '' @ js_join '' | '' (es_pending_validations s))
      else if es_unresolved_blockers s \<noteq> [] then
        Some (''Resolve blockers: '' @ js_join '' | '' (es_unresolved_blockers s))
      else if es_owned_files s \<noteq> [] then
        Some (''Continue work on target files: '' @ js_join '' | '' (es_owned_files s))
      else None)"

record packet_input =
  pi_state :: execution_state
  pi_hard_constraints :: "string list option"
  pi_accepted_facts :: "string list option"
  pi_artifact_refs :: "string list option"
  pi_evidence_refs :: "string list option"

abbreviation or_default :: "'a option \<Rightarrow> 'a \<Rightarrow> 'a" where
  "or_default m d \<equiv> (case m of Some x \<Rightarrow> x | None \<Rightarrow> d)"

definition buildExecutionPacketV1 :: "zod \<Rightarrow> packet_input \<Rightarrow> string + execution_packet" where
  "buildExecutionPacketV1 z input =
     and_then (parse_state z (pi_state input)) (\<lambda>s.
       parse_packet z
         \<lparr>ep_version = 1, ep_state_id = es_state_id s, ep_current_stage = es_current_stage s,
          ep_active_role = es_active_role s, ep_task_brief = es_task_brief s,
          ep_target_files = (if es_owned_files s \<noteq> [] then es_owned_files s else es_modified_files s),
          ep_next_action = deriveNextAction s,
          ep_hard_constraints = or_default (pi_hard_constraints input) [],
          ep_accepted_facts = or_default (pi_accepted_facts input) (compactAcceptedFacts s),
          ep_rejected_paths = es_rejected_paths s,
          ep_pending_validations = es_pending_validations s,
          ep_unresolved_blockers = es_unresolved_blockers s,
          ep_rollback_notes = es_rollback_notes s,
          ep_service_lifecycle_constraints = es_service_lifecycle_constraints s,
          ep_review_contract = es_reviewer_contract s, ep_resume_anchor = es_resume_anchor s,
          ep_artifact_refs = or_default (pi_artifact_refs input) [],
          ep_evidence_refs = or_default (pi_evidence_refs input) []\<rparr>)"

datatype assembly_mode = ModeNone | ModePacketInput | ModeStateFirst

definition resolveExecutionPacketAssembly ::
  "zod \<Rightarrow> execution_packet option \<Rightarrow> execution_state option \<Rightarrow>
     string + execution_packet option \<times> assembly_mode" where
  "resolveExecutionPacketAssembly z pkt st =
     (case pkt of
        Some p \<Rightarrow> and_then (parse_packet z p) (\<lambda>q. Inr (Some q, ModePacketInput))
      | None \<Rightarrow>
          (case st of
             Some s \<Rightarrow>
               and_then (parse_state z s) (\<lambda>s'.
               and_then (buildExecutionPacketV1 z
                   \<lparr>pi_state = s', pi_hard_constraints = None, pi_accepted_facts = None,
                    pi_artifact_refs = None, pi_evidence_refs = None\<rparr>)
                 (\<lambda>q. Inr (Some q, ModeStateFirst)))
           | None \<Rightarrow> Inr (None, ModeNone)))"

record control_profile =
  cp_profile :: exec_stage
  cp_max_same_tool_streak :: nat
  cp_max_no_progress_streak :: nat
  cp_max_duplicate_observation_streak :: nat
  cp_max_steps :: nat
  cp_allow_broad_scan :: bool
  cp_allow_broad_test :: bool
  cp_escalate_on_blocker :: bool
  cp_reviewer_ready_required :: bool

fun controlProfileDefaults :: "exec_stage \<Rightarrow> control_profile" where
  "controlProfileDefaults StTriage =
     \<lparr>cp_profile = StTriage, cp_max_same_tool_streak = 3, cp_max_no_progress_streak = 3,
      cp_max_duplicate_observation_streak = 2, cp_max_steps = 8, cp_allow_broad_scan = True,
      cp_allow_broad_test = False, cp_escalate_on_blocker = True, cp_reviewer_ready_required = False\<rparr>"
| "controlProfileDefaults StPatch =
     \<lparr>cp_profile = StPatch, cp_max_same_tool_streak = 3, cp_max_no_progress_streak = 2,
      cp_max_duplicate_observation_streak = 2, cp_max_steps = 10, cp_allow_broad_scan = False,
      cp_allow_broad_test = True, cp_escalate_on_blocker = True, cp_reviewer_ready_required = False\<rparr>"
| "controlProfileDefaults StReview =
     \<lparr>cp_profile = StReview, cp_max_same_tool_streak = 2, cp_max_no_progress_streak = 2,
      cp_max_duplicate_observation_streak = 2, cp_max_steps = 6, cp_allow_broad_scan = False,
      cp_allow_broad_test = False, cp_escalate_on_blocker = True, cp_reviewer_ready_required = True\<rparr>"
| "controlProfileDefaults StResume =
     \<lparr>cp_profile = StResume, cp_max_same_tool_streak = 2, cp_max_no_progress_streak = 2,
      cp_max_duplicate_observation_streak = 2, cp_max_steps = 6, cp_allow_broad_scan = False,
      cp_allow_broad_test = False, cp_escalate_on_blocker = True, cp_reviewer_ready_required = False\<rparr>"

end
