(* ===== verification/PropsExec.thy ===== *)
theory PropsExec
  imports ExecStore
begin

text \<open>
  The properties of the execution state, its store and its packets (src/src/execution), each
  with a witness where it has hypotheses.
\<close>

section \<open>Values for the witnesses\<close>

text \<open>String checks that behave as zod documents them; any text counts as a timestamp.\<close>

definition sample_zod :: zod where
  "sample_zod =
     \<lparr>zod_trimmed = (\<lambda>s. if js_trim s = [] then None else Some (js_trim s)),
      zod_nonempty = (\<lambda>s. if s = [] then None else Some s),
      zod_datetime = Some\<rparr>"

definition sample_state :: execution_state where
  "sample_state =
     \<lparr>es_state_id = ''s'', es_scope = ''c'', es_task_brief = ''b'', es_current_stage = StPatch,
      es_active_role = RoPatch, es_owned_files = [], es_modified_files = [],
      es_pending_validations = [''lint''], es_completed_validations = [],
      es_last_accepted_hypothesis = None, es_rejected_paths = [], es_unresolved_blockers = [],
      es_rollback_notes = [], es_service_lifecycle_constraints = [], es_reviewer_contract = None,
      es_resume_anchor = None, es_updated_at = ''t'', es_version = 1\<rparr>"

definition sample_transition :: exec_transition where
  "sample_transition =
     \<lparr>tr_transition_id = ''x'', tr_state_id = ''s'', tr_scope = ''c'', tr_actor_role = RoPatch,
      tr_at = ''u'', tr_expected_revision = Some 1, tr_body = ValidationCompleted [''lint'']\<rparr>"

lemma sample_zod_ok: "zod_ok sample_zod"
  by (simp add: zod_ok_def sample_zod_def)

lemma sample_state_parses: "parse_state sample_zod sample_state = Inr sample_state"
  by code_simp

lemma sample_transition_parses: "parse_transition sample_zod sample_transition = Inr sample_transition"
  by code_simp

definition sample_record :: stored_state where
  "sample_record =
     \<lparr>ss_state = sample_state, ss_revision = 1, ss_last_transition_type = None,
      ss_last_transition_at = None\<rparr>"

definition sample_store :: state_store where
  "sample_store = [(''c::s'', sample_record)]"

lemma sample_put: "store_put sample_zod sample_state [] = Inr (sample_record, sample_store)"
proof -
  have "stateStoreKey (es_scope sample_state) (es_state_id sample_state) = ''c::s''" by code_simp
  moreover have "parse_stored sample_zod sample_record = Inr sample_record"
    using sample_state_parses by (simp add: parse_stored_def sample_record_def parse_nullable_def)
  ultimately show ?thesis
    by (simp add: store_put_def sample_state_parses map_get_def sample_store_def sample_record_def)
qed

lemmas sample_ids = sample_state_def sample_transition_def

section \<open>Transitions\<close>

lemma parses_canon: "zod_ok z \<Longrightarrow> parse_state z s = Inr s \<Longrightarrow> canon_state z s"
  by (rule parse_state_canon)

lemma transition_result:
  assumes "zod_ok z" "parse_state z s = Inr s" "parse_transition z t = Inr u"
    and "es_state_id s = tr_state_id u" "es_scope s = tr_scope u"
  shows "applyExecutionStateTransition z s t = Inr (apply_body (tr_body u) (s\<lparr>es_updated_at := tr_at u\<rparr>))"
    "canon_state z (apply_body (tr_body u) (s\<lparr>es_updated_at := tr_at u\<rparr>))"
  using apply_transition_eq [OF assms(1) parses_canon [OF assms(1,2)] assms(3-5)] by simp_all

text \<open>C21: a well-formed transition addressed to a state the schema accepts always succeeds; the
  result is accepted by the schema unchanged, and only its stage, role, validations,
  hypothesis, rejected paths, blockers, contract, anchor and timestamp can differ: every other
  field of the state is the one it was, and the timestamp is that of the transition.\<close>

theorem transition_total:
  assumes "zod_ok z" "parse_state z s = Inr s" "parse_transition z t = Inr u"
    and "es_state_id s = tr_state_id u" "es_scope s = tr_scope u"
  shows "\<exists>s'. applyExecutionStateTransition z s t = Inr s' \<and> parse_state z s' = Inr s'
    \<and> es_state_id s' = es_state_id s \<and> es_scope s' = es_scope s \<and> es_task_brief s' = es_task_brief s
    \<and> es_owned_files s' = es_owned_files s \<and> es_modified_files s' = es_modified_files s
    \<and> es_rollback_notes s' = es_rollback_notes s
    \<and> es_service_lifecycle_constraints s' = es_service_lifecycle_constraints s
    \<and> es_version s' = es_version s \<and> es_updated_at s' = tr_at t"
proof -
  note ap = transition_result [OF assms]
  then show ?thesis
    using canon_parse_state [OF assms(1) ap(2)] parse_transition_fields(3) [OF assms(1,3)]
    by (auto simp: apply_body_frame)
qed

theorem transition_total_witness:
  "\<exists>s'. applyExecutionStateTransition sample_zod sample_state sample_transition = Inr s'
     \<and> es_updated_at s' = ''u''"
  using transition_total [OF sample_zod_ok sample_state_parses sample_transition_parses]
  by (auto simp: sample_ids)

text \<open>C22: along any sequence of transitions that applies, no validation becomes both pending and
  completed (names compared up to surrounding whitespace).\<close>

theorem validations_stay_disjoint:
  assumes "zod_ok z" "fold_result (applyExecutionStateTransition z) s ts = Inr s'" "validations_disjoint s"
  shows "validations_disjoint s'"
proof (rule fold_result_invariant [where P = "\<lambda>_. validations_disjoint", OF assms(2,3)])
  fix ys y zs u v
  assume d: "validations_disjoint u" and a: "applyExecutionStateTransition z u y = Inr v"
  from assms(1) a show "validations_disjoint v"
  proof (rule apply_transition_Inr)
    fix s0 w
    assume p: "parse_state z u = Inr s0" and v: "v = apply_body (tr_body w) (s0\<lparr>es_updated_at := tr_at w\<rparr>)"
    have "es_pending_validations s0 = es_pending_validations u"
      "es_completed_validations s0 = es_completed_validations u"
      using p assms(1) by (auto simp: parse_state_def StringList_Inr)
    with d have "validations_disjoint (s0\<lparr>es_updated_at := tr_at w\<rparr>)"
      by (simp add: validations_disjoint_def)
    then show ?thesis unfolding v by (rule apply_body_disjoint)
  qed
qed

theorem validations_stay_disjoint_witness:
  "validations_disjoint (case applyExecutionStateTransition sample_zod sample_state sample_transition of Inr s' \<Rightarrow> s')"
proof -
  obtain s' where s': "applyExecutionStateTransition sample_zod sample_state sample_transition = Inr s'"
    using transition_result(1) [OF sample_zod_ok sample_state_parses sample_transition_parses]
    by (auto simp: sample_ids)
  have "validations_disjoint sample_state" by (simp add: validations_disjoint_def sample_state_def)
  from validations_stay_disjoint [OF sample_zod_ok _ this, of "[sample_transition]" s'] s'
  show ?thesis by simp
qed

text \<open>What completing and adding validations does: a completed name leaves the pending list
  and joins the completed one, an added name does the opposite, and every other name stays
  where it was.\<close>

theorem validation_sets_move:
  assumes "names = js_trim ` set vs - {[]}"
  shows "js_trim ` set (es_pending_validations (apply_body (ValidationCompleted vs) s)) - {[]}
      = js_trim ` set (es_pending_validations s) - {[]} - names
    \<and> js_trim ` set (es_completed_validations (apply_body (ValidationCompleted vs) s)) - {[]}
      = js_trim ` set (es_completed_validations s) - {[]} \<union> names
    \<and> js_trim ` set (es_pending_validations (apply_body (ValidationAdded vs) s)) - {[]}
      = js_trim ` set (es_pending_validations s) - {[]} \<union> names
    \<and> js_trim ` set (es_completed_validations (apply_body (ValidationAdded vs) s)) - {[]}
      = js_trim ` set (es_completed_validations s) - {[]} - names"
  unfolding assms apply_body_validation_sets by auto

theorem validation_sets_move_witness:
  "''lint'' \<in> js_trim ` set (es_completed_validations (apply_body (ValidationCompleted [''lint'']) sample_state))"
proof -
  have "js_trim ''lint'' = ''lint''" by code_simp
  then show ?thesis
    using validation_sets_move [OF refl, of "[''lint'']" sample_state] by auto
qed

section \<open>The store\<close>

text \<open>Optimistic concurrency: when a transition that expects revision \<open>n\<close> is stored, the
  revision was \<open>n\<close> and becomes \<open>n + 1\<close>, so a second transition of the same state that
  expects \<open>n\<close> as well is refused.\<close>

theorem stale_revision_refused:
  assumes "zod_ok z" "store_applyTransition z t1 m = Inr (r1, m1)"
    and "tr_expected_revision t1 = Some n" "tr_expected_revision t2 = Some n"
    and "js_trim (tr_scope t1) = js_trim (tr_scope t2)" "js_trim (tr_state_id t1) = js_trim (tr_state_id t2)"
  shows "ss_revision r1 = n + 1 \<and> (\<exists>msg. store_applyTransition z t2 m1 = Inl msg)"
  using assms(1,2)
proof (rule store_apply_Inr)
  fix u q
  assume u: "parse_transition z t1 = Inr u"
    and exp: "tr_expected_revision t1 = None \<or> tr_expected_revision t1 = Some (ss_revision q)"
    and rev: "ss_revision r1 = ss_revision q + 1"
    and m1: "m1 = map_set (stateStoreKey (tr_scope u) (tr_state_id u)) r1 m"
  have r: "ss_revision r1 = n + 1" using exp rev assms(3) by simp
  have "\<exists>msg. store_applyTransition z t2 m1 = Inl msg"
  proof (cases "store_applyTransition z t2 m1")
    case (Inr rm)
    then obtain r2 m2 where "store_applyTransition z t2 m1 = Inr (r2, m2)" by (cases rm) auto
    from assms(1) this show ?thesis
    proof (rule store_apply_Inr)
      fix v p
      assume v: "parse_transition z t2 = Inr v"
        and p: "map_get m1 (stateStoreKey (tr_scope v) (tr_state_id v)) = Some p"
        and e: "tr_expected_revision t2 = None \<or> tr_expected_revision t2 = Some (ss_revision p)"
      have "tr_scope v = tr_scope u" "tr_state_id v = tr_state_id u"
        using parse_transition_fields(8,9) [OF assms(1) u] parse_transition_fields(8,9) [OF assms(1) v]
          assms(5,6) by simp_all
      then have "p = r1" using p by (simp add: m1 js_map.get_put)
      with e r assms(4) have False by simp
      then show ?thesis ..
    qed
  qed simp
  with r show ?thesis by simp
qed

theorem stale_revision_refused_witness:
  "\<exists>m1 msg. store_applyTransition sample_zod sample_transition m1 = Inl msg"
proof -
  have ok: "store_ok sample_zod sample_store" using store_put_ok [OF sample_zod_ok store_ok_Nil sample_put] .
  have "map_get sample_store (stateStoreKey (tr_scope sample_transition) (tr_state_id sample_transition))
      = Some sample_record" by code_simp
  from store_apply_eq(1) [OF sample_zod_ok ok sample_transition_parses this]
  obtain r1 m1 where a: "store_applyTransition sample_zod sample_transition sample_store = Inr (r1, m1)"
    by (auto simp: sample_ids sample_record_def)
  then show ?thesis
    using stale_revision_refused [OF sample_zod_ok a, of 1 sample_transition]
    by (auto simp: sample_transition_def)
qed

text \<open>C23: in a store reached by any sequence of puts, transitions and clears, every lookup returns
  the stored record as it is (the schema never rejects or changes it), filed under the key of
  its own scope and id, with a positive revision.\<close>

theorem store_lookups_sound:
  assumes "zod_ok z" "(store_step z)\<^sup>*\<^sup>* [] m"
  shows "store_get z m scp sid = Inr (map_get m (stateStoreKey scp sid))
    \<and> (\<forall>r. map_get m (stateStoreKey scp sid) = Some r \<longrightarrow>
         0 < ss_revision r \<and> stateStoreKey scp sid = stateStoreKey (es_scope (ss_state r)) (es_state_id (ss_state r)))"
proof -
  have "store_ok z m"
    using store.run_inv [OF assms(2)] assms(1) store_ok_Nil by blast
  then show ?thesis
    using canon_parse_stored [OF assms(1)]
    by (auto simp: store_get_def store_ok_def canon_stored_def split: option.splits)
qed

theorem store_lookups_sound_witness:
  "store_get sample_zod sample_store ''c'' ''s'' = Inr (Some sample_record)
   \<and> 0 < ss_revision sample_record
   \<and> stateStoreKey ''c'' ''s'' = stateStoreKey (es_scope (ss_state sample_record)) (es_state_id (ss_state sample_record))
   \<and> store_get sample_zod sample_store ''c'' ''other'' = Inr None"
proof -
  have run: "(store_step sample_zod)\<^sup>*\<^sup>* [] sample_store"
    using sample_put by (meson r_into_rtranclp store_step.step_put)
  have keys: "map_get sample_store (stateStoreKey ''c'' ''s'') = Some sample_record"
    "map_get sample_store (stateStoreKey ''c'' ''other'') = None"
    by code_simp+
  show ?thesis
    using store_lookups_sound [OF sample_zod_ok run, of "''c''" "''s''"]
      store_lookups_sound [OF sample_zod_ok run, of "''c''" "''other''"]
    unfolding keys by simp
qed

text \<open>Scopes are isolated as long as their names contain no colon: storing a state leaves
  every other scope and id as it was, and the stored state is what the next lookup returns.\<close>

theorem store_put_isolated:
  assumes "zod_ok z" "store_put z s m = Inr (r, m')"
    and "CHR '':'' \<notin> set (es_scope (ss_state r))" "CHR '':'' \<notin> set scp"
  shows "store_get z m' (es_scope (ss_state r)) (es_state_id (ss_state r)) = Inr (Some r)
    \<and> ((scp, sid) \<noteq> (es_scope (ss_state r), es_state_id (ss_state r)) \<longrightarrow>
         store_get z m' scp sid = store_get z m scp sid)"
  using assms(1,2)
proof (rule store_put_Inr)
  fix s0
  assume s0: "ss_state r = s0" "canon_stored z r"
    "m' = map_set (stateStoreKey (es_scope s0) (es_state_id s0)) r m"
  have "stateStoreKey scp sid \<noteq> stateStoreKey (es_scope s0) (es_state_id s0)"
    if "(scp, sid) \<noteq> (es_scope s0, es_state_id s0)"
    using stateStoreKey_inj [OF assms(4,3)] that s0(1) by auto
  then show ?thesis
    using s0 canon_parse_stored [OF assms(1) s0(2)] by (auto simp: store_get_def js_map.get_put)
qed

theorem store_put_isolated_witness:
  "store_get sample_zod sample_store ''c'' ''s'' = Inr (Some sample_record)"
  using store_put_isolated [OF sample_zod_ok sample_put, of "''c''" "''s''"]
  by (simp add: sample_record_def sample_state_def)

section \<open>Packets\<close>

lemma parse_next_action:
  assumes "zod_ok z"
  shows "\<exists>na. parse_nullable (parse_trimmed z) (deriveNextAction s) = Inr na"
proof -
  have "js_trim (c # r) \<noteq> []" if "\<not> is_ws c" for c r using that by (simp add: js_trim_eq_Nil)
  then have "\<exists>t. parse_trimmed z x = Inr t" if "deriveNextAction s = Some x" for x
    using that assms by (auto simp: deriveNextAction_def parse_trimmed_Inr is_ws_def split: if_splits)
  then show ?thesis by (cases "deriveNextAction s") (auto simp: parse_nullable_def)
qed

text \<open>Every state the schema accepts has a packet: assembling one from the state alone never
  fails, and the packet carries the state's identity, stage and open work.\<close>

theorem packet_from_state_total:
  assumes "zod_ok z" "parse_state z s = Inr s'"
  shows "\<exists>p. resolveExecutionPacketAssembly z None (Some s) = Inr (Some p, ModeStateFirst)
    \<and> ep_state_id p = es_state_id s' \<and> ep_current_stage p = es_current_stage s
    \<and> ep_pending_validations p = es_pending_validations s
    \<and> ep_unresolved_blockers p = es_unresolved_blockers s
    \<and> ep_accepted_facts p = compactAcceptedFacts s'"
proof -
  have c: "canon_state z s'" using assms by (rule parse_state_canon)
  have same: "es_current_stage s' = es_current_stage s" "es_pending_validations s' = es_pending_validations s"
    "es_unresolved_blockers s' = es_unresolved_blockers s"
    using assms by (auto simp: parse_state_def StringList_Inr)
  obtain na where na: "parse_nullable (parse_trimmed z) (deriveNextAction s') = Inr na"
    using parse_next_action [OF assms(1)] by blast
  have facts: "canon_list (compactAcceptedFacts s')"
    by (auto simp: canon_list_def compactAcceptedFacts_def split: option.splits)
  show ?thesis
    using c na facts assms same
    by (simp add: resolveExecutionPacketAssembly_def buildExecutionPacketV1_def canon_parse_state
        parse_packet_def canon_state_def StringList_Inr canon_parse_trimmed canon_parse_services
        canon_parse_nullable [of canon_contract] canon_parse_nullable [of canon_anchor]
        canon_parse_contract canon_parse_anchor canon_list_def)
qed

theorem packet_from_state_total_witness:
  "\<exists>p. resolveExecutionPacketAssembly sample_zod None (Some sample_state) = Inr (Some p, ModeStateFirst)
     \<and> ep_pending_validations p = [''lint'']"
  using packet_from_state_total [OF sample_zod_ok sample_state_parses] by (auto simp: sample_state_def)

end
