(* ===== verification/JsConvert.thy ===== *)
theory JsConvert
  imports JsValue "HOL-Library.List_Lexorder" "HOL-Library.Char_ord"
begin

text \<open>
  The conversions and comparisons of the language that the policy code applies to values it has
  not checked: truth, \<^verbatim>\<open>Number(v)\<close>, \<^verbatim>\<open>String(v)\<close>, arithmetic and comparison of numbers,
  reading a member of any value, and searching a string.  A value that may be undefined is a
  \<open>jv option\<close>.

  Two corners are left out: an object that carries its own \<^verbatim>\<open>toString\<close> or \<^verbatim>\<open>valueOf\<close>
  converts like any other object (in JavaScript the conversion throws), and the members of
  functions are not followed.
\<close>

section \<open>Numbers\<close>

fun num_lt :: "jsnum \<Rightarrow> jsnum \<Rightarrow> bool" where
  "num_lt (Fin a) (Fin b) \<longleftrightarrow> a < b"
| "num_lt (Fin a) PosInf \<longleftrightarrow> True"
| "num_lt NegInf (Fin b) \<longleftrightarrow> True"
| "num_lt NegInf PosInf \<longleftrightarrow> True"
| "num_lt _ _ \<longleftrightarrow> False"

definition num_eq :: "jsnum \<Rightarrow> jsnum \<Rightarrow> bool" where
  "num_eq a b \<longleftrightarrow> a = b \<and> a \<noteq> NaN"

definition num_le :: "jsnum \<Rightarrow> jsnum \<Rightarrow> bool" where
  "num_le a b \<longleftrightarrow> num_lt a b \<or> num_eq a b"

text \<open>Addition and multiplication of finite numbers round; the rest is IEEE.\<close>

fun num_neg :: "jsnum \<Rightarrow> jsnum" where
  "num_neg (Fin a) = Fin (- a)"
| "num_neg PosInf = NegInf"
| "num_neg NegInf = PosInf"
| "num_neg NaN = NaN"

fun num_add :: "jsnum \<Rightarrow> jsnum \<Rightarrow> jsnum" where
  "num_add (Fin a) (Fin b) = to_num (a + b)"
| "num_add NaN _ = NaN"
| "num_add _ NaN = NaN"
| "num_add PosInf NegInf = NaN"
| "num_add NegInf PosInf = NaN"
| "num_add PosInf _ = PosInf"
| "num_add NegInf _ = NegInf"
| "num_add (Fin _) b = b"

definition num_sub :: "jsnum \<Rightarrow> jsnum \<Rightarrow> jsnum" where
  "num_sub a b = num_add a (num_neg b)"

definition num_sign :: "jsnum \<Rightarrow> int" where
  "num_sign a = (if num_lt a (Fin 0) then - 1 else if num_lt (Fin 0) a then 1 else 0)"

fun num_mul :: "jsnum \<Rightarrow> jsnum \<Rightarrow> jsnum" where
  "num_mul (Fin a) (Fin b) = to_num (a * b)"
| "num_mul a b =
     (if a = NaN \<or> b = NaN \<or> num_sign a * num_sign b = 0 then NaN
      else if 0 < num_sign a * num_sign b then PosInf else NegInf)"

definition is_finite :: "jsnum \<Rightarrow> bool" where
  "is_finite a \<longleftrightarrow> (case a of Fin _ \<Rightarrow> True | _ \<Rightarrow> False)"

text \<open>\<^verbatim>\<open>Math.trunc\<close>.\<close>

fun num_trunc :: "jsnum \<Rightarrow> jsnum" where
  "num_trunc (Fin a) = Fin (of_int (if 0 \<le> a then \<lfloor>a\<rfloor> else \<lceil>a\<rceil>))"
| "num_trunc a = a"

definition js_nat :: "nat \<Rightarrow> jsnum" where
  "js_nat n = to_num (of_nat n)"

section \<open>The text of a number\<close>

text \<open>
  \<^verbatim>\<open>Number.prototype.toString\<close>: the fewest decimal digits that read back as the same double,
  the closest of those.  \<open>decimal_exp q\<close> is the \<open>n\<close> with \<open>10 ^ (n - 1) \<le> q < 10 ^ n\<close>,
  found from the binary exponent; \<open>shortest k\<close> tries \<open>k\<close>, \<open>k + 1\<close>, \dots{} up to 17 digits,
  which always suffice.
\<close>

definition decimal_exp :: "rat \<Rightarrow> int" where
  "decimal_exp q =
     (let g = (floor_log2 q * 30103) div 100000
      in if q < pow10 g then g else if q < pow10 (g + 1) then g + 1 else g + 2)"

definition with_digits :: "rat \<Rightarrow> int \<Rightarrow> nat \<Rightarrow> int option" where
  "with_digits q n k =
     (let x = q / pow10 (n - int k);
          reads = (\<lambda>s. round_double (of_int s * pow10 (n - int k)) = q);
          near = \<lfloor>x + 1 / 2\<rfloor>; other = (if of_int near \<le> x then near + 1 else near - 1)
      in if reads near then Some near else if reads other then Some other else None)"

fun shortest :: "rat \<Rightarrow> int \<Rightarrow> nat \<Rightarrow> nat \<Rightarrow> int \<times> nat" where
  "shortest q n 0 k = (\<lfloor>q / pow10 (n - int k) + 1 / 2\<rfloor>, k)"
| "shortest q n (Suc f) k =
     (case with_digits q n k of Some s \<Rightarrow> (s, k) | None \<Rightarrow> shortest q n f (k + 1))"

text \<open>Digits \<open>ds\<close> and the exponent \<open>n\<close>: the value is \<open>0.ds\<close> times \<open>10 ^ n\<close>.\<close>

definition format_digits :: "string \<Rightarrow> int \<Rightarrow> string" where
  "format_digits ds n =
     (let k = int (length ds);
          ex = (if n - 1 < 0 then CHR ''-'' # dec_nat (nat (1 - n)) else CHR ''+'' # dec_nat (nat (n - 1)))
      in if k \<le> n \<and> n \<le> 21 then ds @ replicate (nat (n - k)) (CHR ''0'')
         else if 0 < n \<and> n \<le> 21 then take (nat n) ds @ ''.'' @ drop (nat n) ds
         else if - 6 < n \<and> n \<le> 0 then ''0.'' @ replicate (nat (- n)) (CHR ''0'') @ ds
         else if k = 1 then ds @ ''e'' @ ex
         else take 1 ds @ ''.'' @ drop 1 ds @ ''e'' @ ex)"

definition positive_text :: "rat \<Rightarrow> string" where
  "positive_text q =
     (let n = decimal_exp q; (s, k) = shortest q n 16 1; ds = dec_nat (nat s)
      in format_digits (rev (dropWhile (\<lambda>c. c = CHR ''0'') (rev ds))) (n - int k + int (length ds)))"

fun num_text :: "jsnum \<Rightarrow> string" where
  "num_text (Fin a) =
     (if a = 0 then ''0'' else if a < 0 then ''-'' @ positive_text (- a) else positive_text a)"
| "num_text PosInf = ''Infinity''"
| "num_text NegInf = ''-Infinity''"
| "num_text NaN = ''NaN''"

section \<open>Truth, \<^verbatim>\<open>String\<close> and \<^verbatim>\<open>Number\<close>\<close>

fun js_truthy :: "jv option \<Rightarrow> bool" where
  "js_truthy None = False"
| "js_truthy (Some JNull) = False"
| "js_truthy (Some (JBool b)) = b"
| "js_truthy (Some (JNum x)) = (x \<noteq> Fin 0 \<and> x \<noteq> NaN)"
| "js_truthy (Some (JStr s)) = (s \<noteq> [])"
| "js_truthy (Some v) = True"

fun js_string :: "jv \<Rightarrow> string" where
  "js_string JNull = ''null''"
| "js_string (JBool b) = (if b then ''true'' else ''false'')"
| "js_string (JNum x) = num_text x"
| "js_string (JStr s) = s"
| "js_string (JArr vs) = js_join '','' (map (\<lambda>v. if v = JNull then [] else js_string v) vs)"
| "js_string (JObj ob) = ''[object Object]''"
| "js_string (JHost k) =
     (if k = ''__proto__'' then ''[object Object]'' else ''function '' @ k @ ''() { [native code] }'')"

fun js_to_number :: "jv \<Rightarrow> jsnum" where
  "js_to_number JNull = Fin 0"
| "js_to_number (JBool b) = (if b then Fin 1 else Fin 0)"
| "js_to_number (JNum x) = x"
| "js_to_number (JStr s) = js_number s"
| "js_to_number v = js_number (js_string v)"

text \<open>\<^verbatim>\<open>Number(v)\<close> with undefined.\<close>

definition js_Number :: "jv option \<Rightarrow> jsnum" where
  "js_Number v = (case v of None \<Rightarrow> NaN | Some u \<Rightarrow> js_to_number u)"

section \<open>Reading a member of any value\<close>

definition array_members :: "string list" where
  "array_members =
     [''at'', ''concat'', ''copyWithin'', ''fill'', ''find'', ''findIndex'', ''findLast'',
      ''findLastIndex'', ''lastIndexOf'', ''pop'', ''push'', ''reverse'', ''shift'', ''unshift'',
      ''slice'', ''sort'', ''splice'', ''includes'', ''indexOf'', ''join'', ''keys'', ''entries'',
      ''values'', ''forEach'', ''filter'', ''flat'', ''flatMap'', ''map'', ''every'', ''some'',
      ''reduce'', ''reduceRight'', ''toReversed'', ''toSorted'', ''toSpliced'', ''with'']"

definition string_members :: "string list" where
  "string_members =
     [''anchor'', ''at'', ''big'', ''blink'', ''bold'', ''charAt'', ''charCodeAt'', ''codePointAt'',
      ''concat'', ''endsWith'', ''fontcolor'', ''fontsize'', ''fixed'', ''includes'', ''indexOf'',
      ''italics'', ''lastIndexOf'', ''link'', ''localeCompare'', ''match'', ''matchAll'',
      ''normalize'', ''padEnd'', ''padStart'', ''repeat'', ''replace'', ''replaceAll'', ''search'',
      ''slice'', ''small'', ''split'', ''strike'', ''sub'', ''substr'', ''substring'', ''sup'',
      ''startsWith'', ''trim'', ''trimStart'', ''trimLeft'', ''trimEnd'', ''trimRight'',
      ''toLocaleLowerCase'', ''toLocaleUpperCase'', ''toLowerCase'', ''toUpperCase'',
      ''isWellFormed'', ''toWellFormed'']"

definition number_members :: "string list" where
  "number_members = [''toExponential'', ''toFixed'', ''toPrecision'']"

definition host_member :: "string list \<Rightarrow> string \<Rightarrow> jv option" where
  "host_member names k = (if k \<in> set names \<or> k \<in> set proto_keys then Some (JHost k) else None)"

definition indexed_member :: "string list \<Rightarrow> jv list \<Rightarrow> string \<Rightarrow> jv option" where
  "indexed_member names vs k =
     (if is_index_key k then
        (let i = nat_of_digits 0 k in if i < length vs then Some (vs ! i) else None)
      else if k = ''length'' then Some (JNum (js_nat (length vs)))
      else host_member names k)"

text \<open>\<open>js_get v k\<close> is \<^verbatim>\<open>v[k]\<close> for a value that is neither null nor undefined.\<close>

fun js_get :: "jv \<Rightarrow> string \<Rightarrow> jv option" where
  "js_get (JObj ob) k = obj_get ob k"
| "js_get (JArr vs) k = indexed_member array_members vs k"
| "js_get (JStr s) k = indexed_member string_members (map (\<lambda>c. JStr [c]) s) k"
| "js_get (JNum _) k = host_member number_members k"
| "js_get (JBool _) k = host_member [] k"
| "js_get v k = js_prop v k"

definition js_is_array :: "jv \<Rightarrow> bool" where
  "js_is_array v = (case v of JArr _ \<Rightarrow> True | _ \<Rightarrow> False)"

text \<open>The own members of a plain object.\<close>

definition plain_members :: "jv \<Rightarrow> jobj option" where
  "plain_members v =
     (case v of JObj ob \<Rightarrow> Some ob | JHost k \<Rightarrow> if k = ''__proto__'' then Some [] else None | _ \<Rightarrow> None)"

lemma plain_members_iff: "is_plain_object v \<longleftrightarrow> plain_members v \<noteq> None"
  by (auto simp: is_plain_object_def plain_members_def split: jv.splits)

section \<open>Optional access\<close>

definition nullish :: "jv option \<Rightarrow> bool" where
  "nullish v \<longleftrightarrow> v = None \<or> v = Some JNull"

text \<open>\<^verbatim>\<open>v?.k\<close> and \<^verbatim>\<open>a ?? b\<close>.\<close>

definition chain_get :: "jv option \<Rightarrow> string \<Rightarrow> jv option" where
  "chain_get v k = (if nullish v then None else js_get (the v) k)"

definition or_nullish :: "jv option \<Rightarrow> jv option \<Rightarrow> jv option" where
  "or_nullish a b = (if nullish a then b else a)"

section \<open>Searching a string\<close>

fun any_suffix :: "(string \<Rightarrow> bool) \<Rightarrow> string \<Rightarrow> bool" where
  "any_suffix P [] = P []"
| "any_suffix P (c # s) = (P (c # s) \<or> any_suffix P s)"

definition js_includes :: "string \<Rightarrow> string \<Rightarrow> bool" where
  "js_includes s t = any_suffix (\<lambda>r. js_starts_with r t) s"

lemma length_tl_dropWhile: "length (tl (dropWhile P s)) < Suc (length s)"
  using length_dropWhile_le [of P s] by (simp add: le_imp_less_Suc diff_le_self le_trans [OF diff_le_self])

lemma any_suffix_iff: "any_suffix P s \<longleftrightarrow> (\<exists>a b. s = a @ b \<and> P b)"
proof (induction s)
  case (Cons c s)
  have "(\<exists>a b. c # s = a @ b \<and> P b) \<longleftrightarrow> P (c # s) \<or> (\<exists>a b. s = a @ b \<and> P b)"
    unfolding Cons_eq_append_conv by blast
  with Cons show ?case by simp
qed simp

lemma js_includes_iff: "js_includes s t \<longleftrightarrow> (\<exists>a b. s = a @ t @ b)"
  unfolding js_includes_def any_suffix_iff js_starts_with_prefix prefix_def by blast

end
