(* ===== verification/RuleEngine.thy ===== *)
theory RuleEngine
  imports JsConvert
begin

text \<open>
  Conditions of rules: src/memory/rule-engine.ts.  A rule applies when its pattern matches the
  context and none of its exceptions does.  Patterns are JSON: members to match, operator
  objects such as \<^verbatim>\<open>{"$in": [...]}\<close>, and the connectives \<^verbatim>\<open>$and\<close>, \<^verbatim>\<open>$or\<close>,
  \<^verbatim>\<open>$not\<close>.

  The regular expression engine of the language is an argument (\<open>re\<close>): \<open>re p s\<close> is
  \<^verbatim>\<open>new RegExp(p).test(s)\<close>, \<open>None\<close> if the constructor throws.
\<close>

section \<open>Which regular expressions are let through\<close>

definition MAX_REGEX_PATTERN_CHARS :: nat where "MAX_REGEX_PATTERN_CHARS = 256"
definition MAX_REGEX_GROUPS :: nat where "MAX_REGEX_GROUPS = 32"
definition MAX_REGEX_QUANTIFIERS :: nat where "MAX_REGEX_QUANTIFIERS = 24"

lemmas regex_limits = MAX_REGEX_PATTERN_CHARS_def MAX_REGEX_GROUPS_def MAX_REGEX_QUANTIFIERS_def

fun scrub_loop :: "bool \<Rightarrow> bool \<Rightarrow> string \<Rightarrow> string" where
  "scrub_loop escaped inClass [] = []"
| "scrub_loop escaped inClass (ch # s) =
     (if escaped then CHR ''_'' # scrub_loop False inClass s
      else if ch = CHR 0x5C then CHR ''_'' # scrub_loop True inClass s
      else if inClass then CHR ''_'' # scrub_loop escaped (ch \<noteq> CHR '']'') s
      else if ch = CHR ''['' then CHR ''_'' # scrub_loop escaped True s
      else ch # scrub_loop escaped inClass s)"

definition scrubRegexPattern :: "string \<Rightarrow> string" where
  "scrubRegexPattern pattern = scrub_loop False False pattern"

definition isQuantifierStart :: "char \<Rightarrow> bool" where
  "isQuantifierStart ch \<longleftrightarrow> ch = CHR ''*'' \<or> ch = CHR ''+'' \<or> ch = CHR ''?'' \<or> ch = CHR ''{''"

text \<open>The loop over the scrubbed pattern; the stack has its top first.\<close>

function nested_loop :: "bool list \<Rightarrow> string \<Rightarrow> bool" where
  "nested_loop stack [] = False"
| "nested_loop stack (ch # s) =
     (if ch = CHR ''('' then nested_loop (False # stack) s
      else if ch = CHR '')'' then
        (if stack \<noteq> [] \<and> hd stack \<and> s \<noteq> [] \<and> isQuantifierStart (hd s) then True
         else nested_loop (tl stack) s)
      else if isQuantifierStart ch then
        (let stack' = (if stack = [] then [] else True # tl stack)
         in if ch = CHR ''{'' then
              (if CHR ''}'' \<in> set s then nested_loop stack' (tl (dropWhile (\<lambda>c. c \<noteq> CHR ''}'') s))
               else True)
            else nested_loop stack' s)
      else nested_loop stack s)"
  by pat_completeness auto
termination
  by (relation "measure (\<lambda>(stack, s). length s)")
    (auto simp: length_tl_dropWhile simp del: length_tl)

definition hasNestedQuantifier :: "string \<Rightarrow> bool" where
  "hasNestedQuantifier scrubbed = nested_loop [] scrubbed"

text \<open>The four expressions the pattern is tested against.\<close>

definition backreference_at :: "string \<Rightarrow> bool" where
  "backreference_at t \<longleftrightarrow>
     (case t of
        b # c # r \<Rightarrow> b = CHR 0x5C \<and>
          ((is_digit c \<and> c \<noteq> CHR ''0'')
           \<or> (c = CHR ''k'' \<and> r \<noteq> [] \<and> hd r = CHR ''<'' \<and> tl r \<noteq> [] \<and> hd (tl r) \<noteq> CHR ''>''
              \<and> CHR ''>'' \<in> set (tl r)))
      | _ \<Rightarrow> False)"

definition lookaround_at :: "string \<Rightarrow> bool" where
  "lookaround_at t \<longleftrightarrow>
     js_starts_with t ''(?='' \<or> js_starts_with t ''(?!'' \<or> js_starts_with t ''(?<=''
     \<or> js_starts_with t ''(?<!''"

definition quantified_alternation_at :: "string \<Rightarrow> bool" where
  "quantified_alternation_at t \<longleftrightarrow>
     (case t of
        [] \<Rightarrow> False
      | c # s \<Rightarrow>
          (let inside = takeWhile (\<lambda>x. x \<noteq> CHR '')'') s; after = dropWhile (\<lambda>x. x \<noteq> CHR '')'') s
           in c = CHR ''('' \<and> CHR ''|'' \<in> set inside \<and> 2 \<le> length after
              \<and> (after ! 1 = CHR ''*'' \<or> after ! 1 = CHR ''+'' \<or> after ! 1 = CHR ''{'')))"

definition broad_wildcard_at :: "string \<Rightarrow> bool" where
  "broad_wildcard_at t \<longleftrightarrow> js_starts_with t ''.*'' \<or> js_starts_with t ''.+''"

definition repeated_wildcard_at :: "string \<Rightarrow> bool" where
  "repeated_wildcard_at t \<longleftrightarrow>
     broad_wildcard_at t
     \<and> any_suffix broad_wildcard_at (takeWhile (\<lambda>c. c \<noteq> newline \<and> c \<noteq> carriage_return) (drop 2 t))"

text \<open>The number of matches of \<^verbatim>\<open>/[*+?]|\{[^}]*\}/g\<close>.\<close>

function count_quantifiers :: "string \<Rightarrow> nat" where
  "count_quantifiers [] = 0"
| "count_quantifiers (c # s) =
     (if c = CHR ''*'' \<or> c = CHR ''+'' \<or> c = CHR ''?'' then 1 + count_quantifiers s
      else if c = CHR ''{'' \<and> CHR ''}'' \<in> set s
        then 1 + count_quantifiers (tl (dropWhile (\<lambda>x. x \<noteq> CHR ''}'') s))
      else count_quantifiers s)"
  by pat_completeness auto
termination
  by (relation "measure length")
    (auto simp: length_tl_dropWhile simp del: length_tl)

definition isSafeRegexPattern :: "string \<Rightarrow> bool" where
  "isSafeRegexPattern pattern =
     (if pattern = [] \<or> MAX_REGEX_PATTERN_CHARS < length pattern then False
      else if any_suffix backreference_at pattern then False
      else if any_suffix lookaround_at pattern then False
      else
        (let scrubbed = scrubRegexPattern pattern
         in if MAX_REGEX_GROUPS < length (filter (\<lambda>c. c = CHR ''('') scrubbed) then False
            else if MAX_REGEX_QUANTIFIERS < count_quantifiers scrubbed then False
            else if hasNestedQuantifier scrubbed then False
            else if any_suffix quantified_alternation_at scrubbed then False
            else if any_suffix repeated_wildcard_at scrubbed then False
            else True))"

section \<open>Paths and equality\<close>

fun path_loop :: "jv option \<Rightarrow> string list \<Rightarrow> jv option" where
  "path_loop cur [] = cur"
| "path_loop cur (p # ps) =
     (case cur of
        None \<Rightarrow> None
      | Some v \<Rightarrow>
          if is_plain_object v \<or> js_is_array v then path_loop (js_get v p) ps else None)"

definition getByPath :: "jv option \<Rightarrow> string \<Rightarrow> jv option" where
  "getByPath ob path = (if path = [] then None else path_loop ob (js_split (CHR ''.'') path))"

lemma size_member: "e \<in> set ob \<Longrightarrow> size (snd e) < size (JObj ob)"
  by (induction ob) auto

lemma size_member_of: "map_of ob k = Some v \<Longrightarrow> size v < size (JObj ob)"
  using size_member [of "(k, v)" ob] by (auto dest: map_of_SomeD)

lemma size_items_of: "map_of ob k = Some (JArr vs) \<Longrightarrow> x \<in> set vs \<Longrightarrow> size x < size (JObj ob)"
  using size_member_of [of ob k "JArr vs"] by (auto dest: size_list_estimation' [where f = size, OF _ order_refl])

lemma size_item: "x \<in> set vs \<Longrightarrow> size x < size (JArr vs)"
  by (induction vs) auto

text \<open>
  \<^verbatim>\<open>deepEqual\<close> on values of which one is JSON; two objects from different documents are never
  the same object, so only primitives and functions are compared by \<^verbatim>\<open>===\<close>.
\<close>

function deepEqual :: "jv \<Rightarrow> jv \<Rightarrow> bool" where
  "deepEqual a b =
     (case (a, b) of
        (JNum x, JNum y) \<Rightarrow> num_eq x y
      | (JArr xs, JArr ys) \<Rightarrow>
          length xs = length ys \<and> list_all (\<lambda>(x, y). deepEqual x y) (zip xs ys)
      | (JObj xs, _) \<Rightarrow>
          (case plain_members b of
             None \<Rightarrow> False
           | Some ys \<Rightarrow>
               sort (keys xs) = sort (keys ys)
               \<and> list_all (\<lambda>e. case map_of ys (fst e) of None \<Rightarrow> False | Some y \<Rightarrow> deepEqual (snd e) y) xs)
      | (JHost k, JObj ys) \<Rightarrow> k = ''__proto__'' \<and> ys = []
      | _ \<Rightarrow> a = b)"
  by pat_completeness auto
termination
  by (relation "measure (\<lambda>(a, b). size a)")
    (auto dest: set_zip_leftD size_item size_member)

declare deepEqual.simps [simp del]

definition deepEqual_opt :: "jv option \<Rightarrow> jv option \<Rightarrow> bool" where
  "deepEqual_opt a b =
     (case (a, b) of
        (None, None) \<Rightarrow> True | (Some x, Some y) \<Rightarrow> deepEqual x y | _ \<Rightarrow> False)"

section \<open>Operators and patterns\<close>

text \<open>\<^verbatim>\<open>k in o\<close> and \<^verbatim>\<open>o[k]\<close> for an operator name, which nothing inherits.\<close>

definition opEval :: "(string \<Rightarrow> string \<Rightarrow> bool option) \<Rightarrow> jobj \<Rightarrow> jv option \<Rightarrow> bool" where
  "opEval re opObj value =
     (let arg = (\<lambda>k. the (obj_get opObj k));
          compare = (\<lambda>P k. case value of Some (JNum x) \<Rightarrow> P x (js_to_number (arg k)) | _ \<Rightarrow> False);
          member = (\<lambda>k. case arg k of JArr xs \<Rightarrow> Some (\<exists>x \<in> set xs. deepEqual_opt value (Some x)) | _ \<Rightarrow> None)
      in if obj_in ''$eq'' opObj then deepEqual_opt value (Some (arg ''$eq''))
         else if obj_in ''$ne'' opObj then \<not> deepEqual_opt value (Some (arg ''$ne''))
         else if obj_in ''$exists'' opObj then
           (if js_truthy (Some (arg ''$exists'')) then value \<noteq> None else value = None)
         else if obj_in ''$in'' opObj then member ''$in'' = Some True
         else if obj_in ''$nin'' opObj then member ''$nin'' = Some False
         else if obj_in ''$gt'' opObj then compare (\<lambda>x y. num_lt y x) ''$gt''
         else if obj_in ''$gte'' opObj then compare (\<lambda>x y. num_le y x) ''$gte''
         else if obj_in ''$lt'' opObj then compare (\<lambda>x y. num_lt x y) ''$lt''
         else if obj_in ''$lte'' opObj then compare (\<lambda>x y. num_le x y) ''$lte''
         else if obj_in ''$contains'' opObj then
           (case (value, arg ''$contains'') of
              (Some (JStr s), JStr t) \<Rightarrow> js_includes s t
            | (Some (JArr xs), needle) \<Rightarrow> (\<exists>x \<in> set xs. deepEqual x needle)
            | _ \<Rightarrow> False)
         else if obj_in ''$regex'' opObj then
           (case value of
              Some (JStr s) \<Rightarrow>
                (let pat = (if arg ''$regex'' = JNull then [] else js_string (arg ''$regex''))
                 in isSafeRegexPattern pat \<and> re pat s = Some True)
            | _ \<Rightarrow> False)
         else False)"

function matchPattern :: "(string \<Rightarrow> string \<Rightarrow> bool option) \<Rightarrow> jv \<Rightarrow> jv option \<Rightarrow> bool" where
  "matchPattern re pattern ctx =
     (case pattern of
        JObj ob \<Rightarrow>
          (case map_of ob ''$and'' of
             Some (JArr ps) \<Rightarrow> list_all (\<lambda>p. matchPattern re p ctx) ps
           | Some _ \<Rightarrow> False
           | None \<Rightarrow>
               (case map_of ob ''$or'' of
                  Some (JArr ps) \<Rightarrow> list_ex (\<lambda>p. matchPattern re p ctx) ps
                | Some _ \<Rightarrow> False
                | None \<Rightarrow>
                    (case map_of ob ''$not'' of
                       Some p \<Rightarrow> \<not> matchPattern re p ctx
                     | None \<Rightarrow>
                         if length ob = 1 \<and> js_starts_with (fst (hd ob)) ''$'' then opEval re ob ctx
                         else list_all (\<lambda>e.
                           matchPattern re (snd e)
                             (if CHR ''.'' \<in> set (fst e) then getByPath ctx (fst e)
                              else if js_truthy ctx then js_get (the ctx) (fst e) else None)) ob)))
      | JArr ps \<Rightarrow>
          (case ctx of
             Some (JArr xs) \<Rightarrow> list_all (\<lambda>p. list_ex (\<lambda>x. deepEqual x p) xs) ps
           | _ \<Rightarrow> False)
      | _ \<Rightarrow> deepEqual_opt ctx (Some pattern))"
  by pat_completeness auto
termination
  by (relation "measure (\<lambda>(re, p, ctx). size p)")
    (auto dest: size_member size_member_of size_items_of)

declare matchPattern.simps [simp del]

text \<open>Truth of \<open>ifJson\<close>: a missing, false or empty condition always holds.\<close>

definition ruleMatchesContext ::
  "(string \<Rightarrow> string \<Rightarrow> bool option) \<Rightarrow> jv option \<Rightarrow> jv option \<Rightarrow> jv option \<Rightarrow> bool" where
  "ruleMatchesContext re ifJson exceptionsJson ctx =
     (let ifOk = (if \<not> js_truthy ifJson \<or> ifJson = Some (JObj []) then True
                  else matchPattern re (the ifJson) ctx)
      in if \<not> ifOk then False
         else (case exceptionsJson of
                 Some (JArr exs) \<Rightarrow> \<not> list_ex (\<lambda>ex. matchPattern re ex ctx) exs
               | _ \<Rightarrow> True))"

end
