(* ===== verification/ToolPolicy.thy ===== *)
theory ToolPolicy
  imports JsConvert StateMachine
begin

text \<open>
  The tool policy of the matched rules: src/memory/tool-policy.ts.  Denials add up, allow
  lists intersect, and preferences are listed in the order of the rules' scores.

  The order of strings under \<^verbatim>\<open>localeCompare\<close> depends on the host's locale data; it is the
  argument \<open>loc\<close>, whose sign is the result of the comparison.  A JavaScript set is the list
  of its elements in insertion order.
\<close>

record tool_patch =
  tp_allow :: "string list option"
  tp_deny :: "string list option"
  tp_prefer :: "string list option"

record tool_rule =
  tr_rule_node_id :: string
  tr_score :: jsnum
  tr_evidence_score :: "jsnum option"
  tr_priority :: "jsnum option"
  tr_weight :: "jsnum option"
  tr_specificity :: "jsnum option"
  tr_tool :: "tool_patch option"

record contribution =
  co_rule_node_id :: string
  co_score :: jsnum
  co_evidence_score :: jsnum
  co_priority :: jsnum
  co_weight :: jsnum
  co_specificity :: jsnum
  co_allow_n :: nat
  co_deny_n :: nat
  co_prefer_n :: nat
  co_first_prefer :: "string option"

datatype conflict_code = AllowIntersection | AllowIntersectionEmpty | PreferCompetingTopChoice

record tool_conflict =
  tc_code :: conflict_code
  tc_message :: string
  tc_details :: jv
  tc_winner :: "string option"

record tool_explain =
  te_notes :: "string list"
  te_contributions :: "contribution list"
  te_prefer_by_tool :: jobj
  te_deny_by_tool :: jobj
  te_conflicts :: "tool_conflict list"

definition uniq :: "string list \<Rightarrow> string list" where
  "uniq xs = dedupe (filter (\<lambda>x. x \<noteq> []) xs)"

definition sorted_by_locale :: "(string \<Rightarrow> string \<Rightarrow> int) \<Rightarrow> string list \<Rightarrow> string list" where
  "sorted_by_locale loc xs = sort_by (\<lambda>a b. loc a b \<le> 0) xs"

text \<open>\<^verbatim>\<open>b.score - a.score || a.id.localeCompare(b.id)\<close>: a difference of 0 or NaN is false.\<close>

definition score_order ::
  "(string \<Rightarrow> string \<Rightarrow> int) \<Rightarrow> jsnum \<times> string \<Rightarrow> jsnum \<times> string \<Rightarrow> bool" where
  "score_order loc a b \<longleftrightarrow>
     (let d = num_sub (fst b) (fst a)
      in if js_truthy (Some (JNum d)) then num_lt d (Fin 0) else loc (snd a) (snd b) \<le> 0)"

text \<open>The state of the loop over the rules.\<close>

record policy_state =
  pl_contributions :: "contribution list"
  pl_winnersPrefer :: jobj
  pl_winnersDeny :: jobj
  pl_allowSets :: "(string \<times> jsnum \<times> string list) list"
  pl_denyUnion :: "string list"
  pl_preferOrder :: "string list"

definition empty_policy_state :: policy_state where
  "empty_policy_state =
     \<lparr>pl_contributions = [], pl_winnersPrefer = [], pl_winnersDeny = [], pl_allowSets = [],
      pl_denyUnion = [], pl_preferOrder = []\<rparr>"

definition set_add :: "'a \<Rightarrow> 'a list \<Rightarrow> 'a list" where
  "set_add x xs = (if x \<in> set xs then xs else xs @ [x])"

text \<open>
  \<^verbatim>\<open>const cur = winnersDeny[t]; if (!cur || r.score > cur.score) ...\<close>; the winners are plain
  objects, so an inherited member counts as a winner.
\<close>

definition add_deny :: "string \<Rightarrow> jsnum \<Rightarrow> policy_state \<Rightarrow> string \<Rightarrow> policy_state" where
  "add_deny rid score st t =
     (let cur = obj_get (pl_winnersDeny st) t;
          wins = (\<not> js_truthy cur \<or> num_lt (js_Number (js_get (the cur) ''score'')) score)
      in st\<lparr>pl_denyUnion := set_add t (pl_denyUnion st),
            pl_winnersDeny :=
              (if wins then obj_assign t (JObj [(''rule_node_id'', JStr rid), (''score'', JNum score)])
                              (pl_winnersDeny st)
               else pl_winnersDeny st)\<rparr>)"

definition add_prefer :: "string \<Rightarrow> policy_state \<Rightarrow> string \<Rightarrow> policy_state" where
  "add_prefer rid st t =
     st\<lparr>pl_winnersPrefer :=
          (if obj_in t (pl_winnersPrefer st) then pl_winnersPrefer st
           else obj_assign t (JStr rid) (pl_winnersPrefer st)),
        pl_preferOrder := pl_preferOrder st @ [t]\<rparr>"

definition with_default :: "'a option \<Rightarrow> 'a \<Rightarrow> 'a" where
  "with_default v d = (case v of Some x \<Rightarrow> x | None \<Rightarrow> d)"

definition patch_list :: "(tool_patch \<Rightarrow> string list option) \<Rightarrow> tool_patch option \<Rightarrow> string list" where
  "patch_list f tool = uniq (with_default (Option.bind tool f) [])"

definition add_rule :: "policy_state \<Rightarrow> tool_rule \<Rightarrow> policy_state" where
  "add_rule st r =
     (let allow = patch_list tp_allow (tr_tool r);
          deny = patch_list tp_deny (tr_tool r);
          prefer = patch_list tp_prefer (tr_tool r)
      in if allow = [] \<and> deny = [] \<and> prefer = [] then st
         else
           (let st1 = st\<lparr>pl_contributions := pl_contributions st @
                  [\<lparr>co_rule_node_id = tr_rule_node_id r, co_score = tr_score r,
                    co_evidence_score = with_default (tr_evidence_score r) (Fin 0),
                    co_priority = with_default (tr_priority r) (Fin 0),
                    co_weight = with_default (tr_weight r) (Fin 1),
                    co_specificity = with_default (tr_specificity r) (Fin 0),
                    co_allow_n = length allow, co_deny_n = length deny, co_prefer_n = length prefer,
                    co_first_prefer = (if prefer = [] then None else Some (hd prefer))\<rparr>]\<rparr>;
                st2 = (if allow = [] then st1
                       else st1\<lparr>pl_allowSets := pl_allowSets st1 @ [(tr_rule_node_id r, tr_score r, allow)]\<rparr>);
                st3 = foldl (add_deny (tr_rule_node_id r) (tr_score r)) st2 deny
            in foldl (add_prefer (tr_rule_node_id r)) st3 prefer))"

definition intersect_all :: "string list list \<Rightarrow> string list" where
  "intersect_all sets =
     (case sets of [] \<Rightarrow> [] | s # rest \<Rightarrow> foldl (\<lambda>inter a. filter (\<lambda>x. x \<in> set a) inter) s rest)"

definition allow_details :: "(string \<times> jsnum \<times> string list) list \<Rightarrow> jv" where
  "allow_details sets =
     JArr (map (\<lambda>(rid, sc, s). JObj [(''rule_node_id'', JStr rid), (''score'', JNum sc),
       (''allow_n'', JNum (js_nat (length s)))]) sets)"

definition allow_notes :: "bool \<Rightarrow> string list" where
  "allow_notes some =
     [if some
      then ''tool.allow present on >=1 matched rule; effective allowlist is the intersection across those rules.''
      else ''no matched rule sets tool.allow; allowlist not enforced.'']"

definition allow_conflicts :: "(string \<times> jsnum \<times> string list) list \<Rightarrow> string list \<Rightarrow> tool_conflict list" where
  "allow_conflicts sets allowOut =
     (if sets = [] then []
      else
        [\<lparr>tc_code = AllowIntersection,
          tc_message = ''effective allowlist is intersection of '' @ dec_nat (length sets)
            @ '' rule allowlists (size='' @ dec_nat (length allowOut) @ '')'',
          tc_details = allow_details sets, tc_winner = None\<rparr>]
        @ (if allowOut = [] then
             [\<lparr>tc_code = AllowIntersectionEmpty,
               tc_message = ''allowlist intersection is empty; tool selection may require strict=false fallback or rule changes'',
               tc_details = allow_details sets, tc_winner = None\<rparr>]
           else []))"

definition prefer_conflicts :: "(string \<Rightarrow> string \<Rightarrow> int) \<Rightarrow> contribution list \<Rightarrow> tool_conflict list" where
  "prefer_conflicts loc cs =
     (let top = filter (\<lambda>c. co_first_prefer c \<notin> {None, Some []}) cs;
          distinctTop = uniq (map (\<lambda>c. the (co_first_prefer c)) top)
      in if 1 < length distinctTop then
           (let winner = hd (sort_by (\<lambda>a b. score_order loc (co_score a, co_rule_node_id a)
                              (co_score b, co_rule_node_id b)) top)
            in [\<lparr>tc_code = PreferCompetingTopChoice,
                 tc_message = ''multiple matched rules propose different top preferred tools; highest-rank rule wins priority (winner=''
                   @ co_rule_node_id winner @ '')'',
                 tc_details = JArr (map (\<lambda>c. JObj [(''rule_node_id'', JStr (co_rule_node_id c)),
                   (''score'', JNum (co_score c)), (''first_prefer'', JStr (the (co_first_prefer c)))]) top),
                 tc_winner = Some (co_rule_node_id winner)\<rparr>])
         else [])"

definition rule_order :: "(string \<Rightarrow> string \<Rightarrow> int) \<Rightarrow> tool_rule \<Rightarrow> tool_rule \<Rightarrow> bool" where
  "rule_order loc a b = score_order loc (tr_score a, tr_rule_node_id a) (tr_score b, tr_rule_node_id b)"

definition computeEffectiveToolPolicy ::
  "(string \<Rightarrow> string \<Rightarrow> int) \<Rightarrow> tool_rule list \<Rightarrow> tool_patch \<times> tool_explain" where
  "computeEffectiveToolPolicy loc rules =
     (let st = foldl add_rule empty_policy_state (sort_by (rule_order loc) rules);
          sets = pl_allowSets st;
          allowOut = sorted_by_locale loc (intersect_all (map (snd \<circ> snd) sets));
          denyOut = sorted_by_locale loc (pl_denyUnion st);
          preferOut = uniq (pl_preferOrder st)
      in (\<lparr>tp_allow = (if sets = [] then None else Some allowOut),
           tp_deny = (if denyOut = [] then None else Some denyOut),
           tp_prefer = (if preferOut = [] then None else Some preferOut)\<rparr>,
          \<lparr>te_notes = allow_notes (sets \<noteq> []),
           te_contributions = pl_contributions st,
           te_prefer_by_tool = pl_winnersPrefer st,
           te_deny_by_tool = map (\<lambda>e. (fst e, the (js_get (snd e) ''rule_node_id''))) (pl_winnersDeny st),
           te_conflicts = allow_conflicts sets allowOut @ prefer_conflicts loc (pl_contributions st)\<rparr>))"

section \<open>What the loop collects\<close>

lemma set_uniq [simp]: "set (uniq xs) = set xs - {[]}"
  by (auto simp: uniq_def)

lemma distinct_uniq [simp]: "distinct (uniq xs)"
  by (simp add: uniq_def)

abbreviation allow_of :: "tool_rule \<Rightarrow> string list" where
  "allow_of r \<equiv> patch_list tp_allow (tr_tool r)"

abbreviation deny_of :: "tool_rule \<Rightarrow> string list" where
  "deny_of r \<equiv> patch_list tp_deny (tr_tool r)"

abbreviation prefer_of :: "tool_rule \<Rightarrow> string list" where
  "prefer_of r \<equiv> patch_list tp_prefer (tr_tool r)"

lemma add_deny_frame [simp]:
  "pl_allowSets (add_deny i s st t) = pl_allowSets st"
  "pl_preferOrder (add_deny i s st t) = pl_preferOrder st"
  "pl_denyUnion (add_deny i s st t) = set_add t (pl_denyUnion st)"
  by (simp_all add: add_deny_def Let_def)

lemma add_prefer_frame [simp]:
  "pl_allowSets (add_prefer i st t) = pl_allowSets st"
  "pl_denyUnion (add_prefer i st t) = pl_denyUnion st"
  "pl_preferOrder (add_prefer i st t) = pl_preferOrder st @ [t]"
  by (simp_all add: add_prefer_def)

lemma foldl_add_deny [simp]:
  "pl_allowSets (foldl (add_deny i s) st ts) = pl_allowSets st"
  "pl_preferOrder (foldl (add_deny i s) st ts) = pl_preferOrder st"
  "pl_denyUnion (foldl (add_deny i s) st ts) = foldl (\<lambda>u t. set_add t u) (pl_denyUnion st) ts"
  by (induction ts arbitrary: st) simp_all

lemma foldl_add_prefer [simp]:
  "pl_allowSets (foldl (add_prefer i) st ts) = pl_allowSets st"
  "pl_denyUnion (foldl (add_prefer i) st ts) = pl_denyUnion st"
  "pl_preferOrder (foldl (add_prefer i) st ts) = pl_preferOrder st @ ts"
  by (induction ts arbitrary: st) simp_all

lemma set_foldl_add [simp]: "set (foldl (\<lambda>u t. set_add t u) u ts) = set u \<union> set ts"
  by (induction ts arbitrary: u) (auto simp: set_add_def)

lemma add_rule_sets:
  "pl_allowSets (add_rule st r) = pl_allowSets st
     @ (if allow_of r = [] then [] else [(tr_rule_node_id r, tr_score r, allow_of r)])"
  "pl_preferOrder (add_rule st r) = pl_preferOrder st @ prefer_of r"
  "set (pl_denyUnion (add_rule st r)) = set (pl_denyUnion st) \<union> set (deny_of r)"
  by (auto simp: add_rule_def Let_def)

lemma loop_sets:
  "map (snd \<circ> snd) (pl_allowSets (foldl add_rule st rs))
     = map (snd \<circ> snd) (pl_allowSets st) @ filter (\<lambda>a. a \<noteq> []) (map allow_of rs)"
  "pl_preferOrder (foldl add_rule st rs) = pl_preferOrder st @ concat (map prefer_of rs)"
  "set (pl_denyUnion (foldl add_rule st rs)) = set (pl_denyUnion st) \<union> (\<Union>r \<in> set rs. set (deny_of r))"
proof (induction rs arbitrary: st)
  case (Cons r rs)
  { case 1 then show ?case unfolding foldl_Cons Cons.IH by (simp add: add_rule_sets) }
  { case 2 then show ?case unfolding foldl_Cons Cons.IH by (simp add: add_rule_sets) }
  { case 3 then show ?case unfolding foldl_Cons Cons.IH by (auto simp: add_rule_sets) }
qed simp_all

lemma set_filter_all: "set (foldl (\<lambda>inter a. filter (\<lambda>x. x \<in> set a) inter) s rest)
    = {x \<in> set s. \<forall>a \<in> set rest. x \<in> set a}"
  by (induction rest arbitrary: s) auto

lemma set_intersect_all: "sets \<noteq> [] \<Longrightarrow> set (intersect_all sets) = {x. \<forall>a \<in> set sets. x \<in> set a}"
  by (cases sets) (auto simp: intersect_all_def set_filter_all)

section \<open>The effective policy\<close>

lemma effective_deny:
  "set (with_default (tp_deny (fst (computeEffectiveToolPolicy loc rules))) [])
     = (\<Union>r \<in> set rules. set (deny_of r))"
proof -
  let ?st = "foldl add_rule empty_policy_state (sort_by (rule_order loc) rules)"
  have "set (sorted_by_locale loc (pl_denyUnion ?st)) = (\<Union>r \<in> set rules. set (deny_of r))"
    by (simp add: sorted_by_locale_def loop_sets empty_policy_state_def)
  then show ?thesis
    by (cases "sorted_by_locale loc (pl_denyUnion ?st) = []")
      (simp_all add: computeEffectiveToolPolicy_def Let_def with_default_def)
qed

lemma effective_allow:
  "tp_allow (fst (computeEffectiveToolPolicy loc rules)) = None \<longleftrightarrow> (\<forall>r \<in> set rules. allow_of r = [])"
  "tp_allow (fst (computeEffectiveToolPolicy loc rules)) = Some al \<Longrightarrow>
     set al = {t. \<forall>r \<in> set rules. allow_of r \<noteq> [] \<longrightarrow> t \<in> set (allow_of r)}"
proof -
  let ?st = "foldl add_rule empty_policy_state (sort_by (rule_order loc) rules)"
  have sets: "map (snd \<circ> snd) (pl_allowSets ?st) = filter (\<lambda>a. a \<noteq> []) (map allow_of (sort_by (rule_order loc) rules))"
    by (simp add: loop_sets empty_policy_state_def)
  have none: "pl_allowSets ?st = [] \<longleftrightarrow> (\<forall>r \<in> set rules. allow_of r = [])"
  proof -
    have "pl_allowSets ?st = [] \<longleftrightarrow> map (snd \<circ> snd) (pl_allowSets ?st) = []" by simp
    also have "\<dots> \<longleftrightarrow> (\<forall>r \<in> set rules. allow_of r = [])" unfolding sets by (simp add: filter_empty_conv)
    finally show ?thesis .
  qed
  then show "tp_allow (fst (computeEffectiveToolPolicy loc rules)) = None \<longleftrightarrow> (\<forall>r \<in> set rules. allow_of r = [])"
    by (simp add: computeEffectiveToolPolicy_def Let_def)
  assume "tp_allow (fst (computeEffectiveToolPolicy loc rules)) = Some al"
  then have ne: "pl_allowSets ?st \<noteq> []"
    and al: "al = sorted_by_locale loc (intersect_all (map (snd \<circ> snd) (pl_allowSets ?st)))"
    by (auto simp: computeEffectiveToolPolicy_def Let_def split: if_splits)
  have "set al = {x. \<forall>a \<in> set (map (snd \<circ> snd) (pl_allowSets ?st)). x \<in> set a}"
    unfolding al sorted_by_locale_def set_sort_by using ne by (intro set_intersect_all) simp
  then show "set al = {t. \<forall>r \<in> set rules. allow_of r \<noteq> [] \<longrightarrow> t \<in> set (allow_of r)}"
    unfolding sets by auto
qed

lemma effective_prefer:
  "with_default (tp_prefer (fst (computeEffectiveToolPolicy loc rules))) []
     = dedupe (concat (map prefer_of (sort_by (rule_order loc) rules)))"
proof -
  have "filter (\<lambda>x. x \<noteq> []) (concat (map prefer_of rs)) = concat (map prefer_of rs)" for rs
    by (auto simp: filter_id_conv patch_list_def)
  then have "uniq (pl_preferOrder (foldl add_rule empty_policy_state (sort_by (rule_order loc) rules)))
      = dedupe (concat (map prefer_of (sort_by (rule_order loc) rules)))"
    by (simp add: loop_sets empty_policy_state_def uniq_def)
  then show ?thesis
    by (simp add: computeEffectiveToolPolicy_def Let_def with_default_def del: concat_eq_Nil_conv)
qed

end
