(* ===== verification/RulePolicy.thy ===== *)
theory RulePolicy
  imports ToolPolicy
begin

text \<open>
  Policies of rules and their merge: src/memory/rule-policy.ts.  A matched rule contributes a
  patch; the patches are merged in order, objects member by member, arrays as a union, and any
  other pair of values in favour of the later one, with a note of the conflict.
\<close>

section \<open>Patches\<close>

datatype output_format = FormatJson | FormatText | FormatMarkdown

record output_policy =
  op_format :: "output_format option"
  op_strict :: "bool option"

record policy_patch =
  pp_output :: "output_policy option"
  pp_tool :: "tool_patch option"
  pp_extensions :: "jobj option"

text \<open>
  The schema.  \<open>strict_object\<close> is a zod object with \<^verbatim>\<open>strict()\<close>: a value that is no object
  or has an unknown member is an error.  Every member of the three schemas is optional.
\<close>

definition policy_error :: string where
  "policy_error = ''ZodError''"

definition strict_object :: "string list \<Rightarrow> jv \<Rightarrow> string + jobj" where
  "strict_object names v =
     (case v of
        JObj ob \<Rightarrow> if list_all (\<lambda>e. fst e \<in> set names) ob then Inr ob else Inl policy_error
      | _ \<Rightarrow> Inl policy_error)"

definition optional_member :: "(jv \<Rightarrow> string + 'a) \<Rightarrow> jobj \<Rightarrow> string \<Rightarrow> string + 'a option" where
  "optional_member p ob k =
     (case map_of ob k of None \<Rightarrow> Inr None | Some v \<Rightarrow> and_then (p v) (\<lambda>x. Inr (Some x)))"

definition parse_tool_names :: "jv \<Rightarrow> string + string list" where
  "parse_tool_names v =
     (case v of
        JArr vs \<Rightarrow>
          if 100 < length vs then Inl policy_error
          else traverse (\<lambda>x. case x of JStr s \<Rightarrow> if s = [] then Inl policy_error else Inr s
                                     | _ \<Rightarrow> Inl policy_error) vs
      | _ \<Rightarrow> Inl policy_error)"

definition parse_ToolPolicy :: "jv \<Rightarrow> string + tool_patch" where
  "parse_ToolPolicy v =
     and_then (strict_object [''allow'', ''deny'', ''prefer''] v) (\<lambda>ob.
     and_then (optional_member parse_tool_names ob ''allow'') (\<lambda>a.
     and_then (optional_member parse_tool_names ob ''deny'') (\<lambda>d.
     and_then (optional_member parse_tool_names ob ''prefer'') (\<lambda>p.
       Inr \<lparr>tp_allow = a, tp_deny = d, tp_prefer = p\<rparr>))))"

definition parse_format :: "jv \<Rightarrow> string + output_format" where
  "parse_format v =
     (if v = JStr ''json'' then Inr FormatJson
      else if v = JStr ''text'' then Inr FormatText
      else if v = JStr ''markdown'' then Inr FormatMarkdown
      else Inl policy_error)"

definition parse_bool :: "jv \<Rightarrow> string + bool" where
  "parse_bool v = (case v of JBool b \<Rightarrow> Inr b | _ \<Rightarrow> Inl policy_error)"

definition parse_OutputPolicy :: "jv \<Rightarrow> string + output_policy" where
  "parse_OutputPolicy v =
     and_then (strict_object [''format'', ''strict''] v) (\<lambda>ob.
     and_then (optional_member parse_format ob ''format'') (\<lambda>f.
     and_then (optional_member parse_bool ob ''strict'') (\<lambda>s.
       Inr \<lparr>op_format = f, op_strict = s\<rparr>)))"

text \<open>\<^verbatim>\<open>z.record(z.any())\<close> copies the members, except one named \<^verbatim>\<open>__proto__\<close>.\<close>

definition parse_extensions :: "jv \<Rightarrow> string + jobj" where
  "parse_extensions v =
     (case v of JObj ob \<Rightarrow> Inr (filter (\<lambda>e. fst e \<noteq> ''__proto__'') ob) | _ \<Rightarrow> Inl policy_error)"

definition parsePolicyPatch :: "jv \<Rightarrow> string + policy_patch" where
  "parsePolicyPatch v =
     and_then (strict_object [''output'', ''tool'', ''extensions''] v) (\<lambda>ob.
     and_then (optional_member parse_OutputPolicy ob ''output'') (\<lambda>out.
     and_then (optional_member parse_ToolPolicy ob ''tool'') (\<lambda>tool.
     and_then (optional_member parse_extensions ob ''extensions'') (\<lambda>ext.
       Inr \<lparr>pp_output = out, pp_tool = tool, pp_extensions = ext\<rparr>))))"

text \<open>The object a parsed patch is: the members that are present, in the order of the schema.\<close>

definition members :: "(string \<times> jv option) list \<Rightarrow> jobj" where
  "members ms = concat (map (\<lambda>(k, v). case v of None \<Rightarrow> [] | Some x \<Rightarrow> [(k, x)]) ms)"

fun format_value :: "output_format \<Rightarrow> jv" where
  "format_value FormatJson = JStr ''json''"
| "format_value FormatText = JStr ''text''"
| "format_value FormatMarkdown = JStr ''markdown''"

definition output_value :: "output_policy \<Rightarrow> jv" where
  "output_value p = JObj (members
     [(''format'', map_option format_value (op_format p)), (''strict'', map_option JBool (op_strict p))])"

definition tool_value :: "tool_patch \<Rightarrow> jv" where
  "tool_value p =
     (let names = map_option (\<lambda>ts. JArr (map JStr ts))
      in JObj (members [(''allow'', names (tp_allow p)), (''deny'', names (tp_deny p)),
           (''prefer'', names (tp_prefer p))]))"

definition patch_value :: "policy_patch \<Rightarrow> jv" where
  "patch_value p = JObj (members
     [(''output'', map_option output_value (pp_output p)), (''tool'', map_option tool_value (pp_tool p)),
      (''extensions'', map_option JObj (pp_extensions p))])"

section \<open>Merging\<close>

record policy_source =
  so_rule_node_id :: string
  so_state :: string
  so_commit_id :: string
  so_touched_paths :: "string list"

record policy_conflict =
  pc_path :: string
  pc_winner_rule_node_id :: string

text \<open>
  \<^verbatim>\<open>JSON.stringify\<close>, up to a renaming of the texts: two values have the same text exactly when
  they have the same key.  Functions have none (they are dropped from objects and null in
  arrays) and numbers that are not finite are null.
\<close>

fun stableKey :: "jv \<Rightarrow> jv option" where
  "stableKey (JNum x) = Some (if is_finite x then JNum x else JNull)"
| "stableKey (JArr vs) = Some (JArr (map (\<lambda>v. case stableKey v of None \<Rightarrow> JNull | Some u \<Rightarrow> u) vs))"
| "stableKey (JObj ob) =
     Some (JObj (concat (map (\<lambda>(k, v). case stableKey v of None \<Rightarrow> [] | Some u \<Rightarrow> [(k, u)]) ob)))"
| "stableKey (JHost k) = (if k = ''__proto__'' then Some (JObj []) else None)"
| "stableKey v = Some v"

fun keep_new :: "jv option list \<Rightarrow> jv list \<Rightarrow> jv list" where
  "keep_new seen [] = []"
| "keep_new seen (x # xs) =
     (if stableKey x \<in> set seen then keep_new seen xs
      else x # keep_new (stableKey x # seen) xs)"

definition mergeArrays :: "jv list \<Rightarrow> jv list \<Rightarrow> jv list" where
  "mergeArrays a b = keep_new [] (a @ b)"

definition next_path :: "string \<Rightarrow> string \<Rightarrow> string" where
  "next_path path k = (if path = [] then k else path @ ''.'' @ k)"

lemma size_patch_member: "e \<in> set ob \<Longrightarrow> size (snd e) < size (JObj ob)"
  by (induction ob) auto

function mergeDeep ::
  "jv option \<Rightarrow> jv \<Rightarrow> string \<Rightarrow> policy_conflict list \<Rightarrow> string \<Rightarrow> jv \<times> policy_conflict list" where
  "mergeDeep base patch path conflicts winner =
     (case base of
        None \<Rightarrow> (patch, conflicts)
      | Some b \<Rightarrow>
          (case (b, patch) of
             (JArr xs, JArr ys) \<Rightarrow> (JArr (mergeArrays xs ys), conflicts)
           | _ \<Rightarrow>
               (case (plain_members b, patch) of
                  (Some out, JObj ob) \<Rightarrow>
                    (let acc =
                       foldl (\<lambda>acc e.
                           let r = mergeDeep (obj_get (fst acc) (fst e)) (snd e) (next_path path (fst e))
                                     (snd acc) winner
                           in (obj_assign (fst e) (fst r) (fst acc), snd r)) (out, conflicts) ob
                     in (JObj (fst acc), snd acc))
                | _ \<Rightarrow>
                    (patch,
                     if stableKey b \<noteq> stableKey patch
                     then conflicts @ [\<lparr>pc_path = (if path = [] then ''$'' else path),
                                        pc_winner_rule_node_id = winner\<rparr>]
                     else conflicts))))"
  by pat_completeness auto
termination
  by (relation "measure (\<lambda>(base, patch, path, cs, w). size patch)") (auto dest: size_patch_member)

declare mergeDeep.simps [simp del]

lemma size_leaf_member: "k \<in> set (sort (keys ob)) \<Longrightarrow> size (the (map_of ob k)) < size (JObj ob)"
proof -
  assume "k \<in> set (sort (keys ob))"
  then obtain v where "map_of ob k = Some v" by (metis map_of_eq_None_iff not_None_eq set_map set_sort)
  then show ?thesis using size_patch_member [of "(k, v)" ob] by (simp add: map_of_SomeD)
qed

function leafPaths :: "jv \<Rightarrow> string \<Rightarrow> string list" where
  "leafPaths v pre =
     (case v of
        JNull \<Rightarrow> []
      | JObj ob \<Rightarrow>
          if ob = [] then [if pre = [] then ''$'' else pre]
          else concat (map (\<lambda>k. leafPaths (the (map_of ob k)) (next_path pre k)) (sort (keys ob)))
      | _ \<Rightarrow> [if pre = [] then ''$'' else pre])"
  by pat_completeness auto
termination
proof (relation "measure (\<lambda>(v, p). size v)")
  fix v p ob k
  show "v = JObj ob \<Longrightarrow> ob \<noteq> [] \<Longrightarrow> k \<in> set (sort (keys ob)) \<Longrightarrow>
      ((the (map_of ob k), next_path p k), v, p) \<in> measure (\<lambda>(v, p). size v)"
    using size_leaf_member [of k ob] by simp
qed simp

declare leafPaths.simps [simp del]

definition policyTouchedPaths :: "policy_patch \<Rightarrow> string list" where
  "policyTouchedPaths p = sort (leafPaths (patch_value p) [])"

record applied_rule =
  ar_rule_node_id :: string
  ar_state :: string
  ar_commit_id :: string
  ar_then_patch :: policy_patch

record applied_policy =
  ap_policy :: jv
  ap_sources :: "policy_source list"
  ap_conflicts :: "policy_conflict list"

definition apply_rule :: "applied_policy \<Rightarrow> applied_rule \<Rightarrow> applied_policy" where
  "apply_rule ap r =
     (let (policy, conflicts) =
            mergeDeep (Some (ap_policy ap)) (patch_value (ar_then_patch r)) [] (ap_conflicts ap)
              (ar_rule_node_id r)
      in \<lparr>ap_policy = policy,
          ap_sources = ap_sources ap @
            [\<lparr>so_rule_node_id = ar_rule_node_id r, so_state = ar_state r, so_commit_id = ar_commit_id r,
              so_touched_paths = policyTouchedPaths (ar_then_patch r)\<rparr>],
          ap_conflicts = conflicts\<rparr>)"

definition buildAppliedPolicy :: "applied_rule list \<Rightarrow> applied_policy" where
  "buildAppliedPolicy rules =
     foldl apply_rule \<lparr>ap_policy = JObj [], ap_sources = [], ap_conflicts = []\<rparr> rules"

section \<open>What a merge does to a member\<close>

definition member_of :: "jv \<Rightarrow> string \<Rightarrow> jv option" where
  "member_of v k = (case v of JObj ob \<Rightarrow> map_of ob k | _ \<Rightarrow> None)"

definition merged_member :: "jv option \<Rightarrow> jv option \<Rightarrow> string \<Rightarrow> jv option \<Rightarrow> bool" where
  "merged_member base patch winner v \<longleftrightarrow>
     (case patch of None \<Rightarrow> v = base
      | Some p \<Rightarrow> \<exists>path cs. v = Some (fst (mergeDeep base p path cs winner)))"

lemma mergeDeep_none [simp]: "mergeDeep None p path cs w = (p, cs)"
  by (simp add: mergeDeep.simps)

lemma mergeDeep_objects:
  "mergeDeep (Some (JObj bo)) (JObj po) path cs w =
     (let acc = foldl (\<lambda>acc e.
          let r = mergeDeep (obj_get (fst acc) (fst e)) (snd e) (next_path path (fst e)) (snd acc) w
          in (obj_assign (fst e) (fst r) (fst acc), snd r)) (bo, cs) po
      in (JObj (fst acc), snd acc))"
  by (subst mergeDeep.simps) (simp add: plain_members_def)

lemma merge_members:
  assumes "distinct (keys po)" "\<forall>k \<in> set (keys po). k \<notin> set proto_keys"
  shows "merged_member (map_of bo k) (map_of po k) w
    (map_of (fst (foldl (\<lambda>acc e.
          let r = mergeDeep (obj_get (fst acc) (fst e)) (snd e) (next_path path (fst e)) (snd acc) w
          in (obj_assign (fst e) (fst r) (fst acc), snd r)) (bo, cs) po)) k)"
  using assms
proof (induction po arbitrary: bo cs)
  case (Cons e po)
  let ?r = "mergeDeep (obj_get bo (fst e)) (snd e) (next_path path (fst e)) cs w"
  let ?bo = "obj_assign (fst e) (fst ?r) bo"
  have np: "fst e \<notin> set proto_keys" using Cons.prems by simp
  then have ne: "fst e \<noteq> ''__proto__''" by (auto simp: proto_keys_def)
  have m: "map_of ?bo = (map_of bo)(fst e \<mapsto> fst ?r)" using ne by (simp add: obj_assign_def map_of_obj_set)
  have g: "obj_get bo (fst e) = map_of bo (fst e)" using np by (rule obj_get_no_proto)
  have IH: "merged_member (map_of ?bo k) (map_of po k) w
    (map_of (fst (foldl (\<lambda>acc e.
          let r = mergeDeep (obj_get (fst acc) (fst e)) (snd e) (next_path path (fst e)) (snd acc) w
          in (obj_assign (fst e) (fst r) (fst acc), snd r)) (?bo, snd ?r) po)) k)"
    using Cons.prems by (intro Cons.IH) auto
  show ?case
  proof (cases "k = fst e")
    case True
    then have "map_of po k = None" using Cons.prems by (simp add: map_of_eq_None_iff)
    moreover have "map_of ?bo k = Some (fst ?r)" using True m by simp
    ultimately show ?thesis using IH True by (auto simp: merged_member_def Let_def g)
  next
    case False
    then show ?thesis using IH by (simp add: Let_def m)
  qed
qed (simp add: merged_member_def)

lemma merged_object_member:
  assumes "distinct (keys po)" "\<forall>k \<in> set (keys po). k \<notin> set proto_keys"
  shows "merged_member (map_of bo k) (map_of po k) w
    (member_of (fst (mergeDeep (Some (JObj bo)) (JObj po) path cs w)) k)"
  unfolding mergeDeep_objects member_of_def using merge_members [OF assms] by (simp add: Let_def)

lemma mergeDeep_is_object: "\<exists>ob. fst (mergeDeep (Some (JObj bo)) (JObj po) path cs w) = JObj ob"
  unfolding mergeDeep_objects by (simp add: Let_def)

lemma mergeDeep_scalar:
  assumes "\<not> is_plain_object p" "\<not> js_is_array p"
  shows "fst (mergeDeep b p path cs w) = p"
proof (cases b)
  case (Some u)
  show ?thesis
    using assms Some
    by (cases p; cases u)
      (simp_all add: mergeDeep.simps [of "Some v" for v] is_plain_object_def js_is_array_def plain_members_def)
qed simp

section \<open>The applied policy\<close>

lemma keys_members: "keys (members ms) = map fst (filter (\<lambda>m. snd m \<noteq> None) ms)"
  by (induction ms) (auto simp: members_def split: option.splits)

lemma map_of_members: "distinct (map fst ms) \<Longrightarrow> map_of (members ms) k = Option.bind (map_of ms k) id"
proof (induction ms)
  case (Cons m ms)
  have "k \<notin> fst ` set ms \<Longrightarrow> map_of ms k = None" by (simp add: map_of_eq_None_iff)
  with Cons show ?case by (cases m) (auto simp: members_def map_add_def split: option.splits)
qed (simp add: members_def)

definition policy_output :: "jv \<Rightarrow> string \<Rightarrow> jv option" where
  "policy_output v k = Option.bind (member_of v ''output'') (\<lambda>u. member_of u k)"

definition output_fields :: "policy_patch \<Rightarrow> string \<Rightarrow> jv option" where
  "output_fields p k = Option.bind (pp_output p) (\<lambda>o'.
     if k = ''format'' then map_option format_value (op_format o')
     else if k = ''strict'' then map_option JBool (op_strict o') else None)"

lemma patch_keys:
  "distinct (keys (members [(a, x), (b, y), (c, z)])) \<longleftrightarrow>
     distinct (map fst (filter (\<lambda>m. snd m \<noteq> None) [(a, x), (b, y), (c, z)]))"
  by (simp only: keys_members)

definition patch_object :: "policy_patch \<Rightarrow> jobj" where
  "patch_object p = members
     [(''output'', map_option output_value (pp_output p)), (''tool'', map_option tool_value (pp_tool p)),
      (''extensions'', map_option JObj (pp_extensions p))]"

definition output_object :: "output_policy \<Rightarrow> jobj" where
  "output_object p = members
     [(''format'', map_option format_value (op_format p)), (''strict'', map_option JBool (op_strict p))]"

lemma patch_object_ok:
  "patch_value p = JObj (patch_object p)" "distinct (keys (patch_object p))"
  "\<forall>k \<in> set (keys (patch_object p)). k \<notin> set proto_keys"
  "map_of (patch_object p) ''output'' = map_option output_value (pp_output p)"
  by (auto simp: patch_value_def patch_object_def keys_members map_of_members proto_keys_def)

lemma output_object_ok:
  "output_value p = JObj (output_object p)" "distinct (keys (output_object p))"
  "\<forall>k \<in> set (keys (output_object p)). k \<notin> set proto_keys"
  "map_of (output_object p) k =
     (if k = ''format'' then map_option format_value (op_format p)
      else if k = ''strict'' then map_option JBool (op_strict p) else None)"
  by (auto simp: output_value_def output_object_def keys_members map_of_members proto_keys_def)

lemma output_scalar:
  "map_of (output_object p) k = Some v \<Longrightarrow> \<not> is_plain_object v \<and> \<not> js_is_array v"
proof -
  have "\<not> is_plain_object (format_value f) \<and> \<not> js_is_array (format_value f)" for f
    by (cases f) (simp_all add: is_plain_object_def js_is_array_def)
  then show "map_of (output_object p) k = Some v \<Longrightarrow> \<not> is_plain_object v \<and> \<not> js_is_array v"
    by (auto simp: output_object_ok is_plain_object_def js_is_array_def split: if_splits)
qed

text \<open>An applied policy is an object whose output, if present, is an object.\<close>

definition policy_ok :: "jv \<Rightarrow> bool" where
  "policy_ok v \<longleftrightarrow> (\<exists>ob. v = JObj ob \<and> (\<forall>u. map_of ob ''output'' = Some u \<longrightarrow> (\<exists>ob'. u = JObj ob')))"

lemma merge_patch:
  assumes "policy_ok v"
  shows "policy_ok (fst (mergeDeep (Some v) (patch_value p) path cs w))"
    and "policy_output (fst (mergeDeep (Some v) (patch_value p) path cs w)) k
      = (case output_fields p k of Some u \<Rightarrow> Some u | None \<Rightarrow> policy_output v k)"
proof -
  obtain bo where v: "v = JObj bo" and out: "\<And>u. map_of bo ''output'' = Some u \<Longrightarrow> \<exists>ob'. u = JObj ob'"
    using assms by (auto simp: policy_ok_def)
  let ?r = "fst (mergeDeep (Some v) (patch_value p) path cs w)"
  obtain ro where ro: "?r = JObj ro"
    using mergeDeep_is_object [of bo "patch_object p" path cs w] by (auto simp: v patch_object_ok(1))
  have mm: "merged_member (map_of bo ''output'') (map_option output_value (pp_output p)) w (map_of ro ''output'')"
    using merged_object_member [OF patch_object_ok(2,3), of bo "''output''" p w path cs] ro
    by (simp add: v patch_object_ok(1,4) member_of_def)
  have "policy_ok ?r \<and> policy_output ?r k = (case output_fields p k of Some u \<Rightarrow> Some u | None \<Rightarrow> policy_output v k)"
  proof (cases "pp_output p")
    case None
    then have "map_of ro ''output'' = map_of bo ''output''" using mm by (simp add: merged_member_def)
    then show ?thesis using out None unfolding ro policy_ok_def policy_output_def
      by (simp add: v member_of_def output_fields_def)
  next
    case (Some o')
    then obtain path' cs' where m: "map_of ro ''output'' = Some (fst (mergeDeep (map_of bo ''output'')
        (JObj (output_object o')) path' cs' w))"
      using mm by (auto simp: merged_member_def output_object_ok(1))
    show ?thesis
    proof (cases "map_of bo ''output''")
      case None
      then show ?thesis using m Some unfolding ro policy_ok_def policy_output_def
        by (auto simp: v member_of_def output_fields_def output_object_ok(4) split: option.splits)
    next
      case (Some u)
      then obtain uo where u: "u = JObj uo" using out by blast
      let ?m = "fst (mergeDeep (Some (JObj uo)) (JObj (output_object o')) path' cs' w)"
      obtain mo where mo: "?m = JObj mo" using mergeDeep_is_object by blast
      have "merged_member (map_of uo k) (map_of (output_object o') k) w (map_of mo k)"
        using merged_object_member [OF output_object_ok(2,3), of uo k o' w path' cs'] mo
        by (simp add: member_of_def)
      then have mk: "map_of mo k = (case map_of (output_object o') k of Some x \<Rightarrow> Some x | None \<Rightarrow> map_of uo k)"
        using output_scalar [of o' k] mergeDeep_scalar
        by (auto simp: merged_member_def split: option.splits)
      have r: "map_of ro ''output'' = Some (JObj mo)" using m Some u mo by simp
      have fields: "output_fields p k = map_of (output_object o') k"
        using \<open>pp_output p = Some o'\<close> by (simp add: output_fields_def output_object_ok(4))
      show ?thesis
        unfolding fields policy_ok_def policy_output_def ro unfolding v member_of_def using r mk Some u
        by (cases "map_of (output_object o') k") simp_all
    qed
  qed
  then show "policy_ok ?r" "policy_output ?r k
      = (case output_fields p k of Some u \<Rightarrow> Some u | None \<Rightarrow> policy_output v k)" by blast+
qed

text \<open>Every output setting is the one of the last rule that makes it.\<close>

definition last_setting :: "('a \<Rightarrow> jv option) \<Rightarrow> 'a list \<Rightarrow> jv option" where
  "last_setting f rules = Option.bind (find (\<lambda>r. f r \<noteq> None) (rev rules)) f"

lemma last_setting_snoc:
  "last_setting f (rules @ [r]) = (case f r of Some u \<Rightarrow> Some u | None \<Rightarrow> last_setting f rules)"
  by (auto simp: last_setting_def split: option.splits)

lemma last_setting_map: "last_setting f (map g xs) = last_setting (f \<circ> g) xs"
  by (induction xs rule: rev_induct) (simp_all add: last_setting_snoc last_setting_def [of _ "[]"] cong: option.case_cong)

text \<open>In a sorted list the last setting is that of an element no other setter is above.\<close>

lemma last_setting_greatest:
  assumes "sorted_wrt P xs" "m \<in> set xs" "f m = Some v"
    and "\<And>n. n \<in> set xs \<Longrightarrow> f n \<noteq> None \<Longrightarrow> n = m \<or> \<not> P m n"
  shows "last_setting f xs = Some v"
  using assms
proof (induction xs rule: rev_induct)
  case (snoc x xs)
  show ?case
  proof (cases "x = m")
    case False
    then have "m \<in> set xs" "P m x" using snoc.prems(1,2) by (auto simp: sorted_wrt_append)
    moreover have "f x = None" using snoc.prems(4) [of x] False \<open>P m x\<close> by (cases "f x") auto
    ultimately show ?thesis
      using snoc.IH snoc.prems by (auto simp: last_setting_snoc sorted_wrt_append)
  qed (use snoc.prems in \<open>simp add: last_setting_snoc\<close>)
qed simp

lemma applied_policy_output:
  "policy_ok (ap_policy (buildAppliedPolicy rules))
   \<and> policy_output (ap_policy (buildAppliedPolicy rules)) k
     = last_setting (\<lambda>r. output_fields (ar_then_patch r) k) rules"
proof (induction rules rule: rev_induct)
  case Nil
  then show ?case
    by (simp add: buildAppliedPolicy_def policy_ok_def policy_output_def member_of_def last_setting_def)
next
  case (snoc r rules)
  have "ap_policy (buildAppliedPolicy (rules @ [r]))
      = fst (mergeDeep (Some (ap_policy (buildAppliedPolicy rules))) (patch_value (ar_then_patch r)) []
          (ap_conflicts (buildAppliedPolicy rules)) (ar_rule_node_id r))"
    by (simp add: buildAppliedPolicy_def apply_rule_def Let_def case_prod_beta)
  then show ?case using snoc by (simp add: last_setting_snoc merge_patch cong: option.case_cong)
qed

lemma applied_sources:
  "map so_rule_node_id (ap_sources (buildAppliedPolicy rules)) = map ar_rule_node_id rules"
  by (induction rules rule: rev_induct)
    (simp_all add: buildAppliedPolicy_def apply_rule_def Let_def case_prod_beta)

end
