(* ===== verification/Tenancy.thy ===== *)
theory Tenancy
  imports JsValue
begin

text \<open>
  Request errors (src/util/http.ts) and tenant scopes (src/memory/tenant.ts).  A request names
  a tenant and a scope; the store knows only the scope key made from both.  The lemmas show
  that two requests share a key only if they are from the same tenant for the same scope.
\<close>

section \<open>Errors of a request\<close>

record http_error =
  he_statusCode :: nat
  he_code :: string
  he_message :: string
  he_details :: "jv option"

definition badRequest :: "string \<Rightarrow> string \<Rightarrow> jv option \<Rightarrow> http_error + 'a" where
  "badRequest cd msg details =
     Inl \<lparr>he_statusCode = 400, he_code = cd, he_message = msg, he_details = details\<rparr>"

section \<open>Tenants and scopes\<close>

text \<open>The expression \<^verbatim>\<open>/^[a-zA-Z0-9][a-zA-Z0-9._-]{0,63}$/\<close>.\<close>

definition TENANT_ID_RE :: "string \<Rightarrow> bool" where
  "TENANT_ID_RE s \<longleftrightarrow> s \<noteq> [] \<and> is_alnum (hd s) \<and> list_all is_name_part (tl s) \<and> length (tl s) \<le> 63"

record tenant_scope =
  ts_tenant_id :: string
  ts_scope :: string
  ts_scope_key :: string

definition normalizeTenantId :: "string option \<Rightarrow> string \<Rightarrow> http_error + string" where
  "normalizeTenantId given fallback =
     (let v = js_trim (case given of Some s \<Rightarrow> s | None \<Rightarrow> fallback)
      in if v = [] then badRequest ''invalid_tenant_id'' ''tenant_id must be non-empty'' None
         else if \<not> TENANT_ID_RE v then
           badRequest ''invalid_tenant_id'' ''tenant_id must match ^[a-zA-Z0-9][a-zA-Z0-9._-]{0,63}$''
             (Some (JObj [(''tenant_id'', JStr v)]))
         else Inr v)"

definition normalizeScope :: "string option \<Rightarrow> string \<Rightarrow> http_error + string" where
  "normalizeScope given fallback =
     (let v = js_trim (case given of Some s \<Rightarrow> s | None \<Rightarrow> fallback)
      in if v = [] then badRequest ''invalid_scope'' ''scope must be non-empty'' None
         else if js_starts_with v ''tenant:'' then
           badRequest ''invalid_scope''
             (''scope must not start with reserved prefix '' @ [CHR 0x27] @ ''tenant:'' @ [CHR 0x27])
             (Some (JObj [(''scope'', JStr v)]))
         else Inr v)"

definition scope_prefix :: "string \<Rightarrow> string" where
  "scope_prefix tenantId = ''tenant:'' @ tenantId @ ''::scope:''"

definition toTenantScopeKey :: "string \<Rightarrow> string \<Rightarrow> string \<Rightarrow> string" where
  "toTenantScopeKey scope tenantId defaultTenantId =
     (if tenantId = defaultTenantId then scope else scope_prefix tenantId @ scope)"

definition fromTenantScopeKey :: "string \<Rightarrow> string \<Rightarrow> string \<Rightarrow> string" where
  "fromTenantScopeKey scopeKey tenantId defaultTenantId =
     (if tenantId = defaultTenantId then scopeKey
      else if js_starts_with scopeKey (scope_prefix tenantId)
        then drop (length (scope_prefix tenantId)) scopeKey
      else scopeKey)"

definition resolveTenantScope ::
  "string option \<Rightarrow> string option \<Rightarrow> string \<Rightarrow> string \<Rightarrow> http_error + tenant_scope" where
  "resolveTenantScope scope tenantId defaultScope defaultTenantId =
     and_then (normalizeTenantId tenantId defaultTenantId) (\<lambda>t.
     and_then (normalizeScope scope defaultScope) (\<lambda>s.
       Inr \<lparr>ts_tenant_id = t, ts_scope = s, ts_scope_key = toTenantScopeKey s t defaultTenantId\<rparr>))"

section \<open>Keys separate tenants\<close>

lemma normalizeTenantId_Inr: "normalizeTenantId given fallback = Inr t \<Longrightarrow> TENANT_ID_RE t"
  by (auto simp: normalizeTenantId_def badRequest_def Let_def split: if_splits)

lemma normalizeScope_Inr:
  "normalizeScope given fallback = Inr s \<Longrightarrow> s \<noteq> [] \<and> \<not> js_starts_with s ''tenant:''"
  by (auto simp: normalizeScope_def badRequest_def Let_def split: if_splits)

lemma tenant_no_colon:
  assumes "TENANT_ID_RE t"
  shows "CHR '':'' \<notin> set t"
proof
  assume c: "CHR '':'' \<in> set t"
  have "\<not> is_alnum CHR '':''" "\<not> is_name_part CHR '':''" by (simp_all add: char_class_defs)
  with assms c show False
    by (cases t) (auto simp: TENANT_ID_RE_def list_all_iff)
qed

lemma colon_split:
  assumes "CHR '':'' \<notin> set a" "CHR '':'' \<notin> set b" "a @ CHR '':'' # xs = b @ CHR '':'' # ys"
  shows "a = b \<and> xs = ys"
  using assms by (induction a arbitrary: b) (case_tac b; auto)+

lemma scope_prefix_inj:
  assumes "TENANT_ID_RE t" "TENANT_ID_RE u" "scope_prefix t @ s = scope_prefix u @ r"
  shows "t = u \<and> s = r"
proof -
  have "t @ CHR '':'' # '':scope:'' @ s = u @ CHR '':'' # '':scope:'' @ r"
    using assms(3) by (simp add: scope_prefix_def)
  from colon_split [OF tenant_no_colon tenant_no_colon this] assms show ?thesis by simp
qed

lemma scope_prefix_reserved: "js_starts_with (scope_prefix t @ s) ''tenant:''"
  by (simp add: scope_prefix_def js_starts_with_def)

lemma toTenantScopeKey_inj:
  assumes "TENANT_ID_RE t" "TENANT_ID_RE u"
    and "\<not> js_starts_with s ''tenant:''" "\<not> js_starts_with r ''tenant:''"
    and "toTenantScopeKey s t dt = toTenantScopeKey r u dt"
  shows "t = u \<and> s = r"
proof (cases "t = dt"; cases "u = dt")
  assume "t = dt" "u = dt"
  then show ?thesis using assms(5) by (simp add: toTenantScopeKey_def)
next
  assume "t = dt" "u \<noteq> dt"
  then have "s = scope_prefix u @ r" using assms(5) by (simp add: toTenantScopeKey_def)
  then show ?thesis using assms(3) scope_prefix_reserved [of u r] by simp
next
  assume "t \<noteq> dt" "u = dt"
  then have "r = scope_prefix t @ s" using assms(5) by (simp add: toTenantScopeKey_def)
  then show ?thesis using assms(4) scope_prefix_reserved [of t s] by simp
next
  assume "t \<noteq> dt" "u \<noteq> dt"
  then show ?thesis
    using assms(5) scope_prefix_inj [OF assms(1,2), of s r] by (simp add: toTenantScopeKey_def)
qed

lemma fromTenantScopeKey_to: "fromTenantScopeKey (toTenantScopeKey s t dt) t dt = s"
  by (simp add: fromTenantScopeKey_def toTenantScopeKey_def js_starts_with_prefix)

lemma resolveTenantScope_Inr:
  assumes "resolveTenantScope s t ds dt = Inr r"
  shows "TENANT_ID_RE (ts_tenant_id r)" "\<not> js_starts_with (ts_scope r) ''tenant:''" "ts_scope r \<noteq> []"
    "ts_scope_key r = toTenantScopeKey (ts_scope r) (ts_tenant_id r) dt"
  using assms by (auto simp: resolveTenantScope_def dest: normalizeTenantId_Inr normalizeScope_Inr)

end
