(* ===== verification/RuleEvaluation.thy ===== *)
theory RuleEvaluation
  imports RuleEngine RulePolicy Tenancy
begin

text \<open>
  Evaluation of the stored rules against a context: src/memory/rules-evaluate.ts.  Rows that are
  out of scope, in a private lane of somebody else, or whose condition fails are counted and
  skipped; the rest are ranked, merged into a policy and their tool lists combined.

  The store is the argument \<open>load\<close>: the rule candidates it lists for a scope key and a limit.
  \<open>re\<close> and \<open>loc\<close> are the regular expression engine and the comparison of strings, as in
  RuleEngine and ToolPolicy.  The members of the request are arguments, already parsed, and the
  summary that evaluateRules appends to its response is left out.
\<close>

record rule_row =
  rw_rule_node_id :: string
  rw_state :: string
  rw_rule_scope :: "string option"
  rw_target_agent_id :: "string option"
  rw_target_team_id :: "string option"
  rw_rule_memory_lane :: string
  rw_rule_owner_agent_id :: "string option"
  rw_rule_owner_team_id :: "string option"
  rw_if_json :: "jv option"
  rw_then_json :: jv
  rw_exceptions_json :: "jv option"
  rw_positive_count :: "jsnum option"
  rw_negative_count :: "jsnum option"
  rw_rule_commit_id :: string
  rw_rule_summary :: "string option"
  rw_rule_slots :: "jv option"

record rank_meta =
  rm_score :: jsnum
  rm_evidence_score :: jsnum
  rm_priority :: jsnum
  rm_weight :: jsnum
  rm_specificity :: nat
  rm_condition_paths :: "string list"

section \<open>The rank of a rule\<close>

definition num_max :: "jsnum \<Rightarrow> jsnum \<Rightarrow> jsnum" where
  "num_max a b = (if a = NaN \<or> b = NaN then NaN else if num_lt a b then b else a)"

definition num_min :: "jsnum \<Rightarrow> jsnum \<Rightarrow> jsnum" where
  "num_min a b = (if a = NaN \<or> b = NaN then NaN else if num_lt b a then b else a)"

definition clampInt :: "jsnum \<Rightarrow> jsnum \<Rightarrow> jsnum \<Rightarrow> jsnum \<Rightarrow> jsnum" where
  "clampInt v lo hi fallback =
     (if \<not> is_finite v then fallback else num_max lo (num_min hi (num_trunc v)))"

definition clampNum :: "jsnum \<Rightarrow> jsnum \<Rightarrow> jsnum \<Rightarrow> jsnum \<Rightarrow> jsnum" where
  "clampNum v lo hi fallback = (if \<not> is_finite v then fallback else num_max lo (num_min hi v))"

definition add_path :: "string \<Rightarrow> string list \<Rightarrow> string list" where
  "add_path path s = (if path = [] then s else set_add path s)"

function collectConditionPaths :: "jv \<Rightarrow> string \<Rightarrow> string list \<Rightarrow> string list" where
  "collectConditionPaths pattern path s =
     (case pattern of
        JNull \<Rightarrow> s
      | JObj ob \<Rightarrow>
          if ob = [] then add_path path s
          else
            foldl (\<lambda>s e.
              if fst e = ''$and'' \<or> fst e = ''$or'' then
                (case snd e of JArr ps \<Rightarrow> foldl (\<lambda>s p. collectConditionPaths p path s) s ps | _ \<Rightarrow> s)
              else if fst e = ''$not'' then collectConditionPaths (snd e) path s
              else if js_starts_with (fst e) ''$'' then add_path path s
              else collectConditionPaths (snd e) (next_path path (fst e)) s) s ob
      | _ \<Rightarrow> add_path path s)"
  by pat_completeness auto
termination
proof (relation "measure (\<lambda>(p, path, s). size p)")
  fix pattern path s ob x e ps u p
  assume "pattern = JObj ob" "e \<in> set ob" "snd e = JArr ps" "p \<in> set ps"
  then show "((p, path, u), pattern, path, s) \<in> measure (\<lambda>(p, path, s). size p)"
    using size_item [of p ps] size_patch_member [of e ob] by simp
qed (auto dest: size_patch_member)

declare collectConditionPaths.simps [simp del]

definition readRuleRankMeta :: "rule_row \<Rightarrow> rank_meta" where
  "readRuleRankMeta row =
     (let evidence = num_sub (with_default (rw_positive_count row) (Fin 0))
                       (with_default (rw_negative_count row) (Fin 0));
          slots = or_nullish (rw_rule_slots row) (Some (JObj []));
          meta = (case chain_get slots ''rule_meta'' of
                    Some m \<Rightarrow> if is_plain_object m then Some m else Some (JObj [])
                  | None \<Rightarrow> Some (JObj []));
          priorityRaw = js_Number (or_nullish (chain_get meta ''priority'')
                          (or_nullish (chain_get slots ''priority'') (Some (JNum (Fin 0)))));
          weightRaw = js_Number (or_nullish (chain_get meta ''weight'')
                        (or_nullish (chain_get slots ''weight'') (Some (JNum (Fin 1)))));
          priority = clampInt priorityRaw (Fin (- 100)) (Fin 100) (Fin 0);
          weight = clampNum weightRaw (Fin 0) (Fin 2) (Fin 1);
          conditionPaths = sort (case rw_if_json row of
            None \<Rightarrow> [] | Some p \<Rightarrow> collectConditionPaths p [] []);
          specificity = length conditionPaths;
          score = num_add (num_add (num_mul priority (Fin 1000)) (num_mul (num_mul evidence (Fin 100)) weight))
                    (js_nat specificity)
      in \<lparr>rm_score = score, rm_evidence_score = evidence, rm_priority = priority, rm_weight = weight,
          rm_specificity = specificity, rm_condition_paths = conditionPaths\<rparr>)"

section \<open>Who sees a rule\<close>

definition trimmed_string :: "jv option \<Rightarrow> string" where
  "trimmed_string v = (case v of Some (JStr s) \<Rightarrow> js_trim s | _ \<Rightarrow> [])"

definition context_id :: "string \<Rightarrow> string \<Rightarrow> jv option \<Rightarrow> string option" where
  "context_id nested flat ctx =
     (let a = trimmed_string (chain_get (chain_get ctx ''agent'') nested);
          b = trimmed_string (chain_get ctx flat)
      in if a \<noteq> [] then Some a else if b = [] then None else Some b)"

definition contextAgentId :: "jv option \<Rightarrow> string option" where
  "contextAgentId ctx = context_id ''id'' ''agent_id'' ctx"

definition contextTeamId :: "jv option \<Rightarrow> string option" where
  "contextTeamId ctx = context_id ''team_id'' ''team_id'' ctx"

definition laneEnforcementStatus :: "string option \<Rightarrow> string option \<Rightarrow> bool \<times> string" where
  "laneEnforcementStatus agent team =
     (if agent = None \<and> team = None then (True, ''missing_agent_context_fail_closed'')
      else if agent \<noteq> None \<and> team \<noteq> None then (True, ''enforced_agent_team'')
      else if agent \<noteq> None then (True, ''enforced_agent_only'')
      else (True, ''enforced_team_only''))"

definition set_text :: "string option \<Rightarrow> bool" where
  "set_text v \<longleftrightarrow> v \<noteq> None \<and> v \<noteq> Some []"

definition scopeRuleMatchesContext :: "rule_row \<Rightarrow> jv option \<Rightarrow> bool" where
  "scopeRuleMatchesContext row ctx =
     (let scope = with_default (rw_rule_scope row) ''global''
      in if scope = ''global'' then True
         else if scope = ''agent'' then
           (set_text (rw_target_agent_id row) \<and> contextAgentId ctx = rw_target_agent_id row)
         else if scope = ''team'' then
           (set_text (rw_target_team_id row) \<and> contextTeamId ctx = rw_target_team_id row)
         else False)"

record lane_decision =
  ld_visible :: bool
  ld_legacy :: bool

definition laneRuleMatchesContext ::
  "rule_row \<Rightarrow> string option \<Rightarrow> string option \<Rightarrow> bool \<Rightarrow> lane_decision" where
  "laneRuleMatchesContext row ctxAgentId ctxTeamId enforceLane =
     (let ownerAgent = rw_rule_owner_agent_id row; ownerTeam = rw_rule_owner_team_id row
      in if \<not> enforceLane then \<lparr>ld_visible = True, ld_legacy = False\<rparr>
         else if rw_rule_memory_lane row = ''shared'' then \<lparr>ld_visible = True, ld_legacy = False\<rparr>
         else if set_text ownerAgent \<and> set_text ctxAgentId \<and> ownerAgent = ctxAgentId
         then \<lparr>ld_visible = True, ld_legacy = False\<rparr>
         else if set_text ownerTeam \<and> set_text ctxTeamId \<and> ownerTeam = ctxTeamId
         then \<lparr>ld_visible = True, ld_legacy = False\<rparr>
         else if \<not> set_text ownerAgent \<and> \<not> set_text ownerTeam
         then \<lparr>ld_visible = False, ld_legacy = True\<rparr>
         else \<lparr>ld_visible = False, ld_legacy = False\<rparr>)"

section \<open>The loop over the rows\<close>

record matched_rule =
  mt_row :: rule_row
  mt_rank :: rank_meta
  mt_then_patch :: policy_patch

record evaluation =
  ev_active :: "matched_rule list"
  ev_shadow :: "matched_rule list"
  ev_skipped_invalid_then :: nat
  ev_invalid_then_sample :: "(string \<times> string \<times> string) list"
  ev_filtered_by_scope :: nat
  ev_filtered_by_lane :: nat
  ev_filtered_by_condition :: nat
  ev_legacy_detected :: nat

definition empty_evaluation :: evaluation where
  "empty_evaluation =
     \<lparr>ev_active = [], ev_shadow = [], ev_skipped_invalid_then = 0, ev_invalid_then_sample = [],
      ev_filtered_by_scope = 0, ev_filtered_by_lane = 0, ev_filtered_by_condition = 0,
      ev_legacy_detected = 0\<rparr>"

definition evaluate_row ::
  "(string \<Rightarrow> string \<Rightarrow> bool option) \<Rightarrow> jv option \<Rightarrow> bool \<Rightarrow> evaluation \<Rightarrow> rule_row \<Rightarrow> evaluation" where
  "evaluate_row re ctx include_shadow ev r =
     (if \<not> scopeRuleMatchesContext r ctx then
        ev\<lparr>ev_filtered_by_scope := ev_filtered_by_scope ev + 1\<rparr>
      else
        (let agent = contextAgentId ctx; team = contextTeamId ctx;
             lane = laneRuleMatchesContext r agent team (fst (laneEnforcementStatus agent team));
             ev1 = (if ld_legacy lane then ev\<lparr>ev_legacy_detected := ev_legacy_detected ev + 1\<rparr> else ev)
         in if \<not> ld_visible lane then ev1\<lparr>ev_filtered_by_lane := ev_filtered_by_lane ev1 + 1\<rparr>
            else if \<not> ruleMatchesContext re (rw_if_json r) (rw_exceptions_json r) ctx then
              ev1\<lparr>ev_filtered_by_condition := ev_filtered_by_condition ev1 + 1\<rparr>
            else (case parsePolicyPatch (rw_then_json r) of
              Inl _ \<Rightarrow>
                ev1\<lparr>ev_skipped_invalid_then := ev_skipped_invalid_then ev1 + 1,
                    ev_invalid_then_sample :=
                      (if length (ev_invalid_then_sample ev1) < 5
                       then ev_invalid_then_sample ev1 @ [(rw_rule_node_id r, rw_state r, rw_rule_commit_id r)]
                       else ev_invalid_then_sample ev1)\<rparr>
            | Inr patch \<Rightarrow>
                (let m = \<lparr>mt_row = r, mt_rank = readRuleRankMeta r, mt_then_patch = patch\<rparr>
                 in if rw_state r = ''active'' then ev1\<lparr>ev_active := ev_active ev1 @ [m]\<rparr>
                    else if rw_state r = ''shadow'' \<and> include_shadow
                    then ev1\<lparr>ev_shadow := ev_shadow ev1 @ [m]\<rparr>
                    else ev1))))"

definition evaluate_rows ::
  "(string \<Rightarrow> string \<Rightarrow> bool option) \<Rightarrow> jv option \<Rightarrow> bool \<Rightarrow> rule_row list \<Rightarrow> evaluation" where
  "evaluate_rows re ctx include_shadow rows = foldl (evaluate_row re ctx include_shadow) empty_evaluation rows"

section \<open>Merging the matched rules\<close>

text \<open>\<^verbatim>\<open>a.rank.score - b.rank.score || a.id.localeCompare(b.id)\<close>\<close>

definition merge_order :: "(string \<Rightarrow> string \<Rightarrow> int) \<Rightarrow> matched_rule \<Rightarrow> matched_rule \<Rightarrow> bool" where
  "merge_order loc a b \<longleftrightarrow>
     (let d = num_sub (rm_score (mt_rank a)) (rm_score (mt_rank b))
      in if js_truthy (Some (JNum d)) then num_lt d (Fin 0)
         else loc (rw_rule_node_id (mt_row a)) (rw_rule_node_id (mt_row b)) \<le> 0)"

definition applied_rule_of :: "string \<Rightarrow> matched_rule \<Rightarrow> applied_rule" where
  "applied_rule_of st m =
     \<lparr>ar_rule_node_id = rw_rule_node_id (mt_row m), ar_state = st,
      ar_commit_id = rw_rule_commit_id (mt_row m), ar_then_patch = mt_then_patch m\<rparr>"

definition tool_rule_of :: "matched_rule \<Rightarrow> tool_rule" where
  "tool_rule_of m =
     \<lparr>tr_rule_node_id = rw_rule_node_id (mt_row m), tr_score = rm_score (mt_rank m),
      tr_evidence_score = Some (rm_evidence_score (mt_rank m)), tr_priority = Some (rm_priority (mt_rank m)),
      tr_weight = Some (rm_weight (mt_rank m)), tr_specificity = Some (js_nat (rm_specificity (mt_rank m))),
      tr_tool = pp_tool (mt_then_patch m)\<rparr>"

definition rankByRule :: "matched_rule list \<Rightarrow> (string, rank_meta) js_map" where
  "rankByRule ms = foldl (\<lambda>m x. map_set (rw_rule_node_id (mt_row x)) (mt_rank x) m) [] ms"

record conflict_explain =
  ce_path :: string
  ce_winner :: "string \<times> rank_meta option"
  ce_losers :: "(string \<times> jsnum option) list"
  ce_reason :: string

text \<open>\<^verbatim>\<open>Number(b.score ?? -Infinity) - Number(a.score ?? -Infinity)\<close>; NaN compares as equal.\<close>

definition loser_order :: "string \<times> jsnum option \<Rightarrow> string \<times> jsnum option \<Rightarrow> bool" where
  "loser_order a b \<longleftrightarrow>
     \<not> num_lt (Fin 0) (num_sub (with_default (snd b) NegInf) (with_default (snd a) NegInf))"

definition buildConflictExplain ::
  "policy_conflict list \<Rightarrow> policy_source list \<Rightarrow> (string, rank_meta) js_map \<Rightarrow> conflict_explain list" where
  "buildConflictExplain conflicts sources ranks =
     take 50 (map (\<lambda>c.
       (let contributors = map so_rule_node_id (filter (\<lambda>s. pc_path c \<in> set (so_touched_paths s)) sources);
            losers = take 5 (sort_by loser_order
              (map (\<lambda>i. (i, map_option rm_score (map_get ranks i)))
                (filter (\<lambda>i. i \<noteq> pc_winner_rule_node_id c) contributors)))
        in \<lparr>ce_path = pc_path c,
            ce_winner = (pc_winner_rule_node_id c, map_get ranks (pc_winner_rule_node_id c)),
            ce_losers = losers,
            ce_reason = ''higher rank wins (priority > evidence*weight > condition_specificity)''\<rparr>)) conflicts)"

record applied_channel =
  ac_policy :: jv
  ac_tool :: tool_patch
  ac_sources :: "(policy_source \<times> rank_meta option) list"
  ac_conflicts :: "policy_conflict list"
  ac_conflict_explain :: "conflict_explain list"
  ac_tool_explain :: tool_explain

text \<open>One channel, active or shadow; the tool lists replace the merged ones.\<close>

definition apply_channel ::
  "(string \<Rightarrow> string \<Rightarrow> int) \<Rightarrow> string \<Rightarrow> matched_rule list \<Rightarrow> applied_channel" where
  "apply_channel loc st ms =
     (let applied = buildAppliedPolicy (map (applied_rule_of st) (sort_by (merge_order loc) ms));
          (tool, explain) = computeEffectiveToolPolicy loc (map tool_rule_of ms);
          ranks = rankByRule ms
      in \<lparr>ac_policy = (case ap_policy applied of JObj ob \<Rightarrow> JObj (obj_assign ''tool'' (tool_value tool) ob) | v \<Rightarrow> v),
          ac_tool = tool,
          ac_sources = map (\<lambda>s. (s, map_get ranks (so_rule_node_id s))) (ap_sources applied),
          ac_conflicts = ap_conflicts applied,
          ac_conflict_explain = buildConflictExplain (ap_conflicts applied) (ap_sources applied) ranks,
          ac_tool_explain = explain\<rparr>)"

record evaluation_result =
  er_scope :: string
  er_tenant_id :: string
  er_considered :: nat
  er_matched :: nat
  er_evaluation :: evaluation
  er_agent :: "string option \<times> string option"
  er_lane :: "bool \<times> string"
  er_applied :: applied_channel
  er_shadow :: "applied_channel option"

definition evaluateRulesAppliedOnly ::
  "(string \<Rightarrow> string \<Rightarrow> bool option) \<Rightarrow> (string \<Rightarrow> string \<Rightarrow> int) \<Rightarrow> string \<Rightarrow> string option \<Rightarrow> string option
   \<Rightarrow> jv option \<Rightarrow> bool \<Rightarrow> nat \<Rightarrow> (string \<Rightarrow> nat \<Rightarrow> rule_row list) \<Rightarrow> http_error + evaluation_result" where
  "evaluateRulesAppliedOnly re loc scope tenant_id default_tenant_id ctx include_shadow limit load =
     and_then (resolveTenantScope (Some scope) tenant_id scope (with_default default_tenant_id ''default''))
       (\<lambda>tenancy.
         let rows = load (ts_scope_key tenancy) limit;
             ev = evaluate_rows re ctx include_shadow rows;
             agent = contextAgentId ctx; team = contextTeamId ctx
         in Inr \<lparr>er_scope = ts_scope tenancy, er_tenant_id = ts_tenant_id tenancy,
                 er_considered = length rows, er_matched = length (ev_active ev) + length (ev_shadow ev),
                 er_evaluation = ev, er_agent = (agent, team), er_lane = laneEnforcementStatus agent team,
                 er_applied = apply_channel loc ''active'' (ev_active ev),
                 er_shadow = (if include_shadow then Some (apply_channel loc ''shadow'' (ev_shadow ev)) else None)\<rparr>)"

section \<open>The full evaluation\<close>

record rule_dto =
  dt_rule_node_id :: string
  dt_state :: string
  dt_rule_scope :: "string option"
  dt_target_agent_id :: "string option"
  dt_target_team_id :: "string option"
  dt_summary :: "string option"
  dt_if_json :: "jv option"
  dt_then_json :: policy_patch
  dt_exceptions_json :: "jv option"
  dt_stats :: "jsnum option \<times> jsnum option"
  dt_rank :: rank_meta
  dt_commit_id :: string

definition rule_dto_of :: "matched_rule \<Rightarrow> rule_dto" where
  "rule_dto_of m =
     (let r = mt_row m
      in \<lparr>dt_rule_node_id = rw_rule_node_id r, dt_state = rw_state r, dt_rule_scope = rw_rule_scope r,
          dt_target_agent_id = rw_target_agent_id r, dt_target_team_id = rw_target_team_id r,
          dt_summary = rw_rule_summary r, dt_if_json = rw_if_json r, dt_then_json = mt_then_patch m,
          dt_exceptions_json = rw_exceptions_json r,
          dt_stats = (rw_positive_count r, rw_negative_count r), dt_rank = mt_rank m,
          dt_commit_id = rw_rule_commit_id r\<rparr>)"

definition dto_order :: "(string \<Rightarrow> string \<Rightarrow> int) \<Rightarrow> rule_dto \<Rightarrow> rule_dto \<Rightarrow> bool" where
  "dto_order loc a b = score_order loc (rm_score (dt_rank a), dt_rule_node_id a) (rm_score (dt_rank b), dt_rule_node_id b)"

definition evaluateRules ::
  "(string \<Rightarrow> string \<Rightarrow> bool option) \<Rightarrow> (string \<Rightarrow> string \<Rightarrow> int) \<Rightarrow> string option \<Rightarrow> string option \<Rightarrow> string \<Rightarrow> string
   \<Rightarrow> jv option \<Rightarrow> bool \<Rightarrow> nat \<Rightarrow> (string \<Rightarrow> nat \<Rightarrow> rule_row list)
   \<Rightarrow> http_error + evaluation_result \<times> rule_dto list \<times> rule_dto list" where
  "evaluateRules re loc scope tenant_id defaultScope defaultTenantId ctx include_shadow limit load =
     and_then (resolveTenantScope scope tenant_id defaultScope defaultTenantId)
       (\<lambda>tenancy.
         let rows = load (ts_scope_key tenancy) limit;
             ev = evaluate_rows re ctx include_shadow rows;
             agent = contextAgentId ctx; team = contextTeamId ctx;
             active = sort_by (dto_order loc) (map rule_dto_of (ev_active ev));
             shadow = sort_by (dto_order loc) (map rule_dto_of (ev_shadow ev))
         in Inr (\<lparr>er_scope = ts_scope tenancy, er_tenant_id = ts_tenant_id tenancy,
                 er_considered = length rows, er_matched = length active + length shadow,
                 er_evaluation = ev, er_agent = (agent, team), er_lane = laneEnforcementStatus agent team,
                 er_applied = apply_channel loc ''active'' (ev_active ev),
                 er_shadow = (if include_shadow then Some (apply_channel loc ''shadow'' (ev_shadow ev)) else None)\<rparr>,
               active, shadow))"

end
