(* ===== verification/ToolSelector.thy ===== *)
theory ToolSelector
  imports ToolPolicy Tenancy "HOL-Library.Multiset"
begin

text \<open>
  The choice of a tool under a policy: src/memory/tool-selector.ts.  The candidates pass the
  deny list and, if there is one, the allow list; the preferred ones come first.
\<close>

datatype deny_reason = DenyList | NotInAllowList | ControlProfile

datatype fallback_reason = FallbackNone | AllowlistFilteredAll | DenyFilteredAll

datatype effective_mode = AllowAndDeny | DenyOnly

record selection_fallback =
  fb_applied :: bool
  fb_reason :: fallback_reason
  fb_note :: string
  fb_effective_mode :: effective_mode

record tool_decision =
  td_candidates :: "string list"
  td_allowed :: "string list"
  td_denied :: "(string \<times> deny_reason) list"
  td_preferred :: "string list"
  td_ordered :: "string list"
  td_selected :: "string option"
  td_fallback :: selection_fallback

text \<open>One round of the loop over the candidates; \<open>allowSet\<close> is \<^verbatim>\<open>null\<close> for \<open>None\<close>.\<close>

fun applyAllowDeny ::
  "string list \<Rightarrow> string list option \<Rightarrow> bool \<Rightarrow> string list \<Rightarrow> string list \<times> (string \<times> deny_reason) list" where
  "applyAllowDeny deny allowSet useAllow [] = ([], [])"
| "applyAllowDeny deny allowSet useAllow (c # cs) =
     (let (allowed, denied) = applyAllowDeny deny allowSet useAllow cs
      in if c \<in> set deny then (allowed, (c, DenyList) # denied)
         else if useAllow \<and> (case allowSet of Some a \<Rightarrow> c \<notin> set a | None \<Rightarrow> False)
         then (allowed, (c, NotInAllowList) # denied)
         else (c # allowed, denied))"

definition no_fallback :: "bool \<Rightarrow> selection_fallback" where
  "no_fallback hasAllow =
     \<lparr>fb_applied = False, fb_reason = FallbackNone, fb_note = ''no fallback applied'',
      fb_effective_mode = (if hasAllow then AllowAndDeny else DenyOnly)\<rparr>"

definition allow_fallback :: selection_fallback where
  "allow_fallback =
     \<lparr>fb_applied = True, fb_reason = AllowlistFilteredAll,
      fb_note = ''allowlist eliminated all candidates; falling back to deny-only (ignore tool.allow) because strict=false'',
      fb_effective_mode = DenyOnly\<rparr>"

definition deny_fallback :: selection_fallback where
  "deny_fallback =
     \<lparr>fb_applied = True, fb_reason = DenyFilteredAll,
      fb_note = ''denylist eliminated all candidates; no tool can be selected'',
      fb_effective_mode = DenyOnly\<rparr>"

definition applyToolPolicy ::
  "string list \<Rightarrow> tool_patch option \<Rightarrow> bool \<Rightarrow> http_error + tool_decision" where
  "applyToolPolicy candidatesIn tool strict =
     (let candidates = uniq candidatesIn;
          allow = patch_list tp_allow tool;
          deny = patch_list tp_deny tool;
          prefer = patch_list tp_prefer tool;
          allowSet = (if allow = [] then None else Some allow);
          (allowed1, denied1) = applyAllowDeny deny allowSet True candidates;
          relax = (\<not> strict \<and> allowed1 = [] \<and> allowSet \<noteq> None);
          (allowed, denied) = (if relax then applyAllowDeny deny allowSet False candidates
                               else (allowed1, denied1));
          fallback1 = (if relax then allow_fallback else no_fallback (allowSet \<noteq> None))
      in if strict \<and> allowed = [] then
           badRequest ''no_tools_allowed''
             (if allowSet \<noteq> None then ''no candidates remain after allow/deny filters''
              else ''no candidates remain after deny filters'')
             (Some (JObj [(''candidates'', JNum (js_nat (length candidates))),
                (''allow'', JNum (js_nat (length allow))), (''deny'', JNum (js_nat (length deny)))]))
         else
           (let fallback = (if \<not> strict \<and> allowed = [] then deny_fallback else fallback1);
                preferred = filter (\<lambda>t. t \<in> set allowed) prefer;
                ordered = preferred @ filter (\<lambda>t. t \<notin> set preferred) allowed
            in Inr \<lparr>td_candidates = candidates, td_allowed = allowed, td_denied = denied,
                 td_preferred = preferred, td_ordered = ordered,
                 td_selected = (if ordered = [] then None else Some (hd ordered)),
                 td_fallback = fallback\<rparr>))"

section \<open>The filters\<close>

lemma applyAllowDeny_spec:
  "fst (applyAllowDeny deny al use cs)
     = filter (\<lambda>c. c \<notin> set deny \<and> (use \<longrightarrow> (case al of Some a \<Rightarrow> c \<in> set a | None \<Rightarrow> True))) cs"
  "mset (map fst (snd (applyAllowDeny deny al use cs))) + mset (fst (applyAllowDeny deny al use cs)) = mset cs"
  by (induction cs) (auto simp: Let_def split: prod.splits option.splits)

lemma applyToolPolicy_Inr:
  assumes "applyToolPolicy cs tool strict = Inr d"
  shows "td_candidates d = uniq cs"
    and "\<exists>use. (td_allowed d, td_denied d) = applyAllowDeny (patch_list tp_deny tool)
           (if patch_list tp_allow tool = [] then None else Some (patch_list tp_allow tool)) use (uniq cs)
         \<and> (strict \<longrightarrow> use)"
    and "td_preferred d = filter (\<lambda>t. t \<in> set (td_allowed d)) (patch_list tp_prefer tool)"
    and "td_ordered d = td_preferred d @ filter (\<lambda>t. t \<notin> set (td_preferred d)) (td_allowed d)"
    and "td_selected d = (if td_ordered d = [] then None else Some (hd (td_ordered d)))"
    and "strict \<Longrightarrow> td_allowed d \<noteq> []"
proof -
  define al where "al = (if patch_list tp_allow tool = [] then None else Some (patch_list tp_allow tool))"
  define deny where "deny = patch_list tp_deny tool"
  define use where "use = (strict \<or> fst (applyAllowDeny deny al True (uniq cs)) \<noteq> [] \<or> al = None)"
  obtain allowed denied where ad: "applyAllowDeny deny al use (uniq cs) = (allowed, denied)" by fastforce
  define relax where "relax = (\<not> strict \<and> fst (applyAllowDeny deny al True (uniq cs)) = [] \<and> al \<noteq> None)"
  have pick: "(if relax then applyAllowDeny deny al False (uniq cs)
      else applyAllowDeny deny al True (uniq cs)) = (allowed, denied)"
    using ad by (cases use) (auto simp: use_def relax_def)
  let ?pref = "filter (\<lambda>t. t \<in> set allowed) (patch_list tp_prefer tool)"
  let ?ord = "?pref @ filter (\<lambda>t. t \<notin> set ?pref) allowed"
  note eq = assms [unfolded applyToolPolicy_def Let_def case_prod_beta al_def [symmetric] deny_def [symmetric]
      prod.collapse relax_def [symmetric] pick fst_conv snd_conv]
  have some: "\<not> (strict \<and> allowed = [])"
  proof
    assume "strict \<and> allowed = []"
    then show False using eq unfolding badRequest_def by (simp only: if_True simp_thms sum.distinct)
  qed
  have "\<exists>fb. d = \<lparr>td_candidates = uniq cs, td_allowed = allowed, td_denied = denied, td_preferred = ?pref,
      td_ordered = ?ord, td_selected = (if ?ord = [] then None else Some (hd ?ord)), td_fallback = fb\<rparr>"
    using eq unfolding if_not_P [OF some] sum.inject by blast
  then obtain fb where d: "d = \<lparr>td_candidates = uniq cs, td_allowed = allowed, td_denied = denied,
      td_preferred = ?pref, td_ordered = ?ord, td_selected = (if ?ord = [] then None else Some (hd ?ord)),
      td_fallback = fb\<rparr>" by blast
  have f: "td_allowed d = allowed" "td_denied d = denied" "td_preferred d = ?pref" "td_ordered d = ?ord"
    unfolding d by (simp_all only: tool_decision.simps)
  show "td_candidates d = uniq cs" unfolding d by (simp only: tool_decision.simps)
  show "td_selected d = (if td_ordered d = [] then None else Some (hd (td_ordered d)))"
    unfolding d by (simp only: tool_decision.simps)
  show "td_preferred d = filter (\<lambda>t. t \<in> set (td_allowed d)) (patch_list tp_prefer tool)"
    "td_ordered d = td_preferred d @ filter (\<lambda>t. t \<notin> set (td_preferred d)) (td_allowed d)"
    unfolding f by (rule refl)+
  show "strict \<Longrightarrow> td_allowed d \<noteq> []" unfolding f using some by blast
  have "strict \<longrightarrow> use" by (simp add: use_def)
  then show "\<exists>use. (td_allowed d, td_denied d) = applyAllowDeny (patch_list tp_deny tool)
           (if patch_list tp_allow tool = [] then None else Some (patch_list tp_allow tool)) use (uniq cs)
         \<and> (strict \<longrightarrow> use)"
    unfolding f al_def [symmetric] deny_def [symmetric] ad [symmetric] by blast
qed

lemma ordered_permutation:
  assumes "applyToolPolicy cs tool strict = Inr d"
  shows "distinct (td_ordered d)" "set (td_ordered d) = set (td_allowed d)"
proof -
  note r = applyToolPolicy_Inr [OF assms]
  obtain use where "td_allowed d = fst (applyAllowDeny (patch_list tp_deny tool)
      (if patch_list tp_allow tool = [] then None else Some (patch_list tp_allow tool)) use (uniq cs))"
    using r(2) by (metis fst_conv)
  then have "distinct (td_allowed d)" by (simp add: applyAllowDeny_spec)
  then show "distinct (td_ordered d)" "set (td_ordered d) = set (td_allowed d)"
    using r(3,4) by (auto simp: patch_list_def)
qed

lemma allowed_spec:
  assumes "applyToolPolicy cs tool strict = Inr d" "t \<in> set (td_allowed d)"
  shows "t \<in> set cs" "t \<noteq> []" "t \<notin> set (patch_list tp_deny tool)"
    "strict \<Longrightarrow> patch_list tp_allow tool \<noteq> [] \<Longrightarrow> t \<in> set (patch_list tp_allow tool)"
proof -
  obtain use where use: "td_allowed d = fst (applyAllowDeny (patch_list tp_deny tool)
      (if patch_list tp_allow tool = [] then None else Some (patch_list tp_allow tool)) use (uniq cs))"
      "strict \<longrightarrow> use"
    using applyToolPolicy_Inr(2) [OF assms(1)] by (metis fst_conv)
  with assms(2) show "t \<in> set cs" "t \<noteq> []" "t \<notin> set (patch_list tp_deny tool)"
    "strict \<Longrightarrow> patch_list tp_allow tool \<noteq> [] \<Longrightarrow> t \<in> set (patch_list tp_allow tool)"
    by (auto simp: applyAllowDeny_spec)
qed

lemma accounted_candidates:
  assumes "applyToolPolicy cs tool strict = Inr d"
  shows "mset (map fst (td_denied d)) + mset (td_ordered d) = mset (td_candidates d)"
proof -
  note r = applyToolPolicy_Inr [OF assms]
  obtain use where "(td_allowed d, td_denied d) = applyAllowDeny (patch_list tp_deny tool)
      (if patch_list tp_allow tool = [] then None else Some (patch_list tp_allow tool)) use (uniq cs)"
    using r(2) by blast
  from arg_cong [OF this, of fst] arg_cong [OF this, of snd]
  have a: "td_allowed d = fst (applyAllowDeny (patch_list tp_deny tool)
      (if patch_list tp_allow tool = [] then None else Some (patch_list tp_allow tool)) use (uniq cs))"
    and b: "td_denied d = snd (applyAllowDeny (patch_list tp_deny tool)
      (if patch_list tp_allow tool = [] then None else Some (patch_list tp_allow tool)) use (uniq cs))"
    by simp_all
  have "distinct (td_allowed d)" unfolding a by (simp add: applyAllowDeny_spec)
  then have "mset (td_ordered d) = mset (td_allowed d)"
    using ordered_permutation [OF assms] by (simp add: set_eq_iff_mset_eq_distinct [symmetric])
  then show ?thesis unfolding a b r(1) by (simp only: applyAllowDeny_spec(2))
qed

text \<open>Allow lists that have no tool in common restrict nothing: an empty list counts as none.\<close>

lemma empty_allow_is_none:
  "applyToolPolicy cs (Some \<lparr>tp_allow = Some [], tp_deny = d, tp_prefer = p\<rparr>) strict
     = applyToolPolicy cs (Some \<lparr>tp_allow = None, tp_deny = d, tp_prefer = p\<rparr>) strict"
  by (simp add: applyToolPolicy_def patch_list_def with_default_def uniq_def)

end
