(* ===== verification/ToolRegistry.thy ===== *)
theory ToolRegistry
  imports JsMap StateMachine "HOL-Library.Multiset"
begin

text \<open>
  The registry of tools and the family-aware order of candidates: src/memory/tool-registry.ts.

  Tools of one capability family take the places the family has among the candidates, best
  quality tier first, unless the caller prefers one of them.  The lemmas show that the order
  is a permutation of the candidates when the metadata describe the same list.
\<close>

datatype quality_tier = TierExperimental | TierSupported | TierPreferred | TierDeprecated

datatype registry_status = ToolActive | ToolDisabled | ToolShadowOnly

record tool_record =
  tl_tool_name :: string
  tl_capability_family :: string
  tl_capability_tags :: "string list"
  tl_quality_tier :: quality_tier
  tl_status :: registry_status
  tl_replacement_for :: "string list"
  tl_replaced_by :: "string list"

record candidate_meta =
  cm_tool_name :: string
  cm_capability_family :: "string option"
  cm_quality_tier :: "quality_tier option"
  cm_status :: "registry_status option"
  cm_replacement_for :: "string list"
  cm_replaced_by :: "string list"

type_synonym tool_index = "(string, tool_record) js_map"

definition SYNTHETIC_FOCUSED_TEST_EXECUTION_TOOLS :: "string list" where
  "SYNTHETIC_FOCUSED_TEST_EXECUTION_TOOLS =
     [''test-symbol-targeted'',
      ''pytest-targeted'',
      ''test-regression-lite'',
      ''test-module-targeted'',
      ''test-patch-verify'',
      ''test-suite-slice'',
      ''test-case-focused'',
      ''test-targeted-fast'',
      ''test-targeted-diff-aware'',
      ''test-targeted-contextual'',
      ''test-selection-lite'',
      ''test-file-quick'',
      ''test-file-contextual'',
      ''test-file-sliced'',
      ''test-file-merge-aware'',
      ''test-file-annotated'',
      ''test-file-minimal'',
      ''test-file-local'',
      ''test-file-focused-v2'',
      ''test-file-precise'',
      ''test-target-windowed'',
      ''test-target-anchored'',
      ''test-target-resume'',
      ''test-symbol-focused-v2'',
      ''test-symbol-contextual'',
      ''test-module-focused'',
      ''test-module-contextual'',
      ''test-suite-focused'',
      ''test-suite-contextual'',
      ''test-case-targeted'',
      ''test-case-minimal'',
      ''test-diff-targeted'',
      ''test-diff-windowed'',
      ''test-patch-focused'',
      ''test-patch-contextual'',
      ''test-recovery-targeted'',
      ''test-recovery-contextual'',
      ''test-auth-targeted'',
      ''test-auth-contextual'']"

definition DEFAULT_TOOL_REGISTRY_RECORDS :: "tool_record list" where
  "DEFAULT_TOOL_REGISTRY_RECORDS =
     [\<lparr>tl_tool_name = ''read-source-focused-v2'', tl_capability_family = ''focused_repo_read'',
       tl_capability_tags = [''repo_read'', ''file_targeted'', ''source''],
       tl_quality_tier = TierPreferred, tl_status = ToolActive,
       tl_replacement_for = [''read-markdown-impl''], tl_replaced_by = []\<rparr>,
      \<lparr>tl_tool_name = ''read-markdown-impl'', tl_capability_family = ''focused_repo_read'',
       tl_capability_tags = [''repo_read'', ''file_targeted'', ''markdown''],
       tl_quality_tier = TierSupported, tl_status = ToolActive,
       tl_replacement_for = [], tl_replaced_by = [''read-source-focused-v2'']\<rparr>,
      \<lparr>tl_tool_name = ''test-file-targeted'', tl_capability_family = ''focused_test_execution'',
       tl_capability_tags = [''test_execution'', ''file_targeted'', ''narrow_validation''],
       tl_quality_tier = TierPreferred, tl_status = ToolActive,
       tl_replacement_for = [], tl_replaced_by = []\<rparr>]
     @ map (\<lambda>nm.
         \<lparr>tl_tool_name = nm, tl_capability_family = ''focused_test_execution'',
          tl_capability_tags = [''test_execution'', ''file_targeted'', ''narrow_validation''],
          tl_quality_tier = TierSupported, tl_status = ToolActive,
          tl_replacement_for = [], tl_replaced_by = [''test-file-targeted'']\<rparr>)
       SYNTHETIC_FOCUSED_TEST_EXECUTION_TOOLS"

definition buildToolRegistryIndex :: "tool_record list \<Rightarrow> tool_index" where
  "buildToolRegistryIndex records = foldl (\<lambda>out r. map_set (tl_tool_name r) r out) [] records"

definition DEFAULT_TOOL_REGISTRY_INDEX :: tool_index where
  "DEFAULT_TOOL_REGISTRY_INDEX = buildToolRegistryIndex DEFAULT_TOOL_REGISTRY_RECORDS"

definition getToolRegistryRecord :: "tool_index \<Rightarrow> string \<Rightarrow> tool_record option" where
  "getToolRegistryRecord index nm = map_get index nm"

definition candidate_metadata :: "tool_index \<Rightarrow> string \<Rightarrow> candidate_meta" where
  "candidate_metadata index nm =
     (case getToolRegistryRecord index nm of
        None \<Rightarrow>
          \<lparr>cm_tool_name = nm, cm_capability_family = None, cm_quality_tier = None,
           cm_status = None, cm_replacement_for = [], cm_replaced_by = []\<rparr>
      | Some r \<Rightarrow>
          \<lparr>cm_tool_name = tl_tool_name r, cm_capability_family = Some (tl_capability_family r),
           cm_quality_tier = Some (tl_quality_tier r), cm_status = Some (tl_status r),
           cm_replacement_for = tl_replacement_for r, cm_replaced_by = tl_replaced_by r\<rparr>)"

definition mapCandidatesToFamilies :: "tool_index \<Rightarrow> string list \<Rightarrow> candidate_meta list" where
  "mapCandidatesToFamilies index candidates = map (candidate_metadata index) candidates"

fun tierRank :: "quality_tier option \<Rightarrow> nat" where
  "tierRank (Some TierPreferred) = 0"
| "tierRank (Some TierSupported) = 1"
| "tierRank (Some TierExperimental) = 2"
| "tierRank (Some TierDeprecated) = 3"
| "tierRank None = 4"

section \<open>The family-aware order\<close>

type_synonym family_member = "nat \<times> candidate_meta"

definition add_member ::
  "(string, family_member list) js_map \<Rightarrow> family_member \<Rightarrow> (string, family_member list) js_map" where
  "add_member fams im =
     (case cm_capability_family (snd im) of
        None \<Rightarrow> fams
      | Some f \<Rightarrow>
          if f = [] then fams
          else map_set f ((case map_get fams f of Some l \<Rightarrow> l | None \<Rightarrow> []) @ [im]) fams)"

definition group_families :: "candidate_meta list \<Rightarrow> (string, family_member list) js_map" where
  "group_families metadata = foldl add_member [] (List.enumerate 0 metadata)"

text \<open>The comparator of the members: the tier first, then the place.\<close>

definition member_le :: "family_member \<Rightarrow> family_member \<Rightarrow> bool" where
  "member_le a b \<longleftrightarrow>
     (let ra = tierRank (cm_quality_tier (snd a)); rb = tierRank (cm_quality_tier (snd b))
      in if ra \<noteq> rb then ra < rb else fst a \<le> fst b)"

text \<open>
  One family.  The places are those of the metadata; \<open>out\<close> is as long as the metadata at the
  one place the function is called from, so the assignment never extends the array.
\<close>

definition reorder_family :: "string list \<Rightarrow> string list \<Rightarrow> family_member list \<Rightarrow> string list" where
  "reorder_family preferred out members =
     (if length members < 2 then out
      else if \<exists>e \<in> set members. cm_tool_name (snd e) \<in> set preferred then out
      else
        (let reordered = sort_by member_le members;
             slots = sort_by (\<le>) (map fst members)
         in foldl (\<lambda>o' sl. o'[fst sl := cm_tool_name (snd (snd sl))]) out (zip slots reordered)))"

definition applyFamilyAwareOrdering ::
  "string list \<Rightarrow> candidate_meta list \<Rightarrow> string list \<Rightarrow> string list" where
  "applyFamilyAwareOrdering candidates metadata preferred =
     foldl (reorder_family preferred) candidates (map snd (group_families metadata))"

section \<open>Writing a permutation into some places of a list\<close>

lemma mset_insert_by [simp]: "mset (insert_by le x ys) = add_mset x (mset ys)"
  by (induction le x ys rule: insert_by.induct) auto

lemma mset_sort_by [simp]: "mset (sort_by le xs) = mset xs"
  by (induction xs) (auto simp: sort_by_def)

abbreviation write_slots :: "'a list \<Rightarrow> (nat \<times> 'a) list \<Rightarrow> 'a list" where
  "write_slots xs ivs \<equiv> foldl (\<lambda>o' iv. o'[fst iv := snd iv]) xs ivs"

lemma length_write_slots [simp]: "length (write_slots xs ivs) = length xs"
  by (induction ivs arbitrary: xs) auto

lemma nth_write_other:
  "j \<notin> fst ` set ivs \<Longrightarrow> write_slots xs ivs ! j = xs ! j"
  by (induction ivs arbitrary: xs) auto

lemma mset_write_slots:
  assumes "distinct (map fst ivs)" "\<forall>i \<in> fst ` set ivs. i < length xs"
  shows "mset (write_slots xs ivs) + image_mset (\<lambda>i. xs ! i) (mset (map fst ivs))
    = mset xs + mset (map snd ivs)"
  using assms
proof (induction ivs arbitrary: xs)
  case (Cons iv ivs)
  let ?xs = "xs[fst iv := snd iv]"
  have i: "fst iv < length xs" using Cons.prems by simp
  have "mset (write_slots ?xs ivs) + image_mset (\<lambda>i. ?xs ! i) (mset (map fst ivs))
      = mset ?xs + mset (map snd ivs)"
    using Cons by simp
  moreover have "image_mset (\<lambda>i. ?xs ! i) (mset (map fst ivs)) = image_mset (\<lambda>i. xs ! i) (mset (map fst ivs))"
    using Cons.prems by (intro image_mset_cong) (metis (no_types, lifting) distinct.simps(2)
        list.simps(9) nth_list_update_neq set_mset_mset)
  moreover have "add_mset (xs ! fst iv) (mset ?xs) = add_mset (snd iv) (mset xs)"
    using i by (simp add: mset_update)
  ultimately show ?case by simp
qed simp

lemma write_slots_in:
  "i \<in> fst ` set ivs \<Longrightarrow> i < length xs \<Longrightarrow> write_slots xs ivs ! i \<in> snd ` set ivs"
proof (induction ivs arbitrary: xs)
  case (Cons iv ivs)
  show ?case
  proof (cases "i \<in> fst ` set ivs")
    case True
    then show ?thesis using Cons.IH [of "xs[fst iv := snd iv]"] Cons.prems by auto
  next
    case False
    then show ?thesis using Cons.prems nth_write_other [OF False] by auto
  qed
qed simp

section \<open>Reordering one family\<close>

text \<open>Members as the grouping produces them, against a list they describe.\<close>

definition members_ok :: "string list \<Rightarrow> family_member list \<Rightarrow> bool" where
  "members_ok out ms \<longleftrightarrow> distinct (map fst ms)
     \<and> (\<forall>im \<in> set ms. fst im < length out \<and> out ! fst im = cm_tool_name (snd im))"

lemma reorder_family_cases:
  obtains (same) "reorder_family pref out ms = out"
  | (wrote) ivs where "reorder_family pref out ms = write_slots out ivs"
      "mset (map fst ivs) = mset (map fst ms)" "mset (map snd ivs) = mset (map (cm_tool_name \<circ> snd) ms)"
proof -
  let ?slots = "sort_by (\<le>) (map fst ms)"
  let ?names = "map (cm_tool_name \<circ> snd) (sort_by member_le ms)"
  have len: "length ?slots = length ?names" by simp
  have "foldl (\<lambda>o' sl. o'[fst sl := cm_tool_name (snd (snd sl))]) out (zip ?slots (sort_by member_le ms))
      = write_slots out (zip ?slots ?names)"
    by (simp add: zip_map2 foldl_map comp_def case_prod_beta)
  note eq = this
  have m: "mset (map fst (zip ?slots ?names)) = mset (map fst ms)"
    "mset (map snd (zip ?slots ?names)) = mset (map (cm_tool_name \<circ> snd) ms)"
    by (simp_all only: map_fst_zip [OF len] map_snd_zip [OF len] mset_map mset_sort_by)
  show ?thesis
  proof (cases "length ms < 2 \<or> (\<exists>e \<in> set ms. cm_tool_name (snd e) \<in> set pref)")
    case True
    then show ?thesis by (intro same) (auto simp: reorder_family_def)
  next
    case False
    then have "reorder_family pref out ms = write_slots out (zip ?slots ?names)"
      unfolding reorder_family_def Let_def eq by simp
    then show ?thesis using m by (rule wrote)
  qed
qed

lemma reorder_family_ok:
  assumes "members_ok out ms"
  shows "mset (reorder_family pref out ms) = mset out"
    and "length (reorder_family pref out ms) = length out"
    and "j \<notin> fst ` set ms \<Longrightarrow> reorder_family pref out ms ! j = out ! j"
    and "j \<in> fst ` set ms \<Longrightarrow> reorder_family pref out ms ! j \<in> (cm_tool_name \<circ> snd) ` set ms"
proof -
  have "mset (reorder_family pref out ms) = mset out
    \<and> length (reorder_family pref out ms) = length out
    \<and> (j \<notin> fst ` set ms \<longrightarrow> reorder_family pref out ms ! j = out ! j)
    \<and> (j \<in> fst ` set ms \<longrightarrow> reorder_family pref out ms ! j \<in> (cm_tool_name \<circ> snd) ` set ms)"
  proof (cases rule: reorder_family_cases [of pref out ms])
    case same
    then show ?thesis using assms by (auto simp: members_ok_def)
  next
    case (wrote ivs)
    have slots: "set (map fst ivs) = fst ` set ms" and names: "set (map snd ivs) = (cm_tool_name \<circ> snd) ` set ms"
      using mset_eq_setD [OF wrote(2)] mset_eq_setD [OF wrote(3)] by simp_all
    have d: "distinct (map fst ivs)"
      using wrote(2) assms mset_eq_imp_distinct_iff unfolding members_ok_def by blast
    have "\<forall>i \<in> fst ` set ivs. i < length out"
      using slots assms by (auto simp: members_ok_def)
    from mset_write_slots [OF d this]
    have "mset (write_slots out ivs) + image_mset (\<lambda>i. out ! i) (mset (map fst ms))
        = mset out + image_mset (\<lambda>im. cm_tool_name (snd im)) (mset ms)"
      by (simp only: wrote(2,3)) (simp add: comp_def)
    moreover have "image_mset (\<lambda>i. out ! i) (mset (map fst ms))
        = image_mset (\<lambda>im. cm_tool_name (snd im)) (mset ms)"
      unfolding mset_map image_mset.compositionality comp_def
      by (rule image_mset_cong) (use assms in \<open>simp add: members_ok_def\<close>)
    ultimately have "mset (write_slots out ivs) = mset out" by simp
    moreover have "j \<in> fst ` set ms \<Longrightarrow> write_slots out ivs ! j \<in> snd ` set ivs"
      using slots assms by (intro write_slots_in) (auto simp: members_ok_def)
    ultimately show ?thesis
      using wrote(1) slots names nth_write_other [of j ivs out] by auto
  qed
  then show "mset (reorder_family pref out ms) = mset out"
    "length (reorder_family pref out ms) = length out"
    "j \<notin> fst ` set ms \<Longrightarrow> reorder_family pref out ms ! j = out ! j"
    "j \<in> fst ` set ms \<Longrightarrow> reorder_family pref out ms ! j \<in> (cm_tool_name \<circ> snd) ` set ms"
    by blast+
qed

text \<open>All families: places are disjoint, so each family finds its members where they were.\<close>

lemma reorder_families:
  assumes "members_ok out (concat mss)"
    and "\<forall>ms \<in> set mss. \<exists>f. \<forall>im \<in> set ms. fam (cm_tool_name (snd im)) = f"
  shows "mset (foldl (reorder_family pref) out mss) = mset out
    \<and> (\<forall>j < length out. fam (foldl (reorder_family pref) out mss ! j) = fam (out ! j))"
  using assms
proof (induction mss arbitrary: out)
  case (Cons ms mss)
  let ?out = "reorder_family pref out ms"
  have ms: "members_ok out ms" using Cons.prems(1) by (auto simp: members_ok_def)
  note r = reorder_family_ok [OF ms, where pref = pref]
  have disj: "fst ` set ms \<inter> fst ` set (concat mss) = {}"
    using Cons.prems(1) by (auto simp: members_ok_def)
  have rest: "members_ok ?out (concat mss)"
    unfolding members_ok_def
  proof
    show "distinct (map fst (concat mss))" using Cons.prems(1) by (simp add: members_ok_def)
    show "\<forall>im \<in> set (concat mss). fst im < length ?out \<and> ?out ! fst im = cm_tool_name (snd im)"
    proof
      fix im
      assume im: "im \<in> set (concat mss)"
      then have "fst im \<notin> fst ` set ms" using disj by blast
      with r(2) r(3) [of "fst im"] im Cons.prems(1)
      show "fst im < length ?out \<and> ?out ! fst im = cm_tool_name (snd im)"
        by (simp add: members_ok_def)
    qed
  qed
  have "fam (?out ! j) = fam (out ! j)" for j
  proof (cases "j \<in> fst ` set ms")
    case True
    then have "out ! j \<in> (cm_tool_name \<circ> snd) ` set ms" using ms by (auto simp: members_ok_def)
    moreover obtain f where "\<forall>im \<in> set ms. fam (cm_tool_name (snd im)) = f"
      using Cons.prems(2) by auto
    ultimately show ?thesis using r(4) [OF True] by (metis comp_apply imageE)
  next
    case False
    then show ?thesis by (simp add: r(3))
  qed
  then show ?case using Cons.IH [OF rest] Cons.prems(2) r(1,2) by simp
qed simp

section \<open>Grouping\<close>

lemma mset_concat_map_set:
  "mset (concat (map snd (map_set f ((case map_get m f of Some l \<Rightarrow> l | None \<Rightarrow> []) @ [x]) m)))
     = add_mset x (mset (concat (map snd m)))"
  by (induction m) (auto simp: map_get_def)

lemma add_member_mset:
  "mset (concat (map snd (add_member fams im)))
     = (if cm_capability_family (snd im) \<in> {None, Some []} then {#} else {#im#})
       + mset (concat (map snd fams))"
  using mset_concat_map_set [of _ fams im]
  by (auto simp: add_member_def split: option.splits)

lemma group_families_mset:
  "mset (concat (map snd (foldl add_member fams ims)))
     = mset (concat (map snd fams))
       + mset (filter (\<lambda>im. cm_capability_family (snd im) \<notin> {None, Some []}) ims)"
proof (induction ims arbitrary: fams)
  case (Cons im ims)
  show ?case
    unfolding foldl_Cons Cons.IH add_member_mset by auto
qed simp

lemma group_families_same:
  assumes "\<forall>e \<in> set fams. \<forall>im \<in> set (snd e). cm_capability_family (snd im) = Some (fst e)"
  shows "\<forall>e \<in> set (foldl add_member fams ims). \<forall>im \<in> set (snd e). cm_capability_family (snd im) = Some (fst e)"
  using assms
proof (induction ims arbitrary: fams)
  case (Cons im ims)
  have step: "\<forall>e \<in> set (map_set f v m). Q e" if "\<forall>e \<in> set m. Q e" "Q (f, v)"
    for f v m and Q :: "string \<times> family_member list \<Rightarrow> bool"
    using that by (induction f v m rule: map_set.induct) auto
  have "\<forall>e \<in> set (add_member fams im). \<forall>im \<in> set (snd e). cm_capability_family (snd im) = Some (fst e)"
  proof (cases "cm_capability_family (snd im)")
    case None
    then show ?thesis using Cons.prems by (simp add: add_member_def)
  next
    case (Some f)
    have "\<forall>im \<in> set (case map_get fams f of Some l \<Rightarrow> l | None \<Rightarrow> []). cm_capability_family (snd im) = Some f"
    proof (cases "map_of fams f")
      case None
      then show ?thesis by (simp add: map_get_def)
    next
      case (Some l)
      then have "(f, l) \<in> set fams" by (rule map_of_SomeD)
      with Cons.prems Some show ?thesis by (auto simp: map_get_def)
    qed
    then have "\<forall>im' \<in> set ((case map_get fams f of Some l \<Rightarrow> l | None \<Rightarrow> []) @ [im]).
        cm_capability_family (snd im') = Some f"
      using Some by simp
    then have "\<forall>e \<in> set (map_set f ((case map_get fams f of Some l \<Rightarrow> l | None \<Rightarrow> []) @ [im]) fams).
        \<forall>im \<in> set (snd e). cm_capability_family (snd im) = Some (fst e)"
      using Cons.prems by (intro step) simp_all
    then show ?thesis using Cons.prems Some by (simp add: add_member_def)
  qed
  then show ?case using Cons.IH by simp
qed simp

lemma members_of_metadata:
  "members_ok (map cm_tool_name md) (concat (map snd (group_families md)))"
proof -
  let ?es = "List.enumerate 0 md" and ?ms = "concat (map snd (group_families md))"
  have m: "mset ?ms = mset (filter (\<lambda>im. cm_capability_family (snd im) \<notin> {None, Some []}) ?es)"
    unfolding group_families_def group_families_mset by simp
  have "distinct (map fst (filter (\<lambda>im. cm_capability_family (snd im) \<notin> {None, Some []}) ?es))"
    by (rule distinct_map_filter) (simp add: map_fst_enumerate)
  moreover have "mset (map fst ?ms) = mset (map fst (filter (\<lambda>im. cm_capability_family (snd im) \<notin> {None, Some []}) ?es))"
    by (simp only: mset_map m)
  ultimately have "distinct (map fst ?ms)" using mset_eq_imp_distinct_iff by blast
  moreover have "fst im < length md \<and> cm_tool_name (md ! fst im) = cm_tool_name (snd im)"
    if "im \<in> set ?ms" for im
  proof -
    have "im \<in> set ?es" using mset_eq_setD [OF m] that by (simp del: set_concat)
    then show ?thesis by (simp add: in_set_enumerate_eq)
  qed
  ultimately show ?thesis unfolding members_ok_def by (simp del: set_concat)
qed

section \<open>The order is a permutation\<close>

definition tool_family :: "tool_index \<Rightarrow> string \<Rightarrow> string option" where
  "tool_family index nm = cm_capability_family (candidate_metadata index nm)"

lemma index_names: "map_get (buildToolRegistryIndex rs) k = Some r \<Longrightarrow> tl_tool_name r = k"
proof (induction rs arbitrary: r rule: rev_induct)
  case (snoc x rs)
  have "buildToolRegistryIndex (rs @ [x]) = map_set (tl_tool_name x) x (buildToolRegistryIndex rs)"
    by (simp add: buildToolRegistryIndex_def)
  then show ?case using snoc.prems snoc.IH [of r] by (simp add: js_map.get_put split: if_splits)
qed (simp add: buildToolRegistryIndex_def map_get_def)

lemma candidate_name [simp]: "cm_tool_name (candidate_metadata (buildToolRegistryIndex rs) t) = t"
  by (auto simp: candidate_metadata_def getToolRegistryRecord_def split: option.splits dest: index_names)

lemma metadata_names: "map cm_tool_name (mapCandidatesToFamilies (buildToolRegistryIndex rs) cs) = cs"
  by (induction cs) (simp_all add: mapCandidatesToFamilies_def)

lemma applyFamilyAwareOrdering_ok:
  assumes "index = buildToolRegistryIndex rs"
  shows "mset (applyFamilyAwareOrdering cs (mapCandidatesToFamilies index cs) pref) = mset cs
    \<and> (\<forall>j < length cs. tool_family index (applyFamilyAwareOrdering cs (mapCandidatesToFamilies index cs) pref ! j)
        = tool_family index (cs ! j))"
proof -
  let ?md = "mapCandidatesToFamilies index cs"
  let ?mss = "map snd (group_families ?md)"
  have ok: "members_ok cs (concat ?mss)"
    using members_of_metadata [of ?md] by (simp add: assms metadata_names)
  have fams: "\<forall>e \<in> set (group_families ?md). \<forall>im \<in> set (snd e). cm_capability_family (snd im) = Some (fst e)"
    unfolding group_families_def by (rule group_families_same) simp
  have sub: "set (concat ?mss) \<subseteq> set (List.enumerate 0 ?md)"
    unfolding group_families_def using arg_cong [OF group_families_mset [of "[]"], of set_mset]
    by (auto simp del: set_concat)
  have meta: "snd im = candidate_metadata index (cm_tool_name (snd im))" if "im \<in> set (concat ?mss)" for im
  proof -
    have "im \<in> set (List.enumerate 0 ?md)" using that sub by blast
    then have "snd im = candidate_metadata index (cs ! fst im)"
      by (auto simp: in_set_enumerate_eq mapCandidatesToFamilies_def)
    then show ?thesis by (simp add: assms)
  qed
  have "\<exists>f. \<forall>im \<in> set ms. tool_family index (cm_tool_name (snd im)) = f" if ms: "ms \<in> set ?mss" for ms
  proof -
    from ms obtain e where e: "e \<in> set (group_families ?md)" "ms = snd e" by auto
    have "tool_family index (cm_tool_name (snd im)) = Some (fst e)" if "im \<in> set ms" for im
    proof -
      have "im \<in> set (concat ?mss)" using ms that by auto
      with meta [of im] fams e that show ?thesis by (simp add: tool_family_def)
    qed
    then show ?thesis by blast
  qed
  then show ?thesis
    using reorder_families [OF ok, of "tool_family index" pref]
    unfolding applyFamilyAwareOrdering_def by blast
qed

end
