(* ===== verification/ToolSelection.thy ===== *)
theory ToolSelection
  imports RuleEvaluation ToolSelector ToolRegistry ExecStore
begin

text \<open>
  The selection of a tool: src/memory/tools-select.ts with the lists of
  src/memory/execution-provenance.ts.  The handler normalises the candidates, drops the broad
  tools that the control profile refuses, evaluates the rules of the tenant's scope, orders the
  rest by preference and family, applies the tool policy and records the decision.

  Arguments of the model (\<open>tool_env\<close>): the regular expression engine, the comparison of
  strings, the store's rule candidates, the recalled patterns, the schema of the execution
  state, the digest of a value and the identifier of the new decision.  The store of decisions
  is a list.  The members of the request are already parsed; the response repeats parts of the
  values returned here and is left out, as is the embedded copy of the decision.
\<close>

section \<open>Lists of names\<close>

definition normalizeToolCandidates :: "string list \<Rightarrow> string list" where
  "normalizeToolCandidates candidates = uniq (map js_trim candidates)"

definition uniqueRuleIds :: "string list \<Rightarrow> string list" where
  "uniqueRuleIds ids = uniq (map js_trim ids)"

fun uniqueStrings_loop :: "nat \<Rightarrow> string list \<Rightarrow> string option list \<Rightarrow> string list" where
  "uniqueStrings_loop limit out [] = out"
| "uniqueStrings_loop limit out (v # vs) =
     (let t = (case v of Some s \<Rightarrow> js_trim s | None \<Rightarrow> [])
      in if t = [] \<or> t \<in> set out then uniqueStrings_loop limit out vs
         else if limit \<le> length out + 1 then out @ [t]
         else uniqueStrings_loop limit (out @ [t]) vs)"

definition uniqueStrings :: "string option list \<Rightarrow> nat \<Rightarrow> string list" where
  "uniqueStrings values limit = uniqueStrings_loop limit [] values"

definition prioritizeExplicitPreferred :: "string list \<Rightarrow> string list \<Rightarrow> string list" where
  "prioritizeExplicitPreferred candidates preferred =
     (if preferred = [] then candidates
      else filter (\<lambda>t. t \<in> set candidates) preferred @ filter (\<lambda>t. t \<notin> set preferred) candidates)"

section \<open>Control profiles\<close>

datatype broad_kind = BroadScan | BroadTest

definition inferBroadToolKind :: "string \<Rightarrow> broad_kind option" where
  "inferBroadToolKind nm =
     (let lowered = js_lower nm
      in if \<not> js_includes lowered ''broad'' then None
         else if js_includes lowered ''test'' then Some BroadTest
         else if js_includes lowered ''scan'' then Some BroadScan
         else None)"

fun refused_by_profile :: "control_profile option \<Rightarrow> string \<Rightarrow> bool" where
  "refused_by_profile None c = False"
| "refused_by_profile (Some p) c =
     (inferBroadToolKind c = Some BroadScan \<and> \<not> cp_allow_broad_scan p
      \<or> inferBroadToolKind c = Some BroadTest \<and> \<not> cp_allow_broad_test p)"

definition applyControlProfileCandidateFilter ::
  "string list \<Rightarrow> control_profile option \<Rightarrow> string list \<times> (string \<times> deny_reason) list" where
  "applyControlProfileCandidateFilter candidates profile =
     (filter (\<lambda>c. \<not> refused_by_profile profile c) candidates,
      map (\<lambda>c. (c, ControlProfile)) (filter (refused_by_profile profile) candidates))"

definition deriveControlProfileFromExecutionState :: "execution_state \<Rightarrow> control_profile" where
  "deriveControlProfileFromExecutionState st = controlProfileDefaults (es_current_stage st)"

text \<open>ControlProfileV1Schema: unknown members are dropped, the numbers are positive integers.\<close>

definition parse_positive_int :: "jv option \<Rightarrow> nat option" where
  "parse_positive_int v =
     (case v of Some (JNum (Fin q)) \<Rightarrow> if 0 < q \<and> of_int \<lfloor>q\<rfloor> = q then Some (nat \<lfloor>q\<rfloor>) else None | _ \<Rightarrow> None)"

definition parse_flag :: "jv option \<Rightarrow> bool option" where
  "parse_flag v = (case v of Some (JBool b) \<Rightarrow> Some b | _ \<Rightarrow> None)"

definition parse_profile_name :: "jv option \<Rightarrow> exec_stage option" where
  "parse_profile_name v =
     (if v = Some (JStr ''triage'') then Some StTriage
      else if v = Some (JStr ''patch'') then Some StPatch
      else if v = Some (JStr ''review'') then Some StReview
      else if v = Some (JStr ''resume'') then Some StResume else None)"

definition parse_control_profile :: "jv option \<Rightarrow> control_profile option" where
  "parse_control_profile v =
     (case v of Some (JObj ob) \<Rightarrow>
        if obj_get ob ''version'' \<noteq> Some (JNum (Fin 1)) then None
        else Option.bind (parse_profile_name (obj_get ob ''profile'')) (\<lambda>nm.
             Option.bind (parse_positive_int (obj_get ob ''max_same_tool_streak'')) (\<lambda>a.
             Option.bind (parse_positive_int (obj_get ob ''max_no_progress_streak'')) (\<lambda>b.
             Option.bind (parse_positive_int (obj_get ob ''max_duplicate_observation_streak'')) (\<lambda>c.
             Option.bind (parse_positive_int (obj_get ob ''max_steps'')) (\<lambda>d.
             Option.bind (parse_flag (obj_get ob ''allow_broad_scan'')) (\<lambda>e.
             Option.bind (parse_flag (obj_get ob ''allow_broad_test'')) (\<lambda>f.
             Option.bind (parse_flag (obj_get ob ''escalate_on_blocker'')) (\<lambda>g.
             Option.bind (parse_flag (obj_get ob ''reviewer_ready_required'')) (\<lambda>h.
               Some \<lparr>cp_profile = nm, cp_max_same_tool_streak = a, cp_max_no_progress_streak = b,
                     cp_max_duplicate_observation_streak = c, cp_max_steps = d, cp_allow_broad_scan = e,
                     cp_allow_broad_test = f, cp_escalate_on_blocker = g,
                     cp_reviewer_ready_required = h\<rparr>)))))))))
      | _ \<Rightarrow> None)"

datatype profile_origin = ContinuityDelivered | StateDerived | OriginNone

definition resolveExecutionKernelInputs ::
  "(jv option \<Rightarrow> execution_state option) \<Rightarrow> jv option \<Rightarrow> jv option
   \<Rightarrow> control_profile option \<times> profile_origin \<times> execution_state option" where
  "resolveExecutionKernelInputs parse rawContext rawState =
     (let context = (case rawContext of
                       Some (JObj ob) \<Rightarrow> rawContext | Some (JArr vs) \<Rightarrow> rawContext | _ \<Rightarrow> None)
      in case parse_control_profile (chain_get context ''control_profile_v1'') of
           Some p \<Rightarrow> (Some p, ContinuityDelivered, parse rawState)
         | None \<Rightarrow>
             (case parse rawState of
                Some st \<Rightarrow> (Some (deriveControlProfileFromExecutionState st), StateDerived, Some st)
              | None \<Rightarrow> (None, OriginNone, None)))"

section \<open>The context of the evaluation\<close>

record side_outputs =
  sd_result_summary :: "jv option"
  sd_artifacts :: "jv list"
  sd_evidence :: "jv list"

definition object_value :: "jv option \<Rightarrow> jv option" where
  "object_value v = (case v of Some u \<Rightarrow> if is_plain_object u then Some u else None | None \<Rightarrow> None)"

definition object_list :: "jv option \<Rightarrow> jv list" where
  "object_list v = (case v of Some (JArr vs) \<Rightarrow> filter is_plain_object vs | _ \<Rightarrow> [])"

definition normalizeExecutionSideOutputs :: "jv option \<Rightarrow> jv option \<Rightarrow> jv option \<Rightarrow> side_outputs" where
  "normalizeExecutionSideOutputs summary artifacts evidence =
     \<lparr>sd_result_summary = object_value summary, sd_artifacts = object_list artifacts,
      sd_evidence = object_list evidence\<rparr>"

definition add_missing :: "string \<Rightarrow> jv option \<Rightarrow> jobj \<Rightarrow> jobj" where
  "add_missing k v ob = (case v of Some u \<Rightarrow> if obj_in k ob then ob else obj_assign k u ob | None \<Rightarrow> ob)"

definition nonempty_array :: "jv list \<Rightarrow> jv option" where
  "nonempty_array vs = (if vs = [] then None else Some (JArr vs))"

definition mergeExecutionContinuityContext :: "jv option \<Rightarrow> side_outputs \<Rightarrow> jobj" where
  "mergeExecutionContinuityContext rawContext so =
     (let context = (case Option.bind rawContext plain_members of Some ob \<Rightarrow> ob | None \<Rightarrow> [])
      in add_missing ''execution_evidence'' (nonempty_array (sd_evidence so))
           (add_missing ''execution_artifacts'' (nonempty_array (sd_artifacts so))
             (add_missing ''execution_result_summary'' (sd_result_summary so) context)))"

section \<open>Conflict lines\<close>

fun conflict_code_text :: "conflict_code \<Rightarrow> string" where
  "conflict_code_text AllowIntersection = ''allow_intersection''"
| "conflict_code_text AllowIntersectionEmpty = ''allow_intersection_empty''"
| "conflict_code_text PreferCompetingTopChoice = ''prefer_competing_top_choice''"

definition conflict_line :: "tool_conflict \<Rightarrow> string" where
  "conflict_line c =
     (let line = ''['' @ conflict_code_text (tc_code c) @ ''] '' @ tc_message c
             @ (if set_text (tc_winner c) then '' (winner='' @ the (tc_winner c) @ '')'' else [])
      in if 200 < length line then take 197 line @ ''...'' else line)"

definition summarizeToolConflicts :: "tool_explain \<Rightarrow> string list" where
  "summarizeToolConflicts explain = take 5 (map conflict_line (te_conflicts explain))"

section \<open>The selection\<close>

record tool_pattern =
  tq_node_id :: string
  tq_selected_tool :: string
  tq_trusted :: bool
  tq_suppressed :: bool
  tq_affinity_score :: jsnum
  tq_affinity_level :: string

definition uniqueSelectedTools :: "tool_pattern list \<Rightarrow> string list" where
  "uniqueSelectedTools patterns = uniqueStrings (map (\<lambda>p. Some (tq_selected_tool p)) patterns) 16"

definition affinity_levels :: "tool_pattern list \<Rightarrow> string list" where
  "affinity_levels patterns = uniqueStrings (map (\<lambda>p. Some (tq_affinity_level p)) patterns) 8"

definition patternPreferred :: "tool_pattern list \<Rightarrow> string list \<Rightarrow> string list" where
  "patternPreferred recalled filtered =
     uniqueStrings (map (\<lambda>p. Some (tq_selected_tool p))
       (filter (\<lambda>p. num_lt (Fin 0) (tq_affinity_score p)) (filter tq_trusted recalled))) (length filtered)"

definition mergedPreferred :: "tool_patch \<Rightarrow> tool_pattern list \<Rightarrow> string list \<Rightarrow> string list" where
  "mergedPreferred tool recalled filtered =
     uniqueStrings (map Some (with_default (tp_prefer tool) [] @ patternPreferred recalled filtered))
       (length filtered)"

definition ordered_candidates :: "bool \<Rightarrow> string list \<Rightarrow> string list \<Rightarrow> string list" where
  "ordered_candidates reorder filtered preferred =
     (if reorder
      then applyFamilyAwareOrdering (prioritizeExplicitPreferred filtered preferred)
             (mapCandidatesToFamilies DEFAULT_TOOL_REGISTRY_INDEX filtered) preferred
      else filtered)"

definition with_denied :: "(string \<times> deny_reason) list \<Rightarrow> tool_decision \<Rightarrow> tool_decision" where
  "with_denied byProfile d = d\<lparr>td_denied := byProfile @ td_denied d\<rparr>"

record decision_metadata =
  dm_strict :: bool
  dm_include_shadow :: bool
  dm_rules_limit :: nat
  dm_reorder_candidates :: bool
  dm_matched_rules :: nat
  dm_tool_conflicts_summary :: "string list"
  dm_denied_by_control_profile :: "string list"
  dm_control_profile_origin :: profile_origin
  dm_execution_stage :: "exec_stage option"
  dm_execution_role :: "exec_role option"
  dm_result_summary_present :: bool
  dm_artifacts_count :: nat
  dm_evidence_count :: nat
  dm_candidate_families :: "candidate_meta list"
  dm_pattern_preferred_tools :: "string list"
  dm_matched_anchor_ids :: "string list"
  dm_stable_anchor_ids :: "string list"
  dm_used_trusted :: "string list \<times> string list \<times> string list"
  dm_skipped_contested :: "string list \<times> string list \<times> string list"
  dm_skipped_suppressed :: "string list \<times> string list \<times> string list"
  dm_shadow_conflicts_summary :: "string list option"

record execution_decision =
  xd_id :: string
  xd_scope :: string
  xd_decision_kind :: string
  xd_run_id :: "string option"
  xd_selected_tool :: "string option"
  xd_candidates :: "string list"
  xd_context_sha256 :: string
  xd_policy_sha256 :: string
  xd_source_rule_ids :: "string list"
  xd_metadata :: decision_metadata

record tool_env =
  tv_re :: "string \<Rightarrow> string \<Rightarrow> bool option"
  tv_loc :: "string \<Rightarrow> string \<Rightarrow> int"
  tv_load :: "string \<Rightarrow> nat \<Rightarrow> rule_row list"
  tv_recall :: "(jv \<Rightarrow> string list \<Rightarrow> string \<Rightarrow> tool_pattern list) option"
  tv_parse_state :: "jv option \<Rightarrow> execution_state option"
  tv_digest :: "jv \<Rightarrow> string"
  tv_decision_id :: string
  tv_persist :: bool

record select_request =
  sq_scope :: "string option"
  sq_tenant_id :: "string option"
  sq_run_id :: "string option"
  sq_context :: "jv option"
  sq_result_summary :: "jv option"
  sq_artifacts :: "jv option"
  sq_evidence :: "jv option"
  sq_execution_state :: "jv option"
  sq_candidates :: "string list"
  sq_include_shadow :: bool
  sq_rules_limit :: nat
  sq_strict :: bool
  sq_reorder_candidates :: bool

record selection_result =
  sl_selection :: tool_decision
  sl_shadow_selection :: "tool_decision option"
  sl_decision :: execution_decision

definition pattern_triple :: "tool_pattern list \<Rightarrow> string list \<times> string list \<times> string list" where
  "pattern_triple ps = (map tq_node_id ps, uniqueSelectedTools ps, affinity_levels ps)"

text \<open>From the result of the evaluation to the two selections.\<close>

definition shadow_selection ::
  "bool \<Rightarrow> string list \<Rightarrow> (string \<times> deny_reason) list \<Rightarrow> evaluation_result \<Rightarrow> http_error + tool_decision option" where
  "shadow_selection include_shadow filtered byProfile rules =
     (if include_shadow then
        and_then (applyToolPolicy filtered (map_option ac_tool (er_shadow rules)) False)
          (\<lambda>d. Inr (Some (with_denied byProfile d)))
      else Inr None)"

definition request_side_outputs :: "select_request \<Rightarrow> side_outputs" where
  "request_side_outputs req =
     normalizeExecutionSideOutputs (sq_result_summary req) (sq_artifacts req) (sq_evidence req)"

definition evaluation_context :: "select_request \<Rightarrow> jv" where
  "evaluation_context req = JObj (mergeExecutionContinuityContext (sq_context req) (request_side_outputs req))"

definition kernel_inputs ::
  "tool_env \<Rightarrow> select_request \<Rightarrow> control_profile option \<times> profile_origin \<times> execution_state option" where
  "kernel_inputs env req =
     resolveExecutionKernelInputs (tv_parse_state env) (Some (evaluation_context req)) (sq_execution_state req)"

definition selection_metadata ::
  "select_request \<Rightarrow> evaluation_result \<Rightarrow> control_profile option \<times> profile_origin \<times> execution_state option
   \<Rightarrow> side_outputs \<Rightarrow> string list \<Rightarrow> (string \<times> deny_reason) list \<Rightarrow> tool_pattern list \<Rightarrow> tool_decision
   \<Rightarrow> decision_metadata" where
  "selection_metadata req rules ki side filtered byProfile recalled sel =
     (let trusted = filter tq_trusted recalled;
          suppressed = filter tq_suppressed recalled;
          contested = filter (\<lambda>p. \<not> tq_trusted p \<and> \<not> tq_suppressed p) recalled;
          used = (if set_text (td_selected sel)
                  then filter (\<lambda>p. Some (tq_selected_tool p) = td_selected sel) trusted else [])
      in \<lparr>dm_strict = sq_strict req, dm_include_shadow = sq_include_shadow req,
          dm_rules_limit = sq_rules_limit req, dm_reorder_candidates = sq_reorder_candidates req,
          dm_matched_rules = er_matched rules,
          dm_tool_conflicts_summary = summarizeToolConflicts (ac_tool_explain (er_applied rules)),
          dm_denied_by_control_profile = map fst byProfile,
          dm_control_profile_origin = fst (snd ki),
          dm_execution_stage = map_option es_current_stage (snd (snd ki)),
          dm_execution_role = map_option es_active_role (snd (snd ki)),
          dm_result_summary_present = (sd_result_summary side \<noteq> None),
          dm_artifacts_count = length (sd_artifacts side), dm_evidence_count = length (sd_evidence side),
          dm_candidate_families = mapCandidatesToFamilies DEFAULT_TOOL_REGISTRY_INDEX filtered,
          dm_pattern_preferred_tools = patternPreferred recalled filtered,
          dm_matched_anchor_ids = map tq_node_id recalled, dm_stable_anchor_ids = map tq_node_id trusted,
          dm_used_trusted = pattern_triple used, dm_skipped_contested = pattern_triple contested,
          dm_skipped_suppressed = pattern_triple suppressed,
          dm_shadow_conflicts_summary =
            (if sq_include_shadow req
             then map_option (summarizeToolConflicts \<circ> ac_tool_explain) (er_shadow rules) else None)\<rparr>)"

definition selectTools ::
  "tool_env \<Rightarrow> select_request \<Rightarrow> string \<Rightarrow> string \<Rightarrow> execution_decision list
   \<Rightarrow> http_error + selection_result \<times> execution_decision list" where
  "selectTools env req defaultScope defaultTenantId decisions =
     (let context = evaluation_context req
      in and_then (resolveTenantScope (sq_scope req) (sq_tenant_id req) defaultScope defaultTenantId) (\<lambda>tenancy.
     let (profile, origin, state) = kernel_inputs env req;
         (filtered, byProfile) = applyControlProfileCandidateFilter (normalizeToolCandidates (sq_candidates req)) profile
      in and_then (evaluateRulesAppliedOnly (tv_re env) (tv_loc env) (ts_scope tenancy) (Some (ts_tenant_id tenancy))
                     (Some defaultTenantId) (Some context) (sq_include_shadow req) (sq_rules_limit req) (tv_load env))
       (\<lambda>rules.
     let recalled = (case tv_recall env of
                       Some f \<Rightarrow> if filtered = [] then [] else f context filtered (ts_scope_key tenancy)
                     | None \<Rightarrow> []);
         preferred = mergedPreferred (ac_tool (er_applied rules)) recalled filtered;
         ordered = ordered_candidates (sq_reorder_candidates req) filtered preferred
      in and_then (applyToolPolicy ordered (Some (ac_tool (er_applied rules))) (sq_strict req)) (\<lambda>sel.
         and_then (shadow_selection (sq_include_shadow req) filtered byProfile rules) (\<lambda>shadow.
     let decision =
           \<lparr>xd_id = tv_decision_id env, xd_scope = ts_scope_key tenancy, xd_decision_kind = ''tools_select'',
            xd_run_id = sq_run_id req, xd_selected_tool = td_selected sel, xd_candidates = td_candidates sel,
            xd_context_sha256 = tv_digest env context,
            xd_policy_sha256 = tv_digest env (ac_policy (er_applied rules)),
            xd_source_rule_ids = uniqueRuleIds (map (so_rule_node_id \<circ> fst) (ac_sources (er_applied rules))),
            xd_metadata = selection_metadata req rules (profile, origin, state) (request_side_outputs req)
              filtered byProfile recalled sel\<rparr>
      in Inr (\<lparr>sl_selection = with_denied byProfile sel, sl_shadow_selection = shadow, sl_decision = decision\<rparr>,
              if tv_persist env then decisions @ [decision] else decisions))))))"

end
