(* ===== verification/RuleEvaluationSafety.thy ===== *)
theory RuleEvaluationSafety
  imports RuleEvaluation
begin

text \<open>
  What the loop of RuleEvaluation computes: the matched rules are exactly the rows that are in
  scope, visible, met by the context and well formed, in the order of the rows; and every row
  is counted once.
\<close>

section \<open>When a row takes part\<close>

definition visible_to :: "jv option \<Rightarrow> rule_row \<Rightarrow> bool" where
  "visible_to ctx r \<longleftrightarrow>
     rw_rule_memory_lane r = ''shared''
     \<or> set_text (rw_rule_owner_agent_id r) \<and> rw_rule_owner_agent_id r = contextAgentId ctx
     \<or> set_text (rw_rule_owner_team_id r) \<and> rw_rule_owner_team_id r = contextTeamId ctx"

definition takes_part :: "(string \<Rightarrow> string \<Rightarrow> bool option) \<Rightarrow> jv option \<Rightarrow> rule_row \<Rightarrow> bool" where
  "takes_part re ctx r \<longleftrightarrow>
     scopeRuleMatchesContext r ctx \<and> visible_to ctx r
     \<and> ruleMatchesContext re (rw_if_json r) (rw_exceptions_json r) ctx"

definition match_of ::
  "(string \<Rightarrow> string \<Rightarrow> bool option) \<Rightarrow> jv option \<Rightarrow> string \<Rightarrow> rule_row \<Rightarrow> matched_rule option" where
  "match_of re ctx st r =
     (if takes_part re ctx r \<and> rw_state r = st then
        (case parsePolicyPatch (rw_then_json r) of
           Inl _ \<Rightarrow> None
         | Inr patch \<Rightarrow> Some \<lparr>mt_row = r, mt_rank = readRuleRankMeta r, mt_then_patch = patch\<rparr>)
      else None)"

lemma context_id_set: "context_id n f ctx = Some s \<Longrightarrow> s \<noteq> []"
  by (auto simp: context_id_def Let_def split: if_splits)

lemma lane_visible:
  "ld_visible (laneRuleMatchesContext r (contextAgentId ctx) (contextTeamId ctx)
      (fst (laneEnforcementStatus (contextAgentId ctx) (contextTeamId ctx)))) = visible_to ctx r"
proof -
  have e: "fst (laneEnforcementStatus (contextAgentId ctx) (contextTeamId ctx)) = True"
    by (simp add: laneEnforcementStatus_def)
  show ?thesis
    unfolding e by (auto simp: laneRuleMatchesContext_def visible_to_def set_text_def Let_def)
qed

section \<open>One row\<close>

lemmas evaluation_fields =
  evaluation.ext_inject evaluation.simps

text \<open>A row changes the two lists by its match, if it has one, and leaves one trace in the counts.\<close>

definition counted :: "evaluation \<Rightarrow> nat" where
  "counted ev = ev_filtered_by_scope ev + ev_filtered_by_lane ev + ev_filtered_by_condition ev
     + ev_skipped_invalid_then ev + length (ev_active ev) + length (ev_shadow ev)"

lemma evaluate_row_lists:
  "ev_active (evaluate_row re ctx sh ev r) = ev_active ev
     @ (case match_of re ctx ''active'' r of Some m \<Rightarrow> [m] | None \<Rightarrow> [])"
  "ev_shadow (evaluate_row re ctx sh ev r) = ev_shadow ev
     @ (if sh then (case match_of re ctx ''shadow'' r of Some m \<Rightarrow> [m] | None \<Rightarrow> []) else [])"
  by (cases "scopeRuleMatchesContext r ctx"; cases "visible_to ctx r";
      cases "ruleMatchesContext re (rw_if_json r) (rw_exceptions_json r) ctx";
      simp add: evaluate_row_def lane_visible match_of_def takes_part_def Let_def split: sum.split)+

lemma evaluate_row_counted:
  assumes "rw_state r = ''active'' \<or> rw_state r = ''shadow'' \<and> sh"
  shows "counted (evaluate_row re ctx sh ev r) = counted ev + 1"
  using assms
  by (cases "scopeRuleMatchesContext r ctx"; cases "visible_to ctx r";
      cases "ruleMatchesContext re (rw_if_json r) (rw_exceptions_json r) ctx")
    (auto simp: evaluate_row_def lane_visible counted_def Let_def split: sum.split)

lemma evaluate_row_sample:
  "length (ev_invalid_then_sample ev) = min 5 (ev_skipped_invalid_then ev) \<Longrightarrow>
   length (ev_invalid_then_sample (evaluate_row re ctx sh ev r))
     = min 5 (ev_skipped_invalid_then (evaluate_row re ctx sh ev r))"
  by (cases "scopeRuleMatchesContext r ctx"; cases "visible_to ctx r";
      cases "ruleMatchesContext re (rw_if_json r) (rw_exceptions_json r) ctx")
    (auto simp: evaluate_row_def lane_visible Let_def split: sum.split)

section \<open>All rows\<close>

lemma evaluate_rows_lists:
  "ev_active (evaluate_rows re ctx sh rows) = List.map_filter (match_of re ctx ''active'') rows"
  "ev_shadow (evaluate_rows re ctx sh rows)
     = (if sh then List.map_filter (match_of re ctx ''shadow'') rows else [])"
proof -
  have "ev_active (foldl (evaluate_row re ctx sh) ev rows)
      = ev_active ev @ List.map_filter (match_of re ctx ''active'') rows
    \<and> ev_shadow (foldl (evaluate_row re ctx sh) ev rows)
      = ev_shadow ev @ (if sh then List.map_filter (match_of re ctx ''shadow'') rows else [])" for ev
    by (induction rows arbitrary: ev) (auto simp: evaluate_row_lists map_filter_simps split: option.splits)
  then show "ev_active (evaluate_rows re ctx sh rows) = List.map_filter (match_of re ctx ''active'') rows"
    "ev_shadow (evaluate_rows re ctx sh rows)
     = (if sh then List.map_filter (match_of re ctx ''shadow'') rows else [])"
    by (simp_all add: evaluate_rows_def empty_evaluation_def)
qed

lemma set_map_filter: "m \<in> set (List.map_filter f xs) \<longleftrightarrow> (\<exists>x \<in> set xs. f x = Some m)"
  by (induction xs) (auto simp: map_filter_simps split: option.splits)

lemma matched_active:
  "m \<in> set (ev_active (evaluate_rows re ctx sh rows)) \<longleftrightarrow> (\<exists>r \<in> set rows. match_of re ctx ''active'' r = Some m)"
  by (simp add: evaluate_rows_lists set_map_filter)

lemma matched_shadow:
  "m \<in> set (ev_shadow (evaluate_rows re ctx sh rows)) \<longleftrightarrow>
     sh \<and> (\<exists>r \<in> set rows. match_of re ctx ''shadow'' r = Some m)"
  by (simp add: evaluate_rows_lists set_map_filter)

lemma matched_row:
  "m \<in> set (ev_active (evaluate_rows re ctx sh rows)) \<Longrightarrow> \<exists>st. \<exists>r \<in> set rows. match_of re ctx st r = Some m"
  "m \<in> set (ev_shadow (evaluate_rows re ctx sh rows)) \<Longrightarrow> \<exists>st. \<exists>r \<in> set rows. match_of re ctx st r = Some m"
  by (auto simp: matched_active matched_shadow)

lemma match_of_row:
  assumes "match_of re ctx st r = Some m"
  shows "mt_row m = r" "takes_part re ctx r" "rw_state r = st"
    "parsePolicyPatch (rw_then_json r) = Inr (mt_then_patch m)" "mt_rank m = readRuleRankMeta r"
  using assms by (auto simp: match_of_def split: if_splits sum.splits)

lemma rows_counted:
  assumes "\<forall>r \<in> set rows. rw_state r = ''active'' \<or> rw_state r = ''shadow'' \<and> sh"
  shows "counted (evaluate_rows re ctx sh rows) = length rows"
proof -
  have "counted (foldl (evaluate_row re ctx sh) ev rows) = counted ev + length rows" for ev
    using assms by (induction rows arbitrary: ev) (simp_all add: evaluate_row_counted)
  then show ?thesis by (simp add: evaluate_rows_def counted_def empty_evaluation_def)
qed

lemma rows_sample:
  "length (ev_invalid_then_sample (evaluate_rows re ctx sh rows))
     = min 5 (ev_skipped_invalid_then (evaluate_rows re ctx sh rows))"
proof -
  have "length (ev_invalid_then_sample ev) = min 5 (ev_skipped_invalid_then ev) \<Longrightarrow>
    length (ev_invalid_then_sample (foldl (evaluate_row re ctx sh) ev rows))
      = min 5 (ev_skipped_invalid_then (foldl (evaluate_row re ctx sh) ev rows))" for ev
    by (induction rows arbitrary: ev) (simp_all add: evaluate_row_sample)
  then show ?thesis by (simp add: evaluate_rows_def empty_evaluation_def)
qed

section \<open>The applied channel\<close>

lemma evaluateRulesAppliedOnly_Inr:
  assumes "evaluateRulesAppliedOnly re loc scope t dt ctx sh limit load = Inr er"
  obtains tenancy where
    "resolveTenantScope (Some scope) t scope (with_default dt ''default'') = Inr tenancy"
    "er_evaluation er = evaluate_rows re ctx sh (load (ts_scope_key tenancy) limit)"
    "er_applied er = apply_channel loc ''active'' (ev_active (er_evaluation er))"
    "er_considered er = length (load (ts_scope_key tenancy) limit)"
    "er_shadow er = (if sh then Some (apply_channel loc ''shadow'' (ev_shadow (er_evaluation er))) else None)"
    "er_tenant_id er = ts_tenant_id tenancy" "er_scope er = ts_scope tenancy"
  using assms by (auto simp: evaluateRulesAppliedOnly_def Let_def)

lemma apply_channel_tool:
  "ac_tool (apply_channel loc st ms) = fst (computeEffectiveToolPolicy loc (map tool_rule_of ms))"
  by (simp add: apply_channel_def Let_def case_prod_beta)

lemma apply_channel_sources:
  "map (so_rule_node_id \<circ> fst) (ac_sources (apply_channel loc st ms))
     = map (rw_rule_node_id \<circ> mt_row) (sort_by (merge_order loc) ms)"
proof -
  let ?ap = "buildAppliedPolicy (map (applied_rule_of st) (sort_by (merge_order loc) ms))"
  have "map (so_rule_node_id \<circ> fst) (ac_sources (apply_channel loc st ms)) = map so_rule_node_id (ap_sources ?ap)"
    by (simp add: apply_channel_def Let_def case_prod_beta comp_def)
  also have "\<dots> = map (rw_rule_node_id \<circ> mt_row) (sort_by (merge_order loc) ms)"
    by (simp add: applied_sources applied_rule_of_def comp_def)
  finally show ?thesis .
qed

lemma channel_denies:
  "set (with_default (tp_deny (ac_tool (apply_channel loc st ms))) [])
     = (\<Union>m \<in> set ms. set (patch_list tp_deny (pp_tool (mt_then_patch m))))"
  by (simp add: apply_channel_tool effective_deny tool_rule_of_def)

lemma channel_allows:
  "tp_allow (ac_tool (apply_channel loc st ms)) = Some al \<Longrightarrow>
     set al = {t. \<forall>m \<in> set ms. patch_list tp_allow (pp_tool (mt_then_patch m)) \<noteq> []
                    \<longrightarrow> t \<in> set (patch_list tp_allow (pp_tool (mt_then_patch m)))}"
  unfolding apply_channel_tool by (drule effective_allow(2)) (simp add: tool_rule_of_def)

text \<open>A store is only read at the key of the tenant.\<close>

lemma load_other_key:
  assumes "resolveTenantScope s t ds dt = Inr tenancy"
    and "TENANT_ID_RE u" "u \<noteq> ts_tenant_id tenancy" "\<not> js_starts_with q ''tenant:''"
  shows "ts_scope_key tenancy \<noteq> toTenantScopeKey q u dt"
  using toTenantScopeKey_inj [OF resolveTenantScope_Inr(1) [OF assms(1)] assms(2)
      resolveTenantScope_Inr(2) [OF assms(1)] assms(4)] assms(3) resolveTenantScope_Inr(4) [OF assms(1)]
  by metis

section \<open>The ranking\<close>

text \<open>The laws of \<^verbatim>\<open>localeCompare\<close> that sorting relies on.\<close>

definition loc_order :: "(string \<Rightarrow> string \<Rightarrow> int) \<Rightarrow> bool" where
  "loc_order loc \<longleftrightarrow> (\<forall>a b. loc a b \<le> 0 \<or> loc b a \<le> 0)
     \<and> (\<forall>a b c. loc a b \<le> 0 \<longrightarrow> loc b c \<le> 0 \<longrightarrow> loc a c \<le> 0)"

fun score_int :: "jsnum \<Rightarrow> int" where
  "score_int (Fin q) = \<lfloor>q\<rfloor>"
| "score_int _ = 0"

definition whole_score :: "matched_rule \<Rightarrow> bool" where
  "whole_score m \<longleftrightarrow> rm_score (mt_rank m) = Fin (of_int (score_int (rm_score (mt_rank m))))
     \<and> \<bar>score_int (rm_score (mt_rank m))\<bar> \<le> 2 ^ 52"

abbreviation rank_of :: "matched_rule \<Rightarrow> int" where
  "rank_of m \<equiv> score_int (rm_score (mt_rank m))"

definition whole_order :: "(string \<Rightarrow> string \<Rightarrow> int) \<Rightarrow> matched_rule \<Rightarrow> matched_rule \<Rightarrow> bool" where
  "whole_order loc a b \<longleftrightarrow> rank_of a < rank_of b
     \<or> rank_of a = rank_of b \<and> loc (rw_rule_node_id (mt_row a)) (rw_rule_node_id (mt_row b)) \<le> 0"

lemma num_sub_whole:
  assumes "\<bar>x\<bar> \<le> 2 ^ 52" "\<bar>y\<bar> \<le> 2 ^ 52"
  shows "num_sub (Fin (of_int x)) (Fin (of_int y)) = Fin (of_int (x - y))"
  using to_num_int [of "x - y"] assms by (simp add: num_sub_def)

lemma merge_order_whole:
  assumes "whole_score a" "whole_score b"
  shows "merge_order loc a b \<longleftrightarrow> whole_order loc a b"
proof -
  have "num_sub (rm_score (mt_rank a)) (rm_score (mt_rank b)) = Fin (of_int (rank_of a - rank_of b))"
    using assms num_sub_whole unfolding whole_score_def by metis
  then show ?thesis by (auto simp: merge_order_def whole_order_def Let_def)
qed

lemma insert_by_cong:
  "(\<And>y. y \<in> set ys \<Longrightarrow> le x y \<longleftrightarrow> le' x y) \<Longrightarrow> insert_by le x ys = insert_by le' x ys"
  by (induction ys) auto

lemma sort_by_cong:
  assumes "\<And>x y. x \<in> set xs \<Longrightarrow> y \<in> set xs \<Longrightarrow> le x y \<longleftrightarrow> le' x y"
  shows "sort_by le xs = sort_by le' xs"
  using assms
proof (induction xs)
  case (Cons x xs)
  then have "sort_by le xs = sort_by le' xs" by simp
  then show ?case
    using insert_by_cong [of "sort_by le' xs" le x le'] Cons.prems by (simp add: sort_by_def [of _ "x # xs"])
      (simp add: sort_by_def [symmetric])
qed (simp add: sort_by_def)

lemma merge_sorted:
  assumes "loc_order loc" "\<forall>m \<in> set ms. whole_score m"
  shows "sorted_wrt (whole_order loc) (sort_by (merge_order loc) ms)"
proof -
  have "sort_by (merge_order loc) ms = sort_by (whole_order loc) ms"
    using assms(2) by (intro sort_by_cong) (simp add: merge_order_whole)
  moreover have "sorted_wrt (whole_order loc) (sort_by (whole_order loc) ms)"
  proof (rule sorted_sort_by)
    fix a b c :: matched_rule
    have "loc (rw_rule_node_id (mt_row a)) (rw_rule_node_id (mt_row b)) \<le> 0
        \<or> loc (rw_rule_node_id (mt_row b)) (rw_rule_node_id (mt_row a)) \<le> 0"
      using assms(1) unfolding loc_order_def by blast
    then show "whole_order loc a b \<or> whole_order loc b a" unfolding whole_order_def by linarith
    have "loc (rw_rule_node_id (mt_row a)) (rw_rule_node_id (mt_row b)) \<le> 0
        \<Longrightarrow> loc (rw_rule_node_id (mt_row b)) (rw_rule_node_id (mt_row c)) \<le> 0
        \<Longrightarrow> loc (rw_rule_node_id (mt_row a)) (rw_rule_node_id (mt_row c)) \<le> 0"
      using assms(1) unfolding loc_order_def by blast
    then show "whole_order loc a b \<Longrightarrow> whole_order loc b c \<Longrightarrow> whole_order loc a c"
      unfolding whole_order_def by linarith
  qed
  ultimately show ?thesis by simp
qed

lemma channel_output:
  "policy_output (ac_policy (apply_channel loc st ms)) k
     = last_setting (\<lambda>m. output_fields (mt_then_patch m) k) (sort_by (merge_order loc) ms)"
proof -
  let ?ap = "buildAppliedPolicy (map (applied_rule_of st) (sort_by (merge_order loc) ms))"
  obtain ob where ob: "ap_policy ?ap = JObj ob"
    using applied_policy_output [of "map (applied_rule_of st) (sort_by (merge_order loc) ms)"]
    unfolding policy_ok_def by blast
  have "policy_output (ac_policy (apply_channel loc st ms)) k = policy_output (ap_policy ?ap) k"
    by (simp add: apply_channel_def Let_def case_prod_beta ob policy_output_def member_of_def
        obj_assign_def map_of_obj_set)
  also have "\<dots> = last_setting (\<lambda>m. output_fields (mt_then_patch m) k) (sort_by (merge_order loc) ms)"
    by (simp add: applied_policy_output last_setting_map comp_def applied_rule_of_def)
  finally show ?thesis .
qed

end
