(* ===== verification/ToolSelectionSafety.thy ===== *)
theory ToolSelectionSafety
  imports ToolSelection RuleEvaluationSafety
begin

text \<open>
  What ToolSelection promises: the order offered to the policy only holds candidates the
  profile lets through, and the tool that is selected passed every filter.
\<close>

section \<open>Lists of names\<close>

lemma set_normalizeToolCandidates:
  "set (normalizeToolCandidates cs) = js_trim ` set cs - {[]}" "distinct (normalizeToolCandidates cs)"
  by (simp_all add: normalizeToolCandidates_def)

lemma uniqueStrings_loop_set:
  "set (uniqueStrings_loop n out vs) \<subseteq> set out \<union> {js_trim s |s. Some s \<in> set vs}"
proof (induction n out vs rule: uniqueStrings_loop.induct)
  case (2 limit out v vs)
  then show ?case by (cases v) (auto simp: Let_def)
qed simp

lemma uniqueStrings_loop_distinct: "distinct out \<Longrightarrow> distinct (uniqueStrings_loop n out vs)"
  by (induction n out vs rule: uniqueStrings_loop.induct) (simp_all add: Let_def)

lemma distinct_uniqueStrings [simp]: "distinct (uniqueStrings vs n)"
  by (simp add: uniqueStrings_def uniqueStrings_loop_distinct)

lemma length_uniqueStrings_loop:
  "length out < n \<Longrightarrow> length (uniqueStrings_loop n out vs) \<le> n"
  by (induction n out vs rule: uniqueStrings_loop.induct) (auto simp: Let_def)

lemma length_uniqueStrings: "0 < n \<Longrightarrow> length (uniqueStrings vs n) \<le> n"
  by (simp add: uniqueStrings_def length_uniqueStrings_loop)

lemma prioritize_permutation:
  assumes "distinct cs" "distinct pref"
  shows "mset (prioritizeExplicitPreferred cs pref) = mset cs"
proof -
  let ?p = "prioritizeExplicitPreferred cs pref"
  have "distinct ?p" "set ?p = set cs" using assms by (auto simp: prioritizeExplicitPreferred_def)
  then show ?thesis using assms(1) by (simp add: set_eq_iff_mset_eq_distinct [symmetric])
qed

section \<open>The order\<close>

lemma reorder_family_set:
  "set (reorder_family pref out ms) \<subseteq> set out \<union> (cm_tool_name \<circ> snd) ` set ms"
proof (cases rule: reorder_family_cases [of pref out ms])
  case (wrote ivs)
  have "set (write_slots out ivs) \<subseteq> set out \<union> snd ` set ivs"
  proof (induction ivs arbitrary: out)
    case (Cons iv ivs)
    show ?case using Cons.IH [of "out[fst iv := snd iv]"] set_update_subset_insert [of out "fst iv" "snd iv"]
      by auto
  qed simp
  then show ?thesis using wrote(1) mset_eq_setD [OF wrote(3)] by (simp add: image_comp)
qed simp

lemma reorder_families_set:
  "set (foldl (reorder_family pref) out mss) \<subseteq> set out \<union> (cm_tool_name \<circ> snd) ` set (concat mss)"
proof (induction mss arbitrary: out)
  case (Cons ms mss)
  show ?case using Cons.IH [of "reorder_family pref out ms"] reorder_family_set [of pref out ms] by auto
qed simp

lemma family_members_named:
  "(cm_tool_name \<circ> snd) ` set (concat (map snd (group_families md))) \<subseteq> cm_tool_name ` set md"
proof -
  have "im \<in> set (concat (map snd (group_families md))) \<Longrightarrow> cm_tool_name (snd im) \<in> cm_tool_name ` set md" for im
    using members_of_metadata [of md] unfolding members_ok_def
    by (metis imageI in_set_conv_nth length_map nth_map)
  then show ?thesis by auto
qed

lemma ordering_names:
  "set (applyFamilyAwareOrdering cs (mapCandidatesToFamilies (buildToolRegistryIndex rs) fs) pref)
     \<subseteq> set cs \<union> set fs"
proof -
  let ?md = "mapCandidatesToFamilies (buildToolRegistryIndex rs) fs"
  have "cm_tool_name ` set ?md = set fs" using metadata_names [of rs fs] by (metis set_map)
  then show ?thesis
    unfolding applyFamilyAwareOrdering_def
    using reorder_families_set [of pref cs "map snd (group_families ?md)"] family_members_named [of ?md] by blast
qed

lemma ordered_candidates_set:
  "set (ordered_candidates reorder fs pref) \<subseteq> set fs"
proof (cases reorder)
  case True
  have "set (prioritizeExplicitPreferred fs pref) \<subseteq> set fs"
    by (auto simp: prioritizeExplicitPreferred_def)
  with True ordering_names [of "prioritizeExplicitPreferred fs pref" DEFAULT_TOOL_REGISTRY_RECORDS fs pref]
  show ?thesis by (auto simp add: ordered_candidates_def DEFAULT_TOOL_REGISTRY_INDEX_def)
qed (simp add: ordered_candidates_def)

section \<open>The handler\<close>

lemma selectTools_Inr:
  assumes "selectTools env req ds dt decisions = Inr (res, decisions')"
  obtains tenancy rules sel ordered where
    "resolveTenantScope (sq_scope req) (sq_tenant_id req) ds dt = Inr tenancy"
    "evaluateRulesAppliedOnly (tv_re env) (tv_loc env) (ts_scope tenancy) (Some (ts_tenant_id tenancy)) (Some dt)
       (Some (evaluation_context req)) (sq_include_shadow req) (sq_rules_limit req) (tv_load env) = Inr rules"
    "set ordered \<subseteq> set (fst (applyControlProfileCandidateFilter (normalizeToolCandidates (sq_candidates req))
       (fst (kernel_inputs env req))))"
    "applyToolPolicy ordered (Some (ac_tool (er_applied rules))) (sq_strict req) = Inr sel"
    "sl_selection res = with_denied (snd (applyControlProfileCandidateFilter
       (normalizeToolCandidates (sq_candidates req)) (fst (kernel_inputs env req)))) sel"
    "xd_selected_tool (sl_decision res) = td_selected sel"
    "xd_scope (sl_decision res) = ts_scope_key tenancy"
    "xd_source_rule_ids (sl_decision res) = uniqueRuleIds (map (so_rule_node_id \<circ> fst) (ac_sources (er_applied rules)))"
    "decisions' = (if tv_persist env then decisions @ [sl_decision res] else decisions)"
proof -
  let ?ctx = "evaluation_context req"
  obtain prof origin st where k: "kernel_inputs env req = (prof, origin, st)" by (metis prod_cases3)
  obtain fs byp where f: "applyControlProfileCandidateFilter (normalizeToolCandidates (sq_candidates req)) prof = (fs, byp)"
    by fastforce
  note eq = assms [unfolded selectTools_def Let_def k f prod.case and_then_eq_Inr]
  let ?ord = "\<lambda>tenancy rules. ordered_candidates (sq_reorder_candidates req) fs (mergedPreferred (ac_tool (er_applied rules))
          (case tv_recall env of None \<Rightarrow> []
           | Some f \<Rightarrow> if fs = [] then [] else f ?ctx fs (ts_scope_key tenancy)) fs)"
  let ?dec = "\<lambda>tenancy rules sel md.
      \<lparr>xd_id = tv_decision_id env, xd_scope = ts_scope_key tenancy, xd_decision_kind = ''tools_select'',
       xd_run_id = sq_run_id req, xd_selected_tool = td_selected sel, xd_candidates = td_candidates sel,
       xd_context_sha256 = tv_digest env ?ctx, xd_policy_sha256 = tv_digest env (ac_policy (er_applied rules)),
       xd_source_rule_ids = uniqueRuleIds (map (so_rule_node_id \<circ> fst) (ac_sources (er_applied rules))),
       xd_metadata = md\<rparr>"
  from eq obtain tenancy rules sel shadow md where
    t: "resolveTenantScope (sq_scope req) (sq_tenant_id req) ds dt = Inr tenancy" and
    r: "evaluateRulesAppliedOnly (tv_re env) (tv_loc env) (ts_scope tenancy) (Some (ts_tenant_id tenancy)) (Some dt)
       (Some ?ctx) (sq_include_shadow req) (sq_rules_limit req) (tv_load env) = Inr rules" and
    s: "applyToolPolicy (?ord tenancy rules) (Some (ac_tool (er_applied rules))) (sq_strict req) = Inr sel" and
    e: "Inr (\<lparr>sl_selection = with_denied byp sel, sl_shadow_selection = shadow,
          sl_decision = ?dec tenancy rules sel md\<rparr>,
        if tv_persist env then decisions @ [?dec tenancy rules sel md] else decisions)
      = (Inr (res, decisions') :: http_error + selection_result \<times> execution_decision list)"
    by (elim exE conjE) (rule that; assumption)
  have res: "res = \<lparr>sl_selection = with_denied byp sel, sl_shadow_selection = shadow,
          sl_decision = ?dec tenancy rules sel md\<rparr>"
    and decs: "decisions' = (if tv_persist env then decisions @ [?dec tenancy rules sel md] else decisions)"
    using e by (simp_all only: sum.inject prod.inject)
  have fields: "sl_selection res = with_denied byp sel" "sl_decision res = ?dec tenancy rules sel md"
    unfolding res by (simp_all only: selection_result.simps)
  have dfields: "xd_selected_tool (sl_decision res) = td_selected sel"
     "xd_scope (sl_decision res) = ts_scope_key tenancy"
     "xd_source_rule_ids (sl_decision res) = uniqueRuleIds (map (so_rule_node_id \<circ> fst) (ac_sources (er_applied rules)))"
    unfolding fields(2) by (simp_all only: execution_decision.simps)
  show ?thesis
  proof (rule that [OF t r _ s _ dfields])
    show "set (?ord tenancy rules) \<subseteq> set (fst (applyControlProfileCandidateFilter
        (normalizeToolCandidates (sq_candidates req)) (fst (kernel_inputs env req))))"
      using ordered_candidates_set by (simp only: k f fst_conv)
    show "sl_selection res = with_denied (snd (applyControlProfileCandidateFilter
       (normalizeToolCandidates (sq_candidates req)) (fst (kernel_inputs env req)))) sel"
      using fields(1) by (simp only: k f fst_conv snd_conv)
    show "decisions' = (if tv_persist env then decisions @ [sl_decision res] else decisions)"
      unfolding fields(2) by (rule decs)
  qed
qed

lemma selected_passes:
  assumes "applyToolPolicy cs (Some tool) strict = Inr d" "td_selected d = Some t"
  shows "t \<in> set cs" "t \<notin> set (with_default (tp_deny tool) [])"
    "strict \<Longrightarrow> tp_allow tool = Some al \<Longrightarrow> set al - {[]} \<noteq> {} \<Longrightarrow> t \<in> set al"
proof -
  have "t \<in> set (td_allowed d)"
    using applyToolPolicy_Inr(5) [OF assms(1)] assms(2) ordered_permutation(2) [OF assms(1)]
    by (metis hd_in_set option.distinct(1) option.inject)
  note sp = allowed_spec [OF assms(1) this]
  show "t \<in> set cs" by (rule sp)
  show "t \<notin> set (with_default (tp_deny tool) [])"
    using sp(2,3) by (simp add: patch_list_def)
  assume "strict" "tp_allow tool = Some al" "set al - {[]} \<noteq> {}"
  moreover from this have "set (patch_list tp_allow (Some tool)) = set al - {[]}"
    by (simp add: patch_list_def with_default_def)
  moreover from this calculation(3) have "patch_list tp_allow (Some tool) \<noteq> []" by (metis set_empty)
  ultimately show "t \<in> set al" using sp(4) by blast
qed

text \<open>The scope that selectTools resolved is resolved once more by the evaluation, with the same result.\<close>

lemma resolve_again:
  assumes "resolveTenantScope s t ds dt = Inr y"
  shows "resolveTenantScope (Some (ts_scope y)) (Some (ts_tenant_id y)) q dt = Inr y"
proof -
  from assms obtain a b where a: "normalizeTenantId t dt = Inr a" and b: "normalizeScope s ds = Inr b"
    and y: "y = \<lparr>ts_tenant_id = a, ts_scope = b, ts_scope_key = toTenantScopeKey b a dt\<rparr>"
    by (auto simp: resolveTenantScope_def)
  have "js_trim a = a" "js_trim b = b"
    using a b by (auto simp: normalizeTenantId_def normalizeScope_def badRequest_def Let_def split: if_splits)
  moreover have "TENANT_ID_RE a" "b \<noteq> []" "\<not> js_starts_with b ''tenant:''" "a \<noteq> []"
    using normalizeTenantId_Inr [OF a] normalizeScope_Inr [OF b] by (auto simp: TENANT_ID_RE_def)
  ultimately show ?thesis
    by (simp add: y resolveTenantScope_def normalizeTenantId_def normalizeScope_def)
qed

end
