(* ===== verification/RulePatterns.thy ===== *)
theory RulePatterns
  imports RuleEngine
begin

text \<open>
  What the matcher of RuleEngine computes: equality up to the order of members, patterns
  without operators as an extension order on JSON, and the connectives as Boolean operations.
\<close>

section \<open>Equality up to the order of members\<close>

fun nan_free :: "jv \<Rightarrow> bool" where
  "nan_free (JNum x) = (x \<noteq> NaN)"
| "nan_free (JArr vs) = list_all nan_free vs"
| "nan_free (JObj ob) = list_all (\<lambda>e. nan_free (snd e)) ob"
| "nan_free v = True"

text \<open>The value with the members of every object sorted by name.\<close>

lemma size_sorted_member:
  assumes "k \<in> set (sort (keys ob))"
  shows "size (the (map_of ob k)) < size (JObj ob)"
proof -
  obtain v where "map_of ob k = Some v"
    using assms by (metis map_of_eq_None_iff not_None_eq set_map set_sort)
  then show ?thesis using size_member_of [of ob k v] by simp
qed

function normal :: "jv \<Rightarrow> jv" where
  "normal v =
     (case v of
        JArr vs \<Rightarrow> JArr (map normal vs)
      | JObj ob \<Rightarrow> JObj (map (\<lambda>k. (k, normal (the (map_of ob k)))) (sort (keys ob)))
      | _ \<Rightarrow> v)"
  by pat_completeness auto
termination
proof (relation "measure size")
  fix v vs k
  show "v = JObj vs \<Longrightarrow> k \<in> set (sort (keys vs)) \<Longrightarrow> (the (map_of vs k), v) \<in> measure size"
    using size_sorted_member [of k vs] by simp
qed (auto dest: size_item)

declare normal.simps [simp del]

lemma normal_simps [simp]:
  "normal JNull = JNull" "normal (JBool b) = JBool b" "normal (JNum x) = JNum x"
  "normal (JStr s) = JStr s" "normal (JHost h) = JHost h"
  "normal (JArr vs) = JArr (map normal vs)"
  "normal (JObj ob) = JObj (map (\<lambda>k. (k, normal (the (map_of ob k)))) (sort (keys ob)))"
  by (subst normal.simps, simp)+

lemma normal_prim:
  "JNull = normal v \<longleftrightarrow> v = JNull" "JBool b = normal v \<longleftrightarrow> v = JBool b"
  "JStr s = normal v \<longleftrightarrow> v = JStr s"
  by (cases v; auto)+

lemma deepEqual_simps [simp]:
  "deepEqual JNull b \<longleftrightarrow> b = JNull" "deepEqual (JBool p) b \<longleftrightarrow> b = JBool p"
  "deepEqual (JStr s) b \<longleftrightarrow> b = JStr s"
  "deepEqual (JNum x) b \<longleftrightarrow> (\<exists>y. b = JNum y \<and> num_eq x y)"
  "deepEqual (JArr xs) b \<longleftrightarrow> (\<exists>ys. b = JArr ys \<and> list_all2 deepEqual xs ys)"
  by (auto simp: deepEqual.simps [of JNull b] deepEqual.simps [of "JBool p" b] deepEqual.simps [of "JStr s" b]
      deepEqual.simps [of "JNum x" b] deepEqual.simps [of "JArr xs" b] list_all2_iff list_all_iff
      split: jv.splits)

lemma deepEqual_obj:
  "deepEqual (JObj xs) (JObj ys) \<longleftrightarrow>
     sort (keys xs) = sort (keys ys)
     \<and> (\<forall>e \<in> set xs. \<exists>y. map_of ys (fst e) = Some y \<and> deepEqual (snd e) y)"
  by (subst deepEqual.simps)
    (auto simp: plain_members_def list_all_iff split: option.splits)

lemma deepEqual_obj_other:
  "json b \<Longrightarrow> deepEqual (JObj xs) b \<Longrightarrow> \<exists>ys. b = JObj ys"
  by (subst (asm) deepEqual.simps) (auto simp: plain_members_def split: jv.splits if_splits)

lemma deepEqual_obj_no:
  "\<not> deepEqual (JObj xs) JNull" "\<not> deepEqual (JObj xs) (JBool p)" "\<not> deepEqual (JObj xs) (JNum n)"
  "\<not> deepEqual (JObj xs) (JStr s)" "\<not> deepEqual (JObj xs) (JArr vs)"
  using deepEqual_obj_other [of JNull xs] deepEqual_obj_other [of "JBool p" xs]
    deepEqual_obj_other [of "JNum n" xs] deepEqual_obj_other [of "JStr s" xs]
  by (auto simp: deepEqual.simps [of "JObj xs" "JArr vs"] plain_members_def)

lemma map_of_distinct: "distinct (keys ob) \<Longrightarrow> e \<in> set ob \<Longrightarrow> map_of ob (fst e) = Some (snd e)"
  by simp

lemma deepEqual_normal:
  "json a \<Longrightarrow> nan_free a \<Longrightarrow> json b \<Longrightarrow> deepEqual a b \<longleftrightarrow> normal a = normal b"
proof (induction a arbitrary: b)
  case (JNum x)
  then show ?case by (cases b) (auto simp: num_eq_def)
next
  case (JArr xs)
  show ?case
  proof (cases b)
    case (JArr ys)
    have "deepEqual x y \<longleftrightarrow> normal x = normal y" if "x \<in> set xs" "y \<in> set ys" for x y
      using that JArr JArr.prems JArr.IH [of x y] by (simp add: list_all_iff)
    then have "list_all2 deepEqual xs ys \<longleftrightarrow> list_all2 (\<lambda>x y. normal x = normal y) xs ys"
      by (auto simp: list_all2_conv_all_nth)
    also have "\<dots> \<longleftrightarrow> map normal xs = map normal ys"
      by (auto simp: list_all2_conv_all_nth list_eq_iff_nth_eq)
    finally show ?thesis using JArr by simp
  qed auto
next
  case (JObj xs)
  show ?case
  proof (cases b)
    case (JObj ys)
    have d: "distinct (keys xs)" "distinct (keys ys)" using JObj JObj.prems by simp_all
    have pair: "deepEqual (snd e) y \<longleftrightarrow> normal (snd e) = normal y"
      if "e \<in> set xs" "map_of ys (fst e) = Some y" for e y
    proof -
      have "json (snd e)" "nan_free (snd e)" using that(1) JObj.prems by (auto simp: list_all_iff)
      moreover have "(fst e, y) \<in> set ys" using that(2) by (rule map_of_SomeD)
      then have "json y" using JObj JObj.prems by (auto simp: list_all_iff)
      ultimately show ?thesis using that(1) JObj.IH [of e "snd e"] by (cases e) auto
    qed
    show ?thesis
    proof (cases "sort (keys xs) = sort (keys ys)")
      case True
      then have same: "set (keys xs) = set (keys ys)" by (metis set_sort)
      have "(\<exists>y. map_of ys (fst e) = Some y \<and> deepEqual (snd e) y)
          \<longleftrightarrow> normal (the (map_of xs (fst e))) = normal (the (map_of ys (fst e)))" if e: "e \<in> set xs" for e
      proof -
        have "fst e \<in> set (keys ys)" using e same by (metis image_eqI set_map)
        then obtain y where y: "map_of ys (fst e) = Some y" by (metis map_of_eq_None_iff not_None_eq set_map)
        then show ?thesis using pair [OF e y] map_of_distinct [OF d(1) e] by simp
      qed
      then have "(\<forall>e \<in> set xs. \<exists>y. map_of ys (fst e) = Some y \<and> deepEqual (snd e) y)
          \<longleftrightarrow> (\<forall>k \<in> set (keys xs). normal (the (map_of xs k)) = normal (the (map_of ys k)))"
        by (simp only: set_map ball_simps) simp
      then show ?thesis unfolding JObj deepEqual_obj by (simp add: True [symmetric])
    next
      case False
      let ?f = "\<lambda>ob k. (k, normal (the (map_of ob k)))"
      have "map (?f xs) (sort (keys xs)) \<noteq> map (?f ys) (sort (keys ys))"
      proof
        assume "map (?f xs) (sort (keys xs)) = map (?f ys) (sort (keys ys))"
        then have "map fst (map (?f xs) (sort (keys xs))) = map fst (map (?f ys) (sort (keys ys)))" by simp
        then show False using False by (simp add: comp_def)
      qed
      then show ?thesis using False unfolding JObj deepEqual_obj by simp
    qed
  qed (use JObj.prems deepEqual_obj_no in auto)
qed (auto simp: normal_prim)

section \<open>Patterns without operators\<close>

definition plain_key :: "string \<Rightarrow> bool" where
  "plain_key k \<longleftrightarrow> \<not> js_starts_with k ''$'' \<and> CHR ''.'' \<notin> set k \<and> \<not> is_index_key k \<and> k \<noteq> ''length''
     \<and> k \<notin> set (proto_keys @ array_members @ string_members @ number_members)"

fun plain_pattern :: "jv \<Rightarrow> bool" where
  "plain_pattern (JObj ob) = (ob \<noteq> [] \<and> list_all (\<lambda>e. plain_key (fst e) \<and> plain_pattern (snd e)) ob)"
| "plain_pattern (JHost _) = False"
| "plain_pattern _ = True"

text \<open>\<open>extends p c\<close>: the context \<open>c\<close> has every member \<open>p\<close> asks for.\<close>

function extends :: "jv \<Rightarrow> jv \<Rightarrow> bool" where
  "extends p c =
     (case p of
        JObj ob \<Rightarrow>
          (\<exists>cs. c = JObj cs \<and> list_all (\<lambda>e. \<exists>u. map_of cs (fst e) = Some u \<and> extends (snd e) u) ob)
      | JArr ps \<Rightarrow> (\<exists>xs. c = JArr xs \<and> list_all (\<lambda>q. list_ex (\<lambda>x. deepEqual x q) xs) ps)
      | _ \<Rightarrow> deepEqual c p)"
  by pat_completeness auto
termination
  by (relation "measure (\<lambda>(p, c). size p)") (auto dest: size_member)

declare extends.simps [simp del]

lemma js_get_plain:
  assumes "plain_key k" "json c"
  shows "js_get c k = (case c of JObj cs \<Rightarrow> map_of cs k | _ \<Rightarrow> None)"
  using assms
  by (cases c) (auto simp: plain_key_def indexed_member_def host_member_def obj_get_def js_prop_def
      split: option.splits)

lemma plain_no_operator:
  assumes "list_all (\<lambda>e. plain_key (fst e) \<and> plain_pattern (snd e)) ob"
  shows "map_of ob ''$and'' = None" "map_of ob ''$or'' = None" "map_of ob ''$not'' = None"
    "\<not> (length ob = 1 \<and> js_starts_with (fst (hd ob)) ''$'')"
proof -
  have nk: "k \<notin> fst ` set ob" if "js_starts_with k ''$''" for k
    using assms that by (auto simp: list_all_iff plain_key_def)
  then show "map_of ob ''$and'' = None" "map_of ob ''$or'' = None" "map_of ob ''$not'' = None"
    by (simp_all add: map_of_eq_None_iff js_starts_with_def)
  show "\<not> (length ob = 1 \<and> js_starts_with (fst (hd ob)) ''$'')"
    using assms by (cases ob) (auto simp: plain_key_def)
qed

lemma match_plain_obj:
  assumes "plain_pattern (JObj ob)"
  shows "matchPattern re (JObj ob) ctx \<longleftrightarrow>
    list_all (\<lambda>e. matchPattern re (snd e) (if js_truthy ctx then js_get (the ctx) (fst e) else None)) ob"
proof -
  have all: "list_all (\<lambda>e. plain_key (fst e) \<and> plain_pattern (snd e)) ob" using assms by simp
  note no = plain_no_operator [OF all]
  have "CHR ''.'' \<notin> set (fst e)" if "e \<in> set ob" for e
    using all that by (auto simp: list_all_iff plain_key_def)
  then have "list_all (\<lambda>e. matchPattern re (snd e)
        (if CHR ''.'' \<in> set (fst e) then getByPath ctx (fst e)
         else if js_truthy ctx then js_get (the ctx) (fst e) else None)) ob
      \<longleftrightarrow> list_all (\<lambda>e. matchPattern re (snd e) (if js_truthy ctx then js_get (the ctx) (fst e) else None)) ob"
    by (simp add: list_all_iff)
  then show ?thesis
    by (subst matchPattern.simps) (simp only: jv.case option.case no(1-3) if_not_P [OF no(4)])
qed

lemma match_plain_none: "plain_pattern p \<Longrightarrow> \<not> matchPattern re p None"
proof (induction p)
  case (JObj ob)
  then obtain e ob' where ob: "ob = e # ob'" by (cases ob) auto
  then have "\<not> matchPattern re (snd e) None" using JObj.prems JObj.IH [of e "snd e"] by (cases e) simp
  then show ?case using match_plain_obj [OF JObj.prems] ob by simp
qed (auto simp: matchPattern.simps deepEqual_opt_def)

lemma match_plain:
  "plain_pattern p \<Longrightarrow> json c \<Longrightarrow> matchPattern re p (Some c) \<longleftrightarrow> extends p c"
proof (induction p arbitrary: c)
  case (JObj ob)
  have all: "list_all (\<lambda>e. plain_key (fst e) \<and> plain_pattern (snd e)) ob" using JObj.prems by simp
  show ?case
  proof (cases "\<exists>cs. c = JObj cs")
    case True
    then obtain cs where c: "c = JObj cs" by blast
    have "matchPattern re (snd e) (js_get c (fst e))
        \<longleftrightarrow> (\<exists>u. map_of cs (fst e) = Some u \<and> extends (snd e) u)" if e: "e \<in> set ob" for e
    proof (cases "map_of cs (fst e)")
      case None
      then show ?thesis
        using all e js_get_plain [OF _ JObj.prems(2)] match_plain_none by (auto simp: list_all_iff c)
    next
      case (Some u)
      then have "json u" using JObj.prems(2) c by (auto simp: list_all_iff dest: map_of_SomeD)
      then show ?thesis
        using all e js_get_plain [OF _ JObj.prems(2)] JObj.IH [of e "snd e" u] Some
        by (cases e) (auto simp: list_all_iff c)
    qed
    then show ?thesis
      unfolding match_plain_obj [OF JObj.prems(1)] extends.simps [of "JObj ob"] by (simp add: c list_all_iff)
  next
    case False
    obtain e ob' where ob: "ob = e # ob'" using JObj.prems by (cases ob) auto
    have "js_get c (fst e) = None"
      using all ob False js_get_plain [OF _ JObj.prems(2)] by (auto split: jv.splits)
    then have "\<not> matchPattern re (JObj ob) (Some c)"
      using match_plain_obj [OF JObj.prems(1)] match_plain_none all ob by simp
    then show ?thesis using False by (simp add: extends.simps)
  qed
qed (auto simp: matchPattern.simps extends.simps deepEqual_opt_def split: jv.splits)

section \<open>The connectives\<close>

datatype condition = Holds jv | AllOf "condition list" | AnyOf "condition list" | NotOf condition

fun encode :: "condition \<Rightarrow> jv" where
  "encode (Holds p) = p"
| "encode (AllOf cs) = JObj [(''$and'', JArr (map encode cs))]"
| "encode (AnyOf cs) = JObj [(''$or'', JArr (map encode cs))]"
| "encode (NotOf c) = JObj [(''$not'', encode c)]"

fun holds :: "(jv \<Rightarrow> bool) \<Rightarrow> condition \<Rightarrow> bool" where
  "holds P (Holds p) = P p"
| "holds P (AllOf cs) = list_all (holds P) cs"
| "holds P (AnyOf cs) = list_ex (holds P) cs"
| "holds P (NotOf c) = (\<not> holds P c)"

lemma match_encode: "matchPattern re (encode c) ctx \<longleftrightarrow> holds (\<lambda>p. matchPattern re p ctx) c"
proof (induction c)
  case (AllOf cs)
  then show ?case by (subst encode.simps, subst matchPattern.simps) (simp add: list_all_iff)
next
  case (AnyOf cs)
  then show ?case by (subst encode.simps, subst matchPattern.simps) (simp add: list_ex_iff)
next
  case (NotOf c)
  then show ?case by (subst encode.simps, subst matchPattern.simps) simp
qed simp

end
