(* ===== verification/PropsPolicy.thy ===== *)
theory PropsPolicy
  imports ToolSelectionSafety RulePatterns
begin

text \<open>
  The properties of the rules and the selection of tools (src/src/memory), each with a witness
  where it has hypotheses.
\<close>

section \<open>Values for the witnesses\<close>

text \<open>One active rule that everybody sees: it allows two search tools, denies a
  shell and prefers one of the two.\<close>

definition sample_row :: rule_row where
  "sample_row =
     \<lparr>rw_rule_node_id = ''r1'', rw_state = ''active'', rw_rule_scope = Some ''global'',
      rw_target_agent_id = None, rw_target_team_id = None, rw_rule_memory_lane = ''shared'',
      rw_rule_owner_agent_id = None, rw_rule_owner_team_id = None, rw_if_json = Some (JObj []),
      rw_then_json = JObj [(''tool'', JObj [(''allow'', JArr [JStr ''grep'', JStr ''rg'']),
        (''deny'', JArr [JStr ''shell'']), (''prefer'', JArr [JStr ''rg''])])],
      rw_exceptions_json = None, rw_positive_count = Some (Fin 1), rw_negative_count = Some (Fin 0),
      rw_rule_commit_id = ''c1'', rw_rule_summary = None, rw_rule_slots = None\<rparr>"

definition sample_env :: tool_env where
  "sample_env =
     \<lparr>tv_re = (\<lambda>_ _. None), tv_loc = (\<lambda>a b. int (length a) - int (length b)),
      tv_load = (\<lambda>key limit. if key = ''main'' then [sample_row] else []), tv_recall = None,
      tv_parse_state = (\<lambda>_. None), tv_digest = (\<lambda>_. ''digest''), tv_decision_id = ''d1'', tv_persist = True\<rparr>"

definition sample_request :: select_request where
  "sample_request =
     \<lparr>sq_scope = None, sq_tenant_id = None, sq_run_id = None, sq_context = Some (JObj []),
      sq_result_summary = None, sq_artifacts = None, sq_evidence = None, sq_execution_state = None,
      sq_candidates = ['' shell '', ''grep'', ''rg''], sq_include_shadow = False, sq_rules_limit = 50,
      sq_strict = True, sq_reorder_candidates = False\<rparr>"

definition sample_patch :: policy_patch where
  "sample_patch =
     \<lparr>pp_output = None, pp_tool = Some \<lparr>tp_allow = Some [''grep'', ''rg''], tp_deny = Some [''shell''], tp_prefer = Some [''rg'']\<rparr>,
      pp_extensions = None\<rparr>"

definition sample_match :: matched_rule where
  "sample_match =
     \<lparr>mt_row = sample_row, mt_rank = readRuleRankMeta sample_row, mt_then_patch = sample_patch\<rparr>"

lemma sample_context: "evaluation_context sample_request = JObj []"
  by code_simp

lemma sample_match_of: "match_of (tv_re sample_env) (Some (JObj [])) ''active'' sample_row = Some sample_match"
proof -
  have "takes_part (tv_re sample_env) (Some (JObj [])) sample_row" "rw_state sample_row = ''active''"
    by code_simp+
  moreover have "parsePolicyPatch (rw_then_json sample_row) = Inr sample_patch" by code_simp
  ultimately show ?thesis by (simp add: match_of_def sample_match_def)
qed

lemma sample_rows_match:
  "ev_active (evaluate_rows (tv_re sample_env) (Some (JObj [])) sh [sample_row]) = [sample_match]"
  by (simp add: evaluate_rows_lists map_filter_simps sample_match_of)

lemma sample_tool:
  "ac_tool (apply_channel (tv_loc sample_env) st [sample_match])
     = \<lparr>tp_allow = Some [''rg'', ''grep''], tp_deny = Some [''shell''], tp_prefer = Some [''rg'']\<rparr>"
  unfolding apply_channel_tool
  by (simp add: computeEffectiveToolPolicy_def sample_match_def sample_patch_def tool_rule_of_def add_rule_def
      patch_list_def with_default_def uniq_def add_deny_def add_prefer_def empty_policy_state_def sample_env_def
      sorted_by_locale_def sort_by_def set_add_def dedupe_def Let_def intersect_all_def)

lemma sample_tenancy:
  "resolveTenantScope None None ''main'' ''default''
     = Inr \<lparr>ts_tenant_id = ''default'', ts_scope = ''main'', ts_scope_key = ''main''\<rparr>"
  by code_simp

lemma selectTools_plain:
  assumes "resolveTenantScope (sq_scope req) (sq_tenant_id req) ds dt = Inr tenancy"
    and "evaluateRulesAppliedOnly (tv_re env) (tv_loc env) (ts_scope tenancy) (Some (ts_tenant_id tenancy)) (Some dt)
       (Some (evaluation_context req)) False (sq_rules_limit req) (tv_load env) = Inr rules"
    and "\<not> sq_reorder_candidates req" "\<not> sq_include_shadow req"
    and "applyControlProfileCandidateFilter (normalizeToolCandidates (sq_candidates req)) (fst (kernel_inputs env req)) = (fs, byp)"
    and "applyToolPolicy fs (Some (ac_tool (er_applied rules))) (sq_strict req) = Inr sel"
  shows "\<exists>res decisions'. selectTools env req ds dt decisions = Inr (res, decisions')
    \<and> td_selected (sl_selection res) = td_selected sel"
  using assms
  by (simp add: selectTools_def case_prod_beta ordered_candidates_def shadow_selection_def with_denied_def Let_def)

lemma sample_selects:
  "\<exists>res decisions'. selectTools sample_env sample_request ''main'' ''default'' [] = Inr (res, decisions')
     \<and> td_selected (sl_selection res) = Some ''rg''"
proof -
  let ?t = "\<lparr>ts_tenant_id = ''default'', ts_scope = ''main'', ts_scope_key = ''main''\<rparr>"
  have req: "sq_scope sample_request = None" "sq_tenant_id sample_request = None" "\<not> sq_reorder_candidates sample_request"
    "\<not> sq_include_shadow sample_request" "sq_strict sample_request" "sq_rules_limit sample_request = 50"
    by (simp_all add: sample_request_def)
  have env: "tv_load sample_env ''main'' n = [sample_row]" for n by (simp add: sample_env_def)
  have t: "resolveTenantScope (sq_scope sample_request) (sq_tenant_id sample_request) ''main'' ''default'' = Inr ?t"
    unfolding req by (rule sample_tenancy)
  obtain rules where r: "evaluateRulesAppliedOnly (tv_re sample_env) (tv_loc sample_env) (ts_scope ?t)
      (Some (ts_tenant_id ?t)) (Some ''default'') (Some (evaluation_context sample_request)) False
      (sq_rules_limit sample_request) (tv_load sample_env) = Inr rules"
    "er_applied rules = apply_channel (tv_loc sample_env) ''active'' [sample_match]"
    using resolve_again [OF sample_tenancy]
    by (simp add: evaluateRulesAppliedOnly_def with_default_def env req sample_context sample_rows_match Let_def)
  have f: "applyControlProfileCandidateFilter (normalizeToolCandidates (sq_candidates sample_request))
      (fst (kernel_inputs sample_env sample_request)) = ([''shell'', ''grep'', ''rg''], [])" by code_simp
  have "case applyToolPolicy [''shell'', ''grep'', ''rg'']
      (Some \<lparr>tp_allow = Some [''rg'', ''grep''], tp_deny = Some [''shell''], tp_prefer = Some [''rg'']\<rparr>) True of
        Inr d \<Rightarrow> td_selected d = Some ''rg'' | Inl _ \<Rightarrow> False" by code_simp
  then obtain sel where sel: "applyToolPolicy [''shell'', ''grep'', ''rg''] (Some (ac_tool (er_applied rules)))
      (sq_strict sample_request) = Inr sel" "td_selected sel = Some ''rg''"
    unfolding r(2) sample_tool using req(5) by (auto split: sum.splits)
  from selectTools_plain [OF t r(1) req(3,4) f sel(1)] sel(2) show ?thesis by simp
qed

section \<open>The selection\<close>

text \<open>C3: a selected tool is one of the candidates, is not a broad tool the control profile refuses,
  and no active rule of the tenant's scope denies it: no row the store lists there that is in
  scope, visible to the agent, met by the context and well formed has the tool in its deny
  list.\<close>

theorem selection_respects_rules:
  assumes "selectTools env req ds dt decisions = Inr (res, decisions')"
    and "td_selected (sl_selection res) = Some t"
  shows "\<exists>tenancy. resolveTenantScope (sq_scope req) (sq_tenant_id req) ds dt = Inr tenancy
    \<and> t \<in> js_trim ` set (sq_candidates req) \<and> \<not> refused_by_profile (fst (kernel_inputs env req)) t
    \<and> (\<forall>r \<in> set (tv_load env (ts_scope_key tenancy) (sq_rules_limit req)). \<forall>m.
         match_of (tv_re env) (Some (evaluation_context req)) ''active'' r = Some m \<longrightarrow>
         t \<notin> set (patch_list tp_deny (pp_tool (mt_then_patch m))))"
proof -
  obtain tenancy rules sel ordered where t: "resolveTenantScope (sq_scope req) (sq_tenant_id req) ds dt = Inr tenancy"
    and r: "evaluateRulesAppliedOnly (tv_re env) (tv_loc env) (ts_scope tenancy) (Some (ts_tenant_id tenancy)) (Some dt)
       (Some (evaluation_context req)) (sq_include_shadow req) (sq_rules_limit req) (tv_load env) = Inr rules"
    and o: "set ordered \<subseteq> set (fst (applyControlProfileCandidateFilter (normalizeToolCandidates (sq_candidates req))
       (fst (kernel_inputs env req))))"
    and s: "applyToolPolicy ordered (Some (ac_tool (er_applied rules))) (sq_strict req) = Inr sel"
    and d: "xd_selected_tool (sl_decision res) = td_selected sel"
      "sl_selection res = with_denied (snd (applyControlProfileCandidateFilter
       (normalizeToolCandidates (sq_candidates req)) (fst (kernel_inputs env req)))) sel"
    using selectTools_Inr [OF assms(1)] by metis
  have sel: "td_selected sel = Some t" using assms(2) d(2) by (simp add: with_denied_def)
  note p = selected_passes [OF s sel]
  have c: "t \<in> js_trim ` set (sq_candidates req)" "\<not> refused_by_profile (fst (kernel_inputs env req)) t"
    using p(1) o by (auto simp: applyControlProfileCandidateFilter_def set_normalizeToolCandidates)
  from r obtain er_t where er: "resolveTenantScope (Some (ts_scope tenancy)) (Some (ts_tenant_id tenancy))
      (ts_scope tenancy) (with_default (Some dt) ''default'') = Inr er_t"
    "er_evaluation rules = evaluate_rows (tv_re env) (Some (evaluation_context req)) (sq_include_shadow req)
       (tv_load env (ts_scope_key er_t) (sq_rules_limit req))"
    "er_applied rules = apply_channel (tv_loc env) ''active'' (ev_active (er_evaluation rules))"
    by (rule evaluateRulesAppliedOnly_Inr) blast
  have "er_t = tenancy" using er(1) resolve_again [OF t] by (simp add: with_default_def)
  then have "t \<notin> set (patch_list tp_deny (pp_tool (mt_then_patch m)))"
    if "x \<in> set (tv_load env (ts_scope_key tenancy) (sq_rules_limit req))"
      "match_of (tv_re env) (Some (evaluation_context req)) ''active'' x = Some m" for x m
    using p(2) that er(2) matched_active unfolding er(3) channel_denies by fastforce
  with t c show ?thesis by blast
qed

theorem selection_respects_rules_witness:
  "\<exists>res decisions'. selectTools sample_env sample_request ''main'' ''default'' [] = Inr (res, decisions')
     \<and> td_selected (sl_selection res) = Some ''rg'' \<and> ''rg'' \<in> js_trim ` set (sq_candidates sample_request)
     \<and> \<not> refused_by_profile (fst (kernel_inputs sample_env sample_request)) ''rg''"
  using sample_selects selection_respects_rules by metis

text \<open>A strict selection under allow lists that have a tool in common only picks a tool that is
  in the allow list of every active rule that has one.\<close>

theorem strict_selection_is_allowed:
  assumes "selectTools env req ds dt decisions = Inr (res, decisions')" "sq_strict req"
    and "td_selected (sl_selection res) = Some t"
    and "resolveTenantScope (sq_scope req) (sq_tenant_id req) ds dt = Inr tenancy"
    and "ms = List.map_filter (match_of (tv_re env) (Some (evaluation_context req)) ''active'')
      (tv_load env (ts_scope_key tenancy) (sq_rules_limit req))"
    and "\<exists>a. a \<noteq> [] \<and> (\<forall>m \<in> set ms. patch_list tp_allow (pp_tool (mt_then_patch m)) \<noteq> []
      \<longrightarrow> a \<in> set (patch_list tp_allow (pp_tool (mt_then_patch m))))"
  shows "\<forall>m \<in> set ms. patch_list tp_allow (pp_tool (mt_then_patch m)) \<noteq> []
    \<longrightarrow> t \<in> set (patch_list tp_allow (pp_tool (mt_then_patch m)))"
proof -
  obtain tenancy' rules sel ordered where t: "resolveTenantScope (sq_scope req) (sq_tenant_id req) ds dt = Inr tenancy'"
    and r: "evaluateRulesAppliedOnly (tv_re env) (tv_loc env) (ts_scope tenancy') (Some (ts_tenant_id tenancy')) (Some dt)
       (Some (evaluation_context req)) (sq_include_shadow req) (sq_rules_limit req) (tv_load env) = Inr rules"
    and s: "applyToolPolicy ordered (Some (ac_tool (er_applied rules))) (sq_strict req) = Inr sel"
    and d: "sl_selection res = with_denied (snd (applyControlProfileCandidateFilter
       (normalizeToolCandidates (sq_candidates req)) (fst (kernel_inputs env req)))) sel"
    using selectTools_Inr [OF assms(1)] by metis
  have ten: "tenancy' = tenancy" using t assms(4) by simp
  have sel: "td_selected sel = Some t" using assms(3) d by (simp add: with_denied_def)
  from r obtain er_t where er: "resolveTenantScope (Some (ts_scope tenancy')) (Some (ts_tenant_id tenancy'))
      (ts_scope tenancy') (with_default (Some dt) ''default'') = Inr er_t"
    "er_evaluation rules = evaluate_rows (tv_re env) (Some (evaluation_context req)) (sq_include_shadow req)
       (tv_load env (ts_scope_key er_t) (sq_rules_limit req))"
    "er_applied rules = apply_channel (tv_loc env) ''active'' (ev_active (er_evaluation rules))"
    by (rule evaluateRulesAppliedOnly_Inr) blast
  have "er_t = tenancy" using er(1) resolve_again [OF t] by (simp add: with_default_def ten)
  then have ms: "er_applied rules = apply_channel (tv_loc env) ''active'' ms"
    unfolding er(3) er(2) by (simp add: evaluate_rows_lists assms(5))
  show ?thesis
  proof (cases "tp_allow (ac_tool (apply_channel (tv_loc env) ''active'' ms))")
    case None
    then show ?thesis by (simp add: apply_channel_tool effective_allow(1) tool_rule_of_def)
  next
    case (Some al)
    note al = channel_allows [OF Some]
    have "set al - {[]} \<noteq> {}" using assms(6) unfolding al by blast
    then have "t \<in> set al" using selected_passes(3) [OF s sel assms(2)] Some ms by simp
    then show ?thesis unfolding al by blast
  qed
qed

theorem strict_selection_is_allowed_witness:
  "''rg'' \<in> set (patch_list tp_allow (pp_tool sample_patch))"
proof -
  obtain res decisions' where s: "selectTools sample_env sample_request ''main'' ''default'' [] = Inr (res, decisions')"
    "td_selected (sl_selection res) = Some ''rg''"
    using sample_selects by blast
  let ?t = "\<lparr>ts_tenant_id = ''default'', ts_scope = ''main'', ts_scope_key = ''main''\<rparr>"
  have t: "resolveTenantScope (sq_scope sample_request) (sq_tenant_id sample_request) ''main'' ''default'' = Inr ?t"
    by code_simp
  have strict: "sq_strict sample_request" by (simp add: sample_request_def)
  have ms: "[sample_match] = List.map_filter
      (match_of (tv_re sample_env) (Some (evaluation_context sample_request)) ''active'')
      (tv_load sample_env (ts_scope_key ?t) (sq_rules_limit sample_request))"
    by (simp add: sample_context sample_env_def [THEN arg_cong, of tv_load] map_filter_simps sample_match_of)
  have al: "patch_list tp_allow (pp_tool sample_patch) = [''grep'', ''rg'']" by code_simp
  then have "\<exists>a. a \<noteq> [] \<and> (\<forall>m \<in> set [sample_match]. patch_list tp_allow (pp_tool (mt_then_patch m)) \<noteq> []
      \<longrightarrow> a \<in> set (patch_list tp_allow (pp_tool (mt_then_patch m))))"
    by (intro exI [of _ "''rg''"]) (simp add: sample_match_def)
  from strict_selection_is_allowed [OF s(1) strict s(2) t ms this] show ?thesis
    using al by (simp add: sample_match_def)
qed

text \<open>The recorded decision is the one that was made: it names the selected tool and the
  tenant's scope, cites exactly the active rules that took part, and is appended to the store
  (unless the caller asked not to persist it); nothing already recorded changes.\<close>

theorem decision_is_recorded:
  assumes "selectTools env req ds dt decisions = Inr (res, decisions')"
  shows "\<exists>tenancy. resolveTenantScope (sq_scope req) (sq_tenant_id req) ds dt = Inr tenancy
    \<and> decisions' = (if tv_persist env then decisions @ [sl_decision res] else decisions)
    \<and> xd_selected_tool (sl_decision res) = td_selected (sl_selection res)
    \<and> xd_scope (sl_decision res) = ts_scope_key tenancy
    \<and> set (xd_source_rule_ids (sl_decision res)) = (\<lambda>m. js_trim (rw_rule_node_id (mt_row m)))
        ` set (List.map_filter (match_of (tv_re env) (Some (evaluation_context req)) ''active'')
            (tv_load env (ts_scope_key tenancy) (sq_rules_limit req))) - {[]}"
proof -
  obtain tenancy rules sel where t: "resolveTenantScope (sq_scope req) (sq_tenant_id req) ds dt = Inr tenancy"
    and r: "evaluateRulesAppliedOnly (tv_re env) (tv_loc env) (ts_scope tenancy) (Some (ts_tenant_id tenancy)) (Some dt)
       (Some (evaluation_context req)) (sq_include_shadow req) (sq_rules_limit req) (tv_load env) = Inr rules"
    and d: "xd_selected_tool (sl_decision res) = td_selected sel" "xd_scope (sl_decision res) = ts_scope_key tenancy"
      "sl_selection res = with_denied (snd (applyControlProfileCandidateFilter
       (normalizeToolCandidates (sq_candidates req)) (fst (kernel_inputs env req)))) sel"
      "xd_source_rule_ids (sl_decision res) = uniqueRuleIds (map (so_rule_node_id \<circ> fst) (ac_sources (er_applied rules)))"
      "decisions' = (if tv_persist env then decisions @ [sl_decision res] else decisions)"
    using selectTools_Inr [OF assms] by metis
  from r obtain er_t where er: "resolveTenantScope (Some (ts_scope tenancy)) (Some (ts_tenant_id tenancy))
      (ts_scope tenancy) (with_default (Some dt) ''default'') = Inr er_t"
    "er_evaluation rules = evaluate_rows (tv_re env) (Some (evaluation_context req)) (sq_include_shadow req)
       (tv_load env (ts_scope_key er_t) (sq_rules_limit req))"
    "er_applied rules = apply_channel (tv_loc env) ''active'' (ev_active (er_evaluation rules))"
    by (rule evaluateRulesAppliedOnly_Inr) blast
  have "er_t = tenancy" using er(1) resolve_again [OF t] by (simp add: with_default_def)
  then have "set (xd_source_rule_ids (sl_decision res)) = (\<lambda>m. js_trim (rw_rule_node_id (mt_row m)))
        ` set (List.map_filter (match_of (tv_re env) (Some (evaluation_context req)) ''active'')
            (tv_load env (ts_scope_key tenancy) (sq_rules_limit req))) - {[]}"
    unfolding d(4) er(3) apply_channel_sources er(2)
    by (simp add: uniqueRuleIds_def evaluate_rows_lists image_image)
  moreover have "td_selected (sl_selection res) = td_selected sel" unfolding d(3) by (simp add: with_denied_def)
  ultimately show ?thesis using t d(1,2,5) by metis
qed

theorem decision_is_recorded_witness:
  "\<exists>res. selectTools sample_env sample_request ''main'' ''default'' [] = Inr (res, [sl_decision res])
     \<and> xd_selected_tool (sl_decision res) = Some ''rg''"
proof -
  obtain res decisions' where s: "selectTools sample_env sample_request ''main'' ''default'' [] = Inr (res, decisions')"
    "td_selected (sl_selection res) = Some ''rg''"
    using sample_selects by blast
  from decision_is_recorded [OF s(1)] s show ?thesis by (auto simp: sample_env_def)
qed

text \<open>C13: tenants do not influence each other: whatever rules the store holds under a key of
  another tenant, a selection has the same result.\<close>

theorem selection_confined_to_tenant:
  assumes "resolveTenantScope (sq_scope req) (sq_tenant_id req) ds dt = Inr tenancy"
    and "TENANT_ID_RE other" "other \<noteq> ts_tenant_id tenancy" "\<not> js_starts_with scope ''tenant:''"
  shows "selectTools (env\<lparr>tv_load := (tv_load env)(toTenantScopeKey scope other dt := rules)\<rparr>) req ds dt decisions
    = selectTools env req ds dt decisions"
proof -
  have key: "ts_scope_key tenancy \<noteq> toTenantScopeKey scope other dt"
    by (rule load_other_key [OF assms(1,2,3,4)])
  have ev: "evaluateRulesAppliedOnly re loc (ts_scope tenancy) (Some (ts_tenant_id tenancy)) (Some dt) ctx sh lim
      ((tv_load env)(toTenantScopeKey scope other dt := rules))
    = evaluateRulesAppliedOnly re loc (ts_scope tenancy) (Some (ts_tenant_id tenancy)) (Some dt) ctx sh lim (tv_load env)"
    for re loc ctx sh lim
    using key resolve_again [OF assms(1)] by (simp add: evaluateRulesAppliedOnly_def with_default_def Let_def)
  have same: "kernel_inputs (env\<lparr>tv_load := l\<rparr>) req = kernel_inputs env req"
    "tv_re (env\<lparr>tv_load := l\<rparr>) = tv_re env" "tv_loc (env\<lparr>tv_load := l\<rparr>) = tv_loc env"
    "tv_load (env\<lparr>tv_load := l\<rparr>) = l" "tv_recall (env\<lparr>tv_load := l\<rparr>) = tv_recall env"
    "tv_digest (env\<lparr>tv_load := l\<rparr>) = tv_digest env" "tv_persist (env\<lparr>tv_load := l\<rparr>) = tv_persist env"
    "tv_decision_id (env\<lparr>tv_load := l\<rparr>) = tv_decision_id env" for l
    by (simp_all add: kernel_inputs_def)
  show ?thesis
    unfolding selectTools_def Let_def assms(1) and_then_simps same ev by (rule refl)
qed

theorem selection_confined_to_tenant_witness:
  "selectTools (sample_env\<lparr>tv_load := (tv_load sample_env)(toTenantScopeKey ''main'' ''acme'' ''default'' := \<lambda>n. [])\<rparr>)
      sample_request ''main'' ''default'' []
     = selectTools sample_env sample_request ''main'' ''default'' []"
proof -
  have "resolveTenantScope (sq_scope sample_request) (sq_tenant_id sample_request) ''main'' ''default''
      = Inr \<lparr>ts_tenant_id = ''default'', ts_scope = ''main'', ts_scope_key = ''main''\<rparr>" by code_simp
  moreover have "TENANT_ID_RE ''acme''" "\<not> js_starts_with ''main'' ''tenant:''" by code_simp+
  moreover have "''acme'' \<noteq> ts_tenant_id \<lparr>ts_tenant_id = ''default'', ts_scope = ''main'', ts_scope_key = ''main''\<rparr>"
    by simp
  ultimately show ?thesis by (metis selection_confined_to_tenant)
qed

section \<open>Tenants\<close>

text \<open>C24: scope keys separate tenants and scopes: two requests that resolve under the same default
  tenant share a key only if they have the same tenant and the same scope, and the key gives
  the scope back.\<close>

theorem scope_keys_separate:
  assumes "resolveTenantScope s1 t1 ds1 dt = Inr r1" "resolveTenantScope s2 t2 ds2 dt = Inr r2"
  shows "(ts_scope_key r1 = ts_scope_key r2
      \<longleftrightarrow> ts_tenant_id r1 = ts_tenant_id r2 \<and> ts_scope r1 = ts_scope r2)
    \<and> fromTenantScopeKey (ts_scope_key r1) (ts_tenant_id r1) dt = ts_scope r1"
proof -
  note a = resolveTenantScope_Inr [OF assms(1)] and b = resolveTenantScope_Inr [OF assms(2)]
  show ?thesis
    using toTenantScopeKey_inj [OF a(1) b(1) a(2) b(2), of dt] a(4) b(4) fromTenantScopeKey_to by metis
qed

theorem scope_keys_separate_witness:
  "fromTenantScopeKey ''tenant:acme::scope:main'' ''acme'' ''default'' = ''main''"
proof -
  have r: "resolveTenantScope (Some '' main '') (Some ''acme'') ''x'' ''default''
      = Inr \<lparr>ts_tenant_id = ''acme'', ts_scope = ''main'', ts_scope_key = ''tenant:acme::scope:main''\<rparr>" by code_simp
  from scope_keys_separate [OF r r] show ?thesis by simp
qed

section \<open>The evaluation of the rules\<close>

text \<open>No private rule leaks: every rule that evaluateRules lists, active or shadow, is a row of
  the tenant's own scope whose lane is shared or whose owner is the agent or the team of the
  context, whose target is the context, and whose condition holds while no exception does.\<close>

theorem listed_rules_are_visible:
  assumes "evaluateRules re loc scope t ds dt ctx sh limit load = Inr (er, active, shadow)"
    and "d \<in> set active \<union> set shadow"
  shows "\<exists>tenancy r. resolveTenantScope scope t ds dt = Inr tenancy
    \<and> r \<in> set (load (ts_scope_key tenancy) limit) \<and> dt_rule_node_id d = rw_rule_node_id r
    \<and> dt_state d = rw_state r \<and> visible_to ctx r \<and> scopeRuleMatchesContext r ctx
    \<and> ruleMatchesContext re (rw_if_json r) (rw_exceptions_json r) ctx"
proof -
  obtain tenancy where t: "resolveTenantScope scope t ds dt = Inr tenancy"
    and ac: "active = sort_by (dto_order loc) (map rule_dto_of
      (ev_active (evaluate_rows re ctx sh (load (ts_scope_key tenancy) limit))))"
    and shd: "shadow = sort_by (dto_order loc) (map rule_dto_of
      (ev_shadow (evaluate_rows re ctx sh (load (ts_scope_key tenancy) limit))))"
    using assms(1) by (auto simp: evaluateRules_def Let_def)
  from assms(2) obtain m where d: "d = rule_dto_of m" "\<exists>st. \<exists>r \<in> set (load (ts_scope_key tenancy) limit). match_of re ctx st r = Some m"
    unfolding ac shd set_sort_by set_map Un_iff image_iff using matched_row by metis
  then obtain st r where m: "d = rule_dto_of m" "r \<in> set (load (ts_scope_key tenancy) limit)"
    "match_of re ctx st r = Some m" by blast
  have f: "dt_rule_node_id d = rw_rule_node_id (mt_row m)" "dt_state d = rw_state (mt_row m)"
    by (simp_all add: m(1) rule_dto_of_def Let_def)
  have "takes_part re ctx r" "mt_row m = r" using match_of_row(1,2) [OF m(3)] by blast+
  then show ?thesis using t m(2) f unfolding takes_part_def by metis
qed

theorem listed_rules_are_visible_witness:
  "\<exists>er active d. evaluateRules (tv_re sample_env) (tv_loc sample_env) None None ''main'' ''default''
       (Some (JObj [])) False 50 (tv_load sample_env) = Inr (er, active, []) \<and> d \<in> set active
     \<and> visible_to (Some (JObj [])) sample_row"
proof -
  have env: "tv_load sample_env ''main'' 50 = [sample_row]" by (simp add: sample_env_def)
  have sh: "ev_shadow (evaluate_rows (tv_re sample_env) (Some (JObj [])) False [sample_row]) = []"
    by (simp add: evaluate_rows_lists)
  obtain er where e: "evaluateRules (tv_re sample_env) (tv_loc sample_env) None None ''main'' ''default''
       (Some (JObj [])) False 50 (tv_load sample_env) = Inr (er, [rule_dto_of sample_match], [])"
    by (simp add: evaluateRules_def sample_tenancy env sample_rows_match sh sort_by_def Let_def)
  from listed_rules_are_visible [OF e, of "rule_dto_of sample_match"]
  have "visible_to (Some (JObj [])) sample_row" by (auto simp: sample_tenancy env)
  with e show ?thesis by fastforce
qed

text \<open>Every row is accounted for: when the store lists active rows, and shadow rows only if
  they are asked for, the rows considered are those filtered by scope, lane and condition,
  those with an invalid patch, and those matched, each counted once; the sample of invalid
  patches holds at most five.\<close>

theorem rule_rows_accounted:
  assumes "evaluateRulesAppliedOnly re loc scope t dt ctx sh limit load = Inr er"
    and "\<forall>key n. \<forall>r \<in> set (load key n). rw_state r = ''active'' \<or> rw_state r = ''shadow'' \<and> sh"
  shows "er_considered er = ev_filtered_by_scope (er_evaluation er) + ev_filtered_by_lane (er_evaluation er)
      + ev_filtered_by_condition (er_evaluation er) + ev_skipped_invalid_then (er_evaluation er) + er_matched er
    \<and> length (ev_invalid_then_sample (er_evaluation er)) = min 5 (ev_skipped_invalid_then (er_evaluation er))"
proof -
  obtain tenancy :: tenant_scope where e: "er_evaluation er = evaluate_rows re ctx sh (load (ts_scope_key tenancy) limit)"
    "er_considered er = length (load (ts_scope_key tenancy) limit)"
    by (rule evaluateRulesAppliedOnly_Inr [OF assms(1)]) blast
  have m: "er_matched er = length (ev_active (er_evaluation er)) + length (ev_shadow (er_evaluation er))"
    using assms(1) by (auto simp: evaluateRulesAppliedOnly_def Let_def)
  have "counted (evaluate_rows re ctx sh (load (ts_scope_key tenancy) limit)) = length (load (ts_scope_key tenancy) limit)"
    using assms(2) by (intro rows_counted) blast
  then show ?thesis using rows_sample e m by (simp add: counted_def)
qed

theorem rule_rows_accounted_witness:
  "\<exists>er. evaluateRulesAppliedOnly (tv_re sample_env) (tv_loc sample_env) ''main'' None None (Some (JObj []))
       False 50 (tv_load sample_env) = Inr er \<and> er_considered er = 1 \<and> er_matched er = 1"
proof -
  have env: "tv_load sample_env ''main'' n = [sample_row]" for n by (simp add: sample_env_def)
  have t: "resolveTenantScope (Some ''main'') None ''main'' ''default''
     = Inr \<lparr>ts_tenant_id = ''default'', ts_scope = ''main'', ts_scope_key = ''main''\<rparr>" by code_simp
  have sh: "ev_shadow (evaluate_rows (tv_re sample_env) (Some (JObj [])) False [sample_row]) = []"
    by (simp add: evaluate_rows_lists)
  obtain er where er: "evaluateRulesAppliedOnly (tv_re sample_env) (tv_loc sample_env) ''main'' None None
      (Some (JObj [])) False 50 (tv_load sample_env) = Inr er" "er_considered er = 1" "er_matched er = 1"
    by (simp add: evaluateRulesAppliedOnly_def with_default_def t env sample_rows_match sh Let_def)
  have "\<forall>key n. \<forall>r \<in> set (tv_load sample_env key n). rw_state r = ''active'' \<or> rw_state r = ''shadow'' \<and> False"
    by (simp add: sample_env_def sample_row_def)
  from rule_rows_accounted [OF er(1) this] er show ?thesis by blast
qed

text \<open>C25: the rule of highest rank decides: among the matched rules of a channel, with whole scores
  and an ordering comparison of strings, an output setting has the value of the rule that
  outranks every other rule that makes it.\<close>

theorem highest_rank_decides:
  assumes "loc_order loc" "\<forall>n \<in> set ms. whole_score n"
    and "m \<in> set ms" "output_fields (mt_then_patch m) k = Some v"
    and "\<forall>n \<in> set ms. output_fields (mt_then_patch n) k \<noteq> None \<longrightarrow> n = m \<or> rank_of n < rank_of m"
  shows "policy_output (ac_policy (apply_channel loc st ms)) k = Some v"
  unfolding channel_output
proof (rule last_setting_greatest [OF merge_sorted [OF assms(1,2)], of m])
  show "m \<in> set (sort_by (merge_order loc) ms)" using assms(3) by simp
  show "output_fields (mt_then_patch m) k = Some v" by (rule assms(4))
  show "n = m \<or> \<not> whole_order loc m n"
    if "n \<in> set (sort_by (merge_order loc) ms)" "output_fields (mt_then_patch n) k \<noteq> None" for n
    using that assms(5) by (fastforce simp: whole_order_def)
qed

definition sample_format :: "output_format \<Rightarrow> int \<Rightarrow> matched_rule" where
  "sample_format f score =
     \<lparr>mt_row = sample_row,
      mt_rank = \<lparr>rm_score = Fin (of_int score), rm_evidence_score = Fin 0, rm_priority = Fin 0, rm_weight = Fin 1,
                 rm_specificity = 0, rm_condition_paths = []\<rparr>,
      mt_then_patch = \<lparr>pp_output = Some \<lparr>op_format = Some f, op_strict = None\<rparr>, pp_tool = None,
                      pp_extensions = None\<rparr>\<rparr>"

theorem highest_rank_decides_witness:
  "policy_output (ac_policy (apply_channel (tv_loc sample_env) ''active''
      [sample_format FormatText 5, sample_format FormatJson 3])) ''format'' = Some (JStr ''text'')"
proof (rule highest_rank_decides [where m = "sample_format FormatText 5"])
  show "loc_order (tv_loc sample_env)" by (auto simp: loc_order_def sample_env_def)
  show "\<forall>n \<in> set [sample_format FormatText 5, sample_format FormatJson 3]. whole_score n"
    by (simp add: whole_score_def sample_format_def)
qed (simp_all add: sample_format_def output_fields_def)

section \<open>Tool policies\<close>

text \<open>C26: the effective tool policy of matched rules: the deny lists are united, the allow lists are
  intersected (and there is one exactly when some rule has one), and the preferences are those
  of the rules in the order of their rank, without repetition.\<close>

theorem effective_tool_policy:
  "set (with_default (tp_deny (fst (computeEffectiveToolPolicy loc rules))) []) = (\<Union>r \<in> set rules. set (deny_of r))
   \<and> (tp_allow (fst (computeEffectiveToolPolicy loc rules)) = None \<longleftrightarrow> (\<forall>r \<in> set rules. allow_of r = []))
   \<and> (\<forall>al. tp_allow (fst (computeEffectiveToolPolicy loc rules)) = Some al \<longrightarrow>
        set al = {t. \<forall>r \<in> set rules. allow_of r \<noteq> [] \<longrightarrow> t \<in> set (allow_of r)})
   \<and> with_default (tp_prefer (fst (computeEffectiveToolPolicy loc rules))) []
     = dedupe (concat (map prefer_of (sort_by (rule_order loc) rules)))"
  using effective_deny effective_allow effective_prefer by simp

theorem effective_tool_policy_witness:
  "set (with_default (tp_deny (fst (computeEffectiveToolPolicy (tv_loc sample_env) [tool_rule_of sample_match]))) [])
     = {''shell''}"
  using effective_tool_policy [of "tv_loc sample_env" "[tool_rule_of sample_match]"]
  by (simp add: tool_rule_of_def sample_match_def sample_patch_def patch_list_def with_default_def uniq_def dedupe_def)

text \<open>A decision accounts for every candidate: the denied ones and the ordered ones together
  are the distinct candidates; the preferred tools that are allowed come first, in the order of
  preference, then the others in the order of the candidates; the first is selected, and under
  \<open>strict\<close> there is always one.\<close>

theorem decision_accounts_for_candidates:
  assumes "applyToolPolicy cs tool strict = Inr d"
  shows "mset (map fst (td_denied d)) + mset (td_ordered d) = mset (uniq cs)
    \<and> td_ordered d = filter (\<lambda>t. t \<in> set (td_allowed d)) (patch_list tp_prefer tool)
        @ filter (\<lambda>t. t \<notin> set (patch_list tp_prefer tool)) (td_allowed d)
    \<and> td_selected d = (if td_ordered d = [] then None else Some (hd (td_ordered d)))
    \<and> (strict \<longrightarrow> td_selected d \<noteq> None)"
proof -
  note r = applyToolPolicy_Inr [OF assms]
  have "td_ordered d = filter (\<lambda>t. t \<in> set (td_allowed d)) (patch_list tp_prefer tool)
        @ filter (\<lambda>t. t \<notin> set (patch_list tp_prefer tool)) (td_allowed d)"
    unfolding r(4) unfolding r(3) by (auto intro: filter_cong)
  moreover have "strict \<Longrightarrow> td_ordered d \<noteq> []"
    using r(6) ordered_permutation(2) [OF assms] by fastforce
  ultimately show ?thesis using accounted_candidates [OF assms] r(1,5) by (metis option.distinct(1))
qed

theorem decision_accounts_for_candidates_witness:
  "\<exists>d. applyToolPolicy [''grep'', ''rg''] (pp_tool sample_patch) True = Inr d \<and> td_selected d \<noteq> None"
proof -
  have "case applyToolPolicy [''grep'', ''rg''] (pp_tool sample_patch) True of Inr d \<Rightarrow> True | Inl _ \<Rightarrow> False"
    by code_simp
  then obtain d where d: "applyToolPolicy [''grep'', ''rg''] (pp_tool sample_patch) True = Inr d"
    by (auto split: sum.splits)
  from decision_accounts_for_candidates [OF d] d show ?thesis by blast
qed

text \<open>Rules whose allow lists have no tool in common restrict nothing: the empty intersection
  counts as no allow list, for a strict selection too.\<close>

theorem disjoint_allow_lists_restrict_nothing:
  assumes "r \<in> set rules" "q \<in> set rules" "allow_of r \<noteq> []" "allow_of q \<noteq> []"
    and "set (allow_of r) \<inter> set (allow_of q) = {}"
  shows "applyToolPolicy cs (Some (fst (computeEffectiveToolPolicy loc rules))) strict
    = applyToolPolicy cs (Some (fst (computeEffectiveToolPolicy loc rules)\<lparr>tp_allow := None\<rparr>)) strict"
proof -
  let ?tool = "fst (computeEffectiveToolPolicy loc rules)"
  obtain al where al: "tp_allow ?tool = Some al"
    using effective_allow(1) [of loc rules] assms(1,3) by auto
  have "set al = {}" unfolding effective_allow(2) [OF al] using assms by blast
  then have "?tool = \<lparr>tp_allow = Some [], tp_deny = tp_deny ?tool, tp_prefer = tp_prefer ?tool\<rparr>"
    using al by simp
  then show ?thesis
    using empty_allow_is_none [of cs "tp_deny ?tool" "tp_prefer ?tool" strict]
    by (metis tool_patch.update_convs(1))
qed

theorem disjoint_allow_lists_restrict_nothing_witness:
  "\<forall>strict. applyToolPolicy [''shell'', ''rg'']
      (Some (fst (computeEffectiveToolPolicy (tv_loc sample_env)
        [(tool_rule_of sample_match)\<lparr>tr_tool := Some \<lparr>tp_allow = Some [''a''], tp_deny = None, tp_prefer = None\<rparr>\<rparr>,
         (tool_rule_of sample_match)\<lparr>tr_tool := Some \<lparr>tp_allow = Some [''b''], tp_deny = None, tp_prefer = None\<rparr>\<rparr>])))
      strict
    = applyToolPolicy [''shell'', ''rg'']
      (Some (fst (computeEffectiveToolPolicy (tv_loc sample_env)
        [(tool_rule_of sample_match)\<lparr>tr_tool := Some \<lparr>tp_allow = Some [''a''], tp_deny = None, tp_prefer = None\<rparr>\<rparr>,
         (tool_rule_of sample_match)\<lparr>tr_tool := Some \<lparr>tp_allow = Some [''b''], tp_deny = None, tp_prefer = None\<rparr>\<rparr>])
       \<lparr>tp_allow := None\<rparr>)) strict"
proof -
  let ?r = "\<lambda>t. (tool_rule_of sample_match)\<lparr>tr_tool := Some \<lparr>tp_allow = Some [t], tp_deny = None, tp_prefer = None\<rparr>\<rparr>"
  have al: "patch_list tp_allow (Some \<lparr>tp_allow = Some [t], tp_deny = None, tp_prefer = None\<rparr>) = [t]"
    if "t \<noteq> []" for t
    using that by (simp add: patch_list_def with_default_def uniq_def dedupe_def)
  show ?thesis
    by (intro allI disjoint_allow_lists_restrict_nothing [of "?r ''a''" _ "?r ''b''"]) (simp_all add: al)
qed

text \<open>Reordering candidates by family, with the metadata of the same candidates, permutes them
  and leaves the family found at every place as it was.\<close>

theorem family_order_permutes:
  "mset (applyFamilyAwareOrdering cs (mapCandidatesToFamilies (buildToolRegistryIndex rs) cs) preferred) = mset cs
   \<and> (\<forall>j < length cs. tool_family (buildToolRegistryIndex rs)
        (applyFamilyAwareOrdering cs (mapCandidatesToFamilies (buildToolRegistryIndex rs) cs) preferred ! j)
      = tool_family (buildToolRegistryIndex rs) (cs ! j))"
  using applyFamilyAwareOrdering_ok [OF refl] .

theorem family_order_permutes_witness:
  "mset (applyFamilyAwareOrdering [''b'', ''a''] (mapCandidatesToFamilies (buildToolRegistryIndex []) [''b'', ''a'']) [])
     = {#''a'', ''b''#} \<and> (1::nat) < length [''b'', ''a'']"
  using family_order_permutes [of "[''b'', ''a'']" "[]" "[]"] by simp

section \<open>Conditions\<close>

text \<open>A pattern without operators matches a context exactly when the context extends it: it has
  every member the pattern names, with equal scalars, and for an array of the pattern an equal
  element for each of its elements.\<close>

theorem pattern_matches_extensions:
  assumes "plain_pattern p" "json c"
  shows "matchPattern re p (Some c) \<longleftrightarrow> extends p c"
  using assms by (rule match_plain)

theorem pattern_matches_extensions_witness:
  "matchPattern (\<lambda>_ _. None) (JObj [(''task'', JObj [(''kind'', JStr ''fix'')])])
     (Some (JObj [(''run'', JNull), (''task'', JObj [(''kind'', JStr ''fix''), (''n'', JBool True)])]))"
proof -
  have p: "plain_pattern (JObj [(''task'', JObj [(''kind'', JStr ''fix'')])])"
    "json (JObj [(''run'', JNull), (''task'', JObj [(''kind'', JStr ''fix''), (''n'', JBool True)])])" by code_simp+
  have "extends (JObj [(''task'', JObj [(''kind'', JStr ''fix'')])])
      (JObj [(''run'', JNull), (''task'', JObj [(''kind'', JStr ''fix''), (''n'', JBool True)])])"
    by (simp add: extends.simps)
  then show ?thesis using pattern_matches_extensions [OF p] by blast
qed

text \<open>The operators \<^verbatim>\<open>$and\<close>, \<^verbatim>\<open>$or\<close> and \<^verbatim>\<open>$not\<close> are the Boolean
  connectives, at any depth.\<close>

theorem operators_are_connectives:
  "matchPattern re (encode c) ctx \<longleftrightarrow> holds (\<lambda>p. matchPattern re p ctx) c"
  by (rule match_encode)

text \<open>On JSON values without NaN, the equality of the conditions is equality up to the order of
  the members of objects; so it is an equivalence.\<close>

theorem equality_up_to_member_order:
  assumes "json a" "nan_free a" "json b"
  shows "deepEqual a b \<longleftrightarrow> normal a = normal b"
  using assms by (rule deepEqual_normal)

theorem equality_up_to_member_order_witness:
  "deepEqual (JObj [(''a'', JNull), (''b'', JBool True)]) (JObj [(''b'', JBool True), (''a'', JNull)])"
proof -
  have "json (JObj [(''a'', JNull), (''b'', JBool True)])" "nan_free (JObj [(''a'', JNull), (''b'', JBool True)])"
    "json (JObj [(''b'', JBool True), (''a'', JNull)])" by code_simp+
  moreover have "sort [''a'', ''b''] = [''a'', ''b'']" "sort [''b'', ''a''] = [''a'', ''b'']" by code_simp+
  ultimately show ?thesis using equality_up_to_member_order by simp
qed

section \<open>Two places where the code misses its aim\<close>

text \<open>A quantified group inside a group, quantified again, passes as a safe expression.\<close>

theorem nested_quantifier_passes: "isSafeRegexPattern ''((a+))+$''"
  by code_simp

text \<open>selectTools orders the candidates by preference and then applies the family order with the
  places of the candidates before that: a preferred tool is lost and another doubled.\<close>

theorem family_order_after_preference:
  "let rec = (\<lambda>nm tier. \<lparr>tl_tool_name = nm, tl_capability_family = ''f'', tl_capability_tags = [],
       tl_quality_tier = tier,
       tl_status = ToolActive, tl_replacement_for = [], tl_replaced_by = []\<rparr>);
       index = buildToolRegistryIndex [rec ''a'' TierSupported, rec ''b'' TierPreferred];
       cs = [''a'', ''x'', ''b'']
   in applyFamilyAwareOrdering (prioritizeExplicitPreferred cs [''x'']) (mapCandidatesToFamilies index cs) [''x'']
      = [''b'', ''a'', ''a'']"
  by code_simp

end
