(* ===== verification/IpGuard.thy ===== *)
theory IpGuard
  imports JsValue "HOL-Library.Word"
begin

text \<open>
  Client addresses: src/src/util/ip-guard.ts.  Addresses are 32-bit words, as the shifts and
  masks of the code make them.  The lemmas give the meaning of a CIDR test (the addresses
  agree on their first bits) and show that a request can only choose its client address when
  it comes from a trusted proxy.
\<close>

unbundle bit_operations_syntax

section \<open>Parsing\<close>

definition find_char :: "char \<Rightarrow> string \<Rightarrow> nat option" where
  "find_char c s = (if c \<in> set s then Some (length (takeWhile (\<lambda>x. x \<noteq> c) s)) else None)"

text \<open>\<open>None\<close> is \<^verbatim>\<open>undefined\<close> or \<^verbatim>\<open>null\<close>.\<close>

definition normalizeIp :: "string option \<Rightarrow> string" where
  "normalizeIp input =
     (let r0 = js_lower (js_trim (case input of Some s \<Rightarrow> s | None \<Rightarrow> []))
      in if r0 = [] then []
         else
           (let r1 = (if js_starts_with r0 ''['' then
                        (case find_char (CHR '']'') r0 of
                           Some i \<Rightarrow> if 0 < i then js_slice r0 1 i else r0
                         | None \<Rightarrow> r0)
                      else r0);
                r2 = (if js_starts_with r1 ''::ffff:'' then drop 7 r1 else r1)
            in if CHR ''.'' \<in> set r2 \<and> CHR '':'' \<in> set r2 then hd (js_split (CHR '':'') r2) else r2))"

text \<open>
  A part of digits is its numeral: the rounding of \<^verbatim>\<open>Number\<close> starts above \<open>2 ^ 53\<close>,
  far from the bound 255.
\<close>

fun octets :: "string list \<Rightarrow> 32 word \<Rightarrow> 32 word option" where
  "octets [] out = Some out"
| "octets (p # ps) out =
     (if p = [] \<or> \<not> list_all is_digit p then None
      else if 255 < nat_of_digits 0 p then None
      else octets ps (push_bit 8 out OR of_nat (nat_of_digits 0 p)))"

definition parseIpv4Int :: "string \<Rightarrow> 32 word option" where
  "parseIpv4Int input =
     (let parts = js_split (CHR ''.'') (normalizeIp (Some input))
      in if length parts \<noteq> 4 then None else octets parts 0)"

section \<open>Tests\<close>

definition prefix_of :: "string list \<Rightarrow> jsnum" where
  "prefix_of parts = (case parts of _ # p # _ \<Rightarrow> js_number p | _ \<Rightarrow> NaN)"

definition cidr_mask :: "nat \<Rightarrow> 32 word" where
  "cidr_mask p = push_bit (32 - p) (- 1)"

definition isIpv4InCidr :: "string \<Rightarrow> string \<Rightarrow> bool" where
  "isIpv4InCidr ip cidr =
     (let parts = js_split (CHR ''/'') cidr
      in case (parseIpv4Int (hd parts), parseIpv4Int ip, prefix_of parts) of
           (Some base, Some ipInt, Fin q) \<Rightarrow>
             if q \<noteq> of_int \<lfloor>q\<rfloor> \<or> q < 0 \<or> 32 < q then False
             else if q = 0 then True
             else base AND cidr_mask (nat \<lfloor>q\<rfloor>) = ipInt AND cidr_mask (nat \<lfloor>q\<rfloor>)
         | _ \<Rightarrow> False)"

definition parseTrustedProxyCidrs :: "string \<Rightarrow> string list" where
  "parseTrustedProxyCidrs s =
     filter (\<lambda>v. v \<noteq> []) (map (\<lambda>v. normalizeIp (Some v)) (js_split (CHR '','') s))"

definition entry_allows :: "string \<Rightarrow> string \<Rightarrow> bool" where
  "entry_allows normalizedIp entryRaw =
     (let entry = normalizeIp (Some entryRaw)
      in if entry = [] then False
         else if CHR ''/'' \<in> set entry then isIpv4InCidr normalizedIp entry
         else entry = normalizedIp)"

definition ipAllowed :: "string \<Rightarrow> string list \<Rightarrow> bool" where
  "ipAllowed ip allowlist =
     (let n = normalizeIp (Some ip) in if n = [] then False else list_ex (entry_allows n) allowlist)"

definition header_value :: "jv option \<Rightarrow> string" where
  "header_value v =
     (case v of Some (JStr s) \<Rightarrow> s | Some (JArr (JStr s # _)) \<Rightarrow> s | _ \<Rightarrow> [])"

definition forwardedClientIp :: "jobj \<Rightarrow> string" where
  "forwardedClientIp headers =
     (let xffValue = header_value (obj_get headers ''x-forwarded-for'');
          ip = normalizeIp (Some (hd (js_split (CHR '','') xffValue)))
      in if js_trim xffValue \<noteq> [] \<and> ip \<noteq> [] then ip
         else normalizeIp (Some (header_value (obj_get headers ''x-real-ip''))))"

definition resolveTrustedClientIp :: "string option \<Rightarrow> jobj \<Rightarrow> string list \<Rightarrow> string" where
  "resolveTrustedClientIp remoteAddress headers trustedProxyCidrs =
     (let remoteIp = normalizeIp remoteAddress
      in if remoteIp = [] then []
         else if ipAllowed remoteIp trustedProxyCidrs \<and> forwardedClientIp headers \<noteq> []
         then forwardedClientIp headers
         else remoteIp)"

section \<open>Addresses\<close>

definition print_ip :: "nat \<Rightarrow> nat \<Rightarrow> nat \<Rightarrow> nat \<Rightarrow> string" where
  "print_ip a b c d = js_join ''.'' [dec_nat a, dec_nat b, dec_nat c, dec_nat d]"

definition ip_word :: "nat \<Rightarrow> nat \<Rightarrow> nat \<Rightarrow> nat \<Rightarrow> 32 word" where
  "ip_word a b c d = of_nat (((a * 256 + b) * 256 + c) * 256 + d)"

lemma lower_digit: "is_digit c \<Longrightarrow> lower_char c = c"
  by (auto simp: is_digit_def lower_char_def)

definition ip_char :: "char \<Rightarrow> bool" where
  "ip_char c \<longleftrightarrow> is_digit c \<or> c = CHR ''.''"

lemma ip_char_print: "list_all ip_char (print_ip a b c d)"
  using dec_nat_digits by (auto simp: print_ip_def list_all_iff ip_char_def)

lemma ip_char_facts:
  assumes "ip_char c"
  shows "\<not> is_ws c" "lower_char c = c" "c \<noteq> CHR '':''" "c \<noteq> CHR ''[''"
  using assms by (auto simp: ip_char_def digits_no_ws lower_digit is_digit_def is_ws_def lower_char_def)

lemma normalizeIp_plain:
  assumes "list_all ip_char s"
  shows "normalizeIp (Some s) = s"
proof (cases "s = []")
  case True
  then show ?thesis by (simp add: normalizeIp_def js_lower_def)
next
  case False
  have tr: "js_trim s = s"
    using assms False by (intro js_trim_id) (auto simp: trimmed_def list_all_iff ip_char_facts)
  have lo: "js_lower s = s"
    using assms by (auto simp: js_lower_def list_all_iff ip_char_facts intro!: map_idI)
  have hd: "hd s \<noteq> CHR ''[''" "hd s \<noteq> CHR '':''" "CHR '':'' \<notin> set s"
    using assms False ip_char_facts by (auto simp: list_all_iff)
  have "\<not> js_starts_with s ''[''" "\<not> js_starts_with s ''::ffff:''"
    using False hd by (cases s; simp add: js_starts_with_def)+
  then show ?thesis
    using False hd(3) unfolding normalizeIp_def option.case tr lo Let_def by simp
qed

lemma push_or_of_nat:
  assumes "n < 256"
  shows "push_bit 8 (of_nat m :: 32 word) OR of_nat n = of_nat (m * 256 + n)"
proof -
  have "push_bit 8 (of_nat m :: 32 word) AND of_nat n = 0"
  proof (rule bit_eqI)
    fix i
    have "\<not> bit n i" if "8 \<le> i"
    proof -
      have "n < 2 ^ i" using assms that power_increasing [of 8 i "2::nat"] by simp
      then show ?thesis by (simp add: bit_iff_odd)
    qed
    then show "bit (push_bit 8 (of_nat m :: 32 word) AND of_nat n) i \<longleftrightarrow> bit (0 :: 32 word) i"
      by (auto simp: bit_simps)
  qed
  then have "push_bit 8 (of_nat m :: 32 word) OR of_nat n = push_bit 8 (of_nat m) + of_nat n"
    by (simp add: disjunctive_add_eq_or)
  then show ?thesis by (simp add: push_bit_eq_mult)
qed

lemma octets_print:
  "n < 256 \<Longrightarrow> octets (dec_nat n # ps) (of_nat m) = octets ps (of_nat (m * 256 + n))"
  using dec_nat_digits [of _ n]
  by (simp add: list_all_iff nat_of_digits_dec_nat push_or_of_nat)

lemma parseIpv4Int_print:
  assumes "a < 256" "b < 256" "c < 256" "d < 256"
  shows "parseIpv4Int (print_ip a b c d) = Some (ip_word a b c d)"
proof -
  let ?xs = "[dec_nat a, dec_nat b, dec_nat c, dec_nat d]"
  have "\<forall>x \<in> set ?xs. CHR ''.'' \<notin> set x"
    using dec_nat_digits by (fastforce simp: is_digit_def)
  then have sp: "js_split (CHR ''.'') (print_ip a b c d) = ?xs"
    unfolding print_ip_def by (intro js_split_join) auto
  have "octets ?xs (of_nat 0) = Some (ip_word a b c d)"
    using assms by (simp only: octets_print octets.simps(1) ip_word_def) simp
  then show ?thesis
    by (simp add: parseIpv4Int_def normalizeIp_plain [OF ip_char_print] sp del: octets.simps)
qed

section \<open>CIDR blocks\<close>

text \<open>The first \<open>p\<close> bits of two addresses agree.\<close>

definition same_block :: "nat \<Rightarrow> 32 word \<Rightarrow> 32 word \<Rightarrow> bool" where
  "same_block p x y \<longleftrightarrow> drop_bit (32 - p) x = drop_bit (32 - p) y"

lemma mask_same_block:
  assumes "0 < p" "p \<le> 32"
  shows "x AND cidr_mask p = y AND cidr_mask p \<longleftrightarrow> same_block p x y"
proof -
  have bits: "bit (cidr_mask p) i \<longleftrightarrow> 32 - p \<le> i \<and> i < 32" for i
    by (auto simp: cidr_mask_def bit_simps)
  have "x AND cidr_mask p = y AND cidr_mask p \<longleftrightarrow>
      (\<forall>i < 32. 32 - p \<le> i \<longrightarrow> bit x i = bit y i)"
    unfolding bit_eq_iff by (auto simp: bit_simps bits dest: bit_imp_le_length)
  also have "\<dots> \<longleftrightarrow> drop_bit (32 - p) x = drop_bit (32 - p) y"
  proof
    assume h: "\<forall>i < 32. 32 - p \<le> i \<longrightarrow> bit x i = bit y i"
    show "drop_bit (32 - p) x = drop_bit (32 - p) y"
    proof (rule bit_eqI)
      fix n
      show "bit (drop_bit (32 - p) x) n = bit (drop_bit (32 - p) y) n"
        using h [rule_format, of "32 - p + n"] bit_imp_le_length [of x "32 - p + n"]
          bit_imp_le_length [of y "32 - p + n"]
        by (auto simp: bit_simps)
    qed
  next
    assume h: "drop_bit (32 - p) x = drop_bit (32 - p) y"
    show "\<forall>i < 32. 32 - p \<le> i \<longrightarrow> bit x i = bit y i"
    proof (intro allI impI)
      fix i assume "i < 32" "32 - p \<le> i"
      then show "bit x i = bit y i"
        using arg_cong [OF h, of "\<lambda>w. bit w (i - (32 - p))"] by (simp add: bit_simps)
    qed
  qed
  finally show ?thesis by (simp add: same_block_def)
qed

lemma isIpv4InCidr_iff:
  "isIpv4InCidr ip cidr \<longleftrightarrow>
     (\<exists>base ipInt p. parseIpv4Int (hd (js_split (CHR ''/'') cidr)) = Some base
        \<and> parseIpv4Int ip = Some ipInt \<and> prefix_of (js_split (CHR ''/'') cidr) = Fin (of_nat p)
        \<and> p \<le> 32 \<and> same_block p base ipInt)"
proof -
  have nat: "(q = of_int \<lfloor>q\<rfloor> \<and> 0 \<le> q \<and> q \<le> 32) \<longleftrightarrow> (\<exists>p \<le> 32. q = of_nat p)" for q :: rat
  proof
    assume q: "q = of_int \<lfloor>q\<rfloor> \<and> 0 \<le> q \<and> q \<le> 32"
    then have "0 \<le> \<lfloor>q\<rfloor>" by simp
    have "of_int \<lfloor>q\<rfloor> \<le> (of_int 32 :: rat)" using q by simp
    then have "\<lfloor>q\<rfloor> \<le> 32" by (simp only: of_int_le_iff)
    then have "q = of_nat (nat \<lfloor>q\<rfloor>)" "nat \<lfloor>q\<rfloor> \<le> 32" using q \<open>0 \<le> \<lfloor>q\<rfloor>\<close> by (simp_all only: of_nat_nat)
    then show "\<exists>p \<le> 32. q = of_nat p" by blast
  qed auto
  have zero: "same_block 0 x y" for x y
    by (simp add: same_block_def drop_bit_word_beyond)
  have fin: "(if q \<noteq> of_int \<lfloor>q\<rfloor> \<or> q < 0 \<or> 32 < q then False
        else if q = 0 then True
        else x AND cidr_mask (nat \<lfloor>q\<rfloor>) = y AND cidr_mask (nat \<lfloor>q\<rfloor>))
      \<longleftrightarrow> (\<exists>p \<le> 32. q = of_nat p \<and> same_block p x y)" for q :: rat and x y
  proof (cases "\<exists>p \<le> 32. q = of_nat p")
    case True
    then obtain p where p: "p \<le> 32" "q = of_nat p" by blast
    then show ?thesis
      using mask_same_block [of p x y] zero [of x y] by (cases "p = 0") auto
  next
    case False
    then have "q \<noteq> of_int \<lfloor>q\<rfloor> \<or> q < 0 \<or> 32 < q" using nat [of q] by auto
    with False show ?thesis by auto
  qed
  show ?thesis
  proof (cases "parseIpv4Int (hd (js_split (CHR ''/'') cidr)) = None \<or> parseIpv4Int ip = None")
    case True
    then show ?thesis by (auto simp: isIpv4InCidr_def Let_def split: option.splits)
  next
    case False
    then obtain base ipInt where bi: "parseIpv4Int (hd (js_split (CHR ''/'') cidr)) = Some base"
      "parseIpv4Int ip = Some ipInt" by auto
    show ?thesis
    proof (cases "prefix_of (js_split (CHR ''/'') cidr)")
      case (Fin q)
      then show ?thesis
        using fin [of q base ipInt] unfolding isIpv4InCidr_def Let_def bi by auto
    qed (simp_all add: isIpv4InCidr_def Let_def bi)
  qed
qed

section \<open>Trust\<close>

lemma untrusted_headers_ignored:
  "\<not> ipAllowed (normalizeIp remote) trusted \<Longrightarrow> resolveTrustedClientIp remote headers trusted = normalizeIp remote"
  by (simp add: resolveTrustedClientIp_def Let_def)

end
