(* ===== verification/LruCache.thy ===== *)
theory LruCache
  imports JsMap StateMachine
begin

text \<open>
  The LRU cache with expiry: src/src/util/lru_ttl_cache.ts.  The \<open>Map\<close> of the code keeps the
  entries in order of last use, because a hit and a write delete the key before they set it.
  The lemmas give the order after each operation, the bound on the size, and how long a
  written entry survives: until it expires or as many other keys as the cache holds entries
  have been used.
\<close>

record 'v cache_entry =
  ent_value :: 'v
  ent_expiresAtMs :: int

record ('k, 'v) lru =
  lru_maxEntries :: nat
  lru_ttlMs :: int
  lru_map :: "('k, 'v cache_entry) js_map"

section \<open>Operations\<close>

definition lru_new :: "int \<Rightarrow> int \<Rightarrow> ('k, 'v) lru" where
  "lru_new maxEntries ttlMs =
     \<lparr>lru_maxEntries = nat (max 1 maxEntries), lru_ttlMs = max 1000 ttlMs, lru_map = []\<rparr>"

definition lru_get :: "'k \<Rightarrow> int \<Rightarrow> ('k, 'v) lru \<Rightarrow> 'v option \<times> ('k, 'v) lru" where
  "lru_get k nowMs c =
     (case map_get (lru_map c) k of
        None \<Rightarrow> (None, c)
      | Some hit \<Rightarrow>
          if ent_expiresAtMs hit \<le> nowMs
          then (None, c\<lparr>lru_map := map_delete k (lru_map c)\<rparr>)
          else (Some (ent_value hit), c\<lparr>lru_map := map_set k hit (map_delete k (lru_map c))\<rparr>))"

function evict :: "nat \<Rightarrow> ('k, 'v) js_map \<Rightarrow> ('k, 'v) js_map" where
  "evict n [] = []"
| "evict n (e # m) = (if n < length (e # m) then evict n (map_delete (fst e) (e # m)) else e # m)"
  by pat_completeness auto
termination
  by (relation "measure (\<lambda>(n, m). length m)") (auto simp: map_delete_def le_imp_less_Suc)

declare evict.simps(2) [simp del]

definition lru_set :: "'k \<Rightarrow> 'v \<Rightarrow> int \<Rightarrow> ('k, 'v) lru \<Rightarrow> ('k, 'v) lru" where
  "lru_set k v nowMs c =
     (let e = \<lparr>ent_value = v, ent_expiresAtMs = nowMs + lru_ttlMs c\<rparr>;
          m = (if map_has (lru_map c) k then map_delete k (lru_map c) else lru_map c)
      in c\<lparr>lru_map := evict (lru_maxEntries c) (map_set k e m)\<rparr>)"

definition lru_size :: "('k, 'v) lru \<Rightarrow> nat" where
  "lru_size c = length (lru_map c)"

section \<open>Eviction\<close>

lemma evict_drop: "distinct (keys m) \<Longrightarrow> evict n m = drop (length m - n) m"
proof (induction n m rule: evict.induct)
  case (2 n e m)
  show ?case
  proof (cases "n < length (e # m)")
    case True
    have "map_delete (fst e) (e # m) = m"
      using "2.prems" by (auto simp: map_delete_def filter_id_conv image_iff)
    then show ?thesis
      using 2 True by (simp add: evict.simps Suc_diff_le)
  next
    case False
    then show ?thesis by (simp add: evict.simps)
  qed
qed simp

lemma keys_evict: "distinct (keys m) \<Longrightarrow> keys (evict n m) = drop (length (keys m) - n) (keys m)"
  by (simp add: evict_drop drop_map)

lemma map_delete_missing: "\<not> map_has m k \<Longrightarrow> map_delete k m = m"
  by (auto simp: map_delete_def map_has_keys filter_id_conv)

definition lru_keys :: "('k, 'v) lru \<Rightarrow> 'k list" where
  "lru_keys c = keys (lru_map c)"

definition lru_inv :: "('k, 'v) lru \<Rightarrow> bool" where
  "lru_inv c \<longleftrightarrow>
     distinct (lru_keys c) \<and> length (lru_keys c) \<le> lru_maxEntries c \<and> 1 \<le> lru_maxEntries c"

lemma lru_set_map:
  "lru_map (lru_set k v now c)
    = evict (lru_maxEntries c)
        (map_set k \<lparr>ent_value = v, ent_expiresAtMs = now + lru_ttlMs c\<rparr> (map_delete k (lru_map c)))"
  by (simp add: lru_set_def Let_def map_delete_missing)

lemma lru_set_frame [simp]:
  "lru_maxEntries (lru_set k v now c) = lru_maxEntries c" "lru_ttlMs (lru_set k v now c) = lru_ttlMs c"
  by (simp_all add: lru_set_def Let_def)

lemma lru_get_frame [simp]:
  "lru_maxEntries (snd (lru_get k now c)) = lru_maxEntries c"
  "lru_ttlMs (snd (lru_get k now c)) = lru_ttlMs c"
  by (auto simp: lru_get_def split: option.splits)

text \<open>The order of use after a write: the key moves to the end and the oldest keys go.\<close>

lemma lru_keys_set:
  assumes "distinct (lru_keys c)"
  shows "lru_keys (lru_set k v now c)
    = (let ks = filter (\<lambda>x. x \<noteq> k) (lru_keys c) @ [k] in drop (length ks - lru_maxEntries c) ks)"
proof -
  let ?e = "\<lparr>ent_value = v, ent_expiresAtMs = now + lru_ttlMs c\<rparr>"
  have ks: "keys (map_set k ?e (map_delete k (lru_map c))) = filter (\<lambda>x. x \<noteq> k) (lru_keys c) @ [k]"
    unfolding lru_keys_def by (rule js_map.order_bump)
  moreover have "distinct (keys (map_set k ?e (map_delete k (lru_map c))))"
    using assms unfolding ks by simp
  ultimately show ?thesis
    by (simp add: lru_keys_def [of "lru_set k v now c"] lru_set_map keys_evict Let_def)
qed

lemma lru_keys_get:
  "lru_keys (snd (lru_get k now c)) =
     (case map_get (lru_map c) k of
        None \<Rightarrow> lru_keys c
      | Some e \<Rightarrow> filter (\<lambda>x. x \<noteq> k) (lru_keys c) @ (if ent_expiresAtMs e \<le> now then [] else [k]))"
  unfolding lru_keys_def
  by (auto simp: lru_get_def js_map.order_bump js_map.order_del split: option.splits)

lemma lru_keys_present: "k \<in> set (lru_keys c) \<longleftrightarrow> map_get (lru_map c) k \<noteq> None"
  unfolding lru_keys_def by (rule js_map.order_get)

lemma lru_get_inv:
  assumes "lru_inv c"
  shows "lru_inv (snd (lru_get k now c))"
proof -
  have "length (filter (\<lambda>x. x \<noteq> k) (lru_keys c)) < length (lru_keys c)" if "map_get (lru_map c) k \<noteq> None"
    using that lru_keys_present [of k c] by (intro length_filter_less) auto
  then show ?thesis
    using assms by (auto simp: lru_inv_def lru_keys_get split: option.splits)
qed

lemma lru_set_inv: "lru_inv c \<Longrightarrow> lru_inv (lru_set k v now c)"
  by (auto simp: lru_inv_def lru_keys_set Let_def dest: in_set_dropD)

section \<open>The cache as a state machine\<close>

datatype ('k, 'v) cache_op = OpGet 'k int | OpSet 'k 'v int

fun run_op :: "('k, 'v) lru \<Rightarrow> ('k, 'v) cache_op \<Rightarrow> ('k, 'v) lru" where
  "run_op c (OpGet k now) = snd (lru_get k now c)"
| "run_op c (OpSet k v now) = lru_set k v now c"

fun op_key :: "('k, 'v) cache_op \<Rightarrow> 'k" where
  "op_key (OpGet k now) = k"
| "op_key (OpSet k v now) = k"

interpretation lru: invariant_system "\<lambda>c. \<exists>m t. c = lru_new m t" "\<lambda>c d. \<exists>p. d = run_op c p" lru_inv
proof unfold_locales
  fix c :: "('a, 'b) lru"
  show "\<exists>m t. c = lru_new m t \<Longrightarrow> lru_inv c"
    by (auto simp: lru_inv_def lru_new_def lru_keys_def)
next
  fix c d :: "('a, 'b) lru"
  assume "lru_inv c" "\<exists>p. d = run_op c p"
  then obtain p where "d = run_op c p" by blast
  with \<open>lru_inv c\<close> show "lru_inv d" by (cases p) (auto intro: lru_get_inv lru_set_inv)
qed

lemma lru_run_inv: "lru_inv c \<Longrightarrow> lru_inv (foldl run_op c ops)"
proof (induction ops arbitrary: c)
  case (Cons p ops)
  have "lru_inv (run_op c p)" using Cons.prems lru.inv_step by blast
  then show ?case using Cons.IH by simp
qed simp

section \<open>Retention\<close>

text \<open>The key holds the entry and the keys used after it are in \<open>T\<close>.\<close>

definition held :: "'k \<Rightarrow> 'v cache_entry \<Rightarrow> 'k set \<Rightarrow> ('k, 'v) lru \<Rightarrow> bool" where
  "held k e T c \<longleftrightarrow>
     map_get (lru_map c) k = Some e \<and> (\<exists>xs ys. lru_keys c = xs @ k # ys \<and> set ys \<subseteq> T)"

lemma map_get_evict:
  assumes "distinct (keys m)" "k \<in> set (keys (evict n m))"
  shows "map_get (evict n m) k = map_get m k"
proof -
  let ?i = "length m - n"
  have m: "m = take ?i m @ drop ?i m" by simp
  have "k \<notin> set (keys (take ?i m))"
  proof
    assume a: "k \<in> set (keys (take ?i m))"
    have "distinct (keys (take ?i m) @ keys (drop ?i m))"
      using assms(1) by (metis m map_append)
    with a assms show False by (auto simp: evict_drop)
  qed
  then have "map_of (take ?i m) k = None" by (simp add: map_of_eq_None_iff)
  then have "map_of m k = map_of (drop ?i m) k"
    using map_of_append [of "take ?i m" "drop ?i m"]
    by (simp add: map_add_def split: option.splits)
  then show ?thesis using assms(1) by (simp add: map_get_def evict_drop)
qed

lemma held_get:
  assumes "held k e T c" "lru_inv c" "j = k \<longrightarrow> now < ent_expiresAtMs e"
  shows "held k e (insert j T) (snd (lru_get j now c))"
proof -
  from assms(1) obtain xs ys where ks: "lru_keys c = xs @ k # ys" "set ys \<subseteq> T"
    and e: "map_get (lru_map c) k = Some e" by (auto simp: held_def)
  have e': "map_get (lru_map (snd (lru_get j now c))) k = Some e"
    using e assms(3) by (auto simp: lru_get_def js_map.get_bump js_map.get_del split: option.splits)
  show ?thesis
  proof (cases "j = k")
    case True
    then have "lru_keys (snd (lru_get j now c)) = filter (\<lambda>x. x \<noteq> k) (lru_keys c) @ k # []"
      using e assms(3) by (simp add: lru_keys_get)
    then show ?thesis using e' unfolding held_def by (metis empty_set empty_subsetI)
  next
    case False
    let ?f = "filter (\<lambda>x. x \<noteq> j)"
    have f: "?f (xs @ k # ys) = ?f xs @ k # ?f ys" using False by simp
    have "\<exists>xs ys. lru_keys (snd (lru_get j now c)) = xs @ k # ys \<and> set ys \<subseteq> insert j T"
    proof (cases "map_get (lru_map c) j")
      case None
      then show ?thesis using ks by (auto simp: lru_keys_get intro!: exI)
    next
      case (Some d)
      show ?thesis
        by (rule exI [of _ "?f xs"], rule exI [of _ "?f ys @ (if ent_expiresAtMs d \<le> now then [] else [j])"])
          (use False ks(2) in \<open>auto simp: lru_keys_get Some ks(1)\<close>)
    qed
    with e' show ?thesis by (simp add: held_def)
  qed
qed

lemma held_set:
  assumes "held k e T c" "lru_inv c" "j \<noteq> k" "finite T" "k \<notin> T" "card (insert j T) < lru_maxEntries c"
  shows "held k e (insert j T) (lru_set j v now c)"
proof -
  from assms(1) obtain xs ys where ks: "lru_keys c = xs @ k # ys" "set ys \<subseteq> T"
    and e: "map_get (lru_map c) k = Some e" by (auto simp: held_def)
  have d: "distinct (lru_keys c)" using assms(2) by (simp add: lru_inv_def)
  let ?f = "filter (\<lambda>x. x \<noteq> j)" and ?n = "lru_maxEntries c"
  let ?ks = "?f xs @ k # ?f ys @ [j]"
  have keys: "lru_keys (lru_set j v now c) = drop (length ?ks - ?n) ?ks"
    using assms(3) by (simp add: lru_keys_set [OF d] ks(1) Let_def)
  have "distinct (?f ys @ [j])" using d ks(1) by auto
  then have "length (?f ys @ [j]) = card (set (?f ys @ [j]))" by (metis distinct_card)
  also have "\<dots> \<le> card (insert j T)"
    using ks(2) assms(4) by (intro card_mono) auto
  finally have "length (k # ?f ys @ [j]) \<le> ?n" using assms(6) by simp
  then have "length ?ks - ?n \<le> length (?f xs)" by simp
  then have keys': "lru_keys (lru_set j v now c) = drop (length ?ks - ?n) (?f xs) @ k # ?f ys @ [j]"
    by (simp add: keys)
  let ?m = "map_set j \<lparr>ent_value = v, ent_expiresAtMs = now + lru_ttlMs c\<rparr> (map_delete j (lru_map c))"
  have dm: "distinct (keys ?m)" using d by (simp add: lru_keys_def distinct_map_set distinct_map_delete)
  have "k \<in> set (keys (evict ?n ?m))" using keys' by (simp add: lru_keys_def lru_set_map)
  then have "map_get (lru_map (lru_set j v now c)) k = Some e"
    using map_get_evict [OF dm] e assms(3) by (simp add: lru_set_map js_map.get_bump)
  with keys' ks(2) show ?thesis unfolding held_def by (auto intro!: exI)
qed

lemma held_after_set:
  assumes "lru_inv c"
  shows "held k \<lparr>ent_value = v, ent_expiresAtMs = now + lru_ttlMs c\<rparr> {} (lru_set k v now c)"
proof -
  have d: "distinct (lru_keys c)" and n: "1 \<le> lru_maxEntries c" using assms by (auto simp: lru_inv_def)
  let ?f = "filter (\<lambda>x. x \<noteq> k) (lru_keys c)"
  have keys: "lru_keys (lru_set k v now c) = drop (length (?f @ [k]) - lru_maxEntries c) ?f @ k # []"
    using n by (simp add: lru_keys_set [OF d] Let_def)
  let ?m = "map_set k \<lparr>ent_value = v, ent_expiresAtMs = now + lru_ttlMs c\<rparr> (map_delete k (lru_map c))"
  have dm: "distinct (keys ?m)" using d by (simp add: lru_keys_def distinct_map_set distinct_map_delete)
  have "k \<in> set (keys (evict (lru_maxEntries c) ?m))"
    using keys by (simp add: lru_keys_def lru_set_map)
  then have "map_get (lru_map (lru_set k v now c)) k = Some \<lparr>ent_value = v, ent_expiresAtMs = now + lru_ttlMs c\<rparr>"
    using map_get_evict [OF dm] by (simp add: lru_set_map js_map.get_put)
  with keys show ?thesis unfolding held_def by auto
qed

text \<open>Operations that keep an entry: no write of its key, no read of it after it expired.\<close>

definition keeps :: "'k \<Rightarrow> int \<Rightarrow> ('k, 'v) cache_op \<Rightarrow> bool" where
  "keeps k expiry p = (case p of OpGet j now \<Rightarrow> j = k \<longrightarrow> now < expiry | OpSet j v now \<Rightarrow> j \<noteq> k)"

definition others :: "'k \<Rightarrow> ('k, 'v) cache_op list \<Rightarrow> 'k set" where
  "others k ops = op_key ` set ops - {k}"

lemma held_run:
  assumes "held k e T c" "lru_inv c" "finite T" "k \<notin> T"
    and "\<forall>p \<in> set ops. keeps k (ent_expiresAtMs e) p" "card (T \<union> others k ops) < lru_maxEntries c"
  shows "held k e (T \<union> others k ops) (foldl run_op c ops)"
  using assms
proof (induction ops arbitrary: T c)
  case Nil
  then show ?case by (simp add: others_def)
next
  case (Cons p ops)
  let ?T = "T \<union> others k [p]"
  have sub: "T \<union> others k (p # ops) = ?T \<union> others k ops" by (auto simp: others_def)
  have fin: "finite ?T" "k \<notin> ?T" using Cons.prems(3,4) by (auto simp: others_def)
  have "card ?T \<le> card (T \<union> others k (p # ops))"
    using Cons.prems(3) by (intro card_mono) (auto simp: others_def)
  then have card: "card ?T < lru_maxEntries c" using Cons.prems(6) by simp
  have h: "held k e ?T (run_op c p)"
  proof (cases p)
    case (OpGet j now)
    have "held k e (insert j T) (snd (lru_get j now c))"
      using Cons.prems OpGet by (intro held_get) (auto simp: keeps_def)
    moreover have "held k e T (snd (lru_get k now c))" if "j = k"
    proof -
      have "map_get (lru_map c) k = Some e" "now < ent_expiresAtMs e"
        using Cons.prems OpGet that by (auto simp: held_def keeps_def)
      then have "lru_keys (snd (lru_get k now c)) = filter (\<lambda>x. x \<noteq> k) (lru_keys c) @ k # []"
        "map_get (lru_map (snd (lru_get k now c))) k = Some e"
        by (simp_all add: lru_keys_get) (simp add: lru_get_def js_map.get_bump)
      then show ?thesis unfolding held_def by (metis empty_set empty_subsetI)
    qed
    ultimately show ?thesis using OpGet by (cases "j = k") (auto simp: others_def)
  next
    case (OpSet j v now)
    then have "j \<noteq> k" using Cons.prems(5) by (auto simp: keeps_def)
    then have "?T = insert j T" using OpSet by (auto simp: others_def)
    then show ?thesis
      using held_set [of k e T c j v now] Cons.prems OpSet \<open>j \<noteq> k\<close> card by simp
  qed
  have "lru_inv (run_op c p)" using Cons.prems(2) lru.inv_step by blast
  moreover have "lru_maxEntries (run_op c p) = lru_maxEntries c" by (cases p) auto
  ultimately show ?case
    using Cons.IH [OF h _ fin] Cons.prems(5,6) by (simp add: sub)
qed

end
