(* ===== verification/InflightGate.thy ===== *)
theory InflightGate
  imports StateMachine
begin

text \<open>
  The admission gate: src/src/util/inflight_gate.ts.  Calls of \<open>acquire\<close> are numbered; the
  ledger \<open>ga_outcomes\<close> records how each promise settles and \<open>ga_released\<close> the tokens whose
  \<open>released\<close> flag is set.  A timer is armed exactly while its waiter is queued, because
  \<open>releaseSlot\<close> clears it before it resolves the waiter.  The invariant says that the counter
  is the number of tokens out, that nobody waits while a slot is free, and that every call is
  either waiting or settled, never twice.
\<close>

datatype gate_outcome =
    Granted int          \<comment> \<open>a token, with its wait in milliseconds\<close>
  | QueueFull
  | QueueTimeout int

record waiter =
  wt_id :: nat
  wt_enqueuedAtMs :: int

record gate =
  ga_maxInflight :: nat
  ga_maxQueue :: nat
  ga_queueTimeoutMs :: nat
  ga_inflight :: nat
  ga_queue :: "waiter list"
  ga_next :: nat
  ga_outcomes :: "(nat \<times> gate_outcome) list"
  ga_released :: "nat list"

section \<open>Operations\<close>

definition gate_new :: "int \<Rightarrow> int \<Rightarrow> int \<Rightarrow> gate" where
  "gate_new maxInflight maxQueue queueTimeoutMs =
     \<lparr>ga_maxInflight = nat (max 1 maxInflight), ga_maxQueue = nat (max 0 maxQueue),
      ga_queueTimeoutMs = nat (max 1 queueTimeoutMs), ga_inflight = 0, ga_queue = [],
      ga_next = 0, ga_outcomes = [], ga_released = []\<rparr>"

definition gate_settle :: "nat \<Rightarrow> gate_outcome \<Rightarrow> gate \<Rightarrow> gate" where
  "gate_settle i out g = g\<lparr>ga_outcomes := ga_outcomes g @ [(i, out)]\<rparr>"

definition gate_acquire :: "int \<Rightarrow> gate \<Rightarrow> gate" where
  "gate_acquire nowMs g =
     (let i = ga_next g; g1 = g\<lparr>ga_next := Suc i\<rparr>
      in if ga_inflight g < ga_maxInflight g then
           gate_settle i (Granted 0) (g1\<lparr>ga_inflight := ga_inflight g + 1\<rparr>)
         else if ga_maxQueue g \<le> length (ga_queue g) then gate_settle i QueueFull g1
         else g1\<lparr>ga_queue := ga_queue g @ [\<lparr>wt_id = i, wt_enqueuedAtMs = nowMs\<rparr>]\<rparr>)"

text \<open>The callback of the timer a queued waiter has armed.\<close>

definition gate_timeout :: "waiter \<Rightarrow> int \<Rightarrow> gate \<Rightarrow> gate" where
  "gate_timeout w nowMs g =
     gate_settle (wt_id w) (QueueTimeout (nowMs - wt_enqueuedAtMs w))
       (g\<lparr>ga_queue := filter (\<lambda>x. wt_id x \<noteq> wt_id w) (ga_queue g)\<rparr>)"

definition gate_releaseSlot :: "int \<Rightarrow> gate \<Rightarrow> gate" where
  "gate_releaseSlot nowMs g =
     (case ga_queue g of
        nxt # rest \<Rightarrow>
          gate_settle (wt_id nxt) (Granted (nowMs - wt_enqueuedAtMs nxt)) (g\<lparr>ga_queue := rest\<rparr>)
      | [] \<Rightarrow> g\<lparr>ga_inflight := ga_inflight g - 1\<rparr>)"

text \<open>\<^verbatim>\<open>token.release()\<close>, for the token of call \<open>i\<close>.\<close>

definition gate_release :: "nat \<Rightarrow> int \<Rightarrow> gate \<Rightarrow> gate" where
  "gate_release i nowMs g =
     (if i \<in> set (ga_released g) then g
      else gate_releaseSlot nowMs (g\<lparr>ga_released := i # ga_released g\<rparr>))"

section \<open>Who holds a token\<close>

definition is_granted :: "gate_outcome \<Rightarrow> bool" where
  "is_granted out = (case out of Granted _ \<Rightarrow> True | _ \<Rightarrow> False)"

definition granted :: "gate \<Rightarrow> nat list" where
  "granted g = map fst (filter (\<lambda>e. is_granted (snd e)) (ga_outcomes g))"

definition held_tokens :: "gate \<Rightarrow> nat list" where
  "held_tokens g = filter (\<lambda>i. i \<notin> set (ga_released g)) (granted g)"

definition settled :: "gate \<Rightarrow> nat list" where
  "settled g = map fst (ga_outcomes g)"

definition waiting :: "gate \<Rightarrow> nat list" where
  "waiting g = map wt_id (ga_queue g)"

definition gate_inv :: "gate \<Rightarrow> bool" where
  "gate_inv g \<longleftrightarrow>
     1 \<le> ga_maxInflight g
     \<and> ga_inflight g = length (held_tokens g)
     \<and> ga_inflight g \<le> ga_maxInflight g
     \<and> length (ga_queue g) \<le> ga_maxQueue g
     \<and> (ga_queue g \<noteq> [] \<longrightarrow> ga_inflight g = ga_maxInflight g)
     \<and> distinct (settled g @ waiting g)
     \<and> set (settled g @ waiting g) = {..<ga_next g}
     \<and> set (ga_released g) \<subseteq> set (granted g)"

inductive gate_step :: "gate \<Rightarrow> gate \<Rightarrow> bool" where
  acquire: "gate_step g (gate_acquire nowMs g)"
| timeout: "w \<in> set (ga_queue g) \<Longrightarrow> gate_step g (gate_timeout w nowMs g)"
| release: "i \<in> set (granted g) \<Longrightarrow> gate_step g (gate_release i nowMs g)"

inductive_cases gate_stepE: "gate_step g g'"

section \<open>The invariant\<close>

lemma granted_settle [simp]:
  "granted (gate_settle i out g) = granted g @ (if is_granted out then [i] else [])"
  by (simp add: granted_def gate_settle_def)

lemma settled_settle [simp]: "settled (gate_settle i out g) = settled g @ [i]"
  by (simp add: settled_def gate_settle_def)

lemma settle_frame [simp]:
  "ga_inflight (gate_settle i out g) = ga_inflight g" "ga_queue (gate_settle i out g) = ga_queue g"
  "ga_next (gate_settle i out g) = ga_next g" "ga_released (gate_settle i out g) = ga_released g"
  "ga_maxInflight (gate_settle i out g) = ga_maxInflight g"
  "ga_maxQueue (gate_settle i out g) = ga_maxQueue g" "waiting (gate_settle i out g) = waiting g"
  by (simp_all add: gate_settle_def waiting_def)

lemma is_granted_simps [simp]:
  "is_granted (Granted n)" "\<not> is_granted QueueFull" "\<not> is_granted (QueueTimeout n)"
  by (simp_all add: is_granted_def)

lemma granted_settled: "set (granted g) \<subseteq> set (settled g)"
  by (auto simp: granted_def settled_def)

lemma distinct_granted: "distinct (settled g) \<Longrightarrow> distinct (granted g)"
  unfolding granted_def settled_def by (rule distinct_map_filter)

lemma gate_frame [simp]:
  "granted (g\<lparr>ga_inflight := n\<rparr>) = granted g" "granted (g\<lparr>ga_queue := q\<rparr>) = granted g"
  "granted (g\<lparr>ga_next := k\<rparr>) = granted g" "granted (g\<lparr>ga_released := r\<rparr>) = granted g"
  "settled (g\<lparr>ga_inflight := n\<rparr>) = settled g" "settled (g\<lparr>ga_queue := q\<rparr>) = settled g"
  "settled (g\<lparr>ga_next := k\<rparr>) = settled g" "settled (g\<lparr>ga_released := r\<rparr>) = settled g"
  by (simp_all add: granted_def settled_def)

lemma fresh_not_released:
  assumes "gate_inv g" "i \<notin> set (settled g)"
  shows "i \<notin> set (ga_released g)"
  using assms granted_settled [of g] by (auto simp: gate_inv_def)

lemma gate_acquire_inv:
  assumes "gate_inv g"
  shows "gate_inv (gate_acquire nowMs g)"
proof -
  have new: "ga_next g \<notin> set (settled g)" "ga_next g \<notin> set (waiting g)"
    using assms unfolding gate_inv_def by (metis UnI1 UnI2 lessThan_iff less_irrefl set_append)+
  note fresh = fresh_not_released [OF assms new(1)]
  have step: "{..<Suc (ga_next g)} = insert (ga_next g) {..<ga_next g}" by (simp add: lessThan_Suc)
  show ?thesis
    using assms new fresh step
    by (auto simp: gate_acquire_def gate_inv_def Let_def held_tokens_def waiting_def)
qed

lemma gate_timeout_inv:
  assumes "gate_inv g" "w \<in> set (ga_queue g)"
  shows "gate_inv (gate_timeout w nowMs g)"
proof -
  let ?q = "filter (\<lambda>x. wt_id x \<noteq> wt_id w) (ga_queue g)"
  have ids: "map wt_id ?q = filter (\<lambda>i. i \<noteq> wt_id w) (waiting g)"
    by (simp add: waiting_def filter_map comp_def)
  have w: "wt_id w \<in> set (waiting g)" using assms(2) by (simp add: waiting_def)
  have len: "length ?q \<le> ga_maxQueue g"
    using assms(1) length_filter_le order_trans unfolding gate_inv_def by blast
  have q: "?q \<noteq> [] \<Longrightarrow> ga_queue g \<noteq> []" by auto
  show ?thesis
    using assms(1) w len q fresh_not_released [OF assms(1), of "wt_id w"]
    by (auto simp: gate_timeout_def gate_inv_def held_tokens_def waiting_def [of "_\<lparr>ga_queue := _\<rparr>"] ids)
qed

lemma held_release:
  assumes "gate_inv g" "i \<in> set (held_tokens g)"
  shows "length (held_tokens (g\<lparr>ga_released := i # ga_released g\<rparr>)) = length (held_tokens g) - 1"
proof -
  have d: "distinct (held_tokens g)"
    using assms(1) distinct_granted by (simp add: gate_inv_def held_tokens_def)
  have "held_tokens (g\<lparr>ga_released := i # ga_released g\<rparr>) = removeAll i (held_tokens g)"
    by (simp add: held_tokens_def removeAll_filter_not_eq conj_commute) (rule filter_cong; auto)
  also have "\<dots> = remove1 i (held_tokens g)" using d by (simp add: distinct_remove1_removeAll)
  finally show ?thesis using assms(2) by (simp add: length_remove1)
qed

lemma gate_release_inv:
  assumes inv: "gate_inv g" and i: "i \<in> set (granted g)"
  shows "gate_inv (gate_release i nowMs g)"
proof (cases "i \<in> set (ga_released g)")
  case True
  then show ?thesis using inv by (simp add: gate_release_def)
next
  case False
  then have h: "i \<in> set (held_tokens g)" using i by (simp add: held_tokens_def)
  let ?g = "g\<lparr>ga_released := i # ga_released g\<rparr>"
  have len: "length (held_tokens ?g) = length (held_tokens g) - 1" using held_release [OF inv h] .
  have pos: "0 < length (held_tokens g)" using h by (cases "held_tokens g") auto
  show ?thesis
  proof (cases "ga_queue g")
    case Nil
    have "gate_release i nowMs g = ?g\<lparr>ga_inflight := ga_inflight g - 1\<rparr>"
      using False Nil by (simp add: gate_release_def gate_releaseSlot_def)
    then show ?thesis
      using inv len i Nil by (auto simp: gate_inv_def held_tokens_def waiting_def)
  next
    case (Cons w ws)
    have eq: "gate_release i nowMs g
        = gate_settle (wt_id w) (Granted (nowMs - wt_enqueuedAtMs w)) (?g\<lparr>ga_queue := ws\<rparr>)"
      using False Cons by (simp add: gate_release_def gate_releaseSlot_def)
    have ns: "wt_id w \<notin> set (settled g)" using inv Cons by (auto simp: gate_inv_def waiting_def)
    have nr: "wt_id w \<notin> set (ga_released g)" "wt_id w \<noteq> i"
      using fresh_not_released [OF inv ns] ns i granted_settled [of g] by auto
    have "length (held_tokens (gate_release i nowMs g)) = Suc (length (held_tokens ?g))"
      using nr by (simp add: eq held_tokens_def)
    then have "length (held_tokens (gate_release i nowMs g)) = length (held_tokens g)"
      using len pos by simp
    then show ?thesis
      using inv i Cons nr by (auto simp: gate_inv_def eq waiting_def)
  qed
qed

interpretation gate: invariant_system "\<lambda>g. \<exists>a b c. g = gate_new a b c" gate_step gate_inv
proof unfold_locales
  fix g assume "\<exists>a b c. g = gate_new a b c"
  then show "gate_inv g"
    by (auto simp: gate_new_def gate_inv_def held_tokens_def granted_def settled_def waiting_def)
next
  fix g g' assume "gate_inv g" "gate_step g g'"
  then show "gate_inv g'"
    by (elim gate_stepE) (auto intro: gate_acquire_inv gate_timeout_inv gate_release_inv)
qed

section \<open>Draining\<close>

text \<open>Release the oldest token that is out, again and again.\<close>

fun drain :: "nat \<Rightarrow> int \<Rightarrow> gate \<Rightarrow> gate" where
  "drain 0 nowMs g = g"
| "drain (Suc n) nowMs g =
     (case held_tokens g of [] \<Rightarrow> g | i # _ \<Rightarrow> drain n nowMs (gate_release i nowMs g))"

definition gate_load :: "gate \<Rightarrow> nat" where
  "gate_load g = ga_inflight g + length (ga_queue g)"

lemma release_load:
  assumes "gate_inv g" "i \<in> set (held_tokens g)"
  shows "gate_load (gate_release i nowMs g) = gate_load g - 1"
proof -
  have "i \<notin> set (ga_released g)" using assms(2) by (simp add: held_tokens_def)
  moreover have "0 < ga_inflight g" using assms by (cases "held_tokens g") (auto simp: gate_inv_def)
  ultimately show ?thesis
    by (auto simp: gate_release_def gate_releaseSlot_def gate_load_def split: list.splits)
qed

lemma release_next: "ga_next (gate_release i nowMs g) = ga_next g"
  by (auto simp: gate_release_def gate_releaseSlot_def split: list.splits)

lemma drain_empty:
  assumes "gate_inv g" "gate_load g \<le> n"
  shows "ga_inflight (drain n nowMs g) = 0 \<and> ga_queue (drain n nowMs g) = []
    \<and> gate_inv (drain n nowMs g) \<and> ga_next (drain n nowMs g) = ga_next g"
  using assms
proof (induction n nowMs g rule: drain.induct)
  case (1 nowMs g)
  then show ?case by (simp add: gate_load_def)
next
  case (2 n nowMs g)
  show ?case
  proof (cases "held_tokens g")
    case Nil
    then have "ga_inflight g = 0" using "2.prems"(1) by (simp add: gate_inv_def)
    moreover have "ga_queue g = []"
      using "2.prems"(1) calculation by (auto simp: gate_inv_def)
    ultimately show ?thesis using Nil "2.prems"(1) by simp
  next
    case (Cons i tks)
    then have i: "i \<in> set (held_tokens g)" "i \<in> set (granted g)"
      by (simp, metis held_tokens_def filter_is_subset list.set_intros(1) subsetD)
    have "gate_load (gate_release i nowMs g) \<le> n"
      using release_load [OF "2.prems"(1) i(1)] "2.prems"(2) by simp
    then show ?thesis
      using "2.IH" [OF Cons gate_release_inv [OF "2.prems"(1) i(2)]] Cons by (simp add: release_next)
  qed
qed

end
