(* ===== verification/EmbedBatcher.thy ===== *)
theory EmbedBatcher
  imports JsMap StateMachine JsNumber "HOL-Library.Multiset"
begin

text \<open>
  The batching queue for embedding calls: src/src/util/embed_query_batcher.ts.  Calls of
  \<open>enqueue\<close> that do not throw are numbered; \<open>eb_running\<close> holds the batches handed to
  \<^verbatim>\<open>runBatch\<close> and not settled yet, \<open>eb_settled\<close> the promises settled so far (a promise
  that is settled ignores later calls).  \<^verbatim>\<open>runBatch\<close> is the caller's: how a batch ends is
  an argument of the step that settles it.  The outer loop of \<open>flush\<close> takes fuel, one unit per
  queued item, which is enough because every round takes at least one item.
\<close>

record pending =
  pe_id :: nat
  pe_key :: string
  pe_text :: string
  pe_enqueuedAtMs :: int

datatype embed_outcome =
    Resolved "jsnum list" int nat   \<comment> \<open>vector, wait, batch size\<close>
  | Rejected string

record batch =
  ba_picked :: "pending list"
  ba_groups :: "(string, pending list) js_map"
  ba_texts :: "string list"

record batcher =
  eb_maxBatchSize :: nat
  eb_maxInflightBatches :: nat
  eb_maxQueue :: nat
  eb_queueTimeoutMs :: int
  eb_queue :: "pending list"
  eb_inflightBatches :: nat
  eb_flushTimer :: bool
  eb_next :: nat
  eb_running :: "batch list"
  eb_settled :: "(nat \<times> embed_outcome) list"

definition batcher_new :: "int \<Rightarrow> int \<Rightarrow> int \<Rightarrow> int \<Rightarrow> batcher" where
  "batcher_new maxBatchSize maxInflight maxQueue timeout =
     \<lparr>eb_maxBatchSize = nat (max 1 maxBatchSize), eb_maxInflightBatches = nat (max 1 maxInflight),
      eb_maxQueue = nat (max 1 maxQueue), eb_queueTimeoutMs = max 1 timeout, eb_queue = [],
      eb_inflightBatches = 0, eb_flushTimer = False, eb_next = 0, eb_running = [], eb_settled = []\<rparr>"

section \<open>Operations\<close>

definition settle :: "nat \<Rightarrow> embed_outcome \<Rightarrow> batcher \<Rightarrow> batcher" where
  "settle i out b =
     (if i \<in> set (map fst (eb_settled b)) then b
      else b\<lparr>eb_settled := eb_settled b @ [(i, out)]\<rparr>)"

definition settle_all :: "(pending \<Rightarrow> embed_outcome) \<Rightarrow> pending list \<Rightarrow> batcher \<Rightarrow> batcher" where
  "settle_all f ps b = foldl (\<lambda>acc p. settle (pe_id p) (f p) acc) b ps"

definition enqueue :: "string \<Rightarrow> string \<Rightarrow> int \<Rightarrow> batcher \<Rightarrow> string + batcher" where
  "enqueue key txt nowMs b =
     (if eb_maxQueue b \<le> length (eb_queue b) then Inl ''queue_full''
      else Inr (b\<lparr>eb_queue := eb_queue b @
                    [\<lparr>pe_id = eb_next b, pe_key = key, pe_text = txt, pe_enqueuedAtMs = nowMs\<rparr>],
                  eb_next := Suc (eb_next b), eb_flushTimer := True\<rparr>))"

text \<open>The inner loop: up to \<open>n\<close> items, dropping those that waited too long.\<close>

fun pick :: "nat \<Rightarrow> (pending \<Rightarrow> bool) \<Rightarrow> pending list \<Rightarrow> pending list \<times> pending list \<times> pending list" where
  "pick n stale [] = ([], [], [])"
| "pick 0 stale q = ([], [], q)"
| "pick (Suc n) stale (p # q) =
     (if stale p then (let (ps, rs, r) = pick (Suc n) stale q in (ps, p # rs, r))
      else (let (ps, rs, r) = pick n stale q in (p # ps, rs, r)))"

definition add_to_group ::
  "(string, pending list) js_map \<times> string list \<Rightarrow> pending \<Rightarrow> (string, pending list) js_map \<times> string list" where
  "add_to_group gt p =
     (case map_get (fst gt) (pe_key p) of
        Some g \<Rightarrow> (map_set (pe_key p) (g @ [p]) (fst gt), snd gt)
      | None \<Rightarrow> (map_set (pe_key p) [p] (fst gt), snd gt @ [pe_text p]))"

definition make_batch :: "pending list \<Rightarrow> batch" where
  "make_batch picked =
     (let gt = foldl add_to_group ([], []) picked
      in \<lparr>ba_picked = picked, ba_groups = fst gt, ba_texts = snd gt\<rparr>)"

definition flush_round :: "int \<Rightarrow> batcher \<Rightarrow> batcher" where
  "flush_round now b =
     (let (picked, late, rest) =
            pick (eb_maxBatchSize b) (\<lambda>p. eb_queueTimeoutMs b < now - pe_enqueuedAtMs p) (eb_queue b);
          b1 = settle_all (\<lambda>p. Rejected ''queue_timeout'') late (b\<lparr>eb_queue := rest\<rparr>)
      in if picked = [] then b1
         else b1\<lparr>eb_inflightBatches := eb_inflightBatches b1 + 1,
                 eb_running := eb_running b1 @ [make_batch picked]\<rparr>)"

fun flush_loop :: "nat \<Rightarrow> int \<Rightarrow> batcher \<Rightarrow> batcher" where
  "flush_loop 0 now b = b"
| "flush_loop (Suc fuel) now b =
     (if eb_inflightBatches b < eb_maxInflightBatches b \<and> eb_queue b \<noteq> []
      then flush_loop fuel now (flush_round now b) else b)"

text \<open>The timer's callback; \<open>scheduleFlush\<close> and \<open>scheduleImmediateFlush\<close> differ in the delay only.\<close>

definition timer_fires :: "int \<Rightarrow> batcher \<Rightarrow> batcher" where
  "timer_fires now b =
     (let b1 = flush_loop (length (eb_queue b)) now (b\<lparr>eb_flushTimer := False\<rparr>)
      in if eb_queue b1 \<noteq> [] \<and> eb_maxInflightBatches b1 \<le> eb_inflightBatches b1
         then b1\<lparr>eb_flushTimer := True\<rparr> else b1)"

text \<open>The two errors of the \<open>then\<close> branch.\<close>

definition result_mismatch :: "nat \<Rightarrow> nat \<Rightarrow> string" where
  "result_mismatch vectors texts =
     ''embed batch result mismatch: vectors='' @ dec_nat vectors @ '' texts='' @ dec_nat texts"

definition dim_mismatch :: "string \<Rightarrow> string \<Rightarrow> string" where
  "dim_mismatch key got =
     ''embed batch vector dim mismatch for key='' @ key @ '': expected=1536 got='' @ got"

text \<open>
  The loop over the groups; the first component is the error it throws half-way.  (The caller
  has compared the numbers of vectors and texts, so the vectors never run out.)
\<close>

fun resolve_groups ::
  "int \<Rightarrow> nat \<Rightarrow> (string \<times> pending list) list \<Rightarrow> jsnum list list \<Rightarrow> batcher \<Rightarrow> string option \<times> batcher" where
  "resolve_groups now n [] vs b = (None, b)"
| "resolve_groups now n (g # gs) [] b = (Some (dim_mismatch (fst g) ''non-array''), b)"
| "resolve_groups now n (g # gs) (v # vs) b =
     (if length v \<noteq> 1536 then (Some (dim_mismatch (fst g) (dec_nat (length v))), b)
      else resolve_groups now n gs vs
             (settle_all (\<lambda>p. Resolved v (now - pe_enqueuedAtMs p) n) (snd g) b))"

definition settle_batch :: "int \<Rightarrow> batch \<Rightarrow> string + jsnum list list \<Rightarrow> batcher \<Rightarrow> batcher" where
  "settle_batch now ba result b =
     (let b0 = b\<lparr>eb_running := remove1 ba (eb_running b)\<rparr>;
          b1 = (case result of
                  Inl err \<Rightarrow> settle_all (\<lambda>p. Rejected err) (ba_picked ba) b0
                | Inr vectors \<Rightarrow>
                    if length vectors \<noteq> length (ba_texts ba)
                    then settle_all (\<lambda>p. Rejected (result_mismatch (length vectors) (length (ba_texts ba))))
                           (ba_picked ba) b0
                    else (case resolve_groups now (length (ba_texts ba)) (ba_groups ba) vectors b0 of
                            (None, b') \<Rightarrow> b'
                          | (Some err, b') \<Rightarrow> settle_all (\<lambda>p. Rejected err) (ba_picked ba) b'));
          b2 = b1\<lparr>eb_inflightBatches := eb_inflightBatches b1 - 1\<rparr>
      in if eb_queue b2 \<noteq> [] then b2\<lparr>eb_flushTimer := True\<rparr> else b2)"

inductive batcher_step :: "batcher \<Rightarrow> batcher \<Rightarrow> bool" where
  bs_enqueue: "enqueue key txt now b = Inr b' \<Longrightarrow> batcher_step b b'"
| bs_timer: "eb_flushTimer b \<Longrightarrow> batcher_step b (timer_fires now b)"
| bs_settle: "ba \<in> set (eb_running b) \<Longrightarrow> batcher_step b (settle_batch now ba result b)"

inductive_cases batcher_stepE: "batcher_step b b'"

section \<open>Groups\<close>

definition group_ok :: "pending list \<Rightarrow> (string, pending list) js_map \<times> string list \<Rightarrow> bool" where
  "group_ok ps gt \<longleftrightarrow>
     keys (fst gt) = dedupe (map pe_key ps)
     \<and> (\<forall>k. map_get (fst gt) k = (let g = filter (\<lambda>p. pe_key p = k) ps in if g = [] then None else Some g))
     \<and> snd gt = map (\<lambda>e. pe_text (hd (snd e))) (fst gt)"

lemma dedupe_snoc: "dedupe (xs @ [x]) = (if x \<in> set xs then dedupe xs else dedupe xs @ [x])"
  by (simp add: dedupe_append) (simp add: dedupe_def)

lemma map_set_text:
  assumes "map_get m k = Some g" "g \<noteq> []"
  shows "map (\<lambda>e. pe_text (hd (snd e))) (map_set k (g @ [p]) m) = map (\<lambda>e. pe_text (hd (snd e))) m"
  using assms by (induction k "g @ [p]" m rule: map_set.induct) (auto simp: map_get_def split: if_splits)

lemma group_step:
  assumes "group_ok ps gt"
  shows "group_ok (ps @ [p]) (add_to_group gt p)"
proof (cases "map_get (fst gt) (pe_key p)")
  case None
  then have none: "filter (\<lambda>q. pe_key q = pe_key p) ps = []"
    using assms by (auto simp: group_ok_def Let_def split: if_splits)
  then have fresh: "pe_key p \<notin> pe_key ` set ps" by (auto simp: filter_empty_conv)
  then have "pe_key p \<notin> set (keys (fst gt))" using assms by (simp add: group_ok_def)
  then have s: "map_set (pe_key p) [p] (fst gt) = fst gt @ [(pe_key p, [p])]" by (rule map_set_fresh)
  have add: "add_to_group gt p = (map_set (pe_key p) [p] (fst gt), snd gt @ [pe_text p])"
    by (simp add: add_to_group_def None)
  have "map_get (map_set (pe_key p) [p] (fst gt)) k
      = (let g = filter (\<lambda>q. pe_key q = k) (ps @ [p]) in if g = [] then None else Some g)" for k
    using assms none by (auto simp: group_ok_def js_map.get_put Let_def)
  then show ?thesis
    using assms fresh unfolding group_ok_def add by (simp add: s dedupe_snoc)
next
  case (Some g)
  then have g: "g = filter (\<lambda>q. pe_key q = pe_key p) ps" "g \<noteq> []"
    using assms by (auto simp: group_ok_def Let_def split: if_splits)
  then obtain q where "q \<in> set ps" "pe_key q = pe_key p" by (auto simp: filter_empty_conv)
  then have mem: "pe_key p \<in> pe_key ` set ps" by (metis image_eqI)
  then have k: "pe_key p \<in> set (keys (fst gt))" using assms by (simp add: group_ok_def)
  have add: "add_to_group gt p = (map_set (pe_key p) (g @ [p]) (fst gt), snd gt)"
    by (simp add: add_to_group_def Some)
  have get: "map_get (map_set (pe_key p) (g @ [p]) (fst gt)) k
      = (let g = filter (\<lambda>q. pe_key q = k) (ps @ [p]) in if g = [] then None else Some g)" for k
    using assms g by (auto simp: group_ok_def js_map.get_put Let_def)
  have "keys (map_set (pe_key p) (g @ [p]) (fst gt)) = keys (fst gt)" using k by (simp add: keys_map_set)
  then show ?thesis
    using assms mem get map_set_text [OF Some g(2), of p] unfolding group_ok_def add
    by (simp add: dedupe_snoc)
qed

lemma make_batch_ok: "group_ok ps (ba_groups (make_batch ps), ba_texts (make_batch ps))"
proof -
  have "group_ok ps (foldl add_to_group ([], []) ps)"
  proof (induction ps rule: rev_induct)
    case Nil
    then show ?case by (simp add: group_ok_def map_get_def)
  next
    case (snoc p ps)
    then show ?case by (simp add: group_step)
  qed
  then show ?thesis by (simp add: make_batch_def Let_def)
qed

section \<open>Settling\<close>

text \<open>\<open>b'\<close> is \<open>b\<close> with the promises \<open>I\<close> settled as well.\<close>

definition settled_ids :: "batcher \<Rightarrow> nat list" where
  "settled_ids b = map fst (eb_settled b)"

definition settles :: "nat set \<Rightarrow> batcher \<Rightarrow> batcher \<Rightarrow> bool" where
  "settles I b b' \<longleftrightarrow>
     b' = b\<lparr>eb_settled := eb_settled b'\<rparr> \<and> set (settled_ids b') = set (settled_ids b) \<union> I
     \<and> (distinct (settled_ids b) \<longrightarrow> distinct (settled_ids b'))
     \<and> prefix (eb_settled b) (eb_settled b')"

lemma settles_refl: "settles {} b b"
  by (simp add: settles_def)

lemma settles_trans: "settles I a b \<Longrightarrow> settles J b c \<Longrightarrow> settles (I \<union> J) a c"
  by (auto simp: settles_def settled_ids_def)
    (metis batcher.surjective batcher.update_convs(10) | metis prefix_order.trans)+

lemma settles_settle: "settles {i} b (settle i out b)"
  by (auto simp: settles_def settle_def settled_ids_def)

lemma settles_all: "settles (pe_id ` set ps) b (settle_all f ps b)"
proof (induction ps arbitrary: b)
  case Nil
  then show ?case by (simp add: settle_all_def settles_refl)
next
  case (Cons p ps)
  have "settles ({pe_id p} \<union> pe_id ` set ps) b (settle_all f ps (settle (pe_id p) (f p) b))"
    by (rule settles_trans [OF settles_settle Cons.IH])
  then show ?case by (simp add: settle_all_def)
qed

lemma resolve_groups_settles:
  "resolve_groups now n gs vs b = (err0, b') \<Longrightarrow>
     \<exists>I \<subseteq> pe_id ` \<Union> (set ` snd ` set gs). settles I b b' \<and> (err0 = None \<longrightarrow> I = pe_id ` \<Union> (set ` snd ` set gs))"
proof (induction now n gs vs b arbitrary: b' rule: resolve_groups.induct)
  case (1 now n vs b)
  then show ?case using settles_refl by auto
next
  case (2 now n g gs b)
  then show ?case using settles_refl by auto
next
  case (3 now n g gs v vs b)
  show ?case
  proof (cases "length v = 1536")
    case False
    then show ?thesis using "3.prems" settles_refl by auto
  next
    case True
    let ?b = "settle_all (\<lambda>p. Resolved v (now - pe_enqueuedAtMs p) n) (snd g) b"
    from True "3.prems" have "resolve_groups now n gs vs ?b = (err0, b')" by simp
    from "3.IH" [OF _ this] True obtain I where
      I: "I \<subseteq> pe_id ` \<Union> (set ` snd ` set gs)" "settles I ?b b'"
        "err0 = None \<longrightarrow> I = pe_id ` \<Union> (set ` snd ` set gs)" by auto
    have "settles (pe_id ` set (snd g) \<union> I) b b'"
      by (rule settles_trans [OF settles_all I(2)])
    moreover have "pe_id ` set (snd g) \<union> I \<subseteq> pe_id ` \<Union> (set ` snd ` set (g # gs))"
      "err0 = None \<longrightarrow> pe_id ` set (snd g) \<union> I = pe_id ` \<Union> (set ` snd ` set (g # gs))"
      using I(1,3) by (simp_all only: list.set image_insert Union_insert image_Un) blast+
    ultimately show ?thesis by blast
  qed
qed

lemma group_items:
  assumes "group_ok ps gt"
  shows "\<Union> (set ` snd ` set (fst gt)) = set ps"
proof -
  have d: "distinct (keys (fst gt))" using assms by (simp add: group_ok_def)
  have get: "map_get (fst gt) k = Some g \<longleftrightarrow> g = filter (\<lambda>p. pe_key p = k) ps \<and> g \<noteq> []" for k g
    using assms by (auto simp: group_ok_def Let_def)
  have "(k, g) \<in> set (fst gt) \<longleftrightarrow> g = filter (\<lambda>p. pe_key p = k) ps \<and> g \<noteq> []" for k g
    using get [of k g] d by (simp add: map_get_def)
  note mem = this
  show ?thesis
  proof (rule set_eqI)
    fix x
    show "x \<in> \<Union> (set ` snd ` set (fst gt)) \<longleftrightarrow> x \<in> set ps"
    proof
      assume "x \<in> \<Union> (set ` snd ` set (fst gt))"
      then obtain k g where "(k, g) \<in> set (fst gt)" "x \<in> set g" by auto
      with mem [of k g] show "x \<in> set ps" by simp
    next
      assume "x \<in> set ps"
      then have x: "x \<in> set (filter (\<lambda>p. pe_key p = pe_key x) ps)" by simp
      then have "(pe_key x, filter (\<lambda>p. pe_key p = pe_key x) ps) \<in> set (fst gt)"
        unfolding mem by (metis empty_iff empty_set)
      with x show "x \<in> \<Union> (set ` snd ` set (fst gt))" by force
    qed
  qed
qed

lemma settle_batch_settles:
  assumes "ba = make_batch ps"
  shows "\<exists>b1. settles (pe_id ` set ps) (b\<lparr>eb_running := remove1 ba (eb_running b)\<rparr>) b1
    \<and> settle_batch now ba result b =
        b1\<lparr>eb_inflightBatches := eb_inflightBatches b - 1,
           eb_flushTimer := (eb_flushTimer b \<or> eb_queue b \<noteq> [])\<rparr>"
proof -
  let ?b0 = "b\<lparr>eb_running := remove1 ba (eb_running b)\<rparr>"
  have picked: "ba_picked ba = ps" using assms by (simp add: make_batch_def Let_def)
  have groups: "\<Union> (set ` snd ` set (ba_groups ba)) = set ps"
    using group_items [OF make_batch_ok [of ps]] assms by simp
  define b1 where "b1 = (case result of
      Inl err \<Rightarrow> settle_all (\<lambda>p. Rejected err) (ba_picked ba) ?b0
    | Inr vectors \<Rightarrow>
        if length vectors \<noteq> length (ba_texts ba)
        then settle_all (\<lambda>p. Rejected (result_mismatch (length vectors) (length (ba_texts ba))))
               (ba_picked ba) ?b0
        else (case resolve_groups now (length (ba_texts ba)) (ba_groups ba) vectors ?b0 of
                (None, b') \<Rightarrow> b' | (Some err, b') \<Rightarrow> settle_all (\<lambda>p. Rejected err) (ba_picked ba) b'))"
  have s: "settles (pe_id ` set ps) ?b0 b1"
  proof (cases "\<exists>vs err0 b'. result = Inr vs \<and> length vs = length (ba_texts ba)
      \<and> resolve_groups now (length (ba_texts ba)) (ba_groups ba) vs ?b0 = (err0, b')")
    case True
    then obtain vs err0 b' where r: "result = Inr vs" "length vs = length (ba_texts ba)"
      "resolve_groups now (length (ba_texts ba)) (ba_groups ba) vs ?b0 = (err0, b')" by blast
    from resolve_groups_settles [OF r(3)] groups obtain I where
      I: "I \<subseteq> pe_id ` set ps" "settles I ?b0 b'" "err0 = None \<longrightarrow> I = pe_id ` set ps" by auto
    show ?thesis
    proof (cases err0)
      case None
      then show ?thesis using I r by (simp add: b1_def)
    next
      case (Some err)
      have "settles (I \<union> pe_id ` set ps) ?b0 (settle_all (\<lambda>p. Rejected err) ps b')"
        by (rule settles_trans [OF I(2) settles_all])
      moreover have "I \<union> pe_id ` set ps = pe_id ` set ps" using I(1) by auto
      ultimately show ?thesis using Some r by (simp add: b1_def picked)
    qed
  next
    case False
    then show ?thesis
      using settles_all by (auto simp: b1_def picked split: sum.splits prod.splits option.splits)
  qed
  then have fr: "eb_queue b1 = eb_queue b" "eb_flushTimer b1 = eb_flushTimer b"
    "eb_inflightBatches b1 = eb_inflightBatches b"
    by (auto simp: settles_def) (metis batcher.select_convs batcher.update_convs batcher.surjective)+
  have "settle_batch now ba result b = (let b2 = b1\<lparr>eb_inflightBatches := eb_inflightBatches b1 - 1\<rparr>
      in if eb_queue b2 \<noteq> [] then b2\<lparr>eb_flushTimer := True\<rparr> else b2)"
    by (simp add: settle_batch_def b1_def Let_def)
  also have "\<dots> = b1\<lparr>eb_inflightBatches := eb_inflightBatches b - 1,
      eb_flushTimer := (eb_flushTimer b \<or> eb_queue b \<noteq> [])\<rparr>"
    using fr by (auto simp: Let_def)
  finally show ?thesis using s by blast
qed

end
