(* ===== verification/EmbedBatcherSafety.thy ===== *)
theory EmbedBatcherSafety
  imports EmbedBatcher
begin

text \<open>
  The invariant of the batching queue.  Every accepted call is exactly one of queued, part of
  a running batch, or settled (one multiset equation); the counter is the number of running
  batches and stays within its limit; and a queue that is not empty has a timer armed, so no
  call is forgotten.
\<close>

definition running_ids :: "batcher \<Rightarrow> nat list" where
  "running_ids b = concat (map (\<lambda>ba. map pe_id (ba_picked ba)) (eb_running b))"

definition queued_ids :: "batcher \<Rightarrow> nat list" where
  "queued_ids b = map pe_id (eb_queue b)"

definition accounted :: "batcher \<Rightarrow> bool" where
  "accounted b \<longleftrightarrow>
     mset (settled_ids b) + mset (running_ids b) + mset (queued_ids b) = mset [0..<eb_next b]"

definition batches_ok :: "batcher \<Rightarrow> bool" where
  "batches_ok b \<longleftrightarrow>
     (\<forall>ba \<in> set (eb_running b). \<exists>ps. ba = make_batch ps \<and> ps \<noteq> [] \<and> length ps \<le> eb_maxBatchSize b)"

definition limits_ok :: "batcher \<Rightarrow> bool" where
  "limits_ok b \<longleftrightarrow>
     1 \<le> eb_maxBatchSize b \<and> 1 \<le> eb_maxInflightBatches b
     \<and> eb_inflightBatches b = length (eb_running b)
     \<and> eb_inflightBatches b \<le> eb_maxInflightBatches b
     \<and> length (eb_queue b) \<le> eb_maxQueue b"

definition batcher_inv :: "batcher \<Rightarrow> bool" where
  "batcher_inv b \<longleftrightarrow>
     accounted b \<and> batches_ok b \<and> limits_ok b \<and> (eb_queue b \<noteq> [] \<longrightarrow> eb_flushTimer b)"

lemma ids_distinct:
  assumes "mset xs + mset ys + mset zs = mset [0..<n]"
  shows "distinct (xs @ ys @ zs)"
  by (metis assms distinct_upt mset_append mset_eq_imp_distinct_iff union_assoc)

lemma settles_mset:
  assumes "settles (set is) b b'" "distinct (settled_ids b @ is)"
  shows "mset (settled_ids b') = mset (settled_ids b) + mset is"
proof -
  have "set (settled_ids b') = set (settled_ids b @ is)" "distinct (settled_ids b')"
    using assms by (auto simp: settles_def)
  then show ?thesis
    using assms(2) set_eq_iff_mset_eq_distinct [of "settled_ids b'" "settled_ids b @ is"] by simp
qed

lemma settles_frame:
  assumes "settles I b b'"
  shows "eb_queue b' = eb_queue b" "eb_running b' = eb_running b" "eb_next b' = eb_next b"
    "eb_inflightBatches b' = eb_inflightBatches b" "eb_flushTimer b' = eb_flushTimer b"
    "eb_maxBatchSize b' = eb_maxBatchSize b" "eb_maxInflightBatches b' = eb_maxInflightBatches b"
    "eb_maxQueue b' = eb_maxQueue b"
  using assms unfolding settles_def by (metis batcher.select_convs batcher.update_convs batcher.surjective)+

section \<open>One round of a flush\<close>

lemma pick_spec:
  "pick n stale q = (ps, rs, r) \<Longrightarrow>
     mset q = mset ps + mset rs + mset r \<and> length ps \<le> n \<and> (\<forall>p \<in> set ps. \<not> stale p)
     \<and> (\<forall>p \<in> set rs. stale p) \<and> length r \<le> length q \<and> (0 < n \<longrightarrow> q \<noteq> [] \<longrightarrow> length r < length q)"
proof (induction n stale q arbitrary: ps rs r rule: pick.induct)
  case (3 n stale p q)
  show ?case
  proof (cases "stale p")
    case True
    obtain a b c where "pick (Suc n) stale q = (a, b, c)" by (cases "pick (Suc n) stale q")
    then show ?thesis using "3.IH"(1) [OF True] "3.prems" True by (auto simp: less_Suc_eq_le)
  next
    case False
    obtain a b c where "pick n stale q = (a, b, c)" by (cases "pick n stale q")
    then show ?thesis using "3.IH"(2) [OF False] "3.prems" False by (auto simp: less_Suc_eq_le)
  qed
qed auto

text \<open>The part of the invariant a flush keeps while it runs (its timer is off).\<close>

definition flush_inv :: "batcher \<Rightarrow> bool" where
  "flush_inv b \<longleftrightarrow> accounted b \<and> batches_ok b \<and> limits_ok b"

lemma flush_round_inv:
  assumes inv: "flush_inv b" and room: "eb_inflightBatches b < eb_maxInflightBatches b" "eb_queue b \<noteq> []"
  shows "flush_inv (flush_round now b)" "length (eb_queue (flush_round now b)) < length (eb_queue b)"
    "eb_maxInflightBatches (flush_round now b) = eb_maxInflightBatches b"
proof -
  obtain ps rs r where pk: "pick (eb_maxBatchSize b) (\<lambda>p. eb_queueTimeoutMs b < now - pe_enqueuedAtMs p)
      (eb_queue b) = (ps, rs, r)" by (metis prod_cases3)
  note spec = pick_spec [OF pk]
  define b1 where "b1 = settle_all (\<lambda>p. Rejected ''queue_timeout'') rs (b\<lparr>eb_queue := r\<rparr>)"
  have s: "settles (set (map pe_id rs)) (b\<lparr>eb_queue := r\<rparr>) b1"
    unfolding b1_def using settles_all by simp
  note fr = settles_frame [OF s]
  define b' where "b' = (if ps = [] then b1
    else b1\<lparr>eb_inflightBatches := eb_inflightBatches b1 + 1, eb_running := eb_running b1 @ [make_batch ps]\<rparr>)"
  have eq: "flush_round now b = b'"
    by (simp add: flush_round_def pk b1_def b'_def Let_def)
  have q: "mset (queued_ids b) = mset (map pe_id ps) + mset (map pe_id rs) + mset (map pe_id r)"
    using spec by (simp add: queued_ids_def flip: image_mset_union)
  have acc: "mset (settled_ids b) + mset (running_ids b) + mset (queued_ids b) = mset [0..<eb_next b]"
    using inv by (simp add: flush_inv_def accounted_def)
  then have "mset (settled_ids b @ map pe_id rs) + mset (running_ids b) + mset (map pe_id ps @ map pe_id r)
      = mset [0..<eb_next b]"
    by (simp add: q ac_simps)
  then have "distinct (settled_ids (b\<lparr>eb_queue := r\<rparr>) @ map pe_id rs)"
    using ids_distinct by (fastforce simp: settled_ids_def)
  from settles_mset [OF s this]
  have ms: "mset (settled_ids b1) = mset (settled_ids b) + mset (map pe_id rs)"
    by (simp add: settled_ids_def)
  have st: "settled_ids b' = settled_ids b1" by (simp add: b'_def settled_ids_def)
  have run: "running_ids b' = running_ids b @ map pe_id ps"
    using fr by (auto simp: b'_def running_ids_def make_batch_def Let_def)
  have que: "eb_queue b' = r" "eb_next b' = eb_next b" using fr by (auto simp: b'_def)
  have "accounted b'"
    using acc by (simp add: accounted_def st ms run que queued_ids_def [of b'] q ac_simps)
  moreover have "batches_ok b'"
    using inv spec fr by (auto simp: flush_inv_def batches_ok_def b'_def)
  moreover have "limits_ok b'"
    using inv spec fr room by (auto simp: flush_inv_def limits_ok_def b'_def)
  ultimately show "flush_inv (flush_round now b)" by (simp add: eq flush_inv_def)
  show "length (eb_queue (flush_round now b)) < length (eb_queue b)"
    using spec inv room by (simp add: eq que flush_inv_def limits_ok_def)
  show "eb_maxInflightBatches (flush_round now b) = eb_maxInflightBatches b"
    using fr by (simp add: eq b'_def)
qed

lemma flush_loop_inv:
  assumes "flush_inv b" "length (eb_queue b) \<le> n"
  shows "flush_inv (flush_loop n now b)
    \<and> (eb_queue (flush_loop n now b) = [] \<or>
       eb_maxInflightBatches (flush_loop n now b) \<le> eb_inflightBatches (flush_loop n now b))"
  using assms
proof (induction n now b rule: flush_loop.induct)
  case (1 now b)
  then show ?case by simp
next
  case (2 n now b)
  show ?case
  proof (cases "eb_inflightBatches b < eb_maxInflightBatches b \<and> eb_queue b \<noteq> []")
    case True
    note fr = flush_round_inv [OF "2.prems"(1), of now]
    have "flush_inv (flush_round now b)" "length (eb_queue (flush_round now b)) \<le> n"
      using fr True "2.prems"(2) by auto
    then show ?thesis using "2.IH" [OF True] True by simp
  next
    case False
    then show ?thesis using "2.prems"(1) by auto
  qed
qed

section \<open>The operations keep the invariant\<close>

lemma enqueue_inv:
  assumes "batcher_inv b" "enqueue key txt now b = Inr b'"
  shows "batcher_inv b'"
  using assms
  by (auto simp: batcher_inv_def enqueue_def accounted_def batches_ok_def limits_ok_def
      settled_ids_def running_ids_def queued_ids_def atLeastLessThanSuc split: if_splits)

lemma timer_inv:
  assumes "batcher_inv b"
  shows "batcher_inv (timer_fires now b)"
proof -
  let ?b = "b\<lparr>eb_flushTimer := False\<rparr>"
  have "flush_inv ?b"
    using assms
    by (simp add: batcher_inv_def flush_inv_def accounted_def batches_ok_def limits_ok_def
        settled_ids_def running_ids_def queued_ids_def)
  then have fl: "flush_inv (flush_loop (length (eb_queue b)) now ?b)
    \<and> (eb_queue (flush_loop (length (eb_queue b)) now ?b) = [] \<or>
       eb_maxInflightBatches (flush_loop (length (eb_queue b)) now ?b)
         \<le> eb_inflightBatches (flush_loop (length (eb_queue b)) now ?b))"
    by (rule flush_loop_inv) simp
  then show ?thesis
    by (auto simp: timer_fires_def Let_def batcher_inv_def flush_inv_def accounted_def batches_ok_def
        limits_ok_def settled_ids_def running_ids_def queued_ids_def)
qed

lemma running_remove:
  assumes "ba \<in> set (eb_running b)"
  shows "mset (running_ids b)
    = mset (map pe_id (ba_picked ba)) + mset (running_ids (b\<lparr>eb_running := remove1 ba (eb_running b)\<rparr>))"
proof -
  obtain xs ys where x: "eb_running b = xs @ ba # ys" "ba \<notin> set xs"
    using split_list_first [OF assms] by blast
  then show ?thesis by (simp add: running_ids_def remove1_append ac_simps)
qed

lemma settle_batch_inv:
  assumes inv: "batcher_inv b" and ba: "ba \<in> set (eb_running b)"
  shows "batcher_inv (settle_batch now ba result b)"
proof -
  from inv ba obtain ps where ps: "ba = make_batch ps" by (auto simp: batcher_inv_def batches_ok_def)
  have picked: "ba_picked ba = ps" using ps by (simp add: make_batch_def Let_def)
  let ?b0 = "b\<lparr>eb_running := remove1 ba (eb_running b)\<rparr>"
  from settle_batch_settles [OF ps, of b now result] obtain b1 where
    s: "settles (set (map pe_id ps)) ?b0 b1"
    and eq: "settle_batch now ba result b = b1\<lparr>eb_inflightBatches := eb_inflightBatches b - 1,
      eb_flushTimer := (eb_flushTimer b \<or> eb_queue b \<noteq> [])\<rparr>" by auto
  note fr = settles_frame [OF s]
  have acc: "mset (settled_ids b) + mset (running_ids b) + mset (queued_ids b) = mset [0..<eb_next b]"
    using inv by (simp add: batcher_inv_def accounted_def)
  note run = running_remove [OF ba, unfolded picked]
  have "mset (settled_ids b @ map pe_id ps) + mset (running_ids ?b0) + mset (queued_ids b) = mset [0..<eb_next b]"
    using acc by (simp add: run ac_simps)
  then have "distinct (settled_ids ?b0 @ map pe_id ps)"
    using ids_distinct by (fastforce simp: settled_ids_def)
  from settles_mset [OF s this]
  have ms: "mset (settled_ids b1) = mset (settled_ids b) + mset (map pe_id ps)"
    by (simp add: settled_ids_def)
  let ?b' = "settle_batch now ba result b"
  have "settled_ids ?b' = settled_ids b1" "queued_ids ?b' = queued_ids b"
    "running_ids ?b' = running_ids ?b0" "eb_next ?b' = eb_next b"
    using fr by (simp_all add: eq settled_ids_def queued_ids_def running_ids_def)
  then have "accounted ?b'" using acc by (simp add: accounted_def ms run ac_simps)
  moreover have "batches_ok ?b'"
    using inv fr by (auto simp: eq batcher_inv_def batches_ok_def dest: notin_set_remove1 set_remove1_subset [THEN subsetD])
  moreover have "limits_ok ?b'"
    using inv fr ba by (auto simp: eq batcher_inv_def limits_ok_def length_remove1)
  moreover have "eb_queue ?b' \<noteq> [] \<longrightarrow> eb_flushTimer ?b'" using fr by (simp add: eq)
  ultimately show ?thesis by (simp add: batcher_inv_def)
qed

interpretation batcher: invariant_system "\<lambda>b. \<exists>a c d e. b = batcher_new a c d e" batcher_step batcher_inv
proof unfold_locales
  fix b assume "\<exists>a c d e. b = batcher_new a c d e"
  then show "batcher_inv b"
    by (auto simp: batcher_new_def batcher_inv_def accounted_def batches_ok_def limits_ok_def
        settled_ids_def running_ids_def queued_ids_def)
next
  fix b b' assume "batcher_inv b" "batcher_step b b'"
  then show "batcher_inv b'"
    by (elim batcher_stepE) (auto intro: enqueue_inv timer_inv settle_batch_inv)
qed

section \<open>What a caller gets\<close>

text \<open>The vector a call receives is the one at the place of its key among the distinct keys.\<close>

lemma settle_all_new:
  "distinct (map pe_id ps) \<Longrightarrow> pe_id ` set ps \<inter> set (settled_ids b) = {} \<Longrightarrow>
     eb_settled (settle_all f ps b) = eb_settled b @ map (\<lambda>p. (pe_id p, f p)) ps"
proof (induction ps arbitrary: b)
  case Nil
  then show ?case by (simp add: settle_all_def)
next
  case (Cons p ps)
  have "settle (pe_id p) (f p) b = b\<lparr>eb_settled := eb_settled b @ [(pe_id p, f p)]\<rparr>"
    using Cons.prems by (simp add: settle_def settled_ids_def)
  then show ?case
    using Cons.IH [of "settle (pe_id p) (f p) b"] Cons.prems
    by (auto simp: settle_all_def settled_ids_def)
qed

lemma settle_all_prefix: "prefix (eb_settled b) (eb_settled (settle_all f ps b))"
  using settles_all [of ps b f] by (simp add: settles_def)

lemma resolve_groups_prefix:
  "resolve_groups now n gs vs b = (err0, b') \<Longrightarrow> prefix (eb_settled b) (eb_settled b')"
  using resolve_groups_settles [of now n gs vs b err0 b'] by (auto simp: settles_def)

lemma resolve_groups_fine:
  "resolve_groups now n gs vs b = (err0, b') \<Longrightarrow> length vs = length gs \<Longrightarrow>
     \<forall>v \<in> set vs. length v = 1536 \<Longrightarrow> err0 = None"
  by (induction now n gs vs b arbitrary: b' rule: resolve_groups.induct) auto

lemma resolve_groups_result:
  assumes "resolve_groups now n gs vs b = (err0, b')" "length vs = length gs"
    and "\<forall>v \<in> set vs. length v = 1536" "distinct (map pe_id (concat (map snd gs)))"
    and "pe_id ` set (concat (map snd gs)) \<inter> set (settled_ids b) = {}"
    and "i < length gs" "p \<in> set (snd (gs ! i))"
  shows "(pe_id p, Resolved (vs ! i) (now - pe_enqueuedAtMs p) n) \<in> set (eb_settled b')"
  using assms
proof (induction now n gs vs b arbitrary: b' i rule: resolve_groups.induct)
  case (3 now n g gs v vs b)
  let ?f = "\<lambda>p. Resolved v (now - pe_enqueuedAtMs p) n"
  let ?b = "settle_all ?f (snd g) b"
  have v: "length v = 1536" using "3.prems"(3) by simp
  have rg: "resolve_groups now n gs vs ?b = (err0, b')" using "3.prems"(1) v by simp
  have new: "eb_settled ?b = eb_settled b @ map (\<lambda>p. (pe_id p, ?f p)) (snd g)"
    using "3.prems"(4,5) by (intro settle_all_new) auto
  show ?case
  proof (cases i)
    case 0
    then have "(pe_id p, ?f p) \<in> set (eb_settled ?b)" using "3.prems"(7) by (simp add: new)
    then show ?thesis using resolve_groups_prefix [OF rg] 0 by (auto dest: set_mono_prefix)
  next
    case (Suc j)
    have st: "set (settled_ids ?b) = set (settled_ids b) \<union> pe_id ` set (snd g)"
      by (auto simp: settled_ids_def new)
    have d1: "pe_id ` set (snd g) \<inter> pe_id ` set (concat (map snd gs)) = {}"
      using "3.prems"(4) by simp
    have d2: "pe_id ` set (concat (map snd gs)) \<inter> set (settled_ids b) = {}"
      using "3.prems"(5) by (simp add: image_Un Int_Un_distrib2)
    have "pe_id ` set (concat (map snd gs)) \<inter> set (settled_ids ?b) = {}"
      unfolding st using d1 d2 by blast
    then show ?thesis
      using "3.IH" [OF _ rg] "3.prems" v Suc by simp
  qed
qed auto

lemma concat_groups_mset:
  assumes "distinct ks"
  shows "mset (concat (map (\<lambda>k. filter (\<lambda>p. f p = k) ps) ks)) = mset (filter (\<lambda>p. f p \<in> set ks) ps)"
  using assms
proof (induction ks)
  case (Cons k ks)
  have "mset (filter (\<lambda>p. f p \<in> set (k # ks)) ps)
      = mset (filter (\<lambda>p. f p = k) ps) + mset (filter (\<lambda>p. f p \<in> set ks) ps)"
    using Cons.prems by (induction ps) auto
  then show ?case using Cons by simp
qed simp

lemma make_batch_keys: "keys (ba_groups (make_batch ps)) = dedupe (map pe_key ps)"
  using make_batch_ok [of ps] unfolding group_ok_def fst_conv by blast

lemma make_batch_texts:
  "ba_texts (make_batch ps) = map (\<lambda>e. pe_text (hd (snd e))) (ba_groups (make_batch ps))"
  using make_batch_ok [of ps] unfolding group_ok_def fst_conv snd_conv by blast

lemma make_batch_member:
  assumes "e \<in> set (ba_groups (make_batch ps))"
  shows "snd e = filter (\<lambda>p. pe_key p = fst e) ps"
proof -
  have "distinct (keys (ba_groups (make_batch ps)))"
    unfolding make_batch_keys by (rule distinct_dedupe)
  then have "map_get (ba_groups (make_batch ps)) (fst e) = Some (snd e)"
    using assms unfolding map_get_def by (metis map_of_is_SomeI prod.collapse)
  then show ?thesis
    using make_batch_ok [of ps] unfolding group_ok_def fst_conv Let_def
    by (metis option.distinct(1) option.inject)
qed

lemma group_mset: "mset (concat (map snd (ba_groups (make_batch ps)))) = mset ps"
proof -
  let ?gs = "ba_groups (make_batch ps)"
  have "map snd ?gs = map (\<lambda>e. filter (\<lambda>p. pe_key p = fst e) ps) ?gs"
    by (rule map_cong [OF refl]) (rule make_batch_member)
  also have "\<dots> = map (\<lambda>k. filter (\<lambda>p. pe_key p = k) ps) (keys ?gs)" by simp
  finally have "map snd ?gs = map (\<lambda>k. filter (\<lambda>p. pe_key p = k) ps) (dedupe (map pe_key ps))"
    by (simp only: make_batch_keys)
  then have "mset (concat (map snd ?gs))
      = mset (filter (\<lambda>p. pe_key p \<in> set (dedupe (map pe_key ps))) ps)"
    by (simp only: concat_groups_mset [OF distinct_dedupe])
  also have "filter (\<lambda>p. pe_key p \<in> set (dedupe (map pe_key ps))) ps = ps"
    by (simp add: filter_id_conv)
  finally show ?thesis .
qed

end
