(* ===== verification/PropsUtil.thy ===== *)
theory PropsUtil
  imports IpGuard LruCache InflightGate EmbedBatcherSafety
begin

text \<open>
  The properties of the runtime utilities (src/src/util): admission gate, embedding batcher,
  LRU cache and client addresses, each with a witness where it has hypotheses.
\<close>

section \<open>The admission gate\<close>

text \<open>C33: in every state the gate can reach, the counter is the number of tokens out and within
  the limit, the queue is within its limit and only non-empty when every slot is taken (no lost
  wakeup), and every call ever made is either waiting or settled, and settled once.\<close>

theorem gate_safety:
  assumes "gate_step\<^sup>*\<^sup>* (gate_new a b c) g"
  shows "ga_inflight g = length (held_tokens g) \<and> ga_inflight g \<le> ga_maxInflight g
    \<and> length (ga_queue g) \<le> ga_maxQueue g
    \<and> (ga_queue g \<noteq> [] \<longrightarrow> ga_inflight g = ga_maxInflight g)
    \<and> distinct (settled g @ waiting g) \<and> set (settled g @ waiting g) = {..<ga_next g}"
proof -
  have "gate_inv (gate_new a b c)" by (rule gate.inv_initial) blast
  then have "gate_inv g" using gate.run_inv [OF assms] by blast
  then show ?thesis unfolding gate_inv_def by blast
qed

theorem gate_safety_witness:
  "ga_inflight (gate_acquire 5 (gate_acquire 3 (gate_new 1 2 10))) = 1
   \<and> ga_inflight (gate_acquire 5 (gate_acquire 3 (gate_new 1 2 10)))
       \<le> ga_maxInflight (gate_acquire 5 (gate_acquire 3 (gate_new 1 2 10)))"
proof -
  have "gate_step\<^sup>*\<^sup>* (gate_new 1 2 10) (gate_acquire 5 (gate_acquire 3 (gate_new 1 2 10)))"
    by (meson gate_step.acquire rtranclp.rtrancl_into_rtrancl rtranclp.rtrancl_refl)
  from gate_safety [OF this] show ?thesis
    by (simp add: gate_acquire_def gate_new_def gate_settle_def Let_def)
qed

text \<open>Nobody waits forever if tokens are given back: from any reachable state, releasing the
  oldest token as often as there are tokens and waiters empties the gate, and then every call
  ever made is settled.\<close>

theorem gate_drains:
  assumes "gate_step\<^sup>*\<^sup>* (gate_new a b c) g"
  shows "ga_inflight (drain (gate_load g) now g) = 0 \<and> ga_queue (drain (gate_load g) now g) = []
    \<and> set (settled (drain (gate_load g) now g)) = {..<ga_next g}"
proof -
  have "gate_inv (gate_new a b c)" by (rule gate.inv_initial) blast
  then have "gate_inv g" using gate.run_inv [OF assms] by blast
  from drain_empty [OF this order_refl, of now] show ?thesis
    by (auto simp: gate_inv_def waiting_def)
qed

theorem gate_drains_witness:
  "ga_queue (drain 2 9 (gate_acquire 5 (gate_acquire 3 (gate_new 1 2 10)))) = []"
proof -
  have "gate_step\<^sup>*\<^sup>* (gate_new 1 2 10) (gate_acquire 5 (gate_acquire 3 (gate_new 1 2 10)))"
    by (meson gate_step.acquire rtranclp.rtrancl_into_rtrancl rtranclp.rtrancl_refl)
  moreover have "gate_load (gate_acquire 5 (gate_acquire 3 (gate_new 1 2 10))) = 2" by code_simp
  ultimately show ?thesis using gate_drains by metis
qed

text \<open>Slots are handed over in order: releasing a token that is out grants the waiter at the
  head of the queue with its waiting time, leaves the rest of the queue alone and keeps the
  counter; releasing it again changes nothing.\<close>

theorem gate_release_fifo:
  assumes "i \<in> set (held_tokens g)" "ga_queue g = w # ws"
  shows "ga_outcomes (gate_release i now g) = ga_outcomes g @ [(wt_id w, Granted (now - wt_enqueuedAtMs w))]
    \<and> ga_queue (gate_release i now g) = ws \<and> ga_inflight (gate_release i now g) = ga_inflight g
    \<and> gate_release i later (gate_release i now g) = gate_release i now g"
  using assms
  by (auto simp: gate_release_def gate_releaseSlot_def gate_settle_def held_tokens_def)

theorem gate_release_fifo_witness:
  "ga_outcomes (gate_release 0 9 (gate_acquire 5 (gate_acquire 3 (gate_new 1 2 10))))
     = [(0, Granted 0), (1, Granted 4)]"
proof -
  let ?g = "gate_acquire 5 (gate_acquire 3 (gate_new 1 2 10))"
  have g: "held_tokens ?g = [0]" "ga_queue ?g = [\<lparr>wt_id = 1, wt_enqueuedAtMs = 5\<rparr>]"
    "ga_outcomes ?g = [(0, Granted 0)]" by code_simp+
  from gate_release_fifo [of 0 ?g "\<lparr>wt_id = 1, wt_enqueuedAtMs = 5\<rparr>" "[]" 9] show ?thesis
    by (simp add: g)
qed

section \<open>The embedding batcher\<close>

text \<open>C34: in every state the batcher can reach, the running batches are within their limit and
  counted correctly, the queue is within its limit, a queue that is not empty has a timer
  armed, and the accepted calls are, each exactly once, settled, in a running batch or
  queued.\<close>

theorem batcher_safety:
  assumes "batcher_step\<^sup>*\<^sup>* (batcher_new a c d e) b"
  shows "eb_inflightBatches b = length (eb_running b) \<and> eb_inflightBatches b \<le> eb_maxInflightBatches b
    \<and> length (eb_queue b) \<le> eb_maxQueue b \<and> (eb_queue b \<noteq> [] \<longrightarrow> eb_flushTimer b)
    \<and> mset (settled_ids b) + mset (running_ids b) + mset (queued_ids b) = mset [0..<eb_next b]"
proof -
  have "batcher_inv (batcher_new a c d e)" by (rule batcher.inv_initial) blast
  then have "batcher_inv b" using batcher.run_inv [OF assms] by blast
  then show ?thesis by (simp add: batcher_inv_def limits_ok_def accounted_def)
qed

theorem batcher_safety_witness:
  "\<exists>b. enqueue ''k'' ''t'' 0 (batcher_new 2 1 5 100) = Inr b \<and> eb_queue b \<noteq> [] \<and> eb_flushTimer b"
proof -
  obtain b where b: "enqueue ''k'' ''t'' 0 (batcher_new 2 1 5 100) = Inr b" "eb_queue b \<noteq> []"
    by (auto simp: enqueue_def batcher_new_def)
  have "batcher_step\<^sup>*\<^sup>* (batcher_new 2 1 5 100) b"
    using b(1) bs_enqueue by blast
  from batcher_safety [OF this] b show ?thesis by blast
qed

text \<open>When a batch comes back with one vector of 1536 numbers per distinct key, every call in
  it receives the vector at the place of its own key among the distinct keys of the batch (and
  the text sent at that place is that of the first call with the key).\<close>

theorem batch_vectors_by_key:
  assumes "distinct (map pe_id ps)" "pe_id ` set ps \<inter> set (settled_ids b) = {}"
    and "length vs = length (dedupe (map pe_key ps))" "\<forall>v \<in> set vs. length v = 1536"
    and "p \<in> set ps" "i < length vs" "dedupe (map pe_key ps) ! i = pe_key p"
  shows "(pe_id p, Resolved (vs ! i) (now - pe_enqueuedAtMs p) (length vs))
      \<in> set (eb_settled (settle_batch now (make_batch ps) (Inr vs) b))
    \<and> ba_texts (make_batch ps) ! i = pe_text (hd (filter (\<lambda>q. pe_key q = pe_key p) ps))"
proof -
  let ?ba = "make_batch ps"
  let ?gs = "ba_groups ?ba"
  have len: "length ?gs = length vs" using make_batch_keys [of ps] assms(3) by (metis length_map)
  have "fst (?gs ! i) = pe_key p" using make_batch_keys [of ps] assms(6,7) len by (metis nth_map)
  then have si: "snd (?gs ! i) = filter (\<lambda>q. pe_key q = pe_key p) ps"
    using make_batch_member [of "?gs ! i" ps] assms(6) len by simp
  note texts = make_batch_texts [of ps]
  have items: "mset (concat (map snd ?gs)) = mset ps" by (rule group_mset)
  then have same: "set (concat (map snd ?gs)) = set ps" by (metis set_mset_mset)
  have dist: "distinct (map pe_id (concat (map snd ?gs)))"
    using assms(1) items by (metis mset_map mset_eq_imp_distinct_iff)
  have res: "(pe_id p, Resolved (vs ! i) (now - pe_enqueuedAtMs p) (length vs)) \<in> set (eb_settled b')"
    if "resolve_groups now (length vs) ?gs vs (b\<lparr>eb_running := remove1 ?ba (eb_running b)\<rparr>) = (err0, b')" for err0 b'
    by (rule resolve_groups_result [OF that])
      (use assms len si dist same in \<open>auto simp: settled_ids_def simp del: map_map set_concat\<close>)
  have lt: "length (ba_texts ?ba) = length vs" using texts len by simp
  show ?thesis
  proof
    obtain err0 b' where rg: "resolve_groups now (length vs) ?gs vs (b\<lparr>eb_running := remove1 ?ba (eb_running b)\<rparr>) = (err0, b')"
      by fastforce
    have none: "err0 = None" using resolve_groups_fine [OF rg] len assms(4) by simp
    show "(pe_id p, Resolved (vs ! i) (now - pe_enqueuedAtMs p) (length vs))
        \<in> set (eb_settled (settle_batch now ?ba (Inr vs) b))"
      using res [OF rg] by (simp add: settle_batch_def lt rg none Let_def)
    show "ba_texts ?ba ! i = pe_text (hd (filter (\<lambda>q. pe_key q = pe_key p) ps))"
      using texts si len assms(6) by simp
  qed
qed

theorem batch_vectors_by_key_witness:
  "\<exists>out. (7, out) \<in> set (eb_settled (settle_batch 9
      (make_batch [\<lparr>pe_id = 7, pe_key = ''k'', pe_text = ''t'', pe_enqueuedAtMs = 4\<rparr>])
      (Inr [replicate 1536 (Fin 0)]) (batcher_new 2 1 5 100)))"
  using batch_vectors_by_key [of "[\<lparr>pe_id = 7, pe_key = ''k'', pe_text = ''t'', pe_enqueuedAtMs = 4\<rparr>]"
      "batcher_new 2 1 5 100" "[replicate 1536 (Fin 0)]"
      "\<lparr>pe_id = 7, pe_key = ''k'', pe_text = ''t'', pe_enqueuedAtMs = 4\<rparr>" 0 9]
  by (auto simp: settled_ids_def batcher_new_def dedupe_def)

section \<open>The LRU cache\<close>

text \<open>After any operations on a new cache its keys are distinct and at most the configured
  number, and a write leaves the most recently used ones: the written key moves to the end and
  keys leave from the front.\<close>

theorem lru_bounded:
  assumes "c = foldl run_op (lru_new m t) ops"
  shows "distinct (lru_keys c) \<and> lru_size c \<le> lru_maxEntries c
    \<and> lru_keys (lru_set k v now c)
        = (let ks = filter (\<lambda>x. x \<noteq> k) (lru_keys c) @ [k] in drop (length ks - lru_maxEntries c) ks)"
proof -
  have "lru_inv (lru_new m t)" by (rule lru.inv_initial) blast
  then have inv: "lru_inv c" unfolding assms by (rule lru_run_inv)
  then have "distinct (lru_keys c)" by (simp add: lru_inv_def)
  with inv lru_keys_set [OF this] show ?thesis by (simp add: lru_inv_def lru_size_def lru_keys_def)
qed

theorem lru_bounded_witness:
  "lru_size (foldl run_op (lru_new 2 1000) [OpSet ''a'' True 0, OpSet ''b'' True 1, OpGet ''a'' 2, OpSet ''c'' True 3])
     \<le> lru_maxEntries (foldl run_op (lru_new 2 1000) [OpSet ''a'' True 0, OpSet ''b'' True 1, OpGet ''a'' 2, OpSet ''c'' True 3])"
  using lru_bounded [of _ 2 1000 "[OpSet ''a'' True 0, OpSet ''b'' True 1, OpGet ''a'' 2, OpSet ''c'' True 3]", OF refl]
  by blast

text \<open>A written entry is served until it expires, whatever happens in between, as long as the
  key is not written again, is not read after its expiry, and fewer other keys have been used
  than the cache holds entries.\<close>

theorem lru_retention:
  assumes "c = foldl run_op (lru_new m t) earlier"
    and "\<forall>p \<in> set ops. keeps k (now + lru_ttlMs c) p"
    and "card (others k ops) < lru_maxEntries c" "later < now + lru_ttlMs c"
  shows "fst (lru_get k later (foldl run_op (lru_set k v now c) ops)) = Some v"
proof -
  have "lru_inv (lru_new m t)" by (rule lru.inv_initial) blast
  then have inv: "lru_inv c" unfolding assms(1) by (rule lru_run_inv)
  have "held k \<lparr>ent_value = v, ent_expiresAtMs = now + lru_ttlMs c\<rparr> ({} \<union> others k ops)
      (foldl run_op (lru_set k v now c) ops)"
    using assms by (intro held_run held_after_set lru_set_inv inv) auto
  then show ?thesis using assms(4) by (auto simp: held_def lru_get_def)
qed

theorem lru_retention_witness:
  "fst (lru_get ''a'' 500 (foldl run_op (lru_set ''a'' True 0 (lru_new 2 1000)) [OpSet ''b'' False 1, OpGet ''b'' 2]))
     = Some True"
proof -
  have "others ''a'' [OpSet ''b'' False 1, OpGet ''b'' 2] = {''b''}" by (auto simp: others_def)
  then show ?thesis
    using lru_retention [of "lru_new 2 1000" 2 1000 "[]" "[OpSet ''b'' False 1, OpGet ''b'' 2]" "''a''" 0 500 True]
    by (simp add: lru_new_def keeps_def)
qed

text \<open>An expired entry is never served: what a read returns was stored with an expiry after
  the time of the read.\<close>

theorem lru_never_stale:
  assumes "fst (lru_get k now c) = Some v"
  shows "\<exists>e. map_get (lru_map c) k = Some e \<and> ent_value e = v \<and> now < ent_expiresAtMs e"
  using assms by (auto simp: lru_get_def split: option.splits if_splits)

theorem lru_never_stale_witness:
  "\<exists>e. map_get (lru_map (lru_set ''a'' True 0 (lru_new 2 1000))) ''a'' = Some e \<and> 500 < ent_expiresAtMs e"
proof -
  have "fst (lru_get ''a'' 500 (lru_set ''a'' True 0 (lru_new 2 1000))) = Some True" by code_simp
  from lru_never_stale [OF this] show ?thesis by blast
qed

section \<open>Client addresses\<close>

text \<open>An address and a block match exactly when both parse, the prefix is a whole number up to
  32, and the addresses agree on that many leading bits.\<close>

theorem cidr_match_exact:
  "isIpv4InCidr ip cidr \<longleftrightarrow>
     (\<exists>base ipInt p. parseIpv4Int (hd (js_split (CHR ''/'') cidr)) = Some base
        \<and> parseIpv4Int ip = Some ipInt \<and> prefix_of (js_split (CHR ''/'') cidr) = Fin (of_nat p)
        \<and> p \<le> 32 \<and> same_block p base ipInt)"
  by (rule isIpv4InCidr_iff)

text \<open>Every dotted address with octets up to 255 parses to the word it denotes.\<close>

theorem ipv4_print_parse:
  assumes "a < 256" "b < 256" "c < 256" "d < 256"
  shows "parseIpv4Int (print_ip a b c d) = Some (ip_word a b c d)"
  using assms by (rule parseIpv4Int_print)

theorem ipv4_print_parse_witness:
  "parseIpv4Int ''192.168.0.1'' = Some (ip_word 192 168 0 1)"
proof -
  have "print_ip 192 168 0 1 = ''192.168.0.1''" by code_simp
  with ipv4_print_parse [of 192 168 0 1] show ?thesis by simp
qed

text \<open>A client that is not behind a trusted proxy cannot choose its address: unless the remote
  address passes the list of trusted blocks, no header has any influence, and with an empty
  list none ever has.\<close>

theorem untrusted_client_cannot_spoof:
  assumes "\<not> ipAllowed (normalizeIp remote) trusted \<or> trusted = []"
  shows "resolveTrustedClientIp remote headers trusted = normalizeIp remote"
  using assms untrusted_headers_ignored by (auto simp: ipAllowed_def Let_def)

theorem untrusted_client_cannot_spoof_witness:
  "resolveTrustedClientIp (Some ''10.0.0.9'') [(''x-real-ip'', JStr ''1.2.3.4'')] [] = ''10.0.0.9''"
proof -
  have "normalizeIp (Some ''10.0.0.9'') = ''10.0.0.9''" by code_simp
  then show ?thesis using untrusted_client_cannot_spoof [of "Some ''10.0.0.9''" "[]"] by simp
qed

end
