(* ===== verification/ContractTrust.thy ===== *)
theory ContractTrust
  imports JsConvert
begin

text \<open>
  The trust of an execution contract and the gate of its outcome: src/memory/contract-trust.ts.
  A contract is any value; what it says is read member by member, as in the source.  The
  schema that the gate is parsed with is written out (\<open>gate_schema\<close>), and its error is a value.
\<close>

section \<open>Trust\<close>

datatype contract_trust = Observational | Advisory | Authoritative

fun CONTRACT_TRUST_RANK :: "contract_trust \<Rightarrow> nat" where
  "CONTRACT_TRUST_RANK Observational = 0"
| "CONTRACT_TRUST_RANK Advisory = 1"
| "CONTRACT_TRUST_RANK Authoritative = 2"

text \<open>The order of the ranks.\<close>

instantiation contract_trust :: linorder
begin

definition less_eq_contract_trust :: "contract_trust \<Rightarrow> contract_trust \<Rightarrow> bool" where
  "less_eq_contract_trust a b \<longleftrightarrow> CONTRACT_TRUST_RANK a \<le> CONTRACT_TRUST_RANK b"

definition less_contract_trust :: "contract_trust \<Rightarrow> contract_trust \<Rightarrow> bool" where
  "less_contract_trust a b \<longleftrightarrow> CONTRACT_TRUST_RANK a < CONTRACT_TRUST_RANK b"

instance
proof
  fix x y z :: contract_trust
  show "x < y \<longleftrightarrow> x \<le> y \<and> \<not> y \<le> x" by (auto simp: less_eq_contract_trust_def less_contract_trust_def)
  show "x \<le> x" by (simp add: less_eq_contract_trust_def)
  show "x \<le> y \<Longrightarrow> y \<le> z \<Longrightarrow> x \<le> z" by (simp add: less_eq_contract_trust_def)
  show "x \<le> y \<Longrightarrow> y \<le> x \<Longrightarrow> x = y" by (cases x; cases y) (simp_all add: less_eq_contract_trust_def)
  show "x \<le> y \<or> y \<le> x" by (auto simp: less_eq_contract_trust_def)
qed

end

lemma Authoritative_greatest [simp]: "t \<le> Authoritative"
  by (cases t) (simp_all add: less_eq_contract_trust_def)

lemma min_Authoritative [simp]: "min a b = Authoritative \<longleftrightarrow> a = Authoritative \<and> b = Authoritative"
  by (cases a; cases b) (simp_all add: min_def less_eq_contract_trust_def)

definition normalizeContractTrust :: "jv option \<Rightarrow> contract_trust option" where
  "normalizeContractTrust v =
     (if v = Some (JStr ''authoritative'') then Some Authoritative
      else if v = Some (JStr ''advisory'') then Some Advisory
      else if v = Some (JStr ''observational'') then Some Observational else None)"

fun trust_value :: "contract_trust \<Rightarrow> jv" where
  "trust_value Authoritative = JStr ''authoritative''"
| "trust_value Advisory = JStr ''advisory''"
| "trust_value Observational = JStr ''observational''"

lemma normalize_trust_value [simp]: "normalizeContractTrust (Some (trust_value t)) = Some t"
  by (cases t) (simp_all add: normalizeContractTrust_def)

definition minContractTrust :: "contract_trust \<Rightarrow> contract_trust \<Rightarrow> contract_trust" where
  "minContractTrust a b = (if CONTRACT_TRUST_RANK a \<le> CONTRACT_TRUST_RANK b then a else b)"

lemma minContractTrust_min: "minContractTrust a b = min a b"
  by (simp add: minContractTrust_def min_def less_eq_contract_trust_def)

section \<open>Reading a contract\<close>

definition asRecord :: "jv option \<Rightarrow> jv option" where
  "asRecord v = (case v of Some u \<Rightarrow> if is_plain_object u then Some u else None | None \<Rightarrow> None)"

definition nonEmptyString :: "jv option \<Rightarrow> string option" where
  "nonEmptyString v = (case v of Some (JStr s) \<Rightarrow> if js_trim s = [] then None else Some (js_trim s) | _ \<Rightarrow> None)"

definition stringList :: "jv option \<Rightarrow> string list" where
  "stringList v = (case v of Some (JArr vs) \<Rightarrow> List.map_filter (\<lambda>u. nonEmptyString (Some u)) vs | _ \<Rightarrow> [])"

definition booleanField :: "jv \<Rightarrow> string \<Rightarrow> bool" where
  "booleanField r field \<longleftrightarrow> js_get r field = Some (JBool True)"

definition serviceConstraintRecords :: "jv option \<Rightarrow> jv list" where
  "serviceConstraintRecords v = (case v of Some (JArr vs) \<Rightarrow> filter is_plain_object vs | _ \<Rightarrow> [])"

definition isDurableServiceLifecycleConstraint :: "jv \<Rightarrow> bool" where
  "isDurableServiceLifecycleConstraint c \<longleftrightarrow>
     nonEmptyString (js_get c ''service_kind'') \<in> {Some ''http'', Some ''tcp'', Some ''process''}
     \<or> nonEmptyString (js_get c ''endpoint'') \<noteq> None \<or> nonEmptyString (js_get c ''launch_reference'') \<noteq> None"

definition GENERIC_SUCCESS_INVARIANTS :: "string list" where
  "GENERIC_SUCCESS_INVARIANTS =
     [''all_acceptance_checks_pass'', ''target_files_reflect_the_intended_change_surface'']"

section \<open>The gate\<close>

datatype gate_status = Sufficient | Insufficient

record decisive_fields =
  df_acceptance_check_count :: nat
  df_success_invariant_count :: nat
  df_meaningful_success_invariant_count :: nat
  df_must_hold_after_exit_count :: nat
  df_external_visibility_requirement_count :: nat
  df_service_lifecycle_constraint_count :: nat
  df_durable_service_lifecycle_constraint_count :: nat
  df_service_must_survive_agent_exit_count :: nat
  df_service_revalidate_from_fresh_shell_count :: nat
  df_service_detach_then_probe_count :: nat
  df_service_health_check_count :: nat

record outcome_gate =
  og_status :: gate_status
  og_allows_authoritative :: bool
  og_requested_trust :: "contract_trust option"
  og_effective_trust :: "contract_trust option"
  og_reasons :: "string list"
  og_requires_service_lifecycle_outcome :: bool
  og_decisive_fields :: decisive_fields

text \<open>The bounds of OutcomeContractGateSchema; the counts are natural numbers.\<close>

definition gate_schema :: "outcome_gate \<Rightarrow> string + outcome_gate" where
  "gate_schema g =
     (if length (og_reasons g) \<le> 16 \<and> list_all (\<lambda>r. r \<noteq> [] \<and> length r \<le> 128) (og_reasons g)
      then Inr g else Inl ''ZodError'')"

text \<open>What a contract says about its outcome.\<close>

definition outcome_list :: "jv option \<Rightarrow> string \<Rightarrow> string list" where
  "outcome_list contract k =
     stringList (or_nullish (chain_get (asRecord (chain_get (asRecord contract) ''outcome'')) k)
                   (chain_get (asRecord contract) k))"

definition service_constraints :: "jv option \<Rightarrow> jv list" where
  "service_constraints contract =
     serviceConstraintRecords (chain_get (asRecord contract) ''service_lifecycle_constraints'')"

definition durable_constraints :: "jv option \<Rightarrow> jv list" where
  "durable_constraints contract = filter isDurableServiceLifecycleConstraint (service_constraints contract)"

definition count_field :: "jv option \<Rightarrow> string \<Rightarrow> nat" where
  "count_field contract field = length (filter (\<lambda>c. booleanField c field) (durable_constraints contract))"

definition health_check_count :: "jv option \<Rightarrow> nat" where
  "health_check_count contract =
     sum_list (map (\<lambda>c. length (stringList (js_get c ''health_checks''))) (durable_constraints contract))"

definition meaningful_invariants :: "jv option \<Rightarrow> string list" where
  "meaningful_invariants contract =
     filter (\<lambda>i. i \<notin> set GENERIC_SUCCESS_INVARIANTS) (outcome_list contract ''success_invariants'')"

definition hasVerifiableOutcome :: "jv option \<Rightarrow> bool" where
  "hasVerifiableOutcome contract \<longleftrightarrow>
     meaningful_invariants contract \<noteq> []
     \<or> outcome_list contract ''acceptance_checks'' \<noteq> []
       \<and> ''all_acceptance_checks_pass'' \<in> set (outcome_list contract ''success_invariants'')
     \<or> outcome_list contract ''must_hold_after_exit'' \<noteq> []
       \<and> outcome_list contract ''external_visibility_requirements'' \<noteq> []"

definition push_if :: "bool \<Rightarrow> string \<Rightarrow> string list" where
  "push_if b s = (if b then [s] else [])"

definition gate_reasons :: "jv option \<Rightarrow> string list" where
  "gate_reasons contract =
     (let durable = length (durable_constraints contract);
          req = (durable > 0)
      in push_if (\<not> hasVerifiableOutcome contract) ''missing_verifiable_success_outcome''
         @ push_if (req \<and> outcome_list contract ''must_hold_after_exit'' = []) ''missing_must_hold_after_exit''
         @ push_if (req \<and> outcome_list contract ''external_visibility_requirements'' = [])
             ''missing_external_visibility_requirements''
         @ push_if (req \<and> count_field contract ''must_survive_agent_exit'' < durable)
             ''missing_service_must_survive_agent_exit''
         @ push_if (req \<and> count_field contract ''revalidate_from_fresh_shell'' < durable)
             ''missing_service_revalidate_from_fresh_shell''
         @ push_if (req \<and> count_field contract ''detach_then_probe'' < durable)
             ''missing_service_detach_then_probe''
         @ push_if (req \<and> health_check_count contract = 0) ''missing_service_health_check'')"

definition gate_fields :: "jv option \<Rightarrow> decisive_fields" where
  "gate_fields contract =
     \<lparr>df_acceptance_check_count = length (outcome_list contract ''acceptance_checks''),
      df_success_invariant_count = length (outcome_list contract ''success_invariants''),
      df_meaningful_success_invariant_count = length (meaningful_invariants contract),
      df_must_hold_after_exit_count = length (outcome_list contract ''must_hold_after_exit''),
      df_external_visibility_requirement_count = length (outcome_list contract ''external_visibility_requirements''),
      df_service_lifecycle_constraint_count = length (service_constraints contract),
      df_durable_service_lifecycle_constraint_count = length (durable_constraints contract),
      df_service_must_survive_agent_exit_count = count_field contract ''must_survive_agent_exit'',
      df_service_revalidate_from_fresh_shell_count = count_field contract ''revalidate_from_fresh_shell'',
      df_service_detach_then_probe_count = count_field contract ''detach_then_probe'',
      df_service_health_check_count = health_check_count contract\<rparr>"

definition buildOutcomeContractGate :: "jv option \<Rightarrow> jv option \<Rightarrow> string + outcome_gate" where
  "buildOutcomeContractGate contract requested =
     (let reasons = gate_reasons contract;
          requestedTrust = normalizeContractTrust
            (or_nullish requested (chain_get (asRecord contract) ''contract_trust''));
          allows = (requestedTrust = Some Authoritative \<and> reasons = [])
      in gate_schema
           \<lparr>og_status = (if reasons = [] then Sufficient else Insufficient),
            og_allows_authoritative = allows,
            og_requested_trust = requestedTrust,
            og_effective_trust =
              (if requestedTrust = Some Authoritative then (if allows then Some Authoritative else Some Advisory)
               else requestedTrust),
            og_reasons = reasons,
            og_requires_service_lifecycle_outcome = (durable_constraints contract \<noteq> []),
            og_decisive_fields = gate_fields contract\<rparr>)"

definition withAdditionalGateReasons :: "outcome_gate \<Rightarrow> string list \<Rightarrow> string + outcome_gate" where
  "withAdditionalGateReasons gate reasons =
     (let merged = dedupe (og_reasons gate @ filter (\<lambda>r. js_trim r \<noteq> []) reasons);
          allows = (og_allows_authoritative gate \<and> length merged = length (og_reasons gate))
      in gate_schema
           (gate\<lparr>og_status := (if allows then og_status gate else Insufficient),
                 og_allows_authoritative := allows,
                 og_effective_trust :=
                   (if og_requested_trust gate = Some Authoritative
                    then (if allows then Some Authoritative else Some Advisory)
                    else og_effective_trust gate),
                 og_reasons := merged\<rparr>))"

definition evaluateAuthoritativeOutcomeContract :: "jv option \<Rightarrow> string + bool \<times> string list \<times> bool" where
  "evaluateAuthoritativeOutcomeContract contract =
     and_then (buildOutcomeContractGate contract (Some (JStr ''authoritative''))) (\<lambda>gate.
       Inr (og_status gate = Sufficient, og_reasons gate, og_requires_service_lifecycle_outcome gate))"

definition hasAuthoritativeOutcomeSignal :: "jv option \<Rightarrow> string + bool" where
  "hasAuthoritativeOutcomeSignal contract =
     and_then (evaluateAuthoritativeOutcomeContract contract) (\<lambda>r. Inr (fst r))"

definition explainContractTrustForSteering ::
  "contract_trust \<Rightarrow> jv option \<Rightarrow> jv option \<Rightarrow> string + contract_trust \<times> outcome_gate" where
  "explainContractTrustForSteering computed explicit contract =
     (let explicitTrust = normalizeContractTrust explicit;
          candidate = (case explicitTrust of Some e \<Rightarrow> minContractTrust e computed | None \<Rightarrow> computed)
      in and_then (buildOutcomeContractGate contract
                     (Some (trust_value (case explicitTrust of Some e \<Rightarrow> e | None \<Rightarrow> candidate)))) (\<lambda>gate.
           if candidate \<noteq> Authoritative then Inr (candidate, gate)
           else if explicitTrust \<noteq> Some Authoritative then
             and_then (withAdditionalGateReasons gate [''missing_explicit_authoritative_trust''])
               (\<lambda>gate'. Inr (Advisory, gate'))
           else if \<not> og_allows_authoritative gate then Inr (Advisory, gate)
           else Inr (Authoritative, gate)))"

definition resolveContractTrustForSteering ::
  "contract_trust \<Rightarrow> jv option \<Rightarrow> jv option \<Rightarrow> string + contract_trust" where
  "resolveContractTrustForSteering computed explicit contract =
     and_then (explainContractTrustForSteering computed explicit contract) (\<lambda>r. Inr (fst r))"

section \<open>The gate never throws\<close>

lemma set_push_if [simp]: "set (push_if b s) = (if b then {s} else {})"
  by (simp add: push_if_def)

lemma length_push_if: "length (push_if b s) \<le> 1"
  by (simp add: push_if_def)

lemma push_if_Nil [simp]: "push_if b s = [] \<longleftrightarrow> \<not> b"
  by (simp add: push_if_def)

definition reasons_ok :: "nat \<Rightarrow> string list \<Rightarrow> bool" where
  "reasons_ok n rs \<longleftrightarrow> length rs \<le> n \<and> list_all (\<lambda>r. r \<noteq> [] \<and> length r \<le> 128) rs"

lemma reasons_ok_push:
  "s \<noteq> [] \<Longrightarrow> length s \<le> 128 \<Longrightarrow> reasons_ok n rs \<Longrightarrow> reasons_ok (Suc n) (push_if b s @ rs)"
  by (simp add: reasons_ok_def push_if_def)

lemma reasons_ok_last:
  "s \<noteq> [] \<Longrightarrow> length s \<le> 128 \<Longrightarrow> reasons_ok (Suc 0) (push_if b s)"
  by (simp add: reasons_ok_def push_if_def)

lemma gate_reasons_ok: "reasons_ok (Suc (Suc (Suc (Suc (Suc (Suc (Suc 0))))))) (gate_reasons contract)"
  unfolding gate_reasons_def Let_def
  by (intro reasons_ok_push reasons_ok_last) simp_all

lemma gate_reasons_Nil:
  "gate_reasons contract = [] \<longleftrightarrow> hasVerifiableOutcome contract
     \<and> (durable_constraints contract \<noteq> [] \<longrightarrow>
          outcome_list contract ''must_hold_after_exit'' \<noteq> []
          \<and> outcome_list contract ''external_visibility_requirements'' \<noteq> []
          \<and> (\<forall>c \<in> set (durable_constraints contract). booleanField c ''must_survive_agent_exit''
               \<and> booleanField c ''revalidate_from_fresh_shell'' \<and> booleanField c ''detach_then_probe'')
          \<and> (\<exists>c \<in> set (durable_constraints contract). stringList (js_get c ''health_checks'') \<noteq> []))"
proof -
  have all: "\<not> count_field contract f < length (durable_constraints contract)
      \<longleftrightarrow> (\<forall>c \<in> set (durable_constraints contract). booleanField c f)" for f
    unfolding count_field_def
    by (metis (no_types, lifting) filter_True filter_id_conv le_antisym length_filter_le length_filter_less less_irrefl
        linorder_not_less)
  have health: "health_check_count contract = 0
      \<longleftrightarrow> (\<forall>c \<in> set (durable_constraints contract). stringList (js_get c ''health_checks'') = [])"
    by (auto simp: health_check_count_def)
  show ?thesis unfolding gate_reasons_def Let_def using all health by auto
qed

lemma buildOutcomeContractGate_total:
  obtains g where "buildOutcomeContractGate contract requested = Inr g"
    "og_reasons g = gate_reasons contract"
    "og_requested_trust g = normalizeContractTrust (or_nullish requested (chain_get (asRecord contract) ''contract_trust''))"
    "og_allows_authoritative g \<longleftrightarrow> og_requested_trust g = Some Authoritative \<and> gate_reasons contract = []"
    "og_status g = (if gate_reasons contract = [] then Sufficient else Insufficient)"
    "og_effective_trust g = (if og_requested_trust g = Some Authoritative \<and> gate_reasons contract \<noteq> []
       then Some Advisory else og_requested_trust g)"
proof -
  have "length (gate_reasons contract) \<le> 16" "list_all (\<lambda>r. r \<noteq> [] \<and> length r \<le> 128) (gate_reasons contract)"
    using gate_reasons_ok [of contract] by (simp_all add: reasons_ok_def)
  then show ?thesis
    by (intro that [OF buildOutcomeContractGate_def [THEN trans, unfolded gate_schema_def Let_def, OF if_P]])
      simp_all
qed

section \<open>Steering\<close>

lemma explain_total:
  obtains t g where "explainContractTrustForSteering computed explicit contract = Inr (t, g)"
    "t \<le> computed" "\<And>e. normalizeContractTrust explicit = Some e \<Longrightarrow> t \<le> e"
    "t = Authoritative \<longleftrightarrow> computed = Authoritative \<and> normalizeContractTrust explicit = Some Authoritative
       \<and> gate_reasons contract = []"
proof -
  let ?e = "normalizeContractTrust explicit"
  let ?c = "case ?e of Some e \<Rightarrow> min e computed | None \<Rightarrow> computed"
  let ?r = "case ?e of Some e \<Rightarrow> e | None \<Rightarrow> ?c"
  obtain g where g: "buildOutcomeContractGate contract (Some (trust_value ?r)) = Inr g"
    "og_reasons g = gate_reasons contract"
    "og_requested_trust g = normalizeContractTrust (or_nullish (Some (trust_value ?r)) (chain_get (asRecord contract) ''contract_trust''))"
    "og_allows_authoritative g \<longleftrightarrow> og_requested_trust g = Some Authoritative \<and> gate_reasons contract = []"
    by (rule buildOutcomeContractGate_total) blast
  have nn: "\<not> nullish (Some (trust_value t))" for t by (cases t) (simp_all add: nullish_def)
  have req: "og_requested_trust g = Some ?r" unfolding g(3) by (simp add: or_nullish_def nn)
  have "reasons_ok 16 (dedupe (og_reasons g @ [''missing_explicit_authoritative_trust'']))"
  proof -
    have "length (dedupe (og_reasons g @ [''missing_explicit_authoritative_trust''])) \<le> length (og_reasons g) + 1"
      by (metis card_length distinct_card distinct_dedupe length_append_singleton set_dedupe Suc_eq_plus1)
    then show ?thesis
      using gate_reasons_ok [of contract] unfolding g(2) reasons_ok_def list_all_iff by auto
  qed
  moreover have "filter (\<lambda>r. js_trim r \<noteq> []) [''missing_explicit_authoritative_trust''] = [''missing_explicit_authoritative_trust'']"
    by code_simp
  ultimately obtain g' where g': "withAdditionalGateReasons g [''missing_explicit_authoritative_trust''] = Inr g'"
    unfolding withAdditionalGateReasons_def gate_schema_def Let_def reasons_ok_def by simp
  have eq: "explainContractTrustForSteering computed explicit contract =
    (if ?c \<noteq> Authoritative then Inr (?c, g)
     else if ?e \<noteq> Some Authoritative then Inr (Advisory, g')
     else if \<not> og_allows_authoritative g then Inr (Advisory, g) else Inr (Authoritative, g))"
    unfolding explainContractTrustForSteering_def Let_def minContractTrust_min g(1) and_then_simps g' by (rule refl)
  show ?thesis
  proof (cases "?c = Authoritative")
    case False
    show ?thesis
      by (rule that [of ?c g]) (use False eq in \<open>auto split: option.splits simp: min_def\<close>)
  next
    case True
    then have c: "computed = Authoritative" "?e = None \<or> ?e = Some Authoritative"
      by (auto split: option.splits)
    show ?thesis
      by (rule that [of "if ?e = Some Authoritative \<and> gate_reasons contract = [] then Authoritative else Advisory"
            "if ?e \<noteq> Some Authoritative then g' else g"])
        (use True c eq g(4) req in auto)
  qed
qed

end
