(* ===== verification/ExecutionEvidence.thy ===== *)
theory ExecutionEvidence
  imports ContractTrust
begin

text \<open>
  The evidence that an execution worked: src/memory/execution-evidence.ts.  Evidence is read from
  values of any shape (a run summary, a compile summary, a list of records, metrics), normalised
  to one record, and assessed against what the contract of the task requires.  The zod schema
  of the record is written out over values, with undefined as \<open>None\<close>; its error, and the
  type errors of reading a contract that lacks its members, are values.
\<close>

section \<open>The record and its schema\<close>

datatype validation_boundary = BoundaryUnknown | AgentSelf | RuntimeOrchestrator | ExternalVerifier

record execution_evidence =
  ev_validation_passed :: "bool option"
  ev_after_exit_revalidated :: "bool option"
  ev_fresh_shell_probe_passed :: "bool option"
  ev_validation_boundary :: validation_boundary
  ev_failure_reason :: "string option"
  ev_false_confidence_detected :: bool
  ev_evidence_refs :: "string list"

fun boundary_name :: "validation_boundary \<Rightarrow> string" where
  "boundary_name BoundaryUnknown = ''unknown''"
| "boundary_name AgentSelf = ''agent_self''"
| "boundary_name RuntimeOrchestrator = ''runtime_orchestrator''"
| "boundary_name ExternalVerifier = ''external_verifier''"

text \<open>The field schemas: \<open>None\<close> when the field does not parse.\<close>

definition schema_string256 :: "jv \<Rightarrow> string option" where
  "schema_string256 v =
     (case v of JStr s \<Rightarrow> if js_trim s \<noteq> [] \<and> length (js_trim s) \<le> 256 then Some (js_trim s) else None | _ \<Rightarrow> None)"

fun schema_all :: "('a \<Rightarrow> 'b option) \<Rightarrow> 'a list \<Rightarrow> 'b list option" where
  "schema_all p [] = Some []"
| "schema_all p (x # xs) =
     (case (p x, schema_all p xs) of (Some y, Some ys) \<Rightarrow> Some (y # ys) | _ \<Rightarrow> None)"

definition EvidenceStringList :: "jv option \<Rightarrow> string list option" where
  "EvidenceStringList v =
     (case v of None \<Rightarrow> Some []
      | Some (JArr vs) \<Rightarrow> if length vs \<le> 32 then schema_all schema_string256 vs else None
      | _ \<Rightarrow> None)"

definition schema_nullable_bool :: "jv option \<Rightarrow> bool option option" where
  "schema_nullable_bool v =
     (case v of None \<Rightarrow> Some None | Some JNull \<Rightarrow> Some None | Some (JBool b) \<Rightarrow> Some (Some b) | _ \<Rightarrow> None)"

definition schema_default_false :: "jv option \<Rightarrow> bool option" where
  "schema_default_false v = (case v of None \<Rightarrow> Some False | Some (JBool b) \<Rightarrow> Some b | _ \<Rightarrow> None)"

definition ExecutionValidationBoundarySchema :: "jv option \<Rightarrow> validation_boundary option" where
  "ExecutionValidationBoundarySchema v =
     (if v = None \<or> v = Some (JStr ''unknown'') then Some BoundaryUnknown
      else if v = Some (JStr ''agent_self'') then Some AgentSelf
      else if v = Some (JStr ''runtime_orchestrator'') then Some RuntimeOrchestrator
      else if v = Some (JStr ''external_verifier'') then Some ExternalVerifier else None)"

definition schema_failure_reason :: "jv option \<Rightarrow> string option option" where
  "schema_failure_reason v =
     (case v of None \<Rightarrow> Some None | Some JNull \<Rightarrow> Some None
      | Some u \<Rightarrow> (case schema_string256 u of Some s \<Rightarrow> Some (Some s) | None \<Rightarrow> None))"

definition ExecutionEvidenceV1Schema :: "jv \<Rightarrow> execution_evidence option" where
  "ExecutionEvidenceV1Schema v =
     (if js_get v ''schema_version'' \<noteq> Some (JStr ''execution_evidence_v1'') then None
      else case (schema_nullable_bool (js_get v ''validation_passed''),
                 schema_nullable_bool (js_get v ''after_exit_revalidated''),
                 schema_nullable_bool (js_get v ''fresh_shell_probe_passed''),
                 ExecutionValidationBoundarySchema (js_get v ''validation_boundary''),
                 schema_failure_reason (js_get v ''failure_reason''),
                 schema_default_false (js_get v ''false_confidence_detected''),
                 EvidenceStringList (js_get v ''evidence_refs''))
           of (Some p, Some x, Some f, Some b, Some r, Some c, Some refs) \<Rightarrow>
                Some \<lparr>ev_validation_passed = p, ev_after_exit_revalidated = x,
                      ev_fresh_shell_probe_passed = f, ev_validation_boundary = b,
                      ev_failure_reason = r, ev_false_confidence_detected = c, ev_evidence_refs = refs\<rparr>
            | _ \<Rightarrow> None)"

text \<open>The object an evidence record is in JavaScript.\<close>

definition bool_value :: "bool option \<Rightarrow> jv" where
  "bool_value b = (case b of None \<Rightarrow> JNull | Some c \<Rightarrow> JBool c)"

definition evidence_value :: "execution_evidence \<Rightarrow> jv" where
  "evidence_value e =
     JObj [(''schema_version'', JStr ''execution_evidence_v1''),
           (''validation_passed'', bool_value (ev_validation_passed e)),
           (''after_exit_revalidated'', bool_value (ev_after_exit_revalidated e)),
           (''fresh_shell_probe_passed'', bool_value (ev_fresh_shell_probe_passed e)),
           (''validation_boundary'', JStr (boundary_name (ev_validation_boundary e))),
           (''failure_reason'', case ev_failure_reason e of None \<Rightarrow> JNull | Some r \<Rightarrow> JStr r),
           (''false_confidence_detected'', JBool (ev_false_confidence_detected e)),
           (''evidence_refs'', JArr (map JStr (ev_evidence_refs e)))]"

text \<open>\<^verbatim>\<open>ExecutionEvidenceV1Schema.parse\<close> of such an object.\<close>

definition parse_built_evidence :: "execution_evidence \<Rightarrow> string + execution_evidence" where
  "parse_built_evidence e =
     (case ExecutionEvidenceV1Schema (evidence_value e) of Some e' \<Rightarrow> Inr e' | None \<Rightarrow> Inl ''ZodError'')"

section \<open>Reading loose values\<close>

definition nullableString :: "jv option \<Rightarrow> string option" where
  "nullableString v =
     (case v of Some (JStr s) \<Rightarrow> (let t = js_trim s in if length t > 0 then Some t else None) | _ \<Rightarrow> None)"

text \<open>The first of a list of alternatives that is present: \<^verbatim>\<open>a ?? b ?? c\<close>.\<close>

fun first_some :: "'a option list \<Rightarrow> 'a option" where
  "first_some [] = None"
| "first_some (v # vs) = (case v of Some x \<Rightarrow> Some x | None \<Rightarrow> first_some vs)"

fun first_boolean :: "jv option \<Rightarrow> string list \<Rightarrow> bool option" where
  "first_boolean r [] = None"
| "first_boolean r (k # ks) =
     (case chain_get r k of Some (JBool b) \<Rightarrow> Some b | _ \<Rightarrow> first_boolean r ks)"

fun first_member :: "jv \<Rightarrow> string list \<Rightarrow> jv option" where
  "first_member r [] = None"
| "first_member r [k] = js_get r k"
| "first_member r (k # ks) = or_nullish (js_get r k) (first_member r ks)"

definition passed_statuses :: "string list" where
  "passed_statuses = [''ok'', ''pass'', ''passed'', ''success'', ''succeeded'', ''complete'', ''completed'']"

definition failed_statuses :: "string list" where
  "failed_statuses =
     [''fail'', ''failed'', ''failure'', ''error'', ''errored'', ''blocked'', ''timeout'', ''timed_out'']"

definition statusToValidation :: "jv option \<Rightarrow> bool option" where
  "statusToValidation v =
     (case map_option js_lower (nullableString v) of
        None \<Rightarrow> None
      | Some status \<Rightarrow> if status \<in> set passed_statuses then Some True
                       else if status \<in> set failed_statuses then Some False else None)"

text \<open>\<^verbatim>\<open>s.replace(/[-\s]+/g, "_")\<close>; \<open>dash_run\<close> says that the last character belonged to a run.\<close>

fun dashes_to_underscore :: "bool \<Rightarrow> string \<Rightarrow> string" where
  "dashes_to_underscore dash_run [] = []"
| "dashes_to_underscore dash_run (c # s) =
     (if c = CHR ''-'' \<or> is_ws c
      then (if dash_run then dashes_to_underscore True s else CHR ''_'' # dashes_to_underscore True s)
      else c # dashes_to_underscore False s)"

definition normalizeValidationBoundary :: "jv option \<Rightarrow> validation_boundary" where
  "normalizeValidationBoundary v =
     (case map_option (\<lambda>s. dashes_to_underscore False (js_lower s)) (nullableString v) of
        None \<Rightarrow> BoundaryUnknown
      | Some r \<Rightarrow>
          if r \<in> set [''agent'', ''agent_self'', ''same_agent'', ''self'', ''self_reported'', ''worker_self'']
          then AgentSelf
          else if r \<in> set [''runtime'', ''runtime_orchestrator'', ''orchestrator'', ''parent'', ''parent_process'']
          then RuntimeOrchestrator
          else if r \<in> set [''external'', ''external_probe'', ''external_verifier'', ''verifier'', ''independent_verifier'']
          then ExternalVerifier else BoundaryUnknown)"

section \<open>References to evidence\<close>

lemma size_member_of_value: "map_of ob k = Some v \<Longrightarrow> size v < size (JObj ob)"
  by (auto dest!: map_of_SomeD size_list_estimation' [where f = "size_prod (\<lambda>_. 0) size", OF _ order_refl])

text \<open>
  The inner loop: the entries of a nested list are pushed until the limit is reached; the
  Boolean says that the function returns there.
\<close>

fun add_refs :: "nat \<Rightarrow> string list \<Rightarrow> string list \<Rightarrow> string list \<times> bool" where
  "add_refs limit out [] = (out, False)"
| "add_refs limit out (entry # es) =
     (if entry \<in> set out then add_refs limit out es
      else if limit \<le> length (out @ [entry]) then (out @ [entry], True)
      else add_refs limit (out @ [entry]) es)"

definition record_ref :: "jv option \<Rightarrow> string option" where
  "record_ref v =
     (case asRecord v of
        Some r \<Rightarrow> first_some [nullableString (js_get r ''ref''), nullableString (js_get r ''uri''),
                              nullableString (js_get r ''id''), nullableString (js_get r ''evidence_ref'')]
      | None \<Rightarrow> nullableString v)"

definition nested_refs :: "jv option \<Rightarrow> jv option list option" where
  "nested_refs v =
     (case v of Some (JArr us) \<Rightarrow> Some (map Some us)
      | _ \<Rightarrow> (case asRecord v of Some r \<Rightarrow> Some [js_get r ''evidence_refs'', js_get r ''evidenceRefs'']
              | None \<Rightarrow> None))"

definition depth_of :: "jv option list \<Rightarrow> nat" where
  "depth_of vs = foldr (\<lambda>v. max (case v of None \<Rightarrow> 0 | Some u \<Rightarrow> Suc (size u))) vs 0"

lemma depth_of_less: "depth_of vs < n \<longleftrightarrow> 0 < n \<and> (\<forall>u. Some u \<in> set vs \<longrightarrow> Suc (size u) < n)"
proof (induction vs)
  case (Cons v vs)
  then show ?case by (cases v) (auto simp: depth_of_def)
qed (simp add: depth_of_def)

lemma depth_of_Cons: "depth_of vs \<le> depth_of (v # vs)"
  by (simp add: depth_of_def)

lemma size_nested_refs:
  assumes "nested_refs (Some w) = Some us" "Some u \<in> set us"
  shows "size u < size w"
proof (insert assms, cases w)
  case (JArr xs)
  with assms have "us = map Some xs" "u \<in> set xs" by (auto simp: nested_refs_def)
  with JArr show ?thesis using size_list_estimation' [of u xs "size u" size] by simp
next
  case (JObj ob)
  with assms show ?thesis
    by (auto simp: nested_refs_def asRecord_def is_plain_object_def obj_get_no_proto proto_keys_def
        dest!: size_member_of_value [of ob] sym [of "Some u"])
next
  case (JHost h)
  with assms show ?thesis
    by (auto simp: nested_refs_def asRecord_def is_plain_object_def js_prop_def proto_get_def
        proto_keys_def split: if_splits)
qed (auto simp: nested_refs_def asRecord_def is_plain_object_def)

lemma depth_of_nested: "nested_refs v = Some us \<Longrightarrow> depth_of us < depth_of (v # vs)"
proof -
  assume n: "nested_refs v = Some us"
  obtain w where w: "v = Some w" using n by (cases v) (auto simp: nested_refs_def asRecord_def)
  have "depth_of us < Suc (size w)" using size_nested_refs n w by (simp add: depth_of_less)
  then show ?thesis using w by (simp add: depth_of_def less_max_iff_disj)
qed

function uniqueEvidenceRefs_from :: "nat \<Rightarrow> string list \<Rightarrow> jv option list \<Rightarrow> string list" where
  "uniqueEvidenceRefs_from limit out [] = out"
| "uniqueEvidenceRefs_from limit out (v # vs) =
     (let (out, stop) = (case nested_refs v of
            None \<Rightarrow> (out, False)
          | Some us \<Rightarrow> add_refs limit out (uniqueEvidenceRefs_from limit [] us))
      in if stop then out
         else case record_ref v of
             None \<Rightarrow> uniqueEvidenceRefs_from limit out vs
           | Some ref \<Rightarrow>
               if ref \<in> set out then uniqueEvidenceRefs_from limit out vs
               else if limit \<le> length (out @ [ref]) then out @ [ref]
               else uniqueEvidenceRefs_from limit (out @ [ref]) vs)"
  by pat_completeness auto
termination
  by (relation "measures [\<lambda>(limit, out, vs). depth_of vs, \<lambda>(limit, out, vs). length vs]")
    (auto simp: le_eq_less_or_eq [symmetric] depth_of_nested intro: le_neq_implies_less depth_of_Cons)

definition uniqueEvidenceRefs :: "jv option list \<Rightarrow> string list" where
  "uniqueEvidenceRefs values = uniqueEvidenceRefs_from 32 [] values"


text \<open>Without the limit: every string, reference and nested list in order.\<close>

function evidence_candidates :: "jv option list \<Rightarrow> string list" where
  "evidence_candidates [] = []"
| "evidence_candidates (v # vs) =
     (case nested_refs v of None \<Rightarrow> [] | Some us \<Rightarrow> evidence_candidates us)
     @ (case record_ref v of None \<Rightarrow> [] | Some ref \<Rightarrow> [ref])
     @ evidence_candidates vs"
  by pat_completeness auto
termination
  by (relation "measures [depth_of, length]")
    (auto simp: le_eq_less_or_eq [symmetric] depth_of_nested intro: le_neq_implies_less depth_of_Cons)

lemma add_refs_take:
  assumes "distinct out" "length out < limit"
  shows "add_refs limit out es =
    (let all = out @ dedupe_from out es in (take limit all, limit \<le> length all))"
  using assms
proof (induction limit out es rule: add_refs.induct)
  case (1 limit out)
  then show ?case by simp
next
  case (2 limit out e es)
  show ?case
  proof (cases "e \<in> set out \<or> limit \<le> length (out @ [e])")
    case True
    moreover have "limit - length out = 1" if "limit \<le> length (out @ [e])"
      using that 2(4) by simp
    ultimately show ?thesis using 2 by (auto simp: Let_def)
  next
    case False
    have "dedupe_from (out @ [e]) es = dedupe_from (e # out) es" by (rule dedupe_from_cong) auto
    then show ?thesis using 2 False by (auto simp: Let_def)
  qed
qed

text \<open>A list that is cut at the limit before its entries are added gives the same.\<close>

lemma dedupe_from_filter: "dedupe_from xs ys = filter (\<lambda>y. y \<notin> set xs) (dedupe ys)"
proof -
  have "dedupe_from xs ys = dedupe_from (rev xs) ys" by (rule dedupe_from_cong) simp
  then show ?thesis using dedupe_append [of xs ys] by (simp add: dedupe_def dedupe_from_append)
qed

lemma take_filter_take:
  assumes "distinct zs"
  shows "take n (xs @ filter (\<lambda>z. z \<notin> set xs) (take n zs)) = take n (xs @ filter (\<lambda>z. z \<notin> set xs) zs)"
proof (cases "length zs \<le> n")
  case False
  let ?A = "filter (\<lambda>z. z \<notin> set xs) (take n zs)" and ?B = "filter (\<lambda>z. z \<notin> set xs) (drop n zs)"
  have "length (filter (\<lambda>z. z \<in> set xs) (take n zs)) = card (set (filter (\<lambda>z. z \<in> set xs) (take n zs)))"
    using assms by (metis distinct_card distinct_filter distinct_take)
  also have "\<dots> \<le> card (set xs)" by (rule card_mono) auto
  finally have "length (filter (\<lambda>z. z \<in> set xs) (take n zs)) \<le> length xs"
    using card_length le_trans by blast
  moreover have "length ?A + length (filter (\<lambda>z. z \<in> set xs) (take n zs)) = n"
    using False sum_length_filter_compl [of "\<lambda>z. z \<notin> set xs" "take n zs"] by simp
  ultimately have "n - length xs \<le> length ?A" by linarith
  moreover have "filter (\<lambda>z. z \<notin> set xs) zs = ?A @ ?B"
    by (metis append_take_drop_id filter_append)
  ultimately show ?thesis by simp
qed simp

lemma unique_refs_take:
  assumes "distinct out" "length out < limit"
  shows "uniqueEvidenceRefs_from limit out vs = take limit (out @ dedupe_from out (evidence_candidates vs))"
  using assms
proof (induction limit out vs rule: uniqueEvidenceRefs_from.induct)
  case (1 limit out)
  then show ?case by simp
next
  case (2 limit out v vs)
  define cs where "cs = (case nested_refs v of None \<Rightarrow> [] | Some us \<Rightarrow> evidence_candidates us)"
  define rs where "rs = (case record_ref v of None \<Rightarrow> [] | Some ref \<Rightarrow> [ref])"
  define xs where "xs = out @ dedupe_from out cs"
  have dx: "distinct xs" unfolding xs_def using 2(5) by (auto simp: distinct_dedupe_from set_dedupe_from)
  have cand: "evidence_candidates (v # vs) = cs @ rs @ evidence_candidates vs"
    by (simp add: cs_def rs_def)
  have all: "out @ dedupe_from out (cs @ ys) = xs @ dedupe_from xs ys" for ys
    unfolding xs_def dedupe_from_append append_assoc append_same_eq append_Cons
    by (simp, rule dedupe_from_cong) (auto simp: set_dedupe_from)
  obtain b where step: "(case nested_refs v of None \<Rightarrow> (out, False)
      | Some us \<Rightarrow> add_refs limit out (uniqueEvidenceRefs_from limit [] us)) = (take limit xs, b)"
    "b \<Longrightarrow> limit \<le> length xs" "\<not> b \<Longrightarrow> length xs < limit"
  proof (cases "nested_refs v")
    case None
    then show ?thesis using 2 that [of False] by (simp add: xs_def cs_def)
  next
    case (Some us)
    have "uniqueEvidenceRefs_from limit [] us = take limit (dedupe cs)"
      using 2(1) [OF Some] 2(6) Some by (simp add: cs_def dedupe_def)
    moreover define ds where "ds = out @ dedupe_from out (take limit (dedupe cs))"
    moreover have t: "take limit ds = take limit xs"
      unfolding ds_def xs_def dedupe_from_filter [of out]
      using take_filter_take [of "dedupe cs" limit out] by (simp only: dedupe_id distinct_take distinct_dedupe)
    moreover have "limit \<le> length ds \<longleftrightarrow> limit \<le> length xs"
      using arg_cong [OF t, of length] by (auto simp: min_def split: if_splits)
    ultimately show ?thesis
      using that [of "limit \<le> length xs"] Some add_refs_take [OF 2(5,6), of "take limit (dedupe cs)"]
      by (simp add: Let_def)
  qed
  show ?case
  proof (cases b)
    case True
    then have "take limit xs = take limit (xs @ dedupe_from xs (rs @ evidence_candidates vs))"
      using step(2) by simp
    then show ?thesis unfolding cand all using step(1) True by (simp del: evidence_candidates.simps)
  next
    case False
    then have lx: "length xs < limit" "take limit xs = xs" using step(3) by simp_all
    have more: "dedupe_from (xs @ [r]) ys = dedupe_from (r # xs) ys" for r ys
      by (rule dedupe_from_cong) auto
    note IH = 2(2-4) [OF step(1) [symmetric] refl]
    show ?thesis
    proof (cases "record_ref v")
      case None
      then show ?thesis
        using IH(1) [OF _ None] step(1) False lx dx unfolding cand all by (simp add: rs_def del: evidence_candidates.simps)
    next
      case (Some r)
      have "limit \<le> Suc (length xs) \<Longrightarrow> limit - length xs = 1" using lx by simp
      with Some show ?thesis
        using IH(2,3) [OF _ Some] step(1) False lx dx more unfolding cand all
        by (simp add: rs_def del: evidence_candidates.simps)
    qed
  qed
qed

lemma uniqueEvidenceRefs_eq: "uniqueEvidenceRefs vs = take 32 (dedupe (evidence_candidates vs))"
  unfolding uniqueEvidenceRefs_def dedupe_def by (subst unique_refs_take) simp_all


lemma uniqueEvidenceRefs_ok:
  "distinct (uniqueEvidenceRefs vs)" "length (uniqueEvidenceRefs vs) \<le> 32"
  by (simp_all add: uniqueEvidenceRefs_eq)

section \<open>Failure reasons\<close>

lemma depth_of_array: "depth_of (map Some us) < depth_of (Some (JArr us) # vs)"
  by (rule depth_of_nested) (simp add: nested_refs_def)

function firstFailureReason :: "jv option list \<Rightarrow> string option" where
  "firstFailureReason [] = None"
| "firstFailureReason (v # vs) =
     (case v of
        Some (JArr us) \<Rightarrow>
          (case firstFailureReason (map Some us) of Some nested \<Rightarrow> Some nested | None \<Rightarrow> firstFailureReason vs)
      | _ \<Rightarrow>
          (case first_some [nullableString (chain_get (asRecord v) ''failure_reason''),
                            nullableString (chain_get (asRecord v) ''failureReason''),
                            nullableString (chain_get (asRecord v) ''error''),
                            nullableString (chain_get (asRecord v) ''reason'')] of
             Some reason \<Rightarrow> Some reason | None \<Rightarrow> firstFailureReason vs))"
  by pat_completeness auto
termination
  by (relation "measures [depth_of, length]")
    (auto simp: le_eq_less_or_eq [symmetric] depth_of_array intro: le_neq_implies_less depth_of_Cons)

definition normalizeTrust :: "jv option \<Rightarrow> contract_trust option" where
  "normalizeTrust v = normalizeContractTrust v"

section \<open>Compiling evidence\<close>

text \<open>\<^verbatim>\<open>{ schema_version: ..., ...record }\<close>: the record's own members come last.\<close>

definition with_version :: "jv \<Rightarrow> jv" where
  "with_version r =
     (case plain_members r of
        Some ob \<Rightarrow> JObj (foldl (\<lambda>o' e. obj_set (fst e) (snd e) o')
                            [(''schema_version'', JStr ''execution_evidence_v1'')] ob)
      | None \<Rightarrow> r)"

definition parseEvidence :: "jv option \<Rightarrow> execution_evidence option" where
  "parseEvidence v =
     (case asRecord v of None \<Rightarrow> None | Some r \<Rightarrow> ExecutionEvidenceV1Schema (with_version r))"

definition after_exit_keys :: "string list" where
  "after_exit_keys =
     [''after_exit_revalidated'', ''afterExitRevalidated'', ''after_exit_validation_passed'',
      ''must_hold_after_exit_passed'']"

definition fresh_shell_keys :: "string list" where
  "fresh_shell_keys =
     [''fresh_shell_probe_passed'', ''freshShellProbePassed'', ''fresh_shell_revalidated'',
      ''fresh_shell_validation_passed'', ''revalidate_from_fresh_shell_passed'']"

definition validation_keys :: "string list" where
  "validation_keys = [''validation_passed'', ''validationPassed'', ''passed'', ''ok'', ''success'']"

definition boundary_keys :: "string list" where
  "boundary_keys =
     [''validation_boundary'', ''validationBoundary'', ''validation_actor'', ''validationActor'',
      ''probe_actor'', ''probeActor'', ''verifier_actor'', ''verifierActor'']"

definition false_confidence :: "jv \<Rightarrow> bool option \<Rightarrow> bool option \<Rightarrow> bool option \<Rightarrow> bool" where
  "false_confidence r passed after_exit fresh_shell \<longleftrightarrow>
     first_boolean (Some r) [''false_confidence_detected'', ''falseConfidenceDetected''] = Some True
     \<or> statusToValidation (js_get r ''status'') = Some True \<and> Some False \<in> {passed, after_exit, fresh_shell}"

definition no_evidence :: "execution_evidence \<Rightarrow> bool" where
  "no_evidence e \<longleftrightarrow>
     ev_validation_passed e = None \<and> ev_after_exit_revalidated e = None \<and> ev_fresh_shell_probe_passed e = None
     \<and> ev_failure_reason e = None \<and> \<not> ev_false_confidence_detected e"

definition record_evidence :: "jv \<Rightarrow> jv option list \<Rightarrow> execution_evidence" where
  "record_evidence r evidenceRefs =
     (let validationPassed = first_some
            [first_boolean (Some r) validation_keys, statusToValidation (js_get r ''status''),
             statusToValidation (js_get r ''validation_status''),
             statusToValidation (js_get r ''source_run_status''),
             statusToValidation (js_get r ''result''), statusToValidation (js_get r ''outcome'')];
          afterExitRevalidated = first_boolean (Some r) after_exit_keys;
          freshShellProbePassed = first_boolean (Some r) fresh_shell_keys
      in \<lparr>ev_validation_passed = validationPassed,
          ev_after_exit_revalidated = afterExitRevalidated,
          ev_fresh_shell_probe_passed = freshShellProbePassed,
          ev_validation_boundary = normalizeValidationBoundary (first_member r boundary_keys),
          ev_failure_reason = first_some
            [nullableString (js_get r ''failure_reason''), nullableString (js_get r ''error''),
             nullableString (js_get r ''reason''), firstFailureReason evidenceRefs,
             if validationPassed = Some False then nullableString (js_get r ''summary'') else None],
          ev_false_confidence_detected =
            false_confidence r validationPassed afterExitRevalidated freshShellProbePassed,
          ev_evidence_refs = uniqueEvidenceRefs
            ([js_get r ''evidence_refs'', js_get r ''evidenceRefs'', js_get r ''ref'', js_get r ''uri'',
              js_get r ''id''] @ evidenceRefs)\<rparr>)"

definition compileEvidenceFromRecord :: "jv option \<Rightarrow> jv option list \<Rightarrow> string + execution_evidence option" where
  "compileEvidenceFromRecord r evidenceRefs =
     (case r of None \<Rightarrow> Inr None
      | Some u \<Rightarrow> (let e = record_evidence u evidenceRefs
                   in if no_evidence e then Inr None
                      else and_then (parse_built_evidence e) (\<lambda>e'. Inr (Some e'))))"

fun first_parsed :: "jv list \<Rightarrow> execution_evidence option" where
  "first_parsed [] = None"
| "first_parsed (entry # es) =
     (case parseEvidence (Some entry) of Some e \<Rightarrow> Some e | None \<Rightarrow> first_parsed es)"

fun first_compiled :: "jv list \<Rightarrow> jv list \<Rightarrow> string + execution_evidence option" where
  "first_compiled all [] = Inr None"
| "first_compiled all (entry # es) =
     and_then (compileEvidenceFromRecord (asRecord (Some entry)) (map Some all)) (\<lambda>c.
       case c of Some e \<Rightarrow> Inr (Some e) | None \<Rightarrow> first_compiled all es)"

definition compileEvidenceFromArray :: "jv option \<Rightarrow> string + execution_evidence option" where
  "compileEvidenceFromArray v =
     (case v of
        Some (JArr vs) \<Rightarrow>
          (case first_parsed vs of Some e \<Rightarrow> Inr (Some e) | None \<Rightarrow> first_compiled vs vs)
      | _ \<Rightarrow> Inr None)"

definition success_ratio :: "jv \<Rightarrow> rat option" where
  "success_ratio r = (case js_get r ''success_ratio'' of Some (JNum (Fin q)) \<Rightarrow> Some q | _ \<Rightarrow> None)"

definition metric_record_evidence :: "jv \<Rightarrow> execution_evidence" where
  "metric_record_evidence r =
     (let successRatio = success_ratio r;
          validationPassed = first_some
            [first_boolean (Some r) validation_keys, statusToValidation (js_get r ''status''),
             statusToValidation (js_get r ''validation_status''), map_option (\<lambda>q. 1 \<le> q) successRatio];
          afterExitRevalidated = first_boolean (Some r) after_exit_keys;
          freshShellProbePassed = first_boolean (Some r) fresh_shell_keys
      in \<lparr>ev_validation_passed = validationPassed,
          ev_after_exit_revalidated = afterExitRevalidated,
          ev_fresh_shell_probe_passed = freshShellProbePassed,
          ev_validation_boundary = normalizeValidationBoundary (first_member r boundary_keys),
          ev_failure_reason = first_some
            [nullableString (js_get r ''failure_reason''), nullableString (js_get r ''error''),
             nullableString (js_get r ''reason''),
             if validationPassed = Some False then Some ''source_metrics_validation_failed'' else None,
             case successRatio of
               Some q \<Rightarrow> if q < 1 then Some ''source_metrics_success_ratio_below_one'' else None
             | None \<Rightarrow> None],
          ev_false_confidence_detected =
            false_confidence r validationPassed afterExitRevalidated freshShellProbePassed,
          ev_evidence_refs = uniqueEvidenceRefs
            [js_get r ''evidence_refs'', js_get r ''evidenceRefs'', js_get r ''ref'', js_get r ''uri'',
             js_get r ''id'']\<rparr>)"

definition metricEvidence :: "jv option \<Rightarrow> string + execution_evidence option" where
  "metricEvidence metrics =
     (case asRecord metrics of None \<Rightarrow> Inr None
      | Some r \<Rightarrow>
          (let e = metric_record_evidence r
           in if no_evidence e then Inr None
              else and_then (parse_built_evidence
                     (e\<lparr>ev_evidence_refs := if ev_evidence_refs e \<noteq> [] then ev_evidence_refs e
                                            else [''source.metrics'']\<rparr>)) (\<lambda>e'. Inr (Some e'))))"

text \<open>The first source of evidence that yields any; a later source is not read.\<close>

fun first_evidence :: "(unit \<Rightarrow> string + execution_evidence option) list \<Rightarrow> string + execution_evidence option" where
  "first_evidence [] = Inr None"
| "first_evidence (f # fs) =
     and_then (f ()) (\<lambda>r. case r of Some e \<Rightarrow> Inr (Some e) | None \<Rightarrow> first_evidence fs)"

definition extractExecutionEvidenceFromSlots ::
  "jv option \<Rightarrow> jv option \<Rightarrow> string + execution_evidence option" where
  "extractExecutionEvidenceFromSlots slots_arg metrics =
     (let slots = the (or_nullish slots_arg (Some (JObj [])));
          executionResultSummary = asRecord (js_get slots ''execution_result_summary'');
          compileSummary = asRecord (js_get slots ''compile_summary'');
          refs = [js_get slots ''execution_evidence'', js_get slots ''execution_packet_v1'']
      in first_evidence
           [\<lambda>_. Inr (parseEvidence (js_get slots ''execution_evidence_v1'')),
            \<lambda>_. Inr (parseEvidence (chain_get executionResultSummary ''execution_evidence_v1'')),
            \<lambda>_. compileEvidenceFromRecord executionResultSummary refs,
            \<lambda>_. compileEvidenceFromRecord compileSummary refs,
            \<lambda>_. compileEvidenceFromArray (js_get slots ''execution_evidence''),
            \<lambda>_. compileEvidenceFromArray (chain_get executionResultSummary ''execution_evidence''),
            \<lambda>_. metricEvidence metrics])"

section \<open>What a contract requires\<close>

definition type_error :: string where
  "type_error = ''TypeError''"

text \<open>\<^verbatim>\<open>v.k\<close>, which throws when \<open>v\<close> is undefined or null.\<close>

definition member :: "jv option \<Rightarrow> string \<Rightarrow> string + jv option" where
  "member v k = (if nullish v then Inl type_error else Inr (js_get (the v) k))"

text \<open>\<^verbatim>\<open>v.length > 0\<close> and \<^verbatim>\<open>v.some(f)\<close>.\<close>

definition has_length :: "jv option \<Rightarrow> string + bool" where
  "has_length v = and_then (member v ''length'') (\<lambda>n. Inr (num_lt (Fin 0) (js_Number n)))"

fun any_element :: "('a \<Rightarrow> string + bool) \<Rightarrow> 'a list \<Rightarrow> string + bool" where
  "any_element f [] = Inr False"
| "any_element f (x # xs) = and_then (f x) (\<lambda>b. if b then Inr True else any_element f xs)"

definition array_some :: "(jv \<Rightarrow> string + bool) \<Rightarrow> jv option \<Rightarrow> string + bool" where
  "array_some f v = (case v of Some (JArr vs) \<Rightarrow> any_element f vs | _ \<Rightarrow> Inl type_error)"

definition or_result :: "string + bool \<Rightarrow> (unit \<Rightarrow> string + bool) \<Rightarrow> string + bool" where
  "or_result a b = and_then a (\<lambda>x. if x then Inr True else b ())"

definition truthy_member :: "string \<Rightarrow> jv \<Rightarrow> string + bool" where
  "truthy_member k c = and_then (member (Some c) k) (\<lambda>v. Inr (js_truthy v))"

text \<open>\<^verbatim>\<open>/a|b|.../i.test(v)\<close> for literal alternatives in lower case.\<close>

definition mentions :: "string list \<Rightarrow> jv \<Rightarrow> string + bool" where
  "mentions ws v = Inr (list_ex (js_includes (js_lower (js_string v))) ws)"

definition outcome_member :: "jv option \<Rightarrow> string \<Rightarrow> string + jv option" where
  "outcome_member contract k = and_then (member contract ''outcome'') (\<lambda>outcome. member outcome k)"

definition constraints_some :: "string \<Rightarrow> jv option \<Rightarrow> string + bool" where
  "constraints_some k contract =
     and_then (member contract ''service_lifecycle_constraints'') (array_some (truthy_member k))"

definition inferRequiresAfterExit :: "jv option \<Rightarrow> string + bool" where
  "inferRequiresAfterExit contract =
     (if \<not> js_truthy contract then Inr False
      else or_result (and_then (outcome_member contract ''must_hold_after_exit'') has_length)
             (\<lambda>_. constraints_some ''must_survive_agent_exit'' contract))"

definition assumption_words :: "string list" where
  "assumption_words =
     [''fresh_shell'', ''fresh shell'', ''new shell'', ''clean_client'', ''clean client'',
      ''validation_can_run_from_fresh_shell'']"

definition visibility_words :: "string list" where
  "visibility_words = [''fresh_shell'', ''fresh shell'', ''clean_client'', ''clean client'']"

definition inferRequiresFreshShell :: "jv option \<Rightarrow> string + bool" where
  "inferRequiresFreshShell contract =
     (if \<not> js_truthy contract then Inr False
      else or_result (constraints_some ''revalidate_from_fresh_shell'' contract) (\<lambda>_.
           or_result (and_then (outcome_member contract ''environment_assumptions'')
                        (array_some (mentions assumption_words))) (\<lambda>_.
           or_result (and_then (outcome_member contract ''success_invariants'')
                        (array_some (mentions visibility_words))) (\<lambda>_.
           and_then (outcome_member contract ''external_visibility_requirements'')
             (array_some (mentions visibility_words))))))"

section \<open>The assessment\<close>

datatype evidence_status = Succeeded | Failed | Incomplete | StatusUnknown

record evidence_decisive =
  ed_validation_passed :: "bool option"
  ed_after_exit_revalidated :: "bool option"
  ed_fresh_shell_probe_passed :: "bool option"
  ed_validation_boundary :: validation_boundary
  ed_false_confidence_detected :: bool
  ed_failure_reason_present :: bool
  ed_requires_after_exit_revalidation :: bool
  ed_requires_fresh_shell_probe :: bool
  ed_requires_external_validation_boundary :: bool

record evidence_assessment =
  ea_status :: evidence_status
  ea_allows_authoritative :: bool
  ea_allows_stable_promotion :: bool
  ea_requested_trust :: "contract_trust option"
  ea_effective_trust :: "contract_trust option"
  ea_reasons :: "string list"
  ea_decisive_fields :: evidence_decisive

definition ExecutionEvidenceAssessmentV1Schema :: "evidence_assessment \<Rightarrow> string + evidence_assessment" where
  "ExecutionEvidenceAssessmentV1Schema a =
     (if length (ea_reasons a) \<le> 16 \<and> list_all (\<lambda>r. r \<noteq> [] \<and> length r \<le> 128) (ea_reasons a)
      then Inr a else Inl ''ZodError'')"

definition deriveStatus :: "execution_evidence option \<Rightarrow> string list \<Rightarrow> evidence_status" where
  "deriveStatus evidence reasons =
     (case evidence of
        None \<Rightarrow> StatusUnknown
      | Some e \<Rightarrow>
          if ev_validation_passed e = Some False \<or> ev_after_exit_revalidated e = Some False
             \<or> ev_fresh_shell_probe_passed e = Some False \<or> ev_false_confidence_detected e then Failed
          else if reasons \<noteq> [] then Incomplete else Succeeded)"

definition evidenceReason :: "string \<Rightarrow> string \<Rightarrow> string" where
  "evidenceReason p value = take 128 (p @ '':'' @ value)"

definition hasExplicitExecutionEvidenceRef :: "execution_evidence option \<Rightarrow> bool" where
  "hasExplicitExecutionEvidenceRef evidence \<longleftrightarrow>
     list_ex (\<lambda>ref. ref \<noteq> ''source.metrics'') (case evidence of None \<Rightarrow> [] | Some e \<Rightarrow> ev_evidence_refs e)"

definition validationBoundaryAllowsExternalVerification :: "execution_evidence option \<Rightarrow> bool" where
  "validationBoundaryAllowsExternalVerification evidence \<longleftrightarrow>
     map_option ev_validation_boundary evidence \<in> {Some RuntimeOrchestrator, Some ExternalVerifier}"

definition evidence_reasons :: "execution_evidence option \<Rightarrow> bool \<Rightarrow> bool \<Rightarrow> string list" where
  "evidence_reasons evidence after_exit fresh_shell =
     (case evidence of
        None \<Rightarrow> [''missing_execution_evidence'']
      | Some e \<Rightarrow>
          push_if (\<not> hasExplicitExecutionEvidenceRef evidence) ''missing_explicit_execution_evidence''
          @ push_if (ev_validation_passed e \<noteq> Some True)
              (if ev_validation_passed e = Some False then ''validation_failed'' else ''missing_validation_passed'')
          @ push_if (after_exit \<and> ev_after_exit_revalidated e \<noteq> Some True)
              (if ev_after_exit_revalidated e = Some False then ''after_exit_revalidation_failed''
               else ''missing_after_exit_revalidation'')
          @ push_if (fresh_shell \<and> ev_fresh_shell_probe_passed e \<noteq> Some True)
              (if ev_fresh_shell_probe_passed e = Some False then ''fresh_shell_probe_failed''
               else ''missing_fresh_shell_probe'')
          @ push_if ((after_exit \<or> fresh_shell) \<and> \<not> validationBoundaryAllowsExternalVerification evidence)
              (if ev_validation_boundary e = AgentSelf then ''agent_self_validation_boundary''
               else ''missing_external_validation_boundary'')
          @ push_if (ev_false_confidence_detected e) ''false_confidence_detected''
          @ (case ev_failure_reason e of
               None \<Rightarrow> []
             | Some r \<Rightarrow> push_if (r \<noteq> []) (evidenceReason ''failure_reason'' r)))"

definition assessExecutionEvidence ::
  "jv option \<Rightarrow> jv option \<Rightarrow> jv option \<Rightarrow> bool option \<Rightarrow> bool option \<Rightarrow> string + evidence_assessment" where
  "assessExecutionEvidence contract evidence_arg requested requires_after_exit requires_fresh_shell =
     (let evidence = parseEvidence evidence_arg;
          requestedTrust = normalizeTrust (or_nullish requested (chain_get contract ''contract_trust''))
      in and_then (case requires_after_exit of Some b \<Rightarrow> Inr b | None \<Rightarrow> inferRequiresAfterExit contract) (\<lambda>after_exit.
         and_then (case requires_fresh_shell of Some b \<Rightarrow> Inr b | None \<Rightarrow> inferRequiresFreshShell contract) (\<lambda>fresh_shell.
           let reasons = evidence_reasons evidence after_exit fresh_shell;
               hasExplicitEvidence = hasExplicitExecutionEvidenceRef evidence;
               status = deriveStatus evidence reasons;
               allows = (requestedTrust = Some Authoritative \<and> status = Succeeded \<and> hasExplicitEvidence)
           in ExecutionEvidenceAssessmentV1Schema
                \<lparr>ea_status = status,
                 ea_allows_authoritative = allows,
                 ea_allows_stable_promotion = (status = Succeeded \<and> hasExplicitEvidence),
                 ea_requested_trust = requestedTrust,
                 ea_effective_trust =
                   (if requestedTrust = Some Authoritative \<and> \<not> allows then Some Advisory else requestedTrust),
                 ea_reasons = take 16 (dedupe reasons),
                 ea_decisive_fields =
                   \<lparr>ed_validation_passed = Option.bind evidence ev_validation_passed,
                    ed_after_exit_revalidated = Option.bind evidence ev_after_exit_revalidated,
                    ed_fresh_shell_probe_passed = Option.bind evidence ev_fresh_shell_probe_passed,
                    ed_validation_boundary =
                      (case evidence of None \<Rightarrow> BoundaryUnknown | Some e \<Rightarrow> ev_validation_boundary e),
                    ed_false_confidence_detected =
                      (case evidence of None \<Rightarrow> False | Some e \<Rightarrow> ev_false_confidence_detected e),
                    ed_failure_reason_present =
                      (case Option.bind evidence ev_failure_reason of None \<Rightarrow> False | Some r \<Rightarrow> r \<noteq> []),
                    ed_requires_after_exit_revalidation = after_exit,
                    ed_requires_fresh_shell_probe = fresh_shell,
                    ed_requires_external_validation_boundary = (after_exit \<or> fresh_shell)\<rparr>\<rparr>)))"

text \<open>The arguments of \<^verbatim>\<open>buildExecutionEvidenceFromValidation\<close>, absent ones as \<open>None\<close>.\<close>

definition buildExecutionEvidenceFromValidation ::
  "bool \<Rightarrow> bool option \<Rightarrow> bool option \<Rightarrow> validation_boundary option \<Rightarrow> string option \<Rightarrow> bool option
    \<Rightarrow> string list option \<Rightarrow> string + execution_evidence" where
  "buildExecutionEvidenceFromValidation passed after_exit fresh_shell boundary failure confidence refs =
     parse_built_evidence
       \<lparr>ev_validation_passed = Some passed,
        ev_after_exit_revalidated = after_exit,
        ev_fresh_shell_probe_passed = fresh_shell,
        ev_validation_boundary = (case boundary of Some b \<Rightarrow> b | None \<Rightarrow> BoundaryUnknown),
        ev_failure_reason = failure,
        ev_false_confidence_detected = (case confidence of Some c \<Rightarrow> c | None \<Rightarrow> False),
        ev_evidence_refs = (case refs of Some rs \<Rightarrow> rs | None \<Rightarrow> [])\<rparr>"

section \<open>Evidence reparses to itself\<close>

definition text_ok :: "string \<Rightarrow> bool" where
  "text_ok s \<longleftrightarrow> js_trim s = s \<and> s \<noteq> [] \<and> length s \<le> 256"

definition evidence_ok :: "execution_evidence \<Rightarrow> bool" where
  "evidence_ok e \<longleftrightarrow>
     length (ev_evidence_refs e) \<le> 32 \<and> list_all text_ok (ev_evidence_refs e)
     \<and> (case ev_failure_reason e of None \<Rightarrow> True | Some r \<Rightarrow> text_ok r)"

lemma schema_string256_ok: "schema_string256 v = Some s \<Longrightarrow> text_ok s"
  by (auto simp: schema_string256_def text_ok_def split: jv.splits if_splits)

lemma schema_string256_id: "text_ok s \<Longrightarrow> schema_string256 (JStr s) = Some s"
  by (simp add: schema_string256_def text_ok_def)

lemma schema_all_ok:
  "(\<And>x y. p x = Some y \<Longrightarrow> Q y) \<Longrightarrow> schema_all p xs = Some ys \<Longrightarrow> list_all Q ys \<and> length ys = length xs"
  by (induction xs arbitrary: ys) (auto split: option.splits)

lemma schema_all_id: "(\<And>x. x \<in> set xs \<Longrightarrow> p (f x) = Some x) \<Longrightarrow> schema_all p (map f xs) = Some xs"
  by (induction xs) auto

lemma schema_strings_ok:
  "schema_all schema_string256 vs = Some rs \<Longrightarrow> list_all text_ok rs \<and> length rs = length vs"
  by (rule schema_all_ok) (rule schema_string256_ok)

lemma EvidenceStringList_ok: "EvidenceStringList v = Some rs \<Longrightarrow> length rs \<le> 32 \<and> list_all text_ok rs"
  by (auto simp: EvidenceStringList_def split: option.splits jv.splits if_splits dest!: schema_strings_ok)

lemma EvidenceStringList_id:
  "length rs \<le> 32 \<Longrightarrow> list_all text_ok rs \<Longrightarrow> EvidenceStringList (Some (JArr (map JStr rs))) = Some rs"
  by (auto simp: EvidenceStringList_def list_all_iff intro!: schema_all_id schema_string256_id)

lemma ExecutionEvidenceV1Schema_ok: "ExecutionEvidenceV1Schema v = Some e \<Longrightarrow> evidence_ok e"
  by (auto simp: ExecutionEvidenceV1Schema_def evidence_ok_def schema_failure_reason_def
      split: if_splits option.splits jv.splits dest: EvidenceStringList_ok schema_string256_ok)

lemma schema_nullable_bool_value [simp]: "schema_nullable_bool (Some (bool_value b)) = Some b"
  by (cases b) (simp_all add: schema_nullable_bool_def bool_value_def)

lemma boundary_name_parses [simp]: "ExecutionValidationBoundarySchema (Some (JStr (boundary_name b))) = Some b"
  by (cases b) (simp_all add: ExecutionValidationBoundarySchema_def)

lemma evidence_members:
  "js_get (evidence_value e) ''schema_version'' = Some (JStr ''execution_evidence_v1'')"
  "js_get (evidence_value e) ''validation_passed'' = Some (bool_value (ev_validation_passed e))"
  "js_get (evidence_value e) ''after_exit_revalidated'' = Some (bool_value (ev_after_exit_revalidated e))"
  "js_get (evidence_value e) ''fresh_shell_probe_passed'' = Some (bool_value (ev_fresh_shell_probe_passed e))"
  "js_get (evidence_value e) ''validation_boundary'' = Some (JStr (boundary_name (ev_validation_boundary e)))"
  "js_get (evidence_value e) ''failure_reason''
     = Some (case ev_failure_reason e of None \<Rightarrow> JNull | Some r \<Rightarrow> JStr r)"
  "js_get (evidence_value e) ''false_confidence_detected'' = Some (JBool (ev_false_confidence_detected e))"
  "js_get (evidence_value e) ''evidence_refs'' = Some (JArr (map JStr (ev_evidence_refs e)))"
  by (simp_all add: evidence_value_def obj_get_def)

lemma schema_evidence_value:
  assumes "evidence_ok e"
  shows "ExecutionEvidenceV1Schema (evidence_value e) = Some e"
proof -
  have "schema_failure_reason (js_get (evidence_value e) ''failure_reason'') = Some (ev_failure_reason e)"
    using assms unfolding evidence_members
    by (auto simp: evidence_ok_def schema_failure_reason_def schema_string256_id split: option.splits)
  moreover have "EvidenceStringList (js_get (evidence_value e) ''evidence_refs'') = Some (ev_evidence_refs e)"
    using assms unfolding evidence_members by (simp add: evidence_ok_def EvidenceStringList_id)
  ultimately show ?thesis
    unfolding ExecutionEvidenceV1Schema_def by (simp add: evidence_members schema_default_false_def)
qed

lemma parse_built_evidence_id: "evidence_ok e \<Longrightarrow> parse_built_evidence e = Inr e"
  by (simp add: parse_built_evidence_def schema_evidence_value)

lemma parse_built_evidence_ok: "parse_built_evidence e = Inr e' \<Longrightarrow> evidence_ok e'"
  by (auto simp: parse_built_evidence_def split: option.splits dest: ExecutionEvidenceV1Schema_ok)

lemma obj_get_spread:
  "distinct (keys ob) \<Longrightarrow> obj_get (foldl (\<lambda>o' e. obj_set (fst e) (snd e) o') base ob) k
     = (case map_of ob k of Some v \<Rightarrow> Some v | None \<Rightarrow> obj_get base k)"
proof (induction ob arbitrary: base)
  case (Cons e ob)
  then have "map_of ob (fst e) = None" by (simp add: map_of_eq_None_iff)
  with Cons show ?case by (cases e) (auto simp: obj_get_set split: option.splits)
qed simp

lemma js_get_with_version:
  assumes "distinct (keys ob)" "k \<notin> set proto_keys"
  shows "js_get (with_version (JObj ob)) k =
    (case map_of ob k of Some v \<Rightarrow> Some v
     | None \<Rightarrow> if k = ''schema_version'' then Some (JStr ''execution_evidence_v1'') else None)"
proof -
  have "obj_get [(''schema_version'', JStr ''execution_evidence_v1'')] k
    = (if k = ''schema_version'' then Some (JStr ''execution_evidence_v1'') else None)"
    using assms(2) by (simp add: obj_get_no_proto)
  then show ?thesis
    unfolding with_version_def plain_members_def jv.case option.case js_get.simps obj_get_spread [OF assms(1)]
    by (rule arg_cong)
qed

lemma evidence_keys_plain:
  "''schema_version'' \<notin> set proto_keys" "''validation_passed'' \<notin> set proto_keys"
  "''after_exit_revalidated'' \<notin> set proto_keys" "''fresh_shell_probe_passed'' \<notin> set proto_keys"
  "''validation_boundary'' \<notin> set proto_keys" "''failure_reason'' \<notin> set proto_keys"
  "''false_confidence_detected'' \<notin> set proto_keys" "''evidence_refs'' \<notin> set proto_keys"
  by (simp_all add: proto_keys_def)

lemma ExecutionEvidenceV1Schema_cong:
  assumes "\<And>k. k \<notin> set proto_keys \<Longrightarrow> js_get v k = js_get w k"
  shows "ExecutionEvidenceV1Schema v = ExecutionEvidenceV1Schema w"
proof -
  note same = evidence_keys_plain [THEN assms]
  show ?thesis unfolding ExecutionEvidenceV1Schema_def same by (rule refl)
qed

lemma parseEvidence_ok: "parseEvidence v = Some e \<Longrightarrow> evidence_ok e"
  by (auto simp: parseEvidence_def split: option.splits dest: ExecutionEvidenceV1Schema_ok)

lemma parseEvidence_evidence_value:
  assumes "evidence_ok e"
  shows "parseEvidence (Some (evidence_value e)) = Some e"
proof -
  have "js_get (with_version (evidence_value e)) k = js_get (evidence_value e) k" if "k \<notin> set proto_keys" for k
    unfolding evidence_value_def using that
    by (subst js_get_with_version) (auto simp: obj_get_no_proto)
  then have "ExecutionEvidenceV1Schema (with_version (evidence_value e)) = ExecutionEvidenceV1Schema (evidence_value e)"
    by (rule ExecutionEvidenceV1Schema_cong)
  then show ?thesis
    by (simp add: parseEvidence_def asRecord_def evidence_value_def [symmetric] is_plain_object_def
        schema_evidence_value assms) (simp add: evidence_value_def)
qed

section \<open>What the extraction returns\<close>

lemma compileEvidenceFromRecord_ok: "compileEvidenceFromRecord r rs = Inr (Some e) \<Longrightarrow> evidence_ok e"
  by (auto simp: compileEvidenceFromRecord_def Let_def split: option.splits if_splits dest: parse_built_evidence_ok)

lemma first_parsed_ok: "first_parsed vs = Some e \<Longrightarrow> evidence_ok e"
  by (induction vs) (auto split: option.splits dest: parseEvidence_ok)

lemma first_compiled_ok: "first_compiled all vs = Inr (Some e) \<Longrightarrow> evidence_ok e"
  by (induction vs) (auto split: option.splits dest: compileEvidenceFromRecord_ok)

lemma compileEvidenceFromArray_ok: "compileEvidenceFromArray v = Inr (Some e) \<Longrightarrow> evidence_ok e"
  by (auto simp: compileEvidenceFromArray_def split: option.splits jv.splits dest: first_parsed_ok first_compiled_ok)

lemma metricEvidence_ok: "metricEvidence m = Inr (Some e) \<Longrightarrow> evidence_ok e"
  unfolding metricEvidence_def Let_def by (auto split: option.splits if_splits dest: parse_built_evidence_ok)

lemma first_evidence_ok:
  "(\<And>f e. f \<in> set fs \<Longrightarrow> f () = Inr (Some e) \<Longrightarrow> P e) \<Longrightarrow> first_evidence fs = Inr (Some e) \<Longrightarrow> P e"
  by (induction fs) (auto split: option.splits)

lemma extract_ok: "extractExecutionEvidenceFromSlots slots metrics = Inr (Some e) \<Longrightarrow> evidence_ok e"
  unfolding extractExecutionEvidenceFromSlots_def Let_def
  by (erule first_evidence_ok [rotated])
    (auto dest: parseEvidence_ok compileEvidenceFromRecord_ok compileEvidenceFromArray_ok metricEvidence_ok)

section \<open>What the assessment allows\<close>

lemma list_all_push_if: "list_all P (push_if b s) \<longleftrightarrow> (b \<longrightarrow> P s)"
  by (simp add: push_if_def)

lemma evidenceReason_ok: "evidenceReason (c # p) s \<noteq> [] \<and> length (evidenceReason (c # p) s) \<le> 128"
  by (simp add: evidenceReason_def)

lemma evidence_reasons_ok: "list_all (\<lambda>r. r \<noteq> [] \<and> length r \<le> 128) (evidence_reasons e a f)"
proof (cases e)
  case (Some v)
  then show ?thesis
    by (cases "ev_failure_reason v")
      (simp_all add: evidence_reasons_def list_all_push_if evidenceReason_ok)
qed (simp add: evidence_reasons_def)

lemma take_dedupe_subset: "set (take n (dedupe rs)) \<subseteq> set rs"
  using set_take_subset [of n "dedupe rs"] by simp

lemma assessment_schema_ok:
  "list_all (\<lambda>r. r \<noteq> [] \<and> length r \<le> 128) rs \<Longrightarrow> ea_reasons a = take 16 (dedupe rs)
    \<Longrightarrow> ExecutionEvidenceAssessmentV1Schema a = Inr a"
  using take_dedupe_subset [of 16 rs] by (auto simp: ExecutionEvidenceAssessmentV1Schema_def list_all_iff)

text \<open>Evidence that the assessment lets through.\<close>

definition sufficient_evidence :: "bool \<Rightarrow> bool \<Rightarrow> execution_evidence \<Rightarrow> bool" where
  "sufficient_evidence after_exit fresh_shell e \<longleftrightarrow>
     ev_validation_passed e = Some True
     \<and> ev_after_exit_revalidated e \<noteq> Some False \<and> ev_fresh_shell_probe_passed e \<noteq> Some False
     \<and> (after_exit \<longrightarrow> ev_after_exit_revalidated e = Some True)
     \<and> (fresh_shell \<longrightarrow> ev_fresh_shell_probe_passed e = Some True)
     \<and> (after_exit \<or> fresh_shell \<longrightarrow> ev_validation_boundary e \<in> {RuntimeOrchestrator, ExternalVerifier})
     \<and> \<not> ev_false_confidence_detected e \<and> ev_failure_reason e = None
     \<and> (\<exists>ref \<in> set (ev_evidence_refs e). ref \<noteq> ''source.metrics'')"

lemma evidence_reasons_Nil:
  assumes "evidence_ok e"
  shows "evidence_reasons (Some e) a f = [] \<and> deriveStatus (Some e) [] = Succeeded \<longleftrightarrow> sufficient_evidence a f e"
  using assms
  by (auto simp: evidence_reasons_def deriveStatus_def sufficient_evidence_def evidence_ok_def text_ok_def
      hasExplicitExecutionEvidenceRef_def validationBoundaryAllowsExternalVerification_def list_ex_iff
      split: option.splits)

lemma status_Succeeded:
  "deriveStatus ev (evidence_reasons ev a f) = Succeeded
     \<longleftrightarrow> (\<exists>e. ev = Some e \<and> evidence_reasons ev a f = [] \<and> deriveStatus ev [] = Succeeded)"
  by (auto simp: deriveStatus_def split: option.splits if_splits)

lemma assess_total:
  assumes "inferRequiresAfterExit contract = Inr a" "inferRequiresFreshShell contract = Inr f"
  obtains r where "assessExecutionEvidence contract ev requested None None = Inr r"
    "ea_requested_trust r = normalizeTrust (or_nullish requested (chain_get contract ''contract_trust''))"
    "ea_reasons r = take 16 (dedupe (evidence_reasons (parseEvidence ev) a f))"
    "ea_allows_stable_promotion r \<longleftrightarrow> (\<exists>e. parseEvidence ev = Some e \<and> sufficient_evidence a f e)"
    "ea_allows_authoritative r \<longleftrightarrow> ea_requested_trust r = Some Authoritative \<and> ea_allows_stable_promotion r"
    "ea_effective_trust r = (if ea_requested_trust r = Some Authoritative \<and> \<not> ea_allows_authoritative r
       then Some Advisory else ea_requested_trust r)"
proof -
  have "deriveStatus (parseEvidence ev) (evidence_reasons (parseEvidence ev) a f) = Succeeded
      \<and> hasExplicitExecutionEvidenceRef (parseEvidence ev)
      \<longleftrightarrow> (\<exists>e. parseEvidence ev = Some e \<and> sufficient_evidence a f e)"
  proof (cases "parseEvidence ev")
    case (Some e)
    have "sufficient_evidence a f e \<Longrightarrow> hasExplicitExecutionEvidenceRef (Some e)"
      by (auto simp: sufficient_evidence_def hasExplicitExecutionEvidenceRef_def list_ex_iff)
    then show ?thesis
      using evidence_reasons_Nil [OF parseEvidence_ok [OF Some], of a f] Some status_Succeeded [of "Some e" a f] by auto
  qed (simp add: deriveStatus_def)
  note sufficient = this
  show ?thesis
  proof (rule that)
    show "assessExecutionEvidence contract ev requested None None = Inr
      (let evidence = parseEvidence ev; reasons = evidence_reasons evidence a f;
           trust = normalizeTrust (or_nullish requested (chain_get contract ''contract_trust''));
           explicit = hasExplicitExecutionEvidenceRef evidence; status = deriveStatus evidence reasons;
           allows = (trust = Some Authoritative \<and> status = Succeeded \<and> explicit)
       in \<lparr>ea_status = status, ea_allows_authoritative = allows,
           ea_allows_stable_promotion = (status = Succeeded \<and> explicit), ea_requested_trust = trust,
           ea_effective_trust = (if trust = Some Authoritative \<and> \<not> allows then Some Advisory else trust),
           ea_reasons = take 16 (dedupe reasons),
           ea_decisive_fields =
             \<lparr>ed_validation_passed = Option.bind evidence ev_validation_passed,
              ed_after_exit_revalidated = Option.bind evidence ev_after_exit_revalidated,
              ed_fresh_shell_probe_passed = Option.bind evidence ev_fresh_shell_probe_passed,
              ed_validation_boundary =
                (case evidence of None \<Rightarrow> BoundaryUnknown | Some e \<Rightarrow> ev_validation_boundary e),
              ed_false_confidence_detected =
                (case evidence of None \<Rightarrow> False | Some e \<Rightarrow> ev_false_confidence_detected e),
              ed_failure_reason_present =
                (case Option.bind evidence ev_failure_reason of None \<Rightarrow> False | Some r \<Rightarrow> r \<noteq> []),
              ed_requires_after_exit_revalidation = a, ed_requires_fresh_shell_probe = f,
              ed_requires_external_validation_boundary = (a \<or> f)\<rparr>\<rparr>)"
      unfolding assessExecutionEvidence_def Let_def assms option.case and_then_simps
      by (rule assessment_schema_ok [OF evidence_reasons_ok]) simp
  qed (use sufficient in \<open>auto simp: Let_def\<close>)
qed

end
