(* ===== verification/AuthorityGate.thy ===== *)
theory AuthorityGate
  imports ExecutionEvidence
begin

text \<open>
  The gate that decides whether a workflow, a policy or a pattern may be authoritative:
  src/memory/authority-gate.ts.  It joins the gate of the outcome contract with the assessment
  of the execution evidence.  The lemmas describe every field of its result and when it throws.
\<close>

section \<open>The gate\<close>

record runtime_authority_gate =
  ag_status :: gate_status
  ag_allows_authoritative :: bool
  ag_allows_stable_promotion :: bool
  ag_requested_trust :: "contract_trust option"
  ag_effective_trust :: "contract_trust option"
  ag_reasons :: "string list"
  ag_outcome_contract_gate :: outcome_gate
  ag_execution_evidence_assessment :: evidence_assessment

record authority_result =
  ar_authorityGate :: runtime_authority_gate
  ar_outcomeContractGate :: outcome_gate
  ar_executionEvidence :: "jv option"
  ar_executionEvidenceAssessment :: evidence_assessment

definition trust_or_null :: "contract_trust option \<Rightarrow> jv option" where
  "trust_or_null t = Some (case t of None \<Rightarrow> JNull | Some u \<Rightarrow> trust_value u)"

text \<open>\<^verbatim>\<open>args.evidence ?? extractExecutionEvidenceFromSlots(...)\<close>.\<close>

definition gate_evidence :: "jv option \<Rightarrow> jv option \<Rightarrow> jv option \<Rightarrow> string + jv option" where
  "gate_evidence evidence slots metrics =
     (if \<not> nullish evidence then Inr evidence
      else and_then (extractExecutionEvidenceFromSlots slots metrics) (\<lambda>e.
             Inr (Some (case e of None \<Rightarrow> JNull | Some f \<Rightarrow> evidence_value f))))"

definition join_gates ::
  "contract_trust option \<Rightarrow> outcome_gate \<Rightarrow> evidence_assessment \<Rightarrow> runtime_authority_gate" where
  "join_gates requestedTrust outcome assessment =
     (let reasons = take 16 (dedupe (map (\<lambda>r. ''outcome_contract:'' @ r) (og_reasons outcome)
                                     @ map (\<lambda>r. ''execution_evidence:'' @ r) (ea_reasons assessment)));
          allows = (requestedTrust = Some Authoritative \<and> og_allows_authoritative outcome
                    \<and> ea_allows_authoritative assessment)
      in \<lparr>ag_status = (if reasons = [] then Sufficient else Insufficient),
          ag_allows_authoritative = allows,
          ag_allows_stable_promotion =
            (ea_allows_stable_promotion assessment
             \<and> (requestedTrust \<noteq> Some Authoritative \<or> og_allows_authoritative outcome)),
          ag_requested_trust = requestedTrust,
          ag_effective_trust =
            (if requestedTrust = Some Authoritative \<and> \<not> allows then Some Advisory else requestedTrust),
          ag_reasons = reasons,
          ag_outcome_contract_gate = outcome,
          ag_execution_evidence_assessment = assessment\<rparr>)"

definition buildRuntimeAuthorityGate ::
  "jv option \<Rightarrow> jv option \<Rightarrow> jv option \<Rightarrow> jv option \<Rightarrow> jv option \<Rightarrow> string + authority_result" where
  "buildRuntimeAuthorityGate contract requested slots metrics evidence_arg =
     (let requestedTrust = normalizeContractTrust
            (or_nullish requested (chain_get contract ''contract_trust''))
      in and_then (buildOutcomeContractGate contract (trust_or_null requestedTrust)) (\<lambda>outcome.
         and_then (gate_evidence evidence_arg slots metrics) (\<lambda>evidence.
         and_then (assessExecutionEvidence contract evidence (trust_or_null requestedTrust) None None) (\<lambda>assessment.
           Inr \<lparr>ar_authorityGate = join_gates requestedTrust outcome assessment,
                ar_outcomeContractGate = outcome,
                ar_executionEvidence = evidence,
                ar_executionEvidenceAssessment = assessment\<rparr>))))"

definition downgradeAuthoritativeTrust ::
  "contract_trust option \<Rightarrow> runtime_authority_gate \<Rightarrow> contract_trust option" where
  "downgradeAuthoritativeTrust requested gate =
     (if requested = Some Authoritative \<and> \<not> ag_allows_authoritative gate
      then Some (case ag_effective_trust gate of Some t \<Rightarrow> t | None \<Rightarrow> Advisory)
      else requested)"

section \<open>When a contract can be read\<close>

definition outcome_keys :: "string list" where
  "outcome_keys =
     [''must_hold_after_exit'', ''environment_assumptions'', ''success_invariants'',
      ''external_visibility_requirements'']"

definition contract_shape :: "jv \<Rightarrow> bool" where
  "contract_shape c \<longleftrightarrow>
     (\<exists>ob. c = JObj ob)
     \<and> (\<exists>ob. js_get c ''outcome'' = Some (JObj ob)
          \<and> (\<forall>k \<in> set outcome_keys. \<exists>vs. obj_get ob k = Some (JArr vs)))
     \<and> (\<exists>vs. js_get c ''service_lifecycle_constraints'' = Some (JArr vs) \<and> JNull \<notin> set vs)"

text \<open>What such a contract requires of the evidence.\<close>

definition requires_after_exit :: "jv \<Rightarrow> bool" where
  "requires_after_exit c \<longleftrightarrow> inferRequiresAfterExit (Some c) = Inr True"

definition requires_fresh_shell :: "jv \<Rightarrow> bool" where
  "requires_fresh_shell c \<longleftrightarrow> inferRequiresFreshShell (Some c) = Inr True"

lemma any_element_returns: "(\<And>x. x \<in> set xs \<Longrightarrow> \<not> isl (f x)) \<Longrightarrow> \<not> isl (any_element f xs)"
proof (induction xs)
  case (Cons x xs)
  then have "\<not> isl (f x)" "\<not> isl (any_element f xs)" by auto
  then show ?case by (cases "f x") auto
qed simp

lemma or_result_returns: "\<not> isl x \<Longrightarrow> \<not> isl (y ()) \<Longrightarrow> \<not> isl (or_result x y)"
  by (cases x) (simp_all add: or_result_def)

lemma returns_eq: "\<not> isl r \<Longrightarrow> r = Inr (r = Inr True)"
  by (cases r) auto

lemma truthy_member_returns: "x \<noteq> JNull \<Longrightarrow> \<not> isl (truthy_member k x)"
  by (simp add: truthy_member_def member_def nullish_def)

lemma constraints_some_returns:
  assumes "contract_shape c"
  shows "\<not> isl (constraints_some k (Some c))"
proof -
  obtain vs where vs: "js_get c ''service_lifecycle_constraints'' = Some (JArr vs)" "JNull \<notin> set vs"
    using assms unfolding contract_shape_def by blast
  have "c \<noteq> JNull" using assms by (auto simp: contract_shape_def)
  with vs(1) have "constraints_some k (Some c) = any_element (truthy_member k) vs"
    by (simp add: constraints_some_def member_def nullish_def array_some_def)
  then show ?thesis using vs(2) by (metis any_element_returns truthy_member_returns)
qed

lemma outcome_member_Inr:
  assumes "contract_shape c"
    "k \<in> set outcome_keys"
  obtains vs where "outcome_member (Some c) k = Inr (Some (JArr vs))"
proof -
  obtain ob vs where ob: "js_get c ''outcome'' = Some (JObj ob)" "obj_get ob k = Some (JArr vs)"
    using assms unfolding contract_shape_def by blast
  have "c \<noteq> JNull" using assms(1) by (auto simp: contract_shape_def)
  with ob that show ?thesis by (simp add: outcome_member_def member_def nullish_def)
qed

lemma outcome_some_returns:
  assumes "contract_shape c"
    "k \<in> set outcome_keys"
  shows "\<not> isl (and_then (outcome_member (Some c) k) (array_some (mentions ws)))"
proof -
  obtain vs where "outcome_member (Some c) k = Inr (Some (JArr vs))" by (rule outcome_member_Inr [OF assms])
  moreover have "\<not> isl (any_element (mentions ws) vs)" by (rule any_element_returns) (simp add: mentions_def)
  ultimately show ?thesis by (simp add: array_some_def)
qed

lemma inferRequiresAfterExit_Inr:
  assumes "contract_shape c"
  shows "inferRequiresAfterExit (Some c) = Inr (requires_after_exit c)"
proof -
  obtain vs where "outcome_member (Some c) ''must_hold_after_exit'' = Inr (Some (JArr vs))"
    by (rule outcome_member_Inr [OF assms, of "''must_hold_after_exit''"]) (simp add: outcome_keys_def)
  then have "\<not> isl (and_then (outcome_member (Some c) ''must_hold_after_exit'') has_length)"
    by (simp add: has_length_def member_def nullish_def)
  then have "\<not> isl (inferRequiresAfterExit (Some c))"
    unfolding inferRequiresAfterExit_def using constraints_some_returns [OF assms]
    by (simp add: or_result_returns)
  then show ?thesis unfolding requires_after_exit_def by (rule returns_eq)
qed

lemma inferRequiresFreshShell_Inr:
  assumes "contract_shape c"
  shows "inferRequiresFreshShell (Some c) = Inr (requires_fresh_shell c)"
proof -
  have "\<not> isl (inferRequiresFreshShell (Some c))"
    unfolding inferRequiresFreshShell_def using constraints_some_returns [OF assms] outcome_some_returns [OF assms]
    by (simp add: or_result_returns outcome_keys_def)
  then show ?thesis unfolding requires_fresh_shell_def by (rule returns_eq)
qed

section \<open>What the gate decides\<close>

lemma normalize_trust_or_null:
  "normalizeContractTrust (or_nullish (trust_or_null (Some t)) d) = Some t"
  by (cases t) (simp_all add: trust_or_null_def or_nullish_def nullish_def normalizeContractTrust_def)

lemma nullish_trust_or_null: "nullish (trust_or_null t) \<longleftrightarrow> t = None"
  by (cases t) (auto simp: trust_or_null_def nullish_def elim: trust_value.elims)

definition gate_allows :: "jv \<Rightarrow> jv option \<Rightarrow> bool" where
  "gate_allows c evidence \<longleftrightarrow>
     gate_reasons (Some c) = []
     \<and> (\<exists>e. parseEvidence evidence = Some e
            \<and> sufficient_evidence (requires_after_exit c) (requires_fresh_shell c) e)"

lemma authority_gate_total:
  assumes "contract_shape c" "gate_evidence evidence slots metrics = Inr ev"
  obtains r where "buildRuntimeAuthorityGate (Some c) requested slots metrics evidence = Inr r"
    "ar_executionEvidence r = ev"
    "ag_requested_trust (ar_authorityGate r)
       = normalizeContractTrust (or_nullish requested (js_get c ''contract_trust''))"
    "ag_allows_authoritative (ar_authorityGate r)
       \<longleftrightarrow> ag_requested_trust (ar_authorityGate r) = Some Authoritative \<and> gate_allows c ev"
    "ag_allows_stable_promotion (ar_authorityGate r)
       \<longleftrightarrow> (\<exists>e. parseEvidence ev = Some e
                \<and> sufficient_evidence (requires_after_exit c) (requires_fresh_shell c) e)
          \<and> (ag_requested_trust (ar_authorityGate r) = Some Authoritative \<longrightarrow> gate_reasons (Some c) = [])"
    "ag_effective_trust (ar_authorityGate r)
       = (if ag_requested_trust (ar_authorityGate r) = Some Authoritative
             \<and> \<not> ag_allows_authoritative (ar_authorityGate r)
          then Some Advisory else ag_requested_trust (ar_authorityGate r))"
proof -
  have cn: "\<not> nullish (Some c)" using assms(1) by (auto simp: contract_shape_def nullish_def)
  let ?t = "normalizeContractTrust (or_nullish requested (js_get c ''contract_trust''))"
  obtain g where g: "buildOutcomeContractGate (Some c) (trust_or_null ?t) = Inr g"
    "og_requested_trust g = normalizeContractTrust
       (or_nullish (trust_or_null ?t) (chain_get (asRecord (Some c)) ''contract_trust''))"
    "og_allows_authoritative g \<longleftrightarrow> og_requested_trust g = Some Authoritative \<and> gate_reasons (Some c) = []"
    by (rule buildOutcomeContractGate_total) blast
  obtain a where a: "assessExecutionEvidence (Some c) ev (trust_or_null ?t) None None = Inr a"
    "ea_requested_trust a = normalizeTrust (or_nullish (trust_or_null ?t) (chain_get (Some c) ''contract_trust''))"
    "ea_allows_stable_promotion a \<longleftrightarrow> (\<exists>e. parseEvidence ev = Some e
       \<and> sufficient_evidence (requires_after_exit c) (requires_fresh_shell c) e)"
    "ea_allows_authoritative a \<longleftrightarrow> ea_requested_trust a = Some Authoritative \<and> ea_allows_stable_promotion a"
    by (rule assess_total [OF inferRequiresAfterExit_Inr [OF assms(1)] inferRequiresFreshShell_Inr [OF assms(1)]]) blast
  have same: "og_requested_trust g = Some t" "ea_requested_trust a = Some t" if "?t = Some t" for t
    unfolding g(2) a(2) that normalizeTrust_def by (rule normalize_trust_or_null)+
  let ?r = "\<lparr>ar_authorityGate = join_gates ?t g a, ar_outcomeContractGate = g,
    ar_executionEvidence = ev, ar_executionEvidenceAssessment = a\<rparr>"
  have eq: "buildRuntimeAuthorityGate (Some c) requested slots metrics evidence = Inr ?r"
    unfolding buildRuntimeAuthorityGate_def chain_get_def Let_def using cn g(1) a(1) assms(2)
    by (simp add: chain_get_def)
  show ?thesis
    by (rule that [OF eq]) (use g(3) a(3,4) same in \<open>auto simp: join_gates_def Let_def gate_allows_def\<close>)
qed

text \<open>The only error left for a contract that can be read is that of the extraction of the evidence.\<close>

lemma authority_gate_throws:
  assumes "gate_evidence evidence slots metrics = Inl err"
  shows "buildRuntimeAuthorityGate (Some c) requested slots metrics evidence = Inl err"
proof -
  obtain g where "buildOutcomeContractGate (Some c) (trust_or_null
      (normalizeContractTrust (or_nullish requested (chain_get (Some c) ''contract_trust'')))) = Inr g"
    by (rule buildOutcomeContractGate_total) blast
  then show ?thesis using assms by (simp add: buildRuntimeAuthorityGate_def Let_def)
qed

lemma gate_evidence_given: "\<not> nullish evidence \<Longrightarrow> gate_evidence evidence slots metrics = Inr evidence"
  by (simp add: gate_evidence_def)

lemma gate_evidence_extracted:
  "nullish evidence \<Longrightarrow> gate_evidence evidence slots metrics =
     (case extractExecutionEvidenceFromSlots slots metrics of
        Inl err \<Rightarrow> Inl err | Inr None \<Rightarrow> Inr (Some JNull) | Inr (Some f) \<Rightarrow> Inr (Some (evidence_value f)))"
  by (simp add: gate_evidence_def split: sum.split option.split)

end
