(* ===== verification/PropsAuthority.thy ===== *)
theory PropsAuthority
  imports AuthorityGate
begin

text \<open>
  Properties of trust: what makes a contract authoritative, what its evidence must say, and how
  evidence is collected.
\<close>

section \<open>Authority\<close>

text \<open>C8: Given a contract whose outcome and constraints can be read, the authority gate throws only
  the error with which the extraction of the evidence from the slots fails, which is tried when the
  request carries no evidence.  Otherwise it answers, with the evidence of the request or the one
  extracted, and it allows authority exactly when the request asks for it, the contract has a
  verifiable outcome (and, if it starts durable services, says how they outlive the agent), and the
  evidence parses and shows a passed validation without contradiction, from an explicit reference,
  and, where the contract asks for it, revalidated after exit or from a fresh shell by somebody
  other than the agent.  Without authority the effective trust is below it.\<close>

theorem authority_needs_contract_and_evidence:
  assumes "contract_shape c"
  shows "gate_evidence evidence slots metrics =
      (if \<not> nullish evidence then Inr evidence
       else case extractExecutionEvidenceFromSlots slots metrics of
              Inl err \<Rightarrow> Inl err | Inr None \<Rightarrow> Inr (Some JNull) | Inr (Some f) \<Rightarrow> Inr (Some (evidence_value f)))
    \<and> (case gate_evidence evidence slots metrics of
         Inl err \<Rightarrow> buildRuntimeAuthorityGate (Some c) requested slots metrics evidence = Inl err
       | Inr found \<Rightarrow>
    (\<exists>r. buildRuntimeAuthorityGate (Some c) requested slots metrics evidence = Inr r
    \<and> ar_executionEvidence r = found
    \<and> (ag_allows_authoritative (ar_authorityGate r) \<longleftrightarrow>
         normalizeContractTrust (or_nullish requested (js_get c ''contract_trust'')) = Some Authoritative
         \<and> hasVerifiableOutcome (Some c)
         \<and> (durable_constraints (Some c) \<noteq> [] \<longrightarrow>
              outcome_list (Some c) ''must_hold_after_exit'' \<noteq> []
              \<and> outcome_list (Some c) ''external_visibility_requirements'' \<noteq> []
              \<and> (\<forall>d \<in> set (durable_constraints (Some c)). booleanField d ''must_survive_agent_exit''
                   \<and> booleanField d ''revalidate_from_fresh_shell'' \<and> booleanField d ''detach_then_probe'')
              \<and> (\<exists>d \<in> set (durable_constraints (Some c)). stringList (js_get d ''health_checks'') \<noteq> []))
         \<and> (\<exists>e. parseEvidence found = Some e
              \<and> ev_validation_passed e = Some True \<and> ev_failure_reason e = None
              \<and> \<not> ev_false_confidence_detected e
              \<and> ev_after_exit_revalidated e \<noteq> Some False \<and> ev_fresh_shell_probe_passed e \<noteq> Some False
              \<and> (requires_after_exit c \<longrightarrow> ev_after_exit_revalidated e = Some True)
              \<and> (requires_fresh_shell c \<longrightarrow> ev_fresh_shell_probe_passed e = Some True)
              \<and> (requires_after_exit c \<or> requires_fresh_shell c \<longrightarrow>
                   ev_validation_boundary e \<in> {RuntimeOrchestrator, ExternalVerifier})
              \<and> (\<exists>ref \<in> set (ev_evidence_refs e). ref \<noteq> ''source.metrics'')))
    \<and> (\<not> ag_allows_authoritative (ar_authorityGate r) \<longrightarrow>
         ag_effective_trust (ar_authorityGate r) \<noteq> Some Authoritative)))"
proof -
  have first: "gate_evidence evidence slots metrics =
      (if \<not> nullish evidence then Inr evidence
       else case extractExecutionEvidenceFromSlots slots metrics of
              Inl err \<Rightarrow> Inl err | Inr None \<Rightarrow> Inr (Some JNull) | Inr (Some f) \<Rightarrow> Inr (Some (evidence_value f)))"
    by (simp add: gate_evidence_given gate_evidence_extracted)
  show ?thesis
  proof (cases "gate_evidence evidence slots metrics")
    case (Inl err)
    then show ?thesis
      unfolding first [symmetric] by (simp add: authority_gate_throws)
  next
    case (Inr found)
    from authority_gate_total [OF assms this] obtain r where r:
      "buildRuntimeAuthorityGate (Some c) requested slots metrics evidence = Inr r"
      "ar_executionEvidence r = found"
      "ag_requested_trust (ar_authorityGate r)
         = normalizeContractTrust (or_nullish requested (js_get c ''contract_trust''))"
      "ag_allows_authoritative (ar_authorityGate r)
         \<longleftrightarrow> ag_requested_trust (ar_authorityGate r) = Some Authoritative \<and> gate_allows c found"
      "ag_effective_trust (ar_authorityGate r)
         = (if ag_requested_trust (ar_authorityGate r) = Some Authoritative
               \<and> \<not> ag_allows_authoritative (ar_authorityGate r)
            then Some Advisory else ag_requested_trust (ar_authorityGate r))"
      by blast
    have below: "\<not> ag_allows_authoritative (ar_authorityGate r) \<Longrightarrow>
        ag_effective_trust (ar_authorityGate r) \<noteq> Some Authoritative"
      unfolding r(5) by simp
    show ?thesis
      unfolding first [symmetric] Inr sum.case
      using r(1,2,4) below
      unfolding r(3) gate_allows_def gate_reasons_Nil sufficient_evidence_def by blast
  qed
qed

definition example_contract :: jv where
  "example_contract = JObj
     [(''contract_trust'', JStr ''authoritative''),
      (''outcome'', JObj [(''success_invariants'', JArr [JStr ''all_acceptance_checks_pass'']),
         (''acceptance_checks'', JArr [JStr ''npm test'']), (''must_hold_after_exit'', JArr []),
         (''environment_assumptions'', JArr []), (''external_visibility_requirements'', JArr [])]),
      (''service_lifecycle_constraints'', JArr [])]"

definition example_evidence :: jv where
  "example_evidence = JObj [(''validation_passed'', JBool True), (''evidence_refs'', JArr [JStr ''run-1''])]"

lemma example_contract_shape: "contract_shape example_contract"
  by (auto simp: contract_shape_def example_contract_def outcome_keys_def obj_get_def)

lemma has_length_Nil: "has_length (Some (JArr [])) = Inr False"
  using to_num_int [of 0]
  by (simp add: has_length_def member_def nullish_def indexed_member_def is_index_key_def js_nat_def js_Number_def
      is_digit_def)

lemma example_no_after_exit: "\<not> requires_after_exit example_contract"
proof -
  have "outcome_member (Some example_contract) ''must_hold_after_exit'' = Inr (Some (JArr []))"
    "constraints_some ''must_survive_agent_exit'' (Some example_contract) = Inr False"
    "js_truthy (Some example_contract)"
    by code_simp+
  then show ?thesis
    by (simp add: requires_after_exit_def inferRequiresAfterExit_def or_result_def has_length_Nil)
qed

theorem authority_needs_contract_and_evidence_witness:
  "\<exists>r. buildRuntimeAuthorityGate (Some example_contract) None None None (Some example_evidence) = Inr r
     \<and> ag_allows_authoritative (ar_authorityGate r)"
proof -
  have n: "gate_evidence (Some example_evidence) None None = Inr (Some example_evidence)" by code_simp
  have t: "normalizeContractTrust (or_nullish None (js_get example_contract ''contract_trust'')) = Some Authoritative"
    "hasVerifiableOutcome (Some example_contract)" "durable_constraints (Some example_contract) = []"
    "\<not> requires_fresh_shell example_contract"
    by code_simp+
  let ?e = "\<lparr>ev_validation_passed = Some True, ev_after_exit_revalidated = None,
    ev_fresh_shell_probe_passed = None, ev_validation_boundary = BoundaryUnknown,
    ev_failure_reason = None, ev_false_confidence_detected = False, ev_evidence_refs = [''run-1'']\<rparr>"
  have "parseEvidence (Some example_evidence) = Some ?e" by code_simp
  then have "\<exists>e. parseEvidence (Some example_evidence) = Some e \<and> sufficient_evidence False False e"
    by (intro exI [of _ ?e]) (simp add: sufficient_evidence_def)
  with authority_needs_contract_and_evidence [OF example_contract_shape, of "Some example_evidence" None None None] n t
    example_no_after_exit
  show ?thesis unfolding sufficient_evidence_def by auto
qed

text \<open>C30: Steering never raises trust: the resolved trust is at most the computed one and at most
  the explicit one, and it is authoritative exactly when both are and the outcome contract has
  nothing missing.  The resolution never throws.\<close>

theorem steering_never_raises_trust:
  "\<exists>t g. explainContractTrustForSteering computed explicit contract = Inr (t, g)
     \<and> resolveContractTrustForSteering computed explicit contract = Inr t
     \<and> t \<le> computed
     \<and> (case normalizeContractTrust explicit of Some e \<Rightarrow> t \<le> e | None \<Rightarrow> t \<noteq> Authoritative)
     \<and> (t = Authoritative \<longleftrightarrow> computed = Authoritative \<and> normalizeContractTrust explicit = Some Authoritative
          \<and> gate_reasons contract = [])"
proof -
  obtain t g where t: "explainContractTrustForSteering computed explicit contract = Inr (t, g)"
    "t \<le> computed" "\<And>e. normalizeContractTrust explicit = Some e \<Longrightarrow> t \<le> e"
    "t = Authoritative \<longleftrightarrow> computed = Authoritative \<and> normalizeContractTrust explicit = Some Authoritative
       \<and> gate_reasons contract = []"
    by (rule explain_total) blast
  then show ?thesis
    by (intro exI [of _ t] exI [of _ g])
      (auto simp: resolveContractTrustForSteering_def split: option.split)
qed

section \<open>Evidence\<close>

text \<open>The evidence references collected from nested lists and records, with the limit applied
  at every level, are the first 32 distinct candidates in document order.\<close>

theorem evidence_refs_first_distinct:
  "uniqueEvidenceRefs values = take 32 (dedupe (evidence_candidates values))"
  by (rule uniqueEvidenceRefs_eq)

text \<open>Evidence extracted from a run and stored in its slots is extracted again unchanged, and
  the authority gate assesses exactly that evidence.\<close>

theorem extracted_evidence_stable:
  assumes "extractExecutionEvidenceFromSlots slots metrics = Inr (Some e)"
  shows "extractExecutionEvidenceFromSlots
      (Some (JObj [(''execution_evidence_v1'', evidence_value e)])) other = Inr (Some e)
    \<and> gate_evidence None slots metrics = Inr (Some (evidence_value e))
    \<and> parseEvidence (Some (evidence_value e)) = Some e"
proof -
  note parse = parseEvidence_evidence_value [OF extract_ok [OF assms]]
  let ?ob = "[(''execution_evidence_v1'', evidence_value e)]"
  have "\<not> nullish (Some (JObj ?ob))" by (simp add: nullish_def)
  then have "extractExecutionEvidenceFromSlots (Some (JObj ?ob)) other = Inr (Some e)"
    unfolding extractExecutionEvidenceFromSlots_def Let_def or_nullish_def
    by (simp add: obj_get_def parse)
  then show ?thesis using parse assms by (simp add: gate_evidence_def nullish_def)
qed

theorem extracted_evidence_stable_witness:
  "\<exists>e. extractExecutionEvidenceFromSlots (Some (JObj [(''execution_result_summary'',
       JObj [(''status'', JStr ''Passed''), (''ref'', JStr ''run-7'')])])) None = Inr (Some e)
     \<and> parseEvidence (Some (evidence_value e)) = Some e"
proof -
  have "(case extractExecutionEvidenceFromSlots (Some (JObj [(''execution_result_summary'',
       JObj [(''status'', JStr ''Passed''), (''ref'', JStr ''run-7'')])])) None of
      Inr (Some e) \<Rightarrow> True | _ \<Rightarrow> False)"
    by code_simp
  then obtain e where "extractExecutionEvidenceFromSlots (Some (JObj [(''execution_result_summary'',
       JObj [(''status'', JStr ''Passed''), (''ref'', JStr ''run-7'')])])) None = Inr (Some e)"
    by (auto split: sum.splits option.splits)
  with extracted_evidence_stable [OF this] show ?thesis by blast
qed

text \<open>A failed run whose error text is longer than 256 characters has no evidence: the
  compilation of its summary throws, whatever else the summary says about the failure.\<close>

theorem long_error_loses_evidence:
  assumes "js_trim err = err" "256 < length err"
  shows "extractExecutionEvidenceFromSlots
      (Some (JObj [(''execution_result_summary'', JObj [(''passed'', JBool False), (''error'', JStr err)])])) metrics
    = Inl ''ZodError''"
proof -
  let ?r = "JObj [(''passed'', JBool False), (''error'', JStr err)]"
  let ?s = "JObj [(''execution_result_summary'', ?r)]"
  have err: "err \<noteq> []" using assms(2) by auto
  have r: "asRecord (js_get ?s ''execution_result_summary'') = Some ?r"
    by (simp add: obj_get_def asRecord_def is_plain_object_def)
  let ?refs = "[js_get ?s ''execution_evidence'', js_get ?s ''execution_packet_v1'']"
  have absent: "js_get ?s k = None" if "k \<in> {''execution_evidence_v1'', ''compile_summary'',
      ''execution_evidence'', ''execution_packet_v1''}" for k
    using that by (auto simp: obj_get_def proto_keys_def)
  let ?e = "record_evidence ?r ?refs"
  have e: "ev_failure_reason ?e = Some err" "ev_validation_passed ?e = Some False"
    using assms(1) err
    by (simp_all add: record_evidence_def Let_def obj_get_def proto_keys_def nullableString_def validation_keys_def
        chain_get_def nullish_def)
  have "schema_failure_reason (js_get (evidence_value ?e) ''failure_reason'') = None"
    unfolding evidence_members e option.case
    using assms by (simp add: schema_failure_reason_def schema_string256_def)
  then have "ExecutionEvidenceV1Schema (evidence_value ?e) = None"
    unfolding ExecutionEvidenceV1Schema_def by (simp split: option.split)
  then have "compileEvidenceFromRecord (Some ?r) ?refs = Inl ''ZodError''"
    using e by (simp add: compileEvidenceFromRecord_def Let_def no_evidence_def parse_built_evidence_def)
  moreover have "parseEvidence None = None" "\<not> nullish (Some ?s)"
    "chain_get (Some ?r) ''execution_evidence_v1'' = None"
    by (simp_all add: parseEvidence_def asRecord_def nullish_def chain_get_def obj_get_def proto_keys_def)
  moreover have "js_get ?s ''execution_evidence_v1'' = None" by (rule absent) simp
  ultimately show ?thesis
    unfolding extractExecutionEvidenceFromSlots_def Let_def or_nullish_def
    by (simp only: if_False option.sel r first_evidence.simps and_then_simps option.case)
qed

theorem long_error_loses_evidence_witness:
  "extractExecutionEvidenceFromSlots
      (Some (JObj [(''execution_result_summary'', JObj [(''passed'', JBool False),
         (''error'', JStr (replicate 300 (CHR ''x'')))])])) None
    = Inl ''ZodError''"
  by (rule long_error_loses_evidence) code_simp+

end
