(* ===== verification/SandboxNetwork.thy ===== *)
theory SandboxNetwork
  imports IpGuard
begin

text \<open>
  Where the sandbox may connect: src/memory/sandbox-network.ts (host names, IPv4 and IPv6
  addresses, address blocks, private addresses; not the TLS request itself).  BigInts are
  natural numbers with the bit operations of HOL.  \<^verbatim>\<open>isIP\<close> of node:net is the parameter
  \<open>isIP\<close>: 4, 6, or 0 for a string that is no address.
\<close>

section \<open>Host names\<close>

definition js_ends_with :: "string \<Rightarrow> string \<Rightarrow> bool" where
  "js_ends_with s t = js_starts_with (rev s) (rev t)"

lemma js_ends_with_iff: "js_ends_with s t \<longleftrightarrow> (\<exists>a. s = a @ t)"
  unfolding js_ends_with_def js_starts_with_prefix prefix_def by (metis rev_append rev_rev_ident)

definition host_rule_allows :: "string \<Rightarrow> string \<Rightarrow> bool" where
  "host_rule_allows host r0 =
     (let rule = js_lower (js_trim r0)
      in if rule = [] then False
         else if js_starts_with rule ''*.'' then
           (let suf = drop 2 rule in suf \<noteq> [] \<and> (host = suf \<or> js_ends_with host (CHR ''.'' # suf)))
         else host = rule)"

definition sandboxRemoteHostAllowed :: "string \<Rightarrow> string list \<Rightarrow> bool" where
  "sandboxRemoteHostAllowed hostname allowlist =
     (let host = js_lower (js_trim hostname)
      in if host = [] then False
         else if allowlist = [] then False
         else list_ex (host_rule_allows host) allowlist)"

definition trimTrailingSlash :: "string \<Rightarrow> string" where
  "trimTrailingSlash v = rev (dropWhile (\<lambda>c. c = CHR ''/'') (rev v))"

section \<open>Addresses\<close>

definition ipv4_part :: "string \<Rightarrow> nat option" where
  "ipv4_part p =
     (if list_all is_digit p \<and> 1 \<le> length p \<and> length p \<le> 3 \<and> nat_of_digits 0 p \<le> 255
      then Some (nat_of_digits 0 p) else None)"

fun all_parts :: "('a \<Rightarrow> 'b option) \<Rightarrow> 'a list \<Rightarrow> 'b list option" where
  "all_parts f [] = Some []"
| "all_parts f (p # ps) =
     (case f p of None \<Rightarrow> None | Some x \<Rightarrow> map_option (\<lambda>xs. x # xs) (all_parts f ps))"

definition normalizeIpv4 :: "string \<Rightarrow> string option" where
  "normalizeIpv4 ip =
     (let parts = js_split (CHR ''.'') (js_trim ip)
      in if length parts \<noteq> 4 then None
         else map_option (\<lambda>os. js_join ''.'' (map dec_nat os)) (all_parts ipv4_part parts))"

fun indexOf :: "string \<Rightarrow> string \<Rightarrow> nat option" where
  "indexOf pat [] = (if pat = [] then Some 0 else None)"
| "indexOf pat (c # s) =
     (if js_starts_with (c # s) pat then Some 0 else map_option Suc (indexOf pat s))"

fun lastIndexOf :: "string \<Rightarrow> string \<Rightarrow> nat option" where
  "lastIndexOf pat [] = (if pat = [] then Some 0 else None)"
| "lastIndexOf pat (c # s) =
     (case lastIndexOf pat s of
        Some i \<Rightarrow> Some (Suc i)
      | None \<Rightarrow> if js_starts_with (c # s) pat then Some 0 else None)"

definition dotted_numbers :: "string \<Rightarrow> nat list" where
  "dotted_numbers s = map (nat_of_digits 0) (js_split (CHR ''.'') s)"

text \<open>A part of hexadecimal digits is read by \<open>js_radix\<close>, which refuses any other character.\<close>

definition parsePart :: "string \<Rightarrow> nat list option" where
  "parsePart part =
     (if part = [] then Some []
      else if CHR ''.'' \<in> set part then
        (case normalizeIpv4 part of
           None \<Rightarrow> None
         | Some n \<Rightarrow> (let os = dotted_numbers n
                      in Some [(push_bit 8 (os ! 0) OR os ! 1) AND 65535,
                               (push_bit 8 (os ! 2) OR os ! 3) AND 65535]))
      else if length part \<le> 4 then map_option (\<lambda>n. [n]) (js_radix 16 part) else None)"

definition colon_parts :: "string \<Rightarrow> string list" where
  "colon_parts s = (if s = [] then [] else js_split (CHR '':'') s)"

definition parseIpv6ToHextets :: "string \<Rightarrow> nat list option" where
  "parseIpv6ToHextets r0 =
     (let input = js_lower (js_trim r0)
      in if input = [] then None
         else
           (let stripped = (case indexOf ''%'' input of Some zone \<Rightarrow> take zone input | None \<Rightarrow> input)
            in case indexOf ''::'' stripped of
                 Some i \<Rightarrow>
                   if lastIndexOf ''::'' stripped \<noteq> Some i then None
                   else (case (all_parts parsePart (colon_parts (take i stripped)),
                               all_parts parsePart (colon_parts (drop (i + 2) stripped))) of
                           (Some ls, Some rs) \<Rightarrow>
                             (let l = concat ls; r = concat rs
                              in if 8 < length l + length r then None
                                 else Some (l @ replicate (8 - (length l + length r)) 0 @ r))
                         | _ \<Rightarrow> None)
               | None \<Rightarrow>
                   (case all_parts parsePart (colon_parts stripped) of
                      None \<Rightarrow> None
                    | Some ls \<Rightarrow> if length (concat ls) \<noteq> 8 then None else Some (concat ls))))"

definition join_bits :: "nat \<Rightarrow> nat list \<Rightarrow> nat" where
  "join_bits w xs = foldl (\<lambda>acc x. push_bit w acc + x) 0 xs"

definition ipToBigInt :: "(string \<Rightarrow> nat) \<Rightarrow> string \<Rightarrow> (nat \<times> nat) option" where
  "ipToBigInt isIP ipRaw =
     (let ip = js_trim ipRaw; family = isIP ip
      in if family = 4 then
           map_option (\<lambda>n. (4, join_bits 8 (dotted_numbers n))) (normalizeIpv4 ip)
         else if family = 6 then
           (case parseIpv6ToHextets ip of
              Some hs \<Rightarrow> if length hs \<noteq> 8 then None else Some (6, join_bits 16 hs)
            | None \<Rightarrow> None)
         else None)"

section \<open>Address blocks\<close>

record parsed_cidr =
  pc_family :: nat
  pc_prefix :: nat
  pc_network :: nat
  pc_mask :: nat

definition family_bits :: "nat \<Rightarrow> nat" where
  "family_bits family = (if family = 4 then 32 else 128)"

definition cidr_bits_mask :: "nat \<Rightarrow> nat \<Rightarrow> nat" where
  "cidr_bits_mask bits p =
     (let fullMask = push_bit bits 1 - 1
      in if p = 0 then 0 else push_bit (bits - p) fullMask AND fullMask)"

definition parseCidrRule :: "(string \<Rightarrow> nat) \<Rightarrow> string \<Rightarrow> parsed_cidr option" where
  "parseCidrRule isIP r0 =
     (let v = js_trim r0
      in if v = [] then None
         else case lastIndexOf ''/'' v of
           None \<Rightarrow> None
         | Some slash \<Rightarrow>
             if slash = 0 \<or> length v - 1 \<le> slash then None
             else case ipToBigInt isIP (js_trim (take slash v)) of
               None \<Rightarrow> None
             | Some (family, value) \<Rightarrow>
                 (case js_number (js_trim (drop (slash + 1) v)) of
                    Fin q \<Rightarrow>
                      if q \<noteq> of_int \<lfloor>q\<rfloor> \<or> q < 0 \<or> of_nat (family_bits family) < q then None
                      else (let p = nat \<lfloor>q\<rfloor>; m = cidr_bits_mask (family_bits family) p
                            in Some \<lparr>pc_family = family, pc_prefix = p, pc_network = value AND m, pc_mask = m\<rparr>)
                  | _ \<Rightarrow> None))"

definition ipInCidrs :: "(string \<Rightarrow> nat) \<Rightarrow> string \<Rightarrow> parsed_cidr list \<Rightarrow> bool" where
  "ipInCidrs isIP ip cidrs =
     (case ipToBigInt isIP ip of
        None \<Rightarrow> False
      | Some (family, value) \<Rightarrow>
          list_ex (\<lambda>c. pc_family c = family \<and> value AND pc_mask c = pc_network c) cidrs)"

definition sandboxRemoteEgressAllowed :: "(string \<Rightarrow> nat) \<Rightarrow> string list \<Rightarrow> parsed_cidr list \<Rightarrow> bool" where
  "sandboxRemoteEgressAllowed isIP resolvedIps cidrs =
     (if cidrs = [] \<or> resolvedIps = [] then False
      else list_all (\<lambda>ip. ipInCidrs isIP ip cidrs) resolvedIps)"

section \<open>Private addresses\<close>

definition private_ipv4 :: "nat \<Rightarrow> bool" where
  "private_ipv4 n \<longleftrightarrow>
     (let b1 = drop_bit 24 n AND 255; b2 = drop_bit 16 n AND 255
      in b1 = 10 \<or> b1 = 127 \<or> b1 = 0 \<or> (b1 = 169 \<and> b2 = 254) \<or> (b1 = 172 \<and> 16 \<le> b2 \<and> b2 \<le> 31)
         \<or> (b1 = 192 \<and> b2 = 168) \<or> 224 \<le> b1)"

definition mapped_ipv4 :: "nat list \<Rightarrow> string" where
  "mapped_ipv4 h =
     print_ip (drop_bit 8 (h ! 6) AND 255) (h ! 6 AND 255) (drop_bit 8 (h ! 7) AND 255) (h ! 7 AND 255)"

lemma js_starts_with_Cons: "js_starts_with (c # s) (d # p) \<longleftrightarrow> c = d \<and> js_starts_with s p"
  by (auto simp: js_starts_with_prefix)

lemma indexOf_None: "CHR '':'' \<notin> set s \<Longrightarrow> indexOf ''::'' s = None"
  by (induction s) (auto simp: js_starts_with_Cons)

lemma length_parsePart: "parsePart p = Some xs \<Longrightarrow> length xs \<le> 2"
  by (auto simp: parsePart_def Let_def split: if_splits option.splits)

lemma lower_char_colon: "lower_char c = CHR '':'' \<Longrightarrow> c = CHR '':''"
proof (rule ccontr)
  assume l: "lower_char c = CHR '':''" and n: "c \<noteq> CHR '':''"
  from l have "of_char (lower_char c) = (58 :: nat)" by simp
  then have "code c = 58" by (auto simp: lower_char_def split: if_splits)
  then have "code c = code (CHR '':'')" by simp
  with n show False by (simp only: of_char_eq_iff)
qed

lemma lower_colon: "CHR '':'' \<in> set (js_lower s) \<Longrightarrow> CHR '':'' \<in> set s"
  by (auto simp: js_lower_def dest: sym lower_char_colon)

text \<open>A text of eight hextets has a colon, so the recursion below goes one level deep.\<close>

lemma colon_parts_no_colon: "CHR '':'' \<notin> set s \<Longrightarrow> length (colon_parts s) \<le> 1"
  by (simp add: colon_parts_def js_split_single)

lemma length_concat_parts:
  "all_parts parsePart ps = Some xss \<Longrightarrow> length (concat xss) \<le> 2 * length ps"
proof (induction ps arbitrary: xss)
  case (Cons p ps)
  then obtain x xs where "parsePart p = Some x" "all_parts parsePart ps = Some xs" "xss = x # xs"
    by (auto split: option.splits)
  with Cons.IH [of xs] length_parsePart [of p x] show ?case by simp
qed simp

lemma hextets_colon:
  assumes "parseIpv6ToHextets s = Some h" "length h = 8"
  shows "CHR '':'' \<in> set s"
proof (rule ccontr)
  assume c: "CHR '':'' \<notin> set s"
  let ?i = "js_lower (js_trim s)"
  obtain a b where "s = a @ js_trim s @ b" using js_trim_split by blast
  then have "set (js_trim s) \<subseteq> set s" by (metis Un_iff set_append subsetI)
  with c have ci: "CHR '':'' \<notin> set ?i" by (auto dest: lower_colon)
  define t where "t = (case indexOf ''%'' ?i of Some zone \<Rightarrow> take zone ?i | None \<Rightarrow> ?i)"
  have ct: "CHR '':'' \<notin> set t" using ci by (auto simp: t_def split: option.splits dest: in_set_takeD)
  obtain ls where "all_parts parsePart (colon_parts t) = Some ls" "h = concat ls"
    using assms(1) indexOf_None [OF ct]
    by (auto simp: parseIpv6ToHextets_def Let_def t_def split: if_splits option.splits)
  with length_concat_parts [of "colon_parts t" ls] colon_parts_no_colon [OF ct] assms(2) show False by simp
qed

lemma print_ip_no_colon: "CHR '':'' \<notin> set (print_ip a b c d)"
  using ip_char_print [of a b c d] by (auto simp: list_all_iff dest: ip_char_facts)

function isPrivateOrLocalIp :: "(string \<Rightarrow> nat) \<Rightarrow> string \<Rightarrow> bool" where
  "isPrivateOrLocalIp isIP ipRaw =
     (case ipToBigInt isIP ipRaw of
        None \<Rightarrow> True
      | Some (family, value) \<Rightarrow>
          if family = 4 then private_ipv4 value
          else case parseIpv6ToHextets ipRaw of
            None \<Rightarrow> True
          | Some h \<Rightarrow>
              if length h \<noteq> 8 then True
              else if list_all (\<lambda>x. x = 0) h then True
              else if h = [0, 0, 0, 0, 0, 0, 0, 1] then True
              else if h ! 0 AND 65024 = 64512 then True
              else if h ! 0 AND 65472 = 65152 then True
              else if h ! 0 = 65280 then True
              else if take 6 h = [0, 0, 0, 0, 0, 65535] then isPrivateOrLocalIp isIP (mapped_ipv4 h)
              else False)"
  by pat_completeness auto
termination
proof (relation "measure (\<lambda>(isIP, s). if CHR '':'' \<in> set s then 1 else 0)", goal_cases)
  case 2
  then show ?case using hextets_colon print_ip_no_colon by (auto simp: mapped_ipv4_def)
qed simp

section \<open>Membership in a block is agreement on its prefix\<close>

lemma bit_cidr_bits_mask:
  "p \<le> bits \<Longrightarrow> bit (cidr_bits_mask bits p) n \<longleftrightarrow> p \<noteq> 0 \<and> bits - p \<le> n \<and> n < bits"
proof -
  assume p: "p \<le> bits"
  have full: "push_bit bits (1 :: nat) - 1 = mask bits"
    by (simp add: mask_eq_exp_minus_1 push_bit_eq_mult)
  show ?thesis
    unfolding cidr_bits_mask_def Let_def full using p
    by (auto simp: bit_and_iff bit_push_bit_iff_nat bit_mask_iff)
qed

lemma masked_eq_iff:
  assumes "v < 2 ^ bits" "b < 2 ^ bits" "p \<le> bits"
  shows "v AND cidr_bits_mask bits p = b AND cidr_bits_mask bits p
    \<longleftrightarrow> drop_bit (bits - p) v = drop_bit (bits - p) (b :: nat)"
proof -
  have high: "\<not> bit x n" if "x < 2 ^ bits" "bits \<le> n" for x n :: nat
    using that by (metis bit_take_bit_iff not_less take_bit_nat_eq_self)
  show ?thesis
  proof (cases "p = 0")
    case True
    have "drop_bit bits v = 0" "drop_bit bits b = 0" using assms by (simp_all add: drop_bit_eq_div)
    then show ?thesis using True by (simp add: cidr_bits_mask_def)
  next
    case False
    have "v AND cidr_bits_mask bits p = b AND cidr_bits_mask bits p
        \<longleftrightarrow> (\<forall>n. bits - p \<le> n \<and> n < bits \<longrightarrow> bit v n = bit b n)"
    proof -
      have m: "bit (cidr_bits_mask bits p) n \<longleftrightarrow> bits - p \<le> n \<and> n < bits" for n
        using bit_cidr_bits_mask [OF assms(3)] False by blast
      have "v AND cidr_bits_mask bits p = b AND cidr_bits_mask bits p
          \<longleftrightarrow> (\<forall>n. bit (v AND cidr_bits_mask bits p) n = bit (b AND cidr_bits_mask bits p) n)"
        by (simp add: bit_eq_iff)
      then show ?thesis unfolding bit_and_iff m by blast
    qed
    also have "\<dots> \<longleftrightarrow> (\<forall>n. bits - p \<le> n \<longrightarrow> bit v n = bit b n)"
      using high [OF assms(1)] high [OF assms(2)] by (meson not_less)
    also have "\<dots> \<longleftrightarrow> (\<forall>n. bit v (bits - p + n) = bit b (bits - p + n))"
    proof (rule iffI; intro allI impI)
      fix n assume "\<forall>n. bit v (bits - p + n) = bit b (bits - p + n)" "bits - p \<le> n"
      then show "bit v n = bit b n" using le_add_diff_inverse [of "bits - p" n] by metis
    qed simp
    also have "\<dots> \<longleftrightarrow> drop_bit (bits - p) v = drop_bit (bits - p) b"
      by (simp add: bit_eq_iff bit_drop_bit_eq)
    finally show ?thesis .
  qed
qed

lemma join_bits_bound: "list_all (\<lambda>x. x < 2 ^ w) xs \<Longrightarrow> join_bits w xs < 2 ^ (w * length xs)"
proof (induction xs rule: rev_induct)
  case (snoc x xs)
  then have "Suc (join_bits w xs) \<le> 2 ^ (w * length xs)" "x < 2 ^ w" by simp_all
  then have "Suc (join_bits w xs) * 2 ^ w \<le> 2 ^ (w * length xs) * 2 ^ w" by (intro mult_le_mono1)
  moreover have "join_bits w (xs @ [x]) = join_bits w xs * 2 ^ w + x"
    by (simp add: join_bits_def push_bit_eq_mult)
  ultimately show ?case using \<open>x < 2 ^ w\<close> by (simp add: power_add [symmetric] algebra_simps)
qed (simp add: join_bits_def)

lemma all_parts_Some:
  "all_parts f ps = Some xs \<Longrightarrow> length xs = length ps \<and> (\<forall>x \<in> set xs. \<exists>p \<in> set ps. f p = Some x)"
proof (induction ps arbitrary: xs)
  case (Cons p ps)
  then obtain x ys where "f p = Some x" "all_parts f ps = Some ys" "xs = x # ys"
    by (auto split: option.splits)
  with Cons.IH [of ys] show ?case by auto
qed simp

lemma dotted_numbers_join: "os \<noteq> [] \<Longrightarrow> dotted_numbers (js_join ''.'' (map dec_nat os)) = os"
proof -
  assume "os \<noteq> []"
  moreover have "CHR ''.'' \<notin> set (dec_nat n)" for n 
    using dec_nat_digits [of "CHR ''.''" n] by (auto simp: is_digit_def)
  ultimately have "js_split (CHR ''.'') (js_join ''.'' (map dec_nat os)) = map dec_nat os"
    by (intro js_split_join) auto
  then show ?thesis by (simp add: dotted_numbers_def comp_def nat_of_digits_dec_nat)
qed

lemma normalizeIpv4_octets:
  assumes "normalizeIpv4 s = Some n"
  shows "length (dotted_numbers n) = 4" "list_all (\<lambda>x. x < 256) (dotted_numbers n)"
proof -
  obtain os where os: "length (js_split (CHR ''.'') (js_trim s)) = 4"
    "all_parts ipv4_part (js_split (CHR ''.'') (js_trim s)) = Some os" "n = js_join ''.'' (map dec_nat os)"
    using assms by (auto simp: normalizeIpv4_def Let_def split: if_splits)
  from all_parts_Some [OF os(2)] os(1) have "length os = 4" "\<forall>x \<in> set os. x < 256"
    by (auto simp: ipv4_part_def split: if_splits)
  moreover from this have "dotted_numbers n = os" unfolding os(3) by (intro dotted_numbers_join) auto
  ultimately show "length (dotted_numbers n) = 4" "list_all (\<lambda>x. x < 256) (dotted_numbers n)"
    by (simp_all add: list_all_iff)
qed

lemma and_65535: "(x :: nat) AND 65535 < 65536"
proof -
  have "(65535 :: nat) = mask 16" by (simp add: mask_eq_exp_minus_1)
  then have "x AND 65535 = take_bit 16 x" by (simp add: take_bit_eq_mask)
  moreover have "take_bit 16 x < 2 ^ 16" by (rule take_bit_nat_less_exp)
  ultimately show ?thesis by simp
qed

lemma radix_fold_bound:
  "list_all (\<lambda>c. radix_digit c < 16) ds \<Longrightarrow> foldl (\<lambda>acc c. 16 * acc + radix_digit c) 0 ds < 16 ^ length ds"
  by (induction ds rule: rev_induct) auto

lemma js_radix_bound: "js_radix 16 ds = Some n \<Longrightarrow> length ds \<le> 4 \<Longrightarrow> n < 65536"
proof -
  assume r: "js_radix 16 ds = Some n" and l: "length ds \<le> 4"
  then have "n < 16 ^ length ds" using radix_fold_bound by (auto simp: js_radix_def split: if_splits)
  also have "\<dots> \<le> 16 ^ 4" using l by (intro power_increasing) auto
  finally show ?thesis by simp
qed

lemma parsePart_bound: "parsePart p = Some xs \<Longrightarrow> list_all (\<lambda>x. x < 65536) xs"
  using and_65535 js_radix_bound
  by (auto simp: parsePart_def Let_def split: if_splits option.splits)

lemma parts_bound: "all_parts parsePart ps = Some xss \<Longrightarrow> list_all (\<lambda>x. x < 65536) (concat xss)"
  using all_parts_Some [of parsePart ps xss] parsePart_bound by (fastforce simp: list_all_iff)

lemma hextets_bound: "parseIpv6ToHextets s = Some h \<Longrightarrow> list_all (\<lambda>x. x < 65536) h"
  unfolding parseIpv6ToHextets_def Let_def
  by (auto split: if_splits option.splits dest!: parts_bound) (simp_all add: list_all_iff)

lemma ipToBigInt_bound:
  assumes "ipToBigInt isIP s = Some (family, v)"
  shows "v < 2 ^ family_bits family" "family = 4 \<or> family = 6"
proof -
  have 8: "join_bits 8 (dotted_numbers n) < 2 ^ 32" if "normalizeIpv4 t = Some n" for t n
    using join_bits_bound [of 8 "dotted_numbers n"] normalizeIpv4_octets [OF that] by simp
  have 16: "join_bits 16 h < 2 ^ 128" if "parseIpv6ToHextets t = Some h" "length h = 8" for t h
    using join_bits_bound [of 16 h] hextets_bound [OF that(1)] that(2) by simp
  show "v < 2 ^ family_bits family"
    using assms by (auto simp: ipToBigInt_def Let_def family_bits_def dest: 8 16 split: if_splits option.splits)
  show "family = 4 \<or> family = 6"
    using assms by (auto simp: ipToBigInt_def Let_def split: if_splits option.splits)
qed

text \<open>The address and the prefix length of a rule.\<close>

lemma parseCidrRule_base:
  assumes "parseCidrRule isIP r0 = Some c"
  obtains slash base where "lastIndexOf ''/'' (js_trim r0) = Some slash"
    "ipToBigInt isIP (js_trim (take slash (js_trim r0))) = Some (pc_family c, base)"
    "js_number (js_trim (drop (slash + 1) (js_trim r0))) = Fin (of_nat (pc_prefix c))"
    "pc_prefix c \<le> family_bits (pc_family c)"
    "pc_mask c = cidr_bits_mask (family_bits (pc_family c)) (pc_prefix c)"
    "pc_network c = base AND pc_mask c"
proof -
  obtain slash family base q where r: "lastIndexOf ''/'' (js_trim r0) = Some slash"
    "ipToBigInt isIP (js_trim (take slash (js_trim r0))) = Some (family, base)"
    "js_number (js_trim (drop (slash + 1) (js_trim r0))) = Fin q"
    "q = of_int \<lfloor>q\<rfloor>" "0 \<le> q" "q \<le> of_nat (family_bits family)"
    "c = \<lparr>pc_family = family, pc_prefix = nat \<lfloor>q\<rfloor>,
      pc_network = base AND cidr_bits_mask (family_bits family) (nat \<lfloor>q\<rfloor>),
      pc_mask = cidr_bits_mask (family_bits family) (nat \<lfloor>q\<rfloor>)\<rparr>"
    using assms by (auto simp: parseCidrRule_def Let_def split: if_splits option.splits jsnum.splits)
  have "q = of_nat (nat \<lfloor>q\<rfloor>)" using r(4,5) by (metis of_nat_nat zero_le_floor of_int_of_nat_eq)
  moreover have "nat \<lfloor>q\<rfloor> \<le> family_bits family" using r(6) by (simp add: nat_le_iff floor_le_iff)
  ultimately show ?thesis using that [of slash base] r by simp
qed

lemma ipInCidrs_iff:
  "ipInCidrs isIP ip cs \<longleftrightarrow> (\<exists>c \<in> set cs. ipInCidrs isIP ip [c])"
  by (auto simp: ipInCidrs_def list_ex_iff split: option.splits)

section \<open>Host rules\<close>

lemma js_split_append_sep: "js_split c (s @ c # t) = js_split c s @ js_split c t"
proof (induction s)
  case (Cons x s)
  then show ?case by (cases "js_split c s") auto
qed simp

lemma js_join_append:
  "xs \<noteq> [] \<Longrightarrow> ys \<noteq> [] \<Longrightarrow> js_join sep (xs @ ys) = js_join sep xs @ sep @ js_join sep ys"
proof (induction sep xs rule: js_join.induct)
  case (2 sep x)
  then show ?case by (cases ys) auto
qed auto

text \<open>A name ends in a dot and \<open>d\<close> exactly when its labels end in those of \<open>d\<close> and have one more.\<close>

lemma subdomain_labels:
  "(\<exists>a. h = a @ CHR ''.'' # d) \<longleftrightarrow>
    (\<exists>ls. ls \<noteq> [] \<and> js_split (CHR ''.'') h = ls @ js_split (CHR ''.'') d)"
proof
  assume "\<exists>ls. ls \<noteq> [] \<and> js_split (CHR ''.'') h = ls @ js_split (CHR ''.'') d"
  then obtain ls where ls: "ls \<noteq> []" "js_split (CHR ''.'') h = ls @ js_split (CHR ''.'') d" by blast
  have "h = js_join ''.'' (js_split (CHR ''.'') h)" by (simp add: js_join_split)
  also have "\<dots> = js_join ''.'' ls @ ''.'' @ d"
    unfolding ls(2) using ls(1) by (subst js_join_append) (simp_all add: js_join_split)
  finally show "\<exists>a. h = a @ CHR ''.'' # d" by auto
qed (auto simp: js_split_append_sep)

end
