(* ===== verification/SandboxStore.thy ===== *)
theory SandboxStore
  imports Tenancy JsConvert StateMachine
begin

text \<open>
  The runs of the sandbox and the table that holds them: the types and helpers of
  src/memory/sandbox-shared.ts, the statements of src/store/lite-host-store.ts, and the requests
  of src/memory/sandbox.ts that open a session, queue a run, read it and cancel it.

  A table is the list of its rows.  A JSON column holds the value its text denotes.  The
  timestamps are ISO texts of one format, which sort as the times they denote, so a time is its
  number of milliseconds.  The request schemas are not modelled: a parsed request is a record.
\<close>

section \<open>Rows\<close>

datatype run_status = RsQueued | RsRunning | RsSucceeded | RsFailed | RsCanceled | RsTimeout

datatype sandbox_mode = SmAsync | SmSync

datatype sandbox_profile = ProfileDefault | ProfileRestricted

record sandbox_run =
  sr_id :: string
  sr_session_id :: string
  sr_tenant_id :: string
  sr_scope :: string
  sr_project_id :: "string option"
  sr_planner_run_id :: "string option"
  sr_decision_id :: "string option"
  sr_action_json :: jv
  sr_mode :: sandbox_mode
  sr_status :: run_status
  sr_timeout_ms :: jsnum
  sr_stdout_text :: string
  sr_stderr_text :: string
  sr_output_truncated :: bool
  sr_exit_code :: "int option"
  sr_error :: "string option"
  sr_cancel_requested :: bool
  sr_cancel_reason :: "string option"
  sr_metadata :: jv
  sr_result_json :: jv
  sr_started_at :: "nat option"
  sr_finished_at :: "nat option"
  sr_created_at :: nat
  sr_updated_at :: nat

record sandbox_session =
  ss_id :: string
  ss_tenant_id :: string
  ss_scope :: string
  ss_profile :: sandbox_profile
  ss_metadata :: jv
  ss_expires_at :: "nat option"
  ss_created_at :: nat
  ss_updated_at :: nat

record sandbox_telemetry =
  st_run_id :: string
  st_session_id :: string
  st_tenant_id :: string
  st_scope :: string
  st_mode :: sandbox_mode
  st_status :: run_status
  st_executor :: "string option"
  st_timeout_ms :: jsnum
  st_queue_wait_ms :: nat
  st_runtime_ms :: nat
  st_total_latency_ms :: nat
  st_cancel_requested :: bool
  st_output_truncated :: bool
  st_exit_code :: "int option"
  st_error_code :: "string option"
  st_created_at :: nat

record sandbox_db =
  sd_sessions :: "sandbox_session list"
  sd_runs :: "sandbox_run list"
  sd_telemetry :: "sandbox_telemetry list"

record finalize_args =
  fa_status :: run_status
  fa_stdout :: string
  fa_stderr :: string
  fa_truncated :: bool
  fa_exit_code :: "int option"
  fa_error :: "string option"
  fa_result :: jv

section \<open>Helpers\<close>

definition TERMINAL_SANDBOX_STATUSES :: "run_status list" where
  "TERMINAL_SANDBOX_STATUSES = [RsSucceeded, RsFailed, RsCanceled, RsTimeout]"

definition trimOrNull :: "jv option \<Rightarrow> string option" where
  "trimOrNull v =
     (case v of Some (JStr s) \<Rightarrow> if js_trim s = [] then None else Some (js_trim s) | _ \<Rightarrow> None)"

definition jsonObject :: "jv option \<Rightarrow> jv" where
  "jsonObject v = (case v of Some u \<Rightarrow> if is_plain_object u then u else JObj [] | None \<Rightarrow> JObj [])"

definition normalizeTimeoutMs :: "jsnum option \<Rightarrow> jsnum \<Rightarrow> jsnum" where
  "normalizeTimeoutMs input defaultTimeoutMs =
     (case map_option num_trunc input of
        Some (Fin q) \<Rightarrow> Fin (max 100 (min 600000 q))
      | _ \<Rightarrow> defaultTimeoutMs)"

definition normalizeSandboxStatus :: "jv option \<Rightarrow> run_status option" where
  "normalizeSandboxStatus v =
     (case trimOrNull v of
        None \<Rightarrow> None
      | Some s \<Rightarrow>
          map_of [(''queued'', RsQueued), (''running'', RsRunning), (''succeeded'', RsSucceeded),
                  (''failed'', RsFailed), (''canceled'', RsCanceled), (''timeout'', RsTimeout)] s)"

definition asFiniteIntOrNull :: "jv option \<Rightarrow> int option" where
  "asFiniteIntOrNull v =
     (case num_trunc (js_Number v) of Fin q \<Rightarrow> Some \<lfloor>q\<rfloor> | _ \<Rightarrow> None)"

section \<open>Statements\<close>

text \<open>An update, with the number of rows it changed.\<close>

definition sql_update :: "('a \<Rightarrow> bool) \<Rightarrow> ('a \<Rightarrow> 'a) \<Rightarrow> 'a list \<Rightarrow> 'a list \<times> nat" where
  "sql_update P f rows = (map (\<lambda>r. if P r then f r else r) rows, length (filter P rows))"

definition parseJsonObject :: "jv \<Rightarrow> jv" where
  "parseJsonObject v = (if is_plain_object v then v else JObj [])"

definition toRunPayloadRow :: "sandbox_run \<Rightarrow> sandbox_run" where
  "toRunPayloadRow r =
     r\<lparr>sr_action_json := parseJsonObject (sr_action_json r), sr_metadata := parseJsonObject (sr_metadata r),
       sr_result_json := parseJsonObject (sr_result_json r)\<rparr>"

definition getRunById :: "string \<Rightarrow> sandbox_run list \<Rightarrow> sandbox_run option" where
  "getRunById i rows = find (\<lambda>r. sr_id r = i) rows"

definition getRunByIdTenantScope :: "string \<Rightarrow> string \<Rightarrow> string \<Rightarrow> sandbox_run list \<Rightarrow> sandbox_run option" where
  "getRunByIdTenantScope i tenantId scope rows =
     find (\<lambda>r. sr_id r = i \<and> sr_tenant_id r = tenantId \<and> sr_scope r = scope) rows"

definition getRunningOrQueuedRunById :: "string \<Rightarrow> sandbox_run list \<Rightarrow> sandbox_run option" where
  "getRunningOrQueuedRunById i rows = find (\<lambda>r. sr_id r = i \<and> sr_status r \<in> {RsQueued, RsRunning}) rows"

text \<open>The primary key refuses an identifier that is taken.\<close>

definition insertRun :: "sandbox_run \<Rightarrow> nat \<Rightarrow> sandbox_run list \<Rightarrow> string + sandbox_run \<times> sandbox_run list" where
  "insertRun args now rows =
     (if getRunById (sr_id args) rows \<noteq> None then Inl ''UNIQUE constraint failed''
      else (let r = args\<lparr>sr_status := RsQueued, sr_stdout_text := [], sr_stderr_text := [],
                         sr_output_truncated := False, sr_exit_code := None, sr_error := None,
                         sr_cancel_requested := False, sr_cancel_reason := None, sr_result_json := JObj [],
                         sr_started_at := None, sr_finished_at := None, sr_created_at := now,
                         sr_updated_at := now\<rparr>
            in Inr (toRunPayloadRow r, rows @ [r])))"

definition store_getRun :: "string \<Rightarrow> string \<Rightarrow> string \<Rightarrow> sandbox_run list \<Rightarrow> sandbox_run option" where
  "store_getRun i tenantId scope rows = map_option toRunPayloadRow (getRunByIdTenantScope i tenantId scope rows)"

definition store_requestCancel ::
  "string \<Rightarrow> string \<Rightarrow> string \<Rightarrow> string option \<Rightarrow> nat \<Rightarrow> sandbox_run list
    \<Rightarrow> sandbox_run option \<times> sandbox_run list" where
  "store_requestCancel i tenantId scope reason now rows =
     (let rows' = fst (sql_update (\<lambda>r. sr_id r = i \<and> sr_tenant_id r = tenantId \<and> sr_scope r = scope)
            (\<lambda>r. r\<lparr>sr_cancel_requested := True,
                   sr_cancel_reason := (case reason of Some c \<Rightarrow> Some c | None \<Rightarrow> sr_cancel_reason r),
                   sr_updated_at := now\<rparr>) rows)
      in (getRunByIdTenantScope i tenantId scope rows', rows'))"

definition cancelQueuedRun :: "string \<Rightarrow> nat \<Rightarrow> sandbox_run list \<Rightarrow> sandbox_run option \<times> sandbox_run list" where
  "cancelQueuedRun i now rows =
     (let existing = (case getRunningOrQueuedRunById i rows of
            Some r \<Rightarrow> parseJsonObject (sr_result_json r) | None \<Rightarrow> JObj []);
          nextResult = (case plain_members existing of
            Some ob \<Rightarrow> JObj (obj_set ''canceled'' (JBool True) ob) | None \<Rightarrow> existing);
          (rows', changes) = sql_update (\<lambda>r. sr_id r = i \<and> sr_status r = RsQueued)
            (\<lambda>r. r\<lparr>sr_status := RsCanceled, sr_finished_at := Some now,
                   sr_error := (case sr_error r of Some e \<Rightarrow> Some e | None \<Rightarrow> Some ''canceled_before_execution''),
                   sr_result_json := nextResult, sr_updated_at := now\<rparr>) rows
      in (if changes < 1 then None else map_option toRunPayloadRow (getRunById i rows'), rows'))"

definition touchRunningRun :: "string \<Rightarrow> nat \<Rightarrow> sandbox_run list \<Rightarrow> sandbox_run list" where
  "touchRunningRun i now rows =
     fst (sql_update (\<lambda>r. sr_id r = i \<and> sr_status r = RsRunning) (\<lambda>r. r\<lparr>sr_updated_at := now\<rparr>) rows)"

definition listStaleRunningRuns :: "nat \<Rightarrow> nat \<Rightarrow> nat \<Rightarrow> sandbox_run list \<Rightarrow> sandbox_run list" where
  "listStaleRunningRuns staleAfterSeconds batch now rows =
     map toRunPayloadRow (take (max 1 batch)
       (sort_by (\<lambda>a b. sr_updated_at a \<le> sr_updated_at b)
         (filter (\<lambda>r. sr_status r = RsRunning \<and> sr_updated_at r + max 1 staleAfterSeconds * 1000 < now) rows)))"

definition getRunningRun :: "string \<Rightarrow> sandbox_run list \<Rightarrow> sandbox_run option" where
  "getRunningRun i rows = map_option toRunPayloadRow (find (\<lambda>r. sr_id r = i \<and> sr_status r = RsRunning) rows)"

definition claimQueuedRun :: "string \<Rightarrow> nat \<Rightarrow> sandbox_run list \<Rightarrow> sandbox_run option \<times> sandbox_run list" where
  "claimQueuedRun i now rows =
     (let (rows', changes) = sql_update (\<lambda>r. sr_id r = i \<and> sr_status r = RsQueued)
            (\<lambda>r. r\<lparr>sr_status := RsRunning,
                   sr_started_at := (case sr_started_at r of Some t \<Rightarrow> Some t | None \<Rightarrow> Some now),
                   sr_updated_at := now\<rparr>) rows
      in (if changes < 1 then None else getRunningRun i rows', rows'))"

definition set_final :: "finalize_args \<Rightarrow> nat \<Rightarrow> sandbox_run \<Rightarrow> sandbox_run" where
  "set_final a now r =
     r\<lparr>sr_status := fa_status a, sr_stdout_text := fa_stdout a, sr_stderr_text := fa_stderr a,
       sr_output_truncated := fa_truncated a, sr_exit_code := fa_exit_code a, sr_error := fa_error a,
       sr_result_json := fa_result a, sr_finished_at := Some now, sr_updated_at := now\<rparr>"

definition finalizeSandboxRun ::
  "string \<Rightarrow> finalize_args \<Rightarrow> bool \<Rightarrow> nat \<Rightarrow> sandbox_run list \<Rightarrow> sandbox_run option \<times> sandbox_run list" where
  "finalizeSandboxRun i a onlyIfRunning now rows =
     (let (rows', changes) = sql_update
            (\<lambda>r. sr_id r = i \<and> (onlyIfRunning \<longrightarrow> sr_status r = RsRunning)) (set_final a now) rows
      in (if changes < 1 then None else getRunById i rows', rows'))"

definition store_finalizeRun :: "string \<Rightarrow> finalize_args \<Rightarrow> nat \<Rightarrow> sandbox_run list \<Rightarrow> sandbox_run option \<times> sandbox_run list" where
  "store_finalizeRun i a now rows =
     map_prod (map_option toRunPayloadRow) (\<lambda>x. x) (finalizeSandboxRun i a False now rows)"

definition store_finalizeRunningRun ::
  "string \<Rightarrow> finalize_args \<Rightarrow> nat \<Rightarrow> sandbox_run list \<Rightarrow> sandbox_run option \<times> sandbox_run list" where
  "store_finalizeRunningRun i a now rows =
     map_prod (map_option toRunPayloadRow) (\<lambda>x. x) (finalizeSandboxRun i a True now rows)"

text \<open>Usage in the last \<open>windowHours\<close>: total, timed out, failed or timed out.\<close>

definition readSandboxBudgetUsage ::
  "string \<Rightarrow> nat \<Rightarrow> string option \<Rightarrow> string option \<Rightarrow> nat \<Rightarrow> sandbox_run list \<Rightarrow> nat \<times> nat \<times> nat" where
  "readSandboxBudgetUsage tenantId windowHours scopeFilter projectFilter now rows =
     (let rs = filter (\<lambda>r. sr_tenant_id r = tenantId
                  \<and> now \<le> sr_created_at r + max 1 windowHours * 60 * 60 * 1000
                  \<and> (case scopeFilter of None \<Rightarrow> True | Some s \<Rightarrow> sr_scope r = s)
                  \<and> (case projectFilter of None \<Rightarrow> True | Some p \<Rightarrow> sr_project_id r = Some p)) rows
      in (length rs, length (filter (\<lambda>r. sr_status r = RsTimeout) rs),
          length (filter (\<lambda>r. sr_status r \<in> {RsFailed, RsTimeout}) rs)))"

section \<open>Telemetry\<close>

text \<open>\<^verbatim>\<open>s.replace(/[^a-z0-9:_-]+/g, "_")\<close>, then the underscores at both ends are dropped.\<close>

definition error_code_char :: "char \<Rightarrow> bool" where
  "error_code_char c \<longleftrightarrow> is_digit c \<or> c \<in> set '':_-'' \<or> (is_alpha c \<and> lower_char c = c)"

fun compact_code :: "bool \<Rightarrow> string \<Rightarrow> string" where
  "compact_code in_run [] = []"
| "compact_code in_run (c # s) =
     (if error_code_char c then c # compact_code False s
      else if in_run then compact_code True s else CHR ''_'' # compact_code True s)"

definition strip_underscores :: "string \<Rightarrow> string" where
  "strip_underscores s =
     rev (dropWhile (\<lambda>c. c = CHR ''_'') (rev (dropWhile (\<lambda>c. c = CHR ''_'') s)))"

definition normalizeTelemetryErrorCode :: "string option \<Rightarrow> string option" where
  "normalizeTelemetryErrorCode v =
     (case trimOrNull (map_option JStr v) of
        None \<Rightarrow> None
      | Some s \<Rightarrow> (let compact = strip_underscores (compact_code False (js_lower s))
                   in if compact = [] then None else Some (take 120 compact)))"

definition telemetryExecutor :: "sandbox_run \<Rightarrow> string option" where
  "telemetryExecutor r =
     (case sr_result_json r of
        JObj ob \<Rightarrow> map_option (take 32) (trimOrNull (obj_get ob ''executor''))
      | _ \<Rightarrow> None)"

definition deltaMs :: "nat option \<Rightarrow> nat option \<Rightarrow> nat" where
  "deltaMs startMs endMs = (case (startMs, endMs) of (Some a, Some b) \<Rightarrow> b - a | _ \<Rightarrow> 0)"

text \<open>\<^verbatim>\<open>ON CONFLICT(id) DO NOTHING\<close>: the first record of a run stays.\<close>

definition insertSandboxTelemetry :: "sandbox_telemetry \<Rightarrow> sandbox_telemetry list \<Rightarrow> sandbox_telemetry list" where
  "insertSandboxTelemetry t ts = (if st_run_id t \<in> set (map st_run_id ts) then ts else ts @ [t])"

definition recordSandboxRunTelemetryRow :: "sandbox_run \<Rightarrow> nat \<Rightarrow> sandbox_telemetry list \<Rightarrow> sandbox_telemetry list" where
  "recordSandboxRunTelemetryRow r now ts =
     (if sr_status r \<notin> set TERMINAL_SANDBOX_STATUSES then ts
      else (let createdMs = Some (sr_created_at r); startedMs = sr_started_at r;
                finishedMs = (case sr_finished_at r of Some t \<Rightarrow> Some t | None \<Rightarrow> Some (sr_updated_at r))
            in insertSandboxTelemetry
                 \<lparr>st_run_id = sr_id r, st_session_id = sr_session_id r, st_tenant_id = sr_tenant_id r,
                  st_scope = sr_scope r, st_mode = sr_mode r, st_status = sr_status r,
                  st_executor = telemetryExecutor r, st_timeout_ms = sr_timeout_ms r,
                  st_queue_wait_ms =
                    (if startedMs \<noteq> None then deltaMs createdMs startedMs else deltaMs createdMs finishedMs),
                  st_runtime_ms = (if startedMs \<noteq> None then deltaMs startedMs finishedMs else 0),
                  st_total_latency_ms = deltaMs createdMs finishedMs,
                  st_cancel_requested = sr_cancel_requested r, st_output_truncated = sr_output_truncated r,
                  st_exit_code = sr_exit_code r, st_error_code = normalizeTelemetryErrorCode (sr_error r),
                  st_created_at = now\<rparr> ts))"

text \<open>The finalisation of the executor: the row is updated, and its telemetry recorded.\<close>

definition finalize :: "string \<Rightarrow> finalize_args \<Rightarrow> nat \<Rightarrow> sandbox_db \<Rightarrow> sandbox_db" where
  "finalize i a now db =
     (let (row, rows) = store_finalizeRun i a now (sd_runs db)
      in db\<lparr>sd_runs := rows,
            sd_telemetry := (case row of None \<Rightarrow> sd_telemetry db
                             | Some r \<Rightarrow> recordSandboxRunTelemetryRow r now (sd_telemetry db))\<rparr>)"

definition finalizeIfRunning :: "string \<Rightarrow> finalize_args \<Rightarrow> nat \<Rightarrow> sandbox_db \<Rightarrow> sandbox_db" where
  "finalizeIfRunning i a now db =
     (let (row, rows) = store_finalizeRunningRun i a now (sd_runs db)
      in db\<lparr>sd_runs := rows,
            sd_telemetry := (case row of None \<Rightarrow> sd_telemetry db
                             | Some r \<Rightarrow> recordSandboxRunTelemetryRow r now (sd_telemetry db))\<rparr>)"

section \<open>Requests\<close>

record session_request =
  sq_tenant_id :: "string option"
  sq_scope :: "string option"
  sq_profile :: sandbox_profile
  sq_ttl_seconds :: "nat option"
  sq_metadata :: "jv option"

record execute_request =
  xq_tenant_id :: "string option"
  xq_scope :: "string option"
  xq_project_id :: "string option"
  xq_session_id :: string
  xq_planner_run_id :: "string option"
  xq_decision_id :: "string option"
  xq_mode :: sandbox_mode
  xq_timeout_ms :: "jsnum option"
  xq_argv :: "string list"
  xq_metadata :: "jv option"

definition run_not_found :: "string \<Rightarrow> string \<Rightarrow> string \<Rightarrow> http_error" where
  "run_not_found runId tenantId scope =
     \<lparr>he_statusCode = 404, he_code = ''sandbox_run_not_found'',
      he_message = ''sandbox run was not found in this tenant/scope'',
      he_details = Some (JObj [(''run_id'', JStr runId), (''tenant_id'', JStr tenantId), (''scope'', JStr scope)])\<rparr>"

datatype sandbox_error = RequestError http_error | StoreError string

text \<open>The text of a timestamp is the parameter \<open>iso_text\<close>; the identifiers that \<^verbatim>\<open>randomUUID\<close> returns are arguments.\<close>

definition createSandboxSession ::
  "session_request \<Rightarrow> string \<Rightarrow> string \<Rightarrow> string \<Rightarrow> nat \<Rightarrow> sandbox_db \<Rightarrow> http_error + sandbox_session \<times> sandbox_db" where
  "createSandboxSession q defaultScope defaultTenantId newId now db =
     and_then (resolveTenantScope (sq_scope q) (sq_tenant_id q) defaultScope defaultTenantId) (\<lambda>tenancy.
       let session = \<lparr>ss_id = newId, ss_tenant_id = ts_tenant_id tenancy, ss_scope = ts_scope tenancy,
             ss_profile = sq_profile q, ss_metadata = jsonObject (sq_metadata q),
             ss_expires_at = (case sq_ttl_seconds q of
                Some ttl \<Rightarrow> if ttl = 0 then None else Some (now + ttl * 1000) | None \<Rightarrow> None),
             ss_created_at = now, ss_updated_at = now\<rparr>
       in Inr (session, db\<lparr>sd_sessions := sd_sessions db @ [session]\<rparr>))"

definition getSessionRef :: "string \<Rightarrow> string \<Rightarrow> string \<Rightarrow> sandbox_db \<Rightarrow> sandbox_session option" where
  "getSessionRef i tenantId scope db =
     find (\<lambda>s. ss_id s = i \<and> ss_tenant_id s = tenantId \<and> ss_scope s = scope) (sd_sessions db)"

definition enqueueSandboxRun ::
  "(nat \<Rightarrow> string) \<Rightarrow> execute_request \<Rightarrow> string \<Rightarrow> string \<Rightarrow> jsnum \<Rightarrow> string \<Rightarrow> nat \<Rightarrow> sandbox_db
    \<Rightarrow> sandbox_error + sandbox_run \<times> sandbox_db" where
  "enqueueSandboxRun iso_text q defaultScope defaultTenantId defaultTimeoutMs newId now db =
     (case resolveTenantScope (xq_scope q) (xq_tenant_id q) defaultScope defaultTenantId of
        Inl e \<Rightarrow> Inl (RequestError e)
      | Inr tenancy \<Rightarrow> (
       case getSessionRef (xq_session_id q) (ts_tenant_id tenancy) (ts_scope tenancy) db of
         None \<Rightarrow> Inl (RequestError \<lparr>he_statusCode = 404, he_code = ''sandbox_session_not_found'',
                   he_message = ''sandbox session was not found in this tenant/scope'',
                   he_details = Some (JObj [(''session_id'', JStr (xq_session_id q)),
                     (''tenant_id'', JStr (ts_tenant_id tenancy)), (''scope'', JStr (ts_scope tenancy))])\<rparr>)
       | Some session \<Rightarrow>
           if (case ss_expires_at session of Some t \<Rightarrow> t < now | None \<Rightarrow> False) then
             Inl (RequestError \<lparr>he_statusCode = 409, he_code = ''sandbox_session_expired'',
               he_message = ''sandbox session is expired'',
               he_details = Some (JObj [(''session_id'', JStr (xq_session_id q)),
                 (''expires_at'', JStr (case ss_expires_at session of Some t \<Rightarrow> iso_text t | None \<Rightarrow> []))])\<rparr>)
           else
             (case insertRun
                \<lparr>sr_id = newId, sr_session_id = xq_session_id q, sr_tenant_id = ts_tenant_id tenancy,
                 sr_scope = ts_scope tenancy, sr_project_id = trimOrNull (map_option JStr (xq_project_id q)),
                 sr_planner_run_id = trimOrNull (map_option JStr (xq_planner_run_id q)),
                 sr_decision_id = xq_decision_id q,
                 sr_action_json = JObj [(''argv'', JArr (map JStr (xq_argv q)))], sr_mode = xq_mode q,
                 sr_status = RsQueued, sr_timeout_ms = normalizeTimeoutMs (xq_timeout_ms q) defaultTimeoutMs,
                 sr_stdout_text = [], sr_stderr_text = [], sr_output_truncated = False, sr_exit_code = None,
                 sr_error = None, sr_cancel_requested = False, sr_cancel_reason = None,
                 sr_metadata = jsonObject (xq_metadata q), sr_result_json = JObj [], sr_started_at = None,
                 sr_finished_at = None, sr_created_at = now, sr_updated_at = now\<rparr> now (sd_runs db) of
                Inl e \<Rightarrow> Inl (StoreError e)
              | Inr (row, rows) \<Rightarrow> Inr (row, db\<lparr>sd_runs := rows\<rparr>))))"

definition getSandboxRun ::
  "string option \<Rightarrow> string option \<Rightarrow> string \<Rightarrow> string \<Rightarrow> string \<Rightarrow> sandbox_db \<Rightarrow> http_error + sandbox_run" where
  "getSandboxRun scope tenantId runId defaultScope defaultTenantId db =
     and_then (resolveTenantScope scope tenantId defaultScope defaultTenantId) (\<lambda>tenancy.
       case store_getRun runId (ts_tenant_id tenancy) (ts_scope tenancy) (sd_runs db) of
         None \<Rightarrow> Inl (run_not_found runId (ts_tenant_id tenancy) (ts_scope tenancy))
       | Some row \<Rightarrow> Inr row)"

text \<open>The status of the answer, and the table after the request.\<close>

definition cancelSandboxRun ::
  "string option \<Rightarrow> string option \<Rightarrow> string \<Rightarrow> string option \<Rightarrow> string \<Rightarrow> string \<Rightarrow> nat \<Rightarrow> sandbox_db
    \<Rightarrow> http_error + run_status \<times> sandbox_db" where
  "cancelSandboxRun scope tenantId runId reason defaultScope defaultTenantId now db =
     and_then (resolveTenantScope scope tenantId defaultScope defaultTenantId) (\<lambda>tenancy.
       case store_requestCancel runId (ts_tenant_id tenancy) (ts_scope tenancy)
              (trimOrNull (map_option JStr reason)) now (sd_runs db) of
         (None, rows) \<Rightarrow> Inl (run_not_found runId (ts_tenant_id tenancy) (ts_scope tenancy))
       | (Some row, rows) \<Rightarrow>
           if sr_status row = RsQueued then
             (case cancelQueuedRun runId now rows of
                (None, rows') \<Rightarrow> Inr (RsQueued, db\<lparr>sd_runs := rows'\<rparr>)
              | (Some canceledRow, rows') \<Rightarrow>
                  Inr (RsCanceled, db\<lparr>sd_runs := rows',
                    sd_telemetry := recordSandboxRunTelemetryRow canceledRow now (sd_telemetry db)\<rparr>))
           else Inr (sr_status row, db\<lparr>sd_runs := rows\<rparr>))"

section \<open>Rows stay well formed, and which way their status goes\<close>

definition terminal :: "run_status \<Rightarrow> bool" where
  "terminal s \<longleftrightarrow> s \<in> set TERMINAL_SANDBOX_STATUSES"

lemma terminal_simps [simp]:
  "\<not> terminal RsQueued" "\<not> terminal RsRunning" "terminal RsSucceeded" "terminal RsFailed"
  "terminal RsCanceled" "terminal RsTimeout"
  by (simp_all add: terminal_def TERMINAL_SANDBOX_STATUSES_def)

definition row_ok :: "sandbox_run \<Rightarrow> bool" where
  "row_ok r \<longleftrightarrow>
     (sr_status r = RsQueued \<longrightarrow> sr_started_at r = None)
     \<and> (sr_status r = RsRunning \<longrightarrow> sr_started_at r \<noteq> None)
     \<and> (sr_finished_at r \<noteq> None \<longleftrightarrow> terminal (sr_status r))"

definition rows_ok :: "sandbox_run list \<Rightarrow> bool" where
  "rows_ok rows \<longleftrightarrow> distinct (map sr_id rows) \<and> list_all row_ok rows"

definition status_edge :: "run_status \<Rightarrow> run_status \<Rightarrow> bool" where
  "status_edge s t \<longleftrightarrow>
     s = t \<or> (s = RsQueued \<and> t \<in> {RsRunning, RsCanceled}) \<or> (s = RsRunning \<and> terminal t)"

text \<open>A row keeps who it belongs to and what it was asked to do.\<close>

definition same_run :: "sandbox_run \<Rightarrow> sandbox_run \<Rightarrow> bool" where
  "same_run r q \<longleftrightarrow>
     sr_id q = sr_id r \<and> sr_session_id q = sr_session_id r \<and> sr_tenant_id q = sr_tenant_id r
     \<and> sr_scope q = sr_scope r \<and> sr_action_json q = sr_action_json r \<and> sr_created_at q = sr_created_at r"

definition advances :: "sandbox_run list \<Rightarrow> sandbox_run list \<Rightarrow> bool" where
  "advances rows rows' \<longleftrightarrow>
     list_all2 (\<lambda>r q. same_run r q \<and> status_edge (sr_status r) (sr_status q)) rows rows'"

lemma same_run_refl [simp]: "same_run r r" by (simp add: same_run_def)
lemma status_edge_refl [simp]: "status_edge s s" by (simp add: status_edge_def)

lemma sql_update_advances:
  "(\<And>r. P r \<Longrightarrow> same_run r (f r) \<and> status_edge (sr_status r) (sr_status (f r)))
    \<Longrightarrow> advances rows (fst (sql_update P f rows))"
  by (simp add: advances_def sql_update_def list_all2_conv_all_nth)

lemma sql_update_ids:
  "(\<And>r. P r \<Longrightarrow> sr_id (f r) = sr_id r) \<Longrightarrow> map sr_id (fst (sql_update P f rows)) = map sr_id rows"
  by (simp add: sql_update_def)

lemma sql_update_rows_ok:
  assumes "\<And>r. P r \<Longrightarrow> row_ok r \<Longrightarrow> sr_id (f r) = sr_id r \<and> row_ok (f r)" "rows_ok rows"
  shows "rows_ok (fst (sql_update P f rows))"
proof -
  have "map sr_id (fst (sql_update P f rows)) = map sr_id rows"
    using assms by (auto simp: sql_update_def rows_ok_def list_all_iff)
  moreover have "list_all row_ok (fst (sql_update P f rows))"
    using assms by (auto simp: sql_update_def rows_ok_def list_all_iff)
  ultimately show ?thesis using assms(2) by (simp only: rows_ok_def)
qed

lemmas statement_defs =
  store_requestCancel_def cancelQueuedRun_def touchRunningRun_def claimQueuedRun_def
  store_finalizeRun_def store_finalizeRunningRun_def finalizeSandboxRun_def

lemma statements_ok [inv_intros]:
  assumes "rows_ok rows"
  shows "rows_ok (snd (store_requestCancel i t sc reason now rows))"
    "rows_ok (snd (cancelQueuedRun i now rows))"
    "rows_ok (touchRunningRun i now rows)"
    "rows_ok (snd (claimQueuedRun i now rows))"
    "terminal (fa_status a) \<Longrightarrow> rows_ok (snd (store_finalizeRun i a now rows))"
    "terminal (fa_status a) \<Longrightarrow> rows_ok (snd (store_finalizeRunningRun i a now rows))"
  unfolding statement_defs Let_def
  by (simp_all add: case_prod_beta del: fst_conv,
      (rule sql_update_rows_ok [OF _ assms], auto simp: row_ok_def set_final_def split: option.splits)+)

lemma statements_advance:
  shows "advances rows (snd (store_requestCancel i t sc reason now rows))"
    "advances rows (snd (cancelQueuedRun i now rows))"
    "advances rows (touchRunningRun i now rows)"
    "advances rows (snd (claimQueuedRun i now rows))"
    "terminal (fa_status a) \<Longrightarrow> advances rows (snd (store_finalizeRunningRun i a now rows))"
  unfolding statement_defs Let_def
  by (simp_all add: case_prod_beta del: fst_conv,
      (rule sql_update_advances, auto simp: same_run_def status_edge_def set_final_def)+)

text \<open>Rows advance and new ones are appended.\<close>

definition moves :: "sandbox_run list \<Rightarrow> sandbox_run list \<Rightarrow> bool" where
  "moves rows rows' \<longleftrightarrow> (\<exists>kept added. rows' = kept @ added \<and> advances rows kept)"

lemma advances_refl: "advances rows rows"
  by (simp add: advances_def list_all2_same)

lemma moves_refl [simp]: "moves rows rows"
  unfolding moves_def using advances_refl by (intro exI [of _ rows] exI [of _ "[]"]) simp

lemma moves_advances: "advances rows rows' \<Longrightarrow> moves rows rows'"
  unfolding moves_def by (intro exI [of _ rows'] exI [of _ "[]"]) simp

lemma insertRun_moves: "insertRun args now rows = Inr (r, rows') \<Longrightarrow> moves rows rows'"
  unfolding moves_def using advances_refl [of rows] by (auto simp: insertRun_def Let_def split: if_splits)

text \<open>The flag of a cancellation changes no status.\<close>

lemma requestCancel_then:
  assumes "advances (snd (store_requestCancel i t sc reason now rows)) rows'"
  shows "advances rows rows'"
proof -
  let ?P = "\<lambda>r. sr_id r = i \<and> sr_tenant_id r = t \<and> sr_scope r = sc"
  let ?f = "\<lambda>r. r\<lparr>sr_cancel_requested := True,
    sr_cancel_reason := (case reason of Some c \<Rightarrow> Some c | None \<Rightarrow> sr_cancel_reason r), sr_updated_at := now\<rparr>"
  have "list_all2 (\<lambda>r q. same_run r q \<and> status_edge (sr_status r) (sr_status q))
      (map (\<lambda>r. if ?P r then ?f r else r) rows) rows'"
    using assms by (simp add: advances_def store_requestCancel_def sql_update_def Let_def)
  then have "list_all2 (\<lambda>r q. same_run (if ?P r then ?f r else r) q
      \<and> status_edge (sr_status (if ?P r then ?f r else r)) (sr_status q)) rows rows'"
    by (simp add: list_all2_map1)
  then show ?thesis
    unfolding advances_def by (rule list_all2_mono) (auto simp: same_run_def split: if_splits)
qed

lemma cancelSandboxRun_moves:
  assumes "cancelSandboxRun sc t i reason ds dt now db = Inr (s, db')"
  shows "moves (sd_runs db) (sd_runs db')"
proof -
  obtain tenancy :: tenant_scope where tn: "resolveTenantScope sc t ds dt = Inr tenancy"
    using assms(1) by (cases "resolveTenantScope sc t ds dt") (auto simp: cancelSandboxRun_def)
  obtain row rows where rr: "store_requestCancel i (ts_tenant_id tenancy) (ts_scope tenancy)
    (trimOrNull (map_option JStr reason)) now (sd_runs db) = (row, rows)" by fastforce
  obtain row' rows' where rr': "cancelQueuedRun i now rows = (row', rows')" by fastforce
  have "advances (sd_runs db) rows"
    using statements_advance(1) [of "sd_runs db" i "ts_tenant_id tenancy" "ts_scope tenancy"] rr by (metis snd_conv)
  moreover have "advances rows rows'" using statements_advance(2) [of rows i now] rr' by simp
  then have "advances (sd_runs db) rows'" using requestCancel_then rr by (metis snd_conv)
  ultimately have "moves (sd_runs db) rows" "moves (sd_runs db) rows'" by (simp_all add: moves_advances)
  then show ?thesis
    using assms(1) tn rr rr' by (cases row; cases row') (auto simp: cancelSandboxRun_def split: if_splits)
qed

lemma enqueueSandboxRun_moves:
  "enqueueSandboxRun iso_text q ds dt timeout newId now db = Inr (r, db') \<Longrightarrow> moves (sd_runs db) (sd_runs db')"
  unfolding enqueueSandboxRun_def
  by (auto split: sum.splits option.splits if_splits dest: insertRun_moves)

lemma insertRun_ok:
  "insertRun args now rows = Inr (r, rows') \<Longrightarrow> rows_ok rows \<Longrightarrow> rows_ok rows'"
proof -
  assume i: "insertRun args now rows = Inr (r, rows')" and ok: "rows_ok rows"
  from i have "getRunById (sr_id args) rows = None" by (auto simp: insertRun_def split: if_splits)
  then have "sr_id args \<notin> set (map sr_id rows)" by (auto simp: getRunById_def find_None_iff)
  with i ok show ?thesis by (auto simp: insertRun_def rows_ok_def row_ok_def Let_def split: if_splits)
qed

text \<open>Of two claims of one run only the first succeeds.\<close>

lemma claim_once:
  "snd (claimQueuedRun i now rows) = rows' \<Longrightarrow> fst (claimQueuedRun i later rows') = None"
proof -
  let ?q = "\<lambda>r. sr_id r = i \<and> sr_status r = RsQueued"
  let ?f = "\<lambda>r. r\<lparr>sr_status := RsRunning,
    sr_started_at := (case sr_started_at r of Some t \<Rightarrow> Some t | None \<Rightarrow> Some now), sr_updated_at := now\<rparr>"
  assume "snd (claimQueuedRun i now rows) = rows'"
  then have rows': "rows' = map (\<lambda>r. if ?q r then ?f r else r) rows"
    unfolding claimQueuedRun_def sql_update_def by (simp add: Let_def)
  have "\<not> ?q (if ?q r then ?f r else r)" for r by (cases "?q r") simp_all
  then have "\<forall>r \<in> set rows'. \<not> ?q r" unfolding rows' set_map ball_simps by (intro ballI)
  then have "filter (\<lambda>r. sr_id r = i \<and> sr_status r = RsQueued) rows' = []" by (simp add: filter_empty_conv)
  then show ?thesis by (simp add: claimQueuedRun_def sql_update_def)
qed

lemma finalize_ok [inv_intros]:
  "rows_ok (sd_runs db) \<Longrightarrow> terminal (fa_status a) \<Longrightarrow> rows_ok (sd_runs (finalize i a now db))"
  "rows_ok (sd_runs db) \<Longrightarrow> terminal (fa_status a) \<Longrightarrow> rows_ok (sd_runs (finalizeIfRunning i a now db))"
  using statements_ok(5,6) [of "sd_runs db" a i now]
  by (simp_all add: finalize_def finalizeIfRunning_def case_prod_beta)

lemma finalizeIfRunning_moves:
  "terminal (fa_status a) \<Longrightarrow> moves (sd_runs db) (sd_runs (finalizeIfRunning i a now db))"
  using statements_advance(5) [of a "sd_runs db" i now]
  by (simp add: finalizeIfRunning_def case_prod_beta moves_advances)

end
