(* ===== verification/SandboxRun.thy ===== *)
theory SandboxRun
  imports SandboxNetwork SandboxStore
begin

text \<open>
  What one run of the sandbox does: the parts of src/memory/sandbox-executor.ts that decide on a
  row, without the queue.  A run is refused or prepared (\<open>parseCommandArgv\<close>, \<open>remote_target\<close>,
  \<open>remote_egress\<close>), and what comes back of the process or of the remote executor becomes the
  arguments of the finalisation (\<open>local_result\<close>, \<open>remote_result\<close>).  The process, the URL
  parser, \<^verbatim>\<open>JSON.parse\<close>, the name service and the clock are arguments.

  The texts a process writes (\<open>fa_stdout\<close>, \<open>sr_stdout_text\<close>, \<open>pe_stdout\<close>, and those of stderr) are held
  as their UTF-8 encoding, a list of bytes, since the code cuts them by bytes: \<open>utf8_text\<close> is what
  \<^verbatim>\<open>Buffer.toString("utf8")\<close> makes of a list of bytes, encoded again.  Every other string is a
  list of characters below 256.

  The last section holds the requests that show the output of a run.
\<close>

section \<open>Configuration\<close>

datatype executor_mode = ModeMock | ModeLocalProcess | ModeHttpRemote

record executor_config =
  xc_enabled :: bool
  xc_mode :: executor_mode
  xc_maxConcurrency :: nat
  xc_stdioMaxBytes :: nat
  xc_allowedCommands :: "string list"
  xc_remote_url :: "string option"
  xc_remote_allowedHosts :: "string list"
  xc_remote_allowedEgressCidrs :: "string list"
  xc_remote_denyPrivateIps :: bool
  xc_heartbeatIntervalMs :: nat
  xc_staleAfterMs :: nat
  xc_recoveryPollIntervalMs :: nat
  xc_recoveryBatchSize :: nat

section \<open>Output\<close>

text \<open>The UTF-8 encoding of a code point.\<close>

definition utf8_char :: "nat \<Rightarrow> string" where
  "utf8_char p = map char_of
     (if p < 128 then [p]
      else if p < 2048 then [192 + p div 64, 128 + p mod 64]
      else if p < 65536 then [224 + p div 4096, 128 + p div 64 mod 64, 128 + p mod 64]
      else [240 + p div 262144, 128 + p div 4096 mod 64, 128 + p div 64 mod 64, 128 + p mod 64])"

text \<open>The encoding of a text given by its code points, and of a string.\<close>

definition utf8_of :: "nat list \<Rightarrow> string" where
  "utf8_of ps = concat (map utf8_char ps)"

definition utf8_encode :: "string \<Rightarrow> string" where
  "utf8_encode s = utf8_of (map of_char s)"

text \<open>The code points a character can have: the surrogates are none.\<close>

definition scalar_value :: "nat \<Rightarrow> bool" where
  "scalar_value p \<longleftrightarrow> p < 55296 \<or> (57344 \<le> p \<and> p < 1114112)"

text \<open>
  Decoding.  A lead byte says how many bytes follow it and the range of the first of them; what is
  no part of a character is decoded as U+FFFD, one for each longest part of a character.
\<close>

definition utf8_lead :: "nat \<Rightarrow> (nat \<times> nat \<times> nat) option" where
  "utf8_lead b =
     (if 194 \<le> b \<and> b \<le> 223 then Some (1, 128, 191)
      else if b = 224 then Some (2, 160, 191)
      else if b = 237 then Some (2, 128, 159)
      else if 225 \<le> b \<and> b \<le> 239 then Some (2, 128, 191)
      else if b = 240 then Some (3, 144, 191)
      else if b = 244 then Some (3, 128, 143)
      else if 241 \<le> b \<and> b \<le> 243 then Some (3, 128, 191)
      else None)"

definition replacement_char :: string where
  "replacement_char = utf8_char 65533"

fun utf8_scan :: "string \<Rightarrow> nat \<times> nat \<times> nat \<Rightarrow> string \<Rightarrow> string" where
  "utf8_scan pending _ [] = (if pending = [] then [] else replacement_char)"
| "utf8_scan pending (needed, lower, upper) (c # s) =
     (let b = of_char c in
      if pending \<noteq> [] \<and> lower \<le> b \<and> b \<le> upper then
        (if needed = 1 then pending @ c # utf8_scan [] (0, 0, 0) s
         else utf8_scan (pending @ [c]) (needed - 1, 128, 191) s)
      else
        (if pending = [] then [] else replacement_char) @
        (if b < 128 then c # utf8_scan [] (0, 0, 0) s
         else case utf8_lead b of
                Some lead \<Rightarrow> utf8_scan [c] lead s
              | None \<Rightarrow> replacement_char @ utf8_scan [] (0, 0, 0) s))"

definition utf8_text :: "string \<Rightarrow> string" where
  "utf8_text s = utf8_scan [] (0, 0, 0) s"

definition tailText :: "string \<Rightarrow> nat \<Rightarrow> string" where
  "tailText input maxBytes =
     (if maxBytes = 0 then []
      else if length input \<le> maxBytes then input else utf8_text (drop (length input - maxBytes) input))"

definition clampOutputAppend :: "string \<Rightarrow> string \<Rightarrow> nat \<Rightarrow> string \<times> bool" where
  "clampOutputAppend current chunk maxBytes =
     (if maxBytes = 0 then ([], True)
      else if maxBytes \<le> length current then (current, True)
      else (let remaining = maxBytes - length current
            in (utf8_text (current @ take remaining chunk), remaining < length chunk)))"

text \<open>The callbacks of the two streams: the texts so far and the flag they share.\<close>

datatype output_stream = Stdout | Stderr

record captured =
  cd_stdout :: string
  cd_stderr :: string
  cd_truncated :: bool

definition no_output :: captured where
  "no_output = \<lparr>cd_stdout = [], cd_stderr = [], cd_truncated = False\<rparr>"

fun on_data :: "nat \<Rightarrow> captured \<Rightarrow> output_stream \<times> string \<Rightarrow> captured" where
  "on_data maxBytes c (Stdout, chunk) =
     (let (next_text, cut) = clampOutputAppend (cd_stdout c) chunk maxBytes
      in c\<lparr>cd_stdout := next_text, cd_truncated := (cd_truncated c \<or> cut)\<rparr>)"
| "on_data maxBytes c (Stderr, chunk) =
     (let (next_text, cut) = clampOutputAppend (cd_stderr c) chunk maxBytes
      in c\<lparr>cd_stderr := next_text, cd_truncated := (cd_truncated c \<or> cut)\<rparr>)"

section \<open>The command\<close>

definition failed_with :: "string \<Rightarrow> jobj \<Rightarrow> finalize_args" where
  "failed_with err result =
     \<lparr>fa_status = RsFailed, fa_stdout = [], fa_stderr = [], fa_truncated = False, fa_exit_code = None,
      fa_error = Some err, fa_result = JObj result\<rparr>"

fun executor_name :: "executor_mode \<Rightarrow> string" where
  "executor_name ModeMock = ''mock''"
| "executor_name ModeLocalProcess = ''local_process''"
| "executor_name ModeHttpRemote = ''http_remote''"

definition argv_of :: "sandbox_run \<Rightarrow> jv list option" where
  "argv_of r = (case chain_get (Some (sr_action_json r)) ''argv'' of Some (JArr vs) \<Rightarrow> Some vs | _ \<Rightarrow> None)"

definition parseCommandArgv ::
  "executor_config \<Rightarrow> executor_mode \<Rightarrow> sandbox_run \<Rightarrow> finalize_args + string list \<times> string" where
  "parseCommandArgv cfg mode r =
     (let ex = (''executor'', JStr (executor_name mode))
      in case argv_of r of
           None \<Rightarrow> Inl (failed_with ''invalid_command_argv'' [ex])
         | Some [] \<Rightarrow> Inl (failed_with ''invalid_command_argv'' [ex])
         | Some (v # vs) \<Rightarrow>
             (let argv = map js_string (v # vs); file = js_trim (hd argv)
              in if file = [] then Inl (failed_with ''invalid_command_name'' [ex])
                 else if file \<notin> set (xc_allowedCommands cfg) then
                   Inl (failed_with ''sandbox_command_not_allowed'' [ex, (''command'', JStr file)])
                 else Inr (argv, file)))"

section \<open>Runs that end without a process\<close>

definition canceled_before_start :: "sandbox_run \<Rightarrow> finalize_args" where
  "canceled_before_start r =
     \<lparr>fa_status = RsCanceled, fa_stdout = sr_stdout_text r, fa_stderr = sr_stderr_text r,
      fa_truncated = sr_output_truncated r, fa_exit_code = sr_exit_code r,
      fa_error = Some (case sr_error r of Some e \<Rightarrow> e | None \<Rightarrow> ''canceled_before_execution''),
      fa_result = JObj [(''canceled'', JBool True), (''stage'', JStr ''pre_start'')]\<rparr>"

definition mock_result :: "sandbox_run \<Rightarrow> finalize_args" where
  "mock_result r =
     (let argv = (case argv_of r of Some vs \<Rightarrow> map js_string vs | None \<Rightarrow> [])
      in \<lparr>fa_status = RsSucceeded, fa_stdout = utf8_encode (js_trim (''mock executor: '' @ js_join '' '' argv)),
          fa_stderr = [], fa_truncated = False, fa_exit_code = Some 0, fa_error = None,
          fa_result = JObj [(''executor'', JStr ''mock''), (''argv'', JArr (map JStr argv))]\<rparr>)"

definition object_members :: "jv \<Rightarrow> jobj" where
  "object_members v = (case plain_members v of Some ob \<Rightarrow> ob | None \<Rightarrow> [])"

definition stale_result :: "executor_config \<Rightarrow> sandbox_run \<Rightarrow> finalize_args" where
  "stale_result cfg r =
     \<lparr>fa_status = RsTimeout, fa_stdout = sr_stdout_text r, fa_stderr = sr_stderr_text r,
      fa_truncated = sr_output_truncated r, fa_exit_code = sr_exit_code r,
      fa_error = Some (case sr_error r of Some e \<Rightarrow> e | None \<Rightarrow> ''executor_stale_recovered''),
      fa_result = JObj (obj_set ''recovery''
        (JObj [(''stale_recovered'', JBool True), (''stale_after_ms'', JNum (js_nat (xc_staleAfterMs cfg)))])
        (object_members (sr_result_json r)))\<rparr>"

section \<open>A local process\<close>

text \<open>Why the process ended: its exit code, the signal, the error of the spawn.\<close>

record process_end =
  pe_stdout :: string
  pe_stderr :: string
  pe_truncated :: bool
  pe_spawnErr :: "string option"
  pe_exitCode :: "int option"
  pe_signal :: "string option"

definition int_text :: "int \<Rightarrow> string" where
  "int_text i = (if i < 0 then CHR ''-'' # dec_nat (nat (- i)) else dec_nat (nat i))"

definition local_status ::
  "bool \<Rightarrow> bool \<Rightarrow> process_end \<Rightarrow> run_status \<times> string option" where
  "local_status canceled timedOut e =
     (if canceled then (RsCanceled, Some ''canceled_by_request'')
      else if timedOut then (RsTimeout, Some ''execution_timeout'')
      else if pe_spawnErr e \<noteq> None \<and> pe_spawnErr e \<noteq> Some [] then (RsFailed, pe_spawnErr e)
      else if pe_exitCode e = Some 0 then (RsSucceeded, None)
      else (RsFailed, Some (''non_zero_exit_code:'' @
              (case pe_exitCode e of Some c \<Rightarrow> int_text c | None \<Rightarrow> ''null''))))"

definition local_result ::
  "sandbox_run \<Rightarrow> string list \<Rightarrow> string \<Rightarrow> bool \<Rightarrow> bool \<Rightarrow> process_end \<Rightarrow> finalize_args" where
  "local_result r argv file canceled timedOut e =
     (let (status, error) = local_status (canceled \<or> sr_cancel_requested r) timedOut e
      in \<lparr>fa_status = status, fa_stdout = pe_stdout e, fa_stderr = pe_stderr e, fa_truncated = pe_truncated e,
          fa_exit_code = pe_exitCode e, fa_error = error,
          fa_result = JObj [(''executor'', JStr ''local_process''), (''command'', JStr file),
            (''argv'', JArr (map JStr argv)),
            (''signal'', case pe_signal e of Some s \<Rightarrow> JStr s | None \<Rightarrow> JNull),
            (''timed_out'', JBool timedOut), (''canceled'', JBool canceled)]\<rparr>)"

section \<open>The remote executor: where it may connect\<close>

definition remoteAllowedCidrs :: "(string \<Rightarrow> nat) \<Rightarrow> executor_config \<Rightarrow> parsed_cidr list" where
  "remoteAllowedCidrs isIP cfg = List.map_filter (parseCidrRule isIP) (xc_remote_allowedEgressCidrs cfg)"

definition remote_ex :: "string \<times> jv" where
  "remote_ex = (''executor'', JStr ''http_remote'')"

text \<open>
  The checks before the name is looked up; \<open>hostname\<close> is \<^verbatim>\<open>new URL(u).hostname\<close>, \<open>None\<close>
  when the constructor throws.
\<close>

definition remote_target ::
  "(string \<Rightarrow> nat) \<Rightarrow> (string \<Rightarrow> string option) \<Rightarrow> executor_config \<Rightarrow> finalize_args + string" where
  "remote_target isIP hostname cfg =
     (case trimOrNull (map_option JStr (xc_remote_url cfg)) of
        None \<Rightarrow> Inl (failed_with ''remote_executor_not_configured'' [remote_ex])
      | Some remoteUrl \<Rightarrow>
          (case hostname remoteUrl of
             None \<Rightarrow> Inl (failed_with ''remote_executor_url_invalid'' [remote_ex])
           | Some host \<Rightarrow>
               if \<not> sandboxRemoteHostAllowed host (xc_remote_allowedHosts cfg) then
                 Inl (failed_with ''remote_executor_host_not_allowed'' [remote_ex, (''host'', JStr host)])
               else if remoteAllowedCidrs isIP cfg = [] then
                 Inl (failed_with ''remote_executor_egress_cidr_blocked''
                   [remote_ex, (''host'', JStr host), (''resolved_ips'', JArr []), (''blocked_ips'', JArr [])])
               else Inr host))"

text \<open>The checks after the lookup, \<open>None\<close> when it throws; the answer is the addresses.\<close>

definition remote_egress ::
  "(string \<Rightarrow> nat) \<Rightarrow> executor_config \<Rightarrow> string \<Rightarrow> string list option \<Rightarrow> finalize_args + string list" where
  "remote_egress isIP cfg host resolved =
     (let cidrs = remoteAllowedCidrs isIP cfg
      in case map_option (\<lambda>as. filter (\<lambda>a. isIP a \<noteq> 0) (map js_trim as)) resolved of
           None \<Rightarrow> Inl (failed_with ''remote_executor_dns_lookup_failed'' [remote_ex, (''host'', JStr host)])
         | Some resolvedIps \<Rightarrow>
             if resolvedIps = [] then
               Inl (failed_with ''remote_executor_no_resolved_ip'' [remote_ex, (''host'', JStr host)])
             else if \<not> sandboxRemoteEgressAllowed isIP resolvedIps cidrs then
               Inl (failed_with ''remote_executor_egress_cidr_blocked''
                 [remote_ex, (''host'', JStr host), (''resolved_ips'', JArr (map JStr resolvedIps)),
                  (''blocked_ips'', JArr (map JStr (filter (\<lambda>ip. \<not> ipInCidrs isIP ip cidrs) resolvedIps)))])
             else
               (let blockedPrivate = filter (\<lambda>ip. isPrivateOrLocalIp isIP ip \<and> \<not> ipInCidrs isIP ip cidrs) resolvedIps
                in if xc_remote_denyPrivateIps cfg \<and> blockedPrivate \<noteq> [] then
                     Inl (failed_with ''remote_executor_private_egress_blocked''
                       [remote_ex, (''host'', JStr host), (''resolved_ips'', JArr (map JStr resolvedIps)),
                        (''blocked_private_ips'', JArr (map JStr blockedPrivate))])
                   else Inr resolvedIps))"

section \<open>The remote executor: what it answers\<close>

text \<open>\<^verbatim>\<open>body && typeof body === "object" ? body.k : null\<close>.\<close>

definition is_object :: "jv \<Rightarrow> bool" where
  "is_object v = (case v of JObj _ \<Rightarrow> True | JArr _ \<Rightarrow> True | JHost k \<Rightarrow> k = ''__proto__'' | _ \<Rightarrow> False)"

definition body_member :: "jv \<Rightarrow> string \<Rightarrow> jv option" where
  "body_member body k = (if is_object body then js_get body k else Some JNull)"

text \<open>A stream of the answer: \<^verbatim>\<open>body.stdout\<close>, else \<^verbatim>\<open>body.output.stdout\<close>, else empty.\<close>

definition body_text :: "jv \<Rightarrow> string \<Rightarrow> string" where
  "body_text body k =
     (case body_member body k of
        Some (JStr s) \<Rightarrow> s
      | _ \<Rightarrow> (let out = body_member body ''output''
              in if js_truthy out then (case js_get (the out) k of Some (JStr s) \<Rightarrow> s | _ \<Rightarrow> []) else []))"

definition body_truncated :: "jv \<Rightarrow> bool" where
  "body_truncated body \<longleftrightarrow>
     (let out = body_member body ''output''
      in (js_truthy out \<and> is_object (the out) \<and> js_truthy (js_get (the out) ''truncated''))
         \<or> (is_object body \<and> js_truthy (js_get body ''output_truncated'')))"

definition remote_body :: "(string \<Rightarrow> jv option) \<Rightarrow> string \<Rightarrow> jv" where
  "remote_body JSON_parse bodyText =
     (if bodyText = [] then JNull else case JSON_parse bodyText of Some v \<Rightarrow> v | None \<Rightarrow> JNull)"

definition answer_status :: "nat \<Rightarrow> jv \<Rightarrow> run_status \<times> string option" where
  "answer_status http body =
     (if http < 200 \<or> 300 \<le> http then (RsFailed, Some (''remote_executor_http_'' @ dec_nat http))
      else
        (let status = (case normalizeSandboxStatus (body_member body ''status'') of
               Some s \<Rightarrow> s
             | None \<Rightarrow> if asFiniteIntOrNull (body_member body ''exit_code'') = Some 0 then RsSucceeded else RsFailed)
         in if status \<notin> set TERMINAL_SANDBOX_STATUSES
            then (RsFailed, Some ''remote_executor_non_terminal_status'')
            else (case trimOrNull (body_member body ''error'') of
                    Some e \<Rightarrow> (status, Some e)
                  | None \<Rightarrow> (status, if status \<noteq> RsSucceeded then Some ''remote_executor_failed'' else None))))"

text \<open>The request threw: the error is its message.\<close>

definition thrown_status :: "bool \<Rightarrow> bool \<Rightarrow> string \<Rightarrow> run_status \<times> string option" where
  "thrown_status canceled timedOut msg =
     (if canceled then (RsCanceled, Some ''canceled_by_request'')
      else if timedOut then (RsTimeout, Some ''execution_timeout'')
      else if msg = ''response_too_large'' then (RsFailed, Some ''remote_executor_response_too_large'')
      else (RsFailed, Some (''remote_executor_error:'' @ msg)))"

record remote_context =
  rx_argv :: "string list"
  rx_file :: string
  rx_host :: string
  rx_resolvedIps :: "string list"

definition remote_base :: "executor_config \<Rightarrow> remote_context \<Rightarrow> jobj" where
  "remote_base cfg x =
     [remote_ex, (''command'', JStr (rx_file x)), (''argv'', JArr (map JStr (rx_argv x))),
      (''host'', JStr (rx_host x)), (''resolved_ips'', JArr (map JStr (rx_resolvedIps x))),
      (''connect_ip'', case rx_resolvedIps x of ip # _ \<Rightarrow> JStr ip | [] \<Rightarrow> JNull),
      (''remote_response_max_bytes'', JNum (js_nat (max (xc_stdioMaxBytes cfg * 8) (256 * 1024))))]"

text \<open>The answer, or the message of the error thrown; \<open>elapsed\<close> in milliseconds.\<close>

datatype remote_answer = Answered nat string | Thrown string

definition remote_status ::
  "(string \<Rightarrow> jv option) \<Rightarrow> bool \<Rightarrow> bool \<Rightarrow> remote_answer \<Rightarrow> run_status \<times> string option" where
  "remote_status JSON_parse canceled timedOut answer =
     (let settled = (case answer of
            Answered http t \<Rightarrow> answer_status http (remote_body JSON_parse t)
          | Thrown msg \<Rightarrow> thrown_status canceled timedOut msg)
      in if canceled then (RsCanceled, Some ''canceled_by_request'')
         else if timedOut then (RsTimeout, Some ''execution_timeout'')
         else settled)"

definition remote_result ::
  "(string \<Rightarrow> jv option) \<Rightarrow> executor_config \<Rightarrow> sandbox_run \<Rightarrow> remote_context \<Rightarrow> bool \<Rightarrow> bool
    \<Rightarrow> nat \<Rightarrow> remote_answer \<Rightarrow> finalize_args" where
  "remote_result JSON_parse cfg r x canceled timedOut elapsed answer =
     (let body = (case answer of Answered _ t \<Rightarrow> remote_body JSON_parse t | Thrown _ \<Rightarrow> JNull);
          (status, error) = remote_status JSON_parse (canceled \<or> sr_cancel_requested r) timedOut answer;
          resultPayload = (case body_member body ''result'' of
             Some v \<Rightarrow> if is_object body \<and> is_object v then v else JObj [] | None \<Rightarrow> JObj [])
      in case answer of
           Answered http _ \<Rightarrow>
             \<lparr>fa_status = status, fa_stdout = tailText (utf8_encode (body_text body ''stdout'')) (xc_stdioMaxBytes cfg),
              fa_stderr = tailText (utf8_encode (body_text body ''stderr'')) (xc_stdioMaxBytes cfg),
              fa_truncated = body_truncated body,
              fa_exit_code = asFiniteIntOrNull (body_member body ''exit_code''), fa_error = error,
              fa_result = JObj (remote_base cfg x @ [(''remote_http_status'', JNum (js_nat http)),
                (''remote_request_ms'', JNum (js_nat elapsed)), (''result'', resultPayload)])\<rparr>
         | Thrown _ \<Rightarrow>
             \<lparr>fa_status = status, fa_stdout = [], fa_stderr = [], fa_truncated = False, fa_exit_code = None,
              fa_error = error,
              fa_result = JObj (remote_base cfg x @ [(''remote_request_ms'', JNum (js_nat elapsed))])\<rparr>)"

section \<open>Every way to end is terminal\<close>

lemma status_cases:
  "terminal (fst (local_status canceled timedOut e))"
  "terminal (fst (answer_status http body))"
  "terminal (fst (thrown_status canceled timedOut msg))"
  by (auto simp: local_status_def answer_status_def thrown_status_def Let_def terminal_def [symmetric]
      split: option.splits)

lemma failed_with_status [simp]: "fa_status (failed_with err result) = RsFailed"
  by (simp add: failed_with_def)

lemma local_result_terminal [simp]: "terminal (fa_status (local_result r argv file canceled timedOut e))"
  unfolding local_result_def Let_def case_prod_beta finalize_args.simps by (rule status_cases)

lemma remote_result_terminal [simp]:
  "terminal (fa_status (remote_result JSON_parse cfg r x canceled timedOut elapsed answer))"
proof -
  have "terminal (fst (remote_status JSON_parse c timedOut answer))" for c
    unfolding remote_status_def Let_def
    by (cases answer; cases c; cases timedOut)
      (simp_all only: if_True if_False fst_conv terminal_simps remote_answer.case status_cases)
  then show ?thesis
    unfolding remote_result_def Let_def case_prod_beta
    by (cases answer; simp only: remote_answer.case finalize_args.simps)
qed

lemma early_results_terminal [simp]:
  "terminal (fa_status (canceled_before_start r))" "terminal (fa_status (mock_result r))"
  "terminal (fa_status (stale_result cfg r))"
  by (simp_all add: canceled_before_start_def mock_result_def stale_result_def Let_def)

lemma parseCommandArgv_Inl: "parseCommandArgv cfg mode r = Inl a \<Longrightarrow> terminal (fa_status a)"
  by (auto simp: parseCommandArgv_def Let_def split: option.splits list.splits if_splits)

lemma parseCommandArgv_Inr:
  "parseCommandArgv cfg mode r = Inr (argv, file) \<Longrightarrow>
     argv \<noteq> [] \<and> file = js_trim (hd argv) \<and> file \<noteq> [] \<and> file \<in> set (xc_allowedCommands cfg)
     \<and> (\<exists>vs. argv_of r = Some vs \<and> argv = map js_string vs)"
  by (auto simp: parseCommandArgv_def Let_def split: option.splits list.splits if_splits)

lemma remote_target_Inl: "remote_target isIP hostname cfg = Inl a \<Longrightarrow> terminal (fa_status a)"
  by (auto simp: remote_target_def split: option.splits if_splits)

lemma remote_egress_Inl:
  assumes "remote_egress isIP cfg host resolved = Inl a"
  shows "terminal (fa_status a)"
proof -
  have "\<exists>err result. a = failed_with err result"
    using assms unfolding remote_egress_def Let_def
    by (simp only: sum.inject sum.distinct split: option.split_asm if_split_asm) blast+
  then show ?thesis by auto
qed

section \<open>Where the remote executor connects\<close>

lemma remote_target_Inr:
  assumes "remote_target isIP hostname cfg = Inr host"
  shows "sandboxRemoteHostAllowed host (xc_remote_allowedHosts cfg)"
  using assms by (auto simp: remote_target_def split: option.splits if_splits)

text \<open>The addresses have passed the egress check, so the private ones among them pass the last check too.\<close>

lemma egress_blocks_private_first:
  "sandboxRemoteEgressAllowed isIP ips cidrs \<Longrightarrow>
     filter (\<lambda>ip. isPrivateOrLocalIp isIP ip \<and> \<not> ipInCidrs isIP ip cidrs) ips = []"
  by (auto simp: sandboxRemoteEgressAllowed_def list_all_iff filter_empty_conv split: if_splits)

lemma remote_egress_Inr:
  "remote_egress isIP cfg host resolved = Inr ips \<longleftrightarrow>
     (\<exists>as. resolved = Some as \<and> ips = filter (\<lambda>a. isIP a \<noteq> 0) (map js_trim as))
     \<and> sandboxRemoteEgressAllowed isIP ips (remoteAllowedCidrs isIP cfg)"
proof (cases resolved)
  case (Some as)
  let ?ips = "filter (\<lambda>a. isIP a \<noteq> 0) (map js_trim as)"
  have nonempty: "sandboxRemoteEgressAllowed isIP ?ips (remoteAllowedCidrs isIP cfg) \<Longrightarrow> ?ips \<noteq> []"
    by (auto simp: sandboxRemoteEgressAllowed_def)
  show ?thesis
    using nonempty egress_blocks_private_first [of isIP ?ips "remoteAllowedCidrs isIP cfg"]
    unfolding remote_egress_def Let_def Some option.map option.case by (auto simp del: filter_map)
qed (simp add: remote_egress_def)

section \<open>The requests that show the output\<close>

record run_output =
  ro_tail_bytes :: nat
  ro_stdout :: string
  ro_stderr :: string
  ro_truncated :: bool

record run_logs =
  rl_run_id :: string
  rl_status :: run_status
  rl_logs :: run_output

text \<open>\<open>getRunLogs\<close> of the store selects columns of the row; the columns of \<open>getRun\<close> hold them all.\<close>

definition store_getRunLogs ::
  "string \<Rightarrow> string \<Rightarrow> string \<Rightarrow> sandbox_run list \<Rightarrow> (string \<times> run_status \<times> string \<times> string \<times> bool) option" where
  "store_getRunLogs i tenantId scope rows =
     map_option (\<lambda>r. (sr_id r, sr_status r, sr_stdout_text r, sr_stderr_text r, sr_output_truncated r))
       (getRunByIdTenantScope i tenantId scope rows)"

definition getSandboxRunLogs ::
  "string option \<Rightarrow> string option \<Rightarrow> string \<Rightarrow> nat \<Rightarrow> string \<Rightarrow> string \<Rightarrow> sandbox_db \<Rightarrow> http_error + run_logs" where
  "getSandboxRunLogs scope tenantId runId tail_bytes defaultScope defaultTenantId db =
     and_then (resolveTenantScope scope tenantId defaultScope defaultTenantId) (\<lambda>tenancy.
       case store_getRunLogs runId (ts_tenant_id tenancy) (ts_scope tenancy) (sd_runs db) of
         None \<Rightarrow> Inl (run_not_found runId (ts_tenant_id tenancy) (ts_scope tenancy))
       | Some (i, status, out, err, is_cut) \<Rightarrow>
           Inr \<lparr>rl_run_id = i, rl_status = status,
                rl_logs = \<lparr>ro_tail_bytes = tail_bytes, ro_stdout = tailText out tail_bytes,
                            ro_stderr = tailText err tail_bytes, ro_truncated = is_cut\<rparr>\<rparr>)"

record artifact_request =
  aq_tenant_id :: "string option"
  aq_scope :: "string option"
  aq_run_id :: string
  aq_tail_bytes :: nat
  aq_include_action :: bool
  aq_include_output :: bool
  aq_include_result :: bool
  aq_include_metadata :: bool

record run_artifact =
  ra_run_id :: string
  ra_session_id :: string
  ra_uri :: string
  ra_project_id :: "string option"
  ra_planner_run_id :: "string option"
  ra_decision_id :: "string option"
  ra_mode :: sandbox_mode
  ra_status :: run_status
  ra_timeout_ms :: jsnum
  ra_action :: "jobj option"
  ra_output :: "run_output option"
  ra_exit_code :: "int option"
  ra_error :: "string option"
  ra_result :: "jv option"
  ra_metadata :: "jv option"
  ra_started_at :: "nat option"
  ra_finished_at :: "nat option"
  ra_created_at :: nat
  ra_updated_at :: nat

text \<open>Without the summary of the output and the bundle, which repeats the parts with their hashes.\<close>

definition run_artifact_of :: "artifact_request \<Rightarrow> sandbox_run \<Rightarrow> run_artifact" where
  "run_artifact_of q r =
     \<lparr>ra_run_id = sr_id r, ra_session_id = sr_session_id r,
      ra_uri = ''aionis://'' @ sr_tenant_id r @ ''/'' @ sr_scope r @ ''/sandbox_run/'' @ sr_id r,
      ra_project_id = sr_project_id r, ra_planner_run_id = sr_planner_run_id r,
      ra_decision_id = sr_decision_id r, ra_mode = sr_mode r, ra_status = sr_status r,
      ra_timeout_ms = sr_timeout_ms r,
      ra_action = (if aq_include_action q then
          Some (foldl (\<lambda>ob e. obj_set (fst e) (snd e) ob) [(''kind'', JStr ''command'')]
            (object_members (sr_action_json r))) else None),
      ra_output = (if aq_include_output q then
          Some \<lparr>ro_tail_bytes = aq_tail_bytes q, ro_stdout = tailText (sr_stdout_text r) (aq_tail_bytes q),
                ro_stderr = tailText (sr_stderr_text r) (aq_tail_bytes q), ro_truncated = sr_output_truncated r\<rparr>
        else None),
      ra_exit_code = sr_exit_code r, ra_error = sr_error r,
      ra_result = (if aq_include_result q then Some (sr_result_json r) else None),
      ra_metadata = (if aq_include_metadata q then Some (sr_metadata r) else None),
      ra_started_at = sr_started_at r, ra_finished_at = sr_finished_at r,
      ra_created_at = sr_created_at r, ra_updated_at = sr_updated_at r\<rparr>"

definition getSandboxRunArtifact ::
  "artifact_request \<Rightarrow> string \<Rightarrow> string \<Rightarrow> sandbox_db \<Rightarrow> http_error + run_artifact" where
  "getSandboxRunArtifact q defaultScope defaultTenantId db =
     and_then (resolveTenantScope (aq_scope q) (aq_tenant_id q) defaultScope defaultTenantId) (\<lambda>tenancy.
       case store_getRun (aq_run_id q) (ts_tenant_id tenancy) (ts_scope tenancy) (sd_runs db) of
         None \<Rightarrow> Inl (run_not_found (aq_run_id q) (ts_tenant_id tenancy) (ts_scope tenancy))
       | Some row \<Rightarrow> Inr (run_artifact_of q row))"

section \<open>Decoding\<close>

lemma utf8_char_cases:
  obtains (one) "p < 128" "utf8_char p = [char_of p]"
  | (two) "128 \<le> p" "p < 2048" "utf8_char p = map char_of [192 + p div 64, 128 + p mod 64]"
  | (three) "2048 \<le> p" "p < 65536"
      "utf8_char p = map char_of [224 + p div 4096, 128 + p div 64 mod 64, 128 + p mod 64]"
  | (four) "65536 \<le> p"
      "utf8_char p = map char_of [240 + p div 262144, 128 + p div 4096 mod 64, 128 + p div 64 mod 64, 128 + p mod 64]"
  by (cases "p < 128"; cases "p < 2048"; cases "p < 65536") (auto simp: utf8_char_def)

lemma continuation_byte [simp]: "of_char (char_of (128 + n mod 64 :: nat)) = 128 + n mod 64"
proof -
  have "128 + n mod 64 < 256" by (simp add: trans_less_add1)
  then show ?thesis by simp
qed

lemma continuation_bounds [simp]: "128 + n mod 64 \<le> (191::nat)" by simp

text \<open>The lead byte of a scalar value, and the second byte it allows.\<close>

lemma utf8_lead_three:
  "d \<le> 15 \<Longrightarrow> (d = 0 \<longrightarrow> 32 \<le> e) \<Longrightarrow> (d = 13 \<longrightarrow> e \<le> 31) \<Longrightarrow> e < 64 \<Longrightarrow>
     \<exists>lower upper. utf8_lead (224 + d) = Some (2, lower, upper) \<and> lower \<le> 128 + e \<and> 128 + e \<le> upper"
  by (cases "d = 0"; cases "d = 13") (simp_all add: utf8_lead_def)

lemma utf8_lead_four:
  "d \<le> 4 \<Longrightarrow> (d = 0 \<longrightarrow> 16 \<le> e) \<Longrightarrow> (d = 4 \<longrightarrow> e \<le> 15) \<Longrightarrow> e < 64 \<Longrightarrow>
     \<exists>lower upper. utf8_lead (240 + d) = Some (3, lower, upper) \<and> lower \<le> 128 + e \<and> 128 + e \<le> upper"
  by (cases "d = 0"; cases "d = 4") (simp_all add: utf8_lead_def)

lemma lead_two:
  assumes "128 \<le> p" "p < 2048"
  shows "(192 + p div 64) mod 256 = 192 + p div 64" "utf8_lead (192 + p div 64) = Some (1, 128, 191)"
proof -
  have "2 \<le> p div 64" "p div 64 \<le> 31" using assms by (auto simp: less_eq_div_iff_mult_less_eq)
  then show "(192 + p div 64) mod 256 = 192 + p div 64" "utf8_lead (192 + p div 64) = Some (1, 128, 191)"
    by (simp_all add: utf8_lead_def)
qed

lemma div_digits: "(p::nat) div n = 64 * (p div (n * 64)) + p div n mod 64"
  using mult_div_mod_eq [of 64 "p div n"] by (simp add: div_mult2_eq)

lemma lead_three:
  assumes "2048 \<le> p" "p < 65536" "scalar_value p"
  shows "(224 + p div 4096) mod 256 = 224 + p div 4096"
    "\<exists>lower upper. utf8_lead (224 + p div 4096) = Some (2, lower, upper)
       \<and> lower \<le> 128 + p div 64 mod 64 \<and> 128 + p div 64 mod 64 \<le> upper"
proof -
  have d: "p div 4096 \<le> 15" using assms(2) by auto
  then show "(224 + p div 4096) mod 256 = 224 + p div 4096" by simp
  have q: "p div 64 = 64 * (p div 4096) + p div 64 mod 64" using div_digits [of p 64] by simp
  have "32 \<le> p div 64" using assms(1) by (simp add: less_eq_div_iff_mult_less_eq)
  with q have lo: "p div 4096 = 0 \<longrightarrow> 32 \<le> p div 64 mod 64" by simp
  have "p div 64 < 864 \<or> 896 \<le> p div 64"
    using assms(3) by (auto simp: scalar_value_def less_eq_div_iff_mult_less_eq div_less_iff_less_mult)
  with q have hi: "p div 4096 = 13 \<longrightarrow> p div 64 mod 64 \<le> 31" by auto
  show "\<exists>lower upper. utf8_lead (224 + p div 4096) = Some (2, lower, upper)
       \<and> lower \<le> 128 + p div 64 mod 64 \<and> 128 + p div 64 mod 64 \<le> upper"
    by (rule utf8_lead_three [OF d lo hi]) simp
qed

lemma lead_four:
  assumes "65536 \<le> p" "scalar_value p"
  shows "(240 + p div 262144) mod 256 = 240 + p div 262144"
    "\<exists>lower upper. utf8_lead (240 + p div 262144) = Some (3, lower, upper)
       \<and> lower \<le> 128 + p div 4096 mod 64 \<and> 128 + p div 4096 mod 64 \<le> upper"
proof -
  have p: "p < 1114112" using assms by (auto simp: scalar_value_def)
  then have d: "p div 262144 \<le> 4" by auto
  then show "(240 + p div 262144) mod 256 = 240 + p div 262144" by simp
  have q: "p div 4096 = 64 * (p div 262144) + p div 4096 mod 64" using div_digits [of p 4096] by simp
  have "16 \<le> p div 4096" using assms(1) by (simp add: less_eq_div_iff_mult_less_eq)
  with q have lo: "p div 262144 = 0 \<longrightarrow> 16 \<le> p div 4096 mod 64" by simp
  have "p div 4096 < 272" using p by (simp add: div_less_iff_less_mult)
  with q have hi: "p div 262144 = 4 \<longrightarrow> p div 4096 mod 64 \<le> 15" by auto
  show "\<exists>lower upper. utf8_lead (240 + p div 262144) = Some (3, lower, upper)
       \<and> lower \<le> 128 + p div 4096 mod 64 \<and> 128 + p div 4096 mod 64 \<le> upper"
    by (rule utf8_lead_four [OF d lo hi]) simp
qed

lemma utf8_scan_char:
  assumes "scalar_value p"
  shows "utf8_text (utf8_char p @ s) = utf8_char p @ utf8_text s"
proof (cases p rule: utf8_char_cases)
  case one
  then show ?thesis by (simp add: utf8_text_def)
next
  case two
  note lead = lead_two [OF two(1,2)]
  show ?thesis by (simp add: utf8_text_def two(3) lead Let_def)
next
  case three
  obtain lower upper where lead: "utf8_lead (224 + p div 4096) = Some (2, lower, upper)"
    "lower \<le> 128 + p div 64 mod 64" "128 + p div 64 mod 64 \<le> upper"
    using lead_three(2) [OF three(1,2) assms] by blast
  show ?thesis
    by (simp add: utf8_text_def three(3) lead lead_three(1) [OF three(1,2) assms] Let_def)
next
  case four
  obtain lower upper where lead: "utf8_lead (240 + p div 262144) = Some (3, lower, upper)"
    "lower \<le> 128 + p div 4096 mod 64" "128 + p div 4096 mod 64 \<le> upper"
    using lead_four(2) [OF four(1) assms] by blast
  show ?thesis
    by (simp add: utf8_text_def four(2) lead lead_four(1) [OF four(1) assms] Let_def)
qed

text \<open>A character that is cut is one replacement character.\<close>

lemma utf8_text_cut:
  assumes "scalar_value p" "0 < k" "k < length (utf8_char p)"
  shows "utf8_text (take k (utf8_char p)) = replacement_char"
proof (cases p rule: utf8_char_cases)
  case one
  then show ?thesis using assms by simp
next
  case two
  note lead = lead_two [OF two(1,2)]
  have "k = 1" using assms(2,3) by (simp add: two(3))
  then show ?thesis by (simp add: utf8_text_def two(3) lead Let_def)
next
  case three
  obtain lower upper where lead: "utf8_lead (224 + p div 4096) = Some (2, lower, upper)"
    "lower \<le> 128 + p div 64 mod 64" "128 + p div 64 mod 64 \<le> upper"
    using lead_three(2) [OF three(1,2) assms(1)] by blast
  have "k = 1 \<or> k = 2" using assms(2,3) by (auto simp: three(3))
  then show ?thesis
    by (auto simp: utf8_text_def three(3) lead lead_three(1) [OF three(1,2) assms(1)] Let_def take_Cons' numeral_2_eq_2)
next
  case four
  obtain lower upper where lead: "utf8_lead (240 + p div 262144) = Some (3, lower, upper)"
    "lower \<le> 128 + p div 4096 mod 64" "128 + p div 4096 mod 64 \<le> upper"
    using lead_four(2) [OF four(1) assms(1)] by blast
  have "k = 1 \<or> k = 2 \<or> k = 3" using assms(2,3) by (auto simp: four(2))
  then show ?thesis
    by (auto simp: utf8_text_def four(2) lead lead_four(1) [OF four(1) assms(1)] Let_def take_Cons')
qed

lemma utf8_text_Nil [simp]: "utf8_text [] = []" by (simp add: utf8_text_def)

lemma utf8_text_of:
  "list_all scalar_value ps \<Longrightarrow> utf8_text (utf8_of ps @ s) = utf8_of ps @ utf8_text s"
  by (induction ps) (simp_all add: utf8_of_def utf8_scan_char)

lemma replacement_length [simp]: "length replacement_char = 3"
  by (simp add: replacement_char_def utf8_char_def)

lemma utf8_scan_length: "length (utf8_scan pending k s) \<le> 3 * (length pending + length s)"
proof (induction pending k s rule: utf8_scan.induct)
  case (2 pending needed lower upper c s)
  have p: "pending \<noteq> [] \<Longrightarrow> 1 \<le> length pending" by (cases pending) simp_all
  show ?case
  proof (cases "utf8_lead (of_char c)")
    case None
    then show ?thesis using 2(1-5) [OF refl] p by (auto simp: Let_def)
  next
    case (Some lead)
    obtain k l h where "lead = (k, l, h)" by (cases lead)
    with Some show ?thesis using 2(1-5) [OF refl] p by (auto simp: Let_def)
  qed
qed (auto simp: Suc_le_eq)

lemma utf8_text_length: "length (utf8_text s) \<le> 3 * length s"
  using utf8_scan_length [of "[]"] by (simp add: utf8_text_def)


section \<open>Captured output\<close>

text \<open>What remains of a text cut after \<open>n\<close> bytes: the characters that fit, and a replacement
  character for one that is cut.\<close>

lemma utf8_text_take:
  "list_all scalar_value ps \<Longrightarrow>
     \<exists>k \<le> length ps. length (utf8_of (take k ps)) \<le> n
       \<and> (k < length ps \<longrightarrow> n < length (utf8_of (take (Suc k) ps)))
       \<and> utf8_text (take n (utf8_of ps)) = utf8_of (take k ps)
           @ (if k < length ps \<and> length (utf8_of (take k ps)) < n then replacement_char else [])"
proof (induction ps arbitrary: n)
  case Nil
  then show ?case by (simp add: utf8_of_def)
next
  case (Cons p ps)
  show ?case
  proof (cases "length (utf8_char p) \<le> n")
    case True
    obtain k where k: "k \<le> length ps" "length (utf8_of (take k ps)) \<le> n - length (utf8_char p)"
      "k < length ps \<longrightarrow> n - length (utf8_char p) < length (utf8_of (take (Suc k) ps))"
      "utf8_text (take (n - length (utf8_char p)) (utf8_of ps)) = utf8_of (take k ps)
         @ (if k < length ps \<and> length (utf8_of (take k ps)) < n - length (utf8_char p) then replacement_char else [])"
      using Cons.IH [of "n - length (utf8_char p)"] Cons.prems by auto
    show ?thesis
      by (rule exI [of _ "Suc k"]) (use k True Cons.prems in \<open>auto simp: utf8_of_def utf8_scan_char\<close>)
  next
    case False
    then have "utf8_text (take n (utf8_char p)) = (if 0 < n then replacement_char else [])"
      using utf8_text_cut [of p n] Cons.prems by simp
    then show ?thesis
      by (intro exI [of _ 0]) (use False in \<open>auto simp: utf8_of_def\<close>)
  qed
qed

lemma utf8_char_length: "0 < length (utf8_char p)" "length (utf8_char p) \<le> 4"
  by (cases p rule: utf8_char_cases; simp)+

lemma utf8_text_take_full:
  assumes "list_all scalar_value ps" "n \<le> length (utf8_of ps)"
  shows "n \<le> length (utf8_text (take n (utf8_of ps)))"
proof -
  obtain k where k: "k \<le> length ps" "k < length ps \<longrightarrow> n < length (utf8_of (take (Suc k) ps))"
    "utf8_text (take n (utf8_of ps)) = utf8_of (take k ps)
       @ (if k < length ps \<and> length (utf8_of (take k ps)) < n then replacement_char else [])"
    using utf8_text_take [OF assms(1), of n] by blast
  show ?thesis
  proof (cases "k < length ps")
    case True
    then have "length (utf8_of (take (Suc k) ps)) = length (utf8_of (take k ps)) + length (utf8_char (ps ! k))"
      by (simp add: utf8_of_def take_Suc_conv_app_nth)
    then show ?thesis using k True utf8_char_length(2) [of "ps ! k"] by auto
  next
    case False
    then show ?thesis using k assms(2) by simp
  qed
qed

lemma utf8_of_append [simp]: "utf8_of (ps @ qs) = utf8_of ps @ utf8_of qs"
  by (simp add: utf8_of_def)

lemma utf8_of_empty [simp]: "utf8_of ps = [] \<longleftrightarrow> ps = []"
  using utf8_char_length(1) by (cases ps) (auto simp: utf8_of_def)

lemma utf8_text_id: "list_all scalar_value ps \<Longrightarrow> utf8_text (utf8_of ps) = utf8_of ps"
  using utf8_text_of [of ps "[]"] by simp

text \<open>One stream, with a flag of its own.\<close>

definition stream_data :: "nat \<Rightarrow> string \<times> bool \<Rightarrow> string \<Rightarrow> string \<times> bool" where
  "stream_data n out chunk =
     (let (next_text, cut) = clampOutputAppend (fst out) chunk n in (next_text, snd out \<or> cut))"

lemma stream_data_append:
  assumes "list_all scalar_value ps" "list_all scalar_value qs" "qs \<noteq> []"
  shows "stream_data n (utf8_text (take n (utf8_of ps)), n < length (utf8_of ps)) (utf8_of qs)
    = (utf8_text (take n (utf8_of (ps @ qs))), n < length (utf8_of (ps @ qs)))"
proof -
  obtain m where q: "length (utf8_of qs) = Suc m" using assms(3) by (cases "utf8_of qs") auto
  show ?thesis
  proof (cases "n \<le> length (utf8_of ps)")
    case True
    then show ?thesis
      using utf8_text_take_full [OF assms(1) True] q by (auto simp: stream_data_def clampOutputAppend_def)
  next
    case False
    then show ?thesis
      using utf8_text_id [OF assms(1)] by (auto simp: stream_data_def clampOutputAppend_def Let_def)
  qed
qed

lemma stream_data_texts:
  "\<forall>ps \<in> set pss. ps \<noteq> [] \<and> list_all scalar_value ps \<Longrightarrow>
     foldl (stream_data n) ([], False) (map utf8_of pss)
       = (utf8_text (take n (utf8_of (concat pss))), n < length (utf8_of (concat pss)))"
proof (induction pss rule: rev_induct)
  case Nil
  then show ?case by (simp add: utf8_of_def)
next
  case (snoc ps pss)
  then have "list_all scalar_value (concat pss)" by (auto simp: list_all_iff)
  then show ?case using snoc stream_data_append [of "concat pss" ps n] by simp
qed

lemma stream_data_bound:
  "length (fst out) \<le> 3 * n \<Longrightarrow> length (fst (foldl (stream_data n) out chunks)) \<le> 3 * n"
proof (induction chunks arbitrary: out)
  case (Cons c cs)
  have "length (fst (stream_data n out c)) \<le> 3 * n"
    using Cons.prems utf8_text_length [of "fst out @ take (n - length (fst out)) c"]
    by (auto simp: stream_data_def clampOutputAppend_def Let_def)
  then show ?case using Cons.IH by simp
qed simp

text \<open>What arrived on one stream, and the capture stream by stream.\<close>

definition stream_of :: "output_stream \<Rightarrow> (output_stream \<times> 'a) list \<Rightarrow> 'a list" where
  "stream_of s es = map snd (filter (\<lambda>e. fst e = s) es)"

lemma on_data_streams:
  "let c' = foldl (on_data n) c es;
       out = foldl (stream_data n) (cd_stdout c, a) (stream_of Stdout es);
       err = foldl (stream_data n) (cd_stderr c, b) (stream_of Stderr es)
   in cd_stdout c' = fst out \<and> cd_stderr c' = fst err \<and> (cd_truncated c = (a \<or> b) \<longrightarrow> cd_truncated c' = (snd out \<or> snd err))"
proof (induction es arbitrary: c a b)
  case (Cons e es)
  obtain s chunk where e: "e = (s, chunk)" by fastforce
  show ?case
  proof (cases s)
    case Stdout
    then show ?thesis
      using Cons.IH [where c = "on_data n c e" and a = "snd (stream_data n (cd_stdout c, a) chunk)" and b = b]
      by (simp add: e stream_of_def stream_data_def case_prod_beta Let_def disj_ac)
  next
    case Stderr
    then show ?thesis
      using Cons.IH [where c = "on_data n c e" and b = "snd (stream_data n (cd_stderr c, b) chunk)" and a = a]
      by (simp add: e stream_of_def stream_data_def case_prod_beta Let_def disj_ac)
  qed
qed (simp add: stream_of_def)

text \<open>The output \<open>out\<close> is the text \<open>ps\<close> cut after \<open>n\<close> bytes.\<close>

definition cut_after :: "nat \<Rightarrow> nat list \<Rightarrow> string \<Rightarrow> bool" where
  "cut_after n ps out \<longleftrightarrow> (\<exists>k \<le> length ps. length (utf8_of (take k ps)) \<le> n
     \<and> (k < length ps \<longrightarrow> n < length (utf8_of (take (Suc k) ps)))
     \<and> out = utf8_of (take k ps)
         @ (if k < length ps \<and> length (utf8_of (take k ps)) < n then replacement_char else []))"

lemma captured_texts:
  assumes "\<forall>e \<in> set es. snd e \<noteq> [] \<and> list_all scalar_value (snd e)"
  shows "let c = foldl (on_data n) no_output (map (apsnd utf8_of) es);
      out = concat (stream_of Stdout es); err = concat (stream_of Stderr es)
    in cut_after n out (cd_stdout c) \<and> cut_after n err (cd_stderr c)
      \<and> (cd_truncated c \<longleftrightarrow> n < length (utf8_of out) \<or> n < length (utf8_of err))"
proof -
  have st: "stream_of s (map (apsnd utf8_of) es) = map utf8_of (stream_of s es)" for s
    by (simp add: stream_of_def filter_map comp_def)
  have ok: "\<forall>ps \<in> set (stream_of s es). ps \<noteq> [] \<and> list_all scalar_value ps" for s
    using assms by (auto simp: stream_of_def)
  then have sc: "list_all scalar_value (concat (stream_of s es))" for s
    by (auto simp: list_all_iff)
  show ?thesis
    using on_data_streams [where n = n and c = no_output and a = False and b = False
        and es = "map (apsnd utf8_of) es"]
      utf8_text_take [OF sc [of Stdout], of n] utf8_text_take [OF sc [of Stderr], of n]
    by (simp add: Let_def st stream_data_texts [OF ok] no_output_def cut_after_def)
qed

lemma captured_bound:
  "length (cd_stdout (foldl (on_data n) no_output chunks)) \<le> 3 * n
   \<and> length (cd_stderr (foldl (on_data n) no_output chunks)) \<le> 3 * n"
  using on_data_streams [where n = n and c = no_output and a = False and b = False and es = chunks]
    stream_data_bound [where n = n and out = "([], False)"]
  by (simp add: Let_def no_output_def)

text \<open>A character that arrives in two chunks is lost, and the capture passes its limit unflagged.\<close>

lemma split_character_replaced:
  "foldl (on_data 4) no_output (map (\<lambda>b. (Stdout, [b])) (utf8_char 233))
     = no_output\<lparr>cd_stdout := replacement_char @ replacement_char\<rparr>"
proof -
  have e: "utf8_char 233 = map char_of [195, 169 :: nat]" by (simp add: utf8_char_def)
  have r: "replacement_char = map char_of [239, 191, 189 :: nat]" by (simp add: replacement_char_def utf8_char_def)
  have t: "utf8_text [char_of (195 :: nat)] = replacement_char"
    "utf8_text (replacement_char @ [char_of (169 :: nat)]) = replacement_char @ replacement_char"
    by (simp_all add: utf8_text_def utf8_lead_def, simp add: r utf8_lead_def)
  show ?thesis by (simp add: e clampOutputAppend_def no_output_def t)
qed

end
