(* ===== verification/SandboxExecutor.thy ===== *)
theory SandboxExecutor
  imports SandboxRun
begin

text \<open>
  The executor of the sandbox: the class of src/memory/sandbox-executor.ts as a transition
  system.  A call of \<open>processRun\<close> is a task; the code between two awaits is one step, so other
  tasks, requests, timers and the recovery of stale runs interleave wherever the code waits.
  \<open>xs_pumping\<close> says that the callback \<^verbatim>\<open>setImmediate\<close> was given is pending.  The promise of
  a task that has returned is settled in the step \<open>end_task\<close>, which runs its
  \<^verbatim>\<open>finally\<close>.  The calls of the store are taken to succeed.
\<close>

section \<open>State\<close>

datatype task_phase =
    Claiming string
  | Loading string
  | Preparing sandbox_run remote_context   \<comment> \<open>waits for the directory, the name service, or the mock delay\<close>
  | Executing sandbox_run remote_context   \<comment> \<open>the process or the request is out\<close>
  | Finalizing string finalize_args
  | Ended

record task =
  tk_from_queue :: bool
  tk_phase :: task_phase
  tk_beats :: "string option"
  tk_canceled :: bool
  tk_timedOut :: bool

record executor =
  xs_db :: sandbox_db
  xs_queue :: "string list"
  xs_queued :: "string list"
  xs_active :: "(string \<times> nat) list"
  xs_heartbeats :: "string list"
  xs_running :: nat
  xs_pumping :: bool
  xs_shuttingDown :: bool
  xs_recovery :: "sandbox_run list option"
  xs_tasks :: "(nat \<times> task) list"
  xs_next :: nat

definition executor_new :: "sandbox_db \<Rightarrow> executor" where
  "executor_new db =
     \<lparr>xs_db = db, xs_queue = [], xs_queued = [], xs_active = [], xs_heartbeats = [], xs_running = 0,
      xs_pumping = False, xs_shuttingDown = False, xs_recovery = None, xs_tasks = [], xs_next = 0\<rparr>"

definition set_task :: "nat \<Rightarrow> (task \<Rightarrow> task) \<Rightarrow> executor \<Rightarrow> executor" where
  "set_task n f x =
     x\<lparr>xs_tasks := map (\<lambda>(m, t). (m, if m = n then f t else t)) (xs_tasks x)\<rparr>"

definition set_rows :: "sandbox_run list \<Rightarrow> executor \<Rightarrow> executor" where
  "set_rows rows x = x\<lparr>xs_db := (xs_db x)\<lparr>sd_runs := rows\<rparr>\<rparr>"

abbreviation xs_runs :: "executor \<Rightarrow> sandbox_run list" where
  "xs_runs x \<equiv> sd_runs (xs_db x)"

section \<open>The queue\<close>

definition kick :: "executor \<Rightarrow> executor" where
  "kick x = (if xs_pumping x \<or> xs_shuttingDown x then x else x\<lparr>xs_pumping := True\<rparr>)"

definition enqueue :: "executor_config \<Rightarrow> string \<Rightarrow> executor \<Rightarrow> executor" where
  "enqueue cfg runId x =
     (if \<not> xc_enabled cfg \<or> xs_shuttingDown x then x
      else (let i = js_trim runId
            in if i = [] \<or> i \<in> set (xs_queued x) then x
               else kick (x\<lparr>xs_queue := xs_queue x @ [i], xs_queued := xs_queued x @ [i]\<rparr>)))"

text \<open>The synchronous start of \<^verbatim>\<open>processRun\<close>, up to its first await.\<close>

definition start_task :: "bool \<Rightarrow> string \<Rightarrow> executor \<Rightarrow> executor" where
  "start_task from_queue i x =
     x\<lparr>xs_tasks := xs_tasks x @
         [(xs_next x, \<lparr>tk_from_queue = from_queue, tk_phase = (if i = [] then Ended else Claiming i),
                       tk_beats = None, tk_canceled = False, tk_timedOut = False\<rparr>)],
       xs_next := Suc (xs_next x)\<rparr>"

definition executeSync :: "executor_config \<Rightarrow> string \<Rightarrow> executor \<Rightarrow> http_error + executor" where
  "executeSync cfg runId x =
     (if \<not> xc_enabled cfg then badRequest ''sandbox_disabled'' ''sandbox interface is disabled'' None
      else Inr (start_task False (js_trim runId) x))"

definition dequeue :: "string \<Rightarrow> string list \<Rightarrow> executor \<Rightarrow> executor" where
  "dequeue i rest x =
     start_task True i (x\<lparr>xs_queue := rest, xs_queued := filter (\<lambda>j. j \<noteq> i) (xs_queued x),
                          xs_running := xs_running x + 1\<rparr>)"

function pump_loop :: "executor_config \<Rightarrow> executor \<Rightarrow> executor" where
  "pump_loop cfg x =
     (case xs_queue x of
        [] \<Rightarrow> x
      | i # rest \<Rightarrow>
          if \<not> xs_shuttingDown x \<and> xs_running x < xc_maxConcurrency cfg then pump_loop cfg (dequeue i rest x)
          else x)"
  by pat_completeness auto
termination
  by (relation "measure (\<lambda>(cfg, x). length (xs_queue x))") (auto simp: dequeue_def start_task_def)

declare pump_loop.simps [simp del]

definition pump :: "executor_config \<Rightarrow> executor \<Rightarrow> executor" where
  "pump cfg x = (pump_loop cfg x)\<lparr>xs_pumping := False\<rparr>"

section \<open>A task\<close>

definition bare_context :: "string list \<Rightarrow> string \<Rightarrow> string \<Rightarrow> remote_context" where
  "bare_context argv file host = \<lparr>rx_argv = argv, rx_file = file, rx_host = host, rx_resolvedIps = []\<rparr>"

text \<open>What follows once the row is there, up to the next await.\<close>

definition begin_run ::
  "(string \<Rightarrow> nat) \<Rightarrow> (string \<Rightarrow> string option) \<Rightarrow> executor_config \<Rightarrow> sandbox_run \<Rightarrow> task_phase" where
  "begin_run isIP hostname cfg r =
     (if sr_cancel_requested r then Finalizing (sr_id r) (canceled_before_start r)
      else if xc_mode cfg = ModeMock then Preparing r (bare_context [] [] [])
      else case parseCommandArgv cfg (xc_mode cfg) r of
        Inl a \<Rightarrow> Finalizing (sr_id r) a
      | Inr (argv, file) \<Rightarrow>
          if xc_mode cfg = ModeLocalProcess then Preparing r (bare_context argv file [])
          else (case remote_target isIP hostname cfg of
                  Inl a \<Rightarrow> Finalizing (sr_id r) a
                | Inr host \<Rightarrow> Preparing r (bare_context argv file host)))"

definition startRunHeartbeat :: "executor_config \<Rightarrow> string \<Rightarrow> string option" where
  "startRunHeartbeat cfg i =
     (if xc_heartbeatIntervalMs cfg = 0 \<or> js_trim i = [] then None else Some (js_trim i))"

definition run_loaded ::
  "(string \<Rightarrow> nat) \<Rightarrow> (string \<Rightarrow> string option) \<Rightarrow> executor_config \<Rightarrow> nat \<Rightarrow> sandbox_run \<Rightarrow> executor \<Rightarrow> executor" where
  "run_loaded isIP hostname cfg n r x =
     (let beats = (if sr_cancel_requested r then None else startRunHeartbeat cfg (sr_id r));
          x' = x\<lparr>xs_heartbeats := (case beats of None \<Rightarrow> xs_heartbeats x
                                   | Some i \<Rightarrow> filter (\<lambda>j. j \<noteq> i) (xs_heartbeats x) @ [i])\<rparr>
      in set_task n (\<lambda>t. t\<lparr>tk_phase := begin_run isIP hostname cfg r, tk_beats := beats\<rparr>) x')"

definition claim_step ::
  "(string \<Rightarrow> nat) \<Rightarrow> (string \<Rightarrow> string option) \<Rightarrow> executor_config \<Rightarrow> nat \<Rightarrow> string \<Rightarrow> nat \<Rightarrow> executor \<Rightarrow> executor" where
  "claim_step isIP hostname cfg n i now x =
     (let (row, rows) = claimQueuedRun i now (xs_runs x); x' = set_rows rows x
      in case row of
           Some r \<Rightarrow> run_loaded isIP hostname cfg n r x'
         | None \<Rightarrow> set_task n (\<lambda>t. t\<lparr>tk_phase := Loading i\<rparr>) x')"

definition load_step ::
  "(string \<Rightarrow> nat) \<Rightarrow> (string \<Rightarrow> string option) \<Rightarrow> executor_config \<Rightarrow> nat \<Rightarrow> string \<Rightarrow> executor \<Rightarrow> executor" where
  "load_step isIP hostname cfg n i x =
     (case getRunningRun i (xs_runs x) of
        Some r \<Rightarrow> run_loaded isIP hostname cfg n r x
      | None \<Rightarrow> set_task n (\<lambda>t. t\<lparr>tk_phase := Ended\<rparr>) x)"

definition set_phase :: "nat \<Rightarrow> task_phase \<Rightarrow> executor \<Rightarrow> executor" where
  "set_phase n p x = set_task n (\<lambda>t. t\<lparr>tk_phase := p\<rparr>) x"

definition mock_step :: "nat \<Rightarrow> sandbox_run \<Rightarrow> executor \<Rightarrow> executor" where
  "mock_step n r x = set_phase n (Finalizing (sr_id r) (mock_result r)) x"

text \<open>The process is spawned, or the request sent; \<^verbatim>\<open>this.active.set(run.id, state)\<close>.\<close>

definition activate :: "nat \<Rightarrow> sandbox_run \<Rightarrow> remote_context \<Rightarrow> executor \<Rightarrow> executor" where
  "activate n r c x = set_phase n (Executing r c) (x\<lparr>xs_active := map_set (sr_id r) n (xs_active x)\<rparr>)"

definition resolved_step ::
  "(string \<Rightarrow> nat) \<Rightarrow> executor_config \<Rightarrow> nat \<Rightarrow> sandbox_run \<Rightarrow> remote_context \<Rightarrow> string list option \<Rightarrow> executor \<Rightarrow> executor" where
  "resolved_step isIP cfg n r c resolved x =
     (case remote_egress isIP cfg (rx_host c) resolved of
        Inl a \<Rightarrow> set_phase n (Finalizing (sr_id r) a) x
      | Inr ips \<Rightarrow> activate n r (c\<lparr>rx_resolvedIps := ips\<rparr>) x)"

definition timer_step :: "nat \<Rightarrow> executor \<Rightarrow> executor" where
  "timer_step n x = set_task n (\<lambda>t. t\<lparr>tk_timedOut := True\<rparr>) x"

definition deactivate :: "nat \<Rightarrow> sandbox_run \<Rightarrow> finalize_args \<Rightarrow> executor \<Rightarrow> executor" where
  "deactivate n r a x =
     set_phase n (Finalizing (sr_id r) a) (x\<lparr>xs_active := map_delete (sr_id r) (xs_active x)\<rparr>)"

definition closed_step :: "nat \<Rightarrow> task \<Rightarrow> sandbox_run \<Rightarrow> remote_context \<Rightarrow> process_end \<Rightarrow> executor \<Rightarrow> executor" where
  "closed_step n t r c e x =
     deactivate n r (local_result r (rx_argv c) (rx_file c) (tk_canceled t) (tk_timedOut t) e) x"

definition answered_step ::
  "(string \<Rightarrow> jv option) \<Rightarrow> executor_config \<Rightarrow> nat \<Rightarrow> task \<Rightarrow> sandbox_run \<Rightarrow> remote_context \<Rightarrow> nat
    \<Rightarrow> remote_answer \<Rightarrow> executor \<Rightarrow> executor" where
  "answered_step JSON_parse cfg n t r c elapsed answer x =
     deactivate n r (remote_result JSON_parse cfg r c (tk_canceled t) (tk_timedOut t) elapsed answer) x"

definition stop_heartbeat :: "string option \<Rightarrow> string list \<Rightarrow> string list" where
  "stop_heartbeat beats hs = (case beats of None \<Rightarrow> hs | Some i \<Rightarrow> filter (\<lambda>j. j \<noteq> i) hs)"

definition finalize_step :: "nat \<Rightarrow> task \<Rightarrow> string \<Rightarrow> finalize_args \<Rightarrow> nat \<Rightarrow> executor \<Rightarrow> executor" where
  "finalize_step n t i a now x =
     set_phase n Ended
       (x\<lparr>xs_db := finalize i a now (xs_db x), xs_heartbeats := stop_heartbeat (tk_beats t) (xs_heartbeats x)\<rparr>)"

definition end_task :: "nat \<Rightarrow> task \<Rightarrow> executor \<Rightarrow> executor" where
  "end_task n t x =
     (let x' = x\<lparr>xs_tasks := filter (\<lambda>(m, u). m \<noteq> n) (xs_tasks x)\<rparr>
      in if tk_from_queue t then kick (x'\<lparr>xs_running := xs_running x - 1\<rparr>) else x')"

section \<open>Requests, recovery and shutdown\<close>

definition requestCancel :: "string \<Rightarrow> executor \<Rightarrow> bool \<times> executor" where
  "requestCancel runId x =
     (case map_of (xs_active x) (js_trim runId) of
        None \<Rightarrow> (False, x)
      | Some n \<Rightarrow> (True, set_task n (\<lambda>t. t\<lparr>tk_canceled := True\<rparr>) x))"

definition shutdown :: "executor \<Rightarrow> executor" where
  "shutdown x =
     x\<lparr>xs_shuttingDown := True, xs_heartbeats := [],
       xs_tasks := map (\<lambda>(m, t). (m, if m \<in> set (map snd (xs_active x)) then t\<lparr>tk_canceled := True\<rparr> else t))
                     (xs_tasks x),
       xs_active := [], xs_queue := [], xs_queued := []\<rparr>"

definition recover_list :: "executor_config \<Rightarrow> nat \<Rightarrow> executor \<Rightarrow> executor" where
  "recover_list cfg now x =
     (if \<not> xc_enabled cfg \<or> xs_shuttingDown x \<or> xs_recovery x \<noteq> None \<or> xc_recoveryPollIntervalMs cfg = 0 then x
      else x\<lparr>xs_recovery := Some (listStaleRunningRuns (max 1 (xc_staleAfterMs cfg div 1000))
                                    (xc_recoveryBatchSize cfg) now (xs_runs x))\<rparr>)"

definition recover_row :: "executor_config \<Rightarrow> nat \<Rightarrow> executor \<Rightarrow> executor" where
  "recover_row cfg now x =
     (case xs_recovery x of
        None \<Rightarrow> x
      | Some [] \<Rightarrow> x\<lparr>xs_recovery := None\<rparr>
      | Some (r # rs) \<Rightarrow>
          if map_has (xs_active x) (sr_id r) then x\<lparr>xs_recovery := Some rs\<rparr>
          else x\<lparr>xs_recovery := Some rs, xs_db := finalizeIfRunning (sr_id r) (stale_result cfg r) now (xs_db x)\<rparr>)"

definition heartbeat :: "string \<Rightarrow> nat \<Rightarrow> executor \<Rightarrow> executor" where
  "heartbeat i now x = set_rows (touchRunningRun i now (xs_runs x)) x"

section \<open>The transition system\<close>

text \<open>The parameters of the model, together.\<close>

record environment =
  en_isIP :: "string \<Rightarrow> nat"
  en_hostname :: "string \<Rightarrow> string option"
  en_JSON_parse :: "string \<Rightarrow> jv option"
  en_iso_text :: "nat \<Rightarrow> string"

abbreviation task_at :: "executor \<Rightarrow> nat \<Rightarrow> task \<Rightarrow> bool" where
  "task_at x n t \<equiv> (n, t) \<in> set (xs_tasks x)"

inductive exec_step :: "environment \<Rightarrow> executor_config \<Rightarrow> executor \<Rightarrow> executor \<Rightarrow> bool"
  for en :: environment and cfg :: executor_config where
  submit: "enqueueSandboxRun (en_iso_text en) q defaultScope defaultTenantId timeout newId now (xs_db x) = Inr (r, db)
    \<Longrightarrow> exec_step en cfg x (x\<lparr>xs_db := db\<rparr>)"
| cancel: "cancelSandboxRun scope tenantId runId reason defaultScope defaultTenantId now (xs_db x) = Inr (s, db)
    \<Longrightarrow> exec_step en cfg x (x\<lparr>xs_db := db\<rparr>)"
| cancel_active: "exec_step en cfg x (snd (requestCancel runId x))"
| enqueued: "exec_step en cfg x (enqueue cfg runId x)"
| sync: "executeSync cfg runId x = Inr x' \<Longrightarrow> exec_step en cfg x x'"
| pumped: "xs_pumping x \<Longrightarrow> exec_step en cfg x (pump cfg x)"
| claimed: "task_at x n t \<Longrightarrow> tk_phase t = Claiming i
    \<Longrightarrow> exec_step en cfg x (claim_step (en_isIP en) (en_hostname en) cfg n i now x)"
| loaded: "task_at x n t \<Longrightarrow> tk_phase t = Loading i
    \<Longrightarrow> exec_step en cfg x (load_step (en_isIP en) (en_hostname en) cfg n i x)"
| mocked: "task_at x n t \<Longrightarrow> tk_phase t = Preparing r c \<Longrightarrow> xc_mode cfg = ModeMock
    \<Longrightarrow> exec_step en cfg x (mock_step n r x)"
| spawned: "task_at x n t \<Longrightarrow> tk_phase t = Preparing r c \<Longrightarrow> xc_mode cfg = ModeLocalProcess
    \<Longrightarrow> exec_step en cfg x (activate n r c x)"
| resolved: "task_at x n t \<Longrightarrow> tk_phase t = Preparing r c \<Longrightarrow> xc_mode cfg = ModeHttpRemote
    \<Longrightarrow> exec_step en cfg x (resolved_step (en_isIP en) cfg n r c ips x)"
| timed_out: "task_at x n t \<Longrightarrow> tk_phase t = Executing r c \<Longrightarrow> exec_step en cfg x (timer_step n x)"
| closed: "task_at x n t \<Longrightarrow> tk_phase t = Executing r c \<Longrightarrow> xc_mode cfg = ModeLocalProcess
    \<Longrightarrow> exec_step en cfg x (closed_step n t r c e x)"
| answered: "task_at x n t \<Longrightarrow> tk_phase t = Executing r c \<Longrightarrow> xc_mode cfg = ModeHttpRemote
    \<Longrightarrow> exec_step en cfg x (answered_step (en_JSON_parse en) cfg n t r c elapsed answer x)"
| finalized: "task_at x n t \<Longrightarrow> tk_phase t = Finalizing i a \<Longrightarrow> exec_step en cfg x (finalize_step n t i a now x)"
| ended: "task_at x n t \<Longrightarrow> tk_phase t = Ended \<Longrightarrow> exec_step en cfg x (end_task n t x)"
| stopped: "exec_step en cfg x (shutdown x)"
| recovering: "exec_step en cfg x (recover_list cfg now x)"
| recovered: "exec_step en cfg x (recover_row cfg now x)"
| beat: "i \<in> set (xs_heartbeats x) \<Longrightarrow> exec_step en cfg x (heartbeat i now x)"

end
