(* ===== verification/SandboxExecutorSafety.thy ===== *)
theory SandboxExecutorSafety
  imports SandboxExecutor
begin

text \<open>
  The invariant of the executor: the counter is the number of tasks taken from the queue and
  stays within the configured concurrency, no queued run waits while a slot is free and nothing
  is pending, every command about to run is allowed, and the rows stay well formed.
\<close>

section \<open>The invariant\<close>

definition queue_flags :: "executor \<Rightarrow> bool list" where
  "queue_flags x = map (\<lambda>e. tk_from_queue (snd e)) (xs_tasks x)"

text \<open>Without the clause on the pending callback, as the loop of the callback keeps it.\<close>

definition queue_inv :: "executor_config \<Rightarrow> executor \<Rightarrow> bool" where
  "queue_inv cfg x \<longleftrightarrow>
     xs_queued x = xs_queue x \<and> distinct (xs_queue x) \<and> [] \<notin> set (xs_queue x)
     \<and> xs_running x = length (filter (\<lambda>b. b) (queue_flags x))
     \<and> xs_running x \<le> xc_maxConcurrency cfg
     \<and> (xs_shuttingDown x \<longrightarrow> xs_queue x = [])"

definition awake :: "executor_config \<Rightarrow> executor \<Rightarrow> bool" where
  "awake cfg x \<longleftrightarrow>
     (xs_queue x \<noteq> [] \<and> xs_running x < xc_maxConcurrency cfg \<longrightarrow> xs_pumping x)"

definition command_ok :: "executor_config \<Rightarrow> remote_context \<Rightarrow> bool" where
  "command_ok cfg c \<longleftrightarrow>
     (xc_mode cfg \<noteq> ModeMock \<longrightarrow>
        rx_argv c \<noteq> [] \<and> rx_file c = js_trim (hd (rx_argv c)) \<and> rx_file c \<in> set (xc_allowedCommands cfg))
     \<and> (xc_mode cfg = ModeHttpRemote \<longrightarrow> sandboxRemoteHostAllowed (rx_host c) (xc_remote_allowedHosts cfg))"

text \<open>The words of the command are those of the row.\<close>

definition row_command :: "executor_config \<Rightarrow> sandbox_run \<Rightarrow> remote_context \<Rightarrow> bool" where
  "row_command cfg r c \<longleftrightarrow>
     (xc_mode cfg \<noteq> ModeMock \<longrightarrow> (\<exists>vs. argv_of r = Some vs \<and> rx_argv c = map js_string vs))"

definition egress_ok :: "environment \<Rightarrow> executor_config \<Rightarrow> remote_context \<Rightarrow> bool" where
  "egress_ok en cfg c \<longleftrightarrow>
     (xc_mode cfg = ModeHttpRemote \<longrightarrow>
        sandboxRemoteEgressAllowed (en_isIP en) (rx_resolvedIps c) (remoteAllowedCidrs (en_isIP en) cfg))"

fun phase_ok :: "environment \<Rightarrow> executor_config \<Rightarrow> task_phase \<Rightarrow> bool" where
  "phase_ok en cfg (Preparing r c) \<longleftrightarrow> command_ok cfg c \<and> row_command cfg r c"
| "phase_ok en cfg (Executing r c) \<longleftrightarrow> command_ok cfg c \<and> row_command cfg r c \<and> egress_ok en cfg c"
| "phase_ok en cfg (Finalizing i a) \<longleftrightarrow> terminal (fa_status a)"
| "phase_ok en cfg _ \<longleftrightarrow> True"

definition tasks_inv :: "environment \<Rightarrow> executor_config \<Rightarrow> executor \<Rightarrow> bool" where
  "tasks_inv en cfg x \<longleftrightarrow>
     distinct (keys (xs_tasks x)) \<and> (\<forall>n \<in> set (keys (xs_tasks x)). n < xs_next x)
     \<and> (\<forall>e \<in> set (xs_tasks x). phase_ok en cfg (tk_phase (snd e)))"

definition exec_inv :: "environment \<Rightarrow> executor_config \<Rightarrow> executor \<Rightarrow> bool" where
  "exec_inv en cfg x \<longleftrightarrow>
     queue_inv cfg x \<and> awake cfg x \<and> tasks_inv en cfg x \<and> rows_ok (xs_runs x)"

section \<open>Changing a task\<close>

lemma keys_set_task [simp]: "keys (xs_tasks (set_task n f x)) = keys (xs_tasks x)"
  by (simp add: set_task_def comp_def case_prod_beta)

lemma set_task_frame [simp]:
  "xs_queue (set_task n f x) = xs_queue x" "xs_queued (set_task n f x) = xs_queued x"
  "xs_running (set_task n f x) = xs_running x" "xs_pumping (set_task n f x) = xs_pumping x"
  "xs_shuttingDown (set_task n f x) = xs_shuttingDown x" "xs_next (set_task n f x) = xs_next x"
  "xs_db (set_task n f x) = xs_db x"
  by (simp_all add: set_task_def)

lemma queue_flags_set_task:
  "(\<And>t. tk_from_queue (f t) = tk_from_queue t) \<Longrightarrow> queue_flags (set_task n f x) = queue_flags x"
  unfolding queue_flags_def set_task_def by (simp add: case_prod_beta comp_def)

lemma queue_inv_cong:
  assumes "xs_queue y = xs_queue x" "xs_queued y = xs_queued x" "xs_running y = xs_running x"
    "xs_shuttingDown y = xs_shuttingDown x" "queue_flags y = queue_flags x" "xs_pumping y = xs_pumping x"
  shows "queue_inv cfg y = queue_inv cfg x" "awake cfg y = awake cfg x"
  using assms by (simp_all add: queue_inv_def awake_def)

lemma tasks_inv_set_task:
  assumes "tasks_inv en cfg x" "\<And>t. task_at x n t \<Longrightarrow> phase_ok en cfg (tk_phase (f t))"
  shows "tasks_inv en cfg (set_task n f x)"
proof -
  have "phase_ok en cfg (tk_phase (snd e))" if "e \<in> set (xs_tasks (set_task n f x))" for e
  proof -
    from that obtain m t where e: "(m, t) \<in> set (xs_tasks x)" "e = (m, if m = n then f t else t)"
      by (auto simp: set_task_def)
    show ?thesis
    proof (cases "m = n")
      case True
      then show ?thesis using e assms(2) [of t] by simp
    next
      case False
      then show ?thesis using e assms(1) by (auto simp: tasks_inv_def)
    qed
  qed
  then show ?thesis using assms(1) by (simp add: tasks_inv_def)
qed

lemma tasks_inv_cong:
  "xs_tasks y = xs_tasks x \<Longrightarrow> xs_next y = xs_next x \<Longrightarrow> tasks_inv en cfg y = tasks_inv en cfg x"
  by (simp add: tasks_inv_def)

text \<open>A step that changes one task in place and leaves the queue alone.\<close>

lemma exec_inv_set_task:
  assumes "exec_inv en cfg x"
    and "xs_queue y = xs_queue x" "xs_queued y = xs_queued x" "xs_running y = xs_running x"
    "xs_shuttingDown y = xs_shuttingDown x" "xs_pumping y = xs_pumping x"
    "xs_tasks y = xs_tasks x" "xs_next y = xs_next x" "rows_ok (xs_runs y)"
    and "\<And>t. tk_from_queue (f t) = tk_from_queue t"
    and "\<And>t. task_at x n t \<Longrightarrow> phase_ok en cfg (tk_phase (f t))"
  shows "exec_inv en cfg (set_task n f y)"
proof -
  have "queue_flags (set_task n f y) = queue_flags x"
    using queue_flags_set_task [of f n y] assms(7,10) by (simp add: queue_flags_def)
  then have "queue_inv cfg (set_task n f y) = queue_inv cfg x" "awake cfg (set_task n f y) = awake cfg x"
    using assms(2-6) by (simp_all add: queue_inv_def awake_def)
  moreover have "tasks_inv en cfg (set_task n f y)"
    using assms(1,7,8,11) by (intro tasks_inv_set_task) (auto simp: exec_inv_def tasks_inv_def)
  ultimately show ?thesis using assms(1,9) by (simp add: exec_inv_def)
qed

lemma exec_inv_same_tasks:
  assumes "exec_inv en cfg x"
    and "xs_queue y = xs_queue x" "xs_queued y = xs_queued x" "xs_running y = xs_running x"
    "xs_shuttingDown y = xs_shuttingDown x" "xs_pumping y = xs_pumping x"
    "xs_tasks y = xs_tasks x" "xs_next y = xs_next x" "rows_ok (xs_runs y)"
  shows "exec_inv en cfg y"
  using assms by (simp add: exec_inv_def queue_inv_def awake_def queue_flags_def tasks_inv_def)

section \<open>The queue\<close>

lemma count_remove:
  "distinct (keys ts) \<Longrightarrow> (n, t) \<in> set ts \<Longrightarrow>
     length (filter (\<lambda>b. b) (map (\<lambda>e. f (snd e)) (filter (\<lambda>(m, u). m \<noteq> n) ts)))
       = length (filter (\<lambda>b. b) (map (\<lambda>e. f (snd e)) ts)) - (if f t then 1 else 0)"
proof (induction ts)
  case (Cons e ts)
  show ?case
  proof (cases "e = (n, t)")
    case True
    then have "filter (\<lambda>(m, u). m \<noteq> n) ts = ts"
      using Cons.prems(1) by (intro filter_True) force
    then show ?thesis using True by simp
  next
    case False
    then have "(n, t) \<in> set ts" using Cons.prems(2) by simp
    moreover from this have "n \<in> fst ` set ts" by (metis fst_conv image_eqI)
    then have "fst e \<noteq> n" using Cons.prems(1) by auto
    moreover have "f t \<Longrightarrow> 0 < length (filter (\<lambda>b. b) (map (\<lambda>e. f (snd e)) ts))"
      using \<open>(n, t) \<in> set ts\<close> by (force simp: filter_empty_conv)
    ultimately show ?thesis using Cons by (auto simp: case_prod_beta)
  qed
qed simp

lemma kick_inv: "queue_inv cfg x \<Longrightarrow> queue_inv cfg (kick x)"
  by (simp add: kick_def queue_inv_def queue_flags_def)

lemma kick_awake: "queue_inv cfg x \<Longrightarrow> awake cfg (kick x)"
  by (auto simp: kick_def awake_def queue_inv_def)

lemma kick_frame [simp]:
  "xs_tasks (kick x) = xs_tasks x" "xs_next (kick x) = xs_next x" "xs_db (kick x) = xs_db x"
  by (simp_all add: kick_def)

lemma executor_enqueue_inv:
  assumes "exec_inv en cfg x"
  shows "exec_inv en cfg (enqueue cfg runId x)"
proof -
  let ?i = "js_trim runId" and ?y = "x\<lparr>xs_queue := xs_queue x @ [js_trim runId], xs_queued := xs_queued x @ [js_trim runId]\<rparr>"
  have "queue_inv cfg ?y" if "\<not> xs_shuttingDown x" "?i \<noteq> []" "?i \<notin> set (xs_queued x)"
    using assms that by (simp add: exec_inv_def queue_inv_def queue_flags_def)
  then show ?thesis
    using assms kick_inv [of cfg ?y] kick_awake [of cfg ?y]
    by (auto simp: enqueue_def Let_def exec_inv_def tasks_inv_def)
qed

lemma end_task_inv:
  assumes "exec_inv en cfg x" "task_at x n t"
  shows "exec_inv en cfg (end_task n t x)"
proof -
  let ?x = "x\<lparr>xs_tasks := filter (\<lambda>(m, u). m \<noteq> n) (xs_tasks x)\<rparr>"
  let ?y = "?x\<lparr>xs_running := xs_running x - 1\<rparr>"
  have d: "distinct (keys (xs_tasks x))" and r: "xs_running x = length (filter (\<lambda>b. b) (queue_flags x))"
    using assms(1) by (simp_all add: exec_inv_def tasks_inv_def queue_inv_def)
  note count = count_remove [OF d assms(2), of tk_from_queue]
  have t: "tasks_inv en cfg ?x"
    using assms(1) by (auto simp: exec_inv_def tasks_inv_def intro: distinct_map_filter)
  show ?thesis
  proof (cases "tk_from_queue t")
    case True
    have "queue_inv cfg ?y"
      using assms(1) r count True by (auto simp: exec_inv_def queue_inv_def queue_flags_def)
    then show ?thesis
      using assms(1) t True kick_inv [of cfg ?y] kick_awake [of cfg ?y]
      by (simp add: end_task_def exec_inv_def tasks_inv_def)
  next
    case False
    have "queue_inv cfg ?x" "awake cfg ?x"
      using assms(1) r count False by (auto simp: exec_inv_def queue_inv_def queue_flags_def awake_def)
    then show ?thesis using assms(1) t False by (simp add: end_task_def exec_inv_def)
  qed
qed

text \<open>The callback: it takes runs until the queue is empty or every slot is taken.\<close>

lemma start_task_tasks:
  "tasks_inv en cfg x \<Longrightarrow> tasks_inv en cfg (start_task b i x)"
  by (auto simp: tasks_inv_def start_task_def less_Suc_eq)

lemma dequeue_inv:
  assumes "queue_inv cfg x" "tasks_inv en cfg x" "xs_queue x = i # rest" "xs_running x < xc_maxConcurrency cfg"
  shows "queue_inv cfg (dequeue i rest x)" "tasks_inv en cfg (dequeue i rest x)"
proof -
  have "filter (\<lambda>j. j \<noteq> i) rest = rest"
    using assms(1,3) by (intro filter_True) (auto simp: queue_inv_def)
  then show "queue_inv cfg (dequeue i rest x)"
    using assms by (simp add: dequeue_def start_task_def queue_inv_def queue_flags_def)
  have "tasks_inv en cfg (x\<lparr>xs_queue := rest, xs_queued := filter (\<lambda>j. j \<noteq> i) (xs_queued x),
      xs_running := xs_running x + 1\<rparr>)"
    using assms(2) by (simp add: tasks_inv_def)
  then show "tasks_inv en cfg (dequeue i rest x)" unfolding dequeue_def by (rule start_task_tasks)
qed

lemma dequeue_frame [simp]:
  "xs_db (dequeue i rest x) = xs_db x" "xs_shuttingDown (dequeue i rest x) = xs_shuttingDown x"
  by (simp_all add: dequeue_def start_task_def)

lemma pump_loop_inv:
  assumes "queue_inv cfg x" "tasks_inv en cfg x"
  shows "queue_inv cfg (pump_loop cfg x) \<and> tasks_inv en cfg (pump_loop cfg x)
    \<and> xs_db (pump_loop cfg x) = xs_db x
    \<and> (xs_queue (pump_loop cfg x) = [] \<or> xs_running (pump_loop cfg x) = xc_maxConcurrency cfg)"
  using assms
proof (induction cfg x rule: pump_loop.induct)
  case (1 cfg x)
  show ?case
  proof (cases "xs_queue x")
    case Nil
    then show ?thesis using 1(2,3) by (subst (1 2 3 4 5) pump_loop.simps) simp
  next
    case (Cons i rest)
    show ?thesis
    proof (cases "\<not> xs_shuttingDown x \<and> xs_running x < xc_maxConcurrency cfg")
      case True
      have "pump_loop cfg x = pump_loop cfg (dequeue i rest x)"
        by (subst pump_loop.simps) (simp add: Cons True)
      then show ?thesis
        using 1(1) [OF Cons True] dequeue_inv [OF 1(2,3) Cons] True by simp
    next
      case False
      then have "pump_loop cfg x = x" by (subst pump_loop.simps) (simp only: Cons list.case if_False)
      then show ?thesis using 1(2,3) False Cons by (auto simp: queue_inv_def)
    qed
  qed
qed

lemma pump_inv:
  assumes "exec_inv en cfg x"
  shows "exec_inv en cfg (pump cfg x)"
proof -
  have "queue_inv cfg x" "tasks_inv en cfg x" using assms by (simp_all add: exec_inv_def)
  from pump_loop_inv [OF this] show ?thesis
    using assms by (auto simp: pump_def exec_inv_def queue_inv_def awake_def tasks_inv_def queue_flags_def)
qed

section \<open>Tasks\<close>

lemma begin_run_ok: "phase_ok en cfg (begin_run (en_isIP en) hostname cfg r)"
proof (cases "sr_cancel_requested r \<or> xc_mode cfg = ModeMock")
  case True
  then show ?thesis by (auto simp: begin_run_def command_ok_def row_command_def)
next
  case False
  show ?thesis
  proof (cases "parseCommandArgv cfg (xc_mode cfg) r")
    case (Inl a)
    then show ?thesis using False by (simp add: begin_run_def parseCommandArgv_Inl)
  next
    case (Inr p)
    obtain argv cmd_file where p: "p = (argv, cmd_file)" by fastforce
    note cmd = parseCommandArgv_Inr [OF Inr [unfolded p]]
    show ?thesis
    proof (cases "xc_mode cfg = ModeLocalProcess")
      case True
      then show ?thesis using False Inr p cmd by (auto simp: begin_run_def command_ok_def row_command_def bare_context_def)
    next
      case False
      then show ?thesis
        using \<open>\<not> (sr_cancel_requested r \<or> xc_mode cfg = ModeMock)\<close> Inr p cmd
        by (cases "remote_target (en_isIP en) hostname cfg")
          (auto simp: begin_run_def command_ok_def row_command_def bare_context_def remote_target_Inl remote_target_Inr)
    qed
  qed
qed

lemma run_loaded_inv:
  "exec_inv en cfg x \<Longrightarrow> exec_inv en cfg (run_loaded (en_isIP en) hostname cfg n r x)"
  unfolding run_loaded_def Let_def
  by (rule exec_inv_set_task [where x = x]) (simp_all add: exec_inv_def begin_run_ok)

lemma set_rows_inv: "exec_inv en cfg x \<Longrightarrow> rows_ok rows \<Longrightarrow> exec_inv en cfg (set_rows rows x)"
  by (rule exec_inv_same_tasks) (simp_all add: set_rows_def)

lemma set_phase_inv:
  "exec_inv en cfg x \<Longrightarrow> phase_ok en cfg p \<Longrightarrow> exec_inv en cfg (set_phase n p x)"
  unfolding set_phase_def by (rule exec_inv_set_task [where x = x]) (simp_all add: exec_inv_def)

lemma claim_step_inv:
  assumes "exec_inv en cfg x"
  shows "exec_inv en cfg (claim_step (en_isIP en) hostname cfg n i now x)"
proof -
  have "rows_ok (snd (claimQueuedRun i now (xs_runs x)))"
    using assms by (intro statements_ok) (simp add: exec_inv_def)
  note y = set_rows_inv [OF assms this]
  show ?thesis
    using run_loaded_inv [OF y] set_phase_inv [OF y, of "Loading i", unfolded set_phase_def]
    by (simp add: claim_step_def case_prod_beta Let_def split: option.splits)
qed

lemma load_step_inv:
  "exec_inv en cfg x \<Longrightarrow> exec_inv en cfg (load_step (en_isIP en) hostname cfg n i x)"
  using run_loaded_inv [of en cfg x] set_phase_inv [of en cfg x Ended, unfolded set_phase_def]
  by (simp add: load_step_def split: option.splits)

lemma exec_inv_active: "exec_inv en cfg x \<Longrightarrow> exec_inv en cfg (x\<lparr>xs_active := m\<rparr>)"
  by (rule exec_inv_same_tasks [where x = x]) (simp_all add: exec_inv_def)

lemma activate_inv:
  "exec_inv en cfg x \<Longrightarrow> command_ok cfg c \<Longrightarrow> row_command cfg r c \<Longrightarrow> egress_ok en cfg c
    \<Longrightarrow> exec_inv en cfg (activate n r c x)"
  unfolding activate_def by (intro set_phase_inv exec_inv_active) simp_all

lemma deactivate_inv:
  "exec_inv en cfg x \<Longrightarrow> terminal (fa_status a) \<Longrightarrow> exec_inv en cfg (deactivate n r a x)"
  unfolding deactivate_def by (intro set_phase_inv exec_inv_active) simp_all

lemma resolved_step_inv:
  assumes "exec_inv en cfg x" "command_ok cfg c" "row_command cfg r c"
  shows "exec_inv en cfg (resolved_step (en_isIP en) cfg n r c resolved x)"
proof (cases "remote_egress (en_isIP en) cfg (rx_host c) resolved")
  case (Inl a)
  then show ?thesis using assms(1) by (simp add: resolved_step_def set_phase_inv remote_egress_Inl)
next
  case (Inr ips)
  let ?c = "c\<lparr>rx_resolvedIps := ips\<rparr>"
  have "command_ok cfg ?c" "row_command cfg r ?c" using assms(2,3) by (auto simp: command_ok_def row_command_def)
  moreover have "egress_ok en cfg ?c"
    using Inr unfolding remote_egress_Inr egress_ok_def by simp
  ultimately show ?thesis using assms(1) Inr by (simp add: resolved_step_def activate_inv)
qed

lemma finalize_step_inv:
  assumes "exec_inv en cfg x" "terminal (fa_status a)"
  shows "exec_inv en cfg (finalize_step n t i a now x)"
proof -
  have "exec_inv en cfg (x\<lparr>xs_db := finalize i a now (xs_db x),
      xs_heartbeats := stop_heartbeat (tk_beats t) (xs_heartbeats x)\<rparr>)"
    using assms by (intro exec_inv_same_tasks [OF assms(1)]) (simp_all add: finalize_ok exec_inv_def)
  then show ?thesis unfolding finalize_step_def by (rule set_phase_inv) simp
qed

lemma flags_inv:
  assumes "exec_inv en cfg x" "\<And>t. tk_from_queue (f t) = tk_from_queue t" "\<And>t. tk_phase (f t) = tk_phase t"
  shows "exec_inv en cfg (set_task n f x)"
  by (rule exec_inv_set_task [OF assms(1)])
    (use assms in \<open>auto simp: exec_inv_def tasks_inv_def\<close>)

lemma sync_inv:
  assumes "exec_inv en cfg x"
  shows "exec_inv en cfg (start_task False i x)"
  using assms start_task_tasks [of en cfg x False i]
  by (simp add: exec_inv_def queue_inv_def awake_def queue_flags_def) (simp add: start_task_def)

lemma shutdown_inv:
  assumes "exec_inv en cfg x"
  shows "exec_inv en cfg (shutdown x)"
proof -
  let ?f = "\<lambda>(m, t). (m, if m \<in> set (map snd (xs_active x)) then t\<lparr>tk_canceled := True\<rparr> else t)"
  have ks: "keys (map ?f (xs_tasks x)) = keys (xs_tasks x)" by (simp add: comp_def case_prod_beta)
  have fl: "map (\<lambda>e. tk_from_queue (snd e)) (map ?f (xs_tasks x)) = map (\<lambda>e. tk_from_queue (snd e)) (xs_tasks x)"
    by (simp add: case_prod_beta comp_def)
  have ph: "phase_ok en cfg (tk_phase (snd (?f e)))" if "e \<in> set (xs_tasks x)" for e
    using assms that by (auto simp: exec_inv_def tasks_inv_def case_prod_beta)
  have eq: "xs_tasks (shutdown x) = map ?f (xs_tasks x)" "xs_next (shutdown x) = xs_next x"
    by (simp_all add: shutdown_def)
  have "\<forall>e \<in> set (map ?f (xs_tasks x)). phase_ok en cfg (tk_phase (snd e))"
  proof
    fix e assume "e \<in> set (map ?f (xs_tasks x))"
    then obtain e0 where "e0 \<in> set (xs_tasks x)" "e = ?f e0" by (metis (no_types, lifting) imageE list.set_map)
    then show "phase_ok en cfg (tk_phase (snd e))" using ph by simp
  qed
  then have "tasks_inv en cfg (shutdown x)"
    unfolding tasks_inv_def eq ks using assms unfolding exec_inv_def tasks_inv_def by blast
  moreover have "queue_inv cfg (shutdown x)"
  proof -
    have "queue_flags (shutdown x) = queue_flags x" unfolding queue_flags_def eq by (rule fl)
    moreover have "xs_running (shutdown x) = xs_running x" "xs_queue (shutdown x) = []" "xs_queued (shutdown x) = []"
      by (simp_all add: shutdown_def)
    ultimately show ?thesis using assms by (simp add: exec_inv_def queue_inv_def)
  qed
  moreover have "awake cfg (shutdown x)" by (simp add: awake_def shutdown_def)
  moreover have "rows_ok (xs_runs (shutdown x))" using assms by (simp add: exec_inv_def shutdown_def)
  ultimately show ?thesis by (simp add: exec_inv_def)
qed

lemma recover_row_inv:
  assumes "exec_inv en cfg x"
  shows "exec_inv en cfg (recover_row cfg now x)"
proof -
  have "rows_ok (sd_runs (finalizeIfRunning i (stale_result cfg r) now (xs_db x)))" for i r
    using assms by (intro finalize_ok) (simp_all add: exec_inv_def)
  then show ?thesis
    unfolding recover_row_def
    by (auto split: option.splits list.splits intro!: exec_inv_same_tasks [OF assms] simp: assms)
      (use assms in \<open>simp_all add: exec_inv_def\<close>)
qed

section \<open>Requests\<close>

lemma enqueueSandboxRun_rows:
  assumes "enqueueSandboxRun iso_text q ds dt timeout newId now db = Inr (r, db')" "rows_ok (sd_runs db)"
  shows "rows_ok (sd_runs db')"
  using assms unfolding enqueueSandboxRun_def
  by (auto split: sum.splits option.splits if_splits dest: insertRun_ok)

lemma cancelSandboxRun_rows:
  assumes "cancelSandboxRun sc t i reason ds dt now db = Inr (s, db')" "rows_ok (sd_runs db)"
  shows "rows_ok (sd_runs db')"
proof -
  obtain tenancy :: tenant_scope where t: "resolveTenantScope sc t ds dt = Inr tenancy"
    using assms(1) by (cases "resolveTenantScope sc t ds dt") (auto simp: cancelSandboxRun_def)
  let ?c = "store_requestCancel i (ts_tenant_id tenancy) (ts_scope tenancy)
    (trimOrNull (map_option JStr reason)) now (sd_runs db)"
  have c: "rows_ok (snd ?c)" using assms(2) by (rule statements_ok)
  have q: "rows_ok (snd (cancelQueuedRun i now (snd ?c)))" using c by (rule statements_ok)
  obtain row rows where rr: "?c = (row, rows)" by fastforce
  obtain row' rows' where rr': "cancelQueuedRun i now rows = (row', rows')" by fastforce
  have "rows_ok rows" "rows_ok rows'" using c q rr rr' by simp_all
  then show ?thesis
    using assms(1) t rr rr'
    by (cases row; cases row') (auto simp: cancelSandboxRun_def split: if_splits)
qed

section \<open>Every step keeps the invariant\<close>

lemma exec_step_inv:
  assumes "exec_step en cfg x y" "exec_inv en cfg x"
  shows "exec_inv en cfg y"
  using assms
proof (induction rule: exec_step.induct)
  case (submit q defaultScope defaultTenantId timeout newId now x r db)
  then show ?case
    by (intro exec_inv_same_tasks [OF submit(2)])
      (simp_all add: enqueueSandboxRun_rows [OF submit(1)] exec_inv_def)
next
  case (cancel scope tenantId runId reason defaultScope defaultTenantId now x s db)
  then show ?case
    by (intro exec_inv_same_tasks [OF cancel(2)])
      (simp_all add: cancelSandboxRun_rows [OF cancel(1)] exec_inv_def)
next
  case (cancel_active x runId)
  then show ?case by (auto simp: requestCancel_def flags_inv split: option.splits)
next
  case (sync runId x x')
  then show ?case by (auto simp: executeSync_def badRequest_def sync_inv split: if_splits)
next
  case (spawned x n t r c)
  then have "command_ok cfg c" "row_command cfg r c" by (force simp: exec_inv_def tasks_inv_def)+
  then show ?case using spawned by (simp add: activate_inv egress_ok_def)
next
  case (resolved x n t r c ips)
  then have "command_ok cfg c" "row_command cfg r c" by (force simp: exec_inv_def tasks_inv_def)+
  then show ?case using resolved by (simp add: resolved_step_inv)
next
  case (finalized x n t i a now)
  then have "terminal (fa_status a)" by (force simp: exec_inv_def tasks_inv_def)
  then show ?case using finalized by (simp add: finalize_step_inv)
next
  case (recovering x now)
  then have "exec_inv en cfg (x\<lparr>xs_recovery := v\<rparr>)" for v
    by (rule exec_inv_same_tasks) (use recovering in \<open>simp_all add: exec_inv_def\<close>)
  then show ?case using recovering by (simp add: recover_list_def)
next
  case (beat i x now)
  then show ?case unfolding heartbeat_def
    by (intro set_rows_inv statements_ok) (simp_all add: exec_inv_def)
qed (simp_all add: executor_enqueue_inv pump_inv claim_step_inv load_step_inv mock_step_def set_phase_inv timer_step_def
    flags_inv closed_step_def answered_step_def deactivate_inv end_task_inv shutdown_inv recover_row_inv)

lemma exec_inv_new: "rows_ok (sd_runs db) \<Longrightarrow> exec_inv en cfg (executor_new db)"
  by (simp add: executor_new_def exec_inv_def queue_inv_def awake_def tasks_inv_def queue_flags_def)

interpretation sandbox: invariant_system
  "\<lambda>x. \<exists>db. rows_ok (sd_runs db) \<and> x = executor_new db" "exec_step en cfg" "exec_inv en cfg"
  for en cfg
  by unfold_locales (auto intro: exec_inv_new exec_step_inv)

section \<open>Rows move forward\<close>

lemma pump_db [simp]: "exec_inv en cfg x \<Longrightarrow> xs_db (pump cfg x) = xs_db x"
  using pump_loop_inv [of cfg x en] by (simp add: pump_def exec_inv_def)

lemma exec_step_moves:
  assumes "exec_step en cfg x y" "exec_inv en cfg x"
  shows "(\<exists>n t i a now. task_at x n t \<and> tk_phase t = Finalizing i a \<and> y = finalize_step n t i a now x)
    \<or> moves (xs_runs x) (xs_runs y)"
  using assms
proof (induction rule: exec_step.induct)
  case (claimed x n t i now)
  have "moves (xs_runs x) (snd (claimQueuedRun i now (xs_runs x)))"
    by (intro moves_advances statements_advance)
  then show ?case
    by (simp add: claim_step_def run_loaded_def set_rows_def Let_def case_prod_beta split: option.split)
next
  case (finalized x n t i a now)
  then show ?case by blast
next
  case (sync runId x x')
  then have "xs_db x' = xs_db x"
    by (auto simp: executeSync_def start_task_def badRequest_def split: if_splits)
  then show ?case by simp
next
  case (recovered x now)
  have "moves (xs_runs x) (sd_runs (finalizeIfRunning j (stale_result cfg r) now (xs_db x)))" for j r
    by (rule finalizeIfRunning_moves) simp
  then show ?case by (simp add: recover_row_def split: option.split list.split)
next
  case (beat i x now)
  then show ?case
    by (simp add: heartbeat_def set_rows_def moves_advances statements_advance)
qed (simp_all add: enqueueSandboxRun_moves cancelSandboxRun_moves requestCancel_def enqueue_def Let_def
    executeSync_def start_task_def badRequest_def load_step_def run_loaded_def mock_step_def set_phase_def
    activate_def resolved_step_def timer_step_def closed_step_def answered_step_def deactivate_def end_task_def
    shutdown_def recover_list_def split: option.split sum.split if_splits)

section \<open>Whose command it is\<close>

text \<open>The rows that tasks hold, and how the table keeps its identifiers and commands.\<close>

fun phase_row :: "task_phase \<Rightarrow> sandbox_run option" where
  "phase_row (Preparing r c) = Some r"
| "phase_row (Executing r c) = Some r"
| "phase_row _ = None"

definition held_rows :: "executor \<Rightarrow> sandbox_run set" where
  "held_rows x = {r. \<exists>n t. task_at x n t \<and> phase_row (tk_phase t) = Some r}"

definition keeps :: "sandbox_run list \<Rightarrow> sandbox_run list \<Rightarrow> bool" where
  "keeps rows rows' \<longleftrightarrow>
     (\<forall>q \<in> set rows. \<exists>q' \<in> set rows'. sr_id q' = sr_id q \<and> sr_action_json q' = sr_action_json q)"

text \<open>A held row is a row of the table as the store reads it, as far as the command goes.\<close>

definition held_inv :: "executor \<Rightarrow> bool" where
  "held_inv x \<longleftrightarrow>
     (\<forall>r \<in> held_rows x. \<exists>q \<in> set (xs_runs x). sr_id q = sr_id r \<and> parseJsonObject (sr_action_json q) = sr_action_json r)"

lemma moves_keeps: "moves rows rows' \<Longrightarrow> keeps rows rows'"
proof -
  have "\<exists>q' \<in> set kept. sr_id q' = sr_id q \<and> sr_action_json q' = sr_action_json q"
    if "advances rows kept" "q \<in> set rows" for kept q
    using that unfolding advances_def by (induction rule: list_all2_induct) (auto simp: same_run_def)
  then show "moves rows rows' \<Longrightarrow> keeps rows rows'" by (fastforce simp: moves_def keeps_def)
qed

lemma finalize_keeps: "keeps (sd_runs db) (sd_runs (finalize i a now db))"
proof -
  let ?rows = "map (\<lambda>r. if sr_id r = i then set_final a now r else r) (sd_runs db)"
  have "sd_runs (finalize i a now db) = ?rows"
    by (simp add: finalize_def store_finalizeRun_def finalizeSandboxRun_def sql_update_def case_prod_beta Let_def)
  moreover have "keeps (sd_runs db) ?rows"
    unfolding keeps_def
  proof
    fix q assume "q \<in> set (sd_runs db)"
    then show "\<exists>q' \<in> set ?rows. sr_id q' = sr_id q \<and> sr_action_json q' = sr_action_json q"
      by (intro bexI [of _ "if sr_id q = i then set_final a now q else q"]) (auto simp: set_final_def)
  qed
  ultimately show ?thesis by simp
qed

lemma exec_step_keeps:
  assumes "exec_step en cfg x y" "exec_inv en cfg x"
  shows "keeps (xs_runs x) (xs_runs y)"
  using exec_step_moves [OF assms]
  by (auto simp: moves_keeps finalize_step_def set_phase_def finalize_keeps)

lemma getRunningRun_row:
  assumes "getRunningRun i rows = Some r"
  shows "\<exists>q \<in> set rows. r = toRunPayloadRow q"
  using assms by (auto simp: getRunningRun_def find_Some_iff)

lemma claimQueuedRun_row:
  "claimQueuedRun i now rows = (Some r, rows') \<Longrightarrow> \<exists>q \<in> set rows'. r = toRunPayloadRow q"
  by (auto simp: claimQueuedRun_def Let_def case_prod_beta getRunningRun_row split: if_splits)

lemma held_set_task:
  assumes "\<And>t. task_at x n t \<Longrightarrow> phase_row (tk_phase (f t)) \<in> {None, phase_row (tk_phase t)} \<union> Some ` R"
  shows "held_rows (set_task n f x) \<subseteq> held_rows x \<union> R"
proof
  fix r assume "r \<in> held_rows (set_task n f x)"
  then obtain m t where t: "task_at x m t" "phase_row (tk_phase (if m = n then f t else t)) = Some r"
    by (auto simp: held_rows_def set_task_def)
  show "r \<in> held_rows x \<union> R"
  proof (cases "m = n")
    case True
    then have "phase_row (tk_phase t) = Some r \<or> r \<in> R" using t assms [of t] by auto
    then show ?thesis using t(1) by (auto simp: held_rows_def)
  next
    case False
    then show ?thesis using t by (auto simp: held_rows_def)
  qed
qed

lemma held_cong: "xs_tasks y = xs_tasks x \<Longrightarrow> held_rows y = held_rows x"
  by (simp add: held_rows_def)

lemma begin_run_row: "phase_row (begin_run isIP hostname cfg r) \<in> {None, Some r}"
  by (auto simp: begin_run_def split: sum.split)

lemma run_loaded_held: "held_rows (run_loaded isIP hostname cfg n r x) \<subseteq> held_rows x \<union> {r}"
proof -
  have "held_rows (set_task n (\<lambda>t. t\<lparr>tk_phase := begin_run isIP hostname cfg r, tk_beats := b\<rparr>)
      (x\<lparr>xs_heartbeats := hs\<rparr>)) \<subseteq> held_rows (x\<lparr>xs_heartbeats := hs\<rparr>) \<union> {r}" for b hs
    by (rule held_set_task) (use begin_run_row in auto)
  moreover have "held_rows (x\<lparr>xs_heartbeats := hs\<rparr>) = held_rows x" for hs by (rule held_cong) simp
  ultimately show ?thesis unfolding run_loaded_def Let_def by simp
qed

lemma set_phase_held: "held_rows (set_phase n p x) \<subseteq> held_rows x \<union> set_option (phase_row p)"
  unfolding set_phase_def by (rule held_set_task) (cases "phase_row p"; simp)

lemma start_task_held: "held_rows (start_task b i x) = held_rows x"
  by (auto simp: held_rows_def start_task_def)

lemma pump_held: "held_rows (pump cfg x) = held_rows x"
proof -
  have "held_rows (pump_loop cfg x) = held_rows x"
  proof (induction cfg x rule: pump_loop.induct)
    case (1 cfg x)
    have d: "held_rows (dequeue i rest x) = held_rows x" for i rest
      unfolding dequeue_def start_task_held by (rule held_cong) simp
    show ?case
      by (subst pump_loop.simps) (auto simp: 1 d split: list.split)
  qed
  moreover have "held_rows (pump cfg x) = held_rows (pump_loop cfg x)"
    unfolding pump_def by (rule held_cong) simp
  ultimately show ?thesis by simp
qed

lemma claim_step_held:
  "held_rows (claim_step isIP hostname cfg n i now x)
     \<subseteq> held_rows x \<union> toRunPayloadRow ` set (xs_runs (claim_step isIP hostname cfg n i now x))"
proof -
  obtain row rows where c: "claimQueuedRun i now (xs_runs x) = (row, rows)" by fastforce
  have same: "held_rows (set_rows rows x) = held_rows x" by (rule held_cong) (simp add: set_rows_def)
  have runs: "xs_runs (claim_step isIP hostname cfg n i now x) = rows"
    by (simp add: claim_step_def c run_loaded_def set_rows_def Let_def split: option.split)
  show ?thesis
  proof (cases row)
    case None
    have "held_rows (set_phase n (Loading i) (set_rows rows x)) \<subseteq> held_rows x"
      using set_phase_held [of n "Loading i" "set_rows rows x"] same by simp
    then show ?thesis using None by (auto simp: claim_step_def c set_phase_def)
  next
    case (Some r)
    then show ?thesis
      using run_loaded_held [of isIP hostname cfg n r "set_rows rows x"] claimQueuedRun_row [OF c [unfolded Some]]
      unfolding runs by (auto simp: claim_step_def c same)
  qed
qed

lemma load_step_held:
  "held_rows (load_step isIP hostname cfg n i x) \<subseteq> held_rows x \<union> toRunPayloadRow ` set (xs_runs x)"
proof (cases "getRunningRun i (xs_runs x)")
  case None
  then show ?thesis using set_phase_held [of n Ended x] by (auto simp: load_step_def set_phase_def)
next
  case (Some r)
  then show ?thesis
    using run_loaded_held [of isIP hostname cfg n r x] getRunningRun_row [OF Some] by (auto simp: load_step_def)
qed

lemma activate_held: "held_rows (activate n r c x) \<subseteq> held_rows x \<union> {r}"
  using set_phase_held [of n "Executing r c" "x\<lparr>xs_active := m\<rparr>" for m] held_cong [of "x\<lparr>xs_active := m\<rparr>" x for m]
  by (simp add: activate_def)

lemma deactivate_held: "held_rows (deactivate n r a x) \<subseteq> held_rows x"
  using set_phase_held [of n "Finalizing i a" "x\<lparr>xs_active := m\<rparr>" for m i] held_cong [of "x\<lparr>xs_active := m\<rparr>" x for m]
  by (simp add: deactivate_def)

lemma finalize_step_held: "held_rows (finalize_step n t i a now x) \<subseteq> held_rows x"
  using set_phase_held [of n Ended "x\<lparr>xs_db := d, xs_heartbeats := h\<rparr>" for d h]
    held_cong [of "x\<lparr>xs_db := d, xs_heartbeats := h\<rparr>" x for d h]
  by (simp add: finalize_step_def)

lemma flags_held:
  "(\<And>t. tk_phase (f t) = tk_phase t) \<Longrightarrow> held_rows (set_task n f x) \<subseteq> held_rows x"
  using held_set_task [where x = x and n = n and f = f and R = "{}"] by simp

lemma resolved_step_held: "held_rows (resolved_step isIP cfg n r c ips x) \<subseteq> held_rows x \<union> {r}"
  using set_phase_held [of n "Finalizing i a" x for i a] activate_held [of n r c x for c]
  by (auto simp: resolved_step_def split: sum.split)

lemma end_task_held: "held_rows (end_task n t x) \<subseteq> held_rows x"
  by (auto simp: held_rows_def end_task_def Let_def)

lemma shutdown_held: "held_rows (shutdown x) \<subseteq> held_rows x"
proof
  fix r assume "r \<in> held_rows (shutdown x)"
  then obtain m t where "task_at x m t"
    "phase_row (tk_phase (if m \<in> set (map snd (xs_active x)) then t\<lparr>tk_canceled := True\<rparr> else t)) = Some r"
    by (auto simp: held_rows_def shutdown_def)
  then have "phase_row (tk_phase t) = Some r" by (simp split: if_splits)
  then show "r \<in> held_rows x" using \<open>task_at x m t\<close> by (auto simp: held_rows_def)
qed

lemma phase_held:
  "task_at x n t \<Longrightarrow> tk_phase t = Preparing r c \<Longrightarrow> r \<in> held_rows x"
  "task_at x n t \<Longrightarrow> tk_phase t = Executing r c \<Longrightarrow> r \<in> held_rows x"
  by (auto simp: held_rows_def intro!: exI)

lemma exec_step_held:
  assumes "exec_step en cfg x y"
  shows "held_rows y \<subseteq> held_rows x \<union> toRunPayloadRow ` set (xs_runs y)"
  using assms
proof (induction rule: exec_step.induct)
  case (sync runId x x')
  then show ?case by (auto simp: executeSync_def badRequest_def start_task_held split: if_splits)
next
  case (pumped x)
  then show ?case by (simp add: pump_held)
next
  case (claimed x n t i now)
  show ?case by (rule claim_step_held)
next
  case (loaded x n t i)
  have "xs_db (load_step (en_isIP en) (en_hostname en) cfg n i x) = xs_db x"
    by (simp add: load_step_def run_loaded_def Let_def split: option.split)
  then show ?case using load_step_held [of "en_isIP en" "en_hostname en" cfg n i x] by simp
next
  case (cancel_active x runId)
  have "held_rows (set_task n (\<lambda>t. t\<lparr>tk_canceled := True\<rparr>) x) \<subseteq> held_rows x" for n
    by (rule flags_held) simp
  then show ?case by (auto simp: requestCancel_def split: option.split)
next
  case (mocked x n t r c)
  then show ?case using set_phase_held [of n "Finalizing (sr_id r) (mock_result r)" x] by (auto simp: mock_step_def)
next
  case (spawned x n t r c)
  then show ?case using activate_held [of n r c x] phase_held(1) [OF spawned(1,2)] by auto
next
  case (resolved x n t r c ips)
  then show ?case using resolved_step_held [of "en_isIP en" cfg n r c ips x] phase_held(1) [OF resolved(1,2)] by auto
next
  case (timed_out x n t r c)
  have "held_rows (timer_step n x) \<subseteq> held_rows x" unfolding timer_step_def by (rule flags_held) simp
  then show ?case by auto
next
  case (enqueued x runId)
  have "held_rows (enqueue cfg runId x) = held_rows x"
    by (rule held_cong) (simp add: enqueue_def Let_def)
  then show ?case by auto
next
  case (recovering x now)
  have "held_rows (recover_list cfg now x) = held_rows x" by (rule held_cong) (simp add: recover_list_def)
  then show ?case by auto
next
  case (recovered x now)
  have "held_rows (recover_row cfg now x) = held_rows x"
    by (rule held_cong) (simp add: recover_row_def split: option.split list.split)
  then show ?case by auto
next
  case (closed x n t r c e)
  then show ?case unfolding closed_step_def using deactivate_held by blast
next
  case (answered x n t r c elapsed answer)
  then show ?case unfolding answered_step_def using deactivate_held by blast
next
  case (finalized x n t i a now)
  then show ?case using finalize_step_held by blast
next
  case (ended x n t)
  then show ?case using end_task_held by blast
next
  case (stopped x)
  then show ?case using shutdown_held by blast
qed (auto simp: held_rows_def heartbeat_def set_rows_def)

lemma exec_step_held_inv:
  assumes "exec_step en cfg x y" "exec_inv en cfg x" "held_inv x"
  shows "held_inv y"
  unfolding held_inv_def
proof
  fix r assume "r \<in> held_rows y"
  with exec_step_held [OF assms(1)] consider "r \<in> held_rows x" | "r \<in> toRunPayloadRow ` set (xs_runs y)" by blast
  then show "\<exists>q \<in> set (xs_runs y). sr_id q = sr_id r \<and> parseJsonObject (sr_action_json q) = sr_action_json r"
  proof cases
    case 1
    then obtain q where q: "q \<in> set (xs_runs x)" "sr_id q = sr_id r" "parseJsonObject (sr_action_json q) = sr_action_json r"
      using assms(3) by (auto simp: held_inv_def)
    then show ?thesis using exec_step_keeps [OF assms(1,2)] unfolding keeps_def by metis
  next
    case 2
    then show ?thesis by (auto simp: toRunPayloadRow_def)
  qed
qed

lemma held_inv_new: "held_inv (executor_new db)"
  by (simp add: held_inv_def held_rows_def executor_new_def)

interpretation sandbox_held: invariant_system
  "\<lambda>x. \<exists>db. rows_ok (sd_runs db) \<and> x = executor_new db" "exec_step en cfg" "\<lambda>x. exec_inv en cfg x \<and> held_inv x"
  for en cfg
  by unfold_locales (auto intro: exec_inv_new held_inv_new exec_step_inv exec_step_held_inv)

end
