(* ===== verification/PropsSandbox.thy ===== *)
theory PropsSandbox
  imports SandboxExecutorSafety
begin

text \<open>
  Properties of the sandbox: the executor's queue and slots, what it runs and where it connects,
  how a run ends, and where cancellation and recovery race with a run.
\<close>

section \<open>The executor\<close>

text \<open>C7: In every state the executor can reach, whatever the interleaving of requests, tasks,
  timers, recovery and shutdown: the counter is the number of tasks taken from the queue that have
  not ended, and within the configured concurrency; the queue has no run twice; no queued run
  waits while a slot is free unless the callback that will take it is pending; after shutdown
  the queue is empty; and every row of the table is well formed.\<close>

theorem executor_slots:
  assumes "rows_ok (sd_runs db)" "(exec_step en cfg)\<^sup>*\<^sup>* (executor_new db) x"
  shows "xs_running x = length (filter (\<lambda>e. tk_from_queue (snd e)) (xs_tasks x))
    \<and> xs_running x \<le> xc_maxConcurrency cfg
    \<and> distinct (xs_queue x) \<and> xs_queued x = xs_queue x
    \<and> (xs_queue x \<noteq> [] \<and> xs_running x < xc_maxConcurrency cfg \<longrightarrow> xs_pumping x)
    \<and> (xs_shuttingDown x \<longrightarrow> xs_queue x = [])
    \<and> rows_ok (xs_runs x)"
proof -
  have "exec_inv en cfg x"
    using sandbox.run_inv [OF assms(2)] exec_inv_new [OF assms(1)] by blast
  moreover have "length (filter (\<lambda>b. b) (queue_flags x)) = length (filter (\<lambda>e. tk_from_queue (snd e)) (xs_tasks x))"
    by (simp add: queue_flags_def filter_map comp_def)
  ultimately show ?thesis by (auto simp: exec_inv_def queue_inv_def awake_def)
qed

definition local_config :: executor_config where
  "local_config =
     \<lparr>xc_enabled = True, xc_mode = ModeLocalProcess, xc_maxConcurrency = 1, xc_stdioMaxBytes = 1000,
      xc_allowedCommands = [''ls''], xc_remote_url = None, xc_remote_allowedHosts = [],
      xc_remote_allowedEgressCidrs = [], xc_remote_denyPrivateIps = True, xc_heartbeatIntervalMs = 0,
      xc_staleAfterMs = 1000, xc_recoveryPollIntervalMs = 1000, xc_recoveryBatchSize = 10\<rparr>"

definition queued_row :: sandbox_run where
  "queued_row =
     \<lparr>sr_id = ''r1'', sr_session_id = ''s1'', sr_tenant_id = ''t'', sr_scope = ''sc'', sr_project_id = None,
      sr_planner_run_id = None, sr_decision_id = None,
      sr_action_json = JObj [(''argv'', JArr [JStr ''ls''])], sr_mode = SmAsync, sr_status = RsQueued,
      sr_timeout_ms = Fin 1000, sr_stdout_text = [], sr_stderr_text = [], sr_output_truncated = False,
      sr_exit_code = None, sr_error = None, sr_cancel_requested = False, sr_cancel_reason = None,
      sr_metadata = JObj [], sr_result_json = JObj [], sr_started_at = None, sr_finished_at = None,
      sr_created_at = 0, sr_updated_at = 0\<rparr>"

definition one_run :: sandbox_db where
  "one_run = \<lparr>sd_sessions = [], sd_runs = [queued_row], sd_telemetry = []\<rparr>"

lemma one_run_ok: "rows_ok (sd_runs one_run)"
  by (simp add: one_run_def queued_row_def rows_ok_def row_ok_def)

theorem executor_slots_witness:
  "xs_running (pump local_config (enqueue local_config ''r1'' (executor_new one_run))) = 1
   \<and> xs_running (pump local_config (enqueue local_config ''r1'' (executor_new one_run))) \<le> xc_maxConcurrency local_config"
proof -
  let ?x = "enqueue local_config ''r1'' (executor_new one_run)"
  have "xs_pumping ?x" by code_simp
  then have "(exec_step en local_config)\<^sup>*\<^sup>* (executor_new one_run) (pump local_config ?x)" for en
    by (meson exec_step.enqueued exec_step.pumped rtranclp.rtrancl_into_rtrancl rtranclp.rtrancl_refl)
  from executor_slots [OF one_run_ok this] have "xs_running (pump local_config ?x) \<le> xc_maxConcurrency local_config"
    by blast
  moreover have "xs_running (pump local_config ?x) = 1" by code_simp
  ultimately show ?thesis by blast
qed

text \<open>C35: The callback fills the slots: in a reachable state it takes runs from the head of the
  queue until the queue is empty or the concurrency is used up, and each run taken is a task.\<close>

theorem pump_fills_slots:
  assumes "rows_ok (sd_runs db)" "(exec_step en cfg)\<^sup>*\<^sup>* (executor_new db) x" "\<not> xs_shuttingDown x"
  shows "xs_queue (pump cfg x) = drop (xc_maxConcurrency cfg - xs_running x) (xs_queue x)
    \<and> map (tk_phase \<circ> snd) (xs_tasks (pump cfg x))
        = map (tk_phase \<circ> snd) (xs_tasks x)
          @ map Claiming (take (xc_maxConcurrency cfg - xs_running x) (xs_queue x))"
proof -
  have inv: "exec_inv en cfg x"
    using sandbox.run_inv [OF assms(2)] exec_inv_new [OF assms(1)] by blast
  have "xs_queue (pump_loop cfg y) = drop (xc_maxConcurrency cfg - xs_running y) (xs_queue y)
      \<and> map (tk_phase \<circ> snd) (xs_tasks (pump_loop cfg y))
        = map (tk_phase \<circ> snd) (xs_tasks y)
          @ map Claiming (take (xc_maxConcurrency cfg - xs_running y) (xs_queue y))"
    if "\<not> xs_shuttingDown y" "[] \<notin> set (xs_queue y)" for y
    using that
  proof (induction cfg y rule: pump_loop.induct)
    case (1 cfg y)
    show ?case
    proof (cases "xs_queue y = [] \<or> xc_maxConcurrency cfg \<le> xs_running y")
      case True
      then have "pump_loop cfg y = y" by (subst pump_loop.simps) (auto split: list.split)
      then show ?thesis using True by auto
    next
      case False
      then obtain i rest where q: "xs_queue y = i # rest" "xs_running y < xc_maxConcurrency cfg"
        by (cases "xs_queue y") auto
      have step: "pump_loop cfg y = pump_loop cfg (dequeue i rest y)"
        by (subst pump_loop.simps) (simp add: q 1(2))
      have n: "xc_maxConcurrency cfg - xs_running y = Suc (xc_maxConcurrency cfg - Suc (xs_running y))"
        using q(2) by simp
      have "i \<noteq> []" using 1(3) q(1) by auto
      then show ?thesis
        using 1(1) [OF q(1)] 1(2,3) q unfolding step n
        by (simp add: dequeue_def start_task_def)
    qed
  qed
  from this [OF assms(3)] inv show ?thesis
    by (simp add: pump_def exec_inv_def queue_inv_def)
qed

theorem pump_fills_slots_witness:
  "xs_queue (pump local_config (enqueue local_config ''r2'' (enqueue local_config ''r1'' (executor_new one_run)))) = [''r2'']"
proof -
  let ?x = "enqueue local_config ''r2'' (enqueue local_config ''r1'' (executor_new one_run))"
  have "(exec_step en local_config)\<^sup>*\<^sup>* (executor_new one_run) ?x" for en
    by (meson exec_step.enqueued rtranclp.rtrancl_into_rtrancl rtranclp.rtrancl_refl)
  moreover have "\<not> xs_shuttingDown ?x" by code_simp
  ultimately have "xs_queue (pump local_config ?x) = drop (xc_maxConcurrency local_config - xs_running ?x) (xs_queue ?x)"
    using pump_fills_slots [OF one_run_ok] by blast
  also have "\<dots> = [''r2'']" by code_simp
  finally show ?thesis .
qed

text \<open>C9: Nothing runs that is not allowed: whenever a process or a remote request is out, its words are
  those of the action of the run with its identifier in the table, its command is the first of
  them, trimmed, and in the list of allowed commands, and whenever a remote request is out, its
  host passes the host list and every address it may use lies in an allowed block.\<close>

theorem only_allowed_commands_run:
  assumes "rows_ok (sd_runs db)" "(exec_step en cfg)\<^sup>*\<^sup>* (executor_new db) x"
    "task_at x n t" "tk_phase t = Executing r c"
  shows "(xc_mode cfg \<noteq> ModeMock \<longrightarrow>
       rx_argv c \<noteq> [] \<and> rx_file c = js_trim (hd (rx_argv c)) \<and> rx_file c \<in> set (xc_allowedCommands cfg)
       \<and> (\<exists>q vs. q \<in> set (xs_runs x) \<and> sr_id q = sr_id r
            \<and> argv_of (toRunPayloadRow q) = Some vs \<and> rx_argv c = map js_string vs))
    \<and> (xc_mode cfg = ModeHttpRemote \<longrightarrow>
         sandboxRemoteHostAllowed (rx_host c) (xc_remote_allowedHosts cfg)
         \<and> rx_resolvedIps c \<noteq> []
         \<and> (\<forall>ip \<in> set (rx_resolvedIps c). \<exists>rule \<in> set (xc_remote_allowedEgressCidrs cfg).
              \<exists>block. parseCidrRule (en_isIP en) rule = Some block \<and> ipInCidrs (en_isIP en) ip [block]))"
proof -
  have inv: "exec_inv en cfg x" "held_inv x"
    using sandbox_held.run_inv [OF assms(2)] exec_inv_new [OF assms(1)] held_inv_new by blast+
  then have ok: "command_ok cfg c" "row_command cfg r c" "egress_ok en cfg c"
    using assms(3,4) by (force simp: exec_inv_def tasks_inv_def)+
  have "r \<in> held_rows x" using phase_held(2) [OF assms(3,4)] .
  then obtain q where q: "q \<in> set (xs_runs x)" "sr_id q = sr_id r" "argv_of (toRunPayloadRow q) = argv_of r"
    using inv(2) by (fastforce simp: held_inv_def argv_of_def toRunPayloadRow_def)
  have blocks: "\<exists>rule \<in> set (xc_remote_allowedEgressCidrs cfg).
      \<exists>block. parseCidrRule (en_isIP en) rule = Some block \<and> ipInCidrs (en_isIP en) ip [block]"
    if "ipInCidrs (en_isIP en) ip (remoteAllowedCidrs (en_isIP en) cfg)" for ip
    using that unfolding ipInCidrs_iff [of _ _ "remoteAllowedCidrs (en_isIP en) cfg"]
    by (auto simp: remoteAllowedCidrs_def map_filter_def) blast
  have row: "\<exists>q vs. q \<in> set (xs_runs x) \<and> sr_id q = sr_id r
      \<and> argv_of (toRunPayloadRow q) = Some vs \<and> rx_argv c = map js_string vs" if "xc_mode cfg \<noteq> ModeMock"
    using that ok(2) q unfolding row_command_def by metis
  show ?thesis
    using ok(1,3) blocks row
    by (auto simp: command_ok_def egress_ok_def sandboxRemoteEgressAllowed_def list_all_iff split: if_splits)
qed

text \<open>A run that was claimed and waits for the working directory.\<close>

definition plain_env :: environment where
  "plain_env = \<lparr>en_isIP = \<lambda>s. 0, en_hostname = \<lambda>s. None, en_JSON_parse = \<lambda>s. None, en_iso_text = \<lambda>t. []\<rparr>"

definition claimed_state :: executor where
  "claimed_state = claim_step (en_isIP plain_env) (en_hostname plain_env) local_config 0 ''r1'' 5
     (pump local_config (enqueue local_config ''r1'' (executor_new one_run)))"

definition claimed_row :: sandbox_run where
  "claimed_row = queued_row\<lparr>sr_status := RsRunning, sr_started_at := Some 5, sr_updated_at := 5\<rparr>"

definition claimed_task :: task where
  "claimed_task = \<lparr>tk_from_queue = True, tk_phase = Preparing claimed_row (bare_context [''ls''] ''ls'' []),
     tk_beats = None, tk_canceled = False, tk_timedOut = False\<rparr>"

definition running_task :: task where
  "running_task = claimed_task\<lparr>tk_phase := Executing claimed_row (bare_context [''ls''] ''ls'' [])\<rparr>"

lemma local_mode: "xc_mode local_config = ModeLocalProcess" by code_simp

lemma claimed_reachable: "(exec_step plain_env local_config)\<^sup>*\<^sup>* (executor_new one_run) claimed_state"
proof -
  let ?x = "pump local_config (enqueue local_config ''r1'' (executor_new one_run))"
  let ?t = "claimed_task\<lparr>tk_phase := Claiming ''r1''\<rparr>"
  have "xs_pumping (enqueue local_config ''r1'' (executor_new one_run))" by code_simp
  then have "(exec_step plain_env local_config)\<^sup>*\<^sup>* (executor_new one_run) ?x"
    by (meson exec_step.enqueued exec_step.pumped rtranclp.rtrancl_into_rtrancl rtranclp.rtrancl_refl)
  moreover have "task_at ?x 0 ?t" "tk_phase ?t = Claiming ''r1''" by code_simp+
  ultimately show ?thesis
    unfolding claimed_state_def by (meson exec_step.claimed rtranclp.rtrancl_into_rtrancl)
qed

lemma claimed_task_at: "task_at claimed_state 0 claimed_task" by code_simp

lemma claimed_task_phase:
  "tk_phase claimed_task = Preparing claimed_row (bare_context [''ls''] ''ls'' [])" by code_simp

theorem only_allowed_commands_run_witness:
  "rx_file (bare_context [''ls''] ''ls'' []) \<in> set (xc_allowedCommands local_config)
   \<and> (\<exists>q vs. q \<in> set (xs_runs (activate 0 claimed_row (bare_context [''ls''] ''ls'' []) claimed_state))
        \<and> sr_id q = sr_id claimed_row \<and> argv_of (toRunPayloadRow q) = Some vs
        \<and> rx_argv (bare_context [''ls''] ''ls'' []) = map js_string vs)"
proof -
  let ?c = "bare_context [''ls''] ''ls'' []"
  let ?x = "activate 0 claimed_row ?c claimed_state"
  have r: "(exec_step plain_env local_config)\<^sup>*\<^sup>* (executor_new one_run) ?x"
    using claimed_reachable exec_step.spawned [OF claimed_task_at claimed_task_phase local_mode]
    by (rule rtranclp.rtrancl_into_rtrancl)
  have t: "task_at ?x 0 running_task" "tk_phase running_task = Executing claimed_row ?c" by code_simp+
  show ?thesis using only_allowed_commands_run [OF one_run_ok r t] local_mode by auto
qed

section \<open>Races\<close>

definition canceled_state :: executor where
  "canceled_state =
     (case cancelSandboxRun (Some ''sc'') (Some ''t'') ''r1'' None ''d'' ''d'' 6 (xs_db claimed_state) of
        Inr (s, db) \<Rightarrow> claimed_state\<lparr>xs_db := db\<rparr> | Inl e \<Rightarrow> claimed_state)"

definition clean_exit :: process_end where
  "clean_exit = \<lparr>pe_stdout = ''out'', pe_stderr = [], pe_truncated = False, pe_spawnErr = None,
     pe_exitCode = Some 0, pe_signal = None\<rparr>"

text \<open>From a state where the run waits: the process is spawned, exits, and the run is finalised.\<close>

definition finish_run :: "executor \<Rightarrow> executor" where
  "finish_run x =
     (let c = bare_context [''ls''] ''ls'' [];
          a = local_result claimed_row [''ls''] ''ls'' False False clean_exit
      in finalize_step 0 (running_task\<lparr>tk_phase := Finalizing ''r1'' a\<rparr>) ''r1'' a 9
           (closed_step 0 running_task claimed_row c clean_exit (activate 0 claimed_row c x)))"

lemma claimed_tasks: "xs_tasks claimed_state = [(0, claimed_task)]" by code_simp

lemma finish_run_steps:
  assumes "xs_tasks x = xs_tasks claimed_state"
  shows "exec_step plain_env local_config x (activate 0 claimed_row (bare_context [''ls''] ''ls'' []) x)"
    "(exec_step plain_env local_config)\<^sup>*\<^sup>* (activate 0 claimed_row (bare_context [''ls''] ''ls'' []) x) (finish_run x)"
proof -
  let ?c = "bare_context [''ls''] ''ls'' []"
  let ?x1 = "activate 0 claimed_row ?c x"
  let ?x2 = "closed_step 0 running_task claimed_row ?c clean_exit ?x1"
  let ?a = "local_result claimed_row [''ls''] ''ls'' False False clean_exit"
  let ?t = "running_task\<lparr>tk_phase := Finalizing ''r1'' ?a\<rparr>"
  note ts = claimed_tasks
  have t1: "xs_tasks ?x1 = [(0, running_task)]"
    by (simp add: activate_def set_phase_def set_task_def assms ts running_task_def)
  have ids: "sr_id claimed_row = ''r1''" "rx_argv ?c = [''ls'']" "rx_file ?c = ''ls''"
    "tk_canceled running_task = False" "tk_timedOut running_task = False" by code_simp+
  have t2: "xs_tasks ?x2 = [(0, ?t)]"
    by (simp add: closed_step_def deactivate_def set_phase_def set_task_def t1 ids)
  show "exec_step plain_env local_config x ?x1"
    by (rule exec_step.spawned [where t = claimed_task])
      (simp_all add: assms ts claimed_task_phase local_mode)
  have "exec_step plain_env local_config ?x1 ?x2"
    by (rule exec_step.closed [where t = running_task]) (simp_all add: t1 running_task_def local_mode)
  moreover have "exec_step plain_env local_config ?x2 (finalize_step 0 ?t ''r1'' ?a 9 ?x2)"
    by (rule exec_step.finalized [where t = "?t"]) (simp_all add: t2)
  ultimately show "(exec_step plain_env local_config)\<^sup>*\<^sup>* ?x1 (finish_run x)"
    unfolding finish_run_def Let_def by (meson converse_rtranclp_into_rtranclp r_into_rtranclp)
qed

text \<open>C36: A cancellation can be lost: when it arrives after the run was claimed, while its only task
  still prepares the process and none is out, it is recorded in the row and answered with the
  status running, but the executor finds nothing to cancel, the process is spawned all the same,
  and when it exits normally the run still ends as succeeded.\<close>

theorem cancel_before_spawn_is_lost:
  "\<exists>en cfg db x y z t r c. rows_ok (sd_runs db) \<and> (exec_step en cfg)\<^sup>*\<^sup>* (executor_new db) x
     \<and> xs_tasks x = [(0, t)] \<and> tk_phase t = Preparing r c \<and> xs_active x = [] \<and> map sr_id (xs_runs x) = [''r1'']
     \<and> cancelSandboxRun (Some ''sc'') (Some ''t'') ''r1'' None ''d'' ''d'' 6 (xs_db x) = Inr (RsRunning, xs_db y)
     \<and> exec_step en cfg x y
     \<and> requestCancel ''r1'' y = (False, y)
     \<and> exec_step en cfg y (activate 0 r c y) \<and> (exec_step en cfg)\<^sup>*\<^sup>* (activate 0 r c y) z
     \<and> map (\<lambda>r. (sr_cancel_requested r, sr_status r)) (xs_runs z) = [(True, RsSucceeded)]"
proof -
  have c: "cancelSandboxRun (Some ''sc'') (Some ''t'') ''r1'' None ''d'' ''d'' 6 (xs_db claimed_state)
      = Inr (RsRunning, xs_db canceled_state)"
    by code_simp
  have y: "canceled_state = claimed_state\<lparr>xs_db := xs_db canceled_state\<rparr>" by code_simp
  have step: "exec_step plain_env local_config claimed_state canceled_state"
    by (subst y) (rule exec_step.cancel [OF c])
  have miss: "requestCancel ''r1'' canceled_state = (False, canceled_state)"
    by (simp add: requestCancel_def) code_simp
  have "xs_tasks canceled_state = xs_tasks claimed_state" by (subst y) simp
  note finish = finish_run_steps [OF this]
  have pinned: "xs_active claimed_state = []" "map sr_id (xs_runs claimed_state) = [''r1'']" by code_simp+
  have rows: "map (\<lambda>r. (sr_cancel_requested r, sr_status r)) (xs_runs (finish_run canceled_state)) = [(True, RsSucceeded)]"
    by code_simp
  show ?thesis
    by (rule exI [of _ plain_env], rule exI [of _ local_config], rule exI [of _ one_run],
        rule exI [of _ claimed_state], rule exI [of _ canceled_state], rule exI [of _ "finish_run canceled_state"],
        rule exI [of _ claimed_task], rule exI [of _ claimed_row], rule exI [of _ "bare_context [''ls''] ''ls'' []"])
      (intro conjI one_run_ok claimed_reachable claimed_tasks claimed_task_phase pinned c step miss finish rows)
qed

definition recovered_state :: executor where
  "recovered_state = recover_row local_config 5000 (recover_list local_config 5000 claimed_state)"

lemma recovered_state_eq:
  "\<exists>q. sr_id q = ''r1'' \<and> sr_status q = RsTimeout \<and>
     recovered_state = claimed_state\<lparr>xs_recovery := Some [],
       xs_db := \<lparr>sd_sessions = [], sd_runs = [q], sd_telemetry = recordSandboxRunTelemetryRow (toRunPayloadRow q) 5000 []\<rparr>\<rparr>"
proof -
  let ?r = "toRunPayloadRow claimed_row"
  let ?a = "stale_result local_config ?r"
  let ?q = "set_final ?a 5000 claimed_row"
  have db: "xs_db claimed_state = \<lparr>sd_sessions = [], sd_runs = [claimed_row], sd_telemetry = []\<rparr>"
    "recover_list local_config 5000 claimed_state = claimed_state\<lparr>xs_recovery := Some [?r]\<rparr>"
    "xs_active claimed_state = []" by code_simp+
  have r: "sr_id claimed_row = ''r1''" "sr_status claimed_row = RsRunning" "sr_id ?r = ''r1''" by code_simp+
  have a: "fa_status ?a = RsTimeout" by (simp add: stale_result_def)
  have q: "sr_id ?q = ''r1''" "sr_status ?q = RsTimeout" using r a by (simp_all add: set_final_def)
  have "finalizeIfRunning ''r1'' ?a 5000 (xs_db claimed_state)
      = \<lparr>sd_sessions = [], sd_runs = [?q], sd_telemetry = recordSandboxRunTelemetryRow (toRunPayloadRow ?q) 5000 []\<rparr>"
    by (simp add: db(1) finalizeIfRunning_def store_finalizeRunningRun_def finalizeSandboxRun_def sql_update_def
        getRunById_def r q)
  then have "recovered_state = claimed_state\<lparr>xs_recovery := Some [],
       xs_db := \<lparr>sd_sessions = [], sd_runs = [?q], sd_telemetry = recordSandboxRunTelemetryRow (toRunPayloadRow ?q) 5000 []\<rparr>\<rparr>"
    by (simp add: recovered_state_def recover_row_def db(2,3) map_has_def r)
  note res = this
  show ?thesis by (rule exI [of _ ?q]) (intro conjI q res)
qed

lemma finish_run_db:
  "xs_db (finish_run x) = finalize ''r1'' (local_result claimed_row [''ls''] ''ls'' False False clean_exit) 9 (xs_db x)"
  by (simp add: finish_run_def Let_def finalize_step_def closed_step_def deactivate_def activate_def set_phase_def)

text \<open>C40: A finished run can be finished again: a running run has one task, which still prepares its
  process; the recovery of stale runs lists the run and ends it with a timeout, telemetry
  included, without touching the task; the process is spawned all the same, and when it exits the
  row goes from timeout to succeeded.\<close>

theorem recovered_run_ends_twice:
  "\<exists>en cfg db x0 x y t r c now. rows_ok (sd_runs db) \<and> (exec_step en cfg)\<^sup>*\<^sup>* (executor_new db) x0
     \<and> xs_tasks x0 = [(0, t)] \<and> tk_phase t = Preparing r c \<and> map sr_status (xs_runs x0) = [RsRunning]
     \<and> x = recover_row cfg now (recover_list cfg now x0) \<and> (exec_step en cfg)\<^sup>*\<^sup>* x0 x
     \<and> xs_tasks x = [(0, t)] \<and> map sr_status (xs_runs x) = [RsTimeout]
     \<and> map st_status (sd_telemetry (xs_db x)) = [RsTimeout]
     \<and> exec_step en cfg x (activate 0 r c x) \<and> (exec_step en cfg)\<^sup>*\<^sup>* (activate 0 r c x) y
     \<and> map sr_status (xs_runs y) = [RsSucceeded]
     \<and> map st_status (sd_telemetry (xs_db y)) = [RsTimeout]"
proof -
  obtain q where q: "sr_id q = ''r1''" "sr_status q = RsTimeout"
    "recovered_state = claimed_state\<lparr>xs_recovery := Some [],
       xs_db := \<lparr>sd_sessions = [], sd_runs = [q], sd_telemetry = recordSandboxRunTelemetryRow (toRunPayloadRow q) 5000 []\<rparr>\<rparr>"
    using recovered_state_eq by (elim exE conjE) (rule that; assumption)
  let ?f = "local_result claimed_row [''ls''] ''ls'' False False clean_exit"
  have f: "fa_status ?f = RsSucceeded" by code_simp
  have recovers: "(exec_step plain_env local_config)\<^sup>*\<^sup>* claimed_state recovered_state"
    unfolding recovered_state_def
    by (meson exec_step.recovering exec_step.recovered rtranclp.rtrancl_into_rtrancl rtranclp.rtrancl_refl)
  have tasks: "xs_tasks recovered_state = xs_tasks claimed_state" by (simp add: q(3))
  note finish = finish_run_steps [OF tasks]
  have s0: "map sr_status (xs_runs claimed_state) = [RsRunning]" by code_simp
  have s1: "map sr_status (xs_runs recovered_state) = [RsTimeout]" by (simp add: q)
  have s2: "map sr_status (xs_runs (finish_run recovered_state)) = [RsSucceeded]"
    unfolding finish_run_db
    by (simp add: q finalize_def store_finalizeRun_def finalizeSandboxRun_def sql_update_def set_final_def f)
  have s3: "map st_status (sd_telemetry (xs_db recovered_state)) = [RsTimeout]"
    "map st_status (sd_telemetry (xs_db (finish_run recovered_state))) = [RsTimeout]"
    unfolding finish_run_db
    by (simp_all add: q finalize_def store_finalizeRun_def finalizeSandboxRun_def sql_update_def set_final_def f
        getRunById_def recordSandboxRunTelemetryRow_def insertSandboxTelemetry_def toRunPayloadRow_def
        TERMINAL_SANDBOX_STATUSES_def Let_def)
  show ?thesis
    by (rule exI [of _ plain_env], rule exI [of _ local_config], rule exI [of _ one_run],
        rule exI [of _ claimed_state], rule exI [of _ recovered_state], rule exI [of _ "finish_run recovered_state"],
        rule exI [of _ claimed_task], rule exI [of _ claimed_row], rule exI [of _ "bare_context [''ls''] ''ls'' []"],
        rule exI [of _ 5000])
      (intro conjI one_run_ok claimed_reachable claimed_tasks claimed_task_phase s0 recovered_state_def recovers
        tasks [unfolded claimed_tasks] finish s1 s2 s3)
qed

section \<open>The table\<close>

text \<open>C19: Runs of the table keep who they belong to and what they run, and a step of the executor
  from a reachable state moves the status of a run only from queued to running or canceled and
  from running to an end, and appends new runs, unless the step is the unconditional finalisation
  of a task.\<close>

theorem statuses_move_forward:
  assumes "rows_ok (sd_runs db)" "(exec_step en cfg)\<^sup>*\<^sup>* (executor_new db) x" "exec_step en cfg x y"
  shows "(\<exists>n t i a now. task_at x n t \<and> tk_phase t = Finalizing i a \<and> y = finalize_step n t i a now x)
    \<or> moves (xs_runs x) (xs_runs y)"
proof -
  have "exec_inv en cfg x"
    using sandbox.run_inv [OF assms(2)] exec_inv_new [OF assms(1)] by blast
  then show ?thesis by (rule exec_step_moves [OF assms(3)])
qed

theorem statuses_move_forward_witness:
  "moves (xs_runs claimed_state) (xs_runs (activate 0 claimed_row (bare_context [''ls''] ''ls'' []) claimed_state))"
proof -
  have step: "exec_step plain_env local_config claimed_state
      (activate 0 claimed_row (bare_context [''ls''] ''ls'' []) claimed_state)"
    by (rule exec_step.spawned [OF claimed_task_at claimed_task_phase local_mode])
  have none: "\<not> task_at claimed_state n t \<or> tk_phase t \<noteq> Finalizing i a" for n t i a
  proof -
    show ?thesis by (auto simp: claimed_tasks claimed_task_phase)
  qed
  show ?thesis using statuses_move_forward [OF one_run_ok claimed_reachable step] none by blast
qed

text \<open>C27: A run is shown to nobody but its tenant and scope, and nobody else can cancel it: a
  request for the run, for its logs or for its artifact, or to cancel it, that names another tenant
  or scope is answered with the error for a run that does not exist, whatever the table holds.\<close>

theorem runs_are_tenant_private:
  assumes "resolveTenantScope scope tenantId ds dt = Inr tenancy"
    "\<forall>r \<in> set (sd_runs db). sr_id r = i \<longrightarrow>
       (sr_tenant_id r, sr_scope r) \<noteq> (ts_tenant_id tenancy, ts_scope tenancy)"
  shows "getSandboxRun scope tenantId i ds dt db
      = Inl (run_not_found i (ts_tenant_id tenancy) (ts_scope tenancy))
    \<and> getSandboxRunLogs scope tenantId i tail ds dt db
      = Inl (run_not_found i (ts_tenant_id tenancy) (ts_scope tenancy))
    \<and> getSandboxRunArtifact (q\<lparr>aq_scope := scope, aq_tenant_id := tenantId, aq_run_id := i\<rparr>) ds dt db
      = Inl (run_not_found i (ts_tenant_id tenancy) (ts_scope tenancy))
    \<and> cancelSandboxRun scope tenantId i reason ds dt now db
      = Inl (run_not_found i (ts_tenant_id tenancy) (ts_scope tenancy))"
proof -
  let ?own = "\<lambda>r. sr_id r = i \<and> sr_tenant_id r = ts_tenant_id tenancy \<and> sr_scope r = ts_scope tenancy"
  have none: "\<forall>r \<in> set (sd_runs db). \<not> ?own r" using assms(2) by auto
  then have "map (\<lambda>r. if ?own r then f r else r) (sd_runs db) = sd_runs db" for f
    by (intro map_idI) auto
  then have keep: "fst (sql_update ?own f (sd_runs db)) = sd_runs db" for f by (simp add: sql_update_def)
  have find: "getRunByIdTenantScope i (ts_tenant_id tenancy) (ts_scope tenancy) (sd_runs db) = None"
    using none unfolding getRunByIdTenantScope_def by (simp add: find_None_iff)
  show ?thesis
    by (simp add: getSandboxRun_def getSandboxRunLogs_def getSandboxRunArtifact_def cancelSandboxRun_def assms(1)
        store_getRun_def store_getRunLogs_def store_requestCancel_def keep find Let_def)
qed

theorem runs_are_tenant_private_witness:
  "getSandboxRun (Some ''sc'') (Some ''other'') ''r1'' ''d'' ''d'' one_run = Inl (run_not_found ''r1'' ''other'' ''sc'')
   \<and> getSandboxRunLogs (Some ''sc'') (Some ''other'') ''r1'' 100 ''d'' ''d'' one_run
     = Inl (run_not_found ''r1'' ''other'' ''sc'')"
proof -
  have t: "resolveTenantScope (Some ''sc'') (Some ''other'') ''d'' ''d''
      = Inr \<lparr>ts_tenant_id = ''other'', ts_scope = ''sc'', ts_scope_key = toTenantScopeKey ''sc'' ''other'' ''d''\<rparr>"
    by code_simp
  show ?thesis
    using runs_are_tenant_private [OF t, of one_run "''r1''" 100] by (simp add: one_run_def queued_row_def)
qed

section \<open>How runs end\<close>

text \<open>C28: The captured output of a stream is the text the process wrote on it, cut after
  \<open>stdioMaxBytes\<close> bytes, however the two streams interleave and wherever between characters they are
  cut into chunks, none of them empty: the characters that fit, and one U+FFFD when the limit falls inside a character;
  the flag the streams share is set exactly when one of them had more bytes.  And for any bytes in
  any chunks, a captured stream is at most three times as long as the limit.\<close>

theorem captured_output_exact:
  "((\<forall>e \<in> set es. snd e \<noteq> [] \<and> list_all scalar_value (snd e)) \<longrightarrow>
     (let c = foldl (on_data n) no_output (map (apsnd utf8_of) es);
          out = concat (stream_of Stdout es); err = concat (stream_of Stderr es)
      in cut_after n out (cd_stdout c) \<and> cut_after n err (cd_stderr c)
        \<and> (cd_truncated c \<longleftrightarrow> n < length (utf8_of out) \<or> n < length (utf8_of err))))
   \<and> length (cd_stdout (foldl (on_data n) no_output chunks)) \<le> 3 * n
   \<and> length (cd_stderr (foldl (on_data n) no_output chunks)) \<le> 3 * n"
  using captured_texts captured_bound by blast

theorem captured_output_exact_witness:
  "cut_after 3 [97, 98, 233, 99] (cd_stdout (foldl (on_data 3) no_output
     [(Stdout, utf8_of [97, 98]), (Stderr, utf8_of [101]), (Stdout, utf8_of [233, 99])]))
   \<and> cd_truncated (foldl (on_data 3) no_output
     [(Stdout, utf8_of [97, 98]), (Stderr, utf8_of [101]), (Stdout, utf8_of [233, 99])])"
proof -
  let ?es = "[(Stdout, [97, 98 :: nat]), (Stderr, [101]), (Stdout, [233, 99])]"
  have "length (utf8_of [97, 98, 233, 99]) = 5" by (simp add: utf8_of_def utf8_char_def)
  then show ?thesis
    using captured_output_exact [of ?es 3] by (simp add: Let_def stream_of_def scalar_value_def)
qed

text \<open>A remote executor that answers 2xx with an empty or unreadable body has succeeded: the
  missing exit code converts to 0.  Every other answer counts as a success only if it says so, by
  its status or its exit code.\<close>

theorem remote_success_needs_nothing:
  assumes "200 \<le> http" "http < 300"
  shows "answer_status http (remote_body JSON_parse []) = (RsSucceeded, None)"
proof -
  have "body_member JNull k = Some JNull" for k by (simp add: body_member_def is_object_def)
  then show ?thesis
    using assms
    by (simp add: answer_status_def remote_body_def asFiniteIntOrNull_def normalizeSandboxStatus_def
        trimOrNull_def TERMINAL_SANDBOX_STATUSES_def js_Number_def)
qed

theorem remote_success_needs_nothing_witness:
  "answer_status 204 (remote_body (\<lambda>s. None) []) = (RsSucceeded, None)"
  by (rule remote_success_needs_nothing) simp_all

section \<open>Where the remote executor connects\<close>

text \<open>C29: Membership in an address block is agreement on its prefix: an address is in a block exactly
  when both are of one family and their first \<open>prefix\<close> bits are the same.\<close>

theorem cidr_block_exact:
  assumes "parseCidrRule isIP rule = Some c" "ipToBigInt isIP ip = Some (family, v)"
  shows "\<exists>slash base. ipToBigInt isIP (js_trim (take slash (js_trim rule))) = Some (pc_family c, base)
    \<and> pc_prefix c \<le> family_bits (pc_family c)
    \<and> (ipInCidrs isIP ip [c] \<longleftrightarrow>
        family = pc_family c
        \<and> drop_bit (family_bits family - pc_prefix c) v = drop_bit (family_bits family - pc_prefix c) base)"
proof -
  obtain slash base where c:
    "ipToBigInt isIP (js_trim (take slash (js_trim rule))) = Some (pc_family c, base)"
    "pc_prefix c \<le> family_bits (pc_family c)"
    "pc_mask c = cidr_bits_mask (family_bits (pc_family c)) (pc_prefix c)"
    "pc_network c = base AND pc_mask c"
    using parseCidrRule_base [OF assms(1)] by metis
  have "ipInCidrs isIP ip [c] \<longleftrightarrow> pc_family c = family \<and> v AND pc_mask c = pc_network c"
    by (simp add: ipInCidrs_def assms(2))
  also have "\<dots> \<longleftrightarrow> family = pc_family c
      \<and> drop_bit (family_bits family - pc_prefix c) v = drop_bit (family_bits family - pc_prefix c) base"
    using masked_eq_iff [OF _ ipToBigInt_bound(1) [OF c(1)] c(2)] ipToBigInt_bound(1) [OF assms(2)]
    unfolding c(3,4) by blast
  finally show ?thesis using c(1,2) by blast
qed

definition four_is_ip :: "string \<Rightarrow> nat" where
  "four_is_ip s = (if CHR ''.'' \<in> set s then 4 else if CHR '':'' \<in> set s then 6 else 0)"

theorem cidr_block_exact_witness:
  "\<exists>c slash base. parseCidrRule four_is_ip ''10.1.0.0/16'' = Some c
     \<and> ipToBigInt four_is_ip (js_trim (take slash (js_trim ''10.1.0.0/16''))) = Some (pc_family c, base)"
proof -
  have parts: "js_trim ''10.1.0.0/16'' = ''10.1.0.0/16''" "lastIndexOf ''/'' ''10.1.0.0/16'' = Some 8"
    "js_trim (drop (8 + 1) ''10.1.0.0/16'') = ''16''" "''16'' \<noteq> []" "list_all is_digit ''16''"
    "nat_of_digits 0 ''16'' = 16"
    by code_simp+
  have "four_is_ip (js_trim s) = 4 \<Longrightarrow> normalizeIpv4 (js_trim s) = Some n
      \<Longrightarrow> ipToBigInt four_is_ip s = Some (4, join_bits 8 (dotted_numbers n))" for s n
    by (simp add: ipToBigInt_def)
  note ip = this
  have base: "ipToBigInt four_is_ip (js_trim (take 8 ''10.1.0.0/16'')) = Some (4, join_bits 8 (dotted_numbers ''10.1.0.0''))"
    by (rule ip) code_simp+
  have v: "ipToBigInt four_is_ip ''10.1.2.3'' = Some (4, join_bits 8 (dotted_numbers ''10.1.2.3''))"
    by (rule ip) code_simp+
  have "js_number ''16'' = Fin 16"
    using js_number_digits [OF parts(4,5)] to_num_int [of 16] unfolding parts(6) by simp
  then obtain c where c: "parseCidrRule four_is_ip ''10.1.0.0/16'' = Some c"
    unfolding parseCidrRule_def parts Let_def option.case prod.case jsnum.case base
    by (simp add: family_bits_def)
  with cidr_block_exact [OF c v] c show ?thesis by blast
qed

text \<open>A host rule that starts with a wildcard stands for whole labels: \<open>*.d\<close> allows \<open>d\<close> and the
  names that have further labels in front of those of \<open>d\<close>, and no other name.\<close>

theorem wildcard_is_by_labels:
  assumes "d \<noteq> []" "js_lower (js_trim r) = ''*.'' @ d"
  shows "host_rule_allows host r \<longleftrightarrow>
    host = d \<or> (\<exists>ls. ls \<noteq> [] \<and> js_split (CHR ''.'') host = ls @ js_split (CHR ''.'') d)"
proof -
  have "js_starts_with (js_lower (js_trim r)) ''*.''" "drop 2 (js_lower (js_trim r)) = d"
    unfolding assms(2) by (auto simp: js_starts_with_prefix)
  then have "host_rule_allows host r \<longleftrightarrow> host = d \<or> js_ends_with host (CHR ''.'' # d)"
    using assms by (simp add: host_rule_allows_def Let_def)
  then show ?thesis unfolding js_ends_with_iff subdomain_labels .
qed

theorem wildcard_is_by_labels_witness:
  "host_rule_allows ''a.example.com'' ''*.Example.com '' \<and> \<not> host_rule_allows ''badexample.com'' ''*.example.com''"
proof -
  have r: "js_lower (js_trim ''*.Example.com '') = ''*.'' @ ''example.com''"
    "js_lower (js_trim ''*.example.com'') = ''*.'' @ ''example.com''" by code_simp+
  have s: "js_split (CHR ''.'') ''a.example.com'' = [''a''] @ js_split (CHR ''.'') ''example.com''"
    "js_split (CHR ''.'') ''badexample.com'' = [''badexample'', ''com'']"
    "js_split (CHR ''.'') ''example.com'' = [''example'', ''com'']" by code_simp+
  show ?thesis
    using wildcard_is_by_labels [OF _ r(1), of "''a.example.com''"] s(1)
      wildcard_is_by_labels [OF _ r(2), of "''badexample.com''"]
    by (auto simp: s(2,3) Cons_eq_append_conv)
qed

text \<open>The check for private addresses never refuses anything: every address has passed the check
  of the allowed blocks before, and an address in an allowed block is not counted as private, so
  the outcome is the same with the option on and off.\<close>

theorem private_check_is_dead:
  "remote_egress isIP (cfg\<lparr>xc_remote_denyPrivateIps := b\<rparr>) host resolved = remote_egress isIP cfg host resolved"
proof -
  have "remoteAllowedCidrs isIP (cfg\<lparr>xc_remote_denyPrivateIps := b\<rparr>) = remoteAllowedCidrs isIP cfg"
    by (simp add: remoteAllowedCidrs_def)
  note same = this
  show ?thesis
  proof (cases "\<exists>ips. remote_egress isIP cfg host resolved = Inr ips")
    case True
    then obtain ips where ips: "remote_egress isIP cfg host resolved = Inr ips" by blast
    then have "remote_egress isIP (cfg\<lparr>xc_remote_denyPrivateIps := b\<rparr>) host resolved = Inr ips"
      unfolding remote_egress_Inr same .
    with ips show ?thesis by simp
  next
    case False
    then have "\<not> sandboxRemoteEgressAllowed isIP (filter (\<lambda>a. isIP a \<noteq> 0) (map js_trim as)) (remoteAllowedCidrs isIP cfg)"
      if "resolved = Some as" for as
      using that unfolding remote_egress_Inr by blast
    then show ?thesis
      unfolding remote_egress_def same Let_def by (cases resolved) (simp_all del: filter_map)
  qed
qed

end
