(* ===== verification/AutomationBinding.thy ===== *)
theory AutomationBinding
  imports AutomationGraph
begin

text \<open>
  Bindings of src/memory/automation-lite.ts: the values of \<open>$params\<close> and \<open>$nodes\<close> references,
  and the condition of a condition node.  \<open>None\<close> is \<^verbatim>\<open>undefined\<close>.  An object or array of
  the model has no undefined members: a member that resolves to undefined is \<open>JNull\<close> here.  The
  last section shows that no reference resolves to undefined when all the nodes it names have an
  output, which holds whenever a run resolves one.
\<close>

section \<open>Values of references\<close>

fun getPathValue :: "jv option \<Rightarrow> string list \<Rightarrow> jv option" where
  "getPathValue cur [] = cur"
| "getPathValue cur (part # path) =
     (if part = [] then getPathValue cur path
      else case cur of
        None \<Rightarrow> Some JNull
      | Some (JArr vs) \<Rightarrow>
          (case js_number part of
             Fin q \<Rightarrow>
               if q \<noteq> of_int \<lfloor>q\<rfloor> \<or> q < 0 \<or> of_nat (length vs) \<le> q then Some JNull
               else getPathValue (Some (vs ! nat \<lfloor>q\<rfloor>)) path
           | _ \<Rightarrow> Some JNull)
      | Some v \<Rightarrow>
          if \<not> is_plain_object v \<or> js_prop v part = None then Some JNull
          else getPathValue (js_prop v part) path)"

record binding_context =
  bc_params :: jobj
  bc_nodeOutputs :: "(string, jv) js_map"

definition resolve_string :: "binding_context \<Rightarrow> string \<Rightarrow> jv option" where
  "resolve_string ctx s =
     (if js_starts_with s ''$params.'' then
        getPathValue (Some (JObj (bc_params ctx))) (js_split (CHR ''.'') (drop 8 s))
      else if js_starts_with s ''$nodes.'' then
        (let parts = js_split (CHR ''.'') (drop 7 s); nodeId = js_trim (hd parts)
         in if nodeId = [] then Some JNull
            else getPathValue (map_get (bc_nodeOutputs ctx) nodeId) (tl parts))
      else Some (JStr s))"

definition or_null :: "jv option \<Rightarrow> jv" where
  "or_null v = (case v of Some w \<Rightarrow> w | None \<Rightarrow> JNull)"

definition obj_of_entries :: "(string \<times> jv) list \<Rightarrow> jobj" where
  "obj_of_entries es = foldl (\<lambda>out e. obj_assign (fst e) (snd e) out) [] es"

fun resolveBindingValue :: "binding_context \<Rightarrow> jv \<Rightarrow> jv option" where
  "resolveBindingValue ctx (JStr s) = resolve_string ctx s"
| "resolveBindingValue ctx (JArr vs) = Some (JArr (map (\<lambda>v. or_null (resolveBindingValue ctx v)) vs))"
| "resolveBindingValue ctx (JObj ob) =
     Some (JObj (obj_of_entries (map (\<lambda>e. (fst e, or_null (resolveBindingValue ctx (snd e)))) ob)))"
| "resolveBindingValue ctx (JHost k) = (if k = ''__proto__'' then Some (JObj []) else Some (JHost k))"
| "resolveBindingValue ctx v = Some v"

section \<open>Conditions\<close>

text \<open>
  \<^verbatim>\<open>a === b\<close>.  Two objects or arrays are equal when they are one object; \<open>same\<close> says whether
  two of equal content are.
\<close>

definition strict_equal :: "(jv \<Rightarrow> jv \<Rightarrow> bool) \<Rightarrow> jv \<Rightarrow> jv \<Rightarrow> bool" where
  "strict_equal same a b =
     (a = b \<and> (case a of JNum x \<Rightarrow> x \<noteq> NaN | JArr _ \<Rightarrow> same a b | JObj _ \<Rightarrow> same a b | JHost _ \<Rightarrow> same a b | _ \<Rightarrow> True))"

definition condition_object :: "binding_context \<Rightarrow> jv option \<Rightarrow> jv option" where
  "condition_object ctx expr =
     (case expr of
        None \<Rightarrow> None
      | Some e \<Rightarrow>
          (case resolveBindingValue ctx e of
             Some v \<Rightarrow> if is_plain_object v then Some v else None
           | None \<Rightarrow> None))"

definition evaluateConditionExpression ::
  "(jv \<Rightarrow> jv \<Rightarrow> bool) \<Rightarrow> binding_context \<Rightarrow> jv option \<Rightarrow> bool" where
  "evaluateConditionExpression same ctx expr =
     (case expr of
        Some (JBool b) \<Rightarrow> b
      | _ \<Rightarrow>
        (case condition_object ctx expr of
           None \<Rightarrow> js_truthy expr
         | Some ob \<Rightarrow>
             (let left = or_null (or_nullish (js_prop ob ''left'') (Some JNull))
              in if js_prop ob ''equals'' \<noteq> None then
                   strict_equal same left (or_null (js_prop ob ''equals''))
                 else if js_prop ob ''not_equals'' \<noteq> None then
                   \<not> strict_equal same left (or_null (js_prop ob ''not_equals''))
                 else case js_prop ob ''exists'' of
                   Some v \<Rightarrow> \<not> nullish (resolveBindingValue ctx v)
                 | None \<Rightarrow> js_truthy (or_nullish (or_nullish (js_prop ob ''value'') (js_prop ob ''result''))
                                       (Some (JBool False))))))"

section \<open>References that have an output resolve\<close>

lemma getPathValue_defined: "\<exists>w. getPathValue (Some v) path = Some w"
proof (induction path arbitrary: v)
  case (Cons part path)
  show ?case
    by (cases v; cases "js_number part"; cases "js_prop v part") (simp_all add: Cons.IH)
qed simp

fun ref_set :: "jv \<Rightarrow> string set" where
  "ref_set (JStr s) = set_option (string_ref s)"
| "ref_set (JArr vs) = (\<Union>v \<in> set vs. ref_set v)"
| "ref_set (JObj ob) = (\<Union>e \<in> set ob. ref_set (snd e))"
| "ref_set v = {}"

lemma set_fold_union:
  assumes "\<And>x acc. x \<in> set xs \<Longrightarrow> set (f x acc) = set acc \<union> R x"
  shows "set (fold f xs acc) = set acc \<union> (\<Union>x \<in> set xs. R x)"
  using assms
proof (induction xs arbitrary: acc)
  case (Cons x xs)
  have "set (fold f xs (f x acc)) = set (f x acc) \<union> (\<Union>x \<in> set xs. R x)"
    by (rule Cons.IH) (rule Cons.prems, simp)
  then show ?case using Cons.prems [of x acc] by auto
qed simp

lemma set_collect: "set (collectBindingRefs v refs) = set refs \<union> ref_set v"
proof (induction v refs rule: collectBindingRefs.induct)
  case (2 vs refs)
  show ?case unfolding collectBindingRefs.simps ref_set.simps by (rule set_fold_union) (rule 2)
next
  case (3 ob refs)
  show ?case unfolding collectBindingRefs.simps ref_set.simps by (rule set_fold_union) (rule 3)
qed (auto simp: set_add_def split: option.splits)

lemma input_refs: "ref_set (JObj (case an_inputs n of Some ob \<Rightarrow> ob | None \<Rightarrow> [])) \<subseteq> set (node_refs n)"
proof (cases "an_inputs n")
  case (Some ob)
  have "set (node_refs n) = ref_set (JObj ob) \<union> set (node_refs (n\<lparr>an_inputs := None\<rparr>))"
    unfolding node_refs_def Let_def
    by (cases "an_spec n")
      (auto simp: Some set_collect simp del: collectBindingRefs.simps ref_set.simps(1,2,3) split: option.splits)
  then show ?thesis using Some by auto
qed simp

text \<open>No reference in the value is undefined.\<close>

fun resolves :: "binding_context \<Rightarrow> jv \<Rightarrow> bool" where
  "resolves ctx (JStr s) \<longleftrightarrow> resolve_string ctx s \<noteq> None"
| "resolves ctx (JArr vs) \<longleftrightarrow> list_all (resolves ctx) vs"
| "resolves ctx (JObj ob) \<longleftrightarrow> list_all (\<lambda>e. resolves ctx (snd e)) ob"
| "resolves ctx v \<longleftrightarrow> True"

lemma resolve_string_defined:
  "set_option (string_ref s) \<subseteq> fst ` set (bc_nodeOutputs ctx) \<Longrightarrow> resolve_string ctx s \<noteq> None"
proof -
  assume refs: "set_option (string_ref s) \<subseteq> fst ` set (bc_nodeOutputs ctx)"
  let ?parts = "js_split (CHR ''.'') (drop 7 s)"
  let ?id = "js_trim (hd ?parts)"
  have "\<exists>w. getPathValue (map_get (bc_nodeOutputs ctx) ?id) (tl ?parts) = Some w"
    if "js_starts_with s ''$nodes.''" "?id \<noteq> []"
  proof -
    have "?id \<in> fst ` set (bc_nodeOutputs ctx)" using refs that by (simp add: string_ref_def Let_def)
    then obtain w where "map_get (bc_nodeOutputs ctx) ?id = Some w"
      using map_has_keys [of "bc_nodeOutputs ctx" ?id] by (auto simp: map_get_def map_has_def)
    then show ?thesis using getPathValue_defined [of w "tl ?parts"] by simp
  qed
  moreover have "\<exists>w. getPathValue (Some (JObj (bc_params ctx))) (js_split (CHR ''.'') (drop 8 s)) = Some w"
    by (rule getPathValue_defined)
  ultimately show ?thesis by (auto simp: resolve_string_def Let_def)
qed

lemma refs_resolve: "ref_set v \<subseteq> fst ` set (bc_nodeOutputs ctx) \<Longrightarrow> resolves ctx v"
proof (induction ctx v rule: resolves.induct)
  case (1 ctx s)
  then show ?case using resolve_string_defined by simp
qed (fastforce simp: list_all_iff)+

lemma resolves_defined: "resolves ctx v \<Longrightarrow> resolveBindingValue ctx v \<noteq> None"
  by (cases v) auto

text \<open>A condition given as the text of a reference holds, whatever the reference resolves to.\<close>

lemma string_condition_true:
  "s \<noteq> [] \<Longrightarrow> condition_object ctx (Some (JStr s)) = None
     \<Longrightarrow> evaluateConditionExpression same ctx (Some (JStr s))"
  by (simp add: evaluateConditionExpression_def)

end
