(* ===== verification/AutomationStore.thy ===== *)
theory AutomationStore
  imports AutomationBinding
begin

text \<open>
  The tables of src/store/lite-automation-store.ts and src/store/lite-automation-run-store.ts.
  A table is a map from its primary key to its rows; inserting a key that is taken is the error
  of the store.  JSON columns hold the values themselves.  Times are the texts of
  \<^verbatim>\<open>toISOString\<close>, given by the caller.
\<close>

section \<open>Rows\<close>

datatype def_status = DefDraft | DefShadow | DefActive | DefDisabled

record definition_row =
  df_tenant_id :: string
  df_scope :: string
  df_automation_id :: string
  df_name :: string
  df_status :: def_status
  df_latest_version :: nat
  df_input_contract :: jv
  df_output_contract :: jv
  df_metadata :: jv
  df_created_at :: string
  df_updated_at :: string

record version_row =
  vr_version :: nat
  vr_status :: def_status
  vr_graph :: automation_graph
  vr_compile_summary :: jv
  vr_metadata :: jv
  vr_created_at :: string

record definition_view =
  dv_definition :: definition_row
  dv_version :: version_row

datatype execution_mode = ModeDefault | ModeShadow
datatype run_lifecycle = RunQueued | RunRunning | RunPaused | RunTerminal
datatype run_pause = RunApprovalRequired | RunRepairRequired | RunDependencyWait | RunOperatorPause
datatype run_outcome = RunSucceeded | RunFailed | RunCancelled
datatype node_lifecycle = NodePending | NodeReady | NodeRunning | NodePaused | NodeTerminal
datatype node_pause = NodeApprovalRequired | NodeRepairRequired
datatype node_outcome = NodeSucceeded | NodeFailed | NodeRejected | NodeSkipped

record automation_run =
  ar_run_id :: string
  ar_tenant_id :: string
  ar_scope :: string
  ar_automation_id :: string
  ar_automation_version :: nat
  ar_requested_by :: "string option"
  ar_execution_mode :: execution_mode
  ar_lifecycle_state :: run_lifecycle
  ar_pause_reason :: "run_pause option"
  ar_terminal_outcome :: "run_outcome option"
  ar_status_summary :: string
  ar_root_cause_code :: "string option"
  ar_root_cause_node_id :: "string option"
  ar_root_cause_message :: "string option"
  ar_params_json :: jobj
  ar_summary_json :: jv
  ar_started_at :: "string option"
  ar_paused_at :: "string option"
  ar_ended_at :: "string option"
  ar_created_at :: string
  ar_updated_at :: string

record run_node =
  rn_run_id :: string
  rn_node_id :: string
  rn_node_kind :: string
  rn_lifecycle_state :: node_lifecycle
  rn_pause_reason :: "node_pause option"
  rn_terminal_outcome :: "node_outcome option"
  rn_status_summary :: string
  rn_depends_on :: "string list"
  rn_error_code :: "string option"
  rn_error_message :: "string option"
  rn_playbook_id :: "string option"
  rn_playbook_version :: "nat option"
  rn_playbook_run_id :: "string option"
  rn_approval_key :: "string option"
  rn_input_snapshot_json :: jv
  rn_output_snapshot_json :: jv
  rn_started_at :: "string option"
  rn_paused_at :: "string option"
  rn_ended_at :: "string option"
  rn_created_at :: string
  rn_updated_at :: string

record run_view =
  rv_run :: automation_run
  rv_nodes :: "run_node list"

type_synonym def_key = "string \<times> string \<times> string"

record automation_db =
  db_definitions :: "(def_key, definition_row) js_map"
  db_versions :: "(def_key \<times> nat, version_row) js_map"
  db_runs :: "(string, automation_run) js_map"
  db_run_nodes :: "(string \<times> string, run_node) js_map"

definition empty_db :: automation_db where
  "empty_db = \<lparr>db_definitions = [], db_versions = [], db_runs = [], db_run_nodes = []\<rparr>"

section \<open>Definitions and their versions\<close>

definition getDefinition :: "def_key \<Rightarrow> nat option \<Rightarrow> automation_db \<Rightarrow> definition_view option" where
  "getDefinition k version db =
     (case map_get (db_definitions db) k of
        None \<Rightarrow> None
      | Some d \<Rightarrow>
          (case map_get (db_versions db) (k, (case version of Some v \<Rightarrow> v | None \<Rightarrow> df_latest_version d)) of
             None \<Rightarrow> None
           | Some r \<Rightarrow> Some \<lparr>dv_definition = d, dv_version = r\<rparr>))"

record create_definition =
  cd_name :: string
  cd_status :: def_status
  cd_graph :: automation_graph
  cd_inputContract :: jv
  cd_outputContract :: jv
  cd_metadata :: jv
  cd_compileSummary :: jv

text \<open>The upsert of the definition keeps the time of its creation.\<close>

definition upsert_definition :: "def_key \<Rightarrow> create_definition \<Rightarrow> nat \<Rightarrow> string \<Rightarrow> automation_db \<Rightarrow> definition_row" where
  "upsert_definition k args version now db =
     \<lparr>df_tenant_id = fst k, df_scope = fst (snd k), df_automation_id = snd (snd k), df_name = cd_name args,
      df_status = cd_status args, df_latest_version = version, df_input_contract = cd_inputContract args,
      df_output_contract = cd_outputContract args, df_metadata = cd_metadata args,
      df_created_at = (case map_get (db_definitions db) k of Some d \<Rightarrow> df_created_at d | None \<Rightarrow> now),
      df_updated_at = now\<rparr>"

definition createDefinition ::
  "def_key \<Rightarrow> create_definition \<Rightarrow> string \<Rightarrow> automation_db \<Rightarrow> string + definition_view \<times> automation_db" where
  "createDefinition k args now db =
     (let version = (case map_get (db_definitions db) k of Some d \<Rightarrow> df_latest_version d | None \<Rightarrow> 0) + 1;
          vrow = \<lparr>vr_version = version, vr_status = cd_status args, vr_graph = cd_graph args,
                  vr_compile_summary = cd_compileSummary args, vr_metadata = cd_metadata args, vr_created_at = now\<rparr>
      in if map_has (db_versions db) (k, version) then Inl ''UNIQUE constraint failed''
         else (let db' = db\<lparr>db_versions := map_set (k, version) vrow (db_versions db),
                           db_definitions := map_set k (upsert_definition k args version now db) (db_definitions db)\<rparr>
               in case getDefinition k (Some version) db' of
                    None \<Rightarrow> Inl ''failed to reload lite automation definition after create''
                  | Some out \<Rightarrow> Inr (out, db')))"

text \<open>\<^verbatim>\<open>ORDER BY updated_at DESC, automation_id ASC\<close>.\<close>

definition recent_first :: "definition_row \<Rightarrow> definition_row \<Rightarrow> bool" where
  "recent_first a b =
     (if df_updated_at a = df_updated_at b then code_le (df_automation_id a) (df_automation_id b)
      else code_le (df_updated_at b) (df_updated_at a))"

definition listDefinitions :: "string \<Rightarrow> string \<Rightarrow> def_status option \<Rightarrow> nat \<Rightarrow> automation_db \<Rightarrow> definition_view list" where
  "listDefinitions tenantId scope status n db =
     List.map_filter (\<lambda>d. getDefinition (df_tenant_id d, df_scope d, df_automation_id d) (Some (df_latest_version d)) db)
       (take n (sort_by recent_first
          (filter (\<lambda>d. df_tenant_id d = tenantId \<and> df_scope d = scope \<and> (status = None \<or> status = Some (df_status d)))
             (map snd (db_definitions db)))))"

section \<open>Runs and their nodes\<close>

definition run_before :: "automation_run \<Rightarrow> automation_run \<Rightarrow> bool" where
  "run_before a b =
     (if ar_created_at a = ar_created_at b then code_le (ar_run_id b) (ar_run_id a)
      else code_le (ar_created_at b) (ar_created_at a))"

definition node_before :: "run_node \<Rightarrow> run_node \<Rightarrow> bool" where
  "node_before a b =
     (if rn_created_at a = rn_created_at b then code_le (rn_node_id a) (rn_node_id b)
      else code_le (rn_created_at a) (rn_created_at b))"

definition listRunNodes :: "string \<Rightarrow> automation_db \<Rightarrow> run_node list" where
  "listRunNodes runId db =
     sort_by node_before (map snd (filter (\<lambda>e. fst (fst e) = runId) (db_run_nodes db)))"

definition getRun :: "string \<Rightarrow> string \<Rightarrow> string \<Rightarrow> bool \<Rightarrow> automation_db \<Rightarrow> run_view option" where
  "getRun tenantId scope runId includeNodes db =
     (case map_get (db_runs db) runId of
        None \<Rightarrow> None
      | Some r \<Rightarrow>
          if ar_tenant_id r \<noteq> tenantId \<or> ar_scope r \<noteq> scope then None
          else Some \<lparr>rv_run = r, rv_nodes = (if includeNodes then listRunNodes runId db else [])\<rparr>)"

definition listRuns :: "string \<Rightarrow> string \<Rightarrow> string option \<Rightarrow> nat \<Rightarrow> automation_db \<Rightarrow> automation_run list" where
  "listRuns tenantId scope automationId n db =
     take n (sort_by run_before
       (filter (\<lambda>r. ar_tenant_id r = tenantId \<and> ar_scope r = scope
                    \<and> (automationId = None \<or> automationId = Some (ar_automation_id r)))
          (map snd (db_runs db))))"

fun node_kind :: "node_spec \<Rightarrow> string" where
  "node_kind (PlaybookNode _ _ _) = ''playbook''"
| "node_kind (ApprovalNode _) = ''approval''"
| "node_kind (ConditionNode _) = ''condition''"
| "node_kind (ArtifactGateNode _) = ''artifact_gate''"

definition depends_on :: "string \<Rightarrow> automation_graph \<Rightarrow> string list" where
  "depends_on nodeId g =
     map ae_from (filter (\<lambda>e. ae_to e = nodeId \<and> ae_type e \<noteq> OnFailure) (ag_edges g))"

definition initial_node :: "string \<Rightarrow> automation_graph \<Rightarrow> string \<Rightarrow> automation_node \<Rightarrow> run_node" where
  "initial_node runId g now n =
     (let deps = depends_on (an_node_id n) g; ready = (deps = [])
      in \<lparr>rn_run_id = runId, rn_node_id = an_node_id n, rn_node_kind = node_kind (an_spec n),
          rn_lifecycle_state = (if ready then NodeReady else NodePending), rn_pause_reason = None,
          rn_terminal_outcome = None, rn_status_summary = (if ready then ''ready'' else ''pending''),
          rn_depends_on = deps, rn_error_code = None, rn_error_message = None,
          rn_playbook_id = (case an_spec n of PlaybookNode p _ _ \<Rightarrow> Some p | _ \<Rightarrow> None),
          rn_playbook_version = (case an_spec n of PlaybookNode _ v _ \<Rightarrow> v | _ \<Rightarrow> None),
          rn_playbook_run_id = None,
          rn_approval_key = (case an_spec n of ApprovalNode k \<Rightarrow> k | _ \<Rightarrow> None),
          rn_input_snapshot_json = JObj [], rn_output_snapshot_json = JObj [], rn_started_at = None,
          rn_paused_at = None, rn_ended_at = None, rn_created_at = now, rn_updated_at = now\<rparr>)"

record create_run =
  cr_runId :: string
  cr_tenantId :: string
  cr_scope :: string
  cr_automationId :: string
  cr_automationVersion :: nat
  cr_requestedBy :: "string option"
  cr_executionMode :: execution_mode
  cr_paramsJson :: jobj
  cr_graph :: automation_graph

definition insert_node ::
  "string \<Rightarrow> automation_graph \<Rightarrow> string \<Rightarrow> automation_db \<Rightarrow> automation_node \<Rightarrow> string + automation_db" where
  "insert_node runId g now db n =
     (if map_has (db_run_nodes db) (runId, an_node_id n) then Inl ''UNIQUE constraint failed''
      else Inr (db\<lparr>db_run_nodes := map_set (runId, an_node_id n) (initial_node runId g now n) (db_run_nodes db)\<rparr>))"

definition queued_run :: "create_run \<Rightarrow> string \<Rightarrow> automation_run" where
  "queued_run args now =
     \<lparr>ar_run_id = cr_runId args, ar_tenant_id = cr_tenantId args, ar_scope = cr_scope args,
      ar_automation_id = cr_automationId args, ar_automation_version = cr_automationVersion args,
      ar_requested_by = cr_requestedBy args, ar_execution_mode = cr_executionMode args,
      ar_lifecycle_state = RunQueued, ar_pause_reason = None, ar_terminal_outcome = None,
      ar_status_summary = ''queued'', ar_root_cause_code = None, ar_root_cause_node_id = None,
      ar_root_cause_message = None, ar_params_json = cr_paramsJson args, ar_summary_json = JObj [],
      ar_started_at = None, ar_paused_at = None, ar_ended_at = None, ar_created_at = now, ar_updated_at = now\<rparr>"

text \<open>One transaction: an error leaves the tables as they were.\<close>

definition createRun :: "create_run \<Rightarrow> string \<Rightarrow> automation_db \<Rightarrow> string + run_view \<times> automation_db" where
  "createRun args now db =
     (if map_has (db_runs db) (cr_runId args) then Inl ''UNIQUE constraint failed''
      else and_then
        (fold_result (insert_node (cr_runId args) (cr_graph args) now)
           (db\<lparr>db_runs := map_set (cr_runId args) (queued_run args now) (db_runs db)\<rparr>) (ag_nodes (cr_graph args)))
        (\<lambda>db'. case getRun (cr_tenantId args) (cr_scope args) (cr_runId args) True db' of
                 None \<Rightarrow> Inl ''failed to load lite automation run after create''
               | Some out \<Rightarrow> Inr (out, db')))"

text \<open>A patch is a function on the row; what identifies the row stays.\<close>

definition updateRun ::
  "string \<Rightarrow> (automation_run \<Rightarrow> automation_run) \<Rightarrow> string \<Rightarrow> automation_db \<Rightarrow> string + automation_db" where
  "updateRun runId patch now db =
     (case map_get (db_runs db) runId of
        None \<Rightarrow> Inl (''automation run '' @ runId @ '' not found'')
      | Some r \<Rightarrow>
          Inr (db\<lparr>db_runs := map_set runId
            ((patch r)\<lparr>ar_run_id := ar_run_id r, ar_tenant_id := ar_tenant_id r, ar_scope := ar_scope r,
                       ar_automation_id := ar_automation_id r, ar_automation_version := ar_automation_version r,
                       ar_updated_at := now\<rparr>) (db_runs db)\<rparr>))"

definition updateRunNode ::
  "string \<Rightarrow> string \<Rightarrow> (run_node \<Rightarrow> run_node) \<Rightarrow> string \<Rightarrow> automation_db \<Rightarrow> string + automation_db" where
  "updateRunNode runId nodeId patch now db =
     (case map_get (db_run_nodes db) (runId, nodeId) of
        None \<Rightarrow> Inl (''automation run node '' @ runId @ ''/'' @ nodeId @ '' not found'')
      | Some r \<Rightarrow>
          Inr (db\<lparr>db_run_nodes := map_set (runId, nodeId)
            ((patch r)\<lparr>rn_run_id := rn_run_id r, rn_node_id := rn_node_id r, rn_node_kind := rn_node_kind r,
                       rn_updated_at := now\<rparr>) (db_run_nodes db)\<rparr>))"

end
