(* ===== verification/Effects.thy ===== *)
theory Effects
  imports Prelude
begin

text \<open>
  Operations with effects: a function of a state that returns its result or its error together
  with the state it leaves, also when it fails.
\<close>

type_synonym ('s, 'e, 'a) effect = "'s \<Rightarrow> ('e + 'a) \<times> 's"

definition return_act :: "'a \<Rightarrow> ('s, 'e, 'a) effect" where
  "return_act x s = (Inr x, s)"

definition throw_act :: "'e \<Rightarrow> ('s, 'e, 'a) effect" where
  "throw_act e s = (Inl e, s)"

definition then_do :: "('s, 'e, 'a) effect \<Rightarrow> ('a \<Rightarrow> ('s, 'e, 'b) effect) \<Rightarrow> ('s, 'e, 'b) effect" where
  "then_do m f s = (case m s of (Inl e, s') \<Rightarrow> (Inl e, s') | (Inr x, s') \<Rightarrow> f x s')"

text \<open>A loop that collects the results.\<close>

fun each_act :: "('a \<Rightarrow> ('s, 'e, 'b) effect) \<Rightarrow> 'a list \<Rightarrow> ('s, 'e, 'b list) effect" where
  "each_act f [] = return_act []"
| "each_act f (x # xs) = then_do (f x) (\<lambda>y. then_do (each_act f xs) (\<lambda>ys. return_act (y # ys)))"

text \<open>An operation that is skipped unless a condition holds.\<close>

definition when_act :: "bool \<Rightarrow> ('s, 'e, 'a) effect \<Rightarrow> ('s, 'e, 'a option) effect" where
  "when_act b m = (if b then then_do m (\<lambda>x. return_act (Some x)) else return_act None)"

lemma then_do_Inr:
  "then_do m f s = (Inr y, s') \<longleftrightarrow> (\<exists>x s1. m s = (Inr x, s1) \<and> f x s1 = (Inr y, s'))"
  by (auto simp: then_do_def split: prod.splits sum.splits)

end
