(* ===== verification/AutomationRun.thy ===== *)
theory AutomationRun
  imports AutomationStore Effects
begin

text \<open>
  The kernel of src/memory/automation-lite.ts: \<open>continueAutomationRun\<close> and the requests that
  start, resume and cancel a run.  The loop over the nodes runs without interruption up to the
  call of the replay runner of a playbook node, where it is suspended: \<open>Suspended\<close> keeps what the
  loop needs to go on, and \<open>settle_replay\<close> is what happens when the runner answers.  An operation
  takes the tables and returns them with its result or its error; \<open>now\<close> is the clock while it
  runs.  The replay runner and the identity of objects are parameters.
\<close>

section \<open>Operations on the tables\<close>

datatype automation_error = RequestError http_error | StoreFailure string

type_synonym 'a act = "(automation_db, automation_error, 'a) effect"

definition write_act :: "(automation_db \<Rightarrow> string + automation_db) \<Rightarrow> unit act" where
  "write_act f db = (case f db of Inl e \<Rightarrow> (Inl (StoreFailure e), db) | Inr db' \<Rightarrow> (Inr (), db'))"

definition request_act :: "http_error + 'a \<Rightarrow> 'a act" where
  "request_act r db = (case r of Inl e \<Rightarrow> (Inl (RequestError e), db) | Inr x \<Rightarrow> (Inr x, db))"

section \<open>Small conversions\<close>

definition resolveLiteActor :: "string option \<Rightarrow> string option \<Rightarrow> string option" where
  "resolveLiteActor actor defaultActorId =
     (case actor of
        Some s \<Rightarrow> if js_trim s \<noteq> [] then Some (js_trim s)
                  else (case defaultActorId of Some d \<Rightarrow> if js_trim d \<noteq> [] then Some (js_trim d) else None | None \<Rightarrow> None)
      | None \<Rightarrow> (case defaultActorId of Some d \<Rightarrow> if js_trim d \<noteq> [] then Some (js_trim d) else None | None \<Rightarrow> None))"

definition asObject :: "jv option \<Rightarrow> jv option" where
  "asObject v = (case v of Some w \<Rightarrow> if is_plain_object w then Some w else None | None \<Rightarrow> None)"

definition toStringOrNull :: "jv option \<Rightarrow> string option" where
  "toStringOrNull v = (case v of Some (JStr s) \<Rightarrow> if js_trim s \<noteq> [] then Some s else None | _ \<Rightarrow> None)"

definition toPositiveIntOrNull :: "jv option \<Rightarrow> nat option" where
  "toPositiveIntOrNull v =
     (case v of Some (JNum (Fin q)) \<Rightarrow> if q = of_int \<lfloor>q\<rfloor> \<and> 0 < q then Some (nat \<lfloor>q\<rfloor>) else None | _ \<Rightarrow> None)"

definition str_or_null :: "string option \<Rightarrow> jv" where
  "str_or_null v = (case v of Some s \<Rightarrow> JStr s | None \<Rightarrow> JNull)"

definition nat_or_null :: "nat option \<Rightarrow> jv" where
  "nat_or_null v = (case v of Some n \<Rightarrow> JNum (js_nat n) | None \<Rightarrow> JNull)"

fun node_lifecycle_name :: "node_lifecycle \<Rightarrow> string" where
  "node_lifecycle_name NodePending = ''pending''"
| "node_lifecycle_name NodeReady = ''ready''"
| "node_lifecycle_name NodeRunning = ''running''"
| "node_lifecycle_name NodePaused = ''paused''"
| "node_lifecycle_name NodeTerminal = ''terminal''"

fun node_outcome_name :: "node_outcome \<Rightarrow> string" where
  "node_outcome_name NodeSucceeded = ''succeeded''"
| "node_outcome_name NodeFailed = ''failed''"
| "node_outcome_name NodeRejected = ''rejected''"
| "node_outcome_name NodeSkipped = ''skipped''"

fun run_lifecycle_name :: "run_lifecycle \<Rightarrow> string" where
  "run_lifecycle_name RunQueued = ''queued''"
| "run_lifecycle_name RunRunning = ''running''"
| "run_lifecycle_name RunPaused = ''paused''"
| "run_lifecycle_name RunTerminal = ''terminal''"

fun run_outcome_name :: "run_outcome \<Rightarrow> string" where
  "run_outcome_name RunSucceeded = ''succeeded''"
| "run_outcome_name RunFailed = ''failed''"
| "run_outcome_name RunCancelled = ''cancelled''"

fun run_pause_name :: "run_pause \<Rightarrow> string" where
  "run_pause_name RunApprovalRequired = ''approval_required''"
| "run_pause_name RunRepairRequired = ''repair_required''"
| "run_pause_name RunDependencyWait = ''dependency_wait''"
| "run_pause_name RunOperatorPause = ''operator_pause''"

definition count_names :: "string list \<Rightarrow> jv" where
  "count_names xs =
     JObj (map (\<lambda>e. (fst e, JNum (js_nat (snd e))))
       (foldl (\<lambda>m x. map_set x ((case map_get m x of Some n \<Rightarrow> n | None \<Rightarrow> 0) + 1) m) [] xs))"

definition summarizeRunNodes :: "run_node list \<Rightarrow> jv" where
  "summarizeRunNodes nodes =
     JObj [(''total_nodes'', JNum (js_nat (length nodes))),
           (''lifecycle_counts'', count_names (map (\<lambda>n. node_lifecycle_name (rn_lifecycle_state n)) nodes)),
           (''terminal_outcome_counts'',
              count_names (List.map_filter (\<lambda>n. map_option node_outcome_name (rn_terminal_outcome n)) nodes))]"

definition mapNodeById :: "automation_graph \<Rightarrow> (string, automation_node) js_map" where
  "mapNodeById g = foldl (\<lambda>m n. map_set (an_node_id n) n m) [] (ag_nodes g)"

definition buildNodeOutputs :: "run_node list \<Rightarrow> (string, jv) js_map" where
  "buildNodeOutputs nodes =
     foldl (\<lambda>m n. if rn_terminal_outcome n = Some NodeSucceeded
                  then map_set (rn_node_id n) (rn_output_snapshot_json n) m else m) [] nodes"

definition run_not_in_scope :: "string \<Rightarrow> string \<Rightarrow> string \<Rightarrow> http_error" where
  "run_not_in_scope tenantId scope runId =
     \<lparr>he_statusCode = 404, he_code = ''automation_run_not_found'',
      he_message = ''automation run was not found in this Lite scope'',
      he_details = Some (JObj [(''run_id'', JStr runId), (''scope'', JStr scope), (''tenant_id'', JStr tenantId)])\<rparr>"

definition requireRunInScope :: "string \<Rightarrow> string \<Rightarrow> string \<Rightarrow> run_view act" where
  "requireRunInScope tenantId scope runId db =
     (case getRun tenantId scope runId True db of
        None \<Rightarrow> (Inl (RequestError (run_not_in_scope tenantId scope runId)), db)
      | Some v \<Rightarrow> (Inr v, db))"

section \<open>One node\<close>

record run_context =
  rc_run :: automation_run
  rc_graph :: automation_graph
  rc_actor :: "string option"
  rc_params :: jobj
  rc_resumeReason :: "string option"

abbreviation rc_run_id :: "run_context \<Rightarrow> string" where
  "rc_run_id c \<equiv> ar_run_id (rc_run c)"

definition reload :: "run_context \<Rightarrow> run_view act" where
  "reload c = requireRunInScope (ar_tenant_id (rc_run c)) (ar_scope (rc_run c)) (rc_run_id c)"

type_synonym outputs = "(string, jv) js_map"

text \<open>What the loop does after a node.\<close>

datatype visit = NextNode outputs | ReturnRun | CallRunner automation_node jobj

definition patch_node :: "run_context \<Rightarrow> string \<Rightarrow> string \<Rightarrow> (run_node \<Rightarrow> run_node) \<Rightarrow> unit act" where
  "patch_node c now nodeId patch = write_act (updateRunNode (rc_run_id c) nodeId patch now)"

definition node_succeeded :: "run_context \<Rightarrow> string \<Rightarrow> string \<Rightarrow> outputs \<Rightarrow> jv \<Rightarrow> (run_node \<Rightarrow> run_node) \<Rightarrow> visit act" where
  "node_succeeded c now nodeId outs output extra =
     then_do (patch_node c now nodeId (\<lambda>n. extra (n\<lparr>rn_lifecycle_state := NodeTerminal,
                rn_terminal_outcome := Some NodeSucceeded, rn_status_summary := ''succeeded'',
                rn_output_snapshot_json := output, rn_ended_at := Some now\<rparr>)))
       (\<lambda>_. return_act (NextNode (map_set nodeId output outs)))"

definition stop_run :: "run_context \<Rightarrow> string \<Rightarrow> (automation_run \<Rightarrow> automation_run) \<Rightarrow> visit act" where
  "stop_run c now patch db =
     then_do (write_act (updateRun (rc_run_id c)
         (\<lambda>r. (patch r)\<lparr>ar_summary_json := summarizeRunNodes (listRunNodes (rc_run_id c) db)\<rparr>) now))
       (\<lambda>_. return_act ReturnRun) db"

definition node_failed ::
  "run_context \<Rightarrow> string \<Rightarrow> string \<Rightarrow> string \<Rightarrow> string \<Rightarrow> string \<Rightarrow> jv \<Rightarrow> (run_node \<Rightarrow> run_node) \<Rightarrow> visit act" where
  "node_failed c now nodeId cd node_message run_message output extra =
     then_do (patch_node c now nodeId (\<lambda>n. extra (n\<lparr>rn_lifecycle_state := NodeTerminal,
                rn_terminal_outcome := Some NodeFailed, rn_status_summary := ''failed'',
                rn_error_code := Some cd, rn_error_message := Some node_message,
                rn_output_snapshot_json := output, rn_ended_at := Some now\<rparr>)))
       (\<lambda>_. stop_run c now (\<lambda>r. r\<lparr>ar_lifecycle_state := RunTerminal, ar_terminal_outcome := Some RunFailed,
               ar_status_summary := ''failed'', ar_root_cause_code := Some cd,
               ar_root_cause_node_id := Some nodeId, ar_root_cause_message := Some run_message,
               ar_ended_at := Some now\<rparr>))"

definition node_paused ::
  "run_context \<Rightarrow> string \<Rightarrow> string \<Rightarrow> node_pause \<Rightarrow> run_pause \<Rightarrow> string \<Rightarrow> string \<Rightarrow> string
    \<Rightarrow> (run_node \<Rightarrow> run_node) \<Rightarrow> visit act" where
  "node_paused c now nodeId np rp summary cd message extra =
     then_do (patch_node c now nodeId (\<lambda>n. extra (n\<lparr>rn_lifecycle_state := NodePaused,
                rn_pause_reason := Some np, rn_status_summary := summary, rn_paused_at := Some now\<rparr>)))
       (\<lambda>_. stop_run c now (\<lambda>r. r\<lparr>ar_lifecycle_state := RunPaused, ar_pause_reason := Some rp,
               ar_status_summary := summary, ar_root_cause_code := Some cd,
               ar_root_cause_node_id := Some nodeId, ar_root_cause_message := Some message,
               ar_paused_at := Some now\<rparr>))"

definition shadow_approval :: "string \<Rightarrow> jv" where
  "shadow_approval now =
     JObj [(''shadow_auto_approved'', JBool True), (''approval_reason'', JStr ''shadow_execution_skips_human_gate''),
           (''approved_at'', JStr now)]"

text \<open>What a node does once it is running.\<close>

definition run_node_spec ::
  "(jv \<Rightarrow> jv \<Rightarrow> bool) \<Rightarrow> run_context \<Rightarrow> string \<Rightarrow> string \<Rightarrow> outputs \<Rightarrow> automation_node \<Rightarrow> jobj \<Rightarrow> visit act" where
  "run_node_spec same c now nodeId outs node inputs =
     (let ctx = \<lparr>bc_params = rc_params c, bc_nodeOutputs = outs\<rparr>
      in case an_spec node of
           ApprovalNode _ \<Rightarrow>
             if ar_execution_mode (rc_run c) = ModeShadow then
               node_succeeded c now nodeId outs (shadow_approval now) (\<lambda>n. n)
             else node_paused c now nodeId NodeApprovalRequired RunApprovalRequired ''paused_for_approval''
                    ''approval_required'' ''automation paused on approval node'' (\<lambda>n. n)
         | ConditionNode expr \<Rightarrow>
             if evaluateConditionExpression same ctx expr then
               node_succeeded c now nodeId outs (JObj [(''result'', JBool True)]) (\<lambda>n. n)
             else node_failed c now nodeId ''condition_failed'' ''condition node evaluated to false''
                    ''condition node evaluated to false'' (JObj [(''result'', JBool False)]) (\<lambda>n. n)
         | ArtifactGateNode refs \<Rightarrow>
             (let resolved = map (\<lambda>r. resolveBindingValue ctx (JStr r)) refs;
                  missing = map fst (filter (\<lambda>e. nullish (snd e) \<or> snd e = Some (JStr [])) (zip refs resolved))
              in if missing \<noteq> [] then
                   node_failed c now nodeId ''artifact_gate_missing'' ''required artifacts were not available''
                     ''artifact gate requirements not satisfied''
                     (JObj [(''missing_artifacts'', JArr (map JStr missing))]) (\<lambda>n. n)
                 else node_succeeded c now nodeId outs (JObj [(''artifacts'', JArr (map or_null resolved))]) (\<lambda>n. n))
         | PlaybookNode _ _ _ \<Rightarrow> return_act (CallRunner node inputs))"

definition approve_node :: "run_context \<Rightarrow> string \<Rightarrow> string \<Rightarrow> outputs \<Rightarrow> string \<Rightarrow> visit act" where
  "approve_node c now nodeId outs reason =
     node_succeeded c now nodeId outs
       (JObj [(''approved_at'', JStr now), (''approval_reason'', JStr reason), (''approved_by'', str_or_null (rc_actor c))])
       (\<lambda>n. n\<lparr>rn_pause_reason := None\<rparr>)"

definition resolved_inputs :: "run_context \<Rightarrow> outputs \<Rightarrow> automation_node \<Rightarrow> jobj" where
  "resolved_inputs c outs node =
     (case asObject (resolveBindingValue \<lparr>bc_params = rc_params c, bc_nodeOutputs = outs\<rparr>
             (JObj (case an_inputs node of Some ob \<Rightarrow> ob | None \<Rightarrow> []))) of
        Some (JObj ob) \<Rightarrow> ob
      | _ \<Rightarrow> [])"

text \<open>A node that has not ended: an approved one succeeds, any other one is started.\<close>

definition start_node ::
  "(jv \<Rightarrow> jv \<Rightarrow> bool) \<Rightarrow> run_context \<Rightarrow> string \<Rightarrow> string \<Rightarrow> outputs \<Rightarrow> automation_node \<Rightarrow> run_node \<Rightarrow> visit act" where
  "start_node same c now nodeId outs node current =
     (if rn_lifecycle_state current = NodePaused \<and> rn_pause_reason current = Some NodeApprovalRequired
         \<and> rc_resumeReason c \<noteq> None then
        approve_node c now nodeId outs (the (rc_resumeReason c))
      else then_do (patch_node c now nodeId (\<lambda>n. n\<lparr>rn_lifecycle_state := NodeRunning,
               rn_pause_reason := None, rn_status_summary := ''running'',
               rn_input_snapshot_json := JObj (resolved_inputs c outs node),
               rn_started_at := (case rn_started_at current of Some t \<Rightarrow> Some t | None \<Rightarrow> Some now)\<rparr>))
             (\<lambda>_. run_node_spec same c now nodeId outs node (resolved_inputs c outs node)))"

definition visit_node ::
  "(jv \<Rightarrow> jv \<Rightarrow> bool) \<Rightarrow> run_context \<Rightarrow> string \<Rightarrow> string \<Rightarrow> outputs \<Rightarrow> visit act" where
  "visit_node same c now nodeId outs =
     then_do (reload c) (\<lambda>view.
       case find (\<lambda>n. rn_node_id n = nodeId) (rv_nodes view) of
         None \<Rightarrow> return_act (NextNode outs)
       | Some current \<Rightarrow>
           if rn_lifecycle_state current = NodeTerminal then
             return_act (NextNode (if rn_terminal_outcome current = Some NodeSucceeded
               then map_set nodeId (rn_output_snapshot_json current) outs else outs))
           else (case map_get (mapNodeById (rc_graph c)) nodeId of
             None \<Rightarrow> return_act (NextNode outs)
           | Some node \<Rightarrow> start_node same c now nodeId outs node current))"

section \<open>The replay runner\<close>

record replay_request =
  rq_tenant_id :: string
  rq_scope :: string
  rq_actor :: "string option"
  rq_identity :: "string option"
  rq_playbook_id :: string
  rq_version :: "nat option"
  rq_mode :: string
  rq_params :: jobj

text \<open>
  The members of the answer; \<open>rq_identity\<close> is the consumer, producer and owner agent of
  \<open>localReplayIdentity\<close>, whose memory lane is private.
\<close>

record replay_result =
  rp_mode :: "jv option"
  rp_playbook :: "jv option"
  rp_run :: "jv option"
  rp_summary :: "jv option"
  rp_execution :: "jv option"
  rp_steps :: "jv option"

definition localReplayIdentity :: "string option \<Rightarrow> string option" where
  "localReplayIdentity actor = (case actor of Some s \<Rightarrow> if js_trim s \<noteq> [] then Some (js_trim s) else None | None \<Rightarrow> None)"

text \<open>\<^verbatim>\<open>{ ...params, ...inputs, record_run: true, stop_on_failure: true }\<close>.\<close>

definition spread :: "jobj \<Rightarrow> jobj \<Rightarrow> jobj" where
  "spread ob others = foldl (\<lambda>acc e. obj_set (fst e) (snd e) acc) ob others"

definition replay_request_of :: "run_context \<Rightarrow> automation_node \<Rightarrow> jobj \<Rightarrow> replay_request option" where
  "replay_request_of c node inputs =
     (case an_spec node of
        PlaybookNode playbook_id version mode \<Rightarrow>
          Some \<lparr>rq_tenant_id = ar_tenant_id (rc_run c), rq_scope = ar_scope (rc_run c), rq_actor = rc_actor c,
                rq_identity = localReplayIdentity (rc_actor c), rq_playbook_id = playbook_id, rq_version = version,
                rq_mode = (if ar_execution_mode (rc_run c) = ModeShadow then ''simulate''
                           else case mode of Some m \<Rightarrow> m | None \<Rightarrow> ''simulate''),
                rq_params = spread (spread (rc_params c) inputs)
                  [(''record_run'', JBool True), (''stop_on_failure'', JBool True)]\<rparr>
      | _ \<Rightarrow> None)"

definition replay_status :: "replay_result \<Rightarrow> string" where
  "replay_status out =
     (let readiness = toStringOrNull (chain_get (asObject (rp_summary out)) ''replay_readiness'')
      in js_lower
        (if rp_mode out = Some (JStr ''simulate'') then
           (if readiness = Some ''ready'' \<or> readiness = Some ''success'' then ''success'' else ''failed'')
         else js_string (or_null (or_nullish (chain_get (asObject (rp_run out)) ''status'') (Some (JStr ''failed''))))))"

definition replay_output :: "replay_result \<Rightarrow> jv" where
  "replay_output out =
     JObj [(''playbook'', or_null (rp_playbook out)), (''mode'', or_null (rp_mode out)),
           (''run'', or_null (rp_run out)), (''summary'', or_null (rp_summary out)),
           (''execution'', or_null (rp_execution out)),
           (''steps'', JArr (case rp_steps out of Some (JArr vs) \<Rightarrow> take 20 vs | _ \<Rightarrow> []))]"

definition replay_patch :: "automation_node \<Rightarrow> replay_result \<Rightarrow> run_node \<Rightarrow> run_node" where
  "replay_patch node out n =
     n\<lparr>rn_playbook_version :=
         (case toPositiveIntOrNull (chain_get (asObject (rp_playbook out)) ''version'') of
            Some v \<Rightarrow> Some v
          | None \<Rightarrow> (case an_spec node of PlaybookNode _ version _ \<Rightarrow> version | _ \<Rightarrow> None)),
       rn_playbook_run_id := toStringOrNull (chain_get (asObject (rp_run out)) ''run_id'')\<rparr>"

text \<open>What the runner's answer makes of the node.\<close>

definition settle_node ::
  "run_context \<Rightarrow> string \<Rightarrow> string \<Rightarrow> outputs \<Rightarrow> automation_node \<Rightarrow> replay_result \<Rightarrow> visit act" where
  "settle_node c now nodeId outs node out =
     (let status = replay_status out; extra = replay_patch node out
      in if status = ''success'' \<or> status = ''succeeded'' then
           node_succeeded c now nodeId outs (replay_output out) extra
         else if status = ''partial'' then
           node_paused c now nodeId NodeRepairRequired RunRepairRequired ''paused_for_repair''
             ''guided_repair_pending'' ''playbook replay entered guided repair state''
             (\<lambda>n. extra (n\<lparr>rn_output_snapshot_json := replay_output out\<rparr>))
         else node_failed c now nodeId ''playbook_run_failed'' ''playbook replay failed''
                ''playbook replay failed'' (replay_output out) extra)"

section \<open>The loop\<close>

datatype loop_end = RunReturned run_view | RunSuspended string automation_node jobj "string list" outputs

definition finish_run :: "run_context \<Rightarrow> string \<Rightarrow> unit act" where
  "finish_run c now db =
     write_act (updateRun (rc_run_id c)
       (\<lambda>r. r\<lparr>ar_lifecycle_state := RunTerminal, ar_terminal_outcome := Some RunSucceeded,
              ar_status_summary := ''succeeded'',
              ar_summary_json := summarizeRunNodes (listRunNodes (rc_run_id c) db), ar_ended_at := Some now\<rparr>) now) db"

definition after_visit ::
  "run_context \<Rightarrow> string \<Rightarrow> string list \<Rightarrow> outputs \<Rightarrow> (outputs \<Rightarrow> loop_end act) \<Rightarrow> visit \<Rightarrow> loop_end act" where
  "after_visit c nodeId rest outs continue v =
     (case v of
        NextNode outs' \<Rightarrow> continue outs'
      | ReturnRun \<Rightarrow> then_do (reload c) (\<lambda>view. return_act (RunReturned view))
      | CallRunner node inputs \<Rightarrow> return_act (RunSuspended nodeId node inputs rest outs))"

fun run_nodes ::
  "(jv \<Rightarrow> jv \<Rightarrow> bool) \<Rightarrow> run_context \<Rightarrow> string \<Rightarrow> string list \<Rightarrow> outputs \<Rightarrow> loop_end act" where
  "run_nodes same c now [] outs =
     then_do (finish_run c now) (\<lambda>_. then_do (reload c) (\<lambda>view. return_act (RunReturned view)))"
| "run_nodes same c now (nodeId # rest) outs =
     then_do (visit_node same c now nodeId outs)
       (after_visit c nodeId rest outs (\<lambda>outs'. run_nodes same c now rest outs'))"

definition mark_running :: "run_context \<Rightarrow> string \<Rightarrow> unit act" where
  "mark_running c now =
     write_act (updateRun (rc_run_id c)
       (\<lambda>r. r\<lparr>ar_lifecycle_state := RunRunning, ar_pause_reason := None, ar_terminal_outcome := None,
              ar_status_summary := ''running'', ar_root_cause_code := None, ar_root_cause_node_id := None,
              ar_root_cause_message := None,
              ar_started_at := (case ar_started_at (rc_run c) of Some t \<Rightarrow> Some t | None \<Rightarrow> Some now),
              ar_paused_at := None, ar_ended_at := None\<rparr>) now)"

definition continueAutomationRun ::
  "(jv \<Rightarrow> jv \<Rightarrow> bool) \<Rightarrow> run_context \<Rightarrow> run_node list \<Rightarrow> string \<Rightarrow> loop_end act" where
  "continueAutomationRun same c nodes now =
     then_do (request_act (validateAutomationGraph (rc_graph c))) (\<lambda>validation.
     then_do (mark_running c now) (\<lambda>_.
       run_nodes same c now (gv_topological_order validation) (buildNodeOutputs nodes)))"

section \<open>A run waiting for its runner\<close>

record pending_call =
  pc_context :: run_context
  pc_nodeId :: string
  pc_node :: automation_node
  pc_inputs :: jobj
  pc_rest :: "string list"
  pc_outputs :: outputs

definition settle_replay ::
  "(jv \<Rightarrow> jv \<Rightarrow> bool) \<Rightarrow> pending_call \<Rightarrow> replay_result \<Rightarrow> string \<Rightarrow> loop_end act" where
  "settle_replay same p out now =
     then_do (settle_node (pc_context p) now (pc_nodeId p) (pc_outputs p) (pc_node p) out)
       (after_visit (pc_context p) (pc_nodeId p) (pc_rest p) (pc_outputs p)
          (\<lambda>outs'. run_nodes same (pc_context p) now (pc_rest p) outs'))"

section \<open>Requests\<close>

record automation_defaults =
  ad_defaultScope :: string
  ad_defaultTenantId :: string
  ad_defaultActorId :: "string option"

definition load_error :: "nat \<Rightarrow> string \<Rightarrow> string \<Rightarrow> (string \<times> jv) list \<Rightarrow> http_error" where
  "load_error status cd message details =
     \<lparr>he_statusCode = status, he_code = cd, he_message = message, he_details = Some (JObj details)\<rparr>"

definition loadDefinitionForExecution :: "def_key \<Rightarrow> nat option \<Rightarrow> automation_db \<Rightarrow> http_error + definition_view" where
  "loadDefinitionForExecution k version db =
     (case getDefinition k version db of
        None \<Rightarrow> Inl (load_error 404 ''automation_not_found'' ''automation was not found in this Lite scope''
          [(''automation_id'', JStr (snd (snd k))), (''version'', nat_or_null version),
           (''scope'', JStr (fst (snd k))), (''tenant_id'', JStr (fst k))])
      | Some out \<Rightarrow>
          if version = None \<and> df_status (dv_definition out) = DefDisabled then
            Inl (load_error 409 ''automation_disabled'' ''automation is disabled in this Lite scope''
              [(''automation_id'', JStr (snd (snd k))), (''scope'', JStr (fst (snd k))), (''tenant_id'', JStr (fst k))])
          else Inr out)"

definition summarizeGraph :: "automation_graph \<Rightarrow> graph_validation \<Rightarrow> jv" where
  "summarizeGraph g v =
     JObj [(''node_count'', JNum (js_nat (length (ag_nodes g)))),
           (''edge_count'', JNum (js_nat (length (ag_edges g)))),
           (''start_node_count'', JNum (js_nat (length (gv_start_node_ids v)))),
           (''node_kind_counts'', count_names (map (\<lambda>n. node_kind (an_spec n)) (ag_nodes g)))]"

record create_request =
  rqc_tenant_id :: "string option"
  rqc_scope :: "string option"
  rqc_automation_id :: string
  rqc_name :: string
  rqc_status :: def_status
  rqc_graph :: automation_graph
  rqc_input_contract :: "jv option"
  rqc_output_contract :: "jv option"
  rqc_metadata :: "jv option"

definition automationCreateLite ::
  "create_request \<Rightarrow> automation_defaults \<Rightarrow> string \<Rightarrow> automation_db
    \<Rightarrow> automation_error + (definition_view \<times> graph_validation) \<times> automation_db" where
  "automationCreateLite q d now db =
     (case resolveTenantScope (rqc_scope q) (rqc_tenant_id q) (ad_defaultScope d) (ad_defaultTenantId d) of
        Inl e \<Rightarrow> Inl (RequestError e)
      | Inr tenancy \<Rightarrow>
          (case validateAutomationGraph (rqc_graph q) of
             Inl e \<Rightarrow> Inl (RequestError e)
           | Inr v \<Rightarrow>
               (case createDefinition (ts_tenant_id tenancy, ts_scope tenancy, rqc_automation_id q)
                   \<lparr>cd_name = rqc_name q, cd_status = rqc_status q, cd_graph = rqc_graph q,
                    cd_inputContract = (case rqc_input_contract q of Some c \<Rightarrow> c | None \<Rightarrow> JObj []),
                    cd_outputContract = (case rqc_output_contract q of Some c \<Rightarrow> c | None \<Rightarrow> JObj []),
                    cd_metadata = (case rqc_metadata q of Some m \<Rightarrow> m | None \<Rightarrow> JObj []),
                    cd_compileSummary = summarizeGraph (rqc_graph q) v\<rparr> now db of
                  Inl e \<Rightarrow> Inl (StoreFailure e)
                | Inr (out, db') \<Rightarrow> Inr ((out, v), db'))))"

record run_request =
  rqr_tenant_id :: "string option"
  rqr_scope :: "string option"
  rqr_actor :: "string option"
  rqr_automation_id :: string
  rqr_version :: "nat option"
  rqr_params :: "jobj option"
  rqr_execution_mode :: execution_mode

definition store_act :: "(automation_db \<Rightarrow> string + 'a \<times> automation_db) \<Rightarrow> 'a act" where
  "store_act f db = (case f db of Inl e \<Rightarrow> (Inl (StoreFailure e), db) | Inr (x, db') \<Rightarrow> (Inr x, db'))"

definition automationRunLite ::
  "(jv \<Rightarrow> jv \<Rightarrow> bool) \<Rightarrow> run_request \<Rightarrow> automation_defaults \<Rightarrow> string \<Rightarrow> string
    \<Rightarrow> (run_context \<times> loop_end) act" where
  "automationRunLite same q d newId now db =
     (let actor = resolveLiteActor (rqr_actor q) (ad_defaultActorId d);
          params = (case rqr_params q of Some ob \<Rightarrow> ob | None \<Rightarrow> [])
      in then_do (request_act (resolveTenantScope (rqr_scope q) (rqr_tenant_id q) (ad_defaultScope d) (ad_defaultTenantId d)))
        (\<lambda>tenancy. let k = (ts_tenant_id tenancy, ts_scope tenancy, rqr_automation_id q)
         in then_do (request_act (loadDefinitionForExecution k (rqr_version q) db)) (\<lambda>def.
            let g = vr_graph (dv_version def)
            in then_do (store_act (createRun
                 \<lparr>cr_runId = newId, cr_tenantId = ts_tenant_id tenancy, cr_scope = ts_scope tenancy,
                  cr_automationId = rqr_automation_id q, cr_automationVersion = vr_version (dv_version def),
                  cr_requestedBy = actor, cr_executionMode = rqr_execution_mode q, cr_paramsJson = params,
                  cr_graph = g\<rparr> now)) (\<lambda>view.
               let c = \<lparr>rc_run = rv_run view, rc_graph = g, rc_actor = actor, rc_params = params, rc_resumeReason = None\<rparr>
               in then_do (continueAutomationRun same c (rv_nodes view) now) (\<lambda>out. return_act (c, out))))) db)"

definition not_resumable :: "(string \<times> jv) list \<Rightarrow> string \<Rightarrow> http_error" where
  "not_resumable details message = load_error 409 ''automation_run_not_resumable'' message details"

definition automationRunResumeLite ::
  "(jv \<Rightarrow> jv \<Rightarrow> bool) \<Rightarrow> string option \<Rightarrow> string option \<Rightarrow> string option \<Rightarrow> string \<Rightarrow> string option
    \<Rightarrow> automation_defaults \<Rightarrow> string \<Rightarrow> (run_context \<times> loop_end) act" where
  "automationRunResumeLite same tenant_id scope actor0 run_id reason d now db =
     (let actor = resolveLiteActor actor0 (ad_defaultActorId d)
      in then_do (request_act (resolveTenantScope scope tenant_id (ad_defaultScope d) (ad_defaultTenantId d)))
        (\<lambda>tenancy. then_do (requireRunInScope (ts_tenant_id tenancy) (ts_scope tenancy) run_id) (\<lambda>view.
          let r = rv_run view
          in if ar_lifecycle_state r \<noteq> RunPaused then
               throw_act (RequestError (not_resumable
                 [(''run_id'', JStr run_id), (''lifecycle_state'', JStr (run_lifecycle_name (ar_lifecycle_state r)))]
                 ''automation run is not paused''))
             else if ar_pause_reason r \<noteq> Some RunApprovalRequired then
               throw_act (RequestError (not_resumable
                 [(''run_id'', JStr run_id), (''pause_reason'', str_or_null (map_option run_pause_name (ar_pause_reason r)))]
                 ''lite automation kernel currently resumes approval pauses only''))
             else then_do (request_act (loadDefinitionForExecution (ar_tenant_id r, ar_scope r, ar_automation_id r)
                    (Some (ar_automation_version r)) db)) (\<lambda>def.
               let c = \<lparr>rc_run = r, rc_graph = vr_graph (dv_version def), rc_actor = actor,
                        rc_params = ar_params_json r,
                        rc_resumeReason = Some (case reason of Some s \<Rightarrow> s | None \<Rightarrow> ''operator_resume'')\<rparr>
               in then_do (continueAutomationRun same c (rv_nodes view) now) (\<lambda>out. return_act (c, out))))) db)"

definition cancel_node :: "string \<Rightarrow> string \<Rightarrow> string \<Rightarrow> run_node \<Rightarrow> automation_db \<Rightarrow> string + automation_db" where
  "cancel_node runId message now n db =
     (if rn_lifecycle_state n = NodeTerminal then Inr db
      else updateRunNode runId (rn_node_id n) (\<lambda>m. m\<lparr>rn_lifecycle_state := NodeTerminal,
             rn_terminal_outcome := Some NodeRejected, rn_status_summary := ''cancelled'',
             rn_error_code := Some ''automation_run_cancelled'', rn_error_message := Some message,
             rn_ended_at := Some now\<rparr>) now db)"

definition cancel_run :: "run_view \<Rightarrow> string \<Rightarrow> string \<Rightarrow> automation_db \<Rightarrow> string + automation_db" where
  "cancel_run view message now db =
     (let runId = ar_run_id (rv_run view)
      in and_then (fold_result (\<lambda>db n. cancel_node runId message now n db) db (rv_nodes view)) (\<lambda>db'.
           updateRun runId (\<lambda>r. r\<lparr>ar_lifecycle_state := RunTerminal, ar_terminal_outcome := Some RunCancelled,
             ar_status_summary := ''cancelled'', ar_root_cause_code := Some ''automation_run_cancelled'',
             ar_root_cause_node_id := ar_root_cause_node_id (rv_run view), ar_root_cause_message := Some message,
             ar_summary_json := summarizeRunNodes (listRunNodes runId db'), ar_ended_at := Some now,
             ar_pause_reason := None\<rparr>) now db'))"

definition automationRunCancelLite ::
  "string option \<Rightarrow> string option \<Rightarrow> string \<Rightarrow> string option \<Rightarrow> automation_defaults \<Rightarrow> string \<Rightarrow> run_view act" where
  "automationRunCancelLite tenant_id scope run_id reason d now =
     (let message = (case reason of Some s \<Rightarrow> s | None \<Rightarrow> ''automation run cancelled by operator'')
      in then_do (request_act (resolveTenantScope scope tenant_id (ad_defaultScope d) (ad_defaultTenantId d)))
        (\<lambda>tenancy. then_do (requireRunInScope (ts_tenant_id tenancy) (ts_scope tenancy) run_id) (\<lambda>view.
          if ar_lifecycle_state (rv_run view) = RunTerminal then
            throw_act (RequestError (load_error 409 ''automation_run_not_cancellable'' ''automation run is already terminal''
              [(''run_id'', JStr run_id), (''lifecycle_state'', JStr ''terminal''),
               (''terminal_outcome'', str_or_null (map_option run_outcome_name (ar_terminal_outcome (rv_run view))))]))
          else then_do (write_act (cancel_run view message now)) (\<lambda>_.
            requireRunInScope (ts_tenant_id tenancy) (ts_scope tenancy) (ar_run_id (rv_run view))))))"

text \<open>The lists and single reads.\<close>

definition automationGetLite ::
  "string option \<Rightarrow> string option \<Rightarrow> string \<Rightarrow> nat option \<Rightarrow> automation_defaults \<Rightarrow> automation_db
    \<Rightarrow> http_error + definition_view" where
  "automationGetLite tenant_id scope automation_id version d db =
     and_then (resolveTenantScope scope tenant_id (ad_defaultScope d) (ad_defaultTenantId d)) (\<lambda>tenancy.
       loadDefinitionForExecution (ts_tenant_id tenancy, ts_scope tenancy, automation_id) version db)"

definition automationRunGetLite ::
  "string option \<Rightarrow> string option \<Rightarrow> string \<Rightarrow> bool \<Rightarrow> automation_defaults \<Rightarrow> run_view act" where
  "automationRunGetLite tenant_id scope run_id include_nodes d =
     then_do (request_act (resolveTenantScope scope tenant_id (ad_defaultScope d) (ad_defaultTenantId d)))
       (\<lambda>tenancy. then_do (requireRunInScope (ts_tenant_id tenancy) (ts_scope tenancy) run_id) (\<lambda>view.
         return_act (if include_nodes then view else view\<lparr>rv_nodes := []\<rparr>)))"

definition automationValidateLite ::
  "string option \<Rightarrow> string option \<Rightarrow> automation_graph \<Rightarrow> automation_defaults
    \<Rightarrow> http_error + tenant_scope \<times> jv \<times> graph_validation" where
  "automationValidateLite tenant_id scope g d =
     and_then (resolveTenantScope scope tenant_id (ad_defaultScope d) (ad_defaultTenantId d)) (\<lambda>tenancy.
       and_then (validateAutomationGraph g) (\<lambda>v. Inr (tenancy, summarizeGraph g v, v)))"

definition buildLiteUnsupportedDetails ::
  "string \<Rightarrow> string \<Rightarrow> string option \<Rightarrow> string option \<Rightarrow> string list option \<Rightarrow> jv" where
  "buildLiteUnsupportedDetails route surface routeGroup reason unsupported =
     JObj [(''contract'', JStr ''lite_error_v1''), (''edition'', JStr ''lite''), (''supported_in_lite'', JBool False),
           (''route'', JStr route), (''surface'', JStr surface), (''route_group'', str_or_null routeGroup),
           (''reason'', str_or_null reason),
           (''unsupported'', JArr (map JStr (case unsupported of Some us \<Rightarrow> us | None \<Rightarrow> [])))]"

definition buildLiteAutomationUnsupportedDetails :: "string \<Rightarrow> string list \<Rightarrow> string \<Rightarrow> jv" where
  "buildLiteAutomationUnsupportedDetails route unsupported reason =
     buildLiteUnsupportedDetails route ''automation_governance'' None (Some reason) (Some unsupported)"

definition feature_not_supported :: "string \<Rightarrow> string list \<Rightarrow> string \<Rightarrow> http_error" where
  "feature_not_supported route unsupported reason =
     \<lparr>he_statusCode = 501, he_code = ''automation_feature_not_supported_in_lite'', he_message = reason,
      he_details = Some (buildLiteAutomationUnsupportedDetails route unsupported reason)\<rparr>"

definition automationListLite ::
  "string option \<Rightarrow> string option \<Rightarrow> def_status option \<Rightarrow> bool \<Rightarrow> string option \<Rightarrow> nat
    \<Rightarrow> automation_defaults \<Rightarrow> automation_db \<Rightarrow> http_error + tenant_scope \<times> definition_view list" where
  "automationListLite tenant_id scope status promotion_only reviewer n d db =
     (if promotion_only then
        Inl (feature_not_supported ''/v1/automations/list'' [''promotion_only'']
          ''promotion-only listing is not supported in lite automation kernel'')
      else if reviewer \<noteq> None \<and> reviewer \<noteq> Some [] then
        Inl (feature_not_supported ''/v1/automations/list'' [''reviewer'']
          ''reviewer-scoped listing is not supported in lite automation kernel'')
      else and_then (resolveTenantScope scope tenant_id (ad_defaultScope d) (ad_defaultTenantId d)) (\<lambda>tenancy.
        Inr (tenancy, listDefinitions (ts_tenant_id tenancy) (ts_scope tenancy) status n db)))"

record run_list_request =
  rql_tenant_id :: "string option"
  rql_scope :: "string option"
  rql_automation_id :: "string option"
  rql_actionable_only :: bool
  rql_compensation_only :: bool
  rql_reviewer :: "string option"
  rql_compensation_owner :: "string option"
  rql_escalation_owner :: "string option"
  rql_workflow_bucket :: "string option"
  rql_sla_status :: "string option"
  rql_limit :: nat

definition unsupported_filters :: "run_list_request \<Rightarrow> string list" where
  "unsupported_filters q =
     (let given = (\<lambda>v. v \<noteq> None \<and> v \<noteq> Some [])
      in map fst (filter snd
        [(''actionable_only'', rql_actionable_only q), (''compensation_only'', rql_compensation_only q),
         (''reviewer'', given (rql_reviewer q)), (''compensation_owner'', given (rql_compensation_owner q)),
         (''escalation_owner'', given (rql_escalation_owner q)), (''workflow_bucket'', given (rql_workflow_bucket q)),
         (''sla_status'', given (rql_sla_status q))]))"

definition automationRunListLite ::
  "run_list_request \<Rightarrow> automation_defaults \<Rightarrow> automation_db \<Rightarrow> http_error + tenant_scope \<times> automation_run list" where
  "automationRunListLite q d db =
     (if unsupported_filters q \<noteq> [] then
        Inl (feature_not_supported ''/v1/automations/runs/list'' (unsupported_filters q)
          ''advanced run inbox filters are not supported in lite automation kernel'')
      else and_then (resolveTenantScope (rql_scope q) (rql_tenant_id q) (ad_defaultScope d) (ad_defaultTenantId d)) (\<lambda>tenancy.
        Inr (tenancy, listRuns (ts_tenant_id tenancy) (ts_scope tenancy) (rql_automation_id q) (rql_limit q) db)))"

section \<open>The kernel as a transition system\<close>

record automation =
  am_db :: automation_db
  am_calls :: "(nat \<times> pending_call) list"
  am_next :: nat

definition automation_new :: automation where
  "automation_new = \<lparr>am_db = empty_db, am_calls = [], am_next = 0\<rparr>"

text \<open>The state after a part of the loop: a suspended run is added to the calls.\<close>

definition loop_state :: "automation \<Rightarrow> run_context \<Rightarrow> automation_db \<Rightarrow> loop_end \<Rightarrow> automation" where
  "loop_state a c db out =
     (case out of
        RunReturned _ \<Rightarrow> a\<lparr>am_db := db\<rparr>
      | RunSuspended nodeId node inputs rest outs \<Rightarrow>
          a\<lparr>am_db := db,
            am_calls := am_calls a @ [(am_next a, \<lparr>pc_context = c, pc_nodeId = nodeId, pc_node = node,
                                        pc_inputs = inputs, pc_rest = rest, pc_outputs = outs\<rparr>)],
            am_next := am_next a + 1\<rparr>)"

definition drop_call :: "nat \<Rightarrow> automation \<Rightarrow> automation" where
  "drop_call n a = a\<lparr>am_calls := filter (\<lambda>e. fst e \<noteq> n) (am_calls a)\<rparr>"

definition request_state :: "automation \<Rightarrow> (automation_error + run_context \<times> loop_end) \<times> automation_db \<Rightarrow> automation" where
  "request_state a res =
     (case res of (Inl _, db) \<Rightarrow> a\<lparr>am_db := db\<rparr> | (Inr (c, out), db) \<Rightarrow> loop_state a c db out)"

definition settle_state ::
  "(jv \<Rightarrow> jv \<Rightarrow> bool) \<Rightarrow> nat \<Rightarrow> pending_call \<Rightarrow> replay_result \<Rightarrow> string \<Rightarrow> automation \<Rightarrow> automation" where
  "settle_state same n p out now a =
     (case settle_replay same p out now (am_db a) of
        (Inl _, db) \<Rightarrow> (drop_call n a)\<lparr>am_db := db\<rparr>
      | (Inr res, db) \<Rightarrow> loop_state (drop_call n a) (pc_context p) db res)"

inductive automation_step :: "(jv \<Rightarrow> jv \<Rightarrow> bool) \<Rightarrow> automation \<Rightarrow> automation \<Rightarrow> bool" for same where
  created: "automationCreateLite q d now (am_db a) = Inr (v, db) \<Longrightarrow> automation_step same a (a\<lparr>am_db := db\<rparr>)"
| started: "automation_step same a (request_state a (automationRunLite same q d newId now (am_db a)))"
| resumed: "automation_step same a
    (request_state a (automationRunResumeLite same tenant_id scope actor run_id reason d now (am_db a)))"
| cancelled: "automation_step same a
    (a\<lparr>am_db := snd (automationRunCancelLite tenant_id scope run_id reason d now (am_db a))\<rparr>)"
| settled: "(n, p) \<in> set (am_calls a) \<Longrightarrow> automation_step same a (settle_state same n p out now a)"
| threw: "(n, p) \<in> set (am_calls a) \<Longrightarrow> automation_step same a (drop_call n a)"

end
