(* ===== verification/AutomationOrder.thy ===== *)
theory AutomationOrder
  imports AutomationGraph
begin

text \<open>
  What \<open>validateAutomationGraph\<close> accepts and returns: the search of \<open>hasGraphPath\<close> decides
  reachability, the topological sort orders the nodes exactly when the edges are acyclic, and a
  graph passes exactly when it is well formed (\<open>graph_wf\<close>).
\<close>

section \<open>The search decides reachability\<close>

definition successor :: "(string, string list) js_map \<Rightarrow> (string \<times> string) set" where
  "successor m = {(a, b). b \<in> set (map_list m a)}"

lemma path_search_sound: "path_search m to seen q \<Longrightarrow> \<exists>x \<in> set q. (x, to) \<in> (successor m)\<^sup>*"
proof (induction m to seen q rule: path_search.induct)
  case (2 m to seen nodeId queue)
  show ?case
  proof (cases "nodeId = to")
    case False
    show ?thesis
    proof (cases "nodeId \<in> set seen")
      case True
      with 2 False show ?thesis by simp
    next
      case new: False
      with 2 False obtain x where x: "x \<in> set queue \<or> x \<in> set (map_list m nodeId)" "(x, to) \<in> (successor m)\<^sup>*"
        by auto
      then show ?thesis
        by (auto simp: successor_def intro: converse_rtrancl_into_rtrancl)
    qed
  qed simp
qed simp

lemma path_search_complete:
  assumes "successor m `` set seen \<subseteq> set seen \<union> set q" "to \<notin> set seen"
    "x \<in> set seen \<union> set q" "(x, to) \<in> (successor m)\<^sup>*"
  shows "path_search m to seen q"
  using assms
proof (induction m to seen q arbitrary: x rule: path_search.induct)
  case (1 m to seen)
  then have "(successor m)\<^sup>* `` set seen = set seen" by (intro Image_closed_trancl) auto
  with 1 show ?case by auto
next
  case (2 m to seen nodeId queue)
  show ?case
  proof (cases "nodeId = to")
    case False
    show ?thesis
    proof (cases "nodeId \<in> set seen")
      case True
      then have "path_search m to seen queue"
        by (intro 2(1) [OF False True, of x]) (use 2(3-6) True in auto)
      then show ?thesis using True by simp
    next
      case new: False
      let ?q = "queue @ filter (\<lambda>n. n \<notin> set (nodeId # seen)) (map_list m nodeId)"
      have "path_search m to (nodeId # seen) ?q"
      proof (rule 2(2) [OF False new, of x])
        show "successor m `` set (nodeId # seen) \<subseteq> set (nodeId # seen) \<union> set ?q"
          using 2(3) by (auto simp: successor_def)
      qed (use 2(4-6) False in auto)
      then show ?thesis using new by simp
    qed
  qed simp
qed

lemma hasGraphPath_iff: "hasGraphPath a b m \<longleftrightarrow> (a, b) \<in> (successor m)\<^sup>*"
proof (cases "a = b")
  case False
  have "path_search m b [a] (map_list m a) \<longleftrightarrow> (a, b) \<in> (successor m)\<^sup>*"
  proof
    assume "path_search m b [a] (map_list m a)"
    then obtain x where "x \<in> set (map_list m a)" "(x, b) \<in> (successor m)\<^sup>*" using path_search_sound by blast
    then show "(a, b) \<in> (successor m)\<^sup>*"
      by (auto simp: successor_def intro: converse_rtrancl_into_rtrancl)
  next
    assume "(a, b) \<in> (successor m)\<^sup>*"
    then show "path_search m b [a] (map_list m a)"
      by (intro path_search_complete [of m "[a]" _ b a]) (use False in \<open>auto simp: successor_def\<close>)
  qed
  then show ?thesis using False by (simp add: hasGraphPath_def)
qed (simp add: hasGraphPath_def)

section \<open>The topological sort\<close>

text \<open>The edges as pairs; an edge given twice counts twice.\<close>

type_synonym arcs = "(string \<times> string) list"

definition targets :: "arcs \<Rightarrow> string \<Rightarrow> string list" where
  "targets E a = map snd (filter (\<lambda>e. fst e = a) E)"

text \<open>Every node comes after the nodes that have an edge to it.\<close>

definition forward :: "arcs \<Rightarrow> string list \<Rightarrow> bool" where
  "forward E ord \<longleftrightarrow> (\<forall>xs n ys. ord = xs @ n # ys \<longrightarrow> (\<forall>a. (a, n) \<in> set E \<longrightarrow> a \<in> set xs))"

lemma forward_Nil [simp]: "forward E []"
  by (simp add: forward_def)

lemma forward_snoc:
  "forward E (ord @ [n]) \<longleftrightarrow> forward E ord \<and> (\<forall>a. (a, n) \<in> set E \<longrightarrow> a \<in> set ord)"
  (is "?l \<longleftrightarrow> ?r")
proof
  assume l: ?l
  have "forward E ord"
    unfolding forward_def
  proof (intro allI impI)
    fix xs k ys a assume "ord = xs @ k # ys" "(a, k) \<in> set E"
    then have "ord @ [n] = xs @ k # (ys @ [n])" by simp
    with l \<open>(a, k) \<in> set E\<close> show "a \<in> set xs" unfolding forward_def by blast
  qed
  moreover have "\<forall>a. (a, n) \<in> set E \<longrightarrow> a \<in> set ord" using l unfolding forward_def by blast
  ultimately show ?r by blast
next
  assume r: ?r
  show ?l
    unfolding forward_def
  proof (intro allI impI)
    fix xs k ys a assume e: "ord @ [n] = xs @ k # ys" "(a, k) \<in> set E"
    show "a \<in> set xs"
    proof (cases ys rule: rev_cases)
      case Nil
      with e r show ?thesis by auto
    next
      case (snoc ys' y)
      with e have "ord = xs @ k # ys'" by auto
      with e r show ?thesis unfolding forward_def by blast
    qed
  qed
qed

lemma count_list_insert_by: "count_list (insert_by le x ys) k = count_list (x # ys) k"
  by (induction le x ys rule: insert_by.induct) auto

lemma count_list_sort_by: "count_list (sort_by le xs) k = count_list xs k"
  by (induction xs) (auto simp: sort_by_def count_list_insert_by)

lemma take_edges_effect:
  assumes "take_edges ns work queue = (work', queue')"
  shows "map_int work' k = map_int work k - int (count_list ns k)"
    and "\<exists>new. queue' = queue @ new \<and> distinct new
      \<and> set new = {j. 0 < map_int work j \<and> map_int work j \<le> int (count_list ns j)}"
proof -
  have "(\<forall>k. map_int work' k = map_int work k - int (count_list ns k))
    \<and> (\<exists>new. queue' = queue @ new \<and> distinct new
        \<and> set new = {j. 0 < map_int work j \<and> map_int work j \<le> int (count_list ns j)})"
    using assms
  proof (induction ns work queue arbitrary: work' queue' rule: take_edges.induct)
    case (2 nxt ns work queue)
    let ?r = "map_int work nxt - 1"
    let ?w = "map_set nxt ?r work"
    let ?d = "if ?r = 0 then [nxt] else []"
    obtain new where new: "\<forall>k. map_int work' k = map_int ?w k - int (count_list ns k)"
      "queue' = (if ?r = 0 then queue @ [nxt] else queue) @ new" "distinct new"
      "set new = {j. 0 < map_int ?w j \<and> map_int ?w j \<le> int (count_list ns j)}"
      using 2(1) [OF refl, of work' queue'] 2(2) by (auto simp: Let_def)
    have w: "map_int ?w j = map_int work j - (if j = nxt then 1 else 0)" for j
      by (simp add: map_int_set)
    have "queue' = queue @ ?d @ new" using new(2) by simp
    moreover have "distinct (?d @ new)" using new(3,4) w by auto
    moreover have "set (?d @ new) = {j. 0 < map_int work j \<and> map_int work j \<le> int (count_list (nxt # ns) j)}"
      using new(4) unfolding w by auto
    moreover have "\<forall>k. map_int work' k = map_int work k - int (count_list (nxt # ns) k)"
      using new(1) unfolding w by auto
    ultimately show ?case by blast
  qed auto
  then show "map_int work' k = map_int work k - int (count_list ns k)"
    "\<exists>new. queue' = queue @ new \<and> distinct new
      \<and> set new = {j. 0 < map_int work j \<and> map_int work j \<le> int (count_list ns j)}"
    by blast+
qed

text \<open>What is left of a node's edges when the nodes of \<open>taken\<close> have been taken.\<close>

definition open_edges :: "arcs \<Rightarrow> string list \<Rightarrow> string \<Rightarrow> nat" where
  "open_edges E taken k = length (filter (\<lambda>e. snd e = k \<and> fst e \<notin> set taken) E)"

lemma open_edges_snoc:
  "n \<notin> set taken \<Longrightarrow> open_edges E taken k = open_edges E (taken @ [n]) k + count_list (targets E n) k"
  unfolding open_edges_def targets_def by (induction E) auto

lemma open_edges_zero: "open_edges E taken k = 0 \<longleftrightarrow> (\<forall>a. (a, k) \<in> set E \<longrightarrow> a \<in> set taken)"
  by (auto simp: open_edges_def filter_empty_conv)

definition sort_inv ::
  "string list \<Rightarrow> arcs \<Rightarrow> (string, int) js_map \<Rightarrow> string list \<Rightarrow> string list \<Rightarrow> bool" where
  "sort_inv V E work ord queue \<longleftrightarrow>
     distinct (ord @ queue) \<and> set (ord @ queue) \<subseteq> set V \<and> forward E ord
     \<and> (\<forall>k \<in> set V. map_int work k = int (open_edges E ord k))
     \<and> (\<forall>k \<in> set V. k \<in> set (ord @ queue) \<longleftrightarrow> open_edges E ord k = 0)"

lemma sort_inv_step:
  assumes "sort_inv V E work ord (n # queue)" "set E \<subseteq> set V \<times> set V"
    "set (map_list m n) = set (targets E n)" "\<And>k. count_list (map_list m n) k = count_list (targets E n) k"
    "take_edges (js_sort (map_list m n)) work queue = (work', queue')"
  shows "sort_inv V E work' (ord @ [n]) queue'"
proof -
  note inv = assms(1) [unfolded sort_inv_def]
  let ?c = "\<lambda>k. count_list (targets E n) k"
  obtain new where w: "\<And>k. map_int work' k = map_int work k - int (?c k)"
    and new: "queue' = queue @ new" "distinct new"
      "set new = {k. 0 < map_int work k \<and> map_int work k \<le> int (?c k)}"
    using take_edges_effect [OF assms(5)] by (auto simp: count_list_sort_by assms(4))
  have n: "n \<notin> set ord" "n \<in> set V" using inv by auto
  have split: "open_edges E ord k = open_edges E (ord @ [n]) k + ?c k" for k
    by (rule open_edges_snoc [OF n(1)])
  have target: "k \<in> set V" if "?c k \<noteq> 0" for k
  proof -
    have "k \<in> set (targets E n)" using that by (meson count_list_0_iff)
    then show ?thesis using assms(2) by (auto simp: targets_def)
  qed
  have newV: "k \<in> set V \<and> open_edges E ord k \<noteq> 0 \<and> open_edges E (ord @ [n]) k = 0" if "k \<in> set new" for k
  proof -
    have p: "0 < map_int work k" "map_int work k \<le> int (?c k)" using that new(3) by auto
    then have "k \<in> set V" by (intro target) auto
    with p inv split [of k] show ?thesis by auto
  qed
  have now: "k \<in> set (ord @ [n] @ queue @ new) \<longleftrightarrow> open_edges E (ord @ [n]) k = 0" if "k \<in> set V" for k
  proof
    assume "k \<in> set (ord @ [n] @ queue @ new)"
    then have "open_edges E ord k = 0 \<or> k \<in> set new" using inv that by auto
    then show "open_edges E (ord @ [n]) k = 0" using newV [of k] split [of k] by auto
  next
    assume z: "open_edges E (ord @ [n]) k = 0"
    show "k \<in> set (ord @ [n] @ queue @ new)"
    proof (cases "open_edges E ord k = 0")
      case True
      then show ?thesis using inv that by auto
    next
      case False
      then have "0 < map_int work k" "map_int work k \<le> int (?c k)" using inv that z split [of k] by auto
      then have "k \<in> set new" using new(3) by blast
      then show ?thesis by simp
    qed
  qed
  have "forward E (ord @ [n])"
    unfolding forward_snoc using inv n open_edges_zero [of E ord n] by auto
  moreover have "distinct ((ord @ [n]) @ queue')"
  proof -
    have disjoint: "k \<notin> set (ord @ n # queue)" if "k \<in> set new" for k
      using newV [OF that] conjunct2 [OF conjunct2 [OF conjunct2 [OF conjunct2 [OF inv]]]] by metis
    have "distinct (ord @ n # queue)" by (rule conjunct1 [OF inv])
    then have "distinct ((ord @ n # queue) @ new)"
      unfolding distinct_append [of "ord @ n # queue"] using new(2) disjoint by blast
    then show ?thesis by (simp add: new(1))
  qed
  moreover have "set ((ord @ [n]) @ queue') \<subseteq> set V"
  proof -
    have "set (ord @ n # queue) \<subseteq> set V" "set new \<subseteq> set V" using inv newV by blast+
    then show ?thesis by (simp add: new(1))
  qed
  moreover have "\<forall>k \<in> set V. map_int work' k = int (open_edges E (ord @ [n]) k)"
    using inv split w by auto
  moreover have "\<forall>k \<in> set V. k \<in> set ((ord @ [n]) @ queue') \<longleftrightarrow> open_edges E (ord @ [n]) k = 0"
    using now new(1) by auto
  ultimately show ?thesis unfolding sort_inv_def by blast
qed

lemma topological_sort_inv:
  assumes "sort_inv V E work ord queue" "set E \<subseteq> set V \<times> set V"
    "\<And>n. n \<in> set V \<Longrightarrow> map_list m n = targets E n"
  shows "\<exists>work'. sort_inv V E work' (topological_sort m work ord queue) []"
  using assms
proof (induction m work ord queue rule: topological_sort.induct)
  case (2 m work ord n queue)
  obtain work' queue' where s: "take_edges (js_sort (map_list m n)) work queue = (work', queue')"
    by fastforce
  have "map_list m n = targets E n" using 2(2,4) by (auto simp: sort_inv_def)
  then have "sort_inv V E work' (ord @ [n]) queue'"
    by (intro sort_inv_step [OF 2(2,3) _ _ s]) simp_all
  with 2(1) [OF s [symmetric]] 2(3,4) s show ?case by simp
qed auto

text \<open>An order of all nodes exists exactly when there is no cycle.\<close>

lemma forward_acyclic:
  assumes "forward E ord" "fst ` set E \<subseteq> set ord" "snd ` set E \<subseteq> set ord" "distinct ord"
  shows "acyclic (set E)"
proof -
  let ?i = "\<lambda>n. length (takeWhile (\<lambda>k. k \<noteq> n) ord)"
  have less: "?i a < ?i b" if ab: "(a, b) \<in> set E" for a b
  proof -
    have "b \<in> set ord" using assms(3) ab by force
    then obtain xs ys where o: "ord = xs @ b # ys" "b \<notin> set xs" by (meson split_list_first)
    then have "a \<in> set xs" using assms(1) ab unfolding forward_def by blast
    then obtain us vs where x: "xs = us @ a # vs" "a \<notin> set us" by (meson split_list_first)
    have "takeWhile (\<lambda>k. k \<noteq> b) ord = xs" using o by (simp add: takeWhile_append takeWhile_all)
    moreover have "takeWhile (\<lambda>k. k \<noteq> a) ord = us"
      using o x by (simp add: takeWhile_append takeWhile_all)
    ultimately show ?thesis using x by simp
  qed
  have "?i a < ?i b" if "(a, b) \<in> (set E)\<^sup>+" for a b
    using that by (induction rule: trancl_induct) (blast dest: less intro: less_trans)+
  then show ?thesis by (auto simp: acyclic_def)
qed

lemma sort_inv_all:
  assumes "sort_inv V E work ord []" "set E \<subseteq> set V \<times> set V" "acyclic (set E)"
  shows "set ord = set V"
proof (rule ccontr)
  assume "set ord \<noteq> set V"
  then obtain v where v: "v \<in> set V - set ord" using assms(1) by (auto simp: sort_inv_def)
  have "wf (set E)" using assms(3) finite_acyclic_wf by blast
  then obtain z where z: "z \<in> set V - set ord" "\<And>y. (y, z) \<in> set E \<Longrightarrow> y \<notin> set V - set ord"
    using v by (metis wfE_min)
  then have "open_edges E ord z = 0" using assms(2) by (auto simp: open_edges_zero)
  with z(1) assms(1) show False by (auto simp: sort_inv_def)
qed

section \<open>The tables of a graph\<close>

abbreviation node_ids :: "automation_graph \<Rightarrow> string list" where
  "node_ids g \<equiv> map an_node_id (ag_nodes g)"

definition arcs_of :: "automation_edge list \<Rightarrow> arcs" where
  "arcs_of es = map (\<lambda>e. (ae_from e, ae_to e)) es"

abbreviation graph_rel :: "automation_graph \<Rightarrow> (string \<times> string) set" where
  "graph_rel g \<equiv> set (arcs_of (ag_edges g))"

definition edge_ok :: "string set \<Rightarrow> automation_edge \<Rightarrow> bool" where
  "edge_ok V e \<longleftrightarrow> ae_from e \<in> V \<and> ae_to e \<in> V \<and> ae_from e \<noteq> ae_to e \<and> ae_type e \<noteq> OnFailure"

lemma fold_node_ids:
  "fold add_node_id ns (ids, iss) = (ids', iss') \<Longrightarrow>
     (iss' = [] \<longleftrightarrow> iss = [] \<and> distinct (map an_node_id ns) \<and> set (map an_node_id ns) \<inter> set ids = {})
     \<and> (iss' = [] \<longrightarrow> ids' = ids @ map an_node_id ns)
     \<and> set ids' = set ids \<union> set (map an_node_id ns)"
proof (induction ns arbitrary: ids iss)
  case (Cons n ns)
  show ?case
  proof (cases "an_node_id n \<in> set ids")
    case True
    then show ?thesis using Cons.prems Cons.IH [of ids "iss @ _"] by (auto simp: add_node_id_def)
  next
    case False
    then show ?thesis using Cons.prems Cons.IH [of "ids @ [an_node_id n]" iss] by (auto simp: add_node_id_def)
  qed
qed simp

lemma graph_node_ids_ok:
  "snd (graph_node_ids g) = [] \<longleftrightarrow> distinct (node_ids g)"
  "distinct (node_ids g) \<Longrightarrow> fst (graph_node_ids g) = node_ids g"
  using fold_node_ids [of "ag_nodes g" "[]" "[]" "fst (graph_node_ids g)" "snd (graph_node_ids g)"]
  by (simp_all add: graph_node_ids_def)

lemma add_edge_issues: "gt_issues (add_edge V e t) = [] \<longleftrightarrow> gt_issues t = [] \<and> edge_ok (set V) e"
  by (auto simp: add_edge_def Let_def edge_ok_def)

lemma fold_edge_issues:
  "gt_issues (fold (add_edge V) es t) = [] \<longleftrightarrow> gt_issues t = [] \<and> list_all (edge_ok (set V)) es"
  by (induction es arbitrary: t) (auto simp: add_edge_issues)

lemma map_list_push: "map_list (map_push k x m) j = (if j = k then map_list m k @ [x] else map_list m j)"
  by (simp add: map_list_def map_push_def js_map.get_put)

lemma add_edge_tables:
  assumes "edge_ok (set V) e"
  shows "map_list (gt_outgoing (add_edge V e t)) a
      = map_list (gt_outgoing t) a @ (if ae_from e = a then [ae_to e] else [])"
    "map_list (gt_incoming (add_edge V e t)) a
      = map_list (gt_incoming t) a @ (if ae_to e = a then [ae_from e] else [])"
    "map_int (gt_indegree (add_edge V e t)) a
      = map_int (gt_indegree t) a + (if ae_to e = a then 1 else 0)"
  using assms by (auto simp: add_edge_def edge_ok_def map_list_push map_int_set)

lemma fold_edge_tables:
  assumes "list_all (edge_ok (set V)) es"
  shows "map_list (gt_outgoing (fold (add_edge V) es t)) a = map_list (gt_outgoing t) a @ targets (arcs_of es) a"
    and "map_list (gt_incoming (fold (add_edge V) es t)) a
      = map_list (gt_incoming t) a @ map fst (filter (\<lambda>e. snd e = a) (arcs_of es))"
    and "map_int (gt_indegree (fold (add_edge V) es t)) a
      = map_int (gt_indegree t) a + int (length (filter (\<lambda>e. snd e = a) (arcs_of es)))"
  using assms
  by (induction es arbitrary: t) (simp_all add: add_edge_tables targets_def arcs_of_def)

lemma map_list_empty: "map_list (map (\<lambda>k. (k, [])) ks) a = []"
  by (induction ks) (auto simp: map_list_def map_get_def)

lemma map_int_zero: "map_int (map (\<lambda>k. (k, 0)) ks) a = 0"
  by (induction ks) (auto simp: map_int_def map_get_def)

definition graph_edges_ok :: "automation_graph \<Rightarrow> bool" where
  "graph_edges_ok g \<longleftrightarrow> distinct (node_ids g) \<and> list_all (edge_ok (set (node_ids g))) (ag_edges g)"

lemma graph_edges_issues: "gt_issues (graph_edges g) = [] \<longleftrightarrow> graph_edges_ok g"
proof -
  have "gt_issues (graph_edges g) = [] \<longleftrightarrow>
      snd (graph_node_ids g) = [] \<and> list_all (edge_ok (set (fst (graph_node_ids g)))) (ag_edges g)"
    by (simp add: graph_edges_def case_prod_beta fold_edge_issues)
  then show ?thesis using graph_node_ids_ok [of g] by (auto simp: graph_edges_ok_def)
qed

lemma graph_tables:
  assumes "graph_edges_ok g"
  shows "map_list (gt_outgoing (graph_edges g)) a = targets (arcs_of (ag_edges g)) a"
    "map_list (gt_incoming (graph_edges g)) a = map fst (filter (\<lambda>e. snd e = a) (arcs_of (ag_edges g)))"
    "map_int (gt_indegree (graph_edges g)) a = int (open_edges (arcs_of (ag_edges g)) [] a)"
    "fst (graph_node_ids g) = node_ids g"
  using assms graph_node_ids_ok [of g]
  by (simp_all add: graph_edges_def graph_edges_ok_def case_prod_beta fold_edge_tables map_list_empty
      map_int_zero open_edges_def del: map_map set_map)

lemma graph_edges_in: "graph_edges_ok g \<Longrightarrow> graph_rel g \<subseteq> set (node_ids g) \<times> set (node_ids g)"
  by (auto simp: graph_edges_ok_def list_all_iff edge_ok_def arcs_of_def)

lemma successor_graph: "graph_edges_ok g \<Longrightarrow> successor (gt_outgoing (graph_edges g)) = graph_rel g"
  by (force simp: successor_def graph_tables targets_def)

section \<open>Well-formed graphs\<close>

definition graph_wf :: "automation_graph \<Rightarrow> bool" where
  "graph_wf g \<longleftrightarrow> ag_nodes g \<noteq> [] \<and> graph_edges_ok g \<and> acyclic (graph_rel g)
     \<and> (\<forall>n \<in> set (ag_nodes g). \<forall>r \<in> set (node_refs n). (r, an_node_id n) \<in> (graph_rel g)\<^sup>+)"

lemma start_nodes_ok:
  assumes "graph_edges_ok g"
  shows "start_nodes g = filter (\<lambda>k. open_edges (arcs_of (ag_edges g)) [] k = 0) (node_ids g)"
  using assms by (simp add: start_nodes_def graph_tables open_edges_def filter_empty_conv)

lemma start_inv:
  assumes "graph_edges_ok g"
  shows "sort_inv (node_ids g) (arcs_of (ag_edges g)) (gt_indegree (graph_edges g)) [] (js_sort (start_nodes g))"
  using assms by (auto simp: sort_inv_def graph_tables start_nodes_ok graph_edges_ok_def)

lemma graph_order_inv:
  assumes "graph_edges_ok g"
  obtains work where "sort_inv (node_ids g) (arcs_of (ag_edges g)) work (graph_order g) []"
  using topological_sort_inv [OF start_inv [OF assms] graph_edges_in [OF assms]] graph_tables(1) [OF assms]
  unfolding graph_order_def by metis

lemma graph_order_complete:
  assumes "graph_edges_ok g"
  shows "length (graph_order g) = length (node_ids g) \<longleftrightarrow> acyclic (graph_rel g)"
proof -
  obtain work where inv: "sort_inv (node_ids g) (arcs_of (ag_edges g)) work (graph_order g) []"
    by (rule graph_order_inv [OF assms])
  have d: "distinct (graph_order g)" "set (graph_order g) \<subseteq> set (node_ids g)" "distinct (node_ids g)"
    "forward (arcs_of (ag_edges g)) (graph_order g)"
    using inv assms by (auto simp: sort_inv_def graph_edges_ok_def)
  show ?thesis
  proof
    assume "length (graph_order g) = length (node_ids g)"
    then have "set (graph_order g) = set (node_ids g)"
      using d(1-3) by (metis card_subset_eq List.finite_set distinct_card)
    then show "acyclic (graph_rel g)"
      using graph_edges_in [OF assms] by (intro forward_acyclic [OF d(4) _ _ d(1)]) auto
  next
    assume "acyclic (graph_rel g)"
    from sort_inv_all [OF inv graph_edges_in [OF assms] this]
    show "length (graph_order g) = length (node_ids g)" using d by (metis distinct_card)
  qed
qed

lemma acyclic_has_start:
  assumes "graph_edges_ok g" "acyclic (graph_rel g)" "ag_nodes g \<noteq> []"
  shows "start_nodes g \<noteq> []"
proof
  assume s: "start_nodes g = []"
  have "wf (graph_rel g)" using assms(2) finite_acyclic_wf by blast
  moreover obtain n where "n \<in> set (node_ids g)" using assms(3) by (cases "ag_nodes g") auto
  ultimately obtain z where z: "z \<in> set (node_ids g)" "\<And>y. (y, z) \<in> graph_rel g \<Longrightarrow> y \<notin> set (node_ids g)"
    by (metis wfE_min)
  then have "open_edges (arcs_of (ag_edges g)) [] z = 0"
    using graph_edges_in [OF assms(1)] by (auto simp: open_edges_zero)
  then have "z \<in> set (start_nodes g)" using z(1) by (simp add: start_nodes_ok [OF assms(1)])
  with s show False by simp
qed

lemma ref_issue_None:
  assumes "graph_edges_ok g" "acyclic (graph_rel g)" "k \<in> set (node_ids g)"
  shows "ref_issue (node_ids g) (gt_outgoing (graph_edges g)) k r = None \<longleftrightarrow> (r, k) \<in> (graph_rel g)\<^sup>+"
proof -
  have "(r, k) \<in> (graph_rel g)\<^sup>+ \<Longrightarrow> r \<in> set (node_ids g) \<and> r \<noteq> k"
    using assms(2) graph_edges_in [OF assms(1)] unfolding acyclic_def by (meson SigmaD1 subsetD tranclD)
  then show ?thesis
    by (auto simp: ref_issue_def hasGraphPath_iff successor_graph [OF assms(1)] rtrancl_eq_or_trancl)
qed

lemma map_filter_Nil: "List.map_filter f xs = [] \<longleftrightarrow> (\<forall>x \<in> set xs. f x = None)"
  by (induction xs) (auto simp: List.map_filter_simps split: option.splits)

lemma graph_issues_iff: "graph_issues g = [] \<longleftrightarrow> graph_wf g"
proof (cases "graph_edges_ok g \<and> acyclic (graph_rel g) \<and> ag_nodes g \<noteq> []")
  case True
  then have ok: "graph_edges_ok g" "acyclic (graph_rel g)" "ag_nodes g \<noteq> []" by blast+
  have "binding_issues (node_ids g) (gt_outgoing (graph_edges g)) n = []
      \<longleftrightarrow> (\<forall>r \<in> set (node_refs n). (r, an_node_id n) \<in> (graph_rel g)\<^sup>+)" if "n \<in> set (ag_nodes g)" for n
    using that ref_issue_None [OF ok(1,2)] by (auto simp: binding_issues_def map_filter_Nil)
  then show ?thesis
    using ok graph_order_complete [OF ok(1)] acyclic_has_start [OF ok] graph_edges_issues [of g]
    by (auto simp: graph_issues_def graph_wf_def Let_def graph_tables(4) concat_eq_Nil_conv)
next
  case False
  have "graph_issues g \<noteq> []"
  proof (cases "graph_edges_ok g")
    case True
    have "start_nodes g = []" if "ag_nodes g = []" using that True by (simp add: start_nodes_ok)
    then show ?thesis
      using False True graph_order_complete [OF True] graph_tables(4) [OF True]
      by (auto simp: graph_issues_def Let_def)
  next
    case bad: False
    then show ?thesis using graph_edges_issues [of g] by (simp add: graph_issues_def Let_def)
  qed
  with False show ?thesis by (auto simp: graph_wf_def)
qed

lemma graph_order_ok:
  assumes "graph_wf g"
  shows "distinct (graph_order g)" "set (graph_order g) = set (node_ids g)"
    "forward (arcs_of (ag_edges g)) (graph_order g)"
proof -
  have ok: "graph_edges_ok g" "acyclic (graph_rel g)" using assms by (simp_all add: graph_wf_def)
  obtain work where inv: "sort_inv (node_ids g) (arcs_of (ag_edges g)) work (graph_order g) []"
    by (rule graph_order_inv [OF ok(1)])
  then show "distinct (graph_order g)" "forward (arcs_of (ag_edges g)) (graph_order g)"
    by (simp_all add: sort_inv_def)
  show "set (graph_order g) = set (node_ids g)"
    by (rule sort_inv_all [OF inv graph_edges_in [OF ok(1)] ok(2)])
qed

lemma validate_wf: "validateAutomationGraph g = Inr v \<Longrightarrow> graph_wf g"
  using graph_issues_iff [of g] by (auto simp: validateAutomationGraph_def split: if_splits)

lemma wf_validate:
  "graph_wf g \<Longrightarrow> validateAutomationGraph g
     = Inr \<lparr>gv_node_ids = node_ids g, gv_start_node_ids = js_sort (start_nodes g),
            gv_topological_order = graph_order g\<rparr>"
  using graph_issues_iff [of g]
  by (simp add: validateAutomationGraph_def graph_wf_def graph_tables(4))

end
