(* ===== verification/AutomationRunSafety.thy ===== *)
theory AutomationRunSafety
  imports AutomationRun AutomationOrder
begin

text \<open>
  What the automation kernel keeps, whatever the order of requests and answers: the nodes of a
  run succeed in the order of its graph, a run that goes on never starts a succeeded node again,
  and a reference of a node reads the stored output of the node it names.
\<close>

section \<open>Rows\<close>

abbreviation run_at :: "automation_db \<Rightarrow> string \<Rightarrow> automation_run option" where
  "run_at db i \<equiv> map_get (db_runs db) i"

abbreviation node_at :: "automation_db \<Rightarrow> string \<Rightarrow> string \<Rightarrow> run_node option" where
  "node_at db i k \<equiv> map_get (db_run_nodes db) (i, k)"

definition rows_wf :: "automation_db \<Rightarrow> bool" where
  "rows_wf db \<longleftrightarrow> distinct (keys (db_run_nodes db))
     \<and> (\<forall>i k n. node_at db i k = Some n \<longrightarrow> rn_run_id n = i \<and> rn_node_id n = k)
     \<and> (\<forall>i r. run_at db i = Some r \<longrightarrow> ar_run_id r = i)"

lemma map_get_SomeI: "distinct (keys m) \<Longrightarrow> (k, v) \<in> set m \<Longrightarrow> map_get m k = Some v"
  by (simp add: map_get_def)

lemma map_get_in: "map_get m k = Some v \<Longrightarrow> (k, v) \<in> set m"
  by (simp add: map_get_def map_of_SomeD)

lemma map_set_same: "map_get m k = Some v \<Longrightarrow> map_set k v m = m"
  by (induction k v m rule: map_set.induct) (auto simp: map_get_def)

lemma map_set_twice: "map_set k v (map_set k u m) = map_set k v m"
  by (induction k v m rule: map_set.induct) auto

lemma set_listRunNodes: "rows_wf db \<Longrightarrow> n \<in> set (listRunNodes i db) \<longleftrightarrow> (\<exists>k. node_at db i k = Some n)"
proof -
  assume wf: "rows_wf db"
  have "n \<in> set (listRunNodes i db) \<longleftrightarrow> (\<exists>k. ((i, k), n) \<in> set (db_run_nodes db))"
    unfolding listRunNodes_def set_sort_by by (auto simp: image_iff)
  moreover have "((i, k), n) \<in> set (db_run_nodes db) \<longleftrightarrow> node_at db i k = Some n" for k
    using wf unfolding rows_wf_def by (meson map_get_SomeI map_get_in)
  ultimately show ?thesis by blast
qed

lemma find_listRunNodes:
  assumes wf: "rows_wf db"
  shows "find (\<lambda>n. rn_node_id n = k) (listRunNodes i db) = node_at db i k"
proof (cases "find (\<lambda>n. rn_node_id n = k) (listRunNodes i db)")
  case None
  then have no: "\<not> (\<exists>n \<in> set (listRunNodes i db). rn_node_id n = k)" by (auto simp: find_None_iff)
  show ?thesis
  proof (cases "node_at db i k")
    case (Some n)
    then have "n \<in> set (listRunNodes i db)" "rn_node_id n = k"
      using set_listRunNodes [OF wf] wf by (auto simp: rows_wf_def)
    with no show ?thesis by blast
  qed (use None in simp)
next
  case (Some n)
  then have "n \<in> set (listRunNodes i db)" "rn_node_id n = k" by (auto simp: find_Some_iff)
  then obtain j where "node_at db i j = Some n" using set_listRunNodes [OF wf] by blast
  with wf \<open>rn_node_id n = k\<close> have "node_at db i k = Some n" unfolding rows_wf_def by blast
  with Some show ?thesis by simp
qed

text \<open>Every write of the kernel replaces a node row and a run row of one run.\<close>

definition put_rows :: "automation_db \<Rightarrow> string \<Rightarrow> string \<Rightarrow> run_node \<Rightarrow> automation_run \<Rightarrow> automation_db" where
  "put_rows db i k n r =
     db\<lparr>db_run_nodes := map_set (i, k) n (db_run_nodes db), db_runs := map_set i r (db_runs db)\<rparr>"

lemma put_rows_get [simp]:
  "node_at (put_rows db i k n r) j l = (if j = i \<and> l = k then Some n else node_at db j l)"
  "run_at (put_rows db i k n r) j = (if j = i then Some r else run_at db j)"
  "db_definitions (put_rows db i k n r) = db_definitions db"
  "db_versions (put_rows db i k n r) = db_versions db"
  by (auto simp: put_rows_def js_map.get_put)

lemma put_rows_twice [simp]: "put_rows (put_rows db i k n r) i k n' r' = put_rows db i k n' r'"
  by (simp add: put_rows_def map_set_twice)

lemma put_rows_wf:
  assumes "rows_wf db" "rn_run_id n = i" "rn_node_id n = k" "ar_run_id r = i"
  shows "rows_wf (put_rows db i k n r)"
proof -
  have "distinct (keys (db_run_nodes (put_rows db i k n r)))"
    using assms(1) by (simp add: put_rows_def rows_wf_def distinct_map_set)
  then show ?thesis using assms by (auto simp: rows_wf_def)
qed

definition put_run :: "automation_db \<Rightarrow> string \<Rightarrow> automation_run \<Rightarrow> automation_db" where
  "put_run db i r = db\<lparr>db_runs := map_set i r (db_runs db)\<rparr>"

lemma put_run_get [simp]:
  "node_at (put_run db i r) j l = node_at db j l"
  "run_at (put_run db i r) j = (if j = i then Some r else run_at db j)"
  "db_definitions (put_run db i r) = db_definitions db"
  "db_versions (put_run db i r) = db_versions db"
  by (auto simp: put_run_def js_map.get_put)

lemma put_run_wf: "rows_wf db \<Longrightarrow> ar_run_id r = i \<Longrightarrow> rows_wf (put_run db i r)"
  unfolding rows_wf_def by (simp add: put_run_def js_map.get_put)

section \<open>States of nodes\<close>

definition succeeded :: "run_node \<Rightarrow> bool" where
  "succeeded n \<longleftrightarrow> rn_lifecycle_state n = NodeTerminal \<and> rn_terminal_outcome n = Some NodeSucceeded"

definition rejected :: "run_node \<Rightarrow> bool" where
  "rejected n \<longleftrightarrow> rn_lifecycle_state n = NodeTerminal \<and> rn_terminal_outcome n = Some NodeRejected"

definition fresh :: "run_node \<Rightarrow> bool" where
  "fresh n \<longleftrightarrow> rn_lifecycle_state n \<in> {NodePending, NodeReady}"

definition failed :: "run_node \<Rightarrow> bool" where
  "failed n \<longleftrightarrow> rn_lifecycle_state n = NodeTerminal \<and> rn_terminal_outcome n = Some NodeFailed"

definition awaits_approval :: "run_node \<Rightarrow> bool" where
  "awaits_approval n \<longleftrightarrow> rn_lifecycle_state n = NodePaused \<and> rn_pause_reason n = Some NodeApprovalRequired"

definition all_nodes :: "(run_node \<Rightarrow> bool) \<Rightarrow> automation_db \<Rightarrow> string \<Rightarrow> string list \<Rightarrow> bool" where
  "all_nodes P db i ks \<longleftrightarrow> (\<forall>k \<in> set ks. \<exists>n. node_at db i k = Some n \<and> P n)"

lemma all_nodes_simps [simp]:
  "all_nodes P db i []"
  "all_nodes P db i (k # ks) \<longleftrightarrow> (\<exists>n. node_at db i k = Some n \<and> P n) \<and> all_nodes P db i ks"
  "all_nodes P db i (ks @ ls) \<longleftrightarrow> all_nodes P db i ks \<and> all_nodes P db i ls"
  by (auto simp: all_nodes_def)

lemma all_nodes_put:
  "k \<notin> set ks \<Longrightarrow> all_nodes P (put_rows db i k n r) i ks \<longleftrightarrow> all_nodes P db i ks"
  "all_nodes P (put_run db i r) i ks \<longleftrightarrow> all_nodes P db i ks"
  by (auto simp: all_nodes_def)

lemma all_nodes_mono: "all_nodes P db i ks \<Longrightarrow> (\<And>n. P n \<Longrightarrow> Q n) \<Longrightarrow> all_nodes Q db i ks"
  by (auto simp: all_nodes_def)

text \<open>What no write changes.\<close>

definition same_node :: "run_node \<Rightarrow> run_node \<Rightarrow> bool" where
  "same_node a b \<longleftrightarrow> rn_run_id b = rn_run_id a \<and> rn_node_id b = rn_node_id a \<and> rn_node_kind b = rn_node_kind a
     \<and> rn_depends_on b = rn_depends_on a"

definition same_run_row :: "automation_run \<Rightarrow> automation_run \<Rightarrow> bool" where
  "same_run_row a b \<longleftrightarrow> ar_run_id b = ar_run_id a \<and> ar_tenant_id b = ar_tenant_id a \<and> ar_scope b = ar_scope a
     \<and> ar_automation_id b = ar_automation_id a \<and> ar_automation_version b = ar_automation_version a
     \<and> ar_execution_mode b = ar_execution_mode a \<and> ar_params_json b = ar_params_json a"

definition evolves :: "string \<Rightarrow> automation_db \<Rightarrow> automation_db \<Rightarrow> bool" where
  "evolves i db db' \<longleftrightarrow> db_definitions db' = db_definitions db \<and> db_versions db' = db_versions db
     \<and> (\<forall>j k. j \<noteq> i \<longrightarrow> run_at db' j = run_at db j \<and> node_at db' j k = node_at db j k)
     \<and> (\<forall>r. run_at db i = Some r \<longrightarrow> (\<exists>r'. run_at db' i = Some r' \<and> same_run_row r r'))
     \<and> (\<forall>k. node_at db i k = None \<longrightarrow> node_at db' i k = None)
     \<and> (\<forall>k n. node_at db i k = Some n \<longrightarrow>
          (\<exists>n'. node_at db' i k = Some n' \<and> same_node n n' \<and> (succeeded n \<longrightarrow> n' = n)))"

lemma same_refl [simp]: "same_node n n" "same_run_row r r"
  by (simp_all add: same_node_def same_run_row_def)

lemma same_node_trans: "same_node a b \<Longrightarrow> same_node b c \<Longrightarrow> same_node a c"
  by (simp add: same_node_def)

lemma same_run_row_trans: "same_run_row a b \<Longrightarrow> same_run_row b c \<Longrightarrow> same_run_row a c"
  by (simp add: same_run_row_def)

lemma evolves_refl [simp]: "evolves i db db"
  by (auto simp: evolves_def)

lemma evolves_trans: "evolves i a b \<Longrightarrow> evolves i b c \<Longrightarrow> evolves i a c"
proof -
  assume a: "evolves i a b" and b: "evolves i b c"
  have "\<exists>r'. run_at c i = Some r' \<and> same_run_row r r'" if "run_at a i = Some r" for r
    using a b that same_run_row_trans unfolding evolves_def by (meson)
  moreover have "\<exists>n'. node_at c i k = Some n' \<and> same_node n n' \<and> (succeeded n \<longrightarrow> n' = n)"
    if n: "node_at a i k = Some n" for k n
  proof -
    obtain n1 where n1: "node_at b i k = Some n1" "same_node n n1" "succeeded n \<longrightarrow> n1 = n"
      using a n unfolding evolves_def by blast
    obtain n2 where n2: "node_at c i k = Some n2" "same_node n1 n2" "succeeded n1 \<longrightarrow> n2 = n1"
      using b n1(1) unfolding evolves_def by blast
    show ?thesis using n1 n2 same_node_trans by blast
  qed
  ultimately show "evolves i a c" using a b unfolding evolves_def by simp
qed

lemma evolves_put_rows:
  "node_at db i k = Some n \<Longrightarrow> run_at db i = Some r \<Longrightarrow> same_node n n' \<Longrightarrow> \<not> succeeded n \<Longrightarrow> same_run_row r r'
     \<Longrightarrow> evolves i db (put_rows db i k n' r')"
  by (auto simp: evolves_def)

lemma evolves_put_run: "run_at db i = Some r \<Longrightarrow> same_run_row r r' \<Longrightarrow> evolves i db (put_run db i r')"
  by (auto simp: evolves_def)

lemma evolves_all_succeeded: "evolves i db db' \<Longrightarrow> all_nodes succeeded db i ks \<Longrightarrow> all_nodes succeeded db' i ks"
  unfolding evolves_def all_nodes_def by metis

section \<open>The effect of a visit\<close>

definition ctx_ok :: "run_context \<Rightarrow> automation_db \<Rightarrow> automation_run \<Rightarrow> bool" where
  "ctx_ok c db r \<longleftrightarrow> run_at db (rc_run_id c) = Some r \<and> same_run_row (rc_run c) r
     \<and> rc_params c = ar_params_json (rc_run c)"

lemma reload_ok:
  "ctx_ok c db r \<Longrightarrow> reload c db = (Inr \<lparr>rv_run = r, rv_nodes = listRunNodes (rc_run_id c) db\<rparr>, db)"
  by (simp add: reload_def requireRunInScope_def getRun_def ctx_ok_def same_run_row_def)

lemma reload_then:
  "ctx_ok c db r \<Longrightarrow> then_do (reload c) f db = f \<lparr>rv_run = r, rv_nodes = listRunNodes (rc_run_id c) db\<rparr> db"
  by (simp add: then_do_def reload_ok)

definition patched_node :: "(run_node \<Rightarrow> run_node) \<Rightarrow> string \<Rightarrow> run_node \<Rightarrow> run_node" where
  "patched_node f now n =
     (f n)\<lparr>rn_run_id := rn_run_id n, rn_node_id := rn_node_id n, rn_node_kind := rn_node_kind n, rn_updated_at := now\<rparr>"

lemma patch_node_ok:
  assumes "node_at db (rc_run_id c) k = Some n" "run_at db (rc_run_id c) = Some r"
  shows "patch_node c now k f db = (Inr (), put_rows db (rc_run_id c) k (patched_node f now n) r)"
  using assms
  by (simp add: patch_node_def write_act_def updateRunNode_def put_rows_def patched_node_def map_set_same)

lemma updateRun_ok:
  assumes "run_at db i = Some r" "ar_params_json (f r) = ar_params_json r" "ar_execution_mode (f r) = ar_execution_mode r"
  obtains r' where "updateRun i f now db = Inr (put_run db i r')" "same_run_row r r'"
    "ar_lifecycle_state r' = ar_lifecycle_state (f r)" "ar_pause_reason r' = ar_pause_reason (f r)"
    "ar_terminal_outcome r' = ar_terminal_outcome (f r)"
  using assms by (simp add: updateRun_def put_run_def same_run_row_def)

lemma put_run_put_rows [simp]: "put_run (put_rows db i k n r) i r' = put_rows db i k n r'"
  by (simp add: put_run_def put_rows_def map_set_twice)

lemma put_rows_put_rows [simp]: "put_rows (put_run db i r) i k n r' = put_rows db i k n r'"
  by (simp add: put_run_def put_rows_def map_set_twice)

definition harmless :: "(run_node \<Rightarrow> run_node) \<Rightarrow> bool" where
  "harmless f \<longleftrightarrow> (\<forall>n. rn_lifecycle_state (f n) = rn_lifecycle_state n \<and> rn_terminal_outcome (f n) = rn_terminal_outcome n
     \<and> rn_depends_on (f n) = rn_depends_on n)"

lemma node_succeeded_ok:
  assumes "node_at db (rc_run_id c) k = Some n" "run_at db (rc_run_id c) = Some r" "harmless f"
    "\<And>n. rn_output_snapshot_json (f n) = rn_output_snapshot_json n"
  shows "\<exists>n'. node_succeeded c now k outs output f db
      = (Inr (NextNode (map_set k output outs)), put_rows db (rc_run_id c) k n' r)
    \<and> same_node n n' \<and> succeeded n' \<and> rn_output_snapshot_json n' = output"
proof -
  let ?n = "patched_node (\<lambda>n. f (n\<lparr>rn_lifecycle_state := NodeTerminal, rn_terminal_outcome := Some NodeSucceeded,
      rn_status_summary := ''succeeded'', rn_output_snapshot_json := output, rn_ended_at := Some now\<rparr>)) now n"
  have "same_node n ?n" "succeeded ?n" "rn_output_snapshot_json ?n = output"
    using assms(3,4) by (simp_all add: patched_node_def same_node_def succeeded_def harmless_def)
  then show ?thesis
    by (intro exI [of _ ?n]) (simp add: node_succeeded_def then_do_def patch_node_ok [OF assms(1,2)] return_act_def)
qed

lemma stop_run_ok:
  assumes "run_at db (rc_run_id c) = Some r" "\<And>r. ar_params_json (f r) = ar_params_json r"
    "\<And>r. ar_execution_mode (f r) = ar_execution_mode r"
  obtains r' where "stop_run c now f db = (Inr ReturnRun, put_run db (rc_run_id c) r')" "same_run_row r r'"
    "ar_lifecycle_state r' = ar_lifecycle_state (f r)" "ar_pause_reason r' = ar_pause_reason (f r)"
    "ar_terminal_outcome r' = ar_terminal_outcome (f r)"
proof -
  let ?g = "\<lambda>r. (f r)\<lparr>ar_summary_json := summarizeRunNodes (listRunNodes (rc_run_id c) db)\<rparr>"
  obtain r' where "updateRun (rc_run_id c) ?g now db = Inr (put_run db (rc_run_id c) r')" "same_run_row r r'"
    "ar_lifecycle_state r' = ar_lifecycle_state (?g r)" "ar_pause_reason r' = ar_pause_reason (?g r)"
    "ar_terminal_outcome r' = ar_terminal_outcome (?g r)"
    by (rule updateRun_ok [OF assms(1), where f = ?g]) (simp_all add: assms)
  then show ?thesis by (intro that [of r']) (simp_all add: stop_run_def then_do_def write_act_def return_act_def)
qed

lemma node_failed_ok:
  assumes "node_at db (rc_run_id c) k = Some n" "run_at db (rc_run_id c) = Some r" "harmless f"
  shows "\<exists>n' r'. node_failed c now k cd nm rm output f db = (Inr ReturnRun, put_rows db (rc_run_id c) k n' r')
    \<and> same_node n n' \<and> same_run_row r r' \<and> failed n'
    \<and> ar_lifecycle_state r' = RunTerminal \<and> ar_terminal_outcome r' = Some RunFailed"
proof -
  let ?n = "patched_node (\<lambda>n. f (n\<lparr>rn_lifecycle_state := NodeTerminal, rn_terminal_outcome := Some NodeFailed,
      rn_status_summary := ''failed'', rn_error_code := Some cd, rn_error_message := Some nm,
      rn_output_snapshot_json := output, rn_ended_at := Some now\<rparr>)) now n"
  let ?db = "put_rows db (rc_run_id c) k ?n r"
  let ?f = "\<lambda>r. r\<lparr>ar_lifecycle_state := RunTerminal, ar_terminal_outcome := Some RunFailed,
      ar_status_summary := ''failed'', ar_root_cause_code := Some cd, ar_root_cause_node_id := Some k,
      ar_root_cause_message := Some rm, ar_ended_at := Some now\<rparr>"
  obtain r' where r': "stop_run c now ?f ?db = (Inr ReturnRun, put_run ?db (rc_run_id c) r')"
    "same_run_row r r'" "ar_lifecycle_state r' = RunTerminal" "ar_terminal_outcome r' = Some RunFailed"
    by (rule stop_run_ok [of ?db c r ?f]) simp_all
  have "same_node n ?n" "failed ?n"
    using assms(3) by (simp_all add: patched_node_def same_node_def failed_def harmless_def)
  then show ?thesis
    using r' by (intro exI [of _ ?n] exI [of _ r'])
      (simp add: node_failed_def then_do_def patch_node_ok [OF assms(1,2)])
qed

lemma node_paused_ok:
  assumes "node_at db (rc_run_id c) k = Some n" "run_at db (rc_run_id c) = Some r" "harmless f"
    "\<And>n. rn_pause_reason (f n) = rn_pause_reason n"
  shows "\<exists>n' r'. node_paused c now k np rp summary cd message f db = (Inr ReturnRun, put_rows db (rc_run_id c) k n' r')
    \<and> same_node n n' \<and> same_run_row r r' \<and> rn_lifecycle_state n' = NodePaused \<and> rn_pause_reason n' = Some np
    \<and> ar_lifecycle_state r' = RunPaused \<and> ar_pause_reason r' = Some rp"
proof -
  let ?n = "patched_node (\<lambda>n. f (n\<lparr>rn_lifecycle_state := NodePaused, rn_pause_reason := Some np,
      rn_status_summary := summary, rn_paused_at := Some now\<rparr>)) now n"
  let ?db = "put_rows db (rc_run_id c) k ?n r"
  let ?f = "\<lambda>r. r\<lparr>ar_lifecycle_state := RunPaused, ar_pause_reason := Some rp,
      ar_status_summary := summary, ar_root_cause_code := Some cd, ar_root_cause_node_id := Some k,
      ar_root_cause_message := Some message, ar_paused_at := Some now\<rparr>"
  obtain r' where r': "stop_run c now ?f ?db = (Inr ReturnRun, put_run ?db (rc_run_id c) r')"
    "same_run_row r r'" "ar_lifecycle_state r' = RunPaused" "ar_pause_reason r' = Some rp"
    by (rule stop_run_ok [of ?db c r ?f]) simp_all
  have "same_node n ?n" "rn_lifecycle_state ?n = NodePaused" "rn_pause_reason ?n = Some np"
    using assms(3,4) by (simp_all add: patched_node_def same_node_def harmless_def)
  then show ?thesis
    using r' by (intro exI [of _ ?n] exI [of _ r'])
      (simp add: node_paused_def then_do_def patch_node_ok [OF assms(1,2)])
qed

text \<open>What a visit of a node that has not ended can do to the node and to its run.\<close>

definition visit_effect ::
  "run_context \<Rightarrow> string \<Rightarrow> outputs \<Rightarrow> run_node \<Rightarrow> automation_run \<Rightarrow> visit \<Rightarrow> run_node \<Rightarrow> automation_run \<Rightarrow> bool" where
  "visit_effect c k outs n r v n' r' \<longleftrightarrow> same_node n n' \<and> same_run_row r r'
     \<and> (v = NextNode (map_set k (rn_output_snapshot_json n') outs) \<and> succeeded n' \<and> r' = r
      \<or> v = ReturnRun \<and> failed n' \<and> ar_lifecycle_state r' = RunTerminal \<and> ar_terminal_outcome r' = Some RunFailed
      \<or> v = ReturnRun \<and> awaits_approval n' \<and> ar_lifecycle_state r' = RunPaused
          \<and> ar_pause_reason r' = Some RunApprovalRequired
      \<or> v = ReturnRun \<and> rn_lifecycle_state n' = NodePaused \<and> ar_lifecycle_state r' = RunPaused
          \<and> ar_pause_reason r' = Some RunRepairRequired
      \<or> (\<exists>node. v = CallRunner node (resolved_inputs c outs node) \<and> map_get (mapNodeById (rc_graph c)) k = Some node
          \<and> rn_lifecycle_state n' = NodeRunning \<and> r' = r))"

lemma harmless_simps [simp]:
  "harmless (\<lambda>n. n)" "harmless (\<lambda>n. n\<lparr>rn_pause_reason := p\<rparr>)" "harmless (replay_patch node out)"
  "harmless (\<lambda>n. replay_patch node out (n\<lparr>rn_output_snapshot_json := v\<rparr>))"
  by (simp_all add: harmless_def replay_patch_def)

lemma succeeded_effect:
  assumes "node_at db (rc_run_id c) k = Some n" "run_at db (rc_run_id c) = Some r" "harmless f"
    "\<And>n. rn_output_snapshot_json (f n) = rn_output_snapshot_json n"
  shows "\<exists>v n' r'. node_succeeded c now k outs output f db = (Inr v, put_rows db (rc_run_id c) k n' r')
    \<and> visit_effect c k outs n r v n' r'"
  using node_succeeded_ok [OF assms, of now outs "output"] by (fastforce simp: visit_effect_def)

lemma failed_effect:
  assumes "node_at db (rc_run_id c) k = Some n" "run_at db (rc_run_id c) = Some r" "harmless f"
  shows "\<exists>v n' r'. node_failed c now k cd nm rm output f db = (Inr v, put_rows db (rc_run_id c) k n' r')
    \<and> visit_effect c k outs n r v n' r'"
  using node_failed_ok [OF assms, of now cd nm rm "output"] by (fastforce simp: visit_effect_def)

lemma paused_effect:
  assumes "node_at db (rc_run_id c) k = Some n" "run_at db (rc_run_id c) = Some r" "harmless f"
    "\<And>n. rn_pause_reason (f n) = rn_pause_reason n"
    "np = NodeApprovalRequired \<and> rp = RunApprovalRequired \<or> rp = RunRepairRequired"
  shows "\<exists>v n' r'. node_paused c now k np rp summary cd message f db = (Inr v, put_rows db (rc_run_id c) k n' r')
    \<and> visit_effect c k outs n r v n' r'"
  using node_paused_ok [OF assms(1-4), of now np rp summary cd message] assms(5)
  by (fastforce simp: visit_effect_def awaits_approval_def)

lemma run_node_spec_effect:
  assumes "node_at db (rc_run_id c) k = Some n" "run_at db (rc_run_id c) = Some r"
    "map_get (mapNodeById (rc_graph c)) k = Some node" "rn_lifecycle_state n = NodeRunning"
  shows "\<exists>v n' r'. run_node_spec same c now k outs node (resolved_inputs c outs node) db = (Inr v, put_rows db (rc_run_id c) k n' r')
    \<and> visit_effect c k outs n r v n' r'"
proof (cases "an_spec node")
  case (PlaybookNode p v m)
  have "put_rows db (rc_run_id c) k n r = db"
    using assms(1,2) by (simp add: put_rows_def map_set_same)
  then show ?thesis
    using assms(3,4) by (intro exI [of _ "CallRunner node (resolved_inputs c outs node)"] exI [of _ n] exI [of _ r])
      (simp add: run_node_spec_def PlaybookNode return_act_def visit_effect_def)
next
  case (ApprovalNode a)
  then show ?thesis
    using succeeded_effect [OF assms(1,2), of "\<lambda>n. n" now outs "shadow_approval now"]
      paused_effect [OF assms(1,2), of "\<lambda>n. n" NodeApprovalRequired RunApprovalRequired now
        "''paused_for_approval''" "''approval_required''" "''automation paused on approval node''" outs]
    by (simp add: run_node_spec_def)
next
  case (ConditionNode e)
  then show ?thesis
    using succeeded_effect [OF assms(1,2), of "\<lambda>n. n"] failed_effect [OF assms(1,2), of "\<lambda>n. n"]
    by (simp add: run_node_spec_def)
next
  case (ArtifactGateNode refs)
  then show ?thesis
    using succeeded_effect [OF assms(1,2), of "\<lambda>n. n"] failed_effect [OF assms(1,2), of "\<lambda>n. n"]
    by (simp add: run_node_spec_def Let_def)
qed

lemma settle_node_effect:
  assumes "node_at db (rc_run_id c) k = Some n" "run_at db (rc_run_id c) = Some r"
  shows "\<exists>v n' r'. settle_node c now k outs node out db = (Inr v, put_rows db (rc_run_id c) k n' r')
    \<and> visit_effect c k outs n r v n' r'"
proof -
  have out: "rn_output_snapshot_json (replay_patch node out n) = rn_output_snapshot_json n" for n
    by (simp add: replay_patch_def)
  have pause: "rn_pause_reason (replay_patch node out (n\<lparr>rn_output_snapshot_json := v\<rparr>)) = rn_pause_reason n" for n v
    by (simp add: replay_patch_def)
  consider "replay_status out = ''success'' \<or> replay_status out = ''succeeded''"
    | "replay_status out = ''partial''"
    | "replay_status out \<noteq> ''success''" "replay_status out \<noteq> ''succeeded''" "replay_status out \<noteq> ''partial''" by blast
  then show ?thesis
  proof cases
    case 1
    then have "settle_node c now k outs node out
        = node_succeeded c now k outs (replay_output out) (replay_patch node out)"
      by (simp add: settle_node_def Let_def)
    then show ?thesis using succeeded_effect [OF assms harmless_simps(3) out] by simp
  next
    case 2
    then have "settle_node c now k outs node out
        = node_paused c now k NodeRepairRequired RunRepairRequired ''paused_for_repair'' ''guided_repair_pending''
            ''playbook replay entered guided repair state''
            (\<lambda>n. replay_patch node out (n\<lparr>rn_output_snapshot_json := replay_output out\<rparr>))"
      by (simp add: settle_node_def Let_def)
    then show ?thesis using paused_effect [OF assms harmless_simps(4) pause] by simp
  next
    case 3
    then have "settle_node c now k outs node out
        = node_failed c now k ''playbook_run_failed'' ''playbook replay failed'' ''playbook replay failed''
            (replay_output out) (replay_patch node out)"
      by (simp add: settle_node_def Let_def)
    then show ?thesis using failed_effect [OF assms harmless_simps(3)] by simp
  qed
qed

lemma visit_terminal:
  assumes "rows_wf db" "ctx_ok c db r" "node_at db (rc_run_id c) k = Some n" "rn_lifecycle_state n = NodeTerminal"
  shows "visit_node same c now k outs db
    = (Inr (NextNode (if rn_terminal_outcome n = Some NodeSucceeded
                      then map_set k (rn_output_snapshot_json n) outs else outs)), db)"
  using assms(3,4)
  by (simp add: visit_node_def reload_then [OF assms(2)] find_listRunNodes [OF assms(1)] return_act_def)

lemma start_node_effect:
  assumes "node_at db (rc_run_id c) k = Some n" "run_at db (rc_run_id c) = Some r"
    "map_get (mapNodeById (rc_graph c)) k = Some node"
  shows "\<exists>v n' r'. start_node same c now k outs node n db = (Inr v, put_rows db (rc_run_id c) k n' r')
    \<and> visit_effect c k outs n r v n' r'"
proof (cases "rn_lifecycle_state n = NodePaused \<and> rn_pause_reason n = Some NodeApprovalRequired \<and> rc_resumeReason c \<noteq> None")
  case True
  have "start_node same c now k outs node n = approve_node c now k outs (the (rc_resumeReason c))"
    unfolding start_node_def if_P [OF True] ..
  then show ?thesis
    using succeeded_effect [OF assms(1,2) harmless_simps(2)] by (simp add: approve_node_def)
next
  case False
  let ?f = "\<lambda>m. m\<lparr>rn_lifecycle_state := NodeRunning, rn_pause_reason := None,
    rn_status_summary := ''running'', rn_input_snapshot_json := JObj (resolved_inputs c outs node),
    rn_started_at := (case rn_started_at n of Some t \<Rightarrow> Some t | None \<Rightarrow> Some now)\<rparr>"
  let ?n = "patched_node ?f now n"
  let ?db = "put_rows db (rc_run_id c) k ?n r"
  have start: "start_node same c now k outs node n db
      = run_node_spec same c now k outs node (resolved_inputs c outs node) ?db"
    unfolding start_node_def if_not_P [OF False] by (simp add: then_do_def patch_node_ok [OF assms(1,2)])
  have at: "node_at ?db (rc_run_id c) k = Some ?n" "run_at ?db (rc_run_id c) = Some r"
    "rn_lifecycle_state ?n = NodeRunning" "same_node n ?n"
    by (simp_all add: patched_node_def same_node_def)
  obtain v n' r' where
    "run_node_spec same c now k outs node (resolved_inputs c outs node) ?db = (Inr v, put_rows ?db (rc_run_id c) k n' r')"
    "visit_effect c k outs ?n r v n' r'"
    using run_node_spec_effect [OF at(1,2) assms(3) at(3)] by blast
  moreover from this(2) have "visit_effect c k outs n r v n' r'"
    using at(4) same_node_trans unfolding visit_effect_def by blast
  ultimately show ?thesis unfolding start by auto
qed

lemma visit_open:
  assumes "rows_wf db" "ctx_ok c db r" "node_at db (rc_run_id c) k = Some n" "rn_lifecycle_state n \<noteq> NodeTerminal"
    "map_get (mapNodeById (rc_graph c)) k = Some node"
  shows "\<exists>v n' r'. visit_node same c now k outs db = (Inr v, put_rows db (rc_run_id c) k n' r')
    \<and> visit_effect c k outs n r v n' r'"
proof -
  have "run_at db (rc_run_id c) = Some r" using assms(2) by (simp add: ctx_ok_def)
  moreover have "visit_node same c now k outs db = start_node same c now k outs node n db"
    using assms(4) by (simp add: visit_node_def reload_then [OF assms(2)] find_listRunNodes [OF assms(1)] assms(3,5))
  ultimately show ?thesis using start_node_effect [OF assms(3) _ assms(5)] by metis
qed

section \<open>The loop of a run that nobody cancels\<close>

definition outs_ok :: "automation_db \<Rightarrow> string \<Rightarrow> string list \<Rightarrow> outputs \<Rightarrow> bool" where
  "outs_ok db i ks outs \<longleftrightarrow>
     (\<forall>k \<in> set ks. \<exists>n. node_at db i k = Some n \<and> map_get outs k = Some (rn_output_snapshot_json n))"

definition ready_list :: "automation_db \<Rightarrow> string \<Rightarrow> string list \<Rightarrow> bool" where
  "ready_list db i ks \<longleftrightarrow>
     (\<exists>us vs. ks = us @ vs \<and> all_nodes succeeded db i us
        \<and> (all_nodes fresh db i vs
           \<or> (\<exists>y ws. vs = y # ws \<and> all_nodes awaits_approval db i [y] \<and> all_nodes fresh db i ws)))"

definition settled_shape :: "automation_db \<Rightarrow> string \<Rightarrow> string list \<Rightarrow> automation_run \<Rightarrow> bool" where
  "settled_shape db i ord r \<longleftrightarrow>
     ar_lifecycle_state r = RunTerminal \<and> ar_terminal_outcome r = Some RunSucceeded \<and> all_nodes succeeded db i ord
   \<or> (\<exists>xs y ys. ord = xs @ y # ys \<and> all_nodes succeeded db i xs \<and> all_nodes fresh db i ys
        \<and> (ar_lifecycle_state r = RunTerminal \<and> ar_terminal_outcome r = Some RunFailed \<and> all_nodes failed db i [y]
         \<or> ar_lifecycle_state r = RunPaused \<and> ar_pause_reason r = Some RunApprovalRequired
             \<and> all_nodes awaits_approval db i [y]
         \<or> ar_lifecycle_state r = RunPaused \<and> ar_pause_reason r = Some RunRepairRequired
             \<and> all_nodes (\<lambda>n. rn_lifecycle_state n = NodePaused) db i [y]))"

definition suspended_shape ::
  "automation_db \<Rightarrow> string \<Rightarrow> string list \<Rightarrow> automation_run \<Rightarrow> string \<Rightarrow> string list \<Rightarrow> outputs \<Rightarrow> bool" where
  "suspended_shape db i ord r k rest outs \<longleftrightarrow>
     (\<exists>xs. ord = xs @ k # rest \<and> all_nodes succeeded db i xs \<and> outs_ok db i xs outs \<and> all_nodes fresh db i rest
        \<and> all_nodes (\<lambda>n. rn_lifecycle_state n = NodeRunning) db i [k] \<and> ar_lifecycle_state r = RunRunning)"

definition loop_post :: "run_context \<Rightarrow> automation_db \<Rightarrow> string list \<Rightarrow> automation_run \<Rightarrow> loop_end \<Rightarrow> bool" where
  "loop_post c db ord r out =
     (case out of
        RunReturned _ \<Rightarrow> settled_shape db (rc_run_id c) ord r
      | RunSuspended k node inputs rest outs \<Rightarrow>
          suspended_shape db (rc_run_id c) ord r k rest outs \<and> map_get (mapNodeById (rc_graph c)) k = Some node
          \<and> inputs = resolved_inputs c outs node)"

lemma ready_list_Cons:
  "ready_list db i (k # ks) \<Longrightarrow>
     (\<exists>n. node_at db i k = Some n \<and> succeeded n) \<and> ready_list db i ks
   \<or> (\<exists>n. node_at db i k = Some n \<and> rn_lifecycle_state n \<noteq> NodeTerminal) \<and> all_nodes fresh db i ks"
proof -
  assume "ready_list db i (k # ks)"
  then obtain us vs where l: "k # ks = us @ vs" "all_nodes succeeded db i us"
    "all_nodes fresh db i vs \<or> (\<exists>y ws. vs = y # ws \<and> all_nodes awaits_approval db i [y] \<and> all_nodes fresh db i ws)"
    unfolding ready_list_def by blast
  show ?thesis
  proof (cases us)
    case Nil
    then show ?thesis using l by (auto simp: fresh_def awaits_approval_def)
  next
    case (Cons u us')
    then have "ks = us' @ vs" "all_nodes succeeded db i us'" using l(1,2) by auto
    then have "ready_list db i ks" using l(3) unfolding ready_list_def by blast
    then show ?thesis using l Cons by auto
  qed
qed

lemma fresh_ready: "all_nodes fresh db i ks \<Longrightarrow> ready_list db i ks"
  unfolding ready_list_def by (intro exI [of _ "[]"] exI [of _ ks]) simp

lemma outs_ok_put:
  assumes "outs_ok db i xs outs" "k \<notin> set xs"
  shows "outs_ok (put_rows db i k n r) i (xs @ [k]) (map_set k (rn_output_snapshot_json n) outs)"
  unfolding outs_ok_def
proof
  fix j assume j: "j \<in> set (xs @ [k])"
  show "\<exists>m. node_at (put_rows db i k n r) i j = Some m
      \<and> map_get (map_set k (rn_output_snapshot_json n) outs) j = Some (rn_output_snapshot_json m)"
    using assms j by (cases "j = k") (auto simp: outs_ok_def js_map.get_put)
qed

lemma outs_ok_keep:
  assumes "outs_ok db i xs outs" "node_at db i k = Some n" "k \<notin> set xs"
  shows "outs_ok db i (xs @ [k]) (map_set k (rn_output_snapshot_json n) outs)"
  using assms by (auto simp: outs_ok_def js_map.get_put)

lemma ctx_ok_put: "ctx_ok c db r \<Longrightarrow> same_run_row r r' \<Longrightarrow> ctx_ok c (put_rows db (rc_run_id c) k n r') r'"
  by (auto simp: ctx_ok_def intro: same_run_row_trans)

lemma run_id_ctx: "ctx_ok c db r \<Longrightarrow> ar_run_id r = rc_run_id c"
  by (simp add: ctx_ok_def same_run_row_def)

lemma visit_put:
  assumes "rows_wf db" "ctx_ok c db r" "node_at db (rc_run_id c) k = Some n" "\<not> succeeded n"
    "same_node n n'" "same_run_row r r'"
  shows "rows_wf (put_rows db (rc_run_id c) k n' r')" "evolves (rc_run_id c) db (put_rows db (rc_run_id c) k n' r')"
    "ctx_ok c (put_rows db (rc_run_id c) k n' r') r'"
proof -
  have "rn_run_id n = rc_run_id c" "rn_node_id n = k" using assms(1,3) by (auto simp: rows_wf_def)
  then show "rows_wf (put_rows db (rc_run_id c) k n' r')"
    using assms(5,6) run_id_ctx [OF assms(2)]
    by (intro put_rows_wf assms(1)) (simp_all add: same_node_def same_run_row_def)
  show "evolves (rc_run_id c) db (put_rows db (rc_run_id c) k n' r')"
    using assms(2) by (intro evolves_put_rows [OF assms(3) _ assms(5,4,6)]) (simp add: ctx_ok_def)
  show "ctx_ok c (put_rows db (rc_run_id c) k n' r') r'" by (rule ctx_ok_put [OF assms(2,6)])
qed

lemma finish_run_ok:
  assumes "ctx_ok c db r"
  obtains r' where "finish_run c now db = (Inr (), put_run db (rc_run_id c) r')" "same_run_row r r'"
    "ar_lifecycle_state r' = RunTerminal" "ar_terminal_outcome r' = Some RunSucceeded"
proof -
  let ?f = "\<lambda>r. r\<lparr>ar_lifecycle_state := RunTerminal, ar_terminal_outcome := Some RunSucceeded,
    ar_status_summary := ''succeeded'', ar_summary_json := summarizeRunNodes (listRunNodes (rc_run_id c) db),
    ar_ended_at := Some now\<rparr>"
  have "run_at db (rc_run_id c) = Some r" using assms by (simp add: ctx_ok_def)
  then obtain r' where "updateRun (rc_run_id c) ?f now db = Inr (put_run db (rc_run_id c) r')" "same_run_row r r'"
    "ar_lifecycle_state r' = RunTerminal" "ar_terminal_outcome r' = Some RunSucceeded"
    by (rule updateRun_ok [where f = ?f]) simp_all
  then show ?thesis by (intro that [of r']) (simp_all add: finish_run_def write_act_def)
qed

lemma run_put:
  assumes "rows_wf db" "ctx_ok c db r" "same_run_row r r'"
  shows "rows_wf (put_run db (rc_run_id c) r')" "evolves (rc_run_id c) db (put_run db (rc_run_id c) r')"
    "ctx_ok c (put_run db (rc_run_id c) r') r'"
proof -
  show "rows_wf (put_run db (rc_run_id c) r')"
    using assms run_id_ctx [OF assms(2)] by (intro put_run_wf) (simp_all add: same_run_row_def)
  show "evolves (rc_run_id c) db (put_run db (rc_run_id c) r')"
    using assms by (intro evolves_put_run) (auto simp: ctx_ok_def)
  show "ctx_ok c (put_run db (rc_run_id c) r') r'"
    using assms by (auto simp: ctx_ok_def intro: same_run_row_trans)
qed

text \<open>A visit goes on, stops with a settled run or waits for the runner.\<close>

lemma visit_effect_cases:
  assumes eff: "visit_effect c k outs n r v n' r'" and at: "node_at db i k = Some n'"
    and keep: "all_nodes succeeded db i xs" "all_nodes fresh db i rest"
    and node: "map_get (mapNodeById (rc_graph c)) k = Some node"
  shows "v = NextNode (map_set k (rn_output_snapshot_json n') outs) \<and> succeeded n' \<and> r' = r
    \<or> v = ReturnRun \<and> settled_shape db i (xs @ k # rest) r'
    \<or> v = CallRunner node (resolved_inputs c outs node) \<and> rn_lifecycle_state n' = NodeRunning \<and> r' = r"
proof -
  have stop: "settled_shape db i (xs @ k # rest) r'"
    if "failed n' \<and> ar_lifecycle_state r' = RunTerminal \<and> ar_terminal_outcome r' = Some RunFailed
      \<or> awaits_approval n' \<and> ar_lifecycle_state r' = RunPaused \<and> ar_pause_reason r' = Some RunApprovalRequired
      \<or> rn_lifecycle_state n' = NodePaused \<and> ar_lifecycle_state r' = RunPaused \<and> ar_pause_reason r' = Some RunRepairRequired"
    unfolding settled_shape_def
    by (rule disjI2, intro exI [of _ xs] exI [of _ k] exI [of _ rest]) (use that at keep in auto)
  show ?thesis using eff stop node unfolding visit_effect_def by auto
qed

lemma run_nodes_active:
  assumes "rows_wf db" "ctx_ok c db r" "ar_lifecycle_state r = RunRunning" "distinct (xs @ rest)"
    "\<forall>k \<in> set rest. map_get (mapNodeById (rc_graph c)) k \<noteq> None"
    "all_nodes succeeded db (rc_run_id c) xs" "outs_ok db (rc_run_id c) xs outs" "ready_list db (rc_run_id c) rest"
  shows "\<exists>out db' r'. run_nodes same c now rest outs db = (Inr out, db') \<and> rows_wf db'
    \<and> evolves (rc_run_id c) db db' \<and> ctx_ok c db' r' \<and> loop_post c db' (xs @ rest) r' out"
  using assms
proof (induction rest arbitrary: xs outs db r)
  case Nil
  obtain r' where r': "finish_run c now db = (Inr (), put_run db (rc_run_id c) r')" "same_run_row r r'"
    "ar_lifecycle_state r' = RunTerminal" "ar_terminal_outcome r' = Some RunSucceeded"
    by (rule finish_run_ok [OF Nil.prems(2)])
  note put = run_put [OF Nil.prems(1,2) r'(2)]
  let ?db = "put_run db (rc_run_id c) r'"
  have "loop_post c ?db (xs @ []) r' (RunReturned \<lparr>rv_run = r', rv_nodes = listRunNodes (rc_run_id c) ?db\<rparr>)"
    using r'(3,4) Nil.prems(6) by (simp add: loop_post_def settled_shape_def all_nodes_put)
  moreover have "run_nodes same c now [] outs db
      = (Inr (RunReturned \<lparr>rv_run = r', rv_nodes = listRunNodes (rc_run_id c) ?db\<rparr>), ?db)"
    using r'(1) by (simp add: then_do_def [of "finish_run c now"] reload_then [OF put(3)] return_act_def)
  ultimately show ?case using put by blast
next
  case (Cons k rest)
  let ?i = "rc_run_id c"
  note wf = Cons.prems(1) and ctx = Cons.prems(2) and run = Cons.prems(3)
  have dist: "k \<notin> set xs" "k \<notin> set rest" "distinct ((xs @ [k]) @ rest)" using Cons.prems(4) by auto
  have known: "\<forall>j \<in> set rest. map_get (mapNodeById (rc_graph c)) j \<noteq> None" using Cons.prems(5) by simp
  from ready_list_Cons [OF Cons.prems(8)] show ?case
  proof
    assume "(\<exists>n. node_at db ?i k = Some n \<and> succeeded n) \<and> ready_list db ?i rest"
    then obtain n where n: "node_at db ?i k = Some n" "succeeded n" and rest: "ready_list db ?i rest" by blast
    have visit: "visit_node same c now k outs db = (Inr (NextNode (map_set k (rn_output_snapshot_json n) outs)), db)"
      using visit_terminal [OF wf ctx n(1)] n(2) by (simp add: succeeded_def)
    have "all_nodes succeeded db ?i (xs @ [k])" using n Cons.prems(6) by auto
    from Cons.IH [OF wf ctx run dist(3) known this outs_ok_keep [OF Cons.prems(7) n(1) dist(1)] rest]
    show ?thesis using visit by (simp add: then_do_def after_visit_def)
  next
    assume "(\<exists>n. node_at db ?i k = Some n \<and> rn_lifecycle_state n \<noteq> NodeTerminal) \<and> all_nodes fresh db ?i rest"
    then obtain n where n: "node_at db ?i k = Some n" "rn_lifecycle_state n \<noteq> NodeTerminal"
      and rest: "all_nodes fresh db ?i rest" by blast
    obtain node where node: "map_get (mapNodeById (rc_graph c)) k = Some node" using Cons.prems(5) by auto
    obtain v n' r' where visit: "visit_node same c now k outs db = (Inr v, put_rows db ?i k n' r')"
      and eff: "visit_effect c k outs n r v n' r'"
      using visit_open [OF wf ctx n node] by blast
    let ?db = "put_rows db ?i k n' r'"
    have same: "same_node n n'" "same_run_row r r'" using eff by (simp_all add: visit_effect_def)
    have "\<not> succeeded n" using n(2) by (simp add: succeeded_def)
    note put = visit_put [OF wf ctx n(1) this same]
    have keep: "all_nodes succeeded ?db ?i xs" "all_nodes fresh ?db ?i rest"
      using Cons.prems(6) rest dist by (simp_all add: all_nodes_put)
    have at: "node_at ?db ?i k = Some n'" by simp
    consider (succ) "v = NextNode (map_set k (rn_output_snapshot_json n') outs)" "succeeded n'" "r' = r"
      | (stop) "v = ReturnRun" "settled_shape ?db ?i (xs @ k # rest) r'"
      | (call) "v = CallRunner node (resolved_inputs c outs node)" "rn_lifecycle_state n' = NodeRunning" "r' = r"
      using visit_effect_cases [OF eff at keep node] by blast
    then show ?thesis
    proof cases
      case succ
      have "all_nodes succeeded ?db ?i (xs @ [k])" using keep(1) succ(2) by simp
      moreover have "ar_lifecycle_state r' = RunRunning" using run succ(3) by simp
      ultimately obtain out db' r2 where "run_nodes same c now rest (map_set k (rn_output_snapshot_json n') outs) ?db = (Inr out, db')"
        "rows_wf db'" "evolves ?i ?db db'" "ctx_ok c db' r2" "loop_post c db' ((xs @ [k]) @ rest) r2 out"
        using Cons.IH [OF put(1) put(3) _ dist(3) known _ outs_ok_put [OF Cons.prems(7) dist(1)] fresh_ready [OF keep(2)]]
        by blast
      then show ?thesis
        using visit put(2) evolves_trans by (auto simp: then_do_def after_visit_def succ(1))
    next
      case stop
      then show ?thesis
        using visit put by (auto simp: then_do_def [of "visit_node same c now k outs"] after_visit_def
            reload_then [OF put(3)] return_act_def loop_post_def)
    next
      case call
      have "outs_ok ?db ?i xs outs" using Cons.prems(7) dist(1) by (auto simp: outs_ok_def)
      then have "suspended_shape ?db ?i (xs @ k # rest) r' k rest outs"
        using keep call(2,3) run unfolding suspended_shape_def by (intro exI [of _ xs]) simp
      then show ?thesis
        using visit put node call(1) by (auto simp: then_do_def after_visit_def return_act_def loop_post_def)
    qed
  qed
qed

end
