(* ===== verification/AutomationInvariant.thy ===== *)
theory AutomationInvariant
  imports AutomationRunSafety
begin

text \<open>
  The invariant of the automation kernel, kept by every request and by every answer of a replay
  runner: stored versions are well-formed graphs and never change, and the nodes of each run have
  the shape \<open>run_shape\<close> along the order of its graph.
\<close>

section \<open>A run that was cancelled while its playbook was replayed\<close>

lemma run_nodes_cancelled:
  assumes "rows_wf db" "ctx_ok c db r" "all_nodes rejected db (rc_run_id c) rest"
  shows "\<exists>v r'. run_nodes same c now rest outs db = (Inr (RunReturned v), put_run db (rc_run_id c) r')
    \<and> same_run_row r r' \<and> ar_lifecycle_state r' = RunTerminal \<and> ar_terminal_outcome r' = Some RunSucceeded"
  using assms(3)
proof (induction rest)
  case Nil
  obtain r' where r': "finish_run c now db = (Inr (), put_run db (rc_run_id c) r')" "same_run_row r r'"
    "ar_lifecycle_state r' = RunTerminal" "ar_terminal_outcome r' = Some RunSucceeded"
    by (rule finish_run_ok [OF assms(2)])
  let ?v = "\<lparr>rv_run = r', rv_nodes = listRunNodes (rc_run_id c) (put_run db (rc_run_id c) r')\<rparr>"
  show ?case
    by (intro exI [of _ ?v] exI [of _ r'])
      (use r' in \<open>simp add: then_do_def [of "finish_run c now"] reload_then [OF run_put(3) [OF assms(1,2) r'(2)]]
         return_act_def\<close>)
next
  case (Cons k rest)
  then obtain n where n: "node_at db (rc_run_id c) k = Some n" "rn_lifecycle_state n = NodeTerminal"
    "rn_terminal_outcome n = Some NodeRejected" by (auto simp: rejected_def)
  have "visit_node same c now k outs db = (Inr (NextNode outs), db)"
    using visit_terminal [OF assms(1,2) n(1,2)] n(3) by simp
  then show ?case using Cons by (simp add: then_do_def after_visit_def)
qed

text \<open>The answer of a runner ends or pauses its node, never for approval.\<close>

definition answer_effect ::
  "string \<Rightarrow> outputs \<Rightarrow> run_node \<Rightarrow> automation_run \<Rightarrow> visit \<Rightarrow> run_node \<Rightarrow> automation_run \<Rightarrow> bool" where
  "answer_effect k outs n r v n' r' \<longleftrightarrow> same_node n n' \<and> same_run_row r r'
     \<and> (v = NextNode (map_set k (rn_output_snapshot_json n') outs) \<and> succeeded n' \<and> r' = r
      \<or> v = ReturnRun \<and> failed n' \<and> ar_lifecycle_state r' = RunTerminal \<and> ar_terminal_outcome r' = Some RunFailed
      \<or> v = ReturnRun \<and> rn_lifecycle_state n' = NodePaused \<and> ar_lifecycle_state r' = RunPaused
          \<and> ar_pause_reason r' = Some RunRepairRequired)"

lemma settle_node_answer:
  assumes "node_at db (rc_run_id c) k = Some n" "run_at db (rc_run_id c) = Some r"
  shows "\<exists>v n' r'. settle_node c now k outs node out db = (Inr v, put_rows db (rc_run_id c) k n' r')
    \<and> answer_effect k outs n r v n' r'"
proof -
  have out: "rn_output_snapshot_json (replay_patch node out n) = rn_output_snapshot_json n" for n
    by (simp add: replay_patch_def)
  have pause: "rn_pause_reason (replay_patch node out (n\<lparr>rn_output_snapshot_json := v\<rparr>)) = rn_pause_reason n" for n v
    by (simp add: replay_patch_def)
  consider "replay_status out = ''success'' \<or> replay_status out = ''succeeded''"
    | "replay_status out = ''partial''"
    | "replay_status out \<noteq> ''success''" "replay_status out \<noteq> ''succeeded''" "replay_status out \<noteq> ''partial''" by blast
  then show ?thesis
  proof cases
    case 1
    then have "settle_node c now k outs node out
        = node_succeeded c now k outs (replay_output out) (replay_patch node out)"
      by (simp add: settle_node_def Let_def)
    then show ?thesis
      using node_succeeded_ok [OF assms harmless_simps(3) [of node out] out, of now outs "replay_output out"]
      by (fastforce simp: answer_effect_def)
  next
    case 2
    then have "settle_node c now k outs node out
        = node_paused c now k NodeRepairRequired RunRepairRequired ''paused_for_repair'' ''guided_repair_pending''
            ''playbook replay entered guided repair state''
            (\<lambda>n. replay_patch node out (n\<lparr>rn_output_snapshot_json := replay_output out\<rparr>))"
      by (simp add: settle_node_def Let_def)
    then show ?thesis
      using node_paused_ok [OF assms harmless_simps(4) [of node out "replay_output out"] pause,
          of now NodeRepairRequired RunRepairRequired "''paused_for_repair''" "''guided_repair_pending''"
            "''playbook replay entered guided repair state''"]
      by (fastforce simp: answer_effect_def)
  next
    case 3
    then have "settle_node c now k outs node out
        = node_failed c now k ''playbook_run_failed'' ''playbook replay failed'' ''playbook replay failed''
            (replay_output out) (replay_patch node out)"
      by (simp add: settle_node_def Let_def)
    then show ?thesis
      using node_failed_ok [OF assms harmless_simps(3) [of node out], of now "''playbook_run_failed''"
          "''playbook replay failed''" "''playbook replay failed''" "replay_output out"]
      by (fastforce simp: answer_effect_def)
  qed
qed

section \<open>The shape of a run\<close>

text \<open>What a suspended loop remembers of its run.\<close>

definition call_fits :: "automation_db \<Rightarrow> automation_graph \<Rightarrow> automation_run \<Rightarrow> string list \<Rightarrow> string \<Rightarrow> string list
    \<Rightarrow> pending_call \<Rightarrow> bool" where
  "call_fits db g r xs y ys p \<longleftrightarrow> same_run_row (rc_run (pc_context p)) r \<and> rc_graph (pc_context p) = g
     \<and> pc_nodeId p = y \<and> pc_rest p = ys \<and> outs_ok db (ar_run_id r) xs (pc_outputs p)
     \<and> map_get (mapNodeById g) y = Some (pc_node p) \<and> rc_params (pc_context p) = ar_params_json r
     \<and> pc_inputs p = resolved_inputs (pc_context p) (pc_outputs p) (pc_node p)"

text \<open>What the node a run has come to says of the run, and what it says of the nodes after it.\<close>

definition node_shape ::
  "automation_db \<Rightarrow> automation_graph \<Rightarrow> automation_run \<Rightarrow> pending_call list \<Rightarrow> string list \<Rightarrow> string \<Rightarrow> string list
    \<Rightarrow> run_node \<Rightarrow> bool" where
  "node_shape db g r calls xs y ys n \<longleftrightarrow>
     (all_nodes fresh db (ar_run_id r) ys \<or> all_nodes rejected db (ar_run_id r) ys)
     \<and> (calls = [] \<and> ar_lifecycle_state r = RunTerminal \<and> ar_terminal_outcome r = Some RunFailed \<and> failed n
      \<or> calls = [] \<and> ar_lifecycle_state r = RunPaused \<and> ar_pause_reason r = Some RunApprovalRequired
          \<and> awaits_approval n \<and> all_nodes fresh db (ar_run_id r) ys
      \<or> calls = [] \<and> ar_lifecycle_state r = RunPaused \<and> ar_pause_reason r = Some RunRepairRequired
          \<and> rn_lifecycle_state n = NodePaused
      \<or> (calls = [] \<or> (\<exists>p. calls = [p] \<and> call_fits db g r xs y ys p))
          \<and> (ar_lifecycle_state r = RunRunning \<and> rn_lifecycle_state n = NodeRunning
               \<and> all_nodes fresh db (ar_run_id r) ys
           \<or> ar_lifecycle_state r = RunTerminal \<and> ar_terminal_outcome r = Some RunCancelled
               \<and> rejected n \<and> all_nodes rejected db (ar_run_id r) ys))"

definition run_shape :: "automation_db \<Rightarrow> automation_graph \<Rightarrow> automation_run \<Rightarrow> pending_call list \<Rightarrow> bool" where
  "run_shape db g r calls \<longleftrightarrow>
     calls = [] \<and> ar_lifecycle_state r = RunTerminal \<and> ar_terminal_outcome r = Some RunSucceeded
       \<and> (\<exists>xs ys. graph_order g = xs @ ys \<and> all_nodes succeeded db (ar_run_id r) xs
            \<and> all_nodes rejected db (ar_run_id r) ys)
   \<or> (\<exists>xs y ys n. graph_order g = xs @ y # ys \<and> all_nodes succeeded db (ar_run_id r) xs
        \<and> node_at db (ar_run_id r) y = Some n \<and> node_shape db g r calls xs y ys n)"

text \<open>The rows of a run are those of the graph of its version.\<close>

definition run_nodes_ok :: "automation_db \<Rightarrow> string \<Rightarrow> automation_graph \<Rightarrow> bool" where
  "run_nodes_ok db i g \<longleftrightarrow>
     (\<forall>k \<in> set (node_ids g). \<exists>n. node_at db i k = Some n)
     \<and> (\<forall>k n. node_at db i k = Some n \<longrightarrow> k \<in> set (node_ids g) \<and> rn_depends_on n = depends_on k g)"

abbreviation run_key :: "automation_run \<Rightarrow> def_key" where
  "run_key r \<equiv> (ar_tenant_id r, ar_scope r, ar_automation_id r)"

definition run_ok :: "automation_db \<Rightarrow> pending_call list \<Rightarrow> automation_run \<Rightarrow> bool" where
  "run_ok db calls r \<longleftrightarrow>
     (\<exists>v. map_get (db_versions db) (run_key r, ar_automation_version r) = Some v
        \<and> run_nodes_ok db (ar_run_id r) (vr_graph v) \<and> run_shape db (vr_graph v) r calls)"

definition versions_ok :: "automation_db \<Rightarrow> bool" where
  "versions_ok db \<longleftrightarrow>
     (\<forall>k v row. map_get (db_versions db) (k, v) = Some row \<longrightarrow> vr_version row = v \<and> graph_wf (vr_graph row)
        \<and> (\<exists>d. map_get (db_definitions db) k = Some d \<and> v \<le> df_latest_version d))
     \<and> (\<forall>k d. map_get (db_definitions db) k = Some d \<longrightarrow> map_get (db_versions db) (k, df_latest_version d) \<noteq> None)"

definition calls_of :: "string \<Rightarrow> (nat \<times> pending_call) list \<Rightarrow> pending_call list" where
  "calls_of i cs = map snd (filter (\<lambda>e. rc_run_id (pc_context (snd e)) = i) cs)"

definition automation_inv :: "automation \<Rightarrow> bool" where
  "automation_inv a \<longleftrightarrow> rows_wf (am_db a) \<and> versions_ok (am_db a)
     \<and> (\<forall>i r. run_at (am_db a) i = Some r \<longrightarrow> run_ok (am_db a) (calls_of i (am_calls a)) r)
     \<and> (\<forall>i k n. node_at (am_db a) i k = Some n \<longrightarrow> (\<exists>r. run_at (am_db a) i = Some r))
     \<and> (\<forall>e \<in> set (am_calls a). \<exists>r. run_at (am_db a) (rc_run_id (pc_context (snd e))) = Some r)
     \<and> distinct (map fst (am_calls a)) \<and> (\<forall>e \<in> set (am_calls a). fst e < am_next a)"

lemma calls_of_simps [simp]:
  "calls_of i [] = []"
  "calls_of i (cs @ ds) = calls_of i cs @ calls_of i ds"
  "calls_of i [(n, p)] = (if rc_run_id (pc_context p) = i then [p] else [])"
  by (simp_all add: calls_of_def)

lemma run_id_same: "same_run_row r r' \<Longrightarrow> ar_run_id r' = ar_run_id r"
  by (simp add: same_run_row_def)

lemma outs_ok_cong: "\<forall>k. node_at db' i k = node_at db i k \<Longrightarrow> outs_ok db' i ks outs = outs_ok db i ks outs"
  by (simp add: outs_ok_def)

lemma all_nodes_cong: "\<forall>k. node_at db' i k = node_at db i k \<Longrightarrow> all_nodes P db' i ks = all_nodes P db i ks"
  by (simp add: all_nodes_def)

lemma run_shape_cong:
  assumes "\<forall>k. node_at db' (ar_run_id r) k = node_at db (ar_run_id r) k"
  shows "run_shape db' g r calls = run_shape db g r calls"
  using assms by (simp add: run_shape_def node_shape_def call_fits_def outs_ok_cong [OF assms] all_nodes_cong [OF assms])

lemma run_ok_cong:
  assumes "\<forall>k. node_at db' (ar_run_id r) k = node_at db (ar_run_id r) k"
    "\<And>k v. map_get (db_versions db) k = Some v \<Longrightarrow> map_get (db_versions db') k = Some v"
    "run_ok db calls r"
  shows "run_ok db' calls r"
  using assms(3) unfolding run_ok_def run_shape_cong [OF assms(1)] run_nodes_ok_def
  by (auto simp: assms(1) dest!: assms(2))

section \<open>Parts of the loop keep the shape\<close>

definition call_of :: "run_context \<Rightarrow> loop_end \<Rightarrow> pending_call list" where
  "call_of c out =
     (case out of
        RunReturned _ \<Rightarrow> []
      | RunSuspended nodeId node inputs rest outs \<Rightarrow>
          [\<lparr>pc_context = c, pc_nodeId = nodeId, pc_node = node, pc_inputs = inputs, pc_rest = rest, pc_outputs = outs\<rparr>])"

lemma call_of_context: "p \<in> set (call_of c out) \<Longrightarrow> pc_context p = c"
  by (cases out) (simp_all add: call_of_def)

lemma settled_run_shape:
  assumes "settled_shape db (ar_run_id r) (graph_order g) r"
  shows "run_shape db g r []"
proof -
  consider (all) "ar_lifecycle_state r = RunTerminal" "ar_terminal_outcome r = Some RunSucceeded"
      "all_nodes succeeded db (ar_run_id r) (graph_order g)"
    | (part) xs y ys where "graph_order g = xs @ y # ys" "all_nodes succeeded db (ar_run_id r) xs"
      "all_nodes fresh db (ar_run_id r) ys"
      "ar_lifecycle_state r = RunTerminal \<and> ar_terminal_outcome r = Some RunFailed \<and> all_nodes failed db (ar_run_id r) [y]
       \<or> ar_lifecycle_state r = RunPaused \<and> ar_pause_reason r = Some RunApprovalRequired
           \<and> all_nodes awaits_approval db (ar_run_id r) [y]
       \<or> ar_lifecycle_state r = RunPaused \<and> ar_pause_reason r = Some RunRepairRequired
           \<and> all_nodes (\<lambda>n. rn_lifecycle_state n = NodePaused) db (ar_run_id r) [y]"
    using assms unfolding settled_shape_def by blast
  then show ?thesis
  proof cases
    case all
    then show ?thesis unfolding run_shape_def
      by (intro disjI1 conjI exI [of _ "graph_order g"] exI [of _ "[]"]) simp_all
  next
    case part
    from part(4) obtain n where n: "node_at db (ar_run_id r) y = Some n" by auto
    show ?thesis unfolding run_shape_def node_shape_def
      by (rule disjI2, intro exI [of _ xs] exI [of _ y] exI [of _ ys] exI [of _ n]) (use part n in auto)
  qed
qed

lemma loop_run_shape:
  assumes "ctx_ok c db r" "loop_post c db (graph_order (rc_graph c)) r out"
  shows "run_shape db (rc_graph c) r (call_of c out)"
proof (cases out)
  case (RunReturned v)
  then show ?thesis
    using assms run_id_ctx [OF assms(1)] settled_run_shape by (simp add: loop_post_def call_of_def)
next
  case (RunSuspended k node inputs rest outs)
  then obtain xs where xs: "graph_order (rc_graph c) = xs @ k # rest" "all_nodes succeeded db (ar_run_id r) xs"
    "outs_ok db (ar_run_id r) xs outs" "all_nodes fresh db (ar_run_id r) rest"
    "all_nodes (\<lambda>n. rn_lifecycle_state n = NodeRunning) db (ar_run_id r) [k]" "ar_lifecycle_state r = RunRunning"
    "map_get (mapNodeById (rc_graph c)) k = Some node" "inputs = resolved_inputs c outs node"
    using assms run_id_ctx [OF assms(1)] by (auto simp: loop_post_def suspended_shape_def)
  then obtain n where n: "node_at db (ar_run_id r) k = Some n" "rn_lifecycle_state n = NodeRunning" by auto
  let ?p = "\<lparr>pc_context = c, pc_nodeId = k, pc_node = node, pc_inputs = inputs, pc_rest = rest, pc_outputs = outs\<rparr>"
  have "call_fits db (rc_graph c) r xs k rest ?p"
    using assms(1) xs by (simp add: call_fits_def ctx_ok_def same_run_row_def)
  moreover have "call_of c out = [?p]" by (simp add: call_of_def RunSuspended)
  ultimately show ?thesis unfolding run_shape_def node_shape_def
    by (intro disjI2 exI [of _ xs] exI [of _ k] exI [of _ rest] exI [of _ n]) (use xs n in auto)
qed

lemma mapNodeById_in: "map_get (mapNodeById g) k = Some node \<Longrightarrow> node \<in> set (ag_nodes g) \<and> an_node_id node = k"
proof -
  have "map_get (foldl (\<lambda>m n. map_set (an_node_id n) n m) m ns) k = Some node \<Longrightarrow>
    map_get m k = Some node \<or> node \<in> set ns \<and> an_node_id node = k" for ns m
  proof (induction ns arbitrary: m)
    case (Cons a ns)
    then show ?case using Cons.IH [of "map_set (an_node_id a) a m"] by (auto simp: js_map.get_put split: if_splits)
  qed simp
  from this [of "[]" "ag_nodes g"] show "map_get (mapNodeById g) k = Some node \<Longrightarrow> ?thesis"
    by (simp add: mapNodeById_def map_get_def)
qed

lemma mapNodeById_known: "k \<in> set (node_ids g) \<Longrightarrow> map_get (mapNodeById g) k \<noteq> None"
proof -
  have "k \<in> an_node_id ` set ns \<or> map_get m k \<noteq> None \<Longrightarrow>
    map_get (foldl (\<lambda>m n. map_set (an_node_id n) n m) m ns) k \<noteq> None" for ns m
    by (induction ns arbitrary: m) (auto simp: js_map.get_put)
  then show "k \<in> set (node_ids g) \<Longrightarrow> ?thesis" by (auto simp: mapNodeById_def)
qed

lemma continue_ok:
  assumes "rows_wf db" "ctx_ok c db r" "graph_wf (rc_graph c)" "ready_list db (rc_run_id c) (graph_order (rc_graph c))"
  shows "\<exists>out db' r'. continueAutomationRun same c nodes now db = (Inr out, db') \<and> rows_wf db'
    \<and> evolves (rc_run_id c) db db' \<and> ctx_ok c db' r' \<and> run_shape db' (rc_graph c) r' (call_of c out)"
proof -
  note order = graph_order_ok [OF assms(3)]
  let ?f = "\<lambda>r. r\<lparr>ar_lifecycle_state := RunRunning, ar_pause_reason := None, ar_terminal_outcome := None,
    ar_status_summary := ''running'', ar_root_cause_code := None, ar_root_cause_node_id := None,
    ar_root_cause_message := None,
    ar_started_at := (case ar_started_at (rc_run c) of Some t \<Rightarrow> Some t | None \<Rightarrow> Some now),
    ar_paused_at := None, ar_ended_at := None\<rparr>"
  have "run_at db (rc_run_id c) = Some r" using assms(2) by (simp add: ctx_ok_def)
  then obtain r1 where r1: "updateRun (rc_run_id c) ?f now db = Inr (put_run db (rc_run_id c) r1)" "same_run_row r r1"
    "ar_lifecycle_state r1 = RunRunning"
    by (rule updateRun_ok [where f = ?f]) simp_all
  let ?db = "put_run db (rc_run_id c) r1"
  note put = run_put [OF assms(1,2) r1(2)]
  have ready: "ready_list ?db (rc_run_id c) (graph_order (rc_graph c))"
    using assms(4) by (simp add: ready_list_def all_nodes_put)
  have known: "\<forall>k \<in> set (graph_order (rc_graph c)). map_get (mapNodeById (rc_graph c)) k \<noteq> None"
    using order(2) mapNodeById_known by metis
  obtain out db' r' where loop: "run_nodes same c now (graph_order (rc_graph c)) (buildNodeOutputs nodes) ?db = (Inr out, db')"
    "rows_wf db'" "evolves (rc_run_id c) ?db db'" "ctx_ok c db' r'" "loop_post c db' (graph_order (rc_graph c)) r' out"
    using run_nodes_active [OF put(1,3) r1(3), of "[]" "graph_order (rc_graph c)" "buildNodeOutputs nodes" same now]
      order(1) known ready by (auto simp: outs_ok_def)
  have "continueAutomationRun same c nodes now db = (Inr out, db')"
    using r1(1) loop(1)
    by (simp add: continueAutomationRun_def then_do_def request_act_def wf_validate [OF assms(3)] mark_running_def write_act_def)
  then show ?thesis
    using loop(2-4) evolves_trans [OF put(2) loop(3)] loop_run_shape [OF loop(4,5)] by blast
qed

end
