(* ===== verification/AutomationKernel.thy ===== *)
theory AutomationKernel
  imports AutomationInvariant
begin

text \<open>
  The operations of the kernel one by one: each keeps the invariant, fails only as a request may
  fail, and changes rows only of the run it works on.
\<close>

section \<open>The answer of a runner\<close>

lemma shape_of_call:
  assumes "run_shape db g r [p]"
  obtains xs y ys n where "graph_order g = xs @ y # ys" "all_nodes succeeded db (ar_run_id r) xs"
    "node_at db (ar_run_id r) y = Some n" "call_fits db g r xs y ys p"
    "ar_lifecycle_state r = RunRunning \<and> rn_lifecycle_state n = NodeRunning \<and> all_nodes fresh db (ar_run_id r) ys
     \<or> ar_lifecycle_state r = RunTerminal \<and> ar_terminal_outcome r = Some RunCancelled \<and> rejected n
         \<and> all_nodes rejected db (ar_run_id r) ys"
proof -
  have "\<exists>xs y ys n. graph_order g = xs @ y # ys \<and> all_nodes succeeded db (ar_run_id r) xs
    \<and> node_at db (ar_run_id r) y = Some n \<and> call_fits db g r xs y ys p
    \<and> (ar_lifecycle_state r = RunRunning \<and> rn_lifecycle_state n = NodeRunning \<and> all_nodes fresh db (ar_run_id r) ys
     \<or> ar_lifecycle_state r = RunTerminal \<and> ar_terminal_outcome r = Some RunCancelled \<and> rejected n
         \<and> all_nodes rejected db (ar_run_id r) ys)"
    using assms unfolding run_shape_def node_shape_def by (simp del: all_nodes_simps) blast
  then show ?thesis using that by blast
qed

text \<open>The run after an answer that stops it: the node has failed or waits for a repair.\<close>

lemma stopped_run_shape:
  assumes "graph_order g = xs @ y # ys" "all_nodes succeeded db (ar_run_id r) xs" "node_at db (ar_run_id r) y = Some n"
    "all_nodes fresh db (ar_run_id r) ys \<or> all_nodes rejected db (ar_run_id r) ys"
    "failed n \<and> ar_lifecycle_state r = RunTerminal \<and> ar_terminal_outcome r = Some RunFailed
     \<or> rn_lifecycle_state n = NodePaused \<and> ar_lifecycle_state r = RunPaused \<and> ar_pause_reason r = Some RunRepairRequired"
  shows "run_shape db g r []"
  unfolding run_shape_def node_shape_def
  by (rule disjI2, intro exI [of _ xs] exI [of _ y] exI [of _ ys] exI [of _ n]) (use assms in blast)

lemma finished_run_shape:
  assumes "graph_order g = xs @ ys" "all_nodes succeeded db (ar_run_id r) xs" "all_nodes rejected db (ar_run_id r) ys"
    "ar_lifecycle_state r = RunTerminal" "ar_terminal_outcome r = Some RunSucceeded"
  shows "run_shape db g r []"
  unfolding run_shape_def using assms by blast

lemma settle_ok:
  assumes wf: "rows_wf db" and run: "run_at db (rc_run_id (pc_context p)) = Some r" and g: "graph_wf g"
    and shape: "run_shape db g r [p]"
  shows "\<exists>out db' r'. settle_replay same p ans now db = (Inr out, db') \<and> rows_wf db'
    \<and> evolves (rc_run_id (pc_context p)) db db' \<and> ctx_ok (pc_context p) db' r'
    \<and> run_shape db' g r' (call_of (pc_context p) out)"
proof -
  let ?c = "pc_context p"
  let ?i = "rc_run_id ?c"
  obtain xs y ys n where ord: "graph_order g = xs @ y # ys" and xs: "all_nodes succeeded db (ar_run_id r) xs"
    and n: "node_at db (ar_run_id r) y = Some n" and fits: "call_fits db g r xs y ys p"
    and st: "ar_lifecycle_state r = RunRunning \<and> rn_lifecycle_state n = NodeRunning \<and> all_nodes fresh db (ar_run_id r) ys
     \<or> ar_lifecycle_state r = RunTerminal \<and> ar_terminal_outcome r = Some RunCancelled \<and> rejected n
         \<and> all_nodes rejected db (ar_run_id r) ys"
    by (rule shape_of_call [OF shape])
  have ctx: "ctx_ok ?c db r" using run fits by (simp add: ctx_ok_def call_fits_def same_run_row_def)
  note i = run_id_ctx [OF ctx]
  have p: "pc_nodeId p = y" "pc_rest p = ys" "rc_graph ?c = g" "outs_ok db ?i xs (pc_outputs p)"
    using fits i by (simp_all add: call_fits_def)
  note order = graph_order_ok [OF g]
  have dist: "y \<notin> set xs" "y \<notin> set ys" "distinct ((xs @ [y]) @ ys)" using order(1) ord by auto
  have open_node: "\<not> succeeded n" using st by (auto simp: succeeded_def rejected_def)
  have xs': "all_nodes succeeded db ?i xs" and n': "node_at db ?i y = Some n" using xs n i by simp_all
  obtain v m r1 where ans: "settle_node ?c now y (pc_outputs p) (pc_node p) ans db = (Inr v, put_rows db ?i y m r1)"
    and eff: "answer_effect y (pc_outputs p) n r v m r1"
    using settle_node_answer [OF n' run] by blast
  let ?db = "put_rows db ?i y m r1"
  have same: "same_node n m" "same_run_row r r1" using eff by (simp_all add: answer_effect_def)
  note put = visit_put [OF wf ctx n' open_node same]
  have i1: "ar_run_id r1 = ?i" by (rule run_id_ctx [OF put(3)])
  have keep: "all_nodes P ?db ?i xs = all_nodes P db ?i xs" "all_nodes P ?db ?i ys = all_nodes P db ?i ys" for P
    using dist by (simp_all add: all_nodes_put)
  from eff consider (next_node) "v = NextNode (map_set y (rn_output_snapshot_json m) (pc_outputs p))" "succeeded m" "r1 = r"
    | (stop) "v = ReturnRun" "failed m \<and> ar_lifecycle_state r1 = RunTerminal \<and> ar_terminal_outcome r1 = Some RunFailed
     \<or> rn_lifecycle_state m = NodePaused \<and> ar_lifecycle_state r1 = RunPaused \<and> ar_pause_reason r1 = Some RunRepairRequired"
    unfolding answer_effect_def by blast
  then show ?thesis
  proof cases
    case stop
    have "run_shape ?db g r1 []"
      by (rule stopped_run_shape [OF ord]) (use stop(2) st xs' i i1 keep in auto)
    moreover have "settle_replay same p ans now db
        = (Inr (RunReturned \<lparr>rv_run = r1, rv_nodes = listRunNodes ?i ?db\<rparr>), ?db)"
      using ans by (simp add: settle_replay_def p then_do_def [of "settle_node ?c now y (pc_outputs p) (pc_node p) ans"]
          stop(1) after_visit_def reload_then [OF put(3)] return_act_def)
    ultimately show ?thesis using put by (auto simp: call_of_def)
  next
    case next_node
    let ?outs = "map_set y (rn_output_snapshot_json m) (pc_outputs p)"
    have settle: "settle_replay same p ans now db = run_nodes same ?c now ys ?outs ?db"
      using ans by (simp add: settle_replay_def p then_do_def next_node(1) after_visit_def)
    have snoc: "all_nodes succeeded ?db ?i (xs @ [y])" using xs' keep next_node(2) by simp
    show ?thesis
    proof (cases "ar_lifecycle_state r = RunRunning")
      case True
      then have fresh: "all_nodes fresh ?db ?i ys" using st i keep by auto
      have known: "\<forall>k \<in> set ys. map_get (mapNodeById (rc_graph ?c)) k \<noteq> None"
        using mapNodeById_known order(2) ord p(3) by (metis UnCI list.set_intros(2) set_append)
      obtain out db' r' where loop: "run_nodes same ?c now ys ?outs ?db = (Inr out, db')" "rows_wf db'"
        "evolves ?i ?db db'" "ctx_ok ?c db' r'" "loop_post ?c db' ((xs @ [y]) @ ys) r' out"
        using run_nodes_active [OF put(1,3) _ dist(3) known snoc outs_ok_put [OF p(4) dist(1)] fresh_ready [OF fresh]]
          True next_node(3) by blast
      have "run_shape db' g r' (call_of ?c out)"
        using loop_run_shape [OF loop(4)] loop(5) p(3) ord by simp
      then show ?thesis using settle loop evolves_trans [OF put(2) loop(3)] by auto
    next
      case False
      then have rej: "all_nodes rejected ?db ?i ys" using st i keep by auto
      obtain w r' where loop: "run_nodes same ?c now ys ?outs ?db = (Inr (RunReturned w), put_run ?db ?i r')"
        "same_run_row r1 r'" "ar_lifecycle_state r' = RunTerminal" "ar_terminal_outcome r' = Some RunSucceeded"
        using run_nodes_cancelled [OF put(1,3) rej] by blast
      note fin = run_put [OF put(1,3) loop(2)]
      have "run_shape (put_run ?db ?i r') g r' []"
        using ord snoc rej run_id_ctx [OF fin(3)] loop(3,4) all_nodes_put(2) [of _ ?db ?i r']
        by (intro finished_run_shape [where xs = "xs @ [y]" and ys = ys]) (simp_all del: all_nodes_simps(3) put_run_put_rows)
      then show ?thesis using settle loop(1) fin evolves_trans [OF put(2) fin(2)] by (auto simp: call_of_def)
    qed
  qed
qed

section \<open>Definitions\<close>

lemma map_has_get: "map_has m k \<longleftrightarrow> map_get m k \<noteq> None"
  by (simp add: map_has_def map_get_def)

lemma versions_okD:
  assumes "versions_ok db" "map_get (db_versions db) (k, v) = Some row"
  shows "graph_wf (vr_graph row)" "vr_version row = v" "\<exists>d. map_get (db_definitions db) k = Some d \<and> v \<le> df_latest_version d"
  using assms unfolding versions_ok_def by blast+

lemma get_version:
  assumes "versions_ok db" "map_get (db_versions db) (k, v) = Some row"
  obtains d where "getDefinition k (Some v) db = Some \<lparr>dv_definition = d, dv_version = row\<rparr>"
    "map_get (db_definitions db) k = Some d"
  using assms versions_okD(3) [OF assms] by (auto simp: getDefinition_def)

lemma getDefinition_row:
  assumes "getDefinition k version db = Some out"
  obtains v where "map_get (db_versions db) (k, v) = Some (dv_version out)"
  using assms by (auto simp: getDefinition_def split: option.splits)

text \<open>A new version takes a number above all the stored ones: no stored version changes.\<close>

lemma createDefinition_ok:
  assumes ok: "versions_ok db" and wf: "graph_wf (cd_graph args)"
  shows "\<exists>out db'. createDefinition k args now db = Inr (out, db') \<and> versions_ok db'
    \<and> db_runs db' = db_runs db \<and> db_run_nodes db' = db_run_nodes db
    \<and> (\<forall>e row. map_get (db_versions db) e = Some row \<longrightarrow> map_get (db_versions db') e = Some row)"
proof -
  let ?v = "(case map_get (db_definitions db) k of Some d \<Rightarrow> df_latest_version d | None \<Rightarrow> 0) + 1"
  let ?row = "\<lparr>vr_version = ?v, vr_status = cd_status args, vr_graph = cd_graph args,
    vr_compile_summary = cd_compileSummary args, vr_metadata = cd_metadata args, vr_created_at = now\<rparr>"
  let ?d = "upsert_definition k args ?v now db"
  let ?db = "db\<lparr>db_versions := map_set (k, ?v) ?row (db_versions db), db_definitions := map_set k ?d (db_definitions db)\<rparr>"
  have old: "v < ?v" if "map_get (db_versions db) (k, v) = Some row" for v row
    using versions_okD(3) [OF ok that] by auto
  have new: "map_get (db_versions db) (k, ?v) = None"
  proof (cases "map_get (db_versions db) (k, ?v)")
    case (Some row)
    then show ?thesis using old by blast
  qed simp
  have latest: "df_latest_version ?d = ?v" by (simp add: upsert_definition_def)
  have "versions_ok ?db"
    unfolding versions_ok_def
  proof (intro conjI allI impI)
    fix k' v row
    assume row: "map_get (db_versions ?db) (k', v) = Some row"
    show "vr_version row = v" "graph_wf (vr_graph row)"
      using row wf ok versions_okD(1,2) [OF ok, of k' v row]
      by (cases "(k', v) = (k, ?v)"; auto simp: js_map.get_put split: if_splits)+
    show "\<exists>d. map_get (db_definitions ?db) k' = Some d \<and> v \<le> df_latest_version d"
    proof (cases "k' = k")
      case True
      have "v \<le> ?v" using row old [of v row] True by (cases "v = ?v") (auto simp: js_map.get_put)
      then show ?thesis using True latest by (auto simp: js_map.get_put)
    next
      case False
      then have "map_get (db_versions db) (k', v) = Some row" using row by (auto simp: js_map.get_put split: if_splits)
      from versions_okD(3) [OF ok this] show ?thesis using False by (simp add: js_map.get_put)
    qed
  next
    fix k' d assume d: "map_get (db_definitions ?db) k' = Some d"
    show "map_get (db_versions ?db) (k', df_latest_version d) \<noteq> None"
    proof (cases "k' = k")
      case True
      then have "df_latest_version d = ?v" using d latest by (auto simp: js_map.get_put)
      then show ?thesis using True by (simp add: js_map.get_put)
    next
      case False
      then have "map_get (db_definitions db) k' = Some d" using d by (auto simp: js_map.get_put split: if_splits)
      then have "map_get (db_versions db) (k', df_latest_version d) \<noteq> None" using ok unfolding versions_ok_def by blast
      then show ?thesis using False by (simp add: js_map.get_put)
    qed
  qed
  moreover have "createDefinition k args now db = Inr (\<lparr>dv_definition = ?d, dv_version = ?row\<rparr>, ?db)"
    using new by (simp add: createDefinition_def Let_def map_has_get getDefinition_def js_map.get_put del: not_None_eq)
  moreover have "map_get (db_versions ?db) e = Some row" if "map_get (db_versions db) e = Some row" for e row
    using that new by (cases "e = (k, ?v)") (auto simp: js_map.get_put)
  ultimately show ?thesis by (intro exI [of _ "\<lparr>dv_definition = ?d, dv_version = ?row\<rparr>"] exI [of _ ?db]) simp
qed

section \<open>The rows of a new run\<close>

lemma insert_nodes_ok:
  assumes "rows_wf db" "distinct (map an_node_id ns)" "\<forall>n \<in> set ns. node_at db i (an_node_id n) = None"
  shows "\<exists>db'. fold_result (insert_node i g now) db ns = Inr db' \<and> rows_wf db' \<and> db_runs db' = db_runs db
    \<and> db_definitions db' = db_definitions db \<and> db_versions db' = db_versions db
    \<and> (\<forall>n \<in> set ns. node_at db' i (an_node_id n) = Some (initial_node i g now n))
    \<and> (\<forall>j k. j \<noteq> i \<or> k \<notin> an_node_id ` set ns \<longrightarrow> node_at db' j k = node_at db j k)"
  using assms
proof (induction ns arbitrary: db)
  case (Cons n ns)
  let ?db = "db\<lparr>db_run_nodes := map_set (i, an_node_id n) (initial_node i g now n) (db_run_nodes db)\<rparr>"
  have new: "node_at db i (an_node_id n) = None" using Cons.prems(3) by simp
  have step: "insert_node i g now db n = Inr ?db"
    using new by (simp add: insert_node_def map_has_get)
  have at: "node_at ?db j k = (if (j, k) = (i, an_node_id n) then Some (initial_node i g now n) else node_at db j k)" for j k
    by (simp add: js_map.get_put)
  have "rows_wf ?db"
    using Cons.prems(1) unfolding rows_wf_def
    by (auto simp: distinct_map_set js_map.get_put initial_node_def Let_def)
  moreover have "\<forall>m \<in> set ns. node_at ?db i (an_node_id m) = None"
  proof
    fix m assume m: "m \<in> set ns"
    then have "an_node_id m \<in> an_node_id ` set ns" by simp
    then have "an_node_id m \<noteq> an_node_id n" using Cons.prems(2) by auto
    then show "node_at ?db i (an_node_id m) = None" using at m Cons.prems(3) by simp
  qed
  ultimately obtain db' where db': "fold_result (insert_node i g now) ?db ns = Inr db'" "rows_wf db'"
    "db_runs db' = db_runs ?db" "db_definitions db' = db_definitions ?db" "db_versions db' = db_versions ?db"
    "\<forall>m \<in> set ns. node_at db' i (an_node_id m) = Some (initial_node i g now m)"
    "\<forall>j k. j \<noteq> i \<or> k \<notin> an_node_id ` set ns \<longrightarrow> node_at db' j k = node_at ?db j k"
    using Cons.IH [of ?db] Cons.prems(2) by auto
  have "an_node_id n \<notin> an_node_id ` set ns" using Cons.prems(2) by auto
  then have "node_at db' i (an_node_id n) = Some (initial_node i g now n)" using db'(7) at by simp
  then show ?case using step db' at by (intro exI [of _ db']) auto
qed simp

lemma createRun_ok:
  assumes wf: "rows_wf db" and g: "graph_wf (cr_graph args)"
    and new: "run_at db (cr_runId args) = None" "\<forall>k. node_at db (cr_runId args) k = None"
  shows "\<exists>db'. createRun args now db
      = Inr (\<lparr>rv_run = queued_run args now, rv_nodes = listRunNodes (cr_runId args) db'\<rparr>, db')
    \<and> rows_wf db' \<and> run_at db' (cr_runId args) = Some (queued_run args now)
    \<and> db_definitions db' = db_definitions db \<and> db_versions db' = db_versions db
    \<and> (\<forall>j k. j \<noteq> cr_runId args \<longrightarrow> run_at db' j = run_at db j \<and> node_at db' j k = node_at db j k)
    \<and> run_nodes_ok db' (cr_runId args) (cr_graph args)
    \<and> all_nodes fresh db' (cr_runId args) (node_ids (cr_graph args))"
proof -
  let ?i = "cr_runId args" and ?g = "cr_graph args"
  let ?db = "put_run db ?i (queued_run args now)"
  have dist: "distinct (map an_node_id (ag_nodes ?g))"
    using g by (simp add: graph_wf_def graph_edges_ok_def)
  have wf1: "rows_wf ?db" by (rule put_run_wf [OF wf]) (simp add: queued_run_def)
  obtain db' where db': "fold_result (insert_node ?i ?g now) ?db (ag_nodes ?g) = Inr db'" "rows_wf db'"
    "db_runs db' = db_runs ?db" "db_definitions db' = db_definitions ?db" "db_versions db' = db_versions ?db"
    "\<forall>n \<in> set (ag_nodes ?g). node_at db' ?i (an_node_id n) = Some (initial_node ?i ?g now n)"
    "\<forall>j k. j \<noteq> ?i \<or> k \<notin> an_node_id ` set (ag_nodes ?g) \<longrightarrow> node_at db' j k = node_at ?db j k"
    using insert_nodes_ok [OF wf1 dist, of ?i ?g now] new(2) by auto
  have run: "run_at db' ?i = Some (queued_run args now)" by (simp add: db'(3))
  have "createRun args now db
      = Inr (\<lparr>rv_run = queued_run args now, rv_nodes = listRunNodes ?i db'\<rparr>, db')"
    using db'(1) new(1) run
    by (simp add: createRun_def map_has_get put_run_def getRun_def queued_run_def)
  moreover have "run_nodes_ok db' ?i ?g"
    unfolding run_nodes_ok_def
  proof (intro conjI ballI allI impI)
    fix k assume "k \<in> set (node_ids ?g)"
    then show "\<exists>n. node_at db' ?i k = Some n" using db'(6) by auto
  next
    fix k n assume n: "node_at db' ?i k = Some n"
    show k: "k \<in> set (node_ids ?g)"
    proof (rule ccontr)
      assume "k \<notin> set (node_ids ?g)"
      then have "node_at db' ?i k = node_at ?db ?i k" using db'(7) by simp
      then show False using n new(2) by simp
    qed
    then obtain m where "m \<in> set (ag_nodes ?g)" "k = an_node_id m" by auto
    then have "n = initial_node ?i ?g now m" using db'(6) n by simp
    then show "rn_depends_on n = depends_on k ?g"
      using \<open>k = an_node_id m\<close> by (simp add: initial_node_def Let_def)
  qed
  moreover have "all_nodes fresh db' ?i (node_ids ?g)"
    using db'(6) by (auto simp: all_nodes_def fresh_def initial_node_def Let_def)
  ultimately show ?thesis using db'(2-5,7) run by (intro exI [of _ db']) simp
qed

section \<open>Cancelling\<close>

text \<open>Some of the nodes of a run that have not ended are rejected.\<close>

definition cancel_mark :: "bool \<Rightarrow> run_node \<Rightarrow> run_node \<Rightarrow> bool" where
  "cancel_mark must n m \<longleftrightarrow> same_node n m
     \<and> (if rn_lifecycle_state n = NodeTerminal then m = n else (m = n \<and> \<not> must) \<or> rejected m)"

definition cancels :: "string \<Rightarrow> string set \<Rightarrow> automation_db \<Rightarrow> automation_db \<Rightarrow> bool" where
  "cancels i ks db db' \<longleftrightarrow> rows_wf db' \<and> db_runs db' = db_runs db \<and> db_definitions db' = db_definitions db
     \<and> db_versions db' = db_versions db
     \<and> (\<forall>j k. j \<noteq> i \<longrightarrow> node_at db' j k = node_at db j k)
     \<and> (\<forall>k. node_at db i k = None \<longrightarrow> node_at db' i k = None)
     \<and> (\<forall>k n. node_at db i k = Some n \<longrightarrow> (\<exists>m. node_at db' i k = Some m \<and> cancel_mark (k \<in> ks) n m))"

lemma cancel_nodes:
  assumes "rows_wf db" "\<forall>n \<in> set ns. node_at db i (rn_node_id n) = Some n"
  shows "\<exists>db'. fold_result (\<lambda>db n. cancel_node i message now n db) db ns = Inr db'
    \<and> cancels i (rn_node_id ` set ns) db db'"
  using assms(2)
proof (induction ns rule: rev_induct)
  case Nil
  then show ?case using assms(1) by (auto simp: cancels_def cancel_mark_def)
next
  case (snoc n ns)
  then obtain db' where db': "fold_result (\<lambda>db n. cancel_node i message now n db) db ns = Inr db'"
    "cancels i (rn_node_id ` set ns) db db'" by auto
  have n: "node_at db i (rn_node_id n) = Some n" using snoc.prems by simp
  show ?case
  proof (cases "rn_lifecycle_state n = NodeTerminal")
    case True
    have "\<exists>m. node_at db' i k = Some m \<and> cancel_mark (k \<in> rn_node_id ` set (ns @ [n])) x m"
      if x: "node_at db i k = Some x" for k x
    proof -
      obtain m where "node_at db' i k = Some m" "cancel_mark (k \<in> rn_node_id ` set ns) x m"
        using db'(2) x unfolding cancels_def by blast
      moreover have "k = rn_node_id n \<Longrightarrow> rn_lifecycle_state x = NodeTerminal" using n True x by simp
      ultimately show ?thesis by (intro exI [of _ m]) (auto simp: cancel_mark_def)
    qed
    then have "cancels i (rn_node_id ` set (ns @ [n])) db db'"
      using db'(2) unfolding cancels_def by blast
    then show ?thesis using db'(1) True by (auto simp: fold_result_append cancel_node_def)
  next
    case False
    then obtain m where m: "node_at db' i (rn_node_id n) = Some m" "same_node n m"
      using db'(2) n unfolding cancels_def cancel_mark_def by blast
    let ?m = "patched_node (\<lambda>m. m\<lparr>rn_lifecycle_state := NodeTerminal,
             rn_terminal_outcome := Some NodeRejected, rn_status_summary := ''cancelled'',
             rn_error_code := Some ''automation_run_cancelled'', rn_error_message := Some message,
             rn_ended_at := Some now\<rparr>) now m"
    let ?db = "db'\<lparr>db_run_nodes := map_set (i, rn_node_id n) ?m (db_run_nodes db')\<rparr>"
    have "cancel_node i message now n db' = Inr ?db"
      using False m(1) by (simp add: cancel_node_def updateRunNode_def patched_node_def)
    moreover have mark: "cancel_mark must n ?m" for must
      using m(2) False by (simp add: patched_node_def rejected_def same_node_def cancel_mark_def)
    moreover have "rows_wf ?db"
      using db'(2) m(1) unfolding cancels_def rows_wf_def
      by (auto simp: distinct_map_set js_map.get_put patched_node_def)
    moreover have at: "node_at ?db j k = (if j = i \<and> k = rn_node_id n then Some ?m else node_at db' j k)" for j k
      by (simp add: js_map.get_put)
    moreover have "\<exists>m. node_at ?db i k = Some m \<and> cancel_mark (k \<in> rn_node_id ` set (ns @ [n])) x m"
      if x: "node_at db i k = Some x" for k x
    proof (cases "k = rn_node_id n")
      case True
      then show ?thesis using mark n x at by simp
    next
      case False
      then show ?thesis using db'(2) x at unfolding cancels_def by simp
    qed
    ultimately have "cancels i (rn_node_id ` set (ns @ [n])) db ?db"
      using db'(2) n unfolding cancels_def by simp
    then show ?thesis
      using db'(1) \<open>cancel_node i message now n db' = Inr ?db\<close> by (auto simp: fold_result_append)
  qed
qed

lemma cancels_all:
  assumes c: "cancels i ks db db'" and n: "node_at db i k = Some n"
  shows "succeeded n \<Longrightarrow> node_at db' i k = Some n"
    "rejected n \<Longrightarrow> node_at db' i k = Some n"
    "k \<in> ks \<Longrightarrow> rn_lifecycle_state n \<noteq> NodeTerminal \<Longrightarrow> \<exists>m. node_at db' i k = Some m \<and> rejected m"
proof -
  obtain m where m: "node_at db' i k = Some m" "cancel_mark (k \<in> ks) n m"
    using c n unfolding cancels_def by blast
  then show "succeeded n \<Longrightarrow> node_at db' i k = Some n" "rejected n \<Longrightarrow> node_at db' i k = Some n"
    by (auto simp: succeeded_def rejected_def cancel_mark_def)
  show "k \<in> ks \<Longrightarrow> rn_lifecycle_state n \<noteq> NodeTerminal \<Longrightarrow> \<exists>m. node_at db' i k = Some m \<and> rejected m"
    using m by (auto simp: cancel_mark_def)
qed

lemma cancels_lists:
  assumes c: "cancels i ks db db'"
  shows "all_nodes succeeded db i xs \<Longrightarrow> all_nodes succeeded db' i xs"
    "all_nodes rejected db i xs \<Longrightarrow> all_nodes rejected db' i xs"
    "all_nodes fresh db i xs \<Longrightarrow> set xs \<subseteq> ks \<Longrightarrow> all_nodes rejected db' i xs"
    "all_nodes succeeded db i xs \<Longrightarrow> outs_ok db i xs outs \<Longrightarrow> outs_ok db' i xs outs"
proof -
  note one = cancels_all [OF c]
  show "all_nodes succeeded db i xs \<Longrightarrow> all_nodes succeeded db' i xs"
    "all_nodes rejected db i xs \<Longrightarrow> all_nodes rejected db' i xs"
    unfolding all_nodes_def using one(1,2) by blast+
  show "all_nodes rejected db' i xs" if f: "all_nodes fresh db i xs" "set xs \<subseteq> ks"
    unfolding all_nodes_def
  proof
    fix k assume k: "k \<in> set xs"
    then obtain n where "node_at db i k = Some n" "fresh n" using f(1) by (auto simp: all_nodes_def)
    then show "\<exists>m. node_at db' i k = Some m \<and> rejected m"
      using one(3) [of k n] k f(2) by (auto simp: fresh_def)
  qed
  show "outs_ok db' i xs outs" if f: "all_nodes succeeded db i xs" "outs_ok db i xs outs"
    unfolding outs_ok_def
  proof
    fix k assume k: "k \<in> set xs"
    then obtain n where n: "node_at db i k = Some n" "succeeded n" using f(1) by (auto simp: all_nodes_def)
    have "map_get outs k = Some (rn_output_snapshot_json n)" using f(2) k n(1) by (auto simp: outs_ok_def)
    then show "\<exists>n. node_at db' i k = Some n \<and> map_get outs k = Some (rn_output_snapshot_json n)"
      using one(1) [OF n] by blast
  qed
qed

lemma live_shape:
  assumes "run_shape db g r calls" "ar_lifecycle_state r \<noteq> RunTerminal"
  obtains xs y ys n where "graph_order g = xs @ y # ys" "all_nodes succeeded db (ar_run_id r) xs"
    "node_at db (ar_run_id r) y = Some n" "rn_lifecycle_state n \<noteq> NodeTerminal"
    "all_nodes fresh db (ar_run_id r) ys \<or> all_nodes rejected db (ar_run_id r) ys"
    "calls = [] \<or> (\<exists>p. calls = [p] \<and> call_fits db g r xs y ys p)"
proof -
  obtain xs y ys n where s: "graph_order g = xs @ y # ys" "all_nodes succeeded db (ar_run_id r) xs"
    "node_at db (ar_run_id r) y = Some n" "node_shape db g r calls xs y ys n"
    using assms unfolding run_shape_def by blast
  have "rn_lifecycle_state n \<noteq> NodeTerminal"
    "all_nodes fresh db (ar_run_id r) ys \<or> all_nodes rejected db (ar_run_id r) ys"
    "calls = [] \<or> (\<exists>p. calls = [p] \<and> call_fits db g r xs y ys p)"
    using s(4) assms(2) unfolding node_shape_def awaits_approval_def by auto
  then show ?thesis using that [OF s(1-3)] by blast
qed

lemma cancelled_run_shape:
  assumes "graph_order g = xs @ y # ys" "all_nodes succeeded db (ar_run_id r) xs"
    "all_nodes rejected db (ar_run_id r) (y # ys)" "ar_lifecycle_state r = RunTerminal"
    "ar_terminal_outcome r = Some RunCancelled" "calls = [] \<or> (\<exists>p. calls = [p] \<and> call_fits db g r xs y ys p)"
  shows "run_shape db g r calls"
proof -
  obtain n where "node_at db (ar_run_id r) y = Some n" "rejected n" using assms(3) by auto
  then show ?thesis unfolding run_shape_def node_shape_def
    by (intro disjI2, intro exI [of _ xs] exI [of _ y] exI [of _ ys] exI [of _ n]) (use assms in auto)
qed

lemma cancel_ok:
  assumes wf: "rows_wf db" and run: "run_at db i = Some r" and live: "ar_lifecycle_state r \<noteq> RunTerminal"
    and nodes: "run_nodes_ok db i g" and g: "graph_wf g" and shape: "run_shape db g r calls"
  shows "\<exists>db' r'. cancel_run \<lparr>rv_run = r, rv_nodes = listRunNodes i db\<rparr> message now db = Inr db' \<and> rows_wf db'
    \<and> evolves i db db' \<and> run_at db' i = Some r' \<and> same_run_row r r'
    \<and> ar_lifecycle_state r' = RunTerminal \<and> ar_terminal_outcome r' = Some RunCancelled
    \<and> run_shape db' g r' calls
    \<and> (\<forall>k n. node_at db i k = Some n \<longrightarrow> rn_lifecycle_state n \<noteq> NodeTerminal
          \<longrightarrow> (\<exists>m. node_at db' i k = Some m \<and> rejected m))"
proof -
  let ?ns = "listRunNodes i db"
  have i: "ar_run_id r = i" using wf run by (simp add: rows_wf_def)
  have at: "node_at db i (rn_node_id n) = Some n" if "n \<in> set ?ns" for n
    using that set_listRunNodes [OF wf] wf unfolding rows_wf_def by metis
  obtain d1 where d1: "fold_result (\<lambda>db n. cancel_node i message now n db) db ?ns = Inr d1"
    "cancels i (rn_node_id ` set ?ns) db d1"
    using cancel_nodes [OF wf, of ?ns i message now] at by blast
  have ids: "k \<in> rn_node_id ` set ?ns" if "node_at db i k = Some n" for k n
    using that set_listRunNodes [OF wf, of n i] wf unfolding rows_wf_def by blast
  have d1wf: "rows_wf d1" and d1run: "run_at d1 i = Some r" using d1(2) run by (simp_all add: cancels_def)
  let ?f = "\<lambda>s. s\<lparr>ar_lifecycle_state := RunTerminal, ar_terminal_outcome := Some RunCancelled,
             ar_status_summary := ''cancelled'', ar_root_cause_code := Some ''automation_run_cancelled'',
             ar_root_cause_node_id := ar_root_cause_node_id r, ar_root_cause_message := Some message,
             ar_summary_json := summarizeRunNodes (listRunNodes i d1), ar_ended_at := Some now,
             ar_pause_reason := None\<rparr>"
  obtain r' where r': "updateRun i ?f now d1 = Inr (put_run d1 i r')" "same_run_row r r'"
    "ar_lifecycle_state r' = RunTerminal" "ar_terminal_outcome r' = Some RunCancelled"
    by (rule updateRun_ok [OF d1run, where f = ?f]) simp_all
  let ?db = "put_run d1 i r'"
  have i': "ar_run_id r' = i" using r'(2) i by (simp add: same_run_row_def)
  have "cancel_run \<lparr>rv_run = r, rv_nodes = ?ns\<rparr> message now db = Inr ?db"
    using d1(1) r'(1) i by (simp add: cancel_run_def)
  moreover have "rows_wf ?db" by (rule put_run_wf [OF d1wf i'])
  moreover have "evolves i db ?db"
    unfolding evolves_def
  proof (intro conjI allI impI)
    fix k n assume n: "node_at db i k = Some n"
    then obtain m where "node_at d1 i k = Some m" "cancel_mark (k \<in> rn_node_id ` set ?ns) n m"
      using d1(2) unfolding cancels_def by blast
    then show "\<exists>n'. node_at ?db i k = Some n' \<and> same_node n n' \<and> (succeeded n \<longrightarrow> n' = n)"
      by (auto simp: cancel_mark_def succeeded_def)
  qed (use d1(2) r'(2) run in \<open>auto simp: cancels_def\<close>)
  moreover have "run_shape ?db g r' calls"
  proof -
    obtain xs y ys n where ord: "graph_order g = xs @ y # ys" and xs: "all_nodes succeeded db i xs"
      and n: "node_at db i y = Some n" "rn_lifecycle_state n \<noteq> NodeTerminal"
      and ys: "all_nodes fresh db i ys \<or> all_nodes rejected db i ys"
      and call: "calls = [] \<or> (\<exists>p. calls = [p] \<and> call_fits db g r xs y ys p)"
      using live_shape [OF shape live] unfolding i by blast
    note lists = cancels_lists [OF d1(2)]
    have "set ys \<subseteq> set (node_ids g)" using graph_order_ok(2) [OF g] ord by auto
    then have "set ys \<subseteq> rn_node_id ` set ?ns" using nodes ids unfolding run_nodes_ok_def by blast
    then have ys': "all_nodes rejected d1 i ys" using ys lists(2,3) by blast
    have y': "all_nodes rejected d1 i [y]" using cancels_all(3) [OF d1(2) n(1) ids [OF n(1)] n(2)] by simp
    have "call_fits ?db g r' xs y ys p" if "call_fits db g r xs y ys p" for p
      using that same_run_row_trans [OF _ r'(2)] lists(4) [OF xs, of "pc_outputs p"] i i' r'(2)
      by (auto simp: call_fits_def outs_ok_def) (simp add: same_run_row_def)
    then show ?thesis
      using call lists(1) [OF xs] y' ys' r'(3,4) i'
      by (intro cancelled_run_shape [OF ord]) (auto simp: all_nodes_put)
  qed
  moreover have "\<forall>k n. node_at db i k = Some n \<longrightarrow> rn_lifecycle_state n \<noteq> NodeTerminal
          \<longrightarrow> (\<exists>m. node_at ?db i k = Some m \<and> rejected m)"
    using cancels_all(3) [OF d1(2)] ids by auto
  ultimately show ?thesis using r' by (intro exI [of _ ?db] exI [of _ r']) simp
qed

section \<open>Requests\<close>

lemma load_definition_row:
  assumes ok: "versions_ok db" and out: "loadDefinitionForExecution k version db = Inr out"
  shows "map_get (db_versions db) (k, vr_version (dv_version out)) = Some (dv_version out)"
    "graph_wf (vr_graph (dv_version out))" "version = Some v \<Longrightarrow> vr_version (dv_version out) = v"
proof -
  have def: "getDefinition k version db = Some out"
    using out by (auto simp: loadDefinitionForExecution_def split: option.splits if_splits)
  obtain w where w: "map_get (db_versions db) (k, w) = Some (dv_version out)" by (rule getDefinition_row [OF def])
  show "map_get (db_versions db) (k, vr_version (dv_version out)) = Some (dv_version out)"
    "graph_wf (vr_graph (dv_version out))"
    using w versions_okD [OF ok w] by simp_all
  assume ver: "version = Some v"
  then have "map_get (db_versions db) (k, v) = Some (dv_version out)"
    using def by (auto simp: getDefinition_def split: option.splits)
  from versions_okD(2) [OF ok this] show "vr_version (dv_version out) = v" .
qed

lemma evolves_nodes_ok: "evolves i db db' \<Longrightarrow> run_nodes_ok db i g \<Longrightarrow> run_nodes_ok db' i g"
  unfolding run_nodes_ok_def
proof (intro conjI ballI allI impI, goal_cases)
  case (1 k)
  then obtain n where "node_at db i k = Some n" by blast
  with 1(1) show ?case unfolding evolves_def by blast
next
  case (2 k n)
  then have "node_at db i k \<noteq> None" unfolding evolves_def by (metis option.distinct(1))
  with 2(2) show ?case by auto
next
  case (3 k n)
  then obtain m where m: "node_at db i k = Some m" unfolding evolves_def by (metis not_None_eq)
  with 3(1) have "same_node m n" using 3(3) unfolding evolves_def by (metis option.inject)
  with m 3(2) show ?case by (simp add: same_node_def)
qed

lemma evolved_run_ok:
  assumes "evolves i db db'" "same_run_row r r'" "ar_run_id r = i"
    "map_get (db_versions db) (run_key r, ar_automation_version r) = Some v" "run_nodes_ok db i (vr_graph v)"
    "run_shape db' (vr_graph v) r' calls"
  shows "run_ok db' calls r'"
  unfolding run_ok_def
proof (intro exI [of _ v] conjI)
  show "map_get (db_versions db') (run_key r', ar_automation_version r') = Some v"
    using assms(1,2,4) by (simp add: evolves_def same_run_row_def)
  show "run_nodes_ok db' (ar_run_id r') (vr_graph v)"
    using evolves_nodes_ok [OF assms(1,5)] assms(2,3) by (simp add: same_run_row_def)
qed (rule assms(6))

definition only_run :: "string \<Rightarrow> automation_db \<Rightarrow> automation_db \<Rightarrow> bool" where
  "only_run i db db' \<longleftrightarrow> db_definitions db' = db_definitions db \<and> db_versions db' = db_versions db
     \<and> (\<forall>j k. j \<noteq> i \<longrightarrow> run_at db' j = run_at db j \<and> node_at db' j k = node_at db j k)"

lemma evolves_only: "evolves i db db' \<Longrightarrow> only_run i db db'"
  by (simp add: evolves_def only_run_def)

lemma run_lite_ok:
  assumes wf: "rows_wf db" and ver: "versions_ok db"
    and owned: "\<forall>k n. node_at db newId k = Some n \<longrightarrow> (\<exists>r. run_at db newId = Some r)"
  shows "(\<exists>e. automationRunLite same q d newId now db = (Inl e, db)
            \<and> (\<forall>m. e = StoreFailure m \<longrightarrow> run_at db newId \<noteq> None))
    \<or> (\<exists>c out db' r'. automationRunLite same q d newId now db = (Inr (c, out), db') \<and> rc_run_id c = newId
         \<and> run_at db newId = None \<and> rows_wf db' \<and> only_run newId db db' \<and> run_at db' newId = Some r'
         \<and> run_ok db' (call_of c out) r')"
proof (cases "resolveTenantScope (rqr_scope q) (rqr_tenant_id q) (ad_defaultScope d) (ad_defaultTenantId d)")
  case (Inl e)
  then show ?thesis by (simp add: automationRunLite_def Let_def then_do_def request_act_def)
next
  case (Inr tenancy)
  note ten = Inr
  let ?k = "(ts_tenant_id tenancy, ts_scope tenancy, rqr_automation_id q)"
  show ?thesis
  proof (cases "loadDefinitionForExecution ?k (rqr_version q) db")
    case (Inl e)
    then show ?thesis using ten by (simp add: automationRunLite_def Let_def then_do_def request_act_def)
  next
    case (Inr def)
    note row = load_definition_row [OF ver Inr]
    let ?params = "case rqr_params q of Some ob \<Rightarrow> ob | None \<Rightarrow> []"
    let ?args = "\<lparr>cr_runId = newId, cr_tenantId = ts_tenant_id tenancy, cr_scope = ts_scope tenancy,
                  cr_automationId = rqr_automation_id q, cr_automationVersion = vr_version (dv_version def),
                  cr_requestedBy = resolveLiteActor (rqr_actor q) (ad_defaultActorId d),
                  cr_executionMode = rqr_execution_mode q, cr_paramsJson = ?params,
                  cr_graph = vr_graph (dv_version def)\<rparr>"
    have run_eq: "automationRunLite same q d newId now db
      = then_do (store_act (createRun ?args now)) (\<lambda>view.
               let c = \<lparr>rc_run = rv_run view, rc_graph = vr_graph (dv_version def),
                        rc_actor = resolveLiteActor (rqr_actor q) (ad_defaultActorId d), rc_params = ?params,
                        rc_resumeReason = None\<rparr>
               in then_do (continueAutomationRun same c (rv_nodes view) now) (\<lambda>out. return_act (c, out))) db"
      using ten Inr by (simp add: automationRunLite_def Let_def then_do_def request_act_def)
    show ?thesis
    proof (cases "run_at db newId")
      case (Some r)
      then have "createRun ?args now db = Inl ''UNIQUE constraint failed''" by (simp add: createRun_def map_has_get)
      then show ?thesis using Some run_eq by (simp add: then_do_def store_act_def)
    next
      case None
      have nodes: "node_at db newId k = None" for k using owned None by (cases "node_at db newId k") auto
      have none: "run_at db (cr_runId ?args) = None" "\<forall>k. node_at db (cr_runId ?args) k = None"
        using None nodes by simp_all
      have g: "graph_wf (cr_graph ?args)" using row(2) by simp
      obtain d1 where d1: "createRun ?args now db
          = Inr (\<lparr>rv_run = queued_run ?args now, rv_nodes = listRunNodes (cr_runId ?args) d1\<rparr>, d1)"
        "rows_wf d1" "run_at d1 (cr_runId ?args) = Some (queued_run ?args now)"
        "db_definitions d1 = db_definitions db" "db_versions d1 = db_versions db"
        "\<forall>j k. j \<noteq> cr_runId ?args \<longrightarrow> run_at d1 j = run_at db j \<and> node_at d1 j k = node_at db j k"
        "run_nodes_ok d1 (cr_runId ?args) (cr_graph ?args)" "all_nodes fresh d1 (cr_runId ?args) (node_ids (cr_graph ?args))"
        using createRun_ok [OF wf g none] by blast
      let ?c = "\<lparr>rc_run = queued_run ?args now, rc_graph = vr_graph (dv_version def),
        rc_actor = resolveLiteActor (rqr_actor q) (ad_defaultActorId d), rc_params = ?params, rc_resumeReason = None\<rparr>"
      have id: "rc_run_id ?c = newId" by (simp add: queued_run_def)
      have ctx: "ctx_ok ?c d1 (queued_run ?args now)" using d1(3) id by (simp add: ctx_ok_def) (simp add: queued_run_def)
      have "all_nodes fresh d1 newId (graph_order (vr_graph (dv_version def)))"
        using d1(8) graph_order_ok(2) [OF row(2)] by (simp add: all_nodes_def)
      then have "ready_list d1 (rc_run_id ?c) (graph_order (rc_graph ?c))" using id by (simp add: fresh_ready)
      then obtain out db' r' where out: "continueAutomationRun same ?c (listRunNodes newId d1) now d1 = (Inr out, db')"
        "rows_wf db'" "evolves newId d1 db'" "ctx_ok ?c db' r'" "run_shape db' (vr_graph (dv_version def)) r' (call_of ?c out)"
        using continue_ok [OF d1(2) ctx] row(2) id by (metis run_context.select_convs(2))
      have same: "same_run_row (queued_run ?args now) r'" "run_at db' newId = Some r'"
        using out(4) id by (simp_all add: ctx_ok_def)
      have "run_ok db' (call_of ?c out) r'"
        by (rule evolved_run_ok [OF out(3) same(1) _ _ _ out(5)])
          (use d1(5,7) row(1) in \<open>simp_all add: queued_run_def\<close>)
      moreover have "only_run newId db db'"
        using evolves_only [OF out(3)] d1(4-6) by (simp add: only_run_def)
      moreover have "automationRunLite same q d newId now db = (Inr (?c, out), db')"
        using d1(1) out(1) unfolding run_eq by (simp add: then_do_def store_act_def return_act_def Let_def)
      ultimately show ?thesis using None id out(2) same(2) by blast
    qed
  qed
qed

lemma require_run:
  "requireRunInScope tenantId scope runId db
   = (case run_at db runId of
        Some r \<Rightarrow> if ar_tenant_id r = tenantId \<and> ar_scope r = scope
                  then (Inr \<lparr>rv_run = r, rv_nodes = listRunNodes runId db\<rparr>, db)
                  else (Inl (RequestError (run_not_in_scope tenantId scope runId)), db)
      | None \<Rightarrow> (Inl (RequestError (run_not_in_scope tenantId scope runId)), db))"
  by (auto simp: requireRunInScope_def getRun_def split: option.splits)

lemma paused_ready:
  assumes "run_shape db g r calls" "ar_lifecycle_state r = RunPaused" "ar_pause_reason r = Some RunApprovalRequired"
  shows "calls = []" "ready_list db (ar_run_id r) (graph_order g)"
proof -
  obtain xs y ys n where s: "graph_order g = xs @ y # ys" "all_nodes succeeded db (ar_run_id r) xs"
    "node_at db (ar_run_id r) y = Some n" "node_shape db g r calls xs y ys n"
    using assms unfolding run_shape_def by auto
  then have n: "calls = []" "awaits_approval n" "all_nodes fresh db (ar_run_id r) ys"
    using assms(2,3) by (auto simp: node_shape_def)
  then show "calls = []" by simp
  show "ready_list db (ar_run_id r) (graph_order g)"
    unfolding ready_list_def by (rule exI [of _ xs], rule exI [of _ "y # ys"]) (use s n in auto)
qed

lemma resume_lite_ok:
  assumes wf: "rows_wf db" and ver: "versions_ok db"
    and run: "\<forall>r. run_at db run_id = Some r \<longrightarrow> run_ok db calls r"
  shows "(\<exists>e. automationRunResumeLite same tenant_id scope actor run_id reason d now db = (Inl (RequestError e), db))
    \<or> (\<exists>r c out db' r'. run_at db run_id = Some r \<and> ar_lifecycle_state r = RunPaused
         \<and> ar_pause_reason r = Some RunApprovalRequired
         \<and> automationRunResumeLite same tenant_id scope actor run_id reason d now db = (Inr (c, out), db')
         \<and> rc_run_id c = run_id \<and> calls = [] \<and> rows_wf db' \<and> evolves run_id db db' \<and> run_at db' run_id = Some r'
         \<and> run_ok db' (call_of c out) r')"
proof (cases "\<exists>e. automationRunResumeLite same tenant_id scope actor run_id reason d now db = (Inl (RequestError e), db)")
  case False
  obtain ten where ten: "resolveTenantScope scope tenant_id (ad_defaultScope d) (ad_defaultTenantId d) = Inr ten"
    using False by (cases "resolveTenantScope scope tenant_id (ad_defaultScope d) (ad_defaultTenantId d)")
      (simp_all add: automationRunResumeLite_def Let_def then_do_def request_act_def)
  obtain r where r: "run_at db run_id = Some r" "ar_tenant_id r = ts_tenant_id ten" "ar_scope r = ts_scope ten"
    using False by (cases "run_at db run_id")
      (auto simp: automationRunResumeLite_def Let_def then_do_def request_act_def ten require_run split: if_splits)
  have paused: "ar_lifecycle_state r = RunPaused" "ar_pause_reason r = Some RunApprovalRequired"
    using False by (auto simp: automationRunResumeLite_def Let_def then_do_def request_act_def ten require_run r
        throw_act_def split: if_splits)
  obtain v where v: "map_get (db_versions db) (run_key r, ar_automation_version r) = Some v"
    "run_nodes_ok db (ar_run_id r) (vr_graph v)" "run_shape db (vr_graph v) r calls"
    using run [rule_format, OF r(1)] unfolding run_ok_def by blast
  have id: "ar_run_id r = run_id" using wf r(1) by (simp add: rows_wf_def)
  obtain df where "getDefinition (run_key r) (Some (ar_automation_version r)) db = Some \<lparr>dv_definition = df, dv_version = v\<rparr>"
    by (rule get_version [OF ver v(1)])
  then have load: "loadDefinitionForExecution (run_key r) (Some (ar_automation_version r)) db
      = Inr \<lparr>dv_definition = df, dv_version = v\<rparr>"
    by (simp add: loadDefinitionForExecution_def)
  let ?c = "\<lparr>rc_run = r, rc_graph = vr_graph v, rc_actor = resolveLiteActor actor (ad_defaultActorId d),
    rc_params = ar_params_json r, rc_resumeReason = Some (case reason of Some s \<Rightarrow> s | None \<Rightarrow> ''operator_resume'')\<rparr>"
  have ctx: "ctx_ok ?c db r" using r(1) id by (simp add: ctx_ok_def)
  have g: "graph_wf (rc_graph ?c)" using versions_okD(1) [OF ver v(1)] by simp
  note ready = paused_ready [OF v(3) paused]
  obtain out db' r' where out: "continueAutomationRun same ?c (listRunNodes run_id db) now db = (Inr out, db')"
    "rows_wf db'" "evolves (rc_run_id ?c) db db'" "ctx_ok ?c db' r'" "run_shape db' (rc_graph ?c) r' (call_of ?c out)"
    using continue_ok [OF wf ctx g, of same "listRunNodes run_id db" now] ready(2) by auto
  have same: "same_run_row r r'" "run_at db' run_id = Some r'" using out(4) id by (simp_all add: ctx_ok_def)
  have "run_ok db' (call_of ?c out) r'"
    by (rule evolved_run_ok [OF _ same(1) id v(1)]) (use out(3,5) v(2) id in simp_all)
  moreover have "automationRunResumeLite same tenant_id scope actor run_id reason d now db = (Inr (?c, out), db')"
    using out(1) r load
    by (simp add: automationRunResumeLite_def Let_def then_do_def request_act_def ten require_run paused return_act_def)
  ultimately show ?thesis using r(1) paused id ready(1) out(2,3) same(2) by fastforce
qed blast

lemma cancel_lite_done:
  assumes wf: "rows_wf db" and ver: "versions_ok db" and ok: "run_ok db calls r"
    and ten: "resolveTenantScope scope tenant_id (ad_defaultScope d) (ad_defaultTenantId d) = Inr ten"
    and r: "run_at db run_id = Some r" "ar_tenant_id r = ts_tenant_id ten" "ar_scope r = ts_scope ten"
    and live: "ar_lifecycle_state r \<noteq> RunTerminal"
  shows "\<exists>db' r'. automationRunCancelLite tenant_id scope run_id reason d now db
             = (Inr \<lparr>rv_run = r', rv_nodes = listRunNodes run_id db'\<rparr>, db')
         \<and> rows_wf db' \<and> evolves run_id db db' \<and> run_at db' run_id = Some r' \<and> run_ok db' calls r'
         \<and> ar_lifecycle_state r' = RunTerminal \<and> ar_terminal_outcome r' = Some RunCancelled
         \<and> (\<forall>k n. node_at db run_id k = Some n \<longrightarrow> rn_lifecycle_state n \<noteq> NodeTerminal
              \<longrightarrow> (\<exists>m. node_at db' run_id k = Some m \<and> rejected m))"
proof -
  obtain v where v: "map_get (db_versions db) (run_key r, ar_automation_version r) = Some v"
    "run_nodes_ok db (ar_run_id r) (vr_graph v)" "run_shape db (vr_graph v) r calls"
    using ok unfolding run_ok_def by blast
  have id: "ar_run_id r = run_id" using wf r(1) by (simp add: rows_wf_def)
  let ?msg = "case reason of Some s \<Rightarrow> s | None \<Rightarrow> ''automation run cancelled by operator''"
  obtain db' r' where c: "cancel_run \<lparr>rv_run = r, rv_nodes = listRunNodes run_id db\<rparr> ?msg now db = Inr db'" "rows_wf db'"
    "evolves run_id db db'" "run_at db' run_id = Some r'" "same_run_row r r'"
    "ar_lifecycle_state r' = RunTerminal" "ar_terminal_outcome r' = Some RunCancelled" "run_shape db' (vr_graph v) r' calls"
    "\<forall>k n. node_at db run_id k = Some n \<longrightarrow> rn_lifecycle_state n \<noteq> NodeTerminal
          \<longrightarrow> (\<exists>m. node_at db' run_id k = Some m \<and> rejected m)"
    using cancel_ok [OF wf r(1) live _ versions_okD(1) [OF ver v(1)] v(3), of ?msg now] v(2) id by blast
  have "run_ok db' calls r'" by (rule evolved_run_ok [OF c(3,5) id v(1) _ c(8)]) (use v(2) id in simp)
  moreover have "automationRunCancelLite tenant_id scope run_id reason d now db
      = (Inr \<lparr>rv_run = r', rv_nodes = listRunNodes run_id db'\<rparr>, db')"
    using c(1,4,5) r live id
    by (simp add: automationRunCancelLite_def Let_def then_do_def request_act_def ten require_run write_act_def
        same_run_row_def)
  ultimately show ?thesis using c by blast
qed

text \<open>A cancellation is refused, with the tables as they were, or it is done.\<close>

lemma cancel_lite_ok:
  assumes wf: "rows_wf db" and ver: "versions_ok db"
    and run: "\<forall>r. run_at db run_id = Some r \<longrightarrow> run_ok db calls r"
  shows "(\<exists>e. automationRunCancelLite tenant_id scope run_id reason d now db = (Inl (RequestError e), db))
    \<or> (\<exists>v r db' r'. run_at db run_id = Some r \<and> ar_lifecycle_state r \<noteq> RunTerminal
         \<and> automationRunCancelLite tenant_id scope run_id reason d now db = (Inr v, db')
         \<and> rows_wf db' \<and> evolves run_id db db' \<and> run_at db' run_id = Some r' \<and> run_ok db' calls r')"
proof (cases "\<exists>e. automationRunCancelLite tenant_id scope run_id reason d now db = (Inl (RequestError e), db)")
  case False
  obtain ten where ten: "resolveTenantScope scope tenant_id (ad_defaultScope d) (ad_defaultTenantId d) = Inr ten"
    using False by (cases "resolveTenantScope scope tenant_id (ad_defaultScope d) (ad_defaultTenantId d)")
      (simp_all add: automationRunCancelLite_def Let_def then_do_def request_act_def)
  obtain r where r: "run_at db run_id = Some r" "ar_tenant_id r = ts_tenant_id ten" "ar_scope r = ts_scope ten"
    using False by (cases "run_at db run_id")
      (auto simp: automationRunCancelLite_def Let_def then_do_def request_act_def ten require_run split: if_splits)
  have live: "ar_lifecycle_state r \<noteq> RunTerminal"
    using False by (auto simp: automationRunCancelLite_def Let_def then_do_def request_act_def ten require_run r
        throw_act_def split: if_splits)
  show ?thesis
    using cancel_lite_done [OF wf ver run [rule_format, OF r(1)] ten r live, of reason now] r(1) live by blast
qed blast

end
