(* ===== verification/AutomationSystem.thy ===== *)
theory AutomationSystem
  imports AutomationKernel
begin

text \<open>
  The kernel under any order of requests, answers and failures of replay runners keeps
  \<open>automation_inv\<close>; what follows for the reachable states.
\<close>

section \<open>Every step keeps the invariant\<close>

lemma loop_state_eq:
  "loop_state a c db out = \<lparr>am_db = db, am_calls = am_calls a @ map (Pair (am_next a)) (call_of c out),
     am_next = am_next a + length (call_of c out)\<rparr>"
  by (cases out) (simp_all add: loop_state_def call_of_def)

lemma calls_of_pairs: "\<forall>p \<in> set ps. rc_run_id (pc_context p) = j \<Longrightarrow> calls_of i (map (Pair m) ps) = (if i = j then ps else [])"
  by (induction ps) (auto simp: calls_of_def)

text \<open>A change of the rows and the calls of one run.\<close>

lemma inv_change:
  assumes inv: "automation_inv a" and wf: "rows_wf db'" and only: "only_run i (am_db a) db'"
    and run: "run_at db' i = Some r'" and ok: "run_ok db' (calls_of i cs) r'"
    and calls: "\<And>j. j \<noteq> i \<Longrightarrow> calls_of j cs = calls_of j (am_calls a)"
    and callers: "\<And>e. e \<in> set cs \<Longrightarrow> rc_run_id (pc_context (snd e)) = i \<or> e \<in> set (am_calls a)"
    and ids: "distinct (map fst cs)" "\<forall>e \<in> set cs. fst e < nx"
  shows "automation_inv \<lparr>am_db = db', am_calls = cs, am_next = nx\<rparr>"
proof -
  have rows: "rows_wf (am_db a)" "versions_ok (am_db a)" using inv by (simp_all add: automation_inv_def)
  have "run_ok db' (calls_of j cs) r" if r: "run_at db' j = Some r" for j r
  proof (cases "j = i")
    case True
    then show ?thesis using r run ok by simp
  next
    case False
    then have old: "run_at (am_db a) j = Some r" using r only by (simp add: only_run_def)
    then have "run_ok (am_db a) (calls_of j (am_calls a)) r" using inv by (simp add: automation_inv_def)
    moreover have "ar_run_id r = j" using rows(1) old by (simp add: rows_wf_def)
    then have "\<forall>k. node_at db' (ar_run_id r) k = node_at (am_db a) (ar_run_id r) k"
      using only False by (simp add: only_run_def)
    moreover have "map_get (db_versions db') k = Some v" if "map_get (db_versions (am_db a)) k = Some v" for k v
      using that only by (simp add: only_run_def)
    ultimately have "run_ok db' (calls_of j (am_calls a)) r" using run_ok_cong by blast
    then show ?thesis using calls [OF False] by simp
  qed
  moreover have "\<exists>r. run_at db' j = Some r" if n: "node_at db' j k = Some n" for j k n
  proof (cases "j = i")
    case False
    then have "node_at (am_db a) j k = Some n" using n only by (simp add: only_run_def)
    then have "\<exists>r. run_at (am_db a) j = Some r" using inv unfolding automation_inv_def by blast
    then show ?thesis using False only by (simp add: only_run_def)
  qed (use run in simp)
  moreover have "\<exists>r. run_at db' (rc_run_id (pc_context (snd e))) = Some r" if e: "e \<in> set cs" for e
  proof (cases "rc_run_id (pc_context (snd e)) = i")
    case False
    then have "e \<in> set (am_calls a)" using callers [OF e] by simp
    then have "\<exists>r. run_at (am_db a) (rc_run_id (pc_context (snd e))) = Some r"
      using inv unfolding automation_inv_def by blast
    then show ?thesis using False only by (simp add: only_run_def)
  qed (use run in simp)
  moreover have "versions_ok db'" using rows(2) only by (simp add: versions_ok_def only_run_def)
  ultimately show ?thesis
    unfolding automation_inv_def automation.simps using wf ids by blast
qed

lemma inv_loop:
  assumes inv: "automation_inv a" and id: "rc_run_id c = i" and idle: "calls_of i (am_calls a) = []"
    and wf: "rows_wf db'" and only: "only_run i (am_db a) db'" and run: "run_at db' i = Some r'"
    and ok: "run_ok db' (call_of c out) r'"
  shows "automation_inv (loop_state a c db' out)"
  unfolding loop_state_eq
proof (rule inv_change [OF inv wf only run])
  let ?cs = "am_calls a @ map (Pair (am_next a)) (call_of c out)"
  have new: "\<forall>p \<in> set (call_of c out). rc_run_id (pc_context p) = i" using call_of_context id by metis
  show "run_ok db' (calls_of i ?cs) r'" using idle ok by (simp add: calls_of_pairs [OF new])
  show "calls_of j ?cs = calls_of j (am_calls a)" if "j \<noteq> i" for j using that by (simp add: calls_of_pairs [OF new])
  show "rc_run_id (pc_context (snd e)) = i \<or> e \<in> set (am_calls a)" if "e \<in> set ?cs" for e using that new by auto
  have ids: "distinct (map fst (am_calls a))" "\<forall>e \<in> set (am_calls a). fst e < am_next a"
    using inv by (simp_all add: automation_inv_def)
  have "length (call_of c out) \<le> 1" by (cases out) (simp_all add: call_of_def)
  then show "distinct (map fst ?cs)" using ids by (cases "call_of c out") auto
  show "\<forall>e \<in> set ?cs. fst e < am_next a + length (call_of c out)"
    using ids(2) by (cases "call_of c out") auto
qed

lemma calls_of_drop: "calls_of i (filter (\<lambda>e. fst e \<noteq> n) cs) = map snd (filter (\<lambda>e. fst e \<noteq> n) (filter (\<lambda>e. rc_run_id (pc_context (snd e)) = i) cs))"
  by (simp add: calls_of_def conj_commute)

lemma run_shape_no_call: "run_shape db g r calls \<Longrightarrow> run_shape db g r []"
  unfolding run_shape_def node_shape_def by blast

lemma run_ok_no_call: "run_ok db calls r \<Longrightarrow> run_ok db [] r"
  unfolding run_ok_def using run_shape_no_call by blast

text \<open>A run has at most one call.\<close>

lemma run_ok_calls: "run_ok db calls r \<Longrightarrow> length calls \<le> 1"
  unfolding run_ok_def run_shape_def node_shape_def by auto

lemma call_found:
  assumes inv: "automation_inv a" and np: "(n, p) \<in> set (am_calls a)" and i: "rc_run_id (pc_context p) = i"
  shows "calls_of i (am_calls a) = [p]" "calls_of i (am_calls (drop_call n a)) = []"
    "\<exists>r. run_at (am_db a) i = Some r"
proof -
  let ?f = "filter (\<lambda>e. rc_run_id (pc_context (snd e)) = i) (am_calls a)"
  show ex: "\<exists>r. run_at (am_db a) i = Some r" using inv np i unfolding automation_inv_def by force
  then obtain r where "run_at (am_db a) i = Some r" by blast
  then have "length (calls_of i (am_calls a)) \<le> 1" using inv run_ok_calls unfolding automation_inv_def by blast
  moreover have "(n, p) \<in> set ?f" using np i by simp
  ultimately have f: "?f = [(n, p)]"
    by (cases ?f; cases "tl ?f") (auto simp: calls_of_def)
  then show "calls_of i (am_calls a) = [p]" by (simp add: calls_of_def)
  show "calls_of i (am_calls (drop_call n a)) = []" by (simp add: drop_call_def calls_of_drop f)
qed

lemma inv_drop:
  assumes inv: "automation_inv a"
  shows "automation_inv (drop_call n a)"
proof -
  let ?cs = "filter (\<lambda>e. fst e \<noteq> n) (am_calls a)"
  have runs: "run_ok (am_db a) (calls_of i ?cs) r" if r: "run_at (am_db a) i = Some r" for i r
  proof -
    have ok: "run_ok (am_db a) (calls_of i (am_calls a)) r" using inv r unfolding automation_inv_def by blast
    then have "length (calls_of i (am_calls a)) \<le> 1" by (rule run_ok_calls)
    then have "calls_of i ?cs = calls_of i (am_calls a) \<or> calls_of i ?cs = []"
      unfolding calls_of_drop
      by (cases "filter (\<lambda>e. rc_run_id (pc_context (snd e)) = i) (am_calls a)") (auto simp: calls_of_def)
    then show ?thesis using ok run_ok_no_call by auto
  qed
  have "distinct (map fst ?cs)" using inv by (simp add: automation_inv_def distinct_map_filter)
  then show ?thesis
    using inv runs unfolding automation_inv_def drop_call_def automation.simps by auto
qed

lemma inv_request:
  assumes inv: "automation_inv a" and idle: "calls_of i (am_calls a) = []"
    and res: "res = (Inr (c, out), db')" "rc_run_id c = i"
    and "rows_wf db'" "only_run i (am_db a) db'" "run_at db' i = Some r'" "run_ok db' (call_of c out) r'"
  shows "automation_inv (request_state a res)"
  using inv_loop [OF inv res(2) idle assms(5-8)] res(1) by (simp add: request_state_def)

lemma no_run_no_call:
  "automation_inv a \<Longrightarrow> run_at (am_db a) i = None \<Longrightarrow> calls_of i (am_calls a) = []"
  unfolding automation_inv_def calls_of_def by (force simp: filter_empty_conv)

lemma inv_parts:
  assumes "automation_inv a"
  shows "rows_wf (am_db a)" "versions_ok (am_db a)"
    "\<And>i r. run_at (am_db a) i = Some r \<Longrightarrow> run_ok (am_db a) (calls_of i (am_calls a)) r"
    "\<And>i. \<forall>r. run_at (am_db a) i = Some r \<longrightarrow> run_ok (am_db a) (calls_of i (am_calls a)) r"
    "\<And>i. \<forall>k n. node_at (am_db a) i k = Some n \<longrightarrow> (\<exists>r. run_at (am_db a) i = Some r)"
  using assms unfolding automation_inv_def by blast+

lemma create_lite_ok:
  assumes ver: "versions_ok db" and ok: "automationCreateLite q d now db = Inr (v, db')"
  shows "versions_ok db' \<and> db_runs db' = db_runs db \<and> db_run_nodes db' = db_run_nodes db
    \<and> (\<forall>e row. map_get (db_versions db) e = Some row \<longrightarrow> map_get (db_versions db') e = Some row)"
proof -
  obtain ten val where t: "resolveTenantScope (rqc_scope q) (rqc_tenant_id q) (ad_defaultScope d) (ad_defaultTenantId d) = Inr ten"
    "validateAutomationGraph (rqc_graph q) = Inr val"
    using ok by (auto simp: automationCreateLite_def split: sum.splits)
  let ?args = "\<lparr>cd_name = rqc_name q, cd_status = rqc_status q, cd_graph = rqc_graph q,
                    cd_inputContract = (case rqc_input_contract q of Some c \<Rightarrow> c | None \<Rightarrow> JObj []),
                    cd_outputContract = (case rqc_output_contract q of Some c \<Rightarrow> c | None \<Rightarrow> JObj []),
                    cd_metadata = (case rqc_metadata q of Some m \<Rightarrow> m | None \<Rightarrow> JObj []),
                    cd_compileSummary = summarizeGraph (rqc_graph q) val\<rparr>"
  have g: "graph_wf (cd_graph ?args)" using validate_wf [OF t(2)] by simp
  obtain out db2 where c: "createDefinition (ts_tenant_id ten, ts_scope ten, rqc_automation_id q) ?args now db = Inr (out, db2)"
    "versions_ok db2" "db_runs db2 = db_runs db" "db_run_nodes db2 = db_run_nodes db"
    "\<forall>e row. map_get (db_versions db) e = Some row \<longrightarrow> map_get (db_versions db2) e = Some row"
    using createDefinition_ok [OF ver g] by blast
  have "db' = db2" using ok t c(1) by (simp add: automationCreateLite_def)
  then show ?thesis using c by simp
qed

lemma inv_cancel:
  assumes inv: "automation_inv a"
  shows "automation_inv (a\<lparr>am_db := snd (automationRunCancelLite tenant_id scope run_id reason d now (am_db a))\<rparr>)"
proof -
  let ?res = "automationRunCancelLite tenant_id scope run_id reason d now (am_db a)"
  note parts = inv_parts [OF inv]
  consider (fails) e where "?res = (Inl (RequestError e), am_db a)"
    | (ok) r db' r' where "run_at (am_db a) run_id = Some r" "snd ?res = db'" "rows_wf db'" "evolves run_id (am_db a) db'"
      "run_at db' run_id = Some r'" "run_ok db' (calls_of run_id (am_calls a)) r'"
    using cancel_lite_ok [where run_id = run_id and tenant_id = tenant_id and scope = scope and reason = reason and d = d
        and now = now, OF parts(1,2,4)] by fastforce
  then show ?thesis
  proof cases
    case fails
    then show ?thesis using inv by simp
  next
    case ok
    have "automation_inv \<lparr>am_db = db', am_calls = am_calls a, am_next = am_next a\<rparr>"
      by (rule inv_change [OF inv ok(3) evolves_only [OF ok(4)] ok(5,6)])
        (use inv in \<open>simp_all add: automation_inv_def\<close>)
    moreover have "a\<lparr>am_db := db'\<rparr> = \<lparr>am_db = db', am_calls = am_calls a, am_next = am_next a\<rparr>"
      by (cases a) simp
    ultimately show ?thesis using ok(2) by metis
  qed
qed

lemma inv_create:
  assumes inv: "automation_inv a" and ok: "automationCreateLite q d now (am_db a) = Inr (v, db')"
  shows "automation_inv (a\<lparr>am_db := db'\<rparr>)"
proof -
  note parts = inv_parts [OF inv]
  have c: "versions_ok db'" "db_runs db' = db_runs (am_db a)" "db_run_nodes db' = db_run_nodes (am_db a)"
    "\<And>e row. map_get (db_versions (am_db a)) e = Some row \<Longrightarrow> map_get (db_versions db') e = Some row"
    using create_lite_ok [OF parts(2) ok] by blast+
  have "run_ok db' (calls_of i (am_calls a)) r" if "run_at db' i = Some r" for i r
    by (rule run_ok_cong [where db = "am_db a"]) (use that parts(3) c in auto)
  then show ?thesis
    using inv c(1-3) unfolding automation_inv_def rows_wf_def by simp
qed

lemma inv_started:
  assumes inv: "automation_inv a"
  shows "automation_inv (request_state a (automationRunLite same q d newId now (am_db a)))"
proof -
  note parts = inv_parts [OF inv]
  from run_lite_ok [where newId = newId and same = same and q = q and d = d and now = now, OF parts(1,2,5)] show ?thesis
  proof (elim disjE exE conjE)
    fix e assume "automationRunLite same q d newId now (am_db a) = (Inl e, am_db a)"
    then show ?thesis using inv by (simp add: request_state_def)
  next
    fix c out db' r'
    assume r: "automationRunLite same q d newId now (am_db a) = (Inr (c, out), db')" "rc_run_id c = newId"
      "run_at (am_db a) newId = None" "rows_wf db'" "only_run newId (am_db a) db'" "run_at db' newId = Some r'"
      "run_ok db' (call_of c out) r'"
    show ?thesis by (rule inv_request [OF inv no_run_no_call [OF inv r(3)] r(1,2,4-7)])
  qed
qed

lemma inv_resumed:
  assumes inv: "automation_inv a"
  shows "automation_inv (request_state a (automationRunResumeLite same tenant_id scope actor run_id reason d now (am_db a)))"
proof -
  note parts = inv_parts [OF inv]
  from resume_lite_ok [where run_id = run_id and same = same and tenant_id = tenant_id and scope = scope
      and actor = actor and reason = reason and d = d and now = now, OF parts(1,2,4)] show ?thesis
  proof (elim disjE exE conjE)
    fix e assume "automationRunResumeLite same tenant_id scope actor run_id reason d now (am_db a) = (Inl (RequestError e), am_db a)"
    then show ?thesis using inv by (simp add: request_state_def)
  next
    fix r c out db' r'
    assume r: "automationRunResumeLite same tenant_id scope actor run_id reason d now (am_db a) = (Inr (c, out), db')"
      "rc_run_id c = run_id" "calls_of run_id (am_calls a) = []" "rows_wf db'" "evolves run_id (am_db a) db'"
      "run_at db' run_id = Some r'" "run_ok db' (call_of c out) r'"
    show ?thesis by (rule inv_request [OF inv r(3,1,2,4) evolves_only [OF r(5)] r(6,7)])
  qed
qed

lemma settle_state_ok:
  assumes inv: "automation_inv a" and np: "(n, p) \<in> set (am_calls a)"
  obtains out db' r r' where "settle_replay same p ans now (am_db a) = (Inr out, db')" "rows_wf db'"
    "evolves (rc_run_id (pc_context p)) (am_db a) db'" "run_at (am_db a) (rc_run_id (pc_context p)) = Some r"
    "run_at db' (rc_run_id (pc_context p)) = Some r'" "run_ok db' (call_of (pc_context p) out) r'"
    "settle_state same n p ans now a = loop_state (drop_call n a) (pc_context p) db' out"
proof -
  let ?i = "rc_run_id (pc_context p)"
  note parts = inv_parts [OF inv]
  note call = call_found [OF inv np refl]
  obtain r where r: "run_at (am_db a) ?i = Some r" using call(3) by blast
  then have "run_ok (am_db a) [p] r" using parts(3) [OF r] call(1) by simp
  then obtain v where v: "map_get (db_versions (am_db a)) (run_key r, ar_automation_version r) = Some v"
    "run_nodes_ok (am_db a) (ar_run_id r) (vr_graph v)" "run_shape (am_db a) (vr_graph v) r [p]"
    unfolding run_ok_def by blast
  have id: "ar_run_id r = ?i" using parts(1) r by (simp add: rows_wf_def)
  obtain out db' r' where s: "settle_replay same p ans now (am_db a) = (Inr out, db')" "rows_wf db'"
    "evolves ?i (am_db a) db'" "ctx_ok (pc_context p) db' r'" "run_shape db' (vr_graph v) r' (call_of (pc_context p) out)"
    using settle_ok [OF parts(1) r versions_okD(1) [OF parts(2) v(1)] v(3), of same ans now] by blast
  have r': "run_at db' ?i = Some r'" using s(4) by (simp add: ctx_ok_def)
  have "same_run_row r r'" using s(3) r r' unfolding evolves_def by auto
  then have "run_ok db' (call_of (pc_context p) out) r'"
    by (rule evolved_run_ok [OF s(3) _ id v(1) _ s(5)]) (use v(2) id in simp)
  moreover have "settle_state same n p ans now a = loop_state (drop_call n a) (pc_context p) db' out"
    using s(1) by (simp add: settle_state_def)
  ultimately show ?thesis using that s(1-3) r r' by blast
qed

lemma inv_settled:
  assumes inv: "automation_inv a" and np: "(n, p) \<in> set (am_calls a)"
  shows "automation_inv (settle_state same n p ans now a)"
proof -
  obtain out db' r r' where s: "rows_wf db'" "evolves (rc_run_id (pc_context p)) (am_db a) db'"
    "run_at db' (rc_run_id (pc_context p)) = Some r'" "run_ok db' (call_of (pc_context p) out) r'"
    "settle_state same n p ans now a = loop_state (drop_call n a) (pc_context p) db' out"
    by (rule settle_state_ok [OF inv np])
  have "only_run (rc_run_id (pc_context p)) (am_db (drop_call n a)) db'"
    using evolves_only [OF s(2)] by (simp add: drop_call_def)
  then show ?thesis
    unfolding s(5) by (rule inv_loop [OF inv_drop [OF inv] refl call_found(2) [OF inv np refl] s(1) _ s(3,4)])
qed

lemma automation_step_inv: "automation_inv a \<Longrightarrow> automation_step same a b \<Longrightarrow> automation_inv b"
proof (erule automation_step.cases, goal_cases)
  case (1 q d now c v db)
  then show ?case using inv_create by simp
qed (auto intro: inv_started inv_resumed inv_cancel inv_settled inv_drop)

lemma automation_new_inv: "automation_inv automation_new"
  by (simp add: automation_inv_def automation_new_def empty_db_def rows_wf_def versions_ok_def map_get_def)

interpretation kernel: invariant_system "\<lambda>a. a = automation_new" "automation_step same" automation_inv
  for same by unfold_locales (auto intro: automation_new_inv automation_step_inv)

section \<open>What the invariant says of the nodes\<close>

lemma kernel_inv: "(automation_step same)\<^sup>*\<^sup>* automation_new a \<Longrightarrow> automation_inv a"
  using kernel.run_inv automation_new_inv by blast

lemma forward_before:
  assumes "forward E ord" "ord = xs @ ys" "k \<in> set xs" "(d, k) \<in> set E"
  shows "d \<in> set xs"
proof -
  obtain us vs where u: "xs = us @ k # vs" using split_list [OF assms(3)] by blast
  then have "ord = us @ k # (vs @ ys)" using assms(2) by simp
  then have "d \<in> set us" using assms(1,4) unfolding forward_def by blast
  then show ?thesis using u by simp
qed

lemma depends_on_arc: "d \<in> set (depends_on k g) \<Longrightarrow> (d, k) \<in> graph_rel g"
  by (force simp: depends_on_def arcs_of_def)

lemma all_nodesD: "all_nodes P db i ks \<Longrightarrow> k \<in> set ks \<Longrightarrow> \<exists>n. node_at db i k = Some n \<and> P n"
  by (simp add: all_nodes_def)

text \<open>The nodes of a run: the succeeded ones come first, and only the one after them may be in work.\<close>

lemma touched_prefix:
  assumes shape: "run_shape db g r calls" and g: "graph_wf g" and k: "k \<in> set (node_ids g)"
    and n: "node_at db (ar_run_id r) k = Some n" "\<not> fresh n" "\<not> rejected n"
  obtains xs ys where "graph_order g = xs @ ys" "all_nodes succeeded db (ar_run_id r) xs"
    "k \<in> set xs \<or> (\<exists>zs. ys = k # zs)"
proof -
  have ord: "k \<in> set (graph_order g)" using k graph_order_ok(2) [OF g] by simp
  have late: "k \<notin> set ys" if "all_nodes fresh db (ar_run_id r) ys \<or> all_nodes rejected db (ar_run_id r) ys" for ys
    using that n all_nodesD by fastforce
  from shape consider (ended) xs ys where "graph_order g = xs @ ys" "all_nodes succeeded db (ar_run_id r) xs"
      "all_nodes rejected db (ar_run_id r) ys"
    | (open_run) xs y ys m where "graph_order g = xs @ y # ys" "all_nodes succeeded db (ar_run_id r) xs"
      "node_shape db g r calls xs y ys m"
    unfolding run_shape_def by blast
  then show ?thesis
  proof cases
    case ended
    then show ?thesis using late [of ys] ord that [of xs ys] by auto
  next
    case open_run
    then have "k \<notin> set ys" using late by (simp add: node_shape_def)
    then show ?thesis using open_run(1,2) ord that [of xs "y # ys"] by auto
  qed
qed

lemma run_of_node:
  assumes inv: "automation_inv a" and n: "node_at (am_db a) i k = Some n"
  obtains r v where "run_at (am_db a) i = Some r" "ar_run_id r = i"
    "map_get (db_versions (am_db a)) (run_key r, ar_automation_version r) = Some v" "graph_wf (vr_graph v)"
    "k \<in> set (node_ids (vr_graph v))" "rn_depends_on n = depends_on k (vr_graph v)"
    "run_shape (am_db a) (vr_graph v) r (calls_of i (am_calls a))"
proof -
  note parts = inv_parts [OF inv]
  obtain r where r: "run_at (am_db a) i = Some r" using parts(5) n by blast
  obtain v where v: "map_get (db_versions (am_db a)) (run_key r, ar_automation_version r) = Some v"
    "run_nodes_ok (am_db a) (ar_run_id r) (vr_graph v)" "run_shape (am_db a) (vr_graph v) r (calls_of i (am_calls a))"
    using parts(3) [OF r] unfolding run_ok_def by blast
  have id: "ar_run_id r = i" using parts(1) r by (simp add: rows_wf_def)
  show ?thesis
    using that [OF r id v(1) versions_okD(1) [OF parts(2) v(1)] _ _ v(3)] v(2) n id unfolding run_nodes_ok_def by blast
qed

lemma touched_dependencies:
  assumes inv: "automation_inv a" and n: "node_at (am_db a) i k = Some n" "\<not> fresh n" "\<not> rejected n"
    and d: "d \<in> set (rn_depends_on n)"
  shows "\<exists>m. node_at (am_db a) i d = Some m \<and> succeeded m"
proof -
  obtain r v where r: "run_at (am_db a) i = Some r" "ar_run_id r = i"
    "map_get (db_versions (am_db a)) (run_key r, ar_automation_version r) = Some v" "graph_wf (vr_graph v)"
    "k \<in> set (node_ids (vr_graph v))" "rn_depends_on n = depends_on k (vr_graph v)"
    "run_shape (am_db a) (vr_graph v) r (calls_of i (am_calls a))"
    by (rule run_of_node [OF inv n(1)])
  obtain xs ys where xs: "graph_order (vr_graph v) = xs @ ys" "all_nodes succeeded (am_db a) i xs"
    "k \<in> set xs \<or> (\<exists>zs. ys = k # zs)"
    using touched_prefix [OF r(7,4,5)] n r(2) by metis
  note fwd = graph_order_ok(3) [OF r(4)]
  have arc: "(d, k) \<in> graph_rel (vr_graph v)" using d r(6) depends_on_arc by simp
  have "d \<in> set xs"
    using xs(3)
  proof
    assume "k \<in> set xs"
    then show ?thesis by (rule forward_before [OF fwd xs(1) _ arc])
  next
    assume "\<exists>zs. ys = k # zs"
    then show ?thesis using fwd xs(1) arc unfolding forward_def by blast
  qed
  then show ?thesis using all_nodesD [OF xs(2)] by blast
qed

text \<open>The rows of succeeded nodes and the stored versions stay as they are.\<close>

lemma evolves_keeps:
  "evolves j db db' \<Longrightarrow> node_at db i k = Some n \<Longrightarrow> succeeded n \<Longrightarrow> node_at db' i k = Some n"
  unfolding evolves_def by (cases "i = j") auto

definition keeps_results :: "automation_db \<Rightarrow> automation_db \<Rightarrow> bool" where
  "keeps_results db db' \<longleftrightarrow>
     (\<forall>i k n. node_at db i k = Some n \<and> succeeded n \<longrightarrow> node_at db' i k = Some n)
     \<and> (\<forall>e row. map_get (db_versions db) e = Some row \<longrightarrow> map_get (db_versions db') e = Some row)"

lemma keeps_results_refl [simp]: "keeps_results db db"
  by (simp add: keeps_results_def)

lemma evolves_keeps_results: "evolves j db db' \<Longrightarrow> keeps_results db db'"
  unfolding keeps_results_def
proof (intro conjI allI impI)
  fix i k n assume "evolves j db db'" "node_at db i k = Some n \<and> succeeded n"
  then show "node_at db' i k = Some n" using evolves_keeps by blast
next
  fix e row assume "evolves j db db'" "map_get (db_versions db) e = Some row"
  then show "map_get (db_versions db') e = Some row" by (simp add: evolves_def)
qed

lemma step_keeps_results:
  assumes inv: "automation_inv a" and step: "automation_step same a b"
  shows "keeps_results (am_db a) (am_db b)"
  using step
proof cases
  case (created q d now v db)
  then show ?thesis using create_lite_ok [OF inv_parts(2) [OF inv]] by (simp add: keeps_results_def)
next
  case (started q d newId now)
  note parts = inv_parts [OF inv]
  from run_lite_ok [where newId = newId and same = same and q = q and d = d and now = now, OF parts(1,2,5)]
  show ?thesis
  proof (elim disjE exE conjE)
    fix e assume "automationRunLite same q d newId now (am_db a) = (Inl e, am_db a)"
    then show ?thesis using started by (simp add: request_state_def)
  next
    fix c out db' r'
    assume r: "automationRunLite same q d newId now (am_db a) = (Inr (c, out), db')"
      "run_at (am_db a) newId = None" "only_run newId (am_db a) db'"
    have "node_at db' i k = Some n" if "node_at (am_db a) i k = Some n" for i k n
    proof (cases "i = newId")
      case True
      then show ?thesis using that r(2) parts(5) [of newId] by auto
    next
      case False
      then show ?thesis using that r(3) by (simp add: only_run_def)
    qed
    then show ?thesis
      using started r(1,3) by (simp add: request_state_def loop_state_eq keeps_results_def only_run_def)
  qed
next
  case (resumed tenant_id scope actor run_id reason d now)
  note parts = inv_parts [OF inv]
  from resume_lite_ok [where run_id = run_id and same = same and tenant_id = tenant_id and scope = scope
      and actor = actor and reason = reason and d = d and now = now, OF parts(1,2,4)]
  show ?thesis using resumed evolves_keeps_results by (auto simp: request_state_def loop_state_eq)
next
  case (cancelled tenant_id scope run_id reason d now)
  note parts = inv_parts [OF inv]
  from cancel_lite_ok [where run_id = run_id and tenant_id = tenant_id and scope = scope and reason = reason and d = d
        and now = now, OF parts(1,2,4)]
  show ?thesis using cancelled evolves_keeps_results by auto
next
  case (settled n p out now)
  obtain res db' where "evolves (rc_run_id (pc_context p)) (am_db a) db'"
    "settle_state same n p out now a = loop_state (drop_call n a) (pc_context p) db' res"
    by (rule settle_state_ok [OF inv settled(2)])
  then show ?thesis using settled evolves_keeps_results by (simp add: loop_state_eq)
next
  case (threw n p)
  then show ?thesis by (simp add: drop_call_def)
qed

text \<open>What a suspended playbook is called with.\<close>

lemma ancestors_first:
  assumes g: "graph_wf g" and ord: "graph_order g = xs @ y # ys" and path: "(d, y) \<in> (graph_rel g)\<^sup>+"
  shows "d \<in> set xs"
proof -
  note fwd = graph_order_ok(3) [OF g]
  have first: "d \<in> set xs" if "(d, y) \<in> graph_rel g" for d
    using fwd that ord unfolding forward_def by blast
  have step: "d \<in> set xs" if "(d, k) \<in> graph_rel g" "k \<in> set xs" for d k
    by (rule forward_before [OF fwd ord that(2,1)])
  show ?thesis using path
    by (induction rule: converse_trancl_induct) (auto intro: first step)
qed

lemma call_inputs:
  assumes inv: "automation_inv a" and np: "(n, p) \<in> set (am_calls a)"
  obtains r where "run_at (am_db a) (rc_run_id (pc_context p)) = Some r"
    "pc_inputs p = resolved_inputs (pc_context p) (pc_outputs p) (pc_node p)" "rc_params (pc_context p) = ar_params_json r"
    "\<And>d. d \<in> set (node_refs (pc_node p)) \<Longrightarrow>
       \<exists>m. node_at (am_db a) (rc_run_id (pc_context p)) d = Some m \<and> succeeded m
         \<and> map_get (pc_outputs p) d = Some (rn_output_snapshot_json m)"
proof -
  let ?i = "rc_run_id (pc_context p)"
  note parts = inv_parts [OF inv]
  note call = call_found [OF inv np refl]
  obtain r where r: "run_at (am_db a) ?i = Some r" using call(3) by blast
  then obtain v where v: "map_get (db_versions (am_db a)) (run_key r, ar_automation_version r) = Some v"
    "run_shape (am_db a) (vr_graph v) r [p]"
    using parts(3) [OF r] call(1) unfolding run_ok_def by auto
  have id: "ar_run_id r = ?i" using parts(1) r by (simp add: rows_wf_def)
  have g: "graph_wf (vr_graph v)" by (rule versions_okD(1) [OF parts(2) v(1)])
  obtain xs y ys where s: "graph_order (vr_graph v) = xs @ y # ys" "all_nodes succeeded (am_db a) (ar_run_id r) xs"
    "call_fits (am_db a) (vr_graph v) r xs y ys p"
    by (rule shape_of_call [OF v(2)])
  have node: "pc_node p \<in> set (ag_nodes (vr_graph v))" "an_node_id (pc_node p) = y"
    using s(3) mapNodeById_in unfolding call_fits_def by blast+
  have "\<exists>m. node_at (am_db a) ?i d = Some m \<and> succeeded m
         \<and> map_get (pc_outputs p) d = Some (rn_output_snapshot_json m)" if "d \<in> set (node_refs (pc_node p))" for d
  proof -
    have "(d, y) \<in> (graph_rel (vr_graph v))\<^sup>+" using g node that unfolding graph_wf_def by blast
    then have d: "d \<in> set xs" by (rule ancestors_first [OF g s(1)])
    obtain m where "node_at (am_db a) ?i d = Some m" "succeeded m" using all_nodesD [OF s(2) d] id by auto
    then show ?thesis using s(3) d id unfolding call_fits_def outs_ok_def by force
  qed
  then show ?thesis using that [OF r] s(3) unfolding call_fits_def by blast
qed

section \<open>An answer that comes after the run was cancelled\<close>

lemma cancelled_answer:
  assumes inv: "automation_inv a" and np: "(n, p) \<in> set (am_calls a)"
    and r: "run_at (am_db a) (rc_run_id (pc_context p)) = Some r" "ar_lifecycle_state r = RunTerminal"
    and ans: "replay_status ans = ''success'' \<or> replay_status ans = ''succeeded''"
  shows "\<exists>r'. run_at (am_db (settle_state same n p ans now a)) (rc_run_id (pc_context p)) = Some r'
    \<and> ar_lifecycle_state r' = RunTerminal \<and> ar_terminal_outcome r' = Some RunSucceeded"
proof -
  let ?c = "pc_context p"
  let ?i = "rc_run_id ?c"
  note parts = inv_parts [OF inv]
  obtain v where v: "map_get (db_versions (am_db a)) (run_key r, ar_automation_version r) = Some v"
    "run_shape (am_db a) (vr_graph v) r [p]"
    using parts(3) [OF r(1)] call_found(1) [OF inv np refl] unfolding run_ok_def by auto
  note g = versions_okD(1) [OF parts(2) v(1)]
  obtain xs y ys m where s: "graph_order (vr_graph v) = xs @ y # ys" "node_at (am_db a) (ar_run_id r) y = Some m"
    "call_fits (am_db a) (vr_graph v) r xs y ys p"
    "ar_lifecycle_state r = RunRunning \<and> rn_lifecycle_state m = NodeRunning \<and> all_nodes fresh (am_db a) (ar_run_id r) ys
     \<or> ar_lifecycle_state r = RunTerminal \<and> ar_terminal_outcome r = Some RunCancelled \<and> rejected m
         \<and> all_nodes rejected (am_db a) (ar_run_id r) ys"
    by (rule shape_of_call [OF v(2)])
  have ctx: "ctx_ok ?c (am_db a) r" using r(1) s(3) by (simp add: ctx_ok_def call_fits_def same_run_row_def)
  note id = run_id_ctx [OF ctx]
  have m: "node_at (am_db a) ?i y = Some m" "\<not> succeeded m" "all_nodes rejected (am_db a) ?i ys"
    using s(2,4) r(2) id by (auto simp: rejected_def succeeded_def)
  have p: "pc_nodeId p = y" "pc_rest p = ys" using s(3) by (simp_all add: call_fits_def)
  have out: "rn_output_snapshot_json (replay_patch (pc_node p) ans n) = rn_output_snapshot_json n" for n
    by (simp add: replay_patch_def)
  obtain m' where m': "node_succeeded ?c now y (pc_outputs p) (replay_output ans) (replay_patch (pc_node p) ans) (am_db a)
      = (Inr (NextNode (map_set y (replay_output ans) (pc_outputs p))), put_rows (am_db a) ?i y m' r)" "same_node m m'"
    using node_succeeded_ok [OF m(1) r(1) harmless_simps(3) [of "pc_node p" ans] out] by blast
  let ?db = "put_rows (am_db a) ?i y m' r"
  note put = visit_put [OF parts(1) ctx m(1,2) m'(2) same_refl(2)]
  have "y \<notin> set ys" using graph_order_ok(1) [OF g] s(1) by simp
  then have "all_nodes rejected ?db ?i ys" using m(3) by (simp add: all_nodes_put)
  then obtain w r' where w: "run_nodes same ?c now ys (map_set y (replay_output ans) (pc_outputs p)) ?db
      = (Inr (RunReturned w), put_run ?db ?i r')"
    "ar_lifecycle_state r' = RunTerminal" "ar_terminal_outcome r' = Some RunSucceeded"
    using run_nodes_cancelled [OF put(1,3)] by blast
  have "settle_node ?c now y (pc_outputs p) (pc_node p) ans
      = node_succeeded ?c now y (pc_outputs p) (replay_output ans) (replay_patch (pc_node p) ans)"
    using ans by (simp add: settle_node_def Let_def)
  then have "settle_replay same p ans now (am_db a) = (Inr (RunReturned w), put_run ?db ?i r')"
    using m'(1) w(1) by (simp add: settle_replay_def p then_do_def after_visit_def)
  then show ?thesis using w(2,3) by (simp add: settle_state_def loop_state_def)
qed

text \<open>An operation on a run may be refused, but it never fails in the store.\<close>

lemma requests_answered:
  assumes inv: "automation_inv a"
  shows "fst (automationRunResumeLite same tenant_id scope actor run_id reason d now (am_db a)) \<noteq> Inl (StoreFailure m)"
    "fst (automationRunCancelLite tenant_id scope run_id reason d now (am_db a)) \<noteq> Inl (StoreFailure m)"
    "run_at (am_db a) newId = None \<Longrightarrow> fst (automationRunLite same q d newId now (am_db a)) \<noteq> Inl (StoreFailure m)"
    "(n, p) \<in> set (am_calls a) \<Longrightarrow> \<exists>out. fst (settle_replay same p ans now (am_db a)) = Inr out"
proof -
  note parts = inv_parts [OF inv]
  show "fst (automationRunResumeLite same tenant_id scope actor run_id reason d now (am_db a)) \<noteq> Inl (StoreFailure m)"
    using resume_lite_ok [where run_id = run_id and same = same and tenant_id = tenant_id and scope = scope
      and actor = actor and reason = reason and d = d and now = now, OF parts(1,2,4)] by auto
  show "fst (automationRunCancelLite tenant_id scope run_id reason d now (am_db a)) \<noteq> Inl (StoreFailure m)"
    using cancel_lite_ok [where run_id = run_id and tenant_id = tenant_id and scope = scope and reason = reason and d = d
        and now = now, OF parts(1,2,4)] by auto
  show "fst (automationRunLite same q d newId now (am_db a)) \<noteq> Inl (StoreFailure m)" if "run_at (am_db a) newId = None"
    using run_lite_ok [where newId = newId and same = same and q = q and d = d and now = now, OF parts(1,2,5)] that
    by auto
  show "\<exists>out. fst (settle_replay same p ans now (am_db a)) = Inr out" if np: "(n, p) \<in> set (am_calls a)"
  proof -
    obtain out db' where "settle_replay same p ans now (am_db a) = (Inr out, db')"
      by (rule settle_state_ok [OF inv np])
    then show ?thesis by simp
  qed
qed

end
