(* ===== verification/PropsAutomation.thy ===== *)
theory PropsAutomation
  imports AutomationSystem
begin

text \<open>
  Properties of the automation kernel: which graphs it accepts, in which order the nodes of a run
  succeed, what a playbook is called with, and what a request or an answer may change, in every
  state that requests, answers and failures of replay runners can lead to.
\<close>

section \<open>Graphs\<close>

text \<open>C6: A graph is accepted exactly when it is well formed: it has nodes, their ids are distinct,
  every edge joins two different nodes and is not a failure edge, the edges have no cycle, and
  every node a binding refers to has a path of edges to the node with the binding.  The order
  computed for an accepted graph lists every node once, after all the nodes with an edge to it.\<close>

theorem automation_graph_check_exact:
  "((\<exists>v. validateAutomationGraph g = Inr v) \<longleftrightarrow> graph_wf g)
   \<and> (\<forall>v. validateAutomationGraph g = Inr v \<longrightarrow>
        distinct (gv_topological_order v) \<and> set (gv_topological_order v) = set (node_ids g)
        \<and> forward (arcs_of (ag_edges g)) (gv_topological_order v))"
  using wf_validate [of g] validate_wf [of g] graph_order_ok [of g] by auto

section \<open>A small automation\<close>

text \<open>A condition that holds, and a playbook that reads its output.\<close>

definition two_nodes :: automation_graph where
  "two_nodes =
     \<lparr>ag_nodes = [\<lparr>an_node_id = ''a'', an_inputs = None, an_spec = ConditionNode (Some (JBool True))\<rparr>,
                 \<lparr>an_node_id = ''b'', an_inputs = Some [(''x'', JStr ''$nodes.a.result'')],
                  an_spec = PlaybookNode ''pb'' None None\<rparr>],
      ag_edges = [\<lparr>ae_from = ''a'', ae_to = ''b'', ae_type = OnSuccess\<rparr>]\<rparr>"

definition small_defaults :: automation_defaults where
  "small_defaults = \<lparr>ad_defaultScope = ''s'', ad_defaultTenantId = ''t'', ad_defaultActorId = None\<rparr>"

definition create_two :: create_request where
  "create_two =
     \<lparr>rqc_tenant_id = None, rqc_scope = None, rqc_automation_id = ''auto'', rqc_name = ''auto'',
      rqc_status = DefActive, rqc_graph = two_nodes, rqc_input_contract = None, rqc_output_contract = None,
      rqc_metadata = None\<rparr>"

definition run_two :: run_request where
  "run_two =
     \<lparr>rqr_tenant_id = None, rqr_scope = None, rqr_actor = None, rqr_automation_id = ''auto'',
      rqr_version = None, rqr_params = None, rqr_execution_mode = ModeDefault\<rparr>"

definition two_db :: automation_db where
  "two_db = (case automationCreateLite create_two small_defaults ''now'' empty_db of
               Inr (v, db) \<Rightarrow> db | Inl _ \<Rightarrow> empty_db)"

definition created_two :: automation where
  "created_two = automation_new\<lparr>am_db := two_db\<rparr>"

definition started_two :: automation where
  "started_two = request_state created_two (automationRunLite (=) run_two small_defaults ''r1'' ''now'' two_db)"

definition cancelled_two :: automation where
  "cancelled_two =
     started_two\<lparr>am_db := snd (automationRunCancelLite None None ''r1'' None small_defaults ''now'' (am_db started_two))\<rparr>"

lemma two_order:
  "validateAutomationGraph two_nodes
   = Inr \<lparr>gv_node_ids = [''a'', ''b''], gv_start_node_ids = [''a''], gv_topological_order = [''a'', ''b'']\<rparr>"
  by code_simp

theorem automation_graph_check_exact_witness:
  "graph_wf two_nodes \<and> forward (arcs_of (ag_edges two_nodes)) [''a'', ''b'']
   \<and> \<not> graph_wf (two_nodes\<lparr>ag_edges := \<lparr>ae_from = ''b'', ae_to = ''a'', ae_type = OnSuccess\<rparr> # ag_edges two_nodes\<rparr>)"
proof -
  let ?g = "two_nodes\<lparr>ag_edges := \<lparr>ae_from = ''b'', ae_to = ''a'', ae_type = OnSuccess\<rparr> # ag_edges two_nodes\<rparr>"
  have "isl (validateAutomationGraph ?g)" by code_simp
  then have "\<not> (\<exists>v. validateAutomationGraph ?g = Inr v)" by auto
  then show ?thesis
    using automation_graph_check_exact [of two_nodes] automation_graph_check_exact [of ?g] two_order by auto
qed

lemma two_tenancy: "resolveTenantScope None None ''s'' ''t'' = Inr \<lparr>ts_tenant_id = ''t'', ts_scope = ''s'', ts_scope_key = ''s''\<rparr>"
  by code_simp

lemma two_nodes_eval:
  "depends_on ''a'' two_nodes = []" "depends_on ''b'' two_nodes = [''a'']"
  "ag_nodes two_nodes
   = [\<lparr>an_node_id = ''a'', an_inputs = None, an_spec = ConditionNode (Some (JBool True))\<rparr>,
      \<lparr>an_node_id = ''b'', an_inputs = Some [(''x'', JStr ''$nodes.a.result'')], an_spec = PlaybookNode ''pb'' None None\<rparr>]"
  "mapNodeById two_nodes
   = [(''a'', \<lparr>an_node_id = ''a'', an_inputs = None, an_spec = ConditionNode (Some (JBool True))\<rparr>),
      (''b'', \<lparr>an_node_id = ''b'', an_inputs = Some [(''x'', JStr ''$nodes.a.result'')], an_spec = PlaybookNode ''pb'' None None\<rparr>)]"
  by code_simp+

lemmas create_eval = two_db_def automationCreateLite_def create_two_def small_defaults_def two_order two_tenancy
  createDefinition_def empty_db_def map_get_def map_has_def getDefinition_def upsert_definition_def Let_def

lemma two_db_created: "\<exists>v. automationCreateLite create_two small_defaults ''now'' empty_db = Inr (v, two_db)"
  by (simp add: create_eval)

lemma two_db_runs: "db_runs two_db = []" "db_run_nodes two_db = []"
  by (simp_all add: create_eval)

lemma two_db_load:
  "\<exists>d s. loadDefinitionForExecution (''t'', ''s'', ''auto'') None two_db
   = Inr \<lparr>dv_definition = d, dv_version = \<lparr>vr_version = 1, vr_status = DefActive, vr_graph = two_nodes,
        vr_compile_summary = s, vr_metadata = JObj [], vr_created_at = ''now''\<rparr>\<rparr>"
  by (simp add: create_eval loadDefinitionForExecution_def)

lemmas run_eval = automationRunLite_def Let_def run_two_def small_defaults_def two_tenancy then_do_def request_act_def
  store_act_def createRun_def two_db_runs two_nodes_eval map_has_def continueAutomationRun_def two_order getRun_def
  map_get_def queued_run_def insert_node_def mark_running_def write_act_def updateRun_def visit_node_def reload_def
  requireRunInScope_def initial_node_def listRunNodes_def sort_by_def node_before_def buildNodeOutputs_def
  start_node_def patch_node_def updateRunNode_def run_node_spec_def evaluateConditionExpression_def
  node_succeeded_def return_act_def after_visit_def

lemma started_two_result:
  "\<exists>c node inputs outs db n m r.
     automationRunLite (=) run_two small_defaults ''r1'' ''now'' two_db = (Inr (c, RunSuspended ''b'' node inputs [] outs), db)
     \<and> rc_run_id c = ''r1'' \<and> node_at db ''r1'' ''b'' = Some n \<and> rn_lifecycle_state n = NodeRunning
     \<and> rn_depends_on n = [''a''] \<and> node_at db ''r1'' ''a'' = Some m \<and> succeeded m
     \<and> an_inputs node = Some [(''x'', JStr ''$nodes.a.result'')]
     \<and> run_at db ''r1'' = Some r \<and> ar_tenant_id r = ''t'' \<and> ar_scope r = ''s'' \<and> ar_lifecycle_state r = RunRunning"
proof -
  obtain d s where "loadDefinitionForExecution (''t'', ''s'', ''auto'') None two_db
     = Inr \<lparr>dv_definition = d, dv_version = \<lparr>vr_version = 1, vr_status = DefActive, vr_graph = two_nodes,
        vr_compile_summary = s, vr_metadata = JObj [], vr_created_at = ''now''\<rparr>\<rparr>"
    using two_db_load by blast
  then show ?thesis by (simp add: run_eval succeeded_def)
qed

lemma started_two_state:
  "\<exists>p n m r. am_calls started_two = [(0, p)] \<and> rc_run_id (pc_context p) = ''r1''
     \<and> an_inputs (pc_node p) = Some [(''x'', JStr ''$nodes.a.result'')]
     \<and> node_at (am_db started_two) ''r1'' ''b'' = Some n \<and> rn_lifecycle_state n = NodeRunning
     \<and> rn_depends_on n = [''a''] \<and> node_at (am_db started_two) ''r1'' ''a'' = Some m \<and> succeeded m
     \<and> run_at (am_db started_two) ''r1'' = Some r \<and> ar_tenant_id r = ''t'' \<and> ar_scope r = ''s''
     \<and> ar_lifecycle_state r = RunRunning"
  using started_two_result
  by (auto simp: started_two_def request_state_def loop_state_def created_two_def automation_new_def)

lemma created_two_reachable: "(automation_step same)\<^sup>*\<^sup>* automation_new created_two"
proof -
  obtain v where "automationCreateLite create_two small_defaults ''now'' (am_db automation_new) = Inr (v, two_db)"
    using two_db_created by (auto simp: automation_new_def)
  then show ?thesis using automation_step.created unfolding created_two_def by blast
qed

lemma started_two_reachable: "(automation_step (=))\<^sup>*\<^sup>* automation_new started_two"
proof -
  have "am_db created_two = two_db" by (simp add: created_two_def)
  then have "automation_step (=) created_two started_two"
    unfolding started_two_def using automation_step.started [of "(=)" created_two] by simp
  with created_two_reachable show ?thesis by (rule rtranclp.rtrancl_into_rtrancl)
qed

lemma cancelled_two_step: "automation_step (=) started_two cancelled_two"
  unfolding cancelled_two_def by (rule automation_step.cancelled)

lemma cancelled_two_state:
  "\<exists>r. run_at (am_db cancelled_two) ''r1'' = Some r \<and> ar_lifecycle_state r = RunTerminal
     \<and> ar_terminal_outcome r = Some RunCancelled"
proof -
  note parts = inv_parts [OF kernel_inv [OF started_two_reachable]]
  obtain r where r: "run_at (am_db started_two) ''r1'' = Some r" "ar_tenant_id r = ''t''" "ar_scope r = ''s''"
    "ar_lifecycle_state r = RunRunning" using started_two_state by blast
  have ten: "resolveTenantScope None None (ad_defaultScope small_defaults) (ad_defaultTenantId small_defaults)
      = Inr \<lparr>ts_tenant_id = ''t'', ts_scope = ''s'', ts_scope_key = ''s''\<rparr>"
    by (simp add: small_defaults_def two_tenancy)
  show ?thesis
    using cancel_lite_done [OF parts(1,2) parts(3) [OF r(1)] ten r(1), of None "''now''"] r(2-4)
    by (auto simp: cancelled_two_def)
qed

section \<open>The order of a run\<close>

text \<open>C4: Dependencies succeed first.  In every state the kernel can reach, a node that has been
  started, whether it is running, paused, succeeded or failed, has only succeeded nodes among those
  it depends on.  (A node that was cancelled before it started has not been started.)\<close>

theorem automation_dependencies_first:
  assumes "(automation_step same)\<^sup>*\<^sup>* automation_new a" "node_at (am_db a) i k = Some n"
    "rn_lifecycle_state n \<in> {NodeRunning, NodePaused} \<or> rn_terminal_outcome n \<in> {Some NodeSucceeded, Some NodeFailed}
       \<and> rn_lifecycle_state n = NodeTerminal"
  shows "\<forall>d \<in> set (rn_depends_on n). \<exists>m. node_at (am_db a) i d = Some m
    \<and> rn_lifecycle_state m = NodeTerminal \<and> rn_terminal_outcome m = Some NodeSucceeded"
proof
  fix d assume d: "d \<in> set (rn_depends_on n)"
  have "\<not> fresh n" "\<not> rejected n" using assms(3) by (auto simp: fresh_def rejected_def)
  from touched_dependencies [OF kernel_inv [OF assms(1)] assms(2) this d]
  show "\<exists>m. node_at (am_db a) i d = Some m \<and> rn_lifecycle_state m = NodeTerminal
    \<and> rn_terminal_outcome m = Some NodeSucceeded" by (auto simp: succeeded_def)
qed

theorem automation_dependencies_first_witness:
  "\<exists>m. node_at (am_db started_two) ''r1'' ''a'' = Some m \<and> rn_terminal_outcome m = Some NodeSucceeded"
proof -
  obtain n where n: "node_at (am_db started_two) ''r1'' ''b'' = Some n" "rn_lifecycle_state n = NodeRunning"
    "rn_depends_on n = [''a'']" using started_two_state by blast
  then show ?thesis using automation_dependencies_first [OF started_two_reachable n(1)] by auto
qed

text \<open>C10: Results stay.  A step from a reachable state, be it a request of any kind on any run, an
  answer of a runner or its failure, leaves the row of every succeeded node and every stored
  version of a definition as it is.\<close>

theorem automation_results_kept:
  assumes "(automation_step same)\<^sup>*\<^sup>* automation_new a" "automation_step same a b"
  shows "(\<forall>i k n. node_at (am_db a) i k = Some n \<and> rn_lifecycle_state n = NodeTerminal
            \<and> rn_terminal_outcome n = Some NodeSucceeded \<longrightarrow> node_at (am_db b) i k = Some n)
    \<and> (\<forall>e row. map_get (db_versions (am_db a)) e = Some row \<longrightarrow> map_get (db_versions (am_db b)) e = Some row)"
  using step_keeps_results [OF kernel_inv [OF assms(1)] assms(2)]
  unfolding keeps_results_def succeeded_def by blast

theorem automation_results_kept_witness:
  "node_at (am_db cancelled_two) ''r1'' ''a'' = node_at (am_db started_two) ''r1'' ''a''"
proof -
  obtain m where "node_at (am_db started_two) ''r1'' ''a'' = Some m" "succeeded m" using started_two_state by blast
  then show ?thesis
    using automation_results_kept [OF started_two_reachable cancelled_two_step] by (auto simp: succeeded_def)
qed

section \<open>Playbooks\<close>

text \<open>C11: A playbook is called with the stored results.  While a replay runner works for a run, the
  inputs it was given are the bindings of its node resolved against the parameters of the run and
  a table of outputs that has, for every node the bindings refer to, the output stored in the row
  of that node, which has succeeded; and no reference in them is undefined.\<close>

theorem runner_inputs_resolved:
  assumes "(automation_step same)\<^sup>*\<^sup>* automation_new a" "(n, p) \<in> set (am_calls a)"
  shows "\<exists>r. run_at (am_db a) (rc_run_id (pc_context p)) = Some r
    \<and> pc_inputs p = resolved_inputs (pc_context p) (pc_outputs p) (pc_node p)
    \<and> rc_params (pc_context p) = ar_params_json r
    \<and> (\<forall>d \<in> set (node_refs (pc_node p)). \<exists>m. node_at (am_db a) (rc_run_id (pc_context p)) d = Some m
         \<and> succeeded m \<and> map_get (pc_outputs p) d = Some (rn_output_snapshot_json m))
    \<and> resolves \<lparr>bc_params = ar_params_json r, bc_nodeOutputs = pc_outputs p\<rparr> (JObj (case an_inputs (pc_node p) of Some ob \<Rightarrow> ob | None \<Rightarrow> []))"
proof -
  obtain r where r: "run_at (am_db a) (rc_run_id (pc_context p)) = Some r"
    "pc_inputs p = resolved_inputs (pc_context p) (pc_outputs p) (pc_node p)" "rc_params (pc_context p) = ar_params_json r"
    "\<And>d. d \<in> set (node_refs (pc_node p)) \<Longrightarrow>
       \<exists>m. node_at (am_db a) (rc_run_id (pc_context p)) d = Some m \<and> succeeded m
         \<and> map_get (pc_outputs p) d = Some (rn_output_snapshot_json m)"
    by (rule call_inputs [OF kernel_inv [OF assms(1)] assms(2)]) blast
  let ?ob = "JObj (case an_inputs (pc_node p) of Some ob \<Rightarrow> ob | None \<Rightarrow> [])"
  let ?ctx = "\<lparr>bc_params = ar_params_json r, bc_nodeOutputs = pc_outputs p\<rparr>"
  have "ref_set ?ob \<subseteq> fst ` set (bc_nodeOutputs ?ctx)"
  proof
    fix d assume "d \<in> ref_set ?ob"
    then have "d \<in> set (node_refs (pc_node p))" by (rule subsetD [OF input_refs])
    from r(4) [OF this] obtain m :: run_node where "map_get (pc_outputs p) d = Some (rn_output_snapshot_json m)" by blast
    from imageI [OF map_get_in [OF this], of fst] show "d \<in> fst ` set (bc_nodeOutputs ?ctx)" by simp
  qed
  from refs_resolve [OF this] show ?thesis using r by blast
qed

theorem runner_inputs_resolved_witness:
  "\<exists>p. am_calls started_two = [(0, p)] \<and> resolves \<lparr>bc_params = rc_params (pc_context p), bc_nodeOutputs = pc_outputs p\<rparr>
     (JObj [(''x'', JStr ''$nodes.a.result'')])"
proof -
  obtain p where p: "am_calls started_two = [(0, p)]" "an_inputs (pc_node p) = Some [(''x'', JStr ''$nodes.a.result'')]"
    using started_two_state by blast
  have "(0, p) \<in> set (am_calls started_two)" using p(1) by simp
  from runner_inputs_resolved [OF started_two_reachable this] show ?thesis using p by (intro exI [of _ p]) auto
qed

section \<open>Answers\<close>

text \<open>C18: Requests are answered.  In every state the kernel can reach, resuming and cancelling a run
  succeed or are refused with an error of the request, never with an error of the tables; so does
  starting a run under a fresh id; and every answer of a replay runner is taken, and leads to a
  run that is returned or that waits for its next playbook.\<close>

theorem automation_requests_answered:
  assumes "(automation_step same)\<^sup>*\<^sup>* automation_new a"
  shows "(\<exists>e v. fst (automationRunResumeLite same tenant_id scope actor run_id reason d now (am_db a)) \<in> {Inl (RequestError e), Inr v})
    \<and> (\<exists>e v. fst (automationRunCancelLite tenant_id scope run_id reason d now (am_db a)) \<in> {Inl (RequestError e), Inr v})
    \<and> (map_get (db_runs (am_db a)) newId = None
         \<longrightarrow> (\<exists>e v. fst (automationRunLite same q d newId now (am_db a)) \<in> {Inl (RequestError e), Inr v}))
    \<and> (\<forall>(n, p) \<in> set (am_calls a). \<exists>out. fst (settle_replay same p ans now (am_db a)) = Inr out)"
proof -
  have kind: "\<exists>e v. x \<in> {Inl (RequestError e), Inr v}" if "\<And>m. x \<noteq> Inl (StoreFailure m)"
    for x :: "automation_error + 'b"
  proof (cases x)
    case (Inl e)
    then show ?thesis using that by (cases e) auto
  qed auto
  note ok = requests_answered [OF kernel_inv [OF assms]]
  show ?thesis
    by (intro conjI impI ballI kind [OF ok(1)] kind [OF ok(2)] kind [OF ok(3)]) (use ok(4) in auto)
qed

theorem automation_requests_answered_witness:
  "\<exists>p out. am_calls started_two = [(0, p)] \<and> fst (settle_replay (=) p
     \<lparr>rp_mode = Some (JStr ''simulate''), rp_playbook = None, rp_run = None, rp_summary = None, rp_execution = None,
      rp_steps = None\<rparr> ''later'' (am_db started_two)) = Inr out"
proof -
  obtain p where p: "am_calls started_two = [(0, p)]" using started_two_state by blast
  then show ?thesis using automation_requests_answered [OF started_two_reachable] by fastforce
qed

section \<open>Cancelling\<close>

text \<open>C37: A cancelled run can end as succeeded.  The run that waits for a replay runner is not looked
  at again when the runner answers: when the run was cancelled while the runner worked and the
  runner reports success, the rejected nodes after the playbook are passed over and the run, which
  had ended as cancelled, is stored as succeeded.\<close>

theorem cancelled_run_succeeds:
  assumes "(automation_step same)\<^sup>*\<^sup>* automation_new a" "(n, p) \<in> set (am_calls a)"
    "run_at (am_db a) (rc_run_id (pc_context p)) = Some r" "ar_lifecycle_state r = RunTerminal"
    "replay_status ans \<in> {''success'', ''succeeded''}"
  shows "ar_terminal_outcome r = Some RunCancelled
    \<and> (\<exists>r'. run_at (am_db (settle_state same n p ans now a)) (rc_run_id (pc_context p)) = Some r'
         \<and> ar_lifecycle_state r' = RunTerminal \<and> ar_terminal_outcome r' = Some RunSucceeded)"
proof -
  note inv = kernel_inv [OF assms(1)]
  have "run_ok (am_db a) [p] r"
    using inv_parts(3) [OF inv assms(3)] call_found(1) [OF inv assms(2) refl] by simp
  then have "ar_terminal_outcome r = Some RunCancelled"
    using assms(4) by (auto simp: run_ok_def run_shape_def node_shape_def)
  then show ?thesis using cancelled_answer [OF inv assms(2-4)] assms(5) by blast
qed

definition success_answer :: replay_result where
  "success_answer = \<lparr>rp_mode = Some (JStr ''strict''), rp_playbook = None,
     rp_run = Some (JObj [(''status'', JStr ''success'')]), rp_summary = None, rp_execution = None, rp_steps = None\<rparr>"

theorem cancelled_run_succeeds_witness:
  "\<exists>p r. run_at (am_db cancelled_two) ''r1'' = Some r \<and> ar_terminal_outcome r = Some RunCancelled
     \<and> (\<exists>r'. run_at (am_db (settle_state (=) 0 p success_answer ''later'' cancelled_two)) ''r1'' = Some r'
          \<and> ar_terminal_outcome r' = Some RunSucceeded)"
proof -
  obtain p where p: "am_calls started_two = [(0, p)]" "rc_run_id (pc_context p) = ''r1''"
    using started_two_state by blast
  then have call: "(0, p) \<in> set (am_calls cancelled_two)" by (simp add: cancelled_two_def)
  obtain r where r: "run_at (am_db cancelled_two) ''r1'' = Some r" "ar_lifecycle_state r = RunTerminal"
    using cancelled_two_state by blast
  have reach: "(automation_step (=))\<^sup>*\<^sup>* automation_new cancelled_two"
    by (rule rtranclp.rtrancl_into_rtrancl [OF started_two_reachable cancelled_two_step])
  have ans: "replay_status success_answer \<in> {''success'', ''succeeded''}" by code_simp
  show ?thesis
    using cancelled_run_succeeds [OF reach call _ r(2) ans, of "''later''"] r(1) p(2) by auto
qed

end
