(* ===== verification/ReplayCommands.thy ===== *)
theory ReplayCommands
  imports JsConvert
begin

text \<open>
  The commands a replay may run, from src/memory/replay-execution-helpers.ts and
  replay-guided-repair.ts: which names are safe, which are allowed, which are sensitive, and the
  argument vector a step asks for.
\<close>

section \<open>Reading values\<close>

definition asObject :: "jv option \<Rightarrow> jv option" where
  "asObject v = (case v of Some u \<Rightarrow> if is_plain_object u then Some u else None | None \<Rightarrow> None)"

definition toStringOrNull :: "jv option \<Rightarrow> string option" where
  "toStringOrNull v = (case v of Some (JStr s) \<Rightarrow> if js_trim s = [] then None else Some (js_trim s) | _ \<Rightarrow> None)"

definition asStringArray :: "jv option \<Rightarrow> string list" where
  "asStringArray v =
     (case v of
        Some (JArr vs) \<Rightarrow> filter (\<lambda>s. s \<noteq> []) (map (\<lambda>u. case u of JStr s \<Rightarrow> js_trim s | _ \<Rightarrow> []) vs)
      | _ \<Rightarrow> [])"

text \<open>A member with an empty or blank name or value is left out, a later one replaces an earlier.\<close>

definition asStringRecord :: "jv option \<Rightarrow> jobj" where
  "asStringRecord v =
     (case asObject v of
        None \<Rightarrow> []
      | Some u \<Rightarrow>
          foldl (\<lambda>out (k, w). case (toStringOrNull (Some (JStr k)), toStringOrNull (Some w)) of
                                (Some k', Some s) \<Rightarrow> obj_assign k' (JStr s) out
                              | _ \<Rightarrow> out)
            [] (case plain_members u of Some ob \<Rightarrow> ob | None \<Rightarrow> []))"

definition object_or_empty :: "jv option \<Rightarrow> jv" where
  "object_or_empty v = (case asObject v of Some u \<Rightarrow> u | None \<Rightarrow> JObj [])"

definition array_or_empty :: "jv option \<Rightarrow> jv list" where
  "array_or_empty v = (case v of Some (JArr vs) \<Rightarrow> vs | _ \<Rightarrow> [])"

section \<open>Settings by name\<close>

datatype replay_backend = LocalProcess | SandboxSync | SandboxAsync
datatype review_mode = ReviewBlock | ReviewWarn
datatype risk_level = RiskLow | RiskMedium | RiskHigh

fun backend_name :: "replay_backend \<Rightarrow> string" where
  "backend_name LocalProcess = ''local_process''"
| "backend_name SandboxSync = ''sandbox_sync''"
| "backend_name SandboxAsync = ''sandbox_async''"

fun review_mode_name :: "review_mode \<Rightarrow> string" where
  "review_mode_name ReviewBlock = ''block''"
| "review_mode_name ReviewWarn = ''warn''"

fun risk_level_name :: "risk_level \<Rightarrow> string" where
  "risk_level_name RiskLow = ''low''"
| "risk_level_name RiskMedium = ''medium''"
| "risk_level_name RiskHigh = ''high''"

definition normalizeReplayExecutionBackend :: "string option \<Rightarrow> replay_backend" where
  "normalizeReplayExecutionBackend raw =
     (if raw = Some ''sandbox_sync'' then SandboxSync
      else if raw = Some ''sandbox_async'' then SandboxAsync else LocalProcess)"

definition normalizeReplaySensitiveReviewMode :: "string option \<Rightarrow> review_mode" where
  "normalizeReplaySensitiveReviewMode raw = (if raw = Some ''warn'' then ReviewWarn else ReviewBlock)"

section \<open>Safe and allowed commands\<close>

text \<open>The expression \<^verbatim>\<open>/^[a-zA-Z0-9._-]+$/\<close>.\<close>

definition isSafeCommandName :: "string \<Rightarrow> bool" where
  "isSafeCommandName raw \<longleftrightarrow> raw \<noteq> [] \<and> list_all is_name_part raw"

definition path_segments :: "string \<Rightarrow> string list" where
  "path_segments s = filter (\<lambda>p. p \<noteq> []) (js_split (CHR ''/'') s)"

definition isSafeCommandReference :: "string \<Rightarrow> bool" where
  "isSafeCommandReference raw =
     (let command = js_trim raw
      in if command = [] then False
         else if isSafeCommandName command then True
         else if \<not> js_starts_with command ''/'' then False
         else path_segments command \<noteq> [] \<and> list_all isSafeCommandName (path_segments command))"

text \<open>\<^verbatim>\<open>path.basename\<close>: trailing separators are ignored.\<close>

definition path_basename :: "string \<Rightarrow> string" where
  "path_basename s = (if path_segments s = [] then [] else last (path_segments s))"

definition resolveCommandReferenceAliases :: "string \<Rightarrow> string list" where
  "resolveCommandReferenceAliases raw =
     (let command = js_trim raw
      in if \<not> isSafeCommandReference command then []
         else (let base = path_basename command
               in if base \<noteq> command \<and> isSafeCommandName base then [command, base] else [command]))"

definition isAllowedReplayCommand :: "string \<Rightarrow> string list \<Rightarrow> bool" where
  "isAllowedReplayCommand raw allowed \<longleftrightarrow> (\<exists>a \<in> set (resolveCommandReferenceAliases raw). a \<in> set allowed)"

section \<open>Sensitive commands\<close>

definition SENSITIVE_COMMANDS :: "string list" where
  "SENSITIVE_COMMANDS =
     [''rm'', ''mv'', ''cp'', ''chmod'', ''chown'', ''chgrp'', ''dd'', ''mkfs'', ''fdisk'', ''parted'',
      ''truncate'', ''reboot'', ''shutdown'', ''kill'', ''killall'', ''pkill'', ''useradd'', ''userdel'',
      ''usermod'', ''groupadd'', ''groupdel'', ''ln'', ''mount'', ''umount'', ''sed'', ''perl'']"

record sensitivity =
  sn_sensitive :: bool
  sn_reason :: "string option"
  sn_risk_level :: risk_level

definition harmless_command :: sensitivity where
  "harmless_command = \<lparr>sn_sensitive = False, sn_reason = None, sn_risk_level = RiskLow\<rparr>"

definition sensitive_for :: "string \<Rightarrow> risk_level \<Rightarrow> sensitivity" where
  "sensitive_for reason risk = \<lparr>sn_sensitive = True, sn_reason = Some reason, sn_risk_level = risk\<rparr>"

text \<open>\<^verbatim>\<open>/\s-rf(\s|$)/\<close> for a flag \<^verbatim>\<open>-rf\<close>, and \<^verbatim>\<open>/\s-i[^ ]+/\<close>.\<close>

definition has_flag :: "string \<Rightarrow> string \<Rightarrow> bool" where
  "has_flag flag text =
     any_suffix (\<lambda>r. r \<noteq> [] \<and> is_ws (hd r) \<and> js_starts_with (tl r) flag
                     \<and> (let rest = drop (length flag) (tl r) in rest = [] \<or> is_ws (hd rest))) text"

definition has_flag_prefix :: "string \<Rightarrow> string \<Rightarrow> bool" where
  "has_flag_prefix flag text =
     any_suffix (\<lambda>r. r \<noteq> [] \<and> is_ws (hd r) \<and> js_starts_with (tl r) flag
                     \<and> (let rest = drop (length flag) (tl r) in rest \<noteq> [] \<and> hd rest \<noteq> CHR '' '')) text"

definition detectSensitiveCommand :: "string \<Rightarrow> string list \<Rightarrow> sensitivity" where
  "detectSensitiveCommand command argv =
     (let cmd = js_trim command; lower = js_lower cmd; joined = js_join '' '' argv
      in if cmd = [] then harmless_command
         else if lower \<notin> set SENSITIVE_COMMANDS then harmless_command
         else if lower = ''rm'' then
           (if has_flag ''-rf'' joined \<or> has_flag ''-fr'' joined
            then sensitive_for ''destructive_delete_recursive'' RiskHigh
            else sensitive_for ''delete_operation'' RiskHigh)
         else if lower \<in> {''dd'', ''mkfs'', ''fdisk'', ''parted''} then
           sensitive_for ''disk_mutation_operation'' RiskHigh
         else if lower \<in> {''chmod'', ''chown'', ''chgrp'', ''usermod'', ''useradd'', ''userdel''} then
           sensitive_for ''permission_or_identity_mutation'' RiskHigh
         else if lower \<in> {''sed'', ''perl''} then
           (if has_flag ''-i'' joined \<or> has_flag_prefix ''-i'' joined
            then sensitive_for ''in_place_file_mutation'' RiskMedium
            else sensitive_for ''shell_mutation_tool'' RiskMedium)
         else sensitive_for ''mutation_operation'' RiskMedium)"

section \<open>The command of a step\<close>

definition isReplayCommandTool :: "string option \<Rightarrow> bool" where
  "isReplayCommandTool toolName \<longleftrightarrow>
     toolName \<in> {Some ''command'', Some ''shell'', Some ''exec'', Some ''bash''}"

definition tool_input_object :: "jv \<Rightarrow> jv" where
  "tool_input_object stepObj =
     (case asObject (js_get stepObj ''tool_input_template'') of
        Some u \<Rightarrow> u
      | None \<Rightarrow> object_or_empty (js_get stepObj ''tool_input''))"

definition parseStepArgv :: "jv \<Rightarrow> string option \<Rightarrow> string list" where
  "parseStepArgv stepObj toolName =
     (let rawTemplate = tool_input_object stepObj; argv = asStringArray (js_get rawTemplate ''argv'')
      in if argv \<noteq> [] then argv
         else (case toStringOrNull (js_get rawTemplate ''command'') of
                 Some command \<Rightarrow> command # asStringArray (js_get rawTemplate ''args'')
               | None \<Rightarrow> if toolName = Some ''bash''
                          then ''bash'' # asStringArray (js_get rawTemplate ''args'') else []))"

definition command_of :: "string list \<Rightarrow> string" where
  "command_of argv = (case argv of [] \<Rightarrow> [] | a # _ \<Rightarrow> js_trim a)"

text \<open>
  The commands a run may use: those of the server that the request names too, if it names any.
\<close>

definition effective_commands :: "string list \<Rightarrow> string list \<Rightarrow> string list" where
  "effective_commands server requested =
     (if requested = [] then server else filter (\<lambda>cmd. isAllowedReplayCommand cmd requested) server)"

section \<open>What the checks mean\<close>

lemma trimmed_asStringArray: "s \<in> set (asStringArray v) \<Longrightarrow> trimmed s \<and> s \<noteq> []"
  by (auto simp: asStringArray_def trimmed_js_trim split: option.splits jv.splits)

lemma trimmed_id: "trimmed s \<Longrightarrow> js_trim s = s"
  by (rule js_trim_id)

lemma allowed_alias:
  "isAllowedReplayCommand c allowed \<Longrightarrow>
     \<exists>a \<in> set allowed. (a = js_trim c \<or> a = path_basename (js_trim c)) \<and> isSafeCommandReference c"
  by (auto simp: isAllowedReplayCommand_def resolveCommandReferenceAliases_def Let_def
      isSafeCommandReference_def js_trim_idem split: if_splits)

lemma effective_commands_set:
  "c \<in> set (effective_commands server requested) \<Longrightarrow>
     c \<in> set server \<and> (requested \<noteq> [] \<longrightarrow> isAllowedReplayCommand c requested)"
  by (auto simp: effective_commands_def split: if_splits)

text \<open>A sensitive command is one of the list, in any case; an absolute path never is.\<close>

lemma sensitive_iff:
  "sn_sensitive (detectSensitiveCommand command argv) \<longleftrightarrow> js_lower (js_trim command) \<in> set SENSITIVE_COMMANDS"
proof (cases "js_trim command = []")
  case True
  then show ?thesis
    by (simp add: detectSensitiveCommand_def harmless_command_def js_lower_def SENSITIVE_COMMANDS_def)
next
  case False
  then show ?thesis
    by (auto simp: detectSensitiveCommand_def Let_def harmless_command_def sensitive_for_def)
qed

end
