(* ===== verification/ReplayWorld.thy ===== *)
theory ReplayWorld
  imports Effects Tenancy ReplayCommands
begin

text \<open>
  What a replay talks to.  Every call that leaves the process or the module is an event; a run
  appends its events to a trace.  The world answers a call by functions of the trace so far, so
  the answers may depend on everything that has happened, commands that were run included.  No
  law is assumed of them.
\<close>

section \<open>Calls\<close>

datatype replay_failure = ReplayHttpError http_error | ReplayException string

datatype probe =
    ProbeFile string
  | ProbeWhich string
  | ProbeVariable string
  | ProbePort string jsnum
  | ProbeDirectory

record local_call =
  lc_argv :: "string list"
  lc_cwd :: string
  lc_timeout :: int
  lc_maxBuffer :: int

record sandbox_call =
  sc_tenant_id :: string
  sc_scope :: string
  sc_project_id :: "string option"
  sc_argv :: "string list"
  sc_timeout_ms :: int
  sc_backend :: replay_backend

record playbook_query =
  pq_scope_key :: string
  pq_playbook_id :: string
  pq_version :: "nat option"
  pq_consumer_agent_id :: "string option"
  pq_consumer_team_id :: "string option"

record budget_call =
  bc_tenant_id :: string
  bc_scope :: string
  bc_project_id :: "string option"

record fetch_call =
  fc_endpoint :: string
  fc_token :: "string option"
  fc_timeout_ms :: int
  fc_body :: jv

datatype replay_write = WriteRunStart jobj | WriteStepBefore jobj | WriteStepAfter jobj | WriteRunEnd jobj

datatype replay_event =
    Probed probe
  | Spawned local_call
  | Sandboxed sandbox_call
  | Looked playbook_query
  | Budgeted budget_call
  | Fetched fetch_call
  | Wrote replay_write
  | DrewUuid

type_synonym trace = "replay_event list"

section \<open>Answers\<close>

text \<open>
  The result of \<^verbatim>\<open>spawnSync\<close>; an error object has a code and a message.  Elapsed times are
  differences of the clock around a call.
\<close>

record spawn_answer =
  sp_stdout :: string
  sp_stderr :: string
  sp_status :: "jsnum option"
  sp_error :: "(string \<times> string) option"

record sandbox_answer =
  sa_ok :: bool
  sa_status :: string
  sa_stdout :: string
  sa_stderr :: string
  sa_exit_code :: "jsnum option"
  sa_error :: "string option"
  sa_run_id :: "string option"

record fetch_answer =
  fa_ok :: bool
  fa_status :: int
  fa_payload :: jv

record playbook_row =
  pb_id :: string
  pb_type :: string
  pb_title :: "string option"
  pb_slots :: jv
  pb_version_num :: nat
  pb_playbook_status :: "string option"
  pb_memory_lane :: string
  pb_producer_agent_id :: "string option"
  pb_owner_agent_id :: "string option"
  pb_owner_team_id :: "string option"

record replay_world =
  w_file :: "trace \<Rightarrow> string \<Rightarrow> bool"
  w_which :: "trace \<Rightarrow> string \<Rightarrow> int option"
  w_variable :: "trace \<Rightarrow> string \<Rightarrow> string option"
  w_port_free :: "trace \<Rightarrow> string \<Rightarrow> jsnum \<Rightarrow> bool"
  w_directory :: "trace \<Rightarrow> string + string"
  w_spawn :: "trace \<Rightarrow> local_call \<Rightarrow> string + spawn_answer"
  w_sandbox :: "trace \<Rightarrow> sandbox_call \<Rightarrow> replay_failure + sandbox_answer"
  w_elapsed :: "trace \<Rightarrow> int"
  w_playbook :: "trace \<Rightarrow> playbook_query \<Rightarrow> replay_failure + playbook_row option"
  w_budget :: "trace \<Rightarrow> budget_call \<Rightarrow> replay_failure + unit"
  w_fetch :: "trace \<Rightarrow> fetch_call \<Rightarrow> string + fetch_answer"
  w_write :: "trace \<Rightarrow> replay_write \<Rightarrow> replay_failure + jobj"
  w_uuid :: "trace \<Rightarrow> string"
  w_regex :: "string \<Rightarrow> string \<Rightarrow> bool option"
  w_json_parse :: "string \<Rightarrow> jv option"
  w_sha256 :: "string \<Rightarrow> string"

section \<open>Operations on the trace\<close>

type_synonym 'a io = "(trace, replay_failure, 'a) effect"

text \<open>A call that answers, and one that may fail.\<close>

definition ask :: "replay_event \<Rightarrow> (trace \<Rightarrow> 'a) \<Rightarrow> 'a io" where
  "ask ev answer t = (Inr (answer t), t @ [ev])"

definition attempt :: "replay_event \<Rightarrow> (trace \<Rightarrow> replay_failure + 'a) \<Rightarrow> 'a io" where
  "attempt ev answer t = (answer t, t @ [ev])"

definition http_fail :: "nat \<Rightarrow> string \<Rightarrow> string \<Rightarrow> jobj option \<Rightarrow> 'a io" where
  "http_fail status cd msg details =
     throw_act (ReplayHttpError \<lparr>he_statusCode = status, he_code = cd, he_message = msg,
                                 he_details = map_option JObj details\<rparr>)"

definition request_io :: "http_error + 'a \<Rightarrow> 'a io" where
  "request_io r t = (case r of Inl e \<Rightarrow> (Inl (ReplayHttpError e), t) | Inr x \<Rightarrow> (Inr x, t))"

section \<open>What an operation may call\<close>

text \<open>
  \<open>runs A G m B\<close>: started in a trace with \<open>A\<close>, the operation only appends events, each of
  which \<open>G\<close> allows in the trace that precedes it, and a result it returns satisfies \<open>B\<close>.
\<close>

definition runs ::
  "(trace \<Rightarrow> bool) \<Rightarrow> (trace \<Rightarrow> replay_event \<Rightarrow> bool) \<Rightarrow> 'a io \<Rightarrow> ('a \<Rightarrow> trace \<Rightarrow> bool) \<Rightarrow> bool" where
  "runs A G m B \<longleftrightarrow>
     (\<forall>t r t'. A t \<longrightarrow> m t = (r, t') \<longrightarrow>
        (\<exists>es. t' = t @ es \<and> (\<forall>us ev vs. es = us @ ev # vs \<longrightarrow> G (t @ us) ev))
        \<and> (\<forall>x. r = Inr x \<longrightarrow> B x t'))"

lemma runs_return: "(\<And>t. A t \<Longrightarrow> B x t) \<Longrightarrow> runs A G (return_act x) B"
  by (auto simp: runs_def return_act_def)

lemma runs_throw: "runs A G (throw_act e) B"
  by (auto simp: runs_def throw_act_def)

lemma runs_http_fail: "runs A G (http_fail st cd msg d) B"
  unfolding http_fail_def by (rule runs_throw)

lemma runs_request:
  "(\<And>x t. r = Inr x \<Longrightarrow> A t \<Longrightarrow> B x t) \<Longrightarrow> runs A G (request_io r) B"
  by (auto simp: runs_def request_io_def split: sum.splits)

lemma runs_ask:
  "(\<And>t. A t \<Longrightarrow> G t ev) \<Longrightarrow> (\<And>t. A t \<Longrightarrow> B (answer t) (t @ [ev])) \<Longrightarrow> runs A G (ask ev answer) B"
  by (auto simp: runs_def ask_def Cons_eq_append_conv)

lemma runs_attempt:
  "(\<And>t. A t \<Longrightarrow> G t ev) \<Longrightarrow> (\<And>t x. A t \<Longrightarrow> answer t = Inr x \<Longrightarrow> B x (t @ [ev]))
     \<Longrightarrow> runs A G (attempt ev answer) B"
  by (auto simp: runs_def attempt_def Cons_eq_append_conv)

text \<open>The same as equations, for the simplifier.\<close>

named_theorems runs_simps

lemma runs_basic [runs_simps]:
  "runs A G (return_act x) B \<longleftrightarrow> (\<forall>t. A t \<longrightarrow> B x t)"
  "runs A G (throw_act e) B"
  "runs A G (http_fail st cd msg d) B"
  "runs A G (ask ev answer) B \<longleftrightarrow> (\<forall>t. A t \<longrightarrow> G t ev \<and> B (answer t) (t @ [ev]))"
  "runs A G (attempt ev reply) C \<longleftrightarrow>
     (\<forall>t. A t \<longrightarrow> G t ev \<and> (\<forall>x. reply t = Inr x \<longrightarrow> C x (t @ [ev])))"
  by (auto simp: runs_def return_act_def throw_act_def http_fail_def ask_def attempt_def Cons_eq_append_conv)

lemma runs_branch [runs_simps]:
  "runs A G (if b then m else n) B \<longleftrightarrow> (if b then runs A G m B else runs A G n B)"
  "runs A G (case v of None \<Rightarrow> m | Some y \<Rightarrow> f y) B
     \<longleftrightarrow> (case v of None \<Rightarrow> runs A G m B | Some y \<Rightarrow> runs A G (f y) B)"
  "runs A G (case p of (a, c) \<Rightarrow> g a c) B \<longleftrightarrow> (case p of (a, c) \<Rightarrow> runs A G (g a c) B)"
  by (simp_all split: option.split prod.split)

lemma allowed_append:
  assumes "\<And>us ev vs. es = us @ ev # vs \<Longrightarrow> G (t @ us) ev"
    and "\<And>us ev vs. fs = us @ ev # vs \<Longrightarrow> G (t @ es @ us) ev"
    and eq: "es @ fs = us @ ev # vs"
  shows "G (t @ us) ev"
proof -
  from eq obtain xs where "(es = us @ xs \<and> xs @ fs = ev # vs) \<or> (es @ xs = us \<and> fs = xs @ ev # vs)"
    unfolding append_eq_append_conv2 by blast
  then show ?thesis
  proof (elim disjE conjE)
    assume xs: "es = us @ xs" "xs @ fs = ev # vs"
    show ?thesis
    proof (cases xs)
      case Nil
      then show ?thesis using assms(2) [of "[]" ev vs] xs by simp
    next
      case (Cons a ys)
      then show ?thesis using assms(1) [of us ev ys] xs by simp
    qed
  next
    assume "es @ xs = us" "fs = xs @ ev # vs"
    then show ?thesis using assms(2) [of xs ev vs] by auto
  qed
qed

lemma runs_then:
  assumes m: "runs A G m B" and f: "\<And>x. runs (B x) G (f x) C"
  shows "runs A G (then_do m f) C"
  unfolding runs_def
proof (intro allI impI)
  fix t r t' assume t: "A t" and eq: "then_do m f t = (r, t')"
  obtain r1 t1 where m1: "m t = (r1, t1)" by (cases "m t")
  obtain es where es: "t1 = t @ es" "\<And>us ev vs. es = us @ ev # vs \<Longrightarrow> G (t @ us) ev"
    and B: "\<And>x. r1 = Inr x \<Longrightarrow> B x t1"
    using m t m1 unfolding runs_def by (metis (no_types, lifting))
  show "(\<exists>es. t' = t @ es \<and> (\<forall>us ev vs. es = us @ ev # vs \<longrightarrow> G (t @ us) ev))
        \<and> (\<forall>x. r = Inr x \<longrightarrow> C x t')"
  proof (cases r1)
    case (Inl e)
    then show ?thesis using eq m1 es by (auto simp: then_do_def)
  next
    case (Inr x)
    then have fx: "f x t1 = (r, t')" using eq m1 by (simp add: then_do_def)
    obtain fs where fs: "t' = t1 @ fs" "\<And>us ev vs. fs = us @ ev # vs \<Longrightarrow> G (t1 @ us) ev"
      and C: "\<And>y. r = Inr y \<Longrightarrow> C y t'"
      using f [of x] B [OF Inr] fx unfolding runs_def by (metis (no_types, lifting))
    have "G (t @ us) ev" if "es @ fs = us @ ev # vs" for us ev vs
      using allowed_append [where es = es and fs = fs and G = G and t = t, OF _ _ that] es fs(2) by auto
    then show ?thesis using fs(1) es(1) C by auto
  qed
qed

lemma runs_conseq:
  "runs A' G' m B' \<Longrightarrow> (\<And>t. A t \<Longrightarrow> A' t) \<Longrightarrow> (\<And>t ev. G' t ev \<Longrightarrow> G t ev)
     \<Longrightarrow> (\<And>x t. B' x t \<Longrightarrow> B x t) \<Longrightarrow> runs A G m B"
  unfolding runs_def by (metis (no_types, lifting))

lemma runs_pre: "runs A' G m B \<Longrightarrow> (\<And>t. A t \<Longrightarrow> A' t) \<Longrightarrow> runs A G m B"
  by (rule runs_conseq)

lemma runs_post: "runs A G m B' \<Longrightarrow> (\<And>x t. B' x t \<Longrightarrow> B x t) \<Longrightarrow> runs A G m B"
  by (rule runs_conseq)

text \<open>The strongest result: the answer of the operation itself.\<close>

lemma runs_result:
  "runs A G m (\<lambda>_ _. True) \<Longrightarrow> runs A G m (\<lambda>x t'. \<exists>t. A t \<and> m t = (Inr x, t'))"
  unfolding runs_def by blast

lemma runs_when:
  "(b \<Longrightarrow> runs A G m (\<lambda>x. B (Some x))) \<Longrightarrow> (\<And>t. \<not> b \<Longrightarrow> A t \<Longrightarrow> B None t) \<Longrightarrow> runs A G (when_act b m) B"
  unfolding when_act_def by (auto intro: runs_then runs_return)

lemma runs_each:
  "(\<And>x. x \<in> set xs \<Longrightarrow> runs (\<lambda>_. True) G (f x) (\<lambda>_ _. True)) \<Longrightarrow>
     runs (\<lambda>_. True) G (each_act f xs) (\<lambda>_ _. True)"
  by (induction xs) (auto intro!: runs_return runs_then [where B = "\<lambda>_ _. True"])

lemma runs_if:
  "(b \<Longrightarrow> runs A G m B) \<Longrightarrow> (\<not> b \<Longrightarrow> runs A G n B) \<Longrightarrow> runs A G (if b then m else n) B"
  by simp

lemma runs_mono: "runs A G m B \<Longrightarrow> (\<And>t ev. G t ev \<Longrightarrow> G' t ev) \<Longrightarrow> runs A G' m B"
  by (rule runs_conseq)

lemma runs_trace: "runs A G m B \<Longrightarrow> A t \<Longrightarrow> m t = (r, t') \<Longrightarrow> \<exists>es. t' = t @ es"
  unfolding runs_def by blast

end
