(* ===== verification/JsJson.thy ===== *)
theory JsJson
  imports JsConvert "HOL-Library.Multiset"
begin

text \<open>
  \<^verbatim>\<open>JSON.stringify\<close> of a value, and the canonical form under which the replay code compares
  values (\<^verbatim>\<open>canonicalizeJsonForFingerprint\<close> in src/memory/replay-compile-helpers.ts): members
  in the order of their names.
\<close>

section \<open>The text of a value\<close>

definition hex_digit :: "nat \<Rightarrow> char" where
  "hex_digit d = (if d < 10 then char_of (48 + d) else char_of (87 + d))"

definition json_char :: "char \<Rightarrow> string" where
  "json_char c =
     (if c = CHR 0x22 then [CHR 0x5C, CHR 0x22]
      else if c = CHR 0x5C then [CHR 0x5C, CHR 0x5C]
      else if code c = 8 then [CHR 0x5C, CHR ''b'']
      else if code c = 9 then [CHR 0x5C, CHR ''t'']
      else if code c = 10 then [CHR 0x5C, CHR ''n'']
      else if code c = 12 then [CHR 0x5C, CHR ''f'']
      else if code c = 13 then [CHR 0x5C, CHR ''r'']
      else if code c < 32 then CHR 0x5C # ''u00'' @ [hex_digit (code c div 16), hex_digit (code c mod 16)]
      else [c])"

definition json_quote :: "string \<Rightarrow> string" where
  "json_quote s = CHR 0x22 # concat (map json_char s) @ [CHR 0x22]"

text \<open>A function has no text: it is null in an array and left out of an object.\<close>

fun json_text :: "jv \<Rightarrow> string option" where
  "json_text JNull = Some ''null''"
| "json_text (JBool b) = Some (if b then ''true'' else ''false'')"
| "json_text (JNum x) = Some (if is_finite x then num_text x else ''null'')"
| "json_text (JStr s) = Some (json_quote s)"
| "json_text (JArr vs) =
     Some (''['' @ js_join '','' (map (\<lambda>v. case json_text v of Some s \<Rightarrow> s | None \<Rightarrow> ''null'') vs) @ '']'')"
| "json_text (JObj ob) =
     Some (CHR 0x7B # js_join '',''
       (concat (map (\<lambda>e. case json_text (snd e) of Some s \<Rightarrow> [json_quote (fst e) @ '':'' @ s] | None \<Rightarrow> []) ob))
       @ [CHR 0x7D])"
| "json_text (JHost k) = (if k = ''__proto__'' then Some [CHR 0x7B, CHR 0x7D] else None)"

section \<open>Canonical values\<close>

fun canonicalizeJsonForFingerprint :: "jv \<Rightarrow> jv" where
  "canonicalizeJsonForFingerprint (JArr vs) = JArr (map canonicalizeJsonForFingerprint vs)"
| "canonicalizeJsonForFingerprint (JObj ob) =
     JObj (foldl (\<lambda>out e. obj_assign (fst e) (snd e) out) []
            (sort_key fst (map (\<lambda>e. (fst e, canonicalizeJsonForFingerprint (snd e))) ob)))"
| "canonicalizeJsonForFingerprint v = (if is_plain_object v then JObj [] else v)"

definition stableJsonForFingerprint :: "jv \<Rightarrow> string" where
  "stableJsonForFingerprint v = (case json_text (canonicalizeJsonForFingerprint v) of Some s \<Rightarrow> s | None \<Rightarrow> [])"

text \<open>Two objects with the same members in another order have the same text.\<close>

lemma sort_key_fst_perm:
  fixes xs ys :: "('k :: linorder \<times> 'v) list"
  assumes "distinct (map fst xs)" "distinct (map fst ys)" "set xs = set ys"
  shows "sort_key fst xs = sort_key fst ys"
proof -
  have "inj_on fst (set xs)"
    using assms(1) by (simp add: distinct_map)
  moreover have "distinct xs" "distinct ys"
    using assms(1,2) by (simp_all add: distinct_map)
  then have "mset xs = mset ys"
    using assms(3) by (simp add: set_eq_iff_mset_eq_distinct)
  ultimately show ?thesis
    by (intro sort_key_inj_key_eq) auto
qed

lemma stable_text_reordered:
  assumes "distinct (keys xs)" "distinct (keys ys)" "set xs = set ys"
  shows "stableJsonForFingerprint (JObj xs) = stableJsonForFingerprint (JObj ys)"
proof -
  let ?c = "\<lambda>ob. map (\<lambda>e. (fst e, canonicalizeJsonForFingerprint (snd e))) ob"
  have keys: "map fst (?c ob) = keys ob" for ob
    by simp
  have "sort_key fst (?c xs) = sort_key fst (?c ys)"
    by (rule sort_key_fst_perm) (use assms in \<open>simp_all add: keys comp_def\<close>)
  then show ?thesis
    by (simp only: stableJsonForFingerprint_def canonicalizeJsonForFingerprint.simps)
qed

end
