(* ===== verification/ToolResultSummary.thy ===== *)
theory ToolResultSummary
  imports JsJson
begin

text \<open>
  Summaries of tool results, src/memory/tool-result-summary.ts: previews of bounded length and
  signals.  A value that may be undefined is a \<open>jv option\<close>.
\<close>

definition PREVIEW_MAX_CHARS :: nat where "PREVIEW_MAX_CHARS = 240"
definition RESULT_KEYS_MAX :: nat where "RESULT_KEYS_MAX = 8"
definition SIGNALS_MAX :: nat where "SIGNALS_MAX = 8"

text \<open>\<^verbatim>\<open>/\s+/g\<close> replaced by a space.\<close>

fun collapse_ws :: "string \<Rightarrow> string" where
  "collapse_ws [] = []"
| "collapse_ws (c # s) =
     (if is_ws c then (case s of d # _ \<Rightarrow> if is_ws d then collapse_ws s else CHR '' '' # collapse_ws s
                               | [] \<Rightarrow> '' '')
      else c # collapse_ws s)"

definition compactText :: "jv option \<Rightarrow> string" where
  "compactText v = (case v of Some (JStr s) \<Rightarrow> js_trim (collapse_ws s) | _ \<Rightarrow> [])"

definition js_trim_end :: "string \<Rightarrow> string" where
  "js_trim_end s = rev (dropWhile is_ws (rev s))"

definition truncateText :: "string \<Rightarrow> nat \<Rightarrow> string" where
  "truncateText s maxChars =
     (if length s \<le> maxChars then s else js_trim_end (take (maxChars - 1) s) @ ''...'')"

definition summarizePreview :: "string \<Rightarrow> string" where
  "summarizePreview s = truncateText (compactText (Some (JStr s))) PREVIEW_MAX_CHARS"

definition classifyResultKind :: "jv option \<Rightarrow> string" where
  "classifyResultKind v =
     (case v of
        None \<Rightarrow> ''none''
      | Some JNull \<Rightarrow> ''null''
      | Some (JArr _) \<Rightarrow> ''array''
      | Some u \<Rightarrow> if is_plain_object u then ''object'' else ''scalar'')"

text \<open>\<open>fuel\<close> is two minus the depth.\<close>

fun pruneResultValue :: "nat \<Rightarrow> jv \<Rightarrow> jv" where
  "pruneResultValue left JNull = JNull"
| "pruneResultValue left (JStr s) = JStr (truncateText (compactText (Some (JStr s))) 120)"
| "pruneResultValue left (JNum x) = JNum x"
| "pruneResultValue left (JBool b) = JBool b"
| "pruneResultValue 0 (JArr vs) = JStr (''[array('' @ dec_nat (length vs) @ '')]'')"
| "pruneResultValue 0 v = JStr ''[object]''"
| "pruneResultValue (Suc left) (JArr vs) = JArr (map (pruneResultValue left) (take 3 vs))"
| "pruneResultValue (Suc left) (JObj ob) =
     JObj (foldl (\<lambda>out e. obj_assign (fst e) (pruneResultValue left (snd e)) out) []
            (take 5 (sort_key fst ob)))"
| "pruneResultValue (Suc left) (JHost k) = (if k = ''__proto__'' then JObj [] else JStr (js_string (JHost k)))"

definition buildResultPreview :: "jv option \<Rightarrow> string option" where
  "buildResultPreview v =
     (case v of
        None \<Rightarrow> None
      | Some u \<Rightarrow> map_option (\<lambda>s. truncateText s PREVIEW_MAX_CHARS) (json_text (pruneResultValue 2 u)))"

definition listResultKeys :: "jv option \<Rightarrow> string list" where
  "listResultKeys v = (case v of Some (JObj ob) \<Rightarrow> take RESULT_KEYS_MAX (sort (map fst ob)) | _ \<Rightarrow> [])"

record tool_result =
  tr_stdout :: string
  tr_stderr :: string
  tr_result :: "jv option"
  tr_exit_code :: "jsnum option"
  tr_error :: "string option"
  tr_truncated :: bool

definition result_signals :: "tool_result \<Rightarrow> string list" where
  "result_signals r =
     (let kind = classifyResultKind (tr_result r);
          errorText = compactText (map_option JStr (tr_error r));
          sig = (\<lambda>b name. if b then [name] else ([] :: string list))
      in sig (js_trim (tr_stderr r) \<noteq> []) ''stderr_present''
         @ sig (\<exists>x \<in> set_option (tr_exit_code r). is_finite x \<and> x \<noteq> Fin 0) ''nonzero_exit''
         @ sig (errorText \<noteq> []) ''execution_error''
         @ sig (tr_truncated r) ''output_truncated''
         @ sig (kind = ''object'') ''structured_result_object''
         @ sig (kind = ''array'') ''structured_result_array''
         @ sig (1024 < length (tr_stdout r)) ''stdout_large''
         @ sig (1024 < length (tr_stderr r)) ''stderr_large'')"

definition finite_or_null :: "jsnum option \<Rightarrow> jv" where
  "finite_or_null x = (case x of Some n \<Rightarrow> if is_finite n then JNum n else JNull | None \<Rightarrow> JNull)"

definition summarizeToolResult :: "tool_result \<Rightarrow> jv" where
  "summarizeToolResult r =
     (let errorText = compactText (map_option JStr (tr_error r))
      in JObj [(''summary_version'', JStr ''tool_result_summary_v1''),
               (''stdout_preview'', JStr (summarizePreview (tr_stdout r))),
               (''stderr_preview'', JStr (summarizePreview (tr_stderr r))),
               (''stdout_chars'', JNum (js_nat (length (tr_stdout r)))),
               (''stderr_chars'', JNum (js_nat (length (tr_stderr r)))),
               (''result_kind'', JStr (classifyResultKind (tr_result r))),
               (''result_keys'', JArr (map JStr (listResultKeys (tr_result r)))),
               (''result_preview'', (case buildResultPreview (tr_result r) of Some s \<Rightarrow> JStr s | None \<Rightarrow> JNull)),
               (''exit_code'', finite_or_null (tr_exit_code r)),
               (''error'', if errorText = [] then JNull else JStr errorText),
               (''truncated'', JBool (tr_truncated r)),
               (''signals'', JArr (map JStr (take SIGNALS_MAX (result_signals r))))])"

text \<open>A preview is at most three characters longer than its bound, and no run of spaces is left.\<close>

lemma length_js_trim_end: "length (js_trim_end s) \<le> length s"
  unfolding js_trim_end_def using length_dropWhile_le [of is_ws "rev s"] by simp

lemma length_truncateText: "0 < m \<Longrightarrow> length (truncateText s m) \<le> m + 2"
  using length_js_trim_end [of "take (m - 1) s"] by (auto simp: truncateText_def)

lemma length_summarizePreview: "length (summarizePreview s) \<le> 242"
  using length_truncateText [of PREVIEW_MAX_CHARS] by (simp add: summarizePreview_def PREVIEW_MAX_CHARS_def)

end
