(* ===== verification/ReplayChecks.thy ===== *)
theory ReplayChecks
  imports ReplayWorld ToolResultSummary
begin

text \<open>
  The checks around a command and its execution, src/memory/replay-execution-helpers.ts:
  preconditions, the local process or the sandbox, the expected signature, postconditions.
\<close>

section \<open>Preconditions\<close>

datatype check_state = CheckPass | CheckFail | CheckUnknown

fun check_state_name :: "check_state \<Rightarrow> string" where
  "check_state_name CheckPass = ''pass''"
| "check_state_name CheckFail = ''fail''"
| "check_state_name CheckUnknown = ''unknown''"

record precondition_result =
  pr_kind :: string
  pr_state :: check_state
  pr_ok :: bool
  pr_message :: string
  pr_input :: jv

definition checked :: "string \<Rightarrow> bool \<Rightarrow> string \<Rightarrow> string \<Rightarrow> jv \<Rightarrow> precondition_result" where
  "checked kind b yes no obj =
     \<lparr>pr_kind = kind, pr_state = (if b then CheckPass else CheckFail), pr_ok = b,
      pr_message = (if b then yes else no), pr_input = obj\<rparr>"

definition unknown_check :: "string \<Rightarrow> string \<Rightarrow> jv \<Rightarrow> precondition_result" where
  "unknown_check kind msg obj =
     \<lparr>pr_kind = kind, pr_state = CheckUnknown, pr_ok = False, pr_message = msg, pr_input = obj\<rparr>"

definition check_kind :: "jv \<Rightarrow> string" where
  "check_kind obj = (case toStringOrNull (js_get obj ''kind'') of Some k \<Rightarrow> k | None \<Rightarrow> ''unknown'')"

definition valid_port :: "jsnum \<Rightarrow> bool" where
  "valid_port x \<longleftrightarrow> (case x of Fin q \<Rightarrow> q = of_int \<lfloor>q\<rfloor> \<and> 0 < q \<and> q \<le> 65535 | _ \<Rightarrow> False)"

definition evaluatePrecondition :: "replay_world \<Rightarrow> jv \<Rightarrow> precondition_result io" where
  "evaluatePrecondition W raw =
     (let obj = object_or_empty (Some raw);
          kind = check_kind obj;
          text = (\<lambda>k. toStringOrNull (js_get obj k));
          unknown = (\<lambda>msg. return_act (unknown_check kind msg obj))
      in if kind = ''always'' then
           return_act (checked kind (js_get obj ''value'' \<noteq> Some (JBool False)) ''always=true'' ''always=false'' obj)
         else if kind = ''file_exists'' then
           (case text ''path'' of
              None \<Rightarrow> unknown ''path is required''
            | Some path \<Rightarrow> ask (Probed (ProbeFile path)) (\<lambda>t.
                checked kind (w_file W t path) (''file exists: '' @ path) (''file missing: '' @ path) obj))
         else if kind = ''path_not_exists'' then
           (case text ''path'' of
              None \<Rightarrow> unknown ''path is required''
            | Some path \<Rightarrow> ask (Probed (ProbeFile path)) (\<lambda>t.
                checked kind (\<not> w_file W t path) (''path absent: '' @ path) (''path exists: '' @ path) obj))
         else if kind = ''command_available'' then
           (case text ''command'' of
              None \<Rightarrow> unknown ''command is required''
            | Some command \<Rightarrow>
                if \<not> isSafeCommandName command then unknown ''command contains unsafe characters''
                else ask (Probed (ProbeWhich command)) (\<lambda>t.
                  checked kind (w_which W t command = Some 0)
                    (''command available: '' @ command) (''command missing: '' @ command) obj))
         else if kind = ''env_exists'' then
           (case text ''name'' of
              None \<Rightarrow> unknown ''name is required''
            | Some name \<Rightarrow> ask (Probed (ProbeVariable name)) (\<lambda>t.
                checked kind (\<exists>v \<in> set_option (w_variable W t name). js_trim v \<noteq> [])
                  (''env exists: '' @ name) (''env missing: '' @ name) obj))
         else if kind = ''env_equals'' then
           (case (text ''name'', text ''value'') of
              (Some name, Some value) \<Rightarrow> ask (Probed (ProbeVariable name)) (\<lambda>t.
                checked kind ((case w_variable W t name of Some v \<Rightarrow> v | None \<Rightarrow> []) = value)
                  (''env matched: '' @ name) (''env mismatch: '' @ name) obj)
            | _ \<Rightarrow> unknown ''name/value are required'')
         else if kind = ''port_free'' then
           (let port = js_Number (js_get obj ''port'');
                host = (case text ''host'' of Some h \<Rightarrow> h | None \<Rightarrow> ''127.0.0.1'');
                place = host @ '':'' @ num_text port
            in if \<not> valid_port port then unknown ''valid port is required''
               else ask (Probed (ProbePort host port)) (\<lambda>t.
                 checked kind (w_port_free W t host port) (''port free: '' @ place) (''port occupied: '' @ place) obj))
         else if kind = ''cwd_contains'' then
           ask (Probed ProbeDirectory) (\<lambda>t.
             (case (w_directory W t, text ''token'') of
                (Inl err, _) \<Rightarrow> unknown_check kind (''precondition evaluation error: '' @ err) obj
              | (Inr _, None) \<Rightarrow> unknown_check kind ''token is required'' obj
              | (Inr cwd, Some token) \<Rightarrow>
                  checked kind (js_includes cwd token) (''cwd contains token: '' @ token) (''cwd missing token: '' @ token) obj))
         else unknown (''unsupported precondition kind: '' @ kind))"

text \<open>\<^verbatim>\<open>clampInt\<close>.\<close>

definition clampInt :: "jsnum \<Rightarrow> int \<Rightarrow> int \<Rightarrow> int" where
  "clampInt value lo hi =
     (case num_trunc value of Fin q \<Rightarrow> max lo (min hi \<lfloor>q\<rfloor>) | _ \<Rightarrow> lo)"

section \<open>Running a command\<close>

datatype outcome_status = OutSuccess | OutFailed | OutTimeout

fun outcome_status_name :: "outcome_status \<Rightarrow> string" where
  "outcome_status_name OutSuccess = ''success''"
| "outcome_status_name OutFailed = ''failed''"
| "outcome_status_name OutTimeout = ''timeout''"

record command_outcome =
  co_ok :: bool
  co_status :: outcome_status
  co_command :: string
  co_argv :: "string list"
  co_stdout :: string
  co_stderr :: string
  co_exit_code :: "jsnum option"
  co_duration_ms :: int
  co_timed_out :: bool
  co_error :: "string option"

definition failed_command :: "string \<Rightarrow> string list \<Rightarrow> int \<Rightarrow> string \<Rightarrow> command_outcome" where
  "failed_command command argv duration err =
     \<lparr>co_ok = False, co_status = OutFailed, co_command = command, co_argv = argv, co_stdout = [], co_stderr = [],
      co_exit_code = None, co_duration_ms = duration, co_timed_out = False, co_error = Some err\<rparr>"

definition finite_code :: "jsnum option \<Rightarrow> jsnum option" where
  "finite_code x = (case x of Some n \<Rightarrow> if is_finite n then Some n else None | None \<Rightarrow> None)"

definition spawned_outcome :: "string \<Rightarrow> string list \<Rightarrow> int \<Rightarrow> spawn_answer \<Rightarrow> command_outcome" where
  "spawned_outcome command argv duration out =
     (let timedOut = (\<exists>e \<in> set_option (sp_error out). js_lower (fst e) = ''etimedout'');
          exitCode = finite_code (sp_status out);
          err = map_option snd (sp_error out);
          status = (if timedOut then OutTimeout
                    else if exitCode = Some (Fin 0) \<and> (err = None \<or> err = Some []) then OutSuccess
                    else OutFailed)
      in \<lparr>co_ok = (status = OutSuccess), co_status = status, co_command = command, co_argv = argv,
          co_stdout = sp_stdout out, co_stderr = sp_stderr out, co_exit_code = exitCode,
          co_duration_ms = duration, co_timed_out = timedOut, co_error = err\<rparr>)"

definition runLocalCommand ::
  "replay_world \<Rightarrow> string list \<Rightarrow> string \<Rightarrow> int \<Rightarrow> int \<Rightarrow> command_outcome io" where
  "runLocalCommand W argv cwd timeoutMs stdioMaxBytes =
     (let command = command_of argv
      in if command = [] then return_act (failed_command command argv 0 ''invalid_command_argv'')
         else (let call = \<lparr>lc_argv = command # tl argv, lc_cwd = cwd, lc_timeout = max 100 timeoutMs,
                          lc_maxBuffer = max 1024 stdioMaxBytes\<rparr>
               in ask (Spawned call) (\<lambda>t.
                    let duration = max 0 (w_elapsed W t)
                    in case w_spawn W t call of
                         Inl err \<Rightarrow> failed_command command argv duration err
                       | Inr out \<Rightarrow> spawned_outcome command argv duration out)))"

definition sandboxResultToOutcome :: "sandbox_answer \<Rightarrow> string list \<Rightarrow> int \<Rightarrow> command_outcome" where
  "sandboxResultToOutcome inp argv durationMs =
     (let status = (if sa_status inp = ''succeeded'' \<or> sa_ok inp then OutSuccess
                    else if sa_status inp = ''timeout'' then OutTimeout else OutFailed)
      in \<lparr>co_ok = (status = OutSuccess), co_status = status, co_command = command_of argv, co_argv = argv,
          co_stdout = sa_stdout inp, co_stderr = sa_stderr inp, co_exit_code = finite_code (sa_exit_code inp),
          co_duration_ms = max 0 durationMs, co_timed_out = (status = OutTimeout),
          co_error = (if sa_error inp = Some [] then None else sa_error inp)\<rparr>)"

record command_result =
  xr_outcome :: "command_outcome option"
  xr_pending :: bool
  xr_backend :: replay_backend
  xr_sandbox_run_id :: "string option"
  xr_raw_status :: "string option"
  xr_raw_error :: "string option"

definition trimmed_or_null :: "string option \<Rightarrow> string option" where
  "trimmed_or_null s = toStringOrNull (map_option JStr s)"

definition sandbox_result :: "replay_backend \<Rightarrow> string list \<Rightarrow> int \<Rightarrow> sandbox_answer \<Rightarrow> command_result" where
  "sandbox_result backend argv elapsed out =
     (let rawStatus = (case trimmed_or_null (Some (sa_status out)) of Some s \<Rightarrow> s | None \<Rightarrow> ''unknown'');
          pending = (backend = SandboxAsync \<or> rawStatus = ''queued'' \<or> rawStatus = ''running'')
      in \<lparr>xr_outcome = (if pending then None
                        else Some (sandboxResultToOutcome (out\<lparr>sa_status := rawStatus\<rparr>) argv elapsed)),
          xr_pending = pending, xr_backend = backend, xr_sandbox_run_id = trimmed_or_null (sa_run_id out),
          xr_raw_status = Some rawStatus, xr_raw_error = trimmed_or_null (sa_error out)\<rparr>)"

record command_request =
  cr_backend :: replay_backend
  cr_tenant_id :: string
  cr_scope :: string
  cr_project_id :: "string option"
  cr_argv :: "string list"
  cr_timeout_ms :: int
  cr_cwd :: string
  cr_stdioMaxBytes :: int
  cr_sandbox_available :: bool

definition executeReplayCommand :: "replay_world \<Rightarrow> command_request \<Rightarrow> command_result io" where
  "executeReplayCommand W a =
     (if cr_backend a = LocalProcess then
        then_do (runLocalCommand W (cr_argv a) (cr_cwd a) (cr_timeout_ms a) (cr_stdioMaxBytes a)) (\<lambda>out.
          return_act \<lparr>xr_outcome = Some out, xr_pending = False, xr_backend = LocalProcess,
                      xr_sandbox_run_id = None, xr_raw_status = Some (outcome_status_name (co_status out)),
                      xr_raw_error = co_error out\<rparr>)
      else if \<not> cr_sandbox_available a then
        http_fail 400 ''replay_sandbox_executor_not_enabled''
          ''sandbox execution backend is requested but sandbox executor is not configured''
          (Some [(''backend'', JStr (backend_name (cr_backend a)))])
      else (let call = \<lparr>sc_tenant_id = cr_tenant_id a, sc_scope = cr_scope a, sc_project_id = cr_project_id a,
                       sc_argv = cr_argv a, sc_timeout_ms = cr_timeout_ms a, sc_backend = cr_backend a\<rparr>
            in attempt (Sandboxed call) (\<lambda>t.
                 case w_sandbox W t call of
                   Inl e \<Rightarrow> Inl e
                 | Inr out \<Rightarrow> Inr (sandbox_result (cr_backend a) (cr_argv a) (w_elapsed W t) out))))"

section \<open>Signature and postconditions\<close>

record signature_check =
  sg_check :: string
  sg_ok :: bool
  sg_message :: string

definition code_text :: "jsnum option \<Rightarrow> string" where
  "code_text x = (case x of Some n \<Rightarrow> num_text n | None \<Rightarrow> ''null'')"

definition quoted :: "string \<Rightarrow> string" where
  "quoted s = CHR 0x27 # s @ [CHR 0x27]"

definition code_matches :: "jsnum \<Rightarrow> command_outcome \<Rightarrow> bool" where
  "code_matches expected outcome \<longleftrightarrow> is_finite expected \<and> co_exit_code outcome = Some (num_trunc expected)"

definition tokens_of :: "jv \<Rightarrow> string list" where
  "tokens_of v = (if js_is_array v then asStringArray (Some v) else asStringArray (Some (JArr [v])))"

definition contains_check :: "string \<Rightarrow> string \<Rightarrow> string \<Rightarrow> string \<Rightarrow> signature_check" where
  "contains_check check stream text token =
     \<lparr>sg_check = check, sg_ok = js_includes text token,
      sg_message = stream @ (if js_includes text token then '' contains '' else '' missing '') @ quoted token\<rparr>"

definition exit_code_checks :: "jv \<Rightarrow> command_outcome \<Rightarrow> signature_check list" where
  "exit_code_checks spec outcome =
     (case js_get spec ''exit_code'' of
        None \<Rightarrow> []
      | Some v \<Rightarrow>
          (let expected = js_to_number v; good = code_matches expected outcome;
               shown = num_text (num_trunc expected)
           in [\<lparr>sg_check = ''exit_code'', sg_ok = good,
                sg_message = (if good then ''exit_code matched ('' @ shown @ '')''
                              else ''exit_code mismatch (expected='' @ shown @ '', actual=''
                                   @ code_text (co_exit_code outcome) @ '')'')\<rparr>]))"

definition output_checks :: "jv \<Rightarrow> string \<Rightarrow> string \<Rightarrow> string \<Rightarrow> signature_check list" where
  "output_checks spec check stream text =
     (case js_get spec check of
        None \<Rightarrow> []
      | Some v \<Rightarrow> map (contains_check check stream text) (tokens_of v))"

definition regex_checks :: "replay_world \<Rightarrow> jv \<Rightarrow> command_outcome \<Rightarrow> signature_check list" where
  "regex_checks W spec outcome =
     (case js_get spec ''output_regex'' of
        None \<Rightarrow> []
      | Some v \<Rightarrow>
          (case toStringOrNull (Some v) of
             None \<Rightarrow> [\<lparr>sg_check = ''output_regex'', sg_ok = False, sg_message = ''output_regex is empty''\<rparr>]
           | Some raw \<Rightarrow>
               (case w_regex W raw (co_stdout outcome @ newline # co_stderr outcome) of
                  None \<Rightarrow> [\<lparr>sg_check = ''output_regex'', sg_ok = False, sg_message = ''output_regex is invalid''\<rparr>]
                | Some b \<Rightarrow> [\<lparr>sg_check = ''output_regex'', sg_ok = b,
                              sg_message = (if b then ''output_regex matched /'' else ''output_regex not matched /'')
                                           @ raw @ ''/''\<rparr>])))"

record signature_evaluation =
  se_ok :: bool
  se_checks :: "signature_check list"

definition evaluateExpectedSignature :: "replay_world \<Rightarrow> jv option \<Rightarrow> command_outcome \<Rightarrow> signature_evaluation" where
  "evaluateExpectedSignature W expected outcome =
     (case asObject expected of
        None \<Rightarrow> \<lparr>se_ok = True, se_checks = []\<rparr>
      | Some spec \<Rightarrow>
          (let checks = exit_code_checks spec outcome
                 @ output_checks spec ''stdout_contains'' ''stdout'' (co_stdout outcome)
                 @ output_checks spec ''stderr_contains'' ''stderr'' (co_stderr outcome)
                 @ regex_checks W spec outcome
           in \<lparr>se_ok = list_all sg_ok checks, se_checks = checks\<rparr>))"

definition evaluatePostcondition :: "replay_world \<Rightarrow> jv \<Rightarrow> command_outcome \<Rightarrow> precondition_result io" where
  "evaluatePostcondition W raw outcome =
     (let obj = object_or_empty (Some raw);
          kind = check_kind obj;
          contains = (\<lambda>stream text.
            (case toStringOrNull (js_get obj ''value'') of
               None \<Rightarrow> unknown_check kind (''postcondition '' @ kind @ '' requires value'') obj
             | Some token \<Rightarrow> checked kind (js_includes text token)
                 (stream @ '' contains '' @ quoted token) (stream @ '' missing '' @ quoted token) obj))
      in if kind = ''exit_code'' then
           (let expected = js_Number (js_get obj ''value''); shown = num_text (num_trunc expected)
            in return_act
                 (if \<not> is_finite expected
                  then unknown_check kind ''postcondition exit_code requires numeric value'' obj
                  else checked kind (code_matches expected outcome)
                    (''postcondition exit_code matched ('' @ shown @ '')'')
                    (''postcondition exit_code mismatch (expected='' @ shown @ '', actual=''
                     @ code_text (co_exit_code outcome) @ '')'') obj))
         else if kind = ''stdout_contains'' then return_act (contains ''stdout'' (co_stdout outcome))
         else if kind = ''stderr_contains'' then return_act (contains ''stderr'' (co_stderr outcome))
         else evaluatePrecondition W raw)"

section \<open>What the checks call\<close>

lemmas runs_intros = runs_return runs_http_fail runs_ask runs_attempt

text \<open>Checks only probe.\<close>

definition only_probes :: "trace \<Rightarrow> replay_event \<Rightarrow> bool" where
  "only_probes t ev \<longleftrightarrow> (case ev of Probed _ \<Rightarrow> True | _ \<Rightarrow> False)"

lemma only_probes_simps [simp]:
  "only_probes t (Probed p)" "\<not> only_probes t (Spawned c)" "\<not> only_probes t (Sandboxed s)"
  by (simp_all add: only_probes_def)

text \<open>A check is ok exactly when its state is \<open>pass\<close>.\<close>

definition sound_check :: "precondition_result \<Rightarrow> bool" where
  "sound_check x \<longleftrightarrow> pr_ok x = (pr_state x = CheckPass)"

lemma sound_check_simps [simp]: "sound_check (checked k b y n ob)" "sound_check (unknown_check k m ob)"
  by (simp_all add: sound_check_def checked_def unknown_check_def)

lemma evaluatePrecondition_sound:
  "runs A only_probes (evaluatePrecondition W raw) (\<lambda>x _. sound_check x)"
  unfolding evaluatePrecondition_def Let_def
  by (simp add: runs_simps split: option.split sum.split)

lemma evaluatePostcondition_sound:
  "runs A only_probes (evaluatePostcondition W raw out) (\<lambda>x _. sound_check x)"
  unfolding evaluatePostcondition_def Let_def
  by (simp add: runs_simps evaluatePrecondition_sound split: option.split)

lemma sandboxResultToOutcome_ok:
  "co_ok (sandboxResultToOutcome out argv d) \<longleftrightarrow> sa_status out = ''succeeded'' \<or> sa_ok out"
  by (simp add: sandboxResultToOutcome_def Let_def)

end
