(* ===== verification/ReplayRepair.thy ===== *)
theory ReplayRepair
  imports ReplayChecks
begin

text \<open>
  The repair a guided replay proposes for a step it cannot run, src/memory/replay-guided-repair.ts:
  remove the step, patch it by a heuristic, or ask a service or a language model for a patch.
  An undefined member of an object is left out.  The prompt of the model is not text here but the
  value it is made from.
\<close>

section \<open>Members\<close>

definition text_or_null :: "string option \<Rightarrow> jv" where
  "text_or_null v = (case v of Some s \<Rightarrow> JStr s | None \<Rightarrow> JNull)"

definition num_or_null :: "jsnum option \<Rightarrow> jv" where
  "num_or_null v = (case v of Some x \<Rightarrow> JNum x | None \<Rightarrow> JNull)"

definition texts :: "string list \<Rightarrow> jv" where
  "texts xs = JArr (map JStr xs)"

definition opt_member :: "string \<Rightarrow> jv option \<Rightarrow> jobj" where
  "opt_member k v = (case v of Some u \<Rightarrow> [(k, u)] | None \<Rightarrow> [])"

definition json_int :: "int \<Rightarrow> jv" where
  "json_int n = JNum (to_num (of_int n))"

text \<open>The spread of an object, and a member set on it.\<close>

definition spread_members :: "jv \<Rightarrow> jobj" where
  "spread_members v = (case plain_members v of Some ob \<Rightarrow> ob | None \<Rightarrow> [])"

definition with_members :: "jv \<Rightarrow> jobj \<Rightarrow> jv" where
  "with_members v ms = JObj (foldl (\<lambda>ob e. obj_set (fst e) (snd e) ob) (spread_members v) ms)"

section \<open>Searching an answer for an object\<close>

fun find_sub :: "string \<Rightarrow> string \<Rightarrow> (string \<times> string) option" where
  "find_sub p [] = (if p = [] then Some ([], []) else None)"
| "find_sub p (c # s) =
     (if js_starts_with (c # s) p then Some ([], drop (length p) (c # s))
      else map_option (\<lambda>(a, b). (c # a, b)) (find_sub p s))"

definition fence :: string where
  "fence = [CHR 0x60, CHR 0x60, CHR 0x60]"

text \<open>The first group of \<^verbatim>\<open>/```(?:json)?\s*([\s\S]*?)```/i\<close>.\<close>

definition fenced_text :: "string \<Rightarrow> string option" where
  "fenced_text text =
     (case find_sub fence text of
        None \<Rightarrow> None
      | Some (_, r) \<Rightarrow>
          map_option fst (find_sub fence
            (dropWhile is_ws (if js_lower (take 4 r) = ''json'' then drop 4 r else r))))"

definition braced_text :: "string \<Rightarrow> string option" where
  "braced_text text =
     (let r = dropWhile (\<lambda>c. c \<noteq> CHR 0x7B) text; b = dropWhile (\<lambda>c. c \<noteq> CHR 0x7D) (rev r)
      in if 2 \<le> length b then Some (rev b) else None)"

definition extractJsonObjectFromText :: "(string \<Rightarrow> jv option) \<Rightarrow> string \<Rightarrow> jv option" where
  "extractJsonObjectFromText parse raw =
     (let text = js_trim raw
      in if text = [] then None
         else (case parse text of
           Some v \<Rightarrow> asObject (Some v)
         | None \<Rightarrow>
             (case Option.bind (fenced_text text) (\<lambda>f. if f = [] then None else parse (js_trim f)) of
                Some v \<Rightarrow> asObject (Some v)
              | None \<Rightarrow> asObject (Option.bind (braced_text text) parse))))"

definition extractChatCompletionText :: "jv \<Rightarrow> string option" where
  "extractChatCompletionText payload =
     (case asObject (Some payload) of
        None \<Rightarrow> None
      | Some body \<Rightarrow>
          (case asObject (case array_or_empty (js_get body ''choices'') of [] \<Rightarrow> None | v # _ \<Rightarrow> Some v) of
             None \<Rightarrow> None
           | Some first \<Rightarrow>
               (case asObject (js_get first ''message'') of
                  None \<Rightarrow> None
                | Some msg \<Rightarrow>
                    (case js_get msg ''content'' of
                       Some (JStr s) \<Rightarrow> Some s
                     | Some (JArr items) \<Rightarrow>
                         (let fragments = List.map_filter
                                (\<lambda>item. case asObject (Some item) of
                                           Some ob \<Rightarrow> toStringOrNull (js_get ob ''text'') | None \<Rightarrow> None) items
                          in if fragments = [] then None else Some (js_join [newline] fragments))
                     | _ \<Rightarrow> None))))"

definition looksLikeReplayPatchObject :: "jv \<Rightarrow> bool" where
  "looksLikeReplayPatchObject ob \<longleftrightarrow>
     (\<exists>k \<in> {''steps_override'', ''remove_step_indices'', ''step_patches''}.
        \<exists>v \<in> set_option (js_get ob k). js_is_array v)
     \<or> asObject (js_get ob ''matchers'') \<noteq> None
     \<or> asObject (js_get ob ''success_criteria'') \<noteq> None
     \<or> toStringOrNull (js_get ob ''risk_profile'') \<in> {Some ''low'', Some ''medium'', Some ''high''}
     \<or> asObject (js_get ob ''policy_constraints'') \<noteq> None"

section \<open>Settings and input\<close>

datatype repair_strategy = DeterministicSkip | HeuristicPatch | HttpSynth | BuiltinLlm

fun strategy_name :: "repair_strategy \<Rightarrow> string" where
  "strategy_name DeterministicSkip = ''deterministic_skip''"
| "strategy_name HeuristicPatch = ''heuristic_patch''"
| "strategy_name HttpSynth = ''http_synth''"
| "strategy_name BuiltinLlm = ''builtin_llm''"

record repair_config =
  gr_strategy :: repair_strategy
  gr_allowedCommands :: "string list"
  gr_commandAliasMap :: jobj
  gr_maxErrorChars :: int
  gr_httpEndpoint :: "string option"
  gr_httpTimeoutMs :: "jsnum option"
  gr_httpAuthToken :: "string option"
  gr_llmBaseUrl :: "string option"
  gr_llmApiKey :: "string option"
  gr_llmModel :: "string option"
  gr_llmTimeoutMs :: "jsnum option"
  gr_llmMaxTokens :: "jsnum option"
  gr_llmTemperature :: "jsnum option"

record repair_input =
  ri_stepIndex :: "jsnum option"
  ri_toolName :: "string option"
  ri_reason :: string
  ri_detail :: "string option"
  ri_stepObj :: jv
  ri_command :: "string option"
  ri_argv :: "string list option"

definition repair_argv :: "repair_input \<Rightarrow> string list" where
  "repair_argv inp = (case ri_argv inp of Some a \<Rightarrow> a | None \<Rightarrow> [])"

definition truncateRepairDetail :: "string option \<Rightarrow> int \<Rightarrow> string option" where
  "truncateRepairDetail detail maxChars =
     (case detail of
        None \<Rightarrow> None
      | Some d \<Rightarrow>
          (let normalized = js_trim d
           in if normalized = [] then None
              else if int (length normalized) \<le> maxChars then Some normalized
              else Some (take (nat (max 0 (maxChars - 3))) normalized @ ''...'')))"

section \<open>Patches\<close>

definition removal_patch :: "jsnum option \<Rightarrow> jv" where
  "removal_patch stepIndex =
     JObj (case stepIndex of Some i \<Rightarrow> [(''remove_step_indices'', JArr [JNum i])] | None \<Rightarrow> [])"

definition legacy_patch :: "repair_input \<Rightarrow> jv" where
  "legacy_patch inp =
     JObj [(''step_index'', num_or_null (ri_stepIndex inp)), (''tool_name'', text_or_null (ri_toolName inp)),
           (''action'', JStr ''skip''), (''reason'', JStr (ri_reason inp)), (''detail'', text_or_null (ri_detail inp))]"

definition removal_members :: "string \<Rightarrow> repair_input \<Rightarrow> jobj" where
  "removal_members strategy inp =
     [(''strategy'', JStr strategy), (''reason'', JStr (ri_reason inp)), (''detail'', text_or_null (ri_detail inp)),
      (''patch'', removal_patch (ri_stepIndex inp)), (''legacy_patch'', legacy_patch inp)]"

definition buildDeterministicGuidedRepairPatch :: "repair_input \<Rightarrow> jobj" where
  "buildDeterministicGuidedRepairPatch inp = removal_members ''remove_step_keep_flow'' inp"

definition pickGuidedRepairReplacementCommand :: "string option \<Rightarrow> string list \<Rightarrow> jobj \<Rightarrow> string option" where
  "pickGuidedRepairReplacementCommand command allowed aliases =
     (let normalized = (case command of Some c \<Rightarrow> js_trim c | None \<Rightarrow> []);
          last_choice = (if normalized \<noteq> [] \<and> normalized \<in> set allowed then Some normalized else None);
          fallback = (case List.find (\<lambda>c. c \<noteq> normalized) allowed of
                        Some f \<Rightarrow> if f \<noteq> [] then Some f else last_choice | None \<Rightarrow> last_choice)
      in if normalized = [] then fallback
         else (case obj_get aliases normalized of
                 Some (JStr a) \<Rightarrow> if a \<noteq> [] \<and> a \<in> set allowed then Some a else fallback
               | _ \<Rightarrow> fallback))"

definition heuristic_members :: "string \<Rightarrow> repair_input \<Rightarrow> jsnum \<Rightarrow> jobj \<Rightarrow> jobj" where
  "heuristic_members strategy inp stepIndex changes =
     [(''strategy'', JStr strategy), (''reason'', JStr (ri_reason inp)), (''detail'', text_or_null (ri_detail inp)),
      (''heuristic_applied'', JBool True),
      (''patch'', JObj [(''step_patches'', JArr [JObj [(''step_index'', JNum stepIndex), (''set'', JObj changes)]])]),
      (''fallback_patch'', removal_patch (ri_stepIndex inp)), (''legacy_patch'', legacy_patch inp)]"

definition heuristic_fallback :: "repair_input \<Rightarrow> jobj" where
  "heuristic_fallback inp =
     removal_members ''heuristic_fallback_remove_step'' inp @ [(''heuristic_applied'', JBool False)]"

definition finite_or :: "jsnum \<Rightarrow> int \<Rightarrow> int" where
  "finite_or x d = (case num_trunc x of Fin q \<Rightarrow> max 0 \<lfloor>q\<rfloor> | _ \<Rightarrow> d)"

definition raised_retries :: "jv \<Rightarrow> jv" where
  "raised_retries stepObj =
     (let retryPolicy = object_or_empty (js_get stepObj ''retry_policy'');
          retries = finite_or (js_Number (or_nullish (js_get retryPolicy ''max_retries'') (Some (JNum (Fin 0))))) 0;
          backoff = finite_or (js_Number (or_nullish (js_get retryPolicy ''backoff_ms'') (Some (JNum (Fin 250))))) 250
      in with_members retryPolicy
           [(''max_retries'', json_int (max 1 (retries + 1))), (''backoff_ms'', json_int (max 250 backoff))])"

definition replaced_command :: "repair_input \<Rightarrow> string \<Rightarrow> jobj" where
  "replaced_command inp replacement =
     [(''tool_input_template'',
         with_members (tool_input_object (ri_stepObj inp)) [(''argv'', texts (replacement # tl (repair_argv inp)))]),
      (''retry_policy'', JObj [(''max_retries'', json_int 1), (''backoff_ms'', json_int 250)])]"

definition buildHeuristicGuidedRepairPatch :: "repair_config \<Rightarrow> repair_input \<Rightarrow> jobj" where
  "buildHeuristicGuidedRepairPatch cfg inp =
     (case ri_stepIndex inp of
        None \<Rightarrow> heuristic_fallback inp
      | Some stepIndex \<Rightarrow>
          (let replacement = pickGuidedRepairReplacementCommand (ri_command inp) (gr_allowedCommands cfg)
                               (gr_commandAliasMap cfg)
           in if ri_reason inp = ''command_not_allowed_or_missing'' \<and> replacement \<noteq> None \<and> repair_argv inp \<noteq> [] then
                heuristic_members ''replace_command_then_retry'' inp stepIndex (replaced_command inp (the replacement))
              else if ri_reason inp = ''execution_failed_guided_skip'' then
                heuristic_members ''increase_retry_budget_then_retry'' inp stepIndex
                  [(''retry_policy'', raised_retries (ri_stepObj inp))]
              else heuristic_fallback inp))"

section \<open>Asking a language model\<close>

record llm_patch =
  lp_strategy :: string
  lp_patch :: jv
  lp_preview :: string
  lp_reasoning :: "string option"
  lp_usage :: "jv option"

definition llm_endpoint :: "string \<Rightarrow> string" where
  "llm_endpoint baseUrl = rev (dropWhile (\<lambda>c. c = CHR ''/'') (rev (js_trim baseUrl))) @ ''/chat/completions''"

definition llm_body :: "repair_config \<Rightarrow> repair_input \<Rightarrow> string \<Rightarrow> int \<Rightarrow> jsnum \<Rightarrow> jv" where
  "llm_body cfg inp model maxTokens temperature =
     JObj [(''model'', JStr model), (''temperature'', JNum temperature), (''max_tokens'', json_int maxTokens),
           (''constraints'', JObj [(''step_index_required'', num_or_null (ri_stepIndex inp)),
              (''tool_name'', text_or_null (ri_toolName inp)), (''allowed_commands'', texts (gr_allowedCommands cfg)),
              (''reason'', JStr (ri_reason inp)), (''detail'', text_or_null (ri_detail inp)),
              (''command'', text_or_null (ri_command inp)), (''argv'', texts (repair_argv inp)), (''step'', ri_stepObj inp)])]"

definition first_given :: "jv \<Rightarrow> string list \<Rightarrow> jv option \<Rightarrow> jv option" where
  "first_given ob ks d = foldr (\<lambda>k rest. or_nullish (js_get ob k) rest) ks d"

definition count_of :: "jsnum \<Rightarrow> jv" where
  "count_of x = json_int (finite_or x 0)"

definition llm_usage :: "jv \<Rightarrow> jv option" where
  "llm_usage payload =
     (let usageObj = object_or_empty (js_get payload ''usage''); zero = Some (JNum (Fin 0));
          prompt = js_Number (first_given usageObj [''prompt_tokens'', ''input_tokens'', ''promptTokens'', ''inputTokens''] zero);
          completion = js_Number (first_given usageObj
            [''completion_tokens'', ''output_tokens'', ''completionTokens'', ''outputTokens''] zero);
          total = js_Number (first_given usageObj [''total_tokens'', ''totalTokens'']
            (Some (JNum (if is_finite prompt \<and> is_finite completion then num_add prompt completion else Fin 0))))
      in if is_finite prompt \<and> is_finite completion \<and> is_finite total then
           Some (JObj [(''prompt_tokens'', count_of prompt), (''completion_tokens'', count_of completion),
                       (''total_tokens'', count_of total), (''source'', JStr ''builtin_llm'')])
         else None)"

text \<open>The patch in the answer of the model, or an error.\<close>

definition llm_answer :: "replay_world \<Rightarrow> string + fetch_answer \<Rightarrow> string + llm_patch" where
  "llm_answer W r =
     (case r of
        Inl err \<Rightarrow> Inl err
      | Inr res \<Rightarrow>
          if \<not> fa_ok res then Inl (''builtin_llm_http_'' @ num_text (Fin (of_int (fa_status res))))
          else (case extractChatCompletionText (fa_payload res) of
            None \<Rightarrow> Inl ''builtin_llm_empty_content''
          | Some content \<Rightarrow>
              if content = [] then Inl ''builtin_llm_empty_content''
              else (case extractJsonObjectFromText (w_json_parse W) content of
                None \<Rightarrow> Inl ''builtin_llm_invalid_json''
              | Some parsed \<Rightarrow>
                  (case (case asObject (js_get parsed ''patch'') of
                           Some p \<Rightarrow> Some p
                         | None \<Rightarrow> if looksLikeReplayPatchObject parsed then Some parsed else None) of
                     None \<Rightarrow> Inl ''builtin_llm_missing_patch''
                   | Some p \<Rightarrow>
                       if \<not> looksLikeReplayPatchObject p then Inl ''builtin_llm_missing_patch''
                       else Inr \<lparr>lp_strategy = (case toStringOrNull (js_get parsed ''strategy'') of
                                                 Some s \<Rightarrow> s | None \<Rightarrow> ''builtin_llm_patch''),
                                 lp_patch = p, lp_preview = take 800 content,
                                 lp_reasoning = toStringOrNull (js_get parsed ''reasoning''),
                                 lp_usage = llm_usage (fa_payload res)\<rparr>))))"

section \<open>The proposal\<close>

definition after_heuristic :: "repair_config \<Rightarrow> repair_input \<Rightarrow> string \<Rightarrow> string \<Rightarrow> jv" where
  "after_heuristic cfg inp source err =
     JObj (buildHeuristicGuidedRepairPatch cfg inp @ [(''source'', JStr source), (''synth_error'', JStr err)])"

definition llm_repair :: "repair_config \<Rightarrow> repair_input \<Rightarrow> string \<Rightarrow> string \<Rightarrow> string + llm_patch \<Rightarrow> jv" where
  "llm_repair cfg inp model endpoint r =
     (case r of
        Inl err \<Rightarrow> after_heuristic cfg inp ''builtin_llm_fallback'' err
      | Inr p \<Rightarrow> JObj ([(''strategy'', JStr (lp_strategy p)), (''reason'', JStr (ri_reason inp)),
                       (''detail'', text_or_null (ri_detail inp)), (''source'', JStr ''builtin_llm''),
                       (''patch'', lp_patch p), (''reasoning'', text_or_null (lp_reasoning p)),
                       (''llm_model'', JStr model), (''llm_endpoint'', JStr endpoint),
                       (''llm_response_preview'', JStr (lp_preview p))]
                      @ opt_member ''usage'' (lp_usage p)
                      @ [(''fallback_patch'', removal_patch (ri_stepIndex inp))]))"

definition http_body :: "repair_config \<Rightarrow> repair_input \<Rightarrow> jv" where
  "http_body cfg inp =
     JObj [(''mode'', JStr ''guided''), (''reason'', JStr (ri_reason inp)), (''detail'', text_or_null (ri_detail inp)),
           (''step_index'', num_or_null (ri_stepIndex inp)), (''tool_name'', text_or_null (ri_toolName inp)),
           (''command'', text_or_null (ri_command inp)), (''argv'', texts (repair_argv inp)), (''step'', ri_stepObj inp),
           (''allowed_commands'', texts (gr_allowedCommands cfg))]"

definition http_repair :: "repair_config \<Rightarrow> repair_input \<Rightarrow> string + fetch_answer \<Rightarrow> jv" where
  "http_repair cfg inp r =
     (case r of
        Inl err \<Rightarrow> after_heuristic cfg inp ''http_synth_fallback'' err
      | Inr resp \<Rightarrow>
          (case (fa_ok resp, Option.bind (asObject (Some (fa_payload resp))) (\<lambda>p. asObject (js_get p ''patch''))) of
             (True, Some patch) \<Rightarrow>
               JObj [(''strategy'', JStr (case toStringOrNull (js_get (fa_payload resp) ''strategy'') of
                                            Some s \<Rightarrow> s | None \<Rightarrow> ''http_synth_patch'')),
                     (''reason'', JStr (ri_reason inp)), (''detail'', text_or_null (ri_detail inp)),
                     (''source'', JStr ''http_synth''), (''patch'', patch),
                     (''fallback_patch'', removal_patch (ri_stepIndex inp))]
           | _ \<Rightarrow> after_heuristic cfg inp ''http_synth_fallback''
                    (''http_status_'' @ num_text (Fin (of_int (fa_status resp))))))"

definition num_default :: "jsnum option \<Rightarrow> jsnum \<Rightarrow> jsnum" where
  "num_default v d = (case v of Some x \<Rightarrow> x | None \<Rightarrow> d)"

definition llm_temperature :: "jsnum option \<Rightarrow> jsnum" where
  "llm_temperature v =
     (case num_default v (to_num (1 / 10)) of
        Fin q \<Rightarrow> Fin (max 0 (min 1 q)) | _ \<Rightarrow> to_num (1 / 10))"

definition ask_llm :: "replay_world \<Rightarrow> repair_config \<Rightarrow> repair_input \<Rightarrow> string \<Rightarrow> string \<Rightarrow> string \<Rightarrow> jv io" where
  "ask_llm W cfg inp baseUrl apiKey model =
     (let endpoint = llm_endpoint baseUrl;
          call = \<lparr>fc_endpoint = endpoint, fc_token = Some apiKey,
                  fc_timeout_ms = clampInt (num_default (gr_llmTimeoutMs cfg) (Fin 7000)) 200 60000,
                  fc_body = llm_body cfg inp model (clampInt (num_default (gr_llmMaxTokens cfg) (Fin 500)) 64 4000)
                              (llm_temperature (gr_llmTemperature cfg))\<rparr>
      in ask (Fetched call) (\<lambda>t. llm_repair cfg inp model endpoint (llm_answer W (w_fetch W t call))))"

definition ask_service :: "replay_world \<Rightarrow> repair_config \<Rightarrow> repair_input \<Rightarrow> string \<Rightarrow> jv io" where
  "ask_service W cfg inp endpoint =
     (let call = \<lparr>fc_endpoint = endpoint, fc_token = trimmed_or_null (gr_httpAuthToken cfg),
                  fc_timeout_ms = clampInt (num_default (gr_httpTimeoutMs cfg) (Fin 5000)) 200 60000,
                  fc_body = http_body cfg inp\<rparr>
      in ask (Fetched call) (\<lambda>t. http_repair cfg inp (w_fetch W t call)))"

definition makeGuidedRepairPatch :: "replay_world \<Rightarrow> repair_config \<Rightarrow> repair_input \<Rightarrow> jv io" where
  "makeGuidedRepairPatch W cfg given =
     (let inp = given\<lparr>ri_detail := truncateRepairDetail (ri_detail given) (gr_maxErrorChars cfg)\<rparr>;
          deterministic = return_act (JObj (buildDeterministicGuidedRepairPatch inp))
      in case gr_strategy cfg of
           BuiltinLlm \<Rightarrow>
             (case (trimmed_or_null (gr_llmBaseUrl cfg), trimmed_or_null (gr_llmApiKey cfg), trimmed_or_null (gr_llmModel cfg)) of
                (Some baseUrl, Some apiKey, Some model) \<Rightarrow> ask_llm W cfg inp baseUrl apiKey model
              | _ \<Rightarrow> return_act (after_heuristic cfg inp ''builtin_llm_fallback'' ''builtin_llm_not_configured''))
         | HttpSynth \<Rightarrow>
             (case trimmed_or_null (gr_httpEndpoint cfg) of
                Some endpoint \<Rightarrow> ask_service W cfg inp endpoint
              | None \<Rightarrow> deterministic)
         | HeuristicPatch \<Rightarrow> return_act (JObj (buildHeuristicGuidedRepairPatch cfg inp))
         | DeterministicSkip \<Rightarrow> deterministic)"

section \<open>Usage\<close>

record replay_usage =
  us_prompt :: jsnum
  us_completion :: jsnum
  us_total :: jsnum
  us_source :: string

definition counted_tokens :: "jsnum \<Rightarrow> jsnum" where
  "counted_tokens x = to_num (of_int (finite_or x 0))"

definition mergeReplayUsage :: "replay_usage \<Rightarrow> jv option \<Rightarrow> replay_usage" where
  "mergeReplayUsage target usage =
     (case asObject usage of
        None \<Rightarrow> target
      | Some ob \<Rightarrow>
          (let prompt = js_Number (js_get ob ''prompt_tokens''); completion = js_Number (js_get ob ''completion_tokens'');
               total = js_Number (js_get ob ''total_tokens'')
           in if \<not> (is_finite prompt \<and> is_finite completion \<and> is_finite total) then target
              else (let target' = target\<lparr>us_prompt := num_add (us_prompt target) (counted_tokens prompt),
                                        us_completion := num_add (us_completion target) (counted_tokens completion),
                                        us_total := num_add (us_total target) (counted_tokens total)\<rparr>
                    in case toStringOrNull (js_get ob ''source'') of
                         Some source \<Rightarrow>
                           if us_source target' = ''no_model_call'' \<and> num_lt (Fin 0) (us_total target')
                           then target'\<lparr>us_source := source\<rparr> else target'
                       | None \<Rightarrow> target')))"

section \<open>What a proposal calls\<close>

definition only_fetches :: "trace \<Rightarrow> replay_event \<Rightarrow> bool" where
  "only_fetches t ev \<longleftrightarrow> (case ev of Fetched _ \<Rightarrow> True | _ \<Rightarrow> False)"

lemma only_fetches_simps [simp]:
  "only_fetches t (Fetched c)" "\<not> only_fetches t (Spawned l)" "\<not> only_fetches t (Sandboxed s)"
  by (simp_all add: only_fetches_def)

lemma makeGuidedRepairPatch_fetches: "runs A only_fetches (makeGuidedRepairPatch W cfg inp) (\<lambda>_ _. True)"
  unfolding makeGuidedRepairPatch_def Let_def
  by (simp add: runs_simps ask_llm_def ask_service_def Let_def split: repair_strategy.split option.split)

text \<open>A replacement command is always one of the allowed commands.\<close>

lemma replacement_allowed:
  "pickGuidedRepairReplacementCommand command allowed aliases = Some c \<Longrightarrow> c \<in> set allowed"
  by (auto simp: pickGuidedRepairReplacementCommand_def Let_def find_Some_iff split: if_splits option.splits jv.splits)

end
