(* ===== verification/ReplayReports.thy ===== *)
theory ReplayReports
  imports ReplayRepair
begin

text \<open>
  Gates, reports and summaries of a replay run: src/memory/replay-run-gates.ts,
  replay-run-surfaces.ts, replay-run-results.ts, replay-run-step-outcomes.ts and
  replay-run-gate-step-outcomes.ts.  An undefined member is left out of an object.
\<close>

datatype replay_mode = ReplaySimulate | ReplayStrict | ReplayGuided

fun replay_mode_name :: "replay_mode \<Rightarrow> string" where
  "replay_mode_name ReplaySimulate = ''simulate''"
| "replay_mode_name ReplayStrict = ''strict''"
| "replay_mode_name ReplayGuided = ''guided''"

section \<open>Records as values\<close>

definition check_value :: "precondition_result \<Rightarrow> jv" where
  "check_value r =
     JObj [(''kind'', JStr (pr_kind r)), (''state'', JStr (check_state_name (pr_state r))), (''ok'', JBool (pr_ok r)),
           (''message'', JStr (pr_message r)), (''input'', pr_input r)]"

definition checks_value :: "precondition_result list \<Rightarrow> jv" where
  "checks_value rs = JArr (map check_value rs)"

definition signature_value :: "signature_evaluation \<Rightarrow> jv" where
  "signature_value s =
     JObj [(''ok'', JBool (se_ok s)),
           (''checks'', JArr (map (\<lambda>c. JObj [(''check'', JStr (sg_check c)), (''ok'', JBool (sg_ok c)),
                                            (''message'', JStr (sg_message c))]) (se_checks s)))]"

definition outcome_value :: "command_outcome \<Rightarrow> jv" where
  "outcome_value r =
     JObj [(''ok'', JBool (co_ok r)), (''status'', JStr (outcome_status_name (co_status r))),
           (''command'', JStr (co_command r)), (''argv'', texts (co_argv r)), (''stdout'', JStr (co_stdout r)),
           (''stderr'', JStr (co_stderr r)), (''exit_code'', num_or_null (co_exit_code r)),
           (''duration_ms'', json_int (co_duration_ms r)), (''timed_out'', JBool (co_timed_out r)),
           (''error'', text_or_null (co_error r))]"

section \<open>Gates\<close>

record gate_decision =
  gd_reason :: string
  gd_readiness :: string
  gd_detail :: "string option"
  gd_command :: "string option"
  gd_allowedCommands :: "string list option"
  gd_sensitiveReview :: "jv option"
  gd_sensitiveArgv :: "string list option"

definition plain_gate :: "string \<Rightarrow> string \<Rightarrow> string \<Rightarrow> gate_decision" where
  "plain_gate reason readiness detail =
     \<lparr>gd_reason = reason, gd_readiness = readiness, gd_detail = Some detail, gd_command = None,
      gd_allowedCommands = None, gd_sensitiveReview = None, gd_sensitiveArgv = None\<rparr>"

definition resolveReplayPreconditionGate :: "precondition_result list \<Rightarrow> gate_decision option" where
  "resolveReplayPreconditionGate preChecks =
     (if filter (\<lambda>e. pr_state e = CheckFail) preChecks \<noteq> [] then
        Some (plain_gate ''preconditions_failed'' ''blocked'' ''one or more replay preconditions failed'')
      else if filter (\<lambda>e. pr_state e = CheckUnknown) preChecks \<noteq> [] then
        Some (plain_gate ''preconditions_unknown'' ''unknown'' ''one or more replay preconditions remained unknown'')
      else None)"

definition resolveReplayConfirmationGate :: "string \<Rightarrow> bool \<Rightarrow> gate_decision option" where
  "resolveReplayConfirmationGate safetyLevel autoConfirm =
     (if safetyLevel = ''manual_only'' then
        Some (plain_gate ''manual_only_step'' ''blocked'' ''step requires manual execution and cannot be auto-replayed'')
      else if safetyLevel = ''needs_confirm'' \<and> \<not> autoConfirm then
        Some (plain_gate ''confirmation_required'' ''blocked''
                ''step requires explicit confirmation before replay execution'')
      else None)"

definition resolveReplayUnsupportedToolGate :: "string option \<Rightarrow> gate_decision option" where
  "resolveReplayUnsupportedToolGate toolName =
     (if isReplayCommandTool toolName then None
      else Some (plain_gate ''unsupported_tool_for_command_executor'' ''unknown''
                   ''tool is not mapped to the command-style replay executor''))"

definition resolveReplayCommandAllowlistGate :: "string list \<Rightarrow> string list \<Rightarrow> gate_decision option" where
  "resolveReplayCommandAllowlistGate argv allowed =
     (let command = command_of argv
      in if argv \<noteq> [] \<and> command \<noteq> [] \<and> isSafeCommandReference command \<and> isAllowedReplayCommand command allowed
         then None
         else Some \<lparr>gd_reason = ''command_not_allowed_or_missing'', gd_readiness = ''blocked'',
                    gd_detail = Some (if command \<noteq> [] then ''command '' @ quoted command @ '' is not allowed''
                                      else ''argv is missing''),
                    gd_command = (if command \<noteq> [] then Some command else None),
                    gd_allowedCommands = Some allowed, gd_sensitiveReview = None, gd_sensitiveArgv = None\<rparr>)"

definition resolveReplaySensitiveCommandGate ::
  "string \<Rightarrow> string list \<Rightarrow> sensitivity \<Rightarrow> review_mode \<Rightarrow> bool \<Rightarrow> gate_decision option" where
  "resolveReplaySensitiveCommandGate command argv sens mode allowSensitiveExec =
     (if \<not> sn_sensitive sens \<or> mode \<noteq> ReviewBlock \<or> allowSensitiveExec then None
      else Some \<lparr>gd_reason = ''sensitive_command_requires_override'', gd_readiness = ''blocked'',
                 gd_detail = Some ''sensitive replay command requires explicit override'',
                 gd_command = Some command, gd_allowedCommands = None,
                 gd_sensitiveReview = Some (JObj
                   [(''command'', JStr command), (''argv'', texts argv), (''reason'', text_or_null (sn_reason sens)),
                    (''risk_level'', JStr (risk_level_name (sn_risk_level sens))),
                    (''required_param'', JStr ''params.allow_sensitive_exec=true'')]),
                 gd_sensitiveArgv = Some argv\<rparr>)"

section \<open>Step reports\<close>

definition report_head :: "jsnum option \<Rightarrow> string option \<Rightarrow> jobj" where
  "report_head stepIndex toolName = [(''step_index'', num_or_null stepIndex), (''tool_name'', text_or_null toolName)]"

definition buildReplaySimulateStepReport ::
  "jsnum option \<Rightarrow> string option \<Rightarrow> string \<Rightarrow> string \<Rightarrow> string option \<Rightarrow> string list \<Rightarrow> jv \<Rightarrow> precondition_result list \<Rightarrow> jobj" where
  "buildReplaySimulateStepReport stepIndex toolName safetyLevel readiness command argv sensitiveReview checks =
     report_head stepIndex toolName @
     [(''safety_level'', JStr safetyLevel), (''readiness'', JStr readiness), (''command'', text_or_null command),
      (''argv'', texts argv), (''sensitive_review'', sensitiveReview),
      (''precondition_total'', JNum (js_nat (length checks))), (''checks'', checks_value checks),
      (''notes'', texts [if readiness = ''blocked'' then ''One or more preconditions failed; strict replay would stop here.''
                         else if readiness = ''unknown''
                           then ''Some preconditions are unsupported/ambiguous; guided mode may need repair.''
                         else ''Preconditions passed.''])]"

definition buildReplayBlockedStepReport ::
  "jsnum option \<Rightarrow> string option \<Rightarrow> string \<Rightarrow> precondition_result list option \<Rightarrow> string option
     \<Rightarrow> string list option \<Rightarrow> jv option \<Rightarrow> jobj" where
  "buildReplayBlockedStepReport stepIndex toolName err preconditions command allowed sensitiveReview =
     report_head stepIndex toolName @
     [(''status'', JStr ''failed''), (''readiness'', JStr ''blocked'')]
     @ opt_member ''preconditions'' (map_option checks_value preconditions)
     @ opt_member ''command'' (map_option JStr command)
     @ opt_member ''allowed_commands'' (map_option texts allowed)
     @ opt_member ''sensitive_review'' sensitiveReview
     @ [(''error'', JStr err)]"

text \<open>What a report says of an execution; absent for a step that a gate stopped.\<close>

record execution_details =
  ed_command :: string
  ed_argv :: "string list"
  ed_backend :: replay_backend
  ed_sandbox_run_id :: "string option"
  ed_sensitiveReview :: "jv option"
  ed_execution :: command_outcome
  ed_resultSummary :: jv
  ed_signature :: signature_evaluation
  ed_postconditions :: "precondition_result list"

definition buildReplayGuidedGateReport ::
  "jsnum option \<Rightarrow> string option \<Rightarrow> string \<Rightarrow> precondition_result list option \<Rightarrow> string option
     \<Rightarrow> string list option \<Rightarrow> jv option \<Rightarrow> jv \<Rightarrow> jobj" where
  "buildReplayGuidedGateReport stepIndex toolName readiness preconditions command argv sensitiveReview repair =
     report_head stepIndex toolName @
     [(''status'', JStr ''partial''), (''readiness'', JStr readiness)]
     @ opt_member ''command'' (map_option JStr command)
     @ opt_member ''argv'' (map_option texts argv)
     @ opt_member ''preconditions'' (map_option checks_value preconditions)
     @ opt_member ''sensitive_review'' sensitiveReview
     @ [(''repair_applied'', JBool True), (''repair'', repair)]"

definition buildReplayGuidedPartialStepReport ::
  "jsnum option \<Rightarrow> string option \<Rightarrow> execution_details \<Rightarrow> jv \<Rightarrow> jobj" where
  "buildReplayGuidedPartialStepReport stepIndex toolName d repair =
     report_head stepIndex toolName @
     [(''status'', JStr ''partial''), (''readiness'', JStr ''partial''), (''command'', JStr (ed_command d)),
      (''argv'', texts (ed_argv d)), (''execution_backend'', JStr (backend_name (ed_backend d))),
      (''sandbox_run_id'', text_or_null (ed_sandbox_run_id d))]
     @ opt_member ''sensitive_review'' (ed_sensitiveReview d)
     @ [(''execution'', outcome_value (ed_execution d)), (''result_summary'', ed_resultSummary d),
        (''signature'', signature_value (ed_signature d)), (''postconditions'', checks_value (ed_postconditions d)),
        (''repair_applied'', JBool True), (''repair'', repair)]"

definition buildReplayPendingStepReport ::
  "jsnum option \<Rightarrow> string option \<Rightarrow> replay_mode \<Rightarrow> string \<Rightarrow> string list \<Rightarrow> replay_backend \<Rightarrow> string option \<Rightarrow> string \<Rightarrow> jobj" where
  "buildReplayPendingStepReport stepIndex toolName mode command argv backend runId err =
     report_head stepIndex toolName @
     [(''status'', JStr (if mode = ReplayGuided then ''partial'' else ''failed'')), (''readiness'', JStr ''pending''),
      (''command'', JStr command), (''argv'', texts argv), (''execution_backend'', JStr (backend_name backend)),
      (''sandbox_run_id'', text_or_null runId), (''pending'', JBool True), (''error'', JStr err)]"

definition value_or_null :: "jv option \<Rightarrow> jv" where
  "value_or_null v = (case v of Some u \<Rightarrow> u | None \<Rightarrow> JNull)"

definition execution_members :: "execution_details \<Rightarrow> jobj" where
  "execution_members d =
     [(''command'', JStr (ed_command d)), (''argv'', texts (ed_argv d)),
      (''execution_backend'', JStr (backend_name (ed_backend d))),
      (''sandbox_run_id'', text_or_null (ed_sandbox_run_id d)), (''sensitive_review'', value_or_null (ed_sensitiveReview d)),
      (''execution'', outcome_value (ed_execution d)), (''result_summary'', ed_resultSummary d),
      (''signature'', signature_value (ed_signature d)), (''postconditions'', checks_value (ed_postconditions d))]"

definition buildReplayExecutionSuccessStepReport :: "jsnum option \<Rightarrow> string option \<Rightarrow> execution_details \<Rightarrow> jobj" where
  "buildReplayExecutionSuccessStepReport stepIndex toolName d =
     report_head stepIndex toolName @ [(''status'', JStr ''success''), (''readiness'', JStr ''ready'')] @ execution_members d"

definition buildReplayExecutionFailureStepReport ::
  "jsnum option \<Rightarrow> string option \<Rightarrow> execution_details \<Rightarrow> string \<Rightarrow> jobj" where
  "buildReplayExecutionFailureStepReport stepIndex toolName d err =
     report_head stepIndex toolName @ [(''status'', JStr ''failed''), (''readiness'', JStr ''blocked'')]
     @ execution_members d @ [(''error'', JStr err)]"

section \<open>Results of an execution\<close>

definition isReplayExecutionPassed :: "command_outcome \<Rightarrow> signature_evaluation \<Rightarrow> precondition_result list \<Rightarrow> bool" where
  "isReplayExecutionPassed execution signature postconditions \<longleftrightarrow>
     co_ok execution \<and> se_ok signature
     \<and> \<not> list_ex (\<lambda>e. pr_state e = CheckFail) postconditions \<and> \<not> list_ex (\<lambda>e. pr_state e = CheckUnknown) postconditions"

definition resolveReplayExecutionFailureReason :: "command_outcome \<Rightarrow> string" where
  "resolveReplayExecutionFailureReason execution =
     (case co_error execution of
        Some e \<Rightarrow> e
      | None \<Rightarrow> if co_status execution = OutTimeout then ''execution_timeout'' else ''execution_failed'')"

definition buildReplayPendingOutputSignature ::
  "string \<Rightarrow> replay_backend \<Rightarrow> string option \<Rightarrow> string option \<Rightarrow> jobj" where
  "buildReplayPendingOutputSignature reason backend runId status =
     [(''reason'', JStr reason), (''execution_backend'', JStr (backend_name backend)),
      (''sandbox_run_id'', text_or_null runId), (''sandbox_status'', text_or_null status)]"

definition buildReplaySuccessOutputSignature :: "execution_details \<Rightarrow> jobj" where
  "buildReplaySuccessOutputSignature d =
     [(''command'', JStr (ed_command d)), (''argv'', texts (ed_argv d)),
      (''execution_backend'', JStr (backend_name (ed_backend d))),
      (''sandbox_run_id'', text_or_null (ed_sandbox_run_id d)), (''sensitive_review'', value_or_null (ed_sensitiveReview d)),
      (''exit_code'', num_or_null (co_exit_code (ed_execution d))),
      (''duration_ms'', json_int (co_duration_ms (ed_execution d))), (''result_summary'', ed_resultSummary d),
      (''signature'', signature_value (ed_signature d))]"

definition buildReplayFailureOutputSignature :: "execution_details \<Rightarrow> precondition_result list \<Rightarrow> jobj" where
  "buildReplayFailureOutputSignature d preconditions =
     buildReplaySuccessOutputSignature d
     @ [(''preconditions'', checks_value preconditions), (''postconditions'', checks_value (ed_postconditions d))]"

definition buildReplayGuidedPartialOutputSignature :: "execution_details \<Rightarrow> jv \<Rightarrow> jobj" where
  "buildReplayGuidedPartialOutputSignature d repair =
     buildReplaySuccessOutputSignature d @ [(''postconditions'', checks_value (ed_postconditions d)), (''repair'', repair)]"

section \<open>Reports of gates\<close>

definition gate_signature :: "gate_decision \<Rightarrow> precondition_result list option \<Rightarrow> jobj" where
  "gate_signature g preconditions =
     [(''reason'', JStr (gd_reason g))]
     @ opt_member ''preconditions'' (map_option checks_value preconditions)
     @ opt_member ''command'' (map_option JStr (gd_command g))"

definition buildReplayStrictGateStepArtifacts ::
  "jsnum option \<Rightarrow> string option \<Rightarrow> gate_decision \<Rightarrow> precondition_result list option \<Rightarrow> jobj \<times> jobj" where
  "buildReplayStrictGateStepArtifacts stepIndex toolName g preconditions =
     (buildReplayBlockedStepReport stepIndex toolName (gd_reason g) preconditions (gd_command g)
        (gd_allowedCommands g) (gd_sensitiveReview g),
      gate_signature g preconditions
      @ opt_member ''allowed_commands'' (map_option texts (gd_allowedCommands g))
      @ opt_member ''sensitive_review'' (gd_sensitiveReview g))"

definition buildReplayGuidedGateStepArtifacts ::
  "jsnum option \<Rightarrow> string option \<Rightarrow> gate_decision \<Rightarrow> precondition_result list option \<Rightarrow> jv \<Rightarrow> jobj \<times> jobj" where
  "buildReplayGuidedGateStepArtifacts stepIndex toolName g preconditions repair =
     (buildReplayGuidedGateReport stepIndex toolName (gd_readiness g) preconditions (gd_command g)
        (gd_sensitiveArgv g) (gd_sensitiveReview g) repair,
      gate_signature g preconditions @ opt_member ''sensitive_review'' (gd_sensitiveReview g) @ [(''repair'', repair)])"

section \<open>Counters\<close>

record run_counters =
  ct_executed :: nat
  ct_succeeded :: nat
  ct_failed :: nat
  ct_repaired :: nat
  ct_blocked :: nat
  ct_skipped :: nat
  ct_pending :: nat

definition zero_counters :: run_counters where
  "zero_counters = \<lparr>ct_executed = 0, ct_succeeded = 0, ct_failed = 0, ct_repaired = 0, ct_blocked = 0,
                    ct_skipped = 0, ct_pending = 0\<rparr>"

definition applyReplayRunStepDelta :: "run_counters \<Rightarrow> run_counters \<Rightarrow> run_counters" where
  "applyReplayRunStepDelta c d =
     \<lparr>ct_executed = ct_executed c + ct_executed d, ct_succeeded = ct_succeeded c + ct_succeeded d,
      ct_failed = ct_failed c + ct_failed d, ct_repaired = ct_repaired c + ct_repaired d,
      ct_blocked = ct_blocked c + ct_blocked d, ct_skipped = ct_skipped c + ct_skipped d,
      ct_pending = ct_pending c + ct_pending d\<rparr>"

section \<open>Summaries\<close>

definition count_value :: "nat \<Rightarrow> jv" where
  "count_value n = JNum (js_nat n)"

definition buildReplaySimulateSummary :: "nat \<Rightarrow> nat \<Rightarrow> nat \<Rightarrow> nat \<Rightarrow> jobj" where
  "buildReplaySimulateSummary totalSteps ready blocked unknown =
     [(''total_steps'', count_value totalSteps), (''ready_steps'', count_value ready),
      (''blocked_steps'', count_value blocked), (''unknown_steps'', count_value unknown),
      (''replay_readiness'', JStr (if 0 < blocked then ''blocked'' else if 0 < unknown then ''partial'' else ''ready'')),
      (''next_action'', JStr
         (if 0 < blocked then ''Fix blocked preconditions before strict replay or use guided repair.''
          else if 0 < unknown then ''Define unsupported precondition kinds or run guided mode with repair.''
          else ''Safe to run strict replay when execution backend policy is satisfied.''))]"

definition counter_members :: "nat \<Rightarrow> run_counters \<Rightarrow> jobj" where
  "counter_members totalSteps c =
     [(''total_steps'', count_value totalSteps), (''executed_steps'', count_value (ct_executed c)),
      (''succeeded_steps'', count_value (ct_succeeded c)), (''failed_steps'', count_value (ct_failed c)),
      (''repaired_steps'', count_value (ct_repaired c)), (''blocked_steps'', count_value (ct_blocked c)),
      (''skipped_steps'', count_value (ct_skipped c)), (''pending_steps'', count_value (ct_pending c))]"

definition run_readiness :: "run_counters \<Rightarrow> string" where
  "run_readiness c =
     (if 0 < ct_failed c then ''failed''
      else if 0 < ct_pending c \<or> 0 < ct_repaired c \<or> 0 < ct_skipped c then ''partial'' else ''success'')"

definition buildReplayExecutionSummary :: "nat \<Rightarrow> run_counters \<Rightarrow> jobj" where
  "buildReplayExecutionSummary totalSteps c =
     counter_members totalSteps c @
     [(''replay_readiness'', JStr (run_readiness c)),
      (''next_action'', JStr
         (if 0 < ct_failed c then ''Inspect failed step outputs and fix playbook/tool constraints.''
          else if 0 < ct_pending c then ''Wait for queued sandbox runs and then replay run_get for completion evidence.''
          else if 0 < ct_repaired c \<or> 0 < ct_skipped c
            then ''Review guided repair patches and promote a new playbook version if accepted.''
          else ''Replay run passed with no repair.''))]"

end
