(* ===== verification/ReplaySteps.thy ===== *)
theory ReplaySteps
  imports ReplayReports
begin

text \<open>
  The steps of a replay run: the handlers of src/memory/replay-run-step-flow.ts, the body of the
  loop of \<^verbatim>\<open>replayPlaybookRun\<close> in src/memory/replay.ts and the simulation of
  replay-run-simulate.ts.  The writes of a recorded run go to the store of the memory, which
  answers like the rest of the world.
\<close>

section \<open>The run and its steps\<close>

record run_setting =
  rx_tenant_id :: string
  rx_scope :: string
  rx_actor :: "string option"
  rx_identity :: jobj
  rx_run_id :: string
  rx_record :: bool
  rx_playbook_id :: string
  rx_version :: nat
  rx_mode :: replay_mode
  rx_backend :: replay_backend
  rx_project_id :: "string option"
  rx_timeoutMs :: int
  rx_workdir :: string
  rx_stdioMaxBytes :: int
  rx_sandbox_available :: bool
  rx_sensitiveReviewMode :: review_mode
  rx_allowSensitiveExec :: bool
  rx_autoConfirm :: bool
  rx_stopOnFailure :: bool
  rx_allowedCommands :: "string list"
  rx_repair :: repair_config

record playbook_step =
  st_stepObj :: jv
  st_stepIndex :: "jsnum option"
  st_toolName :: "string option"
  st_safetyLevel :: string
  st_expectedSignature :: jv
  st_toolInput :: jv
  st_preconditions :: "jv list"
  st_postconditions :: "jv list"

definition read_step :: "jv \<Rightarrow> playbook_step" where
  "read_step step =
     (let stepObj = object_or_empty (Some step);
          index = js_Number (or_nullish (js_get stepObj ''step_index'') (Some (JNum (Fin 0))))
      in \<lparr>st_stepObj = stepObj,
          st_stepIndex = (if index = Fin 0 \<or> index = NaN then None else Some index),
          st_toolName = toStringOrNull (js_get stepObj ''tool_name''),
          st_safetyLevel = (case toStringOrNull (js_get stepObj ''safety_level'') of
                              Some s \<Rightarrow> s | None \<Rightarrow> ''needs_confirm''),
          st_expectedSignature = value_or_null (js_get stepObj ''expected_output_signature''),
          st_toolInput = the (or_nullish (or_nullish (js_get stepObj ''tool_input_template'')
                                (js_get stepObj ''tool_input'')) (Some (JObj []))),
          st_preconditions = array_or_empty (js_get stepObj ''preconditions''),
          st_postconditions = array_or_empty (js_get stepObj ''postconditions'')\<rparr>)"

section \<open>Writing a step\<close>

definition run_members :: "run_setting \<Rightarrow> jobj" where
  "run_members C = [(''tenant_id'', JStr (rx_tenant_id C)), (''scope'', JStr (rx_scope C))]"

definition step_metadata :: "run_setting \<Rightarrow> jv" where
  "step_metadata C =
     JObj [(''replay_mode'', JStr (replay_mode_name (rx_mode C))), (''playbook_id'', JStr (rx_playbook_id C)),
           (''playbook_version'', count_value (rx_version C))]"

definition step_before_body :: "run_setting \<Rightarrow> playbook_step \<Rightarrow> jobj \<Rightarrow> jobj \<Rightarrow> jobj" where
  "step_before_body C st actor retry =
     run_members C @ actor @ rx_identity C @
     [(''run_id'', JStr (rx_run_id C)), (''step_index'', num_or_null (st_stepIndex st)),
      (''tool_name'', text_or_null (st_toolName st)), (''tool_input'', st_toolInput st),
      (''expected_output_signature'', st_expectedSignature st), (''preconditions'', JArr (st_preconditions st))]
     @ retry @ [(''safety_level'', JStr (st_safetyLevel st)), (''metadata'', step_metadata C)]"

definition recordable :: "run_setting \<Rightarrow> playbook_step \<Rightarrow> bool" where
  "recordable C st \<longleftrightarrow> rx_record C \<and> st_stepIndex st \<noteq> None \<and> st_toolName st \<noteq> None"

definition step_before :: "replay_world \<Rightarrow> run_setting \<Rightarrow> playbook_step \<Rightarrow> string option io" where
  "step_before W C st =
     (if recordable C st
      then then_do (attempt (Wrote (WriteStepBefore (step_before_body C st [] [])))
                      (\<lambda>t. w_write W t (WriteStepBefore (step_before_body C st [] []))))
             (\<lambda>stored. return_act (toStringOrNull (js_get (JObj stored) ''step_id'')))
      else return_act None)"

record step_after =
  sf_stepId :: "string option"
  sf_status :: string
  sf_outputSignature :: jobj
  sf_postconditions :: "precondition_result list"
  sf_repairApplied :: bool
  sf_repairNote :: "string option"
  sf_error :: "string option"

definition step_after_body :: "run_setting \<Rightarrow> playbook_step \<Rightarrow> step_after \<Rightarrow> jobj" where
  "step_after_body C st a =
     run_members C @ rx_identity C @
     [(''run_id'', JStr (rx_run_id C))] @ opt_member ''step_id'' (map_option JStr (sf_stepId a))
     @ opt_member ''step_index'' (map_option JNum (st_stepIndex st))
     @ [(''status'', JStr (sf_status a)), (''output_signature'', JObj (sf_outputSignature a)),
        (''postconditions'', checks_value (sf_postconditions a)), (''artifact_refs'', JArr []),
        (''repair_applied'', JBool (sf_repairApplied a))]
     @ opt_member ''repair_note'' (map_option JStr (sf_repairNote a))
     @ opt_member ''error'' (map_option JStr (sf_error a))"

definition writeStepAfter :: "replay_world \<Rightarrow> run_setting \<Rightarrow> playbook_step \<Rightarrow> step_after \<Rightarrow> unit io" where
  "writeStepAfter W C st a =
     (if rx_record C
      then then_do (attempt (Wrote (WriteStepAfter (step_after_body C st a)))
                      (\<lambda>t. w_write W t (WriteStepAfter (step_after_body C st a)))) (\<lambda>_. return_act ())
      else return_act ())"

section \<open>Handlers\<close>

record handled_step =
  hs_report :: jobj
  hs_delta :: run_counters
  hs_stop :: bool
  hs_usage :: "jv option"

definition one_if :: "bool \<Rightarrow> nat" where
  "one_if b = (if b then 1 else 0)"

definition handleReplayStrictGateStep ::
  "replay_world \<Rightarrow> run_setting \<Rightarrow> playbook_step \<Rightarrow> string option \<Rightarrow> gate_decision
     \<Rightarrow> precondition_result list option \<Rightarrow> bool \<Rightarrow> handled_step io" where
  "handleReplayStrictGateStep W C st stepId g preconditions countBlocked =
     (let artifacts = buildReplayStrictGateStepArtifacts (st_stepIndex st) (st_toolName st) g preconditions
      in then_do (writeStepAfter W C st
           \<lparr>sf_stepId = stepId, sf_status = ''failed'', sf_outputSignature = snd artifacts, sf_postconditions = [],
            sf_repairApplied = False, sf_repairNote = None, sf_error = Some (gd_reason g)\<rparr>)
         (\<lambda>_. return_act \<lparr>hs_report = fst artifacts,
                         hs_delta = zero_counters\<lparr>ct_failed := 1, ct_blocked := one_if countBlocked\<rparr>,
                         hs_stop = rx_stopOnFailure C, hs_usage = None\<rparr>))"

definition guidedRepairUsage :: "jv \<Rightarrow> jv option" where
  "guidedRepairUsage repair =
     (case asObject (Some repair) of Some r \<Rightarrow> asObject (js_get r ''usage'') | None \<Rightarrow> None)"

definition handleReplayGuidedGateStep ::
  "replay_world \<Rightarrow> run_setting \<Rightarrow> playbook_step \<Rightarrow> string option \<Rightarrow> gate_decision
     \<Rightarrow> precondition_result list option \<Rightarrow> bool \<Rightarrow> handled_step io" where
  "handleReplayGuidedGateStep W C st stepId g preconditions countBlocked =
     then_do (makeGuidedRepairPatch W (rx_repair C)
       \<lparr>ri_stepIndex = st_stepIndex st, ri_toolName = st_toolName st, ri_reason = gd_reason g,
        ri_detail = gd_detail g, ri_stepObj = st_stepObj st, ri_command = gd_command g,
        ri_argv = gd_sensitiveArgv g\<rparr>) (\<lambda>repair.
     let artifacts = buildReplayGuidedGateStepArtifacts (st_stepIndex st) (st_toolName st) g preconditions repair
     in then_do (writeStepAfter W C st
          \<lparr>sf_stepId = stepId, sf_status = ''partial'', sf_outputSignature = snd artifacts, sf_postconditions = [],
           sf_repairApplied = True, sf_repairNote = Some (gd_reason g), sf_error = None\<rparr>)
        (\<lambda>_. return_act \<lparr>hs_report = fst artifacts,
                        hs_delta = zero_counters\<lparr>ct_repaired := 1, ct_skipped := 1, ct_blocked := one_if countBlocked\<rparr>,
                        hs_stop = False, hs_usage = guidedRepairUsage repair\<rparr>))"

definition pending_reason :: string where
  "pending_reason = ''sandbox_async_execution_pending''"

definition handleReplayPendingStep ::
  "replay_world \<Rightarrow> run_setting \<Rightarrow> playbook_step \<Rightarrow> string option \<Rightarrow> string list \<Rightarrow> command_result \<Rightarrow> handled_step io" where
  "handleReplayPendingStep W C st stepId argv exec =
     (let guided = (rx_mode C = ReplayGuided)
      in then_do (writeStepAfter W C st
           \<lparr>sf_stepId = stepId, sf_status = (if guided then ''partial'' else ''failed''),
            sf_outputSignature = buildReplayPendingOutputSignature pending_reason (rx_backend C)
                                   (xr_sandbox_run_id exec) (xr_raw_status exec),
            sf_postconditions = [], sf_repairApplied = guided,
            sf_repairNote = (if guided then Some pending_reason else None),
            sf_error = (if guided then None else Some pending_reason)\<rparr>)
         (\<lambda>_. return_act \<lparr>hs_report = buildReplayPendingStepReport (st_stepIndex st) (st_toolName st) (rx_mode C)
                                        (command_of argv) argv (rx_backend C) (xr_sandbox_run_id exec) pending_reason,
                         hs_delta = zero_counters\<lparr>ct_executed := 1, ct_pending := 1, ct_repaired := one_if guided,
                                                 ct_failed := one_if (rx_mode C = ReplayStrict)\<rparr>,
                         hs_stop = (rx_mode C = ReplayStrict \<and> rx_stopOnFailure C), hs_usage = None\<rparr>))"

definition handleReplaySuccessStep ::
  "replay_world \<Rightarrow> run_setting \<Rightarrow> playbook_step \<Rightarrow> string option \<Rightarrow> execution_details \<Rightarrow> handled_step io" where
  "handleReplaySuccessStep W C st stepId d =
     then_do (writeStepAfter W C st
       \<lparr>sf_stepId = stepId, sf_status = ''success'', sf_outputSignature = buildReplaySuccessOutputSignature d,
        sf_postconditions = ed_postconditions d, sf_repairApplied = False, sf_repairNote = None, sf_error = None\<rparr>)
     (\<lambda>_. return_act \<lparr>hs_report = buildReplayExecutionSuccessStepReport (st_stepIndex st) (st_toolName st) d,
                     hs_delta = zero_counters\<lparr>ct_executed := 1, ct_succeeded := 1\<rparr>,
                     hs_stop = False, hs_usage = None\<rparr>)"

definition handleReplayStrictFailureStep ::
  "replay_world \<Rightarrow> run_setting \<Rightarrow> playbook_step \<Rightarrow> string option \<Rightarrow> execution_details
     \<Rightarrow> precondition_result list \<Rightarrow> string \<Rightarrow> handled_step io" where
  "handleReplayStrictFailureStep W C st stepId d preconditions err =
     then_do (writeStepAfter W C st
       \<lparr>sf_stepId = stepId, sf_status = ''failed'', sf_outputSignature = buildReplayFailureOutputSignature d preconditions,
        sf_postconditions = ed_postconditions d, sf_repairApplied = False, sf_repairNote = None, sf_error = Some err\<rparr>)
     (\<lambda>_. return_act \<lparr>hs_report = buildReplayExecutionFailureStepReport (st_stepIndex st) (st_toolName st) d err,
                     hs_delta = zero_counters\<lparr>ct_executed := 1, ct_failed := 1\<rparr>,
                     hs_stop = rx_stopOnFailure C, hs_usage = None\<rparr>)"

definition handleReplayGuidedFailureStep ::
  "replay_world \<Rightarrow> run_setting \<Rightarrow> playbook_step \<Rightarrow> string option \<Rightarrow> execution_details \<Rightarrow> string \<Rightarrow> handled_step io" where
  "handleReplayGuidedFailureStep W C st stepId d err =
     then_do (makeGuidedRepairPatch W (rx_repair C)
       \<lparr>ri_stepIndex = st_stepIndex st, ri_toolName = st_toolName st, ri_reason = ''execution_failed_guided_skip'',
        ri_detail = Some err, ri_stepObj = st_stepObj st, ri_command = Some (ed_command d),
        ri_argv = Some (ed_argv d)\<rparr>) (\<lambda>repair.
     then_do (writeStepAfter W C st
       \<lparr>sf_stepId = stepId, sf_status = ''partial'',
        sf_outputSignature = buildReplayGuidedPartialOutputSignature d repair,
        sf_postconditions = ed_postconditions d, sf_repairApplied = True, sf_repairNote = Some err, sf_error = Some err\<rparr>)
     (\<lambda>_. return_act \<lparr>hs_report = buildReplayGuidedPartialStepReport (st_stepIndex st) (st_toolName st) d repair,
                     hs_delta = zero_counters\<lparr>ct_executed := 1, ct_repaired := 1\<rparr>,
                     hs_stop = False, hs_usage = guidedRepairUsage repair\<rparr>))"

section \<open>One step\<close>

definition gated_step ::
  "replay_world \<Rightarrow> run_setting \<Rightarrow> playbook_step \<Rightarrow> string option \<Rightarrow> gate_decision
     \<Rightarrow> precondition_result list option \<Rightarrow> bool \<Rightarrow> bool \<Rightarrow> handled_step io" where
  "gated_step W C st stepId g preconditions strictBlocked guidedBlocked =
     (if rx_mode C = ReplayStrict
      then handleReplayStrictGateStep W C st stepId g preconditions strictBlocked
      else handleReplayGuidedGateStep W C st stepId g preconditions guidedBlocked)"

definition step_argv :: "playbook_step \<Rightarrow> string list" where
  "step_argv st = parseStepArgv (st_stepObj st) (st_toolName st)"

text \<open>
  The gates after the preconditions, in their order, with whether a strict run counts the step
  as blocked.
\<close>

definition command_gate :: "run_setting \<Rightarrow> playbook_step \<Rightarrow> (gate_decision \<times> bool) option" where
  "command_gate C st =
     (case resolveReplayConfirmationGate (st_safetyLevel st) (rx_autoConfirm C) of
        Some g \<Rightarrow> Some (g, False)
      | None \<Rightarrow>
     (case resolveReplayUnsupportedToolGate (st_toolName st) of
        Some g \<Rightarrow> Some (g, False)
      | None \<Rightarrow>
     (let argv = step_argv st; command = command_of argv in
     case resolveReplayCommandAllowlistGate argv (rx_allowedCommands C) of
        Some g \<Rightarrow> Some (g, False)
      | None \<Rightarrow>
          map_option (\<lambda>g. (g, True))
            (resolveReplaySensitiveCommandGate command argv (detectSensitiveCommand command argv)
               (rx_sensitiveReviewMode C) (rx_allowSensitiveExec C)))))"

definition sensitive_review_info :: "run_setting \<Rightarrow> string list \<Rightarrow> jv option" where
  "sensitive_review_info C argv =
     (let command = command_of argv; sens = detectSensitiveCommand command argv
      in if sn_sensitive sens
         then Some (JObj [(''command'', JStr command), (''argv'', texts argv), (''reason'', text_or_null (sn_reason sens)),
                          (''risk_level'', JStr (risk_level_name (sn_risk_level sens))),
                          (''mode'', JStr (review_mode_name (rx_sensitiveReviewMode C))),
                          (''override_used'', JBool (rx_allowSensitiveExec C))])
         else None)"

definition step_request :: "run_setting \<Rightarrow> string list \<Rightarrow> command_request" where
  "step_request C argv =
     \<lparr>cr_backend = rx_backend C, cr_tenant_id = rx_tenant_id C, cr_scope = rx_scope C,
      cr_project_id = rx_project_id C, cr_argv = argv, cr_timeout_ms = rx_timeoutMs C, cr_cwd = rx_workdir C,
      cr_stdioMaxBytes = rx_stdioMaxBytes C, cr_sandbox_available = rx_sandbox_available C\<rparr>"

definition settle_step ::
  "replay_world \<Rightarrow> run_setting \<Rightarrow> playbook_step \<Rightarrow> string option \<Rightarrow> precondition_result list \<Rightarrow> string list
     \<Rightarrow> command_result \<Rightarrow> command_outcome \<Rightarrow> handled_step io" where
  "settle_step W C st stepId preChecks argv exec out =
     (let signature = evaluateExpectedSignature W (Some (st_expectedSignature st)) out in
      then_do (each_act (\<lambda>cond. evaluatePostcondition W cond out) (st_postconditions st)) (\<lambda>postChecks.
      let d = \<lparr>ed_command = command_of argv, ed_argv = argv, ed_backend = rx_backend C,
               ed_sandbox_run_id = xr_sandbox_run_id exec, ed_sensitiveReview = sensitive_review_info C argv,
               ed_execution = out,
               ed_resultSummary = summarizeToolResult
                 \<lparr>tr_stdout = co_stdout out, tr_stderr = co_stderr out, tr_result = None,
                  tr_exit_code = co_exit_code out, tr_error = co_error out, tr_truncated = False\<rparr>,
               ed_signature = signature, ed_postconditions = postChecks\<rparr>
      in if isReplayExecutionPassed out signature postChecks then handleReplaySuccessStep W C st stepId d
         else if rx_mode C = ReplayStrict
           then handleReplayStrictFailureStep W C st stepId d preChecks (resolveReplayExecutionFailureReason out)
         else handleReplayGuidedFailureStep W C st stepId d (resolveReplayExecutionFailureReason out)))"

definition run_command_step ::
  "replay_world \<Rightarrow> run_setting \<Rightarrow> playbook_step \<Rightarrow> string option \<Rightarrow> precondition_result list \<Rightarrow> handled_step io" where
  "run_command_step W C st stepId preChecks =
     then_do (executeReplayCommand W (step_request C (step_argv st))) (\<lambda>exec.
       (case xr_outcome exec of
          Some out \<Rightarrow>
            if xr_pending exec then handleReplayPendingStep W C st stepId (step_argv st) exec
            else settle_step W C st stepId preChecks (step_argv st) exec out
        | None \<Rightarrow> handleReplayPendingStep W C st stepId (step_argv st) exec))"

definition check_preconditions :: "replay_world \<Rightarrow> playbook_step \<Rightarrow> precondition_result list io" where
  "check_preconditions W st = each_act (evaluatePrecondition W) (st_preconditions st)"

definition replay_step :: "replay_world \<Rightarrow> run_setting \<Rightarrow> jv \<Rightarrow> handled_step io" where
  "replay_step W C step =
     (let st = read_step step in
      then_do (step_before W C st) (\<lambda>stepId.
      then_do (check_preconditions W st) (\<lambda>preChecks.
        (case resolveReplayPreconditionGate preChecks of
           Some g \<Rightarrow> gated_step W C st stepId g (Some preChecks) True True
         | None \<Rightarrow>
             (case command_gate C st of
                Some (g, blocked) \<Rightarrow> gated_step W C st stepId g None blocked False
              | None \<Rightarrow> run_command_step W C st stepId preChecks)))))"

section \<open>The loop\<close>

record run_progress =
  rp_reports :: "jobj list"
  rp_counters :: run_counters
  rp_usage :: replay_usage

definition take_step :: "run_progress \<Rightarrow> handled_step \<Rightarrow> run_progress" where
  "take_step p h =
     p\<lparr>rp_reports := rp_reports p @ [hs_report h],
       rp_counters := applyReplayRunStepDelta (rp_counters p) (hs_delta h),
       rp_usage := mergeReplayUsage (rp_usage p) (hs_usage h)\<rparr>"

fun replay_steps :: "replay_world \<Rightarrow> run_setting \<Rightarrow> jv list \<Rightarrow> run_progress \<Rightarrow> run_progress io" where
  "replay_steps W C [] p = return_act p"
| "replay_steps W C (step # rest) p =
     then_do (replay_step W C step) (\<lambda>h.
       if hs_stop h then return_act (take_step p h) else replay_steps W C rest (take_step p h))"

section \<open>Simulation\<close>

record simulation =
  sm_reports :: "jobj list"
  sm_ready :: nat
  sm_blocked :: nat
  sm_unknown :: nat

definition readiness_of :: "precondition_result list \<Rightarrow> string" where
  "readiness_of checks =
     (if filter (\<lambda>e. pr_state e = CheckFail) checks \<noteq> [] then ''blocked''
      else if filter (\<lambda>e. pr_state e = CheckUnknown) checks \<noteq> [] then ''unknown'' else ''ready'')"

definition simulated_argv :: "playbook_step \<Rightarrow> string list" where
  "simulated_argv st = (if isReplayCommandTool (st_toolName st) then step_argv st else [])"

definition command_or_null :: "string list \<Rightarrow> string option" where
  "command_or_null argv = (if command_of argv = [] then None else Some (command_of argv))"

definition actor_member :: "run_setting \<Rightarrow> jobj" where
  "actor_member C = opt_member ''actor'' (map_option JStr (rx_actor C))"

definition simulated_before :: "run_setting \<Rightarrow> playbook_step \<Rightarrow> jobj" where
  "simulated_before C st =
     step_before_body C st (actor_member C)
       (opt_member ''retry_policy'' (asObject (js_get (st_stepObj st) ''retry_policy'')))"

definition simulated_after :: "run_setting \<Rightarrow> playbook_step \<Rightarrow> string \<Rightarrow> string option \<Rightarrow> jobj" where
  "simulated_after C st readiness stepId =
     run_members C @ actor_member C @ rx_identity C @
     [(''run_id'', JStr (rx_run_id C))] @ opt_member ''step_id'' (map_option JStr stepId)
     @ [(''step_index'', num_or_null (st_stepIndex st)),
        (''status'', JStr (if readiness = ''ready'' then ''success'' else ''partial'')),
        (''output_signature'', JObj [(''readiness'', JStr readiness),
           (''command'', text_or_null (command_or_null (simulated_argv st))), (''argv'', texts (simulated_argv st))]),
        (''postconditions'', JArr []), (''artifact_refs'', JArr []), (''repair_applied'', JBool False)]
     @ opt_member ''error'' (if readiness = ''blocked'' then Some (JStr ''simulate_blocked'')
                            else if readiness = ''unknown'' then Some (JStr ''simulate_unknown'') else None)
     @ [(''metadata'', JObj [(''replay_mode'', JStr ''simulate''), (''readiness'', JStr readiness)])]"

definition persist_simulated :: "replay_world \<Rightarrow> run_setting \<Rightarrow> playbook_step \<Rightarrow> string \<Rightarrow> unit io" where
  "persist_simulated W C st readiness =
     (if recordable C st
      then then_do (attempt (Wrote (WriteStepBefore (simulated_before C st)))
                      (\<lambda>t. w_write W t (WriteStepBefore (simulated_before C st)))) (\<lambda>stored.
           let after = WriteStepAfter (simulated_after C st readiness (toStringOrNull (js_get (JObj stored) ''step_id'')))
           in then_do (attempt (Wrote after) (\<lambda>t. w_write W t after)) (\<lambda>_. return_act ()))
      else return_act ())"

definition simulated_review :: "string list \<Rightarrow> jv" where
  "simulated_review argv =
     (let sens = (if command_of argv = [] then harmless_command else detectSensitiveCommand (command_of argv) argv)
      in if sn_sensitive sens
         then JObj [(''required_override'', JBool True), (''reason'', text_or_null (sn_reason sens)),
                    (''risk_level'', JStr (risk_level_name (sn_risk_level sens))), (''default_mode'', JStr ''block'')]
         else JNull)"

definition count_simulated :: "simulation \<Rightarrow> string \<Rightarrow> jobj \<Rightarrow> simulation" where
  "count_simulated s readiness report =
     s\<lparr>sm_reports := sm_reports s @ [report], sm_ready := sm_ready s + one_if (readiness = ''ready''),
       sm_blocked := sm_blocked s + one_if (readiness = ''blocked''),
       sm_unknown := sm_unknown s + one_if (readiness = ''unknown'')\<rparr>"

fun simulateReplaySteps :: "replay_world \<Rightarrow> run_setting \<Rightarrow> jv list \<Rightarrow> simulation \<Rightarrow> simulation io" where
  "simulateReplaySteps W C [] s = return_act s"
| "simulateReplaySteps W C (step # rest) s =
     (let st = read_step step; argv = simulated_argv st in
      then_do (check_preconditions W st) (\<lambda>checks.
      then_do (persist_simulated W C st (readiness_of checks)) (\<lambda>_.
        simulateReplaySteps W C rest
          (count_simulated s (readiness_of checks)
            (buildReplaySimulateStepReport (st_stepIndex st) (st_toolName st) (st_safetyLevel st)
               (readiness_of checks) (command_or_null argv) argv (simulated_review argv) checks)))))"

end
