(* ===== verification/ReplayRun.thy ===== *)
theory ReplayRun
  imports ReplaySteps
begin

text \<open>
  Candidate, run and dispatch of a playbook: \<^verbatim>\<open>replayPlaybookCandidate\<close>,
  \<^verbatim>\<open>replayPlaybookRun\<close> and \<^verbatim>\<open>replayPlaybookDispatch\<close> of src/memory/replay.ts, with the
  deterministic gate of replay-compile-helpers.ts, the bodies of replay-run-lifecycle.ts and the
  surfaces of replay-run-surfaces.ts.  Requests are taken as parsed by their schema.
\<close>

section \<open>The deterministic gate\<close>

record deterministic_gate =
  dg_enabled :: bool
  dg_prefer :: bool
  dg_reject :: bool
  dg_requiredStatuses :: "string list"
  dg_matchers :: "jv option"
  dg_policyConstraints :: "jv option"

definition default_statuses :: "string list" where
  "default_statuses = [''shadow'', ''active'']"

definition resolveReplayDeterministicGate :: "jv option \<Rightarrow> deterministic_gate" where
  "resolveReplayDeterministicGate inp =
     (case asObject inp of
        None \<Rightarrow> \<lparr>dg_enabled = False, dg_prefer = False, dg_reject = False, dg_requiredStatuses = default_statuses,
                 dg_matchers = None, dg_policyConstraints = None\<rparr>
      | Some ob \<Rightarrow>
          (let required = (case js_get ob ''required_statuses'' of
                             Some (JArr vs) \<Rightarrow> List.map_filter (\<lambda>v. toStringOrNull (Some v)) vs
                           | _ \<Rightarrow> default_statuses)
           in \<lparr>dg_enabled = (js_get ob ''enabled'' \<noteq> Some (JBool False)),
               dg_prefer = (js_get ob ''prefer_deterministic_execution'' \<noteq> Some (JBool False)),
               dg_reject = (js_get ob ''on_mismatch'' = Some (JStr ''reject'')),
               dg_requiredStatuses = (if required \<noteq> [] then required else default_statuses),
               dg_matchers = asObject (js_get ob ''matchers''),
               dg_policyConstraints = asObject (js_get ob ''policy_constraints'')\<rparr>))"

datatype gate_verdict = GateDisabled | GateMatched | GatePromoted | GateFallback | GateRejected

fun gate_verdict_name :: "gate_verdict \<Rightarrow> string" where
  "gate_verdict_name GateDisabled = ''disabled''"
| "gate_verdict_name GateMatched = ''matched''"
| "gate_verdict_name GatePromoted = ''promoted_to_strict''"
| "gate_verdict_name GateFallback = ''fallback_to_requested_mode''"
| "gate_verdict_name GateRejected = ''rejected''"

record gate_evaluation =
  ge_enabled :: bool
  ge_requested_mode :: replay_mode
  ge_effective_mode :: replay_mode
  ge_decision :: gate_verdict
  ge_mismatch_reasons :: "string list"
  ge_inference_skipped :: bool
  ge_playbook_status :: string
  ge_required_statuses :: "string list"
  ge_status_match :: bool
  ge_matchers_match :: bool
  ge_policy_constraints_match :: bool
  ge_matched :: bool
  ge_request_matcher_fingerprint :: "string option"
  ge_playbook_matcher_fingerprint :: string
  ge_request_policy_fingerprint :: "string option"
  ge_playbook_policy_fingerprint :: string

definition fingerprintHexForReplay :: "replay_world \<Rightarrow> jv \<Rightarrow> string" where
  "fingerprintHexForReplay W v = w_sha256 W (stableJsonForFingerprint v)"

definition same_shape :: "jv option \<Rightarrow> jv \<Rightarrow> bool" where
  "same_shape requested own =
     (case requested of None \<Rightarrow> True | Some v \<Rightarrow> stableJsonForFingerprint v = stableJsonForFingerprint own)"

definition evaluateReplayDeterministicGate ::
  "replay_world \<Rightarrow> replay_mode \<Rightarrow> jv option \<Rightarrow> string option \<Rightarrow> jv \<Rightarrow> gate_evaluation" where
  "evaluateReplayDeterministicGate W requestedMode gateInput status slots =
     (let gate = resolveReplayDeterministicGate gateInput;
          playbookStatus = (case status of Some s \<Rightarrow> s | None \<Rightarrow> ''draft'');
          matchers = object_or_empty (js_get slots ''matchers'');
          constraints = object_or_empty (js_get slots ''policy_constraints'');
          statusMatch = (playbookStatus \<in> set (dg_requiredStatuses gate));
          matchersMatch = same_shape (dg_matchers gate) matchers;
          policyMatch = same_shape (dg_policyConstraints gate) constraints;
          matched = (dg_enabled gate \<and> statusMatch \<and> matchersMatch \<and> policyMatch);
          effective = (if matched \<and> dg_prefer gate \<and> requestedMode = ReplaySimulate then ReplayStrict else requestedMode)
      in \<lparr>ge_enabled = dg_enabled gate, ge_requested_mode = requestedMode, ge_effective_mode = effective,
          ge_decision = (if \<not> dg_enabled gate then GateDisabled
                         else if matched then
                           (if effective = ReplayStrict \<and> requestedMode = ReplaySimulate then GatePromoted else GateMatched)
                         else if dg_reject gate then GateRejected else GateFallback),
          ge_mismatch_reasons =
            (if dg_enabled gate \<and> \<not> statusMatch then [''status_not_allowed_for_deterministic_replay''] else [])
            @ (if dg_enabled gate \<and> \<not> matchersMatch then [''matcher_fingerprint_mismatch''] else [])
            @ (if dg_enabled gate \<and> \<not> policyMatch then [''policy_constraints_fingerprint_mismatch''] else []),
          ge_inference_skipped = (matched \<and> effective = ReplayStrict),
          ge_playbook_status = playbookStatus, ge_required_statuses = dg_requiredStatuses gate,
          ge_status_match = statusMatch, ge_matchers_match = matchersMatch,
          ge_policy_constraints_match = policyMatch, ge_matched = matched,
          ge_request_matcher_fingerprint = map_option (fingerprintHexForReplay W) (dg_matchers gate),
          ge_playbook_matcher_fingerprint = fingerprintHexForReplay W matchers,
          ge_request_policy_fingerprint = map_option (fingerprintHexForReplay W) (dg_policyConstraints gate),
          ge_playbook_policy_fingerprint = fingerprintHexForReplay W constraints\<rparr>)"

definition nextActionForReplayDeterministicGate :: "gate_evaluation \<Rightarrow> string" where
  "nextActionForReplayDeterministicGate e =
     (if \<not> ge_enabled e then ''deterministic_gate_not_requested''
      else if ge_matched e then ''safe_to_skip_primary_inference''
      else if ge_decision e = GateRejected then ''inspect_gate_mismatch_before_execution''
      else if ''status_not_allowed_for_deterministic_replay'' \<in> set (ge_mismatch_reasons e)
        then ''promote_or_select_a_replayable_playbook_version''
      else ''fallback_to_normal_planner_or_simulate'')"

definition gate_value :: "gate_evaluation \<Rightarrow> jv" where
  "gate_value e =
     JObj [(''enabled'', JBool (ge_enabled e)), (''requested_mode'', JStr (replay_mode_name (ge_requested_mode e))),
           (''effective_mode'', JStr (replay_mode_name (ge_effective_mode e))),
           (''decision'', JStr (gate_verdict_name (ge_decision e))), (''mismatch_reasons'', texts (ge_mismatch_reasons e)),
           (''inference_skipped'', JBool (ge_inference_skipped e)), (''playbook_status'', JStr (ge_playbook_status e)),
           (''required_statuses'', texts (ge_required_statuses e)), (''status_match'', JBool (ge_status_match e)),
           (''matchers_match'', JBool (ge_matchers_match e)),
           (''policy_constraints_match'', JBool (ge_policy_constraints_match e)), (''matched'', JBool (ge_matched e)),
           (''request_matcher_fingerprint'', text_or_null (ge_request_matcher_fingerprint e)),
           (''playbook_matcher_fingerprint'', JStr (ge_playbook_matcher_fingerprint e)),
           (''request_policy_fingerprint'', text_or_null (ge_request_policy_fingerprint e)),
           (''playbook_policy_fingerprint'', JStr (ge_playbook_policy_fingerprint e))]"

text \<open>The cost signals of an evaluation (src/memory/cost-signals.ts).\<close>

definition buildReplayCostSignals :: "gate_evaluation option \<Rightarrow> bool \<Rightarrow> jv" where
  "buildReplayCostSignals gate fallbackExecuted =
     (let skipped = (\<exists>e \<in> set_option gate. ge_inference_skipped e);
          eligible = (\<exists>e \<in> set_option gate. ge_matched e);
          reasons = (case gate of Some e \<Rightarrow> ge_mismatch_reasons e | None \<Rightarrow> []);
          lever = (\<lambda>b name. if b then [name] else [])
      in JObj [(''summary_version'', JStr ''replay_cost_signals_v1''),
               (''deterministic_replay_eligible'', JBool eligible), (''primary_inference_skipped'', JBool skipped),
               (''estimated_primary_model_calls_avoided'', JNum (Fin (if skipped then 1 else 0))),
               (''fallback_executed'', JBool fallbackExecuted),
               (''requested_mode'', JStr (case gate of Some e \<Rightarrow> replay_mode_name (ge_requested_mode e) | None \<Rightarrow> ''simulate'')),
               (''effective_mode'', JStr (case gate of Some e \<Rightarrow> replay_mode_name (ge_effective_mode e) | None \<Rightarrow> ''simulate'')),
               (''mismatch_reasons'', texts reasons),
               (''primary_savings_levers'', texts
                  (lever eligible ''deterministic_replay_match'' @ lever skipped ''primary_inference_skipped''
                   @ lever fallbackExecuted ''fallback_replay'' @ lever (reasons \<noteq> []) ''deterministic_gate_mismatch''))])"

section \<open>Addresses\<close>

definition is_hex :: "char \<Rightarrow> bool" where
  "is_hex c \<longleftrightarrow> is_digit c \<or> (97 \<le> code c \<and> code c \<le> 102) \<or> (65 \<le> code c \<and> code c \<le> 70)"

text \<open>Five groups of hexadecimal digits; \<open>UUID_V4_OR_VX\<close> also restricts version and variant.\<close>

definition UUID_RE :: "string \<Rightarrow> bool" where
  "UUID_RE s \<longleftrightarrow> map length (js_split (CHR ''-'') s) = [8, 4, 4, 4, 12]
                  \<and> list_all (list_all is_hex) (js_split (CHR ''-'') s)"

definition UUID_V4_OR_VX :: "string \<Rightarrow> bool" where
  "UUID_V4_OR_VX s \<longleftrightarrow>
     UUID_RE s \<and> s ! 14 \<in> set ''12345678'' \<and> lower_char (s ! 19) \<in> set ''89ab''"

definition URI_OBJECT_TYPES :: "string list" where
  "URI_OBJECT_TYPES =
     [''event'', ''entity'', ''topic'', ''rule'', ''evidence'', ''concept'', ''procedure'', ''self_model'',
      ''edge'', ''commit'', ''decision'']"

definition upper_hex :: "nat \<Rightarrow> char" where
  "upper_hex d = (if d < 10 then char_of (48 + d) else char_of (55 + d))"

definition percent_byte :: "nat \<Rightarrow> string" where
  "percent_byte b = [CHR ''%'', upper_hex (b div 16), upper_hex (b mod 16)]"

text \<open>\<^verbatim>\<open>encodeURIComponent\<close> on 8-bit characters, which take one or two bytes of UTF-8.\<close>

definition encodeURIComponent :: "string \<Rightarrow> string" where
  "encodeURIComponent s =
     concat (map (\<lambda>c. if is_alnum c \<or> c \<in> set (''-_.!~*()'' @ [CHR 0x27]) then [c]
                      else if code c < 128 then percent_byte (code c)
                      else percent_byte (192 + code c div 64) @ percent_byte (128 + code c mod 64)) s)"

definition buildAionisUri :: "string \<Rightarrow> string \<Rightarrow> string \<Rightarrow> string \<Rightarrow> http_error + string" where
  "buildAionisUri tenantId scope typ ident =
     (let tenantId = js_trim tenantId; scope = js_trim scope; typ = js_trim typ; ident = js_trim ident
      in if tenantId = [] \<or> scope = [] \<or> typ = [] \<or> ident = [] then
           badRequest ''invalid_aionis_uri_parts'' ''tenant_id, scope, type, id are required for URI generation'' None
         else if typ \<notin> set URI_OBJECT_TYPES then
           badRequest ''invalid_aionis_uri_parts'' ''type is not supported for URI generation''
             (Some (JObj [(''type'', JStr typ)]))
         else if \<not> UUID_RE ident then
           badRequest ''invalid_aionis_uri_parts'' ''id must be a UUID for URI generation'' (Some (JObj [(''id'', JStr ident)]))
         else Inr (''aionis://'' @ encodeURIComponent tenantId @ ''/'' @ encodeURIComponent scope @ ''/''
                   @ encodeURIComponent typ @ ''/'' @ encodeURIComponent ident))"

section \<open>Options and requests\<close>

record local_executor =
  le_enabled :: bool
  le_local_process :: bool
  le_allowedCommands :: "string list"
  le_workdir :: string
  le_timeoutMs :: jsnum
  le_stdioMaxBytes :: jsnum

record guided_options =
  go_strategy :: repair_strategy
  go_allowRequestBuiltinLlm :: bool
  go_maxErrorChars :: jsnum
  go_httpEndpoint :: "string option"
  go_httpTimeoutMs :: "jsnum option"
  go_httpAuthToken :: "string option"
  go_llmBaseUrl :: "string option"
  go_llmApiKey :: "string option"
  go_llmModel :: "string option"
  go_llmTimeoutMs :: "jsnum option"
  go_llmMaxTokens :: "jsnum option"
  go_llmTemperature :: "jsnum option"

record run_options =
  op_defaultScope :: string
  op_defaultTenantId :: string
  op_embedded_without_access :: bool
  op_writeOptions :: bool
  op_localExecutor :: "local_executor option"
  op_guidedRepair :: "guided_options option"
  op_sandboxExecutor :: bool
  op_sandboxBudgetGuard :: bool

record playbook_request =
  rq_tenant_id :: "string option"
  rq_scope :: "string option"
  rq_project_id :: "string option"
  rq_actor :: "string option"
  rq_consumer_agent_id :: "string option"
  rq_consumer_team_id :: "string option"
  rq_memory_lane :: "string option"
  rq_producer_agent_id :: "string option"
  rq_owner_agent_id :: "string option"
  rq_owner_team_id :: "string option"
  rq_playbook_id :: string
  rq_version :: "nat option"
  rq_mode :: replay_mode
  rq_deterministic_gate :: "jv option"
  rq_params :: "jv option"
  rq_max_steps :: nat

definition requireReplayReadAccess :: "run_options \<Rightarrow> unit io" where
  "requireReplayReadAccess opts =
     (if op_embedded_without_access opts
      then http_fail 501 ''replay_read_not_supported_in_embedded''
             ''Replay read/compile endpoints currently require postgres backend.'' None
      else return_act ())"

definition playbook_query_of :: "playbook_request \<Rightarrow> tenant_scope \<Rightarrow> playbook_query" where
  "playbook_query_of rq ten =
     \<lparr>pq_scope_key = ts_scope_key ten, pq_playbook_id = rq_playbook_id rq, pq_version = rq_version rq,
      pq_consumer_agent_id = trimmed_or_null (rq_consumer_agent_id rq),
      pq_consumer_team_id = trimmed_or_null (rq_consumer_team_id rq)\<rparr>"

text \<open>The version asked for, or the latest.\<close>

definition find_playbook ::
  "replay_world \<Rightarrow> run_options \<Rightarrow> playbook_request \<Rightarrow> (tenant_scope \<times> playbook_row) io" where
  "find_playbook W opts rq =
     then_do (requireReplayReadAccess opts) (\<lambda>_.
     then_do (request_io (resolveTenantScope (rq_scope rq) (rq_tenant_id rq) (op_defaultScope opts) (op_defaultTenantId opts)))
       (\<lambda>ten.
     then_do (attempt (Looked (playbook_query_of rq ten)) (\<lambda>t. w_playbook W t (playbook_query_of rq ten))) (\<lambda>found.
       (case found of
          Some row \<Rightarrow> return_act (ten, row)
        | None \<Rightarrow> http_fail 404 ''replay_playbook_not_found'' ''playbook was not found in this scope''
                    (Some [(''playbook_id'', JStr (rq_playbook_id rq)),
                           (''version'', case rq_version rq of Some v \<Rightarrow> count_value v | None \<Rightarrow> JNull),
                           (''scope'', JStr (ts_scope ten)), (''tenant_id'', JStr (ts_tenant_id ten))])))))"

definition row_slots :: "playbook_row \<Rightarrow> jv" where
  "row_slots row = object_or_empty (Some (pb_slots row))"

definition evaluate_gate :: "replay_world \<Rightarrow> replay_mode \<Rightarrow> playbook_request \<Rightarrow> playbook_row \<Rightarrow> gate_evaluation" where
  "evaluate_gate W mode rq row =
     evaluateReplayDeterministicGate W mode (rq_deterministic_gate rq) (pb_playbook_status row) (row_slots row)"

definition or_some :: "'a option \<Rightarrow> 'a option \<Rightarrow> 'a option" where
  "or_some a b = (case a of Some _ \<Rightarrow> a | None \<Rightarrow> b)"

definition call_identity :: "playbook_request \<Rightarrow> playbook_row \<Rightarrow> jobj" where
  "call_identity rq row =
     opt_member ''consumer_agent_id'' (map_option JStr (rq_consumer_agent_id rq))
     @ opt_member ''consumer_team_id'' (map_option JStr (rq_consumer_team_id rq))
     @ [(''memory_lane'', JStr (case rq_memory_lane rq of Some l \<Rightarrow> l | None \<Rightarrow> pb_memory_lane row))]
     @ opt_member ''producer_agent_id'' (map_option JStr (or_some (rq_producer_agent_id rq) (pb_producer_agent_id row)))
     @ opt_member ''owner_agent_id'' (map_option JStr (or_some (rq_owner_agent_id rq) (pb_owner_agent_id row)))
     @ opt_member ''owner_team_id'' (map_option JStr (or_some (rq_owner_team_id rq) (pb_owner_team_id row)))"

definition row_uri :: "tenant_scope \<Rightarrow> playbook_row \<Rightarrow> string io" where
  "row_uri ten row = request_io (buildAionisUri (ts_tenant_id ten) (ts_scope ten) (pb_type row) (pb_id row))"

definition buildReplayRunPlaybookSurface :: "playbook_request \<Rightarrow> playbook_row \<Rightarrow> string \<Rightarrow> jv" where
  "buildReplayRunPlaybookSurface rq row uri =
     JObj [(''playbook_id'', JStr (rq_playbook_id rq)), (''version'', count_value (pb_version_num row)),
           (''status'', JStr (case pb_playbook_status row of Some s \<Rightarrow> s | None \<Rightarrow> ''draft'')),
           (''name'', text_or_null (pb_title row)), (''uri'', JStr uri)]"

section \<open>Settings of a run\<close>

definition params_of :: "playbook_request \<Rightarrow> jv" where
  "params_of rq = object_or_empty (rq_params rq)"

text \<open>The steps of the playbook, and the ones a request takes: the first \<open>max_steps\<close>.\<close>

definition playbook_steps :: "playbook_row \<Rightarrow> jv list" where
  "playbook_steps row = array_or_empty (js_get (row_slots row) ''steps_template'')"

definition steps_of :: "playbook_request \<Rightarrow> playbook_row \<Rightarrow> jv list" where
  "steps_of rq row = take (rq_max_steps rq) (playbook_steps row)"

definition param_text :: "playbook_request \<Rightarrow> string \<Rightarrow> string option" where
  "param_text rq k = toStringOrNull (js_get (params_of rq) k)"

definition param_true :: "playbook_request \<Rightarrow> string \<Rightarrow> bool" where
  "param_true rq k \<longleftrightarrow> js_get (params_of rq) k = Some (JBool True)"

definition param_number :: "playbook_request \<Rightarrow> string \<Rightarrow> jsnum option \<Rightarrow> jsnum \<Rightarrow> jsnum" where
  "param_number rq k configured standard =
     (case js_get (params_of rq) k of
        Some JNull \<Rightarrow> num_default configured standard
      | Some v \<Rightarrow> js_to_number v
      | None \<Rightarrow> num_default configured standard)"

definition records_run :: "run_options \<Rightarrow> playbook_request \<Rightarrow> bool" where
  "records_run opts rq \<longleftrightarrow> js_get (params_of rq) ''record_run'' \<noteq> Some (JBool False) \<and> op_writeOptions opts"

definition backend_of :: "playbook_request \<Rightarrow> replay_backend" where
  "backend_of rq = normalizeReplayExecutionBackend (param_text rq ''execution_backend'')"

definition server_commands :: "run_options \<Rightarrow> string list" where
  "server_commands opts = (case op_localExecutor opts of Some e \<Rightarrow> le_allowedCommands e | None \<Rightarrow> [])"

definition requested_commands :: "playbook_request \<Rightarrow> string list" where
  "requested_commands rq = asStringArray (js_get (params_of rq) ''allowed_commands'')"

definition allowed_of :: "run_options \<Rightarrow> playbook_request \<Rightarrow> string list" where
  "allowed_of opts rq = effective_commands (server_commands opts) (requested_commands rq)"

definition default_strategy :: "run_options \<Rightarrow> repair_strategy" where
  "default_strategy opts = (case op_guidedRepair opts of Some g \<Rightarrow> go_strategy g | None \<Rightarrow> DeterministicSkip)"

definition strategy_of :: "run_options \<Rightarrow> playbook_request \<Rightarrow> repair_strategy" where
  "strategy_of opts rq =
     (let requested = param_text rq ''guided_repair_strategy''
      in if requested = Some ''deterministic_skip'' then DeterministicSkip
         else if requested = Some ''heuristic_patch'' then HeuristicPatch
         else if requested = Some ''http_synth'' then HttpSynth
         else if requested = Some ''builtin_llm'' then BuiltinLlm
         else default_strategy opts)"

definition repair_of :: "run_options \<Rightarrow> playbook_request \<Rightarrow> repair_config" where
  "repair_of opts rq =
     (let g = op_guidedRepair opts; field = (\<lambda>f. Option.bind g f)
      in \<lparr>gr_strategy = strategy_of opts rq, gr_allowedCommands = allowed_of opts rq,
          gr_commandAliasMap = asStringRecord (js_get (params_of rq) ''command_alias_map''),
          gr_maxErrorChars = clampInt (param_number rq ''guided_repair_max_error_chars''
                               (map_option go_maxErrorChars g) (Fin 1200)) 64 20000,
          gr_httpEndpoint = field go_httpEndpoint, gr_httpTimeoutMs = Option.bind g go_httpTimeoutMs,
          gr_httpAuthToken = field go_httpAuthToken, gr_llmBaseUrl = field go_llmBaseUrl,
          gr_llmApiKey = field go_llmApiKey, gr_llmModel = field go_llmModel,
          gr_llmTimeoutMs = Option.bind g go_llmTimeoutMs, gr_llmMaxTokens = Option.bind g go_llmMaxTokens,
          gr_llmTemperature = Option.bind g go_llmTemperature\<rparr>)"

text \<open>What an execution must have before anything runs, in the order of the checks.\<close>

definition check_backend :: "run_options \<Rightarrow> playbook_request \<Rightarrow> replay_mode \<Rightarrow> unit io" where
  "check_backend opts rq mode =
     (let backend = backend_of rq; named = Some [(''execution_backend'', JStr (backend_name backend))];
          ready = (\<exists>e \<in> set_option (op_localExecutor opts). le_enabled e \<and> le_local_process e)
      in if backend = SandboxAsync \<and> mode = ReplayStrict then
           http_fail 400 ''replay_strict_async_not_supported''
             ''strict replay does not support async sandbox execution; use sandbox_sync or local_process.'' named
         else if backend = LocalProcess \<and> \<not> ready then
           http_fail 400 ''replay_executor_not_enabled''
             ''strict/guided replay with local_process requires SANDBOX_ENABLED=true and SANDBOX_EXECUTOR_MODE=local_process.''
             named
         else if backend \<noteq> LocalProcess \<and> \<not> op_sandboxExecutor opts then
           http_fail 400 ''replay_sandbox_executor_not_enabled''
             ''sandbox replay backend is not configured on this deployment'' named
         else if \<not> op_writeOptions opts then
           http_fail 500 ''replay_run_write_options_missing'' ''strict/guided replay requires write options wiring.'' None
         else if \<not> param_true rq ''allow_local_exec'' then
           http_fail 400 ''replay_local_exec_consent_required''
             ''strict/guided replay requires params.allow_local_exec=true as explicit execution consent.'' named
         else return_act ())"

definition check_commands :: "run_options \<Rightarrow> playbook_request \<Rightarrow> unit io" where
  "check_commands opts rq =
     (if allowed_of opts rq = [] then
        http_fail 400 ''replay_allowed_commands_empty''
          ''No allowed commands remain for replay execution after allowlist filtering.''
          (Some [(''requested_commands'', texts (requested_commands rq))])
      else if param_text rq ''guided_repair_strategy'' = Some ''builtin_llm'' \<and> default_strategy opts \<noteq> BuiltinLlm
              \<and> \<not> (\<exists>g \<in> set_option (op_guidedRepair opts). go_allowRequestBuiltinLlm g) then
        http_fail 400 ''replay_guided_repair_strategy_not_allowed''
          ''params.guided_repair_strategy=builtin_llm is not allowed by server policy''
          (Some [(''requested_strategy'', text_or_null (param_text rq ''guided_repair_strategy'')),
                 (''default_strategy'', JStr (strategy_name (default_strategy opts)))])
      else return_act ())"

definition project_of :: "playbook_request \<Rightarrow> string option" where
  "project_of rq = or_some (trimmed_or_null (rq_project_id rq)) (param_text rq ''project_id'')"

definition workdir_of :: "replay_world \<Rightarrow> run_options \<Rightarrow> playbook_request \<Rightarrow> string io" where
  "workdir_of W opts rq =
     (case or_some (param_text rq ''workdir'') (map_option le_workdir (op_localExecutor opts)) of
        Some d \<Rightarrow> return_act d
      | None \<Rightarrow> attempt (Probed ProbeDirectory)
                 (\<lambda>t. case w_directory W t of Inl e \<Rightarrow> Inl (ReplayException e) | Inr d \<Rightarrow> Inr d))"

text \<open>The identifier is drawn whether or not the run is recorded; a requested one must be a UUID.\<close>

definition run_id_of :: "replay_world \<Rightarrow> playbook_request \<Rightarrow> string io" where
  "run_id_of W rq =
     (case param_text rq ''run_id'' of
        Some i \<Rightarrow> if UUID_V4_OR_VX i then return_act i else ask DrewUuid (w_uuid W)
      | None \<Rightarrow> ask DrewUuid (w_uuid W))"

definition setting_of ::
  "run_options \<Rightarrow> playbook_request \<Rightarrow> tenant_scope \<Rightarrow> playbook_row \<Rightarrow> replay_mode \<Rightarrow> string \<Rightarrow> string \<Rightarrow> run_setting" where
  "setting_of opts rq ten row mode runId workdir =
     (let executor = op_localExecutor opts
      in \<lparr>rx_tenant_id = ts_tenant_id ten, rx_scope = ts_scope ten, rx_actor = rq_actor rq,
          rx_identity = call_identity rq row, rx_run_id = runId, rx_record = records_run opts rq,
          rx_playbook_id = rq_playbook_id rq, rx_version = pb_version_num row, rx_mode = mode,
          rx_backend = backend_of rq, rx_project_id = project_of rq,
          rx_timeoutMs = clampInt (param_number rq ''timeout_ms'' (map_option le_timeoutMs executor) (Fin 15000)) 100 600000,
          rx_workdir = workdir,
          rx_stdioMaxBytes = clampInt (param_number rq ''stdio_max_bytes'' (map_option le_stdioMaxBytes executor)
                               (Fin 65536)) 1024 (1024 * 1024),
          rx_sandbox_available = op_sandboxExecutor opts,
          rx_sensitiveReviewMode = normalizeReplaySensitiveReviewMode (param_text rq ''sensitive_review_mode''),
          rx_allowSensitiveExec = param_true rq ''allow_sensitive_exec'', rx_autoConfirm = param_true rq ''auto_confirm'',
          rx_stopOnFailure = (js_get (params_of rq) ''stop_on_failure'' \<noteq> Some (JBool False)),
          rx_allowedCommands = allowed_of opts rq, rx_repair = repair_of opts rq\<rparr>)"

section \<open>Start and end of a recorded run\<close>

text \<open>\<open>execution\<close> is whether the run executes; a simulation names no backend.\<close>

definition buildReplayPlaybookRunStartBody :: "run_setting \<Rightarrow> string \<Rightarrow> bool \<Rightarrow> jobj" where
  "buildReplayPlaybookRunStartBody C uri execution =
     (let given = (\<lambda>v. if execution then v else JNull)
      in run_members C @ actor_member C @ rx_identity C @
         [(''run_id'', JStr (rx_run_id C)),
          (''goal'', JStr (''Replay playbook '' @ rx_playbook_id C @ '' v'' @ num_text (js_nat (rx_version C))
                           @ (if rx_mode C = ReplaySimulate then '' (simulate)'' else []))),
          (''context_snapshot_ref'', JStr uri),
          (''metadata'', JObj
             [(''replay_mode'', JStr (replay_mode_name (rx_mode C))),
              (''execution_backend'', given (JStr (backend_name (rx_backend C)))),
              (''replay_project_id'', given (text_or_null (rx_project_id C))),
              (''sensitive_review_mode'', given (JStr (review_mode_name (rx_sensitiveReviewMode C)))),
              (''source_playbook_id'', JStr (rx_playbook_id C)), (''source_playbook_version'', count_value (rx_version C)),
              (''guided_repair_strategy'',
                 if rx_mode C = ReplayGuided then given (JStr (strategy_name (gr_strategy (rx_repair C)))) else JNull)])])"

definition buildReplayPlaybookRunEndBody :: "run_setting \<Rightarrow> string \<Rightarrow> string \<Rightarrow> jobj \<Rightarrow> jv option \<Rightarrow> jobj" where
  "buildReplayPlaybookRunEndBody C status summary metrics successCriteria =
     run_members C @ actor_member C @ rx_identity C @
     [(''run_id'', JStr (rx_run_id C)), (''status'', JStr status), (''summary'', JStr summary)]
     @ opt_member ''success_criteria'' successCriteria
     @ [(''metrics'', JObj metrics),
        (''metadata'', JObj [(''replay_mode'', JStr (replay_mode_name (rx_mode C))),
           (''source_playbook_id'', JStr (rx_playbook_id C)), (''source_playbook_version'', count_value (rx_version C))])]"

definition write_run :: "replay_world \<Rightarrow> run_setting \<Rightarrow> replay_write \<Rightarrow> jobj option io" where
  "write_run W C w = when_act (rx_record C) (attempt (Wrote w) (\<lambda>t. w_write W t w))"

definition string_member :: "jobj option \<Rightarrow> string \<Rightarrow> jv" where
  "string_member ob k =
     (case Option.bind ob (\<lambda>o1. js_get (JObj o1) k) of Some (JStr s) \<Rightarrow> JStr s | _ \<Rightarrow> JNull)"

definition buildReplayRunSurface :: "string \<Rightarrow> string \<Rightarrow> jobj option \<Rightarrow> jobj option \<Rightarrow> jv" where
  "buildReplayRunSurface runId status startOut endOut =
     JObj [(''run_id'', JStr runId), (''status'', JStr status), (''run_uri'', string_member startOut ''run_uri''),
           (''run_end_uri'', string_member endOut ''run_end_uri''),
           (''commit_id_start'', string_member startOut ''commit_id''),
           (''commit_id_end'', string_member endOut ''commit_id'')]"

section \<open>Results\<close>

text \<open>
  The response of a run: the members the caller acts on as fields, the rest as one object.
\<close>

record run_result =
  rr_mode :: replay_mode
  rr_gate :: gate_evaluation
  rr_status :: string
  rr_run :: jv
  rr_summary :: jobj
  rr_steps :: "jobj list"
  rr_counters :: run_counters
  rr_rest :: jobj

definition result_head :: "playbook_request \<Rightarrow> tenant_scope \<Rightarrow> playbook_row \<Rightarrow> string \<Rightarrow> gate_evaluation \<Rightarrow> jobj" where
  "result_head rq ten row uri gate =
     [(''tenant_id'', JStr (ts_tenant_id ten)), (''scope'', JStr (ts_scope ten)),
      (''playbook'', buildReplayRunPlaybookSurface rq row uri), (''deterministic_gate'', gate_value gate),
      (''params_echo'', case rq_params rq of Some p \<Rightarrow> p | None \<Rightarrow> JObj []),
      (''cost_signals'', buildReplayCostSignals (Some gate) False)]"

definition simulated_status :: "simulation \<Rightarrow> string" where
  "simulated_status s = (if 0 < sm_blocked s \<or> 0 < sm_unknown s then ''partial'' else ''success'')"

definition simulated_metrics :: "nat \<Rightarrow> simulation \<Rightarrow> jobj" where
  "simulated_metrics n s =
     [(''total_steps'', count_value n), (''ready_steps'', count_value (sm_ready s)),
      (''blocked_steps'', count_value (sm_blocked s)), (''unknown_steps'', count_value (sm_unknown s))]"

definition simulate_run ::
  "replay_world \<Rightarrow> playbook_request \<Rightarrow> tenant_scope \<Rightarrow> playbook_row \<Rightarrow> gate_evaluation \<Rightarrow> run_setting \<Rightarrow> run_result io" where
  "simulate_run W rq ten row gate C =
     (let steps = steps_of rq row in
      then_do (when_act (rx_record C) (row_uri ten row)) (\<lambda>snapshot.
      then_do (write_run W C (WriteRunStart (buildReplayPlaybookRunStartBody C (case snapshot of Some u \<Rightarrow> u | None \<Rightarrow> []) False)))
        (\<lambda>startOut.
      then_do (simulateReplaySteps W C steps \<lparr>sm_reports = [], sm_ready = 0, sm_blocked = 0, sm_unknown = 0\<rparr>) (\<lambda>s.
      let status = simulated_status s in
      then_do (write_run W C (WriteRunEnd (buildReplayPlaybookRunEndBody C status
                 (if status = ''success'' then ''simulate replay readiness passed''
                  else ''simulate replay found blocked or unknown steps'') (simulated_metrics (length steps) s) None)))
        (\<lambda>endOut.
      then_do (row_uri ten row) (\<lambda>uri. return_act
        \<lparr>rr_mode = ReplaySimulate, rr_gate = gate, rr_status = status,
         rr_run = (if rx_record C then buildReplayRunSurface (rx_run_id C) status startOut endOut else JNull),
         rr_summary = buildReplaySimulateSummary (length steps) (sm_ready s) (sm_blocked s) (sm_unknown s),
         rr_steps = sm_reports s, rr_counters = zero_counters,
         rr_rest = result_head rq ten row uri gate
           @ [(''execution_policy'', JObj
                 [(''execution_backend'', JStr (backend_name (rx_backend C))),
                  (''sensitive_review_mode'', JStr (review_mode_name (rx_sensitiveReviewMode C)))]),
              (''execution'', JObj [(''inference_skipped'', JBool (ge_inference_skipped gate)),
                 (''deterministic_gate_matched'', JBool (ge_matched gate))])]\<rparr>))))))"

definition final_status :: "replay_mode \<Rightarrow> run_counters \<Rightarrow> string" where
  "final_status mode c =
     (if mode = ReplayStrict then (if 0 < ct_failed c then ''failed'' else ''success'')
      else if 0 < ct_failed c then ''failed''
      else if 0 < ct_repaired c \<or> 0 < ct_skipped c then ''partial'' else ''success'')"

definition run_criteria :: "run_setting \<Rightarrow> run_counters \<Rightarrow> jv" where
  "run_criteria C c =
     JObj [(''mode'', JStr (replay_mode_name (rx_mode C))), (''execution_backend'', JStr (backend_name (rx_backend C))),
           (''failed_steps'', count_value (ct_failed c)), (''repaired_steps'', count_value (ct_repaired c)),
           (''skipped_steps'', count_value (ct_skipped c)), (''pending_steps'', count_value (ct_pending c))]"

definition run_text :: "replay_mode \<Rightarrow> run_counters \<Rightarrow> string" where
  "run_text mode c =
     ''Replay '' @ replay_mode_name mode @ '' run completed: success='' @ dec_nat (ct_succeeded c)
     @ '', failed='' @ dec_nat (ct_failed c) @ '', repaired='' @ dec_nat (ct_repaired c)
     @ '', pending='' @ dec_nat (ct_pending c)"

definition buildReplayExecutionSurface :: "run_options \<Rightarrow> run_setting \<Rightarrow> gate_evaluation \<Rightarrow> jv" where
  "buildReplayExecutionSurface opts C gate =
     JObj [(''inference_skipped'', JBool (ge_inference_skipped gate)),
           (''deterministic_gate_matched'', JBool (ge_matched gate)),
           (''execution_backend'', JStr (backend_name (rx_backend C))),
           (''local_executor_enabled'', JBool (\<exists>e \<in> set_option (op_localExecutor opts). le_enabled e)),
           (''sandbox_executor_available'', JBool (rx_sandbox_available C)),
           (''sandbox_project_id'', text_or_null (rx_project_id C)), (''workdir'', JStr (rx_workdir C)),
           (''timeout_ms'', json_int (rx_timeoutMs C)), (''stdio_max_bytes'', json_int (rx_stdioMaxBytes C)),
           (''allowed_commands'', texts (rx_allowedCommands C)), (''auto_confirm'', JBool (rx_autoConfirm C)),
           (''stop_on_failure'', JBool (rx_stopOnFailure C)), (''record_run'', JBool (rx_record C)),
           (''sensitive_review_mode'', JStr (review_mode_name (rx_sensitiveReviewMode C))),
           (''allow_sensitive_exec'', JBool (rx_allowSensitiveExec C)),
           (''guided_repair_strategy'', JStr (strategy_name (gr_strategy (rx_repair C)))),
           (''guided_repair_max_error_chars'', json_int (gr_maxErrorChars (rx_repair C))),
           (''guided_repair_http_configured'', JBool (js_truthy (map_option JStr (gr_httpEndpoint (rx_repair C))))),
           (''guided_repair_builtin_llm_configured'', JBool
              (js_truthy (map_option JStr (gr_llmBaseUrl (rx_repair C)))
               \<and> js_truthy (map_option JStr (gr_llmApiKey (rx_repair C)))
               \<and> js_truthy (map_option JStr (gr_llmModel (rx_repair C)))))]"

definition no_usage :: replay_usage where
  "no_usage = \<lparr>us_prompt = Fin 0, us_completion = Fin 0, us_total = Fin 0, us_source = ''no_model_call''\<rparr>"

definition usage_value :: "replay_usage \<Rightarrow> jv" where
  "usage_value u =
     JObj [(''prompt_tokens'', JNum (us_prompt u)), (''completion_tokens'', JNum (us_completion u)),
           (''total_tokens'', JNum (us_total u)), (''source'', JStr (us_source u))]"

definition fresh_progress :: run_progress where
  "fresh_progress = \<lparr>rp_reports = [], rp_counters = zero_counters, rp_usage = no_usage\<rparr>"

definition budget_check :: "replay_world \<Rightarrow> run_options \<Rightarrow> playbook_request \<Rightarrow> tenant_scope \<Rightarrow> unit option io" where
  "budget_check W opts rq ten =
     (let call = \<lparr>bc_tenant_id = ts_tenant_id ten, bc_scope = ts_scope ten, bc_project_id = project_of rq\<rparr>
      in when_act (backend_of rq \<noteq> LocalProcess \<and> op_sandboxBudgetGuard opts)
           (attempt (Budgeted call) (\<lambda>t. w_budget W t call)))"

definition finished_run ::
  "run_options \<Rightarrow> playbook_request \<Rightarrow> tenant_scope \<Rightarrow> playbook_row \<Rightarrow> gate_evaluation \<Rightarrow> run_setting
     \<Rightarrow> run_progress \<Rightarrow> jobj option \<Rightarrow> jobj option \<Rightarrow> string \<Rightarrow> run_result" where
  "finished_run opts rq ten row gate C p startOut endOut uri =
     (let c = rp_counters p; status = final_status (rx_mode C) c
      in \<lparr>rr_mode = rx_mode C, rr_gate = gate, rr_status = status,
          rr_run = buildReplayRunSurface (rx_run_id C) status startOut endOut,
          rr_summary = buildReplayExecutionSummary (length (steps_of rq row)) c, rr_steps = rp_reports p, rr_counters = c,
          rr_rest = result_head rq ten row uri gate
            @ [(''execution'', buildReplayExecutionSurface opts C gate), (''usage'', usage_value (rp_usage p))]\<rparr>)"

definition execute_run ::
  "replay_world \<Rightarrow> run_options \<Rightarrow> playbook_request \<Rightarrow> tenant_scope \<Rightarrow> playbook_row \<Rightarrow> gate_evaluation \<Rightarrow> string \<Rightarrow> run_result io" where
  "execute_run W opts rq ten row gate runId =
     (let mode = ge_effective_mode gate; steps = steps_of rq row in
      then_do (check_backend opts rq mode) (\<lambda>_.
      then_do (check_commands opts rq) (\<lambda>_.
      then_do (workdir_of W opts rq) (\<lambda>workdir.
      then_do (budget_check W opts rq ten) (\<lambda>_.
      let C = setting_of opts rq ten row mode runId workdir in
      then_do (when_act (rx_record C) (row_uri ten row)) (\<lambda>snapshot.
      then_do (write_run W C (WriteRunStart (buildReplayPlaybookRunStartBody C (case snapshot of Some u \<Rightarrow> u | None \<Rightarrow> []) True)))
        (\<lambda>startOut.
      then_do (replay_steps W C steps fresh_progress) (\<lambda>p.
      let c = rp_counters p in
      then_do (write_run W C (WriteRunEnd (buildReplayPlaybookRunEndBody C (final_status mode c) (run_text mode c)
                 (counter_members (length steps) c) (Some (run_criteria C c))))) (\<lambda>endOut.
      then_do (row_uri ten row) (\<lambda>uri.
        return_act (finished_run opts rq ten row gate C p startOut endOut uri)))))))))))"

definition gate_mismatch :: "playbook_request \<Rightarrow> playbook_row \<Rightarrow> gate_evaluation \<Rightarrow> run_result io" where
  "gate_mismatch rq row gate =
     http_fail 409 ''replay_deterministic_gate_mismatch''
       ''deterministic replay gate did not match the selected playbook version''
       (Some [(''playbook_id'', JStr (rq_playbook_id rq)), (''version'', count_value (pb_version_num row)),
              (''requested_mode'', JStr (replay_mode_name (ge_requested_mode gate))),
              (''playbook_status'', JStr (ge_playbook_status gate)), (''required_statuses'', texts (ge_required_statuses gate)),
              (''status_match'', JBool (ge_status_match gate)), (''matchers_match'', JBool (ge_matchers_match gate)),
              (''policy_constraints_match'', JBool (ge_policy_constraints_match gate)),
              (''request_matcher_fingerprint'', text_or_null (ge_request_matcher_fingerprint gate)),
              (''playbook_matcher_fingerprint'', JStr (ge_playbook_matcher_fingerprint gate)),
              (''request_policy_fingerprint'', text_or_null (ge_request_policy_fingerprint gate)),
              (''playbook_policy_fingerprint'', JStr (ge_playbook_policy_fingerprint gate))])"

definition replayPlaybookRun :: "replay_world \<Rightarrow> run_options \<Rightarrow> playbook_request \<Rightarrow> run_result io" where
  "replayPlaybookRun W opts rq =
     then_do (find_playbook W opts rq) (\<lambda>(ten, row).
     let gate = evaluate_gate W (rq_mode rq) rq row in
     if ge_enabled gate \<and> \<not> ge_matched gate \<and> ge_decision gate = GateRejected then gate_mismatch rq row gate
     else then_do (run_id_of W rq) (\<lambda>runId.
       if ge_effective_mode gate = ReplaySimulate
       then simulate_run W rq ten row gate (setting_of opts rq ten row ReplaySimulate runId [])
       else execute_run W opts rq ten row gate runId))"

section \<open>Candidate and dispatch\<close>

record candidate_result =
  cn_tenant :: tenant_scope
  cn_gate :: gate_evaluation
  cn_eligible :: bool
  cn_surface :: jobj

definition buildReplayPlaybookCandidateSurface ::
  "playbook_request \<Rightarrow> tenant_scope \<Rightarrow> playbook_row \<Rightarrow> string \<Rightarrow> gate_evaluation \<Rightarrow> candidate_result" where
  "buildReplayPlaybookCandidateSurface rq ten row uri gate =
     \<lparr>cn_tenant = ten, cn_gate = gate, cn_eligible = ge_matched gate,
      cn_surface =
        [(''tenant_id'', JStr (ts_tenant_id ten)), (''scope'', JStr (ts_scope ten)),
         (''playbook'', JObj (spread_members (buildReplayRunPlaybookSurface rq row uri) @ [(''node_id'', JStr (pb_id row))])),
         (''candidate'', JObj
            [(''eligible_for_deterministic_replay'', JBool (ge_matched gate)),
             (''recommended_mode'', JStr (replay_mode_name (ge_effective_mode gate))),
             (''next_action'', JStr (nextActionForReplayDeterministicGate gate)),
             (''mismatch_reasons'', texts (ge_mismatch_reasons gate)),
             (''rejectable'', JBool (ge_enabled gate \<and> ge_decision gate = GateRejected))]),
         (''deterministic_gate'', gate_value gate), (''cost_signals'', buildReplayCostSignals (Some gate) False)]\<rparr>"

definition replayPlaybookCandidate :: "replay_world \<Rightarrow> run_options \<Rightarrow> playbook_request \<Rightarrow> candidate_result io" where
  "replayPlaybookCandidate W opts rq =
     then_do (find_playbook W opts rq) (\<lambda>(ten, row).
     let gate = evaluate_gate W ReplaySimulate rq row in
     then_do (row_uri ten row) (\<lambda>uri. return_act (buildReplayPlaybookCandidateSurface rq ten row uri gate)))"

datatype dispatch_decision = ReplayExecuted | CandidateOnly | FallbackExecuted

record dispatch_result =
  dp_decision :: dispatch_decision
  dp_inference_skipped :: bool
  dp_fallback_executed :: bool
  dp_candidate :: candidate_result
  dp_replay :: "run_result option"
  dp_cost_signals :: jv

definition buildReplayDispatchSurface ::
  "dispatch_decision \<Rightarrow> bool \<Rightarrow> bool \<Rightarrow> candidate_result \<Rightarrow> run_result option \<Rightarrow> gate_evaluation option \<Rightarrow> dispatch_result" where
  "buildReplayDispatchSurface decision skipped fallback candidate replay gate =
     \<lparr>dp_decision = decision, dp_inference_skipped = skipped, dp_fallback_executed = fallback,
      dp_candidate = candidate, dp_replay = replay, dp_cost_signals = buildReplayCostSignals gate fallback\<rparr>"

text \<open>\<open>fallbackMode\<close> and \<open>executeFallback\<close> are the members of the request that only dispatch has.\<close>

definition replayPlaybookDispatch ::
  "replay_world \<Rightarrow> run_options \<Rightarrow> playbook_request \<Rightarrow> replay_mode \<Rightarrow> bool \<Rightarrow> dispatch_result io" where
  "replayPlaybookDispatch W opts rq fallbackMode executeFallback =
     then_do (requireReplayReadAccess opts) (\<lambda>_.
     then_do (replayPlaybookCandidate W opts rq) (\<lambda>candidate.
       if cn_eligible candidate then
         then_do (replayPlaybookRun W opts (rq\<lparr>rq_mode := ReplaySimulate\<rparr>)) (\<lambda>replay.
           return_act (buildReplayDispatchSurface ReplayExecuted True False candidate (Some replay) (Some (rr_gate replay))))
       else if \<not> executeFallback then
         return_act (buildReplayDispatchSurface CandidateOnly False False candidate None (Some (cn_gate candidate)))
       else
         then_do (replayPlaybookRun W opts (rq\<lparr>rq_mode := fallbackMode, rq_deterministic_gate := None\<rparr>)) (\<lambda>replay.
           return_act (buildReplayDispatchSurface FallbackExecuted False True candidate (Some replay) (Some (rr_gate replay))))))"

end
