(* ===== verification/ReplaySafety.thy ===== *)
theory ReplaySafety
  imports ReplayRun
begin

text \<open>
  What a replay runs.  A call that runs a command is made at one place of a step, after its
  preconditions have passed and no gate has stopped it; everything else a replay calls
  runs nothing.  The second half compares the counters of a run with its reports and with the
  commands that were run, and says when a run stops.
\<close>

section \<open>Commands and idle calls\<close>

definition executed_argv :: "replay_event \<Rightarrow> string list option" where
  "executed_argv ev =
     (case ev of Spawned c \<Rightarrow> Some (lc_argv c) | Sandboxed s \<Rightarrow> Some (sc_argv s) | _ \<Rightarrow> None)"

lemma executed_argv_simps [simp]:
  "executed_argv (Spawned c) = Some (lc_argv c)" "executed_argv (Sandboxed s) = Some (sc_argv s)"
  "executed_argv (Probed p) = None" "executed_argv (Looked q) = None" "executed_argv (Budgeted b) = None"
  "executed_argv (Fetched f) = None" "executed_argv (Wrote w) = None" "executed_argv DrewUuid = None"
  by (simp_all add: executed_argv_def)

definition quiet :: "trace \<Rightarrow> replay_event \<Rightarrow> bool" where
  "quiet t ev \<longleftrightarrow> executed_argv ev = None"

lemma quiet_simps [simp]:
  "quiet t (Probed p)" "quiet t (Looked q)" "quiet t (Budgeted b)" "quiet t (Fetched f)" "quiet t (Wrote w)"
  "quiet t DrewUuid"
  by (simp_all add: quiet_def)

definition idle :: "'a io \<Rightarrow> bool" where
  "idle m \<longleftrightarrow> runs (\<lambda>_. True) quiet m (\<lambda>_ _. True)"

lemma idle_runs: "idle m \<Longrightarrow> runs A quiet m (\<lambda>_ _. True)"
  unfolding idle_def by (rule runs_pre, assumption) simp

named_theorems idle_simps

lemma idle_basic [idle_simps]:
  "idle (return_act x)" "idle (throw_act e)" "idle (http_fail st cd msg d)" "idle (request_io r)"
  "idle (ask ev answer) \<longleftrightarrow> executed_argv ev = None"
  "idle (attempt ev reply) \<longleftrightarrow> executed_argv ev = None"
  by (simp_all add: idle_def runs_simps quiet_def runs_request)

lemma idle_branch [idle_simps]:
  "idle (if b then m else n) \<longleftrightarrow> (if b then idle m else idle n)"
  "idle (case v of None \<Rightarrow> m | Some y \<Rightarrow> f y) \<longleftrightarrow> (case v of None \<Rightarrow> idle m | Some y \<Rightarrow> idle (f y))"
  by (simp_all split: option.split)

lemma idle_then [idle_simps]: "idle m \<Longrightarrow> (\<And>x. idle (f x)) \<Longrightarrow> idle (then_do m f)"
  unfolding idle_def by (rule runs_then)

lemma idle_when [idle_simps]: "idle m \<Longrightarrow> idle (when_act b m)"
  unfolding idle_def by (rule runs_when) simp_all

lemma idle_each: "(\<And>x. x \<in> set xs \<Longrightarrow> idle (f x)) \<Longrightarrow> idle (each_act f xs)"
  unfolding idle_def by (rule runs_each)

lemma idle_checks [idle_simps]:
  "idle (evaluatePrecondition W raw)" "idle (evaluatePostcondition W raw out)"
  "idle (check_preconditions W st)" "idle (makeGuidedRepairPatch W cfg inp)"
proof -
  have quiet: "only_probes t ev \<Longrightarrow> quiet t ev" "only_fetches t ev \<Longrightarrow> quiet t ev" for t ev
    by (auto simp: only_probes_def only_fetches_def split: replay_event.splits)
  show pre: "idle (evaluatePrecondition W raw)" for raw
    unfolding idle_def by (rule runs_conseq [OF evaluatePrecondition_sound]) (simp_all add: quiet)
  show "idle (evaluatePostcondition W raw out)"
    unfolding idle_def by (rule runs_conseq [OF evaluatePostcondition_sound]) (simp_all add: quiet)
  show "idle (check_preconditions W st)"
    unfolding check_preconditions_def by (rule idle_each) (rule pre)
  show "idle (makeGuidedRepairPatch W cfg inp)"
    unfolding idle_def by (rule runs_conseq [OF makeGuidedRepairPatch_fetches]) (simp_all add: quiet)
qed

lemma idle_writes [idle_simps]:
  "idle (step_before W C st)" "idle (writeStepAfter W C st a)" "idle (persist_simulated W C st r)"
  "idle (write_run W C w)" "idle (row_uri ten row)"
  by (simp_all add: step_before_def writeStepAfter_def persist_simulated_def write_run_def row_uri_def
      idle_simps Let_def)

lemma idle_handlers [idle_simps]:
  "idle (handleReplayStrictGateStep W C st i g pre b)" "idle (handleReplayGuidedGateStep W C st i g pre b)"
  "idle (handleReplayPendingStep W C st i argv exec)" "idle (handleReplaySuccessStep W C st i d)"
  "idle (handleReplayStrictFailureStep W C st i d checks err)"
  "idle (handleReplayGuidedFailureStep W C st i d err)"
  by (simp_all add: handleReplayStrictGateStep_def handleReplayGuidedGateStep_def handleReplayPendingStep_def
      handleReplaySuccessStep_def handleReplayStrictFailureStep_def handleReplayGuidedFailureStep_def
      idle_simps Let_def)

lemma idle_settle [idle_simps]:
  "idle (gated_step W C st i g pre b1 b2)" "idle (settle_step W C st i checks argv exec out)"
  by (auto simp: gated_step_def settle_step_def Let_def idle_simps intro!: idle_then idle_each)

lemma idle_simulation [idle_simps]: "idle (simulateReplaySteps W C steps s)"
  by (induction steps arbitrary: s) (simp_all add: idle_simps Let_def)

section \<open>Where a command runs\<close>

lemma trimmed_head: "command_of (command_of argv # tl argv) = command_of argv"
  by (cases argv) (simp_all add: command_of_def)

lemma parseStepArgv_head: "parseStepArgv ob tool = a # rest \<Longrightarrow> js_trim a = a"
proof -
  assume a: "parseStepArgv ob tool = a # rest"
  let ?argv = "asStringArray (js_get (tool_input_object ob) ''argv'')"
  show ?thesis
  proof (cases "?argv = []")
    case True
    have "js_trim ''bash'' = ''bash''"
      by (simp add: js_trim_def is_ws_def)
    then show ?thesis using a True
      by (auto simp: parseStepArgv_def Let_def toStringOrNull_def split: option.splits jv.splits if_splits)
  next
    case False
    then have "a \<in> set ?argv" using a by (simp add: parseStepArgv_def Let_def)
    then show ?thesis using trimmed_asStringArray trimmed_id by blast
  qed
qed

lemma step_argv_trimmed: "step_argv st \<noteq> [] \<Longrightarrow> command_of (step_argv st) # tl (step_argv st) = step_argv st"
  by (cases "step_argv st") (auto simp: step_argv_def command_of_def dest: parseStepArgv_head)

definition may_run :: "replay_world \<Rightarrow> run_setting \<Rightarrow> playbook_step \<Rightarrow> trace \<Rightarrow> replay_event \<Rightarrow> bool" where
  "may_run W C st t ev \<longleftrightarrow>
     quiet t ev \<or>
     (executed_argv ev = Some (step_argv st) \<and> command_gate C st = None
      \<and> (\<exists>t0 checks. check_preconditions W st t0 = (Inr checks, t)
                    \<and> resolveReplayPreconditionGate checks = None))"

lemma quiet_may_run: "quiet t ev \<Longrightarrow> may_run W C st t ev"
  by (simp add: may_run_def)

lemma command_gate_None:
  "command_gate C st = None \<longleftrightarrow>
     resolveReplayConfirmationGate (st_safetyLevel st) (rx_autoConfirm C) = None
     \<and> isReplayCommandTool (st_toolName st)
     \<and> resolveReplayCommandAllowlistGate (step_argv st) (rx_allowedCommands C) = None
     \<and> resolveReplaySensitiveCommandGate (command_of (step_argv st)) (step_argv st)
         (detectSensitiveCommand (command_of (step_argv st)) (step_argv st))
         (rx_sensitiveReviewMode C) (rx_allowSensitiveExec C) = None"
  by (auto simp: command_gate_def resolveReplayUnsupportedToolGate_def Let_def split: option.splits)

lemma run_command_step_runs:
  assumes "command_gate C st = None"
  shows "runs (\<lambda>t. \<exists>t0. check_preconditions W st t0 = (Inr checks, t) \<and> resolveReplayPreconditionGate checks = None)
           (may_run W C st) (run_command_step W C st i checks) (\<lambda>_ _. True)" (is "runs ?A _ _ _")
proof -
  have argv: "step_argv st \<noteq> []" "command_of (step_argv st) \<noteq> []"
    using assms unfolding command_gate_None
    by (auto simp: resolveReplayCommandAllowlistGate_def Let_def split: if_splits)
  have "runs ?A (may_run W C st) (executeReplayCommand W (step_request C (step_argv st))) (\<lambda>_ _. True)"
  proof (cases "rx_backend C = LocalProcess")
    case True
    have "runs ?A (may_run W C st)
            (runLocalCommand W (step_argv st) (rx_workdir C) (rx_timeoutMs C) (rx_stdioMaxBytes C)) (\<lambda>_ _. True)"
      using assms argv
      by (auto simp: runLocalCommand_def Let_def runs_simps may_run_def step_argv_trimmed)
    then show ?thesis
      using True by (auto simp: executeReplayCommand_def step_request_def intro: runs_then runs_return)
  next
    case False
    then show ?thesis using assms
      by (auto simp: executeReplayCommand_def step_request_def Let_def runs_simps may_run_def)
  qed
  then show ?thesis
    unfolding run_command_step_def
    by (rule runs_then)
      (auto intro!: runs_mono [OF idle_runs, where G' = "may_run W C st"] simp: idle_simps quiet_may_run
       split: option.split)
qed

lemma replay_step_runs: "runs A (may_run W C (read_step step)) (replay_step W C step) (\<lambda>_ _. True)"
proof -
  let ?st = "read_step step"
  let ?G = "may_run W C ?st"
  have quiet: "runs A' ?G m (\<lambda>_ _. True)" if "idle m" for A' and m :: "'x io"
    by (rule runs_mono [OF idle_runs [OF that]]) (rule quiet_may_run)
  have pre: "runs A' ?G (check_preconditions W ?st) (\<lambda>checks t. \<exists>t0. check_preconditions W ?st t0 = (Inr checks, t))"
    for A'
    by (rule runs_post [OF runs_result [OF quiet]]) (auto simp: idle_simps)
  have rest: "runs (\<lambda>t. \<exists>t0. check_preconditions W ?st t0 = (Inr checks, t)) ?G
      (case resolveReplayPreconditionGate checks of
         Some g \<Rightarrow> gated_step W C ?st i g (Some checks) True True
       | None \<Rightarrow> (case command_gate C ?st of
                   Some (g, blocked) \<Rightarrow> gated_step W C ?st i g None blocked False
                 | None \<Rightarrow> run_command_step W C ?st i checks)) (\<lambda>_ _. True)" for i checks
  proof (cases "resolveReplayPreconditionGate checks = None \<and> command_gate C ?st = None")
    case True
    then show ?thesis
      by (auto intro: runs_pre [OF run_command_step_runs])
  next
    case False
    then show ?thesis
      by (auto intro!: quiet simp: idle_simps split: option.splits)
  qed
  show ?thesis
    unfolding replay_step_def Let_def
    by (rule runs_then [OF quiet], simp add: idle_simps, rule runs_then [OF pre rest])
qed


lemma replay_steps_runs:
  "runs A (\<lambda>t ev. quiet t ev \<or> (\<exists>step \<in> set steps. may_run W C (read_step step) t ev))
     (replay_steps W C steps p) (\<lambda>_ _. True)"
proof (induction steps arbitrary: A p)
  case Nil
  then show ?case by (simp add: runs_simps)
next
  case (Cons step steps)
  let ?G = "\<lambda>t ev. quiet t ev \<or> (\<exists>s \<in> set (step # steps). may_run W C (read_step s) t ev)"
  have "runs A ?G (replay_step W C step) (\<lambda>_ _. True)"
    by (rule runs_mono [OF replay_step_runs]) simp
  moreover have "runs A' ?G (replay_steps W C steps q) (\<lambda>_ _. True)" for A' q
    by (rule runs_mono [OF Cons.IH]) auto
  ultimately show ?case
    by (auto intro!: runs_then [where B = "\<lambda>_ _. True"] runs_return)
qed

section \<open>What a request runs\<close>

definition request_runs ::
  "replay_world \<Rightarrow> run_options \<Rightarrow> playbook_request \<Rightarrow> playbook_row \<Rightarrow> replay_mode \<Rightarrow> trace \<Rightarrow> replay_event \<Rightarrow> bool" where
  "request_runs W opts rq row mode t ev \<longleftrightarrow>
     quiet t ev \<or>
     (param_true rq ''allow_local_exec'' \<and> mode \<noteq> ReplaySimulate
      \<and> (\<exists>step \<in> set (steps_of rq row). \<exists>ten i d. may_run W (setting_of opts rq ten row mode i d) (read_step step) t ev))"

lemma quiet_request: "quiet t ev \<Longrightarrow> request_runs W opts rq row mode t ev"
  by (simp add: request_runs_def)

lemma idle_request:
  "idle m \<Longrightarrow> runs A (request_runs W opts rq row mode) m (\<lambda>_ _. True)"
  by (rule runs_mono [OF idle_runs]) (simp_all add: quiet_request)

lemma check_backend_consent:
  "runs A quiet (check_backend opts rq mode) (\<lambda>_ _. param_true rq ''allow_local_exec'')"
  by (simp add: check_backend_def Let_def runs_simps)

lemma idle_settings [idle_simps]:
  "idle (check_commands opts rq)" "idle (workdir_of W opts rq)" "idle (budget_check W opts rq ten)"
  "idle (run_id_of W rq)" "idle (gate_mismatch rq row gate)"
  by (simp_all add: check_commands_def workdir_of_def budget_check_def run_id_of_def gate_mismatch_def Let_def
      idle_simps split: option.split)

lemma execute_run_runs:
  assumes "ge_effective_mode gate \<noteq> ReplaySimulate"
  shows "runs A (request_runs W opts rq row (ge_effective_mode gate)) (execute_run W opts rq ten row gate i) (\<lambda>_ _. True)"
proof -
  let ?mode = "ge_effective_mode gate"
  let ?G = "request_runs W opts rq row ?mode"
  let ?consent = "\<lambda>(_ :: unit) (_ :: trace). param_true rq ''allow_local_exec''"
  have keep: "runs (\<lambda>_. param_true rq ''allow_local_exec'') ?G m (\<lambda>_ _. param_true rq ''allow_local_exec'')"
    if "idle m" for m :: "'x io"
  proof (cases "param_true rq ''allow_local_exec''")
    case True
    then show ?thesis by (rule runs_post [OF idle_request [OF that]])
  qed (simp add: runs_def)
  have steps: "runs (\<lambda>_. param_true rq ''allow_local_exec'') ?G
      (replay_steps W (setting_of opts rq ten row ?mode i d) (steps_of rq row) p)
      (\<lambda>_ _. param_true rq ''allow_local_exec'')" for d p
  proof (cases "param_true rq ''allow_local_exec''")
    case True
    then show ?thesis using assms
      by (intro runs_conseq [OF replay_steps_runs]) (auto simp: request_runs_def)
  qed (simp add: runs_def)
  have start: "runs A ?G (check_backend opts rq ?mode) ?consent"
    by (rule runs_mono [OF check_backend_consent]) (rule quiet_request)
  show ?thesis
    unfolding execute_run_def Let_def
    by (rule runs_then [OF start] runs_then [OF keep] runs_then [OF steps] idle_request idle_simps allI
          | simp only: idle_simps)+
qed

definition found_playbook ::
  "replay_world \<Rightarrow> run_options \<Rightarrow> playbook_request \<Rightarrow> trace \<Rightarrow> tenant_scope \<Rightarrow> playbook_row \<Rightarrow> bool" where
  "found_playbook W opts rq t ten row \<longleftrightarrow>
     resolveTenantScope (rq_scope rq) (rq_tenant_id rq) (op_defaultScope opts) (op_defaultTenantId opts) = Inr ten
     \<and> w_playbook W t (playbook_query_of rq ten) = Inr (Some row)"

lemma find_playbook_found:
  "find_playbook W opts rq t = (Inr (ten, row), t') \<Longrightarrow> found_playbook W opts rq t ten row"
  by (auto simp: find_playbook_def then_do_Inr requireReplayReadAccess_def request_io_def attempt_def
      found_playbook_def return_act_def http_fail_def throw_act_def split: if_splits sum.splits option.splits)

lemma idle_find [idle_simps]: "idle (find_playbook W opts rq)"
  by (simp add: find_playbook_def requireReplayReadAccess_def idle_simps split: option.split)

lemma find_playbook_runs:
  "runs (\<lambda>t. t = t0) quiet (find_playbook W opts rq) (\<lambda>(ten, row) _. found_playbook W opts rq t0 ten row)"
  by (rule runs_post [OF runs_result [OF idle_runs [OF idle_find]]]) (auto dest: find_playbook_found)

lemma idle_simulate_run [idle_simps]: "idle (simulate_run W rq ten row gate C)"
  by (simp add: simulate_run_def Let_def idle_simps)

definition run_mode_of :: "replay_world \<Rightarrow> playbook_request \<Rightarrow> playbook_row \<Rightarrow> replay_mode" where
  "run_mode_of W rq row = ge_effective_mode (evaluate_gate W (rq_mode rq) rq row)"

lemma replayPlaybookRun_runs:
  "runs (\<lambda>t. t = t0)
     (\<lambda>t ev. quiet t ev \<or> (\<exists>ten row. found_playbook W opts rq t0 ten row
                              \<and> request_runs W opts rq row (run_mode_of W rq row) t ev))
     (replayPlaybookRun W opts rq) (\<lambda>_ _. True)" (is "runs ?A ?G _ _")
proof -
  have rest: "runs (\<lambda>_. found_playbook W opts rq t0 ten row) ?G
      (let gate = evaluate_gate W (rq_mode rq) rq row in
       if ge_enabled gate \<and> \<not> ge_matched gate \<and> ge_decision gate = GateRejected then gate_mismatch rq row gate
       else then_do (run_id_of W rq) (\<lambda>runId.
         if ge_effective_mode gate = ReplaySimulate
         then simulate_run W rq ten row gate (setting_of opts rq ten row ReplaySimulate runId [])
         else execute_run W opts rq ten row gate runId)) (\<lambda>_ _. True)" for ten row
  proof (cases "found_playbook W opts rq t0 ten row")
    case True
    let ?gate = "evaluate_gate W (rq_mode rq) rq row"
    have quiet: "runs A ?G m (\<lambda>_ _. True)" if "idle m" for A and m :: "'x io"
      by (rule runs_mono [OF idle_runs [OF that]]) simp
    have execute: "runs A ?G (execute_run W opts rq ten row ?gate i) (\<lambda>_ _. True)"
      if "ge_effective_mode ?gate \<noteq> ReplaySimulate" for A i
      by (rule runs_mono [OF execute_run_runs [OF that]]) (use True in \<open>auto simp: run_mode_of_def\<close>)
    have branch: "runs A ?G (if ge_effective_mode ?gate = ReplaySimulate
        then simulate_run W rq ten row ?gate (setting_of opts rq ten row ReplaySimulate i [])
        else execute_run W opts rq ten row ?gate i) (\<lambda>_ _. True)" for A i
      by (simp add: quiet execute idle_simps)
    show ?thesis
      unfolding Let_def
      by (rule runs_if, rule quiet, simp add: idle_simps, rule runs_then [OF quiet branch], simp add: idle_simps)
  qed (simp add: runs_def)
  have find: "runs ?A ?G (find_playbook W opts rq) (\<lambda>(ten, row) _. found_playbook W opts rq t0 ten row)"
    by (rule runs_mono [OF find_playbook_runs]) simp
  show ?thesis
    unfolding replayPlaybookRun_def
    by (rule runs_then [OF find]) (use rest in \<open>simp add: case_prod_unfold Let_def\<close>)
qed

section \<open>Every command is approved\<close>

text \<open>
  What the gates of a command establish.  The two lists of commands know it by its name or by the
  last part of its path; the sensitive names are compared with the whole command, so a command
  given by its path needs no override, and with the review mode \<open>warn\<close> none needs one.
\<close>

definition command_approved :: "run_options \<Rightarrow> playbook_request \<Rightarrow> playbook_step \<Rightarrow> bool" where
  "command_approved opts rq st \<longleftrightarrow>
     (let command = command_of (step_argv st)
      in st_safetyLevel st \<noteq> ''manual_only''
         \<and> (st_safetyLevel st = ''needs_confirm'' \<longrightarrow> param_true rq ''auto_confirm'')
         \<and> isReplayCommandTool (st_toolName st)
         \<and> (\<exists>a \<in> set (server_commands opts). (a = command \<or> a = path_basename command)
              \<and> (requested_commands rq \<noteq> [] \<longrightarrow> isAllowedReplayCommand a (requested_commands rq)))
         \<and> (js_lower command \<in> set SENSITIVE_COMMANDS \<longrightarrow>
              param_text rq ''sensitive_review_mode'' = Some ''warn'' \<or> param_true rq ''allow_sensitive_exec''))"

lemma js_trim_command_of: "js_trim (command_of argv) = command_of argv"
  by (simp add: command_of_def split: list.split)

lemma command_gate_approved:
  assumes "command_gate (setting_of opts rq ten row mode i d) st = None"
  shows "command_approved opts rq st"
proof -
  let ?C = "setting_of opts rq ten row mode i d"
  let ?c = "command_of (step_argv st)"
  note gates = assms [unfolded command_gate_None]
  have fields: "rx_autoConfirm ?C = param_true rq ''auto_confirm''" "rx_allowedCommands ?C = allowed_of opts rq"
    "rx_sensitiveReviewMode ?C = normalizeReplaySensitiveReviewMode (param_text rq ''sensitive_review_mode'')"
    "rx_allowSensitiveExec ?C = param_true rq ''allow_sensitive_exec''"
    by (simp_all add: setting_of_def Let_def)
  have confirm: "st_safetyLevel st \<noteq> ''manual_only''"
    "st_safetyLevel st = ''needs_confirm'' \<longrightarrow> param_true rq ''auto_confirm''"
    using gates by (auto simp: resolveReplayConfirmationGate_def fields split: if_splits)
  have "isAllowedReplayCommand ?c (allowed_of opts rq)"
    using gates by (simp add: resolveReplayCommandAllowlistGate_def fields Let_def split: if_splits)
  then obtain a where a: "a \<in> set (allowed_of opts rq)" "a = ?c \<or> a = path_basename ?c"
    using allowed_alias [of ?c] by (auto simp: js_trim_command_of)
  have "js_lower ?c \<in> set SENSITIVE_COMMANDS \<longrightarrow>
      param_text rq ''sensitive_review_mode'' = Some ''warn'' \<or> param_true rq ''allow_sensitive_exec''"
    using gates sensitive_iff [of ?c "step_argv st"]
    by (auto simp: resolveReplaySensitiveCommandGate_def fields normalizeReplaySensitiveReviewMode_def
        js_trim_command_of split: if_splits)
  then show ?thesis
    using confirm gates a effective_commands_set [of a "server_commands opts" "requested_commands rq"]
    by (auto simp: command_approved_def Let_def allowed_of_def)
qed

lemma preconditions_all_pass:
  assumes "resolveReplayPreconditionGate checks = None"
  shows "\<forall>c \<in> set checks. pr_state c = CheckPass"
proof
  fix c assume "c \<in> set checks"
  then show "pr_state c = CheckPass"
    using assms by (cases "pr_state c") (auto simp: resolveReplayPreconditionGate_def filter_empty_conv split: if_splits)
qed

lemma executed_is_approved:
  assumes "replayPlaybookRun W opts rq t = (r, t @ us @ ev # vs)" "executed_argv ev = Some argv"
  obtains ten row step checks t0 where
    "found_playbook W opts rq t ten row" "run_mode_of W rq row \<noteq> ReplaySimulate"
    "param_true rq ''allow_local_exec''" "step \<in> set (steps_of rq row)" "argv = step_argv (read_step step)"
    "command_approved opts rq (read_step step)"
    "check_preconditions W (read_step step) t0 = (Inr checks, t @ us)" "\<forall>c \<in> set checks. pr_state c = CheckPass"
proof -
  have G: "\<not> quiet (t @ us) ev"
    using assms(2) by (simp add: quiet_def)
  have "quiet (t @ us) ev \<or> (\<exists>ten row. found_playbook W opts rq t ten row
      \<and> request_runs W opts rq row (run_mode_of W rq row) (t @ us) ev)"
    using replayPlaybookRun_runs [of t W opts rq] assms(1) unfolding runs_def by blast
  then show thesis
    using G assms(2) that
    by (auto simp: request_runs_def may_run_def dest!: command_gate_approved preconditions_all_pass)
qed

section \<open>Commands in a trace\<close>

definition executions :: "trace \<Rightarrow> nat" where
  "executions t = length (filter (\<lambda>ev. executed_argv ev \<noteq> None) t)"

lemma executions_append [simp]: "executions (s @ t) = executions s + executions t"
  by (simp add: executions_def)

lemma idle_appends:
  assumes "idle m" "m t = (r, t')"
  shows "\<exists>es. t' = t @ es \<and> executions es = 0"
proof -
  obtain es where es: "t' = t @ es" "\<And>us ev vs. es = us @ ev # vs \<Longrightarrow> quiet (t @ us) ev"
    using assms unfolding idle_def runs_def by metis
  have "executed_argv ev = None" if "ev \<in> set es" for ev
    using split_list [OF that] es(2) by (auto simp: quiet_def)
  then have "executions es = 0"
    by (simp add: executions_def filter_empty_conv)
  with es(1) show ?thesis by blast
qed

lemma idle_executions: "idle m \<Longrightarrow> m t = (r, t') \<Longrightarrow> executions t' = executions t"
  using idle_appends [of m t r t'] by auto

section \<open>One step\<close>

definition report_status :: "jobj \<Rightarrow> jv option" where
  "report_status report = map_of report ''status''"

definition accounted :: "run_setting \<Rightarrow> handled_step \<Rightarrow> bool" where
  "accounted C h \<longleftrightarrow>
     (let d = hs_delta h
      in (report_status (hs_report h), ct_succeeded d, ct_failed d, ct_repaired d)
           \<in> {(Some (JStr ''success''), 1, 0, 0), (Some (JStr ''failed''), 0, 1, 0), (Some (JStr ''partial''), 0, 0, 1)}
         \<and> (rx_mode C = ReplayStrict \<longrightarrow> ct_repaired d = 0 \<and> ct_skipped d = 0)
         \<and> (rx_mode C = ReplayGuided \<longrightarrow> ct_failed d = 0)
         \<and> hs_stop h = (rx_mode C = ReplayStrict \<and> rx_stopOnFailure C \<and> ct_failed d = 1)
         \<and> ct_succeeded d + ct_pending d \<le> ct_executed d \<and> ct_executed d + ct_skipped d \<le> 1
         \<and> ct_blocked d \<le> ct_failed d + ct_skipped d)"

lemma report_status_simps [simp]:
  "report_status (buildReplayBlockedStepReport i tn err pre c al sr) = Some (JStr ''failed'')"
  "report_status (buildReplayGuidedGateReport i tn rd pre c av sr repair) = Some (JStr ''partial'')"
  "report_status (buildReplayPendingStepReport i tn mode cmd argv be rid err)
     = Some (JStr (if mode = ReplayGuided then ''partial'' else ''failed''))"
  "report_status (buildReplayExecutionSuccessStepReport i tn d) = Some (JStr ''success'')"
  "report_status (buildReplayExecutionFailureStepReport i tn d err) = Some (JStr ''failed'')"
  "report_status (buildReplayGuidedPartialStepReport i tn d repair) = Some (JStr ''partial'')"
  by (simp_all add: report_status_def report_head_def buildReplayBlockedStepReport_def
      buildReplayGuidedGateReport_def buildReplayPendingStepReport_def buildReplayExecutionSuccessStepReport_def
      buildReplayExecutionFailureStepReport_def buildReplayGuidedPartialStepReport_def)

lemma counter_simps [simp]:
  "ct_executed zero_counters = 0" "ct_succeeded zero_counters = 0" "ct_failed zero_counters = 0"
  "ct_repaired zero_counters = 0" "ct_blocked zero_counters = 0" "ct_skipped zero_counters = 0"
  "ct_pending zero_counters = 0" "one_if True = 1" "one_if False = 0" "one_if b \<le> Suc 0"
  by (simp_all add: zero_counters_def one_if_def)

lemma then_return_Inr: "then_do m (\<lambda>_. return_act y) t = (Inr x, t') \<Longrightarrow> x = y"
  by (auto simp: then_do_Inr return_act_def)

lemma gated_step_accounted:
  assumes "rx_mode C \<noteq> ReplaySimulate" "gated_step W C st i g pre b1 b2 t = (Inr h, t')"
  shows "accounted C h \<and> ct_executed (hs_delta h) = 0"
proof (cases "rx_mode C = ReplayStrict")
  case True
  then have "handleReplayStrictGateStep W C st i g pre b1 t = (Inr h, t')"
    using assms(2) by (simp add: gated_step_def)
  note h = then_return_Inr [OF this [unfolded handleReplayStrictGateStep_def Let_def]]
  show ?thesis
    by (simp add: h True accounted_def Let_def buildReplayStrictGateStepArtifacts_def)
next
  case False
  then have "handleReplayGuidedGateStep W C st i g pre b2 t = (Inr h, t')"
    using assms(2) by (simp add: gated_step_def)
  then obtain repair t1 where
    "(let artifacts = buildReplayGuidedGateStepArtifacts (st_stepIndex st) (st_toolName st) g pre repair
      in then_do (writeStepAfter W C st
          \<lparr>sf_stepId = i, sf_status = ''partial'', sf_outputSignature = snd artifacts, sf_postconditions = [],
           sf_repairApplied = True, sf_repairNote = Some (gd_reason g), sf_error = None\<rparr>)
        (\<lambda>_. return_act \<lparr>hs_report = fst artifacts,
                        hs_delta = zero_counters\<lparr>ct_repaired := 1, ct_skipped := 1, ct_blocked := one_if b2\<rparr>,
                        hs_stop = False, hs_usage = guidedRepairUsage repair\<rparr>)) t1 = (Inr h, t')"
    unfolding handleReplayGuidedGateStep_def then_do_Inr by blast
  note h = then_return_Inr [OF this [unfolded Let_def]]
  show ?thesis
    using False by (simp add: h accounted_def Let_def buildReplayGuidedGateStepArtifacts_def)
qed

lemma pending_step_accounted:
  assumes "rx_mode C \<noteq> ReplaySimulate" "handleReplayPendingStep W C st i argv exec t = (Inr h, t')"
  shows "accounted C h \<and> ct_executed (hs_delta h) = 1"
proof -
  note h = then_return_Inr [OF assms(2) [unfolded handleReplayPendingStep_def Let_def]]
  show ?thesis
    using assms(1) by (cases "rx_mode C") (simp_all add: h accounted_def Let_def)
qed

lemma settle_step_accounted:
  assumes "rx_mode C \<noteq> ReplaySimulate" "settle_step W C st i checks argv exec out t = (Inr h, t')"
  shows "accounted C h \<and> ct_executed (hs_delta h) = 1"
proof -
  obtain d t1 where
    "handleReplaySuccessStep W C st i d t1 = (Inr h, t')
     \<or> rx_mode C = ReplayStrict \<and> (\<exists>e. handleReplayStrictFailureStep W C st i d checks e t1 = (Inr h, t'))
     \<or> rx_mode C \<noteq> ReplayStrict \<and> (\<exists>e. handleReplayGuidedFailureStep W C st i d e t1 = (Inr h, t'))"
    using assms(2) unfolding settle_step_def Let_def then_do_Inr by (auto split: if_splits)
  then show ?thesis
  proof (elim disjE conjE exE)
    assume "handleReplaySuccessStep W C st i d t1 = (Inr h, t')"
    note h = then_return_Inr [OF this [unfolded handleReplaySuccessStep_def]]
    show ?thesis by (simp add: h accounted_def Let_def)
  next
    fix e assume strict: "rx_mode C = ReplayStrict"
      and "handleReplayStrictFailureStep W C st i d checks e t1 = (Inr h, t')"
    note h = then_return_Inr [OF this(2) [unfolded handleReplayStrictFailureStep_def]]
    show ?thesis by (simp add: h strict accounted_def Let_def)
  next
    fix e assume guided: "rx_mode C \<noteq> ReplayStrict"
      and "handleReplayGuidedFailureStep W C st i d e t1 = (Inr h, t')"
    then obtain repair t2 where
      "then_do (writeStepAfter W C st
         \<lparr>sf_stepId = i, sf_status = ''partial'',
          sf_outputSignature = buildReplayGuidedPartialOutputSignature d repair,
          sf_postconditions = ed_postconditions d, sf_repairApplied = True, sf_repairNote = Some e, sf_error = Some e\<rparr>)
       (\<lambda>_. return_act \<lparr>hs_report = buildReplayGuidedPartialStepReport (st_stepIndex st) (st_toolName st) d repair,
                       hs_delta = zero_counters\<lparr>ct_executed := 1, ct_repaired := 1\<rparr>,
                       hs_stop = False, hs_usage = guidedRepairUsage repair\<rparr>) t2 = (Inr h, t')"
      unfolding handleReplayGuidedFailureStep_def then_do_Inr by blast
    note h = then_return_Inr [OF this]
    show ?thesis using guided by (simp add: h accounted_def Let_def)
  qed
qed

lemma executeReplayCommand_once:
  assumes "command_of (cr_argv a) \<noteq> []" "executeReplayCommand W a t = (Inr x, t')"
  shows "executions t' = Suc (executions t)"
  using assms
  by (auto simp: executeReplayCommand_def runLocalCommand_def then_do_Inr return_act_def ask_def attempt_def
      http_fail_def throw_act_def Let_def executions_def split: if_splits sum.splits)

lemma replay_step_accounted:
  assumes mode: "rx_mode C \<noteq> ReplaySimulate" and step: "replay_step W C step t = (Inr h, t')"
  shows "accounted C h \<and> executions t' = executions t + ct_executed (hs_delta h)"
proof -
  let ?st = "read_step step"
  obtain i t1 checks t2 where pre: "step_before W C ?st t = (Inr i, t1)"
      "check_preconditions W ?st t1 = (Inr checks, t2)"
    and rest: "(case resolveReplayPreconditionGate checks of
           Some g \<Rightarrow> gated_step W C ?st i g (Some checks) True True
         | None \<Rightarrow> (case command_gate C ?st of
                     Some (g, blocked) \<Rightarrow> gated_step W C ?st i g None blocked False
                   | None \<Rightarrow> run_command_step W C ?st i checks)) t2 = (Inr h, t')"
    using step by (auto simp: replay_step_def Let_def then_do_Inr)
  have same: "executions t2 = executions t"
    using pre by (auto dest!: idle_executions [rotated] simp: idle_simps)
  have gate: ?thesis if "gated_step W C ?st i g p b1 b2 t2 = (Inr h, t')" for g p b1 b2
    using gated_step_accounted [OF mode that] same
      idle_executions [of "gated_step W C ?st i g p b1 b2", OF _ that] by (simp add: idle_simps)
  show ?thesis
  proof (cases "resolveReplayPreconditionGate checks = None \<and> command_gate C ?st = None")
    case False
    then show ?thesis using rest gate by (auto split: option.splits)
  next
    case True
    then obtain x t3 where x: "executeReplayCommand W (step_request C (step_argv ?st)) t2 = (Inr x, t3)"
      and end_step: "(case xr_outcome x of
          Some out \<Rightarrow>
            if xr_pending x then handleReplayPendingStep W C ?st i (step_argv ?st) x
            else settle_step W C ?st i checks (step_argv ?st) x out
        | None \<Rightarrow> handleReplayPendingStep W C ?st i (step_argv ?st) x) t3 = (Inr h, t')"
      using rest by (auto simp: run_command_step_def then_do_Inr)
    have "command_of (cr_argv (step_request C (step_argv ?st))) \<noteq> []"
      using True unfolding command_gate_None
      by (auto simp: step_request_def resolveReplayCommandAllowlistGate_def Let_def split: if_splits)
    then have once: "executions t3 = Suc (executions t)"
      using executeReplayCommand_once [OF _ x] same by simp
    consider (pending) "handleReplayPendingStep W C ?st i (step_argv ?st) x t3 = (Inr h, t')"
      | (settled) out where "settle_step W C ?st i checks (step_argv ?st) x out t3 = (Inr h, t')"
      using end_step by (auto split: option.splits if_splits)
    then show ?thesis
    proof cases
      case pending
      then show ?thesis
        using pending_step_accounted [OF mode pending] once
          idle_executions [of "handleReplayPendingStep W C ?st i (step_argv ?st) x", OF _ pending]
        by (simp add: idle_simps)
    next
      case settled
      then show ?thesis
        using settle_step_accounted [OF mode settled] once
          idle_executions [of "settle_step W C ?st i checks (step_argv ?st) x out", OF _ settled]
        by (simp add: idle_simps)
    qed
  qed
qed

section \<open>The loop\<close>

definition status_count :: "string \<Rightarrow> jobj list \<Rightarrow> nat" where
  "status_count s reports = length (filter (\<lambda>r. report_status r = Some (JStr s)) reports)"

definition accounts :: "replay_mode \<Rightarrow> jobj list \<Rightarrow> run_counters \<Rightarrow> bool" where
  "accounts mode reports c \<longleftrightarrow>
     status_count ''success'' reports = ct_succeeded c \<and> status_count ''failed'' reports = ct_failed c
     \<and> status_count ''partial'' reports = ct_repaired c
     \<and> length reports = ct_succeeded c + ct_failed c + ct_repaired c
     \<and> (mode = ReplayStrict \<longrightarrow> ct_repaired c = 0 \<and> ct_skipped c = 0)
     \<and> (mode = ReplayGuided \<longrightarrow> ct_failed c = 0)
     \<and> ct_succeeded c + ct_pending c \<le> ct_executed c \<and> ct_executed c + ct_skipped c \<le> length reports
     \<and> ct_blocked c \<le> ct_failed c + ct_skipped c"

lemma accounts_fresh: "accounts mode (rp_reports fresh_progress) (rp_counters fresh_progress)"
  by (simp add: accounts_def fresh_progress_def zero_counters_def status_count_def)

lemma status_count_snoc [simp]:
  "status_count s (rs @ [r]) = status_count s rs + one_if (report_status r = Some (JStr s))"
  by (simp add: status_count_def one_if_def)

lemma take_step_simps [simp]:
  "rp_reports (take_step p h) = rp_reports p @ [hs_report h]"
  "rp_counters (take_step p h) = applyReplayRunStepDelta (rp_counters p) (hs_delta h)"
  by (simp_all add: take_step_def)

lemma delta_simps [simp]:
  "ct_executed (applyReplayRunStepDelta c d) = ct_executed c + ct_executed d"
  "ct_succeeded (applyReplayRunStepDelta c d) = ct_succeeded c + ct_succeeded d"
  "ct_failed (applyReplayRunStepDelta c d) = ct_failed c + ct_failed d"
  "ct_repaired (applyReplayRunStepDelta c d) = ct_repaired c + ct_repaired d"
  "ct_blocked (applyReplayRunStepDelta c d) = ct_blocked c + ct_blocked d"
  "ct_skipped (applyReplayRunStepDelta c d) = ct_skipped c + ct_skipped d"
  "ct_pending (applyReplayRunStepDelta c d) = ct_pending c + ct_pending d"
  by (simp_all add: applyReplayRunStepDelta_def)

lemma accounted_status:
  assumes "accounted C h"
  shows "one_if (report_status (hs_report h) = Some (JStr ''success'')) = ct_succeeded (hs_delta h)"
    "one_if (report_status (hs_report h) = Some (JStr ''failed'')) = ct_failed (hs_delta h)"
    "one_if (report_status (hs_report h) = Some (JStr ''partial'')) = ct_repaired (hs_delta h)"
    "ct_succeeded (hs_delta h) + ct_failed (hs_delta h) + ct_repaired (hs_delta h) = 1"
  using assms by (auto simp: accounted_def Let_def)

lemma accounts_take_step:
  assumes "accounts (rx_mode C) (rp_reports p) (rp_counters p)" "accounted C h"
  shows "accounts (rx_mode C) (rp_reports (take_step p h)) (rp_counters (take_step p h))"
proof -
  let ?d = "hs_delta h"
  have d: "rx_mode C = ReplayStrict \<longrightarrow> ct_repaired ?d = 0 \<and> ct_skipped ?d = 0"
    "rx_mode C = ReplayGuided \<longrightarrow> ct_failed ?d = 0" "ct_succeeded ?d + ct_pending ?d \<le> ct_executed ?d"
    "ct_executed ?d + ct_skipped ?d \<le> 1" "ct_blocked ?d \<le> ct_failed ?d + ct_skipped ?d"
    using assms(2) unfolding accounted_def Let_def by blast+
  show ?thesis
    using assms(1) d accounted_status [OF assms(2)] unfolding accounts_def take_step_simps status_count_snoc delta_simps
    by auto
qed

text \<open>A run covers every step, or stops at its first failed step when it must.\<close>

definition covers :: "run_setting \<Rightarrow> nat \<Rightarrow> run_progress \<Rightarrow> run_progress \<Rightarrow> bool" where
  "covers C n p q \<longleftrightarrow>
     (let stops = (rx_mode C = ReplayStrict \<and> rx_stopOnFailure C); done = length (rp_reports p);
          failed = ct_failed (rp_counters q) - ct_failed (rp_counters p)
      in if stops \<and> 0 < failed
         then failed = 1 \<and> length (rp_reports q) \<le> done + n
              \<and> report_status (last (rp_reports q)) = Some (JStr ''failed'')
         else length (rp_reports q) = done + n)"

lemma replay_steps_accounts:
  assumes "rx_mode C \<noteq> ReplaySimulate" "replay_steps W C steps p t = (Inr q, t')"
    and "accounts (rx_mode C) (rp_reports p) (rp_counters p)"
  shows "accounts (rx_mode C) (rp_reports q) (rp_counters q)
     \<and> executions t' + ct_executed (rp_counters p) = executions t + ct_executed (rp_counters q)
     \<and> ct_failed (rp_counters p) \<le> ct_failed (rp_counters q) \<and> covers C (length steps) p q"
  using assms(2,3)
proof (induction steps arbitrary: p t)
  case Nil
  then show ?case by (simp add: return_act_def covers_def Let_def)
next
  case (Cons step rest)
  obtain h t1 where h: "replay_step W C step t = (Inr h, t1)"
    and tail: "(if hs_stop h then return_act (take_step p h) else replay_steps W C rest (take_step p h)) t1 = (Inr q, t')"
    using Cons.prems(1) by (auto simp: then_do_Inr)
  have acc: "accounted C h" and ex: "executions t1 = executions t + ct_executed (hs_delta h)"
    using replay_step_accounted [OF assms(1) h] by simp_all
  have next_ok: "accounts (rx_mode C) (rp_reports (take_step p h)) (rp_counters (take_step p h))"
    by (rule accounts_take_step [OF Cons.prems(2) acc])
  show ?case
  proof (cases "hs_stop h")
    case True
    then have q: "q = take_step p h" "t' = t1"
      using tail by (simp_all add: return_act_def)
    have "rx_mode C = ReplayStrict" "rx_stopOnFailure C" "ct_failed (hs_delta h) = 1"
      "report_status (hs_report h) = Some (JStr ''failed'')"
      using acc True by (auto simp: accounted_def Let_def)
    then show ?thesis
      using next_ok ex by (simp add: q covers_def Let_def)
  next
    case False
    then have rest: "replay_steps W C rest (take_step p h) t1 = (Inr q, t')"
      using tail by simp
    have nostop: "\<not> (rx_mode C = ReplayStrict \<and> rx_stopOnFailure C) \<or> ct_failed (hs_delta h) = 0"
      using acc False by (auto simp: accounted_def Let_def)
    show ?thesis
      using Cons.IH [OF rest next_ok] nostop ex by (auto simp: covers_def Let_def split: if_splits)
  qed
qed

section \<open>The run\<close>

lemma run_parts:
  assumes "replayPlaybookRun W opts rq t = (Inr res, t')"
  obtains ten row t1 i t2 where
    "find_playbook W opts rq t = (Inr (ten, row), t1)" "found_playbook W opts rq t ten row"
    "run_id_of W rq t1 = (Inr i, t2)"
    "(if run_mode_of W rq row = ReplaySimulate
      then simulate_run W rq ten row (evaluate_gate W (rq_mode rq) rq row)
             (setting_of opts rq ten row ReplaySimulate i []) t2
      else execute_run W opts rq ten row (evaluate_gate W (rq_mode rq) rq row) i t2) = (Inr res, t')"
proof -
  obtain ten row t1 where find: "find_playbook W opts rq t = (Inr (ten, row), t1)"
    and rest: "(let gate = evaluate_gate W (rq_mode rq) rq row in
       if ge_enabled gate \<and> \<not> ge_matched gate \<and> ge_decision gate = GateRejected then gate_mismatch rq row gate
       else then_do (run_id_of W rq) (\<lambda>runId.
         if ge_effective_mode gate = ReplaySimulate
         then simulate_run W rq ten row gate (setting_of opts rq ten row ReplaySimulate runId [])
         else execute_run W opts rq ten row gate runId)) t1 = (Inr res, t')"
    using assms by (auto simp: replayPlaybookRun_def then_do_Inr)
  have no_error: "gate_mismatch rq row gate t1 \<noteq> (Inr res, t')" for gate
    by (simp add: gate_mismatch_def http_fail_def throw_act_def)
  then obtain i t2 where "run_id_of W rq t1 = (Inr i, t2)"
    "(if run_mode_of W rq row = ReplaySimulate
      then simulate_run W rq ten row (evaluate_gate W (rq_mode rq) rq row)
             (setting_of opts rq ten row ReplaySimulate i []) t2
      else execute_run W opts rq ten row (evaluate_gate W (rq_mode rq) rq row) i t2) = (Inr res, t')"
    using rest by (auto simp: Let_def then_do_Inr run_mode_of_def split: if_splits)
  then show thesis
    using find find_playbook_found [OF find] that by blast
qed

lemma execute_run_result:
  assumes "execute_run W opts rq ten row gate i t = (Inr res, t')" "ge_effective_mode gate \<noteq> ReplaySimulate"
  shows "rr_mode res = ge_effective_mode gate \<and> rr_gate res = gate
     \<and> rr_status res = final_status (rr_mode res) (rr_counters res)
     \<and> accounts (rr_mode res) (rr_steps res) (rr_counters res)
     \<and> executions t' = executions t + ct_executed (rr_counters res)
     \<and> (\<exists>d p. rr_steps res = rp_reports p \<and> rr_counters res = rp_counters p
              \<and> covers (setting_of opts rq ten row (ge_effective_mode gate) i d) (length (steps_of rq row)) fresh_progress p)"
proof -
  let ?C = "\<lambda>d. setting_of opts rq ten row (ge_effective_mode gate) i d"
  obtain u1 t1 u2 t2 d t3 u3 t4 s t5 a t6 p t7 b t8 uri where
    pre: "check_backend opts rq (ge_effective_mode gate) t = (Inr u1, t1)" "check_commands opts rq t1 = (Inr u2, t2)"
      "workdir_of W opts rq t2 = (Inr d, t3)" "budget_check W opts rq ten t3 = (Inr u3, t4)"
      "when_act (rx_record (?C d)) (row_uri ten row) t4 = (Inr s, t5)"
      "write_run W (?C d) (WriteRunStart (buildReplayPlaybookRunStartBody (?C d) (case s of Some u \<Rightarrow> u | None \<Rightarrow> []) True)) t5
         = (Inr a, t6)"
    and steps: "replay_steps W (?C d) (steps_of rq row) fresh_progress t6 = (Inr p, t7)"
    and post: "write_run W (?C d) (WriteRunEnd (buildReplayPlaybookRunEndBody (?C d)
        (final_status (ge_effective_mode gate) (rp_counters p)) (run_text (ge_effective_mode gate) (rp_counters p))
        (counter_members (length (steps_of rq row)) (rp_counters p)) (Some (run_criteria (?C d) (rp_counters p))))) t7
         = (Inr b, t8)"
      "row_uri ten row t8 = (Inr uri, t')"
    and res: "res = finished_run opts rq ten row gate (?C d) p a b uri"
    using assms(1) by (auto simp: execute_run_def Let_def then_do_Inr return_act_def)
  have mode: "rx_mode (?C d) = ge_effective_mode gate"
    by (simp add: setting_of_def Let_def)
  have backend: "idle (check_backend opts rq (ge_effective_mode gate))"
    by (simp add: check_backend_def Let_def idle_simps)
  have "executions t6 = executions t" "executions t' = executions t7"
    using pre post by (auto dest!: idle_executions [rotated] simp: idle_simps backend)
  moreover have "accounts (ge_effective_mode gate) (rp_reports p) (rp_counters p)"
      "executions t7 = executions t6 + ct_executed (rp_counters p)"
      "covers (?C d) (length (steps_of rq row)) fresh_progress p"
    using replay_steps_accounts [OF _ steps] accounts_fresh assms(2)
    by (simp_all add: mode) (simp_all add: fresh_progress_def zero_counters_def)
  ultimately show ?thesis
    unfolding res finished_run_def by (auto simp: Let_def mode)
qed

end
