(* ===== verification/PropsReplay.thy ===== *)
theory PropsReplay
  imports ReplaySafety
begin

text \<open>
  The properties of playbook replay.  The examples share one world: every file exists, every
  command succeeds, and the store holds one playbook.
\<close>

section \<open>An example\<close>

definition sample_row :: "jv list \<Rightarrow> playbook_row" where
  "sample_row steps =
     \<lparr>pb_id = ''11111111-1111-4111-8111-111111111111'', pb_type = ''procedure'', pb_title = None,
      pb_slots = JObj [(''steps_template'', JArr steps)], pb_version_num = 1, pb_playbook_status = Some ''active'',
      pb_memory_lane = ''shared'', pb_producer_agent_id = None, pb_owner_agent_id = None, pb_owner_team_id = None\<rparr>"

definition sample_world :: "jv list \<Rightarrow> replay_world" where
  "sample_world steps =
     \<lparr>w_file = (\<lambda>_ _. True), w_which = (\<lambda>_ _. Some 0), w_variable = (\<lambda>_ _. None), w_port_free = (\<lambda>_ _ _. True),
      w_directory = (\<lambda>_. Inr ''/work''),
      w_spawn = (\<lambda>_ _. Inr \<lparr>sp_stdout = [], sp_stderr = [], sp_status = Some (Fin 0), sp_error = None\<rparr>),
      w_sandbox = (\<lambda>_ _. Inl (ReplayException ''down'')), w_elapsed = (\<lambda>_. 1),
      w_playbook = (\<lambda>_ _. Inr (Some (sample_row steps))), w_budget = (\<lambda>_ _. Inr ()), w_fetch = (\<lambda>_ _. Inl ''down''),
      w_write = (\<lambda>_ _. Inr []), w_uuid = (\<lambda>_. ''22222222-2222-4222-8222-222222222222''),
      w_regex = (\<lambda>_ _. None), w_json_parse = (\<lambda>_. None), w_sha256 = (\<lambda>_. [])\<rparr>"

definition sample_options :: run_options where
  "sample_options =
     \<lparr>op_defaultScope = ''default'', op_defaultTenantId = ''default'', op_embedded_without_access = False,
      op_writeOptions = True,
      op_localExecutor = Some \<lparr>le_enabled = True, le_local_process = True, le_allowedCommands = [''rm'', ''ls''],
        le_workdir = ''/work'', le_timeoutMs = Fin 15000, le_stdioMaxBytes = Fin 65536\<rparr>,
      op_guidedRepair = None, op_sandboxExecutor = False, op_sandboxBudgetGuard = False\<rparr>"

definition sample_request :: "replay_mode \<Rightarrow> jv option \<Rightarrow> playbook_request" where
  "sample_request mode gate =
     \<lparr>rq_tenant_id = None, rq_scope = None, rq_project_id = None, rq_actor = None, rq_consumer_agent_id = None,
      rq_consumer_team_id = None, rq_memory_lane = None, rq_producer_agent_id = None, rq_owner_agent_id = None,
      rq_owner_team_id = None, rq_playbook_id = ''p'', rq_version = None, rq_mode = mode,
      rq_deterministic_gate = gate,
      rq_params = Some (JObj [(''allow_local_exec'', JBool True), (''record_run'', JBool False)]), rq_max_steps = 200\<rparr>"

definition sample_step :: "string \<Rightarrow> string list \<Rightarrow> jv" where
  "sample_step safety argv =
     JObj [(''tool_name'', JStr ''command''), (''safety_level'', JStr safety),
           (''tool_input'', JObj [(''argv'', texts argv)])]"

definition run_sample :: "replay_mode \<Rightarrow> jv list \<Rightarrow> (replay_failure + run_result) \<times> trace" where
  "run_sample mode steps = replayPlaybookRun (sample_world steps) sample_options (sample_request mode None) []"

lemmas sample_defs = sample_row_def sample_world_def sample_options_def sample_request_def sample_step_def texts_def

lemmas act_eval = then_do_def return_act_def ask_def attempt_def request_io_def when_act_def

definition sample_tenant :: tenant_scope where
  "sample_tenant = \<lparr>ts_tenant_id = ''default'', ts_scope = ''default'', ts_scope_key = ''default''\<rparr>"

definition sample_query :: playbook_query where
  "sample_query = \<lparr>pq_scope_key = ''default'', pq_playbook_id = ''p'', pq_version = None,
                   pq_consumer_agent_id = None, pq_consumer_team_id = None\<rparr>"

lemma object_or_empty_simps [simp]:
  "object_or_empty (Some (JObj ob)) = JObj ob" "object_or_empty None = JObj []"
  by (simp_all add: object_or_empty_def asObject_def is_plain_object_def)

lemma find_sample:
  "find_playbook (sample_world steps) sample_options (sample_request mode gate) t
     = (Inr (sample_tenant, sample_row steps), t @ [Looked sample_query])"
proof -
  have ten: "resolveTenantScope None None ''default'' ''default'' = Inr sample_tenant"
    by (simp add: resolveTenantScope_def normalizeTenantId_def normalizeScope_def toTenantScopeKey_def
        sample_tenant_def js_trim_def is_ws_def TENANT_ID_RE_def char_class_defs js_starts_with_def Let_def)
  have query: "playbook_query_of (sample_request mode gate) sample_tenant = sample_query"
    by (simp add: playbook_query_of_def sample_request_def sample_tenant_def sample_query_def trimmed_or_null_def
        toStringOrNull_def)
  show ?thesis
    unfolding find_playbook_def requireReplayReadAccess_def
    using query by (simp add: act_eval sample_options_def sample_request_def ten sample_world_def)
qed

lemma params_sample:
  "params_of (sample_request mode gate) = JObj [(''allow_local_exec'', JBool True), (''record_run'', JBool False)]"
  by (simp add: params_of_def sample_request_def)

lemma param_sample [simp]:
  "param_text (sample_request mode gate) ''run_id'' = None"
  "param_text (sample_request mode gate) ''execution_backend'' = None"
  "param_text (sample_request mode gate) ''guided_repair_strategy'' = None"
  "param_text (sample_request mode gate) ''workdir'' = None"
  "param_text (sample_request mode gate) ''sensitive_review_mode'' = None"
  "param_true (sample_request mode gate) ''allow_local_exec''"
  "\<not> param_true (sample_request mode gate) ''allow_sensitive_exec''"
  "\<not> param_true (sample_request mode gate) ''auto_confirm''"
  "js_get (params_of (sample_request mode gate)) ''record_run'' = Some (JBool False)"
  "js_get (params_of (sample_request mode gate)) ''stop_on_failure'' = None"
  "requested_commands (sample_request mode gate) = []"
  by (simp_all add: param_text_def param_true_def params_sample obj_get_def proto_keys_def toStringOrNull_def
      requested_commands_def asStringArray_def)

lemma steps_sample: "length steps \<le> 200 \<Longrightarrow> steps_of (sample_request mode gate) (sample_row steps) = steps"
  by (simp add: steps_of_def playbook_steps_def row_slots_def sample_request_def sample_row_def array_or_empty_def obj_get_def proto_keys_def)

lemma uri_sample: "\<exists>u. row_uri sample_tenant (sample_row steps) t = (Inr u, t)"
  by (simp add: row_uri_def request_io_def buildAionisUri_def sample_tenant_def sample_row_def js_trim_def
      is_ws_def URI_OBJECT_TYPES_def UUID_RE_def is_hex_def is_digit_def Let_def)


lemma run_sample_parts:
  assumes "mode \<noteq> ReplaySimulate"
  shows "run_sample mode steps =
    execute_run (sample_world steps) sample_options (sample_request mode None) sample_tenant (sample_row steps)
      (evaluate_gate (sample_world steps) mode (sample_request mode None) (sample_row steps))
      ''22222222-2222-4222-8222-222222222222'' [Looked sample_query, DrewUuid]"
proof -
  let ?gate = "evaluate_gate (sample_world steps) mode (sample_request mode None) (sample_row steps)"
  have "\<not> ge_enabled ?gate" "ge_effective_mode ?gate = mode" "rq_mode (sample_request mode None) = mode"
    by (simp_all add: evaluate_gate_def evaluateReplayDeterministicGate_def sample_request_def
        resolveReplayDeterministicGate_def asObject_def Let_def)
  then show ?thesis
    using assms
    by (simp add: run_sample_def replayPlaybookRun_def find_sample then_do_def run_id_of_def ask_def Let_def)
      (simp add: sample_world_def)
qed

definition sample_setting :: "replay_mode \<Rightarrow> jv list \<Rightarrow> run_setting" where
  "sample_setting mode steps = setting_of sample_options (sample_request mode None) sample_tenant (sample_row steps) mode
     ''22222222-2222-4222-8222-222222222222'' ''/work''"

lemma setting_sample [simp]:
  "rx_mode (sample_setting mode steps) = mode" "\<not> rx_record (sample_setting mode steps)"
  "rx_backend (sample_setting mode steps) = LocalProcess"
  "rx_allowedCommands (sample_setting mode steps) = [''rm'', ''ls'']"
  "rx_sensitiveReviewMode (sample_setting mode steps) = ReviewBlock"
  "\<not> rx_allowSensitiveExec (sample_setting mode steps)" "\<not> rx_autoConfirm (sample_setting mode steps)"
  "rx_stopOnFailure (sample_setting mode steps)" "rx_workdir (sample_setting mode steps) = ''/work''"
  by (simp_all add: sample_setting_def setting_of_def Let_def records_run_def backend_of_def
      normalizeReplayExecutionBackend_def normalizeReplaySensitiveReviewMode_def allowed_of_def effective_commands_def
      server_commands_def sample_options_def)

lemma command_trim: "js_trim ''command'' = ''command''"
  by (simp add: js_trim_def is_ws_def)

lemma auto_ok_trim: "js_trim ''auto_ok'' = ''auto_ok''"
  by (simp add: js_trim_def is_ws_def)

lemma step_fields [simp]:
  "st_preconditions (read_step (sample_step s argv)) = []" "st_postconditions (read_step (sample_step s argv)) = []"
  "st_toolName (read_step (sample_step s argv)) = Some ''command''"
  "st_stepObj (read_step (sample_step s argv)) = sample_step s argv"
  "js_trim s \<noteq> [] \<Longrightarrow> st_safetyLevel (read_step (sample_step s argv)) = js_trim s"
  "st_expectedSignature (read_step (sample_step s argv)) = JNull"
  by (simp_all add: read_step_def sample_step_def Let_def array_or_empty_def obj_get_def proto_keys_def
     toStringOrNull_def value_or_null_def command_trim)

lemma tool_sample: "tool_input_object (sample_step s argv) = JObj [(''argv'', texts argv)]"
  by (simp add: tool_input_object_def sample_step_def asObject_def obj_get_def proto_keys_def)

lemma argv_sample:
  "argv \<noteq> [] \<Longrightarrow> list_all (\<lambda>a. a \<noteq> [] \<and> trimmed a) argv \<Longrightarrow> step_argv (read_step (sample_step s argv)) = argv"
proof -
  assume a: "argv \<noteq> []" "list_all (\<lambda>a. a \<noteq> [] \<and> trimmed a) argv"
  have "asStringArray (Some (texts argv)) = argv"
    using a(2) by (induction argv) (auto simp: asStringArray_def texts_def js_trim_id)
  then show ?thesis
    using a(1) by (simp add: step_argv_def parseStepArgv_def Let_def tool_sample obj_get_def)
qed

lemma rm_approved: "command_gate (sample_setting mode steps) (read_step (sample_step ''auto_ok'' [''/bin/rm'', ''-rf'', ''/data''])) = None"
  by (simp add: command_gate_None argv_sample trimmed_def is_ws_def resolveReplayConfirmationGate_def js_trim_def
     isReplayCommandTool_def resolveReplayCommandAllowlistGate_def command_of_def Let_def isSafeCommandReference_def
     isSafeCommandName_def js_starts_with_def path_segments_def char_class_defs isAllowedReplayCommand_def
     resolveCommandReferenceAliases_def path_basename_def resolveReplaySensitiveCommandGate_def
     detectSensitiveCommand_def SENSITIVE_COMMANDS_def js_lower_def lower_char_def harmless_command_def)

definition rm_call :: local_call where
  "rm_call = \<lparr>lc_argv = [''/bin/rm'', ''-rf'', ''/data''], lc_cwd = ''/work'', lc_timeout = 15000, lc_maxBuffer = 65536\<rparr>"

lemma timeouts_sample: "rx_timeoutMs (sample_setting mode steps) = 15000" "rx_stdioMaxBytes (sample_setting mode steps) = 65536"
  by (simp_all add: sample_setting_def setting_of_def Let_def clampInt_def param_number_def params_sample obj_get_def
     proto_keys_def num_default_def sample_options_def)

lemma step_rm:
  "\<exists>h. replay_step (sample_world steps) (sample_setting mode steps)
      (sample_step ''auto_ok'' [''/bin/rm'', ''-rf'', ''/data'']) t = (Inr h, t @ [Spawned rm_call])"
  by (simp add: replay_step_def Let_def rm_approved step_before_def recordable_def check_preconditions_def act_eval
      resolveReplayPreconditionGate_def run_command_step_def executeReplayCommand_def step_request_def runLocalCommand_def
      argv_sample trimmed_def is_ws_def command_of_def js_trim_def timeouts_sample rm_call_def)
    (simp add: sample_world_def spawned_outcome_def settle_step_def act_eval evaluateExpectedSignature_def
      asObject_def is_plain_object_def isReplayExecutionPassed_def handleReplaySuccessStep_def writeStepAfter_def
      finite_code_def is_finite_def Let_def)

lemma ls_approved: "command_gate (sample_setting mode steps) (read_step (sample_step ''auto_ok'' [''ls'', ''/data''])) = None"
  by (simp add: command_gate_None argv_sample trimmed_def is_ws_def resolveReplayConfirmationGate_def js_trim_def
     isReplayCommandTool_def resolveReplayCommandAllowlistGate_def command_of_def Let_def isSafeCommandReference_def
     isSafeCommandName_def js_starts_with_def path_segments_def char_class_defs isAllowedReplayCommand_def
     resolveCommandReferenceAliases_def path_basename_def resolveReplaySensitiveCommandGate_def
     detectSensitiveCommand_def SENSITIVE_COMMANDS_def js_lower_def lower_char_def harmless_command_def)

definition ls_call :: local_call where
  "ls_call = \<lparr>lc_argv = [''ls'', ''/data''], lc_cwd = ''/work'', lc_timeout = 15000, lc_maxBuffer = 65536\<rparr>"

lemma step_ls:
  "\<exists>h. replay_step (sample_world steps) (sample_setting mode steps)
      (sample_step ''auto_ok'' [''ls'', ''/data'']) t = (Inr h, t @ [Spawned ls_call])"
  by (simp add: replay_step_def Let_def ls_approved step_before_def recordable_def check_preconditions_def act_eval
      resolveReplayPreconditionGate_def run_command_step_def executeReplayCommand_def step_request_def runLocalCommand_def
      argv_sample trimmed_def is_ws_def command_of_def js_trim_def timeouts_sample ls_call_def)
    (simp add: sample_world_def spawned_outcome_def settle_step_def act_eval evaluateExpectedSignature_def
      asObject_def is_plain_object_def isReplayExecutionPassed_def handleReplaySuccessStep_def writeStepAfter_def
      finite_code_def is_finite_def Let_def)

lemma run_one_step:
  assumes "mode \<noteq> ReplaySimulate"
    and step: "replay_step (sample_world [step]) (sample_setting mode [step]) step [Looked sample_query, DrewUuid] = (Inr h, t)"
  shows "\<exists>res. run_sample mode [step] = (Inr res, t) \<and> rr_mode res = mode \<and> rr_steps res = [hs_report h]
    \<and> rr_status res = final_status mode (applyReplayRunStepDelta zero_counters (hs_delta h))"
proof -
  let ?W = "sample_world [step]" and ?rq = "sample_request mode None" and ?row = "sample_row [step]"
  let ?gate = "evaluate_gate ?W mode ?rq ?row" and ?C = "sample_setting mode [step]"
  have mode: "ge_effective_mode ?gate = mode"
    by (simp add: evaluate_gate_def evaluateReplayDeterministicGate_def sample_request_def
        resolveReplayDeterministicGate_def asObject_def Let_def)
  obtain u where u: "row_uri sample_tenant ?row t = (Inr u, t)"
    using uri_sample by blast
  have loop: "replay_steps ?W ?C [step] fresh_progress [Looked sample_query, DrewUuid] = (Inr (take_step fresh_progress h), t)"
    by (simp add: then_do_def step return_act_def)
  have ready: "check_backend sample_options ?rq mode t' = (Inr (), t')" "check_commands sample_options ?rq t' = (Inr (), t')"
    "workdir_of ?W sample_options ?rq t' = (Inr ''/work'', t')" "budget_check ?W sample_options ?rq sample_tenant t' = (Inr None, t')"
    for t'
    using assms(1)
    by (simp_all add: check_backend_def check_commands_def workdir_of_def budget_check_def backend_of_def
        normalizeReplayExecutionBackend_def Let_def sample_options_def allowed_of_def effective_commands_def
        server_commands_def or_some_def return_act_def when_act_def)
  have steps: "steps_of ?rq ?row = [step]"
    by (simp add: steps_sample)
  show ?thesis
    unfolding run_sample_parts [OF assms(1)] execute_run_def Let_def mode steps
    by (simp add: then_do_def ready sample_setting_def [symmetric] write_run_def when_act_def return_act_def loop u
        del: replay_steps.simps)
      (simp add: finished_run_def Let_def fresh_progress_def)
qed

section \<open>What a replay runs\<close>

text \<open>C5: Every command a replay runs has passed its gates: the request gives its consent and does
  not simulate, the command is the one of a step that the request takes of the stored playbook,
  it is on the allow list of the server and on that of the request if it has one, by its name or by
  the last part of its path, the step need not be run by hand and is confirmed if it must be, a
  command that is as a whole, up to case, one of the sensitive names has its override unless the
  review mode of the request is to warn only (a sensitive command given by its path is not
  covered), and just before the call all preconditions of the step have been checked and have
  passed.\<close>

theorem replay_runs_only_approved:
  assumes "replayPlaybookRun W opts rq t = (r, t @ us @ ev # vs)" and "executed_argv ev = Some argv"
  shows "\<exists>ten row step checks t0.
    found_playbook W opts rq t ten row \<and> run_mode_of W rq row \<noteq> ReplaySimulate
    \<and> param_true rq ''allow_local_exec'' \<and> step \<in> set (steps_of rq row) \<and> argv = step_argv (read_step step)
    \<and> command_approved opts rq (read_step step)
    \<and> check_preconditions W (read_step step) t0 = (Inr checks, t @ us) \<and> (\<forall>c. c \<in> set checks \<longrightarrow> pr_state c = CheckPass)"
  by (rule executed_is_approved [OF assms]) blast

theorem replay_runs_only_approved_witness:
  "\<exists>ten row step. found_playbook (sample_world [sample_step ''auto_ok'' [''ls'', ''/data'']]) sample_options
       (sample_request ReplayStrict None) [] ten row
     \<and> command_approved sample_options (sample_request ReplayStrict None) (read_step step)
     \<and> step_argv (read_step step) = [''ls'', ''/data'']"
proof -
  let ?step = "sample_step ''auto_ok'' [''ls'', ''/data'']"
  obtain h where "replay_step (sample_world [?step]) (sample_setting ReplayStrict [?step]) ?step
      [Looked sample_query, DrewUuid] = (Inr h, [Looked sample_query, DrewUuid] @ [Spawned ls_call])"
    using step_ls by blast
  then obtain res where "run_sample ReplayStrict [?step] = (Inr res, [] @ [Looked sample_query, DrewUuid] @ Spawned ls_call # [])"
    using run_one_step [of ReplayStrict ?step h] by auto
  from replay_runs_only_approved [OF this [unfolded run_sample_def], of "[''ls'', ''/data'']"]
  show ?thesis
    by (simp add: ls_call_def) metis
qed

section \<open>Counters and status\<close>

lemma run_accounts:
  assumes "replayPlaybookRun W opts rq t = (Inr res, t')"
  obtains ten row where "found_playbook W opts rq t ten row" "rr_mode res = run_mode_of W rq row"
    "rr_mode res = ReplaySimulate \<Longrightarrow> executions t' = executions t"
    "rr_mode res \<noteq> ReplaySimulate \<Longrightarrow>
       rr_status res = final_status (rr_mode res) (rr_counters res)
       \<and> accounts (rr_mode res) (rr_steps res) (rr_counters res)
       \<and> executions t' = executions t + ct_executed (rr_counters res)
       \<and> (length (rr_steps res) = length (steps_of rq row)
          \<or> rr_mode res = ReplayStrict \<and> ct_failed (rr_counters res) = 1
            \<and> report_status (last (rr_steps res)) = Some (JStr ''failed''))"
proof -
  obtain ten row t1 i t2 where find: "find_playbook W opts rq t = (Inr (ten, row), t1)"
    and found: "found_playbook W opts rq t ten row" and i: "run_id_of W rq t1 = (Inr i, t2)"
    and run: "(if run_mode_of W rq row = ReplaySimulate
      then simulate_run W rq ten row (evaluate_gate W (rq_mode rq) rq row)
             (setting_of opts rq ten row ReplaySimulate i []) t2
      else execute_run W opts rq ten row (evaluate_gate W (rq_mode rq) rq row) i t2) = (Inr res, t')"
    by (rule run_parts [OF assms])
  have same: "executions t2 = executions t"
    using idle_executions [of "find_playbook W opts rq", OF _ find]
      idle_executions [of "run_id_of W rq", OF _ i] by (simp add: idle_simps)
  show thesis
  proof (cases "run_mode_of W rq row = ReplaySimulate")
    case True
    then have sim: "simulate_run W rq ten row (evaluate_gate W (rq_mode rq) rq row)
        (setting_of opts rq ten row ReplaySimulate i []) t2 = (Inr res, t')"
      using run by simp
    have "rr_mode res = ReplaySimulate"
      using sim by (auto simp: simulate_run_def Let_def then_do_Inr return_act_def)
    moreover have "executions t' = executions t"
      using idle_executions [OF idle_simulate_run sim] same by simp
    ultimately show thesis using that [OF found] True by simp
  next
    case False
    then have ex: "execute_run W opts rq ten row (evaluate_gate W (rq_mode rq) rq row) i t2 = (Inr res, t')"
      using run by simp
    note result = execute_run_result [OF ex False [unfolded run_mode_of_def]]
    then obtain d p where "rr_steps res = rp_reports p" "rr_counters res = rp_counters p"
      "covers (setting_of opts rq ten row (run_mode_of W rq row) i d) (length (steps_of rq row)) fresh_progress p"
      by (auto simp: run_mode_of_def)
    then have "length (rr_steps res) = length (steps_of rq row)
          \<or> run_mode_of W rq row = ReplayStrict \<and> ct_failed (rr_counters res) = 1
            \<and> report_status (last (rr_steps res)) = Some (JStr ''failed'')"
      by (auto simp: covers_def Let_def fresh_progress_def setting_of_def split: if_splits)
    then show thesis
      using result False same that [OF found] by (auto simp: run_mode_of_def)
  qed
qed

text \<open>C12: The counters of an executed run account for it exactly: as many commands were run as it
  counts, every report counts as one success, failure or repair by its status, and the run covers
  the steps that the request takes, the first \<open>max_steps\<close> of the playbook, or ends with the one
  failed step a strict run stops at.\<close>

theorem replay_counters_account:
  assumes "replayPlaybookRun W opts rq t = (Inr res, t')" and "rr_mode res \<noteq> ReplaySimulate"
  shows "executions t' = executions t + ct_executed (rr_counters res)
    \<and> status_count ''success'' (rr_steps res) = ct_succeeded (rr_counters res)
    \<and> status_count ''failed'' (rr_steps res) = ct_failed (rr_counters res)
    \<and> status_count ''partial'' (rr_steps res) = ct_repaired (rr_counters res)
    \<and> length (rr_steps res) = ct_succeeded (rr_counters res) + ct_failed (rr_counters res) + ct_repaired (rr_counters res)
    \<and> ct_succeeded (rr_counters res) + ct_pending (rr_counters res) \<le> ct_executed (rr_counters res)
    \<and> (\<exists>ten row. found_playbook W opts rq t ten row
         \<and> (length (rr_steps res) = min (rq_max_steps rq) (length (playbook_steps row))
            \<or> rr_mode res = ReplayStrict \<and> ct_failed (rr_counters res) = 1
              \<and> report_status (last (rr_steps res)) = Some (JStr ''failed'')))"
proof -
  obtain ten row where found: "found_playbook W opts rq t ten row"
    and run: "accounts (rr_mode res) (rr_steps res) (rr_counters res)"
      "executions t' = executions t + ct_executed (rr_counters res)"
      "length (rr_steps res) = length (steps_of rq row)
       \<or> rr_mode res = ReplayStrict \<and> ct_failed (rr_counters res) = 1
         \<and> report_status (last (rr_steps res)) = Some (JStr ''failed'')"
    by (rule run_accounts [OF assms(1)]) (use assms(2) in blast)
  show ?thesis
    using found run(1,2) run(3) [unfolded steps_of_def length_take min.commute [of "length (playbook_steps row)"]]
    unfolding accounts_def by blast
qed

lemma sample_rm_run:
  "\<exists>res. run_sample ReplayStrict [sample_step ''auto_ok'' [''/bin/rm'', ''-rf'', ''/data'']]
     = (Inr res, [Looked sample_query, DrewUuid, Spawned rm_call]) \<and> rr_mode res = ReplayStrict"
proof -
  let ?step = "sample_step ''auto_ok'' [''/bin/rm'', ''-rf'', ''/data'']"
  obtain h where "replay_step (sample_world [?step]) (sample_setting ReplayStrict [?step]) ?step
      [Looked sample_query, DrewUuid] = (Inr h, [Looked sample_query, DrewUuid] @ [Spawned rm_call])"
    using step_rm by blast
  then show ?thesis
    using run_one_step [of ReplayStrict ?step h] by auto
qed

theorem replay_counters_account_witness:
  "\<exists>res t'. run_sample ReplayStrict [sample_step ''auto_ok'' [''/bin/rm'', ''-rf'', ''/data'']] = (Inr res, t')
     \<and> ct_executed (rr_counters res) = 1"
proof -
  obtain res where res: "run_sample ReplayStrict [sample_step ''auto_ok'' [''/bin/rm'', ''-rf'', ''/data'']]
     = (Inr res, [Looked sample_query, DrewUuid, Spawned rm_call])" and mode: "rr_mode res = ReplayStrict"
    using sample_rm_run by blast
  have "rr_mode res \<noteq> ReplaySimulate"
    by (simp add: mode)
  from replay_counters_account [OF res [unfolded run_sample_def] this] res show ?thesis
    by (simp add: executions_def)
qed

lemma length_filter_all: "length (filter P xs) = length xs \<longleftrightarrow> (\<forall>x \<in> set xs. P x)"
  using length_filter_less [of _ xs P] by fastforce

lemma all_succeeded:
  "map report_status reports = replicate n (Some (JStr ''success''))
     \<longleftrightarrow> length reports = n \<and> status_count ''success'' reports = n"
proof -
  have "status_count ''success'' reports = length reports \<longleftrightarrow> (\<forall>r \<in> set reports. report_status r = Some (JStr ''success''))"
    unfolding status_count_def by (rule length_filter_all)
  then show ?thesis
    by (auto simp: list_eq_iff_nth_eq all_set_conv_all_nth)
qed

text \<open>C20: A strict run is a success exactly when each of the steps that the request takes, the first
  \<open>max_steps\<close> of the playbook, was reported as a success; a longer playbook can so be a
  success although its later steps are not reported at all.\<close>

theorem strict_success_exact:
  assumes "replayPlaybookRun W opts rq t = (Inr res, t')" and "rr_mode res = ReplayStrict"
  shows "\<exists>ten row. found_playbook W opts rq t ten row
    \<and> (rr_status res = ''success''
       \<longleftrightarrow> map report_status (rr_steps res)
         = replicate (min (rq_max_steps rq) (length (playbook_steps row))) (Some (JStr ''success'')))"
proof -
  obtain ten row where found: "found_playbook W opts rq t ten row"
    and status: "rr_status res = final_status (rr_mode res) (rr_counters res)"
    and run: "accounts (rr_mode res) (rr_steps res) (rr_counters res)"
      "length (rr_steps res) = length (steps_of rq row) \<or> ct_failed (rr_counters res) = 1"
    by (rule run_accounts [OF assms(1)]) (use assms(2) in auto)
  have "rr_status res = ''success'' \<longleftrightarrow> ct_failed (rr_counters res) = 0"
    by (simp add: status assms(2) final_status_def)
  also have "\<dots> \<longleftrightarrow> map report_status (rr_steps res) = replicate (length (steps_of rq row)) (Some (JStr ''success''))"
    using run assms(2) unfolding all_succeeded accounts_def by auto
  finally show ?thesis
    using found unfolding steps_of_def length_take min.commute [of "length (playbook_steps row)"] by blast
qed

theorem strict_success_exact_witness:
  "\<exists>res. fst (run_sample ReplayStrict [sample_step ''auto_ok'' [''/bin/rm'', ''-rf'', ''/data'']]) = Inr res
     \<and> (rr_status res = ''success'' \<longleftrightarrow> map report_status (rr_steps res) = [Some (JStr ''success'')])"
proof -
  let ?step = "sample_step ''auto_ok'' [''/bin/rm'', ''-rf'', ''/data'']"
  obtain res where res: "run_sample ReplayStrict [?step] = (Inr res, [Looked sample_query, DrewUuid, Spawned rm_call])"
    and mode: "rr_mode res = ReplayStrict"
    using sample_rm_run by blast
  have row: "row = sample_row [?step]" if "found_playbook (sample_world [?step]) opts rq t ten row" for opts rq t ten row
    using that by (simp add: found_playbook_def sample_world_def)
  have "length (steps_of (sample_request ReplayStrict None) (sample_row [?step])) = 1"
    by (simp add: steps_sample)
  then have one: "min (rq_max_steps (sample_request ReplayStrict None)) (length (playbook_steps (sample_row [?step]))) = 1"
    by (simp add: steps_of_def min.commute)
  from strict_success_exact [OF res [unfolded run_sample_def] mode] row one
  have "rr_status res = ''success'' \<longleftrightarrow> map report_status (rr_steps res) = replicate 1 (Some (JStr ''success''))"
    by metis
  then show ?thesis
    using res by simp
qed

text \<open>A guided run is never reported as failed, whatever its commands did.\<close>

lemma guided_never_failed:
  assumes "replayPlaybookRun W opts rq t = (Inr res, t')" and "rr_mode res = ReplayGuided"
  shows "rr_status res \<noteq> ''failed''"
proof -
  have "rr_status res = final_status ReplayGuided (rr_counters res)" "accounts ReplayGuided (rr_steps res) (rr_counters res)"
    by (rule run_accounts [OF assms(1)], use assms(2) in simp)+
  then show ?thesis
    by (simp add: final_status_def accounts_def)
qed

text \<open>A command that is not allowed is never replaced: its gate hands no arguments to the repair, so
  the heuristic always removes the step.\<close>

lemma refused_command_removed:
  assumes "resolveReplayCommandAllowlistGate argv allowed = Some g"
    and "ri_argv inp = gd_sensitiveArgv g" "ri_reason inp = gd_reason g"
  shows "buildHeuristicGuidedRepairPatch cfg inp = heuristic_fallback inp"
proof -
  have "gd_sensitiveArgv g = None" "gd_reason g = ''command_not_allowed_or_missing''"
    using assms(1) by (auto simp: resolveReplayCommandAllowlistGate_def Let_def split: if_splits)
  then show ?thesis
    using assms(2,3) by (simp add: buildHeuristicGuidedRepairPatch_def repair_argv_def Let_def split: option.split)
qed

section \<open>Where the review and the simulation fall short\<close>

definition blocked_setting :: "string \<Rightarrow> run_setting" where
  "blocked_setting name = (sample_setting ReplayStrict [])\<lparr>rx_allowedCommands := [name]\<rparr>"

lemma sensitive_names:
  assumes "name \<in> set SENSITIVE_COMMANDS"
  shows "name \<noteq> []" "list_all is_name_part name" "js_lower name = name"
proof -
  have "list_all (\<lambda>n. n \<noteq> [] \<and> list_all is_name_part n \<and> js_lower n = n) SENSITIVE_COMMANDS"
    by (simp add: SENSITIVE_COMMANDS_def char_class_defs js_lower_def lower_char_def)
  then show "name \<noteq> []" "list_all is_name_part name" "js_lower name = name"
    using assms by (auto simp: list_all_iff)
qed

lemma name_part_props: "is_name_part c \<Longrightarrow> \<not> is_ws c \<and> c \<noteq> CHR ''/''"
  by (auto simp: char_class_defs)

lemma path_of_name:
  assumes "name \<noteq> []" "list_all is_name_part name"
  shows "trimmed name" "trimmed (''/bin/'' @ name)" "path_segments (''/bin/'' @ name) = [''bin'', name]"
    "js_lower (''/bin/'' @ name) \<notin> set SENSITIVE_COMMANDS"
proof -
  have parts: "\<And>c. c \<in> set name \<Longrightarrow> \<not> is_ws c \<and> c \<noteq> CHR ''/''"
    using assms(2) name_part_props by (auto simp: list_all_iff)
  have single: "js_split (CHR ''/'') name = [name]"
    by (rule js_split_single) (use parts in blast)
  show "trimmed name" "trimmed (''/bin/'' @ name)"
    using assms(1) parts by (auto simp: trimmed_def is_ws_def [of "CHR ''/''"])
  show "path_segments (''/bin/'' @ name) = [''bin'', name]"
    using assms(1) single by (simp add: path_segments_def)
  show "js_lower (''/bin/'' @ name) \<notin> set SENSITIVE_COMMANDS"
  proof
    assume "js_lower (''/bin/'' @ name) \<in> set SENSITIVE_COMMANDS"
    then have "list_all is_name_part (js_lower (''/bin/'' @ name))"
      by (rule sensitive_names(2))
    then show False
      by (simp add: js_lower_def lower_char_def char_class_defs)
  qed
qed

text \<open>C38: The review of sensitive commands compares the whole command, the allow list also its last
  segment: every sensitive command that is allowed is stopped by its name and let through by its
  path, and so \<open>/bin/rm -rf /data\<close> is run without the override.\<close>

theorem sensitive_review_bypassed:
  "list_all (\<lambda>name.
       command_gate (blocked_setting name) (read_step (sample_step ''auto_ok'' [name])) \<noteq> None
       \<and> command_gate (blocked_setting name) (read_step (sample_step ''auto_ok'' [''/bin/'' @ name])) = None
       \<and> rx_sensitiveReviewMode (blocked_setting name) = ReviewBlock \<and> \<not> rx_allowSensitiveExec (blocked_setting name))
     SENSITIVE_COMMANDS
   \<and> (\<exists>r. run_sample ReplayStrict [sample_step ''auto_ok'' [''/bin/rm'', ''-rf'', ''/data'']]
          = (r, [Looked sample_query, DrewUuid, Spawned rm_call]) \<and> lc_argv rm_call = [''/bin/rm'', ''-rf'', ''/data''])"
proof -
  have gate: "command_gate (blocked_setting name) (read_step (sample_step ''auto_ok'' [name])) \<noteq> None"
    "command_gate (blocked_setting name) (read_step (sample_step ''auto_ok'' [''/bin/'' @ name])) = None"
    if "name \<in> set SENSITIVE_COMMANDS" for name
  proof -
    note props = sensitive_names [OF that] and path = path_of_name [OF sensitive_names(1,2) [OF that]]
    define full where "full = ''/bin/'' @ name"
    note full = path(2,3,4) [folded full_def]
    have shape: "full \<noteq> []" "js_starts_with full ''/''" "\<not> isSafeCommandName full"
      by (simp_all add: full_def js_starts_with_def isSafeCommandName_def char_class_defs)
    have bin: "isSafeCommandName ''bin''" "isSafeCommandName name"
      using props by (simp_all add: isSafeCommandName_def char_class_defs)
    have argv: "step_argv (read_step (sample_step ''auto_ok'' [name])) = [name]"
      "step_argv (read_step (sample_step ''auto_ok'' [full])) = [full]"
      using props path(1) full(1) shape(1) by (simp_all add: argv_sample)
    have trims: "js_trim name = name" "js_trim full = full"
      using path(1) full(1) by (simp_all add: js_trim_id)
    note eval = command_gate_None argv command_of_def trims blocked_setting_def resolveReplayConfirmationGate_def
      auto_ok_trim isReplayCommandTool_def resolveReplaySensitiveCommandGate_def sensitive_iff
    show "command_gate (blocked_setting name) (read_step (sample_step ''auto_ok'' [name])) \<noteq> None"
      using that props(3) by (simp add: eval)
    show "command_gate (blocked_setting name) (read_step (sample_step ''auto_ok'' [''/bin/'' @ name])) = None"
      unfolding full_def [symmetric]
      using full shape bin
      by (auto simp: eval resolveReplayCommandAllowlistGate_def isSafeCommandReference_def Let_def
          isAllowedReplayCommand_def resolveCommandReferenceAliases_def path_basename_def)
  qed
  show ?thesis
    using gate sample_rm_run by (auto simp: list_all_iff blocked_setting_def rm_call_def)
qed

lemma simulate_one_step:
  assumes "st_preconditions (read_step step) = []"
    and "ge_effective_mode (evaluate_gate (sample_world [step]) ReplaySimulate (sample_request ReplaySimulate gate)
           (sample_row [step])) = ReplaySimulate"
    and "ge_decision (evaluate_gate (sample_world [step]) ReplaySimulate (sample_request ReplaySimulate gate)
           (sample_row [step])) \<noteq> GateRejected"
  shows "\<exists>res t'. replayPlaybookRun (sample_world [step]) sample_options (sample_request ReplaySimulate gate) t = (Inr res, t')
    \<and> rr_summary res = buildReplaySimulateSummary 1 1 0 0"
proof -
  let ?W = "sample_world [step]" and ?rq = "sample_request ReplaySimulate gate" and ?row = "sample_row [step]"
  define C where "C = setting_of sample_options ?rq sample_tenant ?row ReplaySimulate
    ''22222222-2222-4222-8222-222222222222'' []"
  have C: "\<not> rx_record C"
    by (simp add: C_def setting_of_def records_run_def Let_def)
  obtain u where u: "row_uri sample_tenant ?row (t @ [Looked sample_query, DrewUuid])
      = (Inr u, t @ [Looked sample_query, DrewUuid])"
    using uri_sample by blast
  have uuid: "run_id_of ?W ?rq (t @ [Looked sample_query])
      = (Inr ''22222222-2222-4222-8222-222222222222'', t @ [Looked sample_query, DrewUuid])"
    by (simp add: run_id_of_def ask_def) (simp add: sample_world_def)
  have mode: "rq_mode ?rq = ReplaySimulate"
    by (simp add: sample_request_def)
  show ?thesis
    unfolding replayPlaybookRun_def
    using assms
    by (simp add: then_do_def find_sample uuid mode Let_def C_def [symmetric] simulate_run_def steps_sample when_act_def
        return_act_def write_run_def C check_preconditions_def persist_simulated_def recordable_def u
        count_simulated_def readiness_of_def one_if_def)
qed

text \<open>A simulation looks at the preconditions only: it calls a playbook ready, and safe to run
  strictly, whose one step must be run by hand and so fails every strict run.\<close>

theorem ready_simulation_fails_strictly:
  "\<exists>sim res. fst (run_sample ReplaySimulate [sample_step ''manual_only'' [''ls'']]) = Inr sim
     \<and> map_of (rr_summary sim) ''replay_readiness'' = Some (JStr ''ready'')
     \<and> fst (run_sample ReplayStrict [sample_step ''manual_only'' [''ls'']]) = Inr res \<and> rr_status res = ''failed''"
proof -
  let ?step = "sample_step ''manual_only'' [''ls'']"
  have manual: "js_trim ''manual_only'' = ''manual_only''"
    by (simp add: js_trim_def is_ws_def)
  have "\<exists>sim. fst (run_sample ReplaySimulate [?step]) = Inr sim
      \<and> map_of (rr_summary sim) ''replay_readiness'' = Some (JStr ''ready'')"
    using simulate_one_step [of ?step None "[]"] by (auto simp: evaluate_gate_def evaluateReplayDeterministicGate_def sample_request_def
        resolveReplayDeterministicGate_def asObject_def Let_def buildReplaySimulateSummary_def run_sample_def)
  moreover obtain h t where h: "replay_step (sample_world [?step]) (sample_setting ReplayStrict [?step]) ?step
      [Looked sample_query, DrewUuid] = (Inr h, t)" "ct_failed (hs_delta h) = 1"
    by (simp add: replay_step_def Let_def step_before_def recordable_def check_preconditions_def act_eval
        resolveReplayPreconditionGate_def command_gate_def resolveReplayConfirmationGate_def manual gated_step_def
        handleReplayStrictGateStep_def writeStepAfter_def)
  obtain res where "run_sample ReplayStrict [?step] = (Inr res, t)"
      "rr_status res = final_status ReplayStrict (applyReplayRunStepDelta zero_counters (hs_delta h))"
    using run_one_step [OF _ h(1)] by auto
  then have "\<exists>res. fst (run_sample ReplayStrict [?step]) = Inr res \<and> rr_status res = ''failed''"
    by (simp add: final_status_def h(2))
  ultimately show ?thesis by blast
qed

lemma unpromoted_mode:
  assumes "rq_mode rq = ReplaySimulate" "\<not> dg_prefer (resolveReplayDeterministicGate (rq_deterministic_gate rq))"
  shows "run_mode_of W rq row = ReplaySimulate"
    "\<not> ge_inference_skipped (evaluate_gate W (rq_mode rq) rq row)"
  using assms by (simp_all add: run_mode_of_def evaluate_gate_def evaluateReplayDeterministicGate_def Let_def)

lemma unpromoted_run:
  assumes "replayPlaybookRun W opts rq t = (Inr res, t')" "rq_mode rq = ReplaySimulate"
    and "\<not> dg_prefer (resolveReplayDeterministicGate (rq_deterministic_gate rq))"
  shows "executions t' = executions t \<and> rr_mode res = ReplaySimulate \<and> \<not> ge_inference_skipped (rr_gate res)"
proof -
  obtain ten row where mode: "rr_mode res = run_mode_of W rq row"
    and same: "rr_mode res = ReplaySimulate \<Longrightarrow> executions t' = executions t"
    by (rule run_accounts [OF assms(1)]) blast
  obtain ten' row' t2 i where
    "simulate_run W rq ten' row' (evaluate_gate W (rq_mode rq) rq row')
       (setting_of opts rq ten' row' ReplaySimulate i []) t2 = (Inr res, t')"
    by (rule run_parts [OF assms(1)]) (simp add: unpromoted_mode [OF assms(2,3)])
  then have "rr_gate res = evaluate_gate W (rq_mode rq) rq row'"
    by (auto simp: simulate_run_def Let_def then_do_Inr return_act_def)
  then show ?thesis
    using mode same unpromoted_mode [OF assms(2,3)] by simp
qed

text \<open>C39: A dispatch whose gate matches reports an executed replay and a skipped inference whatever
  the replay did: if the request does not prefer deterministic execution, the replay was a
  simulation and nothing was run.\<close>

theorem dispatch_claims_execution:
  assumes "replayPlaybookDispatch W opts rq fallbackMode executeFallback t = (Inr d, t')"
    and "dp_decision d = ReplayExecuted"
    and "\<not> dg_prefer (resolveReplayDeterministicGate (rq_deterministic_gate rq))"
  shows "dp_inference_skipped d \<and> executions t' = executions t
    \<and> (\<exists>res. dp_replay d = Some res \<and> rr_mode res = ReplaySimulate \<and> \<not> ge_inference_skipped (rr_gate res))"
proof -
  have read: "idle (requireReplayReadAccess opts)" "idle (replayPlaybookCandidate W opts rq)"
    by (simp_all add: requireReplayReadAccess_def replayPlaybookCandidate_def idle_simps split: prod.split)
  obtain u t1 candidate t2 where access: "requireReplayReadAccess opts t = (Inr u, t1)"
    "replayPlaybookCandidate W opts rq t1 = (Inr candidate, t2)"
    and rest: "(if cn_eligible candidate then
         then_do (replayPlaybookRun W opts (rq\<lparr>rq_mode := ReplaySimulate\<rparr>)) (\<lambda>replay.
           return_act (buildReplayDispatchSurface ReplayExecuted True False candidate (Some replay) (Some (rr_gate replay))))
       else if \<not> executeFallback then
         return_act (buildReplayDispatchSurface CandidateOnly False False candidate None (Some (cn_gate candidate)))
       else
         then_do (replayPlaybookRun W opts (rq\<lparr>rq_mode := fallbackMode, rq_deterministic_gate := None\<rparr>)) (\<lambda>replay.
           return_act (buildReplayDispatchSurface FallbackExecuted False True candidate (Some replay) (Some (rr_gate replay))))) t2
      = (Inr d, t')"
    using assms(1) by (auto simp: replayPlaybookDispatch_def then_do_Inr)
  have same: "executions t2 = executions t"
    using idle_executions [of "requireReplayReadAccess opts", OF read(1) access(1)]
      idle_executions [of "replayPlaybookCandidate W opts rq", OF read(2) access(2)] by simp
  obtain res where run: "replayPlaybookRun W opts (rq\<lparr>rq_mode := ReplaySimulate\<rparr>) t2 = (Inr res, t')"
    and d: "dp_replay d = Some res" "dp_inference_skipped d"
    using rest assms(2)
    by (auto simp: then_do_Inr return_act_def buildReplayDispatchSurface_def split: if_splits)
  show ?thesis
    using unpromoted_run [OF run] assms(3) d same by simp
qed

definition lenient_gate :: jv where
  "lenient_gate = JObj [(''prefer_deterministic_execution'', JBool False)]"

lemma lenient_gate_evaluation:
  "ge_matched (evaluate_gate (sample_world steps) mode (sample_request mode' (Some lenient_gate)) (sample_row steps))"
  "\<not> dg_prefer (resolveReplayDeterministicGate (Some lenient_gate))"
  "ge_effective_mode (evaluate_gate (sample_world steps) mode (sample_request mode' (Some lenient_gate)) (sample_row steps)) = mode"
  "ge_decision (evaluate_gate (sample_world steps) mode (sample_request mode' (Some lenient_gate)) (sample_row steps)) \<noteq> GateRejected"
  by (simp_all add: evaluate_gate_def evaluateReplayDeterministicGate_def sample_request_def lenient_gate_def
      resolveReplayDeterministicGate_def asObject_def is_plain_object_def obj_get_def proto_keys_def default_statuses_def
      same_shape_def sample_row_def Let_def)

theorem dispatch_claims_execution_witness:
  "\<exists>d t'. replayPlaybookDispatch (sample_world [sample_step ''auto_ok'' [''ls'']]) sample_options
       (sample_request ReplaySimulate (Some lenient_gate)) ReplaySimulate True [] = (Inr d, t')
     \<and> dp_decision d = ReplayExecuted \<and> dp_inference_skipped d \<and> executions t' = 0"
proof -
  let ?step = "sample_step ''auto_ok'' [''ls'']"
  let ?W = "sample_world [?step]" and ?rq = "sample_request ReplaySimulate (Some lenient_gate)"
  obtain u where u: "row_uri sample_tenant (sample_row [?step]) [Looked sample_query] = (Inr u, [Looked sample_query])"
    using uri_sample by blast
  obtain res t' where run: "replayPlaybookRun ?W sample_options ?rq [Looked sample_query] = (Inr res, t')"
    using simulate_one_step [of ?step "Some lenient_gate" "[Looked sample_query]"]
    by (auto simp: lenient_gate_evaluation)
  have same: "?rq\<lparr>rq_mode := ReplaySimulate\<rparr> = ?rq"
    by (simp add: sample_request_def)
  have access: "requireReplayReadAccess sample_options [] = (Inr (), [])"
    by (simp add: requireReplayReadAccess_def sample_options_def return_act_def)
  have "\<exists>d. replayPlaybookDispatch ?W sample_options ?rq ReplaySimulate True [] = (Inr d, t') \<and> dp_decision d = ReplayExecuted"
    by (simp add: replayPlaybookDispatch_def replayPlaybookCandidate_def then_do_def access find_sample u Let_def
        return_act_def buildReplayPlaybookCandidateSurface_def lenient_gate_evaluation same run
        buildReplayDispatchSurface_def)
  then obtain d where d: "replayPlaybookDispatch ?W sample_options ?rq ReplaySimulate True [] = (Inr d, t')"
    "dp_decision d = ReplayExecuted"
    by blast
  have "\<not> dg_prefer (resolveReplayDeterministicGate (rq_deterministic_gate ?rq))"
    using lenient_gate_evaluation(2) by (simp add: sample_request_def)
  from dispatch_claims_execution [OF d this] d show ?thesis
    by (auto simp: executions_def)
qed

end
