(* ===== verification/Spec2Isabelle.thy ===== *)
theory Spec2Isabelle
  imports PropsRuntime PropsExec PropsPolicy PropsUtil PropsAuthority PropsSandbox PropsAutomation PropsReplay
begin

text \<open>
  A verification library for the Aionis runtime.

  \<^bold>\<open>The program.\<close>  Aionis keeps execution memory for agents.  The model covers its
  document language (packages/aionis-doc: scanner, parser, compiler to an intermediate form,
  execution graph and plan, and the runtime that executes a plan on a registry of modules), the
  execution kernel (src/execution: the state of a task, its transitions, the store that holds it
  and the packets built from it), the rules that govern the choice of a tool (src/memory:
  tenants, conditions, rule and tool policies, the selection), the trust a contract may claim
  and the evidence it needs (src/memory), the sandbox that runs commands for an agent (src/memory,
  src/store), the automations that run a graph of playbooks and approvals (src/memory,
  src/store), the replay of a stored playbook of commands (src/memory), and the utilities a request passes through (src/util: client addresses, admission
  gate, embedding batcher, cache).

  \<^bold>\<open>Foundations.\<close>  Prelude has errors as \<open>Inl\<close>, loops over a result
  (\<open>fold_result\<close>, \<open>traverse\<close>) and duplicate removal in the order of first
  occurrence.  StateMachine has invariants of a transition relation (locale
  \<open>invariant_system\<close>) and stable sorting.  JsString, JsNumber, JsMap and JsValue model what
  the sources use of the language: strings as lists of 8-bit characters, numbers rounded to
  double precision, insertion-ordered maps (interpretations \<open>js_map\<close>, \<open>own_props\<close> and
  \<open>props\<close> of the store interfaces), values, property order, and members inherited from
  the object prototype.  JsConvert has the arithmetic and comparison of numbers, truth,
  \<^verbatim>\<open>String\<close>, \<^verbatim>\<open>Number\<close> and the members of any value; it does not distinguish -0
  from 0.  JsJson is \<^verbatim>\<open>JSON.stringify\<close> and the canonical text of a value, which does not
  depend on the order of its members.  Effects has operations on a state that may fail and keep
  the state they have reached; the automations and the replay are written with it.

  \<^bold>\<open>Documents.\<close>  DocScanner is scanner/scanSource.ts; DocPayload is parser/payload.ts,
  DocPayloadPrint and DocPayloadRoundtrip a printer for it and the round trip; DocParser is
  parser/parseAst.ts, DocParserSpans shows where nodes lie, DocDirectives prints directives and
  reads them back.  DocIr is the normalisation of compile.ts, DocAnalysis
  schema/validateIrSchemas.ts and refs/resolveRefs.ts, DocGraph graph/buildExecutionGraph.ts
  with a graph defined from the references alone, DocPlan plan/buildExecutionPlan.ts and the
  pipeline of compile.ts.  DocCompileRoundtrip composes them.  DocContracts and DocRuntime are
  execute/moduleRuntime.ts: \<open>execute_step\<close> is the body of the loop, with one branch per
  early \<^verbatim>\<open>continue\<close>; DocRuntimeSafety has the invariant of the loop.  DocExecute
  is execute/localRuntime.ts and execute.ts.

  \<^bold>\<open>Execution kernel.\<close>  ExecTypes has the schemas of src/execution/types.ts as parsers
  into records, ExecTransitions transitions.ts, ExecStore state-store.ts, packet.ts,
  profiles.ts and assemble.ts.  The validation of a string, a date and a uuid by the schema
  library is a parameter (\<open>zod\<close>); the only law used of it (\<open>zod_ok\<close>) is that what it
  accepts it accepts again unchanged.

  \<^bold>\<open>Rules and tools.\<close>  Tenancy is memory/tenant.ts with the errors of util/http.ts: scope
  keys that separate tenants.  RuleEngine is rule-engine.ts (the matcher and the check of
  regular expressions), RulePatterns shows what it computes: equality up to the order of
  members, patterns without operators as an order on JSON, the Boolean connectives.  RulePolicy
  is rule-policy.ts (the schema of a patch and the merge), ToolPolicy tool-policy.ts,
  ToolSelector tool-selector.ts, ToolRegistry tool-registry.ts.  RuleEvaluation is
  rules-evaluate.ts, \<open>evaluate_row\<close> the body of its loop; RuleEvaluationSafety shows which
  rows take part, that each is counted once, and which rule wins a conflict.  ToolSelection is
  tools-select.ts from the parsed request to the recorded decision, ToolSelectionSafety what a
  selected tool has passed.  Parameters: the regular expression engine (\<open>re\<close>), the comparison
  of strings (\<open>loc\<close>, with the law \<open>loc_order\<close> that it is a total preorder), the rule
  candidates the store lists for a scope key (\<open>load\<close>), the recalled patterns, the schema of the
  execution state, the digest and the identifier of a decision.

  \<^bold>\<open>Trust and evidence.\<close>  ContractTrust is contract-trust.ts: the levels of trust as a linear
  order, the gate on the outcome a contract promises, the trust for steering.  ExecutionEvidence
  is execution-evidence.ts: the schemas as parsers, the extraction of evidence from what a run
  left behind, and its assessment; \<open>Inl\<close> is an exception of the source.  AuthorityGate is
  authority-gate.ts, which joins the two.

  \<^bold>\<open>Sandbox.\<close>  SandboxNetwork is sandbox-network.ts (host rules, addresses, blocks).
  SandboxStore has sandbox-shared.ts, the requests of sandbox.ts and the statements of
  lite-host-store.ts as operations on lists of rows, and that rows only move forward
  (\<open>advances\<close>, \<open>moves\<close>).  SandboxRun has the decisions of sandbox-executor.ts before
  and after a process or a remote request, with the capture of output by bytes and its decoding, and
  the requests of sandbox.ts that show the output; SandboxExecutor has its queue, tasks, timers, recovery
  and shutdown as a transition system (\<open>exec_step\<close>): every await of \<^verbatim>\<open>processRun\<close> is a
  phase of a task, and steps of tasks, requests and timers interleave.  SandboxExecutorSafety
  shows its invariant and that the command of a task is that of its row.  Parameters: \<^verbatim>\<open>isIP\<close> of node:net, the host name of a URL,
  \<^verbatim>\<open>JSON.parse\<close>, the text of a date, and what a process or a remote executor answers; no
  law is assumed of them.  The output of a run is held as its UTF-8 encoding, since the code cuts
  it by bytes: \<open>utf8_text\<close> decodes bytes as \<^verbatim>\<open>Buffer\<close> does, with U+FFFD for what is
  no character.

  \<^bold>\<open>Automations.\<close>  These are memory/automation-lite.ts, store/lite-automation-store.ts and
  store/lite-automation-run-store.ts.  AutomationGraph has the graphs and
  \<^verbatim>\<open>validateAutomationGraph\<close>, AutomationOrder what its checks mean: a graph is accepted
  exactly when it is well formed and acyclic and its references point backwards, and its nodes
  are then listed with their dependencies first.  AutomationBinding resolves references and
  conditions, AutomationStore has the tables as maps, AutomationRun the requests and the loop
  over the nodes.  The loop awaits one thing, the runner of a playbook: there it is
  \<open>RunSuspended\<close>, and \<open>settle_replay\<close> goes on with the answer; all else runs in one task of
  the event loop and so without interruption.  \<open>automation_step\<close> interleaves requests with
  the answers and failures of runners.  AutomationRunSafety, AutomationInvariant,
  AutomationKernel and AutomationSystem show its invariant and interpret the
  interface of StateMachine on it.  Parameters: the runner's answers, texts of the clock,
  identifiers, and the identity of objects (\<open>same\<close>).  Columns of JSON text hold
  the values themselves, and an undefined member is null.  The runtime summary and the schemas
  of the requests are left out.

  \<^bold>\<open>Replay.\<close>  A playbook is a list of steps, each a command with checks around it; a
  run simulates them, executes them strictly (a failed step ends the run unless the request says
  otherwise) or guided (a failed step gets a proposal for its repair).  ReplayCommands and
  ReplayChecks are replay-execution-helpers.ts: the commands a step may name, the review of
  sensitive ones, preconditions, the execution of a command, its signature and postconditions.
  ToolResultSummary is tool-result-summary.ts, ReplayRepair replay-guided-repair.ts.
  ReplayReports has the gates, reports, results and summaries of the files replay-run-*.ts,
  ReplaySteps the handlers of replay-run-step-flow.ts, the body of the loop of
  \<^verbatim>\<open>replayPlaybookRun\<close> (\<open>replay_step\<close>) and the simulation.  ReplayRun has the
  deterministic gate of replay-compile-helpers.ts, the settings, \<open>replayPlaybookRun\<close>, the
  candidate and the dispatch of replay.ts, with the cost signals and addresses they report.
  ReplayWorld has the world outside: every call to it is an event of a trace, and its answer is a
  function of the trace so far and of the call, about which nothing is assumed.  The predicate
  \<open>runs A G m Q\<close> says that from a trace in \<open>A\<close> the operation \<open>m\<close> makes only calls
  allowed by \<open>G\<close> and returns with \<open>Q\<close>; its rules are proved once, in ReplayWorld.
  ReplaySafety shows with it where a command is run and what was checked before, and that the
  counters of a run agree with its reports and with the commands run.  A request takes the first
  \<open>max_steps\<close> steps of the playbook (\<open>steps_of\<close>); what is said of a run is said of these.  Parameters are the file
  system, environment, ports and processes, the sandbox and its budget, fetch, the store of
  playbooks and of recorded runs, the clock, UUIDs, SHA-256, regular expressions and
  \<^verbatim>\<open>JSON.parse\<close>.  The schemas of the requests are left out, and the prompt of a
  language model is the value it is written from.

  \<^bold>\<open>Utilities.\<close>  IpGuard is ip-guard.ts on 32-bit words; LruCache is
  lru_ttl_cache.ts; InflightGate is inflight_gate.ts as a transition system whose steps are
  the calls, the expiry of a waiter's timer and the release of a token; EmbedBatcher and
  EmbedBatcherSafety are embed_query_batcher.ts as a transition system whose steps are calls,
  timers and the completion of a batch, in any order.

  \<^bold>\<open>Properties.\<close>  PropsDoc, PropsRuntime, PropsExec, PropsPolicy, PropsAuthority,
  PropsSandbox, PropsAutomation, PropsReplay and PropsUtil state the properties, numbered, each
  with a witness where it has hypotheses.

  \<^bold>\<open>Bounds.\<close>  The payload parser runs with fuel twice the length of the text plus one,
  which is proved to be enough (\<open>payload_parse_total\<close>); every other loop is structural
  or has a measure.

  \<^bold>\<open>Not modelled.\<close>  Command line tools, file and network access, the SQL stores (the
  tables of the sandbox and of the automations apart), the HTTP routes, the SDK packages and the scripts: they call
  libraries and services.  Of the memory subsystem the rules, the selection of tools, the
  authority of evidence, the sandbox, the automations and the runs of a replay are modelled:
  recall, writing, learning and governance are not, nor the recording, compilation, promotion,
  repair and review of playbooks, which write to the store of the memory.  Characters beyond 8 bits are outside the string model, the
  output of the sandbox apart.
\<close>

end
